(* ===== verification/Prelude.thy ===== *)
theory Prelude
  imports Main "HOL-Library.AList" "HOL-Library.Multiset" "HOL-Library.Char_ord" "HOL-Library.List_Lexorder"
begin

text \<open>
  Shared vocabulary of the development: instants and durations, Go maps, the small library
  functions of Go the modelled code calls, and the generic lemmas about them.

  Instants (\<open>time.Time\<close>) and durations (\<open>time.Duration\<close>) are integers counting nanoseconds;
  the zero instant, the one \<open>IsZero\<close> recognises, is \<open>0\<close>. \<open>a.Before(b)\<close> is \<open>a < b\<close>,
  \<open>a.After(b)\<close> is \<open>b < a\<close>, \<open>a.Add(d)\<close> is \<open>a + d\<close> and \<open>a.Sub(b)\<close> is \<open>a - b\<close>.

  A Go map is an association list with distinct keys. The order of the list is the order one
  iteration over the map visits the entries in: Go leaves that order unspecified, so a result
  that must not depend on it is proved invariant under permutation of the list.
\<close>

type_synonym "time" = int
type_synonym duration = int

definition second :: duration where
  "second = 1000000000"

definition minute :: duration where
  "minute = 60 * second"

section \<open>Collections of rewrite rules\<close>

named_theorems go_simps "evaluation rules of the Go library functions"
named_theorems frame_simps "fields an operation leaves alone"

text \<open>A guard with an early return, and its negation once the result is known.\<close>

lemma guard_Some: "(if b then None else x) = Some r \<longleftrightarrow> \<not> b \<and> x = Some r"
  by simp

section \<open>Go maps\<close>

type_synonym ('k, 'v) gomap = "('k \<times> 'v) list"

definition has_key :: "('k, 'v) gomap \<Rightarrow> 'k \<Rightarrow> bool" where
  "has_key m k = (map_of m k \<noteq> None)"

text \<open>Reading an absent key yields the zero value \<open>z\<close> of the element type.\<close>

definition lkp :: "'v \<Rightarrow> ('k, 'v) gomap \<Rightarrow> 'k \<Rightarrow> 'v" where
  "lkp z m k = (case map_of m k of None \<Rightarrow> z | Some v \<Rightarrow> v)"

definition wf_map :: "('k, 'v) gomap \<Rightarrow> bool" where
  "wf_map m = distinct (map fst m)"

lemma lkp_update [go_simps]: "lkp z (AList.update k v m) k' = (if k' = k then v else lkp z m k')"
  by (simp add: lkp_def update_conv)

lemma has_key_update [go_simps]: "has_key (AList.update k v m) k' \<longleftrightarrow> k' = k \<or> has_key m k'"
  by (simp add: has_key_def update_conv)

lemma set_update_subset: "set (AList.update k v m) \<subseteq> insert (k, v) (set m)"
  by (induction m) auto

lemma lkp_delete [go_simps]: "lkp z (AList.delete k m) k' = (if k' = k then z else lkp z m k')"
  by (simp add: lkp_def delete_conv)

lemma has_key_delete [go_simps]: "has_key (AList.delete k m) k' \<longleftrightarrow> k' \<noteq> k \<and> has_key m k'"
  by (simp add: has_key_def delete_conv)

lemma wf_map_update [intro]: "wf_map m \<Longrightarrow> wf_map (AList.update k v m)"
  by (simp add: wf_map_def distinct_update)

lemma wf_map_delete [intro]: "wf_map m \<Longrightarrow> wf_map (AList.delete k m)"
  by (simp add: wf_map_def distinct_delete)

lemma wf_map_perm: "mset m = mset m' \<Longrightarrow> wf_map m \<longleftrightarrow> wf_map m'"
  unfolding wf_map_def by (metis mset_eq_imp_distinct_iff mset_map)

lemma map_of_perm: "wf_map m \<Longrightarrow> mset m = mset m' \<Longrightarrow> map_of m = map_of m'"
  using map_of_eqI [of m m'] wf_map_perm [of m m']
  by (metis map_of_inject_set mset_eq_setD wf_map_def)

lemma lkp_perm: "wf_map m \<Longrightarrow> mset m = mset m' \<Longrightarrow> lkp z m k = lkp z m' k"
  using map_of_perm [of m m'] by (simp add: lkp_def)

lemma has_key_iff: "has_key m k \<longleftrightarrow> k \<in> fst ` set m"
  by (simp add: has_key_def map_of_eq_None_iff)

lemma lkp_in_set: "wf_map m \<Longrightarrow> (k, v) \<in> set m \<Longrightarrow> lkp z m k = v"
  by (simp add: lkp_def wf_map_def)

section \<open>Searching and sorting slices\<close>

text \<open>\<open>stringslice.Index\<close>: the position of the first occurrence, \<open>-1\<close> when absent.\<close>

fun Index_from :: "int \<Rightarrow> 'a \<Rightarrow> 'a list \<Rightarrow> int" where
  "Index_from i s [] = -1"
| "Index_from i s (e # l) = (if e = s then i else Index_from (i + 1) s l)"

definition Index :: "'a \<Rightarrow> 'a list \<Rightarrow> int" where
  "Index s l = Index_from 0 s l"

text \<open>\<open>stringslice.Remove\<close>: the elements other than the one given.\<close>

fun Remove :: "'a list \<Rightarrow> 'a \<Rightarrow> 'a list" where
  "Remove [] x = []"
| "Remove (i # l) x = (if i \<noteq> x then i # Remove l x else Remove l x)"

text \<open>
  \<open>sort.SliceStable\<close> and \<open>slices.SortStableFunc\<close> with a comparison of keys: a stable sort,
  which the library's \<open>sort_key\<close> is.
\<close>

text \<open>\<open>strings.Join\<close> and \<open>strings.HasSuffix\<close>.\<close>

fun Join :: "string \<Rightarrow> string list \<Rightarrow> string" where
  "Join sep [] = []"
| "Join sep [x] = x"
| "Join sep (x # y # l) = x @ sep @ Join sep (y # l)"

definition HasSuffix :: "string \<Rightarrow> string \<Rightarrow> bool" where
  "HasSuffix s suf = (length suf \<le> length s \<and> drop (length s - length suf) s = suf)"

lemma Index_from_absent: "x \<notin> set l \<Longrightarrow> Index_from i x l = -1"
  by (induction l arbitrary: i) auto

lemma Index_from_present: "x \<in> set l \<Longrightarrow> i \<le> Index_from i x l \<and> Index_from i x l < i + int (length l)"
proof (induction l arbitrary: i)
  case Nil
  then show ?case by simp
next
  case (Cons a l)
  show ?case
  proof (cases "a = x")
    case True
    then show ?thesis by simp
  next
    case False
    with Cons.prems have "x \<in> set l" by simp
    then have "i + 1 \<le> Index_from (i + 1) x l \<and> Index_from (i + 1) x l < i + 1 + int (length l)"
      by (rule Cons.IH)
    with False show ?thesis by simp
  qed
qed

lemma Index_negative_iff [go_simps]: "Index x l < 0 \<longleftrightarrow> x \<notin> set l"
  using Index_from_absent [of x l 0] Index_from_present [of x l 0] by (force simp: Index_def)

lemma Index_from_nth: "x \<in> set l \<Longrightarrow> 0 \<le> i \<Longrightarrow> l ! nat (Index_from i x l - i) = x"
proof (induction l arbitrary: i)
  case Nil
  then show ?case by simp
next
  case (Cons a l)
  show ?case
  proof (cases "a = x")
    case True
    then show ?thesis by simp
  next
    case False
    with Cons.prems have x: "x \<in> set l" by simp
    then have IH: "l ! nat (Index_from (i + 1) x l - (i + 1)) = x"
      using Cons.IH [of "i + 1"] Cons.prems by simp
    have "nat (Index_from (i + 1) x l - i) = Suc (nat (Index_from (i + 1) x l - (i + 1)))"
      using Index_from_present [OF x, of "i + 1"] by linarith
    with False IH show ?thesis by simp
  qed
qed

lemma Index_less_take: "x \<in> set l \<Longrightarrow> Index x l < int k \<Longrightarrow> x \<in> set (take k l)"
proof -
  assume x: "x \<in> set l" and k: "Index x l < int k"
  have b: "0 \<le> Index x l \<and> Index x l < int (length l)"
    using Index_from_present [OF x, of 0] by (simp add: Index_def)
  have "l ! nat (Index x l) = x"
    using Index_from_nth [OF x, of 0] by (simp add: Index_def)
  moreover have "nat (Index x l) < min k (length l)" using b k by auto
  ultimately show ?thesis
    by (metis in_set_conv_nth length_take min.commute min_less_iff_conj nth_take)
qed

lemma take_Index_less: "distinct l \<Longrightarrow> x \<in> set (take k l) \<Longrightarrow> Index x l < int k"
proof -
  have "distinct l \<Longrightarrow> x \<in> set (take k l) \<Longrightarrow> Index_from i x l < i + int k" for i
  proof (induction l arbitrary: i k)
    case Nil
    then show ?case by simp
  next
    case (Cons a l)
    then obtain k' where k': "k = Suc k'" by (cases k) auto
    show ?case
    proof (cases "a = x")
      case True
      with k' show ?thesis by simp
    next
      case False
      with Cons.prems k' have "x \<in> set (take k' l)" by simp
      then have "Index_from (i + 1) x l < i + 1 + int k'" using Cons.IH Cons.prems by simp
      with False k' show ?thesis by simp
    qed
  qed
  then show "distinct l \<Longrightarrow> x \<in> set (take k l) \<Longrightarrow> Index x l < int k"
    unfolding Index_def by (metis add_0)
qed

lemma set_Remove [simp]: "set (Remove l x) = set l - {x}"
  by (induction l) auto

section \<open>Text encodings of enumerations\<close>

text \<open>
  The contract between the peers of a cluster about an enumeration they exchange as text: what
  one encodes, another decodes to the same value. Values that share a text could not satisfy it.
\<close>

locale text_codec =
  fixes marshal :: "'a \<Rightarrow> string option" and unmarshal :: "string \<Rightarrow> 'a"
  assumes marshal_total: "marshal x \<noteq> None"
    and unmarshal_marshal: "marshal x = Some s \<Longrightarrow> unmarshal s = x"
begin

lemma marshal_inject: "marshal x = marshal y \<longleftrightarrow> x = y"
  by (metis marshal_total not_None_eq unmarshal_marshal)

lemma unmarshal_the: "unmarshal (the (marshal x)) = x"
  using marshal_total [of x] unmarshal_marshal by auto

lemma unmarshal_surj: "\<exists>s. unmarshal s = x"
  by (metis unmarshal_the)

end

section \<open>Folds whose order does not matter\<close>

text \<open>
  The contract of an accumulation over a set of states: adding two contributions in either
  order gives the same aggregate. A client that folds over a Go map, or collects results of
  goroutines, needs exactly this law.
\<close>

locale order_free =
  fixes add :: "'a \<Rightarrow> 'b \<Rightarrow> 'a"
  assumes add_swap: "add (add a x) y = add (add a y) x"
begin

lemma foldl_snoc: "foldl add (add a x) xs = add (foldl add a xs) x"
  by (induction xs arbitrary: a) (simp_all add: add_swap)

lemma foldl_remove1: "x \<in> set xs \<Longrightarrow> foldl add a xs = foldl add (add a x) (remove1 x xs)"
  by (induction xs arbitrary: a) (auto simp: add_swap)

lemma foldl_perm: "mset xs = mset ys \<Longrightarrow> foldl add a xs = foldl add a ys"
proof (induction xs arbitrary: ys a)
  case Nil
  then show ?case by simp
next
  case (Cons x xs)
  then have x: "x \<in> set ys" by (metis list.set_intros(1) mset_eq_setD)
  have "mset xs = mset (remove1 x ys)" using Cons.prems by (metis add_mset_remove_trivial mset.simps(2) mset_remove1)
  then have "foldl add (add a x) xs = foldl add (add a x) (remove1 x ys)" by (rule Cons.IH)
  with foldl_remove1 [OF x] show ?case by simp
qed

end

text \<open>
  An aggregation is a commutative, associative and idempotent addition with a neutral start: a
  join of contributions, whose fold depends on the set of contributions only.
\<close>

locale aggregation =
  fixes add :: "'a \<Rightarrow> 'a \<Rightarrow> 'a" and start :: 'a
  assumes add_assoc: "add (add x y) z = add x (add y z)"
    and add_commute: "add x y = add y x"
    and add_start: "add start x = x"
    and add_idem: "add x x = x"

sublocale aggregation \<subseteq> order_free add
proof
  show "add (add a x) y = add (add a y) x" for a x y
    by (metis add_assoc add_commute)
qed

context aggregation
begin

definition below :: "'a \<Rightarrow> 'a \<Rightarrow> bool" where
  "below x y \<longleftrightarrow> add x y = y"

lemma foldl_start: "foldl add a xs = add a (foldl add start xs)"
  by (metis add_commute add_start foldl_snoc)

lemma below_refl: "below x x"
  by (simp add: below_def add_idem)

lemma below_trans: "below x y \<Longrightarrow> below y z \<Longrightarrow> below x z"
  by (metis add_assoc below_def)

lemma below_antisym: "below x y \<Longrightarrow> below y x \<Longrightarrow> x = y"
  by (metis add_commute below_def)

lemma below_add: "below x (add x y)"
  by (metis add_assoc add_idem below_def)

lemma start_below: "below start x"
  by (simp add: below_def add_start)

lemma foldl_upper: "x \<in> set xs \<Longrightarrow> below x (foldl add a xs)"
  by (metis below_add add_commute foldl_remove1 foldl_snoc)

lemma foldl_least: "below a b \<Longrightarrow> (\<And>x. x \<in> set xs \<Longrightarrow> below x b) \<Longrightarrow> below (foldl add a xs) b"
  by (induction xs arbitrary: a) (auto simp: below_def add_assoc)

lemma foldl_set: "set xs = set ys \<Longrightarrow> foldl add start xs = foldl add start ys"
  by (rule below_antisym) (auto intro!: foldl_least intro: foldl_upper start_below)

end

end
