(* ===== verification/Status.thy ===== *)
theory Status
  imports Prelude
begin

text \<open>
  The status of a resource, an instance or an object: \<open>core/status/status.go\<close>. The Go type is
  an integer whose named values are powers of two, so that the addition of two statuses is a
  switch on their bitwise disjunction; the model keeps the integer value of each status
  (\<open>status_val\<close>), the two string tables and that switch.
\<close>

unbundle bit_operations_syntax

section \<open>Values\<close>

datatype status =
    StUndef
  | StNotApplicable
  | StUp
  | StDown
  | StWarn
  | StStandbyUp
  | StStandbyDown
  | StStandbyUpWithUp
  | StStandbyUpWithDown

fun status_val :: "status \<Rightarrow> int" where
  "status_val StUndef = 0"
| "status_val StNotApplicable = 1"
| "status_val StUp = 2"
| "status_val StDown = 4"
| "status_val StWarn = 8"
| "status_val StStandbyUp = 16"
| "status_val StStandbyDown = 32"
| "status_val StStandbyUpWithUp = 64"
| "status_val StStandbyUpWithDown = 128"

section \<open>String tables\<close>

definition status_toString :: "(status, string) gomap" where
  "status_toString =
    [(StUp, ''up''), (StDown, ''down''), (StWarn, ''warn''), (StNotApplicable, ''n/a''),
     (StUndef, ''undef''), (StStandbyUp, ''stdby up''), (StStandbyDown, ''stdby down''),
     (StStandbyUpWithUp, ''up''), (StStandbyUpWithDown, ''stdby up'')]"

definition status_toID :: "(string, status) gomap" where
  "status_toID =
    [(''up'', StUp), (''down'', StDown), (''warn'', StWarn), (''n/a'', StNotApplicable),
     (''undef'', StUndef), (''stdby up'', StStandbyUp), (''stdby down'', StStandbyDown)]"

text \<open>
  \<open>strings.TrimSpace\<close> on UTF-8 text: the encodings of the code points Unicode calls white space
  are removed at both ends.
\<close>

definition white_space :: "string list" where
  "white_space =
    [[CHR 0x09], [CHR 0x0A], [CHR 0x0B], [CHR 0x0C], [CHR 0x0D], [CHR 0x20],
     [CHR 0xC2, CHR 0x85], [CHR 0xC2, CHR 0xA0], [CHR 0xE1, CHR 0x9A, CHR 0x80],
     [CHR 0xE2, CHR 0x80, CHR 0x80], [CHR 0xE2, CHR 0x80, CHR 0x81], [CHR 0xE2, CHR 0x80, CHR 0x82],
     [CHR 0xE2, CHR 0x80, CHR 0x83], [CHR 0xE2, CHR 0x80, CHR 0x84], [CHR 0xE2, CHR 0x80, CHR 0x85],
     [CHR 0xE2, CHR 0x80, CHR 0x86], [CHR 0xE2, CHR 0x80, CHR 0x87], [CHR 0xE2, CHR 0x80, CHR 0x88],
     [CHR 0xE2, CHR 0x80, CHR 0x89], [CHR 0xE2, CHR 0x80, CHR 0x8A], [CHR 0xE2, CHR 0x80, CHR 0xA8],
     [CHR 0xE2, CHR 0x80, CHR 0xA9], [CHR 0xE2, CHR 0x80, CHR 0xAF], [CHR 0xE2, CHR 0x81, CHR 0x9F],
     [CHR 0xE3, CHR 0x80, CHR 0x80]]"

definition has_prefix :: "string \<Rightarrow> string \<Rightarrow> bool" where
  "has_prefix s p = (take (length p) s = p)"

fun trim_left :: "string list \<Rightarrow> string \<Rightarrow> string" where
  "trim_left ws [] = []"
| "trim_left ws (c # s) =
    (case filter (\<lambda>w. w \<noteq> [] \<and> has_prefix (c # s) w) ws of
       [] \<Rightarrow> c # s
     | w # _ \<Rightarrow> trim_left ws (drop (length w - 1) s))"

definition TrimSpace :: "string \<Rightarrow> string" where
  "TrimSpace s = rev (trim_left (map rev white_space) (rev (trim_left white_space s)))"

definition status_Parse :: "string \<Rightarrow> status" where
  "status_Parse s = (case map_of status_toID (TrimSpace s) of Some st \<Rightarrow> st | None \<Rightarrow> StUndef)"

definition status_String :: "status \<Rightarrow> string" where
  "status_String t = lkp [] status_toString t"

text \<open>\<open>Is\<close> loops over the listed statuses.\<close>

fun status_Is :: "status \<Rightarrow> status list \<Rightarrow> bool" where
  "status_Is t [] = False"
| "status_Is t (s # l) = (if t = s then True else status_Is t l)"

definition status_MarshalText :: "status \<Rightarrow> string" where
  "status_MarshalText t = status_String t"

text \<open>\<open>UnmarshalText\<close> never fails: a name this agent does not know is read as undef.\<close>

definition status_UnmarshalText :: "string \<Rightarrow> status" where
  "status_UnmarshalText s = (case map_of status_toID s of None \<Rightarrow> StUndef | Some v \<Rightarrow> v)"

section \<open>Merging two statuses\<close>

definition status_or :: "status \<Rightarrow> status \<Rightarrow> int" where
  "status_or a b = status_val a OR status_val b"

definition status_merges :: "(int, status) gomap" where
  "status_merges =
    [(status_or StUp StUp, StUp),
     (status_or StUp StDown, StWarn),
     (status_or StUp StWarn, StWarn),
     (status_or StUp StStandbyUp, StStandbyUpWithUp),
     (status_or StUp StStandbyDown, StWarn),
     (status_or StUp StStandbyUpWithUp, StStandbyUpWithUp),
     (status_or StUp StStandbyUpWithDown, StWarn),
     (status_or StDown StDown, StDown),
     (status_or StDown StWarn, StWarn),
     (status_or StDown StStandbyUp, StStandbyUpWithDown),
     (status_or StDown StStandbyDown, StStandbyDown),
     (status_or StDown StStandbyUpWithUp, StWarn),
     (status_or StDown StStandbyUpWithDown, StStandbyUpWithDown),
     (status_or StWarn StWarn, StWarn),
     (status_or StWarn StStandbyUp, StWarn),
     (status_or StWarn StStandbyDown, StWarn),
     (status_or StWarn StStandbyUpWithUp, StWarn),
     (status_or StWarn StStandbyUpWithDown, StWarn),
     (status_or StStandbyUp StStandbyUp, StStandbyUp),
     (status_or StStandbyUp StStandbyDown, StWarn),
     (status_or StStandbyUp StStandbyUpWithUp, StStandbyUpWithUp),
     (status_or StStandbyUp StStandbyUpWithDown, StStandbyUpWithDown),
     (status_or StStandbyDown StStandbyDown, StStandbyDown),
     (status_or StStandbyDown StStandbyUpWithUp, StWarn),
     (status_or StStandbyDown StStandbyUpWithDown, StWarn),
     (status_or StStandbyUpWithUp StStandbyUpWithDown, StWarn),
     (status_or StStandbyUpWithUp StStandbyUpWithUp, StStandbyUpWithUp),
     (status_or StStandbyUpWithDown StStandbyUpWithDown, StStandbyUpWithDown)]"

definition status_Add :: "status \<Rightarrow> status \<Rightarrow> status" where
  "status_Add t o' =
    (if o' = StUndef then t
     else if t = StUndef then o'
     else if o' = StNotApplicable then t
     else if t = StNotApplicable then o'
     else (case map_of status_merges (status_or t o') of Some r \<Rightarrow> r | None \<Rightarrow> t))"

section \<open>Lists of statuses\<close>

fun statusL_Has :: "status list \<Rightarrow> status \<Rightarrow> bool" where
  "statusL_Has [] s = False"
| "statusL_Has (e # t) s = (if e = s then True else statusL_Has t s)"

definition statusL_Add :: "status list \<Rightarrow> status list \<Rightarrow> status list" where
  "statusL_Add t s = t @ s"

definition statusL_String :: "status list \<Rightarrow> string" where
  "statusL_String t = Join '','' (map status_String t)"

section \<open>Lemmas\<close>

lemma status_Is_iff [simp]: "status_Is t l \<longleftrightarrow> t \<in> set l"
  by (induction l) auto

lemma statusL_Has_iff [simp]: "statusL_Has t s \<longleftrightarrow> s \<in> set t"
  by (induction t) auto

text \<open>The switch, tabulated: one row per pair of statuses.\<close>

lemma status_Add_left [simp]: "status_Add StUndef s = s"
  by (simp add: status_Add_def)

lemma status_Add_right [simp]: "status_Add s StUndef = s"
  by (simp add: status_Add_def)

lemma status_Add_na [simp]:
  "s \<noteq> StUndef \<Longrightarrow> status_Add StNotApplicable s = s"
  "s \<noteq> StUndef \<Longrightarrow> status_Add s StNotApplicable = s"
  by (simp_all add: status_Add_def)

lemma status_Add_up [simp]:
  "status_Add StUp StUp = StUp" "status_Add StUp StDown = StWarn" "status_Add StUp StWarn = StWarn"
  "status_Add StUp StStandbyUp = StStandbyUpWithUp" "status_Add StUp StStandbyDown = StWarn"
  "status_Add StUp StStandbyUpWithUp = StStandbyUpWithUp" "status_Add StUp StStandbyUpWithDown = StWarn"
  by (simp_all add: status_Add_def status_merges_def status_or_def)

lemma status_Add_down [simp]:
  "status_Add StDown StUp = StWarn" "status_Add StDown StDown = StDown" "status_Add StDown StWarn = StWarn"
  "status_Add StDown StStandbyUp = StStandbyUpWithDown" "status_Add StDown StStandbyDown = StStandbyDown"
  "status_Add StDown StStandbyUpWithUp = StWarn" "status_Add StDown StStandbyUpWithDown = StStandbyUpWithDown"
  by (simp_all add: status_Add_def status_merges_def status_or_def)

lemma status_Add_warn [simp]: "status_Add StWarn s = StWarn" "status_Add s StWarn = StWarn"
  by (cases s; simp add: status_Add_def status_merges_def status_or_def)+

lemma status_Add_standby_up [simp]:
  "status_Add StStandbyUp StUp = StStandbyUpWithUp" "status_Add StStandbyUp StDown = StStandbyUpWithDown"
  "status_Add StStandbyUp StStandbyUp = StStandbyUp" "status_Add StStandbyUp StStandbyDown = StWarn"
  "status_Add StStandbyUp StStandbyUpWithUp = StStandbyUpWithUp"
  "status_Add StStandbyUp StStandbyUpWithDown = StStandbyUpWithDown"
  by (simp_all add: status_Add_def status_merges_def status_or_def)

lemma status_Add_standby_down [simp]:
  "status_Add StStandbyDown StUp = StWarn" "status_Add StStandbyDown StDown = StStandbyDown"
  "status_Add StStandbyDown StStandbyUp = StWarn" "status_Add StStandbyDown StStandbyDown = StStandbyDown"
  "status_Add StStandbyDown StStandbyUpWithUp = StWarn"
  "status_Add StStandbyDown StStandbyUpWithDown = StWarn"
  by (simp_all add: status_Add_def status_merges_def status_or_def)

lemma status_Add_standby_up_with_up [simp]:
  "status_Add StStandbyUpWithUp StUp = StStandbyUpWithUp" "status_Add StStandbyUpWithUp StDown = StWarn"
  "status_Add StStandbyUpWithUp StStandbyUp = StStandbyUpWithUp"
  "status_Add StStandbyUpWithUp StStandbyDown = StWarn"
  "status_Add StStandbyUpWithUp StStandbyUpWithUp = StStandbyUpWithUp"
  "status_Add StStandbyUpWithUp StStandbyUpWithDown = StWarn"
  by (simp_all add: status_Add_def status_merges_def status_or_def)

lemma status_Add_standby_up_with_down [simp]:
  "status_Add StStandbyUpWithDown StUp = StWarn"
  "status_Add StStandbyUpWithDown StDown = StStandbyUpWithDown"
  "status_Add StStandbyUpWithDown StStandbyUp = StStandbyUpWithDown"
  "status_Add StStandbyUpWithDown StStandbyDown = StWarn"
  "status_Add StStandbyUpWithDown StStandbyUpWithUp = StWarn"
  "status_Add StStandbyUpWithDown StStandbyUpWithDown = StStandbyUpWithDown"
  by (simp_all add: status_Add_def status_merges_def status_or_def)

lemma status_Add_na_na [simp]: "status_Add StNotApplicable StNotApplicable = StNotApplicable"
  by (simp add: status_Add_def)

lemma status_Add_commute: "status_Add x y = status_Add y x"
  by (cases x; cases y; simp)

lemma status_Add_assoc: "status_Add (status_Add x y) z = status_Add x (status_Add y z)"
  by (cases x; cases y; cases z; simp)

lemma status_Add_idem: "status_Add x x = x"
  by (cases x; simp)

text \<open>The merge is an aggregation, so every fold over it is independent of the order of its inputs.\<close>

interpretation status_agg: aggregation status_Add StUndef
  by unfold_locales (simp_all add: status_Add_assoc status_Add_idem, rule status_Add_commute)

end
