(* ===== verification/Provisioned.thy ===== *)
theory Provisioned
  imports Prelude
begin

text \<open>
  The provisioned state of a resource, an instance or an object:
  \<open>core/provisioned/provisioned.go\<close>, with its string tables and the merge of two states. The
  merge is used by the instance status evaluation and by the object monitor, which folds it over
  a Go map.
\<close>

section \<open>Values and string tables\<close>

datatype provisioned =
    PrUndef
  | PrTrue
  | PrFalse
  | PrMixed
  | PrNotApplicable

definition provisioned_toString :: "(provisioned, string) gomap" where
  "provisioned_toString =
    [(PrUndef, ''undef''), (PrTrue, ''true''), (PrFalse, ''false''), (PrMixed, ''mixed''),
     (PrNotApplicable, ''n/a'')]"

definition provisioned_sToID :: "(string, provisioned) gomap" where
  "provisioned_sToID =
    [(''undef'', PrUndef), (''true'', PrTrue), (''false'', PrFalse), (''mixed'', PrMixed),
     (''n/a'', PrNotApplicable)]"

text \<open>\<open>NewFromString\<close> fails, with the state undef, on a name it does not know.\<close>

definition provisioned_NewFromString :: "string \<Rightarrow> string + provisioned" where
  "provisioned_NewFromString s =
    (case map_of provisioned_sToID s of
       Some t \<Rightarrow> Inr t
     | None \<Rightarrow> Inl (''invalid provisioned string: '' @ s))"

definition provisioned_FromBool :: "bool \<Rightarrow> provisioned" where
  "provisioned_FromBool v = (if v then PrTrue else PrFalse)"

definition provisioned_String :: "provisioned \<Rightarrow> string" where
  "provisioned_String t = lkp [] provisioned_toString t"

fun provisioned_IsNoneOf :: "provisioned \<Rightarrow> provisioned list \<Rightarrow> bool" where
  "provisioned_IsNoneOf t [] = True"
| "provisioned_IsNoneOf t (s # states) = (if t = s then False else provisioned_IsNoneOf t states)"

fun provisioned_IsOneOf :: "provisioned \<Rightarrow> provisioned list \<Rightarrow> bool" where
  "provisioned_IsOneOf t [] = False"
| "provisioned_IsOneOf t (s # states) = (if t = s then True else provisioned_IsOneOf t states)"

fun provisioned_FlagString :: "provisioned \<Rightarrow> string" where
  "provisioned_FlagString PrTrue = ''.''"
| "provisioned_FlagString PrFalse = ''P''"
| "provisioned_FlagString PrMixed = ''p''"
| "provisioned_FlagString PrNotApplicable = ''/''"
| "provisioned_FlagString PrUndef = ''?''"

text \<open>\<open>MarshalText\<close> fails on a value without a name, here \<open>None\<close>.\<close>

definition provisioned_MarshalText :: "provisioned \<Rightarrow> string option" where
  "provisioned_MarshalText t = map_of provisioned_toString t"

definition provisioned_UnmarshalText :: "string \<Rightarrow> provisioned" where
  "provisioned_UnmarshalText s = (case map_of provisioned_sToID s of None \<Rightarrow> PrUndef | Some v \<Rightarrow> v)"

section \<open>Merging two states\<close>

definition provisioned_And :: "provisioned \<Rightarrow> provisioned \<Rightarrow> provisioned" where
  "provisioned_And t o' =
    (if t = PrUndef \<or> t = PrNotApplicable then o'
     else if o' = PrUndef \<or> o' = PrNotApplicable then t
     else if t \<noteq> o' then PrMixed
     else o')"

definition provisioned_Add :: "provisioned \<Rightarrow> provisioned \<Rightarrow> provisioned" where
  "provisioned_Add t o' = provisioned_And t o'"

section \<open>Lemmas\<close>

lemma provisioned_IsNoneOf_iff [simp]: "provisioned_IsNoneOf t l \<longleftrightarrow> t \<notin> set l"
  by (induction l) auto

lemma provisioned_IsOneOf_iff [simp]: "provisioned_IsOneOf t l \<longleftrightarrow> t \<in> set l"
  by (induction l) auto

text \<open>A state that says something about provisioning, as opposed to undef and not applicable.\<close>

definition pr_known :: "provisioned \<Rightarrow> bool" where
  "pr_known s \<longleftrightarrow> s \<in> {PrTrue, PrFalse, PrMixed}"

lemma provisioned_And_assoc: "provisioned_And (provisioned_And x y) z = provisioned_And x (provisioned_And y z)"
  by (cases x; cases y; cases z; simp add: provisioned_And_def)

lemma provisioned_And_known: "pr_known (provisioned_And a x) \<longleftrightarrow> pr_known a \<or> pr_known x"
  by (cases a; cases x; simp add: provisioned_And_def pr_known_def)

lemma foldl_And_known:
  "pr_known (foldl provisioned_And a xs) \<longleftrightarrow> pr_known a \<or> (\<exists>x\<in>set xs. pr_known x)"
  by (induction xs arbitrary: a) (auto simp: provisioned_And_known)

text \<open>What a fold amounts to, over the states that say something.\<close>

definition pr_summary :: "provisioned set \<Rightarrow> provisioned" where
  "pr_summary S = (if S = {PrTrue} then PrTrue else if S = {PrFalse} then PrFalse else PrMixed)"

lemma pr_summary_insert:
  assumes "pr_known x" "S \<subseteq> {PrTrue, PrFalse, PrMixed}" "S \<noteq> {}"
  shows "provisioned_And (pr_summary S) x = pr_summary (insert x S)"
proof -
  have "S = {PrTrue} \<or> S = {PrFalse} \<or> (S \<noteq> {PrTrue} \<and> S \<noteq> {PrFalse})" by blast
  moreover have "insert x S \<noteq> {PrTrue}" "insert x S \<noteq> {PrFalse}" if "S \<noteq> {PrTrue}" "S \<noteq> {PrFalse}"
    using that assms(3) by auto
  ultimately show ?thesis
    using assms(1) by (cases x) (auto simp: pr_summary_def provisioned_And_def pr_known_def insert_eq_iff)
qed

lemma foldl_And_summary:
  "pr_known (foldl provisioned_And PrUndef xs) \<Longrightarrow>
    foldl provisioned_And PrUndef xs = pr_summary {x \<in> set xs. pr_known x}"
proof (induction xs rule: rev_induct)
  case Nil
  then show ?case by (simp add: pr_known_def)
next
  case (snoc x xs)
  let ?f = "foldl provisioned_And PrUndef xs" and ?K = "{x \<in> set xs. pr_known x}"
  have K: "{y \<in> set (xs @ [x]). pr_known y} = (if pr_known x then insert x ?K else ?K)" by auto
  have sub: "?K \<subseteq> {PrTrue, PrFalse, PrMixed}" by (auto simp: pr_known_def)
  show ?case
  proof (cases "pr_known ?f")
    case True
    then have ne: "?K \<noteq> {}" using foldl_And_known [of PrUndef xs] by (auto simp: pr_known_def)
    show ?thesis
    proof (cases "pr_known x")
      case True
      with snoc.IH \<open>pr_known ?f\<close> pr_summary_insert [OF True sub ne] K show ?thesis by simp
    next
      case False
      then have "provisioned_And ?f x = ?f"
        using \<open>pr_known ?f\<close> by (cases x; cases ?f) (auto simp: pr_known_def provisioned_And_def)
      with snoc.IH \<open>pr_known ?f\<close> K False show ?thesis by simp
    qed
  next
    case False
    then have e: "?K = {}" using foldl_And_known [of PrUndef xs] by auto
    have "provisioned_And ?f x = x"
      using False by (cases ?f) (auto simp: pr_known_def provisioned_And_def)
    moreover have "pr_known x" using snoc.prems False by (simp add: provisioned_And_known)
    ultimately show ?thesis using K e by (cases x) (auto simp: pr_summary_def pr_known_def)
  qed
qed

interpretation provisioned_codec: text_codec provisioned_MarshalText provisioned_UnmarshalText
proof
  show "provisioned_MarshalText x \<noteq> None" for x
    by (cases x) (simp_all add: provisioned_MarshalText_def provisioned_toString_def)
  show "provisioned_MarshalText x = Some s \<Longrightarrow> provisioned_UnmarshalText s = x" for x s
    by (cases x) (auto simp: provisioned_MarshalText_def provisioned_toString_def
        provisioned_UnmarshalText_def provisioned_sToID_def)
qed

end
