(* ===== verification/Placement.thy ===== *)
theory Placement
  imports Prelude
begin

text \<open>
  The placement policy and placement state of an object (\<open>core/placement/placement.go\<close>) and its
  topology (\<open>core/topology/topology.go\<close>).
\<close>

section \<open>Placement\<close>

datatype policy =
    PolInvalid
  | PolNone
  | NodesOrder
  | LastStart
  | LoadAvg
  | Shift
  | Spread
  | Score

datatype placement_state =
    PlUndef
  | PlNotApplicable
  | Optimal
  | NonOptimal

definition policyToString :: "(policy, string) gomap" where
  "policyToString =
    [(PolInvalid, ''''), (PolNone, ''none''), (NodesOrder, ''nodes order''), (LastStart, ''last start''),
     (LoadAvg, ''load avg''), (Shift, ''shift''), (Spread, ''spread''), (Score, ''score'')]"

definition policyToID :: "(string, policy) gomap" where
  "policyToID =
    [('''', PolInvalid), (''none'', PolNone), (''nodes order'', NodesOrder), (''last start'', LastStart),
     (''load avg'', LoadAvg), (''shift'', Shift), (''spread'', Spread), (''score'', Score)]"

definition stateToString :: "(placement_state, string) gomap" where
  "stateToString =
    [(PlUndef, ''undef''), (PlNotApplicable, ''n/a''), (Optimal, ''optimal''), (NonOptimal, ''non-optimal'')]"

definition stateToID :: "(string, placement_state) gomap" where
  "stateToID =
    [('''', PlUndef), (''undef'', PlUndef), (''n/a'', PlNotApplicable), (''optimal'', Optimal),
     (''non-optimal'', NonOptimal)]"

definition placement_state_String :: "placement_state \<Rightarrow> string" where
  "placement_state_String t = lkp [] stateToString t"

definition placement_state_MarshalText :: "placement_state \<Rightarrow> string option" where
  "placement_state_MarshalText t = map_of stateToString t"

definition placement_state_UnmarshalText :: "string \<Rightarrow> placement_state" where
  "placement_state_UnmarshalText s = (case map_of stateToID s of None \<Rightarrow> PlUndef | Some v \<Rightarrow> v)"

definition policy_String :: "policy \<Rightarrow> string" where
  "policy_String t = lkp [] policyToString t"

definition NewPolicy :: "string \<Rightarrow> policy" where
  "NewPolicy s = (case map_of policyToID s of Some t \<Rightarrow> t | None \<Rightarrow> PolInvalid)"

definition policy_MarshalText :: "policy \<Rightarrow> string option" where
  "policy_MarshalText t = map_of policyToString t"

definition policy_UnmarshalText :: "string \<Rightarrow> policy" where
  "policy_UnmarshalText s = (case map_of policyToID s of None \<Rightarrow> PolInvalid | Some v \<Rightarrow> v)"

text \<open>\<open>PolicyNames\<close>: the keys of the table, sorted.\<close>

definition PolicyNames :: "string list" where
  "PolicyNames = sort (map fst policyToID)"

section \<open>Topology\<close>

datatype topology =
    TopInvalid
  | Failover
  | Flex

definition topology_toString :: "(topology, string) gomap" where
  "topology_toString = [(TopInvalid, ''invalid''), (Failover, ''failover''), (Flex, ''flex'')]"

definition topology_toID :: "(string, topology) gomap" where
  "topology_toID = [(''failover'', Failover), (''flex'', Flex)]"

definition topology_String :: "topology \<Rightarrow> string" where
  "topology_String t = lkp [] topology_toString t"

definition topology_New :: "string \<Rightarrow> topology" where
  "topology_New s = (case map_of topology_toID s of Some t \<Rightarrow> t | None \<Rightarrow> TopInvalid)"

definition topology_MarshalText :: "topology \<Rightarrow> string option" where
  "topology_MarshalText t = map_of topology_toString t"

definition topology_UnmarshalText :: "string \<Rightarrow> topology" where
  "topology_UnmarshalText s = topology_New s"

section \<open>Encodings\<close>

interpretation placement_state_codec: text_codec placement_state_MarshalText placement_state_UnmarshalText
proof
  show "placement_state_MarshalText x \<noteq> None" for x
    by (cases x) (simp_all add: placement_state_MarshalText_def stateToString_def)
  show "placement_state_MarshalText x = Some s \<Longrightarrow> placement_state_UnmarshalText s = x" for x s
    by (cases x) (auto simp: placement_state_MarshalText_def stateToString_def
        placement_state_UnmarshalText_def stateToID_def)
qed

interpretation policy_codec: text_codec policy_MarshalText policy_UnmarshalText
proof
  show "policy_MarshalText x \<noteq> None" for x
    by (cases x) (simp_all add: policy_MarshalText_def policyToString_def)
  show "policy_MarshalText x = Some s \<Longrightarrow> policy_UnmarshalText s = x" for x s
    by (cases x) (auto simp: policy_MarshalText_def policyToString_def policy_UnmarshalText_def policyToID_def)
qed

interpretation topology_codec: text_codec topology_MarshalText topology_UnmarshalText
proof
  show "topology_MarshalText x \<noteq> None" for x
    by (cases x) (simp_all add: topology_MarshalText_def topology_toString_def)
  show "topology_MarshalText x = Some s \<Longrightarrow> topology_UnmarshalText s = x" for x s
    by (cases x) (auto simp: topology_MarshalText_def topology_toString_def
        topology_UnmarshalText_def topology_New_def topology_toID_def)
qed

end
