(* ===== verification/Naming.thy ===== *)
theory Naming
  imports Prelude
begin

text \<open>
  Object names: the kinds and paths of \<open>core/naming/kind.go\<close>, \<open>core/naming/path.go\<close> and
  \<open>core/naming/relation.go\<close>, the host name check of \<open>util/hostname/main.go\<close> a path goes
  through, and the identifiers of resources of \<open>core/resourceid/resourceid.go\<close>.

  Strings are byte sequences. \<open>strings.ToLower\<close> is modelled on ASCII letters. Every constructor
  error of a path wraps \<open>ErrInvalid\<close>, so a refused path is \<open>None\<close>.
\<close>

section \<open>Library functions\<close>

definition lower_char :: "char \<Rightarrow> char" where
  "lower_char c =
    (if CHR ''A'' \<le> c \<and> c \<le> CHR ''Z'' then char_of (of_char c + 32 :: nat) else c)"

definition ToLower :: "string \<Rightarrow> string" where
  "ToLower s = map lower_char s"

text \<open>\<open>strings.Split\<close> and \<open>strings.Cut\<close> (which \<open>SplitN\<close> with 2 parts amounts to) on one character.\<close>

fun Split :: "char \<Rightarrow> string \<Rightarrow> string list" where
  "Split c [] = [[]]"
| "Split c (x # s) =
    (if x = c then [] # Split c s
     else (case Split c s of w # ws \<Rightarrow> (x # w) # ws | [] \<Rightarrow> [[x]]))"

fun Cut :: "char \<Rightarrow> string \<Rightarrow> (string \<times> string) option" where
  "Cut c [] = None"
| "Cut c (x # s) =
    (if x = c then Some ([], s)
     else (case Cut c s of None \<Rightarrow> None | Some (a, b) \<Rightarrow> Some (x # a, b)))"

text \<open>\<open>strings.TrimLeft\<close> and \<open>strings.Trim\<close>: the characters of a cut set removed at the ends.\<close>

definition TrimLeft :: "string \<Rightarrow> string \<Rightarrow> string" where
  "TrimLeft s cutset = dropWhile (\<lambda>c. c \<in> set cutset) s"

definition Trim :: "string \<Rightarrow> string \<Rightarrow> string" where
  "Trim s cutset = rev (TrimLeft (rev (TrimLeft s cutset)) cutset)"

text \<open>\<open>strconv.Atoi\<close>: an optional sign and decimal digits, within the range of a 64-bit int.\<close>

definition digit_val :: "char \<Rightarrow> int option" where
  "digit_val c =
    (if CHR ''0'' \<le> c \<and> c \<le> CHR ''9'' then Some (int (of_char c) - 48) else None)"

fun digits_val :: "int \<Rightarrow> string \<Rightarrow> int option" where
  "digits_val acc [] = Some acc"
| "digits_val acc (c # s) =
    (case digit_val c of None \<Rightarrow> None | Some d \<Rightarrow> digits_val (acc * 10 + d) s)"

definition Atoi :: "string \<Rightarrow> int option" where
  "Atoi s =
    (let neg = (case s of c # _ \<Rightarrow> c = CHR ''-'' | [] \<Rightarrow> False);
         rest = (case s of c # r \<Rightarrow> if c = CHR ''-'' \<or> c = CHR ''+'' then r else s | [] \<Rightarrow> s)
     in if rest = [] then None
        else (case digits_val 0 rest of
                None \<Rightarrow> None
              | Some v \<Rightarrow>
                  (let r = (if neg then - v else v)
                   in if - (2 ^ 63) \<le> r \<and> r < 2 ^ 63 then Some r else None)))"

text \<open>\<open>strconv.Itoa\<close>, which \<open>strconv.Atoi\<close> reads back.\<close>

fun nat_digits :: "nat \<Rightarrow> string" where
  "nat_digits n = (if n < 10 then [char_of (48 + n)] else nat_digits (n div 10) @ [char_of (48 + n mod 10)])"

declare nat_digits.simps [simp del]

definition Itoa :: "int \<Rightarrow> string" where
  "Itoa i = (if i < 0 then CHR ''-'' # nat_digits (nat (- i)) else nat_digits (nat i))"

lemma digits_val_append:
  "digits_val a (s @ t) = (case digits_val a s of None \<Rightarrow> None | Some v \<Rightarrow> digits_val v t)"
  by (induction s arbitrary: a) (auto split: option.splits)

lemma digit_val_char [simp]: "d < 10 \<Longrightarrow> digit_val (char_of (48 + d)) = Some (int d)"
  by (simp add: digit_val_def less_eq_char_def of_char_of)

lemma digits_val_nat_digits: "digits_val 0 (nat_digits n) = Some (int n)"
proof (induction n rule: nat_digits.induct)
  case (1 n)
  have "int (n div 10) * 10 + int (n mod 10) = int n" by presburger
  then show ?case using 1 by (subst nat_digits.simps) (simp add: digits_val_append)
qed

lemma nat_digits_hd: "\<exists>d s. nat_digits n = char_of (48 + d :: nat) # s \<and> d < 10"
  by (induction n rule: nat_digits.induct) (subst nat_digits.simps, force)

lemma Atoi_Itoa:
  assumes "- (2 ^ 63) \<le> i" "i < 2 ^ 63"
  shows "Atoi (Itoa i) = Some i"
proof -
  obtain d s where d: "nat_digits (nat \<bar>i\<bar>) = char_of (48 + d :: nat) # s" "d < 10" using nat_digits_hd by blast
  then have "char_of (48 + d) \<noteq> CHR ''-''" "char_of (48 + d) \<noteq> CHR ''+''"
    using digit_val_char [OF d(2)] by (auto simp: digit_val_def split: if_splits)
  then show ?thesis
    using d(1) digits_val_nat_digits [of "nat \<bar>i\<bar>"] assms
    by (cases "i < 0") (simp_all add: Atoi_def Itoa_def Let_def)
qed

lemma nat_digits_inject: "nat_digits m = nat_digits n \<longleftrightarrow> m = n"
  by (metis digits_val_nat_digits of_nat_eq_iff option.inject)

lemma nat_digits_sign: "nat_digits n \<noteq> CHR ''-'' # s"
proof
  assume "nat_digits n = CHR ''-'' # s"
  then have "digits_val 0 (nat_digits n) = None" by (simp add: digit_val_def less_eq_char_def)
  then show False by (simp add: digits_val_nat_digits)
qed

lemma Itoa_inject [simp]: "Itoa i = Itoa j \<longleftrightarrow> i = j"
  by (cases "i < 0"; cases "j < 0")
    (auto simp: Itoa_def nat_digits_inject nat_digits_sign nat_digits_sign [THEN not_sym])

section \<open>Host names\<close>

definition alnums :: string where
  "alnums = ''abcdefghijklmnopqrstuvwxyzABCDEFGHIJKLMNOPQRSTUVWXYZ0123456789''"

datatype hostname_error =
    Too_short
  | Too_long
  | Invalid_first_character
  | Invalid_characters

definition hostname_validate :: "string \<Rightarrow> hostname_error option" where
  "hostname_validate s =
    (let n = length s
     in if n < 1 then Some Too_short
        else if n > 63 then Some Too_long
        else if Trim (take 1 s) alnums \<noteq> [] then Some Invalid_first_character
        else if Trim (drop 1 s) (alnums @ ''.-'') \<noteq> [] then Some Invalid_characters
        else None)"

definition hostname_IsValid :: "string \<Rightarrow> bool" where
  "hostname_IsValid s = (hostname_validate s = None)"

section \<open>Kinds\<close>

datatype kind =
    KindInvalid
  | KindSvc
  | KindVol
  | KindCfg
  | KindSec
  | KindUsr
  | KindCcfg
  | KindNscfg

fun kind_String :: "kind \<Rightarrow> string" where
  "kind_String KindInvalid = ''''"
| "kind_String KindSvc = ''svc''"
| "kind_String KindVol = ''vol''"
| "kind_String KindCfg = ''cfg''"
| "kind_String KindSec = ''sec''"
| "kind_String KindUsr = ''usr''"
| "kind_String KindCcfg = ''ccfg''"
| "kind_String KindNscfg = ''nscfg''"

definition KindAll :: "kind list" where
  "KindAll = [KindSvc, KindVol, KindCfg, KindSec, KindUsr, KindCcfg, KindNscfg]"

definition KindStrings :: "string list" where
  "KindStrings = map kind_String KindAll"

definition ParseKind :: "string \<Rightarrow> kind" where
  "ParseKind s =
    (case map_of (map (\<lambda>k. (kind_String k, k)) KindAll) s of Some k \<Rightarrow> k | None \<Rightarrow> KindInvalid)"

text \<open>A set of kinds, as the keys of a Go map; an empty set and the invalid kind match anything.\<close>

definition NewKinds :: "kind list \<Rightarrow> kind list" where
  "NewKinds kinds = remdups (filter (\<lambda>k. k \<noteq> KindInvalid) kinds)"

definition Kinds_Has :: "kind list \<Rightarrow> kind \<Rightarrow> bool" where
  "Kinds_Has t k = (k = KindInvalid \<or> t = [] \<or> k \<in> set t)"

definition ParseKinds :: "string list \<Rightarrow> kind list" where
  "ParseKinds kinds = remdups (filter (\<lambda>k. k \<noteq> KindInvalid) (map ParseKind kinds))"

definition Kinds_String :: "kind list \<Rightarrow> string" where
  "Kinds_String t = Join ''|'' (sort (map kind_String t))"

section \<open>Paths\<close>

record path =
  p_Name :: string
  p_Namespace :: string
  p_Kind :: kind

definition Separator :: string where
  "Separator = ''/''"

definition NsRoot :: string where
  "NsRoot = ''root''"

definition path_zero :: path where
  "path_zero = \<lparr>p_Name = [], p_Namespace = [], p_Kind = KindInvalid\<rparr>"

definition path_IsZero :: "path \<Rightarrow> bool" where
  "path_IsZero t = (p_Name t = [] \<and> p_Namespace t = [] \<and> p_Kind t = KindInvalid)"

definition forbiddenNames :: "string list" where
  "forbiddenNames = KindStrings @ [''node'']"

definition NewPathFromStrings :: "string \<Rightarrow> string \<Rightarrow> string \<Rightarrow> path option" where
  "NewPathFromStrings namespace kind name =
    (if name \<noteq> ToLower name then None
     else if namespace \<noteq> ToLower namespace then None
     else
       let kind = (if kind = [] then ''svc'' else kind);
           namespace = (if namespace = [] then NsRoot else namespace);
           k = ParseKind kind
       in if k = KindInvalid then None
          else if k = KindSvc \<and> namespace = NsRoot \<and> name = ''namespace'' then None
          else
            let name = (if k = KindNscfg then ''namespace'' else name)
            in if name = [] then None
               else if \<not> hostname_IsValid (TrimLeft name ''0123456789.'') then None
               else if \<not> hostname_IsValid namespace then None
               else if name \<in> set forbiddenNames then None
               else Some \<lparr>p_Name = name, p_Namespace = namespace, p_Kind = k\<rparr>)"

definition NewPath :: "string \<Rightarrow> kind \<Rightarrow> string \<Rightarrow> path option" where
  "NewPath namespace k name = NewPathFromStrings namespace (kind_String k) name"

definition ScalerSliceIndex :: "path \<Rightarrow> int" where
  "ScalerSliceIndex t =
    (case Cut (CHR ''.'') (p_Name t) of
       None \<Rightarrow> -1
     | Some (i, _) \<Rightarrow> (case Atoi i of None \<Rightarrow> -1 | Some n \<Rightarrow> n))"

definition path_FQN :: "path \<Rightarrow> string" where
  "path_FQN t =
    (if p_Kind t = KindInvalid then []
     else (if p_Namespace t = [] then NsRoot @ Separator else p_Namespace t @ Separator)
          @ kind_String (p_Kind t) @ Separator @ p_Name t)"

definition path_String :: "path \<Rightarrow> string" where
  "path_String t =
    (if p_Kind t = KindInvalid then []
     else if p_Kind t = KindNscfg then
       (if p_Namespace t = NsRoot then Separator else p_Namespace t @ Separator)
     else
       let s = (if p_Namespace t \<noteq> [] \<and> p_Namespace t \<noteq> NsRoot then p_Namespace t @ Separator else []);
           s = (if p_Kind t \<noteq> KindSvc \<and> p_Kind t \<noteq> KindCcfg \<or> s \<noteq> []
                then s @ kind_String (p_Kind t) @ Separator else s)
       in s @ p_Name t)"

definition splitPath :: "string \<Rightarrow> string \<times> string \<times> string" where
  "splitPath s =
    (case Split (CHR ''/'') s of
       [a, b, c] \<Rightarrow> (a, b, c)
     | [a, b] \<Rightarrow> if b = [] then (a, ''nscfg'', ''namespace'') else (NsRoot, a, b)
     | [a] \<Rightarrow> if a = ''cluster'' then (NsRoot, ''ccfg'', a) else (NsRoot, ''svc'', a)
     | _ \<Rightarrow> ([], [], []))"

definition ParsePath :: "string \<Rightarrow> path option" where
  "ParsePath s = (case splitPath s of (namespace, kind, name) \<Rightarrow> NewPathFromStrings namespace kind name)"

definition ParsePathRel :: "string \<Rightarrow> string \<Rightarrow> path option" where
  "ParsePathRel s ns =
    (case splitPath s of (namespace, kind, name) \<Rightarrow>
       NewPathFromStrings (if namespace = ''.'' then ns else namespace) kind name)"

definition ParsePathOf :: "string \<Rightarrow> string \<Rightarrow> path option" where
  "ParsePathOf s ns =
    (if CHR ''/'' \<notin> set s then ParsePathRel (''.'' @ Separator @ ''svc'' @ Separator @ s) ns
     else ParsePathRel s ns)"

definition path_UnmarshalText :: "string \<Rightarrow> path option" where
  "path_UnmarshalText s = ParsePath s"

text \<open>
  \<open>Paths.Merge\<close> keeps the paths of the receiver, then those of the argument the receiver does
  not hold; the set of paths already seen is not extended while the argument is walked.
\<close>

definition Paths_Merge :: "path list \<Rightarrow> path list \<Rightarrow> path list" where
  "Paths_Merge t other = t @ filter (\<lambda>p. p \<notin> set t) other"

definition Paths_String :: "path list \<Rightarrow> string" where
  "Paths_String t = Join '','' (map path_String t)"

section \<open>Relations and resource identifiers\<close>

definition Relation_Node :: "string \<Rightarrow> string" where
  "Relation_Node t = (case Cut (CHR ''@'') t of None \<Rightarrow> [] | Some (_, n) \<Rightarrow> n)"

definition Relation_Path :: "string \<Rightarrow> path option" where
  "Relation_Path t = ParsePath (case Cut (CHR ''@'') t of None \<Rightarrow> t | Some (p, _) \<Rightarrow> p)"

definition Relation_Split :: "string \<Rightarrow> (path \<times> string) option" where
  "Relation_Split t = (case Relation_Path t of None \<Rightarrow> None | Some p \<Rightarrow> Some (p, Relation_Node t))"

definition isNotNameRune :: "char \<Rightarrow> bool" where
  "isNotNameRune r =
    (\<not> (CHR ''a'' \<le> r \<and> r \<le> CHR ''z'' \<or> CHR ''A'' \<le> r \<and> r \<le> CHR ''Z''
        \<or> CHR ''0'' \<le> r \<and> r \<le> CHR ''9'') \<and> r \<notin> set ''_-.#*?[]!'')"

definition resourceid_CheckName :: "string \<Rightarrow> bool" where
  "resourceid_CheckName s = list_all (\<lambda>c. \<not> isNotNameRune c) s"

definition resourceid_Parse :: "string \<Rightarrow> string option" where
  "resourceid_Parse s =
    (if s = [] \<or> s \<in> set [''env'', ''data'', ''labels'', ''DEFAULT''] \<or> take 7 s = ''subset#'' then None
     else if \<not> resourceid_CheckName s then None
     else Some s)"

text \<open>The driver group of a resource id, by name: what is before its first separator.\<close>

definition resourceid_group_name :: "string \<Rightarrow> string" where
  "resourceid_group_name s = hd (Split (CHR ''#'') s)"

section \<open>Lemmas\<close>

lemma Split_no_sep: "c \<notin> set w \<Longrightarrow> Split c w = [w]"
  by (induction w) auto

lemma Split_append: "c \<notin> set w \<Longrightarrow> Split c (w @ c # s) = w # Split c s"
  by (induction w) auto

lemma TrimLeft_eq_Nil: "TrimLeft s cs = [] \<longleftrightarrow> set s \<subseteq> set cs"
  by (auto simp: TrimLeft_def dropWhile_eq_Nil_conv)

lemma set_TrimLeft_subset: "set s \<subseteq> set (TrimLeft s cs) \<union> set cs"
proof
  fix c
  assume "c \<in> set s"
  then have "c \<in> set (takeWhile (\<lambda>c. c \<in> set cs) s @ dropWhile (\<lambda>c. c \<in> set cs) s)" by simp
  then show "c \<in> set (TrimLeft s cs) \<union> set cs"
    unfolding TrimLeft_def set_append by (auto dest: set_takeWhileD)
qed

lemma Trim_eq_Nil: "Trim s cs = [] \<longleftrightarrow> set s \<subseteq> set cs"
proof
  assume "Trim s cs = []"
  then have "set (TrimLeft s cs) \<subseteq> set cs" by (simp add: Trim_def TrimLeft_eq_Nil)
  with set_TrimLeft_subset [of s cs] show "set s \<subseteq> set cs" by blast
next
  assume "set s \<subseteq> set cs"
  then have "TrimLeft s cs = []" by (simp add: TrimLeft_eq_Nil)
  moreover have "TrimLeft [] cs = []" by (simp add: TrimLeft_def)
  ultimately show "Trim s cs = []" by (simp add: Trim_def)
qed

lemma hostname_valid_iff:
  "hostname_IsValid s \<longleftrightarrow>
    1 \<le> length s \<and> length s \<le> 63 \<and> hd s \<in> set alnums \<and> set (tl s) \<subseteq> set alnums \<union> set ''.-''"
proof (cases s)
  case Nil
  then show ?thesis by (simp add: hostname_IsValid_def hostname_validate_def)
next
  case (Cons c w)
  have e: "hostname_validate (c # w) =
    (if length (c # w) > 63 then Some Too_long
     else if Trim [c] alnums \<noteq> [] then Some Invalid_first_character
     else if Trim w (alnums @ ''.-'') \<noteq> [] then Some Invalid_characters else None)"
    by (simp add: hostname_validate_def Let_def)
  show ?thesis unfolding Cons hostname_IsValid_def e Trim_eq_Nil by (simp add: not_less)
qed

lemma hostname_valid_chars: "hostname_IsValid s \<Longrightarrow> set s \<subseteq> set alnums \<union> set ''.-''"
  by (cases s) (auto simp: hostname_valid_iff)

lemma slash_not_hostname: "CHR ''/'' \<notin> set alnums \<union> set ''.-0123456789.''"
  by (simp add: alnums_def)

lemma ParseKind_String: "k \<noteq> KindInvalid \<Longrightarrow> ParseKind (kind_String k) = k"
  by (cases k) (simp_all add: ParseKind_def KindAll_def)

lemma kind_String_no_slash: "CHR ''/'' \<notin> set (kind_String k)"
  by (cases k) simp_all

lemma kind_String_Nil: "kind_String k = [] \<longleftrightarrow> k = KindInvalid"
  by (cases k) simp_all

lemma ToLower_namespace: "ToLower ''namespace'' = ''namespace''"
  by (simp add: ToLower_def lower_char_def)

text \<open>The paths the constructor can return.\<close>

definition path_ok :: "path \<Rightarrow> bool" where
  "path_ok p \<longleftrightarrow>
    p_Kind p \<noteq> KindInvalid \<and> p_Namespace p \<noteq> [] \<and> p_Name p \<noteq> []
    \<and> p_Name p = ToLower (p_Name p) \<and> p_Namespace p = ToLower (p_Namespace p)
    \<and> (p_Kind p = KindNscfg \<longrightarrow> p_Name p = ''namespace'')
    \<and> \<not> (p_Kind p = KindSvc \<and> p_Namespace p = NsRoot \<and> p_Name p = ''namespace'')
    \<and> hostname_IsValid (TrimLeft (p_Name p) ''0123456789.'') \<and> hostname_IsValid (p_Namespace p)
    \<and> p_Name p \<notin> set forbiddenNames"

lemma New_path_parts:
  assumes "NewPathFromStrings ns k n = Some p"
  obtains k' where "k' \<noteq> KindInvalid" "n = ToLower n" "ns = ToLower ns"
    "\<not> (k' = KindSvc \<and> p_Namespace p = NsRoot \<and> n = ''namespace'')"
    "p_Namespace p = (if ns = [] then NsRoot else ns)" "p_Kind p = k'"
    "p_Name p = (if k' = KindNscfg then ''namespace'' else n)" "p_Name p \<noteq> []"
    "hostname_IsValid (TrimLeft (p_Name p) ''0123456789.'')" "hostname_IsValid (p_Namespace p)"
    "p_Name p \<notin> set forbiddenNames"
proof -
  define nm where "nm = (if ParseKind (if k = [] then ''svc'' else k) = KindNscfg then ''namespace'' else n)"
  define nsp where "nsp = (if ns = [] then NsRoot else ns)"
  define kk where "kk = ParseKind (if k = [] then ''svc'' else k)"
  note d = assms [unfolded NewPathFromStrings_def Let_def, folded nm_def nsp_def kk_def]
  have "p = \<lparr>p_Name = nm, p_Namespace = nsp, p_Kind = kk\<rparr>"
    "kk \<noteq> KindInvalid" "n = ToLower n" "ns = ToLower ns" "nm \<noteq> []" "nm \<notin> set forbiddenNames"
    "hostname_IsValid (TrimLeft nm ''0123456789.'')" "hostname_IsValid nsp"
    "\<not> (kk = KindSvc \<and> nsp = NsRoot \<and> n = ''namespace'')"
    using d unfolding guard_Some not_not option.inject by blast+
  then show thesis
    using that [of kk] by (simp add: nm_def nsp_def kk_def)
qed

lemma New_path_ok:
  assumes "NewPathFromStrings ns k n = Some p"
  shows "path_ok p"
proof -
  have root: "NsRoot = ToLower NsRoot" "NsRoot \<noteq> []" by (simp_all add: NsRoot_def ToLower_def lower_char_def)
  show ?thesis
    using assms
  proof (rule New_path_parts)
    fix k'
    assume a: "k' \<noteq> KindInvalid" "n = ToLower n" "ns = ToLower ns"
      "\<not> (k' = KindSvc \<and> p_Namespace p = NsRoot \<and> n = ''namespace'')"
      "p_Namespace p = (if ns = [] then NsRoot else ns)" "p_Kind p = k'"
      "p_Name p = (if k' = KindNscfg then ''namespace'' else n)" "p_Name p \<noteq> []"
      "hostname_IsValid (TrimLeft (p_Name p) ''0123456789.'')" "hostname_IsValid (p_Namespace p)"
      "p_Name p \<notin> set forbiddenNames"
    have "p_Name p = ToLower (p_Name p)" using a(2,7) ToLower_namespace by metis
    moreover have "p_Namespace p = ToLower (p_Namespace p)" using a(3,5) root by metis
    moreover have "p_Namespace p \<noteq> []" using a(5) root by metis
    moreover have "\<not> (p_Kind p = KindSvc \<and> p_Namespace p = NsRoot \<and> p_Name p = ''namespace'')"
      using a(4,6,7) kind.distinct by metis
    ultimately show ?thesis using a by (simp add: path_ok_def)
  qed
qed

lemma path_ok_New: "path_ok p \<Longrightarrow> NewPathFromStrings (p_Namespace p) (kind_String (p_Kind p)) (p_Name p) = Some p"
  unfolding path_ok_def NewPathFromStrings_def Let_def
  using ParseKind_String [of "p_Kind p"] by (cases "p_Kind p = KindNscfg") (auto simp: kind_String_Nil)

lemma path_ok_no_slash:
  assumes "path_ok p"
  shows "CHR ''/'' \<notin> set (p_Name p)" "CHR ''/'' \<notin> set (p_Namespace p)"
proof -
  have "set (p_Name p) \<subseteq> set (TrimLeft (p_Name p) ''0123456789.'') \<union> set ''0123456789.''"
    by (rule set_TrimLeft_subset)
  moreover have "set (TrimLeft (p_Name p) ''0123456789.'') \<subseteq> set alnums \<union> set ''.-''"
    using assms hostname_valid_chars by (simp add: path_ok_def)
  ultimately show "CHR ''/'' \<notin> set (p_Name p)" using slash_not_hostname by auto
  have "set (p_Namespace p) \<subseteq> set alnums \<union> set ''.-''"
    using assms hostname_valid_chars by (simp add: path_ok_def)
  then show "CHR ''/'' \<notin> set (p_Namespace p)" using slash_not_hostname by auto
qed

text \<open>A path printed by its string form and read back.\<close>

definition path_ambiguous :: "path \<Rightarrow> bool" where
  "path_ambiguous p \<longleftrightarrow>
    p_Namespace p = NsRoot
    \<and> (p_Kind p = KindSvc \<and> p_Name p = ''cluster'' \<or> p_Kind p = KindCcfg \<and> p_Name p \<noteq> ''cluster'')"

lemma splitPath_String:
  assumes "path_ok p"
  shows "splitPath (path_String p) =
    (if p_Kind p = KindNscfg then (if p_Namespace p = NsRoot then [] else p_Namespace p, ''nscfg'', ''namespace'')
     else if p_Namespace p = NsRoot then
       (NsRoot,
        if p_Kind p = KindSvc \<or> p_Kind p = KindCcfg
        then (if p_Name p = ''cluster'' then ''ccfg'' else ''svc'') else kind_String (p_Kind p),
        p_Name p)
     else (p_Namespace p, kind_String (p_Kind p), p_Name p))"
proof -
  note ns = path_ok_no_slash [OF assms]
  have ok: "p_Kind p \<noteq> KindInvalid" "p_Namespace p \<noteq> []" "p_Name p \<noteq> []" using assms by (auto simp: path_ok_def)
  have three: "Split (CHR ''/'') (p_Namespace p @ CHR ''/'' # kind_String (p_Kind p) @ CHR ''/'' # p_Name p)
      = [p_Namespace p, kind_String (p_Kind p), p_Name p]"
    using ns kind_String_no_slash [of "p_Kind p"] by (simp add: Split_append Split_no_sep)
  have two: "Split (CHR ''/'') (kind_String (p_Kind p) @ CHR ''/'' # p_Name p) = [kind_String (p_Kind p), p_Name p]"
    using ns kind_String_no_slash [of "p_Kind p"] by (simp add: Split_append Split_no_sep)
  have one: "Split (CHR ''/'') (p_Name p) = [p_Name p]" using ns by (simp add: Split_no_sep)
  have nil: "Split (CHR ''/'') (p_Namespace p @ [CHR ''/'']) = [p_Namespace p, []]"
    using ns Split_append [of "CHR ''/''" "p_Namespace p" "[]"] by simp
  show ?thesis
    using ok ns one two three nil
    by (auto simp: path_String_def splitPath_def Separator_def Let_def)
qed

lemma path_ok_roundtrip:
  assumes "path_ok p"
  shows "ParsePath (path_String p) = Some p \<longleftrightarrow> \<not> path_ambiguous p"
proof (cases "p_Kind p = KindNscfg")
  case True
  have n: "p_Name p = ''namespace''" using assms True by (simp add: path_ok_def)
  have "NewPathFromStrings [] ''nscfg'' ''namespace'' = NewPathFromStrings NsRoot ''nscfg'' ''namespace''"
    by (simp add: NewPathFromStrings_def NsRoot_def ToLower_def lower_char_def)
  then show ?thesis
    using path_ok_New [OF assms] True n
    by (auto simp: ParsePath_def splitPath_String [OF assms] path_ambiguous_def)
next
  case False
  note new = path_ok_New [OF assms]
  have swap: "NewPathFromStrings a ''svc'' b = Some p \<Longrightarrow> p_Kind p = KindSvc"
    "NewPathFromStrings a ''ccfg'' b = Some p \<Longrightarrow> p_Kind p = KindCcfg" for a b
    by (auto simp: NewPathFromStrings_def Let_def ParseKind_def KindAll_def split: if_splits)
  show ?thesis
    using False new swap
    by (cases "p_Kind p") (auto simp: ParsePath_def splitPath_String [OF assms] path_ambiguous_def)
qed

section \<open>Properties\<close>

text \<open>
  C40. Paths read back: a path built from a namespace, a kind and a name reads back from its string
  form, unless it is a service of the root namespace named cluster or a cluster configuration of
  the root namespace named otherwise, whose string form is the one of another path.
\<close>

theorem path_roundtrip:
  assumes "NewPathFromStrings ns k n = Some p"
  shows "ParsePath (path_String p) = Some p \<longleftrightarrow> \<not> path_ambiguous p"
  by (rule path_ok_roundtrip [OF New_path_ok [OF assms]])

theorem path_roundtrip_witness:
  "ParsePath (path_String \<lparr>p_Name = ''web'', p_Namespace = ''prod'', p_Kind = KindVol\<rparr>)
     = Some \<lparr>p_Name = ''web'', p_Namespace = ''prod'', p_Kind = KindVol\<rparr>
   \<and> ParsePath (path_String \<lparr>p_Name = ''cluster'', p_Namespace = ''root'', p_Kind = KindSvc\<rparr>)
     \<noteq> Some \<lparr>p_Name = ''cluster'', p_Namespace = ''root'', p_Kind = KindSvc\<rparr>"
proof
  have "NewPathFromStrings ''prod'' ''vol'' ''web'' = Some \<lparr>p_Name = ''web'', p_Namespace = ''prod'', p_Kind = KindVol\<rparr>"
    by code_simp
  from path_roundtrip [OF this]
  show "ParsePath (path_String \<lparr>p_Name = ''web'', p_Namespace = ''prod'', p_Kind = KindVol\<rparr>)
     = Some \<lparr>p_Name = ''web'', p_Namespace = ''prod'', p_Kind = KindVol\<rparr>"
    by (simp add: path_ambiguous_def NsRoot_def)
  have "NewPathFromStrings ''root'' ''svc'' ''cluster''
      = Some \<lparr>p_Name = ''cluster'', p_Namespace = ''root'', p_Kind = KindSvc\<rparr>"
    by code_simp
  from path_roundtrip [OF this]
  show "ParsePath (path_String \<lparr>p_Name = ''cluster'', p_Namespace = ''root'', p_Kind = KindSvc\<rparr>)
     \<noteq> Some \<lparr>p_Name = ''cluster'', p_Namespace = ''root'', p_Kind = KindSvc\<rparr>"
    by (simp add: path_ambiguous_def NsRoot_def)
qed

end
