(* ===== verification/Instance.thy ===== *)
theory Instance
  imports Status Provisioned Placement Naming
begin

text \<open>
  The data the daemon keeps of an object instance, \<open>core/instance\<close>: the states and expectations
  of an instance monitor with their text tables, the monitor, status and configuration records,
  and the small functions over them. The node data of \<open>core/node\<close> and the object status of
  \<open>core/object/type_status.go\<close> the monitors read are here too.

  The records hold the fields the modelled code reads or writes. Go pointers that may be nil are
  options, Go maps are association lists, \<open>uuid.UUID\<close> and session ids are natural numbers with
  \<open>0\<close> for the nil id. Values are immutable, so the \<open>DeepCopy\<close> methods are identities.
\<close>

section \<open>Enumerations\<close>

datatype (plugins only: code) monitor_state =
    MonitorStateInit
  | MonitorStateIdle
  | MonitorStateBootSuccess
  | MonitorStateBootFailed
  | MonitorStateBootProgress
  | MonitorStateShutdownProgress
  | MonitorStateShutdownFailure
  | MonitorStateShutdownSuccess
  | MonitorStateStartProgress
  | MonitorStateStartFailure
  | MonitorStateStartSuccess
  | MonitorStateStopProgress
  | MonitorStateStopFailure
  | MonitorStateStopSuccess
  | MonitorStateFreezeProgress
  | MonitorStateFreezeFailure
  | MonitorStateFreezeSuccess
  | MonitorStateUnfreezeProgress
  | MonitorStateUnfreezeFailure
  | MonitorStateUnfreezeSuccess
  | MonitorStateProvisionProgress
  | MonitorStateProvisionFailure
  | MonitorStateProvisionSuccess
  | MonitorStateUnprovisionProgress
  | MonitorStateUnprovisionFailure
  | MonitorStateUnprovisionSuccess
  | MonitorStateDeleteProgress
  | MonitorStateDeleteFailure
  | MonitorStateDeleteSuccess
  | MonitorStateResizeProgress
  | MonitorStateResizeFailure
  | MonitorStateResizeSuccess
  | MonitorStateResizeStage0
  | MonitorStateResizeStage1
  | MonitorStateResizeStage2
  | MonitorStateCapProgress
  | MonitorStateCapFailure
  | MonitorStateCapSuccess
  | MonitorStatePrepareProgress
  | MonitorStatePrepareFailure
  | MonitorStateWaitChildren
  | MonitorStateWaitParents
  | MonitorStateWaitPriors
  | MonitorStateWaitLeader
  | MonitorStateWaitNonLeader
  | MonitorStateWaitSyncs
  | MonitorStateWaitDestination
  | MonitorStateWaitDestinationFailure
  | MonitorStateRunning
  | MonitorStateSyncing
  | MonitorStatePurgeFailed
  | MonitorStateReady
  | MonitorStateRestarted
  | MonitorStatePreflightProgress
  | MonitorStatePreflightSuccess
  | MonitorStateUnknown

datatype monitor_global_expect =
    MonitorGlobalExpectInit
  | MonitorGlobalExpectAborted
  | MonitorGlobalExpectDeleted
  | MonitorGlobalExpectFrozen
  | MonitorGlobalExpectNone
  | MonitorGlobalExpectPlaced
  | MonitorGlobalExpectPlacedAt
  | MonitorGlobalExpectProvisioned
  | MonitorGlobalExpectPurged
  | MonitorGlobalExpectResized
  | MonitorGlobalExpectRestarted
  | MonitorGlobalExpectStarted
  | MonitorGlobalExpectStopped
  | MonitorGlobalExpectUnfrozen
  | MonitorGlobalExpectUnprovisioned
  | MonitorGlobalExpectCapped
  | MonitorGlobalExpectUnknown

datatype monitor_local_expect =
    MonitorLocalExpectInit
  | MonitorLocalExpectNone
  | MonitorLocalExpectStarted
  | MonitorLocalExpectShutdown
  | MonitorLocalExpectEvicted
  | MonitorLocalExpectUnknown

datatype monitor_action =
    MonitorActionNone
  | MonitorActionCrash
  | MonitorActionFreezeStop
  | MonitorActionReboot
  | MonitorActionSwitch
  | MonitorActionOther string

text \<open>
  The tables, in the order of the source's \<open>stateStrings\<close> and \<open>expectStrings\<close> slices. The maps
  Go builds from a slice map each value to its name, and each name to its value.
\<close>

definition MonitorStateToString :: "(monitor_state, string) gomap" where
  "MonitorStateToString =
    [(MonitorStateInit, ''init''), (MonitorStateIdle, ''idle''),
     (MonitorStateBootProgress, ''booting''), (MonitorStateBootSuccess, ''booted''),
     (MonitorStateBootFailed, ''boot failed''), (MonitorStateShutdownProgress, ''shutting''),
     (MonitorStateShutdownFailure, ''shutdown failed''), (MonitorStateShutdownSuccess, ''shutdown''),
     (MonitorStateStartProgress, ''starting''), (MonitorStateStartFailure, ''start failed''),
     (MonitorStateStartSuccess, ''started''), (MonitorStateStopProgress, ''stopping''),
     (MonitorStateStopFailure, ''stop failed''), (MonitorStateStopSuccess, ''stopped''),
     (MonitorStateFreezeProgress, ''freezing''), (MonitorStateFreezeFailure, ''freeze failed''),
     (MonitorStateFreezeSuccess, ''frozen''), (MonitorStateUnfreezeProgress, ''unfreezing''),
     (MonitorStateUnfreezeFailure, ''unfreeze failed''), (MonitorStateUnfreezeSuccess, ''unfrozen''),
     (MonitorStateProvisionProgress, ''provisioning''),
     (MonitorStateProvisionFailure, ''provision failed''),
     (MonitorStateProvisionSuccess, ''provisioned''),
     (MonitorStateUnprovisionProgress, ''unprovisioning''),
     (MonitorStateUnprovisionFailure, ''unprovision failed''),
     (MonitorStateUnprovisionSuccess, ''unprovisioned''), (MonitorStateDeleteProgress, ''deleting''),
     (MonitorStateDeleteFailure, ''delete failed''), (MonitorStateDeleteSuccess, ''deleted''),
     (MonitorStateResizeProgress, ''resizing''), (MonitorStateResizeFailure, ''resize failed''),
     (MonitorStateResizeSuccess, ''resized''), (MonitorStateResizeStage0, ''resized:0''),
     (MonitorStateResizeStage1, ''resized:1''), (MonitorStateResizeStage2, ''resized:2''),
     (MonitorStateCapProgress, ''capping''), (MonitorStateCapFailure, ''cap failed''),
     (MonitorStateCapSuccess, ''capped''), (MonitorStatePrepareProgress, ''preparing''),
     (MonitorStatePrepareFailure, ''prepare failed''), (MonitorStateWaitChildren, ''wait children''),
     (MonitorStateWaitParents, ''wait parents''), (MonitorStateWaitLeader, ''wait leader''),
     (MonitorStateWaitNonLeader, ''wait non-leader''), (MonitorStateWaitPriors, ''wait priors''),
     (MonitorStateWaitSyncs, ''wait syncs''), (MonitorStateWaitDestination, ''wait destination''),
     (MonitorStateWaitDestinationFailure, ''wait destination failed''),
     (MonitorStateRunning, ''running''), (MonitorStateSyncing, ''syncing''),
     (MonitorStatePurgeFailed, ''purge failed''), (MonitorStateReady, ''ready''),
     (MonitorStateRestarted, ''restarted''), (MonitorStatePreflightProgress, ''preflighting''),
     (MonitorStatePreflightSuccess, ''preflighted''), (MonitorStateUnknown, ''unknown'')]"

definition MonitorGlobalExpectStrings :: "(monitor_global_expect, string) gomap" where
  "MonitorGlobalExpectStrings =
    [(MonitorGlobalExpectAborted, ''aborted''), (MonitorGlobalExpectCapped, ''capped''),
     (MonitorGlobalExpectDeleted, ''deleted''), (MonitorGlobalExpectInit, ''init''),
     (MonitorGlobalExpectFrozen, ''frozen''), (MonitorGlobalExpectNone, ''none''),
     (MonitorGlobalExpectPlaced, ''placed''), (MonitorGlobalExpectPlacedAt, ''placed@''),
     (MonitorGlobalExpectProvisioned, ''provisioned''), (MonitorGlobalExpectPurged, ''purged''),
     (MonitorGlobalExpectResized, ''resized''), (MonitorGlobalExpectRestarted, ''restarted''),
     (MonitorGlobalExpectStarted, ''started''), (MonitorGlobalExpectStopped, ''stopped''),
     (MonitorGlobalExpectUnfrozen, ''unfrozen''), (MonitorGlobalExpectUnprovisioned, ''unprovisioned''),
     (MonitorGlobalExpectUnknown, ''unknown'')]"

definition monitorLocalExpectToString :: "(monitor_local_expect, string) gomap" where
  "monitorLocalExpectToString =
    [(MonitorLocalExpectEvicted, ''evicted''), (MonitorLocalExpectStarted, ''started''),
     (MonitorLocalExpectShutdown, ''shutdown''), (MonitorLocalExpectNone, ''none''),
     (MonitorLocalExpectInit, ''init''), (MonitorLocalExpectUnknown, ''unknown'')]"

definition swap_table :: "('a, string) gomap \<Rightarrow> (string, 'a) gomap" where
  "swap_table t = map (\<lambda>(v, s). (s, v)) t"

definition StringToMonitorState :: "(string, monitor_state) gomap" where
  "StringToMonitorState = swap_table MonitorStateToString"

definition MonitorGlobalExpectValues :: "(string, monitor_global_expect) gomap" where
  "MonitorGlobalExpectValues = swap_table MonitorGlobalExpectStrings"

definition stringToMonitorLocalExpect :: "(string, monitor_local_expect) gomap" where
  "stringToMonitorLocalExpect = swap_table monitorLocalExpectToString"

definition MonitorStatesFailure :: "monitor_state list" where
  "MonitorStatesFailure =
    [MonitorStateCapFailure, MonitorStateDeleteFailure, MonitorStatePrepareFailure,
     MonitorStateWaitDestinationFailure, MonitorStateFreezeFailure, MonitorStateProvisionFailure,
     MonitorStatePurgeFailed, MonitorStateResizeFailure, MonitorStateShutdownFailure,
     MonitorStateStartFailure, MonitorStateStopFailure, MonitorStateUnfreezeFailure,
     MonitorStateUnprovisionFailure]"

fun MonitorState_IsOneOf :: "monitor_state \<Rightarrow> monitor_state list \<Rightarrow> bool" where
  "MonitorState_IsOneOf t [] = False"
| "MonitorState_IsOneOf t (s # states) = (if s = t then True else MonitorState_IsOneOf t states)"

definition MonitorState_String :: "monitor_state \<Rightarrow> string" where
  "MonitorState_String t = lkp [] MonitorStateToString t"

definition IsDoing :: "monitor_state \<Rightarrow> bool" where
  "IsDoing t = HasSuffix (MonitorState_String t) ''ing''"

definition MonitorState_MarshalText :: "monitor_state \<Rightarrow> string option" where
  "MonitorState_MarshalText t = map_of MonitorStateToString t"

definition MonitorState_UnmarshalText :: "string \<Rightarrow> monitor_state" where
  "MonitorState_UnmarshalText s =
    (case map_of StringToMonitorState s of None \<Rightarrow> MonitorStateUnknown | Some v \<Rightarrow> v)"

definition MonitorLocalExpect_String :: "monitor_local_expect \<Rightarrow> string" where
  "MonitorLocalExpect_String t = lkp [] monitorLocalExpectToString t"

definition MonitorLocalExpect_MarshalText :: "monitor_local_expect \<Rightarrow> string option" where
  "MonitorLocalExpect_MarshalText t = map_of monitorLocalExpectToString t"

definition MonitorLocalExpect_UnmarshalText :: "string \<Rightarrow> monitor_local_expect" where
  "MonitorLocalExpect_UnmarshalText s =
    (case map_of stringToMonitorLocalExpect s of None \<Rightarrow> MonitorLocalExpectUnknown | Some v \<Rightarrow> v)"

definition MonitorGlobalExpect_String :: "monitor_global_expect \<Rightarrow> string" where
  "MonitorGlobalExpect_String t = lkp [] MonitorGlobalExpectStrings t"

definition MonitorGlobalExpect_MarshalText :: "monitor_global_expect \<Rightarrow> string option" where
  "MonitorGlobalExpect_MarshalText t = map_of MonitorGlobalExpectStrings t"

definition MonitorGlobalExpect_UnmarshalText :: "string \<Rightarrow> monitor_global_expect" where
  "MonitorGlobalExpect_UnmarshalText s =
    (case map_of MonitorGlobalExpectValues s of None \<Rightarrow> MonitorGlobalExpectUnknown | Some v \<Rightarrow> v)"

section \<open>Resize stages\<close>

definition MaxResizeStages :: int where
  "MaxResizeStages = 3"

definition ResizeStage :: "monitor_state \<Rightarrow> int \<times> bool" where
  "ResizeStage t =
    (case t of
       MonitorStateResizeStage0 \<Rightarrow> (0, True)
     | MonitorStateResizeStage1 \<Rightarrow> (1, True)
     | MonitorStateResizeStage2 \<Rightarrow> (2, True)
     | _ \<Rightarrow> (0, False))"

definition NewMonitorStateResizeStage :: "int \<Rightarrow> monitor_state \<times> bool" where
  "NewMonitorStateResizeStage stage =
    (if stage = 0 then (MonitorStateResizeStage0, True)
     else if stage = 1 then (MonitorStateResizeStage1, True)
     else if stage = 2 then (MonitorStateResizeStage2, True)
     else (MonitorStateInit, False))"

section \<open>Instance monitor\<close>

text \<open>
  The options of a global expect, a value of one of the option types or absent; \<open>GeoOther\<close> is a
  value of a type no orchestration reads.
\<close>

datatype ge_options =
    GeoNil
  | GeoRestarted (geo_Force: bool)
  | GeoStopped (geo_InterruptSyncs: bool)
  | GeoProvisioned (geo_Adopt: bool)
  | GeoResized (geo_ConfigUpdatedAt: "time")
  | GeoCapped (geo_CapConfigUpdatedAt: "time")
  | GeoPlacedAt (geo_Destination: "string list") (geo_Live: bool) (geo_PaInterruptSyncs: bool)
  | GeoOther

record rmon_restart =
  rr_Remaining :: int
  rr_LastAt :: "time"

text \<open>A \<open>ResourceMonitor\<close> is its restart state, absent when no restart is configured.\<close>

record resource_monitor =
  rm_Restart :: "rmon_restart option"

type_synonym resource_monitors = "(string, resource_monitor) gomap"

record monitor =
  mon_GlobalExpect :: monitor_global_expect
  mon_GlobalExpectUpdatedAt :: "time"
  mon_GlobalExpectOptions :: ge_options
  mon_IsLeader :: bool
  mon_IsHALeader :: bool
  mon_LocalExpect :: monitor_local_expect
  mon_LocalExpectUpdatedAt :: "time"
  mon_OrchestrationID :: nat
  mon_OrchestrationIsDone :: bool
  mon_SessionID :: nat
  mon_State :: monitor_state
  mon_StateUpdatedAt :: "time"
  mon_MonitorActionExecutedAt :: "time"
  mon_IsPreserved :: bool
  mon_Resources :: resource_monitors
  mon_UpdatedAt :: "time"
  mon_Parents :: "(string, status) gomap"
  mon_Children :: "(string, status) gomap"

definition zero_monitor :: monitor where
  "zero_monitor =
    \<lparr>mon_GlobalExpect = MonitorGlobalExpectInit, mon_GlobalExpectUpdatedAt = 0,
     mon_GlobalExpectOptions = GeoNil, mon_IsLeader = False, mon_IsHALeader = False,
     mon_LocalExpect = MonitorLocalExpectInit, mon_LocalExpectUpdatedAt = 0,
     mon_OrchestrationID = 0, mon_OrchestrationIsDone = False, mon_SessionID = 0,
     mon_State = MonitorStateInit, mon_StateUpdatedAt = 0, mon_MonitorActionExecutedAt = 0,
     mon_IsPreserved = False, mon_Resources = [], mon_UpdatedAt = 0, mon_Parents = [],
     mon_Children = []\<rparr>"

text \<open>\<open>DecRestartRemaining\<close> dereferences the restart state: it is called on a monitor that has one.\<close>

definition DecRestartRemaining :: "resource_monitor \<Rightarrow> resource_monitor" where
  "DecRestartRemaining m =
    m\<lparr>rm_Restart := map_option
        (\<lambda>r. if rr_Remaining r > 0 then r\<lparr>rr_Remaining := rr_Remaining r - 1\<rparr> else r) (rm_Restart m)\<rparr>"

definition ResourceMonitors_Set :: "resource_monitors \<Rightarrow> string \<Rightarrow> resource_monitor \<Rightarrow> resource_monitors" where
  "ResourceMonitors_Set m rid rmon = AList.update rid rmon m"

definition ResourceMonitors_Get :: "resource_monitors \<Rightarrow> string \<Rightarrow> resource_monitor option" where
  "ResourceMonitors_Get m rid = map_of m rid"

section \<open>Resource and instance status\<close>

record start_blocker =
  sb_Reason :: string
  sb_Resync :: bool
  sb_Path :: string

datatype log_level = DebugLevel | InfoLevel | WarnLevel | ErrorLevel

record resource_status =
  rs_Status :: status
  rs_Type :: string
  rs_Log :: "log_level list"
  rs_Provisioned :: provisioned
  rs_IsMonitored :: bool
  rs_IsDisabled :: bool
  rs_IsOptional :: bool
  rs_IsEncap :: bool
  rs_IsStandby :: bool
  rs_IsStopped :: bool
  rs_OutdatedAt :: "time"
  rs_RPOBreachedAt :: "time"
  rs_DependsOnPeers :: bool
  rs_StartBlocker :: "start_blocker option"
  rs_Info :: "(string, string) gomap"

definition zero_resource_status :: resource_status where
  "zero_resource_status =
    \<lparr>rs_Status = StUndef, rs_Type = [], rs_Log = [], rs_Provisioned = PrUndef, rs_IsMonitored = False,
     rs_IsDisabled = False, rs_IsOptional = False, rs_IsEncap = False, rs_IsStandby = False,
     rs_IsStopped = False, rs_OutdatedAt = 0, rs_RPOBreachedAt = 0, rs_DependsOnPeers = False,
     rs_StartBlocker = None, rs_Info = []\<rparr>"

type_synonym resource_statuses = "(string, resource_status) gomap"

text \<open>
  The instance status. \<open>st_Encap\<close> keeps the resource statuses of each encapsulated instance,
  \<open>st_Running\<close> the resource ids of the runs in progress.
\<close>

record instance_status =
  st_Avail :: status
  st_Encap :: "(string, resource_statuses) gomap"
  st_FrozenAt :: "time"
  st_LastStartedAt :: "time"
  st_Optional :: status
  st_Overall :: status
  st_Provisioned :: provisioned
  st_Resources :: resource_statuses
  st_Running :: "string list"
  st_StoppedAt :: "time"
  st_FrozenScope :: string
  st_UpdatedAt :: "time"
  st_ConfigCsum :: string
  st_OutdatedAt :: "time"
  st_RPOBreachedAt :: "time"

definition zero_status :: instance_status where
  "zero_status =
    \<lparr>st_Avail = StUndef, st_Encap = [], st_FrozenAt = 0, st_LastStartedAt = 0, st_Optional = StUndef,
     st_Overall = StUndef, st_Provisioned = PrUndef, st_Resources = [], st_Running = [],
     st_StoppedAt = 0, st_FrozenScope = [], st_UpdatedAt = 0, st_ConfigCsum = [], st_OutdatedAt = 0,
     st_RPOBreachedAt = 0\<rparr>"

definition IsFrozen :: "instance_status \<Rightarrow> bool" where
  "IsFrozen t = (st_FrozenAt t \<noteq> 0)"

definition IsUnfrozen :: "instance_status \<Rightarrow> bool" where
  "IsUnfrozen t = (st_FrozenAt t = 0)"

definition IsStopped :: "instance_status \<Rightarrow> bool" where
  "IsStopped t = (st_StoppedAt t \<noteq> 0)"

definition StoppedResources :: "instance_status \<Rightarrow> string list" where
  "StoppedResources t = sort (map fst (filter (\<lambda>(rid, rstat). rs_IsStopped rstat) (st_Resources t)))"

section \<open>Instance configuration\<close>

record resource_config =
  rc_IsDisabled :: bool
  rc_IsMonitored :: bool
  rc_IsStandby :: bool
  rc_Restart :: int
  rc_RestartDelay :: "duration option"

type_synonym resource_configs = "(string, resource_config) gomap"

record flex_config =
  fx_Max :: int
  fx_Min :: int
  fx_Target :: int

record actor_config =
  ac_Children :: "string list"
  ac_MonitorAction :: "monitor_action list"
  ac_PreMonitorAction :: string
  ac_Orchestrate :: string
  ac_Parents :: "string list"
  ac_PlacementPolicy :: policy
  ac_Resources :: resource_configs
  ac_Stonith :: bool
  ac_Topology :: topology
  ac_Flex :: "flex_config option"
  ac_IsDisabled :: bool
  ac_WaitSyncsTimeout :: duration
  ac_HardAffinity :: "path list"
  ac_HardAntiAffinity :: "path list"
  ac_SoftAffinity :: "path list"
  ac_SoftAntiAffinity :: "path list"
  ac_StartTimeout :: duration

record vol_config =
  vc_Pool :: string
  vc_Size :: int

record config =
  cfg_Checksum :: string
  cfg_Priority :: int
  cfg_Scope :: "string list"
  cfg_UpdatedAt :: "time"
  cfg_Labels :: "(string, string) gomap"
  cfg_Actor :: "actor_config option"
  cfg_Vol :: "vol_config option"

definition zero_config :: config where
  "zero_config =
    \<lparr>cfg_Checksum = [], cfg_Priority = 0, cfg_Scope = [], cfg_UpdatedAt = 0, cfg_Labels = [],
     cfg_Actor = None, cfg_Vol = None\<rparr>"

definition ConfigEqual :: "config \<Rightarrow> config \<Rightarrow> bool" where
  "ConfigEqual a b =
    (cfg_UpdatedAt a = cfg_UpdatedAt b \<and> cfg_Checksum a = cfg_Checksum b
     \<and> cfg_Scope a = cfg_Scope b
     \<and> length (cfg_Labels a) = length (cfg_Labels b)
     \<and> list_all (\<lambda>(k, v). map_of (cfg_Labels b) k = Some v) (cfg_Labels a))"

definition ResourceConfigs_Get :: "resource_configs \<Rightarrow> string \<Rightarrow> resource_config option" where
  "ResourceConfigs_Get rcfgs rid = map_of rcfgs rid"

section \<open>Node and object data\<close>

text \<open>The node monitor states (\<open>core/node/monitor_state.go\<close>) and the node data the monitors read.\<close>

datatype node_state =
    NodeStateInit
  | NodeStateIdle
  | NodeStateRejoin
  | NodeStateMaintenance
  | NodeStateUpgrade
  | NodeStateFreezeProgress
  | NodeStateFreezeFailure
  | NodeStateFreezeSuccess
  | NodeStateUnfreezeProgress
  | NodeStateUnfreezeFailure
  | NodeStateUnfreezeSuccess
  | NodeStateDrainProgress
  | NodeStateDrainFailure
  | NodeStateDrainSuccess
  | NodeStateShutdownProgress
  | NodeStateShutdownFailure
  | NodeStateShutdownSuccess
  | NodeStateUnknown

datatype node_global_expect =
    NodeGlobalExpectInit
  | NodeGlobalExpectAborted
  | NodeGlobalExpectFrozen
  | NodeGlobalExpectNone
  | NodeGlobalExpectUnfrozen
  | NodeGlobalExpectUnknown

definition MonitorStateUnrankable :: "node_state list" where
  "MonitorStateUnrankable =
    [NodeStateInit, NodeStateRejoin, NodeStateMaintenance, NodeStateUpgrade, NodeStateShutdownSuccess,
     NodeStateShutdownFailure, NodeStateShutdownProgress, NodeStateUnknown]"

definition IsRankable :: "node_state \<Rightarrow> bool" where
  "IsRankable t = (t \<notin> set MonitorStateUnrankable)"

record node_monitor =
  nm_State :: node_state
  nm_GlobalExpect :: node_global_expect

definition zero_node_monitor :: node_monitor where
  "zero_node_monitor = \<lparr>nm_State = NodeStateInit, nm_GlobalExpect = NodeGlobalExpectInit\<rparr>"

record node_status =
  ns_FrozenAt :: "time"
  ns_LeftAt :: "time"
  ns_RejoinedAt :: "time"

definition zero_node_status :: node_status where
  "zero_node_status = \<lparr>ns_FrozenAt = 0, ns_LeftAt = 0, ns_RejoinedAt = 0\<rparr>"

definition node_IsFrozen :: "node_status \<Rightarrow> bool" where
  "node_IsFrozen t = (ns_FrozenAt t \<noteq> 0)"

text \<open>The load average is a float of the source: only its order is used, so an integer stands for it.\<close>

record node_stats =
  sta_Score :: int
  sta_Load15M :: int

text \<open>The object status (\<open>core/object/type_status.go\<close>): the actor part is a pointer, nil for a non actor.\<close>

record flex_status =
  fl_Target :: int
  fl_Min :: int
  fl_Max :: int

record actor_status =
  as_Avail :: status
  as_Frozen :: string
  as_Orchestrate :: string
  as_Overall :: status
  as_PlacementPolicy :: policy
  as_PlacementState :: placement_state
  as_Provisioned :: provisioned
  as_Topology :: topology
  as_UpInstancesCount :: int
  as_Flex :: "flex_status option"

definition zero_actor_status :: actor_status where
  "zero_actor_status =
    \<lparr>as_Avail = StUndef, as_Frozen = [], as_Orchestrate = [], as_Overall = StUndef,
     as_PlacementPolicy = PolInvalid, as_PlacementState = PlUndef, as_Provisioned = PrUndef,
     as_Topology = TopInvalid, as_UpInstancesCount = 0, as_Flex = None\<rparr>"

record object_status =
  os_Priority :: int
  os_Scope :: "string list"
  os_UpdatedAt :: "time"
  os_Actor :: "actor_status option"
  os_Vol :: "vol_config option"

definition zero_object_status :: object_status where
  "zero_object_status = \<lparr>os_Priority = 0, os_Scope = [], os_UpdatedAt = 0, os_Actor = None, os_Vol = None\<rparr>"

section \<open>Orchestration announcements\<close>

text \<open>\<open>msgbus.ObjectOrchestrationEnd\<close>: the end of an orchestration, as the monitors announce it.\<close>

record orchestration_end =
  oe_ID :: nat
  oe_GlobalExpect :: monitor_global_expect
  oe_GlobalExpectUpdatedAt :: "time"
  oe_Aborted :: bool
  oe_Failed :: bool
  oe_Error :: string

section \<open>Instance status evaluation\<close>

text \<open>
  What a resource adds to the status of its instance (\<open>core/object/actor_status.go\<close>): the
  driver group is named by the part of the resource id before its separator.
\<close>

datatype driver_group = GroupSync | GroupTask | GroupOther

definition driver_group_of :: "string \<Rightarrow> driver_group" where
  "driver_group_of rid =
    (let g = resourceid_group_name rid
     in if g = ''sync'' then GroupSync else if g = ''task'' then GroupTask else GroupOther)"

definition overallContribution :: "driver_group \<Rightarrow> status \<Rightarrow> status" where
  "overallContribution grp s =
    (if grp \<noteq> GroupSync then s
     else case s of StUp \<Rightarrow> StNotApplicable | StDown \<Rightarrow> StWarn | _ \<Rightarrow> s)"

text \<open>\<open>earliest\<close>: a zero time says nothing; another is kept when it is the first or earlier.\<close>

definition earliest :: "time \<Rightarrow> time \<Rightarrow> time" where
  "earliest cur tm = (if tm \<noteq> 0 \<and> (cur = 0 \<or> tm < cur) then tm else cur)"

fun log_contribution :: "status \<Rightarrow> log_level list \<Rightarrow> status" where
  "log_contribution s [] = s"
| "log_contribution s (WarnLevel # l) = log_contribution (status_Add s StWarn) l"
| "log_contribution s (ErrorLevel # l) = log_contribution (status_Add s StWarn) l"
| "log_contribution s (_ # l) = log_contribution s l"

definition doResourceStatus :: "instance_status \<Rightarrow> driver_group \<times> resource_status \<Rightarrow> instance_status" where
  "doResourceStatus data gr =
    (case gr of (grp, rs) \<Rightarrow>
      data\<lparr>st_OutdatedAt := earliest (st_OutdatedAt data) (rs_OutdatedAt rs),
           st_RPOBreachedAt := earliest (st_RPOBreachedAt data) (rs_RPOBreachedAt rs),
           st_Overall :=
             log_contribution (status_Add (st_Overall data) (overallContribution grp (rs_Status rs))) (rs_Log rs),
           st_Avail :=
             (if rs_IsOptional rs then st_Avail data
              else case grp of
                GroupSync \<Rightarrow> st_Avail data
              | GroupTask \<Rightarrow> st_Avail data
              | GroupOther \<Rightarrow> status_Add (st_Avail data) (rs_Status rs)),
           st_Provisioned := provisioned_Add (st_Provisioned data) (rs_Provisioned rs)\<rparr>)"

definition finishStatus :: "instance_status \<Rightarrow> instance_status" where
  "finishStatus data =
    data\<lparr>st_Avail := (if st_Avail data = StUndef then StNotApplicable else st_Avail data),
         st_Overall := (if st_Overall data = StUndef then StNotApplicable else st_Overall data)\<rparr>"

text \<open>
  The evaluation of a set of resources, in the order their evaluations end: the resources of a
  parallel subset are evaluated by concurrent goroutines, each adding its own under a lock.
\<close>

definition resourceStatusEval :: "instance_status \<Rightarrow> (driver_group \<times> resource_status) list \<Rightarrow> instance_status" where
  "resourceStatusEval data l = finishStatus (foldl doResourceStatus data l)"

section \<open>Lemmas\<close>

lemma MonitorState_IsOneOf_iff [simp]: "MonitorState_IsOneOf t l \<longleftrightarrow> t \<in> set l"
  by (induction l) auto

lemma map_of_swap_table:
  "distinct (map snd t) \<Longrightarrow> map_of t x = Some s \<Longrightarrow> map_of (swap_table t) s = Some x"
proof (induction t)
  case Nil
  then show ?case by simp
next
  case (Cons a t)
  obtain v n where a: "a = (v, n)" by (cases a)
  show ?case
  proof (cases "v = x")
    case True
    with Cons.prems a show ?thesis by (simp add: swap_table_def)
  next
    case False
    with Cons.prems a have x: "map_of t x = Some s" by simp
    then have "s \<in> snd ` set t" by (metis map_of_SomeD snd_conv image_eqI)
    with Cons.prems a have "n \<noteq> s" by auto
    with Cons a x show ?thesis by (simp add: swap_table_def)
  qed
qed

interpretation monitor_state_codec: text_codec MonitorState_MarshalText MonitorState_UnmarshalText
proof
  show "MonitorState_MarshalText x \<noteq> None" for x
    unfolding MonitorState_MarshalText_def by (cases x) (simp_all add: MonitorStateToString_def)
  have "distinct (map snd MonitorStateToString)" by code_simp
  then show "MonitorState_MarshalText x = Some s \<Longrightarrow> MonitorState_UnmarshalText s = x" for x s
    by (simp add: MonitorState_MarshalText_def MonitorState_UnmarshalText_def StringToMonitorState_def
        map_of_swap_table)
qed

interpretation global_expect_codec: text_codec MonitorGlobalExpect_MarshalText MonitorGlobalExpect_UnmarshalText
proof
  show "MonitorGlobalExpect_MarshalText x \<noteq> None" for x
    unfolding MonitorGlobalExpect_MarshalText_def by (cases x) (simp_all add: MonitorGlobalExpectStrings_def)
  have "distinct (map snd MonitorGlobalExpectStrings)" by code_simp
  then show "MonitorGlobalExpect_MarshalText x = Some s \<Longrightarrow> MonitorGlobalExpect_UnmarshalText s = x" for x s
    by (simp add: MonitorGlobalExpect_MarshalText_def MonitorGlobalExpect_UnmarshalText_def
        MonitorGlobalExpectValues_def map_of_swap_table)
qed

interpretation local_expect_codec: text_codec MonitorLocalExpect_MarshalText MonitorLocalExpect_UnmarshalText
proof
  show "MonitorLocalExpect_MarshalText x \<noteq> None" for x
    unfolding MonitorLocalExpect_MarshalText_def by (cases x) (simp_all add: monitorLocalExpectToString_def)
  have "distinct (map snd monitorLocalExpectToString)" by code_simp
  then show "MonitorLocalExpect_MarshalText x = Some s \<Longrightarrow> MonitorLocalExpect_UnmarshalText s = x" for x s
    by (simp add: MonitorLocalExpect_MarshalText_def MonitorLocalExpect_UnmarshalText_def
        stringToMonitorLocalExpect_def map_of_swap_table)
qed

text \<open>The states of an action in progress, which \<open>IsDoing\<close> recognises by the suffix of their name.\<close>

definition doing_states :: "monitor_state list" where
  "doing_states =
    [MonitorStateBootProgress, MonitorStateShutdownProgress, MonitorStateStartProgress,
     MonitorStateStopProgress, MonitorStateFreezeProgress, MonitorStateUnfreezeProgress,
     MonitorStateProvisionProgress, MonitorStateUnprovisionProgress, MonitorStateDeleteProgress,
     MonitorStateResizeProgress, MonitorStateCapProgress, MonitorStatePrepareProgress,
     MonitorStatePreflightProgress, MonitorStateRunning, MonitorStateSyncing]"

lemma IsDoing_table: "list_all (\<lambda>(s, _). IsDoing s \<longleftrightarrow> s \<in> set doing_states) MonitorStateToString"
  by code_simp

lemma MonitorState_in_table: "x \<in> fst ` set MonitorStateToString"
  using monitor_state_codec.marshal_total [of x]
  by (simp add: MonitorState_MarshalText_def map_of_eq_None_iff)

lemma IsDoing_iff: "IsDoing s \<longleftrightarrow> s \<in> set doing_states"
  using IsDoing_table MonitorState_in_table [of s] by (fastforce simp: list_all_iff)

lemma IsDoing_simps [simp]:
  "\<not> IsDoing MonitorStateIdle" "\<not> IsDoing MonitorStateReady" "\<not> IsDoing MonitorStateInit"
  "\<not> IsDoing MonitorStateWaitSyncs" "\<not> IsDoing MonitorStateWaitChildren"
  "IsDoing MonitorStateStartProgress" "IsDoing MonitorStateStopProgress"
  by (simp_all add: IsDoing_iff doing_states_def)

lemma IsUnfrozen_iff [simp]: "IsUnfrozen s \<longleftrightarrow> \<not> IsFrozen s"
  by (simp add: IsUnfrozen_def IsFrozen_def)

lemma set_StoppedResources:
  "set (StoppedResources s) = {rid. \<exists>rs. (rid, rs) \<in> set (st_Resources s) \<and> rs_IsStopped rs}"
  by (auto simp: StoppedResources_def image_iff)

lemma StoppedResources_Nil: "StoppedResources s = [] \<longleftrightarrow> (\<forall>(rid, rs) \<in> set (st_Resources s). \<not> rs_IsStopped rs)"
  using set_StoppedResources [of s] by (auto simp flip: set_empty)

subsection \<open>Evaluating a set of resources\<close>

text \<open>The statuses a list of evaluated resources contributes to the avail and overall aggregates.\<close>

definition avail_part :: "(driver_group \<times> resource_status) list \<Rightarrow> status list" where
  "avail_part l = map (rs_Status \<circ> snd) (filter (\<lambda>(g, rs). g = GroupOther \<and> \<not> rs_IsOptional rs) l)"

definition log_part :: "log_level list \<Rightarrow> status list" where
  "log_part l = map (\<lambda>_. StWarn) (filter (\<lambda>v. v = WarnLevel \<or> v = ErrorLevel) l)"

definition overall_part :: "(driver_group \<times> resource_status) list \<Rightarrow> status list" where
  "overall_part l = concat (map (\<lambda>(g, rs). overallContribution g (rs_Status rs) # log_part (rs_Log rs)) l)"

lemma log_contribution_foldl: "log_contribution s l = foldl status_Add s (log_part l)"
  by (induction s l rule: log_contribution.induct) (simp_all add: log_part_def)

lemma eval_avail: "st_Avail (foldl doResourceStatus data l) = foldl status_Add (st_Avail data) (avail_part l)"
  by (induction l arbitrary: data)
    (auto simp: doResourceStatus_def avail_part_def split: driver_group.splits)

lemma eval_overall: "st_Overall (foldl doResourceStatus data l) = foldl status_Add (st_Overall data) (overall_part l)"
  by (induction l arbitrary: data)
    (auto simp: doResourceStatus_def overall_part_def log_contribution_foldl)

lemma eval_provisioned:
  "st_Provisioned (foldl doResourceStatus data l) = foldl provisioned_And (st_Provisioned data) (map (rs_Provisioned \<circ> snd) l)"
  by (induction l arbitrary: data) (auto simp: doResourceStatus_def provisioned_Add_def)

lemma earliest_swap: "earliest (earliest c x) y = earliest (earliest c y) x"
  by (auto simp: earliest_def)

interpretation earliest_times: order_free earliest
  by unfold_locales (rule earliest_swap)

lemma eval_times:
  "st_OutdatedAt (foldl doResourceStatus data l) = foldl earliest (st_OutdatedAt data) (map (rs_OutdatedAt \<circ> snd) l)"
  "st_RPOBreachedAt (foldl doResourceStatus data l) = foldl earliest (st_RPOBreachedAt data) (map (rs_RPOBreachedAt \<circ> snd) l)"
  by (induction l arbitrary: data) (auto simp: doResourceStatus_def)

lemma finish_simps:
  "st_OutdatedAt (finishStatus d) = st_OutdatedAt d" "st_RPOBreachedAt (finishStatus d) = st_RPOBreachedAt d"
  "st_Provisioned (finishStatus d) = st_Provisioned d"
  by (simp_all add: finishStatus_def)

lemma mset_map_eq: "mset l = mset l' \<Longrightarrow> mset (map f l) = mset (map f l')"
  by (simp add: mset_map)

lemma mset_avail_part: "mset l = mset l' \<Longrightarrow> mset (avail_part l) = mset (avail_part l')"
  by (simp add: avail_part_def mset_map mset_filter)

lemma mset_overall_part: "mset l = mset l' \<Longrightarrow> mset (overall_part l) = mset (overall_part l')"
proof -
  have "mset (concat xs) = \<Sum>\<^sub># (image_mset mset (mset xs))" for xs :: "status list list"
    by (induction xs) simp_all
  then show "mset l = mset l' \<Longrightarrow> ?thesis" by (simp add: overall_part_def mset_map)
qed

section \<open>Properties\<close>

text \<open>
  The evaluation of an instance does not depend on the order its resources are evaluated in:
  the availability, the overall status and the times of its oldest outdated copy and of its oldest
  objective missed are the same in any order, and so is the provisioned state as soon as one
  resource says true, false or mixed.
\<close>

theorem resourceStatusEval_order_free:
  assumes "mset l = mset l'"
  shows "st_Avail (resourceStatusEval zero_status l) = st_Avail (resourceStatusEval zero_status l')
    \<and> st_Overall (resourceStatusEval zero_status l) = st_Overall (resourceStatusEval zero_status l')
    \<and> st_OutdatedAt (resourceStatusEval zero_status l) = st_OutdatedAt (resourceStatusEval zero_status l')
    \<and> st_RPOBreachedAt (resourceStatusEval zero_status l) = st_RPOBreachedAt (resourceStatusEval zero_status l')
    \<and> ((\<exists>r\<in>set l. pr_known (rs_Provisioned (snd r))) \<longrightarrow>
      st_Provisioned (resourceStatusEval zero_status l) = st_Provisioned (resourceStatusEval zero_status l'))"
proof (intro conjI impI)
  show "st_Avail (resourceStatusEval zero_status l) = st_Avail (resourceStatusEval zero_status l')"
    using status_agg.foldl_perm [OF mset_avail_part [OF assms]]
    by (simp add: resourceStatusEval_def finishStatus_def eval_avail)
  show "st_Overall (resourceStatusEval zero_status l) = st_Overall (resourceStatusEval zero_status l')"
    using status_agg.foldl_perm [OF mset_overall_part [OF assms]]
    by (simp add: resourceStatusEval_def finishStatus_def eval_overall)
  show "st_OutdatedAt (resourceStatusEval zero_status l) = st_OutdatedAt (resourceStatusEval zero_status l')"
    "st_RPOBreachedAt (resourceStatusEval zero_status l) = st_RPOBreachedAt (resourceStatusEval zero_status l')"
    using earliest_times.foldl_perm [OF mset_map_eq [OF assms]]
    by (simp_all add: resourceStatusEval_def finish_simps eval_times)
  assume k: "\<exists>r\<in>set l. pr_known (rs_Provisioned (snd r))"
  let ?p = "map (rs_Provisioned \<circ> snd)"
  have s: "set (?p l) = set (?p l')" using mset_map_eq [OF assms] by (rule mset_eq_setD)
  have "\<exists>x\<in>set (?p l). pr_known x" using k by auto
  then have "pr_known (foldl provisioned_And PrUndef (?p l))" "pr_known (foldl provisioned_And PrUndef (?p l'))"
    using s by (auto simp only: foldl_And_known)
  from this [THEN foldl_And_summary] s
  show "st_Provisioned (resourceStatusEval zero_status l) = st_Provisioned (resourceStatusEval zero_status l')"
    by (simp add: resourceStatusEval_def finish_simps eval_provisioned zero_status_def)
qed

theorem resourceStatusEval_order_free_witness:
  "st_Provisioned (resourceStatusEval zero_status
      [(GroupSync, zero_resource_status\<lparr>rs_Provisioned := PrTrue\<rparr>), (GroupOther, zero_resource_status)])
   = st_Provisioned (resourceStatusEval zero_status
      [(GroupOther, zero_resource_status), (GroupSync, zero_resource_status\<lparr>rs_Provisioned := PrTrue\<rparr>)])"
  by (rule resourceStatusEval_order_free [THEN conjunct2, THEN conjunct2, THEN conjunct2, THEN conjunct2, THEN mp])
    (simp_all add: pr_known_def)

end
