(* ===== verification/Omon.thy ===== *)
theory Omon
  imports Instance
begin

text \<open>
  The object monitor, \<open>daemon/omon\<close>: it keeps the last configuration, status and monitor of every
  instance of an object, and publishes the object status aggregated from them.

  The manager is a record, each message its worker handles a step returning the new manager, or
  \<open>None\<close> where the Go code panics: an index out of the range of a counting array, or a write
  through the nil actor status. The statuses are counted in arrays of 128 slots indexed by the
  integer value of a status, as in the source.
\<close>

section \<open>Placement state\<close>

fun placement_loop ::
  "placement_state \<Rightarrow> (string, monitor) gomap \<Rightarrow> (string, instance_status) gomap \<Rightarrow> placement_state" where
  "placement_loop state [] statuses = state"
| "placement_loop state ((node, mon) # monitors) statuses =
    (case map_of statuses node of
       None \<Rightarrow> PlNotApplicable
     | Some st \<Rightarrow>
         if mon_IsLeader mon \<and> \<not> status_Is (st_Avail st) [StUp, StNotApplicable] then NonOptimal
         else if \<not> mon_IsLeader mon
              \<and> \<not> status_Is (st_Avail st) [StDown, StStandbyUp, StStandbyDown, StNotApplicable] then NonOptimal
         else placement_loop Optimal monitors statuses)"

definition placementState ::
  "kind \<Rightarrow> status \<Rightarrow> (string, monitor) gomap \<Rightarrow> (string, instance_status) gomap \<Rightarrow> placement_state" where
  "placementState k avail monitors statuses =
    (if k \<noteq> KindSvc then PlNotApplicable
     else if status_Is avail [StDown, StNotApplicable, StUndef, StWarn] then PlNotApplicable
     else placement_loop PlNotApplicable monitors statuses)"

section \<open>Counting the statuses\<close>

definition zero_counts :: "int list" where
  "zero_counts = replicate 128 0"

definition count_of :: "int list \<Rightarrow> status \<Rightarrow> int" where
  "count_of counts s = counts ! nat (status_val s)"

definition count_bump :: "int list \<Rightarrow> status \<Rightarrow> int list option" where
  "count_bump counts s =
    (if nat (status_val s) < length counts
     then Some (counts[nat (status_val s) := count_of counts s + 1])
     else None)"

fun count_statuses :: "int list \<Rightarrow> status list \<Rightarrow> int list option" where
  "count_statuses counts [] = Some counts"
| "count_statuses counts (s # l) =
    (case count_bump counts s of None \<Rightarrow> None | Some c \<Rightarrow> count_statuses c l)"

definition aggregateStatusFailover :: "int list \<Rightarrow> status" where
  "aggregateStatusFailover states =
    (if count_of states StUp = 0 then StDown
     else if count_of states StUp = 1 then StUp
     else StWarn)"

definition aggregateStatusFlex :: "flex_status option \<Rightarrow> int list \<Rightarrow> status" where
  "aggregateStatusFlex flex states =
    (if count_of states StUp = 0 then StDown
     else case flex of
       None \<Rightarrow> StWarn
     | Some f \<Rightarrow>
         if count_of states StUp < fl_Min f then StWarn
         else if count_of states StUp > fl_Max f then StWarn
         else StUp)"

text \<open>The not applicable test reads the avail counts, whichever counts are aggregated.\<close>

definition aggregateStatus :: "actor_status \<Rightarrow> nat \<Rightarrow> int list \<Rightarrow> int list \<Rightarrow> status" where
  "aggregateStatus as n availCount states =
    (if n = 0 then StNotApplicable
     else if int n = count_of availCount StNotApplicable then StNotApplicable
     else if count_of states StWarn > 0 then StWarn
     else case as_Topology as of
       Failover \<Rightarrow> aggregateStatusFailover states
     | Flex \<Rightarrow> aggregateStatusFlex (as_Flex as) states
     | TopInvalid \<Rightarrow> StUndef)"

definition updateAvailOverall :: "(string, instance_status) gomap \<Rightarrow> actor_status \<Rightarrow> actor_status option" where
  "updateAvailOverall instStatus as =
    (case count_statuses zero_counts (map (st_Avail \<circ> snd) instStatus) of
       None \<Rightarrow> None
     | Some availCount \<Rightarrow>
         (case count_statuses zero_counts (map (st_Overall \<circ> snd) instStatus) of
            None \<Rightarrow> None
          | Some overallCount \<Rightarrow>
              Some (as\<lparr>as_UpInstancesCount := count_of availCount StUp,
                       as_Avail := aggregateStatus as (length instStatus) availCount availCount,
                       as_Overall := aggregateStatus as (length instStatus) availCount overallCount\<rparr>)))"

definition updateProvisioned :: "(string, instance_status) gomap \<Rightarrow> actor_status \<Rightarrow> actor_status" where
  "updateProvisioned instStatus as =
    as\<lparr>as_Provisioned := foldl provisioned_And PrUndef (map (st_Provisioned \<circ> snd) instStatus)\<rparr>"

definition updateFrozen :: "(string, instance_status) gomap \<Rightarrow> actor_status \<Rightarrow> actor_status" where
  "updateFrozen instStatus as =
    (let n = length instStatus;
         unfrozen = length (filter (\<lambda>(_, st). st_FrozenAt st = 0) instStatus);
         frozen = length (filter (\<lambda>(_, st). st_FrozenAt st \<noteq> 0) instStatus)
     in as\<lparr>as_Frozen :=
          (if n = 0 then ''n/a''
           else if n = frozen then ''frozen''
           else if n = unfrozen then ''unfrozen''
           else ''mixed'')\<rparr>)"

definition updatePlacementState ::
  "kind \<Rightarrow> (string, monitor) gomap \<Rightarrow> (string, instance_status) gomap \<Rightarrow> actor_status \<Rightarrow> actor_status" where
  "updatePlacementState k instMonitor instStatus as =
    as\<lparr>as_PlacementState := placementState k (as_Avail as) instMonitor instStatus\<rparr>"

section \<open>The manager\<close>

datatype omon_event =
    EvInstanceMonitorUpdated string monitor
  | EvInstanceMonitorDeleted string "orchestration_end option"
  | EvInstanceStatusDeleted string
  | EvInstanceConfigFor "string list" "time"
  | EvInstanceStatusUpdated string instance_status
  | EvInstanceConfigUpdated string config
  | EvInstanceConfigDeleted string

datatype omon_msg =
    ObjectStatusUpdated object_status "omon_event option"
  | ObjectStatusDeleted
  | ObjectDeleted
  | ObjectStatusDone
  | ObjectOrchestrationEnd orchestration_end

record omon =
  om_path :: path
  om_isActor :: bool
  om_status :: object_status
  om_instStatus :: "(string, instance_status) gomap"
  om_instMonitor :: "(string, monitor) gomap"
  om_instConfig :: "(string, config) gomap"
  om_cfgForScope :: "string list"
  om_cfgForUpdatedAt :: "time"
  om_srcEvent :: "omon_event option"
  om_imonRunning :: bool
  om_localhost :: string
  om_orchestrationEnd :: "orchestration_end option"
  om_stored :: "object_status option"
  om_pubs :: "omon_msg list"

text \<open>\<open>update\<close> stores the status in the object cache and publishes it with its source event.\<close>

definition omon_update :: "time \<Rightarrow> omon \<Rightarrow> omon" where
  "omon_update now t =
    (let t = t\<lparr>om_status := (om_status t)\<lparr>os_UpdatedAt := now\<rparr>\<rparr>
     in t\<lparr>om_stored := Some (om_status t),
          om_pubs := om_pubs t @ [ObjectStatusUpdated (om_status t) (om_srcEvent t)]\<rparr>)"

definition updateStatus :: "time \<Rightarrow> omon \<Rightarrow> omon option" where
  "updateStatus now t =
    (if \<not> om_isActor t then Some (omon_update now t)
     else case os_Actor (om_status t) of
       None \<Rightarrow> None
     | Some as \<Rightarrow>
         (case updateAvailOverall (om_instStatus t) as of
            None \<Rightarrow> None
          | Some as \<Rightarrow>
              let as = updateProvisioned (om_instStatus t) as;
                  as = updateFrozen (om_instStatus t) as;
                  as = updatePlacementState (p_Kind (om_path t)) (om_instMonitor t) (om_instStatus t) as
              in Some (omon_update now (t\<lparr>om_status := (om_status t)\<lparr>os_Actor := Some as\<rparr>\<rparr>))))"

definition flex_status_of :: "flex_config \<Rightarrow> flex_status" where
  "flex_status_of f = \<lparr>fl_Target = fx_Target f, fl_Min = fx_Min f, fl_Max = fx_Max f\<rparr>"

text \<open>The initial status of an object, from the configuration its monitor is started with.\<close>

definition omon_Start :: "path \<Rightarrow> string \<Rightarrow> config \<Rightarrow> omon" where
  "omon_Start p localhost cfg =
    \<lparr>om_path = p, om_isActor = (cfg_Actor cfg \<noteq> None),
     om_status =
       \<lparr>os_Priority = cfg_Priority cfg, os_Scope = cfg_Scope cfg, os_UpdatedAt = 0,
        os_Actor = map_option
          (\<lambda>ac. zero_actor_status
             \<lparr>as_Orchestrate := ac_Orchestrate ac, as_PlacementPolicy := ac_PlacementPolicy ac,
              as_Topology := ac_Topology ac, as_Flex := map_option flex_status_of (ac_Flex ac)\<rparr>)
          (cfg_Actor cfg),
        os_Vol = cfg_Vol cfg\<rparr>,
     om_instStatus = [], om_instMonitor = [], om_instConfig = [], om_cfgForScope = [],
     om_cfgForUpdatedAt = 0, om_srcEvent = None, om_imonRunning = False, om_localhost = localhost,
     om_orchestrationEnd = None, om_stored = None, om_pubs = []\<rparr>"

text \<open>
  \<open>startInstanceMonitor\<close>, guarded by its callers on a non empty scope: \<open>imonStart\<close> says whether
  the instance monitor could be started.
\<close>

definition startInstanceMonitor :: "bool \<Rightarrow> omon \<Rightarrow> omon" where
  "startInstanceMonitor imonStart t = (if imonStart then t\<lparr>om_imonRunning := True\<rparr> else t)"

definition config_status :: "config \<Rightarrow> object_status \<Rightarrow> object_status" where
  "config_status cfg st =
    st\<lparr>os_Priority := cfg_Priority cfg, os_Scope := cfg_Scope cfg,
       os_Actor :=
         (case cfg_Actor cfg of
            None \<Rightarrow> None
          | Some ac \<Rightarrow>
              Some ((case os_Actor st of None \<Rightarrow> zero_actor_status | Some as \<Rightarrow> as)
                \<lparr>as_Orchestrate := ac_Orchestrate ac, as_PlacementPolicy := ac_PlacementPolicy ac,
                 as_Topology := ac_Topology ac, as_Flex := map_option flex_status_of (ac_Flex ac)\<rparr>)),
       os_Vol := cfg_Vol cfg\<rparr>"

fun delete_first :: "'a \<Rightarrow> 'a list \<Rightarrow> 'a list" where
  "delete_first x [] = []"
| "delete_first x (y # l) = (if y = x then l else y # delete_first x l)"

definition omon_handle :: "time \<Rightarrow> bool \<Rightarrow> omon_event \<Rightarrow> omon \<Rightarrow> omon option" where
  "omon_handle now imonStart c t =
    (let t = t\<lparr>om_srcEvent := None\<rparr>
     in case c of
       EvInstanceMonitorUpdated node v \<Rightarrow>
         updateStatus now (t\<lparr>om_srcEvent := Some c, om_instMonitor := AList.update node v (om_instMonitor t)\<rparr>)
     | EvInstanceMonitorDeleted node oe \<Rightarrow>
         (case updateStatus now
             (t\<lparr>om_srcEvent := Some c, om_instMonitor := AList.delete node (om_instMonitor t)\<rparr>) of
            None \<Rightarrow> None
          | Some t \<Rightarrow> Some (if node = om_localhost t then t\<lparr>om_orchestrationEnd := oe\<rparr> else t))
     | EvInstanceStatusDeleted node \<Rightarrow>
         updateStatus now (t\<lparr>om_srcEvent := Some c, om_instStatus := AList.delete node (om_instStatus t)\<rparr>)
     | EvInstanceConfigFor scope updatedAt \<Rightarrow>
         Some (if updatedAt > om_cfgForUpdatedAt t then
                 t\<lparr>om_cfgForScope :=
                     filter (\<lambda>peer. cfg_UpdatedAt (lkp zero_config (om_instConfig t) peer) < updatedAt) scope,
                   om_cfgForUpdatedAt := updatedAt\<rparr>
               else t)
     | EvInstanceStatusUpdated node v \<Rightarrow>
         updateStatus now (t\<lparr>om_srcEvent := Some c, om_instStatus := AList.update node v (om_instStatus t)\<rparr>)
     | EvInstanceConfigUpdated node v \<Rightarrow>
         let t = (if \<not> cfg_UpdatedAt v < om_cfgForUpdatedAt t
                  then t\<lparr>om_cfgForScope := delete_first node (om_cfgForScope t)\<rparr> else t);
             t = t\<lparr>om_status := config_status v (om_status t), om_srcEvent := Some c,
                   om_instConfig := AList.update node v (om_instConfig t)\<rparr>;
             t = (if node = om_localhost t \<and> \<not> om_imonRunning t \<and> cfg_Scope v \<noteq> []
                  then startInstanceMonitor imonStart t else t)
         in updateStatus now t
     | EvInstanceConfigDeleted node \<Rightarrow>
         let t = (if node = om_localhost t \<and> om_imonRunning t then t\<lparr>om_imonRunning := False\<rparr> else t)
         in updateStatus now
              (t\<lparr>om_instConfig := AList.delete node (om_instConfig t), om_srcEvent := Some c\<rparr>))"

text \<open>The worker returns when nothing is known of the object, and its exit publishes the deletion.\<close>

definition omon_exits :: "omon \<Rightarrow> bool" where
  "omon_exits t =
    (length (om_instConfig t) + length (om_instStatus t) + length (om_instMonitor t)
     + length (om_cfgForScope t) = 0)"

definition omon_delete :: "omon \<Rightarrow> omon" where
  "omon_delete t =
    t\<lparr>om_imonRunning := False, om_stored := None,
      om_pubs := om_pubs t @ [ObjectStatusDeleted, ObjectDeleted, ObjectStatusDone]
        @ (case om_orchestrationEnd t of None \<Rightarrow> [] | Some oe \<Rightarrow> [ObjectOrchestrationEnd oe])\<rparr>"

text \<open>The worker over a sequence of messages; it stops at the first step that leaves nothing to track.\<close>

fun omon_worker :: "(time \<times> bool \<times> omon_event) list \<Rightarrow> omon \<Rightarrow> omon option" where
  "omon_worker [] t = Some (if omon_exits t then omon_delete t else t)"
| "omon_worker ((now, start, c) # evs) t =
    (if omon_exits t then Some (omon_delete t)
     else case omon_handle now start c t of None \<Rightarrow> None | Some t \<Rightarrow> omon_worker evs t)"

section \<open>Lemmas\<close>

subsection \<open>Counting arrays\<close>

definition in_range :: "status \<Rightarrow> bool" where
  "in_range s \<longleftrightarrow> s \<noteq> StStandbyUpWithDown"

lemma slot_bound: "in_range s \<longleftrightarrow> nat (status_val s) < 128"
  by (cases s) (simp_all add: in_range_def)

lemma slot_inject: "nat (status_val s) = nat (status_val s') \<longleftrightarrow> s = s'"
  by (cases s; cases s') simp_all

lemma count_bump_zero:
  "length counts = 128 \<Longrightarrow> count_bump counts s = (if in_range s then Some (counts[nat (status_val s) := count_of counts s + 1]) else None)"
  by (simp add: count_bump_def slot_bound)

lemma count_statuses_None:
  "length counts = 128 \<Longrightarrow> count_statuses counts l = None \<longleftrightarrow> (\<exists>s\<in>set l. \<not> in_range s)"
  by (induction l arbitrary: counts) (auto simp: count_bump_zero)

lemma count_of_update:
  "length counts = 128 \<Longrightarrow> in_range s \<Longrightarrow> count_of (counts[nat (status_val s) := v]) s' = (if s' = s then v else count_of counts s')"
  by (auto simp: count_of_def slot_bound nth_list_update slot_inject)

lemma count_statuses_Some:
  "length counts = 128 \<Longrightarrow> count_statuses counts l = Some c \<Longrightarrow> in_range s \<Longrightarrow>
    count_of c s = count_of counts s + int (count_list l s)"
proof (induction l arbitrary: counts)
  case Nil
  then show ?case by simp
next
  case (Cons x l)
  then have x: "in_range x" by (auto simp: count_bump_zero split: if_splits)
  let ?c = "counts[nat (status_val x) := count_of counts x + 1]"
  have "count_statuses ?c l = Some c" using Cons.prems x by (simp add: count_bump_zero)
  then have "count_of c s = count_of ?c s + int (count_list l s)"
    using Cons.IH [of ?c] Cons.prems by simp
  with Cons.prems x show ?case by (simp add: count_of_update)
qed

lemma count_zero [simp]: "in_range s \<Longrightarrow> count_of zero_counts s = 0"
  by (simp add: count_of_def zero_counts_def slot_bound)

lemma length_zero_counts [simp]: "length zero_counts = 128"
  by (simp add: zero_counts_def)

lemma in_range_simps [simp]: "in_range StUp" "in_range StWarn" "in_range StNotApplicable"
  by (simp_all add: in_range_def)

lemma count_statuses_zero:
  "count_statuses zero_counts l = Some c \<Longrightarrow> in_range s \<Longrightarrow> count_of c s = int (count_list l s)"
  using count_statuses_Some [OF length_zero_counts, of l c s] by simp

subsection \<open>The aggregates\<close>

text \<open>What the counting arrays amount to, over the list of statuses.\<close>

definition aggregate_spec :: "actor_status \<Rightarrow> status list \<Rightarrow> status list \<Rightarrow> status" where
  "aggregate_spec as avails l =
    (if (\<forall>a\<in>set avails. a = StNotApplicable) then StNotApplicable
     else if StWarn \<in> set l then StWarn
     else case as_Topology as of
       TopInvalid \<Rightarrow> StUndef
     | Failover \<Rightarrow>
         (if StUp \<notin> set l then StDown else if count_list l StUp = 1 then StUp else StWarn)
     | Flex \<Rightarrow>
         (if StUp \<notin> set l then StDown
          else case as_Flex as of
            None \<Rightarrow> StWarn
          | Some f \<Rightarrow>
              if fl_Min f \<le> int (count_list l StUp) \<and> int (count_list l StUp) \<le> fl_Max f then StUp else StWarn))"

lemma count_list_all: "length l = count_list l x \<longleftrightarrow> (\<forall>y\<in>set l. y = x)"
proof (induction l)
  case (Cons a l)
  then show ?case using count_le_length [of l x] by auto
qed simp

lemma aggregateStatus_spec:
  assumes "count_statuses zero_counts avails = Some a" "count_statuses zero_counts l = Some c"
  shows "aggregateStatus as (length avails) a c = aggregate_spec as avails l"
proof -
  have n: "length avails = 0 \<or> int (length avails) = count_of a StNotApplicable \<longleftrightarrow> (\<forall>x\<in>set avails. x = StNotApplicable)"
    using count_statuses_zero [OF assms(1), of StNotApplicable] count_list_all [of avails StNotApplicable] by auto
  have w: "count_of c StWarn > 0 \<longleftrightarrow> StWarn \<in> set l" "count_of c StUp = 0 \<longleftrightarrow> StUp \<notin> set l"
    "count_of c StUp = int (count_list l StUp)"
    using count_statuses_zero [OF assms(2), of StWarn] count_statuses_zero [OF assms(2), of StUp]
      count_list_0_iff [of l StWarn] count_list_0_iff [of l StUp] by auto
  show ?thesis
    using n w
    by (auto simp: aggregateStatus_def aggregate_spec_def aggregateStatusFailover_def
        aggregateStatusFlex_def split: topology.splits option.splits)
qed

lemma updateAvailOverall_None:
  "updateAvailOverall m as = None \<longleftrightarrow> (\<exists>st\<in>snd ` set m. \<not> in_range (st_Avail st) \<or> \<not> in_range (st_Overall st))"
  using count_statuses_None [OF length_zero_counts, of "map (st_Avail \<circ> snd) m"]
    count_statuses_None [OF length_zero_counts, of "map (st_Overall \<circ> snd) m"]
  by (auto simp: updateAvailOverall_def split: option.splits)

lemma updateAvailOverall_spec:
  assumes "updateAvailOverall m as = Some as'"
  shows "as' = as\<lparr>as_UpInstancesCount := int (count_list (map (st_Avail \<circ> snd) m) StUp),
                as_Avail := aggregate_spec as (map (st_Avail \<circ> snd) m) (map (st_Avail \<circ> snd) m),
                as_Overall := aggregate_spec as (map (st_Avail \<circ> snd) m) (map (st_Overall \<circ> snd) m)\<rparr>"
proof -
  obtain a c where ac: "count_statuses zero_counts (map (st_Avail \<circ> snd) m) = Some a"
    "count_statuses zero_counts (map (st_Overall \<circ> snd) m) = Some c"
    using assms by (auto simp: updateAvailOverall_def split: option.splits)
  have "aggregateStatus as (length m) a a = aggregate_spec as (map (st_Avail \<circ> snd) m) (map (st_Avail \<circ> snd) m)"
    "aggregateStatus as (length m) a c = aggregate_spec as (map (st_Avail \<circ> snd) m) (map (st_Overall \<circ> snd) m)"
    using aggregateStatus_spec [OF ac(1) ac(1)] aggregateStatus_spec [OF ac] by simp_all
  with ac assms count_statuses_zero [OF ac(1), of StUp] show ?thesis
    by (simp add: updateAvailOverall_def)
qed

lemma count_list_perm: "mset xs = mset ys \<Longrightarrow> count_list xs x = count_list ys x"
  by (metis count_mset)

lemma aggregate_spec_perm:
  "mset a = mset a' \<Longrightarrow> mset l = mset l' \<Longrightarrow> aggregate_spec as a l = aggregate_spec as a' l'"
proof -
  assume "mset a = mset a'" "mset l = mset l'"
  then have "set a = set a'" "set l = set l'" "count_list l StUp = count_list l' StUp"
    by (auto dest: mset_eq_setD count_list_perm)
  then show ?thesis by (simp only: aggregate_spec_def)
qed

subsection \<open>Placement\<close>

text \<open>An instance placed as its leadership says.\<close>

definition well_placed :: "monitor \<Rightarrow> instance_status \<Rightarrow> bool" where
  "well_placed mon st \<longleftrightarrow>
    (if mon_IsLeader mon then st_Avail st \<in> {StUp, StNotApplicable}
     else st_Avail st \<in> {StDown, StStandbyUp, StStandbyDown, StNotApplicable})"

lemma placement_loop_Cons:
  "placement_loop s ((node, mon) # ms) sts =
    (case map_of sts node of None \<Rightarrow> PlNotApplicable
     | Some st \<Rightarrow> if well_placed mon st then placement_loop Optimal ms sts else NonOptimal)"
  by (auto simp: well_placed_def split: option.splits)

lemma placement_loop_complete:
  assumes "\<forall>(node, mon)\<in>set ms. map_of sts node \<noteq> None"
  shows "placement_loop s ms sts =
    (if ms = [] then s
     else if \<forall>(node, mon)\<in>set ms. well_placed mon (lkp zero_status sts node) then Optimal else NonOptimal)"
  using assms
proof (induction ms arbitrary: s)
  case Nil
  then show ?case by simp
next
  case (Cons a ms)
  obtain node mon where a: "a = (node, mon)" by (cases a)
  obtain st where st: "map_of sts node = Some st" using Cons.prems a by auto
  have l: "lkp zero_status sts node = st" by (simp add: lkp_def st)
  have IH: "placement_loop Optimal ms sts =
      (if ms = [] then Optimal
       else if \<forall>(node, mon)\<in>set ms. well_placed mon (lkp zero_status sts node) then Optimal else NonOptimal)"
    using Cons by simp
  show ?case
    unfolding a placement_loop_Cons using IH st l by (auto simp del: placement_loop.simps)
qed

subsection \<open>The published status\<close>

text \<open>The actor part of the status a manager holds.\<close>

definition om_actor :: "omon \<Rightarrow> actor_status" where
  "om_actor t = the (os_Actor (om_status t))"

lemma omon_update_simps [simp]:
  "om_instStatus (omon_update now t) = om_instStatus t" "om_instMonitor (omon_update now t) = om_instMonitor t"
  "om_instConfig (omon_update now t) = om_instConfig t" "om_actor (omon_update now t) = om_actor t"
  "om_isActor (omon_update now t) = om_isActor t" "om_localhost (omon_update now t) = om_localhost t"
  "om_cfgForScope (omon_update now t) = om_cfgForScope t" "om_imonRunning (omon_update now t) = om_imonRunning t"
  by (simp_all add: omon_update_def om_actor_def Let_def)

lemma updateStatus_actor:
  assumes "updateStatus now t = Some t'" "om_isActor t"
  defines "l \<equiv> map (st_Avail \<circ> snd) (om_instStatus t)"
  shows "as_Avail (om_actor t') = aggregate_spec (om_actor t) l l"
    and "as_Overall (om_actor t') = aggregate_spec (om_actor t) l (map (st_Overall \<circ> snd) (om_instStatus t))"
    and "as_UpInstancesCount (om_actor t') = int (count_list l StUp)"
    and "as_Provisioned (om_actor t') = foldl provisioned_And PrUndef (map (st_Provisioned \<circ> snd) (om_instStatus t))"
    and "as_PlacementState (om_actor t') = placementState (p_Kind (om_path t)) (as_Avail (om_actor t')) (om_instMonitor t) (om_instStatus t)"
    and "as_Frozen (om_actor t') = as_Frozen (updateFrozen (om_instStatus t) (om_actor t))"
proof -
  obtain as where as: "os_Actor (om_status t) = Some as"
    using assms by (auto simp: updateStatus_def split: option.splits)
  then have o: "om_actor t = as" by (simp add: om_actor_def)
  obtain as1 where as1: "updateAvailOverall (om_instStatus t) as = Some as1"
    using assms as by (auto simp: updateStatus_def split: option.splits)
  note spec = updateAvailOverall_spec [OF as1]
  have a: "om_actor t' = updatePlacementState (p_Kind (om_path t)) (om_instMonitor t) (om_instStatus t)
      (updateFrozen (om_instStatus t) (updateProvisioned (om_instStatus t) as1))"
    using assms as as1 by (auto simp: updateStatus_def Let_def om_actor_def omon_update_def)
  note defs = a o l_def spec updatePlacementState_def updateFrozen_def updateProvisioned_def Let_def
  show "as_Avail (om_actor t') = aggregate_spec (om_actor t) l l" by (simp add: defs)
  show "as_Overall (om_actor t') = aggregate_spec (om_actor t) l (map (st_Overall \<circ> snd) (om_instStatus t))"
    by (simp add: defs)
  show "as_UpInstancesCount (om_actor t') = int (count_list l StUp)" by (simp add: defs)
  show "as_Provisioned (om_actor t') = foldl provisioned_And PrUndef (map (st_Provisioned \<circ> snd) (om_instStatus t))"
    by (simp add: defs)
  show "as_PlacementState (om_actor t') = placementState (p_Kind (om_path t)) (as_Avail (om_actor t')) (om_instMonitor t) (om_instStatus t)"
    by (simp add: defs)
  show "as_Frozen (om_actor t') = as_Frozen (updateFrozen (om_instStatus t) (om_actor t))" by (simp add: defs)
qed

lemma updateStatus_None:
  assumes "om_isActor t" "os_Actor (om_status t) \<noteq> None"
  shows "updateStatus now t = None \<longleftrightarrow>
    (\<exists>st\<in>snd ` set (om_instStatus t). \<not> in_range (st_Avail st) \<or> \<not> in_range (st_Overall st))"
  using assms updateAvailOverall_None [of "om_instStatus t" "the (os_Actor (om_status t))"]
  by (auto simp: updateStatus_def Let_def split: option.splits)

lemma decoded_in_range: "in_range (status_UnmarshalText s)"
proof -
  have "\<forall>(n, st) \<in> set status_toID. in_range st" by (simp add: status_toID_def in_range_def)
  then show ?thesis
    unfolding status_UnmarshalText_def by (auto simp: in_range_def split: option.splits dest: map_of_SomeD)
qed

lemma updateFrozen_perm: "mset m = mset m' \<Longrightarrow> as_Frozen (updateFrozen m as) = as_Frozen (updateFrozen m' as')"
proof -
  assume m: "mset m = mset m'"
  have f: "length (filter P m) = length (filter P m')" for P
    using arg_cong [OF m, of "\<lambda>s. size (filter_mset P s)"] by (simp flip: mset_filter)
  have n: "length m = length m'" using arg_cong [OF m, of size] by simp
  show ?thesis by (simp only: updateFrozen_def Let_def f n) simp
qed

lemma perm_map: "mset m = mset m' \<Longrightarrow> mset (map f m) = mset (map f m')"
  by simp

section \<open>Properties\<close>


definition demo_config :: config where
  "demo_config = zero_config
    \<lparr>cfg_Scope := [''n1'', ''n2''],
     cfg_Actor := Some
       \<lparr>ac_Children = [], ac_MonitorAction = [], ac_PreMonitorAction = [], ac_Orchestrate = ''ha'',
        ac_Parents = [], ac_PlacementPolicy = NodesOrder, ac_Resources = [], ac_Stonith = False,
        ac_Topology = Failover, ac_Flex = None, ac_IsDisabled = False, ac_WaitSyncsTimeout = 0,
        ac_HardAffinity = [], ac_HardAntiAffinity = [], ac_SoftAffinity = [], ac_SoftAntiAffinity = [],
        ac_StartTimeout = 0\<rparr>\<rparr>"

definition demo_omon :: omon where
  "demo_omon =
    (omon_Start \<lparr>p_Name = ''s1'', p_Namespace = ''root'', p_Kind = KindSvc\<rparr> ''n1'' demo_config)
    \<lparr>om_instStatus := [(''n1'', zero_status\<lparr>st_Avail := StUp, st_Overall := StUp\<rparr>),
                       (''n2'', zero_status\<lparr>st_Avail := StDown, st_Overall := StDown\<rparr>)],
     om_instMonitor := [(''n1'', zero_monitor\<lparr>mon_IsLeader := True\<rparr>), (''n2'', zero_monitor)]\<rparr>"

lemma demo_omon_runs: "updateStatus 1 demo_omon = Some (the (updateStatus 1 demo_omon))"
proof -
  have "updateStatus 1 demo_omon \<noteq> None"
    using updateStatus_None [of demo_omon 1]
    by (simp add: demo_omon_def omon_Start_def demo_config_def in_range_def)
  then show ?thesis by simp
qed

lemma demo_omon_simps:
  "om_isActor demo_omon" "os_Actor (om_status demo_omon) \<noteq> None" "as_Topology (om_actor demo_omon) = Failover"
  "om_instStatus demo_omon = [(''n1'', zero_status\<lparr>st_Avail := StUp, st_Overall := StUp\<rparr>),
                       (''n2'', zero_status\<lparr>st_Avail := StDown, st_Overall := StDown\<rparr>)]"
  by (simp_all add: demo_omon_def omon_Start_def demo_config_def om_actor_def)


text \<open>
  C38. The object status does not depend on the order in which Go iterates over the instances:
  evaluated over the same instance statuses in another order, it has the same avail and overall
  statuses, the same number of up instances and the same frozen state.
\<close>

theorem updateStatus_order_free:
  assumes "updateStatus now t = Some t1"
    and "updateStatus now (t\<lparr>om_instStatus := m\<rparr>) = Some t2"
    and "mset m = mset (om_instStatus t)" and "om_isActor t"
  shows "as_Avail (om_actor t1) = as_Avail (om_actor t2) \<and> as_Overall (om_actor t1) = as_Overall (om_actor t2)
    \<and> as_UpInstancesCount (om_actor t1) = as_UpInstancesCount (om_actor t2)
    \<and> as_Frozen (om_actor t1) = as_Frozen (om_actor t2)"
proof -
  have p: "mset (map f m) = mset (map f (om_instStatus t))" for f using assms(3) by simp
  have a: "om_isActor (t\<lparr>om_instStatus := m\<rparr>)" and o: "om_actor (t\<lparr>om_instStatus := m\<rparr>) = om_actor t"
    using assms(4) by (simp_all add: om_actor_def)
  have c: "count_list (map (st_Avail \<circ> snd) m) StUp = count_list (map (st_Avail \<circ> snd) (om_instStatus t)) StUp"
    by (rule count_list_perm [OF p])
  have f: "as_Frozen (updateFrozen m (om_actor t)) = as_Frozen (updateFrozen (om_instStatus t) (om_actor t))"
    by (rule updateFrozen_perm [OF assms(3)])
  show ?thesis
    using updateStatus_actor(1-3,6) [OF assms(1,4)] updateStatus_actor(1-3,6) [OF assms(2) a]
      aggregate_spec_perm [OF p p] c f o
    by simp
qed

definition demo_omon_swapped :: omon where
  "demo_omon_swapped = demo_omon\<lparr>om_instStatus := rev (om_instStatus demo_omon)\<rparr>"

lemma demo_omon_swapped_runs: "updateStatus 1 demo_omon_swapped = Some (the (updateStatus 1 demo_omon_swapped))"
proof -
  have "updateStatus 1 demo_omon_swapped \<noteq> None"
    using updateStatus_None [of demo_omon_swapped 1] demo_omon_simps
    by (auto simp: demo_omon_swapped_def in_range_def)
  then show ?thesis by simp
qed

theorem updateStatus_order_free_witness:
  "as_Avail (om_actor (the (updateStatus 1 demo_omon))) = as_Avail (om_actor (the (updateStatus 1 demo_omon_swapped)))"
  using updateStatus_order_free [OF demo_omon_runs demo_omon_swapped_runs [unfolded demo_omon_swapped_def]]
    demo_omon_simps(1) by (simp add: demo_omon_swapped_def)

text \<open>
  C39. The aggregation never indexes its counting arrays out of range on statuses received from the
  peers: a status decoded from its text is always one of the counted values, so a status update
  returns.
\<close>

theorem decoded_statuses_never_panic:
  assumes "om_isActor t" "os_Actor (om_status t) \<noteq> None"
    and "\<And>node st. (node, st) \<in> set (om_instStatus t) \<Longrightarrow>
      (\<exists>a. st_Avail st = status_UnmarshalText a) \<and> (\<exists>b. st_Overall st = status_UnmarshalText b)"
  shows "\<exists>t'. updateStatus now t = Some t'"
proof -
  have "\<forall>st\<in>snd ` set (om_instStatus t). in_range (st_Avail st) \<and> in_range (st_Overall st)"
    using assms(3) decoded_in_range by fastforce
  then show ?thesis using updateStatus_None [OF assms(1,2)] by (metis not_None_eq)
qed

theorem decoded_statuses_never_panic_witness: "\<exists>t'. updateStatus 7 demo_omon = Some t'"
proof (rule decoded_statuses_never_panic)
  show "om_isActor demo_omon" "os_Actor (om_status demo_omon) \<noteq> None" using demo_omon_simps by auto
  have "status_UnmarshalText ''up'' = StUp" "status_UnmarshalText ''down'' = StDown"
    by (simp_all add: status_UnmarshalText_def status_toID_def)
  then show "(\<exists>a. st_Avail st = status_UnmarshalText a) \<and> (\<exists>b. st_Overall st = status_UnmarshalText b)"
    if "(node, st) \<in> set (om_instStatus demo_omon)" for node st
    using that demo_omon_simps(4) by auto metis+
qed

text \<open>
  The merge of provisioned states is not commutative on the two states that say nothing: an
  object whose instances are undef and not applicable is published undef or not applicable,
  depending on the order Go iterates over the map in.
\<close>

theorem provisioned_depends_on_order:
  "\<exists>m m' as. mset m = mset m' \<and> wf_map m
    \<and> as_Provisioned (updateProvisioned m as) \<noteq> as_Provisioned (updateProvisioned m' as)"
proof -
  let ?m = "[(''n1'', zero_status\<lparr>st_Provisioned := PrNotApplicable\<rparr>), (''n2'', zero_status)]"
  have "mset ?m = mset (rev ?m)" "wf_map ?m" by (simp_all add: wf_map_def)
  moreover have "as_Provisioned (updateProvisioned ?m zero_actor_status)
      \<noteq> as_Provisioned (updateProvisioned (rev ?m) zero_actor_status)"
    by (simp add: updateProvisioned_def provisioned_And_def zero_status_def)
  ultimately show ?thesis by blast
qed

text \<open>
  Apart from that pair the provisioned state of an object is what its instances agree on: true
  or false when all the instances that say something say the same, mixed when they do not, and a
  state that says nothing exactly when no instance says something.
\<close>

theorem provisioned_of_instances:
  "(let S = {x \<in> st_Provisioned ` snd ` set m. x \<in> {PrTrue, PrFalse, PrMixed}};
        p = as_Provisioned (updateProvisioned m as)
    in if S = {} then p \<in> {PrUndef, PrNotApplicable}
       else p = (if S = {PrTrue} then PrTrue else if S = {PrFalse} then PrFalse else PrMixed))"
proof -
  let ?l = "map (st_Provisioned \<circ> snd) m" and ?p = "as_Provisioned (updateProvisioned m as)"
  have p: "?p = foldl provisioned_And PrUndef ?l" by (simp add: updateProvisioned_def)
  have S: "{x \<in> set ?l. pr_known x} = {x \<in> st_Provisioned ` snd ` set m. x \<in> {PrTrue, PrFalse, PrMixed}}"
    by (auto simp: pr_known_def)
  have k: "pr_known ?p \<longleftrightarrow> {x \<in> set ?l. pr_known x} \<noteq> {}"
    unfolding p using foldl_And_known [of PrUndef ?l] by (auto simp: pr_known_def)
  have u: "\<not> pr_known x \<Longrightarrow> x \<in> {PrUndef, PrNotApplicable}" for x by (cases x) (simp_all add: pr_known_def)
  show ?thesis
    unfolding Let_def S [symmetric] using k u foldl_And_summary [of ?l] p by (simp add: pr_summary_def)
qed

text \<open>
  When every monitored instance has a status, the placement state of a service that is up is
  optimal exactly when each leader instance is up (or not applicable) and each other instance is
  down or standby (or not applicable); the iteration order does not matter.
\<close>

theorem placement_optimal:
  assumes "\<And>node mon. (node, mon) \<in> set monitors \<Longrightarrow> map_of statuses node \<noteq> None" and "monitors \<noteq> []"
    and "avail \<notin> {StDown, StNotApplicable, StUndef, StWarn}"
  shows "(placementState KindSvc avail monitors statuses = Optimal \<longleftrightarrow>
      (\<forall>(node, mon) \<in> set monitors.
        st_Avail (lkp zero_status statuses node) \<in>
          (if mon_IsLeader mon then {StUp, StNotApplicable}
           else {StDown, StStandbyUp, StStandbyDown, StNotApplicable})))
    \<and> (mset monitors' = mset monitors \<longrightarrow>
      placementState KindSvc avail monitors' statuses = placementState KindSvc avail monitors statuses)"
proof (intro conjI impI)
  have c: "placementState KindSvc avail ms statuses =
      (if ms = [] then PlNotApplicable
       else if \<forall>(node, mon)\<in>set ms. well_placed mon (lkp zero_status statuses node) then Optimal else NonOptimal)"
    if "set ms \<subseteq> set monitors" for ms
  proof -
    have "\<forall>(node, mon)\<in>set ms. map_of statuses node \<noteq> None" using assms(1) that by blast
    from placement_loop_complete [OF this, of PlNotApplicable] assms(3) show ?thesis
      by (simp add: placementState_def)
  qed
  show "placementState KindSvc avail monitors statuses = Optimal \<longleftrightarrow>
      (\<forall>(node, mon) \<in> set monitors. st_Avail (lkp zero_status statuses node) \<in>
          (if mon_IsLeader mon then {StUp, StNotApplicable}
           else {StDown, StStandbyUp, StStandbyDown, StNotApplicable}))"
    using c [of monitors] assms(2) by (auto simp: well_placed_def split: if_splits)
  show "placementState KindSvc avail monitors' statuses = placementState KindSvc avail monitors statuses"
    if "mset monitors' = mset monitors"
  proof -
    have "set monitors' = set monitors" using that by (rule mset_eq_setD)
    moreover from this have "monitors' = [] \<longleftrightarrow> monitors = []" by (metis set_empty)
    ultimately show ?thesis using c [of monitors] c [of monitors'] by simp
  qed
qed

theorem placement_optimal_witness:
  "placementState KindSvc StUp (om_instMonitor demo_omon) (om_instStatus demo_omon) = Optimal"
proof (rule placement_optimal [THEN conjunct1, THEN iffD2])
  have m: "om_instMonitor demo_omon = [(''n1'', zero_monitor\<lparr>mon_IsLeader := True\<rparr>), (''n2'', zero_monitor)]"
    by (simp add: demo_omon_def)
  show "map_of (om_instStatus demo_omon) node \<noteq> None" if "(node, mon) \<in> set (om_instMonitor demo_omon)" for node mon
    using that m demo_omon_simps(4) by auto
  show "om_instMonitor demo_omon \<noteq> []" by (simp add: m)
  show "StUp \<notin> {StDown, StNotApplicable, StUndef, StWarn}" by simp
  show "\<forall>(node, mon) \<in> set (om_instMonitor demo_omon). st_Avail (lkp zero_status (om_instStatus demo_omon) node) \<in>
          (if mon_IsLeader mon then {StUp, StNotApplicable} else {StDown, StStandbyUp, StStandbyDown, StNotApplicable})"
    using m demo_omon_simps(4) by (simp add: lkp_def zero_monitor_def)
qed

end
