(* ===== verification/Locktable.thy ===== *)
theory Locktable
  imports Prelude "HOL-Library.Word"
begin

text \<open>
  The tables of the cluster locks, \<open>daemon/locktable/main.go\<close>: the table the node speaking for the
  cluster grants the locks from, and the record every node keeps of the locks its clients hold.

  An operation takes the mutex of its table, so it is a function of the table, and of the clock it
  reads. A request that waits releases the mutex between two rounds: \<open>acquire_round\<close> is one round of
  its loop, \<open>Acquire\<close> the loop over the rounds, each with the clock and the table it finds. The
  identifiers \<open>uuid.NewString\<close> makes are numbers, given by the caller.
\<close>

section \<open>Locks and tables\<close>

record lock =
  lk_Name :: string
  lk_ID :: nat
  lk_Node :: string
  lk_Holder :: string
  lk_AcquiredAt :: "time"
  lk_ExpiresAt :: "time"

record lock_request =
  rq_Name :: string
  rq_Node :: string
  rq_Holder :: string
  rq_Lease :: duration
  rq_Wait :: duration

text \<open>\<open>tb_changed\<close> counts the channels closed: a request waiting is woken when it moves.\<close>

record table =
  tb_locks :: "(string, lock) gomap"
  tb_rebuilt :: bool
  tb_generation :: "64 word"
  tb_former :: "(string, lock) gomap"
  tb_released :: "(nat, time) gomap"
  tb_changed :: nat

type_synonym held = "(string, lock) gomap"

definition DefaultLease :: duration where
  "DefaultLease = 30 * second"

definition MaxLease :: duration where
  "MaxLease = 10 * minute"

definition NewTable :: table where
  "NewTable = \<lparr>tb_locks = [], tb_rebuilt = False, tb_generation = 0, tb_former = [], tb_released = [], tb_changed = 0\<rparr>"

definition NewHeld :: held where
  "NewHeld = []"

definition Lease :: "duration \<Rightarrow> duration" where
  "Lease d = (if d \<le> 0 then DefaultLease else if d > MaxLease then MaxLease else d)"

definition IsRebuilt :: "table \<Rightarrow> bool" where
  "IsRebuilt t = tb_rebuilt t"

definition Generation :: "table \<Rightarrow> 64 word" where
  "Generation t = tb_generation t"

abbreviation live :: "time \<Rightarrow> lock \<Rightarrow> bool" where
  "live now l \<equiv> now < lk_ExpiresAt l"

text \<open>The locks whose lease has not ended, by name, and the map without the others.\<close>

definition list_locks :: "(string, lock) gomap \<Rightarrow> time \<Rightarrow> lock list \<times> (string, lock) gomap" where
  "list_locks m now =
    (let m = filter (\<lambda>(_, l). live now l) m in (sort_key lk_Name (map snd m), m))"

section \<open>Operations of a table\<close>

definition pruneReleased :: "time \<Rightarrow> table \<Rightarrow> table" where
  "pruneReleased now t = t\<lparr>tb_released := filter (\<lambda>(_, until). now < until) (tb_released t)\<rparr>"

definition wake :: "table \<Rightarrow> table" where
  "wake t = t\<lparr>tb_changed := Suc (tb_changed t)\<rparr>"

definition rebuild_lock ::
  "time \<Rightarrow> (nat, time) gomap \<Rightarrow> (string, lock) gomap \<times> lock list \<Rightarrow> lock \<Rightarrow> (string, lock) gomap \<times> lock list" where
  "rebuild_lock now released acc lk =
    (case acc of (locks, conflicts) \<Rightarrow>
       if \<not> live now lk then (locks, conflicts)
       else if has_key released (lk_ID lk) then (locks, conflicts)
       else case map_of locks (lk_Name lk) of
         None \<Rightarrow> (AList.update (lk_Name lk) lk locks, conflicts)
       | Some kept \<Rightarrow>
           if lk_ID kept \<noteq> lk_ID lk
           then if lk_ExpiresAt lk > lk_ExpiresAt kept
                then (AList.update (lk_Name lk) lk locks, conflicts @ [kept])
                else (locks, conflicts @ [lk])
           else (AList.update (lk_Name lk) lk locks, conflicts))"

definition Rebuild :: "time \<Rightarrow> 64 word \<Rightarrow> lock list \<Rightarrow> table \<Rightarrow> lock list option \<times> table" where
  "Rebuild now generation locks t =
    (if generation \<noteq> tb_generation t then (None, t)
     else
       let t = pruneReleased now (t\<lparr>tb_locks := []\<rparr>)
       in case foldl (rebuild_lock now (tb_released t)) ([], []) locks of
            (m, conflicts) \<Rightarrow> (Some conflicts, t\<lparr>tb_locks := m, tb_rebuilt := True\<rparr>))"

definition Drop :: "table \<Rightarrow> table" where
  "Drop t =
    wake (t\<lparr>tb_former := foldl (\<lambda>f (name, l). AList.update name l f) (tb_former t) (tb_locks t),
            tb_locks := [], tb_rebuilt := False, tb_generation := tb_generation t + 1\<rparr>)"

definition Release :: "time \<Rightarrow> string \<Rightarrow> nat \<Rightarrow> table \<Rightarrow> lock option \<times> table" where
  "Release now name i t =
    (let held = map_of (tb_locks t) name;
         t = (case map_of (tb_former t) name of
                Some f \<Rightarrow> if lk_ID f = i then t\<lparr>tb_former := AList.delete name (tb_former t)\<rparr> else t
              | None \<Rightarrow> t)
     in case held of
          None \<Rightarrow> (None, t)
        | Some h \<Rightarrow>
            if lk_ID h \<noteq> i then (None, t)
            else (Some h, wake (t\<lparr>tb_released := AList.update i (now + MaxLease) (tb_released t),
                                 tb_locks := AList.delete name (tb_locks t)\<rparr>)))"

definition table_List :: "time \<Rightarrow> table \<Rightarrow> lock list \<times> table" where
  "table_List now t = (case list_locks (tb_locks t) now of (l, m) \<Rightarrow> (l, t\<lparr>tb_locks := m\<rparr>))"

definition Granted :: "time \<Rightarrow> table \<Rightarrow> lock list \<times> table" where
  "Granted now t =
    (case list_locks (tb_former t) now of (l, f) \<Rightarrow>
     case list_locks (tb_locks t) now of (l', m) \<Rightarrow>
       (l @ filter (\<lambda>lk. case map_of f (lk_Name lk) of Some k \<Rightarrow> lk_ID k \<noteq> lk_ID lk | None \<Rightarrow> True) l',
        t\<lparr>tb_former := f, tb_locks := m\<rparr>))"

definition Forget :: "time \<Rightarrow> string \<Rightarrow> nat \<Rightarrow> table \<Rightarrow> table" where
  "Forget now name i t =
    (let t = pruneReleased now t;
         t = t\<lparr>tb_released := AList.update i (now + MaxLease) (tb_released t)\<rparr>;
         t = (case map_of (tb_former t) name of
                Some f \<Rightarrow> if lk_ID f = i then t\<lparr>tb_former := AList.delete name (tb_former t)\<rparr> else t
              | None \<Rightarrow> t)
     in case map_of (tb_locks t) name of
          Some h \<Rightarrow> if lk_ID h = i then wake (t\<lparr>tb_locks := AList.delete name (tb_locks t)\<rparr>) else t
        | None \<Rightarrow> t)"

section \<open>Acquire\<close>

datatype acquire_error = ErrNoName | ErrNotRebuilt | ErrHeld lock | ErrContext

datatype round_result = Answer "acquire_error + lock" | Wait duration

definition acquire_round :: "lock_request \<Rightarrow> time \<Rightarrow> time \<Rightarrow> nat \<Rightarrow> table \<Rightarrow> round_result \<times> table" where
  "acquire_round req deadline now i t =
    (if \<not> tb_rebuilt t then (Answer (Inl ErrNotRebuilt), t)
     else
       let grant =
             (let l = \<lparr>lk_Name = rq_Name req, lk_ID = i, lk_Node = rq_Node req, lk_Holder = rq_Holder req,
                       lk_AcquiredAt = now, lk_ExpiresAt = now + Lease (rq_Lease req)\<rparr>
              in (Answer (Inr l), t\<lparr>tb_locks := AList.update (rq_Name req) l (tb_locks t)\<rparr>))
       in case map_of (tb_locks t) (rq_Name req) of
            None \<Rightarrow> grant
          | Some h \<Rightarrow>
              if \<not> live now h then grant
              else if deadline - now \<le> 0 then (Answer (Inl (ErrHeld h)), t)
              else (Wait (min (deadline - now) (lk_ExpiresAt h - now)), t))"

text \<open>
  What a round finds, and what ends its wait: the context of the request done, a change of the
  table, or its timer.
\<close>

datatype wake_up = WakeDone | WakeChanged | WakeTimer

record acquire_env =
  ae_now :: "time"
  ae_table :: table
  ae_id :: nat
  ae_wake :: wake_up

fun acquire_loop :: "lock_request \<Rightarrow> time \<Rightarrow> acquire_env list \<Rightarrow> ((acquire_error + lock) \<times> table) option" where
  "acquire_loop req deadline [] = None"
| "acquire_loop req deadline (r # rs) =
    (case acquire_round req deadline (ae_now r) (ae_id r) (ae_table r) of
       (Answer a, t) \<Rightarrow> Some (a, t)
     | (Wait _, t) \<Rightarrow> if ae_wake r = WakeDone then Some (Inl ErrContext, t) else acquire_loop req deadline rs)"

text \<open>No result yet is \<open>None\<close>: the rounds given all end in a wait.\<close>

definition Acquire :: "lock_request \<Rightarrow> time \<Rightarrow> table \<Rightarrow> acquire_env list \<Rightarrow> ((acquire_error + lock) \<times> table) option" where
  "Acquire req start t rounds =
    (if rq_Name req = [] then Some (Inl ErrNoName, t) else acquire_loop req (start + rq_Wait req) rounds)"

section \<open>The locks the clients of a node hold\<close>

definition held_Add :: "lock \<Rightarrow> held \<Rightarrow> held" where
  "held_Add l h = AList.update (lk_Name l) l h"

definition held_Remove :: "string \<Rightarrow> nat \<Rightarrow> held \<Rightarrow> held" where
  "held_Remove name i h =
    (case map_of h name of Some l \<Rightarrow> if lk_ID l = i then AList.delete name h else h | None \<Rightarrow> h)"

definition held_List :: "time \<Rightarrow> held \<Rightarrow> lock list \<times> held" where
  "held_List now h = list_locks h now"

section \<open>The service a table gives\<close>

text \<open>
  What a client of a lock service relies on: who holds a name, until when; a lock is granted when
  the lease of its holder ended, and only then; and a lock is freed under its own identifier only.
\<close>

datatype lock_op = OpAcquire "time" nat lock_request | OpFree "time" string nat

fun op_time :: "lock_op \<Rightarrow> time" where
  "op_time (OpAcquire now _ _) = now"
| "op_time (OpFree now _ _) = now"

type_synonym grant = "string \<times> nat \<times> time"

locale lock_service =
  fixes ok :: "'s \<Rightarrow> bool"
    and holder :: "'s \<Rightarrow> string \<Rightarrow> (nat \<times> time) option"
    and grant :: "time \<Rightarrow> nat \<Rightarrow> lock_request \<Rightarrow> 's \<Rightarrow> bool \<times> 's"
    and free :: "time \<Rightarrow> string \<Rightarrow> nat \<Rightarrow> 's \<Rightarrow> bool \<times> 's"
  assumes ok_grant: "ok s \<Longrightarrow> ok (snd (grant now i r s))"
    and ok_free: "ok s \<Longrightarrow> ok (snd (free now name i s))"
    and grant_iff: "ok s \<Longrightarrow> fst (grant now i r s) \<longleftrightarrow> (\<forall>j x. holder s (rq_Name r) = Some (j, x) \<longrightarrow> x \<le> now)"
    and holder_grant: "ok s \<Longrightarrow> holder (snd (grant now i r s)) =
      (if fst (grant now i r s) then (holder s)(rq_Name r \<mapsto> (i, now + Lease (rq_Lease r))) else holder s)"
    and free_iff: "ok s \<Longrightarrow> fst (free now name i s) \<longleftrightarrow> (\<exists>x. holder s name = Some (i, x))"
    and holder_free: "ok s \<Longrightarrow> holder (snd (free now name i s)) =
      (if fst (free now name i s) then (holder s)(name := None) else holder s)"
begin

text \<open>An operation with its reply, and the grants not freed, the ghost of the clients.\<close>

fun serve :: "lock_op \<Rightarrow> 's \<Rightarrow> bool \<times> 's" where
  "serve (OpAcquire now i r) s = grant now i r s"
| "serve (OpFree now name i) s = free now name i s"

fun log_op :: "lock_op \<Rightarrow> bool \<Rightarrow> grant list \<Rightarrow> grant list" where
  "log_op (OpAcquire now i r) granted l = (if granted then (rq_Name r, i, now + Lease (rq_Lease r)) # l else l)"
| "log_op (OpFree now name i) _ l = filter (\<lambda>(n, j, _). \<not> (n = name \<and> j = i)) l"

fun serves :: "lock_op list \<Rightarrow> 's \<times> grant list \<Rightarrow> 's \<times> grant list" where
  "serves [] (s, l) = (s, l)"
| "serves (op # ops) (s, l) = (case serve op s of (b, s') \<Rightarrow> serves ops (s', log_op op b l))"

definition honours :: "time \<Rightarrow> 's \<times> grant list \<Rightarrow> bool" where
  "honours now sl = (ok (fst sl) \<and> (\<forall>(n, i, x) \<in> set (snd sl). now < x \<longrightarrow> holder (fst sl) n = Some (i, x)))"

lemma honoursD: "honours now sl \<Longrightarrow> (n, i, x) \<in> set (snd sl) \<Longrightarrow> now < x \<Longrightarrow> holder (fst sl) n = Some (i, x)"
  unfolding honours_def by blast

lemma honours_later: "honours now sl \<Longrightarrow> now \<le> now' \<Longrightarrow> honours now' sl"
  unfolding honours_def by fastforce

lemma honours_serve:
  assumes "honours (op_time op) (s, l)"
  shows "honours (op_time op) (snd (serve op s), log_op op (fst (serve op s)) l)"
proof (cases op)
  case (OpAcquire now i r)
  have ok: "ok s" using assms by (simp add: honours_def)
  show ?thesis
    using assms ok_grant [OF ok, of now i r] holder_grant [OF ok, of now i r] grant_iff [OF ok, of now i r]
    unfolding OpAcquire honours_def by fastforce
next
  case (OpFree now name i)
  have ok: "ok s" using assms by (simp add: honours_def)
  show ?thesis
    using assms ok_free [OF ok, of now name i] holder_free [OF ok, of now name i] free_iff [OF ok, of now name i]
    unfolding OpFree honours_def by fastforce
qed

lemma honours_serves:
  "honours now (s, l) \<Longrightarrow> sorted (now # map op_time ops) \<Longrightarrow> honours (last (now # map op_time ops)) (serves ops (s, l))"
proof (induction ops arbitrary: now s l)
  case Nil
  then show ?case by simp
next
  case (Cons op ops)
  have h: "honours (op_time op) (s, l)" using honours_later [OF Cons.prems(1)] Cons.prems(2) by simp
  have "honours (last (op_time op # map op_time ops)) (serves ops (snd (serve op s), log_op op (fst (serve op s)) l))"
    by (rule Cons.IH [OF honours_serve [OF h]]) (use Cons.prems(2) in simp)
  then show ?case by (simp add: case_prod_unfold)
qed

text \<open>At any time no two grants not freed and not lapsed are for the same name.\<close>

lemma exclusive:
  assumes "honours now (s, l)" and "sorted (now # map op_time ops)" and "last (now # map op_time ops) \<le> at"
    and "(n, i, x) \<in> set (snd (serves ops (s, l)))" and "(n, j, y) \<in> set (snd (serves ops (s, l)))"
    and "at < x" and "at < y"
  shows "i = j"
proof -
  note h = honours_later [OF honours_serves [OF assms(1,2)] assms(3)]
  show ?thesis using honoursD [OF h assms(4,6)] honoursD [OF h assms(5,7)] by simp
qed

end

section \<open>The table gives the service\<close>

text \<open>The specification: a map from the names to their holder and the end of its lease.\<close>

type_synonym lock_spec = "string \<Rightarrow> (nat \<times> time) option"

definition spec_grant :: "time \<Rightarrow> nat \<Rightarrow> lock_request \<Rightarrow> lock_spec \<Rightarrow> bool \<times> lock_spec" where
  "spec_grant now i r s =
    (let free = (case s (rq_Name r) of None \<Rightarrow> True | Some (_, x) \<Rightarrow> x \<le> now)
     in (free, if free then s(rq_Name r \<mapsto> (i, now + Lease (rq_Lease r))) else s))"

definition spec_free :: "time \<Rightarrow> string \<Rightarrow> nat \<Rightarrow> lock_spec \<Rightarrow> bool \<times> lock_spec" where
  "spec_free now name i s =
    (let mine = (case s name of None \<Rightarrow> False | Some (j, _) \<Rightarrow> j = i) in (mine, if mine then s(name := None) else s))"

definition holder_of :: "table \<Rightarrow> lock_spec" where
  "holder_of t name = map_option (\<lambda>l. (lk_ID l, lk_ExpiresAt l)) (map_of (tb_locks t) name)"

definition table_grant :: "time \<Rightarrow> nat \<Rightarrow> lock_request \<Rightarrow> table \<Rightarrow> bool \<times> table" where
  "table_grant now i r t =
    (case acquire_round r now now i t of (Answer (Inr _), t) \<Rightarrow> (True, t) | (_, t) \<Rightarrow> (False, t))"

definition table_free :: "time \<Rightarrow> string \<Rightarrow> nat \<Rightarrow> table \<Rightarrow> bool \<times> table" where
  "table_free now name i t = (case Release now name i t of (l, t) \<Rightarrow> (l \<noteq> None, t))"

definition table_forget :: "time \<Rightarrow> string \<Rightarrow> nat \<Rightarrow> table \<Rightarrow> bool \<times> table" where
  "table_forget now name i t = (fst (spec_free now name i (holder_of t)), Forget now name i t)"

lemma holder_of_None: "holder_of t name = None \<longleftrightarrow> map_of (tb_locks t) name = None"
  by (simp add: holder_of_def)

lemma acquire_round_cases:
  assumes "tb_rebuilt t"
  obtains (granted) l where "acquire_round r d now i t = (Answer (Inr l), t\<lparr>tb_locks := AList.update (rq_Name r) l (tb_locks t)\<rparr>)"
      "lk_Name l = rq_Name r" "lk_ID l = i" "lk_ExpiresAt l = now + Lease (rq_Lease r)"
      "\<And>h. map_of (tb_locks t) (rq_Name r) = Some h \<Longrightarrow> \<not> live now h"
  | (refused) h where "acquire_round r d now i t = (Answer (Inl (ErrHeld h)), t)" "d \<le> now"
      "map_of (tb_locks t) (rq_Name r) = Some h" "live now h"
  | (waits) h where "acquire_round r d now i t = (Wait (min (d - now) (lk_ExpiresAt h - now)), t)" "now < d"
      "map_of (tb_locks t) (rq_Name r) = Some h" "live now h"
proof (cases "map_of (tb_locks t) (rq_Name r)")
  case None
  then show ?thesis by (intro granted) (auto simp: acquire_round_def Let_def assms)
next
  case (Some h)
  consider "\<not> live now h" | "live now h" "d \<le> now" | "live now h" "now < d" by linarith
  then show ?thesis
  proof cases
    case 1
    with Some show ?thesis by (intro granted) (auto simp: acquire_round_def Let_def assms)
  next
    case 2
    with Some show ?thesis by (intro refused) (auto simp: acquire_round_def Let_def assms)
  next
    case 3
    with Some show ?thesis by (intro waits) (auto simp: acquire_round_def Let_def assms)
  qed
qed

lemma holder_of_update:
  "holder_of (t\<lparr>tb_locks := AList.update name l m\<rparr>) = (holder_of (t\<lparr>tb_locks := m\<rparr>))(name \<mapsto> (lk_ID l, lk_ExpiresAt l))"
  "holder_of (t\<lparr>tb_locks := AList.delete name m\<rparr>) = (holder_of (t\<lparr>tb_locks := m\<rparr>))(name := None)"
  by (auto simp: holder_of_def update_conv' delete_conv')

lemma table_grant_spec:
  assumes "tb_rebuilt t"
  shows "map_prod id holder_of (table_grant now i r t) = spec_grant now i r (holder_of t)"
  using assms
proof (cases rule: acquire_round_cases [where r = r and d = now and now = now and i = i])
  case (granted l)
  then show ?thesis
    by (cases "map_of (tb_locks t) (rq_Name r)")
      (auto simp: table_grant_def spec_grant_def holder_of_update, auto simp: holder_of_def)
next
  case (refused h)
  then show ?thesis by (simp add: table_grant_def spec_grant_def holder_of_def [of t "rq_Name r"])
next
  case (waits h)
  then show ?thesis by simp
qed

lemma table_free_spec: "map_prod id holder_of (table_free now name i t) = spec_free now name i (holder_of t)"
  by (auto simp: table_free_def spec_free_def Release_def Let_def wake_def holder_of_def delete_conv'
      split: option.splits)

lemma table_forget_spec: "map_prod id holder_of (table_forget now name i t) = spec_free now name i (holder_of t)"
  by (auto simp: table_forget_def spec_free_def Forget_def pruneReleased_def Let_def wake_def holder_of_def delete_conv'
      split: option.splits)

lemma spec_service: "lock_service (\<lambda>_. True) (\<lambda>s. s) spec_grant spec_free"
  by unfold_locales (auto simp: spec_grant_def spec_free_def Let_def split: option.splits)

interpretation sp: lock_service "\<lambda>_. True" "\<lambda>s. s" spec_grant spec_free
  by (rule spec_service)

text \<open>An operation that simulates the one of the specification has its laws.\<close>

lemma simulates_service:
  assumes g: "\<And>now i r t. ok t \<Longrightarrow> map_prod id h (g now i r t) = spec_grant now i r (h t) \<and> ok (snd (g now i r t))"
    and f: "\<And>now n i t. ok t \<Longrightarrow> map_prod id h (f now n i t) = spec_free now n i (h t) \<and> ok (snd (f now n i t))"
  shows "lock_service ok h g f"
proof
  fix t now i r assume "ok t"
  from g [OF this, of now i r]
  have e: "fst (spec_grant now i r (h t)) = fst (g now i r t)" "snd (spec_grant now i r (h t)) = h (snd (g now i r t))"
    by (metis fst_map_prod id_apply) (metis conjunct1 snd_map_prod \<open>ok t\<close> g)
  show "ok (snd (g now i r t))" using g [OF \<open>ok t\<close>] by blast
  show "fst (g now i r t) \<longleftrightarrow> (\<forall>j x. h t (rq_Name r) = Some (j, x) \<longrightarrow> x \<le> now)"
    using sp.grant_iff [of now i r "h t"] e by simp
  show "h (snd (g now i r t)) = (if fst (g now i r t) then (h t)(rq_Name r \<mapsto> (i, now + Lease (rq_Lease r))) else h t)"
    using sp.holder_grant [of now i r "h t"] e by simp
next
  fix t now n i assume "ok t"
  from f [OF this, of now n i]
  have e: "fst (spec_free now n i (h t)) = fst (f now n i t)" "snd (spec_free now n i (h t)) = h (snd (f now n i t))"
    by (metis fst_map_prod id_apply) (metis conjunct1 snd_map_prod \<open>ok t\<close> f)
  show "ok (snd (f now n i t))" using f [OF \<open>ok t\<close>] by blast
  show "fst (f now n i t) \<longleftrightarrow> (\<exists>x. h t n = Some (i, x))"
    using sp.free_iff [of now n i "h t"] e by simp
  show "h (snd (f now n i t)) = (if fst (f now n i t) then (h t)(n := None) else h t)"
    using sp.holder_free [of now n i "h t"] e by simp
qed

lemma rebuilt_round: "tb_rebuilt (snd (acquire_round r d now i t)) = tb_rebuilt t"
  by (simp add: acquire_round_def Let_def split: option.splits)

lemma rebuilt_grant: "tb_rebuilt t \<Longrightarrow> tb_rebuilt (snd (table_grant now i r t))"
  using rebuilt_round [of r now now i t] by (auto simp: table_grant_def split: prod.splits round_result.splits sum.splits)

lemma rebuilt_Release [simp]: "tb_rebuilt (snd (Release now name i t)) = tb_rebuilt t"
  by (simp add: Release_def wake_def Let_def split: option.splits)

lemma rebuilt_Forget [simp]: "tb_rebuilt (Forget now name i t) = tb_rebuilt t"
  by (simp add: Forget_def pruneReleased_def wake_def Let_def split: option.splits)

interpretation lt: lock_service tb_rebuilt holder_of table_grant table_free
  by (rule simulates_service)
    (simp_all add: table_grant_spec table_free_spec rebuilt_grant, simp add: table_free_def case_prod_unfold)

interpretation lf: lock_service tb_rebuilt holder_of table_grant table_forget
  by (rule simulates_service)
    (simp_all add: table_grant_spec table_forget_spec rebuilt_grant, simp add: table_forget_def)

fun table_op :: "lock_op \<Rightarrow> table \<Rightarrow> bool \<times> table" where
  "table_op (OpAcquire now i r) t = table_grant now i r t"
| "table_op (OpFree now name i) t = table_free now name i t"

fun spec_op :: "lock_op \<Rightarrow> lock_spec \<Rightarrow> bool \<times> lock_spec" where
  "spec_op (OpAcquire now i r) s = spec_grant now i r s"
| "spec_op (OpFree now name i) s = spec_free now name i s"

fun replies :: "('op \<Rightarrow> 's \<Rightarrow> bool \<times> 's) \<Rightarrow> 'op list \<Rightarrow> 's \<Rightarrow> bool list \<times> 's" where
  "replies f [] s = ([], s)"
| "replies f (op # ops) s = (case f op s of (b, s) \<Rightarrow> case replies f ops s of (bs, s) \<Rightarrow> (b # bs, s))"

lemma table_op_spec: "tb_rebuilt t \<Longrightarrow> map_prod id holder_of (table_op op t) = spec_op op (holder_of t)"
  by (cases op) (simp_all add: table_grant_spec table_free_spec)

lemma table_op_rebuilt: "tb_rebuilt t \<Longrightarrow> tb_rebuilt (snd (table_op op t))"
  by (cases op) (simp_all add: lt.ok_grant lt.ok_free)


lemma table_exclusive:
  assumes "tb_rebuilt t" and "sorted (map op_time ops)" and "\<And>op. op \<in> set ops \<Longrightarrow> op_time op \<le> at"
    and "(n, i, x) \<in> set (snd (lt.serves ops (t, [])))" and "(n, j, y) \<in> set (snd (lt.serves ops (t, [])))"
    and "at < x" and "at < y"
  shows "i = j"
proof (cases ops)
  case Nil
  then show ?thesis using assms(4) by simp
next
  case (Cons op ops')
  have h: "lt.honours (op_time op) (t, [])" using assms(1) by (simp add: lt.honours_def)
  have "last (map op_time ops) \<in> set (map op_time ops)" by (rule last_in_set) (simp add: Cons)
  then have "last (op_time op # map op_time ops) \<in> set (map op_time ops)" by (simp add: Cons)
  then have "last (op_time op # map op_time ops) \<le> at" using assms(3) by auto
  from lt.exclusive [OF h _ this assms(4-7)] show ?thesis using assms(2) by (simp add: Cons)
qed

section \<open>A request is answered\<close>

text \<open>
  The rounds of a request: the clock does not go back, and a wait its timer ended lasted as long as
  asked.
\<close>

definition fair_rounds :: "lock_request \<Rightarrow> time \<Rightarrow> (nat \<Rightarrow> acquire_env) \<Rightarrow> bool" where
  "fair_rounds req deadline w =
    (\<forall>k. ae_now (w k) \<le> ae_now (w (Suc k))
       \<and> (\<forall>d. ae_wake (w k) = WakeTimer
            \<longrightarrow> fst (acquire_round req deadline (ae_now (w k)) (ae_id (w k)) (ae_table (w k))) = Wait d
            \<longrightarrow> ae_now (w k) + d \<le> ae_now (w (Suc k))))"

lemma acquire_loop_None:
  "acquire_loop req dl rs = None \<Longrightarrow> r \<in> set rs \<Longrightarrow>
    ae_wake r \<noteq> WakeDone \<and> ae_now r < dl
    \<and> (\<exists>d. d > 0 \<and> fst (acquire_round req dl (ae_now r) (ae_id r) (ae_table r)) = Wait d)"
proof (induction rs)
  case Nil
  then show ?case by simp
next
  case (Cons a rs)
  from Cons.prems(1) obtain d t where d: "acquire_round req dl (ae_now a) (ae_id a) (ae_table a) = (Wait d, t)"
    "ae_wake a \<noteq> WakeDone" "acquire_loop req dl rs = None"
    by (auto split: prod.splits round_result.splits if_splits)
  then have rb: "tb_rebuilt (ae_table a)" by (cases "tb_rebuilt (ae_table a)") (simp_all add: acquire_round_def)
  have "ae_now a < dl \<and> d > 0"
    by (rule acquire_round_cases [OF rb, where r = req and d = dl and now = "ae_now a" and i = "ae_id a"]) (use d(1) in auto)
  with d Cons.IH Cons.prems(2) show ?case by auto
qed

lemma waiting_advances:
  assumes "fair_rounds req dl w" and "acquire_loop req dl (map w [0..<n]) = None"
  shows "k \<le> n \<Longrightarrow> int k \<le> ae_now (w k) - ae_now (w 0) + int (card {j. j < k \<and> ae_wake (w j) = WakeChanged})"
proof (induction k)
  case 0
  then show ?case by simp
next
  case (Suc k)
  let ?c = "\<lambda>k. {j. j < k \<and> ae_wake (w j) = WakeChanged}"
  have IH: "int k \<le> ae_now (w k) - ae_now (w 0) + int (card (?c k))" using Suc by simp
  from acquire_loop_None [OF assms(2), of "w k"] Suc.prems obtain d where d: "d > 0" "ae_wake (w k) \<noteq> WakeDone"
    "fst (acquire_round req dl (ae_now (w k)) (ae_id (w k)) (ae_table (w k))) = Wait d" by auto
  have mono: "ae_now (w k) \<le> ae_now (w (Suc k))" using assms(1) by (simp add: fair_rounds_def)
  show ?case
  proof (cases "ae_wake (w k) = WakeChanged")
    case True
    then have "?c (Suc k) = insert k (?c k)" by (auto simp: less_Suc_eq)
    then have "card (?c (Suc k)) = Suc (card (?c k))" by simp
    with IH mono show ?thesis by simp
  next
    case False
    then have w: "ae_wake (w k) = WakeTimer" using d(2) by (cases "ae_wake (w k)") simp_all
    then have "ae_now (w k) + d \<le> ae_now (w (Suc k))" using assms(1) d(3) by (simp add: fair_rounds_def)
    moreover have "?c (Suc k) = ?c k" using False by (auto simp: less_Suc_eq)
    ultimately show ?thesis using IH d(1) by simp
  qed
qed

text \<open>
  C25. A request for a lock is answered: however often the table changes while it waits, it ends
  after at most as many rounds as its wait has nanoseconds and the table changes, and two more.
\<close>

theorem acquire_answers:
  assumes "fair_rounds req (start + rq_Wait req) w" and "start \<le> ae_now (w 0)"
    and "finite {k. ae_wake (w k) = WakeChanged}"
  shows "\<exists>n \<le> nat (rq_Wait req) + card {k. ae_wake (w k) = WakeChanged} + 2.
    \<exists>a. Acquire req start t (map w [0..<n]) = Some a"
proof -
  let ?n = "nat (rq_Wait req) + card {k. ae_wake (w k) = WakeChanged} + 2" and ?dl = "start + rq_Wait req"
  have "acquire_loop req ?dl (map w [0..<?n]) \<noteq> None"
  proof
    assume n: "acquire_loop req ?dl (map w [0..<?n]) = None"
    let ?k = "?n - 1"
    have "ae_now (w ?k) < ?dl" using acquire_loop_None [OF n, of "w ?k"] by auto
    moreover have "int ?k \<le> ae_now (w ?k) - ae_now (w 0) + int (card {j. j < ?k \<and> ae_wake (w j) = WakeChanged})"
      by (rule waiting_advances [OF assms(1) n]) simp
    moreover have "card {j. j < ?k \<and> ae_wake (w j) = WakeChanged} \<le> card {k. ae_wake (w k) = WakeChanged}"
      by (rule card_mono [OF assms(3)]) auto
    ultimately show False using assms(2) by linarith
  qed
  then show ?thesis by (auto simp: Acquire_def intro: exI [of _ ?n])
qed

section \<open>Witnesses\<close>

definition demo_request :: lock_request where
  "demo_request = \<lparr>rq_Name = ''pool'', rq_Node = ''n1'', rq_Holder = ''claim'', rq_Lease = 10, rq_Wait = 5\<rparr>"

definition demo_table :: table where
  "demo_table = NewTable\<lparr>tb_rebuilt := True\<rparr>"

definition demo_ops :: "lock_op list" where
  "demo_ops = [OpAcquire 0 1 demo_request, OpAcquire 9 2 demo_request, OpFree 9 ''pool'' 2, OpFree 9 ''pool'' 1,
    OpAcquire 9 3 demo_request, OpAcquire 19 4 demo_request]"


definition demo_busy :: table where
  "demo_busy = snd (table_grant 0 1 (demo_request\<lparr>rq_Lease := 100\<rparr>) demo_table)"

definition demo_round :: "nat \<Rightarrow> acquire_env" where
  "demo_round k = \<lparr>ae_now = 3 * int k, ae_table = demo_busy, ae_id = 2, ae_wake = (if k = 0 then WakeChanged else WakeTimer)\<rparr>"

lemma demo_fair: "fair_rounds (demo_request\<lparr>rq_Wait := 3\<rparr>) 3 demo_round"
proof -
  have l: "map_of (tb_locks demo_busy) ''pool'' =
    Some \<lparr>lk_Name = ''pool'', lk_ID = 1, lk_Node = ''n1'', lk_Holder = ''claim'', lk_AcquiredAt = 0, lk_ExpiresAt = 100\<rparr>"
    "tb_rebuilt demo_busy" by code_simp+
  have "d \<le> 3" if "fst (acquire_round (demo_request\<lparr>rq_Wait := 3\<rparr>) 3 (3 * int k) 2 demo_busy) = Wait d" for k d
    using that by (auto simp: acquire_round_def Let_def l demo_request_def split: if_splits)
  then show ?thesis by (auto simp: fair_rounds_def demo_round_def)
qed

theorem acquire_answers_witness:
  "\<exists>n \<le> 6. \<exists>a. Acquire (demo_request\<lparr>rq_Wait := 3\<rparr>) 0 demo_busy (map demo_round [0..<n]) = Some a"
proof -
  have c: "{k. ae_wake (demo_round k) = WakeChanged} = {0}" by (auto simp: demo_round_def)
  have "fair_rounds (demo_request\<lparr>rq_Wait := 3\<rparr>) (0 + rq_Wait (demo_request\<lparr>rq_Wait := 3\<rparr>)) demo_round"
    using demo_fair by simp
  moreover have "0 \<le> ae_now (demo_round 0)" by (simp add: demo_round_def)
  moreover have "finite {k. ae_wake (demo_round k) = WakeChanged}" by (simp add: c)
  ultimately show ?thesis using acquire_answers [of "demo_request\<lparr>rq_Wait := 3\<rparr>" 0 demo_round demo_busy] by (simp add: c)
qed

end
