(* ===== verification/Cluster_Lock.thy ===== *)
theory Cluster_Lock
  imports Locktable
begin

text \<open>
  The cluster locks, \<open>daemon/daemonapi/cluster_lock.go\<close> and \<open>lib_cluster_lock.go\<close>: the handlers that
  ask the node speaking for the cluster for a lock and release it, and the rebuild of the table of
  a node that takes the speaking over from what the nodes say their clients hold.

  The second part is a model of the cluster: nodes whose clocks tick at the same rate with any
  offsets, answers and releases on their way, tables read one node at a time. It shows when a lock
  has one holder across changes of speaker, and a run in which it has two.
\<close>

section \<open>Locks between nodes\<close>

text \<open>
  \<open>api.ClusterLock\<close>: a lock and the time left of its lease, a \<open>time.Duration\<close> printed and parsed
  back, which is exact.
\<close>

record api_lock =
  al_lock :: lock
  al_ExpiresIn :: "duration option"

definition lockFromAPI :: "time \<Rightarrow> api_lock \<Rightarrow> lock" where
  "lockFromAPI now item =
    (case al_ExpiresIn item of None \<Rightarrow> al_lock item | Some d \<Rightarrow> (al_lock item)\<lparr>lk_ExpiresAt := now + d\<rparr>)"

definition lockToAPI :: "time \<Rightarrow> lock \<Rightarrow> api_lock" where
  "lockToAPI now l = \<lparr>al_lock = l, al_ExpiresIn = Some (lk_ExpiresAt l - now)\<rparr>"

text \<open>\<open>SpeakerTable\<close> and \<open>LocalHeld\<close> of a daemon.\<close>

record lock_node =
  ln_table :: table
  ln_held :: held

text \<open>\<open>GetNodeLocks\<close>, and the first lines of \<open>rebuildLockTable\<close>: what a node says of the locks.\<close>

definition node_locks :: "time \<Rightarrow> lock_node \<Rightarrow> lock list \<times> lock_node" where
  "node_locks now nd =
    (case held_List now (ln_held nd) of (l, h) \<Rightarrow>
     case Granted now (ln_table nd) of (l', t) \<Rightarrow> (l @ l', \<lparr>ln_table = t, ln_held = h\<rparr>))"

definition GetNodeLocks :: "time \<Rightarrow> lock_node \<Rightarrow> api_lock list \<times> lock_node" where
  "GetNodeLocks now nd = (case node_locks now nd of (l, nd) \<Rightarrow> (map (lockToAPI now) l, nd))"

text \<open>\<open>DeleteNodeLock\<close> on the node itself.\<close>

definition DeleteNodeLock :: "time \<Rightarrow> string \<Rightarrow> nat \<Rightarrow> lock_node \<Rightarrow> lock_node" where
  "DeleteNodeLock now name i nd =
    \<lparr>ln_table = Forget now name i (ln_table nd), ln_held = held_Remove name i (ln_held nd)\<rparr>"

section \<open>Rebuilding the table\<close>

text \<open>What a node knows of a peer, and what the peer answers, if it does.\<close>

record peer_view =
  pv_hasStatus :: bool
  pv_inMaintenance :: bool
  pv_hears :: bool
  pv_answer :: "api_lock list option"

fun ask_peers :: "time \<Rightarrow> string \<Rightarrow> (string \<Rightarrow> peer_view) \<Rightarrow> string list \<Rightarrow> lock list \<Rightarrow> lock list option" where
  "ask_peers now localhost views [] locks = Some locks"
| "ask_peers now localhost views (nodename # l) locks =
    (let v = views nodename
     in if nodename = localhost then ask_peers now localhost views l locks
        else if \<not> pv_hasStatus v then ask_peers now localhost views l locks
        else if pv_inMaintenance v then ask_peers now localhost views l locks
        else case pv_answer v of
          None \<Rightarrow> if \<not> pv_hears v then ask_peers now localhost views l locks else None
        | Some a \<Rightarrow> ask_peers now localhost views l (locks @ map (lockFromAPI now) a))"

datatype rebuild_error = ErrAsk | ErrRebuild

definition rebuildLockTable ::
  "time \<Rightarrow> string \<Rightarrow> string list \<Rightarrow> (string \<Rightarrow> peer_view) \<Rightarrow> lock_node \<Rightarrow> rebuild_error option \<times> lock_node" where
  "rebuildLockTable now localhost nodes views nd =
    (if IsRebuilt (ln_table nd) then (None, nd)
     else
       let generation = Generation (ln_table nd)
       in case node_locks now nd of (locks, nd) \<Rightarrow>
          case ask_peers now localhost views nodes locks of
            None \<Rightarrow> (Some ErrAsk, nd)
          | Some locks \<Rightarrow>
              case Rebuild now generation locks (ln_table nd) of
                (None, t) \<Rightarrow> (Some ErrRebuild, nd\<lparr>ln_table := t\<rparr>)
              | (Some conflicts, t) \<Rightarrow> (None, nd\<lparr>ln_table := snd (table_List now t)\<rparr>))"

section \<open>The handlers\<close>

text \<open>
  The answer to a request: a problem with its HTTP status, a lock, no content, or the request handed
  over to the speaker, whose answer \<open>handOverClusterLock\<close> and \<open>handOverRelease\<close> wait for. The checks
  of the caller's grants and of the payload come before.
\<close>

datatype lock_reply = Problem nat | Granting api_lock | NoContent | HandOver string

definition StatusNotFound :: nat where "StatusNotFound = 404"

definition StatusConflict :: nat where "StatusConflict = 409"

definition StatusServiceUnavailable :: nat where "StatusServiceUnavailable = 503"

definition StatusInternalServerError :: nat where "StatusInternalServerError = 500"

text \<open>
  \<open>PostClusterLock\<close> from its choice of the speaker on. \<open>rounds\<close> are the rounds of the request in
  \<open>Acquire\<close>, as another request may change the table between two; no reply is a request waiting.
\<close>

definition PostClusterLock ::
  "time \<Rightarrow> string \<Rightarrow> string \<Rightarrow> string list \<Rightarrow> (string \<Rightarrow> peer_view) \<Rightarrow> bool \<Rightarrow> lock_request \<Rightarrow> acquire_env list
    \<Rightarrow> lock_node \<Rightarrow> (lock_reply \<times> lock_node) option" where
  "PostClusterLock now localhost speaker nodes views handedOver req rounds nd =
    (if speaker \<noteq> [] \<and> speaker \<noteq> localhost
     then Some (if handedOver then Problem StatusServiceUnavailable else HandOver speaker, nd)
     else case rebuildLockTable now localhost nodes views nd of
       (Some _, nd) \<Rightarrow> Some (Problem StatusServiceUnavailable, nd)
     | (None, nd) \<Rightarrow>
         case Acquire req now (ln_table nd) rounds of
           None \<Rightarrow> None
         | Some (Inl (ErrHeld _), t) \<Rightarrow> Some (Problem StatusConflict, nd\<lparr>ln_table := t\<rparr>)
         | Some (Inl _, t) \<Rightarrow> Some (Problem StatusServiceUnavailable, nd\<lparr>ln_table := t\<rparr>)
         | Some (Inr l, t) \<Rightarrow>
             Some (Granting (lockToAPI (lk_AcquiredAt l) l),
               \<lparr>ln_table = t, ln_held = (if handedOver then ln_held nd else held_Add l (ln_held nd))\<rparr>))"

text \<open>\<open>handOverClusterLock\<close>, once the speaker answered.\<close>

definition handOverClusterLock :: "time \<Rightarrow> lock_reply option \<Rightarrow> lock_node \<Rightarrow> lock_reply \<times> lock_node" where
  "handOverClusterLock now answer nd =
    (case answer of
       None \<Rightarrow> (Problem StatusServiceUnavailable, nd)
     | Some (Granting a) \<Rightarrow> (Granting a, nd\<lparr>ln_held := held_Add (lockFromAPI now a) (ln_held nd)\<rparr>)
     | Some r \<Rightarrow> (r, nd))"

text \<open>
  \<open>DeleteClusterLock\<close>: the reply, the node, and whether every node is told to forget the lock
  (\<open>forgetLock\<close>, which starts with this one). \<open>answer\<close> is what the speaker a release is handed to
  answers, if it does.
\<close>

definition DeleteClusterLock ::
  "time \<Rightarrow> string \<Rightarrow> string \<Rightarrow> string list \<Rightarrow> (string \<Rightarrow> peer_view) \<Rightarrow> bool \<Rightarrow> string \<Rightarrow> nat \<Rightarrow> lock_reply option
    \<Rightarrow> lock_node \<Rightarrow> (lock_reply \<times> bool) \<times> lock_node" where
  "DeleteClusterLock now localhost speaker nodes views handedOver name i answer nd =
    (let nd = (if handedOver then nd else nd\<lparr>ln_held := held_Remove name i (ln_held nd)\<rparr>);
         forget = (\<lambda>nd. ((NoContent, True), DeleteNodeLock now name i nd))
     in if speaker \<noteq> [] \<and> speaker \<noteq> localhost
        then if handedOver then ((Problem StatusServiceUnavailable, False), nd)
             else case answer of
                    None \<Rightarrow> forget nd
                  | Some (Problem s) \<Rightarrow> if s < StatusInternalServerError then ((Problem s, False), nd) else forget nd
                  | Some r \<Rightarrow> ((r, False), nd)
        else case rebuildLockTable now localhost nodes views nd of
          (Some _, nd) \<Rightarrow> forget nd
        | (None, nd) \<Rightarrow>
            case Release now name i (ln_table nd) of
              (None, t) \<Rightarrow> ((Problem StatusNotFound, False), nd\<lparr>ln_table := Forget now name i t\<rparr>)
            | (Some _, t) \<Rightarrow> forget (nd\<lparr>ln_table := t\<rparr>))"

section \<open>The cluster\<close>

text \<open>
  A rebuild under way: the generation it is for, the peers still to ask, what the others said. The
  state of the cluster holds, beside its nodes, the answers of the speaker on their way, the locks
  ever granted with the time their lease ends, and the identifiers the clients let go of. The clock
  of a node is the time of the cluster and the offset of the node.
\<close>

record reading =
  rd_generation :: "64 word"
  rd_todo :: "string list"
  rd_locks :: "lock list"

record lock_cluster =
  lc_now :: "time"
  lc_nodes :: "string \<Rightarrow> lock_node"
  lc_reads :: "string \<Rightarrow> reading option"
  lc_answers :: "(string \<times> api_lock) list"
  lc_grants :: "grant list"
  lc_freed :: "nat set"

type_synonym offsets = "string \<Rightarrow> time"

definition clock :: "offsets \<Rightarrow> lock_cluster \<Rightarrow> string \<Rightarrow> time" where
  "clock off c n = lc_now c + off n"

definition set_node :: "string \<Rightarrow> lock_node \<Rightarrow> lock_cluster \<Rightarrow> lock_cluster" where
  "set_node n nd c = c\<lparr>lc_nodes := (lc_nodes c)(n := nd)\<rparr>"

definition set_read :: "string \<Rightarrow> reading option \<Rightarrow> lock_cluster \<Rightarrow> lock_cluster" where
  "set_read n r c = c\<lparr>lc_reads := (lc_reads c)(n := r)\<rparr>"

text \<open>Node \<open>n\<close> grants a request, and sends its answer to the node of the client.\<close>

definition cl_grant :: "offsets \<Rightarrow> string \<Rightarrow> nat \<Rightarrow> lock_request \<Rightarrow> lock_cluster \<Rightarrow> lock_cluster" where
  "cl_grant off n i r c =
    (let now = clock off c n
     in case acquire_round r now now i (ln_table (lc_nodes c n)) of
          (Answer (Inr l), t) \<Rightarrow>
            (set_node n ((lc_nodes c n)\<lparr>ln_table := t\<rparr>) c)
              \<lparr>lc_answers := (rq_Node r, if rq_Node r = n then \<lparr>al_lock = l, al_ExpiresIn = None\<rparr> else lockToAPI now l) # lc_answers c,
               lc_grants := (rq_Name r, i, lc_now c + Lease (rq_Lease r)) # lc_grants c\<rparr>
        | _ \<Rightarrow> c)"

text \<open>The answer reaches the node of the client, which records the lock.\<close>

definition cl_record :: "offsets \<Rightarrow> string \<times> api_lock \<Rightarrow> lock_cluster \<Rightarrow> lock_cluster" where
  "cl_record off a c =
    (case a of (m, item) \<Rightarrow>
      (set_node m ((lc_nodes c m)\<lparr>ln_held := held_Add (lockFromAPI (clock off c m) item) (ln_held (lc_nodes c m))\<rparr>) c)
        \<lparr>lc_answers := remove1 a (lc_answers c)\<rparr>)"

text \<open>A client lets go of a lock: its node forgets it, and asks the speaker to release it.\<close>

definition cl_let_go :: "string \<Rightarrow> string \<Rightarrow> nat \<Rightarrow> lock_cluster \<Rightarrow> lock_cluster" where
  "cl_let_go m name i c =
    (set_node m ((lc_nodes c m)\<lparr>ln_held := held_Remove name i (ln_held (lc_nodes c m))\<rparr>) c)
      \<lparr>lc_freed := insert i (lc_freed c)\<rparr>"

definition cl_release :: "offsets \<Rightarrow> string \<Rightarrow> string \<Rightarrow> nat \<Rightarrow> lock_cluster \<Rightarrow> lock_cluster" where
  "cl_release off n name i c =
    set_node n ((lc_nodes c n)\<lparr>ln_table := snd (Release (clock off c n) name i (ln_table (lc_nodes c n)))\<rparr>) c"

definition cl_forget :: "offsets \<Rightarrow> string \<Rightarrow> string \<Rightarrow> nat \<Rightarrow> lock_cluster \<Rightarrow> lock_cluster" where
  "cl_forget off n name i c = set_node n (DeleteNodeLock (clock off c n) name i (lc_nodes c n)) c"

text \<open>The node starts or stops speaking (\<open>updateSpeaker\<close>): its table is dropped.\<close>

definition cl_drop :: "string \<Rightarrow> lock_cluster \<Rightarrow> lock_cluster" where
  "cl_drop n c = set_node n ((lc_nodes c n)\<lparr>ln_table := Drop (ln_table (lc_nodes c n))\<rparr>) c"

text \<open>The three stages of \<open>rebuildLockTable\<close>; the answer of a peer takes the time \<open>d\<close> to come.\<close>

definition cl_begin :: "offsets \<Rightarrow> string list \<Rightarrow> string \<Rightarrow> lock_cluster \<Rightarrow> lock_cluster" where
  "cl_begin off N n c =
    (case node_locks (clock off c n) (lc_nodes c n) of (l, nd) \<Rightarrow>
      set_read n (Some \<lparr>rd_generation = Generation (ln_table (lc_nodes c n)), rd_todo = filter (\<lambda>m. m \<noteq> n) N, rd_locks = l\<rparr>)
        (set_node n nd c))"

definition cl_read :: "offsets \<Rightarrow> duration \<Rightarrow> string \<Rightarrow> reading \<Rightarrow> lock_cluster \<Rightarrow> lock_cluster" where
  "cl_read off d n r c =
    (case GetNodeLocks (clock off c (hd (rd_todo r))) (lc_nodes c (hd (rd_todo r))) of (l, nd) \<Rightarrow>
      set_read n (Some (r\<lparr>rd_todo := tl (rd_todo r), rd_locks := rd_locks r @ map (lockFromAPI (clock off c n + d)) l\<rparr>))
        (set_node (hd (rd_todo r)) nd c))"

definition cl_end :: "offsets \<Rightarrow> string \<Rightarrow> reading \<Rightarrow> lock_cluster \<Rightarrow> lock_cluster" where
  "cl_end off n r c =
    set_read n None
      (set_node n ((lc_nodes c n)\<lparr>ln_table := snd (Rebuild (clock off c n) (rd_generation r) (rd_locks r) (ln_table (lc_nodes c n)))\<rparr>) c)"

text \<open>A node speaks while its table is rebuilt, or being rebuilt and not dropped since.\<close>

definition speaks :: "lock_cluster \<Rightarrow> string \<Rightarrow> bool" where
  "speaks c n =
    (tb_rebuilt (ln_table (lc_nodes c n))
     \<or> (case lc_reads c n of None \<Rightarrow> False | Some r \<Rightarrow> rd_generation r = tb_generation (ln_table (lc_nodes c n))))"

text \<open>
  The steps. A node takes the speaking over once no other speaks, which is what the cluster agrees
  on; everything else is free: the answers may be recorded late, the releases reach the nodes late,
  in any order or never, a table may be dropped at any time, in the middle of a rebuild too. The
  counter of the drops does not wrap. \<open>news\<close> restricts what a rebuild may have read when it ends.
  A peer a rebuild skips is one that says nothing.
\<close>

inductive lock_step ::
  "offsets \<Rightarrow> string list \<Rightarrow> (lock_cluster \<Rightarrow> string \<Rightarrow> reading \<Rightarrow> bool) \<Rightarrow> lock_cluster \<Rightarrow> lock_cluster \<Rightarrow> bool"
  for off N news where
  ticks: "0 \<le> d \<Longrightarrow> lock_step off N news c (c\<lparr>lc_now := lc_now c + d\<rparr>)"
| grants: "n \<in> set N \<Longrightarrow> i \<notin> (fst \<circ> snd) ` set (lc_grants c) \<Longrightarrow> lock_step off N news c (cl_grant off n i r c)"
| records: "a \<in> set (lc_answers c) \<Longrightarrow> lock_step off N news c (cl_record off a c)"
| lets_go: "lock_step off N news c (cl_let_go m name i c)"
| releases: "i \<in> lc_freed c \<Longrightarrow> lock_step off N news c (cl_release off n name i c)"
| forgets: "i \<in> lc_freed c \<Longrightarrow> lock_step off N news c (cl_forget off n name i c)"
| drops: "n \<in> set N \<Longrightarrow> tb_generation (ln_table (lc_nodes c n)) + 1 \<noteq> 0 \<Longrightarrow> lock_step off N news c (cl_drop n c)"
| begins: "n \<in> set N \<Longrightarrow> lc_reads c n = None \<Longrightarrow> \<not> IsRebuilt (ln_table (lc_nodes c n))
    \<Longrightarrow> list_all (\<lambda>m. \<not> speaks c m) (filter (\<lambda>m. m \<noteq> n) N) \<Longrightarrow> lock_step off N news c (cl_begin off N n c)"
| reads: "n \<in> set N \<Longrightarrow> lc_reads c n = Some r \<Longrightarrow> rd_todo r \<noteq> [] \<Longrightarrow> 0 \<le> d \<Longrightarrow> lock_step off N news c (cl_read off d n r c)"
| ends: "n \<in> set N \<Longrightarrow> lc_reads c n = Some r \<Longrightarrow> rd_todo r = [] \<Longrightarrow> news c n r \<Longrightarrow> lock_step off N news c (cl_end off n r c)"

definition lock_start :: "time \<Rightarrow> lock_cluster" where
  "lock_start now =
    \<lparr>lc_now = now, lc_nodes = (\<lambda>_. \<lparr>ln_table = NewTable, ln_held = NewHeld\<rparr>), lc_reads = (\<lambda>_. None),
     lc_answers = [], lc_grants = [], lc_freed = {}\<rparr>"

text \<open>A lock granted, whose lease has not ended and which its client did not let go of.\<close>

definition in_force :: "lock_cluster \<Rightarrow> grant \<Rightarrow> bool" where
  "in_force c g = (g \<in> set (lc_grants c) \<and> (case g of (_, i, x) \<Rightarrow> lc_now c < x \<and> i \<notin> lc_freed c))"

text \<open>What a rebuild read is current: it names no lock let go of, or lapsed, it would bring back.\<close>

definition current_news :: "offsets \<Rightarrow> lock_cluster \<Rightarrow> string \<Rightarrow> reading \<Rightarrow> bool" where
  "current_news off c n r =
    list_all (\<lambda>l. live (clock off c n) l
       \<longrightarrow> has_key (tb_released (pruneReleased (clock off c n) (ln_table (lc_nodes c n)))) (lk_ID l)
         \<or> list_ex (\<lambda>g. in_force c g \<and> fst (snd g) = lk_ID l) (lc_grants c)) (rd_locks r)"

section \<open>What the operations of a node keep\<close>

abbreviation locks_at :: "lock_node \<Rightarrow> string \<Rightarrow> lock option" where
  "locks_at nd \<equiv> map_of (tb_locks (ln_table nd))"

abbreviation former_at :: "lock_node \<Rightarrow> string \<Rightarrow> lock option" where
  "former_at nd \<equiv> map_of (tb_former (ln_table nd))"

abbreviation held_at :: "lock_node \<Rightarrow> string \<Rightarrow> lock option" where
  "held_at nd \<equiv> map_of (ln_held nd)"

definition knows :: "lock_node \<Rightarrow> lock set" where
  "knows nd = ran (locks_at nd) \<union> ran (former_at nd) \<union> ran (held_at nd)"

definition named :: "(string, lock) gomap \<Rightarrow> bool" where
  "named m = (wf_map m \<and> (\<forall>k l. map_of m k = Some l \<longrightarrow> lk_Name l = k))"

definition wf_node :: "lock_node \<Rightarrow> bool" where
  "wf_node nd =
    (named (tb_locks (ln_table nd)) \<and> named (tb_former (ln_table nd)) \<and> named (ln_held nd)
     \<and> (\<not> tb_rebuilt (ln_table nd) \<longrightarrow> tb_locks (ln_table nd) = []))"

lemma map_of_filter_value:
  "wf_map m \<Longrightarrow> map_of (filter (\<lambda>(_, l). P l) m) k = (case map_of m k of Some l \<Rightarrow> if P l then Some l else None | None \<Rightarrow> None)"
proof (induction m)
  case Nil
  then show ?case by simp
next
  case (Cons a m)
  obtain k' l where a: "a = (k', l)" by (cases a)
  then have "map_of m k' = None" and IH: "map_of (filter (\<lambda>(_, l). P l) m) k = (case map_of m k of Some l \<Rightarrow> if P l then Some l else None | None \<Rightarrow> None)"
    using Cons by (auto simp: wf_map_def map_of_eq_None_iff)
  then show ?case by (auto simp: a split: option.splits)
qed

lemma named_Nil [simp]: "named []"
  by (simp add: named_def wf_map_def)

lemma named_update: "named m \<Longrightarrow> k = lk_Name l \<Longrightarrow> named (AList.update k l m)"
  by (auto simp: named_def update_conv' split: if_splits)

lemma named_delete: "named m \<Longrightarrow> named (AList.delete k m)"
  by (auto simp: named_def delete_conv' split: if_splits)

lemma named_filter: "named m \<Longrightarrow> named (filter (\<lambda>(_, l). P l) m)"
  by (auto simp: named_def map_of_filter_value split: option.splits if_splits) (auto simp: wf_map_def distinct_map_filter)

lemma ran_update: "ran (map_of (AList.update k l m)) \<subseteq> insert l (ran (map_of m))"
  by (auto simp: ran_def update_conv' split: if_splits)

lemma ran_delete: "ran (map_of (AList.delete k m)) \<subseteq> ran (map_of m)"
  by (auto simp: ran_def delete_conv' split: if_splits)

lemma ran_filter: "wf_map m \<Longrightarrow> ran (map_of (filter (\<lambda>(_, l). P l) m)) \<subseteq> ran (map_of m)"
  by (auto simp: ran_def map_of_filter_value split: option.splits if_splits)

lemma set_list_locks:
  "wf_map m \<Longrightarrow> set (fst (list_locks m now)) = {l \<in> ran (map_of m). live now l}"
  by (auto simp: list_locks_def Let_def wf_map_def ran_def image_iff intro: rev_bexI)

text \<open>
  A quiet change of a node: a lock whose lease has not ended leaves its table or its former grants
  only when its client let go of it, in \<open>F\<close>; nothing is granted, and it learns no lock but \<open>new\<close>.
\<close>

definition quietly :: "time \<Rightarrow> nat set \<Rightarrow> lock set \<Rightarrow> lock_node \<Rightarrow> lock_node \<Rightarrow> bool" where
  "quietly now F new nd nd' =
    (tb_rebuilt (ln_table nd') = tb_rebuilt (ln_table nd) \<and> tb_generation (ln_table nd') = tb_generation (ln_table nd)
     \<and> (\<forall>k l. locks_at nd k = Some l \<longrightarrow> live now l \<longrightarrow> lk_ID l \<notin> F \<longrightarrow> locks_at nd' k = Some l)
     \<and> (\<forall>k l. former_at nd k = Some l \<longrightarrow> live now l \<longrightarrow> lk_ID l \<notin> F \<longrightarrow> former_at nd' k = Some l)
     \<and> knows nd' \<subseteq> knows nd \<union> new \<and> wf_node nd'
     \<and> (\<forall>i. has_key (tb_released (ln_table nd')) i \<longrightarrow> has_key (tb_released (ln_table nd)) i \<or> i \<in> F))"

lemma quietlyD:
  assumes "quietly now F new nd nd'"
  shows "tb_rebuilt (ln_table nd') = tb_rebuilt (ln_table nd)" "tb_generation (ln_table nd') = tb_generation (ln_table nd)"
    "locks_at nd k = Some l \<Longrightarrow> live now l \<Longrightarrow> lk_ID l \<notin> F \<Longrightarrow> locks_at nd' k = Some l"
    "former_at nd k = Some l \<Longrightarrow> live now l \<Longrightarrow> lk_ID l \<notin> F \<Longrightarrow> former_at nd' k = Some l"
    "knows nd' \<subseteq> knows nd \<union> new" "wf_node nd'"
    "has_key (tb_released (ln_table nd')) i \<Longrightarrow> has_key (tb_released (ln_table nd)) i \<or> i \<in> F"
  using assms by (simp_all add: quietly_def)

lemma quietly_held_Add:
  "wf_node nd \<Longrightarrow> quietly now F {l} nd (nd\<lparr>ln_held := held_Add l (ln_held nd)\<rparr>)"
  using ran_update [of "lk_Name l" l "ln_held nd"]
  by (auto simp: quietly_def wf_node_def knows_def held_Add_def named_update)

lemma quietly_held_Remove:
  "wf_node nd \<Longrightarrow> quietly now F {} nd (nd\<lparr>ln_held := held_Remove name i (ln_held nd)\<rparr>)"
  using ran_delete [of name "ln_held nd"]
  by (auto simp: quietly_def wf_node_def knows_def held_Remove_def named_delete split: option.splits)

lemma Release_maps:
  "tb_locks (snd (Release now name i t)) =
    (case map_of (tb_locks t) name of Some h \<Rightarrow> if lk_ID h = i then AList.delete name (tb_locks t) else tb_locks t | None \<Rightarrow> tb_locks t)"
  "tb_former (snd (Release now name i t)) =
    (case map_of (tb_former t) name of Some h \<Rightarrow> if lk_ID h = i then AList.delete name (tb_former t) else tb_former t | None \<Rightarrow> tb_former t)"
  "tb_generation (snd (Release now name i t)) = tb_generation t"
  "has_key (tb_released (snd (Release now name i t))) k \<Longrightarrow> has_key (tb_released t) k \<or> k = i"
  by (auto simp: Release_def Let_def wake_def has_key_update split: option.splits if_splits)

lemma has_key_filter: "has_key (filter P m) k \<Longrightarrow> has_key m k"
  by (auto simp: has_key_iff)

lemma Forget_maps:
  "tb_locks (Forget now name i t) =
    (case map_of (tb_locks t) name of Some h \<Rightarrow> if lk_ID h = i then AList.delete name (tb_locks t) else tb_locks t | None \<Rightarrow> tb_locks t)"
  "tb_former (Forget now name i t) =
    (case map_of (tb_former t) name of Some h \<Rightarrow> if lk_ID h = i then AList.delete name (tb_former t) else tb_former t | None \<Rightarrow> tb_former t)"
  "tb_generation (Forget now name i t) = tb_generation t"
  "has_key (tb_released (Forget now name i t)) k \<Longrightarrow> has_key (tb_released t) k \<or> k = i"
  by (auto simp: Forget_def pruneReleased_def Let_def wake_def has_key_update dest: has_key_filter split: option.splits if_splits)

text \<open>Removing the lock of \<open>i\<close> from a map, as a release and a forget do.\<close>

lemma remove_id:
  assumes "m' = (case map_of m name of Some h \<Rightarrow> if lk_ID h = i then AList.delete name m else m | None \<Rightarrow> m)"
  shows "map_of m k = Some l \<Longrightarrow> lk_ID l \<noteq> i \<Longrightarrow> map_of m' k = Some l" "ran (map_of m') \<subseteq> ran (map_of m)"
    "named m \<Longrightarrow> named m'" "m = [] \<Longrightarrow> m' = []"
  using assms ran_delete [of name m] by (auto simp: delete_conv' named_delete split: option.splits if_splits)

lemma quietly_remove:
  assumes "wf_node nd" and "i \<in> F" and "tb_rebuilt t = tb_rebuilt (ln_table nd)" and "tb_generation t = tb_generation (ln_table nd)"
    and l: "tb_locks t = (case locks_at nd name of Some h \<Rightarrow> if lk_ID h = i then AList.delete name (tb_locks (ln_table nd)) else tb_locks (ln_table nd) | None \<Rightarrow> tb_locks (ln_table nd))"
    and f: "tb_former t = (case former_at nd name of Some h \<Rightarrow> if lk_ID h = i then AList.delete name (tb_former (ln_table nd)) else tb_former (ln_table nd) | None \<Rightarrow> tb_former (ln_table nd))"
    and r: "\<And>k. has_key (tb_released t) k \<Longrightarrow> has_key (tb_released (ln_table nd)) k \<or> k = i"
  shows "quietly now F {} nd (nd\<lparr>ln_table := t\<rparr>)"
proof -
  have rel: "has_key (tb_released t) k \<Longrightarrow> has_key (tb_released (ln_table nd)) k \<or> k \<in> F" for k using r assms(2) by blast
  have "lk_ID k \<noteq> i" if "lk_ID k \<notin> F" for k using that assms(2) by blast
  then show ?thesis
    using remove_id(1) [OF l] remove_id(1) [OF f] remove_id(2-4) [OF l] remove_id(2,3) [OF f] assms(1,3,4) rel
    unfolding quietly_def wf_node_def knows_def by simp blast
qed

lemma quietly_Release: "wf_node nd \<Longrightarrow> i \<in> F \<Longrightarrow> quietly now F {} nd (nd\<lparr>ln_table := snd (Release at name i (ln_table nd))\<rparr>)"
  by (rule quietly_remove) (simp_all add: Release_maps(1-3), erule Release_maps(4))

lemma quietly_Forget: "wf_node nd \<Longrightarrow> i \<in> F \<Longrightarrow> quietly now F {} nd (nd\<lparr>ln_table := Forget at name i (ln_table nd)\<rparr>)"
  by (rule quietly_remove) (simp_all add: Forget_maps(1-3), erule Forget_maps(4))

lemma quietly_trans:
  "quietly now F A nd nd' \<Longrightarrow> quietly now F B nd' nd'' \<Longrightarrow> quietly now F (A \<union> B) nd nd''"
  unfolding quietly_def by (auto dest: subsetD)

lemma quietly_DeleteNodeLock:
  assumes "wf_node nd" and "i \<in> F"
  shows "quietly now F {} nd (DeleteNodeLock at name i nd)"
proof -
  note q = quietly_Forget [OF assms, of now at name]
  have "DeleteNodeLock at name i nd = nd\<lparr>ln_table := Forget at name i (ln_table nd), ln_held := held_Remove name i (ln_held nd)\<rparr>"
    by (simp add: DeleteNodeLock_def)
  with quietly_trans [OF q quietly_held_Remove [OF quietlyD(6) [OF q], of now F name i]] show ?thesis by simp
qed

lemma snd_list_locks: "snd (list_locks m now) = filter (\<lambda>(_, l). live now l) m"
  by (simp add: list_locks_def Let_def)

lemma snd_Granted: "snd (Granted now t) =
    t\<lparr>tb_former := filter (\<lambda>(_, l). live now l) (tb_former t), tb_locks := filter (\<lambda>(_, l). live now l) (tb_locks t)\<rparr>"
  by (simp add: Granted_def snd_list_locks case_prod_unfold)

lemma quietly_node_locks:
  assumes "wf_node nd"
  shows "quietly now F {} nd (snd (node_locks now nd))"
proof -
  have n: "snd (node_locks now nd) = \<lparr>ln_table = snd (Granted now (ln_table nd)), ln_held = snd (list_locks (ln_held nd) now)\<rparr>"
    by (simp add: node_locks_def held_List_def case_prod_unfold)
  have w: "wf_map (tb_locks (ln_table nd))" "wf_map (tb_former (ln_table nd))" "wf_map (ln_held nd)"
    using assms by (simp_all add: wf_node_def named_def)
  show ?thesis
    using assms ran_filter [OF w(1)] ran_filter [OF w(2)] ran_filter [OF w(3)]
    unfolding n quietly_def wf_node_def knows_def
    by (simp add: snd_Granted snd_list_locks map_of_filter_value w named_filter) blast
qed

text \<open>What a node says covers the locks in force it knows.\<close>

lemma set_node_locks:
  assumes "wf_node nd"
  shows "set (fst (node_locks now nd)) \<subseteq> knows nd"
    "former_at nd k = Some l \<Longrightarrow> live now l \<Longrightarrow> l \<in> set (fst (node_locks now nd))"
proof -
  have w: "wf_map (tb_locks (ln_table nd))" "wf_map (tb_former (ln_table nd))" "wf_map (ln_held nd)"
    using assms by (simp_all add: wf_node_def named_def)
  have g: "set (fst (Granted now t)) \<subseteq> set (fst (list_locks (tb_former t) now)) \<union> set (fst (list_locks (tb_locks t) now))"
    "set (fst (list_locks (tb_former t) now)) \<subseteq> set (fst (Granted now t))" for t
    by (auto simp: Granted_def case_prod_unfold)
  have n: "set (fst (node_locks now nd)) = set (fst (list_locks (ln_held nd) now)) \<union> set (fst (Granted now (ln_table nd)))"
    by (simp add: node_locks_def held_List_def case_prod_unfold)
  show "set (fst (node_locks now nd)) \<subseteq> knows nd"
    using g(1) [of "ln_table nd"] by (auto simp: n knows_def set_list_locks w)
  show "former_at nd k = Some l \<Longrightarrow> live now l \<Longrightarrow> l \<in> set (fst (node_locks now nd))"
    using g(2) [of "ln_table nd"] by (auto simp: n set_list_locks w ran_def)
qed

section \<open>The invariant of the cluster\<close>

text \<open>
  A lock a node, an answer or a rebuild knows is one granted, and ends no earlier than it on the
  clock of the node.
\<close>

definition sound :: "offsets \<Rightarrow> lock_cluster \<Rightarrow> string \<Rightarrow> lock \<Rightarrow> bool" where
  "sound off c m l =
    (lk_ID l \<in> (fst \<circ> snd) ` set (lc_grants c)
     \<and> (\<forall>(name, i, x) \<in> set (lc_grants c). i = lk_ID l \<longrightarrow> name = lk_Name l \<and> x + off m \<le> lk_ExpiresAt l))"

definition backs :: "offsets \<Rightarrow> string \<Rightarrow> grant \<Rightarrow> lock \<Rightarrow> bool" where
  "backs off m g l = (case g of (name, i, x) \<Rightarrow> lk_Name l = name \<and> lk_ID l = i \<and> x + off m \<le> lk_ExpiresAt l)"

definition lists :: "offsets \<Rightarrow> lock_cluster \<Rightarrow> string \<Rightarrow> grant \<Rightarrow> bool" where
  "lists off c m g = (\<exists>l. locks_at (lc_nodes c m) (fst g) = Some l \<and> backs off m g l)"

definition carries :: "offsets \<Rightarrow> lock_cluster \<Rightarrow> string \<Rightarrow> grant \<Rightarrow> bool" where
  "carries off c m g = (\<exists>l. former_at (lc_nodes c m) (fst g) = Some l \<and> backs off m g l)"

definition rebuilt :: "lock_cluster \<Rightarrow> string \<Rightarrow> bool" where
  "rebuilt c n = tb_rebuilt (ln_table (lc_nodes c n))"

definition generation :: "lock_cluster \<Rightarrow> string \<Rightarrow> 64 word" where
  "generation c n = tb_generation (ln_table (lc_nodes c n))"

definition all_sound :: "offsets \<Rightarrow> lock_cluster \<Rightarrow> bool" where
  "all_sound off c =
    ((\<forall>m. wf_node (lc_nodes c m) \<and> (\<forall>l \<in> knows (lc_nodes c m). sound off c m l)
          \<and> (\<forall>i. has_key (tb_released (ln_table (lc_nodes c m))) i \<longrightarrow> i \<in> lc_freed c))
     \<and> (\<forall>n r. lc_reads c n = Some r \<longrightarrow> (\<forall>l \<in> set (rd_locks r). sound off c n l))
     \<and> (\<forall>(m, a) \<in> set (lc_answers c). sound off c m (lockFromAPI (clock off c m) a)))"

definition one_speaker :: "string list \<Rightarrow> lock_cluster \<Rightarrow> bool" where
  "one_speaker N c =
    ((\<forall>n \<in> set N. \<forall>m \<in> set N. speaks c n \<longrightarrow> speaks c m \<longrightarrow> n = m)
     \<and> (\<forall>n r. lc_reads c n = Some r \<longrightarrow> rd_generation r \<le> generation c n \<and> set (rd_todo r) \<subseteq> set N \<and> n \<in> set N \<and> \<not> rebuilt c n)
     \<and> (\<forall>n. n \<notin> set N \<longrightarrow> \<not> rebuilt c n))"

text \<open>A lock in force is in every table in use, known to a node while none is, and to a rebuild.\<close>

definition remembered :: "offsets \<Rightarrow> string list \<Rightarrow> lock_cluster \<Rightarrow> grant \<Rightarrow> bool" where
  "remembered off N c g =
    ((\<forall>n. rebuilt c n \<longrightarrow> lists off c n g)
     \<and> ((\<exists>m \<in> set N. carries off c m g) \<or> (\<exists>m \<in> set N. rebuilt c m))
     \<and> (\<forall>n r. lc_reads c n = Some r \<longrightarrow> rd_generation r = generation c n \<longrightarrow> \<not> rebuilt c n
          \<longrightarrow> (\<exists>l \<in> set (rd_locks r). backs off n g l) \<or> (\<exists>m \<in> set (rd_todo r). carries off c m g)))"

definition exclusive :: "lock_cluster \<Rightarrow> bool" where
  "exclusive c =
    (distinct (map (fst \<circ> snd) (lc_grants c))
     \<and> (\<forall>g g'. in_force c g \<longrightarrow> in_force c g' \<longrightarrow> fst g = fst g' \<longrightarrow> g = g'))"

definition safe :: "offsets \<Rightarrow> string list \<Rightarrow> lock_cluster \<Rightarrow> bool" where
  "safe off N c =
    (all_sound off c \<and> one_speaker N c \<and> (\<forall>g. in_force c g \<longrightarrow> remembered off N c g) \<and> exclusive c)"

lemma safeD:
  assumes "safe off N c"
  shows "all_sound off c" "one_speaker N c" "in_force c g \<Longrightarrow> remembered off N c g" "exclusive c"
  using assms unfolding safe_def by blast+

lemma exclusiveD: "exclusive c \<Longrightarrow> in_force c g \<Longrightarrow> in_force c g' \<Longrightarrow> fst g = fst g' \<Longrightarrow> g = g'"
  unfolding exclusive_def by blast

lemma all_soundD:
  assumes "all_sound off c"
  shows "wf_node (lc_nodes c m)" "l \<in> knows (lc_nodes c m) \<Longrightarrow> sound off c m l"
    "lc_reads c n = Some r \<Longrightarrow> l \<in> set (rd_locks r) \<Longrightarrow> sound off c n l"
    "(m, a) \<in> set (lc_answers c) \<Longrightarrow> sound off c m (lockFromAPI (clock off c m) a)"
    "has_key (tb_released (ln_table (lc_nodes c m))) i \<Longrightarrow> i \<in> lc_freed c"
  using assms unfolding all_sound_def by blast+

lemma speaks_iff: "speaks c n \<longleftrightarrow> rebuilt c n \<or> (\<exists>r. lc_reads c n = Some r \<and> rd_generation r = generation c n)"
  by (simp add: speaks_def rebuilt_def generation_def split: option.splits)

lemma backs_live: "in_force c g \<Longrightarrow> backs off m g l \<Longrightarrow> live (clock off c m) l \<and> lk_ID l \<notin> lc_freed c"
  by (auto simp: in_force_def backs_def clock_def)

lemma set_node_sel [simp]:
  "lc_now (set_node n nd c) = lc_now c" "lc_nodes (set_node n nd c) = (lc_nodes c)(n := nd)"
  "lc_reads (set_node n nd c) = lc_reads c" "lc_answers (set_node n nd c) = lc_answers c"
  "lc_grants (set_node n nd c) = lc_grants c" "lc_freed (set_node n nd c) = lc_freed c"
  by (simp_all add: set_node_def)

lemma set_read_sel [simp]:
  "lc_now (set_read n r c) = lc_now c" "lc_reads (set_read n r c) = (lc_reads c)(n := r)"
  "lc_nodes (set_read n r c) = lc_nodes c" "lc_answers (set_read n r c) = lc_answers c"
  "lc_grants (set_read n r c) = lc_grants c" "lc_freed (set_read n r c) = lc_freed c"
  by (simp_all add: set_read_def)

text \<open>What the soundness, the locks in force and their exclusion depend on.\<close>

lemma sound_cong: "lc_grants c' = lc_grants c \<Longrightarrow> sound off c' m l = sound off c m l"
  by (simp add: sound_def)

lemma in_force_cong: "lc_grants c' = lc_grants c \<Longrightarrow> lc_freed c' = lc_freed c \<Longrightarrow> lc_now c' = lc_now c \<Longrightarrow> in_force c' = in_force c"
  by (auto simp: in_force_def fun_eq_iff)

lemma exclusive_mono:
  assumes "exclusive c" and "lc_grants c' = lc_grants c" and "\<And>g. in_force c' g \<Longrightarrow> in_force c g"
  shows "exclusive c'"
  using assms unfolding exclusive_def by (metis (no_types, lifting))

text \<open>A quiet change of a node keeps the invariant.\<close>

lemma safe_quiet:
  assumes s: "safe off N c" and q: "quietly (clock off c n) (lc_freed c) new (lc_nodes c n) nd"
    and new: "\<And>l. l \<in> new \<Longrightarrow> sound off c n l"
  shows "safe off N (set_node n nd c)"
proof -
  let ?c = "set_node n nd c"
  have cg: "sound off ?c m l = sound off c m l" "clock off ?c m = clock off c m" for m l
    by (rule sound_cong, simp) (simp add: clock_def)
  have f: "in_force ?c = in_force c" by (rule in_force_cong) simp_all
  have rg: "rebuilt ?c m = rebuilt c m" "generation ?c m = generation c m" for m
    using quietlyD(1,2) [OF q] by (simp_all add: rebuilt_def generation_def)
  have sp: "speaks ?c m = speaks c m" for m by (simp add: speaks_iff rg)
  have keep: "lists off c m g \<Longrightarrow> lists off ?c m g" "carries off c m g \<Longrightarrow> carries off ?c m g" if "in_force c g" for m g
    using backs_live [OF that] quietlyD(3,4) [OF q] unfolding lists_def carries_def by (cases "m = n"; auto)+
  have k: "sound off c n l" if "l \<in> knows nd" for l
    using that quietlyD(5) [OF q] all_soundD(2) [OF safeD(1) [OF s]] new by blast
  have "all_sound off ?c"
    using safeD(1) [OF s] k quietlyD(6,7) [OF q] unfolding all_sound_def cg by simp blast
  moreover have "one_speaker N ?c" using safeD(2) [OF s] unfolding one_speaker_def rg sp by simp
  moreover have "remembered off N ?c g" if "in_force c g" for g
    using safeD(3) [OF s that] keep [OF that] unfolding remembered_def rg by simp blast
  moreover have "exclusive ?c" using safeD(4) [OF s] by (rule exclusive_mono) (simp_all add: f)
  ultimately show ?thesis unfolding safe_def f by blast
qed

text \<open>A change that moves no table and no rebuild, and puts no lock in force, keeps the invariant.\<close>

lemma safe_weaken:
  assumes s: "safe off N c" and n: "lc_nodes c' = lc_nodes c" and r: "lc_reads c' = lc_reads c" and g: "lc_grants c' = lc_grants c"
    and f: "\<And>g. in_force c' g \<Longrightarrow> in_force c g" and fr: "lc_freed c \<subseteq> lc_freed c'"
    and a: "\<And>m a. (m, a) \<in> set (lc_answers c') \<Longrightarrow> sound off c m (lockFromAPI (clock off c' m) a)"
  shows "safe off N c'"
proof -
  have sg: "sound off c' m l = sound off c m l" for m l by (rule sound_cong) (rule g)
  have sp: "rebuilt c' m = rebuilt c m" "generation c' m = generation c m" for m
    by (simp_all add: rebuilt_def generation_def n)
  have sp': "speaks c' m = speaks c m" for m by (simp add: speaks_iff sp r)
  have "all_sound off c'" using safeD(1) [OF s] a fr unfolding all_sound_def sg n r by blast
  moreover have "one_speaker N c'" using safeD(2) [OF s] unfolding one_speaker_def sp sp' r .
  moreover have "remembered off N c' g" if "in_force c' g" for g
    using safeD(3) [OF s f [OF that]] unfolding remembered_def sp lists_def carries_def n r .
  moreover have "exclusive c'" using safeD(4) [OF s] g f by (rule exclusive_mono)
  ultimately show ?thesis unfolding safe_def by blast
qed

lemma sound_later: "sound off c m l \<Longrightarrow> lk_ExpiresAt l \<le> x \<Longrightarrow> sound off c m (l\<lparr>lk_ExpiresAt := x\<rparr>)"
  by (auto simp: sound_def)

lemma sound_answer_later:
  assumes "sound off c m (lockFromAPI now a)" and "now \<le> now'"
  shows "sound off c m (lockFromAPI now' a)"
proof (cases "al_ExpiresIn a")
  case None
  then show ?thesis using assms(1) by (simp add: lockFromAPI_def)
next
  case (Some x)
  then show ?thesis using sound_later [OF assms(1), of "now' + x"] assms(2) by (simp add: lockFromAPI_def)
qed

lemma safe_tick:
  assumes s: "safe off N c" and "0 \<le> d"
  shows "safe off N (c\<lparr>lc_now := lc_now c + d\<rparr>)"
  by (rule safe_weaken [OF s])
    (use assms(2) in \<open>auto simp: in_force_def clock_def
      intro: sound_answer_later [OF all_soundD(4) [OF safeD(1) [OF s], unfolded clock_def]]\<close>)

lemma safe_free:
  assumes s: "safe off N c"
  shows "safe off N (c\<lparr>lc_freed := insert i (lc_freed c)\<rparr>)"
  by (rule safe_weaken [OF s]) (auto simp: in_force_def clock_def all_soundD(4) [OF safeD(1) [OF s], unfolded clock_def])

lemma safe_answers:
  assumes s: "safe off N c" and "set as \<subseteq> set (lc_answers c)"
  shows "safe off N (c\<lparr>lc_answers := as\<rparr>)"
  by (rule safe_weaken [OF s])
    (use assms(2) in \<open>auto simp: in_force_def clock_def all_soundD(4) [OF safeD(1) [OF s], unfolded clock_def]\<close>)

text \<open>The table of a node dropped.\<close>

lemma map_of_updates:
  "wf_map m \<Longrightarrow> map_of (foldl (\<lambda>f (name, l). AList.update name l f) f m) k =
    (case map_of m k of Some l \<Rightarrow> Some l | None \<Rightarrow> map_of f k)"
proof (induction m arbitrary: f)
  case Nil
  then show ?case by simp
next
  case (Cons a m)
  then have "map_of m (fst a) = None" "wf_map m" by (auto simp: wf_map_def map_of_eq_None_iff)
  with Cons.IH [OF \<open>wf_map m\<close>] show ?case by (auto simp: update_conv case_prod_unfold split: option.splits)
qed

lemma named_updates:
  assumes "named m" and "named f"
  shows "named (foldl (\<lambda>f (name, l). AList.update name l f) f m)"
proof -
  have w: "wf_map m" using assms(1) by (simp add: named_def)
  have "wf_map f \<Longrightarrow> wf_map (foldl (\<lambda>f (name, l). AList.update name l f) f m)" for f
    by (induction m arbitrary: f) (auto simp: case_prod_unfold)
  with assms map_of_updates [OF w] show ?thesis by (auto simp: named_def split: option.splits)
qed

lemma Drop_sel [simp]:
  "tb_locks (Drop t) = []" "tb_rebuilt (Drop t) = False" "tb_generation (Drop t) = tb_generation t + 1" "tb_released (Drop t) = tb_released t"
  "tb_former (Drop t) = foldl (\<lambda>f (name, l). AList.update name l f) (tb_former t) (tb_locks t)"
  by (simp_all add: Drop_def wake_def)

lemma word_next: "(g :: 64 word) + 1 \<noteq> 0 \<Longrightarrow> r \<le> g \<Longrightarrow> r < g + 1"
  using unatSuc [of g] by (simp add: word_less_nat_alt word_le_nat_alt add.commute)

lemma safe_drop:
  assumes s: "safe off N c" and n: "n \<in> set N" and g0: "generation c n + 1 \<noteq> 0"
  shows "safe off N (cl_drop n c)"
proof -
  let ?c = "cl_drop n c" and ?nd = "lc_nodes c n"
  let ?nd' = "?nd\<lparr>ln_table := Drop (ln_table ?nd)\<rparr>"
  have c: "?c = set_node n ?nd' c" by (simp add: cl_drop_def)
  have sel: "lc_reads ?c = lc_reads c" "lc_nodes ?c = (lc_nodes c)(n := ?nd')" "lc_answers ?c = lc_answers c" "lc_grants ?c = lc_grants c"
    "lc_freed ?c = lc_freed c"
    by (simp_all add: c)
  have wn: "wf_node ?nd" by (rule all_soundD(1) [OF safeD(1) [OF s]])
  then have w: "wf_map (tb_locks (ln_table ?nd))" by (simp add: wf_node_def named_def)
  have former: "former_at ?nd' k = (case locks_at ?nd k of Some l \<Rightarrow> Some l | None \<Rightarrow> former_at ?nd k)" for k
    by (simp add: map_of_updates [OF w])
  have f: "in_force ?c = in_force c" unfolding c by (rule in_force_cong) simp_all
  have sg: "sound off ?c m l = sound off c m l" "clock off ?c m = clock off c m" for m l
    unfolding c by (rule sound_cong, simp) (simp add: clock_def)
  have rb: "rebuilt ?c m \<longleftrightarrow> m \<noteq> n \<and> rebuilt c m" "generation ?c m = (if m = n then generation c n + 1 else generation c m)" for m
    by (simp_all add: sel rebuilt_def generation_def)
  have stale: "rd_generation r < generation c n + 1" if "lc_reads c n = Some r" for r
    using safeD(2) [OF s] that word_next [OF g0] unfolding one_speaker_def by blast
  have sp: "speaks ?c m \<longleftrightarrow> m \<noteq> n \<and> speaks c m" for m
    using stale by (cases "m = n") (auto simp: speaks_iff rb sel)
  have knows: "knows ?nd' \<subseteq> knows ?nd"
    by (auto simp: knows_def ran_def map_of_updates [OF w] split: option.splits)
  have "all_sound off ?c"
    using safeD(1) [OF s] wn knows unfolding all_sound_def sg
    by (simp add: sel wf_node_def named_updates) blast
  moreover have "one_speaker N ?c"
    using safeD(2) [OF s] stale unfolding one_speaker_def sp rb by (auto simp: sel less_imp_le)
  moreover have "remembered off N ?c g" if g: "in_force c g" for g
  proof -
    note m = safeD(3) [OF s g]
    have lists: "lists off c k g \<Longrightarrow> k \<noteq> n \<Longrightarrow> lists off ?c k g" for k by (simp add: lists_def sel)
    have carry: "carries off ?c n g" if "lists off c n g" using that former by (auto simp: lists_def carries_def sel)
    have keep: "carries off ?c k g" if k: "carries off c k g" for k
    proof (cases "k = n \<and> locks_at ?nd (fst g) \<noteq> None")
      case True
      then have "rebuilt c n" using wn by (auto simp: wf_node_def rebuilt_def)
      then show ?thesis using carry m True unfolding remembered_def by blast
    next
      case False
      then show ?thesis using k former [of "fst g"] by (cases "k = n") (auto simp: carries_def sel)
    qed
    have "(\<exists>k \<in> set N. carries off ?c k g) \<or> (\<exists>k \<in> set N. rebuilt ?c k)"
      using m keep carry n unfolding remembered_def rb by metis
    moreover have "(\<exists>l \<in> set (rd_locks r). backs off k g l) \<or> (\<exists>m \<in> set (rd_todo r). carries off ?c m g)"
      if "lc_reads ?c k = Some r" "rd_generation r = generation ?c k" "\<not> rebuilt ?c k" for k r
    proof -
      have "k \<noteq> n" using that(1,2) stale by (auto simp: sel rb)
      then show ?thesis using that m keep unfolding remembered_def rb by (simp add: sel) blast
    qed
    ultimately show ?thesis using m lists unfolding remembered_def rb by blast
  qed
  moreover have "exclusive ?c" using safeD(4) [OF s] by (rule exclusive_mono) (simp_all add: f sel)
  ultimately show ?thesis unfolding safe_def f by blast
qed

text \<open>A lock granted.\<close>

lemma one_speakerD:
  assumes "one_speaker N c"
  shows "n \<in> set N \<Longrightarrow> m \<in> set N \<Longrightarrow> speaks c n \<Longrightarrow> speaks c m \<Longrightarrow> n = m"
    "lc_reads c n = Some r \<Longrightarrow> rd_generation r \<le> generation c n \<and> set (rd_todo r) \<subseteq> set N \<and> n \<in> set N \<and> \<not> rebuilt c n"
    "rebuilt c n \<Longrightarrow> n \<in> set N" "speaks c n \<Longrightarrow> n \<in> set N"
  using assms unfolding one_speaker_def speaks_iff by blast+

lemma rememberedD:
  assumes "remembered off N c g"
  shows "rebuilt c n \<Longrightarrow> lists off c n g" "(\<exists>m \<in> set N. carries off c m g) \<or> (\<exists>m \<in> set N. rebuilt c m)"
    "lc_reads c n = Some r \<Longrightarrow> rd_generation r = generation c n \<Longrightarrow> \<not> rebuilt c n
      \<Longrightarrow> (\<exists>l \<in> set (rd_locks r). backs off n g l) \<or> (\<exists>m \<in> set (rd_todo r). carries off c m g)"
  using assms unfolding remembered_def by blast+

lemma all_soundI:
  assumes "\<And>m. wf_node (lc_nodes c m)" "\<And>m l. l \<in> knows (lc_nodes c m) \<Longrightarrow> sound off c m l"
    "\<And>n r l. lc_reads c n = Some r \<Longrightarrow> l \<in> set (rd_locks r) \<Longrightarrow> sound off c n l"
    "\<And>m a. (m, a) \<in> set (lc_answers c) \<Longrightarrow> sound off c m (lockFromAPI (clock off c m) a)"
    "\<And>m i. has_key (tb_released (ln_table (lc_nodes c m))) i \<Longrightarrow> i \<in> lc_freed c"
  shows "all_sound off c"
  using assms unfolding all_sound_def by blast

lemma rememberedI:
  assumes "\<And>n. rebuilt c n \<Longrightarrow> lists off c n g" "(\<exists>m \<in> set N. carries off c m g) \<or> (\<exists>m \<in> set N. rebuilt c m)"
    "\<And>n r. lc_reads c n = Some r \<Longrightarrow> rd_generation r = generation c n \<Longrightarrow> \<not> rebuilt c n
      \<Longrightarrow> (\<exists>l \<in> set (rd_locks r). backs off n g l) \<or> (\<exists>m \<in> set (rd_todo r). carries off c m g)"
  shows "remembered off N c g"
  using assms unfolding remembered_def by blast

lemma sound_Cons:
  "sound off c m l \<Longrightarrow> i \<noteq> lk_ID l \<Longrightarrow> lc_grants c' = (name, i, x) # lc_grants c \<Longrightarrow> sound off c' m l"
  "i \<notin> (fst \<circ> snd) ` set (lc_grants c) \<Longrightarrow> lc_grants c' = (lk_Name l, i, x) # lc_grants c \<Longrightarrow> lk_ID l = i
    \<Longrightarrow> x + off m \<le> lk_ExpiresAt l \<Longrightarrow> sound off c' m l"
  by (force simp: sound_def)+

lemma cl_grant_cases:
  assumes "wf_node (lc_nodes c n)"
  obtains (refused) "cl_grant off n i r c = c"
  | (granted) l t where "lc_nodes (cl_grant off n i r c) = (lc_nodes c)(n := (lc_nodes c n)\<lparr>ln_table := t\<rparr>)"
      "t = (ln_table (lc_nodes c n))\<lparr>tb_locks := AList.update (rq_Name r) l (tb_locks (ln_table (lc_nodes c n)))\<rparr>"
      "lk_Name l = rq_Name r" "lk_ID l = i" "lk_ExpiresAt l = clock off c n + Lease (rq_Lease r)" "rebuilt c n"
      "\<And>h. locks_at (lc_nodes c n) (rq_Name r) = Some h \<Longrightarrow> \<not> live (clock off c n) h"
      "lc_reads (cl_grant off n i r c) = lc_reads c" "lc_now (cl_grant off n i r c) = lc_now c"
      "lc_freed (cl_grant off n i r c) = lc_freed c"
      "lc_grants (cl_grant off n i r c) = (rq_Name r, i, lc_now c + Lease (rq_Lease r)) # lc_grants c"
      "lc_answers (cl_grant off n i r c) = (rq_Node r, if rq_Node r = n then \<lparr>al_lock = l, al_ExpiresIn = None\<rparr>
        else lockToAPI (clock off c n) l) # lc_answers c"
proof (cases "tb_rebuilt (ln_table (lc_nodes c n))")
  case False
  then show ?thesis by (intro refused) (simp add: cl_grant_def acquire_round_def)
next
  case True
  then show ?thesis
  proof (cases rule: acquire_round_cases [where r = r and d = "clock off c n" and now = "clock off c n" and i = i])
    case (granted l)
    then show ?thesis by (intro that(2)) (simp_all add: cl_grant_def rebuilt_def True)
  next
    case (refused h)
    then show ?thesis by (intro that(1)) (simp add: cl_grant_def)
  qed simp
qed

lemma safe_grant:
  assumes s: "safe off N c" and n: "n \<in> set N" and i: "i \<notin> (fst \<circ> snd) ` set (lc_grants c)"
  shows "safe off N (cl_grant off n i r c)"
  using all_soundD(1) [OF safeD(1) [OF s], of n]
proof (cases rule: cl_grant_cases [where off = off and i = i and r = r])
  case refused
  then show ?thesis using s by simp
next
  case (granted l t)
  note sel = granted(1,2,8-12) and l = granted(3-5) and rb = granted(6) and none = granted(7)
  let ?c = "cl_grant off n i r c" and ?nd = "lc_nodes c n"
  let ?g = "(rq_Name r, i, lc_now c + Lease (rq_Lease r))"
  have rg: "rebuilt ?c m = rebuilt c m" "generation ?c m = generation c m" "speaks ?c m = speaks c m" "clock off ?c m = clock off c m" for m
    by (simp_all add: rebuilt_def generation_def speaks_def clock_def sel cong: option.case_cong)
  have old: "sound off ?c m k" if "sound off c m k" for m k
    by (rule sound_Cons(1) [OF that _ sel(6)]) (use that i in \<open>auto simp: sound_def\<close>)
  have new: "sound off ?c m k" if "lk_Name k = rq_Name r" "lk_ID k = i" "lc_now c + Lease (rq_Lease r) + off m \<le> lk_ExpiresAt k" for m k
    by (rule sound_Cons(2) [OF i, where x = "lc_now c + Lease (rq_Lease r)"]) (use that in \<open>simp_all add: sel\<close>)
  note o = one_speakerD [OF safeD(2) [OF s]]
  have spn: "speaks c n" using rb by (simp add: speaks_iff)
  have speaker: "m = n" if "speaks c m" for m by (rule o(1) [OF o(4) [OF that] n that spn])
  have wn: "wf_node (?nd\<lparr>ln_table := t\<rparr>)"
    using all_soundD(1) [OF safeD(1) [OF s], of n] rb by (simp add: wf_node_def sel rebuilt_def named_update l)
  have kn: "knows (?nd\<lparr>ln_table := t\<rparr>) \<subseteq> insert l (knows ?nd)"
    using ran_update [of "rq_Name r" l "tb_locks (ln_table ?nd)"] by (auto simp: knows_def sel)
  have as: "sound off ?c n l" by (rule new) (simp_all add: l clock_def)
  have an: "sound off ?c (rq_Node r) (lockFromAPI (clock off c (rq_Node r)) (if rq_Node r = n
      then \<lparr>al_lock = l, al_ExpiresIn = None\<rparr> else lockToAPI (clock off c n) l))"
    by (rule new) (simp_all add: l lockFromAPI_def lockToAPI_def clock_def)
  have "all_sound off ?c"
  proof (rule all_soundI)
    note d = all_soundD [OF safeD(1) [OF s]]
    show "wf_node (lc_nodes ?c m)" for m using d(1) wn by (simp add: sel(1))
    show "sound off ?c m k" if "k \<in> knows (lc_nodes ?c m)" for m k
      using that kn as old [OF d(2)] by (cases "m = n") (auto simp: sel(1))
    show "sound off ?c m k" if "lc_reads ?c m = Some x" "k \<in> set (rd_locks x)" for m x k using that old [OF d(3)] by (simp add: sel(3))
    show "sound off ?c m (lockFromAPI (clock off ?c m) a)" if "(m, a) \<in> set (lc_answers ?c)" for m a
      using that an old [OF d(4), of m a] unfolding rg sel(7) by auto
    show "j \<in> lc_freed ?c" if "has_key (tb_released (ln_table (lc_nodes ?c m))) j" for m j
      using that d(5) [of m j] by (cases "m = n") (simp_all add: sel(1,2,5))
  qed
  moreover have "one_speaker N ?c" using safeD(2) [OF s] unfolding one_speaker_def rg sel .
  moreover have rem: "in_force c g" "fst g \<noteq> rq_Name r" if g: "in_force ?c g" "g \<noteq> ?g" for g
  proof -
    show f: "in_force c g" using g by (auto simp: in_force_def sel)
    obtain h where "locks_at ?nd (fst g) = Some h" "backs off n g h"
      using rememberedD(1) [OF safeD(3) [OF s f] rb] by (auto simp: lists_def)
    then show "fst g \<noteq> rq_Name r" using none backs_live [OF f] by auto
  qed
  moreover have "remembered off N ?c g" if g: "in_force ?c g" for g
  proof (rule rememberedI)
    show "(\<exists>m \<in> set N. carries off ?c m g) \<or> (\<exists>m \<in> set N. rebuilt ?c m)" using rb n unfolding rg by blast
    show "(\<exists>l \<in> set (rd_locks x). backs off m g l) \<or> (\<exists>m \<in> set (rd_todo x). carries off ?c m g)"
      if "lc_reads ?c m = Some x" "rd_generation x = generation ?c m" "\<not> rebuilt ?c m" for m x
      using that speaker [of m] rb unfolding rg sel speaks_iff by blast
    show "lists off ?c m g" if "rebuilt ?c m" for m
    proof -
      have m: "m = n" using that speaker unfolding rg speaks_iff by blast
      show ?thesis
      proof (cases "g = ?g")
        case True
        then show ?thesis by (simp add: m lists_def sel(1,2) update_conv backs_def l clock_def)
      next
        case False
        with rememberedD(1) [OF safeD(3) [OF s rem(1) [OF g False]] rb] rem(2) [OF g False]
        show ?thesis by (auto simp: m lists_def sel(1,2) update_conv)
      qed
    qed
  qed
  moreover have "exclusive ?c"
  proof -
    have "g = g'" if "in_force ?c g" "in_force ?c g'" "fst g = fst g'" for g g'
      using that rem [of g] rem [of g'] safeD(4) [OF s] unfolding exclusive_def by (metis fst_conv)
    then show ?thesis using safeD(4) [OF s] i unfolding exclusive_def by (auto simp: sel)
  qed
  ultimately show ?thesis unfolding safe_def by blast
qed

text \<open>The stages of a rebuild.\<close>

lemma set_read_frame:
  "rebuilt (set_read n x c) m = rebuilt c m" "generation (set_read n x c) m = generation c m"
  "sound off (set_read n x c) m l = sound off c m l" "clock off (set_read n x c) m = clock off c m"
  "lists off (set_read n x c) m g = lists off c m g" "carries off (set_read n x c) m g = carries off c m g"
  "in_force (set_read n x c) = in_force c"
  by (simp_all add: rebuilt_def generation_def sound_def clock_def lists_def carries_def in_force_def fun_eq_iff)

lemma safe_set_read:
  assumes s: "safe off N c" and n: "n \<in> set N" and nr: "\<not> rebuilt c n"
    and r: "\<And>r. x = Some r \<Longrightarrow> rd_generation r \<le> generation c n \<and> set (rd_todo r) \<subseteq> set N \<and> (\<forall>l \<in> set (rd_locks r). sound off c n l)"
    and alone: "\<And>r m. x = Some r \<Longrightarrow> rd_generation r = generation c n \<Longrightarrow> speaks c m \<Longrightarrow> m = n"
    and cover: "\<And>r g. x = Some r \<Longrightarrow> rd_generation r = generation c n \<Longrightarrow> in_force c g
      \<Longrightarrow> (\<exists>l \<in> set (rd_locks r). backs off n g l) \<or> (\<exists>m \<in> set (rd_todo r). carries off c m g)"
  shows "safe off N (set_read n x c)"
proof -
  let ?c = "set_read n x c"
  note d = all_soundD [OF safeD(1) [OF s]] and o = one_speakerD [OF safeD(2) [OF s]] and sel = set_read_frame [where n = n and x = x and c = c]
  have sp: "speaks ?c m \<longleftrightarrow> (if m = n then (\<exists>r. x = Some r \<and> rd_generation r = generation c n) else speaks c m)" for m
    using nr by (auto simp: speaks_iff sel)
  have "all_sound off ?c"
    by (rule all_soundI) (use d r in \<open>auto simp: sel split: if_splits\<close>)
  moreover have "one_speaker N ?c"
  proof -
    have "m = k" if "m \<in> set N" "k \<in> set N" "speaks ?c m" "speaks ?c k" for m k
      using that o(1) [OF that(1,2)] alone unfolding sp by (auto split: if_splits)
    then show ?thesis
      unfolding one_speaker_def using o(2,3) r n nr by (auto simp: sel split: if_splits)
  qed
  moreover have "remembered off N ?c g" if g: "in_force ?c g" for g
  proof -
    note m = rememberedD [OF safeD(3) [OF s g [unfolded sel]]]
    show ?thesis
      by (rule rememberedI) (use m cover g in \<open>auto simp: sel split: if_splits\<close>)
  qed
  moreover have "exclusive ?c" using safeD(4) [OF s] by (rule exclusive_mono) (simp_all add: sel)
  ultimately show ?thesis unfolding safe_def by blast
qed

lemma set_node_frame:
  "sound off (set_node n nd c) m l = sound off c m l" "clock off (set_node n nd c) m = clock off c m"
  "in_force (set_node n nd c) = in_force c" "m \<noteq> n \<Longrightarrow> carries off (set_node n nd c) m g = carries off c m g"
  by (simp_all add: sound_def clock_def carries_def in_force_def fun_eq_iff)

lemma safe_listed:
  assumes "safe off N c"
  shows "safe off N (set_node m (snd (node_locks (clock off c m) (lc_nodes c m))) c)"
    "rebuilt (set_node m (snd (node_locks (clock off c m) (lc_nodes c m))) c) k = rebuilt c k"
    "generation (set_node m (snd (node_locks (clock off c m) (lc_nodes c m))) c) k = generation c k"
    "speaks (set_node m (snd (node_locks (clock off c m) (lc_nodes c m))) c) k = speaks c k"
proof -
  note q = quietly_node_locks [OF all_soundD(1) [OF safeD(1) [OF assms]], of "clock off c m" "lc_freed c" m]
  show "safe off N (set_node m (snd (node_locks (clock off c m) (lc_nodes c m))) c)" by (rule safe_quiet [OF assms q]) simp
  show r: "rebuilt (set_node m (snd (node_locks (clock off c m) (lc_nodes c m))) c) k = rebuilt c k"
    "generation (set_node m (snd (node_locks (clock off c m) (lc_nodes c m))) c) k = generation c k" for k
    using quietlyD(1,2) [OF q] by (simp_all add: rebuilt_def generation_def)
  show "speaks (set_node m (snd (node_locks (clock off c m) (lc_nodes c m))) c) k = speaks c k" by (simp add: speaks_iff r)
qed

lemma carries_listed:
  assumes "safe off N c" and "in_force c g" and "carries off c m g"
  shows "\<exists>l \<in> set (fst (node_locks (clock off c m) (lc_nodes c m))). backs off m g l"
proof -
  obtain l where l: "former_at (lc_nodes c m) (fst g) = Some l" "backs off m g l" using assms(3) by (auto simp: carries_def)
  then show ?thesis
    using set_node_locks(2) [OF all_soundD(1) [OF safeD(1) [OF assms(1)]] l(1)] backs_live [OF assms(2) l(2)] by blast
qed

lemma safe_begin:
  assumes s: "safe off N c" and n: "n \<in> set N" and nr: "\<not> rebuilt c n"
    and alone: "\<And>m. m \<in> set N \<Longrightarrow> m \<noteq> n \<Longrightarrow> \<not> speaks c m"
  shows "safe off N (cl_begin off N n c)"
proof -
  let ?l = "node_locks (clock off c n) (lc_nodes c n)"
  let ?c = "set_node n (snd ?l) c"
  let ?r = "\<lparr>rd_generation = generation c n, rd_todo = filter (\<lambda>m. m \<noteq> n) N, rd_locks = fst ?l\<rparr>"
  note l = safe_listed [OF s, where m = n] and o = one_speakerD [OF safeD(2) [OF s]]
  have "safe off N (set_read n (Some ?r) ?c)"
  proof (rule safe_set_read [OF l(1) n])
    show "\<not> rebuilt ?c n" using nr by (simp add: l)
    show "rd_generation r \<le> generation ?c n \<and> set (rd_todo r) \<subseteq> set N \<and> (\<forall>k \<in> set (rd_locks r). sound off ?c n k)"
      if "Some ?r = Some r" for r
      using that set_node_locks(1) [OF all_soundD(1) [OF safeD(1) [OF s]], of "clock off c n" n]
        all_soundD(2) [OF safeD(1) [OF s], of _ n] by (auto simp: l set_node_frame)
    show "m = n" if "speaks ?c m" for r m using that alone o(4) unfolding l by blast
    show "(\<exists>k \<in> set (rd_locks r). backs off n g k) \<or> (\<exists>m \<in> set (rd_todo r). carries off ?c m g)"
      if "Some ?r = Some r" "in_force ?c g" for r g
    proof -
      have g: "in_force c g" using that(2) by (simp add: set_node_frame)
      have "\<not> rebuilt c m" if "m \<in> set N" for m using alone [OF that] nr by (cases "m = n") (simp_all add: speaks_iff)
      then obtain m where m: "m \<in> set N" "carries off c m g" using rememberedD(2) [OF safeD(3) [OF s g]] by blast
      show ?thesis
        using that(1) m carries_listed [OF s g] by (cases "m = n") (auto simp: set_node_frame)
    qed
  qed
  then show ?thesis by (simp add: cl_begin_def case_prod_unfold Generation_def generation_def)
qed

lemma rebase_sound:
  assumes "0 \<le> d"
  shows "sound off c m l \<Longrightarrow> sound off c n (lockFromAPI (clock off c n + d) (lockToAPI (clock off c m) l))"
    "backs off m g l \<Longrightarrow> backs off n g (lockFromAPI (clock off c n + d) (lockToAPI (clock off c m) l))"
  using assms by (auto simp: sound_def backs_def lockFromAPI_def lockToAPI_def clock_def split: prod.splits)

lemma safe_read:
  assumes s: "safe off N c" and n: "n \<in> set N" and r: "lc_reads c n = Some r" and todo: "rd_todo r \<noteq> []" and d: "0 \<le> d"
  shows "safe off N (cl_read off d n r c)"
proof -
  let ?m = "hd (rd_todo r)"
  let ?l = "node_locks (clock off c ?m) (lc_nodes c ?m)"
  let ?c = "set_node ?m (snd ?l) c" and ?f = "\<lambda>l. lockFromAPI (clock off c n + d) (lockToAPI (clock off c ?m) l)"
  let ?r = "r\<lparr>rd_todo := tl (rd_todo r), rd_locks := rd_locks r @ map ?f (fst ?l)\<rparr>"
  note l = safe_listed [OF s, where m = ?m] and o = one_speakerD [OF safeD(2) [OF s]] and a = all_soundD [OF safeD(1) [OF s]]
  have "safe off N (set_read n (Some ?r) ?c)"
  proof (rule safe_set_read [OF l(1) n])
    show "\<not> rebuilt ?c n" using o(2) [OF r] by (simp add: l)
    show "rd_generation x \<le> generation ?c n \<and> set (rd_todo x) \<subseteq> set N \<and> (\<forall>k \<in> set (rd_locks x). sound off ?c n k)"
      if "Some ?r = Some x" for x
    proof -
      have "sound off c n (?f k)" if "k \<in> set (fst ?l)" for k
        using rebase_sound(1) [OF d a(2)] set_node_locks(1) [OF a(1)] that by blast
      moreover have "set (tl (rd_todo r)) \<subseteq> set N" using o(2) [OF r] todo by (cases "rd_todo r") auto
      ultimately show ?thesis using that o(2) [OF r] a(3) [OF r] by (auto simp: l set_node_frame)
    qed
    show "m = n" if "Some ?r = Some x" "rd_generation x = generation ?c n" "speaks ?c m" for x m
    proof -
      have "speaks c n" using that(1,2) r by (auto simp: speaks_iff l)
      then show ?thesis using that(3) o(1) [OF o(4) n] unfolding l by blast
    qed
    show "(\<exists>k \<in> set (rd_locks x). backs off n g k) \<or> (\<exists>m \<in> set (rd_todo x). carries off ?c m g)"
      if "Some ?r = Some x" "rd_generation x = generation ?c n" "in_force ?c g" for x g
    proof -
      have g: "in_force c g" using that(3) by (simp add: set_node_frame)
      have x: "x = ?r" using that(1) by simp
      have "rd_generation r = generation c n" using that(2) x by (simp add: l)
      from rememberedD(3) [OF safeD(3) [OF s g] r this] o(2) [OF r]
      consider k where "k \<in> set (rd_locks r)" "backs off n g k" | "carries off c ?m g"
        | m where "m \<in> set (tl (rd_todo r))" "m \<noteq> ?m" "carries off c m g"
        using todo by (cases "rd_todo r") auto
      then show ?thesis
      proof cases
        case 1
        then show ?thesis unfolding x by auto
      next
        case 2
        from carries_listed [OF s g this] obtain k where "k \<in> set (fst ?l)" "backs off n g (?f k)"
          using rebase_sound(2) [OF d] by blast
        then show ?thesis unfolding x by auto
      next
        case 3
        then have "carries off ?c m g" by (simp add: set_node_frame)
        with 3(1) show ?thesis unfolding x by auto
      qed
    qed
  qed
  then show ?thesis by (simp add: cl_read_def GetNodeLocks_def case_prod_unfold comp_def)
qed

text \<open>The table a rebuild makes.\<close>

definition kept :: "time \<Rightarrow> (nat, time) gomap \<Rightarrow> lock \<Rightarrow> bool" where
  "kept now released l = (live now l \<and> \<not> has_key released (lk_ID l))"

lemma rebuild_lock_cases:
  obtains "fst (rebuild_lock now rel acc l) = fst acc" "\<not> kept now rel l"
  | h where "fst (rebuild_lock now rel acc l) = fst acc" "kept now rel l" "map_of (fst acc) (lk_Name l) = Some h" "lk_ID h \<noteq> lk_ID l"
  | "fst (rebuild_lock now rel acc l) = AList.update (lk_Name l) l (fst acc)" "kept now rel l"
proof (cases "kept now rel l")
  case False
  then show ?thesis by (intro that(1)) (auto simp: rebuild_lock_def kept_def case_prod_unfold)
next
  case True
  then have e: "live now l" "\<not> has_key rel (lk_ID l)" by (simp_all add: kept_def)
  show ?thesis
  proof (cases "\<exists>h. map_of (fst acc) (lk_Name l) = Some h \<and> lk_ID h \<noteq> lk_ID l \<and> lk_ExpiresAt l \<le> lk_ExpiresAt h")
    case True
    then obtain h where "map_of (fst acc) (lk_Name l) = Some h" "lk_ID h \<noteq> lk_ID l" "lk_ExpiresAt l \<le> lk_ExpiresAt h" by blast
    with \<open>kept now rel l\<close> show ?thesis by (intro that(2)) (simp_all add: rebuild_lock_def case_prod_unfold)
  next
    case False
    with e \<open>kept now rel l\<close> show ?thesis
      by (intro that(3)) (auto simp: rebuild_lock_def case_prod_unfold split: option.splits)
  qed
qed

lemma rebuild_fold:
  assumes "named (fst acc)"
  shows "named (fst (foldl (rebuild_lock now rel) acc ls))"
    "ran (map_of (fst (foldl (rebuild_lock now rel) acc ls))) \<subseteq> ran (map_of (fst acc)) \<union> set ls"
proof -
  have "named (fst (foldl (rebuild_lock now rel) acc ls))
      \<and> ran (map_of (fst (foldl (rebuild_lock now rel) acc ls))) \<subseteq> ran (map_of (fst acc)) \<union> set ls"
    using assms
  proof (induction ls arbitrary: acc)
    case Nil
    then show ?case by simp
  next
    case (Cons l ls)
    have "named (fst (rebuild_lock now rel acc l)) \<and> ran (map_of (fst (rebuild_lock now rel acc l))) \<subseteq> insert l (ran (map_of (fst acc)))"
      using Cons.prems ran_update [of "lk_Name l" l "fst acc"]
      by (cases rule: rebuild_lock_cases [of now rel acc l]) (auto simp: named_update)
    then show ?case using Cons.IH [of "rebuild_lock now rel acc l"] by auto
  qed
  then show "named (fst (foldl (rebuild_lock now rel) acc ls))"
    "ran (map_of (fst (foldl (rebuild_lock now rel) acc ls))) \<subseteq> ran (map_of (fst acc)) \<union> set ls" by blast+
qed

text \<open>A name only one lock kept is for, however many nodes say it.\<close>

lemma rebuild_one:
  assumes "\<And>l. l \<in> set ls \<Longrightarrow> kept now rel l \<Longrightarrow> lk_Name l = name \<Longrightarrow> lk_ID l = i"
    and "\<And>h. map_of (fst acc) name = Some h \<Longrightarrow> lk_ID h = i"
    and "(\<exists>l \<in> set ls. kept now rel l \<and> lk_Name l = name) \<or> map_of (fst acc) name \<noteq> None"
  shows "\<exists>h. map_of (fst (foldl (rebuild_lock now rel) acc ls)) name = Some h \<and> lk_ID h = i"
  using assms
proof (induction ls arbitrary: acc)
  case Nil
  then show ?case by auto
next
  case (Cons l ls)
  let ?a = "rebuild_lock now rel acc l"
  have "\<exists>h. map_of (fst (foldl (rebuild_lock now rel) ?a ls)) name = Some h \<and> lk_ID h = i"
  proof (rule Cons.IH)
    show "lk_ID k = i" if "k \<in> set ls" "kept now rel k" "lk_Name k = name" for k using Cons.prems(1) that by simp
    show "lk_ID h = i" if h: "map_of (fst ?a) name = Some h" for h
      using Cons.prems(1,2) h by (cases rule: rebuild_lock_cases [of now rel acc l]) (auto simp: update_conv split: if_splits)
    show "(\<exists>k \<in> set ls. kept now rel k \<and> lk_Name k = name) \<or> map_of (fst ?a) name \<noteq> None"
      using Cons.prems by (cases rule: rebuild_lock_cases [of now rel acc l]) (auto simp: update_conv split: if_splits)
  qed
  then show ?case by simp
qed

lemma Rebuild_cases:
  obtains "snd (Rebuild now g ls t) = t" "g \<noteq> tb_generation t"
  | "g = tb_generation t" "tb_rebuilt (snd (Rebuild now g ls t))" "tb_generation (snd (Rebuild now g ls t)) = tb_generation t"
    "tb_former (snd (Rebuild now g ls t)) = tb_former t"
    "tb_released (snd (Rebuild now g ls t)) = tb_released (pruneReleased now t)"
    "tb_locks (snd (Rebuild now g ls t)) = fst (foldl (rebuild_lock now (tb_released (pruneReleased now t))) ([], []) ls)"
  by (cases "g = tb_generation t") (simp_all add: Rebuild_def pruneReleased_def Let_def case_prod_unfold)

lemma safe_end:
  assumes s: "safe off N c" and n: "n \<in> set N" and r: "lc_reads c n = Some r" and todo: "rd_todo r = []"
    and news: "current_news off c n r"
  shows "safe off N (cl_end off n r c)"
proof -
  let ?now = "clock off c n" and ?nd = "lc_nodes c n"
  let ?t = "snd (Rebuild ?now (rd_generation r) (rd_locks r) (ln_table ?nd))" and ?rel = "tb_released (pruneReleased ?now (ln_table ?nd))"
  note o = one_speakerD [OF safeD(2) [OF s]] and a = all_soundD [OF safeD(1) [OF s]]
  show ?thesis
  proof (cases rule: Rebuild_cases [where now = ?now and g = "rd_generation r" and ls = "rd_locks r" and t = "ln_table ?nd"])
    case 1
    have "safe off N (set_read n None c)"
      by (rule safe_set_read [OF s n]) (use o(2) [OF r] in auto)
    moreover have "cl_end off n r c = set_read n None c" by (simp add: cl_end_def 1(1) set_node_def set_read_def)
    ultimately show ?thesis by simp
  next
    case 2
    let ?nd' = "?nd\<lparr>ln_table := ?t\<rparr>"
    have spn: "speaks c n" using r 2(1) by (simp add: speaks_iff generation_def)
    have speaker: "m = n" if "speaks c m" for m by (rule o(1) [OF o(4) [OF that] n that spn])
    have sel: "lc_nodes (cl_end off n r c) = (lc_nodes c)(n := ?nd')" "lc_reads (cl_end off n r c) = (lc_reads c)(n := None)"
      "lc_answers (cl_end off n r c) = lc_answers c" "lc_grants (cl_end off n r c) = lc_grants c" "lc_freed (cl_end off n r c) = lc_freed c"
      "lc_now (cl_end off n r c) = lc_now c"
      by (simp_all add: cl_end_def)
    have rg: "generation (cl_end off n r c) m = generation c m" "clock off (cl_end off n r c) m = clock off c m"
      "rebuilt (cl_end off n r c) m \<longleftrightarrow> m = n" for m
    proof -
      show "generation (cl_end off n r c) m = generation c m" using 2(3) by (simp add: generation_def sel(1))
      show "clock off (cl_end off n r c) m = clock off c m" by (simp add: clock_def sel(6))
      have "\<not> rebuilt c m" if "m \<noteq> n" using speaker [of m] that unfolding speaks_iff by blast
      then show "rebuilt (cl_end off n r c) m \<longleftrightarrow> m = n" using 2(2) by (cases "m = n") (simp_all add: rebuilt_def sel(1))
    qed
    have sp: "speaks (cl_end off n r c) m \<longleftrightarrow> m = n" for m
      using speaker [of m] unfolding speaks_iff rg sel(2) by (cases "m = n") auto
    have f: "in_force (cl_end off n r c) = in_force c" by (rule in_force_cong) (simp_all add: sel)
    have sg: "sound off (cl_end off n r c) m l = sound off c m l" for m l by (rule sound_cong) (simp add: sel)
    have fold: "named (tb_locks ?t)" "ran (map_of (tb_locks ?t)) \<subseteq> set (rd_locks r)"
      using rebuild_fold [of "([], [])" ?now ?rel "rd_locks r"] unfolding 2(6) by simp_all
    have held: "lists off (cl_end off n r c) n g" if g: "in_force c g" for g
    proof -
      obtain name i x where gx: "g = (name, i, x)" by (cases g)
      have free: "\<not> has_key ?rel i" using a(5) [of n i] g by (auto simp: pruneReleased_def gx in_force_def dest: has_key_filter)
      from rememberedD(3) [OF safeD(3) [OF s g] r] o(2) [OF r] 2(1) todo
      obtain l where l: "l \<in> set (rd_locks r)" "backs off n g l" by (auto simp: generation_def)
      have one: "lk_ID k = i" if k: "k \<in> set (rd_locks r)" "kept ?now ?rel k" "lk_Name k = name" for k
      proof -
        obtain g' where g': "in_force c g'" "fst (snd g') = lk_ID k"
          using news k(1,2) unfolding current_news_def kept_def list_all_iff list_ex_iff by blast
        then have "fst g' = lk_Name k" using a(3) [OF r k(1)] by (auto simp: sound_def in_force_def)
        then have "g' = g" using exclusiveD [OF safeD(4) [OF s] g'(1) g] k(3) by (simp add: gx)
        then show ?thesis using g'(2) by (simp add: gx)
      qed
      have "kept ?now ?rel l \<and> lk_Name l = name" using l(2) backs_live [OF g l(2)] free by (simp add: kept_def gx backs_def)
      then obtain h where h: "map_of (tb_locks ?t) name = Some h" "lk_ID h = i"
        using rebuild_one [of "rd_locks r" ?now ?rel name i "([], [])"] one l(1) unfolding 2(6) by auto
      then have "sound off c n h" using fold(2) a(3) [OF r] by (auto simp: ran_def)
      then have "lk_Name h = name \<and> x + off n \<le> lk_ExpiresAt h" using g h(2) by (auto simp: sound_def in_force_def gx)
      then show ?thesis using h by (simp add: lists_def sel gx backs_def)
    qed
    have "all_sound off (cl_end off n r c)"
    proof (rule all_soundI)
      show "wf_node (lc_nodes (cl_end off n r c) m)" for m
        using a(1) [of m] fold(1) 2(2,4) by (cases "m = n") (simp_all add: sel wf_node_def)
      show "sound off (cl_end off n r c) m l" if "l \<in> knows (lc_nodes (cl_end off n r c) m)" for m l
        using that a(2) [of l m] a(3) [OF r, of l] fold(2) unfolding sg by (cases "m = n") (auto simp: sel knows_def 2(4))
      show "sound off (cl_end off n r c) m l" if "lc_reads (cl_end off n r c) m = Some x" "l \<in> set (rd_locks x)" for m x l
        using that a(3) unfolding sg by (auto simp: sel split: if_splits)
      show "sound off (cl_end off n r c) m (lockFromAPI (clock off (cl_end off n r c) m) b)" if "(m, b) \<in> set (lc_answers (cl_end off n r c))" for m b
        using that a(4) unfolding sg rg sel by blast
      show "j \<in> lc_freed (cl_end off n r c)" if "has_key (tb_released (ln_table (lc_nodes (cl_end off n r c) m))) j" for m j
        using that a(5) [of m j] by (cases "m = n") (auto simp: sel 2(5) pruneReleased_def dest: has_key_filter)
    qed
    moreover have "one_speaker N (cl_end off n r c)"
      unfolding one_speaker_def sp rg sel(2) using o(2) n by (simp split: if_splits) blast
    moreover have "remembered off N (cl_end off n r c) g" if g: "in_force c g" for g
    proof (rule rememberedI)
      show "lists off (cl_end off n r c) m g" if "rebuilt (cl_end off n r c) m" for m using that held [OF g] unfolding rg by simp
      show "(\<exists>m \<in> set N. carries off (cl_end off n r c) m g) \<or> (\<exists>m \<in> set N. rebuilt (cl_end off n r c) m)"
        using n unfolding rg by blast
      show "(\<exists>l \<in> set (rd_locks x). backs off m g l) \<or> (\<exists>m \<in> set (rd_todo x). carries off (cl_end off n r c) m g)"
        if "lc_reads (cl_end off n r c) m = Some x" "rd_generation x = generation (cl_end off n r c) m" for m x
      proof -
        have "lc_reads c m = Some x" "m \<noteq> n" using that(1) by (auto simp: sel(2) split: if_splits)
        then show ?thesis using speaker [of m] that(2) unfolding speaks_iff rg by blast
      qed
    qed
    moreover have "exclusive (cl_end off n r c)" using safeD(4) [OF s] by (rule exclusive_mono) (simp_all add: f sel)
    ultimately show ?thesis unfolding safe_def f by blast
  qed
qed

section \<open>A lock has one holder\<close>

lemma safe_step:
  assumes "lock_step off N (current_news off) c c'" and s: "safe off N c"
  shows "safe off N c'"
  using assms(1)
proof cases
  case (ticks d)
  then show ?thesis using safe_tick [OF s] by simp
next
  case (grants n i r)
  then show ?thesis using safe_grant [OF s] by simp
next
  case (records a)
  obtain m item where a: "a = (m, item)" by (cases a)
  have "safe off N (set_node m ((lc_nodes c m)\<lparr>ln_held := held_Add (lockFromAPI (clock off c m) item) (ln_held (lc_nodes c m))\<rparr>) c)"
    by (rule safe_quiet [OF s quietly_held_Add [OF all_soundD(1) [OF safeD(1) [OF s]]]])
      (use records(2) all_soundD(4) [OF safeD(1) [OF s]] in \<open>simp add: a\<close>)
  from safe_answers [OF this, of "remove1 a (lc_answers c)"] show ?thesis
    using records set_remove1_subset [of a "lc_answers c"] by (simp add: cl_record_def a)
next
  case (lets_go m name i)
  have "safe off N (set_node m ((lc_nodes c m)\<lparr>ln_held := held_Remove name i (ln_held (lc_nodes c m))\<rparr>) c)"
    by (rule safe_quiet [OF s quietly_held_Remove [OF all_soundD(1) [OF safeD(1) [OF s]]]]) simp
  from safe_free [OF this, of i] show ?thesis by (simp add: lets_go cl_let_go_def)
next
  case (releases i n name)
  show ?thesis unfolding releases cl_release_def
    by (rule safe_quiet [OF s quietly_Release [OF all_soundD(1) [OF safeD(1) [OF s]] releases(2)]]) simp
next
  case (forgets i n name)
  show ?thesis unfolding forgets cl_forget_def
    by (rule safe_quiet [OF s quietly_DeleteNodeLock [OF all_soundD(1) [OF safeD(1) [OF s]] forgets(2)]]) simp
next
  case (drops n)
  then show ?thesis using safe_drop [OF s] by (simp add: generation_def)
next
  case (begins n)
  then have "\<not> speaks c m" if "m \<in> set N" "m \<noteq> n" for m using that by (simp add: list_all_iff)
  then show ?thesis using safe_begin [OF s begins(2)] begins by (simp add: rebuilt_def IsRebuilt_def)
next
  case (reads n r d)
  then show ?thesis using safe_read [OF s] by simp
next
  case (ends n r)
  then show ?thesis using safe_end [OF s] by simp
qed

lemma safe_start: "safe off N (lock_start now)"
proof -
  let ?c = "lock_start now"
  have r: "\<not> rebuilt ?c m" "\<not> speaks ?c m" for m by (simp_all add: rebuilt_def speaks_iff lock_start_def NewTable_def)
  have "all_sound off ?c"
    by (rule all_soundI)
      (auto simp: lock_start_def NewTable_def NewHeld_def wf_node_def knows_def has_key_def)
  moreover have "one_speaker N ?c" using r by (auto simp: one_speaker_def) (simp_all add: lock_start_def)
  moreover have "\<not> in_force ?c g" for g by (simp add: in_force_def lock_start_def)
  moreover have "exclusive ?c" using calculation(3) by (auto simp: exclusive_def) (simp add: lock_start_def)
  ultimately show ?thesis unfolding safe_def by blast
qed


section \<open>A late word of a release\<close>

text \<open>Two nodes whose clocks agree, and a rebuild run from its beginning to its end.\<close>

definition demo_off :: offsets where
  "demo_off _ = 0"

definition demo_peers :: "string list" where
  "demo_peers = [''n1'', ''n2'']"

definition demo_began :: "string \<Rightarrow> lock_cluster \<Rightarrow> lock_cluster" where
  "demo_began n c = cl_begin demo_off demo_peers n c"

definition demo_read :: "string \<Rightarrow> lock_cluster \<Rightarrow> lock_cluster" where
  "demo_read n c = cl_read demo_off 0 n (the (lc_reads c n)) c"

definition demo_ended :: "string \<Rightarrow> lock_cluster \<Rightarrow> lock_cluster" where
  "demo_ended n c = cl_end demo_off n (the (lc_reads c n)) c"

definition demo_rebuild :: "string \<Rightarrow> lock_cluster \<Rightarrow> lock_cluster" where
  "demo_rebuild n c = demo_ended n (demo_read n (demo_began n c))"

definition demo_may_rebuild :: "(lock_cluster \<Rightarrow> string \<Rightarrow> reading \<Rightarrow> bool) \<Rightarrow> string \<Rightarrow> lock_cluster \<Rightarrow> bool" where
  "demo_may_rebuild news n c =
    (let b = demo_began n c; r = demo_read n b
     in n \<in> set demo_peers \<and> lc_reads c n = None \<and> \<not> IsRebuilt (ln_table (lc_nodes c n))
        \<and> list_all (\<lambda>m. \<not> speaks c m) (filter (\<lambda>m. m \<noteq> n) demo_peers)
        \<and> lc_reads b n \<noteq> None \<and> rd_todo (the (lc_reads b n)) \<noteq> []
        \<and> lc_reads r n \<noteq> None \<and> rd_todo (the (lc_reads r n)) = [] \<and> news r n (the (lc_reads r n)))"

lemma demo_rebuild_steps:
  assumes z: "(lock_step demo_off demo_peers news)\<^sup>*\<^sup>* z c" and ok: "demo_may_rebuild news n c"
  shows "(lock_step demo_off demo_peers news)\<^sup>*\<^sup>* z (demo_rebuild n c)"
proof -
  let ?b = "demo_began n c" and ?r = "demo_read n (demo_began n c)"
  have n: "n \<in> set demo_peers" using ok by (simp add: demo_may_rebuild_def Let_def)
  have "lock_step demo_off demo_peers news c ?b"
    unfolding demo_began_def by (rule lock_step.begins) (use ok in \<open>simp_all add: demo_may_rebuild_def Let_def\<close>)
  moreover have "lock_step demo_off demo_peers news ?b ?r"
    unfolding demo_read_def [of n ?b] by (rule lock_step.reads [OF n]) (use ok in \<open>simp_all add: demo_may_rebuild_def Let_def\<close>)
  moreover have "lock_step demo_off demo_peers news ?r (demo_rebuild n c)"
    unfolding demo_rebuild_def demo_ended_def [of n ?r]
    by (rule lock_step.ends [OF n]) (use ok in \<open>simp_all add: demo_may_rebuild_def Let_def\<close>)
  ultimately show ?thesis using z by (meson rtranclp.rtrancl_into_rtrancl)
qed

definition demo_ask :: "duration \<Rightarrow> lock_request" where
  "demo_ask lease = \<lparr>rq_Name = ''pool'', rq_Node = ''n2'', rq_Holder = ''claim'', rq_Lease = lease, rq_Wait = 0\<rparr>"

text \<open>A lock granted by the first node, before and after the second takes the speaking over.\<close>

definition demo_granted :: lock_cluster where
  "demo_granted = cl_drop ''n1'' (cl_grant demo_off ''n1'' 1 (demo_ask 100) (demo_rebuild ''n1'' (lock_start 0)))"

definition demo_taken :: lock_cluster where
  "demo_taken = demo_rebuild ''n2'' demo_granted"

lemma demo_granted_steps:
  assumes "demo_may_rebuild news ''n1'' (lock_start 0)"
  shows "(lock_step demo_off demo_peers news)\<^sup>*\<^sup>* (lock_start 0) demo_granted"
proof -
  let ?c = "demo_rebuild ''n1'' (lock_start 0)"
  let ?g = "cl_grant demo_off ''n1'' 1 (demo_ask 100) ?c"
  have "(lock_step demo_off demo_peers news)\<^sup>*\<^sup>* (lock_start 0) ?c" by (rule demo_rebuild_steps [OF rtranclp.rtrancl_refl assms])
  moreover have "lock_step demo_off demo_peers news ?c ?g" by (rule lock_step.grants; code_simp)
  moreover have "lock_step demo_off demo_peers news ?g demo_granted"
    unfolding demo_granted_def by (rule lock_step.drops; code_simp)
  ultimately show ?thesis by (meson rtranclp.rtrancl_into_rtrancl)
qed


text \<open>
  The run: the lock is released while the second node speaks, and granted again for a shorter time.
  The first node takes the speaking back before it hears of the release: it rebuilds its table with
  the lock it granted, whose lease is the longer one, and drops the one in force as a conflict. The
  word of the release then frees the name.
\<close>

definition demo_again :: lock_cluster where
  "demo_again = cl_drop ''n2'' (cl_grant demo_off ''n2'' 2 (demo_ask 50)
    (cl_release demo_off ''n2'' ''pool'' 1 (cl_let_go ''n2'' ''pool'' 1 demo_taken)))"

definition demo_twice :: lock_cluster where
  "demo_twice = cl_grant demo_off ''n1'' 3 (demo_ask 100) (cl_forget demo_off ''n1'' ''pool'' 1 (demo_rebuild ''n1'' demo_again))"

lemma demo_again_steps: "(lock_step demo_off demo_peers (\<lambda>_ _ _. True))\<^sup>*\<^sup>* demo_taken demo_again"
proof -
  let ?l = "cl_let_go ''n2'' ''pool'' 1 demo_taken"
  let ?r = "cl_release demo_off ''n2'' ''pool'' 1 ?l"
  let ?g = "cl_grant demo_off ''n2'' 2 (demo_ask 50) ?r"
  have "lock_step demo_off demo_peers (\<lambda>_ _ _. True) demo_taken ?l" by (rule lock_step.lets_go)
  moreover have "lock_step demo_off demo_peers (\<lambda>_ _ _. True) ?l ?r" by (rule lock_step.releases) (simp add: cl_let_go_def)
  moreover have "lock_step demo_off demo_peers (\<lambda>_ _ _. True) ?r ?g" by (rule lock_step.grants; code_simp)
  moreover have "lock_step demo_off demo_peers (\<lambda>_ _ _. True) ?g demo_again" unfolding demo_again_def by (rule lock_step.drops; code_simp)
  ultimately show ?thesis by (meson rtranclp.rtrancl_into_rtrancl rtranclp.rtrancl_refl)
qed

text \<open>
  The news must be current: when the word of a release comes after a rebuild, a lock can be
  granted while another grant of the same name is in force, at the third change of speaker.
\<close>

theorem late_release_breaks_exclusion:
  "(lock_step demo_off demo_peers (\<lambda>_ _ _. True))\<^sup>*\<^sup>* (lock_start 0) demo_twice
    \<and> in_force demo_twice (''pool'', 2, 50) \<and> in_force demo_twice (''pool'', 3, 100)"
proof (intro conjI)
  let ?S = "lock_step demo_off demo_peers (\<lambda>_ _ _. True)"
  have ok: "demo_may_rebuild (\<lambda>_ _ _. True) ''n1'' (lock_start 0)" "demo_may_rebuild (\<lambda>_ _ _. True) ''n2'' demo_granted"
    "demo_may_rebuild (\<lambda>_ _ _. True) ''n1'' demo_again" by code_simp+
  have "?S\<^sup>*\<^sup>* (lock_start 0) demo_taken"
    unfolding demo_taken_def using demo_rebuild_steps [OF demo_granted_steps] ok(1,2) by blast
  then have "?S\<^sup>*\<^sup>* (lock_start 0) demo_again" using demo_again_steps by (rule rtranclp_trans)
  then have "?S\<^sup>*\<^sup>* (lock_start 0) (demo_rebuild ''n1'' demo_again)" by (rule demo_rebuild_steps) (rule ok(3))
  moreover have "?S (demo_rebuild ''n1'' demo_again) (cl_forget demo_off ''n1'' ''pool'' 1 (demo_rebuild ''n1'' demo_again))"
    by (rule lock_step.forgets) code_simp
  moreover have "?S (cl_forget demo_off ''n1'' ''pool'' 1 (demo_rebuild ''n1'' demo_again)) demo_twice"
    unfolding demo_twice_def by (rule lock_step.grants; code_simp)
  ultimately show "?S\<^sup>*\<^sup>* (lock_start 0) demo_twice" by (meson rtranclp.rtrancl_into_rtrancl)
  show "in_force demo_twice (''pool'', 2, 50)" "in_force demo_twice (''pool'', 3, 100)" by code_simp+
qed

end
