(* ===== verification/Flagfile.thy ===== *)
theory Flagfile
  imports Status
begin

text \<open>
  The flag files of an object instance, \<open>core/flagfile/main.go\<close>, and the frozen flag with
  its scope, \<open>core/freeze/main.go\<close>. The presence of the file is the flag, its modification
  time is when the flag was raised, its content says more about the decision.

  A file system slot is the file at one path, or none, with a counter giving every file created
  at that path an identity of its own, as an open descriptor has. The operations take the lock
  of the flag, so each is one step; \<open>err\<close> stands for any failure of the file system, which each
  operation reports without having changed the flag.
\<close>

record flag =
  fl_id :: nat
  fl_mtime :: "time"
  fl_content :: string

record slot =
  sl_file :: "flag option"
  sl_next :: nat

definition flag_create :: "time \<Rightarrow> string \<Rightarrow> slot \<Rightarrow> slot" where
  "flag_create now b s =
    s\<lparr>sl_file := Some \<lparr>fl_id = sl_next s, fl_mtime = now, fl_content = b\<rparr>, sl_next := sl_next s + 1\<rparr>"

definition flag_SetWith :: "bool \<Rightarrow> time \<Rightarrow> string \<Rightarrow> slot \<Rightarrow> bool \<times> slot" where
  "flag_SetWith err now b s =
    (if sl_file s \<noteq> None then (False, s)
     else if err then (True, s)
     else (False, flag_create now b s))"

definition flag_Set :: "bool \<Rightarrow> time \<Rightarrow> slot \<Rightarrow> bool \<times> slot" where
  "flag_Set err now s = flag_SetWith err now [] s"

text \<open>\<open>Raise\<close> returns the identity of the file it created, none when the flag was raised already.\<close>

definition flag_Raise :: "bool \<Rightarrow> time \<Rightarrow> slot \<Rightarrow> (bool \<times> nat option) \<times> slot" where
  "flag_Raise err now s =
    (if err then ((True, None), s)
     else if sl_file s \<noteq> None then ((False, None), s)
     else ((False, Some (sl_next s)), flag_create now [] s))"

definition flag_unset :: "bool \<Rightarrow> slot \<Rightarrow> bool \<times> slot" where
  "flag_unset err s =
    (if sl_file s = None then (False, s)
     else if err then (True, s)
     else (False, s\<lparr>sl_file := None\<rparr>))"

definition flag_Lower :: "bool \<Rightarrow> nat \<Rightarrow> slot \<Rightarrow> bool \<times> slot" where
  "flag_Lower err i s =
    (if err then (True, s)
     else case sl_file s of
       None \<Rightarrow> (False, s)
     | Some f \<Rightarrow> if fl_id f \<noteq> i then (False, s) else flag_unset err s)"

definition flag_Content :: "slot \<Rightarrow> string" where
  "flag_Content s = (case sl_file s of None \<Rightarrow> [] | Some f \<Rightarrow> fl_content f)"

definition flag_Unset :: "bool \<Rightarrow> slot \<Rightarrow> bool \<times> slot" where
  "flag_Unset err s =
    (if sl_file s = None then (False, s)
     else if err then (True, s)
     else flag_unset err s)"

definition flag_At :: "slot \<Rightarrow> time" where
  "flag_At s = (case sl_file s of None \<Rightarrow> 0 | Some f \<Rightarrow> fl_mtime f)"

section \<open>The frozen flag\<close>

definition ScopeCluster :: string where "ScopeCluster = ''cluster''"
definition ScopeNode :: string where "ScopeNode = ''node''"
definition ScopeObject :: string where "ScopeObject = ''object''"
definition ScopeInstance :: string where "ScopeInstance = ''instance''"

definition Freeze :: "bool \<Rightarrow> time \<Rightarrow> slot \<Rightarrow> bool \<times> slot" where
  "Freeze err now s = flag_Set err now s"

definition FreezeScope :: "bool \<Rightarrow> time \<Rightarrow> string \<Rightarrow> slot \<Rightarrow> bool \<times> slot" where
  "FreezeScope err now scope s = flag_SetWith err now scope s"

definition Unfreeze :: "bool \<Rightarrow> slot \<Rightarrow> bool \<times> slot" where
  "Unfreeze err s = flag_Unset err s"

definition Frozen :: "slot \<Rightarrow> time" where
  "Frozen s = flag_At s"

definition ScopeOf :: "slot \<Rightarrow> string \<Rightarrow> string \<Rightarrow> string" where
  "ScopeOf s wide local =
    (if flag_At s = 0 then []
     else if TrimSpace (flag_Content s) = wide then wide
     else local)"

section \<open>Properties\<close>

text \<open>A slot whose files were all created by the operations: identities are below the counter.\<close>

definition slot_ok :: "slot \<Rightarrow> bool" where
  "slot_ok s \<longleftrightarrow> (case sl_file s of None \<Rightarrow> True | Some f \<Rightarrow> fl_id f < sl_next s)"

text \<open>One change of the flag, by anyone.\<close>

datatype flag_op = OpSetWith bool "time" string | OpRaise bool "time" | OpLower bool nat | OpUnset bool

fun flag_step :: "flag_op \<Rightarrow> slot \<Rightarrow> slot" where
  "flag_step (OpSetWith err now b) s = snd (flag_SetWith err now b s)"
| "flag_step (OpRaise err now) s = snd (flag_Raise err now s)"
| "flag_step (OpLower err i) s = snd (flag_Lower err i s)"
| "flag_step (OpUnset err) s = snd (flag_Unset err s)"

lemmas flag_defs = flag_SetWith_def flag_Raise_def flag_Lower_def flag_Unset_def flag_unset_def flag_create_def

lemma flag_step_mono: "sl_next s \<le> sl_next (flag_step op s)"
  by (cases op) (auto simp: flag_defs split: option.splits)

lemma flag_step_ok: "slot_ok s \<Longrightarrow> slot_ok (flag_step op s)"
  by (cases op) (auto simp: flag_defs slot_ok_def split: option.splits)

lemma flag_step_new_id:
  "sl_file (flag_step op s) = Some f \<Longrightarrow> sl_file s = Some f \<or> sl_next s \<le> fl_id f"
  by (cases op) (auto simp: flag_defs split: option.splits if_splits)

text \<open>A file is never created again once it is gone: a file with its identity is the same file.\<close>

lemma flag_steps_new_id:
  "slot_ok s \<Longrightarrow> sl_file (foldl (\<lambda>s op. flag_step op s) s ops) = Some f \<Longrightarrow>
    fl_id f < sl_next s \<Longrightarrow> sl_file s = Some f"
proof (induction ops arbitrary: s)
  case Nil
  then show ?case by simp
next
  case (Cons op ops)
  let ?s = "flag_step op s"
  have "sl_file ?s = Some f"
    using Cons.IH [of ?s] Cons.prems flag_step_ok flag_step_mono [of s op] by simp
  then have "sl_file s = Some f \<or> sl_next s \<le> fl_id f" by (rule flag_step_new_id)
  with Cons.prems show ?case by simp
qed

text \<open>
  A caller that raised a flag to take it away again lowers only the flag it raised: whatever
  changes of the flag happen in between, by others, a flag it finds raised by another call is left
  as it is, and its own flag is gone afterwards.
\<close>

theorem raise_lower_own:
  assumes "slot_ok s" and "flag_Raise False now s = ((False, Some i), s1)"
    and "s2 = foldl (\<lambda>s op. flag_step op s) s1 ops"
  shows "sl_file (snd (flag_Lower False i s2)) = (if sl_file s2 = sl_file s1 then None else sl_file s2)"
proof -
  have i: "i = sl_next s" and s1: "s1 = flag_create now [] s" and none: "sl_file s = None"
    using assms(2) by (auto simp: flag_Raise_def split: if_splits)
  have ok1: "slot_ok s1" by (simp add: s1 flag_create_def slot_ok_def)
  have f1: "sl_file s1 = Some \<lparr>fl_id = i, fl_mtime = now, fl_content = []\<rparr>" "sl_next s1 = i + 1"
    by (simp_all add: s1 i flag_create_def)
  have own: "sl_file s2 = sl_file s1" if "sl_file s2 = Some f" "fl_id f = i" for f
    using flag_steps_new_id [OF ok1, of ops f] that f1 by (simp add: assms(3))
  show ?thesis
  proof (cases "sl_file s2")
    case None
    with f1 show ?thesis by (simp add: flag_Lower_def)
  next
    case (Some f)
    show ?thesis
    proof (cases "fl_id f = i")
      case True
      with Some own [OF Some True] show ?thesis by (simp add: flag_Lower_def flag_unset_def)
    next
      case False
      with Some f1(1) have "sl_file s2 \<noteq> sl_file s1" by auto
      with Some False show ?thesis by (simp add: flag_Lower_def)
    qed
  qed
qed

theorem raise_lower_own_witness:
  "sl_file (snd (flag_Lower False 0
      (foldl (\<lambda>s op. flag_step op s) (snd (flag_Raise False 5 \<lparr>sl_file = None, sl_next = 0\<rparr>))
        [OpUnset False, OpSetWith False 6 ''x'']))) = Some \<lparr>fl_id = 1, fl_mtime = 6, fl_content = ''x''\<rparr>"
proof -
  let ?s = "\<lparr>sl_file = None, sl_next = 0\<rparr>" and ?ops = "[OpUnset False, OpSetWith False 6 ''x'']"
  let ?s1 = "snd (flag_Raise False 5 ?s)" and ?s2 = "foldl (\<lambda>s op. flag_step op s) (snd (flag_Raise False 5 ?s)) ?ops"
  have "sl_file (snd (flag_Lower False 0 ?s2)) = (if sl_file ?s2 = sl_file ?s1 then None else sl_file ?s2)"
    by (rule raise_lower_own [where s = ?s and now = 5 and ops = ?ops])
      (simp_all add: slot_ok_def flag_Raise_def)
  then show ?thesis by (simp add: flag_defs)
qed

text \<open>
  A flag says when a decision was first made: setting a flag already raised changes neither its
  time, nor its content, nor the scope of a freeze read from it, whatever the later call asks.
\<close>

theorem set_keeps_first_decision:
  assumes "flag_SetWith err now b s = (False, s1)" and "flag_SetWith err' now' b' s1 = r"
  shows "snd r = s1 \<and> \<not> fst r \<and> flag_At (snd r) = flag_At s1 \<and> ScopeOf (snd r) w l = ScopeOf s1 w l
    \<and> sl_file s1 \<noteq> None"
  using assms by (auto simp: flag_SetWith_def flag_create_def split: if_splits)

theorem set_keeps_first_decision_witness:
  "flag_At (snd (FreezeScope False 9 ScopeObject (snd (Freeze False 4 \<lparr>sl_file = None, sl_next = 0\<rparr>)))) = 4"
  using set_keeps_first_decision [of False 4 "[]" "\<lparr>sl_file = None, sl_next = 0\<rparr>"
      "snd (Freeze False 4 \<lparr>sl_file = None, sl_next = 0\<rparr>)" False 9 ScopeObject _ ScopeObject ScopeInstance]
  by (simp add: Freeze_def FreezeScope_def flag_Set_def flag_SetWith_def flag_create_def flag_At_def)

end
