(* ===== verification/Imon_State.thy ===== *)
theory Imon_State
  imports Instance Flagfile
begin

text \<open>
  The state of the instance monitor, \<open>daemon/imon/main.go\<close>, and its elementary operations:
  publishing the monitor, changing its state and its expectations, the pending context of a
  delayed start, the flags, the commands it forks (\<open>crm_actions.go\<close>, \<open>non_crm_action.go\<close>), the
  refreshes of the local status (\<open>event_refresh.go\<close>, \<open>outdated.go\<close>) and the wait states that
  depend on the parents and the children of the object.

  One message is handled at a time by the worker of a monitor, so an operation is a function of
  the manager record and of an environment, constant while the message is handled: the clock, the
  cancellation of the context, the exit code of each command forked, the configuration file and
  the caches of the daemon the monitors share. A command forked, a message published and a system
  call are entries of a trace, in the order they happen. \<open>runner.Run\<close> returns when its action is
  done, so an action queued is an action run; the message its goroutine posts at its end is kept
  in \<open>i_cmds\<close>, the channel of the worker.
\<close>

section \<open>Environment\<close>

datatype fs_op = FsSetStopped | FsUnsetStopped | FsFreeze | FsUnfreeze

text \<open>
  \<open>e_exit n args\<close> is the exit code of the command with arguments \<open>args\<close> when \<open>n\<close> effects happened
  before. The daemon caches are indexed by object path, then by node.
\<close>

record env =
  e_now :: "time"
  e_done :: bool
  e_exit :: "nat \<Rightarrow> string list \<Rightarrow> int"
  e_cfgMtime :: "time"
  e_statusData :: "(path, (string, instance_status) gomap) gomap"
  e_configData :: "(path, (string, config) gomap) gomap"
  e_monitorData :: "(path, (string, monitor) gomap) gomap"
  e_expand :: "string \<Rightarrow> string list option"
  e_fsErr :: "fs_op \<Rightarrow> bool"

definition StatusData_GetByPath :: "env \<Rightarrow> path \<Rightarrow> (string, instance_status) gomap" where
  "StatusData_GetByPath e p = lkp [] (e_statusData e) p"

definition StatusData_GetByPathAndNode :: "env \<Rightarrow> path \<Rightarrow> string \<Rightarrow> instance_status option" where
  "StatusData_GetByPathAndNode e p node = map_of (StatusData_GetByPath e p) node"

definition ConfigData_GetByPath :: "env \<Rightarrow> path \<Rightarrow> (string, config) gomap" where
  "ConfigData_GetByPath e p = lkp [] (e_configData e) p"

definition ConfigData_GetByPathAndNode :: "env \<Rightarrow> path \<Rightarrow> string \<Rightarrow> config option" where
  "ConfigData_GetByPathAndNode e p node = map_of (ConfigData_GetByPath e p) node"

definition MonitorData_GetByPath :: "env \<Rightarrow> path \<Rightarrow> (string, monitor) gomap" where
  "MonitorData_GetByPath e p = lkp [] (e_monitorData e) p"

section \<open>Effects\<close>

record monitor_update =
  mu_GlobalExpect :: "monitor_global_expect option"
  mu_GlobalExpectOptions :: ge_options
  mu_LocalExpect :: "monitor_local_expect option"
  mu_State :: "monitor_state option"
  mu_CandidateOrchestrationID :: nat

datatype effect =
    Exec "string list" int
  | TocCrash
  | TocReboot
  | PreMonitorAction string
  | PubInstanceMonitorUpdated monitor
  | PubInstanceStatusPost instance_status
  | PubStoppedFileUpdated "time"
  | PubStoppedFileRemoved "time"
  | PubFrozenFileUpdated "time" string
  | PubFrozenFileRemoved "time"
  | PubInstanceConfigDeleting
  | PubInstanceMonitorAction string monitor_action
  | PubSetInstanceMonitorRefused monitor_update
  | PubOrchestrationRefused nat "monitor_global_expect option"
  | PubOrchestrationAccepted nat monitor_global_expect "time"
  | PubOrchestrationEnd orchestration_end

text \<open>The messages the goroutines of the monitor post to its worker.\<close>

datatype imon_cmd =
    CmdOrchestrate monitor_state monitor_state
  | CmdResourceRestart "string list" bool
  | CmdStatusDone

text \<open>
  The restarts scheduled for a group of resources: its timer, and the resources waiting on a timer.
  A new timer replaces the one held without stopping it; \<open>or_dangling\<close> keeps the timers replaced,
  which still fire and can no longer be stopped.
\<close>

record orchestration_resource =
  or_scheduler :: "(time \<times> string list) option"
  or_scheduled :: "string list"
  or_dangling :: "(time \<times> string list) list"

section \<open>The manager\<close>

text \<open>
  A timer is the instant it fires at, or none. \<open>i_pending\<close> is the deadline of the pending context,
  \<open>i_readyWaits\<close> the contexts the goroutines of the ready states wait on. \<open>i_needStatusQ\<close> says the
  one slot of the status queue is taken. \<open>i_stonithAt\<close> is the map of the package shared by all
  monitors. The loggers, the subscriptions, the rate limiter and the memory of log messages
  (\<open>waitConvergedOrchestrationMsg\<close>) have no effect on what the monitor does and are left out.
\<close>

record imon =
  i_state :: monitor
  i_prev :: monitor
  i_path :: path
  i_localhost :: string
  i_change :: bool
  i_pending :: "time option"
  i_readyWaits :: "time list"
  i_config :: config
  i_affinitySubscribed :: "path list"
  i_affinityAvail :: "(string, status) gomap"
  i_instStatus :: "(string, instance_status) gomap"
  i_instMonitor :: "(string, monitor) gomap"
  i_nodeMonitor :: "(string, node_monitor) gomap"
  i_nodeStats :: "(string, node_stats) gomap"
  i_nodeStatus :: "(string, node_status) gomap"
  i_readyDuration :: duration
  i_scopeNodes :: "string list"
  i_objStatus :: object_status
  i_outdatedTimer :: "time option"
  i_outdatedRefreshedAt :: "time"
  i_eventRefreshTimer :: "time option"
  i_eventRefreshScheduled :: bool
  i_eventRefreshDeferred :: bool
  i_leaderWaited :: "string \<times> nat"
  i_waitSyncsTimer :: "time option"
  i_waitSyncsSince :: "time"
  i_stopRefusedForSyncs :: bool
  i_waitDestinationTimer :: "time option"
  i_waitDestinationSince :: "time"
  i_statusQueued :: bool
  i_needStatusQ :: bool
  i_peerDrop :: string
  i_peerDropAt :: "time"
  i_stonithAt :: "(string, time) gomap"
  i_priors :: "string list"
  i_orchestrationPending :: "orchestration_end option"
  i_orchestrationAborted :: "orchestration_end option"
  i_idleAfterOrchestration :: bool
  i_endWithDeletion :: bool
  i_delayTimerEnabled :: bool
  i_delayOrchestrateEnabled :: bool
  i_delayPreUpdateEnabled :: bool
  i_delayUpdateEnabled :: bool
  i_initialMonitorAction :: monitor_action
  i_standbyOr :: orchestration_resource
  i_regularOr :: orchestration_resource
  i_isPeerFrozenMerged :: bool
  i_isPeerStoppedMerged :: bool
  i_isBootStartPending :: bool
  i_bootStartWaitSince :: "time"
  i_stoppedFile :: slot
  i_frozenFile :: slot
  i_cmds :: "imon_cmd list"
  i_trace :: "effect list"

text \<open>An action returns whether it failed, and the manager after it.\<close>

type_synonym action = "env \<Rightarrow> imon \<Rightarrow> bool \<times> imon"

text \<open>
  The manager \<open>start\<close> creates. The flag files and the times of the last stonith are the ones found
  on the node, and the timers are stopped.
\<close>

definition start_state :: "time \<Rightarrow> monitor" where
  "start_state now =
    zero_monitor\<lparr>mon_LocalExpect := MonitorLocalExpectNone, mon_GlobalExpect := MonitorGlobalExpectNone,
      mon_State := MonitorStateIdle, mon_StateUpdatedAt := now\<rparr>"

definition zero_orchestration_resource :: orchestration_resource where
  "zero_orchestration_resource = \<lparr>or_scheduler = None, or_scheduled = [], or_dangling = []\<rparr>"

definition start :: "time \<Rightarrow> duration \<Rightarrow> path \<Rightarrow> string \<Rightarrow> string list \<Rightarrow> (string, time) gomap \<Rightarrow> slot \<Rightarrow> slot \<Rightarrow> imon" where
  "start now readyDuration p localhost nodes stonithAt stoppedFile frozenFile =
    \<lparr>i_state = start_state now, i_prev = start_state now, i_path = p, i_localhost = localhost,
     i_change = True, i_pending = None, i_readyWaits = [], i_config = zero_config,
     i_affinitySubscribed = [], i_affinityAvail = [], i_instStatus = [], i_instMonitor = [],
     i_nodeMonitor = [], i_nodeStats = [], i_nodeStatus = [], i_readyDuration = readyDuration,
     i_scopeNodes = nodes, i_objStatus = zero_object_status, i_outdatedTimer = None,
     i_outdatedRefreshedAt = 0, i_eventRefreshTimer = None, i_eventRefreshScheduled = False,
     i_eventRefreshDeferred = False, i_leaderWaited = ([], 0), i_waitSyncsTimer = None,
     i_waitSyncsSince = 0, i_stopRefusedForSyncs = False, i_waitDestinationTimer = None,
     i_waitDestinationSince = 0, i_statusQueued = False, i_needStatusQ = False, i_peerDrop = [],
     i_peerDropAt = 0, i_stonithAt = stonithAt, i_priors = [], i_orchestrationPending = None,
     i_orchestrationAborted = None, i_idleAfterOrchestration = False, i_endWithDeletion = False,
     i_delayTimerEnabled = False, i_delayOrchestrateEnabled = False, i_delayPreUpdateEnabled = False,
     i_delayUpdateEnabled = False, i_initialMonitorAction = MonitorActionOther [],
     i_standbyOr = zero_orchestration_resource, i_regularOr = zero_orchestration_resource,
     i_isPeerFrozenMerged = False, i_isPeerStoppedMerged = False, i_isBootStartPending = False,
     i_bootStartWaitSince = 0, i_stoppedFile = stoppedFile, i_frozenFile = frozenFile, i_cmds = [],
     i_trace = []\<rparr>"

section \<open>Reading the manager\<close>

abbreviation mstate :: "imon \<Rightarrow> monitor_state" where
  "mstate t \<equiv> mon_State (i_state t)"

definition set_mstate :: "monitor_state \<Rightarrow> imon \<Rightarrow> imon" where
  "set_mstate s t = t\<lparr>i_state := (i_state t)\<lparr>mon_State := s\<rparr>\<rparr>"

definition emit :: "effect \<Rightarrow> imon \<Rightarrow> imon" where
  "emit x t = t\<lparr>i_trace := i_trace t @ [x]\<rparr>"

text \<open>\<open>t.instStatus[t.localhost]\<close>, the zero status when there is none.\<close>

definition localStatus :: "imon \<Rightarrow> instance_status" where
  "localStatus t = lkp zero_status (i_instStatus t) (i_localhost t)"

definition localNodeStatus :: "imon \<Rightarrow> node_status" where
  "localNodeStatus t = lkp zero_node_status (i_nodeStatus t) (i_localhost t)"

definition localNodeMonitor :: "imon \<Rightarrow> node_monitor" where
  "localNodeMonitor t = lkp zero_node_monitor (i_nodeMonitor t) (i_localhost t)"

text \<open>
  The actor part of the object status, which the source reaches through a pointer. The operations
  that read it run on actor objects whose status is built; on another object the source would
  dereference nil, where the model reads zero values.
\<close>

definition objActor :: "imon \<Rightarrow> actor_status" where
  "objActor t = (case os_Actor (i_objStatus t) of None \<Rightarrow> zero_actor_status | Some a \<Rightarrow> a)"

definition flexTarget :: "imon \<Rightarrow> int" where
  "flexTarget t = (case as_Flex (objActor t) of None \<Rightarrow> 0 | Some f \<Rightarrow> fl_Target f)"

text \<open>The actor part of the configuration, for the operations that read its fields unguarded.\<close>

definition zero_actor_config :: actor_config where
  "zero_actor_config =
    \<lparr>ac_Children = [], ac_MonitorAction = [], ac_PreMonitorAction = [], ac_Orchestrate = [],
     ac_Parents = [], ac_PlacementPolicy = PolInvalid, ac_Resources = [], ac_Stonith = False,
     ac_Topology = TopInvalid, ac_Flex = None, ac_IsDisabled = False, ac_WaitSyncsTimeout = 0,
     ac_HardAffinity = [], ac_HardAntiAffinity = [], ac_SoftAffinity = [], ac_SoftAntiAffinity = [],
     ac_StartTimeout = 0\<rparr>"

definition actorConfig :: "imon \<Rightarrow> actor_config" where
  "actorConfig t = (case cfg_Actor (i_config t) of None \<Rightarrow> zero_actor_config | Some a \<Rightarrow> a)"

definition GetInstanceMonitor :: "imon \<Rightarrow> string \<Rightarrow> monitor option" where
  "GetInstanceMonitor t node = (if i_localhost t = node then Some (i_state t) else map_of (i_instMonitor t) node)"

text \<open>
  The map of all monitors, the local one first. The source panics on a peer map holding the local
  node, which \<open>wf_imon\<close> below excludes.
\<close>

definition AllInstanceMonitors :: "imon \<Rightarrow> (string, monitor) gomap" where
  "AllInstanceMonitors t = (i_localhost t, i_state t) # i_instMonitor t"

definition AllInstanceMonitorState :: "imon \<Rightarrow> monitor_state \<Rightarrow> bool" where
  "AllInstanceMonitorState t s = list_all (\<lambda>(_, m). mon_State m = s) (AllInstanceMonitors t)"

definition hasOtherNodeActing :: "imon \<Rightarrow> bool" where
  "hasOtherNodeActing t = list_ex (\<lambda>(n, m). n \<noteq> i_localhost t \<and> IsDoing (mon_State m)) (i_instMonitor t)"

definition canRefreshOnEvent :: "imon \<Rightarrow> bool" where
  "canRefreshOnEvent t =
    (\<not> IsDoing (mstate t) \<and> list_all (\<lambda>(_, m). \<not> IsDoing (mon_State m)) (i_instMonitor t))"

section \<open>Status refreshes\<close>

definition eventRefreshDelay :: duration where
  "eventRefreshDelay = second"

definition eventRefreshInterval :: duration where
  "eventRefreshInterval = 5 * second"

definition eventRefreshDelayAfter :: "time \<Rightarrow> time \<Rightarrow> duration" where
  "eventRefreshDelayAfter now lst =
    (let due = now + eventRefreshDelay;
         flr = lst + eventRefreshInterval;
         due = (if due < flr then flr else due)
     in due - now)"

definition scheduleEventRefresh :: "env \<Rightarrow> imon \<Rightarrow> imon" where
  "scheduleEventRefresh e t =
    (if i_eventRefreshScheduled t then t
     else t\<lparr>i_eventRefreshScheduled := True,
            i_eventRefreshTimer := Some (e_now e + eventRefreshDelayAfter (e_now e) (st_UpdatedAt (localStatus t)))\<rparr>)"

definition pubStatelessInstanceStatus :: "env \<Rightarrow> imon \<Rightarrow> imon" where
  "pubStatelessInstanceStatus e t =
    emit (PubInstanceStatusPost (zero_status
      \<lparr>st_Avail := StNotApplicable, st_Optional := StNotApplicable, st_Overall := StNotApplicable,
       st_Provisioned := PrNotApplicable, st_UpdatedAt := e_now e\<rparr>)) t"

text \<open>The request is dropped when the queue slot is taken, or the context is done.\<close>

definition requestStatusRefresh :: "env \<Rightarrow> imon \<Rightarrow> imon" where
  "requestStatusRefresh e t =
    (if cfg_Actor (i_config t) = None then pubStatelessInstanceStatus e t
     else if MonitorState_IsOneOf (mstate t) [MonitorStateDeleteProgress, MonitorStateDeleteSuccess] then t
     else if e_done e then t
     else if i_needStatusQ t then t
     else t\<lparr>i_needStatusQ := True, i_statusQueued := True\<rparr>)"

definition onEventRefreshTimer :: "env \<Rightarrow> imon \<Rightarrow> imon" where
  "onEventRefreshTimer e t =
    (let t = t\<lparr>i_eventRefreshScheduled := False, i_eventRefreshTimer := None\<rparr>
     in if \<not> canRefreshOnEvent t then t\<lparr>i_eventRefreshDeferred := True\<rparr>
        else requestStatusRefresh e (t\<lparr>i_eventRefreshDeferred := False\<rparr>))"

definition replayDeferredEventRefresh :: "env \<Rightarrow> imon \<Rightarrow> imon" where
  "replayDeferredEventRefresh e t =
    (if \<not> i_eventRefreshDeferred t \<or> \<not> canRefreshOnEvent t then t
     else scheduleEventRefresh e (t\<lparr>i_eventRefreshDeferred := False\<rparr>))"

definition outdatedMargin :: duration where
  "outdatedMargin = second"

definition outdatedRefreshFloor :: duration where
  "outdatedRefreshFloor = 30 * second"

definition outdatedRefreshDelay :: "time \<Rightarrow> time \<Rightarrow> time \<Rightarrow> duration" where
  "outdatedRefreshDelay at lst now =
    (let due = at + outdatedMargin;
         flr = lst + outdatedRefreshFloor;
         due = (if due < flr then flr else due);
         d = due - now
     in if d > 0 then d else 0)"

definition armOutdatedTimer :: "env \<Rightarrow> time \<Rightarrow> imon \<Rightarrow> imon" where
  "armOutdatedTimer e at t =
    (let t = t\<lparr>i_outdatedTimer := None\<rparr>
     in if at = 0 then t
        else t\<lparr>i_outdatedTimer := Some (e_now e + outdatedRefreshDelay at (i_outdatedRefreshedAt t) (e_now e))\<rparr>)"

definition onOutdatedTimer :: "env \<Rightarrow> imon \<Rightarrow> imon" where
  "onOutdatedTimer e t =
    (let t = t\<lparr>i_outdatedTimer := None\<rparr>
     in if mstate t \<noteq> MonitorStateIdle then t
        else requestStatusRefresh e (t\<lparr>i_outdatedRefreshedAt := e_now e\<rparr>))"

definition onInstanceStateFileUpdated :: "env \<Rightarrow> imon \<Rightarrow> imon" where
  "onInstanceStateFileUpdated e t = scheduleEventRefresh e t"

text \<open>What changed in a peer instance that a resource of the local instance depends on.\<close>

definition peerChangeSeenBy :: "instance_status \<Rightarrow> instance_status \<Rightarrow> instance_status \<Rightarrow> bool" where
  "peerChangeSeenBy local prv cur =
    (let dependent = filter (\<lambda>(_, rs). rs_DependsOnPeers rs) (st_Resources local)
     in list_ex (\<lambda>(rid, _). rs_Status (lkp zero_resource_status (st_Resources prv) rid)
                  \<noteq> rs_Status (lkp zero_resource_status (st_Resources cur) rid)) dependent
        \<or> dependent \<noteq> [] \<and> st_Avail prv \<noteq> st_Avail cur)"

definition refreshOnPeerChange :: "env \<Rightarrow> instance_status \<Rightarrow> instance_status \<Rightarrow> imon \<Rightarrow> imon" where
  "refreshOnPeerChange e prv cur t =
    (case map_of (i_instStatus t) (i_localhost t) of
       None \<Rightarrow> t
     | Some local \<Rightarrow> if peerChangeSeenBy local prv cur then scheduleEventRefresh e t else t)"

section \<open>Expectations and publication\<close>

definition setLocalExpect :: "monitor_local_expect \<Rightarrow> imon \<Rightarrow> imon" where
  "setLocalExpect le t =
    (if mon_LocalExpect (i_state t) \<noteq> le
     then t\<lparr>i_change := True, i_state := (i_state t)\<lparr>mon_LocalExpect := le\<rparr>\<rparr>
     else t)"

definition disableMonitor :: "imon \<Rightarrow> imon" where
  "disableMonitor t = setLocalExpect MonitorLocalExpectNone t"

definition enableMonitor :: "imon \<Rightarrow> imon" where
  "enableMonitor t =
    setLocalExpect MonitorLocalExpectStarted
      (t\<lparr>i_state := (i_state t)\<lparr>mon_MonitorActionExecutedAt := 0\<rparr>\<rparr>)"

definition update :: "env \<Rightarrow> imon \<Rightarrow> imon" where
  "update e t =
    (if e_done e then t
     else let t = t\<lparr>i_state := (i_state t)\<lparr>mon_UpdatedAt := e_now e\<rparr>\<rparr>
          in emit (PubInstanceMonitorUpdated (i_state t)) t)"

definition updateIfChange :: "env \<Rightarrow> imon \<Rightarrow> imon" where
  "updateIfChange e t =
    (let t = replayDeferredEventRefresh e t
     in if e_done e then t
        else
          let s = i_state t;
              t = (if mon_OrchestrationID s = 0 \<and> mon_State s = MonitorStateIdle
                      \<and> mon_LocalExpect s \<noteq> MonitorLocalExpectStarted
                      \<and> status_Is (st_Avail (localStatus t)) [StUp]
                      \<and> st_UpdatedAt (localStatus t) > mon_LocalExpectUpdatedAt s
                   then enableMonitor t else t)
          in if \<not> i_change t then t
             else
               let t = t\<lparr>i_change := False\<rparr>;
                   prv = i_prev t;
                   new = i_state t;
                   t = (if mon_LocalExpect new \<noteq> mon_LocalExpect prv
                        then t\<lparr>i_state := (i_state t)\<lparr>mon_LocalExpectUpdatedAt := e_now e\<rparr>\<rparr> else t);
                   t = (if mon_State new \<noteq> mon_State prv
                        then t\<lparr>i_state := (i_state t)\<lparr>mon_StateUpdatedAt := e_now e\<rparr>\<rparr> else t)
               in update e (t\<lparr>i_prev := i_state t\<rparr>))"

definition transitionTo :: "env \<Rightarrow> monitor_state \<Rightarrow> imon \<Rightarrow> imon" where
  "transitionTo e newState t = updateIfChange e (set_mstate newState (t\<lparr>i_change := True\<rparr>))"

definition createPendingWithDuration :: "env \<Rightarrow> duration \<Rightarrow> imon \<Rightarrow> imon" where
  "createPendingWithDuration e d t = t\<lparr>i_pending := Some (e_now e + d)\<rparr>"

definition clearPending :: "imon \<Rightarrow> imon" where
  "clearPending t =
    (case i_pending t of
       None \<Rightarrow> t
     | Some d \<Rightarrow> t\<lparr>i_pending := None, i_readyWaits := remove1 d (i_readyWaits t)\<rparr>)"

section \<open>Commands\<close>

text \<open>
  \<open>crmDefaultAction\<close>: the command is forked and waited for. It is an error unless its exit code is
  zero or one the caller expects. The identifiers of its session and exec are not modelled.
\<close>

definition crmDefaultAction :: "int list \<Rightarrow> string list \<Rightarrow> env \<Rightarrow> imon \<Rightarrow> (int \<times> bool) \<times> imon" where
  "crmDefaultAction expectExitCodes args e t =
    (let code = e_exit e (length (i_trace t)) args
     in ((code, \<not> (code = 0 \<or> code \<in> set expectExitCodes)), emit (Exec args code) t))"

definition crmAction :: "string list \<Rightarrow> action" where
  "crmAction args e t = (case crmDefaultAction [] args e t of ((_, err), t) \<Rightarrow> (err, t))"

definition crmMaintenanceAction :: "string list \<Rightarrow> action" where
  "crmMaintenanceAction args e t = (case crmDefaultAction [] args e t of ((_, err), t) \<Rightarrow> (err, t))"

text \<open>The arguments of a command on the local instance.\<close>

definition inst_args :: "imon \<Rightarrow> string list \<Rightarrow> string list" where
  "inst_args t l = path_String (i_path t) # ''instance'' # l"

definition interruptSyncsAsked :: "imon \<Rightarrow> bool" where
  "interruptSyncsAsked t =
    (case mon_GlobalExpectOptions (i_state t) of
       GeoStopped b \<Rightarrow> b
     | GeoPlacedAt _ _ b \<Rightarrow> b
     | _ \<Rightarrow> False)"

definition stopArgs :: "imon \<Rightarrow> string list \<Rightarrow> string list" where
  "stopArgs t extra =
    inst_args t (''stop'' # extra) @ (if interruptSyncsAsked t then [''--interrupt-syncs''] else [])"

definition provisionedOptions_Adopt :: "imon \<Rightarrow> bool" where
  "provisionedOptions_Adopt t =
    (case mon_GlobalExpectOptions (i_state t) of GeoProvisioned b \<Rightarrow> b | _ \<Rightarrow> False)"

definition crmPGUpdate :: action where
  "crmPGUpdate e t = crmAction (inst_args t [''pg'', ''update'']) e t"

definition crmBoot :: action where
  "crmBoot e t = crmAction (inst_args t [''boot'']) e t"

definition crmDelete :: action where
  "crmDelete e t = crmAction (inst_args t [''delete'']) e (emit PubInstanceConfigDeleting t)"

definition crmFreeze :: action where
  "crmFreeze e t = crmAction (inst_args t [''freeze'']) e t"

definition crmProvisionNonLeader :: action where
  "crmProvisionNonLeader e t = crmAction (inst_args t [''provision'']) e t"

definition crmProvisionLeader :: action where
  "crmProvisionLeader e t =
    crmAction (inst_args t ([''provision'', ''--leader'']
      @ (if provisionedOptions_Adopt t then [''--adopt''] else []))) e t"

definition crmProvisionPreflight :: action where
  "crmProvisionPreflight e t = crmAction (inst_args t [''provision'', ''--preflight'']) e t"

definition crmStartStandby :: action where
  "crmStartStandby e t = crmAction (inst_args t [''startstandby'']) e t"

definition crmResourceStartStandby :: "string list \<Rightarrow> action" where
  "crmResourceStartStandby rids e t =
    crmMaintenanceAction (inst_args t [''startstandby'', ''--rid'', Join '','' rids]) e t"

definition crmResourceStart :: "string list \<Rightarrow> action" where
  "crmResourceStart rids e t =
    crmMaintenanceAction (inst_args t [''start'', ''--rid'', Join '','' rids]) e t"

definition crmShutdown :: action where
  "crmShutdown e t = crmAction (inst_args t [''shutdown'']) e t"

definition crmStart :: action where
  "crmStart e t = crmAction (inst_args t [''start'']) e t"

definition ExitCodeObjectNotFound :: int where
  "ExitCodeObjectNotFound = 2"

definition crmStatus :: action where
  "crmStatus e t =
    (case crmDefaultAction [ExitCodeObjectNotFound] (inst_args t [''status'', ''-r'']) e t of
       ((_, err), t) \<Rightarrow> (err, t))"

definition crmStonith :: "string \<Rightarrow> action" where
  "crmStonith nodename e t = crmAction [''node'', ''stonith'', ''--node'', nodename] e t"

definition crmStopMoveTo :: "string \<Rightarrow> action" where
  "crmStopMoveTo dst e t = crmAction (stopArgs t [''--move-to'', dst]) e t"

definition crmStop :: action where
  "crmStop e t = crmAction (stopArgs t []) e t"

definition crmStopSyncTo :: "string list \<Rightarrow> action" where
  "crmStopSyncTo dst e t = crmAction (stopArgs t [''--sync-to'', Join '','' dst]) e t"

definition crmUnfreeze :: action where
  "crmUnfreeze e t = crmAction (inst_args t [''unfreeze'']) e t"

definition crmUnprovisionNonLeader :: action where
  "crmUnprovisionNonLeader e t = crmAction (inst_args t [''unprovision'']) e t"

definition crmUnprovisionLeader :: action where
  "crmUnprovisionLeader e t = crmAction (inst_args t [''unprovision'', ''--leader'']) e t"

section \<open>Running actions\<close>

definition orchestrateAfterAction :: "env \<Rightarrow> monitor_state \<Rightarrow> monitor_state \<Rightarrow> imon \<Rightarrow> imon" where
  "orchestrateAfterAction e state newState t =
    (if e_done e then t else t\<lparr>i_cmds := i_cmds t @ [CmdOrchestrate state newState]\<rparr>)"

definition doTransitionAction ::
  "action \<Rightarrow> monitor_state \<Rightarrow> monitor_state \<Rightarrow> monitor_state \<Rightarrow> env \<Rightarrow> imon \<Rightarrow> imon" where
  "doTransitionAction action newState successState errorState e t =
    (case action e (transitionTo e newState t) of
       (err, t) \<Rightarrow> transitionTo e (if err then errorState else successState) t)"

definition doAction ::
  "action \<Rightarrow> monitor_state \<Rightarrow> monitor_state \<Rightarrow> monitor_state \<Rightarrow> env \<Rightarrow> imon \<Rightarrow> imon" where
  "doAction action newState successState errorState e t =
    (case action e (transitionTo e newState t) of
       (err, t) \<Rightarrow> orchestrateAfterAction e newState (if err then errorState else successState) t)"

definition queueAction ::
  "action \<Rightarrow> monitor_state \<Rightarrow> monitor_state \<Rightarrow> monitor_state \<Rightarrow> env \<Rightarrow> imon \<Rightarrow> imon" where
  "queueAction action newState successState errorState e t = doAction action newState successState errorState e t"

section \<open>Flags\<close>

definition set_localStatus :: "instance_status \<Rightarrow> imon \<Rightarrow> imon" where
  "set_localStatus st t = t\<lparr>i_instStatus := AList.update (i_localhost t) st (i_instStatus t)\<rparr>"

definition map_localStatus :: "(instance_status \<Rightarrow> instance_status) \<Rightarrow> imon \<Rightarrow> imon" where
  "map_localStatus f t =
    (case map_of (i_instStatus t) (i_localhost t) of None \<Rightarrow> t | Some st \<Rightarrow> set_localStatus (f st) t)"

definition setStopped :: action where
  "setStopped e t =
    (case flag_Set (e_fsErr e FsSetStopped) (e_now e) (i_stoppedFile t) of
       (True, _) \<Rightarrow> (True, t)
     | (False, f) \<Rightarrow>
         let t = t\<lparr>i_stoppedFile := f\<rparr>; stopped = flag_At f
         in if stopped = 0 then (True, t)
            else (False, emit (PubStoppedFileUpdated stopped)
                           (map_localStatus (\<lambda>st. st\<lparr>st_StoppedAt := stopped\<rparr>) t)))"

definition unsetStopped :: action where
  "unsetStopped e t =
    (if flag_At (i_stoppedFile t) = 0 then (False, t)
     else case flag_Unset (e_fsErr e FsUnsetStopped) (i_stoppedFile t) of
       (True, _) \<Rightarrow> (True, t)
     | (False, f) \<Rightarrow>
         (False, emit (PubStoppedFileRemoved (e_now e))
            (map_localStatus (\<lambda>st. st\<lparr>st_StoppedAt := 0\<rparr>) (t\<lparr>i_stoppedFile := f\<rparr>))))"

definition isStopped :: "imon \<Rightarrow> bool" where
  "isStopped t = IsStopped (localStatus t)"

definition freeze :: action where
  "freeze e t =
    (case FreezeScope (e_fsErr e FsFreeze) (e_now e) ScopeObject (i_frozenFile t) of
       (True, _) \<Rightarrow> (True, t)
     | (False, f) \<Rightarrow>
         let frozen = Frozen f;
             scope = ScopeOf f ScopeObject ScopeInstance;
             t = map_localStatus (\<lambda>st. st\<lparr>st_FrozenAt := frozen, st_FrozenScope := scope\<rparr>)
                   (t\<lparr>i_frozenFile := f\<rparr>)
         in if frozen = 0 then (True, t) else (False, emit (PubFrozenFileUpdated frozen scope) t))"

definition unfreeze :: action where
  "unfreeze e t =
    (case (if sl_file (i_frozenFile t) = None then (False, i_frozenFile t)
           else flag_Unset (e_fsErr e FsUnfreeze) (i_frozenFile t)) of
       (True, _) \<Rightarrow> (True, t)
     | (False, f) \<Rightarrow>
         (False, emit (PubFrozenFileRemoved (e_now e))
            (map_localStatus (\<lambda>st. st\<lparr>st_FrozenAt := 0, st_FrozenScope := []\<rparr>) (t\<lparr>i_frozenFile := f\<rparr>))))"

section \<open>End of the local part of an orchestration\<close>

definition orch_done :: "imon \<Rightarrow> imon" where
  "orch_done t =
    (if mon_OrchestrationID (i_state t) \<noteq> 0 \<and> \<not> mon_OrchestrationIsDone (i_state t)
     then t\<lparr>i_change := True, i_state := (i_state t)\<lparr>mon_OrchestrationIsDone := True\<rparr>\<rparr>
     else t)"

definition doneAndIdle :: "imon \<Rightarrow> imon" where
  "doneAndIdle t =
    (let t = orch_done t
     in if mstate t \<noteq> MonitorStateIdle then set_mstate MonitorStateIdle (t\<lparr>i_change := True\<rparr>) else t)"

text \<open>\<open>doLastAction\<close> marks the orchestration done before it posts the end of the action.\<close>

definition doLastAction ::
  "action \<Rightarrow> monitor_state \<Rightarrow> monitor_state \<Rightarrow> monitor_state \<Rightarrow> env \<Rightarrow> imon \<Rightarrow> imon" where
  "doLastAction action newState successState errorState e t =
    (case action e (transitionTo e newState t) of
       (err, t) \<Rightarrow> orchestrateAfterAction e newState (if err then errorState else successState) (orch_done t))"

section \<open>Waiting on parents and children\<close>

text \<open>The instances of the parents, whose state is wait children; the loop stops on a name no path reads.\<close>

fun parents_waiting :: "env \<Rightarrow> bool \<Rightarrow> string list \<Rightarrow> bool" where
  "parents_waiting e found [] = found"
| "parents_waiting e found (relation # l) =
    (case ParsePath relation of
       None \<Rightarrow> False
     | Some p \<Rightarrow>
         parents_waiting e
           (found \<or> list_ex (\<lambda>(_, m). mon_State m = MonitorStateWaitChildren) (MonitorData_GetByPath e p)) l)"

definition isAnyParentWaitingChilren :: "env \<Rightarrow> imon \<Rightarrow> bool" where
  "isAnyParentWaitingChilren e t = parents_waiting e False (map fst (mon_Parents (i_state t)))"

definition parentsReady :: "(string, status) gomap \<Rightarrow> bool" where
  "parentsReady m = list_all (\<lambda>(_, avail). status_Is avail [StUp, StUndef]) m"

definition setWaitParents :: "imon \<Rightarrow> bool \<times> imon" where
  "setWaitParents t =
    (if \<not> parentsReady (mon_Parents (i_state t)) then
       (True, if mstate t \<noteq> MonitorStateWaitParents
              then set_mstate MonitorStateWaitParents (t\<lparr>i_change := True\<rparr>) else t)
     else (False, if mstate t = MonitorStateWaitParents
                  then set_mstate MonitorStateIdle (t\<lparr>i_change := True\<rparr>) else t))"

definition childrenDown :: "(string, status) gomap \<Rightarrow> bool" where
  "childrenDown m =
    list_all (\<lambda>(_, avail). status_Is avail [StDown, StStandbyDown, StStandbyUp, StUndef, StNotApplicable]) m"

definition setWaitChildren :: "imon \<Rightarrow> bool \<times> imon" where
  "setWaitChildren t =
    (if \<not> childrenDown (mon_Children (i_state t)) then
       (True, if mstate t \<noteq> MonitorStateWaitChildren
              then set_mstate MonitorStateWaitChildren (t\<lparr>i_change := True\<rparr>) else t)
     else (False, if mstate t = MonitorStateWaitChildren
                  then set_mstate MonitorStateIdle (t\<lparr>i_change := True\<rparr>) else t))"

definition isLocalStatusCurrent :: "imon \<Rightarrow> bool" where
  "isLocalStatusCurrent t =
    (let csum = st_ConfigCsum (localStatus t)
     in csum = [] \<or> cfg_Checksum (i_config t) = [] \<or> csum = cfg_Checksum (i_config t))"

section \<open>A cluster to try the definitions on\<close>

text \<open>
  A failover object of two nodes, down on both, with nothing running: the manager of a node, and
  the environment of a command that succeeds.
\<close>

definition demo_env :: env where
  "demo_env =
    \<lparr>e_now = 100, e_done = False, e_exit = (\<lambda>_ _. 0), e_cfgMtime = 0, e_statusData = [],
     e_configData = [], e_monitorData = [], e_expand = (\<lambda>s. Some [s]), e_fsErr = (\<lambda>_. False)\<rparr>"

definition demo_path :: path where
  "demo_path = \<lparr>p_Name = ''web'', p_Namespace = ''root'', p_Kind = KindSvc\<rparr>"

definition demo_status :: instance_status where
  "demo_status = zero_status
    \<lparr>st_Avail := StDown, st_Overall := StDown, st_Provisioned := PrTrue, st_UpdatedAt := 10\<rparr>"

definition demo_nodes :: "string list" where
  "demo_nodes = [''n1'', ''n2'']"

definition demo_manager :: "string \<Rightarrow> imon" where
  "demo_manager h =
    (start 1 5 demo_path h demo_nodes [] \<lparr>sl_file = None, sl_next = 0\<rparr> \<lparr>sl_file = None, sl_next = 0\<rparr>)
    \<lparr>i_config := zero_config\<lparr>cfg_Scope := demo_nodes, cfg_Actor := Some zero_actor_config\<rparr>,
     i_objStatus := zero_object_status\<lparr>os_Actor := Some (zero_actor_status
       \<lparr>as_Avail := StDown, as_Orchestrate := ''ha'', as_Provisioned := PrTrue, as_Topology := Failover,
        as_PlacementPolicy := NodesOrder\<rparr>)\<rparr>,
     i_instStatus := map (\<lambda>n. (n, demo_status)) demo_nodes,
     i_instMonitor := map (\<lambda>n. (n, start_state 1)) (filter (\<lambda>n. n \<noteq> h) demo_nodes),
     i_nodeStatus := map (\<lambda>n. (n, zero_node_status)) demo_nodes,
     i_nodeMonitor := map (\<lambda>n. (n, zero_node_monitor\<lparr>nm_State := NodeStateIdle\<rparr>)) demo_nodes\<rparr>"

lemmas demo_defs = demo_manager_def demo_env_def demo_nodes_def demo_status_def start_def start_state_def

lemma demo_sel:
  "i_state (demo_manager h) = start_state 1" "i_prev (demo_manager h) = start_state 1"
  "i_path (demo_manager h) = demo_path" "i_localhost (demo_manager h) = h"
  "i_change (demo_manager h) = True" "i_pending (demo_manager h) = None"
  "i_scopeNodes (demo_manager h) = demo_nodes" "i_orchestrationPending (demo_manager h) = None"
  "i_endWithDeletion (demo_manager h) = False" "i_cmds (demo_manager h) = []"
  "i_trace (demo_manager h) = []" "i_statusQueued (demo_manager h) = False"
  "i_isBootStartPending (demo_manager h) = False" "i_stonithAt (demo_manager h) = []"
  "i_readyDuration (demo_manager h) = 5" "i_waitSyncsSince (demo_manager h) = 0"
  "i_waitDestinationSince (demo_manager h) = 0" "i_stopRefusedForSyncs (demo_manager h) = False"
  "i_orchestrationAborted (demo_manager h) = None"
  "i_idleAfterOrchestration (demo_manager h) = False" "i_peerDrop (demo_manager h) = []"
  "i_priors (demo_manager h) = []"
  "i_config (demo_manager h) = zero_config\<lparr>cfg_Scope := demo_nodes, cfg_Actor := Some zero_actor_config\<rparr>"
  "i_instStatus (demo_manager h) = map (\<lambda>n. (n, demo_status)) demo_nodes"
  "i_instMonitor (demo_manager h) = map (\<lambda>n. (n, start_state 1)) (filter (\<lambda>n. n \<noteq> h) demo_nodes)"
  "i_nodeStatus (demo_manager h) = map (\<lambda>n. (n, zero_node_status)) demo_nodes"
  "i_nodeMonitor (demo_manager h) = map (\<lambda>n. (n, zero_node_monitor\<lparr>nm_State := NodeStateIdle\<rparr>)) demo_nodes"
  "i_objStatus (demo_manager h) = zero_object_status\<lparr>os_Actor := Some (zero_actor_status
    \<lparr>as_Avail := StDown, as_Orchestrate := ''ha'', as_Provisioned := PrTrue, as_Topology := Failover,
     as_PlacementPolicy := NodesOrder\<rparr>)\<rparr>"
  "i_stoppedFile (demo_manager h) = \<lparr>sl_file = None, sl_next = 0\<rparr>"
  "i_frozenFile (demo_manager h) = \<lparr>sl_file = None, sl_next = 0\<rparr>"
  "mstate (demo_manager h) = MonitorStateIdle"
  by (simp_all add: demo_manager_def start_def start_state_def)

lemma start_state_sel:
  "mon_State (start_state now) = MonitorStateIdle" "mon_GlobalExpect (start_state now) = MonitorGlobalExpectNone"
  "mon_LocalExpect (start_state now) = MonitorLocalExpectNone" "mon_OrchestrationID (start_state now) = 0"
  "mon_OrchestrationIsDone (start_state now) = False" "mon_GlobalExpectUpdatedAt (start_state now) = 0"
  "mon_Children (start_state now) = []" "mon_Parents (start_state now) = []"
  "mon_GlobalExpectOptions (start_state now) = GeoNil" "mon_IsLeader (start_state now) = False"
  by (simp_all add: start_state_def zero_monitor_def)

lemma demo_env_sel [simp]:
  "e_now demo_env = 100" "\<not> e_done demo_env" "e_exit demo_env i args = 0" "e_cfgMtime demo_env = 0"
  "e_statusData demo_env = []" "e_configData demo_env = []" "e_monitorData demo_env = []" "\<not> e_fsErr demo_env op"
  by (simp_all add: demo_env_def)

lemma demo_status_sel:
  "st_Avail demo_status = StDown" "st_Provisioned demo_status = PrTrue" "st_FrozenAt demo_status = 0"
  "st_StoppedAt demo_status = 0" "st_Resources demo_status = []" "st_Running demo_status = []" "st_UpdatedAt demo_status = 10"
  "st_ConfigCsum demo_status = []"
  by (simp_all add: demo_status_def zero_status_def)

end
