(* ===== verification/Md5.thy ===== *)
theory Md5
  imports Main "HOL-Library.Word"
begin

text \<open>
  The digest \<open>md5.Sum\<close> of Go's standard library (RFC 1321), which the spread placement policy
  orders the nodes by. Words are 32 bits wide and their addition wraps.
\<close>

unbundle bit_operations_syntax

type_synonym w32 = "32 word"

definition md5_K :: "w32 list" where
  "md5_K =
    [0xd76aa478, 0xe8c7b756, 0x242070db, 0xc1bdceee, 0xf57c0faf, 0x4787c62a,
     0xa8304613, 0xfd469501, 0x698098d8, 0x8b44f7af, 0xffff5bb1, 0x895cd7be,
     0x6b901122, 0xfd987193, 0xa679438e, 0x49b40821, 0xf61e2562, 0xc040b340,
     0x265e5a51, 0xe9b6c7aa, 0xd62f105d, 0x02441453, 0xd8a1e681, 0xe7d3fbc8,
     0x21e1cde6, 0xc33707d6, 0xf4d50d87, 0x455a14ed, 0xa9e3e905, 0xfcefa3f8,
     0x676f02d9, 0x8d2a4c8a, 0xfffa3942, 0x8771f681, 0x6d9d6122, 0xfde5380c,
     0xa4beea44, 0x4bdecfa9, 0xf6bb4b60, 0xbebfbc70, 0x289b7ec6, 0xeaa127fa,
     0xd4ef3085, 0x04881d05, 0xd9d4d039, 0xe6db99e5, 0x1fa27cf8, 0xc4ac5665,
     0xf4292244, 0x432aff97, 0xab9423a7, 0xfc93a039, 0x655b59c3, 0x8f0ccc92,
     0xffeff47d, 0x85845dd1, 0x6fa87e4f, 0xfe2ce6e0, 0xa3014314, 0x4e0811a1,
     0xf7537e82, 0xbd3af235, 0x2ad7d2bb, 0xeb86d391]"

definition md5_shifts :: "nat list" where
  "md5_shifts =
    concat (replicate 4 [7, 12, 17, 22]) @ concat (replicate 4 [5, 9, 14, 20])
    @ concat (replicate 4 [4, 11, 16, 23]) @ concat (replicate 4 [6, 10, 15, 21])"

definition rotl32 :: "nat \<Rightarrow> w32 \<Rightarrow> w32" where
  "rotl32 n x = (push_bit n x) OR (drop_bit (32 - n) x)"

text \<open>The padding: a one bit, zeroes, and the length of the message in bits on 8 bytes.\<close>

fun le_bytes :: "nat \<Rightarrow> int \<Rightarrow> int list" where
  "le_bytes 0 n = []"
| "le_bytes (Suc k) n = n mod 256 # le_bytes k (n div 256)"

definition md5_pad :: "int list \<Rightarrow> int list" where
  "md5_pad msg =
    (let n = length msg
     in msg @ [128] @ replicate ((119 - n mod 64) mod 64) 0 @ le_bytes 8 (8 * int n))"

fun le_word :: "int list \<Rightarrow> w32" where
  "le_word [] = 0"
| "le_word (b # bs) = word_of_int b + 256 * le_word bs"

fun words_of :: "nat \<Rightarrow> int list \<Rightarrow> w32 list" where
  "words_of 0 bs = []"
| "words_of (Suc k) bs = le_word (take 4 bs) # words_of k (drop 4 bs)"

type_synonym md5_state = "w32 \<times> w32 \<times> w32 \<times> w32"

definition md5_round :: "w32 list \<Rightarrow> md5_state \<Rightarrow> nat \<Rightarrow> md5_state" where
  "md5_round m st i =
    (case st of (a, b, c, d) \<Rightarrow>
      let (f, g) =
            (if i < 16 then ((b AND c) OR (NOT b AND d), i)
             else if i < 32 then ((d AND b) OR (NOT d AND c), (5 * i + 1) mod 16)
             else if i < 48 then (b XOR c XOR d, (3 * i + 5) mod 16)
             else (c XOR (b OR NOT d), (7 * i) mod 16))
      in (d, b + rotl32 (md5_shifts ! i) (a + f + md5_K ! i + m ! g), b, c))"

definition md5_block :: "md5_state \<Rightarrow> int list \<Rightarrow> md5_state" where
  "md5_block st bs =
    (case (st, foldl (md5_round (words_of 16 bs)) st [0..<64]) of
       ((a, b, c, d), (a', b', c', d')) \<Rightarrow> (a + a', b + b', c + c', d + d'))"

fun md5_blocks :: "nat \<Rightarrow> md5_state \<Rightarrow> int list \<Rightarrow> md5_state" where
  "md5_blocks 0 st bs = st"
| "md5_blocks (Suc k) st bs = md5_blocks k (md5_block st (take 64 bs)) (drop 64 bs)"

definition word_bytes :: "w32 \<Rightarrow> int list" where
  "word_bytes x = le_bytes 4 (uint x)"

definition md5_sum :: "string \<Rightarrow> int list" where
  "md5_sum s =
    (let bs = md5_pad (map of_char s)
     in case md5_blocks (length bs div 64) (0x67452301, 0xefcdab89, 0x98badcfe, 0x10325476) bs of
          (a, b, c, d) \<Rightarrow> word_bytes a @ word_bytes b @ word_bytes c @ word_bytes d)"

lemma length_le_bytes [simp]: "length (le_bytes k n) = k"
  by (induction k arbitrary: n) simp_all

lemma length_md5_sum: "length (md5_sum s) = 16"
  by (simp add: md5_sum_def word_bytes_def Let_def split: prod.split)

text \<open>A test vector of the standard.\<close>

lemma md5_abc:
  "md5_sum ''abc'' = [0x90, 0x01, 0x50, 0x98, 0x3c, 0xd2, 0x4f, 0xb0, 0xd6, 0x96, 0x3f, 0x7d, 0x28, 0xe1, 0x7f, 0x72]"
  by code_simp

end
