(* ===== verification/Imon_Leader.thy ===== *)
theory Imon_Leader
  imports Imon_State Md5 "HOL-Library.Product_Lexorder"
begin

text \<open>
  Which instance leads: the order the placement policies put the nodes in, the affinities
  (\<open>daemon/imon/affinity.go\<close>), the start candidates and the two leader rules of
  \<open>daemon/imon/main_cmd.go\<close>. Every node takes these decisions alone, on its own view of the
  cluster; the theorems at the end say what they amount to when the views agree.
\<close>

section \<open>Placement policies\<close>

text \<open>\<open>spreadOrder\<close>: by the digest of the object path and the node name.\<close>

definition spreadOrder :: "path \<Rightarrow> string list \<Rightarrow> string list" where
  "spreadOrder p candidates = sort_key (\<lambda>nodename. md5_sum (path_String p @ nodename)) candidates"

definition sortWithSpreadPolicy :: "imon \<Rightarrow> string list \<Rightarrow> string list" where
  "sortWithSpreadPolicy t candidates = spreadOrder (i_path t) candidates"

text \<open>A stable sort by a key descending is a stable sort by its negation.\<close>

definition sortWithScorePolicy :: "imon \<Rightarrow> string list \<Rightarrow> string list" where
  "sortWithScorePolicy t candidates =
    sort_key (\<lambda>n. - (case map_of (i_nodeStats t) n of None \<Rightarrow> 0 | Some s \<Rightarrow> sta_Score s)) candidates"

definition sortWithLoadAvgPolicy :: "imon \<Rightarrow> string list \<Rightarrow> string list" where
  "sortWithLoadAvgPolicy t candidates =
    sort_key (\<lambda>n. - (case map_of (i_nodeStats t) n of None \<Rightarrow> 0 | Some s \<Rightarrow> sta_Load15M s)) candidates"

definition sortWithLastStartPolicy :: "imon \<Rightarrow> string list \<Rightarrow> string list" where
  "sortWithLastStartPolicy t candidates =
    sort_key (\<lambda>n. - (case map_of (i_instStatus t) n of None \<Rightarrow> 0 | Some s \<Rightarrow> st_LastStartedAt s)) candidates"

definition sortWithNodesOrderPolicy :: "imon \<Rightarrow> string list \<Rightarrow> string list" where
  "sortWithNodesOrderPolicy t candidates = filter (\<lambda>node. node \<in> set candidates) (i_scopeNodes t)"

definition shiftOrder :: "string list \<Rightarrow> int \<Rightarrow> string list" where
  "shiftOrder ordered index =
    (let n = length ordered
     in if n = 0 \<or> index \<le> 0 then ordered
        else let i = nat (index mod int n) in drop i ordered @ take i ordered)"

definition sortWithShiftPolicy :: "imon \<Rightarrow> string list \<Rightarrow> string list" where
  "sortWithShiftPolicy t candidates =
    shiftOrder (sortWithNodesOrderPolicy t candidates) (ScalerSliceIndex (i_path t))"

definition sortCandidates :: "imon \<Rightarrow> string list \<Rightarrow> string list" where
  "sortCandidates t candidates =
    (case as_PlacementPolicy (objActor t) of
       NodesOrder \<Rightarrow> sortWithNodesOrderPolicy t candidates
     | Spread \<Rightarrow> sortWithSpreadPolicy t candidates
     | Score \<Rightarrow> sortWithScorePolicy t candidates
     | Shift \<Rightarrow> sortWithShiftPolicy t candidates
     | LastStart \<Rightarrow> sortWithLastStartPolicy t candidates
     | _ \<Rightarrow> [])"

section \<open>Affinities\<close>

definition isRunning :: "status \<Rightarrow> bool" where
  "isRunning avail = status_Is avail [StUp, StWarn, StStandbyUpWithUp]"

definition affineAvail :: "env \<Rightarrow> path \<Rightarrow> string \<Rightarrow> status" where
  "affineAvail e p node =
    (case StatusData_GetByPathAndNode e p node of None \<Rightarrow> StUndef | Some st \<Rightarrow> st_Avail st)"

text \<open>
  \<open>affinityConfig\<close>: the configuration of an object, the one of this node first, then any other
  node's. Objects the caches know nothing of have none.
\<close>

definition affinityConfig :: "env \<Rightarrow> imon \<Rightarrow> path \<Rightarrow> (config \<times> actor_config) option" where
  "affinityConfig e t p =
    (if p = i_path t then map_option (\<lambda>ac. (i_config t, ac)) (cfg_Actor (i_config t))
     else
       let local = (case ConfigData_GetByPathAndNode e p (i_localhost t) of
                      None \<Rightarrow> None
                    | Some cfg \<Rightarrow> map_option (\<lambda>ac. (cfg, ac)) (cfg_Actor cfg))
       in case local of
            Some r \<Rightarrow> Some r
          | None \<Rightarrow>
              (case filter (\<lambda>(_, cfg). cfg_Actor cfg \<noteq> None) (ConfigData_GetByPath e p) of
                 [] \<Rightarrow> None
               | (_, cfg) # _ \<Rightarrow> map_option (\<lambda>ac. (cfg, ac)) (cfg_Actor cfg)))"

definition hardAffinityOf :: "env \<Rightarrow> imon \<Rightarrow> path \<Rightarrow> path list" where
  "hardAffinityOf e t p = (case affinityConfig e t p of None \<Rightarrow> [] | Some (_, ac) \<Rightarrow> ac_HardAffinity ac)"

text \<open>The inner loop of \<open>hardAffinityReach\<close>: the neighbours not seen are seen and queued.\<close>

fun reach_visit :: "path list \<Rightarrow> path list \<times> path list \<Rightarrow> path list \<times> path list" where
  "reach_visit [] st = st"
| "reach_visit (n # ns) (seen, todo) =
    reach_visit ns (if n \<in> set seen then (seen, todo) else (seen @ [n], todo @ [n]))"

text \<open>Every object an affinity can lead to is named by a configuration of the caches.\<close>

definition affinity_universe :: "env \<Rightarrow> imon \<Rightarrow> path set" where
  "affinity_universe e t =
    \<Union> (set ` ac_HardAffinity ` {ac. \<exists>cfg p. affinityConfig e t p = Some (cfg, ac)})"

lemma affinityConfig_range:
  "affinityConfig e t p = Some (cfg, ac) \<Longrightarrow>
    cfg = i_config t \<or> (\<exists>m n. m \<in> snd ` set (e_configData e) \<and> (n, cfg) \<in> set m)"
proof -
  assume a: "affinityConfig e t p = Some (cfg, ac)"
  show ?thesis
  proof (cases "p = i_path t")
    case True
    with a show ?thesis by (auto simp: affinityConfig_def)
  next
    case False
    have sub: "ConfigData_GetByPath e p = [] \<or> ConfigData_GetByPath e p \<in> snd ` set (e_configData e)"
      by (auto simp: ConfigData_GetByPath_def lkp_def split: option.splits dest!: map_of_SomeD intro: rev_image_eqI)
    have "\<exists>n. (n, cfg) \<in> set (ConfigData_GetByPath e p)"
      using a False
      by (auto simp: affinityConfig_def Let_def ConfigData_GetByPathAndNode_def filter_eq_Cons_iff
          split: option.splits list.splits dest: map_of_SomeD)
    then show ?thesis using sub by (metis empty_iff empty_set)
  qed
qed

lemma finite_universe: "finite (affinity_universe e t)"
proof -
  have ac: "affinityConfig e t p = Some (cfg, ac) \<Longrightarrow> cfg_Actor cfg = Some ac" for p cfg ac
    by (auto simp: affinityConfig_def Let_def split: option.splits list.splits if_splits)
  have "{ac. \<exists>cfg p. affinityConfig e t p = Some (cfg, ac)}
      \<subseteq> (\<lambda>cfg. the (cfg_Actor cfg)) ` (insert (i_config t) (\<Union> ((\<lambda>m. snd ` set m) ` snd ` set (e_configData e))))"
    (is "?L \<subseteq> ?R")
  proof
    fix x
    assume "x \<in> ?L"
    then obtain cfg p where c: "affinityConfig e t p = Some (cfg, x)" by auto
    have "cfg \<in> insert (i_config t) (\<Union> ((\<lambda>m. snd ` set m) ` snd ` set (e_configData e)))"
      using affinityConfig_range [OF c] by force
    moreover have "x = the (cfg_Actor cfg)" using ac [OF c] by simp
    ultimately show "x \<in> ?R" by blast
  qed
  moreover have "finite ?R" by simp
  ultimately have "finite ?L" by (rule finite_subset)
  then show ?thesis by (simp add: affinity_universe_def)
qed

lemma hardAffinityOf_universe: "set (hardAffinityOf e t p) \<subseteq> affinity_universe e t"
proof (cases "affinityConfig e t p")
  case (Some r)
  obtain cfg ac where "r = (cfg, ac)" by (cases r)
  with Some show ?thesis unfolding hardAffinityOf_def affinity_universe_def by fastforce
qed (simp add: hardAffinityOf_def)

lemma reach_visit_seen: "set (fst (reach_visit ns (seen, todo))) = set seen \<union> set ns"
  by (induction ns arbitrary: seen todo) auto

lemma reach_visit_todo:
  "(set ns \<subseteq> set seen \<and> reach_visit ns (seen, todo) = (seen, todo)) \<or> \<not> set ns \<subseteq> set seen"
  by (induction ns arbitrary: seen todo) auto

function hardAffinityReach_loop :: "env \<Rightarrow> imon \<Rightarrow> path list \<Rightarrow> path list \<Rightarrow> path list" where
  "hardAffinityReach_loop e t seen [] = seen"
| "hardAffinityReach_loop e t seen (cur # todo) =
    (case reach_visit (hardAffinityOf e t cur) (seen, todo) of
       (seen', todo') \<Rightarrow> hardAffinityReach_loop e t seen' todo')"
  by pat_completeness auto

termination
proof (relation "(\<lambda>(e, t, seen, todo). card (affinity_universe e t - set seen)) <*mlex*>
    measure (\<lambda>(e, t, seen, todo). length todo)", goal_cases)
  case 1
  show ?case by (simp add: wf_mlex)
next
  case prems: (2 e t seen cur todo seen' todo')
  let ?ns = "hardAffinityOf e t cur"
  show ?case
  proof (cases "set ?ns \<subseteq> set seen")
    case True
    then have "(seen', todo') = (seen, todo)" using reach_visit_todo [of ?ns seen todo] prems by auto
    then show ?thesis by (simp add: mlex_prod_def)
  next
    case False
    have seen': "set seen' = set seen \<union> set ?ns" using reach_visit_seen [of ?ns seen todo] prems by (metis fst_conv)
    have "affinity_universe e t - set seen' \<subset> affinity_universe e t - set seen"
      using False seen' hardAffinityOf_universe [of e t cur] by blast
    then have "card (affinity_universe e t - set seen') < card (affinity_universe e t - set seen)"
      by (simp add: psubset_card_mono finite_universe)
    then show ?thesis by (simp add: mlex_prod_def)
  qed
qed

definition hardAffinityReach :: "env \<Rightarrow> imon \<Rightarrow> path \<Rightarrow> path list" where
  "hardAffinityReach e t p = hardAffinityReach_loop e t [p] [p]"

definition affinityPriority :: "env \<Rightarrow> imon \<Rightarrow> path \<Rightarrow> int" where
  "affinityPriority e t p = (case affinityConfig e t p of None \<Rightarrow> 0 | Some (cfg, _) \<Rightarrow> cfg_Priority cfg)"

text \<open>The members of the cycle through \<open>p\<close>, the one starting first ahead; empty stands for nil.\<close>

definition hardAffinityCycle :: "env \<Rightarrow> imon \<Rightarrow> path \<Rightarrow> path list" where
  "hardAffinityCycle e t p =
    (if i_path t \<notin> set (hardAffinityReach e t p) then []
     else
       let members = filter (\<lambda>m. m = i_path t \<or> i_path t \<in> set (hardAffinityReach e t m))
                       (hardAffinityReach e t (i_path t))
       in if list_ex (\<lambda>m. list_ex (\<lambda>(_, st). isRunning (st_Avail st)) (StatusData_GetByPath e m)) members
          then []
          else sort_key (\<lambda>m. (affinityPriority e t m, path_String m)) members)"

text \<open>A violation is the object named, and the object to follow when a cycle is what refuses the start.\<close>

record affinity_violation =
  av_path :: path
  av_follows :: path

definition hard_violation :: "env \<Rightarrow> imon \<Rightarrow> string \<Rightarrow> path \<Rightarrow> affinity_violation list" where
  "hard_violation e t node p =
    (if affineAvail e p node \<in> set [StUp, StStandbyUpWithUp, StNotApplicable] then []
     else case hardAffinityCycle e t p of
       [] \<Rightarrow> [\<lparr>av_path = p, av_follows = path_zero\<rparr>]
     | c # _ \<Rightarrow> if c = i_path t then [] else [\<lparr>av_path = p, av_follows = c\<rparr>])"

definition anti_violation :: "env \<Rightarrow> string \<Rightarrow> path \<Rightarrow> affinity_violation list" where
  "anti_violation e node p =
    (if StatusData_GetByPathAndNode e p node = None then []
     else if affineAvail e p node \<in> set [StDown, StStandbyUp, StStandbyDown, StNotApplicable] then []
     else [\<lparr>av_path = p, av_follows = path_zero\<rparr>])"

definition affinityViolations :: "env \<Rightarrow> imon \<Rightarrow> string \<Rightarrow> affinity_violation list" where
  "affinityViolations e t node =
    (case cfg_Actor (i_config t) of
       None \<Rightarrow> []
     | Some cfg \<Rightarrow>
         concat (map (hard_violation e t node) (ac_HardAffinity cfg))
         @ concat (map (anti_violation e node) (ac_HardAntiAffinity cfg)))"

definition isHardAffinitySatisfied :: "env \<Rightarrow> imon \<Rightarrow> string \<Rightarrow> bool" where
  "isHardAffinitySatisfied e t node = (affinityViolations e t node = [])"

text \<open>
  \<open>hardAffinityRefusal\<close>: whether every node is refused, and the objects to follow. The first node
  refused by nothing, or only by cycles starting elsewhere, accepts.
\<close>

fun refusal_loop :: "env \<Rightarrow> imon \<Rightarrow> bool \<Rightarrow> path list \<Rightarrow> string list \<Rightarrow> bool \<times> path list" where
  "refusal_loop e t refused follows [] = (refused, [])"
| "refusal_loop e t refused follows (node # nodes) =
    (let violations = affinityViolations e t node
     in if violations = [] then (False, [])
        else
          let follows = foldl (\<lambda>fs v. if path_IsZero (av_follows v) \<or> av_follows v \<in> set fs then fs
                                      else fs @ [av_follows v]) follows violations
          in if list_all (\<lambda>v. \<not> path_IsZero (av_follows v)) violations then (False, follows)
             else refusal_loop e t True follows nodes)"

definition hardAffinityRefusal :: "env \<Rightarrow> imon \<Rightarrow> string list \<Rightarrow> bool \<times> path list" where
  "hardAffinityRefusal e t nodes = refusal_loop e t False [] nodes"

definition softAffinityScore :: "env \<Rightarrow> imon \<Rightarrow> string \<Rightarrow> int" where
  "softAffinityScore e t node =
    (case cfg_Actor (i_config t) of
       None \<Rightarrow> 0
     | Some cfg \<Rightarrow>
         int (length (filter (\<lambda>p. isRunning (affineAvail e p node)) (ac_SoftAffinity cfg)))
         - int (length (filter (\<lambda>p. isRunning (affineAvail e p node)) (ac_SoftAntiAffinity cfg))))"

definition sortBySoftAffinity :: "env \<Rightarrow> imon \<Rightarrow> string list \<Rightarrow> string list" where
  "sortBySoftAffinity e t candidates =
    (case cfg_Actor (i_config t) of
       None \<Rightarrow> candidates
     | Some cfg \<Rightarrow>
         if length (ac_SoftAffinity cfg) + length (ac_SoftAntiAffinity cfg) = 0 then candidates
         else sort_key (\<lambda>node. - softAffinityScore e t node) candidates)"

section \<open>Start candidates\<close>

text \<open>The tests on an instance return a value, and whether it is known.\<close>

definition IsInstanceStatusNotApplicable :: "imon \<Rightarrow> string \<Rightarrow> bool \<times> bool" where
  "IsInstanceStatusNotApplicable t node =
    (case map_of (i_instStatus t) node of
       None \<Rightarrow> (False, False)
     | Some st \<Rightarrow> (st_Avail st = StNotApplicable, True))"

definition IsInstanceStartFailed :: "imon \<Rightarrow> string \<Rightarrow> bool \<times> bool" where
  "IsInstanceStartFailed t node =
    (case GetInstanceMonitor t node of
       None \<Rightarrow> (False, False)
     | Some m \<Rightarrow> (mon_State m = MonitorStateStartFailure, True))"

definition IsNodeMonitorStatusRankable :: "imon \<Rightarrow> string \<Rightarrow> bool \<times> bool" where
  "IsNodeMonitorStatusRankable t node =
    (case map_of (i_nodeMonitor t) node of
       None \<Rightarrow> (False, False)
     | Some m \<Rightarrow> (IsRankable (nm_State m), True))"

definition isPeerNodeThawing :: "imon \<Rightarrow> string \<Rightarrow> bool" where
  "isPeerNodeThawing t nodename =
    (if nodename = i_localhost t then False
     else case map_of (i_nodeMonitor t) nodename of
       None \<Rightarrow> False
     | Some m \<Rightarrow> nm_GlobalExpect m = NodeGlobalExpectUnfrozen \<and> nm_State m \<noteq> NodeStateUnfreezeFailure)"

definition daemonMayStart :: "imon \<Rightarrow> string \<Rightarrow> bool" where
  "daemonMayStart t node =
    (\<not> (node_IsFrozen (lkp zero_node_status (i_nodeStatus t) node) \<and> \<not> isPeerNodeThawing t node
        \<or> IsFrozen (lkp zero_status (i_instStatus t) node))
     \<and> \<not> (IsStopped (lkp zero_status (i_instStatus t) node)
          \<or> StoppedResources (lkp zero_status (i_instStatus t) node) \<noteq> []))"

definition isStartCandidate :: "env \<Rightarrow> imon \<Rightarrow> bool \<Rightarrow> string \<Rightarrow> bool" where
  "isStartCandidate e t isDaemonDecision node =
    (case IsInstanceStatusNotApplicable t node of (v, ok) \<Rightarrow>
      if \<not> ok \<or> v then False
      else if map_of (i_nodeStatus t) node = None then False
      else if map_of (i_instStatus t) node = None then False
      else if isDaemonDecision \<and> \<not> daemonMayStart t node then False
      else if provisioned_IsOneOf (st_Provisioned (lkp zero_status (i_instStatus t) node)) [PrMixed, PrFalse]
        then False
      else case IsInstanceStartFailed t node of (failed, ok) \<Rightarrow>
        if \<not> ok \<or> failed then False
        else case IsNodeMonitorStatusRankable t node of (v, ok) \<Rightarrow>
          if \<not> ok \<or> \<not> v then False
          else isHardAffinitySatisfied e t node)"

definition startCandidates :: "env \<Rightarrow> imon \<Rightarrow> bool \<Rightarrow> string list" where
  "startCandidates e t isDaemonDecision =
    sortBySoftAffinity e t (sortCandidates t (filter (isStartCandidate e t isDaemonDecision) (i_scopeNodes t)))"

definition maxLeaders :: "imon \<Rightarrow> int" where
  "maxLeaders t = (if as_Topology (objActor t) = Flex then flexTarget t else 1)"

definition isStartCandidateLeader :: "env \<Rightarrow> imon \<Rightarrow> bool \<Rightarrow> bool" where
  "isStartCandidateLeader e t isDaemonDecision =
    (let i = Index (i_localhost t) (startCandidates e t isDaemonDecision)
     in if i < 0 then False else i < maxLeaders t)"

definition newIsHALeader :: "env \<Rightarrow> imon \<Rightarrow> bool" where
  "newIsHALeader e t = isStartCandidateLeader e t True"

definition isPlacementCandidate :: "imon \<Rightarrow> string \<Rightarrow> bool" where
  "isPlacementCandidate t node =
    (case IsInstanceStatusNotApplicable t node of (v, ok) \<Rightarrow>
      if \<not> ok \<or> v then False
      else case IsInstanceStartFailed t node of (failed, ok) \<Rightarrow> \<not> (\<not> ok \<or> failed))"

definition newIsLeader :: "imon \<Rightarrow> bool" where
  "newIsLeader t =
    (let candidates = sortCandidates t (filter (isPlacementCandidate t) (i_scopeNodes t));
         i = Index (i_localhost t) candidates
     in if i < 0 then False else i < maxLeaders t)"

definition updateIsLeader :: "env \<Rightarrow> imon \<Rightarrow> imon" where
  "updateIsLeader e t =
    (if os_Actor (i_objStatus t) = None then t
     else
       let isLeader = newIsLeader t;
           t = (if isLeader \<noteq> mon_IsLeader (i_state t)
                then t\<lparr>i_change := True, i_state := (i_state t)\<lparr>mon_IsLeader := isLeader\<rparr>\<rparr> else t);
           isHALeader = newIsHALeader e t
       in if isHALeader \<noteq> mon_IsHALeader (i_state t)
          then t\<lparr>i_change := True, i_state := (i_state t)\<lparr>mon_IsHALeader := isHALeader\<rparr>\<rparr> else t)"

section \<open>Startable objects and switch destinations\<close>

definition provisionedInstances :: "imon \<Rightarrow> (instance_status \<Rightarrow> bool) \<Rightarrow> string list" where
  "provisionedInstances t accept =
    filter (\<lambda>node. case map_of (i_instStatus t) node of
       None \<Rightarrow> False
     | Some st \<Rightarrow> provisioned_IsOneOf (st_Provisioned st) [PrTrue, PrNotApplicable] \<and> accept st) (i_scopeNodes t)"

definition peerKnown :: "imon \<Rightarrow> string \<Rightarrow> bool" where
  "peerKnown t peer =
    (peer = i_localhost t \<or> map_of (i_nodeStatus t) peer = None
     \<or> (case map_of (i_instMonitor t) peer of
          None \<Rightarrow> False
        | Some m \<Rightarrow> mon_State m \<noteq> MonitorStateInit)
       \<and> (case map_of (i_instStatus t) peer of
            None \<Rightarrow> False
          | Some st \<Rightarrow> st_UpdatedAt st \<noteq> 0))"

definition hasInstanceMonitorAndStatusOnPeers :: "imon \<Rightarrow> bool" where
  "hasInstanceMonitorAndStatusOnPeers t = list_all (peerKnown t) (cfg_Scope (i_config t))"

definition isHAOrchestrateable :: "imon \<Rightarrow> bool" where
  "isHAOrchestrateable t =
    (if as_Topology (objActor t) = Failover \<and> as_Avail (objActor t) = StWarn then False
     else if as_Provisioned (objActor t) = PrMixed then False
     else if as_Provisioned (objActor t) = PrFalse then False
     else hasInstanceMonitorAndStatusOnPeers t)"

definition isObjectStarted :: "topology \<Rightarrow> status \<Rightarrow> int \<Rightarrow> int \<Rightarrow> bool" where
  "isObjectStarted topo avail upInstancesCount target =
    (case topo of
       Flex \<Rightarrow> upInstancesCount \<ge> target
     | Failover \<Rightarrow> avail = StUp
     | TopInvalid \<Rightarrow> False)"

definition isStarted :: "imon \<Rightarrow> bool" where
  "isStarted t =
    isObjectStarted (as_Topology (objActor t)) (as_Avail (objActor t)) (as_UpInstancesCount (objActor t)) (flexTarget t)"

definition isStartable :: "imon \<Rightarrow> bool" where
  "isStartable t = (if \<not> isHAOrchestrateable t then False else if isStarted t then False else True)"

definition isRequestedStartable :: "env \<Rightarrow> imon \<Rightarrow> bool" where
  "isRequestedStartable e t =
    (if as_Topology (objActor t) = Failover \<and> as_Avail (objActor t) = StWarn then False
     else if as_Provisioned (objActor t) = PrFalse then False
     else if as_Provisioned (objActor t) = PrMixed \<and> provisionedInstances t (\<lambda>_. True) = [] then False
     else if \<not> hasInstanceMonitorAndStatusOnPeers t then False
     else if isStarted t then False
     else \<not> fst (hardAffinityRefusal e t (provisionedInstances t (\<lambda>_. True))))"

text \<open>\<open>nextPlacedAtCandidates\<close>: the wanted nodes a switch can go to, joined by commas; none is an error.\<close>

definition nextPlacedAtCandidates :: "env \<Rightarrow> imon \<Rightarrow> string list \<Rightarrow> string option" where
  "nextPlacedAtCandidates e t want =
    (case e_expand e (Join '' '' want) of
       None \<Rightarrow> None
     | Some nodes \<Rightarrow>
         Some (Join '','' (filter (\<lambda>node. map_of (i_instStatus t) node \<noteq> None
                   \<and> node \<in> set (provisionedInstances t (\<lambda>_. True))
                   \<and> isHardAffinitySatisfied e t node) nodes)))"

definition nextPlacedAtCandidate :: "env \<Rightarrow> imon \<Rightarrow> string" where
  "nextPlacedAtCandidate e t =
    (if as_Topology (objActor t) = Flex then []
     else
       let candidates = sortBySoftAffinity e t (sortCandidates t (i_scopeNodes t));
           provisionedNodes = provisionedInstances t (\<lambda>st. status_Is (st_Avail st) [StDown, StStandbyDown, StStandbyUp])
       in case filter (\<lambda>c. c \<in> set provisionedNodes \<and> isHardAffinitySatisfied e t c) candidates of
            [] \<Rightarrow> []
          | c # _ \<Rightarrow> c)"

section \<open>Lemmas\<close>

subsection \<open>The policies permute the candidates\<close>

lemma distinct_shiftOrder [simp]: "distinct (shiftOrder l i) \<longleftrightarrow> distinct l"
  by (simp add: shiftOrder_def Let_def distinct_append)
    (metis append_take_drop_id distinct_append inf_commute)

lemma set_shiftOrder [simp]: "set (shiftOrder l i) = set l"
proof -
  have "set (drop k l @ take k l) = set l" for k
    by (metis append_take_drop_id set_append Un_commute)
  then show ?thesis by (simp add: shiftOrder_def Let_def)
qed

lemmas policy_defs = sortWithSpreadPolicy_def spreadOrder_def sortWithScorePolicy_def sortWithLastStartPolicy_def
  sortWithNodesOrderPolicy_def sortWithShiftPolicy_def

lemma distinct_sortCandidates: "distinct l \<Longrightarrow> distinct (i_scopeNodes t) \<Longrightarrow> distinct (sortCandidates t l)"
  by (simp add: sortCandidates_def policy_defs split: policy.splits)

lemma set_sortCandidates:
  "set l \<subseteq> set (i_scopeNodes t) \<Longrightarrow>
    set (sortCandidates t l) =
      (if as_PlacementPolicy (objActor t) \<in> {NodesOrder, Spread, Score, Shift, LastStart} then set l else {})"
  by (auto simp: sortCandidates_def policy_defs split: policy.splits)

lemma distinct_sortBySoftAffinity [simp]: "distinct (sortBySoftAffinity e t l) \<longleftrightarrow> distinct l"
  by (simp add: sortBySoftAffinity_def split: option.splits)

lemma set_sortBySoftAffinity [simp]: "set (sortBySoftAffinity e t l) = set l"
  by (simp add: sortBySoftAffinity_def split: option.splits)

lemma distinct_startCandidates: "distinct (i_scopeNodes t) \<Longrightarrow> distinct (startCandidates e t d)"
  by (simp add: startCandidates_def distinct_sortCandidates)

lemma set_startCandidates_subset: "set (startCandidates e t d) \<subseteq> {n \<in> set (i_scopeNodes t). isStartCandidate e t d n}"
proof -
  let ?l = "filter (isStartCandidate e t d) (i_scopeNodes t)"
  have "set ?l \<subseteq> set (i_scopeNodes t)" by auto
  from set_sortCandidates [OF this] show ?thesis by (auto simp: startCandidates_def split: if_splits)
qed

lemma leader_take:
  "distinct (i_scopeNodes t) \<Longrightarrow>
    isStartCandidateLeader e t d \<longleftrightarrow> i_localhost t \<in> set (take (nat (maxLeaders t)) (startCandidates e t d))"
proof
  let ?L = "startCandidates e t d"
  assume d: "distinct (i_scopeNodes t)"
  show "i_localhost t \<in> set (take (nat (maxLeaders t)) ?L)" if "isStartCandidateLeader e t d"
  proof -
    have "i_localhost t \<in> set ?L" "Index (i_localhost t) ?L < maxLeaders t" "0 \<le> Index (i_localhost t) ?L"
      using that Index_negative_iff [of "i_localhost t" ?L]
      by (auto simp: isStartCandidateLeader_def Let_def not_less split: if_splits)
    then show ?thesis by (intro Index_less_take) auto
  qed
  show "isStartCandidateLeader e t d" if "i_localhost t \<in> set (take (nat (maxLeaders t)) ?L)"
  proof -
    have "Index (i_localhost t) ?L < int (nat (maxLeaders t))"
      using d that by (intro take_Index_less distinct_startCandidates)
    moreover have "\<not> Index (i_localhost t) ?L < 0"
      using that Index_negative_iff [of "i_localhost t" ?L] in_set_takeD by metis
    ultimately show ?thesis by (auto simp: isStartCandidateLeader_def Let_def split: if_splits)
  qed
qed

subsection \<open>Managers with the same view of the cluster\<close>

text \<open>
  Two monitors of one object, on two nodes, that know the same of the object, of its instances and
  of the nodes. The monitor of a node is in its own state, and in the peer map of the other.
\<close>

definition same_view :: "env \<Rightarrow> imon \<Rightarrow> env \<Rightarrow> imon \<Rightarrow> bool" where
  "same_view e t e' t' \<longleftrightarrow>
    i_path t = i_path t' \<and> i_scopeNodes t = i_scopeNodes t' \<and> i_objStatus t = i_objStatus t'
    \<and> cfg_Actor (i_config t) = cfg_Actor (i_config t')
    \<and> map_of (i_instStatus t) = map_of (i_instStatus t') \<and> map_of (i_nodeStatus t) = map_of (i_nodeStatus t')
    \<and> map_of (i_nodeMonitor t) = map_of (i_nodeMonitor t') \<and> map_of (i_nodeStats t) = map_of (i_nodeStats t')
    \<and> GetInstanceMonitor t = GetInstanceMonitor t'
    \<and> e_statusData e = e_statusData e' \<and> affinityConfig e t = affinityConfig e' t'"

lemma same_view_lkp:
  assumes "same_view e t e' t'"
  shows "lkp z (i_instStatus t) n = lkp z (i_instStatus t') n" "lkp z' (i_nodeStatus t) n = lkp z' (i_nodeStatus t') n"
  using assms by (simp_all add: same_view_def lkp_def)

lemma same_view_sort: "same_view e t e' t' \<Longrightarrow> sortCandidates t l = sortCandidates t' l"
  by (auto simp: same_view_def sortCandidates_def policy_defs objActor_def split: policy.splits)

lemma same_view_affine: "same_view e t e' t' \<Longrightarrow> affineAvail e p n = affineAvail e' p n"
  by (simp add: same_view_def affineAvail_def StatusData_GetByPathAndNode_def StatusData_GetByPath_def)

lemma reach_loop_cong:
  "hardAffinityOf e t = hardAffinityOf e' t' \<Longrightarrow>
    hardAffinityReach_loop e t seen todo = hardAffinityReach_loop e' t' seen todo"
  by (induction e t seen todo rule: hardAffinityReach_loop.induct) (auto split: prod.splits)

lemma same_view_reach: "same_view e t e' t' \<Longrightarrow> hardAffinityReach e t p = hardAffinityReach e' t' p"
proof -
  assume "same_view e t e' t'"
  then have "hardAffinityOf e t = hardAffinityOf e' t'" by (auto simp: same_view_def hardAffinityOf_def fun_eq_iff)
  then show ?thesis unfolding hardAffinityReach_def by (rule reach_loop_cong)
qed

lemma same_view_cycle: "same_view e t e' t' \<Longrightarrow> hardAffinityCycle e t p = hardAffinityCycle e' t' p"
proof -
  assume v: "same_view e t e' t'"
  have "StatusData_GetByPath e = StatusData_GetByPath e'" "affinityPriority e t = affinityPriority e' t'"
    "i_path t = i_path t'" "hardAffinityReach e t = hardAffinityReach e' t'"
    using v same_view_reach [OF v]
    by (auto simp: same_view_def StatusData_GetByPath_def affinityPriority_def fun_eq_iff)
  then show ?thesis by (simp only: hardAffinityCycle_def)
qed

lemma same_view_violations: "same_view e t e' t' \<Longrightarrow> affinityViolations e t n = affinityViolations e' t' n"
proof -
  assume v: "same_view e t e' t'"
  have h: "hard_violation e t n p = hard_violation e' t' n p" for p
    using same_view_affine [OF v] same_view_cycle [OF v] v [unfolded same_view_def]
    by (simp only: hard_violation_def)
  have a: "anti_violation e n p = anti_violation e' n p" for p
    using same_view_affine [OF v] v
    unfolding anti_violation_def same_view_def StatusData_GetByPathAndNode_def StatusData_GetByPath_def by simp
  have "hard_violation e t n = hard_violation e' t' n" "anti_violation e n = anti_violation e' n" using h a by blast+
  then show ?thesis
    using v by (simp add: affinityViolations_def same_view_def split: option.splits)
qed

lemma same_view_satisfied: "same_view e t e' t' \<Longrightarrow> isHardAffinitySatisfied e t n = isHardAffinitySatisfied e' t' n"
  by (simp add: isHardAffinitySatisfied_def same_view_violations)

lemma same_view_soft: "same_view e t e' t' \<Longrightarrow> sortBySoftAffinity e t l = sortBySoftAffinity e' t' l"
proof -
  assume v: "same_view e t e' t'"
  have "softAffinityScore e t n = softAffinityScore e' t' n" for n
    using v same_view_affine [OF v] by (simp add: softAffinityScore_def same_view_def split: option.splits)
  then show ?thesis using v by (simp add: sortBySoftAffinity_def same_view_def split: option.splits)
qed

lemma same_view_max: "same_view e t e' t' \<Longrightarrow> maxLeaders t = maxLeaders t'"
  by (simp add: same_view_def maxLeaders_def flexTarget_def objActor_def)

text \<open>A node frozen whose thaw is under way, as its peers see it.\<close>

definition thawing :: "imon \<Rightarrow> string \<Rightarrow> bool" where
  "thawing t n \<longleftrightarrow>
    node_IsFrozen (lkp zero_node_status (i_nodeStatus t) n)
    \<and> (case map_of (i_nodeMonitor t) n of None \<Rightarrow> False
       | Some m \<Rightarrow> nm_GlobalExpect m = NodeGlobalExpectUnfrozen \<and> nm_State m \<noteq> NodeStateUnfreezeFailure)"

lemma same_view_candidate:
  assumes "same_view e t e' t'" and "\<not> thawing t (i_localhost t)" and "\<not> thawing t' (i_localhost t')"
  shows "isStartCandidate e t d n = isStartCandidate e' t' d n"
proof -
  note l = same_view_lkp [OF assms(1)]
  have th: "thawing t n = thawing t' n" for n using assms(1) l by (simp add: thawing_def same_view_def)
  have "daemonMayStart t n = daemonMayStart t' n"
    using assms th [of "i_localhost t"] th [of "i_localhost t'"] l
    unfolding daemonMayStart_def isPeerNodeThawing_def thawing_def same_view_def by auto
  moreover have "IsInstanceStatusNotApplicable t n = IsInstanceStatusNotApplicable t' n"
    "IsInstanceStartFailed t n = IsInstanceStartFailed t' n"
    "IsNodeMonitorStatusRankable t n = IsNodeMonitorStatusRankable t' n"
    "map_of (i_nodeStatus t) n = map_of (i_nodeStatus t') n" "map_of (i_instStatus t) n = map_of (i_instStatus t') n"
    using assms(1)
    by (simp_all add: same_view_def IsInstanceStatusNotApplicable_def IsInstanceStartFailed_def IsNodeMonitorStatusRankable_def)
  ultimately show ?thesis
    using same_view_satisfied [OF assms(1)] l by (simp only: isStartCandidate_def)
qed

lemma same_view_startCandidates:
  assumes "same_view e t e' t'" and "\<not> thawing t (i_localhost t)" and "\<not> thawing t' (i_localhost t')"
  shows "startCandidates e t d = startCandidates e' t' d"
proof -
  have "isStartCandidate e t d = isStartCandidate e' t' d" using same_view_candidate [OF assms] by blast
  moreover have "i_scopeNodes t = i_scopeNodes t'" using assms(1) by (simp add: same_view_def)
  ultimately show ?thesis
    unfolding startCandidates_def using same_view_sort [OF assms(1)] same_view_soft [OF assms(1)] by simp
qed

text \<open>A node that is thawing does not lead on the daemon's own initiative.\<close>

lemma thawing_not_leader:
  assumes "thawing t (i_localhost t)" and "distinct (i_scopeNodes t)"
  shows "\<not> isStartCandidateLeader e t True"
proof
  assume "isStartCandidateLeader e t True"
  then have "i_localhost t \<in> set (startCandidates e t True)"
    using leader_take [OF assms(2)] in_set_takeD by metis
  then have "isStartCandidate e t True (i_localhost t)" using set_startCandidates_subset by blast
  then have "daemonMayStart t (i_localhost t)" by (auto simp: isStartCandidate_def split: prod.splits if_splits)
  then show False using assms(1) by (simp add: daemonMayStart_def thawing_def isPeerNodeThawing_def)
qed

section \<open>Properties\<close>

text \<open>A cluster: the monitors of an object on the nodes of its scope, each with its environment.\<close>

definition cluster_view :: "string set \<Rightarrow> (string \<Rightarrow> env \<times> imon) \<Rightarrow> bool" where
  "cluster_view N c \<longleftrightarrow>
    (\<forall>n\<in>N. i_localhost (snd (c n)) = n \<and> distinct (i_scopeNodes (snd (c n))))
    \<and> (\<forall>n\<in>N. \<forall>m\<in>N. same_view (fst (c n)) (snd (c n)) (fst (c m)) (snd (c m)))"

definition ha_leaders :: "string set \<Rightarrow> (string \<Rightarrow> env \<times> imon) \<Rightarrow> bool \<Rightarrow> string set" where
  "ha_leaders N c d = {n \<in> N. isStartCandidateLeader (fst (c n)) (snd (c n)) d}"

text \<open>The leaders that are not thawing all work on one list of candidates.\<close>

lemma leaders_subset_take:
  assumes "cluster_view N c" and "m \<in> N" and "\<not> thawing (snd (c m)) m"
    and "\<And>n. n \<in> ha_leaders N c d \<Longrightarrow> \<not> thawing (snd (c n)) n"
  shows "ha_leaders N c d \<subseteq> set (take (nat (maxLeaders (snd (c m)))) (startCandidates (fst (c m)) (snd (c m)) d))"
proof
  fix n
  assume n: "n \<in> ha_leaders N c d"
  then have nN: "n \<in> N" and lead: "isStartCandidateLeader (fst (c n)) (snd (c n)) d" by (auto simp: ha_leaders_def)
  have loc: "i_localhost (snd (c n)) = n" "i_localhost (snd (c m)) = m" "distinct (i_scopeNodes (snd (c n)))"
    using assms(1,2) nN by (auto simp: cluster_view_def)
  have v: "same_view (fst (c n)) (snd (c n)) (fst (c m)) (snd (c m))" using assms(1,2) nN by (simp add: cluster_view_def)
  have "startCandidates (fst (c n)) (snd (c n)) d = startCandidates (fst (c m)) (snd (c m)) d"
    by (rule same_view_startCandidates [OF v]) (use assms(3) assms(4) [OF n] loc in simp_all)
  then show "n \<in> set (take (nat (maxLeaders (snd (c m)))) (startCandidates (fst (c m)) (snd (c m)) d))"
    using leader_take [OF loc(3)] lead loc same_view_max [OF v] by simp
qed

text \<open>
  C1. Leader election is safe: nodes that see the same cluster never elect together more instances
  to start on the daemon's initiative than the object may run, one for a failover object and the
  flex target for a flex one; and this although a node being thawed does not count itself a
  candidate while its peers already do.
\<close>

theorem election_safety:
  assumes "cluster_view N c" and "m \<in> N"
  shows "card (ha_leaders N c True) \<le> nat (maxLeaders (snd (c m)))
    \<and> (as_Topology (objActor (snd (c m))) \<noteq> Flex \<longrightarrow> card (ha_leaders N c True) \<le> 1)"
proof -
  have nt: "\<not> thawing (snd (c n)) n" if "n \<in> ha_leaders N c True" for n
    using that assms(1) thawing_not_leader [of "snd (c n)" "fst (c n)"] by (auto simp: ha_leaders_def cluster_view_def)
  have 1: "card (ha_leaders N c True) \<le> nat (maxLeaders (snd (c m)))"
  proof (cases "ha_leaders N c True = {}")
    case True
    then show ?thesis by simp
  next
    case False
    then obtain k where k: "k \<in> ha_leaders N c True" by blast
    then have kN: "k \<in> N" by (simp add: ha_leaders_def)
    let ?L = "take (nat (maxLeaders (snd (c k)))) (startCandidates (fst (c k)) (snd (c k)) True)"
    have "ha_leaders N c True \<subseteq> set ?L"
      by (rule leaders_subset_take [OF assms(1) kN nt [OF k]]) (rule nt)
    then have "card (ha_leaders N c True) \<le> card (set ?L)" by (intro card_mono) auto
    also have "\<dots> \<le> length ?L" by (rule card_length)
    also have "\<dots> \<le> nat (maxLeaders (snd (c k)))" by simp
    also have "maxLeaders (snd (c k)) = maxLeaders (snd (c m))"
      using assms kN same_view_max by (metis cluster_view_def)
    finally show ?thesis .
  qed
  moreover have "card (ha_leaders N c True) \<le> 1" if "as_Topology (objActor (snd (c m))) \<noteq> Flex"
    using 1 that by (simp add: maxLeaders_def)
  ultimately show ?thesis by blast
qed


text \<open>
  The load average policy orders nothing: an object that asks for it has no placement leader and
  no start candidate, whatever the state of the cluster, so the daemon never starts it.
\<close>

theorem load_avg_elects_nobody:
  assumes "as_PlacementPolicy (objActor t) = LoadAvg"
  shows "\<not> isStartCandidateLeader e t d \<and> \<not> newIsLeader t"
proof -
  have "sortCandidates t l = []" for l by (simp add: sortCandidates_def assms)
  moreover have "sortBySoftAffinity e t [] = []"
    using set_sortBySoftAffinity [of e t "[]"] by (simp only: list.set(1) set_empty)
  moreover have "Index x ([] :: string list) = - 1" for x by (simp add: Index_def)
  ultimately show ?thesis
    by (simp add: isStartCandidateLeader_def startCandidates_def newIsLeader_def Let_def)
qed

subsection \<open>Witnesses\<close>

definition demo_cluster :: "string \<Rightarrow> env \<times> imon" where
  "demo_cluster n = (demo_env, demo_manager n)"

lemma demo_same_view:
  assumes "n \<in> set demo_nodes" and "m \<in> set demo_nodes"
  shows "same_view demo_env (demo_manager n) demo_env (demo_manager m)"
proof -
  have "affinityConfig demo_env (demo_manager n) = affinityConfig demo_env (demo_manager m)"
    by (simp add: fun_eq_iff affinityConfig_def demo_defs ConfigData_GetByPathAndNode_def ConfigData_GetByPath_def lkp_def)
  moreover have "GetInstanceMonitor (demo_manager n) = GetInstanceMonitor (demo_manager m)"
    using assms by (auto simp: fun_eq_iff GetInstanceMonitor_def demo_defs)
  ultimately show ?thesis by (simp add: same_view_def demo_manager_def start_def)
qed

lemma demo_cluster_view: "cluster_view (set demo_nodes) demo_cluster"
  unfolding cluster_view_def demo_cluster_def
  using demo_same_view by (simp add: demo_manager_def start_def demo_nodes_def)

lemma demo_not_thawing: "\<not> thawing (demo_manager n) m"
  by (simp add: thawing_def demo_defs node_IsFrozen_def lkp_def zero_node_status_def)

theorem election_safety_witness: "card (ha_leaders (set demo_nodes) demo_cluster True) \<le> 1"
  using election_safety [OF demo_cluster_view, of "''n1''"]
  by (simp add: demo_nodes_def demo_cluster_def demo_manager_def start_def objActor_def)

lemma demo_candidates: "startCandidates demo_env (demo_manager ''n1'') True = [''n1'', ''n2'']"
  by code_simp


theorem load_avg_elects_nobody_witness:
  "\<not> newIsLeader (demo_manager ''n1''
     \<lparr>i_objStatus := zero_object_status\<lparr>os_Actor := Some (zero_actor_status\<lparr>as_PlacementPolicy := LoadAvg\<rparr>)\<rparr>\<rparr>)"
  using load_avg_elects_nobody [of "demo_manager ''n1''
     \<lparr>i_objStatus := zero_object_status\<lparr>os_Actor := Some (zero_actor_status\<lparr>as_PlacementPolicy := LoadAvg\<rparr>)\<rparr>\<rparr>"]
  by (simp add: objActor_def)

end
