(* ===== verification/Imon_Frame.thy ===== *)
theory Imon_Frame
  imports Imon_State
begin

text \<open>
  What the elementary operations of a manager leave alone, as rewrite rules on its fields, and the
  commands forked so far as a function of the trace. The proofs about the orchestrations use these
  rules instead of the definitions of the operations.
\<close>

section \<open>Commands forked\<close>

fun exec_of :: "effect \<Rightarrow> string list list" where
  "exec_of (Exec args code) = [args]"
| "exec_of _ = []"

definition execs :: "imon \<Rightarrow> string list list" where
  "execs t = concat (map exec_of (i_trace t))"

lemma execs_emit [simp]: "execs (emit x t) = execs t @ exec_of x"
  by (simp add: execs_def emit_def)

lemma execs_trace: "i_trace t' = i_trace t \<Longrightarrow> execs t' = execs t"
  by (simp add: execs_def)

section \<open>The part of a manager a publication leaves alone\<close>

text \<open>
  Publishing the monitor changes the refresh schedule, the local expectation, the previous monitor
  and the times of the monitor, and may add a publication to the trace. The rest is the core.
\<close>

definition core :: "imon \<Rightarrow> imon" where
  "core t = t
    \<lparr>i_change := False, i_prev := zero_monitor, i_trace := [], i_eventRefreshScheduled := False,
     i_eventRefreshTimer := None, i_eventRefreshDeferred := False,
     i_state := (i_state t)\<lparr>mon_LocalExpect := MonitorLocalExpectInit, mon_LocalExpectUpdatedAt := 0,
       mon_StateUpdatedAt := 0, mon_MonitorActionExecutedAt := 0, mon_UpdatedAt := 0\<rparr>\<rparr>"

lemma core_sel:
  "i_path (core t) = i_path t" "i_localhost (core t) = i_localhost t"
  "i_pending (core t) = i_pending t" "i_readyWaits (core t) = i_readyWaits t"
  "i_config (core t) = i_config t" "i_affinitySubscribed (core t) = i_affinitySubscribed t"
  "i_affinityAvail (core t) = i_affinityAvail t" "i_instStatus (core t) = i_instStatus t"
  "i_instMonitor (core t) = i_instMonitor t" "i_nodeMonitor (core t) = i_nodeMonitor t"
  "i_nodeStats (core t) = i_nodeStats t" "i_nodeStatus (core t) = i_nodeStatus t"
  "i_readyDuration (core t) = i_readyDuration t" "i_scopeNodes (core t) = i_scopeNodes t"
  "i_objStatus (core t) = i_objStatus t" "i_outdatedTimer (core t) = i_outdatedTimer t"
  "i_outdatedRefreshedAt (core t) = i_outdatedRefreshedAt t"
  "i_leaderWaited (core t) = i_leaderWaited t" "i_waitSyncsTimer (core t) = i_waitSyncsTimer t"
  "i_waitSyncsSince (core t) = i_waitSyncsSince t"
  "i_stopRefusedForSyncs (core t) = i_stopRefusedForSyncs t"
  "i_waitDestinationTimer (core t) = i_waitDestinationTimer t"
  "i_waitDestinationSince (core t) = i_waitDestinationSince t"
  "i_statusQueued (core t) = i_statusQueued t" "i_needStatusQ (core t) = i_needStatusQ t"
  "i_peerDrop (core t) = i_peerDrop t" "i_peerDropAt (core t) = i_peerDropAt t"
  "i_stonithAt (core t) = i_stonithAt t" "i_priors (core t) = i_priors t"
  "i_orchestrationPending (core t) = i_orchestrationPending t"
  "i_orchestrationAborted (core t) = i_orchestrationAborted t"
  "i_idleAfterOrchestration (core t) = i_idleAfterOrchestration t"
  "i_endWithDeletion (core t) = i_endWithDeletion t"
  "i_delayTimerEnabled (core t) = i_delayTimerEnabled t"
  "i_delayOrchestrateEnabled (core t) = i_delayOrchestrateEnabled t"
  "i_delayPreUpdateEnabled (core t) = i_delayPreUpdateEnabled t"
  "i_delayUpdateEnabled (core t) = i_delayUpdateEnabled t"
  "i_initialMonitorAction (core t) = i_initialMonitorAction t"
  "i_standbyOr (core t) = i_standbyOr t" "i_regularOr (core t) = i_regularOr t"
  "i_isPeerFrozenMerged (core t) = i_isPeerFrozenMerged t"
  "i_isPeerStoppedMerged (core t) = i_isPeerStoppedMerged t"
  "i_isBootStartPending (core t) = i_isBootStartPending t"
  "i_bootStartWaitSince (core t) = i_bootStartWaitSince t"
  "i_stoppedFile (core t) = i_stoppedFile t" "i_frozenFile (core t) = i_frozenFile t"
  "i_cmds (core t) = i_cmds t" "mon_GlobalExpect (i_state (core t)) = mon_GlobalExpect (i_state t)"
  "mon_GlobalExpectUpdatedAt (i_state (core t)) = mon_GlobalExpectUpdatedAt (i_state t)"
  "mon_GlobalExpectOptions (i_state (core t)) = mon_GlobalExpectOptions (i_state t)"
  "mon_IsLeader (i_state (core t)) = mon_IsLeader (i_state t)"
  "mon_IsHALeader (i_state (core t)) = mon_IsHALeader (i_state t)"
  "mon_OrchestrationID (i_state (core t)) = mon_OrchestrationID (i_state t)"
  "mon_OrchestrationIsDone (i_state (core t)) = mon_OrchestrationIsDone (i_state t)"
  "mon_SessionID (i_state (core t)) = mon_SessionID (i_state t)"
  "mon_State (i_state (core t)) = mon_State (i_state t)"
  "mon_IsPreserved (i_state (core t)) = mon_IsPreserved (i_state t)"
  "mon_Resources (i_state (core t)) = mon_Resources (i_state t)"
  "mon_Parents (i_state (core t)) = mon_Parents (i_state t)"
  "mon_Children (i_state (core t)) = mon_Children (i_state t)"
  by (simp_all add: core_def)

lemma core_arg: "(\<And>t. F (core t) = F t) \<Longrightarrow> core t = core t' \<Longrightarrow> F t = F t'"
  by metis

lemma coreD:
  assumes "core t = core t'"
  shows
  "i_path t = i_path t'" "i_localhost t = i_localhost t'" "i_pending t = i_pending t'"
  "i_readyWaits t = i_readyWaits t'" "i_config t = i_config t'"
  "i_affinitySubscribed t = i_affinitySubscribed t'" "i_affinityAvail t = i_affinityAvail t'"
  "i_instStatus t = i_instStatus t'" "i_instMonitor t = i_instMonitor t'"
  "i_nodeMonitor t = i_nodeMonitor t'" "i_nodeStats t = i_nodeStats t'"
  "i_nodeStatus t = i_nodeStatus t'" "i_readyDuration t = i_readyDuration t'"
  "i_scopeNodes t = i_scopeNodes t'" "i_objStatus t = i_objStatus t'"
  "i_outdatedTimer t = i_outdatedTimer t'" "i_outdatedRefreshedAt t = i_outdatedRefreshedAt t'"
  "i_leaderWaited t = i_leaderWaited t'" "i_waitSyncsTimer t = i_waitSyncsTimer t'"
  "i_waitSyncsSince t = i_waitSyncsSince t'" "i_stopRefusedForSyncs t = i_stopRefusedForSyncs t'"
  "i_waitDestinationTimer t = i_waitDestinationTimer t'"
  "i_waitDestinationSince t = i_waitDestinationSince t'" "i_statusQueued t = i_statusQueued t'"
  "i_needStatusQ t = i_needStatusQ t'" "i_peerDrop t = i_peerDrop t'"
  "i_peerDropAt t = i_peerDropAt t'" "i_stonithAt t = i_stonithAt t'" "i_priors t = i_priors t'"
  "i_orchestrationPending t = i_orchestrationPending t'"
  "i_orchestrationAborted t = i_orchestrationAborted t'"
  "i_idleAfterOrchestration t = i_idleAfterOrchestration t'"
  "i_endWithDeletion t = i_endWithDeletion t'" "i_delayTimerEnabled t = i_delayTimerEnabled t'"
  "i_delayOrchestrateEnabled t = i_delayOrchestrateEnabled t'"
  "i_delayPreUpdateEnabled t = i_delayPreUpdateEnabled t'"
  "i_delayUpdateEnabled t = i_delayUpdateEnabled t'"
  "i_initialMonitorAction t = i_initialMonitorAction t'" "i_standbyOr t = i_standbyOr t'"
  "i_regularOr t = i_regularOr t'" "i_isPeerFrozenMerged t = i_isPeerFrozenMerged t'"
  "i_isPeerStoppedMerged t = i_isPeerStoppedMerged t'"
  "i_isBootStartPending t = i_isBootStartPending t'"
  "i_bootStartWaitSince t = i_bootStartWaitSince t'" "i_stoppedFile t = i_stoppedFile t'"
  "i_frozenFile t = i_frozenFile t'" "i_cmds t = i_cmds t'"
  "mon_GlobalExpect (i_state t) = mon_GlobalExpect (i_state t')"
  "mon_GlobalExpectUpdatedAt (i_state t) = mon_GlobalExpectUpdatedAt (i_state t')"
  "mon_GlobalExpectOptions (i_state t) = mon_GlobalExpectOptions (i_state t')"
  "mon_IsLeader (i_state t) = mon_IsLeader (i_state t')"
  "mon_IsHALeader (i_state t) = mon_IsHALeader (i_state t')"
  "mon_OrchestrationID (i_state t) = mon_OrchestrationID (i_state t')"
  "mon_OrchestrationIsDone (i_state t) = mon_OrchestrationIsDone (i_state t')"
  "mon_SessionID (i_state t) = mon_SessionID (i_state t')"
  "mon_State (i_state t) = mon_State (i_state t')"
  "mon_IsPreserved (i_state t) = mon_IsPreserved (i_state t')"
  "mon_Resources (i_state t) = mon_Resources (i_state t')"
  "mon_Parents (i_state t) = mon_Parents (i_state t')"
  "mon_Children (i_state t) = mon_Children (i_state t')"
  by (rule core_arg [OF _ assms], rule core_sel)+

lemma core_mstate: "core t = core t' \<Longrightarrow> mstate t = mstate t'"
  by (rule coreD)

lemma core_path: "core t = core t' \<Longrightarrow> i_path t = i_path t'"
  by (rule coreD)

lemma core_cmds: "core t = core t' \<Longrightarrow> i_cmds t = i_cmds t'"
  by (rule coreD)

lemma core_options: "core t = core t' \<Longrightarrow> mon_GlobalExpectOptions (i_state t) = mon_GlobalExpectOptions (i_state t')"
  by (rule coreD)

lemma set_mstate_frame [simp]:
  "mstate (set_mstate s t) = s"
  "i_path (set_mstate s t) = i_path t" "i_localhost (set_mstate s t) = i_localhost t"
  "i_pending (set_mstate s t) = i_pending t" "i_readyWaits (set_mstate s t) = i_readyWaits t"
  "i_config (set_mstate s t) = i_config t"
  "i_affinitySubscribed (set_mstate s t) = i_affinitySubscribed t"
  "i_affinityAvail (set_mstate s t) = i_affinityAvail t"
  "i_instStatus (set_mstate s t) = i_instStatus t"
  "i_instMonitor (set_mstate s t) = i_instMonitor t"
  "i_nodeMonitor (set_mstate s t) = i_nodeMonitor t" "i_nodeStats (set_mstate s t) = i_nodeStats t"
  "i_nodeStatus (set_mstate s t) = i_nodeStatus t"
  "i_readyDuration (set_mstate s t) = i_readyDuration t"
  "i_scopeNodes (set_mstate s t) = i_scopeNodes t" "i_objStatus (set_mstate s t) = i_objStatus t"
  "i_outdatedTimer (set_mstate s t) = i_outdatedTimer t"
  "i_outdatedRefreshedAt (set_mstate s t) = i_outdatedRefreshedAt t"
  "i_leaderWaited (set_mstate s t) = i_leaderWaited t"
  "i_waitSyncsTimer (set_mstate s t) = i_waitSyncsTimer t"
  "i_waitSyncsSince (set_mstate s t) = i_waitSyncsSince t"
  "i_stopRefusedForSyncs (set_mstate s t) = i_stopRefusedForSyncs t"
  "i_waitDestinationTimer (set_mstate s t) = i_waitDestinationTimer t"
  "i_waitDestinationSince (set_mstate s t) = i_waitDestinationSince t"
  "i_statusQueued (set_mstate s t) = i_statusQueued t"
  "i_needStatusQ (set_mstate s t) = i_needStatusQ t" "i_peerDrop (set_mstate s t) = i_peerDrop t"
  "i_peerDropAt (set_mstate s t) = i_peerDropAt t" "i_stonithAt (set_mstate s t) = i_stonithAt t"
  "i_priors (set_mstate s t) = i_priors t"
  "i_orchestrationPending (set_mstate s t) = i_orchestrationPending t"
  "i_orchestrationAborted (set_mstate s t) = i_orchestrationAborted t"
  "i_idleAfterOrchestration (set_mstate s t) = i_idleAfterOrchestration t"
  "i_endWithDeletion (set_mstate s t) = i_endWithDeletion t"
  "i_delayTimerEnabled (set_mstate s t) = i_delayTimerEnabled t"
  "i_delayOrchestrateEnabled (set_mstate s t) = i_delayOrchestrateEnabled t"
  "i_delayPreUpdateEnabled (set_mstate s t) = i_delayPreUpdateEnabled t"
  "i_delayUpdateEnabled (set_mstate s t) = i_delayUpdateEnabled t"
  "i_initialMonitorAction (set_mstate s t) = i_initialMonitorAction t"
  "i_standbyOr (set_mstate s t) = i_standbyOr t" "i_regularOr (set_mstate s t) = i_regularOr t"
  "i_isPeerFrozenMerged (set_mstate s t) = i_isPeerFrozenMerged t"
  "i_isPeerStoppedMerged (set_mstate s t) = i_isPeerStoppedMerged t"
  "i_isBootStartPending (set_mstate s t) = i_isBootStartPending t"
  "i_bootStartWaitSince (set_mstate s t) = i_bootStartWaitSince t"
  "i_stoppedFile (set_mstate s t) = i_stoppedFile t"
  "i_frozenFile (set_mstate s t) = i_frozenFile t" "i_cmds (set_mstate s t) = i_cmds t"
  "i_trace (set_mstate s t) = i_trace t" "i_change (set_mstate s t) = i_change t"
  "mon_GlobalExpect (i_state (set_mstate s t)) = mon_GlobalExpect (i_state t)"
  "mon_GlobalExpectUpdatedAt (i_state (set_mstate s t)) = mon_GlobalExpectUpdatedAt (i_state t)"
  "mon_GlobalExpectOptions (i_state (set_mstate s t)) = mon_GlobalExpectOptions (i_state t)"
  "mon_IsLeader (i_state (set_mstate s t)) = mon_IsLeader (i_state t)"
  "mon_IsHALeader (i_state (set_mstate s t)) = mon_IsHALeader (i_state t)"
  "mon_LocalExpect (i_state (set_mstate s t)) = mon_LocalExpect (i_state t)"
  "mon_LocalExpectUpdatedAt (i_state (set_mstate s t)) = mon_LocalExpectUpdatedAt (i_state t)"
  "mon_OrchestrationID (i_state (set_mstate s t)) = mon_OrchestrationID (i_state t)"
  "mon_OrchestrationIsDone (i_state (set_mstate s t)) = mon_OrchestrationIsDone (i_state t)"
  "mon_SessionID (i_state (set_mstate s t)) = mon_SessionID (i_state t)"
  "mon_StateUpdatedAt (i_state (set_mstate s t)) = mon_StateUpdatedAt (i_state t)"
  "mon_MonitorActionExecutedAt (i_state (set_mstate s t)) = mon_MonitorActionExecutedAt (i_state t)"
  "mon_IsPreserved (i_state (set_mstate s t)) = mon_IsPreserved (i_state t)"
  "mon_Resources (i_state (set_mstate s t)) = mon_Resources (i_state t)"
  "mon_UpdatedAt (i_state (set_mstate s t)) = mon_UpdatedAt (i_state t)"
  "mon_Parents (i_state (set_mstate s t)) = mon_Parents (i_state t)"
  "mon_Children (i_state (set_mstate s t)) = mon_Children (i_state t)"
  by (simp_all add: set_mstate_def)

lemma emit_frame [simp]:
  "i_trace (emit x t) = i_trace t @ [x]"
  "i_path (emit x t) = i_path t" "i_localhost (emit x t) = i_localhost t"
  "i_pending (emit x t) = i_pending t" "i_readyWaits (emit x t) = i_readyWaits t"
  "i_config (emit x t) = i_config t" "i_affinitySubscribed (emit x t) = i_affinitySubscribed t"
  "i_affinityAvail (emit x t) = i_affinityAvail t" "i_instStatus (emit x t) = i_instStatus t"
  "i_instMonitor (emit x t) = i_instMonitor t" "i_nodeMonitor (emit x t) = i_nodeMonitor t"
  "i_nodeStats (emit x t) = i_nodeStats t" "i_nodeStatus (emit x t) = i_nodeStatus t"
  "i_readyDuration (emit x t) = i_readyDuration t" "i_scopeNodes (emit x t) = i_scopeNodes t"
  "i_objStatus (emit x t) = i_objStatus t" "i_outdatedTimer (emit x t) = i_outdatedTimer t"
  "i_outdatedRefreshedAt (emit x t) = i_outdatedRefreshedAt t"
  "i_leaderWaited (emit x t) = i_leaderWaited t" "i_waitSyncsTimer (emit x t) = i_waitSyncsTimer t"
  "i_waitSyncsSince (emit x t) = i_waitSyncsSince t"
  "i_stopRefusedForSyncs (emit x t) = i_stopRefusedForSyncs t"
  "i_waitDestinationTimer (emit x t) = i_waitDestinationTimer t"
  "i_waitDestinationSince (emit x t) = i_waitDestinationSince t"
  "i_statusQueued (emit x t) = i_statusQueued t" "i_needStatusQ (emit x t) = i_needStatusQ t"
  "i_peerDrop (emit x t) = i_peerDrop t" "i_peerDropAt (emit x t) = i_peerDropAt t"
  "i_stonithAt (emit x t) = i_stonithAt t" "i_priors (emit x t) = i_priors t"
  "i_orchestrationPending (emit x t) = i_orchestrationPending t"
  "i_orchestrationAborted (emit x t) = i_orchestrationAborted t"
  "i_idleAfterOrchestration (emit x t) = i_idleAfterOrchestration t"
  "i_endWithDeletion (emit x t) = i_endWithDeletion t"
  "i_delayTimerEnabled (emit x t) = i_delayTimerEnabled t"
  "i_delayOrchestrateEnabled (emit x t) = i_delayOrchestrateEnabled t"
  "i_delayPreUpdateEnabled (emit x t) = i_delayPreUpdateEnabled t"
  "i_delayUpdateEnabled (emit x t) = i_delayUpdateEnabled t"
  "i_initialMonitorAction (emit x t) = i_initialMonitorAction t"
  "i_standbyOr (emit x t) = i_standbyOr t" "i_regularOr (emit x t) = i_regularOr t"
  "i_isPeerFrozenMerged (emit x t) = i_isPeerFrozenMerged t"
  "i_isPeerStoppedMerged (emit x t) = i_isPeerStoppedMerged t"
  "i_isBootStartPending (emit x t) = i_isBootStartPending t"
  "i_bootStartWaitSince (emit x t) = i_bootStartWaitSince t"
  "i_stoppedFile (emit x t) = i_stoppedFile t" "i_frozenFile (emit x t) = i_frozenFile t"
  "i_cmds (emit x t) = i_cmds t" "i_state (emit x t) = i_state t"
  "i_change (emit x t) = i_change t"
  by (simp_all add: emit_def)

lemma execs_set_mstate [simp]: "execs (set_mstate s t) = execs t"
  by (rule execs_trace) simp

section \<open>Operations that keep the core\<close>

lemma core_simps [simp]:
  "core (t\<lparr>i_change := b\<rparr>) = core t" "core (t\<lparr>i_prev := m\<rparr>) = core t" "core (emit x t) = core t"
  "core (t\<lparr>i_eventRefreshScheduled := b\<rparr>) = core t" "core (t\<lparr>i_eventRefreshTimer := tm\<rparr>) = core t"
  "core (t\<lparr>i_eventRefreshDeferred := b\<rparr>) = core t"
  by (simp_all add: core_def emit_def)

lemma core_state_simps [simp]:
  "core (t\<lparr>i_state := (i_state t)\<lparr>mon_LocalExpect := le\<rparr>\<rparr>) = core t"
  "core (t\<lparr>i_state := (i_state t)\<lparr>mon_LocalExpectUpdatedAt := tm\<rparr>\<rparr>) = core t"
  "core (t\<lparr>i_state := (i_state t)\<lparr>mon_StateUpdatedAt := tm\<rparr>\<rparr>) = core t"
  "core (t\<lparr>i_state := (i_state t)\<lparr>mon_MonitorActionExecutedAt := tm\<rparr>\<rparr>) = core t"
  "core (t\<lparr>i_state := (i_state t)\<lparr>mon_UpdatedAt := tm\<rparr>\<rparr>) = core t"
  by (simp_all add: core_def)

lemma scheduleEventRefresh_core [simp]: "core (scheduleEventRefresh e t) = core t"
  by (simp add: scheduleEventRefresh_def core_def)

lemma replayDeferredEventRefresh_core [simp]: "core (replayDeferredEventRefresh e t) = core t"
  by (simp add: replayDeferredEventRefresh_def)

lemma setLocalExpect_core [simp]: "core (setLocalExpect le t) = core t"
  by (simp add: setLocalExpect_def core_def)

lemma enableMonitor_core [simp]: "core (enableMonitor t) = core t"
  by (simp add: enableMonitor_def)

lemma disableMonitor_core [simp]: "core (disableMonitor t) = core t"
  by (simp add: disableMonitor_def)

lemma update_core [simp]: "core (update e t) = core t"
  by (simp add: update_def Let_def)

lemma updateIfChange_core [simp]: "core (updateIfChange e t) = core t"
proof -
  have "core (let t = t\<lparr>i_change := False\<rparr>; prv = i_prev t; new = i_state t;
      t = (if mon_LocalExpect new \<noteq> mon_LocalExpect prv
           then t\<lparr>i_state := (i_state t)\<lparr>mon_LocalExpectUpdatedAt := e_now e\<rparr>\<rparr> else t);
      t = (if mon_State new \<noteq> mon_State prv
           then t\<lparr>i_state := (i_state t)\<lparr>mon_StateUpdatedAt := e_now e\<rparr>\<rparr> else t)
    in update e (t\<lparr>i_prev := i_state t\<rparr>)) = core t" for t
    by (simp add: Let_def) (simp add: core_def)
  then show ?thesis by (simp add: updateIfChange_def Let_def)
qed

lemma transitionTo_core [simp]: "core (transitionTo e s t) = core (set_mstate s t)"
  by (simp add: transitionTo_def) (simp add: core_def set_mstate_def)

lemmas updateIfChange_frame [simp] = coreD [OF updateIfChange_core]
lemmas transitionTo_frame [simp] = coreD [OF transitionTo_core]
lemmas enableMonitor_frame [simp] = coreD [OF enableMonitor_core]
lemmas disableMonitor_frame [simp] = coreD [OF disableMonitor_core]
lemmas scheduleEventRefresh_frame [simp] = coreD [OF scheduleEventRefresh_core]

section \<open>Operations that fork nothing\<close>

lemma execs_refresh [simp]:
  "execs (scheduleEventRefresh e t) = execs t" "execs (replayDeferredEventRefresh e t) = execs t"
  "execs (setLocalExpect le t) = execs t" "execs (enableMonitor t) = execs t" "execs (disableMonitor t) = execs t"
  by (rule execs_trace, simp add: scheduleEventRefresh_def replayDeferredEventRefresh_def setLocalExpect_def
      enableMonitor_def disableMonitor_def)+

lemma execs_update [simp]: "execs (update e t) = execs t"
  by (simp add: update_def Let_def execs_def emit_def)

lemma execs_update_simps [simp]:
  "execs (t\<lparr>i_state := v1\<rparr>) = execs t"
  "execs (t\<lparr>i_prev := v2\<rparr>) = execs t" "execs (t\<lparr>i_path := v3\<rparr>) = execs t"
  "execs (t\<lparr>i_localhost := v4\<rparr>) = execs t"
  "execs (t\<lparr>i_change := v5\<rparr>) = execs t"
  "execs (t\<lparr>i_pending := v6\<rparr>) = execs t"
  "execs (t\<lparr>i_readyWaits := v7\<rparr>) = execs t"
  "execs (t\<lparr>i_config := v8\<rparr>) = execs t"
  "execs (t\<lparr>i_affinitySubscribed := v9\<rparr>) = execs t"
  "execs (t\<lparr>i_affinityAvail := v10\<rparr>) = execs t"
  "execs (t\<lparr>i_instStatus := v11\<rparr>) = execs t"
  "execs (t\<lparr>i_instMonitor := v12\<rparr>) = execs t"
  "execs (t\<lparr>i_nodeMonitor := v13\<rparr>) = execs t"
  "execs (t\<lparr>i_nodeStats := v14\<rparr>) = execs t"
  "execs (t\<lparr>i_nodeStatus := v15\<rparr>) = execs t"
  "execs (t\<lparr>i_readyDuration := v16\<rparr>) = execs t"
  "execs (t\<lparr>i_scopeNodes := v17\<rparr>) = execs t"
  "execs (t\<lparr>i_objStatus := v18\<rparr>) = execs t"
  "execs (t\<lparr>i_outdatedTimer := v19\<rparr>) = execs t"
  "execs (t\<lparr>i_outdatedRefreshedAt := v20\<rparr>) = execs t"
  "execs (t\<lparr>i_eventRefreshTimer := v21\<rparr>) = execs t"
  "execs (t\<lparr>i_eventRefreshScheduled := v22\<rparr>) = execs t"
  "execs (t\<lparr>i_eventRefreshDeferred := v23\<rparr>) = execs t"
  "execs (t\<lparr>i_leaderWaited := v24\<rparr>) = execs t"
  "execs (t\<lparr>i_waitSyncsTimer := v25\<rparr>) = execs t"
  "execs (t\<lparr>i_waitSyncsSince := v26\<rparr>) = execs t"
  "execs (t\<lparr>i_stopRefusedForSyncs := v27\<rparr>) = execs t"
  "execs (t\<lparr>i_waitDestinationTimer := v28\<rparr>) = execs t"
  "execs (t\<lparr>i_waitDestinationSince := v29\<rparr>) = execs t"
  "execs (t\<lparr>i_statusQueued := v30\<rparr>) = execs t"
  "execs (t\<lparr>i_needStatusQ := v31\<rparr>) = execs t"
  "execs (t\<lparr>i_peerDrop := v32\<rparr>) = execs t"
  "execs (t\<lparr>i_peerDropAt := v33\<rparr>) = execs t"
  "execs (t\<lparr>i_stonithAt := v34\<rparr>) = execs t"
  "execs (t\<lparr>i_priors := v35\<rparr>) = execs t"
  "execs (t\<lparr>i_orchestrationPending := v36\<rparr>) = execs t"
  "execs (t\<lparr>i_orchestrationAborted := v37\<rparr>) = execs t"
  "execs (t\<lparr>i_idleAfterOrchestration := v38\<rparr>) = execs t"
  "execs (t\<lparr>i_endWithDeletion := v39\<rparr>) = execs t"
  "execs (t\<lparr>i_delayTimerEnabled := v40\<rparr>) = execs t"
  "execs (t\<lparr>i_delayOrchestrateEnabled := v41\<rparr>) = execs t"
  "execs (t\<lparr>i_delayPreUpdateEnabled := v42\<rparr>) = execs t"
  "execs (t\<lparr>i_delayUpdateEnabled := v43\<rparr>) = execs t"
  "execs (t\<lparr>i_initialMonitorAction := v44\<rparr>) = execs t"
  "execs (t\<lparr>i_standbyOr := v45\<rparr>) = execs t"
  "execs (t\<lparr>i_regularOr := v46\<rparr>) = execs t"
  "execs (t\<lparr>i_isPeerFrozenMerged := v47\<rparr>) = execs t"
  "execs (t\<lparr>i_isPeerStoppedMerged := v48\<rparr>) = execs t"
  "execs (t\<lparr>i_isBootStartPending := v49\<rparr>) = execs t"
  "execs (t\<lparr>i_bootStartWaitSince := v50\<rparr>) = execs t"
  "execs (t\<lparr>i_stoppedFile := v51\<rparr>) = execs t"
  "execs (t\<lparr>i_frozenFile := v52\<rparr>) = execs t"
  "execs (t\<lparr>i_cmds := v53\<rparr>) = execs t"
  by (simp_all add: execs_def)

lemma execs_updateIfChange [simp]: "execs (updateIfChange e t) = execs t"
  by (simp add: updateIfChange_def Let_def)

lemma execs_transitionTo [simp]: "execs (transitionTo e s t) = execs t"
  by (simp add: transitionTo_def)

lemma execs_orchestrateAfterAction [simp]: "execs (orchestrateAfterAction e a b t) = execs t"
  by (simp add: orchestrateAfterAction_def)

lemma execs_orch_done [simp]: "execs (orch_done t) = execs t"
  by (simp add: orch_done_def execs_def)

lemma execs_doneAndIdle [simp]: "execs (doneAndIdle t) = execs t"
  by (simp add: doneAndIdle_def Let_def)

lemma execs_pending [simp]: "execs (clearPending t) = execs t" "execs (createPendingWithDuration e d t) = execs t"
  by (simp_all add: clearPending_def createPendingWithDuration_def execs_def split: option.splits)

lemma orch_done_frame [simp]:
  "mstate (orch_done t) = mstate t" "i_cmds (orch_done t) = i_cmds t" "i_instStatus (orch_done t) = i_instStatus t"
  "i_localhost (orch_done t) = i_localhost t" "i_instMonitor (orch_done t) = i_instMonitor t"
  by (simp_all add: orch_done_def)

lemma orchestrateAfterAction_frame [simp]:
  "i_state (orchestrateAfterAction e a b t) = i_state t"
  "i_instStatus (orchestrateAfterAction e a b t) = i_instStatus t"
  by (simp_all add: orchestrateAfterAction_def)

section \<open>The trace grows\<close>

definition grows :: "imon \<Rightarrow> imon \<Rightarrow> bool" where
  "grows t t' \<longleftrightarrow> (\<exists>l. i_trace t' = i_trace t @ l)"

lemma grows_same: "i_trace t' = i_trace t \<Longrightarrow> grows t t'"
  by (simp add: grows_def)

lemma grows_refl [simp]: "grows t t"
  by (simp add: grows_def)

lemma grows_trans: "grows t t' \<Longrightarrow> grows t' t'' \<Longrightarrow> grows t t''"
  by (auto simp: grows_def)

lemma grows_emit: "grows t (emit x t)"
  by (simp add: grows_def)

lemma grows_refresh:
  "grows t (scheduleEventRefresh e t)" "grows t (replayDeferredEventRefresh e t)" "grows t (setLocalExpect le t)"
  "grows t (enableMonitor t)" "grows t (disableMonitor t)" "grows t (orch_done t)" "grows t (doneAndIdle t)"
  "grows t (clearPending t)" "grows t (createPendingWithDuration e d t)" "grows t (orchestrateAfterAction e a b t)"
  by (rule grows_same, simp add: scheduleEventRefresh_def replayDeferredEventRefresh_def setLocalExpect_def
      enableMonitor_def disableMonitor_def orch_done_def doneAndIdle_def clearPending_def createPendingWithDuration_def
      orchestrateAfterAction_def Let_def split: option.splits)+

lemma grows_update: "grows t (update e t)"
  by (simp add: grows_def update_def Let_def)

text \<open>The publication proper, at the end of \<open>updateIfChange\<close>.\<close>

definition publish :: "env \<Rightarrow> imon \<Rightarrow> imon" where
  "publish e t =
    (let t = t\<lparr>i_change := False\<rparr>; prv = i_prev t; new = i_state t;
         t = (if mon_LocalExpect new \<noteq> mon_LocalExpect prv
              then t\<lparr>i_state := (i_state t)\<lparr>mon_LocalExpectUpdatedAt := e_now e\<rparr>\<rparr> else t);
         t = (if mon_State new \<noteq> mon_State prv
              then t\<lparr>i_state := (i_state t)\<lparr>mon_StateUpdatedAt := e_now e\<rparr>\<rparr> else t)
     in update e (t\<lparr>i_prev := i_state t\<rparr>))"

definition rearm :: "imon \<Rightarrow> imon" where
  "rearm t =
    (if mon_OrchestrationID (i_state t) = 0 \<and> mon_State (i_state t) = MonitorStateIdle
        \<and> mon_LocalExpect (i_state t) \<noteq> MonitorLocalExpectStarted \<and> status_Is (st_Avail (localStatus t)) [StUp]
        \<and> st_UpdatedAt (localStatus t) > mon_LocalExpectUpdatedAt (i_state t)
     then enableMonitor t else t)"

lemma updateIfChange_steps:
  "updateIfChange e t =
    (let r = replayDeferredEventRefresh e t
     in if e_done e then r else if \<not> i_change (rearm r) then rearm r else publish e (rearm r))"
  by (simp only: updateIfChange_def rearm_def publish_def Let_def)

lemma grows_publish: "grows t (publish e t)"
  by (simp add: publish_def Let_def update_def grows_def)

lemma grows_rearm: "grows t (rearm t)"
  by (simp add: rearm_def grows_refresh)

lemma grows_updateIfChange: "grows t (updateIfChange e t)"
proof -
  let ?r = "replayDeferredEventRefresh e t"
  have r: "grows t ?r" by (rule grows_refresh)
  have rr: "grows t (rearm ?r)" by (rule grows_trans [OF r grows_rearm])
  have "grows t (publish e (rearm ?r))" by (rule grows_trans [OF rr grows_publish])
  with r rr show ?thesis by (simp add: updateIfChange_steps Let_def)
qed

lemma grows_transitionTo: "grows t (transitionTo e s t)"
proof -
  have "grows (set_mstate s (t\<lparr>i_change := True\<rparr>)) (transitionTo e s t)"
    unfolding transitionTo_def by (rule grows_updateIfChange)
  then show ?thesis by (simp add: grows_def)
qed

lemma grows_crmAction: "grows t (snd (crmAction args e t))"
  by (simp add: crmAction_def crmDefaultAction_def Let_def grows_def)

lemma grows_queueAction:
  "(\<And>t. grows t (snd (act e t))) \<Longrightarrow> grows t (queueAction act a b c e t)"
proof -
  assume g: "\<And>t. grows t (snd (act e t))"
  obtain err t' where a: "act e (transitionTo e a t) = (err, t')" by (cases "act e (transitionTo e a t)")
  have "grows (transitionTo e a t) t'" using g [of "transitionTo e a t"] a by simp
  moreover have "grows t' (orchestrateAfterAction e a s t')" for s by (rule grows_refresh)
  ultimately show ?thesis
    using grows_transitionTo [of t e a] by (simp add: queueAction_def doAction_def a) (blast intro: grows_trans)
qed

section \<open>Actions that fork one command\<close>

text \<open>
  The interface of the actions the orchestrations queue: an action forks one command, whose
  arguments the core of the manager gives, and keeps the core.
\<close>

locale forks =
  fixes act :: action and args :: "imon \<Rightarrow> string list"
  assumes forks_execs: "execs (snd (act e t)) = execs t @ [args t]"
    and forks_core: "core (snd (act e t)) = core t"
    and args_core: "core t = core t' \<Longrightarrow> args t = args t'"
begin

lemma act_transition:
  "execs (snd (act e (transitionTo e s t))) = execs t @ [args (set_mstate s t)]"
  "core (snd (act e (transitionTo e s t))) = core (set_mstate s t)"
  by (simp_all add: forks_execs forks_core args_core [OF transitionTo_core])

lemma execs_queueAction: "execs (queueAction act a b c e t) = execs t @ [args (set_mstate a t)]"
  using act_transition(1) [of e a t] by (cases "act e (transitionTo e a t)") (simp add: queueAction_def doAction_def)

lemma execs_doLastAction: "execs (doLastAction act a b c e t) = execs t @ [args (set_mstate a t)]"
  using act_transition(1) [of e a t] by (cases "act e (transitionTo e a t)") (simp add: doLastAction_def)

lemma execs_doTransitionAction: "execs (doTransitionAction act a b c e t) = execs t @ [args (set_mstate a t)]"
  using act_transition(1) [of e a t] by (cases "act e (transitionTo e a t)") (simp add: doTransitionAction_def)

lemma state_queueAction: "mstate (queueAction act a b c e t) = a"
  using core_mstate [OF act_transition(2) [of e a t]]
  by (cases "act e (transitionTo e a t)") (simp add: queueAction_def doAction_def)

lemma state_doLastAction: "mstate (doLastAction act a b c e t) = a"
  using core_mstate [OF act_transition(2) [of e a t]]
  by (cases "act e (transitionTo e a t)") (simp add: doLastAction_def)

lemma state_doTransitionAction: "mstate (doTransitionAction act a b c e t) \<in> {b, c}"
  by (simp add: doTransitionAction_def split: prod.splits)

text \<open>The end of the action is posted with the state it reached, or nothing when the context is done.\<close>

lemma cmds_queueAction:
  "\<not> e_done e \<Longrightarrow> \<exists>s\<in>{b, c}. i_cmds (queueAction act a b c e t) = i_cmds t @ [CmdOrchestrate a s]"
  using core_cmds [OF act_transition(2) [of e a t]]
  by (cases "act e (transitionTo e a t)") (auto simp: queueAction_def doAction_def orchestrateAfterAction_def)

end

lemma crmDefaultAction_frame [simp]:
  "execs (snd (crmDefaultAction x args e t)) = execs t @ [args]" "core (snd (crmDefaultAction x args e t)) = core t"
  by (simp_all add: crmDefaultAction_def Let_def)

lemma crmAction_frame [simp]:
  "execs (snd (crmAction args e t)) = execs t @ [args]" "core (snd (crmAction args e t)) = core t"
  by (simp_all add: crmAction_def crmDefaultAction_def Let_def)

lemma inst_args_core: "core t = core t' \<Longrightarrow> inst_args t l = inst_args t' l"
  using core_path [of t t'] by (simp add: inst_args_def)

lemma stopArgs_core: "core t = core t' \<Longrightarrow> stopArgs t l = stopArgs t' l"
  using inst_args_core [of t t'] core_options [of t t'] by (simp add: stopArgs_def interruptSyncsAsked_def)

lemmas forks_intro = forks.intro inst_args_core stopArgs_core

interpretation crm_start: forks crmStart "\<lambda>t. inst_args t [''start'']"
  by (intro forks_intro) (simp_all add: crmStart_def)

interpretation crm_stop: forks crmStop "\<lambda>t. stopArgs t []"
  by (intro forks_intro) (simp_all add: crmStop_def)

interpretation crm_shutdown: forks crmShutdown "\<lambda>t. inst_args t [''shutdown'']"
  by (intro forks_intro) (simp_all add: crmShutdown_def)

interpretation crm_delete: forks crmDelete "\<lambda>t. inst_args t [''delete'']"
  by (intro forks_intro) (simp_all add: crmDelete_def)

interpretation crm_provision_leader: forks crmProvisionLeader
  "\<lambda>t. inst_args t ([''provision'', ''--leader''] @ (if provisionedOptions_Adopt t then [''--adopt''] else []))"
proof (rule forks.intro)
  show "inst_args t ([''provision'', ''--leader''] @ (if provisionedOptions_Adopt t then [''--adopt''] else []))
      = inst_args t' ([''provision'', ''--leader''] @ (if provisionedOptions_Adopt t' then [''--adopt''] else []))"
    if "core t = core t'" for t t'
    using core_options [OF that] inst_args_core [OF that] by (simp add: provisionedOptions_Adopt_def)
qed (simp_all add: crmProvisionLeader_def)

interpretation crm_provision_non_leader: forks crmProvisionNonLeader "\<lambda>t. inst_args t [''provision'']"
  by (intro forks_intro) (simp_all add: crmProvisionNonLeader_def)

interpretation crm_preflight: forks crmProvisionPreflight "\<lambda>t. inst_args t [''provision'', ''--preflight'']"
  by (intro forks_intro) (simp_all add: crmProvisionPreflight_def)

interpretation crm_unprovision_leader: forks crmUnprovisionLeader "\<lambda>t. inst_args t [''unprovision'', ''--leader'']"
  by (intro forks_intro) (simp_all add: crmUnprovisionLeader_def)

interpretation crm_unprovision_non_leader: forks crmUnprovisionNonLeader "\<lambda>t. inst_args t [''unprovision'']"
  by (intro forks_intro) (simp_all add: crmUnprovisionNonLeader_def)

end
