(* ===== verification/Imon_Start_Stop.thy ===== *)
theory Imon_Start_Stop
  imports Imon_Leader Imon_Frame
begin

text \<open>
  Starting and stopping an instance: the stop and its wait for the syncs running
  (\<open>orchestration_stopped.go\<close>, \<open>wait_syncs.go\<close>), the start, its ready state and the fencing of a
  lost peer (\<open>orchestration_started.go\<close>, \<open>stonith.go\<close>), and what the daemon does of its own
  initiative for an object nothing is asked of (\<open>orchestration_ha.go\<close>), all of \<open>daemon/imon\<close>.
\<close>

section \<open>Stop\<close>

definition stopDuration :: duration where
  "stopDuration = 10 * second"

definition defaultWaitSyncsTimeout :: duration where
  "defaultWaitSyncsTimeout = 10 * minute"

definition waitSyncsTimeout :: "imon \<Rightarrow> duration" where
  "waitSyncsTimeout t =
    (case cfg_Actor (i_config t) of
       None \<Rightarrow> defaultWaitSyncsTimeout
     | Some ac \<Rightarrow> if ac_WaitSyncsTimeout ac > 0 then ac_WaitSyncsTimeout ac else defaultWaitSyncsTimeout)"

definition runningSyncs :: "imon \<Rightarrow> string list" where
  "runningSyncs t =
    filter (\<lambda>rid. resourceid_Parse rid \<noteq> None \<and> driver_group_of rid = GroupSync) (st_Running (localStatus t))"

text \<open>\<open>setWaitSyncs\<close> holds a stop while a sync runs, and says whether it does.\<close>

definition leaveWaitSyncs :: "env \<Rightarrow> imon \<Rightarrow> imon" where
  "leaveWaitSyncs e t =
    (if mstate t = MonitorStateWaitSyncs
     then transitionTo e MonitorStateIdle (t\<lparr>i_waitSyncsSince := 0, i_waitSyncsTimer := None\<rparr>) else t)"

definition setWaitSyncs :: "env \<Rightarrow> imon \<Rightarrow> bool \<times> imon" where
  "setWaitSyncs e t =
    (if interruptSyncsAsked t then (False, leaveWaitSyncs e t)
     else if runningSyncs t = [] then (False, leaveWaitSyncs e t)
     else if mstate t \<noteq> MonitorStateWaitSyncs then
       (True, transitionTo e MonitorStateWaitSyncs
                (t\<lparr>i_waitSyncsSince := e_now e, i_waitSyncsTimer := Some (e_now e + waitSyncsTimeout t)\<rparr>))
     else if e_now e - i_waitSyncsSince t > waitSyncsTimeout t then
       (True, transitionTo e MonitorStateStopFailure (t\<lparr>i_waitSyncsSince := 0, i_stopRefusedForSyncs := True\<rparr>))
     else (True, t))"

definition resumeMonitorIfStopRefused :: "imon \<Rightarrow> imon" where
  "resumeMonitorIfStopRefused t =
    (if \<not> i_stopRefusedForSyncs t then t
     else
       let t = t\<lparr>i_stopRefusedForSyncs := False\<rparr>
       in if status_Is (st_Avail (localStatus t)) [StUp, StWarn] then enableMonitor t else t)"

definition isLocalStopped :: "imon \<Rightarrow> bool" where
  "isLocalStopped t =
    (st_Avail (localStatus t) \<in> {StNotApplicable, StUndef, StDown, StStandbyUp, StStandbyDown})"

definition stoppedClearIfReached :: "imon \<Rightarrow> bool \<times> imon" where
  "stoppedClearIfReached t =
    (if isLocalStopped t then
       (True, if \<not> mon_OrchestrationIsDone (i_state t)
              then clearPending (disableMonitor (doneAndIdle t)) else t)
     else (False, t))"

definition doStop :: "env \<Rightarrow> imon \<Rightarrow> imon" where
  "doStop e t =
    (case stoppedClearIfReached t of (reached, t) \<Rightarrow>
      if reached then t
      else case setWaitChildren t of (wait, t) \<Rightarrow>
        if wait then t
        else case setWaitSyncs e t of (wait, t) \<Rightarrow>
          if wait then t
          else queueAction crmStop MonitorStateStopProgress MonitorStateStopSuccess MonitorStateStopFailure e
                 (disableMonitor (createPendingWithDuration e stopDuration t)))"

definition doStopOnPurpose :: "env \<Rightarrow> imon \<Rightarrow> imon" where
  "doStopOnPurpose e t =
    (if \<not> isStopped t then (case setStopped e t of (err, t) \<Rightarrow> if err then t else doStop e t)
     else doStop e t)"

definition doFreezeStop :: "env \<Rightarrow> imon \<Rightarrow> imon" where
  "doFreezeStop e t =
    (if IsUnfrozen (localStatus t)
     then doTransitionAction freeze MonitorStateFreezeProgress MonitorStateFreezeSuccess MonitorStateFreezeFailure e t
     else doStop e t)"

definition stoppedFromReady :: "imon \<Rightarrow> imon" where
  "stoppedFromReady t =
    snd (stoppedClearIfReached (set_mstate MonitorStateIdle ((clearPending t)\<lparr>i_change := True\<rparr>)))"

definition stoppedFromFailed :: "imon \<Rightarrow> imon" where
  "stoppedFromFailed t = snd (stoppedClearIfReached (set_mstate MonitorStateIdle (t\<lparr>i_change := True\<rparr>)))"

definition stopOnPurpose :: "env \<Rightarrow> imon \<Rightarrow> imon" where
  "stopOnPurpose e t =
    (case mstate t of
       MonitorStateIdle \<Rightarrow> doStopOnPurpose e t
     | MonitorStateFreezeSuccess \<Rightarrow> doStopOnPurpose e t
     | MonitorStateReady \<Rightarrow> stoppedFromReady t
     | MonitorStateStopSuccess \<Rightarrow> transitionTo e MonitorStateIdle t
     | MonitorStateStopFailure \<Rightarrow> orch_done t
     | MonitorStateStartFailure \<Rightarrow> stoppedFromFailed t
     | MonitorStateWaitChildren \<Rightarrow> snd (setWaitChildren t)
     | MonitorStateWaitSyncs \<Rightarrow>
         (case setWaitSyncs e t of (wait, t) \<Rightarrow> if wait then t else doStopOnPurpose e t)
     | _ \<Rightarrow> t)"

definition orchestrateStopped :: "env \<Rightarrow> imon \<Rightarrow> imon" where
  "orchestrateStopped e t = stopOnPurpose e t"

definition stop :: "env \<Rightarrow> imon \<Rightarrow> imon" where
  "stop e t =
    (case mstate t of
       MonitorStateIdle \<Rightarrow> doStop e t
     | MonitorStateReady \<Rightarrow> stoppedFromReady t
     | MonitorStateStopSuccess \<Rightarrow> transitionTo e MonitorStateIdle t
     | MonitorStateStartFailure \<Rightarrow> stoppedFromFailed t
     | MonitorStateWaitSyncs \<Rightarrow> (case setWaitSyncs e t of (wait, t) \<Rightarrow> if wait then t else doStop e t)
     | _ \<Rightarrow> t)"

section \<open>Start\<close>

text \<open>Whether a peer is in one of the states.\<close>

definition isAnyPeerState :: "imon \<Rightarrow> monitor_state list \<Rightarrow> bool" where
  "isAnyPeerState t states =
    list_ex (\<lambda>(n, m). n \<noteq> i_localhost t \<and> mon_State m \<in> set states) (AllInstanceMonitors t)"

definition isAllState :: "imon \<Rightarrow> monitor_state list \<Rightarrow> bool" where
  "isAllState t states = list_all (\<lambda>(_, m). MonitorState_IsOneOf (mon_State m) states) (AllInstanceMonitors t)"

definition isLocalStarted :: "imon \<Rightarrow> bool" where
  "isLocalStarted t = (st_Avail (localStatus t) \<in> {StNotApplicable, StUp})"

definition startedClearIfReached :: "imon \<Rightarrow> bool \<times> imon" where
  "startedClearIfReached t =
    (if isLocalStarted t then
       (True, clearPending (enableMonitor (if \<not> mon_OrchestrationIsDone (i_state t) then doneAndIdle t else t)))
     else if isStarted t then
       (True, clearPending (if \<not> mon_OrchestrationIsDone (i_state t) then doneAndIdle t else t))
     else (False, t))"

definition isStartLeader :: "env \<Rightarrow> imon \<Rightarrow> bool" where
  "isStartLeader e t =
    (if mon_GlobalExpect (i_state t) = MonitorGlobalExpectStarted then isStartCandidateLeader e t False
     else if as_Orchestrate (objActor t) = ''start''
       then mon_IsLeader (i_state t) \<and> isHardAffinitySatisfied e t (i_localhost t)
     else mon_IsHALeader (i_state t))"

definition peerStarts :: "imon \<Rightarrow> bool" where
  "peerStarts t =
    (as_Topology (objActor t) \<noteq> Flex \<and> isAnyPeerState t [MonitorStateStartProgress, MonitorStateReady])"

text \<open>The ready state: the goroutine that waits for the end of the pending context is its deadline.\<close>

definition startedFromUnfrozen :: "env \<Rightarrow> imon \<Rightarrow> imon" where
  "startedFromUnfrozen e t =
    (case startedClearIfReached t of (reached, t) \<Rightarrow>
      if reached then t
      else if \<not> isStartLeader e t then t
      else if hasOtherNodeActing t then t
      else if provisioned_IsOneOf (st_Provisioned (localStatus t)) [PrFalse, PrUndef] then t
      else if peerStarts t then t
      else
        let t = createPendingWithDuration e (i_readyDuration t) (transitionTo e MonitorStateReady t)
        in t\<lparr>i_readyWaits := i_readyWaits t @ [e_now e + i_readyDuration t]\<rparr>)"

definition startedFromIdle :: "env \<Rightarrow> imon \<Rightarrow> imon" where
  "startedFromIdle e t =
    (if mon_GlobalExpect (i_state t) = MonitorGlobalExpectNone
        \<and> (IsFrozen (localStatus t) \<or> isStopped t \<or> StoppedResources (localStatus t) \<noteq> [])
     then t else startedFromUnfrozen e t)"

definition doUnfreeze :: "env \<Rightarrow> imon \<Rightarrow> imon" where
  "doUnfreeze e t =
    doTransitionAction unfreeze MonitorStateUnfreezeProgress MonitorStateUnfreezeSuccess MonitorStateUnfreezeFailure e t"

definition cancelReadyState :: "env \<Rightarrow> imon \<Rightarrow> bool \<times> imon" where
  "cancelReadyState e t =
    (if i_pending t = None then (True, transitionTo e MonitorStateIdle t)
     else case startedClearIfReached t of (reached, t) \<Rightarrow>
       if reached then (True, t)
       else if \<not> isStartLeader e t then (True, clearPending (transitionTo e MonitorStateIdle t))
       else if peerStarts t then (True, clearPending (transitionTo e MonitorStateIdle t))
       else (False, t))"

subsection \<open>Fencing\<close>

definition setStonith :: "string \<Rightarrow> time \<Rightarrow> imon \<Rightarrow> imon" where
  "setStonith peerDrop peerDropAt t =
    (if peerDrop = [] \<or> peerDropAt = 0 then t
     else case cfg_Actor (i_config t) of
       None \<Rightarrow> t
     | Some ac \<Rightarrow>
         if \<not> ac_Stonith ac then t
         else if ac_Topology ac \<noteq> Failover then t
         else case map_of (i_instStatus t) peerDrop of
           None \<Rightarrow> t
         | Some st \<Rightarrow>
             if st_Avail st \<noteq> StUp then t
             else t\<lparr>i_peerDrop := peerDrop, i_peerDropAt := peerDropAt\<rparr>)"

definition unsetStonith :: "imon \<Rightarrow> imon" where
  "unsetStonith t = t\<lparr>i_peerDrop := [], i_peerDropAt := 0\<rparr>"

definition clearStonith :: "status \<Rightarrow> imon \<Rightarrow> imon" where
  "clearStonith avail t =
    (if i_peerDrop t = [] \<and> i_peerDropAt t = 0 then t
     else if avail \<noteq> StUp then t
     else unsetStonith t)"

text \<open>The fencing of the peer that dropped, once per drop, and only for a start of the daemon's own.\<close>

definition alreadyFenced :: "imon \<Rightarrow> bool" where
  "alreadyFenced t =
    (case map_of (i_stonithAt t) (i_peerDrop t) of None \<Rightarrow> False | Some at \<Rightarrow> at \<ge> i_peerDropAt t)"

definition stonith :: action where
  "stonith e t =
    (if i_peerDrop t = [] then (False, t)
     else if mon_GlobalExpect (i_state t) \<noteq> MonitorGlobalExpectNone then (False, t)
     else if alreadyFenced t then (False, unsetStonith t)
     else case crmStonith (i_peerDrop t) e
                 (t\<lparr>i_stonithAt := AList.update (i_peerDrop t) (i_peerDropAt t) (i_stonithAt t)\<rparr>) of
       (err, t) \<Rightarrow> (err, unsetStonith t))"

definition stonithAndStart :: action where
  "stonithAndStart e t = crmStart e (snd (stonith e t))"

text \<open>The pending context is done at its deadline; it is cancelled with the context of the manager.\<close>

definition startedFromReady :: "env \<Rightarrow> imon \<Rightarrow> imon" where
  "startedFromReady e t =
    (case cancelReadyState e t of (isCanceled, t) \<Rightarrow>
      if isCanceled then t
      else case setWaitParents t of (wait, t) \<Rightarrow>
        if wait then t
        else case i_pending t of
          None \<Rightarrow> t
        | Some deadline \<Rightarrow>
            if e_done e then clearPending (transitionTo e MonitorStateIdle t)
            else if deadline \<le> e_now e then
              clearPending (queueAction stonithAndStart MonitorStateStartProgress MonitorStateStartSuccess
                              MonitorStateStartFailure e t)
            else t)"

definition startedFromAny :: "imon \<Rightarrow> imon" where
  "startedFromAny t = (if i_pending t = None then snd (startedClearIfReached t) else t)"

definition startedFromStarted :: "imon \<Rightarrow> imon" where
  "startedFromStarted t = snd (startedClearIfReached t)"

definition startedFromStartFailed :: "imon \<Rightarrow> imon" where
  "startedFromStartFailed t =
    (if isStarted t then doneAndIdle t
     else if mon_OrchestrationIsDone (i_state t) then t
     else if isAllState t [MonitorStateStartFailure] then orch_done t
     else t)"

definition orchestrateStarted :: "env \<Rightarrow> imon \<Rightarrow> imon" where
  "orchestrateStarted e t =
    (if isStarted t then snd (startedClearIfReached t)
     else case mstate t of
       MonitorStateIdle \<Rightarrow> startedFromIdle e t
     | MonitorStateUnfreezeSuccess \<Rightarrow> startedFromUnfrozen e t
     | MonitorStateReady \<Rightarrow> startedFromReady e t
     | MonitorStateStartSuccess \<Rightarrow> startedFromStarted t
     | MonitorStateStartFailure \<Rightarrow> startedFromStartFailed t
     | MonitorStateStartProgress \<Rightarrow> startedFromAny t
     | MonitorStateStopProgress \<Rightarrow> startedFromAny t
     | MonitorStateWaitParents \<Rightarrow> snd (setWaitParents t)
     | _ \<Rightarrow> t)"

section \<open>Nothing asked\<close>

definition clearStartFailed :: "env \<Rightarrow> imon \<Rightarrow> imon" where
  "clearStartFailed e t =
    (if mstate t \<noteq> MonitorStateStartFailure then t
     else if as_Avail (objActor t) \<noteq> StUp then t
     else if list_ex (\<lambda>(_, m). mon_GlobalExpect m \<noteq> MonitorGlobalExpectNone) (i_instMonitor t) then t
     else if as_Topology (objActor t) = Flex \<and> flexTarget t > 0
             \<and> as_UpInstancesCount (objActor t) < flexTarget t then t
     else transitionTo e MonitorStateIdle t)"

definition clearBootFailed :: "env \<Rightarrow> imon \<Rightarrow> imon" where
  "clearBootFailed e t =
    (if mstate t \<noteq> MonitorStateBootFailed then t
     else if st_Avail (localStatus t) \<notin> {StDown, StStandbyDown, StNotApplicable} then t
     else if list_ex (\<lambda>(_, m). mon_GlobalExpect m \<noteq> MonitorGlobalExpectNone) (i_instMonitor t) then t
     else transitionTo e MonitorStateIdle t)"

text \<open>Whether the stopped flag is lowered, in the place of the reason the source logs.\<close>

definition stoppedFlagLoweredBy :: "monitor_state \<Rightarrow> instance_status \<Rightarrow> bool \<Rightarrow> bool" where
  "stoppedFlagLoweredBy state local objectStarted =
    (if IsDoing state then False
     else if \<not> st_UpdatedAt local > st_StoppedAt local then False
     else if status_Is (st_Avail local) [StUp] then True
     else objectStarted)"

definition clearStoppedFlagWhenUp :: "env \<Rightarrow> imon \<Rightarrow> imon" where
  "clearStoppedFlagWhenUp e t =
    (if \<not> isStopped t then t
     else if \<not> stoppedFlagLoweredBy (mstate t) (localStatus t) (os_Actor (i_objStatus t) \<noteq> None \<and> isStarted t) then t
     else snd (unsetStopped e t))"

definition orchestrateHAStop :: "env \<Rightarrow> imon \<Rightarrow> imon" where
  "orchestrateHAStop e t =
    (if as_Topology (objActor t) \<noteq> Flex then t
     else if node_IsFrozen (localNodeStatus t) then t
     else if as_UpInstancesCount (objActor t) \<le> flexTarget t then t
     else if mon_IsHALeader (i_state t) then t
     else if \<not> isHAOrchestrateable t then t
     else if as_Avail (objActor t) \<noteq> StUp then t
     else stop e t)"

text \<open>The part of \<open>orchestrateHAStart\<close> after its switch.\<close>

definition haStartRest :: "env \<Rightarrow> imon \<Rightarrow> imon" where
  "haStartRest e t =
    (if \<not> isStartable t then
       (if i_pending t \<noteq> None \<and> mstate t = MonitorStateReady
        then transitionTo e MonitorStateIdle (clearPending t) else t)
     else if isLocalStarted t then t
     else if status_Is (st_Avail (localStatus t)) [StWarn] then t
     else orchestrateStarted e t)"

definition orchestrateHAStart :: "env \<Rightarrow> imon \<Rightarrow> imon" where
  "orchestrateHAStart e t =
    (case mstate t of
       MonitorStateReady \<Rightarrow> haStartRest e (snd (cancelReadyState e t))
     | MonitorStateStartSuccess \<Rightarrow>
         if isLocalStarted t then transitionTo e MonitorStateIdle (enableMonitor t) else t
     | MonitorStateStopSuccess \<Rightarrow> transitionTo e MonitorStateIdle (disableMonitor t)
     | _ \<Rightarrow> haStartRest e t)"

subsection \<open>The start due at boot\<close>

definition bootStartWaitMax :: duration where
  "bootStartWaitMax = 5 * minute"

definition bootStartBusyPeer :: "imon \<Rightarrow> bool" where
  "bootStartBusyPeer t =
    list_ex (\<lambda>(n, m). n \<noteq> i_localhost t \<and> (IsDoing (mon_State m) \<or> mon_State m = MonitorStateReady)) (i_instMonitor t)"

definition closeBootStart :: "imon \<Rightarrow> imon" where
  "closeBootStart t = t\<lparr>i_isBootStartPending := False, i_bootStartWaitSince := 0\<rparr>"

text \<open>The start waits: it is given up when it waited too long.\<close>

definition bootStartWait :: "env \<Rightarrow> imon \<Rightarrow> imon" where
  "bootStartWait e t =
    (if i_bootStartWaitSince t = 0 then t\<lparr>i_bootStartWaitSince := e_now e\<rparr>
     else if e_now e - i_bootStartWaitSince t > bootStartWaitMax then closeBootStart t
     else t)"

definition bootStartFromIdle :: "env \<Rightarrow> imon \<Rightarrow> imon" where
  "bootStartFromIdle e t =
    (if \<not> hasInstanceMonitorAndStatusOnPeers t then t
     else if bootStartBusyPeer t then bootStartWait e t
     else if as_Orchestrate (objActor t) = ''start'' \<and> mon_IsLeader (i_state t)
             \<and> affinityViolations e t (i_localhost t) \<noteq> [] then bootStartWait e t
     else if i_bootStartWaitSince t \<noteq> 0 \<and> e_now e - i_bootStartWaitSince t > bootStartWaitMax
       then closeBootStart t
     else
       let t = orchestrateHAStart e t
       in if mstate t \<noteq> MonitorStateIdle then t else closeBootStart t)"

definition orchestrateBootStart :: "env \<Rightarrow> imon \<Rightarrow> imon" where
  "orchestrateBootStart e t =
    (if \<not> i_isBootStartPending t then t
     else if node_IsFrozen (localNodeStatus t) then closeBootStart t
     else if mstate t = MonitorStateIdle then bootStartFromIdle e t
     else if mstate t \<in> {MonitorStateReady, MonitorStateStartProgress, MonitorStateStartSuccess, MonitorStateStopSuccess}
       then orchestrateHAStart e t
     else closeBootStart t)"

definition orchestrateNone :: "env \<Rightarrow> imon \<Rightarrow> imon" where
  "orchestrateNone e t =
    (let t = clearStoppedFlagWhenUp e (clearBootFailed e (clearStartFailed e t))
     in case os_Actor (i_objStatus t) of
          None \<Rightarrow> t
        | Some a \<Rightarrow>
            if as_Orchestrate a = ''ha'' then orchestrateHAStop e (orchestrateHAStart e t)
            else if as_Orchestrate a = ''start'' then orchestrateBootStart e t
            else t)"

section \<open>Lemmas\<close>

lemma execs_unsetStonith [simp]: "execs (unsetStonith t) = execs t"
  by (simp add: unsetStonith_def)

lemma setWaitParents_frame:
  "execs (snd (setWaitParents t)) = execs t" "i_pending (snd (setWaitParents t)) = i_pending t"
  "fst (setWaitParents t) \<longleftrightarrow> \<not> parentsReady (mon_Parents (i_state t))"
  "i_path (snd (setWaitParents t)) = i_path t" "i_peerDrop (snd (setWaitParents t)) = i_peerDrop t"
  "i_peerDropAt (snd (setWaitParents t)) = i_peerDropAt t" "i_stonithAt (snd (setWaitParents t)) = i_stonithAt t"
  "mon_GlobalExpect (i_state (snd (setWaitParents t))) = mon_GlobalExpect (i_state t)"
  by (simp_all add: setWaitParents_def)

lemma setWaitChildren_frame:
  "execs (snd (setWaitChildren t)) = execs t"
  "fst (setWaitChildren t) \<longleftrightarrow> \<not> childrenDown (mon_Children (i_state t))"
  "i_path (snd (setWaitChildren t)) = i_path t" "i_instStatus (snd (setWaitChildren t)) = i_instStatus t"
  "i_localhost (snd (setWaitChildren t)) = i_localhost t"
  "mon_GlobalExpectOptions (i_state (snd (setWaitChildren t))) = mon_GlobalExpectOptions (i_state t)"
  by (simp_all add: setWaitChildren_def)

lemma clearPending_None [simp]: "i_pending (clearPending t) = None"
  by (simp add: clearPending_def split: option.splits)

lemma startedClear_frame:
  "execs (snd (startedClearIfReached t)) = execs t"
  "fst (startedClearIfReached t) \<Longrightarrow> i_pending (snd (startedClearIfReached t)) = None"
  "\<not> fst (startedClearIfReached t) \<Longrightarrow> snd (startedClearIfReached t) = t"
  "fst (startedClearIfReached t) \<longleftrightarrow> isLocalStarted t \<or> isStarted t"
  by (simp_all add: startedClearIfReached_def split: if_splits)

lemma startedClear_cases:
  obtains t1 where "startedClearIfReached t = (True, t1)" "i_pending t1 = None" "execs t1 = execs t"
    "isLocalStarted t \<or> isStarted t"
  | "startedClearIfReached t = (False, t)" "\<not> isLocalStarted t" "\<not> isStarted t"
proof (cases "fst (startedClearIfReached t)")
  case True
  then show ?thesis
    using that(1) [of "snd (startedClearIfReached t)"] startedClear_frame [of t] by (metis prod.collapse)
next
  case False
  then show ?thesis using that(2) startedClear_frame [of t] by (metis prod.collapse)
qed

text \<open>A ready state that is cancelled leaves nothing pending or is idle; one that is not is left alone.\<close>

lemma cancelReady_cases:
  obtains t1 where "cancelReadyState e t = (True, t1)" "execs t1 = execs t" "mstate t1 \<noteq> MonitorStateReady \<or> i_pending t1 = None"
  | "cancelReadyState e t = (False, t)" "i_pending t \<noteq> None" "isStartLeader e t" "\<not> peerStarts t"
    "\<not> isLocalStarted t" "\<not> isStarted t"
proof (cases "i_pending t")
  case None
  then show ?thesis using that(1) [of "transitionTo e MonitorStateIdle t"] by (simp add: cancelReadyState_def)
next
  case (Some d)
  then show ?thesis
  proof (cases t rule: startedClear_cases)
    case (1 t1)
    then show ?thesis using that(1) [of t1] Some by (simp add: cancelReadyState_def)
  next
    case 2
    have c: "cancelReadyState e t =
        (if \<not> isStartLeader e t \<or> peerStarts t then (True, clearPending (transitionTo e MonitorStateIdle t)) else (False, t))"
      using Some 2(1) by (simp add: cancelReadyState_def)
    show ?thesis
    proof (cases "\<not> isStartLeader e t \<or> peerStarts t")
      case True
      then show ?thesis using that(1) [of "clearPending (transitionTo e MonitorStateIdle t)"] c by simp
    next
      case False
      then show ?thesis using that(2) c Some 2 by simp
    qed
  qed
qed

subsection \<open>Fencing\<close>

lemma alreadyFenced_iff:
  "alreadyFenced t \<longleftrightarrow> (\<exists>at. map_of (i_stonithAt t) (i_peerDrop t) = Some at \<and> i_peerDropAt t \<le> at)"
  by (simp add: alreadyFenced_def split: option.splits)

definition fence :: "imon \<Rightarrow> string list list" where
  "fence t =
    (if i_peerDrop t = [] \<or> mon_GlobalExpect (i_state t) \<noteq> MonitorGlobalExpectNone \<or> alreadyFenced t then []
     else [[''node'', ''stonith'', ''--node'', i_peerDrop t]])"

lemma execs_stonith: "execs (snd (stonith e t)) = execs t @ fence t"
  by (simp add: stonith_def fence_def crmStonith_def crmAction_def crmDefaultAction_def Let_def)

lemma stonith_path [simp]: "i_path (snd (stonith e t)) = i_path t"
  by (simp add: stonith_def unsetStonith_def crmStonith_def crmAction_def crmDefaultAction_def Let_def)

lemma execs_stonithAndStart: "execs (snd (stonithAndStart e t)) = execs t @ fence t @ [inst_args t [''start'']]"
  using crm_start.forks_execs [of e "snd (stonith e t)"]
  by (simp add: stonithAndStart_def execs_stonith inst_args_def)

lemma fence_core: "core t = core t' \<Longrightarrow> fence t = fence t'"
  by (rule core_arg [of fence]) (simp_all add: fence_def alreadyFenced_iff core_sel)

lemma execs_queue_start:
  "execs (queueAction stonithAndStart a b c e t) = execs t @ fence t @ [inst_args t [''start'']]"
proof -
  have "fence (transitionTo e a t) = fence t"
    using fence_core [OF transitionTo_core [of e a t]] by (simp add: fence_def alreadyFenced_iff)
  then show ?thesis
    using execs_stonithAndStart [of e "transitionTo e a t"]
    by (cases "stonithAndStart e (transitionTo e a t)") (simp add: queueAction_def doAction_def inst_args_def)
qed

lemma fence_setWaitParents: "fence (snd (setWaitParents t)) = fence t"
  by (simp add: fence_def alreadyFenced_iff setWaitParents_frame)

subsection \<open>Starting\<close>

lemma execs_startedFromUnfrozen [simp]: "execs (startedFromUnfrozen e t) = execs t"
proof (cases t rule: startedClear_cases)
  case (1 t1)
  then show ?thesis by (simp add: startedFromUnfrozen_def)
next
  case 2
  then show ?thesis by (simp add: startedFromUnfrozen_def Let_def)
qed

text \<open>When a start is forked from the ready state.\<close>

definition ready_to_start :: "env \<Rightarrow> imon \<Rightarrow> bool" where
  "ready_to_start e t \<longleftrightarrow>
    mstate t = MonitorStateReady \<and> (\<exists>d. i_pending t = Some d \<and> d \<le> e_now e) \<and> \<not> e_done e
    \<and> isStartLeader e t \<and> \<not> peerStarts t \<and> \<not> isLocalStarted t \<and> \<not> isStarted t
    \<and> parentsReady (mon_Parents (i_state t))"

lemma execs_startedFromReady:
  assumes "mstate t = MonitorStateReady"
  shows "execs (startedFromReady e t) =
    (if ready_to_start e t then execs t @ fence t @ [inst_args t [''start'']] else execs t)"
proof (cases t rule: cancelReady_cases [of e])
  case (1 t1)
  have "\<not> ready_to_start e t"
  proof
    assume r: "ready_to_start e t"
    then have "cancelReadyState e t = (False, t)"
      by (auto simp: ready_to_start_def cancelReadyState_def startedClearIfReached_def)
    with 1(1) show False by simp
  qed
  then show ?thesis using 1 by (simp add: startedFromReady_def)
next
  case 2
  obtain w t2 where w: "setWaitParents t = (w, t2)" by (cases "setWaitParents t")
  note f = setWaitParents_frame [of t, unfolded w fst_conv snd_conv]
  have "inst_args t2 l = inst_args t l" for l by (simp add: inst_args_def f)
  then show ?thesis
    using 2 w f fence_setWaitParents [of t] assms
    by (auto simp: startedFromReady_def ready_to_start_def execs_queue_start)
qed

lemma execs_orchestrateStarted:
  "execs (orchestrateStarted e t) =
    (if ready_to_start e t then execs t @ fence t @ [inst_args t [''start'']] else execs t)"
proof (cases "isStarted t")
  case True
  then show ?thesis by (simp add: orchestrateStarted_def startedClear_frame ready_to_start_def)
next
  case False
  show ?thesis
  proof (cases "mstate t = MonitorStateReady")
    case True
    then show ?thesis using execs_startedFromReady [OF True, of e] False by (simp add: orchestrateStarted_def)
  next
    case nr: False
    then have "\<not> ready_to_start e t" by (simp add: ready_to_start_def)
    moreover have "execs (orchestrateStarted e t) = execs t"
      using nr False
      by (cases "mstate t") (simp_all add: orchestrateStarted_def startedFromIdle_def startedFromStarted_def
          startedFromStartFailed_def startedFromAny_def startedClear_frame setWaitParents_frame)
    ultimately show ?thesis by simp
  qed
qed

lemma haStartRest_execs:
  "execs (haStartRest e t) =
    (if ready_to_start e t \<and> isStartable t \<and> st_Avail (localStatus t) \<noteq> StWarn
     then execs t @ fence t @ [inst_args t [''start'']] else execs t)"
proof -
  have "status_Is a [StWarn] \<longleftrightarrow> a = StWarn" for a by simp
  then show ?thesis
    by (auto simp: haStartRest_def execs_orchestrateStarted ready_to_start_def)
qed

lemma orchestrateHAStart_execs:
  "execs (orchestrateHAStart e t) =
    (if ready_to_start e t \<and> isStartable t \<and> st_Avail (localStatus t) \<noteq> StWarn
     then execs t @ fence t @ [inst_args t [''start'']] else execs t)"
proof (cases "mstate t = MonitorStateReady")
  case True
  show ?thesis
  proof (cases t rule: cancelReady_cases [of e])
    case (1 t1)
    have "\<not> ready_to_start e t"
    proof
      assume "ready_to_start e t"
      then have "cancelReadyState e t = (False, t)"
        by (auto simp: ready_to_start_def cancelReadyState_def startedClearIfReached_def)
      with 1(1) show False by simp
    qed
    moreover have "\<not> ready_to_start e t1" using 1(3) by (auto simp: ready_to_start_def)
    ultimately show ?thesis using True 1 haStartRest_execs [of e t1] by (simp add: orchestrateHAStart_def)
  next
    case 2
    then show ?thesis using True haStartRest_execs [of e t] by (simp add: orchestrateHAStart_def)
  qed
next
  case False
  then have n: "\<not> ready_to_start e t" by (simp add: ready_to_start_def)
  then have "execs (haStartRest e t) = execs t" using haStartRest_execs [of e t] by simp
  then show ?thesis using False n by (cases "mstate t") (simp_all add: orchestrateHAStart_def)
qed

section \<open>Properties of starts\<close>


text \<open>
  The daemon honours the operator: with nothing asked and the leader state up to date, it never
  starts an instance of a high availability object that is frozen, on a frozen node, stopped on
  purpose or with a resource stopped on purpose.
\<close>

theorem ha_honours_operator:
  assumes "mon_GlobalExpect (i_state t) = MonitorGlobalExpectNone" and "as_Orchestrate (objActor t) \<noteq> ''start''"
    and "mon_IsHALeader (i_state t) = newIsHALeader e t" and "distinct (i_scopeNodes t)"
    and "IsFrozen (localStatus t) \<or> IsStopped (localStatus t) \<or> node_IsFrozen (localNodeStatus t)
      \<or> StoppedResources (localStatus t) \<noteq> []"
  shows "execs (orchestrateHAStart e t) = execs t"
proof -
  have "\<not> daemonMayStart t (i_localhost t)"
    using assms(5) by (auto simp: daemonMayStart_def isPeerNodeThawing_def localStatus_def localNodeStatus_def)
  then have "\<not> isStartCandidate e t True (i_localhost t)" by (simp add: isStartCandidate_def split: prod.splits)
  then have "i_localhost t \<notin> set (startCandidates e t True)" using set_startCandidates_subset by blast
  then have "\<not> isStartCandidateLeader e t True"
    using leader_take [OF assms(4)] in_set_takeD by metis
  then have "\<not> isStartLeader e t" using assms(1-3) by (simp add: isStartLeader_def newIsHALeader_def)
  then show ?thesis by (simp add: orchestrateHAStart_execs ready_to_start_def)
qed

text \<open>
  An instance at rest that is frozen, stopped on purpose or with a resource stopped on purpose
  stays at rest when nothing is asked, for a high availability object and for one started at boot.
\<close>

theorem flagged_instance_stays_idle:
  assumes "mon_GlobalExpect (i_state t) = MonitorGlobalExpectNone" and "mstate t = MonitorStateIdle"
    and "IsFrozen (localStatus t) \<or> IsStopped (localStatus t) \<or> StoppedResources (localStatus t) \<noteq> []"
  shows "orchestrateHAStart e t = t"
proof -
  have "startedFromIdle e t = t" using assms(1,3) by (auto simp: startedFromIdle_def isStopped_def)
  moreover have "isStartable t \<Longrightarrow> \<not> isStarted t" by (simp add: isStartable_def split: if_splits)
  ultimately show ?thesis
    using assms(2) by (simp add: orchestrateHAStart_def haStartRest_def orchestrateStarted_def)
qed


subsection \<open>Witnesses\<close>

definition demo_ready :: imon where
  "demo_ready = (demo_manager ''n1'')
    \<lparr>i_state := (start_state 1)\<lparr>mon_State := MonitorStateReady, mon_IsHALeader := True\<rparr>, i_pending := Some 50\<rparr>"


theorem ha_honours_operator_witness:
  "execs (orchestrateHAStart demo_env (demo_manager ''n1''
     \<lparr>i_instStatus := [(''n1'', demo_status\<lparr>st_FrozenAt := 3\<rparr>)]\<rparr>)) = []"
proof -
  let ?t = "demo_manager ''n1''\<lparr>i_instStatus := [(''n1'', demo_status\<lparr>st_FrozenAt := 3\<rparr>)]\<rparr>"
  have "newIsHALeader demo_env ?t = False" by code_simp
  moreover have "mon_IsHALeader (i_state ?t) = False" by (simp add: demo_sel start_state_def zero_monitor_def)
  ultimately have "execs (orchestrateHAStart demo_env ?t) = execs ?t"
    by (intro ha_honours_operator)
      (simp_all add: demo_sel start_state_sel objActor_def localStatus_def lkp_def IsFrozen_def demo_nodes_def)
  then show ?thesis by (simp add: execs_def demo_sel)
qed

theorem flagged_instance_stays_idle_witness:
  "mstate (orchestrateHAStart demo_env (demo_manager ''n1''
     \<lparr>i_instStatus := [(''n1'', demo_status\<lparr>st_StoppedAt := 3\<rparr>)]\<rparr>)) = MonitorStateIdle"
  using flagged_instance_stays_idle [of "demo_manager ''n1''\<lparr>i_instStatus := [(''n1'', demo_status\<lparr>st_StoppedAt := 3\<rparr>)]\<rparr>" demo_env]
  by (simp add: demo_sel start_state_sel localStatus_def lkp_def IsStopped_def)


section \<open>Properties of stops\<close>

lemma stoppedClear_frame:
  "execs (snd (stoppedClearIfReached t)) = execs t"
  "fst (stoppedClearIfReached t) \<longleftrightarrow> isLocalStopped t"
  "\<not> isLocalStopped t \<Longrightarrow> stoppedClearIfReached t = (False, t)"
  by (simp_all add: stoppedClearIfReached_def)

lemma setWaitSyncs_frame:
  "execs (snd (setWaitSyncs e t)) = execs t"
  "fst (setWaitSyncs e t) \<longleftrightarrow> \<not> interruptSyncsAsked t \<and> runningSyncs t \<noteq> []"
  "i_path (snd (setWaitSyncs e t)) = i_path t"
  "mon_GlobalExpectOptions (i_state (snd (setWaitSyncs e t))) = mon_GlobalExpectOptions (i_state t)"
  "i_instStatus (snd (setWaitSyncs e t)) = i_instStatus t" "i_localhost (snd (setWaitSyncs e t)) = i_localhost t"
  by (simp_all add: setWaitSyncs_def leaveWaitSyncs_def)

lemma stopArgs_cong:
  "i_path t = i_path t' \<Longrightarrow> mon_GlobalExpectOptions (i_state t) = mon_GlobalExpectOptions (i_state t') \<Longrightarrow>
    stopArgs t l = stopArgs t' l"
  by (simp add: stopArgs_def interruptSyncsAsked_def inst_args_def)

text \<open>What lets a stop be forked.\<close>

definition may_stop :: "imon \<Rightarrow> bool" where
  "may_stop t \<longleftrightarrow>
    \<not> isLocalStopped t \<and> childrenDown (mon_Children (i_state t)) \<and> (interruptSyncsAsked t \<or> runningSyncs t = [])"

lemma doStop_execs: "execs (doStop e t) = (if may_stop t then execs t @ [stopArgs t []] else execs t)"
proof (cases "isLocalStopped t")
  case True
  then show ?thesis
    using stoppedClear_frame(1,2) [of t] by (cases "stoppedClearIfReached t") (simp add: doStop_def may_stop_def)
next
  case False
  obtain w t1 where w: "setWaitChildren t = (w, t1)" by (cases "setWaitChildren t")
  obtain v t2 where v: "setWaitSyncs e t1 = (v, t2)" by (cases "setWaitSyncs e t1")
  note f = setWaitChildren_frame [of t, unfolded w fst_conv snd_conv]
  note g = setWaitSyncs_frame [of e t1, unfolded v fst_conv snd_conv]
  have rs: "runningSyncs t1 = runningSyncs t" "interruptSyncsAsked t1 = interruptSyncsAsked t"
    by (simp_all add: runningSyncs_def localStatus_def interruptSyncsAsked_def f)
  let ?t3 = "set_mstate MonitorStateStopProgress (disableMonitor (createPendingWithDuration e stopDuration t2))"
  have "stopArgs ?t3 [] = stopArgs t []"
    by (rule stopArgs_cong) (simp_all add: createPendingWithDuration_def f g)
  then show ?thesis
    using False f(1,2) g(1,2) rs
    by (auto simp: doStop_def stoppedClear_frame(3) w v may_stop_def crm_stop.execs_queueAction)
qed

lemma setStopped_frame:
  "execs (snd (setStopped e t)) = execs t" "i_path (snd (setStopped e t)) = i_path t"
  "i_state (snd (setStopped e t)) = i_state t" "i_localhost (snd (setStopped e t)) = i_localhost t"
  by (auto simp: setStopped_def map_localStatus_def set_localStatus_def Let_def split: prod.splits bool.splits option.splits)

lemma localStatus_update:
  "map_of (i_instStatus t) (i_localhost t) = Some st \<Longrightarrow> localStatus (map_localStatus f t) = f st"
  "map_of (i_instStatus t) (i_localhost t) = None \<Longrightarrow> map_localStatus f t = t"
  by (simp_all add: localStatus_def map_localStatus_def set_localStatus_def lkp_def update_conv')

text \<open>Raising the flag changes the time of the stop in the local status, and nothing else of it.\<close>

lemma setStopped_status:
  assumes "setStopped e t = (False, t')"
  shows "st_Avail (localStatus t') = st_Avail (localStatus t)" "st_Running (localStatus t') = st_Running (localStatus t)"
    "flag_At (i_stoppedFile t') \<noteq> 0" "map_of (i_instStatus t) (i_localhost t) \<noteq> None \<Longrightarrow> IsStopped (localStatus t')"
    "\<exists>at. i_trace t' = i_trace t @ [PubStoppedFileUpdated at]"
proof -
  obtain f where f: "flag_Set (e_fsErr e FsSetStopped) (e_now e) (i_stoppedFile t) = (False, f)" "flag_At f \<noteq> 0"
    and t': "t' = emit (PubStoppedFileUpdated (flag_At f))
               (map_localStatus (\<lambda>st. st\<lparr>st_StoppedAt := flag_At f\<rparr>) (t\<lparr>i_stoppedFile := f\<rparr>))"
    using assms by (auto simp: setStopped_def Let_def split: prod.splits bool.splits if_splits)
  let ?u = "t\<lparr>i_stoppedFile := f\<rparr>"
  have e: "localStatus (emit x u) = localStatus u" for x u by (simp add: localStatus_def)
  have l: "localStatus ?u = localStatus t" by (simp add: localStatus_def)
  have sf: "i_stoppedFile (map_localStatus g u) = i_stoppedFile u" "i_trace (map_localStatus g u) = i_trace u" for g u
    by (simp_all add: map_localStatus_def set_localStatus_def split: option.splits)
  show "flag_At (i_stoppedFile t') \<noteq> 0" "\<exists>at. i_trace t' = i_trace t @ [PubStoppedFileUpdated at]"
    using f(2) by (simp_all add: t' sf)
  show "st_Avail (localStatus t') = st_Avail (localStatus t)" "st_Running (localStatus t') = st_Running (localStatus t)"
    "map_of (i_instStatus t) (i_localhost t) \<noteq> None \<Longrightarrow> IsStopped (localStatus t')"
    using localStatus_update [of ?u] l f(2)
    by (cases "map_of (i_instStatus t) (i_localhost t)", auto simp: t' e IsStopped_def localStatus_def lkp_def)+
qed

lemma may_stop_setStopped: "setStopped e t = (False, t') \<Longrightarrow> may_stop t' = may_stop t"
  using setStopped_status [of e t t'] setStopped_frame [of e t]
  by (simp add: may_stop_def isLocalStopped_def runningSyncs_def interruptSyncsAsked_def)

lemma grows_doStop: "grows t (doStop e t)"
proof -
  obtain r t0 where r: "stoppedClearIfReached t = (r, t0)" by (cases "stoppedClearIfReached t")
  obtain w t1 where w: "setWaitChildren t0 = (w, t1)" by (cases "setWaitChildren t0")
  obtain v t2 where v: "setWaitSyncs e t1 = (v, t2)" by (cases "setWaitSyncs e t1")
  have "grows t t0"
    using arg_cong [OF r, of snd] grows_trans [OF grows_trans [OF grows_refresh(7) grows_refresh(5)] grows_refresh(8)]
    by (auto simp: stoppedClearIfReached_def split: if_splits)
  moreover have "grows t0 t1" using arg_cong [OF w, of snd] by (auto simp: setWaitChildren_def grows_def split: if_splits)
  moreover have "grows t1 t2"
  proof -
    have "grows t1 (transitionTo e s (t1\<lparr>i_waitSyncsSince := a, i_waitSyncsTimer := b\<rparr>))"
      "grows t1 (transitionTo e s (t1\<lparr>i_waitSyncsSince := a, i_stopRefusedForSyncs := c\<rparr>))" for s a b c
      using grows_transitionTo [of "t1\<lparr>i_waitSyncsSince := a, i_waitSyncsTimer := b\<rparr>"]
        grows_transitionTo [of "t1\<lparr>i_waitSyncsSince := a, i_stopRefusedForSyncs := c\<rparr>"]
      by (simp_all add: grows_def)
    then show ?thesis
      using arg_cong [OF v, of snd] by (auto simp: setWaitSyncs_def leaveWaitSyncs_def split: if_splits)
  qed
  ultimately have g: "grows t t0" "grows t t1" "grows t t2" using grows_trans by blast+
  have "grows t2 (queueAction crmStop a b c e (disableMonitor (createPendingWithDuration e d t2)))" for a b c d
    by (rule grows_trans [OF grows_refresh(9) [of t2 e d]], rule grows_trans [OF grows_refresh(5)],
        rule grows_queueAction) (simp add: crmStop_def grows_crmAction)
  then show ?thesis
    using g grows_trans [OF g(3)] by (simp add: doStop_def r w v)
qed

text \<open>
  A stop asked by a user: an instance at rest is stopped exactly when it is not stopped already,
  its children are down and no sync runs on it or the request interrupts them; and the flag saying
  it is stopped on purpose is raised before the stop, without which nothing is forked.
\<close>

theorem stop_on_purpose:
  assumes "mstate t = MonitorStateIdle"
  shows "execs (orchestrateStopped e t) =
      (if (isStopped t \<or> \<not> fst (setStopped e t)) \<and> \<not> isLocalStopped t
          \<and> (\<forall>(c, avail) \<in> set (mon_Children (i_state t)).
               avail \<in> {StDown, StStandbyDown, StStandbyUp, StUndef, StNotApplicable})
          \<and> (interruptSyncsAsked t \<or> runningSyncs t = [])
       then execs t @ [stopArgs t []] else execs t)
    \<and> (\<not> isStopped t \<and> \<not> fst (setStopped e t) \<longrightarrow>
        (\<exists>at rest. i_trace (orchestrateStopped e t) = i_trace t @ PubStoppedFileUpdated at # rest))"
proof -
  have o: "orchestrateStopped e t = doStopOnPurpose e t" using assms by (simp add: orchestrateStopped_def stopOnPurpose_def)
  have c: "childrenDown m \<longleftrightarrow> (\<forall>(c, avail) \<in> set m. avail \<in> {StDown, StStandbyDown, StStandbyUp, StUndef, StNotApplicable})"
    for m by (auto simp: childrenDown_def list_all_iff)
  have e: "execs (doStopOnPurpose e t) =
      (if (isStopped t \<or> \<not> fst (setStopped e t)) \<and> may_stop t then execs t @ [stopArgs t []] else execs t)"
  proof (cases "isStopped t")
    case True
    then show ?thesis by (simp add: doStopOnPurpose_def doStop_execs)
  next
    case False
    obtain err t' where s: "setStopped e t = (err, t')" by (cases "setStopped e t")
    note f = setStopped_frame [of e t, unfolded s snd_conv]
    have "stopArgs t' [] = stopArgs t []" by (rule stopArgs_cong) (simp_all add: f)
    then show ?thesis
      using False s f may_stop_setStopped [of e t t'] by (auto simp: doStopOnPurpose_def doStop_execs)
  qed
  have "\<exists>at rest. i_trace (doStopOnPurpose e t) = i_trace t @ PubStoppedFileUpdated at # rest"
    if n: "\<not> isStopped t" and ok: "\<not> fst (setStopped e t)"
  proof -
    obtain t' where s: "setStopped e t = (False, t')" using ok by (cases "setStopped e t") simp
    then obtain at where "i_trace t' = i_trace t @ [PubStoppedFileUpdated at]" using setStopped_status(5) by blast
    then show ?thesis using grows_doStop [of t' e] n s by (auto simp: doStopOnPurpose_def grows_def)
  qed
  then show ?thesis unfolding o e may_stop_def c by blast
qed

theorem stop_on_purpose_witness:
  "execs (orchestrateStopped demo_env (demo_manager ''n1''
     \<lparr>i_instStatus := [(''n1'', demo_status\<lparr>st_Avail := StUp, st_Running := [''sync#1'']\<rparr>)]\<rparr>)) = []
   \<and> execs (orchestrateStopped demo_env (demo_manager ''n1''
     \<lparr>i_instStatus := [(''n1'', demo_status\<lparr>st_Avail := StUp\<rparr>)]\<rparr>)) = [[''web'', ''instance'', ''stop'']]"
proof
  let ?s = "demo_manager ''n1''\<lparr>i_instStatus := [(''n1'', demo_status\<lparr>st_Avail := StUp, st_Running := [''sync#1'']\<rparr>)]\<rparr>"
  let ?t = "demo_manager ''n1''\<lparr>i_instStatus := [(''n1'', demo_status\<lparr>st_Avail := StUp\<rparr>)]\<rparr>"
  have "\<not> interruptSyncsAsked ?s" "runningSyncs ?s \<noteq> []" by code_simp+
  then show "execs (orchestrateStopped demo_env ?s) = []"
    using stop_on_purpose [of ?s demo_env] by (simp add: demo_sel start_state_sel execs_def)
  have "isStopped ?t \<or> \<not> fst (setStopped demo_env ?t)" "\<not> isLocalStopped ?t" "runningSyncs ?t = []"
    "stopArgs ?t [] = [''web'', ''instance'', ''stop'']"
    by code_simp+
  then show "execs (orchestrateStopped demo_env ?t) = [[''web'', ''instance'', ''stop'']]"
    using stop_on_purpose [of ?t demo_env] by (simp add: demo_sel start_state_sel execs_def)
qed

end
