(* ===== verification/Imon_Converge.thy ===== *)
theory Imon_Converge
  imports Imon_Frame
begin

text \<open>
  How the monitors of an object agree on what is asked of it, and how an orchestration ends
  (\<open>daemon/imon/converge_global_expect.go\<close>, and in \<open>orchestration.go\<close> and \<open>main_cmd.go\<close> the end of
  an orchestration and its announcements). A monitor adopts the most recent expectation of its
  peers, orchestrates once every peer has it, and ends when every instance is done.
\<close>

section \<open>Announcements\<close>

definition setNextPendingOrchestration :: "imon \<Rightarrow> imon" where
  "setNextPendingOrchestration t =
    t\<lparr>i_orchestrationPending := Some
        \<lparr>oe_ID = mon_OrchestrationID (i_state t), oe_GlobalExpect = mon_GlobalExpect (i_state t),
         oe_GlobalExpectUpdatedAt = mon_GlobalExpectUpdatedAt (i_state t), oe_Aborted = False,
         oe_Failed = False, oe_Error = []\<rparr>\<rparr>"

definition publishOrchestrationAccepted :: "imon \<Rightarrow> imon" where
  "publishOrchestrationAccepted t =
    emit (PubOrchestrationAccepted (mon_OrchestrationID (i_state t)) (mon_GlobalExpect (i_state t))
           (mon_GlobalExpectUpdatedAt (i_state t))) t"

definition publishOrchestrationAborted :: "imon \<Rightarrow> imon" where
  "publishOrchestrationAborted t =
    (case i_orchestrationAborted t of
       None \<Rightarrow> t
     | Some oe \<Rightarrow> (emit (PubOrchestrationEnd oe) t)\<lparr>i_orchestrationAborted := None\<rparr>)"

definition publishOrchestrationEnded :: "imon \<Rightarrow> imon" where
  "publishOrchestrationEnded t =
    (case i_orchestrationPending t of
       None \<Rightarrow> t
     | Some oe \<Rightarrow> (emit (PubOrchestrationEnd oe) t)\<lparr>i_orchestrationPending := None\<rparr>)"

definition abortPendingNotEndedByDeletion :: "imon \<Rightarrow> imon" where
  "abortPendingNotEndedByDeletion t =
    (case i_orchestrationPending t of
       None \<Rightarrow> t
     | Some oe \<Rightarrow>
         if i_endWithDeletion t then t
         else if oe_GlobalExpect oe \<in> {MonitorGlobalExpectDeleted, MonitorGlobalExpectPurged} then t
         else t\<lparr>i_orchestrationPending := Some (oe\<lparr>oe_Aborted := True\<rparr>)\<rparr>)"

definition savePendingOrchestration :: "imon \<Rightarrow> imon" where
  "savePendingOrchestration t =
    (case i_orchestrationPending t of
       None \<Rightarrow> t
     | Some oe \<Rightarrow>
         (publishOrchestrationAborted t)
           \<lparr>i_orchestrationAborted := Some (oe\<lparr>oe_Aborted := True\<rparr>), i_orchestrationPending := None\<rparr>)"

section \<open>Convergence\<close>

text \<open>
  The peer with the most recent expectation, and its time; zero when no peer has one. An
  expectation of a later version of the agent is not counted.
\<close>

fun most_recent :: "string \<times> time \<Rightarrow> (string, monitor) gomap \<Rightarrow> string \<times> time" where
  "most_recent acc [] = acc"
| "most_recent acc ((node, m) # l) =
    (if mon_GlobalExpect m = MonitorGlobalExpectInit then most_recent acc l
     else if mon_GlobalExpect m = MonitorGlobalExpectUnknown then most_recent acc l
     else if snd acc < mon_GlobalExpectUpdatedAt m then most_recent (node, mon_GlobalExpectUpdatedAt m) l
     else most_recent acc l)"

definition convergeGlobalExpectFromRemote :: "imon \<Rightarrow> imon" where
  "convergeGlobalExpectFromRemote t =
    (case most_recent ([], 0) (i_instMonitor t) of (mostRecentNode, mostRecentUpdated) \<Rightarrow>
      if mostRecentUpdated = 0 then t
      else if mostRecentUpdated > mon_GlobalExpectUpdatedAt (i_state t) then
        let m = lkp zero_monitor (i_instMonitor t) mostRecentNode;
            t = t\<lparr>i_change := True,
                  i_state := (i_state t)
                    \<lparr>mon_GlobalExpect := mon_GlobalExpect m,
                     mon_GlobalExpectUpdatedAt := mon_GlobalExpectUpdatedAt m,
                     mon_GlobalExpectOptions := mon_GlobalExpectOptions m,
                     mon_OrchestrationID := mon_OrchestrationID m,
                     mon_State := MonitorStateIdle,
                     mon_OrchestrationIsDone := False\<rparr>\<rparr>
        in if mon_GlobalExpect (i_state t) = MonitorGlobalExpectAborted then savePendingOrchestration t else t
      else t)"

text \<open>
  \<open>isConvergedGlobalExpect\<close>: no peer is behind, no scope peer that is alive is still to be heard of
  but for a purge or a deletion, and the configuration is the one of the file.
\<close>

definition isConvergedGlobalExpect :: "env \<Rightarrow> imon \<Rightarrow> bool" where
  "isConvergedGlobalExpect e t =
    (let localUpdated = mon_GlobalExpectUpdatedAt (i_state t);
         ge = mon_GlobalExpect (i_state t);
         expected = filter (\<lambda>n. n \<noteq> i_localhost t \<and> n \<notin> fst ` set (i_instMonitor t)) (i_scopeNodes t)
     in if list_ex (\<lambda>(_, m). localUpdated > mon_GlobalExpectUpdatedAt m) (i_instMonitor t) then False
        else if ge \<notin> {MonitorGlobalExpectPurged, MonitorGlobalExpectDeleted}
                \<and> list_ex (\<lambda>n. map_of (i_nodeMonitor t) n \<noteq> None) expected then False
        else if ge \<noteq> MonitorGlobalExpectNone \<and> ge \<noteq> MonitorGlobalExpectInit
                \<and> localUpdated - cfg_UpdatedAt (i_config t) < second
                \<and> (e_cfgMtime e = 0 \<or> e_cfgMtime e > cfg_UpdatedAt (i_config t)) then False
        else True)"

section \<open>End of an orchestration\<close>

definition orchestrationIsDoneOnAll :: "imon \<Rightarrow> bool" where
  "orchestrationIsDoneOnAll t =
    list_all (\<lambda>(_, m). mon_OrchestrationIsDone m \<or> mon_OrchestrationID m = 0) (AllInstanceMonitors t)"

definition orchestrationIsDoneOnPeers :: "imon \<Rightarrow> bool" where
  "orchestrationIsDoneOnPeers t =
    list_all (\<lambda>(n, m). n = i_localhost t \<or> mon_OrchestrationIsDone m \<or> mon_OrchestrationID m = 0)
      (AllInstanceMonitors t)"

definition failures_on :: "imon \<Rightarrow> string list" where
  "failures_on t =
    concat (map (\<lambda>nodename. case map_of (AllInstanceMonitors t) nodename of
        None \<Rightarrow> []
      | Some m \<Rightarrow>
          if MonitorState_IsOneOf (mon_State m) MonitorStatesFailure
          then [MonitorState_String (mon_State m) @ '' on '' @ nodename] else []) (i_scopeNodes t))"

definition setOrchestrationVerdict :: "imon \<Rightarrow> imon" where
  "setOrchestrationVerdict t =
    (case i_orchestrationPending t of
       None \<Rightarrow> t
     | Some oe \<Rightarrow>
         if failures_on t = [] then t
         else t\<lparr>i_orchestrationPending := Some (oe\<lparr>oe_Failed := True, oe_Error := Join '', '' (failures_on t)\<rparr>)\<rparr>)"

definition clearStateSpokenToPeers :: "imon \<Rightarrow> imon" where
  "clearStateSpokenToPeers t =
    (if mstate t \<in> {MonitorStateResizeSuccess, MonitorStatePreflightSuccess}
     then set_mstate MonitorStateIdle t else t)"

definition resumeIdleAfterOrchestration :: "env \<Rightarrow> imon \<Rightarrow> imon" where
  "resumeIdleAfterOrchestration e t =
    (if \<not> i_idleAfterOrchestration t then t
     else
       let t = t\<lparr>i_idleAfterOrchestration := False\<rparr>
       in if st_Avail (localStatus t) \<noteq> StUp then t
          else updateIfChange e (enableMonitor (set_mstate MonitorStateIdle (t\<lparr>i_change := True\<rparr>))))"

definition endOrchestration :: "env \<Rightarrow> imon \<Rightarrow> imon" where
  "endOrchestration e t =
    (let t = setOrchestrationVerdict (t\<lparr>i_change := True\<rparr>);
         t = clearStateSpokenToPeers t;
         t = t\<lparr>i_state := (i_state t)
                 \<lparr>mon_GlobalExpect := MonitorGlobalExpectNone, mon_GlobalExpectOptions := GeoNil,
                  mon_OrchestrationIsDone := False, mon_OrchestrationID := 0\<rparr>\<rparr>;
         t = updateIfChange e (clearPending t);
         t = resumeIdleAfterOrchestration e t
     in if i_endWithDeletion t then t else publishOrchestrationEnded t)"

definition clearStoppedFlagOnRequest :: "env \<Rightarrow> imon \<Rightarrow> imon" where
  "clearStoppedFlagOnRequest e t =
    (if mon_GlobalExpect (i_state t) \<notin>
          {MonitorGlobalExpectStarted, MonitorGlobalExpectRestarted, MonitorGlobalExpectPlaced, MonitorGlobalExpectPlacedAt}
     then t
     else if \<not> isStopped t then t
     else snd (unsetStopped e t))"

section \<open>Lemmas\<close>

text \<open>What is asked of an object, as a monitor holds it.\<close>

definition request :: "monitor \<Rightarrow> monitor_global_expect \<times> time \<times> ge_options \<times> nat" where
  "request m = (mon_GlobalExpect m, mon_GlobalExpectUpdatedAt m, mon_GlobalExpectOptions m, mon_OrchestrationID m)"

text \<open>The monitors whose expectation a peer considers.\<close>

definition counted :: "monitor \<Rightarrow> bool" where
  "counted m \<longleftrightarrow> mon_GlobalExpect m \<notin> {MonitorGlobalExpectInit, MonitorGlobalExpectUnknown}"

lemma most_recent_le: "snd acc \<le> snd (most_recent acc l)"
  by (induction acc l rule: most_recent.induct) auto

lemma most_recent_upper:
  "(k, m) \<in> set l \<Longrightarrow> counted m \<Longrightarrow> mon_GlobalExpectUpdatedAt m \<le> snd (most_recent acc l)"
proof (induction l arbitrary: acc)
  case Nil
  then show ?case by simp
next
  case (Cons a l)
  obtain n m' where a: "a = (n, m')" by (cases a)
  show ?case
  proof (cases "(k, m) = a")
    case True
    then show ?thesis
      using Cons.prems(2) a most_recent_le [of acc l] most_recent_le [of "(n, mon_GlobalExpectUpdatedAt m)" l]
      by (simp add: counted_def)
  next
    case False
    then have "(k, m) \<in> set l" using Cons.prems(1) by simp
    from Cons.IH [OF this Cons.prems(2)] show ?thesis by (simp add: a)
  qed
qed

lemma most_recent_from:
  "most_recent acc l = acc
    \<or> (\<exists>m. (fst (most_recent acc l), m) \<in> set l \<and> counted m \<and> snd (most_recent acc l) = mon_GlobalExpectUpdatedAt m)"
proof (induction l arbitrary: acc)
  case Nil
  then show ?case by simp
next
  case (Cons a l)
  obtain n m' where a: "a = (n, m')" by (cases a)
  show ?case
  proof (cases "counted m' \<and> snd acc < mon_GlobalExpectUpdatedAt m'")
    case True
    then have "most_recent acc (a # l) = most_recent (n, mon_GlobalExpectUpdatedAt m') l"
      by (simp add: a counted_def)
    with Cons.IH [of "(n, mon_GlobalExpectUpdatedAt m')"] True a show ?thesis by (metis fst_conv list.set_intros snd_conv)
  next
    case False
    then have "most_recent acc (a # l) = most_recent acc l" by (auto simp: a counted_def)
    with Cons.IH [of acc] show ?thesis by (metis list.set_intros(2))
  qed
qed

lemma most_recent_spec:
  assumes "most_recent acc l = (n, u)"
  shows "snd acc \<le> u" and "\<And>k m. (k, m) \<in> set l \<Longrightarrow> counted m \<Longrightarrow> mon_GlobalExpectUpdatedAt m \<le> u"
    and "(n, u) = acc \<or> (\<exists>m. (n, m) \<in> set l \<and> counted m \<and> u = mon_GlobalExpectUpdatedAt m)"
  using most_recent_le [of acc l] most_recent_upper [of _ _ l acc] most_recent_from [of acc l]
  by (simp_all add: assms)

lemma savePending_state [simp]: "i_state (savePendingOrchestration t) = i_state t"
  by (simp add: savePendingOrchestration_def publishOrchestrationAborted_def emit_def split: option.splits)

text \<open>A convergence takes the request of a monitor the peer knows, and none is more recent.\<close>

lemma converge_request:
  assumes "wf_map (i_instMonitor t)" and "0 \<le> mon_GlobalExpectUpdatedAt (i_state t)"
  defines "s' \<equiv> i_state (convergeGlobalExpectFromRemote t)"
  shows "request s' = request (i_state t) \<or> (\<exists>n m. (n, m) \<in> set (i_instMonitor t) \<and> request s' = request m)"
    and "mon_GlobalExpectUpdatedAt (i_state t) \<le> mon_GlobalExpectUpdatedAt s'"
    and "\<And>n m. (n, m) \<in> set (i_instMonitor t) \<Longrightarrow> counted m \<Longrightarrow> mon_GlobalExpectUpdatedAt m \<le> mon_GlobalExpectUpdatedAt s'"
proof -
  obtain n u where mr: "most_recent ([], 0) (i_instMonitor t) = (n, u)" by (cases "most_recent ([], 0) (i_instMonitor t)")
  note spec = most_recent_spec [OF mr]
  have "(request s' = request (i_state t) \<or> (\<exists>n m. (n, m) \<in> set (i_instMonitor t) \<and> request s' = request m))
    \<and> mon_GlobalExpectUpdatedAt (i_state t) \<le> mon_GlobalExpectUpdatedAt s' \<and> u \<le> mon_GlobalExpectUpdatedAt s'"
  proof (cases "u \<noteq> 0 \<and> u > mon_GlobalExpectUpdatedAt (i_state t)")
    case False
    then have "s' = i_state t" unfolding s'_def convergeGlobalExpectFromRemote_def mr by (simp only: prod.case) auto
    moreover have "u \<le> mon_GlobalExpectUpdatedAt (i_state t)" using False assms(2) by linarith
    ultimately show ?thesis by simp
  next
    case True
    then obtain m where m: "(n, m) \<in> set (i_instMonitor t)" "u = mon_GlobalExpectUpdatedAt m"
      using spec(3) by auto
    then have "lkp zero_monitor (i_instMonitor t) n = m" using assms(1) by (simp add: wf_map_def lkp_def)
    with True mr m have "request s' = request m"
      by (simp add: s'_def convergeGlobalExpectFromRemote_def Let_def request_def)
    moreover from this have "mon_GlobalExpectUpdatedAt s' = u" using m by (simp add: request_def)
    ultimately show ?thesis using True m by auto
  qed
  then show "request s' = request (i_state t) \<or> (\<exists>n m. (n, m) \<in> set (i_instMonitor t) \<and> request s' = request m)"
    "mon_GlobalExpectUpdatedAt (i_state t) \<le> mon_GlobalExpectUpdatedAt s'"
    "\<And>n m. (n, m) \<in> set (i_instMonitor t) \<Longrightarrow> counted m \<Longrightarrow> mon_GlobalExpectUpdatedAt m \<le> mon_GlobalExpectUpdatedAt s'"
    using spec(2) order_trans by blast+
qed

section \<open>Properties\<close>

text \<open>
  The monitors of an object on a set of nodes, each knowing the current monitor of every other,
  with requests that have distinct times and no node asked for something it does not know.
\<close>

definition informed :: "string set \<Rightarrow> (string \<Rightarrow> imon) \<Rightarrow> bool" where
  "informed N c \<longleftrightarrow>
    (\<forall>n\<in>N. i_localhost (c n) = n \<and> wf_map (i_instMonitor (c n))
      \<and> set (i_instMonitor (c n)) = (\<lambda>m. (m, i_state (c m))) ` (N - {n})
      \<and> 0 \<le> mon_GlobalExpectUpdatedAt (i_state (c n))
      \<and> mon_GlobalExpect (i_state (c n)) \<noteq> MonitorGlobalExpectUnknown
      \<and> (mon_GlobalExpect (i_state (c n)) = MonitorGlobalExpectInit \<longrightarrow> mon_GlobalExpectUpdatedAt (i_state (c n)) = 0))
    \<and> (\<forall>n\<in>N. \<forall>m\<in>N. mon_GlobalExpectUpdatedAt (i_state (c n)) = mon_GlobalExpectUpdatedAt (i_state (c m))
         \<longrightarrow> request (i_state (c n)) = request (i_state (c m)))"

lemma informedD:
  assumes "informed N c" and "n \<in> N"
  shows "wf_map (i_instMonitor (c n))" "0 \<le> mon_GlobalExpectUpdatedAt (i_state (c n))"
    "set (i_instMonitor (c n)) = (\<lambda>m. (m, i_state (c m))) ` (N - {n})"
    "counted (i_state (c n)) \<or> mon_GlobalExpectUpdatedAt (i_state (c n)) = 0"
    "m \<in> N \<Longrightarrow> mon_GlobalExpectUpdatedAt (i_state (c n)) = mon_GlobalExpectUpdatedAt (i_state (c m))
      \<Longrightarrow> request (i_state (c n)) = request (i_state (c m))"
  using assms unfolding informed_def counted_def by blast+

lemma informed_converge:
  assumes "informed N c" and "n \<in> N"
  defines "s' \<equiv> i_state (convergeGlobalExpectFromRemote (c n))"
  shows "\<exists>k\<in>N. request s' = request (i_state (c k))"
    and "\<And>k. k \<in> N \<Longrightarrow> mon_GlobalExpectUpdatedAt (i_state (c k)) \<le> mon_GlobalExpectUpdatedAt s'"
proof -
  note d = informedD [OF assms(1,2)]
  note spec = converge_request [OF d(1,2), folded s'_def]
  show "mon_GlobalExpectUpdatedAt (i_state (c k)) \<le> mon_GlobalExpectUpdatedAt s'" if "k \<in> N" for k
  proof (cases "counted (i_state (c k)) \<and> k \<noteq> n")
    case True
    then have "(k, i_state (c k)) \<in> set (i_instMonitor (c n))" unfolding d(3) using that by blast
    then show ?thesis using spec(3) True by blast
  next
    case False
    then have "k = n \<or> mon_GlobalExpectUpdatedAt (i_state (c k)) = 0" using informedD(4) [OF assms(1) that] by blast
    then show ?thesis using spec(2) d(2) by auto
  qed
  show "\<exists>k\<in>N. request s' = request (i_state (c k))"
    using spec(1) assms(2) unfolding d(3) by blast
qed


text \<open>The demo cluster, where a start was asked on one node.\<close>

definition demo_asked :: "string \<Rightarrow> imon" where
  "demo_asked n = (demo_manager n)
    \<lparr>i_state := (if n = ''n1''
       then (start_state 1)\<lparr>mon_GlobalExpect := MonitorGlobalExpectStarted, mon_GlobalExpectUpdatedAt := 50,
              mon_OrchestrationID := 7\<rparr>
       else start_state 1),
     i_instMonitor := (if n = ''n1'' then [(''n2'', start_state 1)]
       else [(''n1'', (start_state 1)\<lparr>mon_GlobalExpect := MonitorGlobalExpectStarted,
                         mon_GlobalExpectUpdatedAt := 50, mon_OrchestrationID := 7\<rparr>)])\<rparr>"

lemma demo_asked_informed: "informed (set demo_nodes) demo_asked"
proof -
  have neq: "''n1'' \<noteq> ''n2''" by simp
  have "{''n1'', ''n2''} - {''n1''} = {''n2''}" "{''n1'', ''n2''} - {''n2''} = {''n1''}" by auto
  then show ?thesis
    by (simp add: informed_def demo_nodes_def demo_asked_def demo_manager_def start_def wf_map_def start_state_def
        zero_monitor_def request_def)
qed


text \<open>
  Nothing is orchestrated before the peers have the request: of two monitors that know each
  other and both pass the convergence test, neither has an older request than the other, so with
  requests of distinct times they orchestrate the same one.
\<close>

theorem orchestrate_same_request:
  assumes "isConvergedGlobalExpect e t" and "isConvergedGlobalExpect e' t'"
    and "map_of (i_instMonitor t) (i_localhost t') = Some (i_state t')"
    and "map_of (i_instMonitor t') (i_localhost t) = Some (i_state t)"
    and "mon_GlobalExpectUpdatedAt (i_state t) = mon_GlobalExpectUpdatedAt (i_state t')
      \<longrightarrow> request (i_state t) = request (i_state t')"
  shows "request (i_state t) = request (i_state t')"
proof -
  have behind: "mon_GlobalExpectUpdatedAt (i_state t) \<le> mon_GlobalExpectUpdatedAt m"
    if "isConvergedGlobalExpect e t" "map_of (i_instMonitor t) n = Some m" for e t n m
  proof -
    have "\<not> list_ex (\<lambda>(_, m). mon_GlobalExpectUpdatedAt (i_state t) > mon_GlobalExpectUpdatedAt m) (i_instMonitor t)"
      using that(1) by (simp add: isConvergedGlobalExpect_def Let_def split: if_splits)
    then show ?thesis using map_of_SomeD [OF that(2)] by (fastforce simp: list_ex_iff)
  qed
  show ?thesis
    using behind [OF assms(1,3)] behind [OF assms(2,4)] assms(5) by simp
qed

theorem orchestrate_same_request_witness:
  "request (i_state (demo_manager ''n1'')) = request (i_state (demo_manager ''n2''))"
  by (rule orchestrate_same_request [of demo_env _ demo_env])
    (simp_all add: isConvergedGlobalExpect_def demo_defs zero_monitor_def request_def)

section \<open>The end of an orchestration\<close>

lemma clearPending_frame [simp]:
  "i_state (clearPending t) = i_state t" "i_orchestrationPending (clearPending t) = i_orchestrationPending t"
  "i_endWithDeletion (clearPending t) = i_endWithDeletion t" "i_instStatus (clearPending t) = i_instStatus t"
  "i_localhost (clearPending t) = i_localhost t"
  by (simp_all add: clearPending_def split: option.splits)

lemma resumeIdle_frame:
  "i_orchestrationPending (resumeIdleAfterOrchestration e t) = i_orchestrationPending t"
  "i_endWithDeletion (resumeIdleAfterOrchestration e t) = i_endWithDeletion t"
  "mon_GlobalExpect (i_state (resumeIdleAfterOrchestration e t)) = mon_GlobalExpect (i_state t)"
  "mon_GlobalExpectOptions (i_state (resumeIdleAfterOrchestration e t)) = mon_GlobalExpectOptions (i_state t)"
  "mon_OrchestrationID (i_state (resumeIdleAfterOrchestration e t)) = mon_OrchestrationID (i_state t)"
  "mon_OrchestrationIsDone (i_state (resumeIdleAfterOrchestration e t)) = mon_OrchestrationIsDone (i_state t)"
  "execs (resumeIdleAfterOrchestration e t) = execs t"
  by (simp_all add: resumeIdleAfterOrchestration_def Let_def)

lemma failures_on_Nil:
  "failures_on t = [] \<longleftrightarrow>
    \<not> (\<exists>n\<in>set (i_scopeNodes t). \<exists>m. GetInstanceMonitor t n = Some m \<and> mon_State m \<in> set MonitorStatesFailure)"
proof -
  have "map_of (AllInstanceMonitors t) n = GetInstanceMonitor t n" for n
    by (simp add: AllInstanceMonitors_def GetInstanceMonitor_def)
  then show ?thesis by (auto simp: failures_on_def concat_eq_Nil_conv split: option.splits if_splits)
qed

text \<open>
  The end of an orchestration clears what was asked, forks nothing and announces the end with
  its verdict: failed exactly when an instance of the scope ended on a failure state.
\<close>

theorem endOrchestration_verdict:
  assumes "i_orchestrationPending t = Some oe" and "\<not> i_endWithDeletion t" and "\<not> oe_Failed oe"
  shows "let t' = endOrchestration e t in
    mon_GlobalExpect (i_state t') = MonitorGlobalExpectNone \<and> mon_GlobalExpectOptions (i_state t') = GeoNil
    \<and> mon_OrchestrationID (i_state t') = 0 \<and> \<not> mon_OrchestrationIsDone (i_state t')
    \<and> i_orchestrationPending t' = None \<and> execs t' = execs t
    \<and> (\<exists>oe'. last (i_trace t') = PubOrchestrationEnd oe' \<and> oe_ID oe' = oe_ID oe \<and> oe_GlobalExpect oe' = oe_GlobalExpect oe
        \<and> (oe_Failed oe' \<longleftrightarrow>
             (\<exists>n\<in>set (i_scopeNodes t). \<exists>m. GetInstanceMonitor t n = Some m \<and> mon_State m \<in> set MonitorStatesFailure)))"
proof -
  let ?t' = "endOrchestration e t"
  let ?v = "setOrchestrationVerdict (t\<lparr>i_change := True\<rparr>)"
  have f: "failures_on (t\<lparr>i_change := True\<rparr>) = failures_on t" by (simp add: failures_on_def AllInstanceMonitors_def)
  obtain oe' where v: "i_orchestrationPending ?v = Some oe'" "oe_ID oe' = oe_ID oe" "oe_GlobalExpect oe' = oe_GlobalExpect oe"
    "oe_Failed oe' \<longleftrightarrow> failures_on t \<noteq> []" "execs ?v = execs t" "i_endWithDeletion ?v = i_endWithDeletion t"
    using assms(1,3) f by (cases "failures_on t = []") (simp_all add: setOrchestrationVerdict_def)
  let ?r = "resumeIdleAfterOrchestration e (updateIfChange e (clearPending (clearStateSpokenToPeers ?v
      \<lparr>i_state := (i_state (clearStateSpokenToPeers ?v))\<lparr>mon_GlobalExpect := MonitorGlobalExpectNone,
        mon_GlobalExpectOptions := GeoNil, mon_OrchestrationIsDone := False, mon_OrchestrationID := 0\<rparr>\<rparr>)))"
  have c: "i_orchestrationPending (clearStateSpokenToPeers x) = i_orchestrationPending x"
    "i_endWithDeletion (clearStateSpokenToPeers x) = i_endWithDeletion x" "execs (clearStateSpokenToPeers x) = execs x" for x
    by (simp_all add: clearStateSpokenToPeers_def)
  have r: "i_orchestrationPending ?r = Some oe'" "\<not> i_endWithDeletion ?r" "execs ?r = execs t"
    "mon_GlobalExpect (i_state ?r) = MonitorGlobalExpectNone" "mon_GlobalExpectOptions (i_state ?r) = GeoNil"
    "mon_OrchestrationID (i_state ?r) = 0" "\<not> mon_OrchestrationIsDone (i_state ?r)"
    by (simp_all add: resumeIdle_frame c v assms(2))
  have t': "?t' = (emit (PubOrchestrationEnd oe') ?r)\<lparr>i_orchestrationPending := None\<rparr>"
    using r(1,2) by (simp add: endOrchestration_def Let_def publishOrchestrationEnded_def)
  have "last (i_trace ?t') = PubOrchestrationEnd oe'" "i_state ?t' = i_state ?r" "i_orchestrationPending ?t' = None"
    "execs ?t' = execs t"
    unfolding t' by (simp_all add: r(3))
  then show ?thesis
    unfolding Let_def using v(2-4) r(4-7) failures_on_Nil [of t] by metis
qed

definition demo_end :: orchestration_end where
  "demo_end = \<lparr>oe_ID = 7, oe_GlobalExpect = MonitorGlobalExpectStarted, oe_GlobalExpectUpdatedAt = 50,
    oe_Aborted = False, oe_Failed = False, oe_Error = []\<rparr>"

theorem endOrchestration_verdict_witness:
  "\<exists>oe'. last (i_trace (endOrchestration demo_env (demo_manager ''n1''\<lparr>i_orchestrationPending := Some demo_end\<rparr>)))
      = PubOrchestrationEnd oe' \<and> \<not> oe_Failed oe'"
proof -
  let ?t = "demo_manager ''n1''\<lparr>i_orchestrationPending := Some demo_end\<rparr>"
  have "mon_State m = MonitorStateIdle" if "GetInstanceMonitor ?t n = Some m" for n m
    using that by (auto simp: GetInstanceMonitor_def demo_sel start_state_sel split: if_splits dest!: map_of_SomeD)
  then have "\<not> (\<exists>n\<in>set (i_scopeNodes ?t). \<exists>m. GetInstanceMonitor ?t n = Some m \<and> mon_State m \<in> set MonitorStatesFailure)"
    by (fastforce simp: MonitorStatesFailure_def)
  moreover have "i_orchestrationPending ?t = Some demo_end" "\<not> i_endWithDeletion ?t" "\<not> oe_Failed demo_end"
    by (simp_all add: demo_sel demo_end_def)
  ultimately show ?thesis using endOrchestration_verdict [of ?t demo_end demo_env] by (simp only: Let_def) blast
qed

end
