(* ===== verification/Imon_Place.thy ===== *)
theory Imon_Place
  imports Imon_Start_Stop Imon_Converge
begin

text \<open>
  Moving an object: the giveback and the switch (\<open>orchestration_placed.go\<close>,
  \<open>orchestration_placed_at.go\<close>) and the wait of a switch source for its destination to be ready to
  start (\<open>wait_destination.go\<close>), of \<open>daemon/imon\<close>.
\<close>

section \<open>Waiting for the destination\<close>

definition defaultWaitDestinationTimeout :: duration where
  "defaultWaitDestinationTimeout = 60 * minute"

definition waitDestinationTimeout :: "imon \<Rightarrow> duration" where
  "waitDestinationTimeout t =
    (case cfg_Actor (i_config t) of
       None \<Rightarrow> defaultWaitDestinationTimeout
     | Some ac \<Rightarrow> if ac_StartTimeout ac > 0 then ac_StartTimeout ac else defaultWaitDestinationTimeout)"

text \<open>The blockers of a node by resource id, in the order of \<open>sortedRIDs\<close>.\<close>

definition startBlockers :: "imon \<Rightarrow> string \<Rightarrow> (string \<times> start_blocker) list" where
  "startBlockers t nodename =
    sort_key fst (concat (map (\<lambda>(rid, rs). case rs_StartBlocker rs of None \<Rightarrow> [] | Some b \<Rightarrow> [(rid, b)])
      (st_Resources (lkp zero_status (i_instStatus t) nodename))))"

definition blockerReasons :: "imon \<Rightarrow> string list \<Rightarrow> (string \<times> string \<times> string) list" where
  "blockerReasons t nodenames =
    concat (map (\<lambda>n. map (\<lambda>(rid, b). (n, rid, sb_Reason b)) (startBlockers t n)) nodenames)"

definition isUpToDateElsewhere :: "imon \<Rightarrow> string \<Rightarrow> string list \<Rightarrow> bool" where
  "isUpToDateElsewhere t rid dst =
    list_ex (\<lambda>(n, st). n \<notin> set dst \<and>
      (case map_of (st_Resources st) rid of
         None \<Rightarrow> False
       | Some rs \<Rightarrow> rs_StartBlocker rs = None \<and> status_Is (rs_Status rs) [StUp, StStandbyUp])) (i_instStatus t)"

definition unliftableBlockers :: "imon \<Rightarrow> string list \<Rightarrow> (string \<times> string \<times> string) list" where
  "unliftableBlockers t dst =
    concat (map (\<lambda>n. map (\<lambda>(rid, b). (n, rid, sb_Reason b))
      (filter (\<lambda>(rid, b). \<not> sb_Resync b \<or> \<not> isUpToDateElsewhere t rid dst) (startBlockers t n))) dst)"

definition failWaitDestination :: "env \<Rightarrow> imon \<Rightarrow> imon" where
  "failWaitDestination e t =
    clearPending (orch_done
      ((transitionTo e MonitorStateWaitDestinationFailure (t\<lparr>i_waitDestinationSince := 0, i_waitDestinationTimer := None\<rparr>))
         \<lparr>i_idleAfterOrchestration := True\<rparr>))"

definition getPlacedAtDestination :: "imon \<Rightarrow> string list option" where
  "getPlacedAtDestination t =
    (case mon_GlobalExpectOptions (i_state t) of GeoPlacedAt dst _ _ \<Rightarrow> Some dst | _ \<Rightarrow> None)"

definition getPlacedAtLive :: "imon \<Rightarrow> bool" where
  "getPlacedAtLive t = (case mon_GlobalExpectOptions (i_state t) of GeoPlacedAt _ live _ \<Rightarrow> live | _ \<Rightarrow> False)"

text \<open>A destination that failed to prepare or publishes no status is not ready, and will not be.\<close>

definition destinationLost :: "imon \<Rightarrow> string \<Rightarrow> bool" where
  "destinationLost t nodename =
    (mon_State (lkp zero_monitor (i_instMonitor t) nodename) = MonitorStatePrepareFailure
     \<or> map_of (i_instStatus t) nodename = None)"

definition setWaitDestination :: "env \<Rightarrow> imon \<Rightarrow> bool \<times> imon" where
  "setWaitDestination e t =
    (case getPlacedAtDestination t of
       None \<Rightarrow> (False, t)
     | Some dst \<Rightarrow>
         if dst = [] then (False, t)
         else if list_ex (destinationLost t) dst then (True, failWaitDestination e t)
         else if blockerReasons t dst = [] then
           (False, if mstate t = MonitorStateWaitDestination
                   then transitionTo e MonitorStateIdle (t\<lparr>i_waitDestinationSince := 0, i_waitDestinationTimer := None\<rparr>)
                   else t)
         else if unliftableBlockers t dst \<noteq> [] then (True, failWaitDestination e t)
         else if mstate t \<noteq> MonitorStateWaitDestination then
           (True, transitionTo e MonitorStateWaitDestination
                    (t\<lparr>i_waitDestinationSince := e_now e,
                       i_waitDestinationTimer := Some (e_now e + waitDestinationTimeout t)\<rparr>))
         else if e_now e - i_waitDestinationSince t > waitDestinationTimeout t then (True, failWaitDestination e t)
         else (True, t))"

text \<open>The objects to start standby for the resync of the local instance.\<close>

definition resyncBlockerPaths :: "imon \<Rightarrow> string list" where
  "resyncBlockerPaths t =
    foldl (\<lambda>l (rid, b).
      if \<not> sb_Resync b then l
      else let p = (if sb_Path b = [] then path_String (i_path t) else sb_Path b)
           in if p \<in> set l then l else l @ [p]) [] (startBlockers t (i_localhost t))"

fun crmPrepare :: "string list \<Rightarrow> action" where
  "crmPrepare [] e t = (False, t)"
| "crmPrepare (p # paths) e t =
    (case crmAction [p, ''instance'', ''startstandby''] e t of
       (err, t) \<Rightarrow> if err then (True, t) else crmPrepare paths e t)"

section \<open>The stop half of a placement\<close>

definition doPlacedStop :: "env \<Rightarrow> imon \<Rightarrow> imon" where
  "doPlacedStop e t =
    (case setWaitDestination e t of (wait, t) \<Rightarrow>
      if wait then t
      else case setWaitSyncs e t of (wait, t) \<Rightarrow>
        if wait then t
        else
          let t = disableMonitor (createPendingWithDuration e stopDuration t);
              dst = getPlacedAtDestination t
          in if getPlacedAtLive t then
               (case dst of
                  Some [d] \<Rightarrow>
                    queueAction (crmStopMoveTo d) MonitorStateStopProgress MonitorStateStopSuccess MonitorStateStopFailure e t
                | _ \<Rightarrow> transitionTo e MonitorStateStopFailure t)
             else if dst \<noteq> None \<and> dst \<noteq> Some [] then
               queueAction (crmStopSyncTo (the dst)) MonitorStateStopProgress MonitorStateStopSuccess MonitorStateStopFailure e t
             else queueAction crmStop MonitorStateStopProgress MonitorStateStopSuccess MonitorStateStopFailure e t)"

definition skipPlacedStop :: "imon \<Rightarrow> imon" where
  "skipPlacedStop t = clearPending (set_mstate MonitorStateStopSuccess (t\<lparr>i_change := True\<rparr>))"

definition skipPlacedStart :: "imon \<Rightarrow> imon" where
  "skipPlacedStart t = clearPending (set_mstate MonitorStateStartSuccess (t\<lparr>i_change := True\<rparr>))"

definition placedStop :: "env \<Rightarrow> imon \<Rightarrow> imon" where
  "placedStop e t =
    (case setWaitChildren t of (wait, t) \<Rightarrow>
      if wait then t
      else if st_Avail (localStatus t) \<in> {StDown, StStandbyDown, StStandbyUp} then skipPlacedStop t
      else if st_Avail (localStatus t) \<in> {StUp, StWarn} then doPlacedStop e t
      else t)"

definition orchestratePlacedStopFromStopFailure :: "imon \<Rightarrow> imon" where
  "orchestratePlacedStopFromStopFailure t =
    (if st_Avail (localStatus t) \<in> {StDown, StStandbyDown} then
       clearPending (set_mstate MonitorStateStopSuccess (t\<lparr>i_change := True\<rparr>))
     else if st_Avail (localStatus t) = StUp then
       clearPending (orch_done (t\<lparr>i_stopRefusedForSyncs := False, i_idleAfterOrchestration := True\<rparr>))
     else clearPending (orch_done (resumeMonitorIfStopRefused t)))"

definition donePlacedStop :: "imon \<Rightarrow> imon" where
  "donePlacedStop t = clearPending (doneAndIdle t)"

definition orchestratePlacedFromStartFailed :: "imon \<Rightarrow> imon" where
  "orchestratePlacedFromStartFailed t =
    (if as_Avail (objActor t) = StUp then snd (startedClearIfReached t) else clearPending (orch_done t))"

definition orchestrateFailoverPlacedStop :: "env \<Rightarrow> imon \<Rightarrow> imon" where
  "orchestrateFailoverPlacedStop e t =
    (case mstate t of
       MonitorStateIdle \<Rightarrow> placedStop e t
     | MonitorStateUnfreezeSuccess \<Rightarrow> placedStop e t
     | MonitorStateStartSuccess \<Rightarrow> if isLocalStarted t then transitionTo e MonitorStateIdle t else t
     | MonitorStateStopFailure \<Rightarrow> orchestratePlacedStopFromStopFailure t
     | MonitorStateStopSuccess \<Rightarrow> donePlacedStop t
     | MonitorStateReady \<Rightarrow> transitionTo e MonitorStateIdle t
     | MonitorStateStartFailure \<Rightarrow> orchestratePlacedFromStartFailed t
     | MonitorStateWaitChildren \<Rightarrow> snd (setWaitChildren t)
     | MonitorStateWaitSyncs \<Rightarrow> (case setWaitSyncs e t of (wait, t) \<Rightarrow> if wait then t else placedStop e t)
     | MonitorStateWaitDestination \<Rightarrow> placedStop e t
     | _ \<Rightarrow> t)"

text \<open>The flex version has the same cases.\<close>

definition orchestrateFlexPlacedStop :: "env \<Rightarrow> imon \<Rightarrow> imon" where
  "orchestrateFlexPlacedStop e t =
    (case mstate t of
       MonitorStateIdle \<Rightarrow> placedStop e t
     | MonitorStateUnfreezeSuccess \<Rightarrow> placedStop e t
     | MonitorStateStartSuccess \<Rightarrow> if isLocalStarted t then transitionTo e MonitorStateIdle t else t
     | MonitorStateStopFailure \<Rightarrow> orchestratePlacedStopFromStopFailure t
     | MonitorStateStopSuccess \<Rightarrow> donePlacedStop t
     | MonitorStateReady \<Rightarrow> transitionTo e MonitorStateIdle t
     | MonitorStateStartFailure \<Rightarrow> orchestratePlacedFromStartFailed t
     | MonitorStateWaitChildren \<Rightarrow> snd (setWaitChildren t)
     | MonitorStateWaitSyncs \<Rightarrow> (case setWaitSyncs e t of (wait, t) \<Rightarrow> if wait then t else placedStop e t)
     | MonitorStateWaitDestination \<Rightarrow> placedStop e t
     | _ \<Rightarrow> t)"

definition orchestratePlacedStop :: "env \<Rightarrow> imon \<Rightarrow> imon" where
  "orchestratePlacedStop e t =
    (let t = disableMonitor t
     in case as_Topology (objActor t) of
          Failover \<Rightarrow> orchestrateFailoverPlacedStop e t
        | Flex \<Rightarrow> orchestrateFlexPlacedStop e t
        | TopInvalid \<Rightarrow> t)"

section \<open>The start half of a placement\<close>

definition orchestratePlacedAtSetWaitParents :: "env \<Rightarrow> imon \<Rightarrow> bool \<times> imon" where
  "orchestratePlacedAtSetWaitParents e t =
    (if isAnyParentWaitingChilren e t then (True, t) else setWaitParents t)"

definition doPlacedStart :: "env \<Rightarrow> imon \<Rightarrow> imon" where
  "doPlacedStart e t =
    queueAction crmStart MonitorStateStartProgress MonitorStateStartSuccess MonitorStateStartFailure e t"

definition placedStart :: "env \<Rightarrow> imon \<Rightarrow> imon" where
  "placedStart e t =
    (case orchestratePlacedAtSetWaitParents e t of (wait, t) \<Rightarrow>
      if wait then t
      else if st_Avail (localStatus t) \<in> {StDown, StStandbyDown, StStandbyUp} then doPlacedStart e t
      else if st_Avail (localStatus t) \<in> {StUp, StWarn} then skipPlacedStart t
      else t)"

definition isUpOnPeers :: "imon \<Rightarrow> bool" where
  "isUpOnPeers t = list_ex (\<lambda>(n, st). n \<noteq> i_localhost t \<and> status_Is (st_Avail st) [StUp, StWarn]) (i_instStatus t)"

definition placedStartAfterMove :: "env \<Rightarrow> imon \<Rightarrow> imon" where
  "placedStartAfterMove e t =
    (case orchestratePlacedAtSetWaitParents e t of (wait, t) \<Rightarrow>
      if wait then t
      else if status_Is (st_Avail (localStatus t)) [StUp] then skipPlacedStart t
      else doPlacedStart e t)"

definition orchestrateFailoverPlacedStartFromIdle :: "env \<Rightarrow> imon \<Rightarrow> imon" where
  "orchestrateFailoverPlacedStartFromIdle e t =
    (if st_Avail (localStatus t) = StUp then transitionTo e MonitorStateStartSuccess t
     else if resyncBlockerPaths t \<noteq> [] then
       queueAction (crmPrepare (resyncBlockerPaths t)) MonitorStatePrepareProgress MonitorStateStopSuccess
         MonitorStatePrepareFailure e t
     else transitionTo e MonitorStateStopSuccess t)"

definition orchestrateFailoverPlacedStartFromStopped :: "env \<Rightarrow> imon \<Rightarrow> imon" where
  "orchestrateFailoverPlacedStartFromStopped e t =
    (let t = (if resyncBlockerPaths t \<noteq> [] then scheduleEventRefresh e t else t);
         avail = as_Avail (objActor t)
     in if avail \<in> {StNotApplicable, StUndef} then snd (startedClearIfReached t)
        else if avail = StDown then placedStart e t
        else if avail \<in> {StWarn, StUp, StStandbyUp} then
          (if \<not> orchestrationIsDoneOnPeers t then t
           else if \<not> isUpOnPeers t then placedStartAfterMove e t
           else clearPending (orch_done (transitionTo e MonitorStateIdle t)))
        else t)"

definition orchestrateFailoverPlacedStart :: "env \<Rightarrow> imon \<Rightarrow> imon" where
  "orchestrateFailoverPlacedStart e t =
    (case mstate t of
       MonitorStateIdle \<Rightarrow> orchestrateFailoverPlacedStartFromIdle e t
     | MonitorStateUnfreezeSuccess \<Rightarrow> orchestrateFailoverPlacedStartFromIdle e t
     | MonitorStateStartSuccess \<Rightarrow> snd (startedClearIfReached t)
     | MonitorStateStopSuccess \<Rightarrow> orchestrateFailoverPlacedStartFromStopped e t
     | MonitorStateStartFailure \<Rightarrow> orchestratePlacedFromStartFailed t
     | MonitorStatePrepareFailure \<Rightarrow> orch_done t
     | MonitorStateWaitParents \<Rightarrow> snd (orchestratePlacedAtSetWaitParents e t)
     | _ \<Rightarrow> t)"

definition orchestrateFlexPlacedStart :: "env \<Rightarrow> imon \<Rightarrow> imon" where
  "orchestrateFlexPlacedStart e t =
    (case mstate t of
       MonitorStateIdle \<Rightarrow> placedStart e t
     | MonitorStateUnfreezeSuccess \<Rightarrow> placedStart e t
     | MonitorStateStartSuccess \<Rightarrow> snd (startedClearIfReached t)
     | MonitorStateStopSuccess \<Rightarrow> transitionTo e MonitorStateIdle t
     | MonitorStateStartFailure \<Rightarrow> orchestratePlacedFromStartFailed t
     | MonitorStateWaitParents \<Rightarrow> snd (orchestratePlacedAtSetWaitParents e t)
     | _ \<Rightarrow> t)"

definition orchestratePlacedStart :: "env \<Rightarrow> imon \<Rightarrow> imon" where
  "orchestratePlacedStart e t =
    (case as_Topology (objActor t) of
       Failover \<Rightarrow> orchestrateFailoverPlacedStart e t
     | Flex \<Rightarrow> orchestrateFlexPlacedStart e t
     | TopInvalid \<Rightarrow> t)"

definition orchestratePlaced :: "env \<Rightarrow> imon \<Rightarrow> imon" where
  "orchestratePlaced e t =
    (if isStartCandidateLeader e t False then orchestratePlacedStart e t else orchestratePlacedStop e t)"

definition orchestratePlacedAt :: "env \<Rightarrow> imon \<Rightarrow> imon" where
  "orchestratePlacedAt e t =
    (case getPlacedAtDestination t of
       None \<Rightarrow> t
     | Some dstNodes \<Rightarrow>
         if i_localhost t \<in> set dstNodes then orchestratePlacedStart e t else orchestratePlacedStop e t)"

section \<open>Lemmas\<close>

interpretation crm_stop_sync_to: forks "crmStopSyncTo dst" "\<lambda>t. stopArgs t [''--sync-to'', Join '','' dst]"
  by (intro forks_intro) (simp_all add: crmStopSyncTo_def)

interpretation crm_stop_move_to: forks "crmStopMoveTo dst" "\<lambda>t. stopArgs t [''--move-to'', dst]"
  by (intro forks_intro) (simp_all add: crmStopMoveTo_def)

lemma startBlockers_Nil:
  "startBlockers t n = [] \<longleftrightarrow>
    (\<forall>(rid, rs) \<in> set (st_Resources (lkp zero_status (i_instStatus t) n)). rs_StartBlocker rs = None)"
proof -
  have "sort_key fst l = [] \<longleftrightarrow> l = []" for l :: "(string \<times> start_blocker) list"
    by (metis set_empty set_sort)
  then show ?thesis by (auto simp: startBlockers_def split: option.splits)
qed

lemma blockerReasons_Nil: "blockerReasons t dst = [] \<longleftrightarrow> (\<forall>n\<in>set dst. startBlockers t n = [])"
  by (auto simp: blockerReasons_def)

text \<open>The destination of a switch is ready: it publishes a status, without a resource blocking its start.\<close>

definition destinationReady :: "imon \<Rightarrow> string \<Rightarrow> bool" where
  "destinationReady t n \<longleftrightarrow> \<not> destinationLost t n \<and> startBlockers t n = []"

lemma execs_failWaitDestination [simp]: "execs (failWaitDestination e t) = execs t"
  by (simp add: failWaitDestination_def)

lemma setWaitDestination_frame:
  "execs (snd (setWaitDestination e t)) = execs t"
  "fst (setWaitDestination e t) \<longleftrightarrow> \<not> (\<forall>d\<in>set (case getPlacedAtDestination t of None \<Rightarrow> [] | Some dst \<Rightarrow> dst). destinationReady t d)"
proof -
  show "execs (snd (setWaitDestination e t)) = execs t"
    by (simp add: setWaitDestination_def split: option.splits)
  show "fst (setWaitDestination e t) \<longleftrightarrow>
      \<not> (\<forall>d\<in>set (case getPlacedAtDestination t of None \<Rightarrow> [] | Some dst \<Rightarrow> dst). destinationReady t d)"
    by (auto simp: setWaitDestination_def destinationReady_def list_ex_iff blockerReasons_Nil split: option.splits if_splits)
qed

text \<open>What a wait that is over leaves alone.\<close>

lemma setWaitDestination_over:
  assumes "\<not> fst (setWaitDestination e t)"
  shows "i_path (snd (setWaitDestination e t)) = i_path t" "i_instStatus (snd (setWaitDestination e t)) = i_instStatus t"
    "i_localhost (snd (setWaitDestination e t)) = i_localhost t"
    "mon_GlobalExpectOptions (i_state (snd (setWaitDestination e t))) = mon_GlobalExpectOptions (i_state t)"
  using assms by (auto simp: setWaitDestination_def split: option.splits if_splits)

text \<open>The stop the source of a placement runs.\<close>

definition placed_stop_args :: "imon \<Rightarrow> string list list" where
  "placed_stop_args t =
    (if getPlacedAtLive t
     then (case getPlacedAtDestination t of Some [d] \<Rightarrow> [stopArgs t [''--move-to'', d]] | _ \<Rightarrow> [])
     else case getPlacedAtDestination t of
       None \<Rightarrow> [stopArgs t []]
     | Some dst \<Rightarrow> if dst = [] then [stopArgs t []] else [stopArgs t [''--sync-to'', Join '','' dst]])"

lemma doPlacedStop_execs:
  "execs (doPlacedStop e t) =
    (if (\<forall>d\<in>set (case getPlacedAtDestination t of None \<Rightarrow> [] | Some dst \<Rightarrow> dst). destinationReady t d)
        \<and> (interruptSyncsAsked t \<or> runningSyncs t = [])
     then execs t @ placed_stop_args t else execs t)"
proof -
  obtain w t1 where w: "setWaitDestination e t = (w, t1)" by (cases "setWaitDestination e t")
  obtain v t2 where v: "setWaitSyncs e t1 = (v, t2)" by (cases "setWaitSyncs e t1")
  note f = setWaitDestination_frame(1,2) [of e t, unfolded w fst_conv snd_conv]
  note g = setWaitSyncs_frame [of e t1, unfolded v fst_conv snd_conv]
  show ?thesis
  proof (cases w)
    case True
    then show ?thesis using f w by (auto simp: doPlacedStop_def)
  next
    case False
    note o = setWaitDestination_over [of e t, unfolded w fst_conv snd_conv, OF False]
    have rs: "runningSyncs t1 = runningSyncs t" "interruptSyncsAsked t1 = interruptSyncsAsked t"
      by (simp_all add: runningSyncs_def localStatus_def interruptSyncsAsked_def o)
    let ?t3 = "disableMonitor (createPendingWithDuration e stopDuration t2)"
    have opt: "mon_GlobalExpectOptions (i_state ?t3) = mon_GlobalExpectOptions (i_state t)" "i_path ?t3 = i_path t"
      by (simp_all add: createPendingWithDuration_def g o)
    then have d: "getPlacedAtDestination ?t3 = getPlacedAtDestination t" "getPlacedAtLive ?t3 = getPlacedAtLive t"
      by (simp_all add: getPlacedAtDestination_def getPlacedAtLive_def)
    have s: "stopArgs (set_mstate a ?t3) l = stopArgs t l" for a l 
      by (rule stopArgs_cong) (simp_all add: createPendingWithDuration_def g o)
    have "execs ?t3 = execs t" using f(1) g(1) by simp
    then show ?thesis
      using f g(1,2) rs False w v
      by (auto simp: doPlacedStop_def Let_def d s placed_stop_args_def crm_stop.execs_queueAction
          crm_stop_sync_to.execs_queueAction crm_stop_move_to.execs_queueAction split: list.splits option.splits)
  qed
qed

lemma execs_crmPrepare: "\<exists>k. execs (snd (crmPrepare paths e t)) = execs t @ map (\<lambda>p. [p, ''instance'', ''startstandby'']) (take k paths)"
proof (induction paths arbitrary: t)
  case Nil
  then show ?case by simp
next
  case (Cons p paths)
  let ?a = "[p, ''instance'', ''startstandby'']"
  obtain err t1 where a: "crmAction ?a e t = (err, t1)" by (cases "crmAction ?a e t")
  have t1: "execs t1 = execs t @ [?a]" using crmAction_frame(1) [of ?a e t] by (simp add: a)
  show ?case
  proof (cases err)
    case True
    then show ?thesis using a t1 by (intro exI [where x = 1]) simp
  next
    case False
    obtain k where "execs (snd (crmPrepare paths e t1)) = execs t1 @ map (\<lambda>p. [p, ''instance'', ''startstandby'']) (take k paths)"
      using Cons.IH by blast
    then show ?thesis using a t1 False by (intro exI [where x = "Suc k"]) simp
  qed
qed

lemma waitParents_frame:
  "execs (snd (orchestratePlacedAtSetWaitParents e t)) = execs t"
  "i_path (snd (orchestratePlacedAtSetWaitParents e t)) = i_path t"
  "i_instStatus (snd (orchestratePlacedAtSetWaitParents e t)) = i_instStatus t"
  "i_localhost (snd (orchestratePlacedAtSetWaitParents e t)) = i_localhost t"
  "fst (orchestratePlacedAtSetWaitParents e t) \<longleftrightarrow>
    isAnyParentWaitingChilren e t \<or> \<not> parentsReady (mon_Parents (i_state t))"
  by (simp_all add: orchestratePlacedAtSetWaitParents_def setWaitParents_frame)
    (simp_all add: setWaitParents_def)

lemma execs_doPlacedStart [simp]: "execs (doPlacedStart e t) = execs t @ [inst_args t [''start'']]"
  by (simp add: doPlacedStart_def crm_start.execs_queueAction inst_args_def)

lemma execs_skip [simp]: "execs (skipPlacedStart t) = execs t" "execs (skipPlacedStop t) = execs t"
  by (simp_all add: skipPlacedStart_def skipPlacedStop_def)

section \<open>Properties\<close>

text \<open>
  The source of a placement is stopped exactly when its children are down, it is up or warn, no
  sync runs on it or the request interrupts them, and every destination of the switch publishes a
  status with nothing blocking its start. The stop of a switch sends the data to the destinations, a
  live one moves to its one destination.
\<close>

theorem placed_stop_guarded:
  "execs (placedStop e t) =
    (if (\<forall>(c, avail) \<in> set (mon_Children (i_state t)).
           avail \<in> {StDown, StStandbyDown, StStandbyUp, StUndef, StNotApplicable})
        \<and> st_Avail (localStatus t) \<in> {StUp, StWarn}
        \<and> (interruptSyncsAsked t \<or> runningSyncs t = [])
        \<and> (\<forall>d\<in>set (case getPlacedAtDestination t of None \<Rightarrow> [] | Some dst \<Rightarrow> dst).
             mon_State (lkp zero_monitor (i_instMonitor t) d) \<noteq> MonitorStatePrepareFailure
             \<and> (\<exists>st. map_of (i_instStatus t) d = Some st \<and> (\<forall>(rid, rs) \<in> set (st_Resources st). rs_StartBlocker rs = None)))
     then execs t @ placed_stop_args t
     else execs t)"
proof -
  obtain w t1 where w: "setWaitChildren t = (w, t1)" by (cases "setWaitChildren t")
  note f = setWaitChildren_frame [of t, unfolded w fst_conv snd_conv]
  have im: "i_instMonitor t1 = i_instMonitor t" using arg_cong [OF w, of snd] by (auto simp: setWaitChildren_def split: if_splits)
  have c: "childrenDown m \<longleftrightarrow> (\<forall>(c, avail) \<in> set m. avail \<in> {StDown, StStandbyDown, StStandbyUp, StUndef, StNotApplicable})"
    for m by (auto simp: childrenDown_def list_all_iff)
  have same: "localStatus t1 = localStatus t" "runningSyncs t1 = runningSyncs t" "interruptSyncsAsked t1 = interruptSyncsAsked t"
    "getPlacedAtDestination t1 = getPlacedAtDestination t" "getPlacedAtLive t1 = getPlacedAtLive t"
    by (simp_all add: runningSyncs_def localStatus_def interruptSyncsAsked_def getPlacedAtDestination_def getPlacedAtLive_def f)
  have "stopArgs t1 l = stopArgs t l" for l by (rule stopArgs_cong) (simp_all add: f)
  then have args: "placed_stop_args t1 = placed_stop_args t" 
    by (simp add: placed_stop_args_def same split: option.splits list.splits)
  have ready: "destinationReady t1 d \<longleftrightarrow> mon_State (lkp zero_monitor (i_instMonitor t) d) \<noteq> MonitorStatePrepareFailure
      \<and> (\<exists>st. map_of (i_instStatus t) d = Some st \<and> (\<forall>(rid, rs) \<in> set (st_Resources st). rs_StartBlocker rs = None))" for d
    by (cases "map_of (i_instStatus t) d")
      (simp_all add: destinationReady_def destinationLost_def startBlockers_Nil f im, simp_all add: lkp_def)
  have "execs (placedStop e t) =
      (if childrenDown (mon_Children (i_state t)) \<and> st_Avail (localStatus t) \<in> {StUp, StWarn}
          \<and> (interruptSyncsAsked t \<or> runningSyncs t = [])
          \<and> (\<forall>d\<in>set (case getPlacedAtDestination t of None \<Rightarrow> [] | Some dst \<Rightarrow> dst). destinationReady t1 d)
       then execs t @ placed_stop_args t else execs t)"
    using f(1,2) w by (auto simp: placedStop_def same args doPlacedStop_execs)
  then show ?thesis unfolding ready c .
qed

lemma placed_start_from_stopped:
  assumes "mstate t = MonitorStateStopSuccess"
  shows "execs (orchestrateFailoverPlacedStart e t) =
       (if \<not> isAnyParentWaitingChilren e t \<and> (\<forall>(p, avail) \<in> set (mon_Parents (i_state t)). avail \<in> {StUp, StUndef})
           \<and> (as_Avail (objActor t) = StDown \<and> st_Avail (localStatus t) \<in> {StDown, StStandbyDown, StStandbyUp}
              \<or> as_Avail (objActor t) \<in> {StWarn, StUp, StStandbyUp} \<and> orchestrationIsDoneOnPeers t
                 \<and> (\<forall>(n, st) \<in> set (i_instStatus t). n = i_localhost t \<or> st_Avail st \<notin> {StUp, StWarn})
                 \<and> st_Avail (localStatus t) \<noteq> StUp)
        then execs t @ [inst_args t [''start'']]
        else execs t)"
proof -
  let ?u = "if resyncBlockerPaths t \<noteq> [] then scheduleEventRefresh e t else t"
  have u: "execs ?u = execs t" "objActor ?u = objActor t" "localStatus ?u = localStatus t" "inst_args ?u l = inst_args t l"
    "isAnyParentWaitingChilren e ?u = isAnyParentWaitingChilren e t" "mon_Parents (i_state ?u) = mon_Parents (i_state t)"
    "orchestrationIsDoneOnPeers ?u = orchestrationIsDoneOnPeers t" "isUpOnPeers ?u = isUpOnPeers t" for l
    by (simp_all add: objActor_def localStatus_def inst_args_def isAnyParentWaitingChilren_def
        orchestrationIsDoneOnPeers_def isUpOnPeers_def AllInstanceMonitors_def scheduleEventRefresh_def)
  obtain w t1 where w: "orchestratePlacedAtSetWaitParents e ?u = (w, t1)" by (cases "orchestratePlacedAtSetWaitParents e ?u")
  note f = waitParents_frame [of e ?u, unfolded w fst_conv snd_conv]
  have t1: "localStatus t1 = localStatus t" "inst_args t1 l = inst_args t l" for l
    using f u(3,4) by (simp_all add: localStatus_def inst_args_def)
  have parents: "parentsReady m \<longleftrightarrow> (\<forall>(p, avail) \<in> set m. avail \<in> {StUp, StUndef})" for m
    by (auto simp: parentsReady_def list_all_iff)
  have peers: "\<not> isUpOnPeers t \<longleftrightarrow> (\<forall>(n, st) \<in> set (i_instStatus t). n = i_localhost t \<or> st_Avail st \<notin> {StUp, StWarn})"
    by (auto simp: isUpOnPeers_def list_ex_iff)
  have ps: "execs (placedStart e ?u) = (if \<not> w \<and> st_Avail (localStatus t) \<in> {StDown, StStandbyDown, StStandbyUp}
      then execs t @ [inst_args t [''start'']] else execs t)"
    using f(1) u(1) by (simp add: placedStart_def w t1)
  have pm: "execs (placedStartAfterMove e ?u) = (if \<not> w \<and> st_Avail (localStatus t) \<noteq> StUp
      then execs t @ [inst_args t [''start'']] else execs t)"
    using f(1) u(1) by (simp add: placedStartAfterMove_def w t1)
  have "execs (orchestrateFailoverPlacedStart e t) = execs (orchestrateFailoverPlacedStartFromStopped e t)"
    using assms by (simp add: orchestrateFailoverPlacedStart_def)
  also have "\<dots> = (if as_Avail (objActor t) \<in> {StNotApplicable, StUndef} then execs t
      else if as_Avail (objActor t) = StDown then execs (placedStart e ?u)
      else if as_Avail (objActor t) \<in> {StWarn, StUp, StStandbyUp} \<and> orchestrationIsDoneOnPeers t \<and> \<not> isUpOnPeers t
        then execs (placedStartAfterMove e ?u) else execs t)"
    unfolding orchestrateFailoverPlacedStartFromStopped_def Let_def
    using u(1,2,7,8) by (simp add: startedClear_frame)
  finally show ?thesis
    unfolding ps pm peers [symmetric] parents [symmetric] using f(5) u(5,6) by auto
qed

lemma placed_start_prepare:
  assumes "mstate t \<noteq> MonitorStateStopSuccess"
  shows "\<exists>k. execs (orchestrateFailoverPlacedStart e t) =
      execs t @ map (\<lambda>p. [p, ''instance'', ''startstandby'']) (take k (resyncBlockerPaths t))"
proof -
  have q: "\<exists>k. execs (queueAction (crmPrepare l) a b c e t) =
      execs t @ map (\<lambda>p. [p, ''instance'', ''startstandby'']) (take k l)" for l a b c
    using execs_crmPrepare [of l e "transitionTo e a t"]
    by (cases "crmPrepare l e (transitionTo e a t)") (auto simp: queueAction_def doAction_def)
  have i: "\<exists>k. execs (orchestrateFailoverPlacedStartFromIdle e t) =
      execs t @ map (\<lambda>p. [p, ''instance'', ''startstandby'']) (take k (resyncBlockerPaths t))"
    using q by (auto simp: orchestrateFailoverPlacedStartFromIdle_def intro: exI [where x = 0])
  have n: "execs u = execs t \<Longrightarrow> \<exists>k. execs u =
      execs t @ map (\<lambda>p. [p, ''instance'', ''startstandby'']) (take k (resyncBlockerPaths t))" for u
    by (intro exI [where x = 0]) simp
  have "orchestrateFailoverPlacedStart e t = orchestrateFailoverPlacedStartFromIdle e t
      \<or> execs (orchestrateFailoverPlacedStart e t) = execs t"
    using assms by (cases "mstate t") (simp_all add: orchestrateFailoverPlacedStart_def startedClear_frame
        orchestratePlacedFromStartFailed_def waitParents_frame)
  then show ?thesis
    using i n by metis
qed

text \<open>
  The destination of the placement of a failover object starts it from its stopped state exactly
  when the object is down, or every peer is done with the orchestration and none has the object up,
  and its parents are up and not waiting for their children. From any other state it only forks the
  standby starts that prepare the resync of its disks.
\<close>

theorem placed_start_guarded:
  "(mstate t = MonitorStateStopSuccess \<longrightarrow>
     execs (orchestrateFailoverPlacedStart e t) =
       (if \<not> isAnyParentWaitingChilren e t \<and> (\<forall>(p, avail) \<in> set (mon_Parents (i_state t)). avail \<in> {StUp, StUndef})
           \<and> (as_Avail (objActor t) = StDown \<and> st_Avail (localStatus t) \<in> {StDown, StStandbyDown, StStandbyUp}
              \<or> as_Avail (objActor t) \<in> {StWarn, StUp, StStandbyUp} \<and> orchestrationIsDoneOnPeers t
                 \<and> (\<forall>(n, st) \<in> set (i_instStatus t). n = i_localhost t \<or> st_Avail st \<notin> {StUp, StWarn})
                 \<and> st_Avail (localStatus t) \<noteq> StUp)
        then execs t @ [inst_args t [''start'']]
        else execs t))
   \<and> (mstate t \<noteq> MonitorStateStopSuccess \<longrightarrow>
       (\<exists>k. execs (orchestrateFailoverPlacedStart e t) =
          execs t @ map (\<lambda>p. [p, ''instance'', ''startstandby'']) (take k (resyncBlockerPaths t))))"
  using placed_start_from_stopped [of t e] placed_start_prepare [of t e] by blast

definition demo_switch :: "string \<Rightarrow> imon" where
  "demo_switch n = (demo_manager n)
    \<lparr>i_instStatus := [(''n1'', demo_status\<lparr>st_Avail := StUp\<rparr>), (''n2'', demo_status)],
     i_state := (start_state 1)\<lparr>mon_GlobalExpect := MonitorGlobalExpectPlacedAt,
       mon_GlobalExpectOptions := GeoPlacedAt [''n2''] False False\<rparr>\<rparr>"

lemma demo_switch_sel:
  "i_instStatus (demo_switch n) = [(''n1'', demo_status\<lparr>st_Avail := StUp\<rparr>), (''n2'', demo_status)]"
  "i_localhost (demo_switch n) = n" "mon_Children (i_state (demo_switch n)) = []" "mon_Parents (i_state (demo_switch n)) = []"
  "mon_GlobalExpectOptions (i_state (demo_switch n)) = GeoPlacedAt [''n2''] False False" "execs (demo_switch n) = []"
  "i_instMonitor (demo_switch n) = map (\<lambda>n. (n, start_state 1)) (filter (\<lambda>m. m \<noteq> n) demo_nodes)"
  by (simp_all add: demo_switch_def demo_sel start_state_sel execs_def)

theorem placed_stop_guarded_witness:
  "execs (placedStop demo_env (demo_switch ''n1'')) = [[''web'', ''instance'', ''stop'', ''--sync-to'', ''n2'']]"
proof -
  let ?t = "demo_switch ''n1''"
  have "runningSyncs ?t = []" "placed_stop_args ?t = [[''web'', ''instance'', ''stop'', ''--sync-to'', ''n2'']]"
    "st_Avail (localStatus ?t) = StUp" "getPlacedAtDestination ?t = Some [''n2'']"
    by code_simp+
  moreover have "mon_State (lkp zero_monitor (i_instMonitor ?t) ''n2'') \<noteq> MonitorStatePrepareFailure"
    by (simp add: demo_switch_sel demo_nodes_def lkp_def start_state_sel)
  ultimately show ?thesis
    using placed_stop_guarded [of demo_env ?t] by (simp add: demo_switch_sel demo_status_sel)
qed

theorem placed_start_guarded_witness:
  "execs (orchestrateFailoverPlacedStart demo_env (set_mstate MonitorStateStopSuccess (demo_manager ''n2'')))
    = [[''web'', ''instance'', ''start'']]"
proof -
  let ?t = "set_mstate MonitorStateStopSuccess (demo_manager ''n2'')"
  have "as_Avail (objActor ?t) = StDown" "st_Avail (localStatus ?t) = StDown" "\<not> isAnyParentWaitingChilren demo_env ?t"
    "inst_args ?t [''start''] = [''web'', ''instance'', ''start'']"
    by code_simp+
  moreover have "mon_Parents (i_state ?t) = []" "execs ?t = []" by (simp_all add: demo_sel start_state_sel execs_def)
  ultimately show ?thesis using placed_start_guarded [of ?t demo_env] by simp
qed

end
