(* ===== verification/Imon_Provision.thy ===== *)
theory Imon_Provision
  imports Imon_Start_Stop
begin

text \<open>
  Provisioning, unprovisioning, purging and deleting an object (\<open>orchestration_provisioned.go\<close>,
  \<open>orchestration_unprovisioned.go\<close>, \<open>orchestration_purged.go\<close>, \<open>orchestrate_deleted.go\<close> of
  \<open>daemon/imon\<close>). A leader provisions first and unprovisions last; every node checks that it can
  provision before any does.
\<close>

section \<open>The provisioning leader\<close>

definition provisionedFailureStates :: "monitor_state list" where
  "provisionedFailureStates = [MonitorStateProvisionFailure, MonitorStateStartFailure]"

definition leaders :: "imon \<Rightarrow> string list" where
  "leaders t =
    map fst (filter (\<lambda>(_, m). mon_IsLeader m) (i_instMonitor t))
    @ (if mon_IsLeader (i_state t) then [i_localhost t] else [])"

definition runningInstances :: "imon \<Rightarrow> string list" where
  "runningInstances t = map fst (filter (\<lambda>(_, st). status_Is (st_Avail st) [StUp, StWarn]) (i_instStatus t))"

definition first_sorted :: "string list \<Rightarrow> string" where
  "first_sorted l = (case sort l of [] \<Rightarrow> [] | n # _ \<Rightarrow> n)"

definition provisioningLeader :: "imon \<Rightarrow> string" where
  "provisioningLeader t =
    (if as_Topology (objActor t) \<noteq> Flex \<and> runningInstances t \<noteq> [] then first_sorted (runningInstances t)
     else first_sorted (leaders t))"

definition isProvisioningLeader :: "imon \<Rightarrow> bool" where
  "isProvisioningLeader t =
    (if as_Topology (objActor t) = Flex then mon_IsLeader (i_state t) else provisioningLeader t = i_localhost t)"

text \<open>The leader waited for, in the orchestration running.\<close>

definition waitedLeader :: "imon \<Rightarrow> string" where
  "waitedLeader t =
    (if snd (i_leaderWaited t) \<noteq> mon_OrchestrationID (i_state t) then [] else fst (i_leaderWaited t))"

definition hasLeaderProvisioned :: "imon \<Rightarrow> bool" where
  "hasLeaderProvisioned t =
    (let leader = provisioningLeader t; waited = waitedLeader t;
         leaderDone = (case map_of (i_instStatus t) leader of
                         None \<Rightarrow> False
                       | Some st \<Rightarrow> provisioned_IsOneOf (st_Provisioned st) [PrTrue, PrNotApplicable])
     in if leaderDone then True
        else if waited = [] \<or> waited = leader \<or> waited = i_localhost t then False
        else case map_of (i_instMonitor t) waited of
          None \<Rightarrow> False
        | Some m \<Rightarrow>
            if \<not> mon_OrchestrationIsDone m \<or> mon_OrchestrationID m \<noteq> mon_OrchestrationID (i_state t) then False
            else provisioned_IsOneOf (st_Provisioned (lkp zero_status (i_instStatus t) waited)) [PrTrue, PrNotApplicable])"

definition hasLeaderProvisionedFailed :: "imon \<Rightarrow> bool" where
  "hasLeaderProvisionedFailed t =
    (let leader = provisioningLeader t; waited = waitedLeader t
     in if MonitorState_IsOneOf (mon_State (lkp zero_monitor (i_instMonitor t) leader)) provisionedFailureStates then True
        else if waited = [] \<or> waited = leader \<or> waited = i_localhost t then False
        else case map_of (i_instMonitor t) waited of
          None \<Rightarrow> False
        | Some m \<Rightarrow> mon_OrchestrationID m = mon_OrchestrationID (i_state t)
                    \<and> MonitorState_IsOneOf (mon_State m) provisionedFailureStates)"

section \<open>Provisioned\<close>

text \<open>The end of the orchestration on the local instance, reached or failed.\<close>

definition provisionedReached :: "env \<Rightarrow> bool \<Rightarrow> imon \<Rightarrow> imon" where
  "provisionedReached e succeed t =
    (let t = (if succeed \<and> isStopped t then snd (unsetStopped e t) else t);
         t = (if succeed then doneAndIdle t else orch_done t);
         t = (if succeed \<and> isLocalStarted t then enableMonitor t else t)
     in updateIfChange e t)"

definition provisionFailed :: "imon \<Rightarrow> bool" where
  "provisionFailed t =
    (\<not> (MonitorState_IsOneOf (mstate t) [MonitorStateStartFailure] \<and> isLocalStarted t)
     \<and> (isAllState t provisionedFailureStates \<or> hasLeaderProvisionedFailed t
        \<or> MonitorState_IsOneOf (mstate t) provisionedFailureStates))"

definition provisionSucceeded :: "imon \<Rightarrow> bool" where
  "provisionSucceeded t =
    (let st = localStatus t
     in if st_Provisioned st = PrTrue then True
        else if st_Avail st = StNotApplicable then True
        else if st_Provisioned st = PrNotApplicable then
          (isProvisioningLeader t \<and> status_Is (st_Avail st) [StUp]
           \<or> \<not> isProvisioningLeader t \<and> status_Is (st_Avail st) [StDown, StStandbyUp, StStandbyUpWithDown, StStandbyUpWithUp])
        else False)"

definition provisionedClearIfReached :: "env \<Rightarrow> imon \<Rightarrow> bool \<times> imon" where
  "provisionedClearIfReached e t =
    (if provisionFailed t then (True, provisionedReached e False t)
     else if \<not> isStarted t \<and> \<not> status_Is (as_Avail (objActor t)) [StNotApplicable] then (False, t)
     else if \<not> isLocalStatusCurrent t then (False, t)
     else if provisionSucceeded t then (True, provisionedReached e True t)
     else (False, t))"

definition arePeersPreflighted :: "imon \<Rightarrow> bool" where
  "arePeersPreflighted t =
    list_all (\<lambda>(node, m). node = i_localhost t
        \<or> mon_OrchestrationIsDone m \<and> mon_OrchestrationID m = mon_OrchestrationID (i_state t)
        \<or> MonitorState_IsOneOf (mon_State m)
            [MonitorStatePreflightSuccess, MonitorStateWaitLeader, MonitorStateStartProgress, MonitorStateStartSuccess,
             MonitorStateProvisionProgress, MonitorStateProvisionSuccess]) (i_instMonitor t)"

definition provisionedFromChecked :: "env \<Rightarrow> imon \<Rightarrow> imon" where
  "provisionedFromChecked e t =
    (if \<not> isLocalStatusCurrent t then t
     else if isProvisioningLeader t then
       (if provisioned_IsOneOf (st_Provisioned (localStatus t)) [PrNotApplicable, PrTrue]
        then queueAction crmStart MonitorStateStartProgress MonitorStateStartSuccess MonitorStateStartFailure e t
        else queueAction crmProvisionLeader MonitorStateProvisionProgress MonitorStateProvisionSuccess
               MonitorStateProvisionFailure e t)
     else transitionTo e MonitorStateWaitLeader
            (t\<lparr>i_leaderWaited := (provisioningLeader t, mon_OrchestrationID (i_state t))\<rparr>))"

definition provisionedFromIdle :: "env \<Rightarrow> imon \<Rightarrow> imon" where
  "provisionedFromIdle e t =
    (case setWaitParents t of (wait, t) \<Rightarrow>
      if wait then t
      else if \<not> provisionedOptions_Adopt t then
        queueAction crmProvisionPreflight MonitorStatePreflightProgress MonitorStatePreflightSuccess
          MonitorStateProvisionFailure e t
      else case provisionedClearIfReached e t of (reached, t) \<Rightarrow>
        if reached then t else provisionedFromChecked e t)"

definition peerProvisionFailed :: "imon \<Rightarrow> bool" where
  "peerProvisionFailed t =
    list_ex (\<lambda>(node, m). node \<noteq> i_localhost t \<and> mon_State m = MonitorStateProvisionFailure) (i_instMonitor t)"

definition provisionedFromPreflighted :: "env \<Rightarrow> imon \<Rightarrow> imon" where
  "provisionedFromPreflighted e t =
    (case provisionedClearIfReached e t of (reached, t) \<Rightarrow>
      if reached then t
      else if peerProvisionFailed t then transitionTo e MonitorStateProvisionFailure t
      else if isProvisioningLeader t \<and> \<not> arePeersPreflighted t then t
      else provisionedFromChecked e t)"

definition provisionedFromWaitLeader :: "env \<Rightarrow> imon \<Rightarrow> imon" where
  "provisionedFromWaitLeader e t =
    (case provisionedClearIfReached e t of (reached, t) \<Rightarrow>
      if reached then transitionTo e MonitorStateIdle t
      else if \<not> hasLeaderProvisioned t \<or> \<not> isLocalStatusCurrent t then t
      else if provisioned_IsOneOf (st_Provisioned (localStatus t)) [PrNotApplicable, PrTrue]
        then queueAction crmStartStandby MonitorStateStartProgress MonitorStateStartSuccess MonitorStateStartFailure e t
      else queueAction crmProvisionNonLeader MonitorStateProvisionProgress MonitorStateProvisionSuccess
             MonitorStateProvisionFailure e t)"

definition provisionedFromProvisioned :: "env \<Rightarrow> imon \<Rightarrow> imon" where
  "provisionedFromProvisioned e t =
    (if IsFrozen (localStatus t)
     then doTransitionAction unfreeze MonitorStateUnfreezeProgress MonitorStateUnfreezeSuccess MonitorStateUnfreezeFailure e t
     else doneAndIdle t)"

definition orchestrateProvisioned :: "env \<Rightarrow> imon \<Rightarrow> imon" where
  "orchestrateProvisioned e t =
    (case mstate t of
       MonitorStateIdle \<Rightarrow> provisionedFromIdle e t
     | MonitorStateStopFailure \<Rightarrow> provisionedFromIdle e t
     | MonitorStateUnfreezeSuccess \<Rightarrow> provisionedFromIdle e t
     | MonitorStateUnprovisionFailure \<Rightarrow> provisionedFromIdle e t
     | MonitorStateStartSuccess \<Rightarrow> provisionedFromProvisioned e t
     | MonitorStateProvisionSuccess \<Rightarrow> provisionedFromProvisioned e t
     | MonitorStatePreflightSuccess \<Rightarrow> provisionedFromPreflighted e t
     | MonitorStateWaitLeader \<Rightarrow> provisionedFromWaitLeader e t
     | MonitorStateProvisionFailure \<Rightarrow> snd (provisionedClearIfReached e t)
     | MonitorStateStartFailure \<Rightarrow> snd (provisionedClearIfReached e t)
     | MonitorStateWaitParents \<Rightarrow> snd (setWaitParents t)
     | _ \<Rightarrow> t)"

section \<open>Unprovisioned\<close>

definition isUnprovisionLeader :: "imon \<Rightarrow> bool" where
  "isUnprovisionLeader t = isProvisioningLeader t"

definition isUnprovisionLeaderNode :: "imon \<Rightarrow> string \<Rightarrow> bool" where
  "isUnprovisionLeaderNode t node =
    (if as_Topology (objActor t) = Flex then
       (if node = i_localhost t then mon_IsLeader (i_state t)
        else mon_IsLeader (lkp zero_monitor (i_instMonitor t) node))
     else node = provisioningLeader t)"

definition hasNonLeaderWithState :: "imon \<Rightarrow> monitor_state list \<Rightarrow> bool" where
  "hasNonLeaderWithState t states =
    list_ex (\<lambda>(node, m). \<not> isUnprovisionLeaderNode t node \<and> MonitorState_IsOneOf (mon_State m) states) (i_instMonitor t)"

definition hasNonLeaderProvisioned :: "imon \<Rightarrow> bool" where
  "hasNonLeaderProvisioned t =
    list_ex (\<lambda>(node, st). \<not> isUnprovisionLeaderNode t node \<and> provisioned_IsOneOf (st_Provisioned st) [PrTrue, PrMixed])
      (i_instStatus t)"

definition unprovisionedReached :: "env \<Rightarrow> bool \<Rightarrow> imon \<Rightarrow> imon" where
  "unprovisionedReached e toIdle t =
    updateIfChange e (disableMonitor (if toIdle then doneAndIdle t else orch_done t))"

definition unprovisionedClearIfReached :: "env \<Rightarrow> imon \<Rightarrow> bool \<times> imon" where
  "unprovisionedClearIfReached e t =
    (if \<not> isLocalStatusCurrent t then (False, t)
     else if provisioned_IsOneOf (st_Provisioned (localStatus t)) [PrFalse, PrNotApplicable]
       then (True, unprovisionedReached e True t)
     else if st_Avail (localStatus t) = StNotApplicable then (True, unprovisionedReached e True t)
     else if isAllState t [MonitorStateUnprovisionFailure] then (True, unprovisionedReached e False t)
     else (False, t))"

definition unprovisionedFromUnprovisionFailed :: "env \<Rightarrow> imon \<Rightarrow> imon" where
  "unprovisionedFromUnprovisionFailed e t =
    (case unprovisionedClearIfReached e t of (reached, t) \<Rightarrow>
      if reached then t
      else if mon_OrchestrationIsDone (i_state t) then t
      else orch_done t)"

definition doUnprovisionLeader :: "env \<Rightarrow> imon \<Rightarrow> imon" where
  "doUnprovisionLeader e t =
    queueAction crmUnprovisionLeader MonitorStateUnprovisionProgress MonitorStateUnprovisionSuccess
      MonitorStateUnprovisionFailure e t"

definition UnprovisionedFromIdle :: "env \<Rightarrow> imon \<Rightarrow> imon" where
  "UnprovisionedFromIdle e t =
    (case unprovisionedClearIfReached e t of (reached, t) \<Rightarrow>
      if reached then t
      else case setWaitChildren t of (wait, t) \<Rightarrow>
        if wait \<or> \<not> isLocalStatusCurrent t then t
        else if isUnprovisionLeader t then
          (if hasNonLeaderProvisioned t then transitionTo e MonitorStateWaitNonLeader t else doUnprovisionLeader e t)
        else queueAction crmUnprovisionNonLeader MonitorStateUnprovisionProgress MonitorStateUnprovisionSuccess
               MonitorStateUnprovisionFailure e t)"

definition UnprovisionedFromWaitNonLeader :: "env \<Rightarrow> imon \<Rightarrow> imon" where
  "UnprovisionedFromWaitNonLeader e t =
    (case unprovisionedClearIfReached e t of (reached, t) \<Rightarrow>
      if reached then transitionTo e MonitorStateIdle t
      else if \<not> isUnprovisionLeader t then transitionTo e MonitorStateIdle t
      else if hasNonLeaderWithState t [MonitorStateUnprovisionFailure] then transitionTo e MonitorStateUnprovisionFailure t
      else if hasNonLeaderProvisioned t \<or> \<not> isLocalStatusCurrent t then t
      else doUnprovisionLeader e t)"

definition orchestrateUnprovisioned :: "env \<Rightarrow> imon \<Rightarrow> imon" where
  "orchestrateUnprovisioned e t =
    (let t = disableMonitor t
     in case mstate t of
          MonitorStateIdle \<Rightarrow> UnprovisionedFromIdle e t
        | MonitorStateProvisionFailure \<Rightarrow> UnprovisionedFromIdle e t
        | MonitorStateStartFailure \<Rightarrow> UnprovisionedFromIdle e t
        | MonitorStateWaitNonLeader \<Rightarrow> UnprovisionedFromWaitNonLeader e t
        | MonitorStateWaitChildren \<Rightarrow> snd (setWaitChildren t)
        | MonitorStateUnprovisionSuccess \<Rightarrow> snd (unprovisionedClearIfReached e t)
        | MonitorStateUnprovisionFailure \<Rightarrow> unprovisionedFromUnprovisionFailed e t
        | _ \<Rightarrow> t)"

section \<open>Purged\<close>

definition kindWithImmediatePurge :: "kind list" where
  "kindWithImmediatePurge = NewKinds [KindSvc, KindVol]"

definition purgedFromWaitNonLeader :: "env \<Rightarrow> imon \<Rightarrow> imon" where
  "purgedFromWaitNonLeader e t =
    (if \<not> isUnprovisionLeader t then transitionTo e MonitorStateIdle t
     else if hasNonLeaderProvisioned t then t
     else queueAction crmUnprovisionLeader MonitorStateUnprovisionProgress MonitorStateUnprovisionSuccess
            MonitorStatePurgeFailed e t)"

definition purgedFromIdleProvisioned :: "env \<Rightarrow> imon \<Rightarrow> imon" where
  "purgedFromIdleProvisioned e t =
    (if isUnprovisionLeader t then purgedFromWaitNonLeader e (transitionTo e MonitorStateWaitNonLeader t)
     else queueAction crmUnprovisionNonLeader MonitorStateUnprovisionProgress MonitorStateUnprovisionSuccess
            MonitorStatePurgeFailed e t)"

definition purgedFromIdle :: "env \<Rightarrow> imon \<Rightarrow> imon" where
  "purgedFromIdle e t =
    (if \<not> Kinds_Has kindWithImmediatePurge (p_Kind (i_path t)) then transitionTo e MonitorStateUnprovisionSuccess t
     else case setWaitChildren t of (wait, t) \<Rightarrow>
       if wait \<or> \<not> isLocalStatusCurrent t then t
       else if provisioned_IsOneOf (st_Provisioned (localStatus t)) [PrTrue, PrMixed, PrNotApplicable]
         then purgedFromIdleProvisioned e t
       else orchestrateAfterAction e MonitorStateIdle MonitorStateUnprovisionSuccess t)"

definition purgedFromDeleted :: "imon \<Rightarrow> imon" where
  "purgedFromDeleted t = doneAndIdle (t\<lparr>i_endWithDeletion := True\<rparr>)"

definition purgedFromUnprovisioned :: "env \<Rightarrow> imon \<Rightarrow> imon" where
  "purgedFromUnprovisioned e t =
    queueAction crmDelete MonitorStateDeleteProgress MonitorStateDeleteSuccess MonitorStatePurgeFailed e t"

definition orchestratePurged :: "env \<Rightarrow> imon \<Rightarrow> imon" where
  "orchestratePurged e t =
    (case mstate t of
       MonitorStateDeleteSuccess \<Rightarrow> purgedFromDeleted t
     | MonitorStateIdle \<Rightarrow> purgedFromIdle e t
     | MonitorStateStopFailure \<Rightarrow> orch_done t
     | MonitorStateUnprovisionSuccess \<Rightarrow> purgedFromUnprovisioned e t
     | MonitorStateWaitNonLeader \<Rightarrow> purgedFromWaitNonLeader e t
     | MonitorStatePurgeFailed \<Rightarrow> orch_done t
     | MonitorStateWaitChildren \<Rightarrow> snd (setWaitChildren t)
     | _ \<Rightarrow> t)"

section \<open>Deleted\<close>

definition deletedFromIdle :: "env \<Rightarrow> imon \<Rightarrow> imon" where
  "deletedFromIdle e t =
    (case setWaitChildren t of (wait, t) \<Rightarrow>
      if wait then t
      else queueAction crmDelete MonitorStateDeleteProgress MonitorStateDeleteSuccess MonitorStateDeleteFailure e t)"

definition deletedFromWaitChildren :: "env \<Rightarrow> imon \<Rightarrow> imon" where
  "deletedFromWaitChildren e t =
    (case setWaitChildren t of (wait, t) \<Rightarrow>
      if wait then t
      else queueAction crmDelete MonitorStateDeleteProgress MonitorStateDeleteSuccess MonitorStateDeleteFailure e t)"

definition orchestrateDeleted :: "env \<Rightarrow> imon \<Rightarrow> imon" where
  "orchestrateDeleted e t =
    (if mstate t \<in> {MonitorStateIdle, MonitorStateBootFailed, MonitorStateFreezeFailure, MonitorStateProvisionFailure,
          MonitorStateStartFailure, MonitorStateStopFailure, MonitorStateUnfreezeFailure, MonitorStateUnprovisionFailure}
       then deletedFromIdle e t
     else if mstate t = MonitorStateWaitChildren then deletedFromWaitChildren e t
     else t)"

section \<open>Lemmas\<close>

lemma unsetStopped_frame [simp]:
  "execs (snd (unsetStopped e t)) = execs t" "i_state (snd (unsetStopped e t)) = i_state t"
  "i_path (snd (unsetStopped e t)) = i_path t" "i_localhost (snd (unsetStopped e t)) = i_localhost t"
  by (auto simp: unsetStopped_def map_localStatus_def set_localStatus_def split: prod.splits bool.splits option.splits)

lemma provisionedReached_execs [simp]: "execs (provisionedReached e b t) = execs t"
  by (simp add: provisionedReached_def Let_def)

lemma unprovisionedReached_execs [simp]: "execs (unprovisionedReached e b t) = execs t"
  by (simp add: unprovisionedReached_def)

lemma provisionedClear_frame:
  "execs (snd (provisionedClearIfReached e t)) = execs t" "\<not> fst (provisionedClearIfReached e t) \<Longrightarrow> snd (provisionedClearIfReached e t) = t"
  by (simp_all add: provisionedClearIfReached_def split: if_splits)

lemma provisionedClear_cases:
  obtains t1 where "provisionedClearIfReached e t = (True, t1)" "execs t1 = execs t"
  | "provisionedClearIfReached e t = (False, t)"
  using that provisionedClear_frame [of e t] by (metis (full_types) prod.collapse)

lemma unprovisionedClear_frame:
  "execs (snd (unprovisionedClearIfReached e t)) = execs t" "\<not> fst (unprovisionedClearIfReached e t) \<Longrightarrow> snd (unprovisionedClearIfReached e t) = t"
  by (simp_all add: unprovisionedClearIfReached_def split: if_splits)

lemma unprovisionedClear_cases:
  obtains t1 where "unprovisionedClearIfReached e t = (True, t1)" "execs t1 = execs t"
  | "unprovisionedClearIfReached e t = (False, t)"
  using that unprovisionedClear_frame [of e t] by (metis (full_types) prod.collapse)

lemma first_sorted_in: "l \<noteq> [] \<Longrightarrow> first_sorted l \<in> set l"
proof -
  assume "l \<noteq> []"
  then obtain x xs where s: "sort l = x # xs" by (cases "sort l") (metis set_empty set_sort)
  then show ?thesis by (metis first_sorted_def list.simps(5) list.set_intros(1) set_sort)
qed

lemma first_sorted_set: "set l = set l' \<Longrightarrow> first_sorted l = first_sorted l'"
proof -
  assume s: "set l = set l'"
  have h: "first_sorted k = (if k = [] then [] else Min (set k))" for k :: "string list"
  proof (cases "sort k")
    case Nil
    then show ?thesis by (simp add: first_sorted_def) (metis set_empty set_sort)
  next
    case (Cons x xs)
    have "sorted (x # xs)" using sorted_sort [of k] by (simp add: Cons)
    then have "Min (set (x # xs)) = x" by (intro Min_eqI) auto
    then have "Min (set k) = x" by (metis Cons set_sort)
    moreover have "k \<noteq> []" using Cons by auto
    ultimately show ?thesis by (simp add: first_sorted_def Cons)
  qed
  show ?thesis using s by (simp add: h) (metis set_empty)
qed

text \<open>The commands forked between two states of a manager.\<close>

definition forked :: "imon \<Rightarrow> imon \<Rightarrow> string list list" where
  "forked t t' = drop (length (execs t)) (execs t')"

lemma forked_append: "execs t' = execs t @ l \<Longrightarrow> forked t t' = l"
  by (simp add: forked_def)

lemma forked_same: "execs t' = execs t \<Longrightarrow> forked t t' = []"
  by (simp add: forked_def)

lemma forked_queue:
  "forked t (queueAction crmUnprovisionLeader a b c e t) = [inst_args t [''unprovision'', ''--leader'']]"
  "forked t (queueAction crmUnprovisionNonLeader a b c e t) = [inst_args t [''unprovision'']]"
  "forked t (queueAction crmDelete a b c e t) = [inst_args t [''delete'']]"
  by (rule forked_append, simp add: crm_unprovision_leader.execs_queueAction crm_unprovision_non_leader.execs_queueAction
      crm_delete.execs_queueAction inst_args_def)+

text \<open>The operations that decide on the leader read the core of the manager, and not its state.\<close>

lemma leader_set_mstate [simp]:
  "provisioningLeader (set_mstate s t) = provisioningLeader t"
  "isProvisioningLeader (set_mstate s t) = isProvisioningLeader t"
  "isUnprovisionLeaderNode (set_mstate s t) n = isUnprovisionLeaderNode t n"
  "hasNonLeaderProvisioned (set_mstate s t) = hasNonLeaderProvisioned t"
proof -
  show l: "provisioningLeader (set_mstate s t) = provisioningLeader t"
    by (simp add: provisioningLeader_def runningInstances_def leaders_def objActor_def)
  show "isProvisioningLeader (set_mstate s t) = isProvisioningLeader t"
    by (simp add: isProvisioningLeader_def l objActor_def)
  show n: "isUnprovisionLeaderNode (set_mstate s t) n = isUnprovisionLeaderNode t n" for n
    by (simp add: isUnprovisionLeaderNode_def l objActor_def)
  show "hasNonLeaderProvisioned (set_mstate s t) = hasNonLeaderProvisioned t"
    by (simp add: hasNonLeaderProvisioned_def n)
qed

lemma leader_core_sel:
  "provisioningLeader (core t) = provisioningLeader t" "isProvisioningLeader (core t) = isProvisioningLeader t"
  "isUnprovisionLeaderNode (core t) n = isUnprovisionLeaderNode t n"
  "hasNonLeaderProvisioned (core t) = hasNonLeaderProvisioned t"
proof -
  have o: "objActor (core t) = objActor t" by (simp add: objActor_def core_sel)
  show l: "provisioningLeader (core t) = provisioningLeader t"
    by (simp add: provisioningLeader_def runningInstances_def leaders_def o core_sel)
  show "isProvisioningLeader (core t) = isProvisioningLeader t" by (simp add: isProvisioningLeader_def l o core_sel)
  show n: "isUnprovisionLeaderNode (core t) n = isUnprovisionLeaderNode t n" for n
    by (simp add: isUnprovisionLeaderNode_def l o core_sel)
  show "hasNonLeaderProvisioned (core t) = hasNonLeaderProvisioned t"
    by (simp add: hasNonLeaderProvisioned_def n core_sel)
qed

lemma leader_core:
  assumes "core t = core t'"
  shows "isProvisioningLeader t = isProvisioningLeader t'" "hasNonLeaderProvisioned t = hasNonLeaderProvisioned t'"
  by (rule core_arg [OF _ assms], rule leader_core_sel)+

text \<open>What it takes for the leader to be unprovisioned.\<close>

definition last_provisioned :: "imon \<Rightarrow> bool" where
  "last_provisioned t \<longleftrightarrow> isUnprovisionLeader t \<and> \<not> hasNonLeaderProvisioned t"

lemma last_provisioned_core: "core t = core t' \<Longrightarrow> last_provisioned t = last_provisioned t'"
  using leader_core [of t t'] by (simp add: last_provisioned_def isUnprovisionLeader_def)

lemma last_provisioned_simps [simp]:
  "last_provisioned (set_mstate s t) = last_provisioned t" "last_provisioned (disableMonitor t) = last_provisioned t"
  "last_provisioned (transitionTo e s t) = last_provisioned t" "last_provisioned (t\<lparr>i_change := b\<rparr>) = last_provisioned t"
  using last_provisioned_core [OF disableMonitor_core [of t]] last_provisioned_core [OF transitionTo_core [of e s t]]
    last_provisioned_core [of "t\<lparr>i_change := b\<rparr>" t]
  by (simp_all add: last_provisioned_def isUnprovisionLeader_def)

lemma setWaitChildren_last [simp]: "last_provisioned (snd (setWaitChildren t)) = last_provisioned t"
  by (simp add: setWaitChildren_def)

text \<open>An unprovision step forks nothing, or the unprovision of the leader when it is the last, or of another.\<close>

definition unprovision_step :: "imon \<Rightarrow> imon \<Rightarrow> bool" where
  "unprovision_step t t' \<longleftrightarrow>
    forked t t' = [] \<or> last_provisioned t \<and> forked t t' = [inst_args t [''unprovision'', ''--leader'']]
    \<or> \<not> isUnprovisionLeader t \<and> forked t t' = [inst_args t [''unprovision'']]"

lemma unprovision_step_same: "execs t' = execs t \<Longrightarrow> unprovision_step t t'"
  by (simp add: unprovision_step_def forked_same)

lemma unprovision_step_trans:
  assumes "execs t1 = execs t" "i_path t1 = i_path t" "last_provisioned t1 = last_provisioned t"
    "isUnprovisionLeader t1 = isUnprovisionLeader t" "unprovision_step t1 t'"
  shows "unprovision_step t t'"
  using assms by (simp add: unprovision_step_def forked_def inst_args_def)

lemma waitChildren_step:
  assumes "unprovision_step (snd (setWaitChildren t)) t'"
  shows "unprovision_step t t'"
proof (rule unprovision_step_trans [OF _ _ _ _ assms])
  show "isUnprovisionLeader (snd (setWaitChildren t)) = isUnprovisionLeader t"
    using leader_core(1) [of "t\<lparr>i_change := True\<rparr>" t]
    by (simp add: setWaitChildren_def isUnprovisionLeader_def)
qed (simp_all add: setWaitChildren_frame)

lemma disable_step: "unprovision_step (disableMonitor t) t' \<Longrightarrow> unprovision_step t t'"
  by (rule unprovision_step_trans) (simp_all add: isUnprovisionLeader_def leader_core(1) [OF disableMonitor_core])

lemma unprovisionFromIdle_step: "unprovision_step t (UnprovisionedFromIdle e t)"
proof (cases t rule: unprovisionedClear_cases [of e])
  case (1 t1)
  then show ?thesis by (simp add: UnprovisionedFromIdle_def unprovision_step_same)
next
  case 2
  obtain w t1 where w: "setWaitChildren t = (w, t1)" by (cases "setWaitChildren t")
  have "unprovision_step t1 (UnprovisionedFromIdle e t)"
    using 2 w
    by (simp add: UnprovisionedFromIdle_def doUnprovisionLeader_def unprovision_step_def forked_queue forked_same
        last_provisioned_def)
  then show ?thesis using waitChildren_step [of t] w by simp
qed

lemma unprovisionFromWait_step: "unprovision_step t (UnprovisionedFromWaitNonLeader e t)"
proof (cases t rule: unprovisionedClear_cases [of e])
  case (1 t1)
  then show ?thesis by (simp add: UnprovisionedFromWaitNonLeader_def unprovision_step_same)
next
  case 2
  then show ?thesis
    by (simp add: UnprovisionedFromWaitNonLeader_def doUnprovisionLeader_def unprovision_step_def forked_queue
        forked_same last_provisioned_def)
qed

lemma orchestrateUnprovisioned_step: "unprovision_step t (orchestrateUnprovisioned e t)"
proof (rule disable_step)
  let ?u = "disableMonitor t"
  have f: "execs (unprovisionedFromUnprovisionFailed e u) = execs u" for u
    by (cases u rule: unprovisionedClear_cases [of e]) (simp_all add: unprovisionedFromUnprovisionFailed_def)
  show "unprovision_step ?u (orchestrateUnprovisioned e t)"
    unfolding orchestrateUnprovisioned_def Let_def
    using unprovisionFromIdle_step [of ?u e] unprovisionFromWait_step [of ?u e]
    by (cases "mstate ?u")
      (simp_all add: unprovision_step_same setWaitChildren_frame unprovisionedClear_frame f)
qed

lemma purgedFromWait_step: "unprovision_step t (purgedFromWaitNonLeader e t)"
  by (simp add: purgedFromWaitNonLeader_def unprovision_step_def forked_queue forked_same last_provisioned_def)

lemma purgedFromIdle_step: "unprovision_step t (purgedFromIdle e t)"
proof -
  have p: "unprovision_step u (purgedFromIdleProvisioned e u)" for u
  proof (cases "isUnprovisionLeader u")
    case True
    let ?v = "transitionTo e MonitorStateWaitNonLeader u"
    have "unprovision_step u (purgedFromWaitNonLeader e ?v)"
      by (rule unprovision_step_trans [OF _ _ _ _ purgedFromWait_step])
        (simp_all add: isUnprovisionLeader_def leader_core(1) [OF transitionTo_core])
    with True show ?thesis by (simp add: purgedFromIdleProvisioned_def)
  next
    case False
    then show ?thesis by (simp add: purgedFromIdleProvisioned_def unprovision_step_def forked_queue)
  qed
  obtain w t1 where w: "setWaitChildren t = (w, t1)" by (cases "setWaitChildren t")
  have "Kinds_Has kindWithImmediatePurge (p_Kind (i_path t)) \<Longrightarrow> unprovision_step t1 (purgedFromIdle e t)"
    using p [of t1] by (simp add: purgedFromIdle_def w unprovision_step_same)
  then show ?thesis
    using waitChildren_step [of t] w by (cases "Kinds_Has kindWithImmediatePurge (p_Kind (i_path t))")
      (simp_all add: purgedFromIdle_def unprovision_step_same)
qed

section \<open>Properties\<close>

text \<open>
  C29. The leader is unprovisioned last: an unprovision or a purge forks the unprovision of the leader
  only on the leader, and once no instance of another node is provisioned, even in part.
\<close>

theorem leader_unprovisioned_last:
  assumes "inst_args t [''unprovision'', ''--leader'']
    \<in> set (forked t (orchestrateUnprovisioned e t)) \<union> set (forked t (orchestratePurged e t))"
  shows "isUnprovisionLeader t
    \<and> (\<forall>(n, st) \<in> set (i_instStatus t). isUnprovisionLeaderNode t n \<or> st_Provisioned st \<notin> {PrTrue, PrMixed})"
proof -
  have "unprovision_step t (orchestratePurged e t) \<or> forked t (orchestratePurged e t) = [inst_args t [''delete'']]"
    using purgedFromIdle_step [of t e] purgedFromWait_step [of t e]
    by (cases "mstate t") (simp_all add: orchestratePurged_def purgedFromUnprovisioned_def forked_queue
        unprovision_step_same purgedFromDeleted_def setWaitChildren_frame)
  then have "last_provisioned t"
    using orchestrateUnprovisioned_step [of t e] assms by (auto simp: unprovision_step_def inst_args_def)
  then show ?thesis by (auto simp: last_provisioned_def hasNonLeaderProvisioned_def list_ex_iff)
qed

lemma provisionedFromChecked_forked:
  "forked t (provisionedFromChecked e t) =
    (if isLocalStatusCurrent t \<and> isProvisioningLeader t
     then [if st_Provisioned (localStatus t) \<in> {PrNotApplicable, PrTrue} then inst_args t [''start'']
           else inst_args t ([''provision'', ''--leader''] @ (if provisionedOptions_Adopt t then [''--adopt''] else []))]
     else [])"
proof -
  have a: "provisionedOptions_Adopt (set_mstate s t) = provisionedOptions_Adopt t" for s
    by (simp add: provisionedOptions_Adopt_def)
  show ?thesis
    by (simp add: provisionedFromChecked_def forked_def crm_start.execs_queueAction
        crm_provision_leader.execs_queueAction inst_args_def a)
qed

text \<open>A peer is past its check: it did not fail, and it is done with the orchestration or beyond the check in it.\<close>

definition past_preflight :: "imon \<Rightarrow> monitor \<Rightarrow> bool" where
  "past_preflight t m \<longleftrightarrow>
    mon_State m \<noteq> MonitorStateProvisionFailure
    \<and> (mon_OrchestrationIsDone m \<and> mon_OrchestrationID m = mon_OrchestrationID (i_state t)
       \<or> mon_State m \<in> set [MonitorStatePreflightSuccess, MonitorStateWaitLeader, MonitorStateStartProgress,
            MonitorStateStartSuccess, MonitorStateProvisionProgress, MonitorStateProvisionSuccess])"

lemma peers_past_preflight:
  assumes "\<not> peerProvisionFailed t" "arePeersPreflighted t" "(n, m) \<in> set (i_instMonitor t)"
  shows "n = i_localhost t \<or> past_preflight t m"
proof (cases "n = i_localhost t")
  case False
  have "mon_State m \<noteq> MonitorStateProvisionFailure"
    using assms(1,3) False by (auto simp: peerProvisionFailed_def list_ex_iff)
  then show ?thesis
    using bspec [OF assms(2) [unfolded arePeersPreflighted_def list_all_iff] assms(3)] False
    by (simp only: past_preflight_def prod.case MonitorState_IsOneOf_iff simp_thms)
qed simp

lemma preflight_from_idle:
  assumes "\<not> provisionedOptions_Adopt t" "mstate t = MonitorStateIdle"
  shows "forked t (orchestrateProvisioned e t) \<in> {[], [inst_args t [''provision'', ''--preflight'']]}"
proof -
  obtain w t1 where w: "setWaitParents t = (w, t1)" by (cases "setWaitParents t")
  note f = setWaitParents_frame [of t, unfolded w fst_conv snd_conv]
  have "mon_GlobalExpectOptions (i_state t1) = mon_GlobalExpectOptions (i_state t)"
    using arg_cong [OF w, of snd] by (auto simp: setWaitParents_def split: if_splits)
  then have "\<not> provisionedOptions_Adopt t1" using assms(1) by (simp add: provisionedOptions_Adopt_def)
  then show ?thesis
    using assms(2) w f by (simp add: orchestrateProvisioned_def provisionedFromIdle_def forked_def
        crm_preflight.execs_queueAction inst_args_def)
qed

lemma provision_from_preflighted:
  assumes "\<not> provisionedOptions_Adopt t" "forked t (provisionedFromPreflighted e t) \<noteq> []"
  shows "isProvisioningLeader t" "\<not> peerProvisionFailed t" "arePeersPreflighted t"
    "forked t (provisionedFromPreflighted e t) \<in> {[inst_args t [''start'']], [inst_args t [''provision'', ''--leader'']]}"
proof -
  have c: "provisionedClearIfReached e t = (False, t)"
    using assms(2) by (cases t rule: provisionedClear_cases [of e]) (simp_all add: provisionedFromPreflighted_def forked_same)
  then have g: "\<not> peerProvisionFailed t" "isProvisioningLeader t \<longrightarrow> arePeersPreflighted t"
    "provisionedFromPreflighted e t = provisionedFromChecked e t"
    using assms(2) by (auto simp: provisionedFromPreflighted_def forked_same split: if_splits)
  then show "isProvisioningLeader t" "\<not> peerProvisionFailed t" "arePeersPreflighted t"
    "forked t (provisionedFromPreflighted e t) \<in> {[inst_args t [''start'']], [inst_args t [''provision'', ''--leader'']]}"
    using assms by (auto simp: provisionedFromChecked_forked split: if_splits)
qed


text \<open>The peers of a manager are the other nodes, one entry each.\<close>

definition wf_imon :: "imon \<Rightarrow> bool" where
  "wf_imon t \<longleftrightarrow> wf_map (i_instMonitor t) \<and> wf_map (i_instStatus t) \<and> i_localhost t \<notin> fst ` set (i_instMonitor t)"

lemma set_leaders:
  assumes "wf_imon t"
  shows "set (leaders t) = {n. \<exists>m. GetInstanceMonitor t n = Some m \<and> mon_IsLeader m}"
proof -
  have "(n, m) \<in> set (i_instMonitor t) \<longleftrightarrow> map_of (i_instMonitor t) n = Some m" for n m
    using assms by (simp add: wf_imon_def wf_map_def)
  moreover have "(i_localhost t, m) \<notin> set (i_instMonitor t)" for m using assms by (force simp: wf_imon_def)
  ultimately show ?thesis by (auto simp: leaders_def GetInstanceMonitor_def image_iff)
qed

lemma set_runningInstances:
  assumes "wf_imon t"
  shows "set (runningInstances t) = {n. \<exists>st. map_of (i_instStatus t) n = Some st \<and> st_Avail st \<in> {StUp, StWarn}}"
proof -
  have "(n, st) \<in> set (i_instStatus t) \<longleftrightarrow> map_of (i_instStatus t) n = Some st" for n st
    using assms by (simp add: wf_imon_def wf_map_def)
  then show ?thesis by (auto simp: runningInstances_def image_iff)
qed

lemma same_view_provisioningLeader:
  assumes "same_view e t e' t'" "wf_imon t" "wf_imon t'"
  shows "provisioningLeader t = provisioningLeader t'"
proof -
  have "set (leaders t) = set (leaders t')" "set (runningInstances t) = set (runningInstances t')"
    using assms by (simp_all add: set_leaders set_runningInstances same_view_def)
  moreover from this have "runningInstances t = [] \<longleftrightarrow> runningInstances t' = []" by (metis set_empty)
  moreover have "objActor t = objActor t'" using assms(1) by (simp add: same_view_def objActor_def)
  ultimately show ?thesis unfolding provisioningLeader_def using first_sorted_set by metis
qed

text \<open>
  A failover object is provisioned by one node: of the monitors that see the same cluster, at
  most one takes itself for the leader of a provision, which creates the data and starts the object,
  or of an unprovision, which destroys it.
\<close>

theorem one_provisioning_leader:
  assumes "cluster_view N c" and "\<And>n. n \<in> N \<Longrightarrow> wf_imon (snd (c n))"
    and "n \<in> N" and "m \<in> N" and "as_Topology (objActor (snd (c n))) \<noteq> Flex"
    and "isProvisioningLeader (snd (c n))" and "isUnprovisionLeader (snd (c m))"
  shows "n = m"
proof -
  have l: "i_localhost (snd (c n)) = n" "i_localhost (snd (c m)) = m"
    and v: "same_view (fst (c n)) (snd (c n)) (fst (c m)) (snd (c m))"
    using assms(1) [unfolded cluster_view_def] assms(3,4) by blast+
  have f: "as_Topology (objActor (snd (c m))) \<noteq> Flex"
    using assms(5) v unfolding same_view_def objActor_def by metis
  have "provisioningLeader (snd (c n)) = i_localhost (snd (c n))"
    using assms(6,5) unfolding isProvisioningLeader_def by (simp only: if_False)
  moreover have "provisioningLeader (snd (c m)) = i_localhost (snd (c m))"
    using assms(7) f unfolding isUnprovisionLeader_def isProvisioningLeader_def by (simp only: if_False)
  ultimately show ?thesis
    using same_view_provisioningLeader [OF v assms(2) [OF assms(3)] assms(2) [OF assms(4)]] l by metis
qed

subsection \<open>Witnesses\<close>

definition demo_running :: "string \<Rightarrow> env \<times> imon" where
  "demo_running n = (demo_env, (demo_manager n)
    \<lparr>i_instStatus := [(''n1'', demo_status\<lparr>st_Avail := StUp, st_Provisioned := PrTrue\<rparr>),
                      (''n2'', demo_status\<lparr>st_Provisioned := PrTrue\<rparr>)]\<rparr>)"


lemma demo_running_sel:
  "i_localhost (snd (demo_running n)) = n" "fst (demo_running n) = demo_env"
  "i_instMonitor (snd (demo_running n)) = i_instMonitor (demo_manager n)"
  "i_instStatus (snd (demo_running n)) = [(''n1'', demo_status\<lparr>st_Avail := StUp, st_Provisioned := PrTrue\<rparr>),
     (''n2'', demo_status\<lparr>st_Provisioned := PrTrue\<rparr>)]"
  "i_scopeNodes (snd (demo_running n)) = demo_nodes" "as_Topology (objActor (snd (demo_running n))) = Failover"
  by (simp_all add: demo_running_def demo_sel objActor_def)

lemma demo_running_same_view:
  assumes "n \<in> set demo_nodes" and "m \<in> set demo_nodes"
  shows "same_view demo_env (snd (demo_running n)) demo_env (snd (demo_running m))"
proof -
  have "GetInstanceMonitor (snd (demo_running k)) = GetInstanceMonitor (demo_manager k)"
    "affinityConfig demo_env (snd (demo_running k)) = affinityConfig demo_env (demo_manager k)" for k
    by (simp_all add: fun_eq_iff GetInstanceMonitor_def affinityConfig_def demo_running_def del: not_None_eq)
  then show ?thesis
    using demo_same_view [OF assms] by (simp add: same_view_def demo_running_def demo_sel)
qed

lemma demo_running_view: "cluster_view (set demo_nodes) demo_running"
  unfolding cluster_view_def demo_running_sel
  using demo_running_same_view by (simp add: demo_nodes_def)

lemma demo_running_wf: "wf_imon (snd (demo_running n))"
  by (auto simp: wf_imon_def wf_map_def demo_running_sel demo_sel demo_nodes_def)

theorem one_provisioning_leader_witness: "\<not> isUnprovisionLeader (snd (demo_running ''n2''))"
proof
  assume "isUnprovisionLeader (snd (demo_running ''n2''))"
  moreover have "isProvisioningLeader (snd (demo_running ''n1''))" by code_simp
  ultimately have "''n1'' = ''n2''"
    by (intro one_provisioning_leader [OF demo_running_view demo_running_wf])
      (simp_all add: demo_nodes_def demo_running_sel)
  then show False by simp
qed


definition demo_unprovision :: imon where
  "demo_unprovision = (demo_manager ''n1'')
    \<lparr>i_instStatus := [(''n1'', demo_status\<lparr>st_Avail := StUp\<rparr>), (''n2'', demo_status\<lparr>st_Provisioned := PrFalse\<rparr>)],
     i_state := (start_state 1)\<lparr>mon_State := MonitorStateWaitNonLeader\<rparr>\<rparr>"

theorem leader_unprovisioned_last_witness:
  "isUnprovisionLeader demo_unprovision
    \<and> inst_args demo_unprovision [''unprovision'', ''--leader'']
        \<in> set (forked demo_unprovision (orchestrateUnprovisioned demo_env demo_unprovision))"
proof -
  have f: "inst_args demo_unprovision [''unprovision'', ''--leader'']
      \<in> set (forked demo_unprovision (orchestrateUnprovisioned demo_env demo_unprovision))"
    by code_simp
  then show ?thesis using leader_unprovisioned_last [OF UnI1 [OF f]] by blast
qed

definition demo_preflighted :: imon where
  "demo_preflighted = (snd (demo_running ''n1''))
    \<lparr>i_instMonitor := [(''n2'', (start_state 1)\<lparr>mon_State := MonitorStatePreflightSuccess\<rparr>)],
     i_instStatus := [(''n1'', demo_status\<lparr>st_Avail := StWarn, st_Provisioned := PrFalse, st_UpdatedAt := 10\<rparr>),
                      (''n2'', demo_status\<lparr>st_Provisioned := PrFalse\<rparr>)],
     i_state := (start_state 1)\<lparr>mon_State := MonitorStatePreflightSuccess\<rparr>\<rparr>"

lemma demo_preflighted_forks:
  "\<not> provisionedOptions_Adopt demo_preflighted" "mstate demo_preflighted = MonitorStatePreflightSuccess"
  "forked demo_preflighted (orchestrateProvisioned demo_env demo_preflighted) \<noteq> []"
  by code_simp+


end
