(* ===== verification/Imon_Cluster.thy ===== *)
theory Imon_Cluster
  imports Imon_Frame
begin

text \<open>
  The monitors of an object, one per node of its scope, as they run together. A monitor works on its
  own manager; what it publishes reaches its peers late, as \<open>InstanceMonitorUpdated\<close> messages
  carried by the heartbeats, and may reach them again after a newer one. The theories of the
  orchestrations that coordinate nodes reason on the states the step relation below reaches.
\<close>

section \<open>What a monitor published\<close>

definition published :: "imon \<Rightarrow> monitor set" where
  "published t = {m. PubInstanceMonitorUpdated m \<in> set (i_trace t)}"

text \<open>
  The first part of \<open>needOrchestrate\<close>: the end of an action moves the monitor to the state it posted,
  if the monitor is still in the state of the action.
\<close>

definition actionEnded :: "env \<Rightarrow> monitor_state \<Rightarrow> monitor_state \<Rightarrow> imon \<Rightarrow> imon" where
  "actionEnded e state newState t =
    (if mstate t = state then updateIfChange e (set_mstate newState (t\<lparr>i_change := True\<rparr>)) else t)"

lemma actionEnded_transition: "actionEnded e s s' t = (if mstate t = s then transitionTo e s' t else t)"
  by (simp add: actionEnded_def transitionTo_def)

section \<open>Steps of a cluster\<close>

text \<open>
  A step is the work of one node, the end of an action posted to its worker, a monitor published by a
  peer reaching the node, or a new status of an instance reaching it. The statuses are arbitrary.
\<close>

inductive cluster_step :: "string set \<Rightarrow> (env \<Rightarrow> imon \<Rightarrow> imon) \<Rightarrow> (string \<Rightarrow> imon) \<Rightarrow> (string \<Rightarrow> imon) \<Rightarrow> bool"
  for N work where
  works: "n \<in> N \<Longrightarrow> \<not> e_done e \<Longrightarrow> cluster_step N work c (c(n := work e (c n)))"
| ends: "n \<in> N \<Longrightarrow> \<not> e_done e \<Longrightarrow> CmdOrchestrate s s' \<in> set (i_cmds (c n)) \<Longrightarrow>
    cluster_step N work c
      (c(n := actionEnded e s s' ((c n)\<lparr>i_cmds := remove1 (CmdOrchestrate s s') (i_cmds (c n))\<rparr>)))"
| hears: "n \<in> N \<Longrightarrow> m \<in> N \<Longrightarrow> n \<noteq> m \<Longrightarrow> mon \<in> published (c m) \<Longrightarrow>
    cluster_step N work c (c(n := (c n)\<lparr>i_instMonitor := AList.update m mon (i_instMonitor (c n))\<rparr>))"
| learns: "n \<in> N \<Longrightarrow> cluster_step N work c (c(n := (c n)\<lparr>i_instStatus := st\<rparr>))"

text \<open>At first each node knows a monitor of every other node, and nobody has done anything.\<close>

definition fresh_cluster :: "string set \<Rightarrow> (string \<Rightarrow> imon) \<Rightarrow> bool" where
  "fresh_cluster N c \<longleftrightarrow>
    (\<forall>n\<in>N. i_localhost (c n) = n \<and> mstate (c n) = MonitorStateIdle \<and> i_cmds (c n) = [] \<and> i_trace (c n) = []
      \<and> wf_map (i_instMonitor (c n)) \<and> fst ` set (i_instMonitor (c n)) = N - {n}
      \<and> (\<forall>(m, mon) \<in> set (i_instMonitor (c n)). mon_State mon = MonitorStateIdle \<and> \<not> mon_OrchestrationIsDone mon))"

lemma in_set_update: "x \<in> set (AList.update k v l) \<Longrightarrow> x = (k, v) \<or> x \<in> set l"
  by (induction l) (auto split: if_splits)

section \<open>What the elementary operations publish\<close>

lemma trace_refresh [simp]:
  "i_trace (scheduleEventRefresh e t) = i_trace t" "i_trace (replayDeferredEventRefresh e t) = i_trace t"
  "i_trace (setLocalExpect le t) = i_trace t" "i_trace (enableMonitor t) = i_trace t" "i_trace (disableMonitor t) = i_trace t"
  "i_trace (rearm t) = i_trace t" "i_trace (orch_done t) = i_trace t" "i_trace (doneAndIdle t) = i_trace t"
  "i_trace (clearPending t) = i_trace t" "i_trace (createPendingWithDuration e d t) = i_trace t"
  "i_trace (orchestrateAfterAction e a b t) = i_trace t" "i_trace (set_mstate s t) = i_trace t"
  by (simp_all add: scheduleEventRefresh_def replayDeferredEventRefresh_def setLocalExpect_def rearm_def
      enableMonitor_def disableMonitor_def orch_done_def doneAndIdle_def clearPending_def createPendingWithDuration_def
      orchestrateAfterAction_def Let_def set_mstate_def split: option.splits)

lemma change_rearm: "i_change t \<Longrightarrow> i_change (rearm t)"
  by (simp add: rearm_def enableMonitor_def setLocalExpect_def)

lemma change_replay [simp]: "i_change (replayDeferredEventRefresh e t) = i_change t"
  by (simp add: replayDeferredEventRefresh_def scheduleEventRefresh_def)

lemma state_rearm: "mon_State (i_state (rearm t)) = mstate t"
    "mon_OrchestrationIsDone (i_state (rearm t)) = mon_OrchestrationIsDone (i_state t)"
  by (simp_all add: rearm_def)

lemma state_replay: "i_state (replayDeferredEventRefresh e t) = i_state t"
  by (simp add: replayDeferredEventRefresh_def scheduleEventRefresh_def)

text \<open>A publication adds at most one message, with the state of the monitor, and one when something changed.\<close>

lemma trace_publish:
  assumes "\<not> e_done e"
  obtains m where "i_trace (publish e t) = i_trace t @ [PubInstanceMonitorUpdated m]" "mon_State m = mstate t"
    "mon_OrchestrationIsDone m = mon_OrchestrationIsDone (i_state t)"
  using assms by (simp add: publish_def update_def emit_def Let_def)

lemma trace_updateIfChange:
  obtains (none) "i_trace (updateIfChange e t) = i_trace t" "e_done e \<or> \<not> i_change t"
  | (one) m where "i_trace (updateIfChange e t) = i_trace t @ [PubInstanceMonitorUpdated m]" "mon_State m = mstate t"
    "mon_OrchestrationIsDone m = mon_OrchestrationIsDone (i_state t)"
proof -
  let ?r = "replayDeferredEventRefresh e t"
  show thesis
  proof (cases "e_done e \<or> \<not> i_change (rearm ?r)")
    case True
    then have "i_trace (updateIfChange e t) = i_trace t" by (auto simp: updateIfChange_steps Let_def)
    moreover have "e_done e \<or> \<not> i_change t" using True change_rearm [of ?r] by auto
    ultimately show thesis by (rule none)
  next
    case False
    then obtain m where "i_trace (publish e (rearm ?r)) = i_trace t @ [PubInstanceMonitorUpdated m]"
      "mon_State m = mstate t" "mon_OrchestrationIsDone m = mon_OrchestrationIsDone (i_state t)"
      using trace_publish [of e "rearm ?r"] by (metis state_rearm state_replay trace_refresh(2,6))
    then show thesis using one False by (simp add: updateIfChange_steps Let_def)
  qed
qed

lemma trace_transitionTo:
  assumes "\<not> e_done e"
  obtains m where "i_trace (transitionTo e s t) = i_trace t @ [PubInstanceMonitorUpdated m]" "mon_State m = s"
    "mon_OrchestrationIsDone m = mon_OrchestrationIsDone (i_state t)"
  using trace_updateIfChange [of e "set_mstate s (t\<lparr>i_change := True\<rparr>)"] assms
  by (cases rule: trace_updateIfChange [of e "set_mstate s (t\<lparr>i_change := True\<rparr>)"])
    (simp_all add: transitionTo_def)

lemma trace_crmDefaultAction:
  "snd (crmDefaultAction x args e t) = emit (Exec args (fst (fst (crmDefaultAction x args e t)))) t"
  by (simp add: crmDefaultAction_def Let_def)


section \<open>The trace of an action\<close>

text \<open>An action that forks one command and fails with it.\<close>

definition runs :: "action \<Rightarrow> (imon \<Rightarrow> string list) \<Rightarrow> bool" where
  "runs act args \<longleftrightarrow> (\<forall>e t. \<exists>code. act e t = (code \<noteq> 0, emit (Exec (args t) code) t))"

lemma runs_crmAction: "(\<And>e t. act e t = crmAction (args t) e t) \<Longrightarrow> runs act args"
  by (auto simp: runs_def crmAction_def crmDefaultAction_def Let_def)

lemma queueAction_runs:
  assumes "runs act args" and "\<not> e_done e"
  obtains m code where
    "i_trace (queueAction act a b c e t)
      = i_trace t @ [PubInstanceMonitorUpdated m, Exec (args (transitionTo e a t)) code]"
    "mon_State m = a" "mon_OrchestrationIsDone m = mon_OrchestrationIsDone (i_state t)"
    "i_cmds (queueAction act a b c e t) = i_cmds t @ [CmdOrchestrate a (if code = 0 then b else c)]"
    "core (queueAction act a b c e t) = core (set_mstate a (t\<lparr>i_cmds := i_cmds (queueAction act a b c e t)\<rparr>))"
proof -
  obtain m where m: "i_trace (transitionTo e a t) = i_trace t @ [PubInstanceMonitorUpdated m]" "mon_State m = a"
    "mon_OrchestrationIsDone m = mon_OrchestrationIsDone (i_state t)" by (rule trace_transitionTo [OF assms(2)])
  obtain code where code: "act e (transitionTo e a t)
      = (code \<noteq> 0, emit (Exec (args (transitionTo e a t)) code) (transitionTo e a t))"
    using assms(1) by (auto simp: runs_def)
  have "core (queueAction act a b c e t) = core (set_mstate a (t\<lparr>i_cmds := i_cmds (queueAction act a b c e t)\<rparr>))"
    using assms(2) code transitionTo_core [of e a t]
    by (auto simp: queueAction_def doAction_def orchestrateAfterAction_def emit_def core_def set_mstate_def)
  moreover have "i_cmds (queueAction act a b c e t) = i_cmds t @ [CmdOrchestrate a (if code = 0 then b else c)]"
    using assms(2) code by (simp add: queueAction_def doAction_def orchestrateAfterAction_def)
  ultimately show thesis
    using that m assms(2) code by (simp add: queueAction_def doAction_def orchestrateAfterAction_def emit_def)
qed

lemma doTransitionAction_runs:
  assumes "runs act args" and "\<not> e_done e"
  obtains m m' code where
    "i_trace (doTransitionAction act a b c e t) = i_trace t
      @ [PubInstanceMonitorUpdated m, Exec (args (transitionTo e a t)) code, PubInstanceMonitorUpdated m']"
    "mon_State m = a" "mon_OrchestrationIsDone m = mon_OrchestrationIsDone (i_state t)"
    "mon_State m' = (if code = 0 then b else c)" "mon_OrchestrationIsDone m' = mon_OrchestrationIsDone (i_state t)"
    "core (doTransitionAction act a b c e t) = core (set_mstate (if code = 0 then b else c) t)"
proof -
  obtain m where m: "i_trace (transitionTo e a t) = i_trace t @ [PubInstanceMonitorUpdated m]" "mon_State m = a"
    "mon_OrchestrationIsDone m = mon_OrchestrationIsDone (i_state t)" by (rule trace_transitionTo [OF assms(2)])
  obtain code where code: "act e (transitionTo e a t)
      = (code \<noteq> 0, emit (Exec (args (transitionTo e a t)) code) (transitionTo e a t))"
    using assms(1) by (auto simp: runs_def)
  let ?u = "emit (Exec (args (transitionTo e a t)) code) (transitionTo e a t)" and ?s = "if code = 0 then b else c"
  have d: "doTransitionAction act a b c e t = transitionTo e ?s ?u" using code by (simp add: doTransitionAction_def)
  obtain m' where "i_trace (transitionTo e ?s ?u) = i_trace ?u @ [PubInstanceMonitorUpdated m']" "mon_State m' = ?s"
    "mon_OrchestrationIsDone m' = mon_OrchestrationIsDone (i_state ?u)" by (rule trace_transitionTo [OF assms(2)])
  moreover have "core (transitionTo e ?s ?u) = core (set_mstate ?s t)"
    using transitionTo_core [of e a t] by (auto simp: emit_def core_def set_mstate_def)
  ultimately show thesis using that m d by (simp add: emit_def)
qed

end
