(* ===== verification/Imon_Resize.thy ===== *)
theory Imon_Resize
  imports Imon_Cluster
begin

text \<open>
  Growing the storage of an object and applying the caps of its configuration:
  \<open>orchestration_resized.go\<close> and \<open>orchestration_capped.go\<close> of \<open>daemon/imon\<close>. A resize runs in
  stages, each on every node before the next on any; the lock step of the nodes is proved on the
  steps of \<open>Imon_Cluster\<close>.
\<close>

section \<open>Resized\<close>

definition ExitCodeResizeNoSuchStage :: int where
  "ExitCodeResizeNoSuchStage = 5"

definition isResizeLeader :: "imon \<Rightarrow> bool" where
  "isResizeLeader t = status_Is (st_Avail (localStatus t)) [StUp]"

definition resize_args :: "int \<Rightarrow> imon \<Rightarrow> string list" where
  "resize_args stage t =
    inst_args t ([''resize'', ''--stage'', Itoa stage] @ (if \<not> isResizeLeader t then [''--skip-head-stage''] else []))"

definition crmResizeStage :: "int \<Rightarrow> env \<Rightarrow> imon \<Rightarrow> (int \<times> bool) \<times> imon" where
  "crmResizeStage stage e t = crmDefaultAction [ExitCodeResizeNoSuchStage] (resize_args stage t) e t"

definition hasResizeConfig :: "env \<Rightarrow> imon \<Rightarrow> bool" where
  "hasResizeConfig e t =
    (case mon_GlobalExpectOptions (i_state t) of
       GeoResized at \<Rightarrow> at = 0 \<or> \<not> (e_cfgMtime e = 0 \<or> e_cfgMtime e < at)
     | _ \<Rightarrow> True)"

definition hasAnyInstanceUp :: "imon \<Rightarrow> bool" where
  "hasAnyInstanceUp t = list_ex (\<lambda>(_, st). status_Is (st_Avail st) [StUp]) (i_instStatus t)"

definition hasAllPeersReachedStage :: "int \<Rightarrow> imon \<Rightarrow> bool" where
  "hasAllPeersReachedStage stage t =
    list_all (\<lambda>(_, m).
      case ResizeStage (mon_State m) of
        (peerStage, True) \<Rightarrow> peerStage \<ge> stage
      | (_, False) \<Rightarrow> MonitorState_IsOneOf (mon_State m) [MonitorStateResizeSuccess]) (i_instMonitor t)"

definition hasAnyPeerResizeFailed :: "imon \<Rightarrow> bool" where
  "hasAnyPeerResizeFailed t =
    list_ex (\<lambda>(_, m). MonitorState_IsOneOf (mon_State m) [MonitorStateResizeFailure]) (i_instMonitor t)"

definition resizedEnd :: "env \<Rightarrow> imon \<Rightarrow> imon" where
  "resizedEnd e t = (if mon_OrchestrationIsDone (i_state t) then t else updateIfChange e (orch_done t))"

definition queueResizeStage :: "int \<Rightarrow> env \<Rightarrow> imon \<Rightarrow> imon" where
  "queueResizeStage stage e t =
    (case NewMonitorStateResizeStage stage of
       (_, False) \<Rightarrow> transitionTo e MonitorStateResizeFailure t
     | (staged, True) \<Rightarrow>
         (case crmResizeStage stage e (transitionTo e MonitorStateResizeProgress t) of
            ((exitCode, err), t) \<Rightarrow>
              orchestrateAfterAction e MonitorStateResizeProgress
                (if err then MonitorStateResizeFailure
                 else if exitCode = ExitCodeResizeNoSuchStage then MonitorStateResizeSuccess
                 else staged) t))"

definition resizedFromStage :: "int \<Rightarrow> env \<Rightarrow> imon \<Rightarrow> imon" where
  "resizedFromStage stage e t =
    (if hasAnyPeerResizeFailed t then transitionTo e MonitorStateResizeFailure t
     else if \<not> hasAllPeersReachedStage stage t then t
     else queueResizeStage (stage + 1) e t)"

definition resizedFromIdle :: "env \<Rightarrow> imon \<Rightarrow> imon" where
  "resizedFromIdle e t =
    (if \<not> hasResizeConfig e t then t
     else if provisioned_IsOneOf (st_Provisioned (localStatus t)) [PrFalse] then transitionTo e MonitorStateResizeSuccess t
     else if \<not> hasAnyInstanceUp t then transitionTo e MonitorStateResizeFailure t
     else queueResizeStage 0 e t)"

definition orchestrateResized :: "env \<Rightarrow> imon \<Rightarrow> imon" where
  "orchestrateResized e t =
    (case ResizeStage (mstate t) of
       (stage, True) \<Rightarrow> resizedFromStage stage e t
     | (_, False) \<Rightarrow>
         if mstate t = MonitorStateIdle then resizedFromIdle e t
         else if mstate t = MonitorStateResizeSuccess then resizedEnd e t
         else if mstate t = MonitorStateResizeFailure then resizedEnd e t
         else t)"

section \<open>Capped\<close>

definition hasCapTarget :: "imon \<Rightarrow> bool" where
  "hasCapTarget t = status_Is (st_Avail (localStatus t)) [StUp, StWarn, StStandbyUp, StStandbyUpWithUp]"

definition hasCapConfig :: "env \<Rightarrow> imon \<Rightarrow> bool" where
  "hasCapConfig e t =
    (case mon_GlobalExpectOptions (i_state t) of
       GeoCapped at \<Rightarrow> at = 0 \<or> \<not> (e_cfgMtime e = 0 \<or> e_cfgMtime e < at)
     | _ \<Rightarrow> True)"

definition cappedEnd :: "env \<Rightarrow> bool \<Rightarrow> imon \<Rightarrow> imon" where
  "cappedEnd e succeed t =
    (if mon_OrchestrationIsDone (i_state t) then t
     else updateIfChange e (if succeed then doneAndIdle t else orch_done t))"

definition cappedFromIdle :: "env \<Rightarrow> imon \<Rightarrow> imon" where
  "cappedFromIdle e t =
    (if \<not> hasCapConfig e t then t
     else if \<not> hasCapTarget t then transitionTo e MonitorStateCapSuccess t
     else case crmPGUpdate e (transitionTo e MonitorStateCapProgress t) of
       (err, t) \<Rightarrow>
         orchestrateAfterAction e MonitorStateCapProgress
           (if err then MonitorStateCapFailure else MonitorStateCapSuccess) t)"

definition orchestrateCapped :: "env \<Rightarrow> imon \<Rightarrow> imon" where
  "orchestrateCapped e t =
    (if mstate t = MonitorStateIdle then cappedFromIdle e t
     else if mstate t = MonitorStateCapSuccess then cappedEnd e True t
     else if mstate t = MonitorStateCapFailure then cappedEnd e False t
     else t)"


section \<open>What a resize does to the trace\<close>

definition tried :: "imon \<Rightarrow> int \<Rightarrow> bool" where
  "tried t k \<longleftrightarrow>
    (\<exists>p r code. Exec (p # ''instance'' # ''resize'' # ''--stage'' # Itoa k # r) code \<in> set (i_trace t))"

definition grown :: "imon \<Rightarrow> int \<Rightarrow> bool" where
  "grown t k \<longleftrightarrow>
    (\<exists>p r. Exec (p # ''instance'' # ''resize'' # ''--stage'' # Itoa k # r) 0 \<in> set (i_trace t))"

definition settled :: "imon \<Rightarrow> bool" where
  "settled t \<longleftrightarrow> (\<exists>m \<in> published t. mon_State m = MonitorStateResizeSuccess)"

lemma trace_mono:
  assumes "set (i_trace t) \<subseteq> set (i_trace t')"
  shows "tried t k \<Longrightarrow> tried t' k" "grown t k \<Longrightarrow> grown t' k" "settled t \<Longrightarrow> settled t'"
  using assms unfolding tried_def grown_def settled_def published_def by blast+

text \<open>The work of a node only publishes, or grows one stage.\<close>

definition quiet :: "imon \<Rightarrow> imon \<Rightarrow> bool" where
  "quiet t t' \<longleftrightarrow>
    i_cmds t' = i_cmds t \<and> i_instMonitor t' = i_instMonitor t
    \<and> (mstate t' = mstate t \<or> \<not> snd (ResizeStage (mstate t')))
    \<and> (i_trace t' = i_trace t
       \<or> (\<exists>m. i_trace t' = i_trace t @ [PubInstanceMonitorUpdated m] \<and> mon_State m = mstate t'))"

definition grows_stage :: "int \<Rightarrow> imon \<Rightarrow> imon \<Rightarrow> bool" where
  "grows_stage k t t' \<longleftrightarrow>
    0 \<le> k \<and> k < MaxResizeStages \<and> i_instMonitor t' = i_instMonitor t \<and> mstate t' = MonitorStateResizeProgress
    \<and> (k = 0 \<longrightarrow> mstate t = MonitorStateIdle)
    \<and> (k > 0 \<longrightarrow> ResizeStage (mstate t) = (k - 1, True) \<and> hasAllPeersReachedStage (k - 1) t)
    \<and> (\<exists>m code s. i_trace t' = i_trace t @ [PubInstanceMonitorUpdated m, Exec (resize_args k t) code]
        \<and> mon_State m = MonitorStateResizeProgress
        \<and> i_cmds t' = i_cmds t @ [CmdOrchestrate MonitorStateResizeProgress s]
        \<and> (\<forall>j. ResizeStage s = (j, True) \<longrightarrow> j = k \<and> code = 0))"

lemma quiet_refl: "quiet t t"
  by (simp add: quiet_def)

lemma quiet_transitionTo:
  assumes "\<not> e_done e" and "mstate t = s \<or> \<not> snd (ResizeStage s)"
  shows "quiet t (transitionTo e s t)"
proof -
  obtain m where "i_trace (transitionTo e s t) = i_trace t @ [PubInstanceMonitorUpdated m]" "mon_State m = s"
    using trace_transitionTo [OF assms(1)] by blast
  then show ?thesis using assms(2) by (auto simp: quiet_def)
qed

lemma quiet_resizedEnd: "quiet t (resizedEnd e t)"
proof (cases rule: trace_updateIfChange [of e "orch_done t"])
  case none
  then show ?thesis by (simp add: resizedEnd_def quiet_def)
next
  case (one m)
  then show ?thesis by (simp add: resizedEnd_def quiet_def)
qed

lemma stage_bounds:
  "ResizeStage s = (k, True) \<Longrightarrow> 0 \<le> k \<and> k < MaxResizeStages"
  "NewMonitorStateResizeStage k = (s, True) \<Longrightarrow> 0 \<le> k \<and> k < MaxResizeStages \<and> ResizeStage s = (k, True)"
  by (auto simp: ResizeStage_def NewMonitorStateResizeStage_def MaxResizeStages_def split: monitor_state.splits if_splits)

lemma resize_args_transition [simp]: "resize_args k (transitionTo e s t) = resize_args k t"
  by (simp add: resize_args_def isResizeLeader_def localStatus_def inst_args_def)

lemma queueResizeStage_move:
  assumes "\<not> e_done e" and "k = 0 \<Longrightarrow> mstate t = MonitorStateIdle"
    and "k > 0 \<Longrightarrow> ResizeStage (mstate t) = (k - 1, True) \<and> hasAllPeersReachedStage (k - 1) t"
  shows "quiet t (queueResizeStage k e t) \<or> grows_stage k t (queueResizeStage k e t)"
proof (cases "NewMonitorStateResizeStage k")
  case (Pair staged ok)
  show ?thesis
  proof (cases ok)
    case False
    then have "queueResizeStage k e t = transitionTo e MonitorStateResizeFailure t"
      using Pair by (simp add: queueResizeStage_def)
    then show ?thesis using quiet_transitionTo [OF assms(1), of t] by (simp add: ResizeStage_def)
  next
    case True
    let ?u = "transitionTo e MonitorStateResizeProgress t"
    obtain m where m: "i_trace ?u = i_trace t @ [PubInstanceMonitorUpdated m]" "mon_State m = MonitorStateResizeProgress"
      using trace_transitionTo [OF assms(1)] by blast
    define code where "code = e_exit e (length (i_trace ?u)) (resize_args k t)"
    define s where "s = (if \<not> (code = 0 \<or> code = ExitCodeResizeNoSuchStage) then MonitorStateResizeFailure
      else if code = ExitCodeResizeNoSuchStage then MonitorStateResizeSuccess else staged)"
    have q: "queueResizeStage k e t
        = orchestrateAfterAction e MonitorStateResizeProgress s (emit (Exec (resize_args k t) code) ?u)"
      using Pair True by (simp add: queueResizeStage_def crmResizeStage_def crmDefaultAction_def Let_def s_def code_def)
    have "ResizeStage s = (j, True) \<longrightarrow> j = k \<and> code = 0" for j
      using stage_bounds(2) [of k staged] Pair True by (auto simp: s_def ResizeStage_def)
    then have "grows_stage k t (queueResizeStage k e t)"
      unfolding grows_stage_def q using m assms stage_bounds(2) [of k staged] Pair True
      by (simp add: orchestrateAfterAction_def emit_def) blast
    then show ?thesis ..
  qed
qed


lemma orchestrateResized_move:
  assumes "\<not> e_done e"
  shows "quiet t (orchestrateResized e t) \<or> (\<exists>k. grows_stage k t (orchestrateResized e t))"
proof (cases "ResizeStage (mstate t)")
  case (Pair stage staged)
  show ?thesis
  proof (cases staged)
    case True
    have "k > 0 \<Longrightarrow> k = stage + 1 \<Longrightarrow> hasAllPeersReachedStage stage t \<Longrightarrow>
        quiet t (queueResizeStage k e t) \<or> grows_stage k t (queueResizeStage k e t)" for k
      using Pair True by (intro queueResizeStage_move [OF assms]) simp_all
    moreover have "0 \<le> stage" using stage_bounds(1) [of "mstate t" stage] Pair True by simp
    ultimately have "hasAllPeersReachedStage stage t \<Longrightarrow>
        quiet t (queueResizeStage (stage + 1) e t) \<or> grows_stage (stage + 1) t (queueResizeStage (stage + 1) e t)"
      by simp
    then show ?thesis
      using Pair True quiet_transitionTo [OF assms, of t MonitorStateResizeFailure]
      by (auto simp: orchestrateResized_def resizedFromStage_def ResizeStage_def quiet_refl)
  next
    case False
    have "mstate t = MonitorStateIdle \<Longrightarrow> quiet t (queueResizeStage 0 e t) \<or> grows_stage 0 t (queueResizeStage 0 e t)"
      by (rule queueResizeStage_move [OF assms]) simp_all
    then have "mstate t = MonitorStateIdle \<Longrightarrow> quiet t (resizedFromIdle e t) \<or> (\<exists>k. grows_stage k t (resizedFromIdle e t))"
      using quiet_transitionTo [OF assms, of t]
      by (auto simp: resizedFromIdle_def quiet_refl ResizeStage_def)
    then show ?thesis
      using Pair False quiet_resizedEnd [of t e] by (simp add: orchestrateResized_def quiet_refl)
  qed
qed

section \<open>The nodes grow in lock step\<close>

text \<open>The states a node shows, and the ones its actions end on, claim the stages it grew.\<close>

definition stage_claims :: "imon \<Rightarrow> monitor_state \<Rightarrow> bool" where
  "stage_claims t s \<longleftrightarrow> (\<forall>k. ResizeStage s = (k, True) \<longrightarrow> grown t k)"

definition honest :: "imon \<Rightarrow> bool" where
  "honest t \<longleftrightarrow>
    stage_claims t (mstate t) \<and> (\<forall>m \<in> published t. stage_claims t (mon_State m))
    \<and> (\<forall>s s'. CmdOrchestrate s s' \<in> set (i_cmds t) \<longrightarrow> stage_claims t s')
    \<and> (\<forall>k \<ge> 0. tried t (k + 1) \<longrightarrow> grown t k)"

lemma stage_claims_mono: "set (i_trace t) \<subseteq> set (i_trace t') \<Longrightarrow> stage_claims t s \<Longrightarrow> stage_claims t' s"
  using trace_mono(2) [of t t'] by (simp add: stage_claims_def)

lemma stage_claims_not: "\<not> snd (ResizeStage s) \<Longrightarrow> stage_claims t s"
  by (auto simp: stage_claims_def)

lemma tried_publish: "i_trace t' = i_trace t @ [PubInstanceMonitorUpdated m] \<Longrightarrow> tried t' k = tried t k"
  by (simp add: tried_def)

lemma quiet_tried: "quiet t t' \<Longrightarrow> tried t' k = tried t k"
  unfolding quiet_def using tried_publish [of t' t] by (metis tried_def)

lemma quiet_trace: "quiet t t' \<Longrightarrow> set (i_trace t) \<subseteq> set (i_trace t')"
  by (auto simp: quiet_def)

lemma honest_quiet:
  assumes "honest t" and "quiet t t'"
  shows "honest t'"
proof -
  note mono = quiet_trace [OF assms(2)]
  have s: "stage_claims t' (mstate t')"
    using assms stage_claims_mono [OF mono] by (auto simp: honest_def quiet_def intro: stage_claims_not)
  moreover have "stage_claims t' (mon_State m)" if "m \<in> published t'" for m
  proof (cases "m \<in> published t")
    case True
    then show ?thesis using assms(1) stage_claims_mono [OF mono] by (auto simp: honest_def)
  next
    case False
    then have "mon_State m = mstate t'" using that assms(2) by (auto simp: quiet_def published_def)
    then show ?thesis using s by simp
  qed
  ultimately show ?thesis
    using assms quiet_tried [OF assms(2)] trace_mono(2) [OF mono] stage_claims_mono [OF mono]
    by (auto simp: honest_def quiet_def)
qed


lemma grows_stage_tried:
  assumes "grows_stage k t t'"
  shows "tried t' j \<longleftrightarrow> tried t j \<or> j = k"
proof -
  obtain m code where "i_trace t' = i_trace t @ [PubInstanceMonitorUpdated m, Exec (resize_args k t) code]"
    using assms by (auto simp: grows_stage_def)
  then show ?thesis by (auto simp: tried_def resize_args_def inst_args_def)
qed

lemma grows_stage_grown: "grows_stage k t t' \<Longrightarrow> set (i_trace t) \<subseteq> set (i_trace t')"
  by (auto simp: grows_stage_def)

lemma honest_grows:
  assumes "honest t" and "grows_stage k t t'"
  shows "honest t'"
proof -
  note mono = grows_stage_grown [OF assms(2)]
  obtain m code s where u: "i_trace t' = i_trace t @ [PubInstanceMonitorUpdated m, Exec (resize_args k t) code]"
    "mon_State m = MonitorStateResizeProgress" "i_cmds t' = i_cmds t @ [CmdOrchestrate MonitorStateResizeProgress s]"
    "\<forall>j. ResizeStage s = (j, True) \<longrightarrow> j = k \<and> code = 0"
    using assms(2) by (auto simp: grows_stage_def)
  have st: "mstate t' = MonitorStateResizeProgress" "0 \<le> k" using assms(2) by (auto simp: grows_stage_def)
  have "grown t' j" if "j \<ge> 0" "tried t' (j + 1)" for j
  proof (cases "tried t (j + 1)")
    case True
    then show ?thesis using assms(1) that trace_mono(2) [OF mono] by (simp add: honest_def)
  next
    case False
    then have "j + 1 = k" using that grows_stage_tried [OF assms(2)] by blast
    then have "ResizeStage (mstate t) = (j, True)" using assms(2) that by (auto simp: grows_stage_def)
    then show ?thesis using assms(1) trace_mono(2) [OF mono] by (auto simp: honest_def stage_claims_def)
  qed
  moreover have "code = 0 \<Longrightarrow> grown t' k" using u(1) by (auto simp: grown_def resize_args_def inst_args_def)
  then have "stage_claims t' s" using u(4) by (auto simp: stage_claims_def)
  moreover have "stage_claims t' (mon_State x)" if "x \<in> published t'" for x
  proof (cases "x \<in> published t")
    case True
    then show ?thesis using assms(1) stage_claims_mono [OF mono] by (auto simp: honest_def)
  next
    case False
    then have "x = m" using that u(1) by (auto simp: published_def)
    then show ?thesis using u(2) by (simp add: stage_claims_not ResizeStage_def)
  qed
  ultimately show ?thesis
    using assms(1) stage_claims_mono [OF mono] st u(3) by (auto simp: honest_def stage_claims_not ResizeStage_def)
qed

lemma honest_resized: "honest t \<Longrightarrow> \<not> e_done e \<Longrightarrow> honest (orchestrateResized e t)"
  using orchestrateResized_move [of e t] honest_quiet honest_grows by blast

lemma honest_ended:
  assumes "honest t" and "\<not> e_done e" and "CmdOrchestrate s s' \<in> set (i_cmds t)"
  shows "honest (actionEnded e s s' (t\<lparr>i_cmds := remove1 (CmdOrchestrate s s') (i_cmds t)\<rparr>))"
proof -
  let ?u = "t\<lparr>i_cmds := remove1 (CmdOrchestrate s s') (i_cmds t)\<rparr>"
  have same: "stage_claims ?u x = stage_claims t x" "published ?u = published t" "tried ?u k = tried t k" "grown ?u k = grown t k"
    for x k by (simp_all add: stage_claims_def published_def tried_def grown_def)
  have u: "honest ?u" "stage_claims ?u s'"
    using assms(1,3) by (auto simp: honest_def same dest: set_remove1_subset [THEN subsetD])
  obtain m where m: "i_trace (transitionTo e s' ?u) = i_trace ?u @ [PubInstanceMonitorUpdated m]" "mon_State m = s'"
    using trace_transitionTo [OF assms(2)] by blast
  have t: "stage_claims (transitionTo e s' ?u) x = stage_claims ?u x" "tried (transitionTo e s' ?u) k = tried ?u k"
    "grown (transitionTo e s' ?u) k = grown ?u k" "published (transitionTo e s' ?u) = insert m (published ?u)" for x k
    using m(1) by (auto simp: stage_claims_def published_def tried_def grown_def)
  have "honest (transitionTo e s' ?u)"
    using u m(2) unfolding honest_def t by (auto simp: stage_claims_def)
  then show ?thesis using u(1) by (simp add: actionEnded_transition)
qed

text \<open>
  The invariant of the cluster: every node is honest, what a node knows of a peer is what the peer
  published, and no node tried a stage before its peers grew the stage below, or had nothing left to grow.
\<close>

definition lockstep :: "string set \<Rightarrow> (string \<Rightarrow> imon) \<Rightarrow> bool" where
  "lockstep N c \<longleftrightarrow>
    (\<forall>n\<in>N. honest (c n) \<and> fst ` set (i_instMonitor (c n)) = N - {n}
      \<and> (\<forall>(m, mon) \<in> set (i_instMonitor (c n)). mon_State mon = MonitorStateIdle \<or> mon \<in> published (c m))
      \<and> (\<forall>m\<in>N - {n}. \<forall>k \<ge> 0. tried (c n) (k + 1) \<longrightarrow> grown (c m) k \<or> settled (c m)))"

lemma lockstep_fresh: "fresh_cluster N c \<Longrightarrow> lockstep N c"
  by (auto simp: fresh_cluster_def lockstep_def honest_def stage_claims_def published_def tried_def ResizeStage_def)


lemma lockstepD:
  assumes "lockstep N c" and "n \<in> N"
  shows "honest (c n)" "fst ` set (i_instMonitor (c n)) = N - {n}"
    "(m, mon) \<in> set (i_instMonitor (c n)) \<Longrightarrow> mon_State mon = MonitorStateIdle \<or> mon \<in> published (c m)"
    "m \<in> N - {n} \<Longrightarrow> 0 \<le> k \<Longrightarrow> tried (c n) (k + 1) \<Longrightarrow> grown (c m) k \<or> settled (c m)"
proof -
  note b = bspec [OF assms(1) [unfolded lockstep_def] assms(2)]
  show "honest (c n)" "fst ` set (i_instMonitor (c n)) = N - {n}"
    by (rule b [THEN conjunct1], rule b [THEN conjunct2, THEN conjunct1])
  show "mon_State mon = MonitorStateIdle \<or> mon \<in> published (c m)" if "(m, mon) \<in> set (i_instMonitor (c n))"
    using bspec [OF b [THEN conjunct2, THEN conjunct2, THEN conjunct1] that] by (simp only: prod.case)
  show "grown (c m) k \<or> settled (c m)" if "m \<in> N - {n}" "0 \<le> k" "tried (c n) (k + 1)"
    using bspec [OF b [THEN conjunct2, THEN conjunct2, THEN conjunct2] that(1)] that(2,3) by blast
qed

lemma lockstep_update:
  assumes "lockstep N c" and "n \<in> N" and "honest t'" and "set (i_trace (c n)) \<subseteq> set (i_trace t')"
    and "fst ` set (i_instMonitor t') = N - {n}"
    and "\<And>m mon. (m, mon) \<in> set (i_instMonitor t') \<Longrightarrow> mon_State mon = MonitorStateIdle \<or> mon \<in> published (c m)"
    and "\<And>k m. 0 \<le> k \<Longrightarrow> tried t' (k + 1) \<Longrightarrow> m \<in> N - {n} \<Longrightarrow>
      tried (c n) (k + 1) \<or> grown (c m) k \<or> settled (c m)"
  shows "lockstep N (c(n := t'))"
  unfolding lockstep_def
proof (intro ballI)
  let ?c = "c(n := t')"
  have mono: "set (i_trace (c i)) \<subseteq> set (i_trace (?c i))" for i using assms(4) by simp
  have pub: "mon \<in> published (?c i)" if "mon \<in> published (c i)" for i mon
    using that mono [of i] unfolding published_def by blast
  fix i assume i: "i \<in> N"
  have known: "fst ` set (i_instMonitor (?c i)) = N - {i}" using assms(5) lockstepD(2) [OF assms(1) i] by simp
  have view: "\<forall>(m, mon) \<in> set (i_instMonitor (?c i)). mon_State mon = MonitorStateIdle \<or> mon \<in> published (?c m)"
    using assms(6) lockstepD(3) [OF assms(1) i] pub by (cases "i = n") (simp_all, blast+)
  have "grown (?c m) k \<or> settled (?c m)" if "m \<in> N - {i}" "k \<ge> 0" "tried (?c i) (k + 1)" for m k
  proof -
    have "grown (c m) k \<or> settled (c m)"
      using assms(7) [of k m] that lockstepD(4) [OF assms(1) i, of m k] by (cases "i = n") auto
    then show ?thesis using trace_mono(2,3) [OF mono [of m]] by blast
  qed
  then show "honest (?c i) \<and> fst ` set (i_instMonitor (?c i)) = N - {i}
      \<and> (\<forall>(m, mon) \<in> set (i_instMonitor (?c i)). mon_State mon = MonitorStateIdle \<or> mon \<in> published (?c m))
      \<and> (\<forall>m\<in>N - {i}. \<forall>k \<ge> 0. tried (?c i) (k + 1) \<longrightarrow> grown (?c m) k \<or> settled (?c m))"
    using known view assms(3) lockstepD(1) [OF assms(1) i] by simp
qed

lemma grown_tried: "grown t k \<Longrightarrow> tried t k"
  by (auto simp: grown_def tried_def)

lemma grown_below:
  assumes "honest t"
  shows "grown t j \<Longrightarrow> 0 \<le> k \<Longrightarrow> k \<le> j \<Longrightarrow> grown t k"
proof (induction "nat (j - k)" arbitrary: j)
  case (Suc x)
  then have "grown t (j - 1)" using assms grown_tried [of t j] by (auto simp: honest_def dest: spec [of _ "j - 1"])
  moreover have "x = nat (j - 1 - k)" "k \<le> j - 1" using Suc.hyps(2) by simp_all
  ultimately show ?case using Suc.hyps(1) Suc.prems(2) by blast
qed simp

lemma peer_reached:
  assumes "lockstep N c" and "n \<in> N" and "m \<in> N - {n}" and "hasAllPeersReachedStage k (c n)" and "0 \<le> k"
  shows "grown (c m) k \<or> settled (c m)"
proof -
  have "m \<in> fst ` set (i_instMonitor (c n))" using lockstepD(2) [OF assms(1,2)] assms(3) by (simp only:)
  then obtain mon where mon: "(m, mon) \<in> set (i_instMonitor (c n))" by (auto simp only: image_iff prod.collapse fst_conv)
  then have r: "case ResizeStage (mon_State mon) of (j, True) \<Rightarrow> j \<ge> k
      | (_, False) \<Rightarrow> MonitorState_IsOneOf (mon_State mon) [MonitorStateResizeSuccess]"
    using bspec [OF assms(4) [unfolded hasAllPeersReachedStage_def list_all_iff]] by fastforce
  then have "mon_State mon \<noteq> MonitorStateIdle" by (auto simp: ResizeStage_def MonitorState_IsOneOf_iff)
  then have pub: "mon \<in> published (c m)" using lockstepD(3) [OF assms(1,2) mon] by blast
  have h: "honest (c m)" using lockstepD(1) [OF assms(1), of m] assms(3) by simp
  show ?thesis
  proof (cases "ResizeStage (mon_State mon)")
    case (Pair j ok)
    show ?thesis
    proof (cases ok)
      case True
      then have "j \<ge> k" using Pair r by simp
      moreover have "grown (c m) j" using h pub Pair True by (simp add: honest_def stage_claims_def)
      ultimately show ?thesis using grown_below [OF h] assms(5) by blast
    next
      case False
      then have "mon_State mon = MonitorStateResizeSuccess" using Pair r by (simp add: MonitorState_IsOneOf_iff)
      then show ?thesis using pub unfolding settled_def by blast
    qed
  qed
qed


lemma lockstep_works:
  assumes "lockstep N c" and "n \<in> N" and "\<not> e_done e"
  shows "lockstep N (c(n := orchestrateResized e (c n)))"
proof -
  let ?t = "orchestrateResized e (c n)"
  note move = orchestrateResized_move [OF assms(3), of "c n"]
  have m: "i_instMonitor ?t = i_instMonitor (c n)" and tr: "set (i_trace (c n)) \<subseteq> set (i_trace ?t)"
    using move quiet_trace grows_stage_grown by (auto simp: quiet_def grows_stage_def)
  show ?thesis
  proof (rule lockstep_update [OF assms(1,2) _ tr])
    show "honest ?t" by (rule honest_resized [OF lockstepD(1) [OF assms(1,2)] assms(3)])
    show "tried (c n) (k + 1) \<or> grown (c i) k \<or> settled (c i)"
      if "0 \<le> k" "tried ?t (k + 1)" "i \<in> N - {n}" for k i
    proof (cases "tried (c n) (k + 1)")
      case False
      then have "grows_stage (k + 1) (c n) ?t" using move that(2) quiet_tried grows_stage_tried by blast
      then have "hasAllPeersReachedStage k (c n)" using that(1) by (simp add: grows_stage_def)
      then show ?thesis using peer_reached [OF assms(1,2) that(3)] that(1) by blast
    qed simp
  qed (simp_all only: m lockstepD(2) [OF assms(1,2)] lockstepD(3) [OF assms(1,2)])
qed

lemma lockstep_step:
  assumes "lockstep N c" and "cluster_step N orchestrateResized c c'"
  shows "lockstep N c'"
  using assms(2)
proof cases
  case (works n e)
  then show ?thesis using lockstep_works [OF assms(1)] by simp
next
  case (ends n e s s')
  let ?u = "(c n)\<lparr>i_cmds := remove1 (CmdOrchestrate s s') (i_cmds (c n))\<rparr>"
  let ?t = "actionEnded e s s' ?u"
  obtain m where m: "i_trace (transitionTo e s' ?u) = i_trace (c n) @ [PubInstanceMonitorUpdated m]"
    using trace_transitionTo [OF ends(3), of s' ?u] by auto
  then have tr: "set (i_trace (c n)) \<subseteq> set (i_trace ?t)" and td: "tried ?t k = tried (c n) k" for k
    by (auto simp: actionEnded_transition tried_def)
  have "i_instMonitor ?t = i_instMonitor (c n)" by (simp add: actionEnded_transition)
  then show ?thesis
    unfolding ends(1)
    by (intro lockstep_update [OF assms(1) ends(2) honest_ended [OF lockstepD(1) [OF assms(1) ends(2)] ends(3,4)] tr])
      (simp_all only: td lockstepD(2,3) [OF assms(1) ends(2)] simp_thms)
next
  case (hears n m mon)
  let ?t = "(c n)\<lparr>i_instMonitor := AList.update m mon (i_instMonitor (c n))\<rparr>"
  have "honest ?t" using lockstepD(1) [OF assms(1) hears(2)]
    by (simp add: honest_def stage_claims_def tried_def grown_def published_def)
  moreover have "fst ` set (i_instMonitor ?t) = N - {n}"
    using lockstepD(2) [OF assms(1) hears(2)] hears(3,4) by (simp add: AList.dom_update) blast
  moreover have v: "(i, x) \<in> set (i_instMonitor ?t) \<Longrightarrow> x = mon \<and> i = m \<or> (i, x) \<in> set (i_instMonitor (c n))" for i x
    using in_set_update [of "(i, x)" m mon "i_instMonitor (c n)"] by auto
  ultimately show ?thesis
    unfolding hears(1)
  proof (intro lockstep_update [OF assms(1) hears(2)])
    show "mon_State x = MonitorStateIdle \<or> x \<in> published (c i)" if "(i, x) \<in> set (i_instMonitor ?t)" for i x
      using v [OF that] hears(5) lockstepD(3) [OF assms(1) hears(2), of i x] by blast
  qed (simp_all add: tried_def)
next
  case (learns n st)
  then show ?thesis
    using lockstepD [OF assms(1) learns(2)]
    by (simp only:, intro lockstep_update [OF assms(1)])
      (auto simp: honest_def stage_claims_def tried_def grown_def published_def)
qed


lemma lockstep_reachable:
  assumes "fresh_cluster N c0" and "(cluster_step N orchestrateResized)\<^sup>*\<^sup>* c0 c"
  shows "lockstep N c"
  using assms(2) by (induction rule: rtranclp_induct) (rule lockstep_fresh [OF assms(1)], erule (1) lockstep_step)

section \<open>Properties\<close>

text \<open>
  C6. The nodes grow an object in lock step: in any run of the monitors from rest, with the
  publications of a peer seen late, out of order or twice, a node asks for a stage above the first
  only after every other node grew the stage below it or published it has nothing left to grow.
\<close>

theorem resize_lockstep:
  assumes "fresh_cluster N c0" and "(cluster_step N orchestrateResized)\<^sup>*\<^sup>* c0 c"
    and "n \<in> N" and "m \<in> N" and "n \<noteq> m" and "0 \<le> k" and "tried (c n) (k + 1)"
  shows "grown (c m) k \<or> settled (c m)"
  using lockstepD(4) [OF lockstep_reachable [OF assms(1,2)] assms(3), of m k] assms(4-7) by blast

text \<open>
  A resize asks for at most the three stages the states name: the work of a node forks nothing,
  or one stage, the first one from rest, or the one after the stage its state names once every peer
  it knows finished that stage, with the head skipped unless the local instance is up.
\<close>

theorem resize_stage_bounds:
  assumes "\<not> e_done e" and "execs (orchestrateResized e t) \<noteq> execs t"
  shows "\<exists>k. 0 \<le> k \<and> k < MaxResizeStages \<and> execs (orchestrateResized e t) = execs t @ [resize_args k t]
    \<and> (k = 0 \<longrightarrow> mstate t = MonitorStateIdle)
    \<and> (k > 0 \<longrightarrow> ResizeStage (mstate t) = (k - 1, True) \<and> hasAllPeersReachedStage (k - 1) t)"
proof -
  have "quiet t t' \<Longrightarrow> execs t' = execs t" for t' by (auto simp: quiet_def execs_def)
  then obtain k where k: "grows_stage k t (orchestrateResized e t)" using orchestrateResized_move [OF assms(1)] assms(2) by blast
  then have "execs (orchestrateResized e t) = execs t @ [resize_args k t]" by (auto simp: grows_stage_def execs_def)
  then show ?thesis using k unfolding grows_stage_def by blast
qed

section \<open>Witnesses\<close>

definition demo_resize :: "string \<Rightarrow> imon" where
  "demo_resize n = (demo_manager n)\<lparr>i_instStatus := [(''n1'', demo_status\<lparr>st_Avail := StUp\<rparr>), (''n2'', demo_status)]\<rparr>"

text \<open>A stage grown on a node, from the work that starts it to the end of its command.\<close>

definition demo_start_stage :: "string \<Rightarrow> (string \<Rightarrow> imon) \<Rightarrow> string \<Rightarrow> imon" where
  "demo_start_stage n c = c(n := orchestrateResized demo_env (c n))"

definition demo_end_stage :: "string \<Rightarrow> monitor_state \<Rightarrow> (string \<Rightarrow> imon) \<Rightarrow> string \<Rightarrow> imon" where
  "demo_end_stage n s c = c(n := actionEnded demo_env MonitorStateResizeProgress s
     ((c n)\<lparr>i_cmds := remove1 (CmdOrchestrate MonitorStateResizeProgress s) (i_cmds (c n))\<rparr>))"

definition demo_stage0 :: "string \<Rightarrow> imon" where
  "demo_stage0 = demo_end_stage ''n2'' MonitorStateResizeStage0 (demo_start_stage ''n2''
     (demo_end_stage ''n1'' MonitorStateResizeStage0 (demo_start_stage ''n1'' demo_resize)))"

definition demo_stage1 :: "string \<Rightarrow> imon" where
  "demo_stage1 = demo_start_stage ''n1'' (demo_stage0(''n1'' := (demo_stage0 ''n1'')
     \<lparr>i_instMonitor := AList.update ''n2'' (i_state (demo_stage0 ''n2'')) (i_instMonitor (demo_stage0 ''n1''))\<rparr>))"


lemma demo_fresh: "fresh_cluster (set demo_nodes) demo_resize"
  by (auto simp: fresh_cluster_def demo_resize_def demo_sel start_state_sel wf_map_def demo_nodes_def)

lemma demo_start_step: "n \<in> set demo_nodes \<Longrightarrow> cluster_step (set demo_nodes) orchestrateResized c (demo_start_stage n c)"
  by (simp add: demo_start_stage_def cluster_step.works)

lemma demo_end_step:
  assumes "n \<in> set demo_nodes" and "CmdOrchestrate MonitorStateResizeProgress s \<in> set (i_cmds (c n))"
  shows "cluster_step (set demo_nodes) orchestrateResized c (demo_end_stage n s c)"
  unfolding demo_end_stage_def using assms by (simp add: cluster_step.ends)

lemma demo_reach: "(cluster_step (set demo_nodes) orchestrateResized)\<^sup>*\<^sup>* demo_resize demo_stage1"
proof -
  let ?step = "cluster_step (set demo_nodes) orchestrateResized"
  let ?c1 = "demo_start_stage ''n1'' demo_resize" and ?s = MonitorStateResizeStage0
  let ?c2 = "demo_end_stage ''n1'' ?s ?c1"
  let ?c3 = "demo_start_stage ''n2'' ?c2"
  let ?c5 = "demo_stage0(''n1'' := (demo_stage0 ''n1'')
     \<lparr>i_instMonitor := AList.update ''n2'' (i_state (demo_stage0 ''n2'')) (i_instMonitor (demo_stage0 ''n1''))\<rparr>)"
  have n: "''n1'' \<in> set demo_nodes" "''n2'' \<in> set demo_nodes" by (simp_all add: demo_nodes_def)
  have cmds: "CmdOrchestrate MonitorStateResizeProgress ?s \<in> set (i_cmds (?c1 ''n1''))"
    "CmdOrchestrate MonitorStateResizeProgress ?s \<in> set (i_cmds (?c3 ''n2''))" by code_simp+
  have "PubInstanceMonitorUpdated (i_state (demo_stage0 ''n2'')) \<in> set (i_trace (demo_stage0 ''n2''))" by code_simp
  then have pub: "i_state (demo_stage0 ''n2'') \<in> published (demo_stage0 ''n2'')" by (simp add: published_def)
  have "?step demo_resize ?c1" "?step ?c2 ?c3" "?step ?c5 demo_stage1"
    unfolding demo_stage1_def by (rule demo_start_step, fact n)+
  moreover have "?step ?c1 ?c2" by (rule demo_end_step, fact n, fact cmds)
  moreover have "?step ?c3 demo_stage0" unfolding demo_stage0_def by (rule demo_end_step, fact n, fact cmds)
  moreover have "?step demo_stage0 ?c5" by (rule cluster_step.hears) (use n pub in simp_all)
  ultimately show ?thesis by (meson rtranclp.rtrancl_refl rtranclp.rtrancl_into_rtrancl)
qed

lemma demo_tried: "tried (demo_stage1 ''n1'') (0 + 1)"
proof -
  have "Exec [''web'', ''instance'', ''resize'', ''--stage'', Itoa (0 + 1)] 0 \<in> set (i_trace (demo_stage1 ''n1''))" by code_simp
  then show ?thesis unfolding tried_def by blast
qed

theorem resize_lockstep_witness: "grown (demo_stage1 ''n2'') 0 \<or> settled (demo_stage1 ''n2'')"
  by (rule resize_lockstep [OF demo_fresh demo_reach, of "''n1''"]) (simp_all add: demo_nodes_def demo_tried [simplified])

theorem resize_stage_bounds_witness:
  "\<exists>k. 0 \<le> k \<and> k < MaxResizeStages
    \<and> execs (orchestrateResized demo_env (demo_resize ''n2'')) = execs (demo_resize ''n2'') @ [resize_args k (demo_resize ''n2'')]"
proof -
  have "execs (orchestrateResized demo_env (demo_resize ''n2'')) \<noteq> execs (demo_resize ''n2'')" by code_simp
  from resize_stage_bounds [OF _ this] show ?thesis by auto
qed

end
