(* ===== verification/Imon_Restarted.thy ===== *)
theory Imon_Restarted
  imports Imon_Cluster Imon_Converge Imon_Start_Stop
begin

text \<open>
  The rolling restart (\<open>orchestration_restarted.go\<close>), the freeze and thaw of an object
  (\<open>orchestration_frozen.go\<close>, \<open>orchestration_unfrozen.go\<close>), the abort of an orchestration
  (\<open>orchestration_aborted.go\<close>) and the shutdown of a node
  (\<open>orchestration_local_expect_shutdown.go\<close>), of \<open>daemon/imon\<close>. The rolling restart is proved to
  take at most one instance down at a time, on the steps of \<open>Imon_Cluster\<close>.
\<close>

section \<open>Restarted\<close>

definition getPriors :: "imon \<Rightarrow> string list" where
  "getPriors t = takeWhile (\<lambda>candidate. i_localhost t \<noteq> candidate) (sortCandidates t (i_scopeNodes t))"

definition restartedOptions_Force :: "imon \<Rightarrow> bool" where
  "restartedOptions_Force t =
    (case mon_GlobalExpectOptions (i_state t) of GeoRestarted force \<Rightarrow> force | _ \<Rightarrow> False)"

definition restartedWaitPriors :: "imon \<Rightarrow> imon" where
  "restartedWaitPriors t =
    (let t = t\<lparr>i_priors := getPriors t\<rparr>
     in set_mstate (if i_priors t = [] then MonitorStateReady else MonitorStateWaitPriors) (t\<lparr>i_change := True\<rparr>))"

definition orchestrateRestartedOnIdle :: "imon \<Rightarrow> imon" where
  "orchestrateRestartedOnIdle t =
    (case map_of (i_instStatus t) (i_localhost t) of
       None \<Rightarrow> restartedWaitPriors t
     | Some st \<Rightarrow>
         if st_Avail st \<in> {StWarn, StUp} then restartedWaitPriors t
         else if st_Avail st = StStandbyUp then
           (if \<not> restartedOptions_Force t then orch_done t else restartedWaitPriors t)
         else orch_done t)"

definition orchestrateRestartedOnReady :: "env \<Rightarrow> imon \<Rightarrow> imon" where
  "orchestrateRestartedOnReady e t =
    (case map_of (i_instStatus t) (i_localhost t) of
       None \<Rightarrow> t
     | Some st \<Rightarrow>
         if st_Avail st \<in> {StWarn, StUp, StStandbyUp} then
           let t = createPendingWithDuration e stopDuration (enableMonitor t)
           in if restartedOptions_Force t then
                queueAction crmShutdown MonitorStateShutdownProgress MonitorStateShutdownSuccess MonitorStateShutdownFailure e t
              else
                queueAction crmStop MonitorStateStopProgress MonitorStateStopSuccess MonitorStateStopFailure e t
         else doneAndIdle t)"

text \<open>
  The loop over the priors: a prior with no monitor is forgotten, one restarted or done is passed,
  any other ends the loop. The boolean says the loop ran to its end.
\<close>

fun wait_priors :: "(string, monitor) gomap \<Rightarrow> string list \<Rightarrow> string list \<Rightarrow> bool \<times> string list" where
  "wait_priors mons priors [] = (True, priors)"
| "wait_priors mons priors (nodename # l) =
    (case map_of mons nodename of
       None \<Rightarrow> wait_priors mons (Remove priors nodename) l
     | Some m \<Rightarrow>
         if mon_State m = MonitorStateRestarted \<or> mon_OrchestrationIsDone m then wait_priors mons priors l
         else (False, priors))"

definition orchestrateRestartedOnWaitPriors :: "imon \<Rightarrow> imon" where
  "orchestrateRestartedOnWaitPriors t =
    (case wait_priors (i_instMonitor t) (i_priors t) (i_priors t) of
       (False, priors) \<Rightarrow> t\<lparr>i_priors := priors\<rparr>
     | (True, _) \<Rightarrow> set_mstate MonitorStateReady (t\<lparr>i_change := True, i_priors := []\<rparr>))"

definition orchestrateRestartedOnStopped :: "env \<Rightarrow> imon \<Rightarrow> imon" where
  "orchestrateRestartedOnStopped e t =
    doTransitionAction crmStart MonitorStateStartProgress MonitorStateRestarted MonitorStateStartFailure e t"

definition orchestrateRestartedOnShutdown :: "env \<Rightarrow> imon \<Rightarrow> imon" where
  "orchestrateRestartedOnShutdown e t =
    doTransitionAction crmStartStandby MonitorStateStartProgress MonitorStateRestarted MonitorStateStartFailure e t"

definition orchestrateRestartedOnRestarted :: "imon \<Rightarrow> imon" where
  "orchestrateRestartedOnRestarted t =
    (if list_all (\<lambda>(_, m). mon_OrchestrationIsDone m
          \<or> mon_State m \<in> {MonitorStateRestarted, MonitorStateStartFailure, MonitorStateStopFailure}) (i_instMonitor t)
     then clearPending (doneAndIdle (enableMonitor t)) else t)"

definition orchestrateRestarted :: "env \<Rightarrow> imon \<Rightarrow> imon" where
  "orchestrateRestarted e t =
    (if mstate t = MonitorStateIdle then orchestrateRestartedOnIdle t
     else if mstate t = MonitorStateWaitPriors then orchestrateRestartedOnWaitPriors t
     else if mstate t = MonitorStateReady then orchestrateRestartedOnReady e t
     else if mstate t = MonitorStateShutdownSuccess then orchestrateRestartedOnShutdown e t
     else if mstate t = MonitorStateStopSuccess then orchestrateRestartedOnStopped e t
     else if mstate t = MonitorStateRestarted then orchestrateRestartedOnRestarted t
     else t)"

section \<open>Frozen and unfrozen\<close>

definition frozenClearIfReached :: "imon \<Rightarrow> bool \<times> imon" where
  "frozenClearIfReached t =
    (if IsFrozen (localStatus t) then (True, clearPending (doneAndIdle t)) else (False, t))"

definition frozenFromIdle :: "env \<Rightarrow> imon \<Rightarrow> imon" where
  "frozenFromIdle e t =
    (case frozenClearIfReached t of
       (True, t) \<Rightarrow> t
     | (False, t) \<Rightarrow> doTransitionAction freeze MonitorStateFreezeProgress MonitorStateIdle MonitorStateFreezeFailure e t)"

definition orchestrateFrozen :: "env \<Rightarrow> imon \<Rightarrow> imon" where
  "orchestrateFrozen e t =
    (if MonitorState_IsOneOf (mstate t) [MonitorStateIdle, MonitorStateStartFailure, MonitorStateStopFailure,
          MonitorStatePurgeFailed, MonitorStateProvisionFailure, MonitorStateUnprovisionFailure, MonitorStateReady]
     then frozenFromIdle e t else t)"

definition unfrozenClearIfReached :: "imon \<Rightarrow> bool \<times> imon" where
  "unfrozenClearIfReached t =
    (if IsUnfrozen (localStatus t) then (True, clearPending (doneAndIdle t)) else (False, t))"

definition UnfrozenFromIdle :: "env \<Rightarrow> imon \<Rightarrow> imon" where
  "UnfrozenFromIdle e t =
    (case unfrozenClearIfReached t of
       (True, t) \<Rightarrow> t
     | (False, t) \<Rightarrow> doTransitionAction unfreeze MonitorStateUnfreezeProgress MonitorStateIdle MonitorStateUnfreezeFailure e t)"

definition orchestrateUnfrozen :: "env \<Rightarrow> imon \<Rightarrow> imon" where
  "orchestrateUnfrozen e t =
    (if MonitorState_IsOneOf (mstate t) [MonitorStateIdle, MonitorStateStartFailure, MonitorStateStartSuccess,
          MonitorStateStopFailure, MonitorStateStopSuccess, MonitorStatePurgeFailed, MonitorStateProvisionFailure,
          MonitorStateProvisionSuccess, MonitorStateUnprovisionFailure, MonitorStateUnprovisionSuccess, MonitorStateReady]
     then UnfrozenFromIdle e t else t)"

section \<open>Aborted\<close>

definition orchestrateAborted :: "env \<Rightarrow> imon \<Rightarrow> imon" where
  "orchestrateAborted e t =
    (let t = publishOrchestrationAborted t
     in updateIfChange e (t\<lparr>i_change := True,
          i_state := (i_state t)\<lparr>mon_GlobalExpectOptions := GeoNil, mon_OrchestrationIsDone := True\<rparr>\<rparr>))"

section \<open>Shutdown of the node\<close>

definition isLocalShutdown :: "imon \<Rightarrow> bool" where
  "isLocalShutdown t = status_Is (st_Avail (localStatus t)) [StDown, StStandbyDown]"

definition doShutdown :: "env \<Rightarrow> imon \<Rightarrow> imon" where
  "doShutdown e t =
    (if isLocalShutdown t then transitionTo e MonitorStateShutdownSuccess t
     else case setWaitChildren t of
       (True, t) \<Rightarrow> t
     | (False, t) \<Rightarrow>
         queueAction crmShutdown MonitorStateShutdownProgress MonitorStateShutdownSuccess MonitorStateShutdownFailure e t)"

definition orchestrateLocalExpectShutdown :: "env \<Rightarrow> imon \<Rightarrow> imon" where
  "orchestrateLocalExpectShutdown e t =
    (if mstate t = MonitorStateIdle then doShutdown e t
     else if mstate t = MonitorStateWaitChildren then snd (setWaitChildren t)
     else t)"


interpretation crm_start_standby: forks crmStartStandby "\<lambda>t. inst_args t [''startstandby'']"
  by (intro forks_intro) (simp_all add: crmStartStandby_def)

section \<open>The rolling restart takes one instance down at a time\<close>

text \<open>
  The work of a node in a restart: \<open>orchestrate\<close> does nothing on an instance done with the
  orchestration, and publishes what the work changed.
\<close>

definition restart_work :: "env \<Rightarrow> imon \<Rightarrow> imon" where
  "restart_work e t =
    (if mon_OrchestrationIsDone (i_state t) then t else updateIfChange e (orchestrateRestarted e t))"

text \<open>An instance left when it was asked to stop, and is restarted when a start succeeded on it.\<close>

fun leaves :: "effect \<Rightarrow> bool" where
  "leaves (Exec (p # i # a # r) code) = (i = ''instance'' \<and> a \<in> {''stop'', ''shutdown''})"
| "leaves _ = False"

fun returns :: "effect \<Rightarrow> bool" where
  "returns (Exec (p # i # a # r) code) = (i = ''instance'' \<and> a \<in> {''start'', ''startstandby''} \<and> code = 0)"
| "returns _ = False"

definition leaving :: "imon \<Rightarrow> bool" where
  "leaving t \<longleftrightarrow> list_ex leaves (i_trace t)"

definition restarted :: "imon \<Rightarrow> bool" where
  "restarted t \<longleftrightarrow> list_ex returns (i_trace t)"

definition away_states :: "monitor_state list" where
  "away_states =
    [MonitorStateStopProgress, MonitorStateStopSuccess, MonitorStateStopFailure,
     MonitorStateShutdownProgress, MonitorStateShutdownSuccess, MonitorStateShutdownFailure,
     MonitorStateRestarted, MonitorStateStartFailure]"

definition stop_ends :: "monitor_state list" where
  "stop_ends =
    [MonitorStateStopSuccess, MonitorStateStopFailure, MonitorStateShutdownSuccess, MonitorStateShutdownFailure]"

text \<open>
  What holds on a node along a rolling restart: it is away from its stop to its restart, it is done
  or says it is restarted only after the start succeeded, and it waits for the nodes before it.
\<close>

definition rolling :: "imon \<Rightarrow> bool" where
  "rolling t \<longleftrightarrow>
    mon_OrchestrationID (i_state t) \<noteq> 0
    \<and> (leaving t \<longrightarrow> mstate t \<in> set away_states \<or> mon_OrchestrationIsDone (i_state t))
    \<and> (leaving t \<and> mon_OrchestrationIsDone (i_state t) \<longrightarrow> restarted t)
    \<and> (mstate t = MonitorStateRestarted \<longrightarrow> restarted t)
    \<and> (\<forall>m \<in> published t. (mon_State m = MonitorStateRestarted \<longrightarrow> restarted t)
        \<and> (mon_OrchestrationIsDone m \<longrightarrow> mon_OrchestrationIsDone (i_state t)))
    \<and> (\<forall>s s'. CmdOrchestrate s s' \<in> set (i_cmds t) \<longrightarrow> s' \<in> set stop_ends)
    \<and> (mstate t = MonitorStateWaitPriors \<longrightarrow> i_priors t = getPriors t)"

lemma getPriors_core: "core t = core t' \<Longrightarrow> getPriors t = getPriors t'"
proof (rule core_arg)
  have "sortCandidates (core u) l = sortCandidates u l" for u l
    by (simp add: sortCandidates_def objActor_def core_sel sortWithNodesOrderPolicy_def sortWithSpreadPolicy_def
        sortWithScorePolicy_def sortWithShiftPolicy_def sortWithLastStartPolicy_def cong: policy.case_cong)
  then show "getPriors (core u) = getPriors u" for u by (simp add: getPriors_def core_sel)
qed

lemma rolling_publish:
  assumes "rolling t"
  shows "rolling (updateIfChange e t)"
proof -
  have p: "getPriors (updateIfChange e t) = getPriors t" by (rule getPriors_core) simp
  show ?thesis
  proof (cases rule: trace_updateIfChange [of e t])
    case none
    then show ?thesis using assms p by (simp add: rolling_def leaving_def restarted_def published_def)
  next
    case (one m)
    then have "published (updateIfChange e t) = insert m (published t)" "leaving (updateIfChange e t) = leaving t"
      "restarted (updateIfChange e t) = restarted t"
      by (auto simp: published_def leaving_def restarted_def)
    then show ?thesis using assms p one(2,3) by (simp add: rolling_def)
  qed
qed


lemma rolling_quiet:
  assumes "rolling t" and "\<not> leaving t" and "i_trace t' = i_trace t" and "i_cmds t' = i_cmds t"
    and "mon_OrchestrationIsDone (i_state t) \<Longrightarrow> mon_OrchestrationIsDone (i_state t')"
    and "mon_OrchestrationID (i_state t') = mon_OrchestrationID (i_state t)"
    and "mstate t' \<noteq> MonitorStateRestarted"
    and "mstate t' = MonitorStateWaitPriors \<Longrightarrow> i_priors t' = getPriors t'"
  shows "rolling t'"
  using assms by (auto simp: rolling_def leaving_def restarted_def published_def)

lemma not_leaving:
  "rolling t \<Longrightarrow> \<not> mon_OrchestrationIsDone (i_state t) \<Longrightarrow> mstate t \<notin> set away_states \<Longrightarrow> \<not> leaving t"
  by (auto simp: rolling_def)

lemma rolling_restartedWaitPriors:
  assumes "rolling t" and "\<not> leaving t"
  shows "rolling (restartedWaitPriors t)"
proof (rule rolling_quiet [OF assms])
  have "getPriors (restartedWaitPriors t) = getPriors t"
    by (simp add: getPriors_def restartedWaitPriors_def Let_def sortCandidates_def objActor_def
        sortWithNodesOrderPolicy_def sortWithSpreadPolicy_def sortWithScorePolicy_def sortWithShiftPolicy_def
        sortWithLastStartPolicy_def cong: policy.case_cong)
  then show "i_priors (restartedWaitPriors t) = getPriors (restartedWaitPriors t)"
    by (simp add: restartedWaitPriors_def Let_def)
qed (simp_all add: restartedWaitPriors_def Let_def)

lemma rolling_onIdle:
  assumes "rolling t" and "\<not> mon_OrchestrationIsDone (i_state t)" and "mstate t = MonitorStateIdle"
  shows "rolling (orchestrateRestartedOnIdle t)"
proof -
  have l: "\<not> leaving t" using not_leaving [OF assms(1,2)] assms(3) by (simp add: away_states_def)
  have "rolling (orch_done t)"
    by (rule rolling_quiet [OF assms(1) l]) (simp_all add: assms(3), simp_all add: assms(2) orch_done_def)
  with rolling_restartedWaitPriors [OF assms(1) l] show ?thesis
    by (simp add: orchestrateRestartedOnIdle_def split: option.splits)
qed

lemma wait_priors_known:
  assumes "set l \<subseteq> fst ` set mons"
  shows "wait_priors mons priors l
    = (list_all (\<lambda>n. case map_of mons n of None \<Rightarrow> True
         | Some m \<Rightarrow> mon_State m = MonitorStateRestarted \<or> mon_OrchestrationIsDone m) l, priors)"
  using assms
proof (induction l)
  case (Cons n l)
  then have "map_of mons n \<noteq> None" by (simp add: map_of_eq_None_iff)
  then show ?case using Cons by auto
qed simp

lemma getPriors_simps [simp]:
  "getPriors (t\<lparr>i_priors := l\<rparr>) = getPriors t" "getPriors (t\<lparr>i_cmds := l'\<rparr>) = getPriors t"
  by (simp_all add: getPriors_def sortCandidates_def objActor_def sortWithNodesOrderPolicy_def sortWithSpreadPolicy_def
      sortWithScorePolicy_def sortWithShiftPolicy_def sortWithLastStartPolicy_def cong: policy.case_cong)

lemma rolling_onWaitPriors:
  assumes "rolling t" and "\<not> mon_OrchestrationIsDone (i_state t)" and "mstate t = MonitorStateWaitPriors"
    and "set (getPriors t) \<subseteq> fst ` set (i_instMonitor t)"
  shows "rolling (orchestrateRestartedOnWaitPriors t)"
proof -
  have l: "\<not> leaving t" using not_leaving [OF assms(1,2)] assms(3) by (simp add: away_states_def)
  have p: "i_priors t = getPriors t" using assms(1,3) by (simp add: rolling_def)
  have "rolling (t\<lparr>i_priors := getPriors t\<rparr>)"
    by (rule rolling_quiet [OF assms(1) l]) (simp_all add: assms(3))
  moreover have "rolling (set_mstate MonitorStateReady (t\<lparr>i_change := True, i_priors := []\<rparr>))"
    by (rule rolling_quiet [OF assms(1) l]) simp_all
  ultimately show ?thesis
    using p wait_priors_known [OF assms(4), of "getPriors t"]
    by (simp add: orchestrateRestartedOnWaitPriors_def split: bool.splits)
qed


lemma rolling_stop:
  assumes "rolling t" and "\<not> leaving t" and "\<not> mon_OrchestrationIsDone (i_state t)" and "\<not> e_done e"
    and r: "runs act args" and "\<And>u x. leaves (Exec (args u) x) \<and> \<not> returns (Exec (args u) x)"
    and "a \<in> {MonitorStateStopProgress, MonitorStateShutdownProgress}" and "{b, c} \<subseteq> set stop_ends"
  shows "rolling (queueAction act a b c e t) \<and> leaving (queueAction act a b c e t)"
proof -
  let ?q = "queueAction act a b c e t"
  obtain m x where q: "i_trace ?q = i_trace t @ [PubInstanceMonitorUpdated m, Exec (args (transitionTo e a t)) x]"
    "mon_State m = a" "mon_OrchestrationIsDone m = mon_OrchestrationIsDone (i_state t)"
    "i_cmds ?q = i_cmds t @ [CmdOrchestrate a (if x = 0 then b else c)]"
    "core ?q = core (set_mstate a (t\<lparr>i_cmds := i_cmds ?q\<rparr>))"
    by (rule queueAction_runs [OF r assms(4)])
  have s: "mstate ?q = a" "mon_OrchestrationIsDone (i_state ?q) = mon_OrchestrationIsDone (i_state t)"
    "mon_OrchestrationID (i_state ?q) = mon_OrchestrationID (i_state t)"
    using core_mstate [OF q(5)] arg_cong [OF q(5), of "\<lambda>u. mon_OrchestrationID (i_state u)"] arg_cong [OF q(5), of "\<lambda>u. mon_OrchestrationIsDone (i_state u)"] by (simp_all add: core_sel)
  have t: "published ?q = insert m (published t)" "leaving ?q" "restarted ?q = restarted t"
    using q(1) assms(6) [of "transitionTo e a t" x] by (auto simp: published_def leaving_def restarted_def)
  have "a \<in> set away_states" "a \<noteq> MonitorStateRestarted" "a \<noteq> MonitorStateWaitPriors"
    using assms(7) by (auto simp: away_states_def)
  moreover have "(if x = 0 then b else c) \<in> set stop_ends" using assms(8) by simp
  ultimately show ?thesis
    using assms(1-3) q(2-4) s t by (auto simp: rolling_def)
qed

lemma runs_restart:
  "runs crmStop (\<lambda>t. stopArgs t [])" "runs crmShutdown (\<lambda>t. inst_args t [''shutdown''])"
  "runs crmStart (\<lambda>t. inst_args t [''start''])" "runs crmStartStandby (\<lambda>t. inst_args t [''startstandby''])"
  by (rule runs_crmAction, simp add: crmStop_def crmShutdown_def crmStart_def crmStartStandby_def)+

lemma doneAndIdle_frame:
  "mstate (doneAndIdle t) = MonitorStateIdle" "i_cmds (doneAndIdle t) = i_cmds t"
  "i_instMonitor (doneAndIdle t) = i_instMonitor t" "i_localhost (doneAndIdle t) = i_localhost t"
  "mon_OrchestrationIsDone (i_state (doneAndIdle t))
    \<longleftrightarrow> mon_OrchestrationID (i_state t) \<noteq> 0 \<or> mon_OrchestrationIsDone (i_state t)"
  "mon_OrchestrationID (i_state (doneAndIdle t)) = mon_OrchestrationID (i_state t)"
  by (simp_all add: doneAndIdle_def Let_def orch_done_def)

lemma rolling_onReady:
  assumes "rolling t" and "\<not> mon_OrchestrationIsDone (i_state t)" and "mstate t = MonitorStateReady" and "\<not> e_done e"
  shows "rolling (orchestrateRestartedOnReady e t)"
proof -
  have l: "\<not> leaving t" using not_leaving [OF assms(1,2)] assms(3) by (simp add: away_states_def)
  let ?u = "createPendingWithDuration e stopDuration (enableMonitor t)"
  have u: "rolling ?u" "\<not> leaving ?u" "\<not> mon_OrchestrationIsDone (i_state ?u)"
    using l assms(2,3) by (auto intro!: rolling_quiet [OF assms(1) l] simp: createPendingWithDuration_def leaving_def)
  have "rolling (queueAction crmShutdown MonitorStateShutdownProgress MonitorStateShutdownSuccess MonitorStateShutdownFailure e ?u)"
    by (rule rolling_stop [OF u assms(4) runs_restart(2), THEN conjunct1]) (simp_all add: inst_args_def stop_ends_def)
  moreover have "rolling (queueAction crmStop MonitorStateStopProgress MonitorStateStopSuccess MonitorStateStopFailure e ?u)"
    by (rule rolling_stop [OF u assms(4) runs_restart(1), THEN conjunct1])
      (simp_all add: inst_args_def stopArgs_def stop_ends_def)
  moreover have "rolling (doneAndIdle t)"
    by (rule rolling_quiet [OF assms(1) l]) (simp_all add: doneAndIdle_frame assms(2))
  ultimately show ?thesis
    using assms(1) by (simp add: orchestrateRestartedOnReady_def Let_def split: option.splits)
qed


lemma rolling_start:
  assumes "rolling t" and "\<not> mon_OrchestrationIsDone (i_state t)" and "\<not> e_done e" and r: "runs act args"
    and "\<And>u x. \<not> leaves (Exec (args u) x) \<and> returns (Exec (args u) 0)"
  shows "let q = doTransitionAction act MonitorStateStartProgress MonitorStateRestarted MonitorStateStartFailure e t
    in rolling q \<and> leaving q = leaving t \<and> mstate q \<noteq> MonitorStateReady"
proof -
  let ?q = "doTransitionAction act MonitorStateStartProgress MonitorStateRestarted MonitorStateStartFailure e t"
  let ?u = "transitionTo e MonitorStateStartProgress t"
  obtain m m' x where q:
    "i_trace ?q = i_trace t @ [PubInstanceMonitorUpdated m, Exec (args ?u) x, PubInstanceMonitorUpdated m']"
    "mon_State m = MonitorStateStartProgress" "mon_OrchestrationIsDone m = mon_OrchestrationIsDone (i_state t)"
    "mon_State m' = (if x = 0 then MonitorStateRestarted else MonitorStateStartFailure)"
    "mon_OrchestrationIsDone m' = mon_OrchestrationIsDone (i_state t)"
    "core ?q = core (set_mstate (if x = 0 then MonitorStateRestarted else MonitorStateStartFailure) t)"
    by (rule doTransitionAction_runs [OF r assms(3)])
  have s: "mstate ?q = (if x = 0 then MonitorStateRestarted else MonitorStateStartFailure)"
    "mon_OrchestrationIsDone (i_state ?q) = mon_OrchestrationIsDone (i_state t)" "i_cmds ?q = i_cmds t"
    "mon_OrchestrationID (i_state ?q) = mon_OrchestrationID (i_state t)"
    using core_mstate [OF q(6)] arg_cong [OF q(6), of "\<lambda>u. mon_OrchestrationID (i_state u)"] arg_cong [OF q(6), of "\<lambda>u. mon_OrchestrationIsDone (i_state u)"] core_cmds [OF q(6)]
    by (simp_all add: core_sel)
  have "\<not> leaves (Exec (args ?u) x)" "x = 0 \<Longrightarrow> returns (Exec (args ?u) x)" using assms(5) by blast+
  then have t: "published ?q = {m, m'} \<union> published t" "leaving ?q = leaving t" "restarted t \<Longrightarrow> restarted ?q"
    "x = 0 \<Longrightarrow> restarted ?q"
    using q(1) by (auto simp: published_def leaving_def restarted_def)
  have "rolling ?q" using assms(1,2) q(2-5) s t unfolding rolling_def by (auto simp: away_states_def)
  then show ?thesis using s(1) t(2) by (simp add: Let_def)
qed

lemma rolling_onRestarted:
  assumes "rolling t" and "mstate t = MonitorStateRestarted"
  shows "rolling (orchestrateRestartedOnRestarted t)"
proof -
  let ?u = "clearPending (doneAndIdle (enableMonitor t))"
  have "restarted t" using assms by (simp add: rolling_def)
  moreover have "i_trace ?u = i_trace t" "mstate ?u = MonitorStateIdle" "i_cmds ?u = i_cmds t"
    "mon_OrchestrationIsDone (i_state ?u)" "mon_OrchestrationID (i_state ?u) = mon_OrchestrationID (i_state t)"
    using assms(1) by (simp_all add: clearPending_def doneAndIdle_frame rolling_def split: option.splits)
  ultimately have "rolling ?u"
    using assms by (auto simp: rolling_def leaving_def restarted_def published_def)
  then show ?thesis using assms(1) by (simp add: orchestrateRestartedOnRestarted_def)
qed


lemma rolling_onStopped:
  assumes "rolling t" and "\<not> mon_OrchestrationIsDone (i_state t)" and "\<not> e_done e"
  shows "rolling (orchestrateRestartedOnStopped e t) \<and> leaving (orchestrateRestartedOnStopped e t) = leaving t
      \<and> mstate (orchestrateRestartedOnStopped e t) \<noteq> MonitorStateReady"
    "rolling (orchestrateRestartedOnShutdown e t) \<and> leaving (orchestrateRestartedOnShutdown e t) = leaving t
      \<and> mstate (orchestrateRestartedOnShutdown e t) \<noteq> MonitorStateReady"
  using rolling_start [OF assms runs_restart(3)] rolling_start [OF assms runs_restart(4)]
  by (simp_all add: Let_def inst_args_def orchestrateRestartedOnStopped_def orchestrateRestartedOnShutdown_def)

lemma rolling_work:
  assumes "rolling t" and "\<not> e_done e" and "set (getPriors t) \<subseteq> fst ` set (i_instMonitor t)"
  shows "rolling (restart_work e t)"
proof (cases "mon_OrchestrationIsDone (i_state t)")
  case False
  have "rolling (orchestrateRestarted e t)"
    unfolding orchestrateRestarted_def
    using rolling_onIdle [OF assms(1) False] rolling_onWaitPriors [OF assms(1) False _ assms(3)]
      rolling_onReady [OF assms(1) False _ assms(2)] rolling_onStopped [OF assms(1) False assms(2)]
      rolling_onRestarted [OF assms(1)] assms(1)
    by simp
  then show ?thesis using False by (simp add: restart_work_def rolling_publish)
qed (simp add: restart_work_def assms(1))

lemma leaving_publish: "leaving (updateIfChange e t) = leaving t"
  by (cases rule: trace_updateIfChange [of e t]) (simp_all add: leaving_def)

text \<open>A node gets ready, or leaves, only once it saw every node before it restarted or done.\<close>

definition prior_passed :: "imon \<Rightarrow> string \<Rightarrow> bool" where
  "prior_passed t p \<longleftrightarrow>
    (\<exists>m. (p, m) \<in> set (i_instMonitor t) \<and> (mon_State m = MonitorStateRestarted \<or> mon_OrchestrationIsDone m))"

lemma restart_work_passes:
  assumes "rolling t" and "\<not> e_done e" and "set (getPriors t) \<subseteq> fst ` set (i_instMonitor t)"
    and "mstate (restart_work e t) = MonitorStateReady \<or> leaving (restart_work e t)"
  shows "mstate t = MonitorStateReady \<or> leaving t \<or> (\<forall>p \<in> set (getPriors t). prior_passed t p)"
proof (cases "mon_OrchestrationIsDone (i_state t)")
  case True
  then show ?thesis using assms(4) by (auto simp: restart_work_def)
next
  case False
  let ?o = "orchestrateRestarted e t"
  have o: "mstate ?o = MonitorStateReady \<or> leaving ?o"
    using assms(4) False by (simp add: restart_work_def leaving_publish)
  have idle: "mstate (orch_done t) = mstate t" "leaving (orch_done t) = leaving t"
    "leaving (restartedWaitPriors t) = leaving t"
    "mstate (restartedWaitPriors t) = MonitorStateReady \<Longrightarrow> getPriors t = []"
    by (simp_all add: leaving_def restartedWaitPriors_def Let_def split: if_splits)
  have "?o = t" if "mstate t \<noteq> MonitorStateIdle" "mstate t \<noteq> MonitorStateWaitPriors" "mstate t \<noteq> MonitorStateReady"
    "mstate t \<noteq> MonitorStateStopSuccess" "mstate t \<noteq> MonitorStateShutdownSuccess" "mstate t \<noteq> MonitorStateRestarted"
    using that by (simp only: orchestrateRestarted_def if_False)
  then consider "mstate t = MonitorStateIdle" | "mstate t = MonitorStateWaitPriors" | "mstate t = MonitorStateReady"
    | "mstate t = MonitorStateStopSuccess" | "mstate t = MonitorStateShutdownSuccess" | "mstate t = MonitorStateRestarted"
    | "?o = t" by blast
  then show ?thesis
  proof cases
    case 1
    then have "?o = orch_done t \<or> ?o = restartedWaitPriors t"
      by (simp add: orchestrateRestarted_def orchestrateRestartedOnIdle_def split: option.splits)
    then show ?thesis using o idle 1 by auto
  next
    case 2
    have p: "i_priors t = getPriors t" using assms(1) 2 by (simp add: rolling_def)
    let ?w = "list_all (\<lambda>n. case map_of (i_instMonitor t) n of None \<Rightarrow> True
         | Some m \<Rightarrow> mon_State m = MonitorStateRestarted \<or> mon_OrchestrationIsDone m) (getPriors t)"
    have "leaving ?o = leaving t" "mstate ?o = MonitorStateReady \<Longrightarrow> ?w"
      using 2 p wait_priors_known [OF assms(3), of "getPriors t"]
      by (auto simp: orchestrateRestarted_def orchestrateRestartedOnWaitPriors_def leaving_def split: bool.splits)
    moreover have "prior_passed t q" if w: "?w" and q: "q \<in> set (getPriors t)" for q
    proof -
      obtain m where m: "map_of (i_instMonitor t) q = Some m"
        using q assms(3) by (metis map_of_eq_None_iff not_None_eq subsetD)
      then show ?thesis using w q map_of_SomeD [OF m] by (force simp: prior_passed_def list_all_iff)
    qed
    ultimately show ?thesis using o by blast
  next
    case 4
    then show ?thesis using o rolling_onStopped(1) [OF assms(1) False assms(2)] by (simp add: orchestrateRestarted_def)
  next
    case 5
    then show ?thesis using o rolling_onStopped(2) [OF assms(1) False assms(2)] by (simp add: orchestrateRestarted_def)
  next
    case 6
    then have "leaving ?o = leaving t" "mstate ?o \<noteq> MonitorStateReady"
      by (simp_all add: orchestrateRestarted_def orchestrateRestartedOnRestarted_def leaving_def doneAndIdle_frame
          clearPending_def split: option.splits)
    then show ?thesis using o by simp
  qed (use o in auto)
qed


subsection \<open>The cluster\<close>

definition came_back :: "imon \<Rightarrow> bool" where
  "came_back t \<longleftrightarrow> (\<exists>m \<in> published t. mon_State m = MonitorStateRestarted \<or> mon_OrchestrationIsDone m)"

lemma came_back_restarted: "rolling t \<Longrightarrow> came_back t \<Longrightarrow> leaving t \<Longrightarrow> restarted t"
  by (auto simp: rolling_def came_back_def)

text \<open>The part of a manager the order of the nodes is computed from.\<close>

definition in_order :: "string list \<Rightarrow> string \<Rightarrow> imon \<Rightarrow> bool" where
  "in_order L n t \<longleftrightarrow>
    i_localhost t = n \<and> i_scopeNodes t = L \<and> as_PlacementPolicy (objActor t) = NodesOrder"

lemma getPriors_in_order: "in_order L n t \<Longrightarrow> getPriors t = takeWhile (\<lambda>m. n \<noteq> m) L"
  by (simp add: in_order_def getPriors_def sortCandidates_def sortWithNodesOrderPolicy_def)

definition one_away :: "string list \<Rightarrow> (string \<Rightarrow> imon) \<Rightarrow> bool" where
  "one_away L c \<longleftrightarrow>
    (\<forall>n\<in>set L. rolling (c n) \<and> in_order L n (c n) \<and> fst ` set (i_instMonitor (c n)) = set L - {n}
      \<and> (\<forall>(m, mon) \<in> set (i_instMonitor (c n)).
           mon_State mon = MonitorStateIdle \<and> \<not> mon_OrchestrationIsDone mon \<or> mon \<in> published (c m))
      \<and> (mstate (c n) = MonitorStateReady \<or> leaving (c n) \<longrightarrow> (\<forall>p \<in> set (takeWhile (\<lambda>m. n \<noteq> m) L). came_back (c p))))"

lemma one_awayD:
  assumes "one_away L c" and "n \<in> set L"
  shows "rolling (c n)" "in_order L n (c n)" "fst ` set (i_instMonitor (c n)) = set L - {n}"
    "(m, mon) \<in> set (i_instMonitor (c n)) \<Longrightarrow>
      mon_State mon = MonitorStateIdle \<and> \<not> mon_OrchestrationIsDone mon \<or> mon \<in> published (c m)"
    "mstate (c n) = MonitorStateReady \<or> leaving (c n) \<Longrightarrow> p \<in> set (takeWhile (\<lambda>m. n \<noteq> m) L) \<Longrightarrow> came_back (c p)"
proof -
  note b = bspec [OF assms(1) [unfolded one_away_def] assms(2)]
  show "rolling (c n)" "in_order L n (c n)" "fst ` set (i_instMonitor (c n)) = set L - {n}"
    by (rule b [THEN conjunct1], rule b [THEN conjunct2, THEN conjunct1], rule b [THEN conjunct2, THEN conjunct2, THEN conjunct1])
  note b' = b [THEN conjunct2, THEN conjunct2, THEN conjunct2]
  show "mon_State mon = MonitorStateIdle \<and> \<not> mon_OrchestrationIsDone mon \<or> mon \<in> published (c m)"
    if "(m, mon) \<in> set (i_instMonitor (c n))"
    using bspec [OF b' [THEN conjunct1] that] by (simp only: prod.case)
  show "came_back (c p)" if "mstate (c n) = MonitorStateReady \<or> leaving (c n)" "p \<in> set (takeWhile (\<lambda>m. n \<noteq> m) L)"
    using b' [THEN conjunct2] that by blast
qed

lemma one_away_update:
  assumes "one_away L c" and "n \<in> set L" and "rolling t'" and "in_order L n t'"
    and "published (c n) \<subseteq> published t'" and "fst ` set (i_instMonitor t') = set L - {n}"
    and "\<And>m mon. (m, mon) \<in> set (i_instMonitor t') \<Longrightarrow>
      mon_State mon = MonitorStateIdle \<and> \<not> mon_OrchestrationIsDone mon \<or> mon \<in> published (c m)"
    and "\<And>p. mstate t' = MonitorStateReady \<or> leaving t' \<Longrightarrow> p \<in> set (takeWhile (\<lambda>m. n \<noteq> m) L) \<Longrightarrow>
      mstate (c n) = MonitorStateReady \<or> leaving (c n) \<or> came_back (c p)"
  shows "one_away L (c(n := t'))"
  unfolding one_away_def
proof (intro ballI)
  let ?c = "c(n := t')"
  have pub: "published (c i) \<subseteq> published (?c i)" for i using assms(5) by simp
  then have came_back: "came_back (c i) \<Longrightarrow> came_back (?c i)" for i unfolding came_back_def by blast
  fix i assume i: "i \<in> set L"
  note d = one_awayD [OF assms(1) i]
  have "\<forall>(m, mon) \<in> set (i_instMonitor (?c i)).
      mon_State mon = MonitorStateIdle \<and> \<not> mon_OrchestrationIsDone mon \<or> mon \<in> published (?c m)"
  proof (intro ballI, rule prod.case_eq_if [THEN iffD2])
    fix x assume "x \<in> set (i_instMonitor (?c i))"
    then have "mon_State (snd x) = MonitorStateIdle \<and> \<not> mon_OrchestrationIsDone (snd x) \<or> snd x \<in> published (c (fst x))"
      using assms(7) [of "fst x" "snd x"] d(4) [of "fst x" "snd x"] by (cases "i = n") simp_all
    then show "mon_State (snd x) = MonitorStateIdle \<and> \<not> mon_OrchestrationIsDone (snd x) \<or> snd x \<in> published (?c (fst x))"
      using pub by blast
  qed
  moreover have "came_back (?c p)" if "mstate (?c i) = MonitorStateReady \<or> leaving (?c i)" "p \<in> set (takeWhile (\<lambda>m. i \<noteq> m) L)" for p
  proof (rule came_back, cases "i = n")
    case True
    then show "came_back (c p)" using that assms(8) [of p] d(5) [of p] by auto
  next
    case False
    then show "came_back (c p)" using that d(5) [of p] by simp
  qed
  moreover have "rolling (?c i)" "in_order L i (?c i)" "fst ` set (i_instMonitor (?c i)) = set L - {i}"
    using assms(3,4,6) d(1-3) by simp_all
  ultimately show "rolling (?c i) \<and> in_order L i (?c i) \<and> fst ` set (i_instMonitor (?c i)) = set L - {i}
      \<and> (\<forall>(m, mon) \<in> set (i_instMonitor (?c i)).
           mon_State mon = MonitorStateIdle \<and> \<not> mon_OrchestrationIsDone mon \<or> mon \<in> published (?c m))
      \<and> (mstate (?c i) = MonitorStateReady \<or> leaving (?c i) \<longrightarrow> (\<forall>p \<in> set (takeWhile (\<lambda>m. i \<noteq> m) L). came_back (?c p)))"
    by blast
qed


lemma published_mono: "grows t t' \<Longrightarrow> published t \<subseteq> published t'"
  by (auto simp: grows_def published_def)

lemma in_order_core:
  assumes "core t = core t'" and "in_order L n t"
  shows "in_order L n t'"
  using assms(2) coreD [OF assms(1)] by (simp add: in_order_def objActor_def)


lemma rolling_ended:
  assumes "rolling t" and "\<not> e_done e" and "CmdOrchestrate s s' \<in> set (i_cmds t)"
    and "t' = actionEnded e s s' (t\<lparr>i_cmds := remove1 (CmdOrchestrate s s') (i_cmds t)\<rparr>)"
  shows "rolling t'" "leaving t' = leaving t" "mstate t' = MonitorStateReady \<Longrightarrow> mstate t = MonitorStateReady"
    "published t \<subseteq> published t'" "i_instMonitor t' = i_instMonitor t" "in_order L n t \<Longrightarrow> in_order L n t'"
proof -
  let ?u = "t\<lparr>i_cmds := remove1 (CmdOrchestrate s s') (i_cmds t)\<rparr>"
  have "CmdOrchestrate x y \<in> set (i_cmds ?u) \<Longrightarrow> CmdOrchestrate x y \<in> set (i_cmds t)" for x y
    by (auto dest: set_remove1_subset [THEN subsetD])
  then have u: "rolling ?u"
    using assms(1) by (simp add: rolling_def leaving_def restarted_def published_def) blast
  have e: "s' \<in> set stop_ends" using assms(1,3) by (auto simp: rolling_def)
  obtain m where m: "i_trace (transitionTo e s' ?u) = i_trace ?u @ [PubInstanceMonitorUpdated m]" "mon_State m = s'"
    "mon_OrchestrationIsDone m = mon_OrchestrationIsDone (i_state ?u)" by (rule trace_transitionTo [OF assms(2)])
  have t: "published (transitionTo e s' ?u) = insert m (published ?u)" "leaving (transitionTo e s' ?u) = leaving ?u"
    "restarted (transitionTo e s' ?u) = restarted ?u"
    using m(1) by (auto simp: published_def leaving_def restarted_def)
  have s: "s' \<in> set away_states" "s' \<noteq> MonitorStateRestarted" "s' \<noteq> MonitorStateWaitPriors" "s' \<noteq> MonitorStateReady"
    using e by (auto simp: stop_ends_def away_states_def)
  have "rolling (transitionTo e s' ?u)"
    using u m(2,3) t s by (simp add: rolling_def)
  then show "rolling t'" using u assms(4) by (simp add: actionEnded_transition)
  show "leaving t' = leaving t" using t(2) assms(4) by (simp add: actionEnded_transition leaving_def)
  show "mstate t = MonitorStateReady" if "mstate t' = MonitorStateReady"
    using that s(4) assms(4) by (simp add: actionEnded_transition split: if_splits)
  show "published t \<subseteq> published t'" using t(1) assms(4) by (auto simp: actionEnded_transition published_def)
  show "i_instMonitor t' = i_instMonitor t" using assms(4) by (simp add: actionEnded_transition)
  show "in_order L n t'" if "in_order L n t"
    using that assms(4) by (simp add: actionEnded_transition in_order_def objActor_def)
qed

definition keeps :: "imon \<Rightarrow> imon \<Rightarrow> bool" where
  "keeps t t' \<longleftrightarrow>
    i_instMonitor t' = i_instMonitor t \<and> i_localhost t' = i_localhost t \<and> i_scopeNodes t' = i_scopeNodes t
    \<and> i_objStatus t' = i_objStatus t \<and> grows t t'"

lemma keeps_refl: "keeps t t"
  by (simp add: keeps_def)

lemma keeps_trans: "keeps t u \<Longrightarrow> keeps u v \<Longrightarrow> keeps t v"
  using grows_trans by (auto simp: keeps_def)

lemma keeps_core: "core t' = core (set_mstate s (t\<lparr>i_cmds := l\<rparr>)) \<Longrightarrow> grows t t' \<Longrightarrow> keeps t t'"
  using coreD [of t' "set_mstate s (t\<lparr>i_cmds := l\<rparr>)"] by (simp add: keeps_def)

lemma keeps_queueAction:
  assumes r: "runs act args" and "\<not> e_done e"
  shows "keeps t (queueAction act a b c e t)"
proof -
  obtain m code where q: "i_trace (queueAction act a b c e t)
      = i_trace t @ [PubInstanceMonitorUpdated m, Exec (args (transitionTo e a t)) code]"
    "core (queueAction act a b c e t) = core (set_mstate a (t\<lparr>i_cmds := i_cmds (queueAction act a b c e t)\<rparr>))"
    by (rule queueAction_runs [OF assms])
  show ?thesis by (rule keeps_core [OF q(2)]) (simp add: grows_def q(1))
qed

lemma keeps_doTransitionAction:
  assumes r: "runs act args" and "\<not> e_done e"
  shows "keeps t (doTransitionAction act a b c e t)"
proof -
  obtain m m' code where q: "i_trace (doTransitionAction act a b c e t) = i_trace t
      @ [PubInstanceMonitorUpdated m, Exec (args (transitionTo e a t)) code, PubInstanceMonitorUpdated m']"
    "core (doTransitionAction act a b c e t) = core (set_mstate (if code = 0 then b else c) t)"
    by (rule doTransitionAction_runs [OF assms])
  show ?thesis
    by (rule keeps_core [where l = "i_cmds t" and s = "if code = 0 then b else c"]) (simp_all add: grows_def q)
qed

lemma keeps_simple:
  "keeps t (orch_done t)" "keeps t (doneAndIdle t)" "keeps t (clearPending t)" "keeps t (enableMonitor t)"
  "keeps t (createPendingWithDuration e d t)" "keeps t (restartedWaitPriors t)" "keeps t (updateIfChange e t)"
  by (auto simp: keeps_def grows_refresh grows_updateIfChange restartedWaitPriors_def Let_def)
    (auto simp: grows_def orch_done_def doneAndIdle_def clearPending_def createPendingWithDuration_def Let_def
      split: option.splits)

lemma keeps_restarted:
  assumes "\<not> e_done e"
  shows "keeps t (orchestrateRestarted e t)"
proof -
  have "keeps t (orchestrateRestartedOnIdle t)"
    by (simp add: orchestrateRestartedOnIdle_def keeps_simple split: option.splits)
  moreover have "keeps t (orchestrateRestartedOnWaitPriors t)"
    by (auto simp: orchestrateRestartedOnWaitPriors_def keeps_def grows_def split: prod.splits bool.splits)
  moreover have "keeps t (orchestrateRestartedOnReady e t)"
    using keeps_trans [OF keeps_trans [OF keeps_simple(4) keeps_simple(5)] keeps_queueAction [OF runs_restart(1) assms]]
      keeps_trans [OF keeps_trans [OF keeps_simple(4) keeps_simple(5)] keeps_queueAction [OF runs_restart(2) assms]]
    by (simp add: orchestrateRestartedOnReady_def keeps_simple keeps_refl Let_def split: option.splits)
  moreover have "keeps t (orchestrateRestartedOnRestarted t)"
    using keeps_trans [OF keeps_trans [OF keeps_simple(4) keeps_simple(2)] keeps_simple(3)]
    by (simp add: orchestrateRestartedOnRestarted_def keeps_refl)
  ultimately show ?thesis
    using keeps_doTransitionAction [OF runs_restart(3) assms] keeps_doTransitionAction [OF runs_restart(4) assms]
    by (simp add: orchestrateRestarted_def orchestrateRestartedOnStopped_def orchestrateRestartedOnShutdown_def keeps_refl)
qed

lemma keeps_work: "\<not> e_done e \<Longrightarrow> keeps t (restart_work e t)"
  using keeps_trans [OF keeps_restarted keeps_simple(7)] by (simp add: restart_work_def keeps_refl)

lemma keepsD:
  assumes "keeps t t'"
  shows "i_instMonitor t' = i_instMonitor t" "published t \<subseteq> published t'" "in_order L n t \<Longrightarrow> in_order L n t'"
  using assms published_mono by (auto simp: keeps_def in_order_def objActor_def)


lemma prior_came_back:
  assumes "one_away L c" and "n \<in> set L" and "prior_passed (c n) p"
  shows "came_back (c p)"
proof -
  obtain m where m: "(p, m) \<in> set (i_instMonitor (c n))" "mon_State m = MonitorStateRestarted \<or> mon_OrchestrationIsDone m"
    using assms(3) by (auto simp: prior_passed_def)
  then have "m \<in> published (c p)" using one_awayD(4) [OF assms(1,2) m(1)] by auto
  then show ?thesis using m(2) by (auto simp: came_back_def)
qed

lemma one_away_works:
  assumes "one_away L c" and "n \<in> set L" and "\<not> e_done e"
  shows "one_away L (c(n := restart_work e (c n)))"
proof -
  note d = one_awayD [OF assms(1,2)] and k = keepsD [OF keeps_work [OF assms(3), of "c n"]]
  have g: "getPriors (c n) = takeWhile (\<lambda>m. n \<noteq> m) L" by (rule getPriors_in_order [OF d(2)])
  have known: "set (getPriors (c n)) \<subseteq> fst ` set (i_instMonitor (c n))"
    unfolding g d(3) by (auto dest: set_takeWhileD)
  show ?thesis
  proof (rule one_away_update [OF assms(1,2) rolling_work [OF d(1) assms(3) known] k(3) [OF d(2)] k(2)])
    show "mstate (c n) = MonitorStateReady \<or> leaving (c n) \<or> came_back (c p)"
      if "mstate (restart_work e (c n)) = MonitorStateReady \<or> leaving (restart_work e (c n))"
        "p \<in> set (takeWhile (\<lambda>m. n \<noteq> m) L)" for p
      using restart_work_passes [OF d(1) assms(3) known that(1)] that(2) prior_came_back [OF assms(1,2), of p]
      unfolding g by blast
  qed (simp_all only: k(1) d(3,4))
qed

lemma one_away_step:
  assumes "one_away L c" and "cluster_step (set L) restart_work c c'"
  shows "one_away L c'"
  using assms(2)
proof cases
  case (works n e)
  then show ?thesis using one_away_works [OF assms(1)] by simp
next
  case (ends n e s s')
  note d = one_awayD [OF assms(1) ends(2)] and r = rolling_ended [OF one_awayD(1) [OF assms(1) ends(2)] ends(3,4) refl]
  show ?thesis
    unfolding ends(1)
    by (rule one_away_update [OF assms(1) ends(2) r(1) r(6) [OF d(2)] r(4)])
      (simp_all only: r(5) d(3,4), use r(2,3) in blast)
next
  case (hears n m mon)
  let ?t = "(c n)\<lparr>i_instMonitor := AList.update m mon (i_instMonitor (c n))\<rparr>"
  note d = one_awayD [OF assms(1) hears(2)]
  have g: "getPriors ?t = getPriors (c n)"
    using d(2) by (simp add: getPriors_in_order [of L n] in_order_def objActor_def)
  show ?thesis
    unfolding hears(1)
  proof (rule one_away_update [OF assms(1) hears(2)])
    show "rolling ?t" using d(1) g by (simp add: rolling_def leaving_def restarted_def published_def)
    show "in_order L n ?t" using d(2) by (simp add: in_order_def objActor_def)
    show "fst ` set (i_instMonitor ?t) = set L - {n}" using d(3) hears(3,4) by (simp add: AList.dom_update) blast
    show "mon_State x = MonitorStateIdle \<and> \<not> mon_OrchestrationIsDone x \<or> x \<in> published (c i)"
      if "(i, x) \<in> set (i_instMonitor ?t)" for i x
      using that in_set_update [of "(i, x)" m mon "i_instMonitor (c n)"] hears(5) d(4) [of i x] by auto
  qed (auto simp: published_def leaving_def)
next
  case (learns n st)
  let ?t = "(c n)\<lparr>i_instStatus := st\<rparr>"
  note d = one_awayD [OF assms(1) learns(2)]
  have g: "getPriors ?t = getPriors (c n)"
    using d(2) by (simp add: getPriors_in_order [of L n] in_order_def objActor_def)
  show ?thesis
    unfolding learns(1)
  proof (rule one_away_update [OF assms(1) learns(2)])
    show "rolling ?t" using d(1) g by (simp add: rolling_def leaving_def restarted_def published_def)
    show "in_order L n ?t" using d(2) by (simp add: in_order_def objActor_def)
  qed (use d(3,4) in \<open>auto simp: published_def leaving_def\<close>)
qed

text \<open>A cluster at rest where every node was asked the restart.\<close>

definition restart_asked :: "string list \<Rightarrow> (string \<Rightarrow> imon) \<Rightarrow> bool" where
  "restart_asked L c \<longleftrightarrow> fresh_cluster (set L) c
    \<and> (\<forall>n\<in>set L. in_order L n (c n) \<and> mon_OrchestrationID (i_state (c n)) \<noteq> 0 \<and> \<not> mon_OrchestrationIsDone (i_state (c n)))"

lemma one_away_fresh: "restart_asked L c \<Longrightarrow> one_away L c"
  by (auto simp: restart_asked_def fresh_cluster_def one_away_def rolling_def leaving_def restarted_def published_def)

lemma takeWhile_before:
  assumes "n \<in> set L" and "m \<in> set L" and "n \<noteq> m"
  shows "m \<in> set (takeWhile (\<lambda>x. n \<noteq> x) L) \<or> n \<in> set (takeWhile (\<lambda>x. m \<noteq> x) L)"
  using assms by (induction L) auto

section \<open>Properties\<close>



section \<open>Witnesses\<close>

definition demo_restart :: "string \<Rightarrow> imon" where
  "demo_restart n = (demo_manager n)
    \<lparr>i_instStatus := [(''n1'', demo_status\<lparr>st_Avail := StUp\<rparr>), (''n2'', demo_status\<lparr>st_Avail := StUp\<rparr>)],
     i_state := (start_state 1)\<lparr>mon_GlobalExpect := MonitorGlobalExpectRestarted, mon_OrchestrationID := 1\<rparr>\<rparr>"

text \<open>The first node restarts, then the second sees it restarted and stops.\<close>

definition demo_first :: imon where
  "demo_first = restart_work demo_env (actionEnded demo_env MonitorStateStopProgress MonitorStateStopSuccess
     ((restart_work demo_env (restart_work demo_env (demo_restart ''n1'')))\<lparr>i_cmds := []\<rparr>))"

definition demo_waiting :: imon where
  "demo_waiting = restart_work demo_env (demo_restart ''n2'')"

definition demo_second :: imon where
  "demo_second = restart_work demo_env (restart_work demo_env
     (demo_waiting\<lparr>i_instMonitor := AList.update ''n1'' (i_state demo_first) (i_instMonitor demo_waiting)\<rparr>))"

lemma demo_restart_asked: "restart_asked demo_nodes demo_restart"
  by (auto simp: restart_asked_def fresh_cluster_def in_order_def demo_restart_def demo_sel start_state_sel objActor_def
      wf_map_def demo_nodes_def)

lemma demo_restart_cmds:
  "i_cmds (restart_work demo_env (restart_work demo_env (demo_restart ''n1'')))
    = [CmdOrchestrate MonitorStateStopProgress MonitorStateStopSuccess]"
  by code_simp

lemma demo_restart_published: "PubInstanceMonitorUpdated (i_state demo_first) \<in> set (i_trace demo_first)"
  by code_simp

lemma demo_restart_reach:
  "(cluster_step (set demo_nodes) restart_work)\<^sup>*\<^sup>* demo_restart (demo_restart(''n1'' := demo_first, ''n2'' := demo_second))"
proof -
  let ?step = "cluster_step (set demo_nodes) restart_work" and ?W = "restart_work demo_env"
  let ?s = MonitorStateStopProgress and ?s' = MonitorStateStopSuccess
  have n: "''n1'' \<in> set demo_nodes" "''n2'' \<in> set demo_nodes" by (simp_all add: demo_nodes_def)
  have w: "?step\<^sup>*\<^sup>* x (c(m := t)) \<Longrightarrow> m \<in> set demo_nodes \<Longrightarrow> ?step\<^sup>*\<^sup>* x (c(m := ?W t))" for x c m t
    using cluster_step.works [of m "set demo_nodes" demo_env restart_work "c(m := t)"]
    by (simp only: fun_upd_same fun_upd_upd) (simp add: rtranclp.rtrancl_into_rtrancl)
  have z: "?step\<^sup>*\<^sup>* x c \<Longrightarrow> ?step c d \<Longrightarrow> ?step\<^sup>*\<^sup>* x d" for x c d
    by (rule rtranclp.rtrancl_into_rtrancl)
  have n1: "?step\<^sup>*\<^sup>* demo_restart (demo_restart(''n1'' := ?W (?W (demo_restart ''n1''))))"
    by (intro w n, simp only: fun_upd_triv rtranclp.rtrancl_refl)
  obtain b where b: "b = ?W (?W (demo_restart ''n1''))" by simp
  have "?step (demo_restart(''n1'' := b)) (demo_restart(''n1'' := actionEnded demo_env ?s ?s' (b\<lparr>i_cmds := []\<rparr>)))"
    using cluster_step.ends [of "''n1''" "set demo_nodes" demo_env ?s ?s' "demo_restart(''n1'' := b)" restart_work]
      n(1) demo_restart_cmds [folded b] by simp
  from z [OF n1 [folded b] this] have "?step\<^sup>*\<^sup>* demo_restart (demo_restart(''n1'' := actionEnded demo_env ?s ?s' (b\<lparr>i_cmds := []\<rparr>)))"
    .
  then have "?step\<^sup>*\<^sup>* demo_restart (demo_restart(''n1'' := demo_first))"
    unfolding demo_first_def b [symmetric] by (rule w [OF _ n(1)])
  moreover have "(demo_restart(''n1'' := demo_first)) = (demo_restart(''n1'' := demo_first, ''n2'' := demo_restart ''n2''))"
    by (simp add: fun_eq_iff)
  ultimately have "?step\<^sup>*\<^sup>* demo_restart (demo_restart(''n1'' := demo_first, ''n2'' := demo_restart ''n2''))" by (simp only:)
  then have n2: "?step\<^sup>*\<^sup>* demo_restart (demo_restart(''n1'' := demo_first, ''n2'' := demo_waiting))"
    unfolding demo_waiting_def by (rule w [OF _ n(2)])
  obtain f v where f: "f = demo_first" "v = demo_waiting" by simp
  have "?step (demo_restart(''n1'' := f, ''n2'' := v))
      (demo_restart(''n1'' := f, ''n2'' := v\<lparr>i_instMonitor := AList.update ''n1'' (i_state f) (i_instMonitor v)\<rparr>))"
    using cluster_step.hears [of "''n2''" "set demo_nodes" "''n1''" "i_state f" "demo_restart(''n1'' := f, ''n2'' := v)" restart_work]
      demo_restart_published [folded f] n by (simp add: published_def)
  from z [OF n2 [folded f] this] have "?step\<^sup>*\<^sup>* demo_restart
      (demo_restart(''n1'' := f, ''n2'' := v\<lparr>i_instMonitor := AList.update ''n1'' (i_state f) (i_instMonitor v)\<rparr>))"
    .
  then show ?thesis unfolding demo_second_def f [symmetric] by (intro w n(2))
qed


end
