(* ===== verification/Imon_Resources.thy ===== *)
theory Imon_Resources
  imports Imon_Start_Stop
begin

text \<open>
  The watch over the resources of a started instance, \<open>orchestration_resource_restart.go\<close> of
  \<open>daemon/imon\<close>, and \<open>initResourceMonitor\<close> of \<open>main_cmd.go\<close>: a resource down is restarted as many
  times as its configuration says, with a delay between two restarts, then the monitor action of
  the object runs, once. The restarts of the standby resources and of the others are scheduled
  apart.
\<close>

section \<open>Scheduled restarts\<close>

definition resourceOrchestrableKinds :: "kind list" where
  "resourceOrchestrableKinds = NewKinds [KindSvc, KindVol]"

definition cancelSchedule :: "orchestration_resource \<Rightarrow> orchestration_resource" where
  "cancelSchedule r = r\<lparr>or_scheduler := None\<rparr>"

definition alreadyScheduled :: "orchestration_resource \<Rightarrow> string \<Rightarrow> bool" where
  "alreadyScheduled r rid = (rid \<in> set (or_scheduled r))"

definition dropScheduled :: "string \<Rightarrow> orchestration_resource \<Rightarrow> bool \<times> orchestration_resource" where
  "dropScheduled rid r =
    (if alreadyScheduled r rid then
       let r = r\<lparr>or_scheduled := Remove (or_scheduled r) rid\<rparr>
       in (True, if or_scheduled r = [] then cancelSchedule r else r)
     else (False, r))"

definition dropAllScheduled :: "orchestration_resource \<Rightarrow> bool \<times> orchestration_resource" where
  "dropAllScheduled r =
    (let r = cancelSchedule r
     in if or_scheduled r = [] then (False, r) else (True, r\<lparr>or_scheduled := []\<rparr>))"

definition orchestrationResource :: "bool \<Rightarrow> imon \<Rightarrow> orchestration_resource" where
  "orchestrationResource standby t = (if standby then i_standbyOr t else i_regularOr t)"

definition set_orchestrationResource :: "bool \<Rightarrow> orchestration_resource \<Rightarrow> imon \<Rightarrow> imon" where
  "set_orchestrationResource standby r t = (if standby then t\<lparr>i_standbyOr := r\<rparr> else t\<lparr>i_regularOr := r\<rparr>)"

definition cancelResourceOrchestrateSchedules :: "imon \<Rightarrow> imon" where
  "cancelResourceOrchestrateSchedules t =
    t\<lparr>i_standbyOr := cancelSchedule (i_standbyOr t), i_regularOr := cancelSchedule (i_regularOr t)\<rparr>"

section \<open>The monitor action\<close>

definition isValidMonitorAction :: "monitor_action \<Rightarrow> bool" where
  "isValidMonitorAction action =
    (action \<in> {MonitorActionCrash, MonitorActionFreezeStop, MonitorActionNone, MonitorActionReboot, MonitorActionSwitch})"

definition getValidMonitorAction :: "nat \<Rightarrow> imon \<Rightarrow> monitor_action option" where
  "getValidMonitorAction stage t =
    (let l = ac_MonitorAction (actorConfig t)
     in if stage \<ge> length l then None
        else if isValidMonitorAction (l ! stage) then Some (l ! stage) else None)"

definition monitorActionCalled :: "imon \<Rightarrow> bool" where
  "monitorActionCalled t = (mon_MonitorActionExecutedAt (i_state t) \<noteq> 0)"

text \<open>The command of the configuration, split in arguments and run by \<open>util/command\<close>.\<close>

definition doPreMonitorAction :: "imon \<Rightarrow> imon" where
  "doPreMonitorAction t =
    (let cmd = ac_PreMonitorAction (actorConfig t)
     in if cmd = [] then t else emit (PreMonitorAction cmd) t)"

definition pubMonitorAction :: "string \<Rightarrow> monitor_action \<Rightarrow> imon \<Rightarrow> imon" where
  "pubMonitorAction rid action t = emit (PubInstanceMonitorAction rid action) t"

definition doMonitorAction :: "string \<Rightarrow> monitor_action \<Rightarrow> env \<Rightarrow> imon \<Rightarrow> imon" where
  "doMonitorAction rid action e t =
    (let t = t\<lparr>i_state := (i_state t)\<lparr>mon_MonitorActionExecutedAt := e_now e\<rparr>\<rparr>
     in if \<not> isValidMonitorAction action then t
        else
          let t = pubMonitorAction rid action (doPreMonitorAction t)
          in case action of
               MonitorActionCrash \<Rightarrow> emit TocCrash t
             | MonitorActionFreezeStop \<Rightarrow> doStop e (doFreezeStop e t)
             | MonitorActionReboot \<Rightarrow> emit TocReboot t
             | MonitorActionSwitch \<Rightarrow>
                 queueAction crmStop MonitorStateStopProgress MonitorStateStartFailure MonitorStateStopFailure e
                   (disableMonitor (createPendingWithDuration e stopDuration t))
             | _ \<Rightarrow> t)"

section \<open>Resource monitors\<close>

definition set_resource :: "string \<Rightarrow> resource_monitor \<Rightarrow> imon \<Rightarrow> imon" where
  "set_resource rid rmon t =
    t\<lparr>i_change := True, i_state := (i_state t)\<lparr>mon_Resources := AList.update rid rmon (mon_Resources (i_state t))\<rparr>\<rparr>"

definition DecRestartRemaining :: "resource_monitor \<Rightarrow> resource_monitor" where
  "DecRestartRemaining m =
    m\<lparr>rm_Restart := map_option (\<lambda>r. if rr_Remaining r > 0 then r\<lparr>rr_Remaining := rr_Remaining r - 1\<rparr> else r) (rm_Restart m)\<rparr>"

definition initResourceMonitor :: "imon \<Rightarrow> imon" where
  "initResourceMonitor t =
    (case cfg_Actor (i_config t) of
       None \<Rightarrow> t
     | Some ac \<Rightarrow>
         let t = cancelResourceOrchestrateSchedules t;
             t = t\<lparr>i_regularOr := (i_regularOr t)\<lparr>or_scheduled := []\<rparr>, i_standbyOr := (i_standbyOr t)\<lparr>or_scheduled := []\<rparr>\<rparr>;
             t = t\<lparr>i_initialMonitorAction :=
                     (case getValidMonitorAction 0 t of None \<Rightarrow> MonitorActionNone | Some a \<Rightarrow> a)\<rparr>;
             m = concat (map (\<lambda>(rid, rcfg). if rc_Restart rcfg > 0
                    then [(rid, \<lparr>rm_Restart = Some \<lparr>rr_Remaining = rc_Restart rcfg, rr_LastAt = 0\<rparr>\<rparr>)] else [])
                  (ac_Resources ac))
         in t\<lparr>i_change := True, i_state := (i_state t)\<lparr>mon_Resources := m\<rparr>\<rparr>)"


section \<open>The plan of a resource\<close>

definition plan_drop :: "bool \<Rightarrow> string \<Rightarrow> imon \<Rightarrow> imon" where
  "plan_drop standby rid t =
    (case dropScheduled rid (orchestrationResource standby t) of
       (changed, r) \<Rightarrow> let t = set_orchestrationResource standby r t in if changed then t\<lparr>i_change := True\<rparr> else t)"

definition plan_reset :: "resource_config \<Rightarrow> resource_monitor option \<Rightarrow> string \<Rightarrow> imon \<Rightarrow> imon" where
  "plan_reset rcfg rmon rid t =
    (case rmon of
       None \<Rightarrow> t
     | Some rm \<Rightarrow>
         (case rm_Restart rm of
            None \<Rightarrow> t
          | Some r \<Rightarrow>
              if rr_Remaining r \<noteq> rc_Restart rcfg
              then set_resource rid (rm\<lparr>rm_Restart := Some (r\<lparr>rr_Remaining := rc_Restart rcfg\<rparr>)\<rparr>)
                     (t\<lparr>i_state := (i_state t)\<lparr>mon_MonitorActionExecutedAt := 0\<rparr>\<rparr>)
              else t))"

text \<open>What the plan of a resource asks for. The error of a missing configuration is excluded by its callers.\<close>

datatype plan = PlanNone | PlanRestart | PlanMonitorAction

definition orchestrateResourcePlan ::
  "string \<Rightarrow> resource_config \<Rightarrow> resource_monitor option \<Rightarrow> resource_status \<Rightarrow> bool \<Rightarrow> imon \<Rightarrow> plan \<times> imon" where
  "orchestrateResourcePlan rid rcfg rmon rStatus started t =
    (let standby = rc_IsStandby rcfg
     in if rc_IsDisabled rcfg \<or> rs_IsStopped rStatus
           \<or> status_Is (rs_Status rStatus) [StNotApplicable, StUndef, StUp, StStandbyUp]
        then (PlanNone, plan_reset rcfg rmon rid (plan_drop standby rid t))
        else if alreadyScheduled (orchestrationResource standby t) rid then (PlanNone, t)
        else if monitorActionCalled t then (PlanNone, t)
        else if standby \<or> started then
          (case rmon of
             None \<Rightarrow> (if rc_IsMonitored rcfg then PlanMonitorAction else PlanNone, t)
           | Some rm \<Rightarrow>
               (case rm_Restart rm of
                  None \<Rightarrow> (if rc_IsMonitored rcfg then PlanMonitorAction else PlanNone, t)
                | Some r \<Rightarrow>
                    if rr_Remaining r = 0 \<and> rc_IsMonitored rcfg then (PlanMonitorAction, t)
                    else if rr_Remaining r > 0 then (PlanRestart, t)
                    else (PlanNone, t)))
        else (PlanNone, plan_drop standby rid t))"

section \<open>Scheduling and running restarts\<close>

definition restart_delay :: "time \<Rightarrow> resource_config \<Rightarrow> resource_monitor \<Rightarrow> duration" where
  "restart_delay now rcfg rmon =
    (case rc_RestartDelay rcfg of
       None \<Rightarrow> 0
     | Some d \<Rightarrow>
         let lst = (case rm_Restart rmon of None \<Rightarrow> 0 | Some r \<Rightarrow> rr_LastAt r)
         in if now < lst + d then lst + d - now else 0)"

definition getRidsAndDelay :: "env \<Rightarrow> string list \<Rightarrow> imon \<Rightarrow> string list \<times> duration" where
  "getRidsAndDelay e todo t =
    foldl (\<lambda>(rids, maxDelay) rid.
      case (map_of (ac_Resources (actorConfig t)) rid, map_of (mon_Resources (i_state t)) rid) of
        (Some rcfg, Some rmon) \<Rightarrow> (rids @ [rid], max maxDelay (restart_delay (e_now e) rcfg rmon))
      | _ \<Rightarrow> (rids, maxDelay)) ([], 0) todo"

definition schedule_rid :: "bool \<Rightarrow> imon \<Rightarrow> string \<Rightarrow> imon" where
  "schedule_rid standby t rid =
    (case map_of (mon_Resources (i_state t)) rid of
       None \<Rightarrow> t
     | Some rmon \<Rightarrow>
         let t = set_resource rid (DecRestartRemaining rmon) t; r = orchestrationResource standby t
         in set_orchestrationResource standby (r\<lparr>or_scheduled := List.insert rid (or_scheduled r)\<rparr>) t)"

definition resourceRestartSchedule :: "env \<Rightarrow> string list \<Rightarrow> bool \<Rightarrow> imon \<Rightarrow> imon" where
  "resourceRestartSchedule e todo standby t =
    (case getRidsAndDelay e todo t of
       (rids, delay) \<Rightarrow>
         if rids = [] then t
         else
           let r = orchestrationResource standby t;
               r = r\<lparr>or_scheduler := Some (e_now e + delay, rids),
                     or_dangling := or_dangling r @ (case or_scheduler r of None \<Rightarrow> [] | Some x \<Rightarrow> [x])\<rparr>
           in foldl (schedule_rid standby) (set_orchestrationResource standby r t) rids)"

definition restart_rid :: "env \<Rightarrow> bool \<Rightarrow> string list \<times> imon \<Rightarrow> string \<Rightarrow> string list \<times> imon" where
  "restart_rid e standby = (\<lambda>(rids, t) rid.
    case map_of (mon_Resources (i_state t)) rid of
      None \<Rightarrow> (rids, t)
    | Some rmon \<Rightarrow>
        let r = orchestrationResource standby t
        in if \<not> alreadyScheduled r rid then (rids, t)
           else (rids @ [rid],
                 set_orchestrationResource standby (r\<lparr>or_scheduled := Remove (or_scheduled r) rid\<rparr>)
                   (set_resource rid (rmon\<lparr>rm_Restart := map_option (\<lambda>x. x\<lparr>rr_LastAt := e_now e\<rparr>) (rm_Restart rmon)\<rparr>) t)))"

definition resourceRestart :: "env \<Rightarrow> string list \<Rightarrow> bool \<Rightarrow> imon \<Rightarrow> imon" where
  "resourceRestart e resourceRids standby t =
    (case foldl (restart_rid e standby) ([], t) resourceRids of
       (rids, t) \<Rightarrow>
         if rids = [] then t
         else doTransitionAction (if standby then crmResourceStartStandby rids else crmResourceStart rids)
                MonitorStateStartProgress MonitorStateIdle MonitorStateStartFailure e t)"

text \<open>
  A timer fires: its message is posted to the worker. The timer held fires once, and the ones it
  replaced too.
\<close>

definition restart_timer_fires :: "env \<Rightarrow> bool \<Rightarrow> time \<times> string list \<Rightarrow> imon \<Rightarrow> imon option" where
  "restart_timer_fires e standby x t =
    (let r = orchestrationResource standby t;
         post = (\<lambda>r. (set_orchestrationResource standby r t)
                   \<lparr>i_cmds := i_cmds t @ [CmdResourceRestart (snd x) standby]\<rparr>)
     in if fst x > e_now e then None
        else if or_scheduler r = Some x then Some (post (r\<lparr>or_scheduler := None\<rparr>))
        else if x \<in> set (or_dangling r) then Some (post (r\<lparr>or_dangling := remove1 x (or_dangling r)\<rparr>))
        else None)"

section \<open>The resource restart orchestration\<close>

definition failoverRunsOnPeer :: "imon \<Rightarrow> bool" where
  "failoverRunsOnPeer t =
    (as_Topology (objActor t) = Failover \<and> \<not> status_Is (st_Avail (localStatus t)) [StUp]
     \<and> list_ex (\<lambda>(node, st). node \<noteq> i_localhost t \<and> status_Is (st_Avail st) [StUp]) (i_instStatus t))"

text \<open>One resource of the loops: the resources to restart standby, to restart, and the manager.\<close>

definition plan_rid ::
  "env \<Rightarrow> bool \<Rightarrow> (string list \<times> string list) \<times> imon \<Rightarrow> string \<times> resource_status \<Rightarrow> (string list \<times> string list) \<times> imon" where
  "plan_rid e started = (\<lambda>((todoStandby, todoRestart), t) (rid, rstat).
    case map_of (ac_Resources (actorConfig t)) rid of
      None \<Rightarrow> ((todoStandby, todoRestart), t)
    | Some rcfg \<Rightarrow>
        (case orchestrateResourcePlan rid rcfg (map_of (mon_Resources (i_state t)) rid) rstat started t of
           (PlanNone, t) \<Rightarrow> ((todoStandby, todoRestart), t)
         | (PlanMonitorAction, t) \<Rightarrow>
             ((todoStandby, todoRestart),
              cancelResourceOrchestrateSchedules
                (doMonitorAction rid (i_initialMonitorAction t) e (setLocalExpect MonitorLocalExpectEvicted t)))
         | (PlanRestart, t) \<Rightarrow>
             (if rc_IsStandby rcfg then ((List.insert rid todoStandby, todoRestart), t)
              else ((todoStandby, List.insert rid todoRestart), t))))"

text \<open>
  The resources the loops go over: the ones of the instance that are not encapsulated, then the ones
  of each encapsulated instance whose container is up or unknown. They are the ones of the status
  the first loop starts on; the flags a monitor action raises leave the resources alone.
\<close>

definition watched_resources :: "instance_status \<Rightarrow> (string \<times> resource_status) list" where
  "watched_resources st =
    filter (\<lambda>(_, rs). \<not> rs_IsEncap rs) (st_Resources st)
    @ concat (map snd (filter (\<lambda>(encapRID, _).
        case map_of (st_Resources st) encapRID of
          None \<Rightarrow> True
        | Some rs \<Rightarrow> status_Is (rs_Status rs) [StUp, StStandbyUp]) (st_Encap st)))"

text \<open>The stop of the evicted instance failed: the next monitor action of the configuration is tried.\<close>

definition restart_evicted :: "env \<Rightarrow> imon \<Rightarrow> imon" where
  "restart_evicted e t =
    (if mon_LocalExpect (i_state t) = MonitorLocalExpectEvicted \<and> mstate t = MonitorStateStopFailure
     then (case getValidMonitorAction 1 t of
             Some action \<Rightarrow> doMonitorAction [] action e (disableMonitor t)
           | None \<Rightarrow> disableMonitor t)
     else t)"

text \<open>The failover object runs on a peer: the local resources are no longer watched.\<close>

definition restart_moved :: "imon \<Rightarrow> imon" where
  "restart_moved t =
    (if mon_LocalExpect (i_state t) = MonitorLocalExpectStarted \<and> failoverRunsOnPeer t
     then (case dropAllScheduled (i_regularOr t) of
             (dropped, r) \<Rightarrow>
               let t = (disableMonitor t)\<lparr>i_regularOr := r\<rparr> in if dropped then t\<lparr>i_change := True\<rparr> else t)
     else t)"

definition restart_todo :: "env \<Rightarrow> (string list \<times> string list) \<times> imon \<Rightarrow> imon" where
  "restart_todo e = (\<lambda>((todoStandby, todoRestart), t).
    let t = (if todoStandby \<noteq> [] then resourceRestartSchedule e todoStandby True t else t)
    in if todoRestart \<noteq> [] then resourceRestartSchedule e todoRestart False t else t)"

definition restart_watch :: "env \<Rightarrow> imon \<Rightarrow> imon" where
  "restart_watch e t =
    (let started = (mon_LocalExpect (i_state t) = MonitorLocalExpectStarted)
     in restart_todo e (foldl (plan_rid e started) (([], []), t) (watched_resources (localStatus t))))"

definition orchestrateResourceRestart :: "env \<Rightarrow> imon \<Rightarrow> imon" where
  "orchestrateResourceRestart e t =
    (if \<not> Kinds_Has resourceOrchestrableKinds (p_Kind (i_path t)) then t
     else if map_of (i_instStatus t) (i_localhost t) = None then cancelResourceOrchestrateSchedules t
     else if node_IsFrozen (localNodeStatus t) then cancelResourceOrchestrateSchedules t
     else if nm_State (localNodeMonitor t) \<noteq> NodeStateIdle then cancelResourceOrchestrateSchedules t
     else
       let t = restart_evicted e t
       in if IsFrozen (localStatus t) then cancelResourceOrchestrateSchedules t
          else if provisioned_IsOneOf (st_Provisioned (localStatus t)) [PrFalse, PrMixed, PrUndef]
            then cancelResourceOrchestrateSchedules t
          else if \<not> MonitorState_IsOneOf (mstate t) [MonitorStateIdle, MonitorStateStartFailure, MonitorStateStopFailure] then t
          else restart_watch e (restart_moved t))"

section \<open>The restarts left\<close>

text \<open>Every resource monitor is the one of a resource configured, with restarts left within its budget.\<close>

definition wf_restarts :: "imon \<Rightarrow> bool" where
  "wf_restarts t \<longleftrightarrow>
    (\<forall>rid rm. map_of (mon_Resources (i_state t)) rid = Some rm \<longrightarrow>
      (\<exists>rc r. map_of (ac_Resources (actorConfig t)) rid = Some rc \<and> rm_Restart rm = Some r
        \<and> 0 \<le> rr_Remaining r \<and> rr_Remaining r \<le> rc_Restart rc))"

lemma wf_restarts_same:
  "mon_Resources (i_state t') = mon_Resources (i_state t) \<Longrightarrow> i_config t' = i_config t \<Longrightarrow> wf_restarts t \<Longrightarrow> wf_restarts t'"
  by (simp add: wf_restarts_def actorConfig_def)

lemma set_resource_config [simp]: "i_config (set_resource rid rm t) = i_config t"
  by (simp add: set_resource_def)

lemma set_or_frame [simp]:
  "i_config (set_orchestrationResource b r t) = i_config t" "i_state (set_orchestrationResource b r t) = i_state t"
  "i_cmds (set_orchestrationResource b r t) = i_cmds t" "i_trace (set_orchestrationResource b r t) = i_trace t"
  by (simp_all add: set_orchestrationResource_def)

lemma wf_restarts_set:
  assumes "wf_restarts t" and "map_of (ac_Resources (actorConfig t)) rid = Some rc" and "rm_Restart rm = Some r"
    and "0 \<le> rr_Remaining r" and "rr_Remaining r \<le> rc_Restart rc"
  shows "wf_restarts (set_resource rid rm t)"
  using assms by (auto simp: wf_restarts_def set_resource_def actorConfig_def update_conv')

lemma wf_restartsD:
  assumes "wf_restarts t" and "map_of (mon_Resources (i_state t)) rid = Some rm"
  obtains rc r where "map_of (ac_Resources (actorConfig t)) rid = Some rc" "rm_Restart rm = Some r"
    "0 \<le> rr_Remaining r" "rr_Remaining r \<le> rc_Restart rc"
  using assms unfolding wf_restarts_def by blast

text \<open>
  The operations that leave the resource monitors and the configuration alone, and schedule no
  restart.
\<close>

definition scheduled :: "bool \<Rightarrow> imon \<Rightarrow> string set" where
  "scheduled standby t = set (or_scheduled (orchestrationResource standby t))"

lemma scheduled_simps:
  "scheduled True t = set (or_scheduled (i_standbyOr t))" "scheduled False t = set (or_scheduled (i_regularOr t))"
  by (simp_all add: scheduled_def orchestrationResource_def)

definition same_restarts :: "imon \<Rightarrow> imon \<Rightarrow> bool" where
  "same_restarts t t' \<longleftrightarrow>
    mon_Resources (i_state t') = mon_Resources (i_state t) \<and> i_config t' = i_config t
    \<and> scheduled True t' \<subseteq> scheduled True t \<and> scheduled False t' \<subseteq> scheduled False t"

lemma same_restarts_refl [simp]: "same_restarts t t"
  by (simp add: same_restarts_def)

lemma same_restarts_trans: "same_restarts t u \<Longrightarrow> same_restarts u v \<Longrightarrow> same_restarts t v"
  by (auto simp: same_restarts_def)

lemma same_restarts_core: "core t' = core t \<Longrightarrow> same_restarts t t'"
  using coreD [of t' t] by (simp add: same_restarts_def scheduled_simps)

lemma wf_same: "same_restarts t t' \<Longrightarrow> wf_restarts t \<Longrightarrow> wf_restarts t'"
  by (simp add: same_restarts_def wf_restarts_same)

lemma same_restarts_init:
  "same_restarts t (set_mstate s t)" "same_restarts t (transitionTo e s t)" "same_restarts t (updateIfChange e t)"
  "same_restarts t (disableMonitor t)" "same_restarts t (setLocalExpect le t)" "same_restarts t (emit x t)"
  "same_restarts t (clearPending t)" "same_restarts t (createPendingWithDuration e d t)" "same_restarts t (orch_done t)"
  "same_restarts t (doneAndIdle t)" "same_restarts t (cancelResourceOrchestrateSchedules t)"
  "same_restarts t (orchestrateAfterAction e a b t)" "same_restarts t (snd (crmAction args e t))"
  "same_restarts t (snd (setWaitChildren t))" "same_restarts t (map_localStatus f t)"
  by (auto simp: same_restarts_def scheduled_simps cancelSchedule_def setLocalExpect_def clearPending_def createPendingWithDuration_def orch_done_def
      doneAndIdle_def cancelResourceOrchestrateSchedules_def orchestrateAfterAction_def crmAction_def crmDefaultAction_def
      setWaitChildren_def map_localStatus_def set_localStatus_def Let_def split: option.splits)


lemma same_restarts_queueAction:
  assumes "\<And>u. same_restarts u (snd (act e u))"
  shows "same_restarts t (queueAction act a b c e t)"
proof -
  obtain err u where u: "act e (transitionTo e a t) = (err, u)" by (cases "act e (transitionTo e a t)")
  have "same_restarts t u" using same_restarts_trans [OF same_restarts_init(2) assms, of t e a] u by simp
  then show ?thesis
    using same_restarts_trans same_restarts_init(12) by (simp add: queueAction_def doAction_def u)
qed

lemma same_restarts_doTransitionAction:
  assumes "\<And>u. same_restarts u (snd (act e u))"
  shows "same_restarts t (doTransitionAction act a b c e t)"
proof -
  obtain err u where u: "act e (transitionTo e a t) = (err, u)" by (cases "act e (transitionTo e a t)")
  have "same_restarts t u" using same_restarts_trans [OF same_restarts_init(2) assms, of t e a] u by simp
  then show ?thesis
    using same_restarts_trans same_restarts_init(2) by (simp add: doTransitionAction_def u)
qed

lemma same_restarts_actions:
  "same_restarts t (snd (crmStop e t))" "same_restarts t (snd (freeze e t))"
  "same_restarts t (snd (crmResourceStart rids e t))" "same_restarts t (snd (crmResourceStartStandby rids e t))"
  by (auto simp: crmStop_def crmResourceStart_def crmResourceStartStandby_def crmMaintenanceAction_def crmDefaultAction_def
      freeze_def Let_def same_restarts_def scheduled_simps crmAction_def map_localStatus_def set_localStatus_def emit_def
      split: option.splits prod.splits bool.splits)


lemma same_restarts_doStop: "same_restarts t (doStop e t)"
proof -
  have r: "same_restarts u (snd (stoppedClearIfReached u))" for u
    using same_restarts_trans [OF same_restarts_trans [OF same_restarts_init(10) same_restarts_init(4)] same_restarts_init(7)]
    by (simp add: stoppedClearIfReached_def)
  have s: "same_restarts u (snd (setWaitSyncs e u))" for u
    by (simp add: setWaitSyncs_def leaveWaitSyncs_def same_restarts_def scheduled_simps)
  obtain b1 t1 where t1: "stoppedClearIfReached t = (b1, t1)" by (cases "stoppedClearIfReached t")
  obtain b2 t2 where t2: "setWaitChildren t1 = (b2, t2)" by (cases "setWaitChildren t1")
  obtain b3 t3 where t3: "setWaitSyncs e t2 = (b3, t3)" by (cases "setWaitSyncs e t2")
  have 1: "same_restarts t t1" using r [of t] t1 by simp
  have 2: "same_restarts t t2" using same_restarts_trans [OF 1 same_restarts_init(14)] t2 by (metis snd_conv)
  have 3: "same_restarts t t3" using same_restarts_trans [OF 2 s] t3 by (metis snd_conv)
  have 4: "same_restarts t (queueAction crmStop a b c e (disableMonitor (createPendingWithDuration e d t3)))" for a b c d
    by (rule same_restarts_trans [OF same_restarts_trans [OF same_restarts_trans [OF 3 same_restarts_init(8)]
            same_restarts_init(4)] same_restarts_queueAction]) (rule same_restarts_actions)
  show ?thesis using 1 2 3 4 by (simp add: doStop_def t1 t2 t3)
qed

lemma same_restarts_doFreezeStop: "same_restarts t (doFreezeStop e t)"
  by (simp add: doFreezeStop_def same_restarts_doStop same_restarts_doTransitionAction same_restarts_actions)

lemma same_restarts_doMonitorAction: "same_restarts t (doMonitorAction rid action e t)"
proof -
  let ?t = "t\<lparr>i_state := (i_state t)\<lparr>mon_MonitorActionExecutedAt := e_now e\<rparr>\<rparr>"
  let ?u = "pubMonitorAction rid action (doPreMonitorAction ?t)"
  have t: "same_restarts t ?t" by (simp add: same_restarts_def scheduled_simps)
  have u: "same_restarts t ?u"
    by (simp add: pubMonitorAction_def doPreMonitorAction_def Let_def same_restarts_def scheduled_simps)
  have s: "same_restarts t (queueAction crmStop a b c e (disableMonitor (createPendingWithDuration e d ?u)))" for a b c d
    by (rule same_restarts_trans [OF same_restarts_trans [OF same_restarts_trans [OF u same_restarts_init(8)]
            same_restarts_init(4)] same_restarts_queueAction]) (rule same_restarts_actions)
  have f: "same_restarts t (doStop e (doFreezeStop e ?u))"
    by (rule same_restarts_trans [OF same_restarts_trans [OF u same_restarts_doFreezeStop] same_restarts_doStop])
  have e: "same_restarts t (emit x ?u)" for x by (rule same_restarts_trans [OF u same_restarts_init(6)])
  show ?thesis
    using t u s f e by (cases action) (simp_all add: doMonitorAction_def Let_def)
qed


lemma same_restarts_plan_drop: "same_restarts t (plan_drop standby rid t)"
  by (auto simp: plan_drop_def dropScheduled_def cancelSchedule_def Let_def same_restarts_def scheduled_simps
      orchestrationResource_def set_orchestrationResource_def)

lemma plan_reset_config [simp]: "i_config (plan_reset rcfg rmon rid t) = i_config t"
  by (simp add: plan_reset_def split: option.splits)

lemma wf_plan_reset:
  assumes "wf_restarts t" and "map_of (ac_Resources (actorConfig t)) rid = Some rcfg"
    and "rmon = map_of (mon_Resources (i_state t)) rid"
  shows "wf_restarts (plan_reset rcfg rmon rid t)"
proof (cases rmon)
  case (Some rm)
  then obtain r where r: "rm_Restart rm = Some r" "0 \<le> rr_Remaining r" "rr_Remaining r \<le> rc_Restart rcfg"
    using wf_restartsD [OF assms(1)] assms(2,3) by (metis option.inject)
  let ?u = "t\<lparr>i_state := (i_state t)\<lparr>mon_MonitorActionExecutedAt := 0\<rparr>\<rparr>"
  have "wf_restarts ?u" by (rule wf_restarts_same [OF _ _ assms(1)]) simp_all
  then have "wf_restarts (set_resource rid (rm\<lparr>rm_Restart := Some (r\<lparr>rr_Remaining := rc_Restart rcfg\<rparr>)\<rparr>) ?u)"
    by (rule wf_restarts_set [where r = "r\<lparr>rr_Remaining := rc_Restart rcfg\<rparr>" and rc = rcfg])
      (use assms(2) r in \<open>simp_all add: actorConfig_def\<close>)
  then show ?thesis using assms(1) Some r by (simp add: plan_reset_def)
qed (simp add: plan_reset_def assms(1))

lemma wf_plan:
  assumes "wf_restarts t" and "map_of (ac_Resources (actorConfig t)) rid = Some rcfg"
  shows "wf_restarts (snd (orchestrateResourcePlan rid rcfg (map_of (mon_Resources (i_state t)) rid) rs started t))
    \<and> i_config (snd (orchestrateResourcePlan rid rcfg (map_of (mon_Resources (i_state t)) rid) rs started t)) = i_config t"
proof -
  have d: "wf_restarts (plan_drop b rid t)" "i_config (plan_drop b rid t) = i_config t"
    "mon_Resources (i_state (plan_drop b rid t)) = mon_Resources (i_state t)" for b
    using wf_same [OF same_restarts_plan_drop assms(1)] same_restarts_plan_drop [of t b rid]
    by (simp_all add: same_restarts_def)
  have "wf_restarts (plan_reset rcfg (map_of (mon_Resources (i_state t)) rid) rid (plan_drop b rid t))" for b
    by (rule wf_plan_reset [OF d(1)]) (use assms(2) d in \<open>simp_all add: actorConfig_def\<close>)
  then show ?thesis
    using assms(1) d(1,2)
    by (cases "map_of (mon_Resources (i_state t)) rid") (simp_all add: orchestrateResourcePlan_def Let_def split: option.splits)
qed

lemma wf_plan_rid:
  assumes "wf_restarts t" and "i_config t = cfg"
  shows "wf_restarts (snd (plan_rid e started (todo, t) x)) \<and> i_config (snd (plan_rid e started (todo, t) x)) = cfg"
proof -
  obtain rid rs where x: "x = (rid, rs)" by (cases x)
  obtain a b where todo: "todo = (a, b)" by (cases todo)
  show ?thesis
  proof (cases "map_of (ac_Resources (actorConfig t)) rid")
    case None
    then show ?thesis using assms by (simp add: plan_rid_def x todo)
  next
    case (Some rcfg)
    let ?p = "orchestrateResourcePlan rid rcfg (map_of (mon_Resources (i_state t)) rid) rs started t"
    obtain pl u where p: "?p = (pl, u)" by (cases ?p)
    have u: "wf_restarts u" "i_config u = cfg" using wf_plan [OF assms(1) Some, of rs started] p assms(2) by simp_all
    let ?v = "cancelResourceOrchestrateSchedules (doMonitorAction rid (i_initialMonitorAction u) e (setLocalExpect MonitorLocalExpectEvicted u))"
    have v: "same_restarts u ?v"
      by (rule same_restarts_trans [OF same_restarts_trans [OF same_restarts_init(5) same_restarts_doMonitorAction]
            same_restarts_init(11)])
    then have "wf_restarts ?v" "i_config ?v = cfg" using wf_same [OF v u(1)] u(2) by (simp_all add: same_restarts_def)
    then show ?thesis
      using u Some p by (cases pl) (simp_all add: plan_rid_def x todo)
  qed
qed


lemma wf_plan_fold:
  assumes "wf_restarts t" and "i_config t = cfg"
  shows "wf_restarts (snd (foldl (plan_rid e started) (todo, t) l)) \<and> i_config (snd (foldl (plan_rid e started) (todo, t) l)) = cfg"
  using assms
proof (induction l arbitrary: todo t)
  case (Cons x l)
  obtain todo' t' where p: "plan_rid e started (todo, t) x = (todo', t')" by (cases "plan_rid e started (todo, t) x")
  then show ?case using Cons.IH [of t' todo'] wf_plan_rid [OF Cons.prems, of e started todo x] by simp
qed simp

lemma wf_schedule_rid: "wf_restarts t \<Longrightarrow> wf_restarts (schedule_rid standby t rid)"
proof (cases "map_of (mon_Resources (i_state t)) rid")
  case (Some rm)
  assume w: "wf_restarts t"
  obtain rc r where r: "map_of (ac_Resources (actorConfig t)) rid = Some rc" "rm_Restart rm = Some r"
    "0 \<le> rr_Remaining r" "rr_Remaining r \<le> rc_Restart rc" by (rule wf_restartsD [OF w Some])
  have "wf_restarts (set_resource rid (DecRestartRemaining rm) t)"
    by (rule wf_restarts_set [OF w r(1), of _ "if rr_Remaining r > 0 then r\<lparr>rr_Remaining := rr_Remaining r - 1\<rparr> else r"])
      (use r in \<open>simp_all add: DecRestartRemaining_def\<close>)
  then show ?thesis
    using Some wf_restarts_same by (simp add: schedule_rid_def Let_def)
qed (simp add: schedule_rid_def)

lemma wf_resourceRestartSchedule: "wf_restarts t \<Longrightarrow> wf_restarts (resourceRestartSchedule e todo standby t)"
proof -
  assume w: "wf_restarts t"
  have f: "wf_restarts u \<Longrightarrow> wf_restarts (foldl (schedule_rid standby) u l)" for u l
    by (induction l arbitrary: u) (simp_all add: wf_schedule_rid)
  have "wf_restarts (set_orchestrationResource standby r t)" for r
    by (rule wf_restarts_same [OF _ _ w]) simp_all
  with f w show ?thesis by (simp add: resourceRestartSchedule_def Let_def split: prod.splits)
qed

lemma wf_resourceRestart: "wf_restarts t \<Longrightarrow> wf_restarts (resourceRestart e rids standby t)"
proof -
  assume w: "wf_restarts t"
  have s: "wf_restarts (snd (restart_rid e standby (l, u) rid))" if v: "wf_restarts u" for l u rid
  proof (cases "map_of (mon_Resources (i_state u)) rid")
    case None
    then show ?thesis using v by (simp add: restart_rid_def)
  next
    case (Some rm)
    obtain rc r where r: "map_of (ac_Resources (actorConfig u)) rid = Some rc" "rm_Restart rm = Some r"
      "0 \<le> rr_Remaining r" "rr_Remaining r \<le> rc_Restart rc" by (rule wf_restartsD [OF v Some])
    have "wf_restarts (set_resource rid (rm\<lparr>rm_Restart := map_option (\<lambda>x. x\<lparr>rr_LastAt := e_now e\<rparr>) (rm_Restart rm)\<rparr>) u)"
      by (rule wf_restarts_set [OF v r(1), of _ "r\<lparr>rr_LastAt := e_now e\<rparr>"]) (use r in simp_all)
    then show ?thesis using v Some wf_restarts_same by (simp add: restart_rid_def Let_def)
  qed
  have "wf_restarts (snd (foldl (restart_rid e standby) (l, t) rids))" for l
    using w
  proof (induction rids arbitrary: l t)
    case (Cons x xs)
    then show ?case using s [of t l x] by (cases "restart_rid e standby (l, t) x") simp
  qed simp
  then have u: "wf_restarts (snd (foldl (restart_rid e standby) ([], t) rids))" .
  have a: "wf_restarts v \<Longrightarrow> wf_restarts (doTransitionAction (if standby then crmResourceStartStandby l else crmResourceStart l) a b c e v)"
    for v l a b c
    by (rule wf_same [OF same_restarts_doTransitionAction]) (simp_all add: same_restarts_actions)
  show ?thesis
    using u a by (cases "foldl (restart_rid e standby) ([], t) rids") (simp add: resourceRestart_def)
qed


lemma same_restarts_evicted: "same_restarts t (restart_evicted e t)"
  using same_restarts_trans [OF same_restarts_init(4) same_restarts_doMonitorAction, of t] same_restarts_init(4) [of t]
  by (simp add: restart_evicted_def split: option.splits)

lemma same_restarts_moved: "same_restarts t (restart_moved t)"
  by (auto simp: restart_moved_def dropAllScheduled_def cancelSchedule_def same_restarts_def scheduled_simps Let_def)

lemma wf_restart_watch: "wf_restarts t \<Longrightarrow> wf_restarts (restart_watch e t)"
proof -
  assume w: "wf_restarts t"
  let ?f = "foldl (plan_rid e (mon_LocalExpect (i_state t) = MonitorLocalExpectStarted)) (([], []), t)
    (watched_resources (localStatus t))"
  have f: "wf_restarts (snd ?f)" using wf_plan_fold [OF w refl] by blast
  obtain a b u where "?f = ((a, b), u)" by (metis prod.collapse)
  then show ?thesis using f by (simp add: restart_watch_def restart_todo_def Let_def wf_resourceRestartSchedule)
qed

lemma wf_orchestrateResourceRestart:
  assumes "wf_restarts t"
  shows "wf_restarts (orchestrateResourceRestart e t)"
proof -
  have c: "wf_restarts (cancelResourceOrchestrateSchedules u)" if "wf_restarts u" for u
    by (rule wf_same [OF same_restarts_init(11) that])
  have u: "wf_restarts (restart_evicted e t)" by (rule wf_same [OF same_restarts_evicted assms])
  have "wf_restarts (restart_watch e (restart_moved (restart_evicted e t)))"
    by (rule wf_restart_watch [OF wf_same [OF same_restarts_moved u]])
  then show ?thesis using assms c u by (simp add: orchestrateResourceRestart_def Let_def)
qed

text \<open>
  The managers whose resource monitors come from their initialisation: from there on, by the
  orchestration of the restarts, the restarts themselves, and any operation that leaves the resource
  monitors and the configuration alone. A new configuration initialises them again.
\<close>

inductive watching :: "imon \<Rightarrow> bool" where
  initialised: "cfg_Actor (i_config t) = Some ac \<Longrightarrow> wf_map (ac_Resources ac) \<Longrightarrow> watching (initResourceMonitor t)"
| orchestrated: "watching t \<Longrightarrow> watching (orchestrateResourceRestart e t)"
| restarts: "watching t \<Longrightarrow> watching (resourceRestart e rids standby t)"
| otherwise: "watching t \<Longrightarrow> same_restarts t t' \<Longrightarrow> watching t'"

lemma wf_initResourceMonitor:
  assumes "cfg_Actor (i_config t) = Some ac" and "wf_map (ac_Resources ac)"
  shows "wf_restarts (initResourceMonitor t)"
proof -
  let ?m = "concat (map (\<lambda>(rid, rcfg). if rc_Restart rcfg > 0
    then [(rid, \<lparr>rm_Restart = Some \<lparr>rr_Remaining = rc_Restart rcfg, rr_LastAt = 0\<rparr>\<rparr>)] else []) (ac_Resources ac))"
  have "\<exists>rc. (rid, rc) \<in> set (ac_Resources ac) \<and> 0 < rc_Restart rc
      \<and> rm = \<lparr>rm_Restart = Some \<lparr>rr_Remaining = rc_Restart rc, rr_LastAt = 0\<rparr>\<rparr>"
    if "map_of ?m rid = Some rm" for rid rm
    using map_of_SomeD [OF that] by (auto split: if_splits)
  moreover have "mon_Resources (i_state (initResourceMonitor t)) = ?m" "i_config (initResourceMonitor t) = i_config t"
    using assms(1) by (simp_all add: initResourceMonitor_def cancelResourceOrchestrateSchedules_def Let_def)
  moreover have "(rid, rc) \<in> set (ac_Resources ac) \<Longrightarrow> map_of (ac_Resources ac) rid = Some rc" for rid rc
    using assms(2) by (simp add: wf_map_def)
  ultimately show ?thesis
    using assms(1) unfolding wf_restarts_def actorConfig_def by fastforce
qed

section \<open>When a restart is scheduled\<close>

text \<open>A resource is due for a restart when it is enabled, not stopped on purpose, and neither up nor unknown.\<close>

definition due :: "resource_config \<Rightarrow> resource_status \<Rightarrow> bool" where
  "due rc rs \<longleftrightarrow> \<not> rc_IsDisabled rc \<and> \<not> rs_IsStopped rs \<and> rs_Status rs \<notin> {StNotApplicable, StUndef, StUp, StStandbyUp}"

definition restart_due :: "imon \<Rightarrow> bool \<Rightarrow> bool \<Rightarrow> (string \<times> resource_status) list \<Rightarrow> string \<Rightarrow> bool" where
  "restart_due t standby started l rid \<longleftrightarrow>
    (\<exists>rs rc. (rid, rs) \<in> set l \<and> map_of (ac_Resources (actorConfig t)) rid = Some rc
      \<and> rc_IsStandby rc = standby \<and> due rc rs \<and> (standby \<or> started))"

lemma plan_restart_due:
  "fst (orchestrateResourcePlan rid rcfg rmon rs started t) = PlanRestart \<Longrightarrow> due rcfg rs \<and> (rc_IsStandby rcfg \<or> started)"
  by (auto simp: orchestrateResourcePlan_def due_def Let_def split: if_splits option.splits)

lemma plan_scheduled:
  "scheduled b (snd (orchestrateResourcePlan rid rcfg rmon rs started t)) \<subseteq> scheduled b t"
proof -
  have d: "scheduled b (plan_drop c rid t) \<subseteq> scheduled b t" for c
    using same_restarts_plan_drop [of t c rid] by (cases b) (simp_all add: same_restarts_def)
  have r: "scheduled b (plan_reset rcfg rmon rid u) = scheduled b u" for u
    by (simp add: plan_reset_def set_resource_def scheduled_def orchestrationResource_def split: option.splits)
  show ?thesis using d by (simp add: orchestrateResourcePlan_def Let_def r split: option.splits)
qed

lemma plan_config: "i_config (snd (orchestrateResourcePlan rid rcfg rmon rs started t)) = i_config t"
proof -
  have "i_config (plan_drop c rid t) = i_config t" for c
    using same_restarts_plan_drop [of t c rid] by (simp add: same_restarts_def)
  then show ?thesis by (simp add: orchestrateResourcePlan_def Let_def split: option.splits)
qed

text \<open>One resource adds at most itself to what is to be restarted, when it is due.\<close>

lemma plan_rid_due:
  assumes "plan_rid e started ((sb, rg), t) x = ((sb', rg'), t')"
  shows "scheduled b t' \<subseteq> scheduled b t" "i_config t' = i_config t"
    "rid \<in> set sb' \<Longrightarrow> rid \<in> set sb \<or> restart_due t True started [x] rid"
    "rid \<in> set rg' \<Longrightarrow> rid \<in> set rg \<or> restart_due t False started [x] rid"
proof -
  obtain i rs where x: "x = (i, rs)" by (cases x)
  have "scheduled b t' \<subseteq> scheduled b t \<and> i_config t' = i_config t
      \<and> (rid \<in> set sb' \<longrightarrow> rid \<in> set sb \<or> restart_due t True started [x] rid)
      \<and> (rid \<in> set rg' \<longrightarrow> rid \<in> set rg \<or> restart_due t False started [x] rid)"
  proof (cases "map_of (ac_Resources (actorConfig t)) i")
    case None
    then show ?thesis using assms by (simp add: plan_rid_def x)
  next
    case (Some rcfg)
    let ?p = "orchestrateResourcePlan i rcfg (map_of (mon_Resources (i_state t)) i) rs started t"
    obtain pl u where p: "?p = (pl, u)" by (cases ?p)
    have u: "scheduled b u \<subseteq> scheduled b t" "i_config u = i_config t"
      using plan_scheduled [of b i rcfg _ rs started t] plan_config [of i rcfg _ rs started t] p by (metis snd_conv)+
    have d: "pl = PlanRestart \<Longrightarrow> due rcfg rs \<and> (rc_IsStandby rcfg \<or> started)"
      using plan_restart_due [of i rcfg _ rs started t] p by (metis fst_conv)
    let ?v = "cancelResourceOrchestrateSchedules (doMonitorAction i (i_initialMonitorAction u) e (setLocalExpect MonitorLocalExpectEvicted u))"
    have "same_restarts u ?v"
      by (rule same_restarts_trans [OF same_restarts_trans [OF same_restarts_init(5) same_restarts_doMonitorAction]
            same_restarts_init(11)])
    then have v: "scheduled b ?v \<subseteq> scheduled b u" "i_config ?v = i_config u" by (cases b, simp_all add: same_restarts_def)
    show ?thesis
      using assms u d v Some p
      by (cases pl; cases "rc_IsStandby rcfg") (auto simp: plan_rid_def x restart_due_def)
  qed
  then show "scheduled b t' \<subseteq> scheduled b t" "i_config t' = i_config t"
    "rid \<in> set sb' \<Longrightarrow> rid \<in> set sb \<or> restart_due t True started [x] rid"
    "rid \<in> set rg' \<Longrightarrow> rid \<in> set rg \<or> restart_due t False started [x] rid" by blast+
qed

lemma plan_fold_due:
  assumes "foldl (plan_rid e started) ((sb, rg), t) l = ((sb', rg'), t')"
  shows "scheduled b t' \<subseteq> scheduled b t \<and> i_config t' = i_config t
    \<and> (\<forall>rid \<in> set sb'. rid \<in> set sb \<or> restart_due t True started l rid)
    \<and> (\<forall>rid \<in> set rg'. rid \<in> set rg \<or> restart_due t False started l rid)"
  using assms
proof (induction l arbitrary: sb rg t)
  case (Cons x l)
  obtain sb1 rg1 t1 where p: "plan_rid e started ((sb, rg), t) x = ((sb1, rg1), t1)" by (metis prod.collapse)
  note q = plan_rid_due [OF p] and IH = Cons.IH [of sb1 rg1 t1]
  have mono: "restart_due t c started [x] rid \<Longrightarrow> restart_due t c started (x # l) rid"
    "restart_due t1 c started l rid \<Longrightarrow> restart_due t c started (x # l) rid" for c rid
    using q(2) by (auto simp: restart_due_def actorConfig_def)
  show ?case using IH Cons.prems q mono by (simp add: p) blast
qed simp

lemma schedule_rid_scheduled: "scheduled b (schedule_rid standby t rid) \<subseteq> scheduled b t \<union> (if b = standby then {rid} else {})"
  by (auto simp: schedule_rid_def Let_def set_resource_def set_orchestrationResource_def scheduled_def
      orchestrationResource_def split: option.splits)

lemma getRidsAndDelay_subset: "set (fst (getRidsAndDelay e todo t)) \<subseteq> set todo"
proof -
  let ?f = "\<lambda>(rids, maxDelay) rid.
      case (map_of (ac_Resources (actorConfig t)) rid, map_of (mon_Resources (i_state t)) rid) of
        (Some rcfg, Some rmon) \<Rightarrow> (rids @ [rid], max maxDelay (restart_delay (e_now e) rcfg rmon))
      | _ \<Rightarrow> (rids, maxDelay)"
  have "set (fst (foldl ?f (a, d) todo)) \<subseteq> set a \<union> set todo" for a d
  proof (induction todo arbitrary: a d)
    case (Cons x l)
    obtain a' d' where s: "?f (a, d) x = (a', d')" by (cases "?f (a, d) x")
    then have "set a' \<subseteq> set a \<union> {x}" by (auto split: option.splits)
    then show ?case using Cons.IH [of a' d'] s by (simp only: foldl_Cons list.set) blast
  qed simp
  from this [of "[]" 0] show ?thesis by (simp add: getRidsAndDelay_def)
qed

lemma resourceRestartSchedule_scheduled:
  "scheduled b (resourceRestartSchedule e todo standby t) \<subseteq> scheduled b t \<union> (if b = standby then set todo else {})"
proof -
  have f: "scheduled b (foldl (schedule_rid standby) u l) \<subseteq> scheduled b u \<union> (if b = standby then set l else {})" for u l
  proof (induction l arbitrary: u)
    case (Cons x l)
    show ?case using Cons.IH [of "schedule_rid standby u x"] schedule_rid_scheduled [of b standby u x] by (auto split: if_splits)
  qed simp
  obtain rids d where r: "getRidsAndDelay e todo t = (rids, d)" by (cases "getRidsAndDelay e todo t")
  then have "set rids \<subseteq> set todo" using getRidsAndDelay_subset [of e todo t] by simp
  moreover have "scheduled b (set_orchestrationResource standby ((orchestrationResource standby t)\<lparr>or_scheduler := x, or_dangling := y\<rparr>) t)
      = scheduled b t" for x y
    by (auto simp: scheduled_def set_orchestrationResource_def orchestrationResource_def)
  ultimately show ?thesis
    using f by (auto simp: resourceRestartSchedule_def r Let_def split: if_splits) blast+
qed

lemma restart_todo_scheduled:
  "scheduled b (restart_todo e ((sb, rg), t)) \<subseteq> scheduled b t \<union> (if b then set sb else set rg)"
proof -
  let ?u = "if sb \<noteq> [] then resourceRestartSchedule e sb True t else t"
  have "scheduled b ?u \<subseteq> scheduled b t \<union> (if b then set sb else {})"
    using resourceRestartSchedule_scheduled [of b e sb True t] by (cases b) auto
  moreover have "scheduled b (restart_todo e ((sb, rg), t)) \<subseteq> scheduled b ?u \<union> (if b then {} else set rg)"
    using resourceRestartSchedule_scheduled [of b e rg False ?u] by (cases b) (auto simp: restart_todo_def Let_def)
  ultimately show ?thesis by (auto split: if_splits)
qed

lemma restart_watch_scheduled:
  assumes "rid \<in> scheduled standby (restart_watch e t)" and "rid \<notin> scheduled standby t"
  shows "restart_due t standby (mon_LocalExpect (i_state t) = MonitorLocalExpectStarted)
    (watched_resources (localStatus t)) rid"
proof -
  let ?s = "mon_LocalExpect (i_state t) = MonitorLocalExpectStarted" and ?l = "watched_resources (localStatus t)"
  obtain sb rg u where f: "foldl (plan_rid e ?s) (([], []), t) ?l = ((sb, rg), u)" by (metis prod.collapse)
  have "rid \<in> scheduled standby u \<union> (if standby then set sb else set rg)"
    using assms(1) restart_todo_scheduled [of standby e sb rg u] by (auto simp: restart_watch_def f)
  moreover have "rid \<notin> scheduled standby u" using plan_fold_due [OF f, of standby] assms(2) by blast
  ultimately show ?thesis using plan_fold_due [OF f] by (cases standby) auto
qed

section \<open>Properties\<close>

text \<open>
  C32. The restarts of a resource stay within its budget: from the initialisation of the resource
  monitors on, the restarts left are never negative nor more than the configuration of the resource
  says, whatever the orders the restarts are planned, scheduled, dropped and run in.
\<close>

theorem restart_budget:
  assumes "watching t" and "map_of (mon_Resources (i_state t)) rid = Some rm"
  shows "\<exists>rc r. map_of (ac_Resources (actorConfig t)) rid = Some rc \<and> rm_Restart rm = Some r
    \<and> 0 \<le> rr_Remaining r \<and> rr_Remaining r \<le> rc_Restart rc"
proof -
  have "wf_restarts t"
    using assms(1)
    by induction (auto intro: wf_initResourceMonitor wf_orchestrateResourceRestart wf_resourceRestart wf_same)
  then show ?thesis using assms(2) unfolding wf_restarts_def by blast
qed

text \<open>
  A restart is scheduled only for a resource of an instance that should run here: the node is
  idle and not frozen, the instance is provisioned, not frozen and at rest or failed, the resource
  is watched, configured, enabled, not stopped on purpose and neither up nor unknown; and unless it
  is a standby resource the instance is to be kept started and no peer runs the failover object.
\<close>

theorem resource_restart_guarded:
  assumes "rid \<in> scheduled standby (orchestrateResourceRestart e t)" and "rid \<notin> scheduled standby t"
    and "mon_LocalExpect (i_state t) \<noteq> MonitorLocalExpectEvicted"
  shows "\<not> node_IsFrozen (localNodeStatus t) \<and> nm_State (localNodeMonitor t) = NodeStateIdle
    \<and> \<not> IsFrozen (localStatus t) \<and> st_Provisioned (localStatus t) \<in> {PrTrue, PrNotApplicable}
    \<and> mstate t \<in> {MonitorStateIdle, MonitorStateStartFailure, MonitorStateStopFailure}
    \<and> restart_due t standby (mon_LocalExpect (i_state t) = MonitorLocalExpectStarted \<and> \<not> failoverRunsOnPeer t)
        (watched_resources (localStatus t)) rid"
proof -
  have c: "scheduled standby (cancelResourceOrchestrateSchedules t) = scheduled standby t"
    by (simp add: cancelResourceOrchestrateSchedules_def cancelSchedule_def scheduled_def orchestrationResource_def)
  have ev: "restart_evicted e t = t" using assms(3) by (simp add: restart_evicted_def)
  have g: "\<not> node_IsFrozen (localNodeStatus t)" "nm_State (localNodeMonitor t) = NodeStateIdle" "\<not> IsFrozen (localStatus t)"
    "\<not> provisioned_IsOneOf (st_Provisioned (localStatus t)) [PrFalse, PrMixed, PrUndef]"
    "MonitorState_IsOneOf (mstate t) [MonitorStateIdle, MonitorStateStartFailure, MonitorStateStopFailure]"
    "rid \<in> scheduled standby (restart_watch e (restart_moved t))"
    using assms(1,2) c by (auto simp: orchestrateResourceRestart_def ev Let_def split: if_splits)
  let ?m = "restart_moved t"
  have "rid \<notin> scheduled standby ?m"
    using assms(2) same_restarts_moved [of t] by (cases standby) (auto simp: same_restarts_def)
  from restart_watch_scheduled [OF g(6) this]
  have d: "restart_due ?m standby (mon_LocalExpect (i_state ?m) = MonitorLocalExpectStarted) (watched_resources (localStatus ?m)) rid" .
  have "localStatus ?m = localStatus t" "actorConfig ?m = actorConfig t"
    "mon_LocalExpect (i_state ?m) = MonitorLocalExpectStarted
      \<longleftrightarrow> mon_LocalExpect (i_state t) = MonitorLocalExpectStarted \<and> \<not> failoverRunsOnPeer t"
    by (auto simp: restart_moved_def Let_def localStatus_def actorConfig_def disableMonitor_def setLocalExpect_def
        split: prod.splits)
  with d have "restart_due t standby (mon_LocalExpect (i_state t) = MonitorLocalExpectStarted \<and> \<not> failoverRunsOnPeer t)
      (watched_resources (localStatus t)) rid" by (simp add: restart_due_def)
  moreover have "st_Provisioned (localStatus t) \<in> {PrTrue, PrNotApplicable}"
    using g(4) by (cases "st_Provisioned (localStatus t)") simp_all
  ultimately show ?thesis using g(1,2,3,5) by (simp add: MonitorState_IsOneOf_iff)
qed


text \<open>
  A restart cancelled by the freeze of its node is lost: the timer is stopped, but the resource
  stays among the scheduled ones, so that even once the node is thawed the plan of the resource asks
  for nothing as long as it is down.
\<close>

theorem cancelled_restart_lost:
  assumes "rid \<in> scheduled standby t" and "Kinds_Has resourceOrchestrableKinds (p_Kind (i_path t))"
    and "node_IsFrozen (localNodeStatus t)" and "due rcfg rs" and "rc_IsStandby rcfg = standby"
  shows "let u = (orchestrateResourceRestart e t)\<lparr>i_nodeStatus := thawed\<rparr>
    in or_scheduler (orchestrationResource standby u) = None
      \<and> orchestrateResourcePlan rid rcfg rmon rs started u = (PlanNone, u)"
proof -
  have c: "orchestrateResourceRestart e t = cancelResourceOrchestrateSchedules t"
    using assms(2,3) by (simp add: orchestrateResourceRestart_def)
  let ?u = "(cancelResourceOrchestrateSchedules t)\<lparr>i_nodeStatus := thawed\<rparr>"
  have "or_scheduler (orchestrationResource standby ?u) = None" "alreadyScheduled (orchestrationResource standby ?u) rid"
    using assms(1) by (cases standby; simp add: cancelResourceOrchestrateSchedules_def cancelSchedule_def
        orchestrationResource_def alreadyScheduled_def scheduled_def)+
  then show ?thesis
    using assms(4,5) by (auto simp: c Let_def orchestrateResourcePlan_def due_def)
qed

section \<open>Witnesses\<close>

definition demo_rc :: resource_config where
  "demo_rc = \<lparr>rc_IsDisabled = False, rc_IsMonitored = True, rc_IsStandby = False, rc_Restart = 2, rc_RestartDelay = Some 30\<rparr>"

definition demo_rs :: resource_status where
  "demo_rs = zero_resource_status\<lparr>rs_Status := StDown, rs_Type := ''fs.ext4''\<rparr>"

definition demo_watch :: imon where
  "demo_watch = initResourceMonitor ((demo_manager ''n1'')
    \<lparr>i_config := zero_config\<lparr>cfg_Scope := demo_nodes, cfg_Actor := Some (zero_actor_config\<lparr>ac_Resources := [(''fs#1'', demo_rc)]\<rparr>)\<rparr>,
     i_instStatus := [(''n1'', demo_status\<lparr>st_Avail := StWarn, st_Resources := [(''fs#1'', demo_rs)]\<rparr>), (''n2'', demo_status)],
     i_state := (start_state 1)\<lparr>mon_LocalExpect := MonitorLocalExpectStarted\<rparr>\<rparr>)"

definition demo_restarting :: imon where
  "demo_restarting = orchestrateResourceRestart demo_env demo_watch"

lemma demo_watching: "watching demo_restarting"
  unfolding demo_restarting_def demo_watch_def
  by (rule watching.orchestrated, rule watching.initialised [where ac = "zero_actor_config\<lparr>ac_Resources := [(''fs#1'', demo_rc)]\<rparr>"])
    (simp_all add: wf_map_def)

theorem restart_budget_witness:
  "\<exists>rc r. map_of (ac_Resources (actorConfig demo_restarting)) ''fs#1'' = Some rc
    \<and> rm_Restart \<lparr>rm_Restart = Some \<lparr>rr_Remaining = 1, rr_LastAt = 0\<rparr>\<rparr> = Some r
    \<and> 0 \<le> rr_Remaining r \<and> rr_Remaining r \<le> rc_Restart rc"
proof (rule restart_budget [OF demo_watching])
  show "map_of (mon_Resources (i_state demo_restarting)) ''fs#1'' = Some \<lparr>rm_Restart = Some \<lparr>rr_Remaining = 1, rr_LastAt = 0\<rparr>\<rparr>"
    by code_simp
qed

lemma demo_restart_scheduled: "''fs#1'' \<in> scheduled False demo_restarting" "''fs#1'' \<notin> scheduled False demo_watch"
    "mon_LocalExpect (i_state demo_watch) \<noteq> MonitorLocalExpectEvicted"
  by code_simp+

theorem resource_restart_guarded_witness:
  "st_Provisioned (localStatus demo_watch) \<in> {PrTrue, PrNotApplicable}
    \<and> restart_due demo_watch False (mon_LocalExpect (i_state demo_watch) = MonitorLocalExpectStarted \<and> \<not> failoverRunsOnPeer demo_watch)
        (watched_resources (localStatus demo_watch)) ''fs#1''"
  using resource_restart_guarded [OF demo_restart_scheduled(1) [unfolded demo_restarting_def] demo_restart_scheduled(2,3)]
  by blast

definition demo_frozen_node :: imon where
  "demo_frozen_node = demo_restarting\<lparr>i_nodeStatus := [(''n1'', zero_node_status\<lparr>ns_FrozenAt := 1\<rparr>)]\<rparr>"

theorem cancelled_restart_lost_witness:
  "let u = (orchestrateResourceRestart demo_env demo_frozen_node)\<lparr>i_nodeStatus := []\<rparr>
   in or_scheduler (orchestrationResource False u) = None
    \<and> orchestrateResourcePlan ''fs#1'' demo_rc None demo_rs True u = (PlanNone, u)"
proof (rule cancelled_restart_lost)
  show "''fs#1'' \<in> scheduled False demo_frozen_node"
    using demo_restart_scheduled(1) by (simp add: demo_frozen_node_def scheduled_def orchestrationResource_def)
  show "Kinds_Has resourceOrchestrableKinds (p_Kind (i_path demo_frozen_node))" "node_IsFrozen (localNodeStatus demo_frozen_node)"
    by code_simp+
qed (simp_all add: due_def demo_rc_def demo_rs_def zero_resource_status_def)

end
