(* ===== verification/Writes.thy ===== *)
theory Writes
  imports Instance
begin

text \<open>
  The records of the writes, \<open>core/object/writes.go\<close>: for every node of an object a file of its var
  directory says whether the instance there writes the data of the object, and its modification
  time since when. They tell how far behind a copy of the data is.

  A directory is the map of its record files, content and modification time, or none when it does
  not exist. The other failures of the file system are the argument \<open>ioErr\<close>: the file can not be
  read or written. The wall clock is \<open>now\<close>.
\<close>

section \<open>Records\<close>

type_synonym writes_dir = "(string, string \<times> time) gomap option"

definition writesRunning :: string where "writesRunning = ''running''"

definition writesStopped :: string where "writesStopped = ''stopped''"

definition writesPrefix :: string where "writesPrefix = ''writes_''"

definition millisecond :: duration where "millisecond = 1000000"

definition writesName :: "string \<Rightarrow> string option" where
  "writesName nodename =
    (if nodename = [] \<or> nodename = ''.'' \<or> nodename = ''..'' \<or> CHR ''/'' \<in> set nodename \<or> CHR 0x5C \<in> set nodename
     then None else Some (writesPrefix @ nodename))"

text \<open>The loop of \<open>WritesStoppedAt\<close> over the records: a running one ends it with the zero time.\<close>

fun latest_stop :: "(string, string \<times> time) gomap \<Rightarrow> time \<Rightarrow> time option" where
  "latest_stop [] latest = Some latest"
| "latest_stop ((name, b, mtime) # l) latest =
    (if TrimSpace b = writesRunning then None
     else if TrimSpace b = writesStopped then latest_stop l (if mtime > latest then mtime else latest)
     else latest_stop l latest)"

definition WritesStoppedAt :: "time \<Rightarrow> writes_dir \<Rightarrow> time" where
  "WritesStoppedAt now dir =
    (case dir of
       None \<Rightarrow> 0
     | Some files \<Rightarrow>
         case latest_stop (filter (\<lambda>(name, _). take (length writesPrefix) name = writesPrefix) files) 0 of
           None \<Rightarrow> 0
         | Some latest \<Rightarrow> if latest > now then now else latest)"

text \<open>An operation returns whether the record changed, or an error, and the directory.\<close>

type_synonym writes_result = "bool option \<times> writes_dir"

definition PeerWritesStopped :: "bool \<Rightarrow> string \<Rightarrow> time \<Rightarrow> writes_dir \<Rightarrow> writes_result" where
  "PeerWritesStopped ioErr nodename at dir =
    (case writesName nodename of
       None \<Rightarrow> (None, dir)
     | Some name \<Rightarrow>
         case dir of
           None \<Rightarrow> (Some False, dir)
         | Some files \<Rightarrow>
             case map_of files name of
               None \<Rightarrow> (Some False, dir)
             | Some (b, mtime) \<Rightarrow>
                 if ioErr then (None, dir)
                 else if TrimSpace b \<noteq> writesRunning then (Some False, dir)
                 else (Some True, Some (AList.update name (writesStopped @ [CHR 10], if at > mtime then at else mtime + millisecond) files)))"

definition ForgetWrites :: "bool \<Rightarrow> string \<Rightarrow> writes_dir \<Rightarrow> bool \<times> writes_dir" where
  "ForgetWrites ioErr nodename dir =
    (case writesName nodename of
       None \<Rightarrow> (True, dir)
     | Some name \<Rightarrow>
         case dir of
           None \<Rightarrow> (False, dir)
         | Some files \<Rightarrow> if ioErr then (True, dir) else (False, Some (AList.delete name files)))"

definition recordWritesIn :: "bool \<Rightarrow> time \<Rightarrow> string \<Rightarrow> bool \<Rightarrow> time \<Rightarrow> bool \<Rightarrow> writes_dir \<Rightarrow> writes_result" where
  "recordWritesIn ioErr now nodename writing at create dir =
    (case writesName nodename of
       None \<Rightarrow> (None, dir)
     | Some name \<Rightarrow>
         if create \<and> dir = None \<and> ioErr then (None, dir)
         else case (if create \<and> dir = None then Some [] else dir) of
           None \<Rightarrow> (Some False, dir)
         | Some files \<Rightarrow>
             let at = (if at = 0 then now else at)
             in if (case map_of files name of Some (_, mtime) \<Rightarrow> \<not> at > mtime | None \<Rightarrow> False) then (Some False, Some files)
                else if ioErr then (None, Some files)
                else
                  let was = (case map_of files name of Some (b, _) \<Rightarrow> TrimSpace b | None \<Rightarrow> [])
                  in if writing \<and> was \<noteq> writesRunning
                     then (Some True, Some (AList.update name (writesRunning @ [CHR 10], at) files))
                     else if \<not> writing \<and> was = writesRunning
                     then (Some True, Some (AList.update name (writesStopped @ [CHR 10], at) files))
                     else (Some False, Some files))"

definition setWrites :: "bool \<Rightarrow> time \<Rightarrow> string \<Rightarrow> bool \<Rightarrow> time \<Rightarrow> writes_dir \<Rightarrow> writes_result" where
  "setWrites ioErr now nodename writing at dir = recordWritesIn ioErr now nodename writing at False dir"

definition IsWriting :: "instance_status \<Rightarrow> bool" where
  "IsWriting data =
    list_ex (\<lambda>(rid, rs). \<not> rs_IsStandby rs \<and> \<not> rs_IsDisabled rs
      \<and> (case resourceid_Parse rid of
            None \<Rightarrow> False
          | Some i \<Rightarrow> resourceid_group_name i \<in> {''app'', ''container'', ''share''})
      \<and> rs_Status rs \<notin> {StDown, StStandbyDown}) (st_Resources data)"

definition PeerWrites :: "bool \<Rightarrow> time \<Rightarrow> string \<Rightarrow> instance_status \<Rightarrow> writes_dir \<Rightarrow> writes_result" where
  "PeerWrites ioErr now nodename data dir = setWrites ioErr now nodename (IsWriting data) (st_UpdatedAt data) dir"

text \<open>\<open>recordWrites\<close>, of the local instance of an object that is not volatile.\<close>

definition recordWrites :: "bool \<Rightarrow> time \<Rightarrow> string \<Rightarrow> instance_status \<Rightarrow> writes_dir \<Rightarrow> writes_dir" where
  "recordWrites ioErr now localhost data dir = snd (recordWritesIn ioErr now localhost (IsWriting data) now True dir)"

section \<open>A peer lost\<close>

text \<open>A status replayed, no more recent than a record, leaves the record.\<close>

lemma PeerWrites_replayed:
  assumes "writesName n = Some name" and "map_of files name = Some (b, mtime)"
    and "st_UpdatedAt data \<noteq> 0" and "st_UpdatedAt data \<le> mtime"
  shows "PeerWrites ioErr now n data (Some files) = (Some False, Some files)"
  using assms by (simp add: PeerWrites_def setWrites_def recordWritesIn_def Let_def)

text \<open>The replays of a list of statuses, each read at some time, with or without a failure.\<close>

fun replay :: "string \<Rightarrow> (bool \<times> time \<times> instance_status) list \<Rightarrow> writes_dir \<Rightarrow> writes_dir" where
  "replay n [] dir = dir"
| "replay n ((ioErr, now, data) # l) dir = replay n l (snd (PeerWrites ioErr now n data dir))"

lemma replay_none:
  assumes "writesName n = Some name" and "map_of files name = Some (b, mtime)"
    and "\<And>io now data. (io, now, data) \<in> set l \<Longrightarrow> st_UpdatedAt data \<noteq> 0 \<and> st_UpdatedAt data \<le> mtime"
  shows "replay n l (Some files) = Some files"
  using assms(3)
proof (induction l)
  case Nil
  then show ?case by simp
next
  case (Cons a l)
  obtain io now data where a: "a = (io, now, data)" by (cases a)
  have "PeerWrites io now n data (Some files) = (Some False, Some files)"
    by (rule PeerWrites_replayed [OF assms(1,2)]) (use Cons.prems [of io now data] in \<open>simp_all add: a\<close>)
  moreover have "replay n l (Some files) = Some files" by (rule Cons.IH) (rule Cons.prems [OF list.set_intros(2)])
  ultimately show ?case by (simp add: a)
qed

lemma trimmed_states [simp]:
  "TrimSpace (writesStopped @ [CHR 10]) = writesStopped" "TrimSpace (writesRunning @ [CHR 10]) = writesRunning"
  "writesStopped \<noteq> writesRunning" "writesRunning \<noteq> writesStopped"
  by code_simp+

text \<open>
  A node the cluster lost stays recorded as not writing: the loss turns its running record to
  stopped, whatever the clock of the peer said, and no status the peer published before its loss,
  nor the one its record came from, replayed any number of times, makes it running again.
\<close>

theorem lost_peer_stays_stopped:
  assumes "writesName n = Some name" and "map_of files name = Some (b, mtime)" and "TrimSpace b = writesRunning"
    and "\<forall>(io, now, data) \<in> set l. st_UpdatedAt data \<noteq> 0 \<and> (st_UpdatedAt data \<le> at \<or> st_UpdatedAt data \<le> mtime)"
  shows "\<exists>files'. replay n l (snd (PeerWritesStopped False n at (Some files))) = Some files'
    \<and> map_option (TrimSpace \<circ> fst) (map_of files' name) = Some writesStopped"
proof -
  let ?at = "if at > mtime then at else mtime + millisecond"
  let ?files = "AList.update name (writesStopped @ [CHR 10], ?at) files"
  have s: "snd (PeerWritesStopped False n at (Some files)) = Some ?files"
    using assms(1-3) by (simp add: PeerWritesStopped_def)
  have "st_UpdatedAt data \<noteq> 0 \<and> st_UpdatedAt data \<le> ?at" if "(io, now, data) \<in> set l" for io now data
    using assms(4) that by (force simp: millisecond_def)
  moreover have m: "map_of ?files name = Some (writesStopped @ [CHR 10], ?at)" by (simp add: update_conv)
  ultimately have "replay n l (Some ?files) = Some ?files" by (intro replay_none [OF assms(1) m]) blast
  then show ?thesis unfolding s using m by simp
qed

definition demo_data :: instance_status where
  "demo_data = zero_status\<lparr>st_UpdatedAt := 7, st_Resources := [(''app#1'', zero_resource_status\<lparr>rs_Status := StUp\<rparr>)]\<rparr>"

theorem lost_peer_stays_stopped_witness:
  "IsWriting demo_data \<and> (\<exists>files'. replay ''n2'' [(False, 20, demo_data), (False, 30, demo_data)]
      (snd (PeerWritesStopped False ''n2'' 5 (snd (PeerWrites False 8 ''n2'' demo_data (Some []))))) = Some files'
    \<and> map_option (TrimSpace \<circ> fst) (map_of files' ''writes_n2'') = Some writesStopped)"
proof -
  have w: "IsWriting demo_data" by code_simp
  have d: "snd (PeerWrites False 8 ''n2'' demo_data (Some [])) = Some [(''writes_n2'', writesRunning @ [CHR 10], 7)]" by code_simp
  have "writesName ''n2'' = Some ''writes_n2''" by code_simp
  from lost_peer_stays_stopped [OF this, of "[(''writes_n2'', writesRunning @ [CHR 10], 7)]" "writesRunning @ [CHR 10]" 7
      "[(False, 20, demo_data), (False, 30, demo_data)]" 5]
  show ?thesis unfolding d using w by (simp add: demo_data_def)
qed

end
