(* ===== verification/Imon_Handlers.thy ===== *)
theory Imon_Handlers
  imports Imon_Place Imon_Provision Imon_Resize Imon_Restarted Imon_Resources Writes
begin

text \<open>
  The worker of an instance monitor: the dispatch of the orchestrations (\<open>orchestration.go\<close>), the
  handlers of the messages it receives (\<open>main_cmd.go\<close>), the watches of the objects its affinities
  name (\<open>affinity.go\<close>) and of its volumes (\<open>volume_refresh.go\<close>), its start (\<open>main.go\<close>).

  A handler is a function of the environment and the manager. The ones that touch the volumes
  watched or the records of the writes work on a \<open>worker\<close>, the manager with both. Subscriptions to
  the bus follow from the fields and are left out, as the fetch of the files of the resources.
\<close>

section \<open>The dispatch of the orchestrations\<close>

definition isDone :: "env \<Rightarrow> bool" where
  "isDone e = e_done e"

definition orchestrate_expect :: "env \<Rightarrow> imon \<Rightarrow> imon" where
  "orchestrate_expect e t =
    (case mon_GlobalExpect (i_state t) of
       MonitorGlobalExpectCapped \<Rightarrow> orchestrateCapped e t
     | MonitorGlobalExpectDeleted \<Rightarrow> orchestrateDeleted e t
     | MonitorGlobalExpectNone \<Rightarrow> orchestrateNone e t
     | MonitorGlobalExpectFrozen \<Rightarrow> orchestrateFrozen e t
     | MonitorGlobalExpectProvisioned \<Rightarrow> orchestrateProvisioned e t
     | MonitorGlobalExpectPlaced \<Rightarrow> orchestratePlaced e t
     | MonitorGlobalExpectPlacedAt \<Rightarrow> orchestratePlacedAt e t
     | MonitorGlobalExpectPurged \<Rightarrow> orchestratePurged e t
     | MonitorGlobalExpectResized \<Rightarrow> orchestrateResized e t
     | MonitorGlobalExpectRestarted \<Rightarrow> orchestrateRestarted e t
     | MonitorGlobalExpectStarted \<Rightarrow> orchestrateStarted e t
     | MonitorGlobalExpectStopped \<Rightarrow> orchestrateStopped e t
     | MonitorGlobalExpectUnfrozen \<Rightarrow> orchestrateUnfrozen e t
     | MonitorGlobalExpectUnprovisioned \<Rightarrow> orchestrateUnprovisioned e t
     | _ \<Rightarrow> t)"

definition orchestrate_idle_node :: "env \<Rightarrow> imon \<Rightarrow> imon" where
  "orchestrate_idle_node e t =
    (if i_statusQueued t then t
     else
       let t = clearStoppedFlagOnRequest e t;
           t = orchestrateResourceRestart e t
       in if isDone e then t else updateIfChange e (orchestrate_expect e t))"

definition orchestrate :: "env \<Rightarrow> imon \<Rightarrow> imon" where
  "orchestrate e t =
    (if isDone e then t
     else if map_of (i_instStatus t) (i_localhost t) = None then t
     else if map_of (i_nodeStatus t) (i_localhost t) = None then t
     else if \<not> isConvergedGlobalExpect e t then t
     else
       let t = (if mon_GlobalExpect (i_state t) = MonitorGlobalExpectAborted then orchestrateAborted e t else t)
       in if mon_OrchestrationID (i_state t) \<noteq> 0 \<and> mon_OrchestrationIsDone (i_state t) \<and> \<not> i_statusQueued t
          then (if orchestrationIsDoneOnAll t then endOrchestration e t else t)
          else if nm_State (localNodeMonitor t) = NodeStateIdle then orchestrate_idle_node e t
          else if nm_State (localNodeMonitor t) = NodeStateShutdownProgress
          then (if mon_LocalExpect (i_state t) = MonitorLocalExpectShutdown then orchestrateLocalExpectShutdown e t else t)
          else t)"

section \<open>Delayed work\<close>

definition enableDelayTimer :: "imon \<Rightarrow> imon" where
  "enableDelayTimer t = (if i_delayTimerEnabled t then t else t\<lparr>i_delayTimerEnabled := True\<rparr>)"

definition onChange :: "env \<Rightarrow> imon \<Rightarrow> imon" where
  "onChange e t =
    (updateIsLeader e (enableDelayTimer t))\<lparr>i_delayOrchestrateEnabled := True, i_delayUpdateEnabled := True\<rparr>"

definition updateOrchestrateUpdate :: "imon \<Rightarrow> imon" where
  "updateOrchestrateUpdate t =
    (enableDelayTimer t)\<lparr>i_delayPreUpdateEnabled := True, i_delayOrchestrateEnabled := True, i_delayUpdateEnabled := True\<rparr>"

definition onStatusDone :: "imon \<Rightarrow> imon" where
  "onStatusDone t = updateOrchestrateUpdate t"

definition onDelayTimer :: "env \<Rightarrow> imon \<Rightarrow> imon" where
  "onDelayTimer e t =
    (let t = t\<lparr>i_delayTimerEnabled := False\<rparr>;
         t = (if i_delayPreUpdateEnabled t then updateIfChange e (t\<lparr>i_delayPreUpdateEnabled := False\<rparr>) else t);
         t = (if i_delayOrchestrateEnabled t then orchestrate e (t\<lparr>i_delayOrchestrateEnabled := False\<rparr>) else t)
     in if i_delayUpdateEnabled t then updateIfChange e (t\<lparr>i_delayUpdateEnabled := False\<rparr>) else t)"

definition needOrchestrate :: "env \<Rightarrow> monitor_state \<Rightarrow> monitor_state \<Rightarrow> imon \<Rightarrow> imon" where
  "needOrchestrate e state newState t =
    (if state = MonitorStateInit then t
     else if isDone e then t
     else orchestrate e (actionEnded e state newState t))"

definition onWaitSyncsTimer :: "env \<Rightarrow> imon \<Rightarrow> imon" where
  "onWaitSyncsTimer e t = (if mstate t \<noteq> MonitorStateWaitSyncs then t else onChange e t)"

definition onWaitDestinationTimer :: "env \<Rightarrow> imon \<Rightarrow> imon" where
  "onWaitDestinationTimer e t = (if mstate t \<noteq> MonitorStateWaitDestination then t else onChange e t)"

section \<open>Requests\<close>

datatype request_error =
    ErrInvalidState
  | ErrInvalidGlobalExpect
  | ErrInProgress
  | ErrNoCandidate
  | ErrLiveManyDestinations
  | ErrNoDestination
  | ErrDestinationBlocked
  | ErrNotStartable
  | ErrNoGiveback
  | ErrMoreRecent
  | ErrInvalidLocalExpect

definition setState :: "monitor_update \<Rightarrow> imon \<Rightarrow> request_error option \<times> imon" where
  "setState u t =
    (case mu_State u of
       None \<Rightarrow> (None, t)
     | Some s \<Rightarrow>
         if \<not> has_key MonitorStateToString s then (Some ErrInvalidState, t)
         else if s = MonitorStateInit then (Some ErrInvalidState, t)
         else (None, if mstate t \<noteq> s then set_mstate s (t\<lparr>i_change := True\<rparr>) else t))"

text \<open>
  The options a switch is accepted with: the destination chosen, or the wanted ones that can take
  the object. The names of several of them are one string, joined with commas.
\<close>

definition placedAtOptions :: "env \<Rightarrow> ge_options \<Rightarrow> imon \<Rightarrow> request_error + ge_options" where
  "placedAtOptions e opts t =
    (let (dst, live, interrupt) = (case opts of GeoPlacedAt dst live interrupt \<Rightarrow> (dst, live, interrupt) | _ \<Rightarrow> ([], False, False))
     in if dst = [] then
          (let d = nextPlacedAtCandidate e t in if d = [] then Inl ErrNoCandidate else Inr (GeoPlacedAt [d] live interrupt))
        else if live \<and> length dst > 1 then Inl ErrLiveManyDestinations
        else case nextPlacedAtCandidates e t dst of
          None \<Rightarrow> Inl ErrNoDestination
        | Some can \<Rightarrow> if can = [] then Inl ErrNoDestination else Inr (GeoPlacedAt [can] live interrupt))"

definition checkGlobalExpect :: "env \<Rightarrow> monitor_global_expect \<Rightarrow> ge_options \<Rightarrow> imon \<Rightarrow> request_error + ge_options" where
  "checkGlobalExpect e ge opts t =
    (case ge of
       MonitorGlobalExpectPlacedAt \<Rightarrow>
         (case placedAtOptions e opts t of
            Inl err \<Rightarrow> Inl err
          | Inr opts \<Rightarrow> if unliftableBlockers t (geo_Destination opts) \<noteq> [] then Inl ErrDestinationBlocked else Inr opts)
     | MonitorGlobalExpectStarted \<Rightarrow> if isRequestedStartable e t then Inr opts else Inl ErrNotStartable
     | MonitorGlobalExpectPlaced \<Rightarrow>
         if fst (hardAffinityRefusal e t (provisionedInstances t (\<lambda>_. True))) then Inl ErrNoGiveback else Inr opts
     | _ \<Rightarrow> Inr opts)"

definition hasMoreRecentExpect :: "monitor_global_expect \<Rightarrow> imon \<Rightarrow> bool" where
  "hasMoreRecentExpect ge t =
    list_ex (\<lambda>(_, m). mon_GlobalExpect m \<noteq> ge \<and> mon_GlobalExpect m \<noteq> MonitorGlobalExpectInit
      \<and> mon_GlobalExpect m \<noteq> MonitorGlobalExpectNone
      \<and> mon_GlobalExpectUpdatedAt m > mon_GlobalExpectUpdatedAt (i_state t)) (i_instMonitor t)"

definition setGlobalExpect :: "env \<Rightarrow> monitor_update \<Rightarrow> imon \<Rightarrow> request_error option \<times> imon" where
  "setGlobalExpect e u t =
    (case mu_GlobalExpect u of
       None \<Rightarrow> (None, t)
     | Some ge \<Rightarrow>
         if \<not> has_key MonitorGlobalExpectStrings ge
         then (Some ErrInvalidGlobalExpect, emit (PubSetInstanceMonitorRefused u) t)
         else if mon_OrchestrationID (i_state t) \<noteq> 0 \<and> ge \<noteq> MonitorGlobalExpectAborted then (Some ErrInProgress, t)
         else case checkGlobalExpect e ge (mu_GlobalExpectOptions u) t of
           Inl err \<Rightarrow> (Some err, emit (PubSetInstanceMonitorRefused u) t)
         | Inr opts \<Rightarrow>
             if hasMoreRecentExpect ge t then (Some ErrMoreRecent, emit (PubSetInstanceMonitorRefused u) t)
             else if ge = mon_GlobalExpect (i_state t) then (None, t)
             else
               let t = (if ge = MonitorGlobalExpectAborted then savePendingOrchestration t else t)
               in (None, t\<lparr>i_change := True,
                     i_state := (i_state t)\<lparr>mon_GlobalExpect := ge, mon_GlobalExpectOptions := opts,
                       mon_GlobalExpectUpdatedAt := e_now e, mon_State := MonitorStateIdle,
                       mon_OrchestrationIsDone := False\<rparr>\<rparr>))"

definition setRequestedLocalExpect :: "monitor_update \<Rightarrow> imon \<Rightarrow> request_error option \<times> imon" where
  "setRequestedLocalExpect u t =
    (case mu_LocalExpect u of
       None \<Rightarrow> (None, t)
     | Some le \<Rightarrow>
         if le \<in> {MonitorLocalExpectNone, MonitorLocalExpectEvicted, MonitorLocalExpectStarted, MonitorLocalExpectShutdown}
         then (None, if mon_LocalExpect (i_state t) \<noteq> le then (setLocalExpect le t)\<lparr>i_change := True\<rparr> else t)
         else (Some ErrInvalidLocalExpect, t))"

text \<open>The id of the request becomes the one of the orchestration.\<close>

definition acceptRequest :: "monitor_update \<Rightarrow> imon \<Rightarrow> imon" where
  "acceptRequest u t =
    (let t = t\<lparr>i_state := (i_state t)\<lparr>mon_OrchestrationID := mu_CandidateOrchestrationID u\<rparr>\<rparr>;
         t = (if i_endWithDeletion t then publishOrchestrationEnded (t\<lparr>i_endWithDeletion := False\<rparr>) else t)
     in setNextPendingOrchestration (publishOrchestrationAccepted (savePendingOrchestration t)))"

definition refuseRequest :: "monitor_update \<Rightarrow> imon \<Rightarrow> imon" where
  "refuseRequest u t = emit (PubOrchestrationRefused (mu_CandidateOrchestrationID u) (mu_GlobalExpect u)) t"

text \<open>The errors are the ones \<open>errors.Join\<close> sends back to the requester.\<close>

definition onSetInstanceMonitor :: "env \<Rightarrow> monitor_update \<Rightarrow> imon \<Rightarrow> request_error list \<times> imon" where
  "onSetInstanceMonitor e u t =
    (case setState u t of (err1, t) \<Rightarrow>
     case setGlobalExpect e u t of (err2, t) \<Rightarrow>
     case setRequestedLocalExpect u t of (err3, t) \<Rightarrow>
       let errs = concat (map (\<lambda>x. case x of None \<Rightarrow> [] | Some err \<Rightarrow> [err]) [err1, err2, err3]);
           t = (if errs \<noteq> [] then refuseRequest u t
                else if \<not> i_change t then refuseRequest u t
                else if mu_CandidateOrchestrationID u \<noteq> 0
                  \<and> mon_OrchestrationID (i_state t) \<noteq> mu_CandidateOrchestrationID u then acceptRequest u t
                else t)
       in (errs, if i_change t then onChange e t else t))"

definition onProgressInstanceMonitor :: "env \<Rightarrow> monitor_state \<Rightarrow> nat \<Rightarrow> bool \<Rightarrow> imon \<Rightarrow> imon" where
  "onProgressInstanceMonitor e s sessionID isPartial t =
    (if mstate t = s then t
     else
       let t = t\<lparr>i_change := True, i_state := (i_state t)\<lparr>mon_State := s,
                  mon_SessionID := (if s = MonitorStateIdle then 0 else sessionID)\<rparr>\<rparr>;
           t = (if s \<in> {MonitorStateStopProgress, MonitorStateUnprovisionProgress, MonitorStateShutdownProgress}
                  \<and> mon_LocalExpect (i_state t) = MonitorLocalExpectStarted \<and> \<not> isPartial
                then disableMonitor t else t)
       in updateIfChange e (onChange e t))"

section \<open>Nodes and peers\<close>

definition onNodeConfigUpdated :: "env \<Rightarrow> duration \<Rightarrow> imon \<Rightarrow> imon" where
  "onNodeConfigUpdated e readyPeriod t = updateIfChange e (orchestrate e (t\<lparr>i_readyDuration := readyPeriod\<rparr>))"

definition onNodeMonitorUpdated :: "env \<Rightarrow> string \<Rightarrow> node_monitor \<Rightarrow> imon \<Rightarrow> imon" where
  "onNodeMonitorUpdated e n v t = onChange e (t\<lparr>i_nodeMonitor := AList.update n v (i_nodeMonitor t)\<rparr>)"

definition onForgetPeer :: "env \<Rightarrow> string \<Rightarrow> imon \<Rightarrow> imon" where
  "onForgetPeer e n t =
    onChange e (t\<lparr>i_nodeMonitor := AList.delete n (i_nodeMonitor t), i_nodeStats := AList.delete n (i_nodeStats t),
      i_nodeStatus := AList.delete n (i_nodeStatus t)\<rparr>)"

definition onNodeStatusUpdated :: "env \<Rightarrow> string \<Rightarrow> node_status \<Rightarrow> imon \<Rightarrow> imon" where
  "onNodeStatusUpdated e n v t = onChange e (t\<lparr>i_nodeStatus := AList.update n v (i_nodeStatus t)\<rparr>)"

definition onNodeStatsUpdated :: "env \<Rightarrow> string \<Rightarrow> node_stats \<Rightarrow> imon \<Rightarrow> imon" where
  "onNodeStatsUpdated e n v t =
    (let t = t\<lparr>i_nodeStats := AList.update n v (i_nodeStats t)\<rparr>
     in case os_Actor (i_objStatus t) of
          None \<Rightarrow> t
        | Some a \<Rightarrow> if as_PlacementPolicy a = Score then onChange e t else t)"

definition onRemoteInstanceMonitorUpdated :: "env \<Rightarrow> string \<Rightarrow> monitor \<Rightarrow> imon \<Rightarrow> imon" where
  "onRemoteInstanceMonitorUpdated e remote m t =
    replayDeferredEventRefresh e (updateOrchestrateUpdate
      (convergeGlobalExpectFromRemote (t\<lparr>i_instMonitor := AList.update remote m (i_instMonitor t)\<rparr>)))"

definition onInstanceMonitorUpdated :: "env \<Rightarrow> string \<Rightarrow> monitor \<Rightarrow> imon \<Rightarrow> imon" where
  "onInstanceMonitorUpdated e n m t = (if n \<noteq> i_localhost t then onRemoteInstanceMonitorUpdated e n m t else t)"

definition onInstanceMonitorDeletedFromNode :: "env \<Rightarrow> string \<Rightarrow> imon \<Rightarrow> imon" where
  "onInstanceMonitorDeletedFromNode e n t =
    (if n = i_localhost t then t
     else replayDeferredEventRefresh e (updateOrchestrateUpdate
       (convergeGlobalExpectFromRemote (t\<lparr>i_instMonitor := AList.delete n (i_instMonitor t)\<rparr>))))"

section \<open>Flags raised while the daemon was down\<close>

definition objectAvail :: "imon \<Rightarrow> status" where
  "objectAvail t = (case os_Actor (i_objStatus t) of None \<Rightarrow> StUndef | Some a \<Rightarrow> as_Avail a)"

definition objectFreezeMissed :: "(string, instance_status) gomap \<Rightarrow> string \<Rightarrow> time \<Rightarrow> time \<Rightarrow> bool" where
  "objectFreezeMissed instStatus localhost leftAt rejoinedAt =
    list_ex (\<lambda>(peer, st). peer \<noteq> localhost \<and> st_FrozenScope st = ScopeObject
      \<and> st_FrozenAt st > leftAt \<and> st_FrozenAt st < rejoinedAt) instStatus"

definition queueFreeze :: action where
  "queueFreeze e t = crmFreeze e t"

definition mergePeerFrozen :: "env \<Rightarrow> imon \<Rightarrow> imon" where
  "mergePeerFrozen e t =
    (let merged = t\<lparr>i_isPeerFrozenMerged := True\<rparr>; rejoinedAt = ns_RejoinedAt (localNodeStatus t)
     in if i_isPeerFrozenMerged t then t
        else case cfg_Actor (i_config t) of
          None \<Rightarrow> merged
        | Some ac \<Rightarrow>
            if ac_Orchestrate ac \<noteq> ''ha'' then merged
            else if length (i_scopeNodes t) < 2 then merged
            else if mon_GlobalExpect (i_state t) = MonitorGlobalExpectUnfrozen then merged
            else if rejoinedAt = 0 then t
            else case map_of (i_instStatus t) (i_localhost t) of
              None \<Rightarrow> t
            | Some st \<Rightarrow>
                if st_FrozenAt st \<noteq> 0 then merged
                else if objectFreezeMissed (i_instStatus t) (i_localhost t) (ns_LeftAt (localNodeStatus t)) rejoinedAt
                then snd (queueFreeze e merged)
                else if length (i_instStatus t) = length (i_scopeNodes t) then merged
                else if e_now e > rejoinedAt + 2 * minute then merged
                else t)"

definition mergePeerStopped :: "env \<Rightarrow> imon \<Rightarrow> imon" where
  "mergePeerStopped e t =
    (let merged = t\<lparr>i_isPeerStoppedMerged := True\<rparr>; rejoinedAt = ns_RejoinedAt (localNodeStatus t);
         leftAt = ns_LeftAt (localNodeStatus t)
     in if i_isPeerStoppedMerged t then t
        else case cfg_Actor (i_config t) of
          None \<Rightarrow> merged
        | Some ac \<Rightarrow>
            if ac_Orchestrate ac \<notin> {''ha'', ''start''} then merged
            else if length (i_scopeNodes t) < 2 then merged
            else if mon_GlobalExpect (i_state t) \<in> {MonitorGlobalExpectStarted, MonitorGlobalExpectRestarted,
                MonitorGlobalExpectPlaced, MonitorGlobalExpectPlacedAt} then merged
            else if status_Is (objectAvail t) [StUp] then merged
            else if rejoinedAt = 0 then t
            else if map_of (i_instStatus t) (i_localhost t) = None then t
            else if isStopped t then merged
            else if list_ex (\<lambda>(peer, st). peer \<noteq> i_localhost t \<and> st_StoppedAt st > leftAt \<and> st_StoppedAt st < rejoinedAt)
                (i_instStatus t)
            then snd (setStopped e merged)
            else if length (i_instStatus t) = length (i_scopeNodes t) then merged
            else if e_now e > rejoinedAt + 2 * minute then merged
            else t)"

definition onNodeRejoin :: "env \<Rightarrow> imon \<Rightarrow> imon" where
  "onNodeRejoin e t = mergePeerStopped e (mergePeerFrozen e t)"

section \<open>Affinities\<close>

text \<open>The paths of the affinities, then the ones their hard affinities lead to, without repetition.\<close>

definition affinityPaths :: "env \<Rightarrow> imon \<Rightarrow> path list" where
  "affinityPaths e t =
    (case cfg_Actor (i_config t) of
       None \<Rightarrow> []
     | Some ac \<Rightarrow>
         foldl (\<lambda>l p. if p \<noteq> i_path t \<and> p \<notin> set l then l @ [p] else l) []
           (ac_HardAffinity ac @ ac_HardAntiAffinity ac @ ac_SoftAffinity ac @ ac_SoftAntiAffinity ac
            @ hardAffinityReach e t (i_path t)))"

definition janitorAffinities :: "env \<Rightarrow> imon \<Rightarrow> imon" where
  "janitorAffinities e t =
    (let paths = affinityPaths e t;
         subscribed = foldl (\<lambda>l p. if p \<in> set l then l else l @ [p]) (i_affinitySubscribed t) paths;
         dropped = filter (\<lambda>p. p \<notin> set paths) subscribed
     in t\<lparr>i_affinitySubscribed := filter (\<lambda>p. p \<in> set paths) subscribed,
          i_affinityAvail := filter (\<lambda>(k, _). \<not> list_ex (\<lambda>p. take (length (path_String p) + 1) k = path_String p @ ''@'') dropped)
            (i_affinityAvail t)\<rparr>)"

definition onAffinityInstanceStatus :: "env \<Rightarrow> path \<Rightarrow> string \<Rightarrow> status \<Rightarrow> imon \<Rightarrow> imon" where
  "onAffinityInstanceStatus e p n avail t =
    (if p \<notin> set (i_affinitySubscribed t) then t
     else let k = path_String p @ ''@'' @ n
          in if map_of (i_affinityAvail t) k = Some avail then t
             else onChange e (janitorAffinities e (t\<lparr>i_affinityAvail := AList.update k avail (i_affinityAvail t)\<rparr>)))"

section \<open>Relations\<close>

text \<open>
  \<open>objAvail\<close> is the cache of the object statuses, the avail status of an object by path. A change
  of the maps of the children and of the parents of the monitor says so to the worker.
\<close>

definition set_relations :: "(string, status) gomap \<Rightarrow> (string, status) gomap \<Rightarrow> imon \<Rightarrow> imon" where
  "set_relations children parents t =
    t\<lparr>i_state := (i_state t)\<lparr>mon_Children := children, mon_Parents := parents\<rparr>\<rparr>"

definition relation_avail :: "(path \<Rightarrow> status option) \<Rightarrow> env \<Rightarrow> path \<Rightarrow> string \<Rightarrow> status" where
  "relation_avail objAvail e p n =
    (case (if n = [] then objAvail p else map_option st_Avail (StatusData_GetByPathAndNode e p n)) of
       None \<Rightarrow> StUndef
     | Some avail \<Rightarrow> avail)"

definition init_relation :: "(path \<Rightarrow> status option) \<Rightarrow> env \<Rightarrow> (string, status) gomap \<Rightarrow> string \<Rightarrow> (string, status) gomap" where
  "init_relation objAvail e cache relation =
    (case Relation_Split relation of
       None \<Rightarrow> cache
     | Some (p, n) \<Rightarrow> AList.update relation (relation_avail objAvail e p n) cache)"

definition initRelationAvailStatus :: "(path \<Rightarrow> status option) \<Rightarrow> env \<Rightarrow> imon \<Rightarrow> imon" where
  "initRelationAvailStatus objAvail e t =
    (case ConfigData_GetByPathAndNode e (i_path t) (i_localhost t) of
       None \<Rightarrow> t
     | Some cfg \<Rightarrow>
         case cfg_Actor cfg of
           None \<Rightarrow> t
         | Some ac \<Rightarrow>
             set_relations (foldl (init_relation objAvail e) (mon_Children (i_state t)) (ac_Children ac))
               (foldl (init_relation objAvail e) (mon_Parents (i_state t)) (ac_Parents ac)) t)"

definition janitor_relations :: "(path \<Rightarrow> status option) \<Rightarrow> env \<Rightarrow> string list \<Rightarrow> (string, status) gomap \<Rightarrow> bool \<times> (string, status) gomap" where
  "janitor_relations objAvail e relations current =
    (let added = filter (\<lambda>r. map_of current r = None \<and> Relation_Split r \<noteq> None) relations
     in (added \<noteq> [], filter (\<lambda>(r, _). r \<in> set relations) (foldl (init_relation objAvail e) current added)))"

definition relations_changed :: "bool \<Rightarrow> env \<Rightarrow> imon \<Rightarrow> imon" where
  "relations_changed changes e t = (if changes then onChange e (t\<lparr>i_change := True\<rparr>) else t)"

definition onRelationObjectStatusDeleted :: "env \<Rightarrow> path \<Rightarrow> imon \<Rightarrow> imon" where
  "onRelationObjectStatusDeleted e p t =
    (if p = i_path t then t
     else
       let lost = (\<lambda>m. case map_of m (path_String p) of Some v \<Rightarrow> v \<noteq> StUndef | None \<Rightarrow> False);
           forget = (\<lambda>m. if lost m then AList.update (path_String p) StUndef m else m);
           c = mon_Children (i_state t); ps = mon_Parents (i_state t)
       in relations_changed (lost c \<or> lost ps) e (set_relations (forget c) (forget ps) t))"

definition onRelationObjectStatusUpdated :: "env \<Rightarrow> path \<Rightarrow> status \<Rightarrow> imon \<Rightarrow> imon" where
  "onRelationObjectStatusUpdated e p avail t =
    (if p = i_path t then t
     else
       let moved = (\<lambda>m. case map_of m (path_String p) of Some v \<Rightarrow> v \<noteq> avail | None \<Rightarrow> False);
           move = (\<lambda>m. if moved m then AList.update (path_String p) avail m else m);
           c = mon_Children (i_state t); ps = mon_Parents (i_state t)
       in relations_changed (moved c \<or> moved ps) e (set_relations (move c) (move ps) t))"

text \<open>The instance version says a change even when the status is the one known.\<close>

definition relation_instance_status :: "env \<Rightarrow> path \<Rightarrow> string \<Rightarrow> status \<Rightarrow> imon \<Rightarrow> imon" where
  "relation_instance_status e p n avail t =
    (let k = path_String p @ ''@'' @ n;
         known = (\<lambda>m. map_of m k \<noteq> None);
         move = (\<lambda>m. if known m then AList.update k avail m else m);
         c = mon_Children (i_state t); ps = mon_Parents (i_state t)
     in relations_changed (known c \<or> known ps) e (set_relations (move c) (move ps) t))"

section \<open>System events\<close>

text \<open>A resource of the local instance whose information has the value \<open>v\<close> under \<open>key\<close>.\<close>

definition resource_info_is :: "string \<Rightarrow> string \<Rightarrow> resource_status \<Rightarrow> bool" where
  "resource_info_is key v rs = (map_of (rs_Info rs) key = Some v)"

definition refresh_if_resource :: "(resource_status \<Rightarrow> bool) \<Rightarrow> env \<Rightarrow> imon \<Rightarrow> imon" where
  "refresh_if_resource P e t =
    (case map_of (i_instStatus t) (i_localhost t) of
       None \<Rightarrow> t
     | Some st \<Rightarrow> if list_ex (\<lambda>(_, rs). P rs) (st_Resources st) then scheduleEventRefresh e t else t)"

definition checkResourceForIPMatch :: "string \<Rightarrow> env \<Rightarrow> imon \<Rightarrow> imon" where
  "checkResourceForIPMatch ip e t = refresh_if_resource (resource_info_is ''ipaddr'' ip) e t"

definition checkResourceForMountMatch :: "string \<Rightarrow> env \<Rightarrow> imon \<Rightarrow> imon" where
  "checkResourceForMountMatch mountPoint e t = refresh_if_resource (resource_info_is ''mnt'' mountPoint) e t"

definition on_local_event :: "(env \<Rightarrow> imon \<Rightarrow> imon) \<Rightarrow> string \<Rightarrow> env \<Rightarrow> imon \<Rightarrow> imon" where
  "on_local_event f n e t = (if n \<noteq> i_localhost t then t else if \<not> canRefreshOnEvent t then t else f e t)"

text \<open>\<open>extractIP\<close> is the address of a message without its mask and port.\<close>

definition onNetIPAddrAdded :: "(string \<Rightarrow> string) \<Rightarrow> string \<Rightarrow> string \<Rightarrow> env \<Rightarrow> imon \<Rightarrow> imon" where
  "onNetIPAddrAdded extractIP n addr e t = on_local_event (checkResourceForIPMatch (extractIP addr)) n e t"

definition onNetIPAddrDeleted :: "(string \<Rightarrow> string) \<Rightarrow> string \<Rightarrow> string \<Rightarrow> env \<Rightarrow> imon \<Rightarrow> imon" where
  "onNetIPAddrDeleted extractIP n addr e t = on_local_event (checkResourceForIPMatch (extractIP addr)) n e t"

definition onFSMounted :: "string \<Rightarrow> string \<Rightarrow> env \<Rightarrow> imon \<Rightarrow> imon" where
  "onFSMounted n mountPoint e t = on_local_event (checkResourceForMountMatch mountPoint) n e t"

definition onFSUmounted :: "string \<Rightarrow> string \<Rightarrow> env \<Rightarrow> imon \<Rightarrow> imon" where
  "onFSUmounted n mountPoint e t = on_local_event (checkResourceForMountMatch mountPoint) n e t"

definition onFSRemounted :: "string \<Rightarrow> string \<Rightarrow> env \<Rightarrow> imon \<Rightarrow> imon" where
  "onFSRemounted n mountPoint e t = on_local_event (checkResourceForMountMatch mountPoint) n e t"

definition onDrbdResourceUpdated :: "string \<Rightarrow> string \<Rightarrow> env \<Rightarrow> imon \<Rightarrow> imon" where
  "onDrbdResourceUpdated n res e t =
    on_local_event (refresh_if_resource (\<lambda>rs. rs_Type rs = ''disk.drbd'' \<and> resource_info_is ''res'' res rs)) n e t"

section \<open>Boot\<close>

text \<open>\<open>ensureBooted\<close>, with the last boot id of the instance, the one of the node, and the one saved.\<close>

definition bootAble :: "imon \<Rightarrow> bool" where
  "bootAble t = (case cfg_Actor (i_config t) of None \<Rightarrow> False | Some ac \<Rightarrow> \<not> ac_IsDisabled ac)"

definition queueBoot :: action where
  "queueBoot e t = crmBoot e t"

definition ensureBooted :: "string \<Rightarrow> string \<Rightarrow> env \<Rightarrow> imon \<Rightarrow> string \<times> imon" where
  "ensureBooted lastBootID bootID e t =
    (if lastBootID = [] then (bootID, t)
     else if lastBootID \<noteq> bootID then
       (case queueBoot e (transitionTo e MonitorStateBootProgress (t\<lparr>i_isBootStartPending := True\<rparr>)) of
          (False, t) \<Rightarrow> (bootID, transitionTo e MonitorStateIdle (transitionTo e MonitorStateBootSuccess t))
        | (True, t) \<Rightarrow> (lastBootID, transitionTo e MonitorStateBootFailed t))
     else (lastBootID, t))"

section \<open>Volumes and writes\<close>

text \<open>
  The worker: the manager, the last seen signature of the volumes it watches (\<open>volumeSeen\<close>) and the
  var directory of the object. \<open>ioErr\<close> says the file system refuses to record the writes.
\<close>

record worker =
  w_imon :: imon
  w_volumeSeen :: "(path, string) gomap"
  w_varDir :: writes_dir

definition on_imon :: "(imon \<Rightarrow> imon) \<Rightarrow> worker \<Rightarrow> worker" where
  "on_imon f w = w\<lparr>w_imon := f (w_imon w)\<rparr>"

definition volumePaths :: "imon \<Rightarrow> path list" where
  "volumePaths t =
    foldl (\<lambda>l (_, rs).
      if rs_Type rs \<noteq> ''volume'' then l
      else case map_of (rs_Info rs) ''path'' of
        None \<Rightarrow> l
      | Some s \<Rightarrow> case ParsePath s of None \<Rightarrow> l | Some p \<Rightarrow> if p = i_path t \<or> p \<in> set l then l else l @ [p])
      [] (st_Resources (localStatus t))"

definition volumeSignature :: "instance_status \<Rightarrow> string" where
  "volumeSignature st =
    Join '','' ([status_String (st_Avail st), status_String (st_Overall st)]
      @ sort (map (\<lambda>(rid, rs). rid @ ''='' @ status_String (rs_Status rs)
          @ (case rs_StartBlocker rs of None \<Rightarrow> [] | Some b \<Rightarrow> '' blocked by '' @ sb_Reason b)) (st_Resources st)))"

definition janitorVolumes :: "env \<Rightarrow> worker \<Rightarrow> worker" where
  "janitorVolumes e w =
    (let t = w_imon w; paths = volumePaths t;
         seen = foldl (\<lambda>m p. if has_key m p then m
           else AList.update p (case StatusData_GetByPathAndNode e p (i_localhost t) of
             None \<Rightarrow> [] | Some st \<Rightarrow> volumeSignature st) m) (w_volumeSeen w) paths
     in w\<lparr>w_volumeSeen := filter (\<lambda>(p, _). p \<in> set paths) seen\<rparr>)"

definition onVolumeInstanceStatusDeleted :: "env \<Rightarrow> path \<Rightarrow> string \<Rightarrow> worker \<Rightarrow> worker" where
  "onVolumeInstanceStatusDeleted e p n w =
    (if n \<noteq> i_localhost (w_imon w) then w
     else if \<not> has_key (w_volumeSeen w) p then w
     else on_imon (scheduleEventRefresh e) (w\<lparr>w_volumeSeen := AList.update p [] (w_volumeSeen w)\<rparr>))"

definition onVolumeInstanceStatusUpdated :: "env \<Rightarrow> path \<Rightarrow> string \<Rightarrow> instance_status \<Rightarrow> worker \<Rightarrow> worker" where
  "onVolumeInstanceStatusUpdated e p n st w =
    (if n \<noteq> i_localhost (w_imon w) then w
     else case map_of (w_volumeSeen w) p of
       None \<Rightarrow> w
     | Some seen \<Rightarrow>
         if volumeSignature st = seen then w
         else on_imon (scheduleEventRefresh e) (w\<lparr>w_volumeSeen := AList.update p (volumeSignature st) (w_volumeSeen w)\<rparr>))"

text \<open>A change of the record of a peer refreshes the local status.\<close>

definition writes_recorded :: "env \<Rightarrow> writes_result \<Rightarrow> worker \<Rightarrow> worker" where
  "writes_recorded e r w =
    (case r of (changed, dir) \<Rightarrow>
      let w = w\<lparr>w_varDir := dir\<rparr> in if changed = Some True then on_imon (scheduleEventRefresh e) w else w)"

definition onPeerLostWrites :: "bool \<Rightarrow> env \<Rightarrow> string \<Rightarrow> time \<Rightarrow> worker \<Rightarrow> worker" where
  "onPeerLostWrites ioErr e peer at w = writes_recorded e (PeerWritesStopped ioErr peer at (w_varDir w)) w"

definition recordPeerWrites :: "bool \<Rightarrow> env \<Rightarrow> string \<Rightarrow> instance_status \<Rightarrow> worker \<Rightarrow> worker" where
  "recordPeerWrites ioErr e peer st w = writes_recorded e (PeerWrites ioErr (e_now e) peer st (w_varDir w)) w"

definition onPeerWrites :: "bool \<Rightarrow> env \<Rightarrow> string \<Rightarrow> instance_status \<Rightarrow> worker \<Rightarrow> worker" where
  "onPeerWrites ioErr e peer st w =
    (if st_UpdatedAt st = 0 then w
     else if peer \<notin> set (i_scopeNodes (w_imon w)) then w
     else recordPeerWrites ioErr e peer st w)"

definition onRelationInstanceStatusDeleted :: "env \<Rightarrow> path \<Rightarrow> string \<Rightarrow> worker \<Rightarrow> worker" where
  "onRelationInstanceStatusDeleted e p n w =
    (if p = i_path (w_imon w) then w
     else on_imon (relation_instance_status e p n StUndef)
       (onVolumeInstanceStatusDeleted e p n (on_imon (onAffinityInstanceStatus e p n StUndef) w)))"

definition onRelationInstanceStatusUpdated :: "env \<Rightarrow> path \<Rightarrow> string \<Rightarrow> instance_status \<Rightarrow> worker \<Rightarrow> worker" where
  "onRelationInstanceStatusUpdated e p n st w =
    (if p = i_path (w_imon w) then w
     else on_imon (relation_instance_status e p n (st_Avail st))
       (onVolumeInstanceStatusUpdated e p n st (on_imon (onAffinityInstanceStatus e p n (st_Avail st)) w)))"

definition onInstanceStatusDeleted :: "bool \<Rightarrow> env \<Rightarrow> path \<Rightarrow> string \<Rightarrow> time \<Rightarrow> worker \<Rightarrow> worker" where
  "onInstanceStatusDeleted ioErr e p n peerDropAt w =
    (if i_path (w_imon w) \<noteq> p then onRelationInstanceStatusDeleted e p n w
     else if n \<noteq> i_localhost (w_imon w) \<and> peerDropAt \<noteq> 0 then onPeerLostWrites ioErr e n peerDropAt w
     else w)"

section \<open>The status of the object\<close>

definition onMyInstanceStatusUpdated :: "bool \<Rightarrow> env \<Rightarrow> string \<Rightarrow> instance_status \<Rightarrow> worker \<Rightarrow> worker" where
  "onMyInstanceStatusUpdated ioErr e n st w =
    (let t = w_imon w;
         rearm = (\<lambda>w. if n = i_localhost (w_imon w)
           then on_imon (\<lambda>t. armOutdatedTimer e (st_OutdatedAt (localStatus t)) t) w else w);
         prv = map_of (i_instStatus t) n
     in if (case prv of None \<Rightarrow> False | Some p \<Rightarrow> \<not> st_UpdatedAt p < st_UpdatedAt st) then rearm w
        else
          let w = on_imon (\<lambda>t. t\<lparr>i_instStatus := AList.update n st (i_instStatus t)\<rparr>) w;
              w = (case prv of
                     Some p \<Rightarrow> if n \<noteq> i_localhost t then on_imon (refreshOnPeerChange e p st) w else w
                   | None \<Rightarrow> w);
              w = (if n \<noteq> i_localhost t then onPeerWrites ioErr e n st w else janitorVolumes e w)
          in rearm (on_imon (\<lambda>t. clearStonith (st_Avail st) (mergePeerStopped e (mergePeerFrozen e t))) w))"

definition onMyInstanceStatusDeleted :: "string \<Rightarrow> time \<Rightarrow> imon \<Rightarrow> imon" where
  "onMyInstanceStatusDeleted n peerDropAt t =
    (if has_key (i_instStatus t) n
     then let t = setStonith n peerDropAt t in t\<lparr>i_instStatus := AList.delete n (i_instStatus t)\<rparr>
     else t)"

text \<open>The instances kept follow the scope, and the peers that enter it have their writes recorded.\<close>

definition janitorInstStatus :: "bool \<Rightarrow> env \<Rightarrow> string list \<Rightarrow> worker \<Rightarrow> worker" where
  "janitorInstStatus ioErr e scope w =
    (let t = w_imon w;
         m = foldl (\<lambda>m n. if has_key m n then m else AList.update n (zero_status\<lparr>st_Avail := StUndef\<rparr>) m) (i_instStatus t) scope;
         gone = filter (\<lambda>n. n \<notin> set scope) (map fst m);
         dir = foldl (\<lambda>d n. snd (ForgetWrites ioErr n d)) (w_varDir w) gone;
         kept = filter (\<lambda>(n, _). n \<in> set scope) m;
         w = w\<lparr>w_imon := t\<lparr>i_instStatus := kept\<rparr>, w_varDir := dir\<rparr>
     in foldl (\<lambda>w n. if n \<in> set (i_scopeNodes t) then w
          else case map_of kept n of
            None \<Rightarrow> w
          | Some st \<Rightarrow> if n \<noteq> i_localhost t \<and> st_UpdatedAt st \<noteq> 0 then recordPeerWrites ioErr e n st w else w) w scope)"

definition janitorRelations :: "(path \<Rightarrow> status option) \<Rightarrow> env \<Rightarrow> imon \<Rightarrow> imon" where
  "janitorRelations objAvail e t =
    (case cfg_Actor (i_config t) of
       None \<Rightarrow> t
     | Some ac \<Rightarrow>
         case janitor_relations objAvail e (ac_Children ac) (mon_Children (i_state t)) of (a, children) \<Rightarrow>
         case janitor_relations objAvail e (ac_Parents ac) (mon_Parents (i_state t)) of (b, parents) \<Rightarrow>
           (set_relations children parents t)\<lparr>i_change := i_change t \<or> a \<or> b\<rparr>)"

definition onLocalInstanceConfigUpdated :: "(path \<Rightarrow> status option) \<Rightarrow> bool \<Rightarrow> env \<Rightarrow> config \<Rightarrow> worker \<Rightarrow> worker" where
  "onLocalInstanceConfigUpdated objAvail ioErr e cfg w =
    (if \<not> cfg_UpdatedAt cfg > cfg_UpdatedAt (i_config (w_imon w)) then w
     else on_imon (\<lambda>t. requestStatusRefresh e (janitorAffinities e (janitorRelations objAvail e t)))
       (janitorInstStatus ioErr e (cfg_Scope cfg) (on_imon (\<lambda>t. initResourceMonitor (t\<lparr>i_config := cfg\<rparr>)) w)))"

definition onInstanceConfigUpdated :: "(path \<Rightarrow> status option) \<Rightarrow> bool \<Rightarrow> env \<Rightarrow> string \<Rightarrow> config \<Rightarrow> worker \<Rightarrow> worker" where
  "onInstanceConfigUpdated objAvail ioErr e n cfg w =
    on_imon (\<lambda>t. t\<lparr>i_scopeNodes := cfg_Scope cfg\<rparr>)
      (if n = i_localhost (w_imon w) then onLocalInstanceConfigUpdated objAvail ioErr e cfg w else w)"

text \<open>The event an object status comes from.\<close>

datatype source_event =
    SrcNone
  | SrcInstanceStatusDeleted string "time"
  | SrcInstanceStatusUpdated string instance_status
  | SrcInstanceConfigUpdated string config
  | SrcInstanceConfigDeleted
  | SrcInstanceMonitorDeleted string
  | SrcInstanceMonitorUpdated string monitor

definition on_source_event :: "(path \<Rightarrow> status option) \<Rightarrow> bool \<Rightarrow> env \<Rightarrow> source_event \<Rightarrow> worker \<Rightarrow> worker" where
  "on_source_event objAvail ioErr e src w =
    (case src of
       SrcNone \<Rightarrow> w
     | SrcInstanceStatusDeleted n peerDropAt \<Rightarrow> on_imon (onMyInstanceStatusDeleted n peerDropAt) w
     | SrcInstanceStatusUpdated n st \<Rightarrow> onMyInstanceStatusUpdated ioErr e n st w
     | SrcInstanceConfigUpdated n cfg \<Rightarrow> onInstanceConfigUpdated objAvail ioErr e n cfg w
     | SrcInstanceConfigDeleted \<Rightarrow> w
     | SrcInstanceMonitorDeleted n \<Rightarrow>
         if n = i_localhost (w_imon w) then w else on_imon (onInstanceMonitorDeletedFromNode e n) w
     | SrcInstanceMonitorUpdated n m \<Rightarrow> on_imon (onInstanceMonitorUpdated e n m) w)"

definition onMyObjectStatusUpdated ::
  "(path \<Rightarrow> status option) \<Rightarrow> bool \<Rightarrow> env \<Rightarrow> source_event \<Rightarrow> object_status \<Rightarrow> worker \<Rightarrow> worker" where
  "onMyObjectStatusUpdated objAvail ioErr e src os w =
    on_imon (\<lambda>t. onChange e (t\<lparr>i_objStatus := os\<rparr>)) (on_source_event objAvail ioErr e src w)"

definition onObjectStatusUpdated ::
  "(path \<Rightarrow> status option) \<Rightarrow> bool \<Rightarrow> env \<Rightarrow> path \<Rightarrow> source_event \<Rightarrow> object_status \<Rightarrow> worker \<Rightarrow> worker" where
  "onObjectStatusUpdated objAvail ioErr e p src os w =
    (if i_path (w_imon w) = p then onMyObjectStatusUpdated objAvail ioErr e src os w
     else on_imon (onRelationObjectStatusUpdated e p (case os_Actor os of None \<Rightarrow> StUndef | Some a \<Rightarrow> as_Avail a)) w)"

definition onObjectStatusDeleted :: "env \<Rightarrow> path \<Rightarrow> worker \<Rightarrow> worker" where
  "onObjectStatusDeleted e p w =
    (if i_path (w_imon w) \<noteq> p then on_imon (onRelationObjectStatusDeleted e p) w else w)"

section \<open>The worker\<close>

datatype imon_msg =
    ForgetPeer string
  | InstanceStatusDeleted path string "time"
  | InstanceStatusUpdated path string instance_status
  | ObjectStatusDeleted path
  | ObjectStatusUpdated path source_event object_status
  | ProgressInstanceMonitor monitor_state nat bool
  | SetInstanceMonitor monitor_update
  | NodeConfigUpdated duration
  | NodeMonitorUpdated string node_monitor
  | NodeRejoin
  | NodeStatusUpdated string node_status
  | NodeStatsUpdated string node_stats
  | NetIPAddrAdded string string
  | NetIPAddrDeleted string string
  | DrbdResourceUpdated string string
  | FSMounted string string
  | FSUmounted string string
  | FSRemounted string string
  | InstanceStateFileUpdated

text \<open>What a worker is woken by: a message, a command of one of its goroutines, or a timer.\<close>

datatype imon_event =
    Msg imon_msg
  | Cmd imon_cmd
  | DelayTimer
  | OutdatedTimer
  | EventRefreshTimer
  | WaitSyncsTimer
  | WaitDestinationTimer

text \<open>The world around a worker: the environment and the parameters of the handlers.\<close>

record world =
  wd_env :: env
  wd_objAvail :: "path \<Rightarrow> status option"
  wd_ioErr :: bool
  wd_extractIP :: "string \<Rightarrow> string"

definition on_msg :: "world \<Rightarrow> imon_msg \<Rightarrow> worker \<Rightarrow> worker" where
  "on_msg d m w =
    (let e = wd_env d
     in case m of
          ForgetPeer n \<Rightarrow> on_imon (onForgetPeer e n) w
        | InstanceStatusDeleted p n at \<Rightarrow> onInstanceStatusDeleted (wd_ioErr d) e p n at w
        | InstanceStatusUpdated p n st \<Rightarrow> onRelationInstanceStatusUpdated e p n st w
        | ObjectStatusDeleted p \<Rightarrow> onObjectStatusDeleted e p w
        | ObjectStatusUpdated p src os \<Rightarrow> onObjectStatusUpdated (wd_objAvail d) (wd_ioErr d) e p src os w
        | ProgressInstanceMonitor s i b \<Rightarrow> on_imon (onProgressInstanceMonitor e s i b) w
        | SetInstanceMonitor u \<Rightarrow> on_imon (\<lambda>t. snd (onSetInstanceMonitor e u t)) w
        | NodeConfigUpdated r \<Rightarrow> on_imon (onNodeConfigUpdated e r) w
        | NodeMonitorUpdated n v \<Rightarrow> on_imon (onNodeMonitorUpdated e n v) w
        | NodeRejoin \<Rightarrow> on_imon (onNodeRejoin e) w
        | NodeStatusUpdated n v \<Rightarrow> on_imon (onNodeStatusUpdated e n v) w
        | NodeStatsUpdated n v \<Rightarrow> on_imon (onNodeStatsUpdated e n v) w
        | NetIPAddrAdded n a \<Rightarrow> on_imon (onNetIPAddrAdded (wd_extractIP d) n a e) w
        | NetIPAddrDeleted n a \<Rightarrow> on_imon (onNetIPAddrDeleted (wd_extractIP d) n a e) w
        | DrbdResourceUpdated n r \<Rightarrow> on_imon (onDrbdResourceUpdated n r e) w
        | FSMounted n p \<Rightarrow> on_imon (onFSMounted n p e) w
        | FSUmounted n p \<Rightarrow> on_imon (onFSUmounted n p e) w
        | FSRemounted n p \<Rightarrow> on_imon (onFSRemounted n p e) w
        | InstanceStateFileUpdated \<Rightarrow> on_imon (onInstanceStateFileUpdated e) w)"

definition on_cmd :: "env \<Rightarrow> imon_cmd \<Rightarrow> imon \<Rightarrow> imon" where
  "on_cmd e c t =
    (case c of
       CmdOrchestrate s s' \<Rightarrow> needOrchestrate e s s' t
     | CmdResourceRestart rids standby \<Rightarrow> resourceRestart e rids standby t
     | CmdStatusDone \<Rightarrow> onStatusDone t)"

text \<open>A worker whose context is done handles nothing any more.\<close>

definition on_event :: "world \<Rightarrow> imon_event \<Rightarrow> worker \<Rightarrow> worker" where
  "on_event d v w =
    (let e = wd_env d
     in if isDone e then w
        else case v of
          Msg m \<Rightarrow> on_msg d m w
        | Cmd c \<Rightarrow> on_imon (on_cmd e c) w
        | DelayTimer \<Rightarrow> on_imon (onDelayTimer e) w
        | OutdatedTimer \<Rightarrow> on_imon (onOutdatedTimer e) w
        | EventRefreshTimer \<Rightarrow> on_imon (onEventRefreshTimer e) w
        | WaitSyncsTimer \<Rightarrow> on_imon (onWaitSyncsTimer e) w
        | WaitDestinationTimer \<Rightarrow> on_imon (onWaitDestinationTimer e) w)"

text \<open>
  The start of the worker, from the caches of the daemon: the statuses, statistics and monitors of
  the nodes are \<open>ns\<close>, \<open>stats\<close> and \<open>nm\<close>. Without a configuration there is no worker.
\<close>

definition worker_caches ::
  "(string, node_status) gomap \<Rightarrow> (string, node_stats) gomap \<Rightarrow> (string, node_monitor) gomap \<Rightarrow> env \<Rightarrow> imon \<Rightarrow> imon" where
  "worker_caches ns stats nm e t =
    t\<lparr>i_nodeStatus := ns, i_nodeStats := stats, i_nodeMonitor := nm,
      i_instMonitor := filter (\<lambda>(n, _). n \<noteq> i_localhost t) (MonitorData_GetByPath e (i_path t)),
      i_instStatus := StatusData_GetByPath e (i_path t)\<rparr>"

definition worker_begin ::
  "string \<Rightarrow> string \<Rightarrow> (string, node_status) gomap \<Rightarrow> (string, node_stats) gomap \<Rightarrow> (string, node_monitor) gomap
    \<Rightarrow> world \<Rightarrow> writes_dir \<Rightarrow> imon \<Rightarrow> (string \<times> worker) option" where
  "worker_begin lastBootID bootID ns stats nm d dir t =
    (let e = wd_env d
     in case ConfigData_GetByPathAndNode e (i_path t) (i_localhost t) of
          None \<Rightarrow> None
        | Some cfg \<Rightarrow>
            let t = t\<lparr>i_config := cfg, i_scopeNodes := cfg_Scope cfg\<rparr>;
                t = (if cfg_Actor cfg = None then pubStatelessInstanceStatus e t
                     else if e_cfgMtime e = 0 then t else snd (crmStatus e t))
            in case (if bootAble t then ensureBooted lastBootID bootID e t else (lastBootID, t)) of (saved, t) \<Rightarrow>
                 let t = convergeGlobalExpectFromRemote (worker_caches ns stats nm e t);
                     t = initRelationAvailStatus (wd_objAvail d) e (mergePeerFrozen e t);
                     t = janitorAffinities e (t\<lparr>i_affinitySubscribed := [], i_affinityAvail := []\<rparr>);
                     w = janitorVolumes e \<lparr>w_imon = t, w_volumeSeen = [], w_varDir = dir\<rparr>;
                     w = foldl (\<lambda>w (n, st). if n \<noteq> i_localhost t then onPeerWrites (wd_ioErr d) e n st w else w) w (i_instStatus t)
                 in Some (saved, on_imon (\<lambda>t. updateIfChange e (updateIsLeader e (initResourceMonitor t))) w))"

text \<open>Its end: the orchestrations it announces, and the one its deletion carries.\<close>

definition worker_end :: "imon \<Rightarrow> orchestration_end option \<times> imon" where
  "worker_end t =
    (let t = abortPendingNotEndedByDeletion (publishOrchestrationAborted t) in (i_orchestrationPending t, t))"

end
