(* ===== verification/Imon_Peers.thy ===== *)
theory Imon_Peers
  imports Imon_Handlers
begin

text \<open>
  What the work of an instance monitor never touches: its object, its node, the monitors of its
  peers and the set of the instances it knows, which only messages about the peers change.
\<close>

definition peers :: "imon \<Rightarrow> path \<times> string \<times> (string, monitor) gomap \<times> string list" where
  "peers t = (i_path t, i_localhost t, i_instMonitor t, map fst (i_instStatus t))"

lemma keys_update: "map_of m k = Some v \<Longrightarrow> map fst (AList.update k x m) = map fst m"
  by (induction m) (auto split: if_splits)

lemma peers_map_localStatus [simp]: "peers (map_localStatus f t) = peers t"
  by (auto simp: map_localStatus_def set_localStatus_def peers_def keys_update split: option.split)

lemma peers_update [simp]:
  "peers (t\<lparr>i_state := x_state\<rparr>) = peers t"
  "peers (t\<lparr>i_prev := x_prev\<rparr>) = peers t"
  "peers (t\<lparr>i_change := x_change\<rparr>) = peers t"
  "peers (t\<lparr>i_pending := x_pending\<rparr>) = peers t"
  "peers (t\<lparr>i_readyWaits := x_readyWaits\<rparr>) = peers t"
  "peers (t\<lparr>i_config := x_config\<rparr>) = peers t"
  "peers (t\<lparr>i_affinitySubscribed := x_affinitySubscribed\<rparr>) = peers t"
  "peers (t\<lparr>i_affinityAvail := x_affinityAvail\<rparr>) = peers t"
  "peers (t\<lparr>i_nodeMonitor := x_nodeMonitor\<rparr>) = peers t"
  "peers (t\<lparr>i_nodeStats := x_nodeStats\<rparr>) = peers t"
  "peers (t\<lparr>i_nodeStatus := x_nodeStatus\<rparr>) = peers t"
  "peers (t\<lparr>i_readyDuration := x_readyDuration\<rparr>) = peers t"
  "peers (t\<lparr>i_scopeNodes := x_scopeNodes\<rparr>) = peers t"
  "peers (t\<lparr>i_objStatus := x_objStatus\<rparr>) = peers t"
  "peers (t\<lparr>i_outdatedTimer := x_outdatedTimer\<rparr>) = peers t"
  "peers (t\<lparr>i_outdatedRefreshedAt := x_outdatedRefreshedAt\<rparr>) = peers t"
  "peers (t\<lparr>i_eventRefreshTimer := x_eventRefreshTimer\<rparr>) = peers t"
  "peers (t\<lparr>i_eventRefreshScheduled := x_eventRefreshScheduled\<rparr>) = peers t"
  "peers (t\<lparr>i_eventRefreshDeferred := x_eventRefreshDeferred\<rparr>) = peers t"
  "peers (t\<lparr>i_leaderWaited := x_leaderWaited\<rparr>) = peers t"
  "peers (t\<lparr>i_waitSyncsTimer := x_waitSyncsTimer\<rparr>) = peers t"
  "peers (t\<lparr>i_waitSyncsSince := x_waitSyncsSince\<rparr>) = peers t"
  "peers (t\<lparr>i_stopRefusedForSyncs := x_stopRefusedForSyncs\<rparr>) = peers t"
  "peers (t\<lparr>i_waitDestinationTimer := x_waitDestinationTimer\<rparr>) = peers t"
  "peers (t\<lparr>i_waitDestinationSince := x_waitDestinationSince\<rparr>) = peers t"
  "peers (t\<lparr>i_statusQueued := x_statusQueued\<rparr>) = peers t"
  "peers (t\<lparr>i_needStatusQ := x_needStatusQ\<rparr>) = peers t"
  "peers (t\<lparr>i_peerDrop := x_peerDrop\<rparr>) = peers t"
  "peers (t\<lparr>i_peerDropAt := x_peerDropAt\<rparr>) = peers t"
  "peers (t\<lparr>i_stonithAt := x_stonithAt\<rparr>) = peers t"
  "peers (t\<lparr>i_priors := x_priors\<rparr>) = peers t"
  "peers (t\<lparr>i_orchestrationPending := x_orchestrationPending\<rparr>) = peers t"
  "peers (t\<lparr>i_orchestrationAborted := x_orchestrationAborted\<rparr>) = peers t"
  "peers (t\<lparr>i_idleAfterOrchestration := x_idleAfterOrchestration\<rparr>) = peers t"
  "peers (t\<lparr>i_endWithDeletion := x_endWithDeletion\<rparr>) = peers t"
  "peers (t\<lparr>i_delayTimerEnabled := x_delayTimerEnabled\<rparr>) = peers t"
  "peers (t\<lparr>i_delayOrchestrateEnabled := x_delayOrchestrateEnabled\<rparr>) = peers t"
  "peers (t\<lparr>i_delayPreUpdateEnabled := x_delayPreUpdateEnabled\<rparr>) = peers t"
  "peers (t\<lparr>i_delayUpdateEnabled := x_delayUpdateEnabled\<rparr>) = peers t"
  "peers (t\<lparr>i_initialMonitorAction := x_initialMonitorAction\<rparr>) = peers t"
  "peers (t\<lparr>i_standbyOr := x_standbyOr\<rparr>) = peers t"
  "peers (t\<lparr>i_regularOr := x_regularOr\<rparr>) = peers t"
  "peers (t\<lparr>i_isPeerFrozenMerged := x_isPeerFrozenMerged\<rparr>) = peers t"
  "peers (t\<lparr>i_isPeerStoppedMerged := x_isPeerStoppedMerged\<rparr>) = peers t"
  "peers (t\<lparr>i_isBootStartPending := x_isBootStartPending\<rparr>) = peers t"
  "peers (t\<lparr>i_bootStartWaitSince := x_bootStartWaitSince\<rparr>) = peers t"
  "peers (t\<lparr>i_stoppedFile := x_stoppedFile\<rparr>) = peers t"
  "peers (t\<lparr>i_frozenFile := x_frozenFile\<rparr>) = peers t"
  "peers (t\<lparr>i_cmds := x_cmds\<rparr>) = peers t"
  "peers (t\<lparr>i_trace := x_trace\<rparr>) = peers t"
  by (simp_all add: peers_def)

lemma peers_state_0 [simp]:
  "peers (set_mstate a t) = peers t"
  "peers (emit b t) = peers t"
  "peers (scheduleEventRefresh e t) = peers t"
  "peers (armOutdatedTimer e c t) = peers t"
  "peers (setLocalExpect d t) = peers t"
  "peers (createPendingWithDuration e f t) = peers t"
  "peers (clearPending t) = peers t"
  "peers (orchestrateAfterAction e a g t) = peers t"
  "peers (orch_done t) = peers t"
  by (simp_all add: set_mstate_def emit_def scheduleEventRefresh_def armOutdatedTimer_def setLocalExpect_def createPendingWithDuration_def clearPending_def orchestrateAfterAction_def orch_done_def Let_def case_prod_unfold split: option.split bool.split)

lemma peers_state_1 [simp]:
  "peers (pubStatelessInstanceStatus e t) = peers t"
  "peers (replayDeferredEventRefresh e t) = peers t"
  "peers (onInstanceStateFileUpdated e t) = peers t"
  "peers (refreshOnPeerChange e a b t) = peers t"
  "peers (disableMonitor t) = peers t"
  "peers (enableMonitor t) = peers t"
  "peers (update e t) = peers t"
  "peers (snd (crmDefaultAction c d e t)) = peers t"
  "peers (snd (setStopped e t)) = peers t"
  "peers (snd (unsetStopped e t)) = peers t"
  "peers (snd (freeze e t)) = peers t"
  "peers (snd (unfreeze e t)) = peers t"
  "peers (doneAndIdle t) = peers t"
  "peers (snd (setWaitParents t)) = peers t"
  "peers (snd (setWaitChildren t)) = peers t"
  by (simp_all add: pubStatelessInstanceStatus_def replayDeferredEventRefresh_def onInstanceStateFileUpdated_def refreshOnPeerChange_def disableMonitor_def enableMonitor_def update_def crmDefaultAction_def setStopped_def unsetStopped_def freeze_def unfreeze_def doneAndIdle_def setWaitParents_def setWaitChildren_def Let_def case_prod_unfold split: option.split bool.split)

lemma peers_state_2 [simp]:
  "peers (requestStatusRefresh e t) = peers t"
  "peers (updateIfChange e t) = peers t"
  "peers (snd (crmAction a e t)) = peers t"
  "peers (snd (crmMaintenanceAction a e t)) = peers t"
  "peers (snd (crmStatus e t)) = peers t"
  by (simp_all add: requestStatusRefresh_def updateIfChange_def crmAction_def crmMaintenanceAction_def crmStatus_def Let_def case_prod_unfold split: option.split bool.split)

lemma peers_state_3 [simp]:
  "peers (onEventRefreshTimer e t) = peers t"
  "peers (onOutdatedTimer e t) = peers t"
  "peers (transitionTo e a t) = peers t"
  "peers (snd (crmPGUpdate e t)) = peers t"
  "peers (snd (crmBoot e t)) = peers t"
  "peers (snd (crmDelete e t)) = peers t"
  "peers (snd (crmFreeze e t)) = peers t"
  "peers (snd (crmProvisionNonLeader e t)) = peers t"
  "peers (snd (crmProvisionLeader e t)) = peers t"
  "peers (snd (crmProvisionPreflight e t)) = peers t"
  "peers (snd (crmStartStandby e t)) = peers t"
  "peers (snd (crmResourceStartStandby b e t)) = peers t"
  "peers (snd (crmResourceStart b e t)) = peers t"
  "peers (snd (crmShutdown e t)) = peers t"
  "peers (snd (crmStart e t)) = peers t"
  "peers (snd (crmStonith c e t)) = peers t"
  "peers (snd (crmStopMoveTo c e t)) = peers t"
  "peers (snd (crmStop e t)) = peers t"
  "peers (snd (crmStopSyncTo b e t)) = peers t"
  "peers (snd (crmUnfreeze e t)) = peers t"
  "peers (snd (crmUnprovisionNonLeader e t)) = peers t"
  "peers (snd (crmUnprovisionLeader e t)) = peers t"
  by (simp_all add: onEventRefreshTimer_def onOutdatedTimer_def transitionTo_def crmPGUpdate_def crmBoot_def crmDelete_def crmFreeze_def crmProvisionNonLeader_def crmProvisionLeader_def crmProvisionPreflight_def crmStartStandby_def crmResourceStartStandby_def crmResourceStart_def crmShutdown_def crmStart_def crmStonith_def crmStopMoveTo_def crmStop_def crmStopSyncTo_def crmUnfreeze_def crmUnprovisionNonLeader_def crmUnprovisionLeader_def Let_def case_prod_unfold split: option.split bool.split)

lemma peers_doTransitionAction [simp]: "(\<And>e t. peers (snd (a e t)) = peers t) \<Longrightarrow> peers (doTransitionAction a b c d e t) = peers t"
  by (simp add: doTransitionAction_def case_prod_unfold)

lemma peers_doAction [simp]: "(\<And>e t. peers (snd (a e t)) = peers t) \<Longrightarrow> peers (doAction a b c d e t) = peers t"
  by (simp add: doAction_def case_prod_unfold)

lemma peers_doLastAction [simp]: "(\<And>e t. peers (snd (a e t)) = peers t) \<Longrightarrow> peers (doLastAction a b c d e t) = peers t"
  by (simp add: doLastAction_def case_prod_unfold)

lemma peers_queueAction [simp]: "(\<And>e t. peers (snd (a e t)) = peers t) \<Longrightarrow> peers (queueAction a b c d e t) = peers t"
  by (simp add: queueAction_def case_prod_unfold)

lemma peers_leader_0 [simp]:
  "peers (updateIsLeader e t) = peers t"
  by (simp_all add: updateIsLeader_def Let_def case_prod_unfold split: option.split bool.split)

lemma peers_converge_0 [simp]:
  "peers (setNextPendingOrchestration t) = peers t"
  "peers (publishOrchestrationAccepted t) = peers t"
  "peers (publishOrchestrationAborted t) = peers t"
  "peers (publishOrchestrationEnded t) = peers t"
  "peers (abortPendingNotEndedByDeletion t) = peers t"
  "peers (setOrchestrationVerdict t) = peers t"
  "peers (clearStateSpokenToPeers t) = peers t"
  "peers (resumeIdleAfterOrchestration e t) = peers t"
  "peers (clearStoppedFlagOnRequest e t) = peers t"
  by (simp_all add: setNextPendingOrchestration_def publishOrchestrationAccepted_def publishOrchestrationAborted_def publishOrchestrationEnded_def abortPendingNotEndedByDeletion_def setOrchestrationVerdict_def clearStateSpokenToPeers_def resumeIdleAfterOrchestration_def clearStoppedFlagOnRequest_def Let_def case_prod_unfold split: option.split bool.split)

lemma peers_converge_1 [simp]:
  "peers (savePendingOrchestration t) = peers t"
  "peers (endOrchestration e t) = peers t"
  by (simp_all add: savePendingOrchestration_def endOrchestration_def Let_def case_prod_unfold split: option.split bool.split)

lemma peers_converge_2 [simp]:
  "peers (convergeGlobalExpectFromRemote t) = peers t"
  by (simp_all add: convergeGlobalExpectFromRemote_def Let_def case_prod_unfold split: option.split bool.split)

lemma peers_start_stop_0 [simp]:
  "peers (leaveWaitSyncs e t) = peers t"
  "peers (resumeMonitorIfStopRefused t) = peers t"
  "peers (snd (stoppedClearIfReached t)) = peers t"
  "peers (snd (startedClearIfReached t)) = peers t"
  "peers (doUnfreeze e t) = peers t"
  "peers (setStonith a b t) = peers t"
  "peers (unsetStonith t) = peers t"
  "peers (startedFromStartFailed t) = peers t"
  "peers (clearStartFailed e t) = peers t"
  "peers (clearBootFailed e t) = peers t"
  "peers (clearStoppedFlagWhenUp e t) = peers t"
  "peers (closeBootStart t) = peers t"
  by (simp_all add: leaveWaitSyncs_def resumeMonitorIfStopRefused_def stoppedClearIfReached_def startedClearIfReached_def doUnfreeze_def setStonith_def unsetStonith_def startedFromStartFailed_def clearStartFailed_def clearBootFailed_def clearStoppedFlagWhenUp_def closeBootStart_def Let_def case_prod_unfold split: option.split bool.split topology.split)

lemma peers_start_stop_1 [simp]:
  "peers (snd (setWaitSyncs e t)) = peers t"
  "peers (stoppedFromReady t) = peers t"
  "peers (stoppedFromFailed t) = peers t"
  "peers (startedFromUnfrozen e t) = peers t"
  "peers (snd (cancelReadyState e t)) = peers t"
  "peers (clearStonith a t) = peers t"
  "peers (snd (stonith e t)) = peers t"
  "peers (startedFromAny t) = peers t"
  "peers (startedFromStarted t) = peers t"
  "peers (bootStartWait e t) = peers t"
  by (simp_all add: setWaitSyncs_def stoppedFromReady_def stoppedFromFailed_def startedFromUnfrozen_def cancelReadyState_def clearStonith_def stonith_def startedFromAny_def startedFromStarted_def bootStartWait_def Let_def case_prod_unfold split: option.split bool.split)

lemma peers_start_stop_2 [simp]:
  "peers (doStop e t) = peers t"
  "peers (startedFromIdle e t) = peers t"
  "peers (snd (stonithAndStart e t)) = peers t"
  by (simp_all add: doStop_def startedFromIdle_def stonithAndStart_def Let_def case_prod_unfold split: option.split bool.split)

lemma peers_start_stop_3 [simp]:
  "peers (doStopOnPurpose e t) = peers t"
  "peers (doFreezeStop e t) = peers t"
  "peers (stop e t) = peers t"
  "peers (startedFromReady e t) = peers t"
  by (simp_all add: doStopOnPurpose_def doFreezeStop_def stop_def startedFromReady_def Let_def case_prod_unfold split: option.split bool.split monitor_state.split)

lemma peers_start_stop_4 [simp]:
  "peers (stopOnPurpose e t) = peers t"
  "peers (orchestrateStarted e t) = peers t"
  "peers (orchestrateHAStop e t) = peers t"
  by (simp_all add: stopOnPurpose_def orchestrateStarted_def orchestrateHAStop_def Let_def case_prod_unfold split: option.split bool.split monitor_state.split topology.split)

lemma peers_start_stop_5 [simp]:
  "peers (orchestrateStopped e t) = peers t"
  "peers (haStartRest e t) = peers t"
  by (simp_all add: orchestrateStopped_def haStartRest_def Let_def case_prod_unfold split: option.split bool.split)

lemma peers_start_stop_6 [simp]:
  "peers (orchestrateHAStart e t) = peers t"
  by (simp_all add: orchestrateHAStart_def Let_def case_prod_unfold split: option.split bool.split monitor_state.split)

lemma peers_start_stop_7 [simp]:
  "peers (bootStartFromIdle e t) = peers t"
  by (simp_all add: bootStartFromIdle_def Let_def case_prod_unfold split: option.split bool.split)

lemma peers_start_stop_8 [simp]:
  "peers (orchestrateBootStart e t) = peers t"
  by (simp_all add: orchestrateBootStart_def Let_def case_prod_unfold split: option.split bool.split)

lemma peers_start_stop_9 [simp]:
  "peers (orchestrateNone e t) = peers t"
  by (simp_all add: orchestrateNone_def Let_def case_prod_unfold split: option.split bool.split)

lemma peers_crmPrepare [simp]: "peers (snd (crmPrepare a e t)) = peers t"
  by (induction a arbitrary: t) (auto simp: case_prod_unfold)

lemma peers_place_0 [simp]:
  "peers (failWaitDestination e t) = peers t"
  "peers (skipPlacedStop t) = peers t"
  "peers (skipPlacedStart t) = peers t"
  "peers (orchestratePlacedStopFromStopFailure t) = peers t"
  "peers (donePlacedStop t) = peers t"
  "peers (orchestratePlacedFromStartFailed t) = peers t"
  "peers (snd (orchestratePlacedAtSetWaitParents e t)) = peers t"
  "peers (doPlacedStart e t) = peers t"
  by (simp_all add: failWaitDestination_def skipPlacedStop_def skipPlacedStart_def orchestratePlacedStopFromStopFailure_def donePlacedStop_def orchestratePlacedFromStartFailed_def orchestratePlacedAtSetWaitParents_def doPlacedStart_def Let_def case_prod_unfold split: option.split bool.split)

lemma peers_place_1 [simp]:
  "peers (snd (setWaitDestination e t)) = peers t"
  "peers (placedStart e t) = peers t"
  "peers (placedStartAfterMove e t) = peers t"
  "peers (orchestrateFailoverPlacedStartFromIdle e t) = peers t"
  by (simp_all add: setWaitDestination_def placedStart_def placedStartAfterMove_def orchestrateFailoverPlacedStartFromIdle_def Let_def case_prod_unfold split: option.split bool.split)

lemma peers_place_2 [simp]:
  "peers (doPlacedStop e t) = peers t"
  "peers (orchestrateFailoverPlacedStartFromStopped e t) = peers t"
  "peers (orchestrateFlexPlacedStart e t) = peers t"
  by (simp_all add: doPlacedStop_def orchestrateFailoverPlacedStartFromStopped_def orchestrateFlexPlacedStart_def Let_def case_prod_unfold split: option.split bool.split monitor_state.split list.split)

lemma peers_place_3 [simp]:
  "peers (placedStop e t) = peers t"
  "peers (orchestrateFailoverPlacedStart e t) = peers t"
  by (simp_all add: placedStop_def orchestrateFailoverPlacedStart_def Let_def case_prod_unfold split: option.split bool.split monitor_state.split list.split)

lemma peers_place_4 [simp]:
  "peers (orchestrateFailoverPlacedStop e t) = peers t"
  "peers (orchestrateFlexPlacedStop e t) = peers t"
  "peers (orchestratePlacedStart e t) = peers t"
  by (simp_all add: orchestrateFailoverPlacedStop_def orchestrateFlexPlacedStop_def orchestratePlacedStart_def Let_def case_prod_unfold split: option.split bool.split monitor_state.split topology.split)

lemma peers_place_5 [simp]:
  "peers (orchestratePlacedStop e t) = peers t"
  by (simp_all add: orchestratePlacedStop_def Let_def case_prod_unfold split: option.split bool.split topology.split)

lemma peers_place_6 [simp]:
  "peers (orchestratePlaced e t) = peers t"
  "peers (orchestratePlacedAt e t) = peers t"
  by (simp_all add: orchestratePlaced_def orchestratePlacedAt_def Let_def case_prod_unfold split: option.split bool.split)

lemma peers_provision_0 [simp]:
  "peers (provisionedReached e a t) = peers t"
  "peers (provisionedFromChecked e t) = peers t"
  "peers (provisionedFromProvisioned e t) = peers t"
  "peers (unprovisionedReached e a t) = peers t"
  "peers (doUnprovisionLeader e t) = peers t"
  "peers (purgedFromWaitNonLeader e t) = peers t"
  "peers (purgedFromDeleted t) = peers t"
  "peers (purgedFromUnprovisioned e t) = peers t"
  "peers (deletedFromIdle e t) = peers t"
  "peers (deletedFromWaitChildren e t) = peers t"
  by (simp_all add: provisionedReached_def provisionedFromChecked_def provisionedFromProvisioned_def unprovisionedReached_def doUnprovisionLeader_def purgedFromWaitNonLeader_def purgedFromDeleted_def purgedFromUnprovisioned_def deletedFromIdle_def deletedFromWaitChildren_def Let_def case_prod_unfold split: option.split bool.split)

lemma peers_provision_1 [simp]:
  "peers (snd (provisionedClearIfReached e t)) = peers t"
  "peers (snd (unprovisionedClearIfReached e t)) = peers t"
  "peers (purgedFromIdleProvisioned e t) = peers t"
  "peers (orchestrateDeleted e t) = peers t"
  by (simp_all add: provisionedClearIfReached_def unprovisionedClearIfReached_def purgedFromIdleProvisioned_def orchestrateDeleted_def Let_def case_prod_unfold split: option.split bool.split)

lemma peers_provision_2 [simp]:
  "peers (provisionedFromIdle e t) = peers t"
  "peers (provisionedFromPreflighted e t) = peers t"
  "peers (provisionedFromWaitLeader e t) = peers t"
  "peers (unprovisionedFromUnprovisionFailed e t) = peers t"
  "peers (UnprovisionedFromIdle e t) = peers t"
  "peers (UnprovisionedFromWaitNonLeader e t) = peers t"
  "peers (purgedFromIdle e t) = peers t"
  by (simp_all add: provisionedFromIdle_def provisionedFromPreflighted_def provisionedFromWaitLeader_def unprovisionedFromUnprovisionFailed_def UnprovisionedFromIdle_def UnprovisionedFromWaitNonLeader_def purgedFromIdle_def Let_def case_prod_unfold split: option.split bool.split)

lemma peers_provision_3 [simp]:
  "peers (orchestrateProvisioned e t) = peers t"
  "peers (orchestrateUnprovisioned e t) = peers t"
  "peers (orchestratePurged e t) = peers t"
  by (simp_all add: orchestrateProvisioned_def orchestrateUnprovisioned_def orchestratePurged_def Let_def case_prod_unfold split: option.split bool.split monitor_state.split)

lemma peers_resize_0 [simp]:
  "peers (snd (crmResizeStage a e t)) = peers t"
  "peers (resizedEnd e t) = peers t"
  "peers (cappedEnd e b t) = peers t"
  "peers (cappedFromIdle e t) = peers t"
  by (simp_all add: crmResizeStage_def resizedEnd_def cappedEnd_def cappedFromIdle_def Let_def case_prod_unfold split: option.split bool.split)

lemma peers_resize_1 [simp]:
  "peers (queueResizeStage a e t) = peers t"
  "peers (orchestrateCapped e t) = peers t"
  by (simp_all add: queueResizeStage_def orchestrateCapped_def Let_def case_prod_unfold split: option.split bool.split)

lemma peers_resize_2 [simp]:
  "peers (resizedFromStage a e t) = peers t"
  "peers (resizedFromIdle e t) = peers t"
  by (simp_all add: resizedFromStage_def resizedFromIdle_def Let_def case_prod_unfold split: option.split bool.split)

lemma peers_resize_3 [simp]:
  "peers (orchestrateResized e t) = peers t"
  by (simp_all add: orchestrateResized_def Let_def case_prod_unfold split: option.split bool.split)

lemma peers_restarted_0 [simp]:
  "peers (restartedWaitPriors t) = peers t"
  "peers (orchestrateRestartedOnReady e t) = peers t"
  "peers (orchestrateRestartedOnWaitPriors t) = peers t"
  "peers (orchestrateRestartedOnStopped e t) = peers t"
  "peers (orchestrateRestartedOnShutdown e t) = peers t"
  "peers (orchestrateRestartedOnRestarted t) = peers t"
  "peers (snd (frozenClearIfReached t)) = peers t"
  "peers (snd (unfrozenClearIfReached t)) = peers t"
  "peers (orchestrateAborted e t) = peers t"
  "peers (doShutdown e t) = peers t"
  by (simp_all add: restartedWaitPriors_def orchestrateRestartedOnReady_def orchestrateRestartedOnWaitPriors_def orchestrateRestartedOnStopped_def orchestrateRestartedOnShutdown_def orchestrateRestartedOnRestarted_def frozenClearIfReached_def unfrozenClearIfReached_def orchestrateAborted_def doShutdown_def Let_def case_prod_unfold split: option.split bool.split)

lemma peers_restarted_1 [simp]:
  "peers (orchestrateRestartedOnIdle t) = peers t"
  "peers (frozenFromIdle e t) = peers t"
  "peers (UnfrozenFromIdle e t) = peers t"
  "peers (orchestrateLocalExpectShutdown e t) = peers t"
  by (simp_all add: orchestrateRestartedOnIdle_def frozenFromIdle_def UnfrozenFromIdle_def orchestrateLocalExpectShutdown_def Let_def case_prod_unfold split: option.split bool.split)

lemma peers_restarted_2 [simp]:
  "peers (orchestrateRestarted e t) = peers t"
  "peers (orchestrateFrozen e t) = peers t"
  "peers (orchestrateUnfrozen e t) = peers t"
  by (simp_all add: orchestrateRestarted_def orchestrateFrozen_def orchestrateUnfrozen_def Let_def case_prod_unfold split: option.split bool.split)

lemma peers_restarted_3 [simp]:
  "peers (restart_work e t) = peers t"
  by (simp_all add: restart_work_def Let_def case_prod_unfold split: option.split bool.split)

lemma peers_resources_0 [simp]:
  "peers (set_orchestrationResource a b t) = peers t"
  "peers (cancelResourceOrchestrateSchedules t) = peers t"
  "peers (doPreMonitorAction t) = peers t"
  "peers (pubMonitorAction c d t) = peers t"
  "peers (set_resource c f t) = peers t"
  "peers (restart_moved t) = peers t"
  by (simp_all add: set_orchestrationResource_def cancelResourceOrchestrateSchedules_def doPreMonitorAction_def pubMonitorAction_def set_resource_def restart_moved_def Let_def case_prod_unfold split: option.split bool.split)

lemma peers_resources_1 [simp]:
  "peers (doMonitorAction a b e t) = peers t"
  "peers (initResourceMonitor t) = peers t"
  "peers (plan_drop c a t) = peers t"
  "peers (plan_reset d f a t) = peers t"
  by (simp_all add: doMonitorAction_def initResourceMonitor_def plan_drop_def plan_reset_def Let_def case_prod_unfold split: option.split bool.split monitor_action.split)

lemma peers_resources_2 [simp]:
  "peers (snd (orchestrateResourcePlan a b c d f t)) = peers t"
  "peers (restart_evicted e t) = peers t"
  by (simp_all add: orchestrateResourcePlan_def restart_evicted_def Let_def case_prod_unfold split: option.split bool.split)

lemma peers_foldl: "(\<And>a x. peers (g (f a x)) = peers (g a)) \<Longrightarrow> peers (g (foldl f a xs)) = peers (g a)"
  by (induction xs arbitrary: a) simp_all

lemma peers_schedule_rid: "peers (schedule_rid b t a) = peers t"
  by (simp add: schedule_rid_def Let_def split: option.split)

lemma peers_restart_rid: "peers (snd (restart_rid e b x a)) = peers (snd x)"
  by (simp add: restart_rid_def Let_def case_prod_unfold split: option.split)

lemma peers_plan_rid: "peers (snd (plan_rid e b x a)) = peers (snd x)"
  by (cases x; cases a; cases "fst x")
     (auto simp: plan_rid_def case_prod_unfold dest!: arg_cong [where f = "\<lambda>x. peers (snd x)"] split: option.split plan.split)

lemma peers_resourceRestartSchedule [simp]: "peers (resourceRestartSchedule e rids b t) = peers t"
  by (simp add: resourceRestartSchedule_def Let_def case_prod_unfold
      peers_foldl [of id "schedule_rid b", unfolded id_apply] peers_schedule_rid)

lemma peers_resourceRestart [simp]: "peers (resourceRestart e rids b t) = peers t"
  by (simp add: resourceRestart_def case_prod_unfold peers_foldl [of snd "restart_rid e b"] peers_restart_rid)

lemma peers_restart_watch [simp]: "peers (restart_watch e t) = peers t"
  by (simp add: restart_watch_def restart_todo_def Let_def case_prod_unfold
      peers_foldl [of snd "plan_rid e b" for b] peers_plan_rid)

lemma peers_resources_3 [simp]:
  "peers (orchestrateResourceRestart e t) = peers t"
  by (simp_all add: orchestrateResourceRestart_def Let_def case_prod_unfold split: option.split bool.split)

lemma peers_handlers_0 [simp]:
  "peers (orchestrate_expect e t) = peers t"
  "peers (enableDelayTimer t) = peers t"
  "peers (snd (setState a t)) = peers t"
  "peers (snd (setRequestedLocalExpect a t)) = peers t"
  "peers (acceptRequest a t) = peers t"
  "peers (refuseRequest a t) = peers t"
  "peers (snd (queueFreeze e t)) = peers t"
  "peers (mergePeerStopped e t) = peers t"
  "peers (janitorAffinities e t) = peers t"
  "peers (set_relations b c t) = peers t"
  "peers (refresh_if_resource d e t) = peers t"
  "peers (snd (queueBoot e t)) = peers t"
  by (simp_all add: orchestrate_expect_def enableDelayTimer_def setState_def setRequestedLocalExpect_def acceptRequest_def refuseRequest_def queueFreeze_def mergePeerStopped_def janitorAffinities_def set_relations_def refresh_if_resource_def queueBoot_def Let_def case_prod_unfold split: option.split bool.split monitor_global_expect.split)

lemma peers_setGlobalExpect [simp]: "peers (snd (setGlobalExpect e u t)) = peers t"
  by (simp add: setGlobalExpect_def Let_def split: option.split sum.split)

lemma peers_actionEnded [simp]: "peers (actionEnded e s s' t) = peers t"
  by (simp add: actionEnded_def)

lemma peers_on_local_event [simp]: "(\<And>t. peers (f e t) = peers t) \<Longrightarrow> peers (on_local_event f n e t) = peers t"
  by (simp add: on_local_event_def)

lemma peers_handlers_1 [simp]:
  "peers (orchestrate_idle_node e t) = peers t"
  "peers (onChange e t) = peers t"
  "peers (updateOrchestrateUpdate t) = peers t"
  "peers (mergePeerFrozen e t) = peers t"
  "peers (initRelationAvailStatus a e t) = peers t"
  "peers (checkResourceForIPMatch b e t) = peers t"
  "peers (checkResourceForMountMatch b e t) = peers t"
  "peers (onDrbdResourceUpdated b c e t) = peers t"
  "peers (snd (ensureBooted b c e t)) = peers t"
  "peers (janitorRelations a e t) = peers t"
  by (simp_all add: orchestrate_idle_node_def onChange_def updateOrchestrateUpdate_def mergePeerFrozen_def initRelationAvailStatus_def checkResourceForIPMatch_def checkResourceForMountMatch_def onDrbdResourceUpdated_def ensureBooted_def janitorRelations_def Let_def case_prod_unfold split: option.split bool.split)

lemma peers_handlers_2 [simp]:
  "peers (orchestrate e t) = peers t"
  "peers (onStatusDone t) = peers t"
  "peers (onWaitSyncsTimer e t) = peers t"
  "peers (onWaitDestinationTimer e t) = peers t"
  "peers (snd (onSetInstanceMonitor e a t)) = peers t"
  "peers (onProgressInstanceMonitor e b c d t) = peers t"
  "peers (onNodeMonitorUpdated e f g t) = peers t"
  "peers (onForgetPeer e f t) = peers t"
  "peers (onNodeStatusUpdated e f h t) = peers t"
  "peers (onNodeStatsUpdated e f i t) = peers t"
  "peers (onNodeRejoin e t) = peers t"
  "peers (onAffinityInstanceStatus e j f k t) = peers t"
  "peers (relations_changed d e t) = peers t"
  "peers (onNetIPAddrAdded l f m e t) = peers t"
  "peers (onNetIPAddrDeleted l f m e t) = peers t"
  "peers (onFSMounted f m e t) = peers t"
  "peers (onFSUmounted f m e t) = peers t"
  "peers (onFSRemounted f m e t) = peers t"
  by (simp_all add: orchestrate_def onStatusDone_def onWaitSyncsTimer_def onWaitDestinationTimer_def onSetInstanceMonitor_def onProgressInstanceMonitor_def onNodeMonitorUpdated_def onForgetPeer_def onNodeStatusUpdated_def onNodeStatsUpdated_def onNodeRejoin_def onAffinityInstanceStatus_def relations_changed_def onNetIPAddrAdded_def onNetIPAddrDeleted_def onFSMounted_def onFSUmounted_def onFSRemounted_def Let_def case_prod_unfold split: option.split bool.split)

lemma peers_handlers_3 [simp]:
  "peers (onDelayTimer e t) = peers t"
  "peers (needOrchestrate e a b t) = peers t"
  "peers (onNodeConfigUpdated e c t) = peers t"
  "peers (onRelationObjectStatusDeleted e d t) = peers t"
  "peers (onRelationObjectStatusUpdated e d f t) = peers t"
  "peers (relation_instance_status e d g f t) = peers t"
  by (simp_all add: onDelayTimer_def needOrchestrate_def onNodeConfigUpdated_def onRelationObjectStatusDeleted_def onRelationObjectStatusUpdated_def relation_instance_status_def Let_def case_prod_unfold split: option.split bool.split)

lemma peers_handlers_4 [simp]:
  "peers (on_cmd e a t) = peers t"
  by (simp_all add: on_cmd_def split: imon_cmd.split)

end
