(* ===== verification/Imon_Worker.thy ===== *)
theory Imon_Worker
  imports Imon_Peers
begin

text \<open>
  The worker of an instance monitor from its start, over every sequence of messages, commands and
  timers: its invariant, and what the answers to a request leave of the orchestration it runs.
\<close>

section \<open>A well formed worker\<close>

text \<open>
  Well formed: the monitor is the one of its object and node, the maps have one entry by node, and
  the node is not one of its own peers, which \<open>AllInstanceMonitors\<close> panics on.
\<close>

definition imon_wf :: "path \<Rightarrow> string \<Rightarrow> imon \<Rightarrow> bool" where
  "imon_wf p host t = (i_path t = p \<and> i_localhost t = host \<and> wf_imon t)"

abbreviation worker_wf :: "path \<Rightarrow> string \<Rightarrow> worker \<Rightarrow> bool" where
  "worker_wf p host w \<equiv> imon_wf p host (w_imon w)"

lemma imon_wf_peers: "peers t' = peers t \<Longrightarrow> imon_wf p host t' \<longleftrightarrow> imon_wf p host t"
  by (auto simp: imon_wf_def wf_imon_def wf_map_def peers_def)

lemma imon_wf_frame: "(\<And>t. peers (f t) = peers t) \<Longrightarrow> imon_wf p host t \<Longrightarrow> imon_wf p host (f t)"
  using imon_wf_peers by blast

lemma wf_map_filter: "wf_map m \<Longrightarrow> wf_map (filter P m)"
  by (simp add: wf_map_def distinct_map_filter)

lemma imon_wf_update_monitor:
  "imon_wf p host t \<Longrightarrow> n \<noteq> host \<Longrightarrow> imon_wf p host (t\<lparr>i_instMonitor := AList.update n m (i_instMonitor t)\<rparr>)"
  by (auto simp: imon_wf_def wf_imon_def dom_update wf_map_update)

lemma imon_wf_delete_monitor:
  "imon_wf p host t \<Longrightarrow> imon_wf p host (t\<lparr>i_instMonitor := AList.delete n (i_instMonitor t)\<rparr>)"
  by (auto simp: imon_wf_def wf_imon_def wf_map_filter AList.delete_eq)

lemma imon_wf_status: "imon_wf p host t \<Longrightarrow> wf_map m \<Longrightarrow> imon_wf p host (t\<lparr>i_instStatus := m\<rparr>)"
  by (auto simp: imon_wf_def wf_imon_def)

lemma imon_wf_statuses: "imon_wf p host t \<Longrightarrow> wf_map (i_instStatus t)"
  by (simp add: imon_wf_def wf_imon_def)

lemma imon_wf_same: "imon_wf p host t \<Longrightarrow> peers t' = peers t \<Longrightarrow> imon_wf p host t'"
  using imon_wf_peers [of t' t p host] by simp

section \<open>What the handlers of a worker leave alone\<close>

lemma peers_on_imon [simp]: "(\<And>t. peers (f t) = peers t) \<Longrightarrow> peers (w_imon (on_imon f w)) = peers (w_imon w)"
  by (simp add: on_imon_def)

lemma peers_writes_recorded [simp]: "peers (w_imon (writes_recorded e r w)) = peers (w_imon w)"
  by (simp add: writes_recorded_def Let_def case_prod_unfold)

lemma peers_onPeerWrites [simp]:
  "peers (w_imon (onPeerLostWrites b e n at w)) = peers (w_imon w)"
  "peers (w_imon (recordPeerWrites b e n st w)) = peers (w_imon w)"
  "peers (w_imon (onPeerWrites b e n st w)) = peers (w_imon w)"
  by (simp_all add: onPeerLostWrites_def recordPeerWrites_def onPeerWrites_def)

lemma peers_volumes [simp]:
  "peers (w_imon (janitorVolumes e w)) = peers (w_imon w)"
  "peers (w_imon (onVolumeInstanceStatusDeleted e p n w)) = peers (w_imon w)"
  "peers (w_imon (onVolumeInstanceStatusUpdated e p n st w)) = peers (w_imon w)"
  by (simp_all add: janitorVolumes_def onVolumeInstanceStatusDeleted_def onVolumeInstanceStatusUpdated_def Let_def
      split: option.split)

lemma peers_relation_status [simp]:
  "peers (w_imon (onRelationInstanceStatusDeleted e p n w)) = peers (w_imon w)"
  "peers (w_imon (onRelationInstanceStatusUpdated e p n st w)) = peers (w_imon w)"
  "peers (w_imon (onInstanceStatusDeleted b e p n at w)) = peers (w_imon w)"
  "peers (w_imon (onObjectStatusDeleted e p w)) = peers (w_imon w)"
  by (simp_all add: onRelationInstanceStatusDeleted_def onRelationInstanceStatusUpdated_def onInstanceStatusDeleted_def
      onObjectStatusDeleted_def)

lemma peers_worker_foldl: "(\<And>w x. peers (w_imon (f w x)) = peers (w_imon w)) \<Longrightarrow> peers (w_imon (foldl f w xs)) = peers (w_imon w)"
  by (rule peers_foldl [of w_imon])

section \<open>The handlers that change the peers known\<close>

lemma wf_onInstanceMonitorUpdated:
  "imon_wf p host t \<Longrightarrow> imon_wf p host (onInstanceMonitorUpdated e n m t)"
  using imon_wf_update_monitor [of p host t n m]
  by (auto simp: onInstanceMonitorUpdated_def onRemoteInstanceMonitorUpdated_def imon_wf_def [of p host t]
      intro!: imon_wf_frame [where f = "\<lambda>t. replayDeferredEventRefresh e (updateOrchestrateUpdate (convergeGlobalExpectFromRemote t))"])

lemma wf_onInstanceMonitorDeletedFromNode:
  "imon_wf p host t \<Longrightarrow> imon_wf p host (onInstanceMonitorDeletedFromNode e n t)"
  by (auto simp: onInstanceMonitorDeletedFromNode_def
      intro!: imon_wf_delete_monitor
        imon_wf_frame [where f = "\<lambda>t. replayDeferredEventRefresh e (updateOrchestrateUpdate (convergeGlobalExpectFromRemote t))"])

lemma wf_onMyInstanceStatusDeleted:
  "imon_wf p host t \<Longrightarrow> imon_wf p host (onMyInstanceStatusDeleted n at t)"
  using imon_wf_peers [of "setStonith n at t" t p host]
  by (simp add: onMyInstanceStatusDeleted_def Let_def imon_wf_status imon_wf_statuses wf_map_delete)

lemma wf_onMyInstanceStatusUpdated:
  assumes "worker_wf p host w"
  shows "worker_wf p host (onMyInstanceStatusUpdated b e n st w)"
proof -
  let ?t = "w_imon w"
  let ?u = "?t\<lparr>i_instStatus := AList.update n st (i_instStatus ?t)\<rparr>"
  have "peers (w_imon (onMyInstanceStatusUpdated b e n st w)) \<in> {peers ?t, peers ?u}"
    by (simp add: onMyInstanceStatusUpdated_def Let_def on_imon_def split: option.split)
  moreover have "imon_wf p host ?u"
    using assms by (simp add: imon_wf_status imon_wf_statuses wf_map_update)
  ultimately show ?thesis using assms imon_wf_peers by blast
qed

lemma wf_map_scope: "wf_map m \<Longrightarrow> wf_map (foldl (\<lambda>m n. if has_key m n then m else AList.update n v m) m scope)"
  by (induction scope arbitrary: m) (auto simp: wf_map_update)

lemma wf_janitorInstStatus:
  assumes "worker_wf p host w"
  shows "worker_wf p host (janitorInstStatus b e scope w)"
proof -
  let ?m = "foldl (\<lambda>m n. if has_key m n then m else AList.update n (zero_status\<lparr>st_Avail := StUndef\<rparr>) m) (i_instStatus (w_imon w)) scope"
  let ?u = "(w_imon w)\<lparr>i_instStatus := filter (\<lambda>(n, _). n \<in> set scope) ?m\<rparr>"
  have "imon_wf p host ?u"
    using assms by (simp add: imon_wf_status imon_wf_statuses wf_map_filter wf_map_scope)
  moreover have "peers (w_imon (janitorInstStatus b e scope w)) = peers ?u"
    unfolding janitorInstStatus_def Let_def by (subst peers_worker_foldl) (auto split: option.split)
  ultimately show ?thesis by (rule imon_wf_same)
qed

lemma wf_on_imon: "worker_wf p host w \<Longrightarrow> (\<And>t. peers (f t) = peers t) \<Longrightarrow> worker_wf p host (on_imon f w)"
  using imon_wf_peers [OF peers_on_imon] by blast

lemma wf_onInstanceConfigUpdated:
  assumes "worker_wf p host w"
  shows "worker_wf p host (onInstanceConfigUpdated a b e n cfg w)"
proof -
  have "worker_wf p host (onLocalInstanceConfigUpdated a b e cfg w)"
    unfolding onLocalInstanceConfigUpdated_def
    by (cases "cfg_UpdatedAt cfg > cfg_UpdatedAt (i_config (w_imon w))")
       (simp_all add: assms wf_on_imon wf_janitorInstStatus)
  with assms show ?thesis
    unfolding onInstanceConfigUpdated_def by (intro wf_on_imon) simp_all
qed

lemma wf_on_source_event: "worker_wf p host w \<Longrightarrow> worker_wf p host (on_source_event a b e src w)"
  by (cases src)
     (auto simp: on_source_event_def wf_onMyInstanceStatusUpdated wf_onInstanceConfigUpdated on_imon_def wf_onMyInstanceStatusDeleted
       wf_onInstanceMonitorDeletedFromNode wf_onInstanceMonitorUpdated)

lemma wf_onObjectStatusUpdated:
  assumes "worker_wf p host w"
  shows "worker_wf p host (onObjectStatusUpdated a b e q src os w)"
proof (cases "i_path (w_imon w) = q")
  case True
  have "worker_wf p host (onMyObjectStatusUpdated a b e src os w)"
    using wf_on_source_event [OF assms] by (rule imon_wf_same) (simp add: onMyObjectStatusUpdated_def)
  with True show ?thesis by (simp add: onObjectStatusUpdated_def)
next
  case False
  show ?thesis using assms by (rule imon_wf_same) (simp add: onObjectStatusUpdated_def False)
qed

lemma peers_on_msg: "(\<And>q src os. m \<noteq> ObjectStatusUpdated q src os) \<Longrightarrow> peers (w_imon (on_msg d m w)) = peers (w_imon w)"
  by (cases m) (auto simp: on_msg_def)

lemma wf_on_msg:
  assumes "worker_wf p host w"
  shows "worker_wf p host (on_msg d m w)"
proof (cases "\<exists>q src os. m = ObjectStatusUpdated q src os")
  case True
  then show ?thesis using assms by (auto simp: on_msg_def wf_onObjectStatusUpdated)
next
  case False
  then have "peers (w_imon (on_msg d m w)) = peers (w_imon w)" by (intro peers_on_msg) blast
  with assms show ?thesis by (rule imon_wf_same)
qed

lemma wf_on_event:
  assumes "worker_wf p host w"
  shows "worker_wf p host (on_event d v w)"
proof (cases "\<exists>m. v = Msg m")
  case True
  then show ?thesis using assms by (auto simp: on_event_def Let_def wf_on_msg)
next
  case False
  then have "peers (w_imon (on_event d v w)) = peers (w_imon w)" by (cases v) (simp_all add: on_event_def Let_def)
  with assms show ?thesis by (rule imon_wf_same)
qed

section \<open>The runs of a worker\<close>

text \<open>
  A run begins with \<open>start\<close> and the caches of the daemon, the maps of which have one entry by node,
  and goes on with any event in any world.
\<close>

inductive worker_run :: "path \<Rightarrow> string \<Rightarrow> worker \<Rightarrow> bool" for p host where
  begins: "worker_begin lastBootID bootID ns stats nm d dir (start now ready p host nodes stonithAt stopped frozen) = Some (saved, w) \<Longrightarrow>
    wf_map (MonitorData_GetByPath (wd_env d) p) \<Longrightarrow> wf_map (StatusData_GetByPath (wd_env d) p) \<Longrightarrow> worker_run p host w"
| handles: "worker_run p host w \<Longrightarrow> worker_run p host (on_event d v w)"

lemma wf_worker_caches:
  assumes "peers t = peers (start now ready p host nodes stonithAt stopped frozen)"
    and "wf_map (MonitorData_GetByPath e p)" and "wf_map (StatusData_GetByPath e p)"
  shows "imon_wf p host (worker_caches ns stats nm e t)"
proof -
  have "i_path t = p" "i_localhost t = host" using assms(1) by (simp_all add: peers_def start_def)
  with assms(2,3) show ?thesis by (auto simp: imon_wf_def wf_imon_def worker_caches_def wf_map_filter)
qed

lemma wf_worker_begin:
  assumes "worker_begin lastBootID bootID ns stats nm d dir (start now ready p host nodes stonithAt stopped frozen) = Some (saved, w)"
    and "wf_map (MonitorData_GetByPath (wd_env d) p)" and "wf_map (StatusData_GetByPath (wd_env d) p)"
  shows "worker_wf p host w"
proof -
  let ?e = "wd_env d" and ?t = "start now ready p host nodes stonithAt stopped frozen"
  from assms(1) obtain cfg where "ConfigData_GetByPathAndNode ?e (i_path ?t) (i_localhost ?t) = Some cfg"
    by (auto simp: worker_begin_def Let_def split: option.splits)
  note w = assms(1) [unfolded worker_begin_def Let_def this option.case, unfolded case_prod_unfold, THEN option.inject [THEN iffD1]]
  define t where "t = snd (let t = ?t\<lparr>i_config := cfg, i_scopeNodes := cfg_Scope cfg\<rparr>;
      t = (if cfg_Actor cfg = None then pubStatelessInstanceStatus ?e t else if e_cfgMtime ?e = 0 then t else snd (crmStatus ?e t))
    in if bootAble t then ensureBooted lastBootID bootID ?e t else (lastBootID, t))"
  have t: "peers t = peers ?t" by (simp add: t_def Let_def)
  have w: "peers (w_imon w) = peers (worker_caches ns stats nm ?e t)"
    using arg_cong [OF w, of "\<lambda>x. peers (w_imon (snd x))"]
    by (simp add: t_def Let_def peers_worker_foldl)
  from wf_worker_caches [OF t assms(2,3)] w show ?thesis by (rule imon_wf_same)
qed

text \<open>
  C9. Whatever the messages, commands and timers a worker handles after its start, and in whatever
  order, it stays the worker of its object and node, its maps have one entry by node, and the map of
  all monitors, which the source panics on when the node is among its own peers, has one monitor by
  node, the one a lookup by node finds.
\<close>

theorem worker_well_formed:
  assumes "worker_run p host w"
  shows "i_path (w_imon w) = p \<and> i_localhost (w_imon w) = host
    \<and> host \<notin> fst ` set (i_instMonitor (w_imon w)) \<and> wf_map (i_instStatus (w_imon w))
    \<and> wf_map (AllInstanceMonitors (w_imon w)) \<and> map_of (AllInstanceMonitors (w_imon w)) = GetInstanceMonitor (w_imon w)"
proof -
  from assms have "worker_wf p host w"
    by induction (blast intro: wf_worker_begin wf_on_event)+
  then show ?thesis
    by (auto simp: imon_wf_def wf_imon_def AllInstanceMonitors_def wf_map_def GetInstanceMonitor_def fun_eq_iff)
qed

definition demo_world :: world where
  "demo_world = \<lparr>wd_env = demo_env\<lparr>
      e_configData := [(demo_path, [(''n1'', zero_config\<lparr>cfg_Scope := demo_nodes\<rparr>)])],
      e_monitorData := [(demo_path, [(''n1'', start_state 1), (''n2'', start_state 1)])],
      e_statusData := [(demo_path, [(''n1'', demo_status), (''n2'', demo_status)])]\<rparr>,
    wd_objAvail = (\<lambda>_. None), wd_ioErr = False, wd_extractIP = (\<lambda>a. a)\<rparr>"

definition demo_begin :: "(string \<times> worker) option" where
  "demo_begin = worker_begin [] ''boot'' [] [] [] demo_world None
    (start 1 5 demo_path ''n1'' demo_nodes [] \<lparr>sl_file = None, sl_next = 0\<rparr> \<lparr>sl_file = None, sl_next = 0\<rparr>)"

lemma demo_begin_Some: "\<exists>saved w. demo_begin = Some (saved, w)"
  by (simp add: demo_begin_def worker_begin_def Let_def case_prod_unfold demo_world_def ConfigData_GetByPathAndNode_def
      ConfigData_GetByPath_def lkp_def start_def)

theorem worker_well_formed_witness:
  "\<exists>saved w. demo_begin = Some (saved, w)
    \<and> ''n1'' \<notin> fst ` set (i_instMonitor (w_imon (on_event demo_world (Msg (ObjectStatusUpdated demo_path
        (SrcInstanceMonitorUpdated ''n1'' (start_state 2)) zero_object_status)) w)))"
    (is "\<exists>saved w. _ \<and> _ \<notin> fst ` set (i_instMonitor (w_imon (on_event _ ?v _)))")
proof -
  obtain saved w where w: "demo_begin = Some (saved, w)" using demo_begin_Some by blast
  have "worker_run demo_path ''n1'' w"
    by (rule worker_run.begins [OF w [unfolded demo_begin_def]])
       (simp_all add: demo_world_def MonitorData_GetByPath_def StatusData_GetByPath_def lkp_def wf_map_def)
  then have "worker_run demo_path ''n1'' (on_event demo_world ?v w)" by (rule worker_run.handles)
  from worker_well_formed [OF this] w show ?thesis by blast
qed

section \<open>Requests\<close>

text \<open>What a request may change of a monitor: what is asked of the object, its orchestrations and its state.\<close>

definition asked :: "imon \<Rightarrow> (monitor_global_expect \<times> time \<times> ge_options \<times> nat) \<times> bool \<times> monitor_state \<times> monitor_local_expect
    \<times> orchestration_end option \<times> orchestration_end option" where
  "asked t = (request (i_state t), mon_OrchestrationIsDone (i_state t), mon_State (i_state t), mon_LocalExpect (i_state t),
    i_orchestrationPending t, i_orchestrationAborted t)"

lemma asked_onChange [simp]: "asked (onChange e t) = asked t"
  by (simp add: onChange_def enableDelayTimer_def updateIsLeader_def Let_def asked_def request_def)

lemma asked_emit [simp]: "asked (emit x t) = asked t"
  by (simp add: emit_def asked_def)

lemma trace_onChange [simp]: "i_trace (onChange e t) = i_trace t"
  by (simp add: onChange_def enableDelayTimer_def updateIsLeader_def Let_def)

lemma setGlobalExpect_refused:
  assumes "fst (setGlobalExpect e u t) = Some err"
  shows "snd (setGlobalExpect e u t) = (if err = ErrInProgress then t else emit (PubSetInstanceMonitorRefused u) t)"
proof -
  have "checkGlobalExpect e ge opts t \<noteq> Inl ErrInProgress" for ge opts
    by (auto simp: checkGlobalExpect_def placedAtOptions_def Let_def split: monitor_global_expect.splits ge_options.splits
        sum.splits if_splits option.splits)
  with assms show ?thesis
    by (auto simp: setGlobalExpect_def Let_def split: option.splits if_splits sum.splits)
qed

lemma setGlobalExpect_taken:
  assumes "setGlobalExpect e u t = (None, t')" and "mu_GlobalExpect u = Some ge" and "ge \<noteq> mon_GlobalExpect (i_state t)"
  obtains opts where "checkGlobalExpect e ge (mu_GlobalExpectOptions u) t = Inr opts" and "i_change t'"
    and "request (i_state t') = (ge, e_now e, opts, mon_OrchestrationID (i_state t))"
    and "mon_State (i_state t') = MonitorStateIdle" and "\<not> mon_OrchestrationIsDone (i_state t')"
    and "mon_LocalExpect (i_state t') = mon_LocalExpect (i_state t)"
  using assms
  by (auto simp: setGlobalExpect_def Let_def request_def savePendingOrchestration_def publishOrchestrationAborted_def emit_def
      split: option.splits if_splits sum.splits)

lemma acceptRequest_sel:
  "i_state (acceptRequest u t) = (i_state t)\<lparr>mon_OrchestrationID := mu_CandidateOrchestrationID u\<rparr>"
  "i_orchestrationPending (acceptRequest u t) = Some \<lparr>oe_ID = mu_CandidateOrchestrationID u,
     oe_GlobalExpect = mon_GlobalExpect (i_state t), oe_GlobalExpectUpdatedAt = mon_GlobalExpectUpdatedAt (i_state t),
     oe_Aborted = False, oe_Failed = False, oe_Error = []\<rparr>"
  "last (i_trace (acceptRequest u t)) = PubOrchestrationAccepted (mu_CandidateOrchestrationID u)
     (mon_GlobalExpect (i_state t)) (mon_GlobalExpectUpdatedAt (i_state t))"
  and acceptRequest_change: "i_change (acceptRequest u t) = i_change t"
  by (simp_all add: acceptRequest_def savePendingOrchestration_def setNextPendingOrchestration_def publishOrchestrationAccepted_def
      publishOrchestrationAborted_def publishOrchestrationEnded_def emit_def Let_def split: option.split)

text \<open>
  C33. A request for a global expectation is taken or refused as a whole. Taken, the monitor holds the
  expectation, with the options checked and the time of the request, under the id of the request, is
  back to idle and not done, the orchestration pending is this one, and the last thing it says is
  that it is accepted. Refused, the monitor asks for what it asked, under the id it had, its state and
  the orchestrations it has to end are the same, and it says the request is refused.
\<close>

theorem request_outcome:
  assumes "mu_State u = None" and "mu_LocalExpect u = None" and "mu_GlobalExpect u = Some ge"
    and "ge \<noteq> mon_GlobalExpect (i_state t)"
    and "mu_CandidateOrchestrationID u \<noteq> 0" and "mu_CandidateOrchestrationID u \<noteq> mon_OrchestrationID (i_state t)"
  shows "case onSetInstanceMonitor e u t of
      ([], t') \<Rightarrow> (\<exists>opts. checkGlobalExpect e ge (mu_GlobalExpectOptions u) t = Inr opts
        \<and> request (i_state t') = (ge, e_now e, opts, mu_CandidateOrchestrationID u)
        \<and> mstate t' = MonitorStateIdle \<and> \<not> mon_OrchestrationIsDone (i_state t')
        \<and> i_orchestrationPending t' = Some \<lparr>oe_ID = mu_CandidateOrchestrationID u, oe_GlobalExpect = ge,
            oe_GlobalExpectUpdatedAt = e_now e, oe_Aborted = False, oe_Failed = False, oe_Error = []\<rparr>
        \<and> last (i_trace t') = PubOrchestrationAccepted (mu_CandidateOrchestrationID u) ge (e_now e))
    | (err # errs, t') \<Rightarrow> errs = [] \<and> asked t' = asked t
        \<and> i_trace t' = i_trace t @ (if err = ErrInProgress then [] else [PubSetInstanceMonitorRefused u])
            @ [PubOrchestrationRefused (mu_CandidateOrchestrationID u) (Some ge)]"
proof (cases "fst (setGlobalExpect e u t)")
  case None
  then obtain t1 where t1: "setGlobalExpect e u t = (None, t1)" by (metis prod.collapse)
  then obtain opts where o: "checkGlobalExpect e ge (mu_GlobalExpectOptions u) t = Inr opts" "i_change t1"
      "request (i_state t1) = (ge, e_now e, opts, mon_OrchestrationID (i_state t))"
      "mon_State (i_state t1) = MonitorStateIdle" "\<not> mon_OrchestrationIsDone (i_state t1)"
    using assms(3,4) by (rule setGlobalExpect_taken)
  have "onSetInstanceMonitor e u t = ([], onChange e (acceptRequest u t1))"
    using assms t1 o(2) o(3) by (simp add: onSetInstanceMonitor_def setState_def setRequestedLocalExpect_def request_def
        acceptRequest_change Let_def)
  moreover have "asked (onChange e (acceptRequest u t1)) = asked (acceptRequest u t1)" by simp
  ultimately show ?thesis using o
    by (auto simp: asked_def request_def acceptRequest_sel)
next
  case (Some err)
  then have "onSetInstanceMonitor e u t = ([err], let t = refuseRequest u (snd (setGlobalExpect e u t)) in if i_change t then onChange e t else t)"
    using assms by (simp add: onSetInstanceMonitor_def setState_def setRequestedLocalExpect_def case_prod_unfold Let_def)
  with setGlobalExpect_refused [OF Some] assms(3) show ?thesis
    by (simp add: Let_def refuseRequest_def)
qed

definition demo_update :: monitor_update where
  "demo_update = \<lparr>mu_GlobalExpect = Some MonitorGlobalExpectFrozen, mu_GlobalExpectOptions = GeoNil, mu_LocalExpect = None,
    mu_State = None, mu_CandidateOrchestrationID = 9\<rparr>"

theorem request_outcome_witness:
  "fst (onSetInstanceMonitor demo_env demo_update (demo_manager ''n1'')) = []
    \<and> mon_OrchestrationID (i_state (snd (onSetInstanceMonitor demo_env demo_update (demo_manager ''n1'')))) = 9
    \<and> asked (snd (onSetInstanceMonitor demo_env demo_update (demo_asked ''n1''))) = asked (demo_asked ''n1'')"
proof -
  have 1: "fst (onSetInstanceMonitor demo_env demo_update (demo_manager ''n1'')) = []"
    by code_simp
  have 2: "fst (onSetInstanceMonitor demo_env demo_update (demo_asked ''n1'')) = [ErrInProgress]"
    by code_simp
  have "mon_OrchestrationID (i_state (snd (onSetInstanceMonitor demo_env demo_update (demo_manager ''n1'')))) = 9"
    using request_outcome [of demo_update MonitorGlobalExpectFrozen "demo_manager ''n1''" demo_env] 1
    by (auto simp: demo_update_def demo_sel start_state_sel request_def split: prod.splits list.splits)
  moreover have "asked (snd (onSetInstanceMonitor demo_env demo_update (demo_asked ''n1''))) = asked (demo_asked ''n1'')"
    using request_outcome [of demo_update MonitorGlobalExpectFrozen "demo_asked ''n1''" demo_env] 2
    by (auto simp: demo_update_def demo_asked_def demo_sel start_state_sel split: prod.splits list.splits)
  ultimately show ?thesis using 1 by simp
qed

text \<open>The id an accepted request left on a monitor that asks for nothing refuses every request but an abort.\<close>

lemma in_progress_refuses:
  assumes "mon_OrchestrationID (i_state t) \<noteq> 0" and "mu_GlobalExpect u = Some ge"
    and "has_key MonitorGlobalExpectStrings ge" and "ge \<noteq> MonitorGlobalExpectAborted"
  shows "ErrInProgress \<in> set (fst (onSetInstanceMonitor e u t))"
proof -
  have "mon_OrchestrationID (i_state (snd (setState u t))) = mon_OrchestrationID (i_state t)"
    by (simp add: setState_def split: option.split)
  then have "fst (setGlobalExpect e u (snd (setState u t))) = Some ErrInProgress"
    using assms by (simp add: setGlobalExpect_def)
  then show ?thesis by (simp add: onSetInstanceMonitor_def Let_def case_prod_unfold)
qed

lemma setLocalExpect_sel: "request (i_state (setLocalExpect le t)) = request (i_state t)"
    "mon_LocalExpect (i_state (setLocalExpect le t)) = le"
  by (simp_all add: setLocalExpect_def request_def)

text \<open>
  The handler of the requests takes care not to leave a monitor naming an orchestration with no
  global expectation to reach, where every later request is refused as already in progress. An
  accepted request for a local expectation still leaves one: the monitor takes the id of the request
  with no global expectation, and as long as it holds it refuses every request for a global
  expectation but an abort.
\<close>

theorem local_request_blocks:
  assumes "mu_State u = None" and "mu_GlobalExpect u = None" and "mu_LocalExpect u = Some le"
    and "le \<in> {MonitorLocalExpectNone, MonitorLocalExpectEvicted, MonitorLocalExpectStarted, MonitorLocalExpectShutdown}"
    and "le \<noteq> mon_LocalExpect (i_state t)"
    and "mu_CandidateOrchestrationID u \<noteq> 0" and "mon_OrchestrationID (i_state t) = 0"
    and "mon_GlobalExpect (i_state t) = MonitorGlobalExpectNone"
    and "mu_GlobalExpect v = Some ge" and "has_key MonitorGlobalExpectStrings ge" and "ge \<noteq> MonitorGlobalExpectAborted"
  shows "case onSetInstanceMonitor e u t of (errs, t') \<Rightarrow> errs = []
    \<and> mon_OrchestrationID (i_state t') = mu_CandidateOrchestrationID u
    \<and> mon_GlobalExpect (i_state t') = MonitorGlobalExpectNone
    \<and> ErrInProgress \<in> set (fst (onSetInstanceMonitor e' v t'))"
proof -
  let ?t1 = "(setLocalExpect le t)\<lparr>i_change := True\<rparr>"
  let ?t' = "onChange e (acceptRequest u ?t1)"
  have id: "mon_OrchestrationID (i_state ?t1) = 0" "mon_GlobalExpect (i_state ?t1) = MonitorGlobalExpectNone"
    using setLocalExpect_sel(1) [of le t] assms(7,8) by (simp_all add: request_def)
  have s: "onSetInstanceMonitor e u t = ([], ?t')"
    using assms(1-6) id by (simp add: onSetInstanceMonitor_def setState_def setGlobalExpect_def setRequestedLocalExpect_def
        acceptRequest_change)
  have "asked ?t' = asked (acceptRequest u ?t1)" by simp
  then have t': "mon_OrchestrationID (i_state ?t') = mu_CandidateOrchestrationID u"
      "mon_GlobalExpect (i_state ?t') = MonitorGlobalExpectNone"
    using id by (simp_all add: asked_def request_def acceptRequest_sel)
  with s assms(6) in_progress_refuses [of ?t' v ge e'] assms(9-11) show ?thesis by simp
qed

theorem local_request_blocks_witness:
  "ErrInProgress \<in> set (fst (onSetInstanceMonitor demo_env demo_update (snd (onSetInstanceMonitor demo_env
     (demo_update\<lparr>mu_GlobalExpect := None, mu_LocalExpect := Some MonitorLocalExpectShutdown, mu_CandidateOrchestrationID := 4\<rparr>)
     (demo_manager ''n1'')))))"
proof -
  have "has_key MonitorGlobalExpectStrings MonitorGlobalExpectFrozen" by code_simp
  then show ?thesis
    using local_request_blocks [of "demo_update\<lparr>mu_GlobalExpect := None, mu_LocalExpect := Some MonitorLocalExpectShutdown,
        mu_CandidateOrchestrationID := 4\<rparr>" MonitorLocalExpectShutdown "demo_manager ''n1''" demo_update MonitorGlobalExpectFrozen
        demo_env demo_env]
    by (simp add: demo_update_def demo_sel start_state_sel case_prod_unfold)
qed

end
