(* ===== verification/Cluster_Data.thy ===== *)
theory Cluster_Data
  imports Prelude
begin

text \<open>
  The data of the cluster a daemon keeps and the messages that change it, \<open>daemon/msgbus\<close>: the
  type \<open>ClusterData\<close> and its method \<open>ApplyMessage\<close>.

  The values the messages carry are stored and compared, never read: a value is its JSON text, the
  empty text being the zero value. Objects are named by their path string. What the source reads of
  a value is kept apart: the gens of a node status and the versions of the heartbeat secrets.
\<close>

type_synonym json = string

text \<open>\<open>node.Gen\<close>: the generation of the data of each node, as a node has applied it.\<close>

type_synonym gens = "(string, nat) gomap"

section \<open>The data of a node\<close>

record inst_data =
  id_Config :: "json option"
  id_Status :: "json option"
  id_Monitor :: "json option"

definition zero_inst :: inst_data where
  "zero_inst = \<lparr>id_Config = None, id_Status = None, id_Monitor = None\<rparr>"

text \<open>A node monitor, or what its deletion leaves: a monitor shutting down, stamped by the local clock.\<close>

datatype node_mon = NodeMon json | NodeMonShutdown

record hb_data =
  hb_Status :: json
  hb_MainVersion :: nat
  hb_AltVersion :: nat

record node_data =
  nd_Instance :: "(string, inst_data) gomap"
  nd_Monitor :: node_mon
  nd_Stats :: json
  nd_Status :: json
  nd_Gen :: gens
  nd_Config :: json
  nd_OsPaths :: json
  nd_Pool :: "(string, json) gomap"
  nd_Collector :: json
  nd_Daemondata :: json
  nd_Dns :: json
  nd_Heartbeat :: hb_data
  nd_Listener :: json
  nd_RunnerImon :: json
  nd_Scheduler :: json

definition zero_node :: node_data where
  "zero_node = \<lparr>nd_Instance = [], nd_Monitor = NodeMon [], nd_Stats = [], nd_Status = [], nd_Gen = [], nd_Config = [],
    nd_OsPaths = [], nd_Pool = [], nd_Collector = [], nd_Daemondata = [], nd_Dns = [],
    nd_Heartbeat = \<lparr>hb_Status = [], hb_MainVersion = 0, hb_AltVersion = 0\<rparr>, nd_Listener = [], nd_RunnerImon = [], nd_Scheduler = []\<rparr>"

record cluster_data =
  cd_Status :: json
  cd_Config :: json
  cd_Object :: "(string, json) gomap"
  cd_Node :: "(string, node_data) gomap"
  cd_localhost :: string

section \<open>Messages\<close>

text \<open>
  The messages the daemon data component hears or applies. \<open>Signal\<close> stands for the kinds that are
  forwarded to the peers and change no data; \<open>Local\<close> for the ones heard and not forwarded, that
  change no data either.
\<close>

datatype message =
    ClusterStatusUpdated json
  | ClusterConfigUpdated json "string list" "string list"
  | DaemonCollectorUpdated string json
  | DaemonDataUpdated string json
  | DaemonDnsUpdated string json
  | DaemonHeartbeatUpdated string hb_data
  | DaemonListenerUpdated string json
  | DaemonRunnerImonUpdated string json
  | DaemonSchedulerUpdated string json
  | ForgetPeer string
  | HeartbeatSecretUpdated string nat nat
  | ObjectStatusDeleted string string
  | ObjectStatusUpdated string string json
  | NodePoolStatusDeleted string string
  | NodePoolStatusUpdated string string json
  | InstanceConfigDeleted string string
  | InstanceConfigUpdated string string json
  | InstanceMonitorDeleted string string
  | InstanceMonitorUpdated string string json
  | InstanceStatusDeleted string string
  | InstanceStatusUpdated string string json
  | NodeConfigUpdated string json
  | NodeDataUpdated string node_data
  | NodeMonitorDeleted string
  | NodeMonitorUpdated string json
  | NodeOsPathsUpdated string json
  | NodeStatsUpdated string json
  | NodeStatusUpdated string json gens
  | Signal string
  | Local string

section \<open>Applying a message\<close>

text \<open>A field of a node, created with the zero values when absent, or changed only when present.\<close>

definition set_cnode :: "string \<Rightarrow> node_data \<Rightarrow> cluster_data \<Rightarrow> cluster_data" where
  "set_cnode n v d = d\<lparr>cd_Node := AList.update n v (cd_Node d)\<rparr>"

definition upd_cnode :: "string \<Rightarrow> (node_data \<Rightarrow> node_data) \<Rightarrow> cluster_data \<Rightarrow> cluster_data" where
  "upd_cnode n f d = set_cnode n (f (lkp zero_node (cd_Node d) n)) d"

definition upd_known_cnode :: "string \<Rightarrow> (node_data \<Rightarrow> node_data) \<Rightarrow> cluster_data \<Rightarrow> cluster_data" where
  "upd_known_cnode n f d = (case map_of (cd_Node d) n of None \<Rightarrow> d | Some v \<Rightarrow> set_cnode n (f v) d)"

definition upd_inst :: "string \<Rightarrow> (inst_data \<Rightarrow> inst_data) \<Rightarrow> node_data \<Rightarrow> node_data" where
  "upd_inst s f v = v\<lparr>nd_Instance := AList.update s (f (lkp zero_inst (nd_Instance v) s)) (nd_Instance v)\<rparr>"

definition del_inst :: "(inst_data \<Rightarrow> json option) \<Rightarrow> string \<Rightarrow> (inst_data \<Rightarrow> inst_data) \<Rightarrow> node_data \<Rightarrow> node_data" where
  "del_inst fld s f v =
    (case map_of (nd_Instance v) s of
       None \<Rightarrow> v
     | Some i \<Rightarrow> if fld i = None then v else v\<lparr>nd_Instance := AList.update s (f i) (nd_Instance v)\<rparr>)"

definition cd_onDaemonCollector :: "string \<Rightarrow> json \<Rightarrow> cluster_data \<Rightarrow> cluster_data" where
  "cd_onDaemonCollector n x = upd_cnode n (\<lambda>v. v\<lparr>nd_Collector := x\<rparr>)"

definition cd_onDaemonDataUpdated :: "string \<Rightarrow> json \<Rightarrow> cluster_data \<Rightarrow> cluster_data" where
  "cd_onDaemonDataUpdated n x = upd_cnode n (\<lambda>v. v\<lparr>nd_Daemondata := x\<rparr>)"

definition cd_onDaemonDnsUpdated :: "string \<Rightarrow> json \<Rightarrow> cluster_data \<Rightarrow> cluster_data" where
  "cd_onDaemonDnsUpdated n x = upd_cnode n (\<lambda>v. v\<lparr>nd_Dns := x\<rparr>)"

definition cd_onDaemonHeartbeatUpdated :: "string \<Rightarrow> hb_data \<Rightarrow> cluster_data \<Rightarrow> cluster_data" where
  "cd_onDaemonHeartbeatUpdated n x = upd_known_cnode n (\<lambda>v. v\<lparr>nd_Heartbeat := x\<rparr>)"

definition cd_onDaemonListenerUpdated :: "string \<Rightarrow> json \<Rightarrow> cluster_data \<Rightarrow> cluster_data" where
  "cd_onDaemonListenerUpdated n x = upd_cnode n (\<lambda>v. v\<lparr>nd_Listener := x\<rparr>)"

definition cd_onDaemonRunnerImonUpdated :: "string \<Rightarrow> json \<Rightarrow> cluster_data \<Rightarrow> cluster_data" where
  "cd_onDaemonRunnerImonUpdated n x = upd_cnode n (\<lambda>v. v\<lparr>nd_RunnerImon := x\<rparr>)"

definition cd_onDaemonSchedulerUpdated :: "string \<Rightarrow> json \<Rightarrow> cluster_data \<Rightarrow> cluster_data" where
  "cd_onDaemonSchedulerUpdated n x = upd_cnode n (\<lambda>v. v\<lparr>nd_Scheduler := x\<rparr>)"

definition cd_onForgetPeer :: "string \<Rightarrow> cluster_data \<Rightarrow> cluster_data" where
  "cd_onForgetPeer n d = d\<lparr>cd_Node := AList.delete n (cd_Node d)\<rparr>"

definition cd_onHeartbeatSecretUpdated :: "string \<Rightarrow> nat \<Rightarrow> nat \<Rightarrow> cluster_data \<Rightarrow> cluster_data" where
  "cd_onHeartbeatSecretUpdated n a b =
    upd_known_cnode n (\<lambda>v. v\<lparr>nd_Heartbeat := (nd_Heartbeat v)\<lparr>hb_MainVersion := a, hb_AltVersion := b\<rparr>\<rparr>)"

definition cd_onObjectStatusDeleted :: "string \<Rightarrow> cluster_data \<Rightarrow> cluster_data" where
  "cd_onObjectStatusDeleted s d = d\<lparr>cd_Object := AList.delete s (cd_Object d)\<rparr>"

definition cd_onObjectStatusUpdated :: "string \<Rightarrow> json \<Rightarrow> cluster_data \<Rightarrow> cluster_data" where
  "cd_onObjectStatusUpdated s x d = d\<lparr>cd_Object := AList.update s x (cd_Object d)\<rparr>"

definition cd_onPoolStatusDeleted :: "string \<Rightarrow> string \<Rightarrow> cluster_data \<Rightarrow> cluster_data" where
  "cd_onPoolStatusDeleted name n = upd_known_cnode n (\<lambda>v. v\<lparr>nd_Pool := AList.delete name (nd_Pool v)\<rparr>)"

definition cd_onPoolStatusUpdated :: "string \<Rightarrow> string \<Rightarrow> json \<Rightarrow> cluster_data \<Rightarrow> cluster_data" where
  "cd_onPoolStatusUpdated name n x = upd_cnode n (\<lambda>v. v\<lparr>nd_Pool := AList.update name x (nd_Pool v)\<rparr>)"

definition cd_onInstanceConfigDeleted :: "string \<Rightarrow> string \<Rightarrow> cluster_data \<Rightarrow> cluster_data" where
  "cd_onInstanceConfigDeleted s n = upd_known_cnode n (del_inst id_Config s (\<lambda>i. i\<lparr>id_Config := None\<rparr>))"

definition cd_onInstanceConfigUpdated :: "string \<Rightarrow> string \<Rightarrow> json \<Rightarrow> cluster_data \<Rightarrow> cluster_data" where
  "cd_onInstanceConfigUpdated s n x = upd_cnode n (upd_inst s (\<lambda>i. i\<lparr>id_Config := Some x\<rparr>))"

definition cd_onInstanceMonitorDeleted :: "string \<Rightarrow> string \<Rightarrow> cluster_data \<Rightarrow> cluster_data" where
  "cd_onInstanceMonitorDeleted s n = upd_known_cnode n (del_inst id_Monitor s (\<lambda>i. i\<lparr>id_Monitor := None\<rparr>))"

definition cd_onInstanceMonitorUpdated :: "string \<Rightarrow> string \<Rightarrow> json \<Rightarrow> cluster_data \<Rightarrow> cluster_data" where
  "cd_onInstanceMonitorUpdated s n x = upd_cnode n (upd_inst s (\<lambda>i. i\<lparr>id_Monitor := Some x\<rparr>))"

definition cd_onInstanceStatusDeleted :: "string \<Rightarrow> string \<Rightarrow> cluster_data \<Rightarrow> cluster_data" where
  "cd_onInstanceStatusDeleted s n = upd_known_cnode n (del_inst id_Status s (\<lambda>i. i\<lparr>id_Status := None\<rparr>))"

definition cd_onInstanceStatusUpdated :: "string \<Rightarrow> string \<Rightarrow> json \<Rightarrow> cluster_data \<Rightarrow> cluster_data" where
  "cd_onInstanceStatusUpdated s n x = upd_cnode n (upd_inst s (\<lambda>i. i\<lparr>id_Status := Some x\<rparr>))"

definition cd_onNodeConfigUpdated :: "string \<Rightarrow> json \<Rightarrow> cluster_data \<Rightarrow> cluster_data" where
  "cd_onNodeConfigUpdated n x d =
    (if nd_Config (lkp zero_node (cd_Node d) n) = x then d else upd_cnode n (\<lambda>v. v\<lparr>nd_Config := x\<rparr>) d)"

definition cd_onNodeMonitorDeleted :: "string \<Rightarrow> cluster_data \<Rightarrow> cluster_data" where
  "cd_onNodeMonitorDeleted n = upd_known_cnode n (\<lambda>v. v\<lparr>nd_Monitor := NodeMonShutdown\<rparr>)"

definition cd_onNodeMonitorUpdated :: "string \<Rightarrow> json \<Rightarrow> cluster_data \<Rightarrow> cluster_data" where
  "cd_onNodeMonitorUpdated n x = upd_cnode n (\<lambda>v. v\<lparr>nd_Monitor := NodeMon x\<rparr>)"

definition cd_onNodeOsPathsUpdated :: "string \<Rightarrow> json \<Rightarrow> cluster_data \<Rightarrow> cluster_data" where
  "cd_onNodeOsPathsUpdated n x = upd_cnode n (\<lambda>v. v\<lparr>nd_OsPaths := x\<rparr>)"

definition cd_onNodeStatsUpdated :: "string \<Rightarrow> json \<Rightarrow> cluster_data \<Rightarrow> cluster_data" where
  "cd_onNodeStatsUpdated n x d =
    (if nd_Stats (lkp zero_node (cd_Node d) n) = x then d else upd_cnode n (\<lambda>v. v\<lparr>nd_Stats := x\<rparr>) d)"

text \<open>\<open>genData\<close> is the cache of the gens of the nodes, \<open>node.GenData\<close>.\<close>

definition cd_onNodeStatusUpdated :: "(string \<Rightarrow> gens option) \<Rightarrow> string \<Rightarrow> json \<Rightarrow> gens \<Rightarrow> cluster_data \<Rightarrow> cluster_data" where
  "cd_onNodeStatusUpdated genData n x gen =
    upd_cnode n (\<lambda>v. v\<lparr>nd_Status := x, nd_Gen := (case genData n of None \<Rightarrow> gen | Some g \<Rightarrow> g)\<rparr>)"

definition ApplyMessage :: "(string \<Rightarrow> gens option) \<Rightarrow> message \<Rightarrow> cluster_data \<Rightarrow> cluster_data" where
  "ApplyMessage genData m d =
    (case m of
       ClusterStatusUpdated x \<Rightarrow> d\<lparr>cd_Status := x\<rparr>
     | ClusterConfigUpdated x _ _ \<Rightarrow> d\<lparr>cd_Config := x\<rparr>
     | DaemonCollectorUpdated n x \<Rightarrow> cd_onDaemonCollector n x d
     | DaemonDataUpdated n x \<Rightarrow> cd_onDaemonDataUpdated n x d
     | DaemonDnsUpdated n x \<Rightarrow> cd_onDaemonDnsUpdated n x d
     | DaemonHeartbeatUpdated n x \<Rightarrow> cd_onDaemonHeartbeatUpdated n x d
     | DaemonListenerUpdated n x \<Rightarrow> cd_onDaemonListenerUpdated n x d
     | DaemonRunnerImonUpdated n x \<Rightarrow> cd_onDaemonRunnerImonUpdated n x d
     | DaemonSchedulerUpdated n x \<Rightarrow> cd_onDaemonSchedulerUpdated n x d
     | ForgetPeer n \<Rightarrow> cd_onForgetPeer n d
     | HeartbeatSecretUpdated n a b \<Rightarrow> cd_onHeartbeatSecretUpdated n a b d
     | ObjectStatusDeleted s n \<Rightarrow> if n = cd_localhost d then cd_onObjectStatusDeleted s d else d
     | ObjectStatusUpdated s n x \<Rightarrow> if n = cd_localhost d then cd_onObjectStatusUpdated s x d else d
     | NodePoolStatusDeleted name n \<Rightarrow> cd_onPoolStatusDeleted name n d
     | NodePoolStatusUpdated name n x \<Rightarrow> cd_onPoolStatusUpdated name n x d
     | InstanceConfigDeleted s n \<Rightarrow> cd_onInstanceConfigDeleted s n d
     | InstanceConfigUpdated s n x \<Rightarrow> cd_onInstanceConfigUpdated s n x d
     | InstanceMonitorDeleted s n \<Rightarrow> cd_onInstanceMonitorDeleted s n d
     | InstanceMonitorUpdated s n x \<Rightarrow> cd_onInstanceMonitorUpdated s n x d
     | InstanceStatusDeleted s n \<Rightarrow> cd_onInstanceStatusDeleted s n d
     | InstanceStatusUpdated s n x \<Rightarrow> cd_onInstanceStatusUpdated s n x d
     | NodeConfigUpdated n x \<Rightarrow> cd_onNodeConfigUpdated n x d
     | NodeDataUpdated n v \<Rightarrow> set_cnode n v d
     | NodeMonitorDeleted n \<Rightarrow> cd_onNodeMonitorDeleted n d
     | NodeMonitorUpdated n x \<Rightarrow> cd_onNodeMonitorUpdated n x d
     | NodeOsPathsUpdated n x \<Rightarrow> cd_onNodeOsPathsUpdated n x d
     | NodeStatsUpdated n x \<Rightarrow> cd_onNodeStatsUpdated n x d
     | NodeStatusUpdated n x g \<Rightarrow> cd_onNodeStatusUpdated genData n x g d
     | Signal _ \<Rightarrow> d
     | Local _ \<Rightarrow> d)"

end
