(* ===== verification/Daemondata.thy ===== *)
theory Daemondata
  imports Cluster_Data
begin

text \<open>
  The daemon data component, \<open>daemon/daemondata\<close>: it keeps the data of the cluster, numbers the
  changes of the data of its node (the gens), queues them for the peers, and exchanges heartbeat
  messages with them: a ping before any peer is heard, a full message with the data of the node, then
  patch messages with the changes queued.

  The keys of the queue are the decimal texts of the gens in the source, numbers here. The JSON
  coding of the events and of the messages is not modelled: a message arrives as it was sent. The
  gens do not wrap. The publications to the other components are the list \<open>d_pubs\<close>; the caches of
  the packages \<open>instance\<close>, \<open>node\<close>, \<open>pool\<close> and \<open>daemonsubsystem\<close>, which the source changes with
  each of them, are not kept, nor is the comparison of two full messages that chooses what to publish
  (\<open>pubPeerDataChanges\<close>): one publication stands for it.
\<close>

section \<open>State\<close>

datatype msg_kind = KindUndef | KindPing | KindFull | KindPatch

text \<open>A heartbeat message. The compatibility level and the monitor of a ping are not used by a receiver.\<close>

record hb_msg =
  hm_Kind :: msg_kind
  hm_Nodename :: string
  hm_RunID :: string
  hm_Gen :: gens
  hm_UpdatedAt :: "time"
  hm_Events :: "(nat, message list) gomap"
  hm_NodeData :: node_data

record peer_run =
  pr_id :: string
  pr_updatedAt :: "time"

record peer_run_candidate =
  pc_id :: string
  pc_updatedAt :: "time"
  pc_count :: int
  pc_seenAt :: "time"

record data =
  d_clusterData :: cluster_data
  d_pendingEvs :: "message list"
  d_eventQueue :: "(nat, message list) gomap"
  d_gen :: nat
  d_hbMessageType :: msg_kind
  d_localNode :: string
  d_clusterNodes :: "string list"
  d_msgLocalGen :: gens
  d_hbMsgPatchLength :: "(string, nat) gomap"
  d_hbMsgType :: "(string, msg_kind) gomap"
  d_hbGens :: "(string, gens) gomap"
  d_hbPatchMsgUpdated :: "(string, time) gomap"
  d_runID :: string
  d_peerRuns :: "(string, peer_run) gomap"
  d_peerRunCandidates :: "(string, peer_run_candidate) gomap"
  d_needMsg :: bool
  d_hbStatusChanged :: bool
  d_pubs :: "message list"

definition newNodeData :: "json \<Rightarrow> json \<Rightarrow> string \<Rightarrow> node_data" where
  "newNodeData status daemondata localNode =
    zero_node\<lparr>nd_Monitor := NodeMon ''rejoin'', nd_Status := status, nd_Gen := [(localNode, 1)], nd_Daemondata := daemondata\<rparr>"

text \<open>\<open>nodeData\<close> is what \<open>newNodeData\<close> made, \<open>nodes\<close> the ones of the cluster configuration.\<close>

definition newData :: "string \<Rightarrow> string \<Rightarrow> string list \<Rightarrow> node_data \<Rightarrow> data" where
  "newData runID localNode nodes nodeData =
    \<lparr>d_clusterData = \<lparr>cd_Status = [], cd_Config = [], cd_Object = [], cd_Node = [(localNode, nodeData)], cd_localhost = localNode\<rparr>,
     d_pendingEvs = [], d_eventQueue = [], d_gen = lkp 0 (nd_Gen nodeData) localNode, d_hbMessageType = KindUndef,
     d_localNode = localNode, d_clusterNodes = remdups nodes, d_msgLocalGen = [],
     d_hbMsgPatchLength = [(localNode, 0)], d_hbMsgType = [(localNode, KindUndef)],
     d_hbGens = [(localNode, [(localNode, 0)])], d_hbPatchMsgUpdated = [], d_runID = runID, d_peerRuns = [],
     d_peerRunCandidates = [], d_needMsg = False, d_hbStatusChanged = False, d_pubs = []\<rparr>"

section \<open>Gens\<close>

text \<open>\<open>d.hbGens[a][b]\<close>: the gen of the data of \<open>b\<close> that \<open>a\<close> has applied, zero when none.\<close>

definition hbGen :: "data \<Rightarrow> string \<Rightarrow> string \<Rightarrow> nat" where
  "hbGen d a b = lkp 0 (lkp [] (d_hbGens d) a) b"

definition set_hbGen :: "string \<Rightarrow> string \<Rightarrow> nat \<Rightarrow> data \<Rightarrow> data" where
  "set_hbGen a b g d = d\<lparr>d_hbGens := AList.update a (AList.update b g (lkp [] (d_hbGens d) a)) (d_hbGens d)\<rparr>"

text \<open>\<open>d.clusterData.Cluster.Node[n].Status.Gen[b] = g\<close>, on a node present.\<close>

definition set_statusGen :: "string \<Rightarrow> string \<Rightarrow> nat \<Rightarrow> data \<Rightarrow> data" where
  "set_statusGen n b g d =
    d\<lparr>d_clusterData := upd_known_cnode n (\<lambda>v. v\<lparr>nd_Gen := AList.update b g (nd_Gen v)\<rparr>) (d_clusterData d)\<rparr>"

section \<open>Committing the changes of the node\<close>

definition purgeAppliedPatchQueue :: "data \<Rightarrow> data" where
  "purgeAppliedPatchQueue d =
    (let peerMinGen = foldl (\<lambda>g (peer, gens).
           if peer = d_localNode d then g
           else let peerGen = lkp 0 gens (d_localNode d) in if peerGen \<noteq> 0 \<and> peerGen < g then peerGen else g) (d_gen d) (d_hbGens d)
     in d\<lparr>d_eventQueue := filter (\<lambda>(gen, _). \<not> gen \<le> peerMinGen) (d_eventQueue d)\<rparr>)"

definition commitPendingOps :: "data \<Rightarrow> bool \<times> data" where
  "commitPendingOps d =
    (let changes = (d_pendingEvs d \<noteq> []); local = d_localNode d;
         d = (if changes
              then let d = set_hbGen local local (d_gen d + 1) (d\<lparr>d_gen := d_gen d + 1\<rparr>) in set_statusGen local local (d_gen d) d
              else d);
         d = (if d_hbMessageType d \<in> {KindPatch, KindFull}
              then purgeAppliedPatchQueue
                (if changes then d\<lparr>d_eventQueue := AList.update (d_gen d) (d_pendingEvs d) (d_eventQueue d), d_pendingEvs := []\<rparr> else d)
              else d\<lparr>d_pendingEvs := [], d_eventQueue := []\<rparr>)
     in (changes, set_hbGen local local (d_gen d) d))"

section \<open>Sending\<close>

definition setHbMsgPatchLength :: "string \<Rightarrow> nat \<Rightarrow> data \<Rightarrow> data" where
  "setHbMsgPatchLength n len d = d\<lparr>d_hbMsgPatchLength := AList.update n len (d_hbMsgPatchLength d)\<rparr>"

definition setHbMsgType :: "string \<Rightarrow> msg_kind \<Rightarrow> data \<Rightarrow> data" where
  "setHbMsgType n k d =
    (if k \<noteq> lkp KindUndef (d_hbMsgType d) n
     then d\<lparr>d_hbMsgType := AList.update n k (d_hbMsgType d), d_pubs := d_pubs d @ [Local ''HeartbeatMessageTypeUpdated'']\<rparr>
     else d)"

text \<open>The gens heard from a node that left the cluster are cleaned up on the way.\<close>

definition setNextMsgType :: "data \<Rightarrow> data" where
  "setNextMsgType d =
    (let kept = filter (\<lambda>(n, _). n = d_localNode d \<or> n \<in> set (d_clusterNodes d)) (d_hbGens d);
         needFull = list_ex (\<lambda>(n, gens). n \<noteq> d_localNode d \<and> lkp 0 gens (d_localNode d) = 0) kept;
         ping = (d_hbMessageType d = KindUndef \<or> length (d_hbGens d) \<le> 1);
         k = (if ping then KindPing else if needFull \<or> d_hbMessageType d = KindPing then KindFull else KindPatch);
         d = (if ping then d else d\<lparr>d_hbGens := kept\<rparr>)
     in if k \<noteq> d_hbMessageType d then setHbMsgType (d_localNode d) k (d\<lparr>d_hbMessageType := k\<rparr>) else d)"

definition getHbMessage :: "time \<Rightarrow> data \<Rightarrow> hb_msg \<times> data" where
  "getHbMessage now d =
    (let d = setNextMsgType d; k = d_hbMessageType d;
         msg = \<lparr>hm_Kind = k, hm_Nodename = d_localNode d, hm_RunID = d_runID d, hm_Gen = lkp [] (d_hbGens d) (d_localNode d),
                hm_UpdatedAt = now, hm_Events = [], hm_NodeData = zero_node\<rparr>
     in case k of
          KindPatch \<Rightarrow> (msg\<lparr>hm_Events := d_eventQueue d\<rparr>, setHbMsgPatchLength (d_localNode d) (length (d_eventQueue d)) d)
        | KindFull \<Rightarrow> (msg\<lparr>hm_Events := d_eventQueue d, hm_NodeData := lkp zero_node (cd_Node (d_clusterData d)) (d_localNode d)\<rparr>,
                     setHbMsgPatchLength (d_localNode d) 0 d)
        | _ \<Rightarrow> (msg, setHbMsgPatchLength (d_localNode d) 0 d))"

definition queueNewHbMsg :: "time \<Rightarrow> data \<Rightarrow> hb_msg \<times> data" where
  "queueNewHbMsg now d = (case getHbMessage now d of (msg, d) \<Rightarrow> (msg, d\<lparr>d_msgLocalGen := hm_Gen msg\<rparr>))"

definition gensEqual :: "gens \<Rightarrow> gens \<Rightarrow> bool" where
  "gensEqual a b = (length a = length b \<and> list_all (\<lambda>(n, v). lkp 0 b n = v) a)"

text \<open>
  The work on the propagation ticker: \<open>lgens\<close> is the cache of the gens of the node, \<open>refresh\<close> says
  the ticker of the heartbeat status is due too, which publishes it.
\<close>

definition propagate :: "time \<Rightarrow> gens \<Rightarrow> bool \<Rightarrow> data \<Rightarrow> hb_msg option \<times> data" where
  "propagate now lgens refresh d =
    (case commitPendingOps d of (changes, d) \<Rightarrow>
      let stale = (\<not> changes \<and> \<not> gensEqual (d_msgLocalGen d) lgens);
          d = (if stale then d\<lparr>d_pubs := d_pubs d @ [Local ''NodeStatusGenUpdates'']\<rparr> else d);
          d = (if refresh then d\<lparr>d_hbStatusChanged := False, d_pubs := d_pubs d @ [Local ''DaemonHeartbeatUpdated'']\<rparr> else d)
      in if changes \<or> stale \<or> refresh \<or> d_needMsg d
         then case queueNewHbMsg now d of (msg, d) \<Rightarrow> (Some msg, d\<lparr>d_needMsg := False, d_hbStatusChanged := False\<rparr>)
         else (None, d))"

section \<open>Receiving\<close>

definition peerRunConfirmCount :: int where "peerRunConfirmCount = 3"

definition peerRunCandidateExpire :: duration where "peerRunCandidateExpire = 30 * second"

definition switchPeerRun :: "hb_msg \<Rightarrow> data \<Rightarrow> data" where
  "switchPeerRun msg d =
    (let peer = hm_Nodename msg; d = set_hbGen (d_localNode d) peer 0 d
     in d\<lparr>d_hbPatchMsgUpdated := AList.delete peer (d_hbPatchMsgUpdated d),
          d_peerRunCandidates := AList.delete peer (d_peerRunCandidates d),
          d_peerRuns := AList.update peer \<lparr>pr_id = hm_RunID msg, pr_updatedAt = hm_UpdatedAt msg\<rparr> (d_peerRuns d)\<rparr>)"

text \<open>The candidate run of a message of another run than the one known, stamped before it.\<close>

definition nextCandidate :: "time \<Rightarrow> hb_msg \<Rightarrow> peer_run_candidate option \<Rightarrow> peer_run_candidate" where
  "nextCandidate now msg c =
    (let fresh = \<lparr>pc_id = hm_RunID msg, pc_updatedAt = hm_UpdatedAt msg, pc_count = 1, pc_seenAt = now\<rparr>
     in case c of
          None \<Rightarrow> fresh
        | Some c \<Rightarrow>
            if pc_id c \<noteq> hm_RunID msg \<or> now - pc_seenAt c > peerRunCandidateExpire then fresh
            else if hm_UpdatedAt msg > pc_updatedAt c
            then c\<lparr>pc_count := pc_count c + 1, pc_updatedAt := hm_UpdatedAt msg, pc_seenAt := now\<rparr>
            else c)"

definition acceptPeerRun :: "time \<Rightarrow> hb_msg \<Rightarrow> data \<Rightarrow> bool \<times> data" where
  "acceptPeerRun now msg d =
    (let peer = hm_Nodename msg; run = \<lparr>pr_id = hm_RunID msg, pr_updatedAt = hm_UpdatedAt msg\<rparr>
     in if hm_RunID msg = [] then (True, d)
        else case map_of (d_peerRuns d) peer of
          None \<Rightarrow> (True, d\<lparr>d_peerRuns := AList.update peer run (d_peerRuns d)\<rparr>)
        | Some known \<Rightarrow>
            if pr_id known = hm_RunID msg then
              (True, (if hm_UpdatedAt msg > pr_updatedAt known then d\<lparr>d_peerRuns := AList.update peer run (d_peerRuns d)\<rparr> else d)
                \<lparr>d_peerRunCandidates := AList.delete peer (d_peerRunCandidates d)\<rparr>)
            else if hm_UpdatedAt msg > pr_updatedAt known then (True, switchPeerRun msg d)
            else
              let c = nextCandidate now msg (map_of (d_peerRunCandidates d) peer)
              in if pc_count c \<ge> peerRunConfirmCount then (True, switchPeerRun msg d)
                 else (False, d\<lparr>d_peerRunCandidates := AList.update peer c (d_peerRunCandidates d)\<rparr>))"

definition setFromPeerMsg :: "string \<Rightarrow> msg_kind \<Rightarrow> nat \<Rightarrow> gens \<Rightarrow> data \<Rightarrow> data" where
  "setFromPeerMsg peer k len gen d =
    (let d = setHbMsgPatchLength peer len (setHbMsgType peer k d);
         d = d\<lparr>d_hbGens := AList.update peer gen (d_hbGens d)\<rparr>; local = d_localNode d
     in d\<lparr>d_needMsg := (d_needMsg d \<or> lkp 0 gen local \<noteq> hbGen d local local \<or> lkp 0 gen peer \<noteq> hbGen d local peer)\<rparr>)"

text \<open>\<open>setCacheAndPublish\<close> has no error path: an event that does not decode is skipped.\<close>

definition setCacheAndPublish :: "(string \<Rightarrow> gens option) \<Rightarrow> message \<Rightarrow> data \<Rightarrow> data" where
  "setCacheAndPublish genData m d = d\<lparr>d_clusterData := ApplyMessage genData m (d_clusterData d), d_pubs := d_pubs d @ [m]\<rparr>"

text \<open>
  The loop of \<open>applyMsgEvents\<close> over the gens of a message in increasing order, from the gen applied:
  it stops on a gap, and then asks for a full message, the answer of the first component.
\<close>

fun apply_gens :: "(string \<Rightarrow> gens option) \<Rightarrow> hb_msg \<Rightarrow> nat list \<Rightarrow> nat \<Rightarrow> data \<Rightarrow> bool \<times> data" where
  "apply_gens genData msg [] applied d = (True, d)"
| "apply_gens genData msg (gen # l) applied d =
    (let local = d_localNode d; remote = hm_Nodename msg
     in if gen \<le> applied then apply_gens genData msg l applied d
        else if gen > applied + 1 then (False, set_hbGen local remote 0 d)
        else
          let d = foldl (\<lambda>d ev. set_hbGen local remote gen (setCacheAndPublish genData ev d)) d (lkp [] (hm_Events msg) gen)
          in apply_gens genData msg l gen
               (d\<lparr>d_hbPatchMsgUpdated := AList.update remote (hm_UpdatedAt msg) (d_hbPatchMsgUpdated d)\<rparr>))"

text \<open>None is the panic on a peer whose gen is applied and whose data is missing.\<close>

definition applyMsgEvents :: "(string \<Rightarrow> gens option) \<Rightarrow> hb_msg \<Rightarrow> data \<Rightarrow> data option" where
  "applyMsgEvents genData msg d =
    (let local = d_localNode d; remote = hm_Nodename msg; applied = hbGen d local remote; gen = lkp 0 (hm_Gen msg) remote
     in if applied = 0 then Some d
        else if hm_UpdatedAt msg < lkp 0 (d_hbPatchMsgUpdated d) remote then Some d
        else if map_of (cd_Node (d_clusterData d)) remote = None then None
        else if gen < applied then Some (set_hbGen local remote 0 d)
        else if hm_Events msg = [] \<and> gen > applied then Some (set_hbGen local remote 0 d)
        else case apply_gens genData msg (sort (map fst (hm_Events msg))) applied d of
          (False, d) \<Rightarrow> Some d
        | (True, d) \<Rightarrow>
            Some (set_statusGen local remote gen
              (d\<lparr>d_clusterData := upd_cnode remote (\<lambda>v. v\<lparr>nd_Gen := hm_Gen msg\<rparr>) (d_clusterData d)\<rparr>)))"

definition applyNodeData :: "hb_msg \<Rightarrow> data \<Rightarrow> data" where
  "applyNodeData msg d =
    (let remote = hm_Nodename msg; local = d_localNode d; gen = lkp 0 (nd_Gen (hm_NodeData msg)) remote;
         d = d\<lparr>d_clusterData := set_cnode remote (hm_NodeData msg) (d_clusterData d)\<rparr>;
         d = set_statusGen local remote gen (set_hbGen local remote gen d)
     in d\<lparr>d_pubs := d_pubs d @ [NodeDataUpdated remote (hm_NodeData msg)]\<rparr>)"

definition onReceiveHbMsg :: "time \<Rightarrow> (string \<Rightarrow> gens option) \<Rightarrow> hb_msg \<Rightarrow> data \<Rightarrow> data option" where
  "onReceiveHbMsg now genData msg d =
    (case acceptPeerRun now msg d of (accept, d) \<Rightarrow>
      if \<not> accept then Some d
      else
        let peer = hm_Nodename msg; local = d_localNode d; gen = lkp 0 (hm_Gen msg) peer
        in case hm_Kind msg of
             KindPatch \<Rightarrow> applyMsgEvents genData msg (setFromPeerMsg peer KindPatch (length (hm_Events msg)) (hm_Gen msg) d)
           | KindFull \<Rightarrow>
               let d = setFromPeerMsg peer KindFull 0 (hm_Gen msg) d
               in if hbGen d local peer = gen then Some d
                  else if hbGen d local peer + length (hm_Events msg) \<ge> gen
                  then (case applyMsgEvents genData msg d of
                          None \<Rightarrow> None
                        | Some d \<Rightarrow> if hbGen d local peer = gen then Some d else Some (applyNodeData msg d))
                  else Some (applyNodeData msg d)
           | KindPing \<Rightarrow> Some (setFromPeerMsg peer KindPing 0 (hm_Gen msg) d)
           | KindUndef \<Rightarrow> Some d)"

text \<open>The loop of the component drops the messages of the nodes that are not members of the cluster.\<close>

definition on_hb_msg :: "time \<Rightarrow> (string \<Rightarrow> gens option) \<Rightarrow> hb_msg \<Rightarrow> data \<Rightarrow> data option" where
  "on_hb_msg now genData msg d =
    (if hm_Nodename msg \<in> set (d_clusterNodes d) then onReceiveHbMsg now genData msg d else Some d)"

section \<open>Peers and local events\<close>

definition dropPeer :: "string \<Rightarrow> data \<Rightarrow> data" where
  "dropPeer peer d =
    (let gens = AList.delete peer (d_hbGens d); local = d_localNode d;
         gens = (case map_of gens local of None \<Rightarrow> gens | Some g \<Rightarrow> AList.update local (AList.delete peer g) gens);
         c = upd_known_cnode local (\<lambda>v. v\<lparr>nd_Gen := AList.delete peer (nd_Gen v)\<rparr>) (d_clusterData d)
     in d\<lparr>d_hbGens := gens,
          d_hbPatchMsgUpdated := AList.delete peer (d_hbPatchMsgUpdated d),
          d_hbMsgPatchLength := AList.delete peer (d_hbMsgPatchLength d),
          d_hbMsgType := AList.delete peer (d_hbMsgType d),
          d_peerRuns := AList.delete peer (d_peerRuns d),
          d_peerRunCandidates := AList.delete peer (d_peerRunCandidates d),
          d_clusterData := c\<lparr>cd_Node := AList.delete peer (cd_Node c)\<rparr>,
          d_pubs := d_pubs d @ [ForgetPeer peer]\<rparr>)"

definition localEventMustBeForwarded :: "message \<Rightarrow> bool" where
  "localEventMustBeForwarded m =
    (case m of
       ClusterStatusUpdated _ \<Rightarrow> False | ClusterConfigUpdated _ _ _ \<Rightarrow> False | ForgetPeer _ \<Rightarrow> False
     | ObjectStatusUpdated _ _ _ \<Rightarrow> False | NodeDataUpdated _ _ \<Rightarrow> False | Local _ \<Rightarrow> False | _ \<Rightarrow> True)"

text \<open>The kinds \<open>startSubscriptions\<close> subscribes to, with the node of the message as label.\<close>

definition subscribed :: "message \<Rightarrow> bool" where
  "subscribed m = (case m of ForgetPeer _ \<Rightarrow> False | NodeDataUpdated _ _ \<Rightarrow> False | _ \<Rightarrow> True)"

definition forwardEvent :: "message \<Rightarrow> data \<Rightarrow> data" where
  "forwardEvent m d = d\<lparr>d_pendingEvs := d_pendingEvs d @ [m]\<rparr>"

definition updateClusterNodes :: "string list \<Rightarrow> string list \<Rightarrow> data \<Rightarrow> data" where
  "updateClusterNodes added removed d =
    d\<lparr>d_clusterNodes := filter (\<lambda>n. n \<notin> set removed) (foldl (\<lambda>l n. if n \<in> set l then l else l @ [n]) (d_clusterNodes d) added)\<rparr>"

definition onSubEvent :: "(string \<Rightarrow> gens option) \<Rightarrow> message \<Rightarrow> data \<Rightarrow> data" where
  "onSubEvent genData m d =
    (let d = (if localEventMustBeForwarded m then forwardEvent m d else d);
         d = (case m of
                ClusterConfigUpdated _ added removed \<Rightarrow>
                  (foldl (\<lambda>d n. dropPeer n d) (updateClusterNodes added removed d) removed)\<lparr>d_hbStatusChanged := True\<rparr>
              | Local k \<Rightarrow> if k \<in> {''HeartbeatStale'', ''HeartbeatAlive''} then d\<lparr>d_hbStatusChanged := True\<rparr> else d
              | _ \<Rightarrow> d)
     in d\<lparr>d_clusterData := ApplyMessage genData m (d_clusterData d)\<rparr>)"

end
