(* ===== verification/Replication.thy ===== *)
theory Replication
  imports Daemondata
begin

text \<open>
  The data the daemons of a cluster hold of each other, over a network that loses, delays, repeats
  and reorders heartbeat messages, with daemons that restart: whatever a node holds of a peer is the
  data the peer had, at the gen recorded, in the run of the peer recorded.
\<close>

section \<open>The data of a node, its gens apart\<close>

definition core :: "node_data \<Rightarrow> node_data" where
  "core v = v\<lparr>nd_Gen := []\<rparr>"

lemma core_core [simp]: "core (core v) = core v"
  by (simp add: core_def)

text \<open>The node a message is about, and the messages a daemon hears of its own node.\<close>

fun msg_node :: "message \<Rightarrow> string option" where
  "msg_node (DaemonCollectorUpdated n _) = Some n"
| "msg_node (DaemonDataUpdated n _) = Some n"
| "msg_node (DaemonDnsUpdated n _) = Some n"
| "msg_node (DaemonHeartbeatUpdated n _) = Some n"
| "msg_node (DaemonListenerUpdated n _) = Some n"
| "msg_node (DaemonRunnerImonUpdated n _) = Some n"
| "msg_node (DaemonSchedulerUpdated n _) = Some n"
| "msg_node (ForgetPeer n) = Some n"
| "msg_node (HeartbeatSecretUpdated n _ _) = Some n"
| "msg_node (ObjectStatusDeleted _ n) = Some n"
| "msg_node (ObjectStatusUpdated _ n _) = Some n"
| "msg_node (NodePoolStatusDeleted _ n) = Some n"
| "msg_node (NodePoolStatusUpdated _ n _) = Some n"
| "msg_node (InstanceConfigDeleted _ n) = Some n"
| "msg_node (InstanceConfigUpdated _ n _) = Some n"
| "msg_node (InstanceMonitorDeleted _ n) = Some n"
| "msg_node (InstanceMonitorUpdated _ n _) = Some n"
| "msg_node (InstanceStatusDeleted _ n) = Some n"
| "msg_node (InstanceStatusUpdated _ n _) = Some n"
| "msg_node (NodeConfigUpdated n _) = Some n"
| "msg_node (NodeDataUpdated n _) = Some n"
| "msg_node (NodeMonitorDeleted n) = Some n"
| "msg_node (NodeMonitorUpdated n _) = Some n"
| "msg_node (NodeOsPathsUpdated n _) = Some n"
| "msg_node (NodeStatsUpdated n _) = Some n"
| "msg_node (NodeStatusUpdated n _ _) = Some n"
| "msg_node _ = None"

definition own :: "string \<Rightarrow> message \<Rightarrow> bool" where
  "own n m \<longleftrightarrow> subscribed m \<and> (msg_node m = None \<or> msg_node m = Some n)"

text \<open>What a message does to the data of its node.\<close>

definition napply :: "string \<Rightarrow> node_data \<Rightarrow> message \<Rightarrow> node_data" where
  "napply n v m = core (lkp zero_node (cd_Node (ApplyMessage (\<lambda>_. None) m
    \<lparr>cd_Status = [], cd_Config = [], cd_Object = [], cd_Node = [(n, v)], cd_localhost = []\<rparr>)) n)"

lemmas apply_defs = ApplyMessage_def cd_onDaemonCollector_def cd_onDaemonDataUpdated_def cd_onDaemonDnsUpdated_def
  cd_onDaemonHeartbeatUpdated_def cd_onDaemonListenerUpdated_def cd_onDaemonRunnerImonUpdated_def
  cd_onDaemonSchedulerUpdated_def cd_onForgetPeer_def cd_onHeartbeatSecretUpdated_def cd_onObjectStatusDeleted_def
  cd_onObjectStatusUpdated_def cd_onPoolStatusDeleted_def cd_onPoolStatusUpdated_def cd_onInstanceConfigDeleted_def
  cd_onInstanceConfigUpdated_def cd_onInstanceMonitorDeleted_def cd_onInstanceMonitorUpdated_def
  cd_onInstanceStatusDeleted_def cd_onInstanceStatusUpdated_def cd_onNodeConfigUpdated_def cd_onNodeMonitorDeleted_def
  cd_onNodeMonitorUpdated_def cd_onNodeOsPathsUpdated_def cd_onNodeStatsUpdated_def cd_onNodeStatusUpdated_def

lemmas cnode_defs = upd_cnode_def upd_known_cnode_def set_cnode_def

lemma cnode_other: "k \<noteq> n \<Longrightarrow> map_of (cd_Node (upd_cnode n f d)) k = map_of (cd_Node d) k"
    "k \<noteq> n \<Longrightarrow> map_of (cd_Node (upd_known_cnode n f d)) k = map_of (cd_Node d) k"
  by (simp_all add: cnode_defs update_conv split: option.split)

lemma cnode_same: "map_of (cd_Node d) n = Some v \<Longrightarrow> map_of (cd_Node (upd_cnode n f d)) n = Some (f v)"
    "map_of (cd_Node d) n = Some v \<Longrightarrow> map_of (cd_Node (upd_known_cnode n f d)) n = Some (f v)"
  by (simp_all add: cnode_defs update_conv lkp_def)

lemma ApplyMessage_other:
  assumes "own n m" and "k \<noteq> n"
  shows "map_of (cd_Node (ApplyMessage g m d)) k = map_of (cd_Node d) k"
  using assms by (cases m) (simp_all add: own_def subscribed_def apply_defs cnode_other)

lemma core_inst: "core (upd_inst s f v) = upd_inst s f (core v)" "core (del_inst fld s f v) = del_inst fld s f (core v)"
  by (simp_all add: core_def upd_inst_def del_inst_def split: option.split)

lemma ApplyMessage_own:
  assumes "own n m" and "map_of (cd_Node d) n = Some v"
  shows "\<exists>v'. map_of (cd_Node (ApplyMessage g m d)) n = Some v' \<and> core v' = napply n (core v) m"
  using assms
  by (cases m)
     (simp_all add: own_def subscribed_def apply_defs napply_def cnode_same lkp_def core_inst, auto simp: core_def)

lemma napply_unforwarded: "own n m \<Longrightarrow> \<not> localEventMustBeForwarded m \<Longrightarrow> napply n v m = core v"
  by (cases m) (simp_all add: own_def subscribed_def localEventMustBeForwarded_def napply_def apply_defs lkp_def)

section \<open>What a daemon says and holds\<close>

text \<open>
  \<open>h n run g\<close> is the data of node \<open>n\<close>, its gens apart, when its daemon committed gen \<open>g\<close> in the run
  \<open>run\<close>.
\<close>

type_synonym history = "string \<Rightarrow> string \<Rightarrow> nat \<Rightarrow> node_data option"

definition extends :: "history \<Rightarrow> history \<Rightarrow> bool" where
  "extends h h' \<longleftrightarrow> (\<forall>n run g v. h n run g = Some v \<longrightarrow> h' n run g = Some v)"

text \<open>The events of a gen lead from the data of the gen before to the data of the gen.\<close>

definition leads :: "history \<Rightarrow> string \<Rightarrow> string \<Rightarrow> nat \<Rightarrow> message list \<Rightarrow> bool" where
  "leads h n run g evs \<longleftrightarrow> evs \<noteq> [] \<and> (\<forall>m\<in>set evs. own n m)
    \<and> (\<exists>v. h n run (g - 1) = Some v \<and> h n run g = Some (foldl (napply n) v evs))"

definition msg_ok :: "history \<Rightarrow> hb_msg \<Rightarrow> bool" where
  "msg_ok h msg \<longleftrightarrow>
    (let n = hm_Nodename msg; run = hm_RunID msg; g = lkp 0 (hm_Gen msg) n
     in run \<noteq> []
        \<and> (\<forall>i evs. map_of (hm_Events msg) i = Some evs \<longrightarrow> leads h n run i evs)
        \<and> (hm_Kind msg = KindFull \<longrightarrow>
             g \<noteq> 0 \<and> lkp 0 (nd_Gen (hm_NodeData msg)) n = g \<and> h n run g = Some (core (hm_NodeData msg))))"

text \<open>
  What a daemon holds of a node: the gen applied, the run known and the data, with the gen of the
  daemon's own node in it.
\<close>

definition view :: "data \<Rightarrow> string \<Rightarrow> nat \<times> peer_run option \<times> (node_data \<times> nat) option" where
  "view d k = (hbGen d (d_localNode d) k, map_of (d_peerRuns d) k,
    map_option (\<lambda>v. (core v, lkp 0 (nd_Gen v) (d_localNode d))) (map_of (cd_Node (d_clusterData d)) k))"

text \<open>What a daemon knows of the gen of the data of a peer it holds.\<close>

definition peer_ok :: "history \<Rightarrow> data \<Rightarrow> string \<Rightarrow> bool" where
  "peer_ok h d m \<longleftrightarrow> hbGen d (d_localNode d) m = 0
    \<or> (\<exists>run v. map_of (d_peerRuns d) m = Some run \<and> map_of (cd_Node (d_clusterData d)) m = Some v
        \<and> h m (pr_id run) (hbGen d (d_localNode d) m) = Some (core v))"

text \<open>What a daemon has to say of its own node.\<close>

definition own_ok :: "history \<Rightarrow> data \<Rightarrow> bool" where
  "own_ok h d \<longleftrightarrow>
    (let n = d_localNode d; run = d_runID d
     in run \<noteq> [] \<and> d_gen d \<noteq> 0 \<and> (\<forall>m\<in>set (d_pendingEvs d). own n m)
        \<and> (\<forall>i evs. map_of (d_eventQueue d) i = Some evs \<longrightarrow> leads h n run i evs)
        \<and> (\<forall>g. h n run g \<noteq> None \<longrightarrow> g \<le> d_gen d)
        \<and> (\<exists>x i b. snd (snd (view d n)) = Some (x, i) \<and> h n run (d_gen d) = Some b
            \<and> x = foldl (napply n) b (d_pendingEvs d) \<and> (d_pendingEvs d = [] \<longrightarrow> i = d_gen d)))"

lemma leads_mono: "extends h h' \<Longrightarrow> leads h n run g evs \<Longrightarrow> leads h' n run g evs"
  by (fastforce simp: extends_def leads_def)

lemma msg_ok_mono: "extends h h' \<Longrightarrow> msg_ok h msg \<Longrightarrow> msg_ok h' msg"
  unfolding msg_ok_def Let_def by (meson extends_def leads_mono)

lemma peer_ok_mono: "extends h h' \<Longrightarrow> peer_ok h d m \<Longrightarrow> peer_ok h' d m"
  unfolding peer_ok_def by (meson extends_def)

section \<open>What the messages of a peer leave alone\<close>

text \<open>The messages of a peer change what is held of that peer only.\<close>

definition others :: "string \<Rightarrow> data \<Rightarrow> data \<Rightarrow> bool" where
  "others m d d' \<longleftrightarrow> d_localNode d' = d_localNode d \<and> d_runID d' = d_runID d \<and> d_gen d' = d_gen d
    \<and> d_pendingEvs d' = d_pendingEvs d \<and> d_eventQueue d' = d_eventQueue d \<and> (\<forall>k. k \<noteq> m \<longrightarrow> view d' k = view d k)"

lemma others_refl [simp]: "others m d d"
  by (simp add: others_def)

lemma others_trans: "others m d d' \<Longrightarrow> others m d' d'' \<Longrightarrow> others m d d''"
  by (simp add: others_def)

lemma others_local: "others m d d' \<Longrightarrow> d_localNode d' = d_localNode d"
  by (simp add: others_def)

lemma peer_ok_view:
  assumes "view d' k = view d k"
  shows "peer_ok h d' k \<longleftrightarrow> peer_ok h d k"
proof -
  have "peer_ok h d k \<longleftrightarrow> (case view d k of (g, run, v) \<Rightarrow> g = 0 \<or> (\<exists>r x i. run = Some r \<and> v = Some (x, i) \<and> h k (pr_id r) g = Some x))"
    for d by (auto simp: peer_ok_def view_def)
  then show ?thesis by (simp add: assms)
qed

lemma own_ok_others: "others m d d' \<Longrightarrow> m \<noteq> d_localNode d \<Longrightarrow> own_ok h d' \<longleftrightarrow> own_ok h d"
  by (simp add: own_ok_def others_def)

lemma peer_ok_others: "others m d d' \<Longrightarrow> k \<noteq> m \<Longrightarrow> peer_ok h d' k \<longleftrightarrow> peer_ok h d k"
  by (rule peer_ok_view) (simp add: others_def)

lemma hbGen_set: "hbGen (set_hbGen a b g d) a' b' = (if a' = a \<and> b' = b then g else hbGen d a' b')"
  by (simp add: hbGen_def set_hbGen_def go_simps)

lemma set_hbGen_sel [simp]: "d_localNode (set_hbGen a b g d) = d_localNode d" "d_clusterData (set_hbGen a b g d) = d_clusterData d"
    "d_peerRuns (set_hbGen a b g d) = d_peerRuns d" "d_runID (set_hbGen a b g d) = d_runID d" "d_gen (set_hbGen a b g d) = d_gen d"
    "d_pendingEvs (set_hbGen a b g d) = d_pendingEvs d" "d_eventQueue (set_hbGen a b g d) = d_eventQueue d"
    "d_hbPatchMsgUpdated (set_hbGen a b g d) = d_hbPatchMsgUpdated d"
  by (simp_all add: set_hbGen_def)

lemma others_set_hbGen: "others m d (set_hbGen (d_localNode d) m g d)"
  by (simp add: others_def view_def hbGen_set)

lemma hbGen_update [simp]:
  "hbGen (d\<lparr>d_clusterData := x0\<rparr>) = hbGen d"
  "hbGen (d\<lparr>d_pendingEvs := x1\<rparr>) = hbGen d"
  "hbGen (d\<lparr>d_eventQueue := x2\<rparr>) = hbGen d"
  "hbGen (d\<lparr>d_gen := x3\<rparr>) = hbGen d"
  "hbGen (d\<lparr>d_hbMessageType := x4\<rparr>) = hbGen d"
  "hbGen (d\<lparr>d_msgLocalGen := x5\<rparr>) = hbGen d"
  "hbGen (d\<lparr>d_hbMsgPatchLength := x6\<rparr>) = hbGen d"
  "hbGen (d\<lparr>d_hbMsgType := x7\<rparr>) = hbGen d"
  "hbGen (d\<lparr>d_hbPatchMsgUpdated := x8\<rparr>) = hbGen d"
  "hbGen (d\<lparr>d_peerRuns := x9\<rparr>) = hbGen d"
  "hbGen (d\<lparr>d_peerRunCandidates := x10\<rparr>) = hbGen d"
  "hbGen (d\<lparr>d_needMsg := x11\<rparr>) = hbGen d"
  "hbGen (d\<lparr>d_hbStatusChanged := x12\<rparr>) = hbGen d"
  "hbGen (d\<lparr>d_pubs := x13\<rparr>) = hbGen d"
  "hbGen (d\<lparr>d_clusterNodes := x14\<rparr>) = hbGen d"
  by (simp_all add: hbGen_def fun_eq_iff)

lemma set_statusGen_sel [simp]: "d_localNode (set_statusGen a b g d) = d_localNode d" "d_runID (set_statusGen a b g d) = d_runID d"
    "d_gen (set_statusGen a b g d) = d_gen d" "d_pendingEvs (set_statusGen a b g d) = d_pendingEvs d"
    "d_eventQueue (set_statusGen a b g d) = d_eventQueue d" "d_peerRuns (set_statusGen a b g d) = d_peerRuns d"
    "d_hbMessageType (set_statusGen a b g d) = d_hbMessageType d" "hbGen (set_statusGen a b g d) = hbGen d"
  by (simp_all add: set_statusGen_def)

lemma others_switchPeerRun: "others (hm_Nodename msg) d (switchPeerRun msg d)"
  by (simp add: others_def view_def switchPeerRun_def Let_def hbGen_set update_conv)

lemma others_acceptPeerRun: "others (hm_Nodename msg) d (snd (acceptPeerRun now msg d))"
  by (simp add: acceptPeerRun_def Let_def others_switchPeerRun split: option.split)
     (auto simp: others_def view_def update_conv)

lemma others_setFromPeerMsg: "m \<noteq> d_localNode d \<Longrightarrow> others m d (setFromPeerMsg m k len gen d)"
  by (simp add: others_def view_def setFromPeerMsg_def setHbMsgPatchLength_def setHbMsgType_def Let_def hbGen_def go_simps)

lemma setFromPeerMsg_sel:
  assumes "m \<noteq> d_localNode d"
  shows "d_clusterData (setFromPeerMsg m k len gen d) = d_clusterData d" "d_peerRuns (setFromPeerMsg m k len gen d) = d_peerRuns d"
    "hbGen (setFromPeerMsg m k len gen d) (d_localNode d) = hbGen d (d_localNode d)"
  using assms by (simp_all add: setFromPeerMsg_def setHbMsgPatchLength_def setHbMsgType_def Let_def hbGen_def go_simps fun_eq_iff)

lemma others_setCacheAndPublish: "own m ev \<Longrightarrow> others m d (setCacheAndPublish g ev d)"
  by (simp add: others_def view_def setCacheAndPublish_def ApplyMessage_other)

lemma others_set_statusGen:
  "m \<noteq> d_localNode d \<Longrightarrow> others m d (set_statusGen (d_localNode d) m g d)"
  by (auto simp: others_def view_def set_statusGen_def cnode_defs update_conv core_def go_simps split: option.split)

lemma others_set_cnode: "others m d (d\<lparr>d_clusterData := set_cnode m v (d_clusterData d)\<rparr>)"
  by (simp add: others_def view_def set_cnode_def update_conv)

lemma others_applyNodeData:
  assumes "hm_Nodename msg \<noteq> d_localNode d"
  shows "others (hm_Nodename msg) d (applyNodeData msg d)"
proof -
  let ?m = "hm_Nodename msg" and ?n = "d_localNode d" and ?g = "lkp 0 (nd_Gen (hm_NodeData msg)) (hm_Nodename msg)"
  let ?d1 = "d\<lparr>d_clusterData := set_cnode ?m (hm_NodeData msg) (d_clusterData d)\<rparr>"
  let ?d2 = "set_hbGen ?n ?m ?g ?d1"
  have "others ?m d ?d1" by (rule others_set_cnode)
  moreover have "others ?m ?d1 ?d2" using others_set_hbGen [of ?m ?d1] by simp
  moreover have "others ?m ?d2 (set_statusGen ?n ?m ?g ?d2)" using others_set_statusGen [of ?m ?d2] assms by simp
  moreover have "others ?m (set_statusGen ?n ?m ?g ?d2) (applyNodeData msg d)"
    by (simp add: applyNodeData_def Let_def others_def view_def)
  ultimately show ?thesis using others_trans by blast
qed

section \<open>Receiving keeps what is held right\<close>

abbreviation play :: "string \<Rightarrow> string \<Rightarrow> nat \<Rightarrow> (string \<Rightarrow> gens option) \<Rightarrow> data \<Rightarrow> message list \<Rightarrow> data" where
  "play n m gen g d evs \<equiv> foldl (\<lambda>d ev. set_hbGen n m gen (setCacheAndPublish g ev d)) d evs"

lemma play_events:
  assumes "\<forall>ev\<in>set evs. own m ev" and "map_of (cd_Node (d_clusterData d)) m = Some v" and "d_localNode d = n"
  shows "(\<exists>v'. map_of (cd_Node (d_clusterData (play n m gen g d evs))) m = Some v' \<and> core v' = foldl (napply m) (core v) evs)
    \<and> others m d (play n m gen g d evs) \<and> d_peerRuns (play n m gen g d evs) = d_peerRuns d
    \<and> hbGen (play n m gen g d evs) n m = (if evs = [] then hbGen d n m else gen)"
  using assms
proof (induction evs arbitrary: d v)
  case (Cons ev evs)
  let ?d1 = "set_hbGen n m gen (setCacheAndPublish g ev d)"
  obtain v1 where v1: "map_of (cd_Node (d_clusterData ?d1)) m = Some v1" "core v1 = napply m (core v) ev"
    using ApplyMessage_own [of m ev "d_clusterData d" v g] Cons.prems by (auto simp: setCacheAndPublish_def)
  have l: "d_localNode ?d1 = n" "d_peerRuns ?d1 = d_peerRuns d" using Cons.prems(3) by (simp_all add: setCacheAndPublish_def)
  have "others m d (setCacheAndPublish g ev d)" using others_setCacheAndPublish Cons.prems(1) by simp
  then have o: "others m d ?d1"
    using others_set_hbGen [of m "setCacheAndPublish g ev d" gen] others_trans Cons.prems(3)
    by (simp add: setCacheAndPublish_def)
  have "\<forall>ev\<in>set evs. own m ev" using Cons.prems(1) by simp
  from Cons.IH [OF this v1(1) l(1)] v1(2) l(2) others_trans [OF o] show ?case by (simp add: hbGen_set)
qed simp

lemma apply_gens_ok:
  assumes "apply_gens g msg l a d = (b, d')" and "hm_Nodename msg = m" and "set l \<subseteq> fst ` set (hm_Events msg)"
    and "\<forall>i evs. map_of (hm_Events msg) i = Some evs \<longrightarrow> leads h m (pr_id run) i evs"
    and "d_localNode d = n" and "m \<noteq> n" and "map_of (d_peerRuns d) m = Some run" and "hbGen d n m = a"
    and "map_of (cd_Node (d_clusterData d)) m = Some v" and "h m (pr_id run) a = Some (core v)"
  shows "others m d d' \<and> peer_ok h d' m \<and> d_peerRuns d' = d_peerRuns d"
  using assms
proof (induction l arbitrary: a d v)
  case Nil
  then show ?case by (auto simp: peer_ok_def)
next
  case (Cons gen l)
  consider "gen \<le> a" | "gen > a + 1" | "gen = a + 1" by linarith
  then show ?case
  proof cases
    case 1
    with Cons.prems show ?thesis by (intro Cons.IH) auto
  next
    case 2
    with Cons.prems have "d' = set_hbGen n m 0 d" by (auto simp: Let_def)
    with Cons.prems(5) others_set_hbGen [of m d 0] show ?thesis by (simp add: peer_ok_def hbGen_set)
  next
    case 3
    obtain evs where evs: "map_of (hm_Events msg) gen = Some evs"
      using Cons.prems(3) by (cases "map_of (hm_Events msg) gen") (auto simp: map_of_eq_None_iff)
    with Cons.prems(4) have ld: "leads h m (pr_id run) gen evs" by blast
    let ?f = "play n m gen g d evs"
    let ?d1 = "?f\<lparr>d_hbPatchMsgUpdated := AList.update m (hm_UpdatedAt msg) (d_hbPatchMsgUpdated ?f)\<rparr>"
    have own: "\<forall>ev\<in>set evs. own m ev" and ne: "evs \<noteq> []" using ld by (simp_all add: leads_def)
    note f = play_events [OF own Cons.prems(9,5), of gen g]
    obtain v' where v': "map_of (cd_Node (d_clusterData ?f)) m = Some v'" "core v' = foldl (napply m) (core v) evs"
      using f by blast
    have hv: "h m (pr_id run) gen = Some (core v')" using ld Cons.prems(10) 3 v'(2) by (auto simp: leads_def)
    have "others m ?f ?d1" by (simp add: others_def view_def)
    then have o: "others m d ?d1" using f others_trans by blast
    have l: "d_localNode ?d1 = n" using others_local [OF o] Cons.prems(5) by simp
    have "apply_gens g msg l gen ?d1 = (b, d')"
      using Cons.prems(1,2,5) 3 evs by (simp add: Let_def lkp_def)
    then have "others m ?d1 d' \<and> peer_ok h d' m \<and> d_peerRuns d' = d_peerRuns ?d1"
      by (rule Cons.IH) (use Cons.prems v'(1) hv l f ne in auto)
    with o show ?thesis using others_trans [OF o] f by simp
  qed
qed

lemma applyMsgEvents_ok:
  assumes "msg_ok h msg" and "hm_Nodename msg = m" and "m \<noteq> d_localNode d" and "map_of (d_peerRuns d) m = Some run"
    and "pr_id run = hm_RunID msg" and "peer_ok h d m"
  shows "\<exists>d'. applyMsgEvents g msg d = Some d' \<and> others m d d' \<and> peer_ok h d' m \<and> d_peerRuns d' = d_peerRuns d"
proof (cases "hbGen d (d_localNode d) m = 0")
  case True
  then show ?thesis using assms by (simp add: applyMsgEvents_def)
next
  case False
  let ?n = "d_localNode d" and ?a = "hbGen d (d_localNode d) m"
  from False assms(4,6) obtain v where v: "map_of (cd_Node (d_clusterData d)) m = Some v" "h m (pr_id run) ?a = Some (core v)"
    by (auto simp: peer_ok_def)
  have reset: "others m d (set_hbGen ?n m 0 d)" "peer_ok h (set_hbGen ?n m 0 d) m"
    using others_set_hbGen [of m d 0] by (simp_all add: peer_ok_def hbGen_set)
  obtain b d1 where a: "apply_gens g msg (sort (map fst (hm_Events msg))) ?a d = (b, d1)" by fastforce
  have "\<forall>i evs. map_of (hm_Events msg) i = Some evs \<longrightarrow> leads h m (pr_id run) i evs"
    using assms(1,2,5) by (simp add: msg_ok_def Let_def)
  then have d1: "others m d d1" "peer_ok h d1 m" "d_peerRuns d1 = d_peerRuns d"
    using apply_gens_ok [OF a assms(2), where h = h and run = run and n = ?n and v = v] assms(3,4) v by auto
  let ?gen = "lkp 0 (hm_Gen msg) m"
  let ?d2 = "d1\<lparr>d_clusterData := upd_cnode m (\<lambda>v. v\<lparr>nd_Gen := hm_Gen msg\<rparr>) (d_clusterData d1)\<rparr>"
  let ?d3 = "set_statusGen ?n m ?gen ?d2"
  have l: "d_localNode d1 = ?n" using others_local [OF d1(1)] .
  have "others m d1 ?d2" unfolding upd_cnode_def by (rule others_set_cnode)
  moreover have "others m ?d2 ?d3" using others_set_statusGen [of m ?d2 ?gen] assms(3) l by simp
  ultimately have "others m d ?d3" using d1(1) others_trans by blast
  moreover have "peer_ok h ?d3 m"
  proof (cases "hbGen d1 ?n m = 0")
    case True
    then show ?thesis by (simp add: peer_ok_def set_statusGen_def l)
  next
    case False
    with d1(2) l obtain r w where "map_of (d_peerRuns d1) m = Some r" "map_of (cd_Node (d_clusterData d1)) m = Some w"
        "h m (pr_id r) (hbGen d1 ?n m) = Some (core w)"
      by (auto simp: peer_ok_def)
    then show ?thesis
      using assms(3) l by (simp add: peer_ok_def set_statusGen_def cnode_other cnode_same) (simp add: core_def)
  qed
  moreover have "d_peerRuns ?d3 = d_peerRuns d" using d1(3) by (simp add: set_statusGen_def)
  ultimately show ?thesis
    using reset d1 a v(1) False assms(2,6) by (simp add: applyMsgEvents_def Let_def split: prod.split bool.split)
qed

lemma applyNodeData_ok:
  assumes "msg_ok h msg" and "hm_Kind msg = KindFull" and "hm_Nodename msg = m" and "m \<noteq> d_localNode d"
    and "map_of (d_peerRuns d) m = Some run" and "pr_id run = hm_RunID msg"
  shows "peer_ok h (applyNodeData msg d) m"
  using assms
  by (simp add: peer_ok_def applyNodeData_def Let_def msg_ok_def set_statusGen_def cnode_other hbGen_set set_cnode_def update_conv)

lemma acceptPeerRun_ok:
  assumes "peer_ok h d m" and "hm_Nodename msg = m" and "hm_RunID msg \<noteq> []" and "acceptPeerRun now msg d = (b, d')"
  shows "peer_ok h d' m" and "b \<Longrightarrow> \<exists>run. map_of (d_peerRuns d') m = Some run \<and> pr_id run = hm_RunID msg"
  using assms
  by (auto simp: acceptPeerRun_def Let_def switchPeerRun_def peer_ok_def hbGen_set update_conv split: option.splits if_splits)

lemma onReceive_ok:
  assumes "msg_ok h msg" and "hm_Nodename msg = m" and "m \<noteq> d_localNode d" and "peer_ok h d m"
  shows "\<exists>d'. onReceiveHbMsg now g msg d = Some d' \<and> others m d d' \<and> peer_ok h d' m
    \<and> (fst (acceptPeerRun now msg d) \<longrightarrow> (\<exists>run. map_of (d_peerRuns d') m = Some run \<and> pr_id run = hm_RunID msg)
        \<and> (hm_Kind msg = KindFull \<longrightarrow> hbGen d' (d_localNode d) m = lkp 0 (hm_Gen msg) m))"
proof -
  obtain b d1 where a: "acceptPeerRun now msg d = (b, d1)" by fastforce
  have r: "hm_RunID msg \<noteq> []" using assms(1) by (simp add: msg_ok_def Let_def)
  note k = acceptPeerRun_ok [OF assms(4,2) r a]
  have o1: "others m d d1" using others_acceptPeerRun [of msg d now] a assms(2) by simp
  have l: "d_localNode d1 = d_localNode d" using others_local [OF o1] .
  show ?thesis
  proof (cases b)
    case False
    then show ?thesis using a k(1) o1 by (simp add: onReceiveHbMsg_def)
  next
    case True
    then obtain run where run: "map_of (d_peerRuns d1) m = Some run" "pr_id run = hm_RunID msg" using k(2) by blast
    define s where "s = setFromPeerMsg m (hm_Kind msg) (if hm_Kind msg = KindPatch then length (hm_Events msg) else 0) (hm_Gen msg) d1"
    have m: "m \<noteq> d_localNode d1" using assms(3) l by simp
    have o: "others m d s" using others_trans [OF o1 others_setFromPeerMsg [OF m]] by (simp add: s_def)
    have ls: "d_localNode s = d_localNode d" using others_local [OF o] .
    have ps: "peer_ok h s m"
      using k(1) setFromPeerMsg_sel [OF m] ls l by (simp add: peer_ok_def s_def)
    have rs: "map_of (d_peerRuns s) m = Some run" using run setFromPeerMsg_sel [OF m] by (simp add: s_def)
    have ms: "m \<noteq> d_localNode s" using assms(3) ls by simp
    obtain e where e: "applyMsgEvents g msg s = Some e" "others m s e" "peer_ok h e m" "d_peerRuns e = d_peerRuns s"
      using applyMsgEvents_ok [OF assms(1,2) ms rs run(2) ps] by blast
    have le: "d_localNode e = d_localNode d" using others_local [OF e(2)] ls by simp
    have full: "others m d (applyNodeData msg x) \<and> peer_ok h (applyNodeData msg x) m
        \<and> d_peerRuns (applyNodeData msg x) = d_peerRuns x \<and> hbGen (applyNodeData msg x) (d_localNode d) m = lkp 0 (hm_Gen msg) m"
      if "others m d x" "map_of (d_peerRuns x) m = Some run" "hm_Kind msg = KindFull" for x
    proof -
      have n: "hm_Nodename msg \<noteq> d_localNode x" using others_local [OF that(1)] assms(2,3) by simp
      show ?thesis
        using others_trans [OF that(1)] others_applyNodeData [OF n] applyNodeData_ok [OF assms(1) that(3) refl n] that(2,3) run(2)
          assms(1,2) others_local [OF that(1)]
        by (simp add: applyNodeData_def Let_def hbGen_set msg_ok_def)
    qed
    show ?thesis
      using a True k(1) o1 o ps e others_trans [OF o e(2)] full [OF o rs] full [OF others_trans [OF o e(2)]] rs run assms(2) l
      by (cases "hm_Kind msg") (auto simp: onReceiveHbMsg_def Let_def s_def)
  qed
qed

section \<open>Committing and sending\<close>

definition record_gen :: "string \<Rightarrow> string \<Rightarrow> nat \<Rightarrow> node_data \<Rightarrow> history \<Rightarrow> history" where
  "record_gen n run g x h = h(n := (h n)(run := (h n run)(g := Some x)))"

lemma map_of_filter_key: "map_of (filter (\<lambda>(k, _). P k) m) i = (if P i then map_of m i else None)"
  by (induction m) auto

lemma set_statusGen_same:
  "map_of (cd_Node (d_clusterData d)) n = Some v \<Longrightarrow>
    map_of (cd_Node (d_clusterData (set_statusGen n b g d))) n = Some (v\<lparr>nd_Gen := AList.update b g (nd_Gen v)\<rparr>)"
  by (simp add: set_statusGen_def cnode_same)

lemma purge_sel: "map_of (d_eventQueue (purgeAppliedPatchQueue d)) i = Some evs \<Longrightarrow> map_of (d_eventQueue d) i = Some evs"
  by (simp add: purgeAppliedPatchQueue_def Let_def map_of_filter_key split: if_splits)

lemma purge_frame [simp]: "d_localNode (purgeAppliedPatchQueue d) = d_localNode d" "d_runID (purgeAppliedPatchQueue d) = d_runID d"
    "d_gen (purgeAppliedPatchQueue d) = d_gen d" "d_pendingEvs (purgeAppliedPatchQueue d) = d_pendingEvs d"
    "d_clusterData (purgeAppliedPatchQueue d) = d_clusterData d" "d_peerRuns (purgeAppliedPatchQueue d) = d_peerRuns d"
    "d_clusterNodes (purgeAppliedPatchQueue d) = d_clusterNodes d" "d_hbGens (purgeAppliedPatchQueue d) = d_hbGens d"
    "d_hbMessageType (purgeAppliedPatchQueue d) = d_hbMessageType d"
  by (simp_all add: purgeAppliedPatchQueue_def Let_def)

lemma hbGen_purge [simp]: "hbGen (purgeAppliedPatchQueue d) = hbGen d"
  by (simp add: hbGen_def fun_eq_iff)

text \<open>A commit leaves nothing pending, and the data as it was.\<close>

lemma commit_frame:
  assumes "commitPendingOps d = (ch, d')" and "n = d_localNode d"
  shows "d_localNode d' = n" and "d_runID d' = d_runID d" and "d_pendingEvs d' = []" and "hbGen d' n n = d_gen d'"
    and "k \<noteq> n \<Longrightarrow> view d' k = view d k"
    and "d_gen d' = (if d_pendingEvs d = [] then d_gen d else d_gen d + 1)"
    and "map_of (d_eventQueue d') i = Some evs \<Longrightarrow>
      map_of (d_eventQueue d) i = Some evs \<or> d_pendingEvs d \<noteq> [] \<and> i = d_gen d' \<and> evs = d_pendingEvs d"
    and "map_of (cd_Node (d_clusterData d)) n = Some v \<Longrightarrow> \<exists>v'. map_of (cd_Node (d_clusterData d')) n = Some v'
      \<and> core v' = core v \<and> lkp 0 (nd_Gen v') n = (if d_pendingEvs d = [] then lkp 0 (nd_Gen v) n else d_gen d')"
proof -
  show "d_localNode d' = n" "d_runID d' = d_runID d" "d_pendingEvs d' = []" "hbGen d' n n = d_gen d'"
      "d_gen d' = (if d_pendingEvs d = [] then d_gen d else d_gen d + 1)"
    using assms by (auto simp: commitPendingOps_def Let_def hbGen_set split: if_splits)
  show "k \<noteq> n \<Longrightarrow> view d' k = view d k"
    using assms by (auto simp: commitPendingOps_def Let_def view_def hbGen_set set_statusGen_def cnode_other split: if_splits)
  show "map_of (d_eventQueue d) i = Some evs \<or> d_pendingEvs d \<noteq> [] \<and> i = d_gen d' \<and> evs = d_pendingEvs d"
    if "map_of (d_eventQueue d') i = Some evs"
    using assms that by (auto simp: commitPendingOps_def Let_def update_conv dest!: purge_sel split: if_splits)
  show "\<exists>v'. map_of (cd_Node (d_clusterData d')) n = Some v'
      \<and> core v' = core v \<and> lkp 0 (nd_Gen v') n = (if d_pendingEvs d = [] then lkp 0 (nd_Gen v) n else d_gen d')"
    if "map_of (cd_Node (d_clusterData d)) n = Some v"
    using assms that
    by (auto simp: commitPendingOps_def Let_def set_statusGen_def cnode_same core_def go_simps split: if_splits)
qed

lemma own_okD:
  assumes "own_ok h d" and "n = d_localNode d" and "run = d_runID d"
  shows "run \<noteq> []" and "d_gen d \<noteq> 0" and "\<And>m. m \<in> set (d_pendingEvs d) \<Longrightarrow> own n m"
    and "\<And>i evs. map_of (d_eventQueue d) i = Some evs \<Longrightarrow> leads h n run i evs"
    and "\<And>g. h n run g \<noteq> None \<Longrightarrow> g \<le> d_gen d"
    and "\<exists>v b. map_of (cd_Node (d_clusterData d)) n = Some v \<and> h n run (d_gen d) = Some b
      \<and> core v = foldl (napply n) b (d_pendingEvs d) \<and> (d_pendingEvs d = [] \<longrightarrow> lkp 0 (nd_Gen v) n = d_gen d)"
  using assms by (auto simp: own_ok_def view_def Let_def)

lemma own_okI:
  assumes "d_localNode d = n" and "d_runID d = run" and "run \<noteq> []" and "d_gen d \<noteq> 0" and "\<And>m. m \<in> set (d_pendingEvs d) \<Longrightarrow> own n m"
    and "\<And>i evs. map_of (d_eventQueue d) i = Some evs \<Longrightarrow> leads h n run i evs"
    and "\<And>g. h n run g \<noteq> None \<Longrightarrow> g \<le> d_gen d"
    and "map_of (cd_Node (d_clusterData d)) n = Some v" and "h n run (d_gen d) = Some b"
    and "core v = foldl (napply n) b (d_pendingEvs d)" and "d_pendingEvs d = [] \<Longrightarrow> lkp 0 (nd_Gen v) n = d_gen d"
  shows "own_ok h d"
  using assms by (simp add: own_ok_def view_def Let_def)

lemma extends_record: "h n run g = None \<or> h n run g = Some x \<Longrightarrow> extends h (record_gen n run g x h)"
  by (auto simp: extends_def record_gen_def)

lemma commit_ok:
  assumes "own_ok h d" and "commitPendingOps d = (ch, d')" and "n = d_localNode d" and "run = d_runID d"
  obtains x h' where "h' = record_gen n run (d_gen d') x h" and "extends h h'" and "own_ok h' d'"
    and "snd (snd (view d' n)) = Some (x, d_gen d')"
proof -
  note o = own_okD [OF assms(1,3,4)] and c = commit_frame [OF assms(2,3)]
  obtain v b where v: "map_of (cd_Node (d_clusterData d)) n = Some v" "h n run (d_gen d) = Some b"
      "core v = foldl (napply n) b (d_pendingEvs d)" "d_pendingEvs d = [] \<longrightarrow> lkp 0 (nd_Gen v) n = d_gen d"
    using o(6) by blast
  obtain v' where v': "map_of (cd_Node (d_clusterData d')) n = Some v'" "core v' = core v"
      "lkp 0 (nd_Gen v') n = (if d_pendingEvs d = [] then lkp 0 (nd_Gen v) n else d_gen d')"
    using c(8) [OF v(1)] by blast
  define h' where "h' = record_gen n run (d_gen d') (core v) h"
  have old: "h n run (d_gen d') = None \<or> h n run (d_gen d') = Some (core v)"
  proof (cases "d_pendingEvs d = []")
    case True then show ?thesis using v(2,3) c(6) by simp
  next
    case False then show ?thesis using o(5) [of "d_gen d'"] c(6) by (cases "h n run (d_gen d')") auto
  qed
  have e: "extends h h'" unfolding h'_def using old by (rule extends_record)
  have gen: "lkp 0 (nd_Gen v') n = d_gen d'" using v(4) v'(3) c(6) by simp
  have "leads h' n run i evs" if "map_of (d_eventQueue d') i = Some evs" for i evs
    using c(7) [OF that]
  proof
    assume "map_of (d_eventQueue d) i = Some evs"
    then show ?thesis using o(4) leads_mono [OF e] by blast
  next
    assume i: "d_pendingEvs d \<noteq> [] \<and> i = d_gen d' \<and> evs = d_pendingEvs d"
    then have "h' n run (i - 1) = Some b" "h' n run i = Some (core v)"
      using v(2) c(6) by (simp_all add: h'_def record_gen_def)
    then show ?thesis using i v(3) o(3) by (simp add: leads_def)
  qed
  moreover have "g \<le> d_gen d'" if "h' n run g \<noteq> None" for g
    using that o(5) [of g] c(6) by (auto simp: h'_def record_gen_def split: if_splits)
  ultimately have "own_ok h' d'"
    using c(1-4) c(6) o(1,2) v' gen assms(3,4)
    by (intro own_okI [where n = n and run = run and v = v' and b = "core v"]) (auto simp: h'_def record_gen_def)
  moreover have "snd (snd (view d' n)) = Some (core v, d_gen d')" using v' gen c(1) by (simp add: view_def)
  ultimately show thesis using e h'_def that by blast
qed

lemma setHbMsgType_sel: "d_localNode (setHbMsgType a k d) = d_localNode d" "d_runID (setHbMsgType a k d) = d_runID d"
    "d_gen (setHbMsgType a k d) = d_gen d" "d_pendingEvs (setHbMsgType a k d) = d_pendingEvs d"
    "d_eventQueue (setHbMsgType a k d) = d_eventQueue d" "d_hbGens (setHbMsgType a k d) = d_hbGens d"
    "d_clusterData (setHbMsgType a k d) = d_clusterData d" "d_peerRuns (setHbMsgType a k d) = d_peerRuns d"
    "d_hbMessageType (setHbMsgType a k d) = d_hbMessageType d"
  by (simp_all add: setHbMsgType_def)

lemma setNextMsgType_sel: "d_localNode (setNextMsgType d) = d_localNode d" "d_runID (setNextMsgType d) = d_runID d"
    "d_gen (setNextMsgType d) = d_gen d" "d_pendingEvs (setNextMsgType d) = d_pendingEvs d"
    "d_eventQueue (setNextMsgType d) = d_eventQueue d" "d_clusterData (setNextMsgType d) = d_clusterData d"
    "d_peerRuns (setNextMsgType d) = d_peerRuns d"
    "lkp [] (d_hbGens (setNextMsgType d)) (d_localNode d) = lkp [] (d_hbGens d) (d_localNode d)"
  by (simp_all add: setNextMsgType_def Let_def setHbMsgType_sel lkp_def map_of_filter_key)

lemma getHbMessage_sel:
  assumes "getHbMessage now d = (msg, d')" and "n = d_localNode d"
  shows "d_localNode d' = n" and "d_runID d' = d_runID d" and "d_gen d' = d_gen d" and "d_pendingEvs d' = d_pendingEvs d"
    and "d_eventQueue d' = d_eventQueue d" and "view d' k = view d k"
    and "hm_Nodename msg = n" and "hm_RunID msg = d_runID d" and "lkp 0 (hm_Gen msg) n = hbGen d n n"
    and "hm_Events msg = [] \<or> hm_Events msg = d_eventQueue d"
    and "hm_Kind msg = KindFull \<Longrightarrow> hm_NodeData msg = lkp zero_node (cd_Node (d_clusterData d)) n"
  using assms
  by (cases "d_hbMessageType (setNextMsgType d)";
      auto simp: getHbMessage_def Let_def setHbMsgPatchLength_def view_def hbGen_def setNextMsgType_sel)+

section \<open>Dropping a peer, local events, a new daemon\<close>

lemma dropPeer_sel: "d_localNode (dropPeer k d) = d_localNode d" "d_runID (dropPeer k d) = d_runID d" "d_gen (dropPeer k d) = d_gen d"
    "d_pendingEvs (dropPeer k d) = d_pendingEvs d" "d_eventQueue (dropPeer k d) = d_eventQueue d"
  by (simp_all add: dropPeer_def Let_def)

lemma dropPeer_hbGen:
  "k \<noteq> d_localNode d \<Longrightarrow> hbGen (dropPeer k d) (d_localNode d) i = (if i = k then 0 else hbGen d (d_localNode d) i)"
  by (simp add: dropPeer_def Let_def hbGen_def lkp_def delete_conv update_conv split: option.split)

lemma dropPeer_node:
  assumes "k \<noteq> d_localNode d" and "i \<noteq> k"
  shows "map_option (\<lambda>v. (core v, lkp 0 (nd_Gen v) (d_localNode d))) (map_of (cd_Node (d_clusterData (dropPeer k d))) i)
    = map_option (\<lambda>v. (core v, lkp 0 (nd_Gen v) (d_localNode d))) (map_of (cd_Node (d_clusterData d)) i)"
  using assms
  by (cases "i = d_localNode d"; cases "map_of (cd_Node (d_clusterData d)) (d_localNode d)")
     (simp_all add: dropPeer_def Let_def delete_conv cnode_other upd_known_cnode_def set_cnode_def update_conv core_def go_simps)

lemma others_dropPeer: "k \<noteq> d_localNode d \<Longrightarrow> others k d (dropPeer k d)"
  using dropPeer_node [of k d] dropPeer_hbGen [of k d]
  by (simp add: others_def dropPeer_sel view_def) (simp add: dropPeer_def Let_def delete_conv)

lemma peer_ok_dropPeer: "k \<noteq> d_localNode d \<Longrightarrow> peer_ok h (dropPeer k d) k"
  by (simp add: peer_ok_def dropPeer_sel dropPeer_hbGen)

text \<open>The properties of a daemon: what it says of its node and what it holds of the others.\<close>

definition node_ok :: "history \<Rightarrow> string \<Rightarrow> data \<Rightarrow> bool" where
  "node_ok h n d \<longleftrightarrow> d_localNode d = n \<and> own_ok h d \<and> (\<forall>m. m \<noteq> n \<longrightarrow> peer_ok h d m)"

lemma node_ok_others:
  assumes "node_ok h n d" and "others m d d'" and "m \<noteq> n" and "peer_ok h d' m"
  shows "node_ok h n d'"
proof -
  have "peer_ok h d' k" if "k \<noteq> n" for k
    using assms(1,4) that peer_ok_others [OF assms(2), of k h] by (cases "k = m") (simp_all add: node_ok_def)
  then show ?thesis using own_ok_others [OF assms(2), of h] assms(1,3) others_local [OF assms(2)] by (simp add: node_ok_def)
qed

lemma node_ok_dropPeer: "node_ok h n d \<Longrightarrow> k \<noteq> n \<Longrightarrow> node_ok h n (dropPeer k d)"
  by (rule node_ok_others [OF _ others_dropPeer]) (auto simp: node_ok_def peer_ok_dropPeer)

lemma node_ok_drops: "node_ok h n d \<Longrightarrow> n \<notin> set l \<Longrightarrow> node_ok h n (foldl (\<lambda>d k. dropPeer k d) d l)"
proof (induction l arbitrary: d)
  case (Cons k l)
  have "k \<noteq> n" using Cons.prems(2) by auto
  from Cons.IH [OF node_ok_dropPeer [OF Cons.prems(1) this]] Cons.prems(2) show ?case by simp
qed simp

lemma node_ok_same:
  assumes "node_ok h n d" and "\<And>k. view d' k = view d k" and "d_localNode d' = d_localNode d" and "d_runID d' = d_runID d"
    and "d_gen d' = d_gen d" and "d_pendingEvs d' = d_pendingEvs d" and "d_eventQueue d' = d_eventQueue d"
  shows "node_ok h n d'"
proof -
  have "own_ok h d' \<longleftrightarrow> own_ok h d" using assms(2-7) by (simp add: own_ok_def)
  then show ?thesis using assms(1,3) peer_ok_view [OF assms(2)] by (simp add: node_ok_def)
qed

text \<open>An event of the node, forwarded or not.\<close>

lemma node_ok_forward:
  assumes "node_ok h n d" and "own n m" and "\<And>k. k \<noteq> n \<Longrightarrow> view d' k = view d k" and "d_localNode d' = n" and "d_runID d' = d_runID d"
    and "d_gen d' = d_gen d" and "d_eventQueue d' = d_eventQueue d"
    and "d_pendingEvs d' = (if localEventMustBeForwarded m then d_pendingEvs d @ [m] else d_pendingEvs d)"
    and "\<And>v. map_of (cd_Node (d_clusterData d)) n = Some v \<Longrightarrow> \<exists>v'. map_of (cd_Node (d_clusterData d')) n = Some v'
      \<and> core v' = napply n (core v) m \<and> (localEventMustBeForwarded m \<or> nd_Gen v' = nd_Gen v)"
  shows "node_ok h n d'"
proof -
  have o: "own_ok h d" and l: "n = d_localNode d" using assms(1) by (simp_all add: node_ok_def)
  note k = own_okD [OF o l refl]
  obtain v b where v: "map_of (cd_Node (d_clusterData d)) n = Some v" "h n (d_runID d) (d_gen d) = Some b"
      "core v = foldl (napply n) b (d_pendingEvs d)" "d_pendingEvs d = [] \<longrightarrow> lkp 0 (nd_Gen v) n = d_gen d"
    using k(6) by blast
  obtain v' where v': "map_of (cd_Node (d_clusterData d')) n = Some v'" "core v' = napply n (core v) m"
      "localEventMustBeForwarded m \<or> nd_Gen v' = nd_Gen v"
    using assms(9) [OF v(1)] by blast
  have "core v' = foldl (napply n) b (d_pendingEvs d')"
    using v' v(3) napply_unforwarded [OF assms(2)] assms(8) core_core [of v] by (cases "localEventMustBeForwarded m") simp_all
  then have "own_ok h d'"
    using k(1-5) v v'(1,3) assms(2,4-8)
    by (intro own_okI [where n = n and run = "d_runID d" and v = v' and b = b]) (auto split: if_splits)
  moreover have "peer_ok h d' k" if "k \<noteq> n" for k
    using assms(1) that peer_ok_view [OF assms(3) [OF that]] by (simp add: node_ok_def)
  ultimately show ?thesis using assms(4) by (simp add: node_ok_def)
qed

lemma hbGen_forward [simp]: "hbGen (forwardEvent m d) = hbGen d"
  by (simp add: forwardEvent_def)

lemma unforwarded_cnode: "own n m \<Longrightarrow> \<not> localEventMustBeForwarded m \<Longrightarrow> cd_Node (ApplyMessage g m c) = cd_Node c"
  by (cases m) (simp_all add: own_def subscribed_def localEventMustBeForwarded_def apply_defs)

lemma onSubEvent_config:
  assumes "node_ok h n d" and "n \<notin> set removed"
  shows "node_ok h n (onSubEvent g (ClusterConfigUpdated x added removed) d)"
proof -
  let ?d1 = "updateClusterNodes added removed d"
  have "node_ok h n ?d1"
    by (rule node_ok_same [OF assms(1)]) (simp_all add: updateClusterNodes_def view_def)
  then have "node_ok h n (foldl (\<lambda>d k. dropPeer k d) ?d1 removed)" using assms(2) by (rule node_ok_drops)
  then show ?thesis
    by (rule node_ok_same) (simp_all add: onSubEvent_def localEventMustBeForwarded_def apply_defs view_def)
qed

lemma onSubEvent_shape:
  assumes "\<And>x a r. m \<noteq> ClusterConfigUpdated x a r"
  obtains b where "onSubEvent g m d = (if localEventMustBeForwarded m then forwardEvent m d else d)
    \<lparr>d_hbStatusChanged := b, d_clusterData := ApplyMessage g m (d_clusterData d)\<rparr>"
proof (cases "\<exists>k. m = Local k \<and> k \<in> {''HeartbeatStale'', ''HeartbeatAlive''}")
  case True
  then show thesis using that [of True] by (auto simp: onSubEvent_def localEventMustBeForwarded_def)
next
  case False
  let ?d = "if localEventMustBeForwarded m then forwardEvent m d else d"
  have "?d\<lparr>d_hbStatusChanged := d_hbStatusChanged d\<rparr> = ?d" by (simp add: forwardEvent_def)
  moreover have "onSubEvent g m d = ?d\<lparr>d_clusterData := ApplyMessage g m (d_clusterData ?d)\<rparr>"
    using False assms by (cases m) (simp_all only: onSubEvent_def Let_def message.case, auto)
  ultimately show thesis using that [of "d_hbStatusChanged d"] by (simp add: forwardEvent_def split: if_splits)
qed

lemma onSubEvent_frame:
  assumes "\<And>x a r. m \<noteq> ClusterConfigUpdated x a r"
  shows "d_clusterData (onSubEvent g m d) = ApplyMessage g m (d_clusterData d)
    \<and> d_localNode (onSubEvent g m d) = d_localNode d \<and> d_runID (onSubEvent g m d) = d_runID d
    \<and> d_gen (onSubEvent g m d) = d_gen d \<and> d_eventQueue (onSubEvent g m d) = d_eventQueue d
    \<and> d_pendingEvs (onSubEvent g m d) = (if localEventMustBeForwarded m then d_pendingEvs d @ [m] else d_pendingEvs d)
    \<and> d_peerRuns (onSubEvent g m d) = d_peerRuns d \<and> hbGen (onSubEvent g m d) = hbGen d"
proof -
  obtain b where "onSubEvent g m d = (if localEventMustBeForwarded m then forwardEvent m d else d)
      \<lparr>d_hbStatusChanged := b, d_clusterData := ApplyMessage g m (d_clusterData d)\<rparr>"
    using onSubEvent_shape [OF assms, of g d] by blast
  then show ?thesis by (simp add: forwardEvent_def)
qed

lemma onSubEvent_ok:
  assumes "node_ok h n d" and "own n m" and "\<forall>x a r. m = ClusterConfigUpdated x a r \<longrightarrow> n \<notin> set r"
  shows "node_ok h n (onSubEvent g m d)"
proof (cases "\<exists>x a r. m = ClusterConfigUpdated x a r")
  case True
  then obtain x a r where m: "m = ClusterConfigUpdated x a r" by blast
  with assms(3) have "n \<notin> set r" by blast
  with assms(1) show ?thesis unfolding m by (rule onSubEvent_config)
next
  case False
  then have f: "\<And>x a r. m \<noteq> ClusterConfigUpdated x a r" by blast
  note k = onSubEvent_frame [OF f]
  have l: "d_localNode d = n" using assms(1) by (simp add: node_ok_def)
  show ?thesis
  proof (rule node_ok_forward [OF assms(1,2)])
    fix i assume "i \<noteq> n"
    then show "view (onSubEvent g m d) i = view d i" using k ApplyMessage_other [OF assms(2)] by (simp add: view_def)
  next
    fix v assume "map_of (cd_Node (d_clusterData d)) n = Some v"
    then show "\<exists>v'. map_of (cd_Node (d_clusterData (onSubEvent g m d))) n = Some v' \<and> core v' = napply n (core v) m
        \<and> (localEventMustBeForwarded m \<or> nd_Gen v' = nd_Gen v)"
      using ApplyMessage_own [OF assms(2), of "d_clusterData d" v g] unforwarded_cnode [OF assms(2), of g "d_clusterData d"] k [of g d] by (cases "localEventMustBeForwarded m") auto
  qed (use k l in simp_all)
qed

lemma newNodeData_gen: "lkp 0 (nd_Gen (newNodeData status dd n)) n = 1"
  by (simp add: newNodeData_def lkp_def)

lemma newData_ok:
  assumes "h n run = (\<lambda>_. None)" and "run \<noteq> []"
  shows "node_ok (record_gen n run 1 (core (newNodeData status dd n)) h) n (newData run n nodes (newNodeData status dd n))"
proof -
  have "own_ok (record_gen n run 1 (core (newNodeData status dd n)) h) (newData run n nodes (newNodeData status dd n))"
    using assms newNodeData_gen [of status dd n]
    by (intro own_okI [where n = n and run = run and v = "newNodeData status dd n" and b = "core (newNodeData status dd n)"])
       (auto simp: newData_def record_gen_def split: if_splits)
  then show ?thesis by (simp add: node_ok_def peer_ok_def newData_def hbGen_def lkp_def)
qed

section \<open>A cluster of daemons\<close>

text \<open>
  The daemons of the nodes, the messages sent since ever, any of which may come again, and the data
  every node had at each gen it committed. The caches of the gens and the clocks are arbitrary, the
  run of a new daemon is new, and a daemon does not hear that its own node leaves the cluster.
\<close>

record cluster =
  cl_node :: "string \<Rightarrow> data"
  cl_net :: "hb_msg set"
  cl_hist :: history

definition committed :: "string \<Rightarrow> data \<Rightarrow> history \<Rightarrow> history" where
  "committed n d h = (case map_of (cd_Node (d_clusterData d)) n of None \<Rightarrow> h | Some v \<Rightarrow> record_gen n (d_runID d) (d_gen d) (core v) h)"

inductive cl_step :: "cluster \<Rightarrow> cluster \<Rightarrow> bool" where
  hears: "own n m \<Longrightarrow> \<forall>x a r. m = ClusterConfigUpdated x a r \<longrightarrow> n \<notin> set r \<Longrightarrow>
    cl_step c (c\<lparr>cl_node := (cl_node c)(n := onSubEvent g m (cl_node c n))\<rparr>)"
| sends: "propagate now lgens refresh (cl_node c n) = (msg, d) \<Longrightarrow>
    cl_step c (c\<lparr>cl_node := (cl_node c)(n := d), cl_net := cl_net c \<union> set_option msg, cl_hist := committed n d (cl_hist c)\<rparr>)"
| receives: "msg \<in> cl_net c \<Longrightarrow> hm_Nodename msg \<noteq> n \<Longrightarrow> on_hb_msg now g msg (cl_node c n) = Some d \<Longrightarrow>
    cl_step c (c\<lparr>cl_node := (cl_node c)(n := d)\<rparr>)"
| drops: "k \<noteq> n \<Longrightarrow> cl_step c (c\<lparr>cl_node := (cl_node c)(n := dropPeer k (cl_node c n))\<rparr>)"
| restarts: "run \<noteq> [] \<Longrightarrow> cl_hist c n run = (\<lambda>_. None) \<Longrightarrow> d = newData run n nodes (newNodeData status dd n) \<Longrightarrow>
    cl_step c (c\<lparr>cl_node := (cl_node c)(n := d), cl_hist := committed n d (cl_hist c)\<rparr>)"

inductive cl_reach :: "cluster \<Rightarrow> bool" where
  begins: "(\<And>n. run n \<noteq> []) \<Longrightarrow> (\<And>n. cl_node c n = newData (run n) n nodes (newNodeData (status n) (dd n) n)) \<Longrightarrow> cl_net c = {} \<Longrightarrow>
    (\<And>n. cl_hist c n = (\<lambda>_ _. None)(run n := [1 \<mapsto> core (newNodeData (status n) (dd n) n)])) \<Longrightarrow> cl_reach c"
| steps: "cl_reach c \<Longrightarrow> cl_step c c' \<Longrightarrow> cl_reach c'"

definition cl_ok :: "cluster \<Rightarrow> bool" where
  "cl_ok c \<longleftrightarrow> (\<forall>n. node_ok (cl_hist c) n (cl_node c n)) \<and> (\<forall>msg\<in>cl_net c. msg_ok (cl_hist c) msg)"

lemma own_ok_cong: "h' (d_localNode d) = h (d_localNode d) \<Longrightarrow> own_ok h' d \<longleftrightarrow> own_ok h d"
  by (simp add: own_ok_def leads_def)

lemma node_ok_extends:
  assumes "node_ok h n d" and "extends h h'" and "h' n = h n"
  shows "node_ok h' n d"
  using assms own_ok_cong [of h' d h] peer_ok_mono [OF assms(2)] by (simp add: node_ok_def)

lemma cl_ok_update:
  assumes "cl_ok c" and "extends (cl_hist c) h" and "\<And>k. k \<noteq> n \<Longrightarrow> h k = cl_hist c k" and "node_ok h n d"
    and "\<And>msg. msg \<in> M \<Longrightarrow> msg_ok h msg"
  shows "cl_ok (c\<lparr>cl_node := (cl_node c)(n := d), cl_net := cl_net c \<union> M, cl_hist := h\<rparr>)"
  using assms node_ok_extends [of "cl_hist c" _ _ h] msg_ok_mono [OF assms(2)] by (auto simp: cl_ok_def)

lemma cl_ok_node:
  assumes "cl_ok c" and "node_ok (cl_hist c) n d"
  shows "cl_ok (c\<lparr>cl_node := (cl_node c)(n := d)\<rparr>)"
  using cl_ok_update [OF assms(1), of "cl_hist c" n d "{}"] assms(2) by (simp add: extends_def)

lemma message_ok:
  assumes "own_ok h d" and "d_pendingEvs d = []" and "n = d_localNode d" and "hbGen d n n = d_gen d" and "getHbMessage now d = (msg, d')"
  shows "msg_ok h msg"
proof -
  note o = own_okD [OF assms(1,3) refl] and g = getHbMessage_sel [OF assms(5,3)]
  obtain v where v: "map_of (cd_Node (d_clusterData d)) n = Some v" "h n (d_runID d) (d_gen d) = Some (core v)"
      "lkp 0 (nd_Gen v) n = d_gen d"
    using o(6) assms(2) by auto
  have "leads h n (d_runID d) i evs" if "map_of (hm_Events msg) i = Some evs" for i evs
    using that g(10) o(4) by auto
  moreover have "hm_NodeData msg = v" if "hm_Kind msg = KindFull" using g(11) [OF that] v(1) by (simp add: lkp_def)
  ultimately show ?thesis using g(7-9) o(1,2) v assms(4) by (simp add: msg_ok_def Let_def)
qed

lemma propagate_cases:
  assumes "commitPendingOps d = (ch, d1)" and "propagate now lgens refresh d = (msg, d')"
  obtains p b where "d' = d1\<lparr>d_pubs := p, d_hbStatusChanged := b\<rparr> \<and> msg = None
    \<or> (\<exists>m q. getHbMessage now (d1\<lparr>d_pubs := p, d_hbStatusChanged := b\<rparr>) = (m, q) \<and> msg = Some m
        \<and> d' = q\<lparr>d_msgLocalGen := hm_Gen m, d_needMsg := False, d_hbStatusChanged := False\<rparr>)"
proof -
  define e where "e = (let stale = (\<not> ch \<and> \<not> gensEqual (d_msgLocalGen d1) lgens);
      d2 = (if stale then d1\<lparr>d_pubs := d_pubs d1 @ [Local ''NodeStatusGenUpdates'']\<rparr> else d1)
    in if refresh then d2\<lparr>d_hbStatusChanged := False, d_pubs := d_pubs d2 @ [Local ''DaemonHeartbeatUpdated'']\<rparr> else d2)"
  have "e = d1\<lparr>d_pubs := d_pubs e, d_hbStatusChanged := d_hbStatusChanged e\<rparr>" by (simp add: e_def Let_def)
  moreover have "d' = e \<and> msg = None \<or> (\<exists>m q. getHbMessage now e = (m, q) \<and> msg = Some m
      \<and> d' = q\<lparr>d_msgLocalGen := hm_Gen m, d_needMsg := False, d_hbStatusChanged := False\<rparr>)"
    using assms by (auto simp: propagate_def Let_def queueNewHbMsg_def e_def split: prod.splits if_splits)
  ultimately show thesis using that [where p = "d_pubs e" and b = "d_hbStatusChanged e"] by simp
qed

lemma propagate_ok:
  assumes "node_ok h n d" and "propagate now lgens refresh d = (msg, d')"
  shows "extends h (committed n d' h)" and "node_ok (committed n d' h) n d'" and "k \<noteq> n \<Longrightarrow> committed n d' h k = h k"
    and "\<And>m. msg = Some m \<Longrightarrow> msg_ok (committed n d' h) m"
proof -
  obtain ch d1 where c: "commitPendingOps d = (ch, d1)" by fastforce
  have l: "n = d_localNode d" and o: "own_ok h d" using assms(1) by (simp_all add: node_ok_def)
  obtain x h' where h': "h' = record_gen n (d_runID d) (d_gen d1) x h" "extends h h'" "own_ok h' d1"
      "snd (snd (view d1 n)) = Some (x, d_gen d1)"
    using commit_ok [OF o c l refl] by blast
  note f = commit_frame [OF c l]
  obtain p b where pb: "d' = d1\<lparr>d_pubs := p, d_hbStatusChanged := b\<rparr> \<and> msg = None
    \<or> (\<exists>m q. getHbMessage now (d1\<lparr>d_pubs := p, d_hbStatusChanged := b\<rparr>) = (m, q) \<and> msg = Some m
        \<and> d' = q\<lparr>d_msgLocalGen := hm_Gen m, d_needMsg := False, d_hbStatusChanged := False\<rparr>)"
    by (rule propagate_cases [OF c assms(2)])
  define e where "e = d1\<lparr>d_pubs := p, d_hbStatusChanged := b\<rparr>"
  note e = e_def pb [folded e_def]
  have e1: "view e i = view d1 i" "own_ok h' e" "d_localNode e = n" "hbGen e n n = d_gen e" "d_pendingEvs e = []" for i
    using e(1) f(1,3,4) h'(3) by (simp_all add: view_def own_ok_def)
  have same: "view d' i = view d1 i \<and> d_localNode d' = d_localNode d1 \<and> d_runID d' = d_runID d1 \<and> d_gen d' = d_gen d1
      \<and> d_pendingEvs d' = d_pendingEvs d1 \<and> d_eventQueue d' = d_eventQueue d1" for i
    using e(2)
  proof
    assume "d' = e \<and> msg = None" then show ?thesis using e(1) by (simp add: view_def)
  next
    assume "\<exists>m q. getHbMessage now e = (m, q) \<and> msg = Some m
        \<and> d' = q\<lparr>d_msgLocalGen := hm_Gen m, d_needMsg := False, d_hbStatusChanged := False\<rparr>"
    then obtain m q where m: "getHbMessage now e = (m, q)"
        "d' = q\<lparr>d_msgLocalGen := hm_Gen m, d_needMsg := False, d_hbStatusChanged := False\<rparr>" by blast
    note s = getHbMessage_sel [OF m(1) e1(3) [symmetric]]
    have "view d' i = view q i" by (simp add: m(2) view_def)
    with s(1-5) s(6) [of i] e1(1,3) e(1) m(2) f(1) show ?thesis by simp
  qed
  have "node_ok h' n d1"
    using f(1) h'(2,3) assms(1) peer_ok_view [OF f(5)] peer_ok_mono [OF h'(2)] by (simp add: node_ok_def)
  then have k: "node_ok h' n d'" by (rule node_ok_same) (use same in simp_all)
  have "snd (snd (view d' n)) = Some (x, d_gen d1)" using same h'(4) by simp
  then have eq: "committed n d' h = h'"
    using same h'(1) f(2) by (auto simp: committed_def view_def)
  show "extends h (committed n d' h)" "node_ok (committed n d' h) n d'" using eq h'(2) k by simp_all
  show "committed n d' h k = h k" if "k \<noteq> n" using that eq h'(1) by (simp add: record_gen_def)
  show "msg_ok (committed n d' h) m" if "msg = Some m" for m
    using that e(2) message_ok [OF e1(2,5) e1(3) [symmetric] e1(4)] eq by auto
qed

lemma receive_ok:
  assumes "node_ok h n d" and "msg_ok h msg" and "hm_Nodename msg \<noteq> n"
  shows "\<exists>d'. on_hb_msg now g msg d = Some d' \<and> node_ok h n d'"
proof (cases "hm_Nodename msg \<in> set (d_clusterNodes d)")
  case True
  have "d_localNode d = n" "peer_ok h d (hm_Nodename msg)" using assms(1,3) by (simp_all add: node_ok_def)
  then obtain d' where "onReceiveHbMsg now g msg d = Some d'" "others (hm_Nodename msg) d d'" "peer_ok h d' (hm_Nodename msg)"
    using onReceive_ok [OF assms(2) refl, of d now g] assms(3) by auto
  then show ?thesis using True node_ok_others [OF assms(1)] assms(3) by (auto simp: on_hb_msg_def)
next
  case False
  then show ?thesis using assms(1) by (simp add: on_hb_msg_def)
qed

lemma cl_ok_step: "cl_step c c' \<Longrightarrow> cl_ok c \<Longrightarrow> cl_ok c'"
proof (induction rule: cl_step.induct)
  case (hears n m c g)
  then show ?case by (intro cl_ok_node) (simp_all add: cl_ok_def onSubEvent_ok)
next
  case (sends now lgens refresh c n msg d)
  then have "node_ok (cl_hist c) n (cl_node c n)" by (simp add: cl_ok_def)
  from propagate_ok [OF this sends(1)] show ?case by (intro cl_ok_update [OF sends(2)]) auto
next
  case (receives msg c n now g d)
  then have "node_ok (cl_hist c) n (cl_node c n)" "msg_ok (cl_hist c) msg" by (simp_all add: cl_ok_def)
  from receive_ok [OF this receives(2), of now g] receives(3) show ?case by (intro cl_ok_node [OF receives(4)]) auto
next
  case (drops k n c)
  then show ?case by (intro cl_ok_node) (simp_all add: cl_ok_def node_ok_dropPeer)
next
  case (restarts run c n d nodes status dd)
  let ?h = "record_gen n run 1 (core (newNodeData status dd n)) (cl_hist c)"
  have h: "committed n d (cl_hist c) = ?h"
    using restarts(3) newNodeData_gen [of status dd n] by (simp add: committed_def newData_def)
  have "extends (cl_hist c) ?h" using restarts(2) by (intro extends_record) simp
  moreover have "node_ok ?h n d" unfolding restarts(3) using restarts(2,1) by (rule newData_ok)
  ultimately show ?case
    using cl_ok_update [OF restarts(4), of ?h n d "{}"] by (simp add: h record_gen_def)
qed

lemma cl_ok_reach: "cl_reach c \<Longrightarrow> cl_ok c"
proof (induction rule: cl_reach.induct)
  case (begins run c nodes status dd)
  have "node_ok (cl_hist c) n (cl_node c n)" for n
  proof -
    let ?v = "newNodeData (status n) (dd n) n"
    have "node_ok (record_gen n (run n) 1 (core ?v) ((cl_hist c)(n := \<lambda>_ _. None))) n (newData (run n) n nodes ?v)"
      by (rule newData_ok) (simp_all add: begins(1))
    moreover have "record_gen n (run n) 1 (core ?v) ((cl_hist c)(n := \<lambda>_ _. None)) = cl_hist c"
      using begins(4) [of n] by (simp add: record_gen_def fun_eq_iff)
    ultimately show ?thesis using begins(2) by simp
  qed
  then show ?case using begins(3) by (simp add: cl_ok_def)
next
  case (steps c c')
  from steps(2,3) show ?case by (rule cl_ok_step)
qed

text \<open>
  C3. Over a network that loses, delays, repeats and reorders the heartbeat messages, with daemons
  that restart, leave and come back, what a node holds of a peer under gen \<open>g\<close> is the data the peer
  had when it committed that gen, in the run of the peer the node knows; and no message a peer ever
  sent makes the node panic.
\<close>

theorem replica_consistent:
  assumes "cl_reach c" and "m \<noteq> n" and "hbGen (cl_node c n) n m = g" and "g \<noteq> 0"
    and "msg \<in> cl_net c" and "hm_Nodename msg = m"
  shows "(\<exists>run v. map_of (d_peerRuns (cl_node c n)) m = Some run \<and> map_of (cd_Node (d_clusterData (cl_node c n))) m = Some v
      \<and> cl_hist c m (pr_id run) g = Some (core v))
    \<and> on_hb_msg now genData msg (cl_node c n) \<noteq> None"
proof -
  have ok: "node_ok (cl_hist c) n (cl_node c n)" "msg_ok (cl_hist c) msg"
    using cl_ok_reach [OF assms(1)] assms(5) by (simp_all add: cl_ok_def)
  have "peer_ok (cl_hist c) (cl_node c n) m" "d_localNode (cl_node c n) = n" using ok(1) assms(2) by (simp_all add: node_ok_def)
  with assms(3,4) show ?thesis using receive_ok [OF ok, of now genData] assms(2,6) by (auto simp: peer_ok_def)
qed

lemma commit_keys:
  assumes "commitPendingOps d = (ch, d')"
  shows "k \<noteq> d_localNode d \<Longrightarrow> map_of (d_hbGens d') k = map_of (d_hbGens d) k" and "map_of (d_hbGens d') (d_localNode d) \<noteq> None"
    and "d_hbMessageType d' = d_hbMessageType d" and "d_clusterNodes d' = d_clusterNodes d"
  using assms
  by (auto simp: commitPendingOps_def Let_def set_hbGen_def set_statusGen_def update_conv split: if_splits)

lemma setNextMsgType_full:
  assumes "map_of (d_hbGens d) n = Some gens" and "lkp 0 gens (d_localNode d) = 0" and "n \<noteq> d_localNode d"
    and "map_of (d_hbGens d) (d_localNode d) \<noteq> None" and "n \<in> set (d_clusterNodes d)" and "d_hbMessageType d \<noteq> KindUndef"
  shows "d_hbMessageType (setNextMsgType d) = KindFull"
proof -
  let ?kept = "filter (\<lambda>(n, _). n = d_localNode d \<or> n \<in> set (d_clusterNodes d)) (d_hbGens d)"
  have "(n, gens) \<in> set ?kept" using assms(1,5) map_of_SomeD by fastforce
  then have f: "list_ex (\<lambda>(n, gens). n \<noteq> d_localNode d \<and> lkp 0 gens (d_localNode d) = 0) ?kept"
    using assms(2,3) by (force simp: list_ex_iff)
  obtain x where "(d_localNode d, x) \<in> set (d_hbGens d)" using assms(4) map_of_SomeD by fastforce
  moreover have "(n, gens) \<in> set (d_hbGens d)" using assms(1) by (rule map_of_SomeD)
  ultimately have "\<not> length (d_hbGens d) \<le> 1" using assms(3) by (cases "d_hbGens d"; cases "tl (d_hbGens d)") auto
  then show ?thesis using f assms(6) by (simp add: setNextMsgType_def Let_def setHbMsgType_def)
qed

lemma full_sent:
  assumes "node_ok h m d" and "map_of (d_hbGens d) n = Some gens" and "lkp 0 gens m = 0" and "n \<in> set (d_clusterNodes d)"
    and "d_hbMessageType d \<noteq> KindUndef" and "propagate now lgens refresh d = (Some msg, s)" and "m \<noteq> n"
  shows "hm_Nodename msg = m" and "hm_RunID msg = d_runID s" and "lkp 0 (hm_Gen msg) m = d_gen s" and "hm_Kind msg = KindFull"
    and "d_localNode s = m" and "d_pendingEvs s = []"
proof -
  obtain ch d1 where c: "commitPendingOps d = (ch, d1)" by fastforce
  have l: "m = d_localNode d" using assms(1) by (simp add: node_ok_def)
  note f = commit_frame [OF c l] and k = commit_keys [OF c]
  obtain p b where pb: "s = d1\<lparr>d_pubs := p, d_hbStatusChanged := b\<rparr> \<and> Some msg = None
    \<or> (\<exists>m q. getHbMessage now (d1\<lparr>d_pubs := p, d_hbStatusChanged := b\<rparr>) = (m, q) \<and> Some msg = Some m
        \<and> s = q\<lparr>d_msgLocalGen := hm_Gen m, d_needMsg := False, d_hbStatusChanged := False\<rparr>)"
    by (rule propagate_cases [OF c assms(6)])
  define e where "e = d1\<lparr>d_pubs := p, d_hbStatusChanged := b\<rparr>"
  obtain q where q: "getHbMessage now e = (msg, q)"
      "s = q\<lparr>d_msgLocalGen := hm_Gen msg, d_needMsg := False, d_hbStatusChanged := False\<rparr>"
    using pb [folded e_def] by auto
  note e = e_def
  have "d_hbMessageType (setNextMsgType e) = KindFull"
    by (rule setNextMsgType_full [where n = n and gens = gens]) (use assms e f(1) k l in auto)
  then have "hm_Kind msg = KindFull" using q(1) by (auto simp: getHbMessage_def Let_def)
  moreover have "m = d_localNode e" using e f(1) by simp
  note g = getHbMessage_sel [OF q(1) this]
  ultimately show "hm_Nodename msg = m" "hm_RunID msg = d_runID s" "lkp 0 (hm_Gen msg) m = d_gen s" "hm_Kind msg = KindFull"
      "d_localNode s = m" "d_pendingEvs s = []"
    using g(1-4,7-9) q(2) e f(3,4) by simp_all
qed


section \<open>A run of two daemons\<close>

text \<open>
  Two daemons start, both send a ping; the first hears the ping of the second, sends its data, and
  the second applies it.
\<close>

definition w_start :: "string \<Rightarrow> data" where
  "w_start n = newData ''run'' n [''n1'', ''n2''] (newNodeData ''up'' [] n)"

definition w_ping1 :: "hb_msg option \<times> data" where "w_ping1 = propagate 1 [] True (w_start ''n1'')"

definition w_ping2 :: "hb_msg option \<times> data" where "w_ping2 = propagate 1 [] True (w_start ''n2'')"

definition w_heard :: data where "w_heard = the (on_hb_msg 2 (\<lambda>_. None) (the (fst w_ping2)) (snd w_ping1))"

definition w_full :: "hb_msg option \<times> data" where "w_full = propagate 3 [] True w_heard"

definition w_done :: data where "w_done = the (on_hb_msg 4 (\<lambda>_. None) (the (fst w_full)) (snd w_ping2))"

definition w_hist :: history where
  "w_hist n = (\<lambda>_ _. None)(''run'' := [1 \<mapsto> core (newNodeData ''up'' [] n)])"

definition w_c0 :: cluster where "w_c0 = \<lparr>cl_node = w_start, cl_net = {}, cl_hist = w_hist\<rparr>"

definition w_sent :: "string \<Rightarrow> hb_msg option \<times> data \<Rightarrow> cluster \<Rightarrow> cluster" where
  "w_sent n r c = c\<lparr>cl_node := (cl_node c)(n := snd r), cl_net := cl_net c \<union> set_option (fst r), cl_hist := committed n (snd r) (cl_hist c)\<rparr>"

definition w_c2 :: cluster where "w_c2 = w_sent ''n2'' w_ping2 (w_sent ''n1'' w_ping1 w_c0)"

definition w_c3 :: cluster where "w_c3 = w_c2\<lparr>cl_node := (cl_node w_c2)(''n1'' := w_heard)\<rparr>"

definition w_c5 :: cluster where
  "w_c5 = (w_sent ''n1'' w_full w_c3)\<lparr>cl_node := (cl_node (w_sent ''n1'' w_full w_c3))(''n2'' := w_done)\<rparr>"

lemma w_sent_reach: "cl_reach c \<Longrightarrow> propagate now lgens refresh (cl_node c n) = r \<Longrightarrow> cl_reach (w_sent n r c)"
  unfolding w_sent_def by (rule cl_reach.steps, assumption, rule sends [where msg = "fst r" and d = "snd r"]) simp

lemma w_ping1_msg: "fst w_ping1 = Some (the (fst w_ping1))" and w_ping2_msg: "fst w_ping2 = Some (the (fst w_ping2))"
  and w_ping2_name: "hm_Nodename (the (fst w_ping2)) = ''n2''"
  and w_heard_some: "on_hb_msg 2 (\<lambda>_. None) (the (fst w_ping2)) (snd w_ping1) = Some w_heard"
  by code_simp+

lemma w_full_msg: "fst w_full = Some (the (fst w_full))" and w_full_name: "hm_Nodename (the (fst w_full)) = ''n1''"
  and w_done_some: "on_hb_msg 4 (\<lambda>_. None) (the (fst w_full)) (snd w_ping2) = Some w_done"
  and w_done_gen: "hbGen w_done ''n2'' ''n1'' = 1"
  by code_simp+

lemma w_heard_state:
  "map_of (d_hbGens w_heard) ''n2'' = Some [(''n2'', 1)]" "''n2'' \<in> set (d_clusterNodes w_heard)"
  "d_hbMessageType w_heard \<noteq> KindUndef" "''n1'' \<in> set (d_clusterNodes (snd w_ping2))"
  "fst (acceptPeerRun 4 (the (fst w_full)) (snd w_ping2))"
  by code_simp+

lemma w_c0_reach: "cl_reach w_c0"
  by (rule cl_reach.begins [where run = "\<lambda>_. ''run''" and nodes = "[''n1'', ''n2'']" and status = "\<lambda>_. ''up''" and dd = "\<lambda>_. []"])
     (simp_all add: w_c0_def w_start_def w_hist_def)

lemma w_c2_nodes: "cl_node w_c2 ''n1'' = snd w_ping1" "cl_node w_c2 ''n2'' = snd w_ping2" "the (fst w_ping2) \<in> cl_net w_c2"
  using w_ping2_msg by (simp_all add: w_c2_def w_sent_def elem_set)

lemma w_c2_reach: "cl_reach w_c2"
  unfolding w_c2_def
  by (intro w_sent_reach w_c0_reach) (simp_all add: w_sent_def w_c0_def w_ping1_def w_ping2_def)

lemma w_c3_nodes: "cl_node w_c3 ''n1'' = w_heard" "cl_node w_c3 ''n2'' = snd w_ping2"
  using w_c2_nodes by (simp_all add: w_c3_def)

lemma w_c3_reach: "cl_reach w_c3"
  unfolding w_c3_def
  by (rule cl_reach.steps [OF w_c2_reach], rule receives [OF w_c2_nodes(3)])
     (use w_ping2_name w_heard_some w_c2_nodes in simp_all)

lemma w_c5_nodes: "cl_node w_c5 ''n2'' = w_done" "the (fst w_full) \<in> cl_net w_c5"
  using w_full_msg by (simp_all add: w_c5_def w_sent_def elem_set)

lemma w_c5_reach: "cl_reach w_c5"
proof -
  have r: "cl_reach (w_sent ''n1'' w_full w_c3)"
    by (rule w_sent_reach [OF w_c3_reach]) (simp add: w_c3_nodes w_full_def)
  have "the (fst w_full) \<in> cl_net (w_sent ''n1'' w_full w_c3)" using w_c5_nodes(2) by (simp add: w_c5_def)
  then show ?thesis unfolding w_c5_def
    by (intro cl_reach.steps [OF r] receives) (use w_full_name w_done_some w_c3_nodes in \<open>simp_all add: w_sent_def\<close>)
qed

theorem replica_consistent_witness:
  "(\<exists>run v. map_of (d_peerRuns w_done) ''n1'' = Some run \<and> map_of (cd_Node (d_clusterData w_done)) ''n1'' = Some v
      \<and> cl_hist w_c5 ''n1'' (pr_id run) 1 = Some (core v))
    \<and> on_hb_msg 9 (\<lambda>_. None) (the (fst w_full)) w_done \<noteq> None"
  using replica_consistent [OF w_c5_reach _ _ _ w_c5_nodes(2) w_full_name, of "''n2''" 1 9 "\<lambda>_. None"]
  by (simp add: w_c5_nodes(1) w_done_gen)


end
