(* ===== verification/Nmon_State.thy ===== *)
theory Nmon_State
  imports Instance Flagfile
begin

text \<open>
  The node monitor, \<open>daemon/nmon\<close>: its state, what it publishes, the orchestrations it names, its
  frozen flag, and the speaker. One message is handled at a time by the worker of the monitor, so an
  operation is a function of the manager and of an environment, constant while the message is
  handled: the clock, the exit codes of the commands forked, what reading or writing a file or an
  object gives, and the caches of the daemon. A message published, a command forked and a system
  call are entries of a trace. The goroutines that run a command post its outcome to the worker:
  the outcome is kept in \<open>n_cmds\<close> until the worker takes it.
\<close>

section \<open>The monitor of a node\<close>

datatype node_local_expect =
    NodeLocalExpectInit
  | NodeLocalExpectDrained
  | NodeLocalExpectNone
  | NodeLocalExpectUnknown

definition node_StateStrings :: "(node_state \<times> string) list" where
  "node_StateStrings =
    [(NodeStateInit, ''init''), (NodeStateIdle, ''idle''), (NodeStateMaintenance, ''maintenance''),
     (NodeStateRejoin, ''rejoin''), (NodeStateUpgrade, ''upgrade''), (NodeStateFreezeProgress, ''freezing''),
     (NodeStateFreezeFailure, ''freeze failed''), (NodeStateFreezeSuccess, ''frozen''),
     (NodeStateUnfreezeProgress, ''unfreezing''), (NodeStateUnfreezeFailure, ''unfreeze failed''),
     (NodeStateUnfreezeSuccess, ''unfrozen''), (NodeStateDrainProgress, ''draining''),
     (NodeStateDrainFailure, ''drain failed''), (NodeStateDrainSuccess, ''drained''),
     (NodeStateShutdownProgress, ''shutting''), (NodeStateShutdownFailure, ''shutdown failed''),
     (NodeStateShutdownSuccess, ''shutdown''), (NodeStateUnknown, ''unknown'')]"

definition node_GlobalExpectStrings :: "(node_global_expect \<times> string) list" where
  "node_GlobalExpectStrings =
    [(NodeGlobalExpectAborted, ''aborted''), (NodeGlobalExpectFrozen, ''frozen''), (NodeGlobalExpectNone, ''none''),
     (NodeGlobalExpectUnfrozen, ''unfrozen''), (NodeGlobalExpectInit, ''init''), (NodeGlobalExpectUnknown, ''unknown'')]"

definition node_LocalExpectStrings :: "(node_local_expect \<times> string) list" where
  "node_LocalExpectStrings =
    [(NodeLocalExpectInit, ''init''), (NodeLocalExpectDrained, ''drained''), (NodeLocalExpectNone, ''none''),
     (NodeLocalExpectUnknown, ''unknown'')]"

definition node_StatesFailure :: "node_state list" where
  "node_StatesFailure = [NodeStateDrainFailure, NodeStateFreezeFailure, NodeStateShutdownFailure, NodeStateUnfreezeFailure]"

definition node_State_String :: "node_state \<Rightarrow> string" where
  "node_State_String s = lkp [] node_StateStrings s"

definition node_IsDoing :: "node_state \<Rightarrow> bool" where
  "node_IsDoing s = HasSuffix (node_State_String s) ''ing''"

text \<open>An orchestration id is a number, zero for the nil one.\<close>

record nmonitor =
  nmo_GlobalExpect :: node_global_expect
  nmo_LocalExpect :: node_local_expect
  nmo_State :: node_state
  nmo_GlobalExpectUpdatedAt :: "time"
  nmo_LocalExpectUpdatedAt :: "time"
  nmo_StateUpdatedAt :: "time"
  nmo_UpdatedAt :: "time"
  nmo_OrchestrationID :: nat

definition zero_nmonitor :: nmonitor where
  "zero_nmonitor = \<lparr>nmo_GlobalExpect = NodeGlobalExpectInit, nmo_LocalExpect = NodeLocalExpectInit, nmo_State = NodeStateInit,
    nmo_GlobalExpectUpdatedAt = 0, nmo_LocalExpectUpdatedAt = 0, nmo_StateUpdatedAt = 0, nmo_UpdatedAt = 0, nmo_OrchestrationID = 0\<rparr>"

record nmonitor_update =
  nmu_State :: "node_state option"
  nmu_LocalExpect :: "node_local_expect option"
  nmu_GlobalExpect :: "node_global_expect option"
  nmu_CandidateOrchestrationID :: nat

record arbitrator_status =
  ar_URL :: string
  ar_Status :: status
  ar_Weight :: int

record arbitrator_config =
  ab_Name :: string
  ab_URI :: string
  ab_Weight :: int
  ab_Insecure :: bool

text \<open>The parts of the status, of the statistics and of the configuration of the node the monitor reads;
  \<open>nc_Rest\<close> is the text of the other keywords, compared and published.\<close>

record nstatus =
  nst_Arbitrators :: "(string, arbitrator_status) gomap"
  nst_FrozenAt :: "time"
  nst_FrozenScope :: string
  nst_IsLeader :: bool
  nst_IsOverloaded :: bool
  nst_LeftAt :: "time"
  nst_RejoinedAt :: "time"

record nstats =
  nsa_MemTotalMB :: int
  nsa_MemAvailPct :: int
  nsa_SwapAvailPct :: int

record nconfig =
  nc_RejoinGracePeriod :: duration
  nc_SplitAction :: string
  nc_PRKey :: string
  nc_MinAvailMemPct :: int
  nc_MinAvailSwapPct :: int
  nc_Issues :: "string list"
  nc_Rest :: string

text \<open>The cluster configuration, and the heartbeat secret with its alternate.\<close>

record ncluster =
  ncl_Nodes :: "string list"
  ncl_Quorum :: bool

record hb_secret =
  hs_Version :: nat
  hs_AltVersion :: nat
  hs_secret :: string
  hs_altSecret :: string

definition hs_Rotate :: "hb_secret \<Rightarrow> hb_secret" where
  "hs_Rotate s = \<lparr>hs_Version = hs_AltVersion s, hs_AltVersion = hs_Version s, hs_secret = hs_altSecret s, hs_altSecret = hs_secret s\<rparr>"

section \<open>Environment, effects and manager\<close>

text \<open>
  \<open>ne_exit n args\<close> is the exit code of the command forked when \<open>n\<close> effects happened before.
  \<open>ne_arbitratorErr\<close> says a check of an arbitrator fails, \<open>ne_sections\<close> are the arbitrator sections
  of the merged configuration with their keywords \<open>uri\<close>, \<open>insecure\<close>, \<open>weight\<close> and \<open>name\<close>,
  \<open>ne_initialNodes\<close> its nodes. \<open>ne_clusterNodes\<close> and \<open>ne_cluster\<close> are the cache of the cluster
  configuration. \<open>ne_firstStart\<close> says the daemon starts for the first time since the node booted, and
  \<open>ne_bootFreeze\<close> that the kernel was booted with the flag that freezes the node.
\<close>

record nenv =
  ne_now :: "time"
  ne_exit :: "nat \<Rightarrow> string list \<Rightarrow> int"
  ne_openErr :: bool
  ne_closeErr :: bool
  ne_touchErr :: bool
  ne_config :: "nconfig option"
  ne_certIssues :: "string list"
  ne_sections :: "(string \<times> (string \<times> bool \<times> int) \<times> string) list"
  ne_arbitratorErr :: "arbitrator_config \<Rightarrow> bool"
  ne_stats :: nstats
  ne_statsData :: "nstats option"
  ne_configData :: "(string, nconfig) gomap"
  ne_statusData :: "(string, nstatus) gomap"
  ne_monitorData :: "(string, nmonitor) gomap"
  ne_localPaths :: "path list"
  ne_hbMessageType :: "string \<times> string list \<times> string list"
  ne_hbGet :: "hb_secret option"
  ne_hbSetErr :: bool
  ne_newSecret :: string
  ne_clusterSetErr :: bool
  ne_clusterNodes :: "string list"
  ne_cluster :: "ncluster option"
  ne_bootstrapErr :: bool
  ne_firstStart :: bool
  ne_bootFreeze :: bool
  ne_initialNodes :: "string list"

record node_orchestration_end =
  noe_ID :: nat
  noe_Expect :: string
  noe_GlobalExpect :: node_global_expect
  noe_GlobalExpectUpdatedAt :: "time"
  noe_Aborted :: bool
  noe_Failed :: bool
  noe_Error :: string

datatype neffect =
    NExec "string list" "string list" int
  | NTocCrash
  | NTocReboot
  | NTouchLastShutdown
  | NDropLocks
  | NClusterAppend string
  | NClusterRemove string
  | NUpdateAlternate nat string
  | NSetSecret hb_secret
  | NPubMonitorUpdated nmonitor
  | NPubMonitorDeleted
  | NPubStatusUpdated nstatus
  | NPubArbitratorsUpdated "(string, arbitrator_status) gomap"
  | NPubArbitratorError string
  | NPubFrozen bool "time"
  | NPubRejoin "string list" "time" bool
  | NPubSplitAction string nat nat int
  | NPubEnterOverload
  | NPubLeaveOverload
  | NPubStats nstats
  | NPubConfig nconfig
  | NPubOrchestrationAccepted nat string node_global_expect "time"
  | NPubOrchestrationEnd node_orchestration_end
  | NPubOrchestrationRefused nat "node_global_expect option"
  | NPubSecretUpdated hb_secret
  | NPubRotateError nat
  | NPubRotateSuccess nat
  | NPubJoinIgnored string
  | NPubJoinError string
  | NPubLeaveIgnored string
  | NPubLeaveError string

datatype ncmd = NCmdOrchestrate node_state node_state

text \<open>
  \<open>n_livePeers\<close> is the set of the live nodes, as a list without repetition. \<open>n_checks\<close> are the
  background checks of the arbitrators begun, with their number and the arbitrators they check.
  \<open>n_rejoinTicker\<close> is the instant the ticker of the rejoin period fires at, none when it is stopped.
  \<open>n_upgrade\<close> says the environment variable of an upgrade is set, \<open>n_lastShutdown\<close> is the time of
  the file it names. The pending context, which nothing waits on, the certificates, the networks, the
  pools, the SAN paths and the file of the nodes' information are left out.
\<close>

record nmon =
  n_state :: nmonitor
  n_prev :: nmonitor
  n_localhost :: string
  n_change :: bool
  n_config :: nconfig
  n_prKeyPeers :: "string list"
  n_certIssues :: "string list"
  n_orchestrationPending :: "node_orchestration_end option"
  n_frozen :: bool
  n_nodeMonitor :: "(string, nmonitor) gomap"
  n_cluster :: ncluster
  n_livePeers :: "string list"
  n_arbitrators :: "(string, arbitrator_config) gomap"
  n_arbitratorChecking :: bool
  n_arbitratorRecheck :: bool
  n_arbitratorGen :: nat
  n_arbitratorFreshGen :: nat
  n_checks :: "(nat \<times> (string, arbitrator_config) gomap) list"
  n_status :: nstatus
  n_rejoinTicker :: "time option"
  n_startedAt :: "time"
  n_upgrade :: bool
  n_lastShutdown :: "time"
  n_frozenFile :: slot
  n_hbSecret :: hb_secret
  n_hbRotating :: bool
  n_hbRotatingAt :: "time"
  n_hbRotatingID :: nat
  n_hbChecksums :: "(string, string) gomap"
  n_cmds :: "ncmd list"
  n_trace :: "neffect list"

definition n_emit :: "neffect \<Rightarrow> nmon \<Rightarrow> nmon" where
  "n_emit x t = t\<lparr>n_trace := n_trace t @ [x]\<rparr>"

definition n_set_state :: "node_state \<Rightarrow> nmon \<Rightarrow> nmon" where
  "n_set_state s t = t\<lparr>n_state := (n_state t)\<lparr>nmo_State := s\<rparr>\<rparr>"

abbreviation nstate :: "nmon \<Rightarrow> node_state" where
  "nstate t \<equiv> nmo_State (n_state t)"

abbreviation nglobal :: "nmon \<Rightarrow> node_global_expect" where
  "nglobal t \<equiv> nmo_GlobalExpect (n_state t)"

section \<open>Publishing the monitor\<close>

definition n_update :: "nmon \<Rightarrow> nmon" where
  "n_update t = (n_emit (NPubMonitorUpdated (n_state t)) t)\<lparr>n_nodeMonitor := AList.update (n_localhost t) (n_state t) (n_nodeMonitor t)\<rparr>"

definition n_updateIfChange :: "nenv \<Rightarrow> nmon \<Rightarrow> nmon" where
  "n_updateIfChange e t =
    (if \<not> n_change t then t
     else
       let now = ne_now e; p = n_prev t; s = (n_state t)\<lparr>nmo_UpdatedAt := now\<rparr>; new = s;
           s = (if nmo_State new \<noteq> nmo_State p then s\<lparr>nmo_StateUpdatedAt := now\<rparr> else s);
           s = (if nmo_LocalExpect new \<noteq> nmo_LocalExpect p then s\<lparr>nmo_LocalExpectUpdatedAt := now\<rparr> else s)
       in n_update (t\<lparr>n_change := False, n_state := s, n_prev := s\<rparr>))"

definition n_transitionTo :: "nenv \<Rightarrow> node_state \<Rightarrow> nmon \<Rightarrow> nmon" where
  "n_transitionTo e s t = n_updateIfChange e (n_set_state s (t\<lparr>n_change := True\<rparr>))"

definition n_publishNodeStatus :: "nmon \<Rightarrow> nmon" where
  "n_publishNodeStatus t = n_emit (NPubStatusUpdated (n_status t)) t"

definition isStateFailed :: "nmon \<Rightarrow> bool" where
  "isStateFailed t = HasSuffix (node_State_String (nstate t)) ''failed''"

definition n_hasOtherNodeActing :: "nmon \<Rightarrow> bool" where
  "n_hasOtherNodeActing t = list_ex (\<lambda>(n, m). n \<noteq> n_localhost t \<and> node_IsDoing (nmo_State m)) (n_nodeMonitor t)"

section \<open>Orchestrations\<close>

definition n_expect :: "nmon \<Rightarrow> string" where
  "n_expect t =
    (if nglobal t \<notin> {NodeGlobalExpectNone, NodeGlobalExpectInit} then lkp [] node_GlobalExpectStrings (nglobal t)
     else if nmo_LocalExpect (n_state t) \<notin> {NodeLocalExpectNone, NodeLocalExpectInit}
     then lkp [] node_LocalExpectStrings (nmo_LocalExpect (n_state t)) else [])"

definition n_setNextPendingOrchestration :: "nmon \<Rightarrow> nmon" where
  "n_setNextPendingOrchestration t =
    t\<lparr>n_orchestrationPending := Some
      \<lparr>noe_ID = nmo_OrchestrationID (n_state t), noe_Expect = n_expect t, noe_GlobalExpect = nglobal t,
       noe_GlobalExpectUpdatedAt = nmo_GlobalExpectUpdatedAt (n_state t), noe_Aborted = False, noe_Failed = False, noe_Error = []\<rparr>\<rparr>"

definition n_publishOrchestrationAccepted :: "nmon \<Rightarrow> nmon" where
  "n_publishOrchestrationAccepted t =
    n_emit (NPubOrchestrationAccepted (nmo_OrchestrationID (n_state t)) (n_expect t) (nglobal t) (nmo_GlobalExpectUpdatedAt (n_state t))) t"

definition n_abortPendingOrchestration :: "nmon \<Rightarrow> nmon" where
  "n_abortPendingOrchestration t =
    (case n_orchestrationPending t of
       None \<Rightarrow> t
     | Some p \<Rightarrow> (n_emit (NPubOrchestrationEnd (p\<lparr>noe_Aborted := True\<rparr>)) t)\<lparr>n_orchestrationPending := None\<rparr>)"

definition n_publishOrchestrationEnded :: "nmon \<Rightarrow> nmon" where
  "n_publishOrchestrationEnded t =
    (case n_orchestrationPending t of
       None \<Rightarrow> t
     | Some p \<Rightarrow> (n_emit (NPubOrchestrationEnd p) t)\<lparr>n_orchestrationPending := None\<rparr>)"

definition n_publishOrchestrationRefused :: "nat \<Rightarrow> node_global_expect option \<Rightarrow> nmon \<Rightarrow> nmon" where
  "n_publishOrchestrationRefused i g t = (if i = 0 then t else n_emit (NPubOrchestrationRefused i g) t)"

definition n_adoptOrchestration :: "nat \<Rightarrow> nmon \<Rightarrow> nmon" where
  "n_adoptOrchestration candidate t =
    (if candidate = 0 \<or> nmo_OrchestrationID (n_state t) = candidate then t
     else
       let t = n_abortPendingOrchestration t;
           t = t\<lparr>n_state := (n_state t)\<lparr>nmo_OrchestrationID := candidate\<rparr>\<rparr>
       in n_setNextPendingOrchestration (n_publishOrchestrationAccepted t))"

definition n_endOrchestration :: "nmon \<Rightarrow> nmon" where
  "n_endOrchestration t =
    (let t = (case n_orchestrationPending t of
           None \<Rightarrow> t
         | Some p \<Rightarrow>
             if nstate t \<in> set node_StatesFailure
             then t\<lparr>n_orchestrationPending := Some (p\<lparr>noe_Failed := True, noe_Error := node_State_String (nstate t)\<rparr>)\<rparr>
             else t)
     in n_publishOrchestrationEnded (t\<lparr>n_state := (n_state t)\<lparr>nmo_OrchestrationID := 0\<rparr>\<rparr>))"

section \<open>The frozen flag and the last shutdown\<close>

definition nodeFrozenScope :: "nmon \<Rightarrow> string" where
  "nodeFrozenScope t = ScopeOf (n_frozenFile t) ScopeCluster ScopeNode"

text \<open>The answer is whether the file was created, and whether an operation failed.\<close>

definition nodeFreeze :: "nenv \<Rightarrow> nmon \<Rightarrow> (bool \<times> bool) \<times> nmon" where
  "nodeFreeze e t =
    (if flag_At (n_frozenFile t) \<noteq> 0 then ((False, False), t)
     else if ne_openErr e then ((False, True), t)
     else ((True, ne_closeErr e),
       if sl_file (n_frozenFile t) = None then t\<lparr>n_frozenFile := flag_create (ne_now e) [] (n_frozenFile t)\<rparr> else t))"

definition touchLastShutdown :: "nenv \<Rightarrow> nmon \<Rightarrow> nmon" where
  "touchLastShutdown e t = (if ne_touchErr e then t else n_emit NTouchLastShutdown (t\<lparr>n_lastShutdown := ne_now e\<rparr>))"

definition onLastShutdownFileTouchTicker :: "nenv \<Rightarrow> nmon \<Rightarrow> nmon" where
  "onLastShutdownFileTouchTicker e t = (if nstate t = NodeStateRejoin then t else touchLastShutdown e t)"

section \<open>The speaker\<close>

fun firstLive :: "string list \<Rightarrow> string list \<Rightarrow> string" where
  "firstLive [] live = []"
| "firstLive (n # l) live = (if n \<in> set live then n else firstLive l live)"

definition speakerNode :: "nmon \<Rightarrow> string" where
  "speakerNode t = firstLive (ncl_Nodes (n_cluster t)) (n_livePeers t)"

definition isSpeakerNode :: "nmon \<Rightarrow> bool" where
  "isSpeakerNode t = (speakerNode t = n_localhost t)"

definition updateSpeaker :: "nmon \<Rightarrow> bool \<times> nmon" where
  "updateSpeaker t =
    (if isSpeakerNode t \<noteq> nst_IsLeader (n_status t)
     then (True, n_emit NDropLocks (t\<lparr>n_status := (n_status t)\<lparr>nst_IsLeader := \<not> nst_IsLeader (n_status t)\<rparr>\<rparr>))
     else (False, t))"

definition updateSpeakerAndPublish :: "nmon \<Rightarrow> nmon" where
  "updateSpeakerAndPublish t = (case updateSpeaker t of (ch, t) \<Rightarrow> if ch then n_publishNodeStatus t else t)"

section \<open>A new manager\<close>

definition zero_nstatus :: nstatus where
  "zero_nstatus = \<lparr>nst_Arbitrators = [], nst_FrozenAt = 0, nst_FrozenScope = [], nst_IsLeader = False, nst_IsOverloaded = False,
    nst_LeftAt = 0, nst_RejoinedAt = 0\<rparr>"

definition zero_nconfig :: nconfig where
  "zero_nconfig = \<lparr>nc_RejoinGracePeriod = 0, nc_SplitAction = [], nc_PRKey = [], nc_MinAvailMemPct = 0, nc_MinAvailSwapPct = 0, nc_Issues = [], nc_Rest = []\<rparr>"

definition rejoin_monitor :: nmonitor where
  "rejoin_monitor = zero_nmonitor\<lparr>nmo_LocalExpect := NodeLocalExpectNone, nmo_GlobalExpect := NodeGlobalExpectNone, nmo_State := NodeStateRejoin\<rparr>"

text \<open>The flag file, the time of the last shutdown and the variable of an upgrade are found on the node.\<close>

definition n_NewManager :: "string \<Rightarrow> slot \<Rightarrow> time \<Rightarrow> bool \<Rightarrow> nmon" where
  "n_NewManager localhost frozenFile lastShutdown upgrade =
    \<lparr>n_state = rejoin_monitor, n_prev = rejoin_monitor, n_localhost = localhost, n_change = True, n_config = zero_nconfig,
     n_prKeyPeers = [], n_certIssues = [], n_orchestrationPending = None, n_frozen = False, n_nodeMonitor = [],
     n_cluster = \<lparr>ncl_Nodes = [], ncl_Quorum = False\<rparr>, n_livePeers = [localhost], n_arbitrators = [],
     n_arbitratorChecking = False, n_arbitratorRecheck = False, n_arbitratorGen = 0, n_arbitratorFreshGen = 0, n_checks = [],
     n_status = zero_nstatus, n_rejoinTicker = None, n_startedAt = 0, n_upgrade = upgrade, n_lastShutdown = lastShutdown,
     n_frozenFile = frozenFile, n_hbSecret = \<lparr>hs_Version = 0, hs_AltVersion = 0, hs_secret = [], hs_altSecret = []\<rparr>,
     n_hbRotating = False, n_hbRotatingAt = 0, n_hbRotatingID = 0, n_hbChecksums = [], n_cmds = [], n_trace = []\<rparr>"

end
