(* ===== verification/Nmon_Quorum.thy ===== *)
theory Nmon_Quorum
  imports Nmon_State
begin

text \<open>
  The arbitrators and the quorum of the node monitor, \<open>daemon/nmon/arbitrator.go\<close> and the handler
  \<open>onForgetPeer\<close> of \<open>main_cmd.go\<close>: a node that loses a peer counts the live nodes and, when they are
  not a majority, the arbitrators it reaches, and crashes or reboots when it has not the votes.
\<close>

section \<open>Arbitrators\<close>

definition zero_arbitrator :: arbitrator_config where
  "zero_arbitrator = \<lparr>ab_Name = [], ab_URI = [], ab_Weight = 0, ab_Insecure = False\<rparr>"

text \<open>A section names its arbitrator; \<open>uri\<close> falls back on the older keyword \<open>name\<close>.\<close>

definition setArbitratorConfig :: "nenv \<Rightarrow> nmon \<Rightarrow> nmon" where
  "setArbitratorConfig e t =
    t\<lparr>n_arbitrators := foldl (\<lambda>m (name, (uri, insecure, weight), old).
      let uri = (if uri = [] then old else uri)
      in if uri = [] then m
         else AList.update name \<lparr>ab_Name = name, ab_URI = uri, ab_Weight = weight, ab_Insecure = insecure\<rparr> m) [] (ne_sections e)\<rparr>"

text \<open>The arbitrators answer in any order; the order of the list stands for it.\<close>

definition arbitrator_answer :: "nenv \<Rightarrow> (string, arbitrator_config) gomap \<Rightarrow> arbitrator_config \<Rightarrow> arbitrator_status" where
  "arbitrator_answer e arbitrators a =
    (let c = lkp zero_arbitrator arbitrators (ab_Name a)
     in \<lparr>ar_URL = ab_URI c, ar_Status = (if ne_arbitratorErr e a then StDown else StUp), ar_Weight = ab_Weight c\<rparr>)"

definition checkArbitrators :: "nenv \<Rightarrow> (string, arbitrator_config) gomap \<Rightarrow> nmon \<Rightarrow> (string, arbitrator_status) gomap \<times> nmon" where
  "checkArbitrators e arbitrators t =
    (foldl (\<lambda>m (_, a). AList.update (ab_Name a) (arbitrator_answer e arbitrators a) m) [] arbitrators,
     foldl (\<lambda>t (_, a). if ne_arbitratorErr e a then n_emit (NPubArbitratorError (ab_Name a)) t else t) t arbitrators)"

definition refreshArbitrators :: "nmon \<Rightarrow> nmon" where
  "refreshArbitrators t =
    (if n_arbitratorChecking t then t\<lparr>n_arbitratorRecheck := True\<rparr>
     else t\<lparr>n_arbitratorChecking := True, n_arbitratorGen := n_arbitratorGen t + 1,
            n_checks := n_checks t @ [(n_arbitratorGen t + 1, n_arbitrators t)]\<rparr>)"

text \<open>\<open>maps.Equal\<close>: the same keys, with the same values.\<close>

definition maps_Equal :: "('k, 'v) gomap \<Rightarrow> ('k, 'v) gomap \<Rightarrow> bool" where
  "maps_Equal a b = (length a = length b \<and> list_all (\<lambda>(k, v). map_of b k = Some v) a)"

definition updateStatusArbitrator :: "(string, arbitrator_status) gomap \<Rightarrow> nmon \<Rightarrow> nmon" where
  "updateStatusArbitrator arbitrators t =
    (if maps_Equal arbitrators (nst_Arbitrators (n_status t)) then t
     else n_emit (NPubArbitratorsUpdated arbitrators)
       (n_publishNodeStatus (t\<lparr>n_status := (n_status t)\<lparr>nst_Arbitrators := arbitrators\<rparr>\<rparr>)))"

definition onArbitratorsChecked :: "nat \<times> (string, arbitrator_status) gomap \<Rightarrow> nmon \<Rightarrow> nmon" where
  "onArbitratorsChecked c t =
    (let t = t\<lparr>n_arbitratorChecking := False\<rparr>
     in if n_arbitratorRecheck t then refreshArbitrators (t\<lparr>n_arbitratorRecheck := False\<rparr>)
        else if fst c \<le> n_arbitratorFreshGen t then t
        else updateStatusArbitrator (snd c) t)"

definition arbitratorTotal :: "nmon \<Rightarrow> int" where
  "arbitratorTotal t = sum_list (map (\<lambda>(_, a). ab_Weight a) (n_arbitrators t))"

text \<open>One vote of the name of the arbitrator for each unit of its weight.\<close>

definition arbitratorVotes :: "nenv \<Rightarrow> nmon \<Rightarrow> string list \<times> nmon" where
  "arbitratorVotes e t =
    (case checkArbitrators e (n_arbitrators t) t of (arbitrators, t) \<Rightarrow>
       (concat (map (\<lambda>(s, v). if ar_Status v = StUp then replicate (nat (ar_Weight v)) s else []) arbitrators),
        updateStatusArbitrator arbitrators (t\<lparr>n_arbitratorFreshGen := n_arbitratorGen t\<rparr>)))"

section \<open>Losing a peer\<close>

text \<open>Integer division truncates towards zero in the source.\<close>

definition half :: "int \<Rightarrow> int" where
  "half x = (if x \<ge> 0 then x div 2 else - ((- x) div 2))"

definition splitAction :: "string \<Rightarrow> nmon \<Rightarrow> nmon" where
  "splitAction action t =
    (if action = ''crash'' then n_emit NTocCrash t else if action = ''reboot'' then n_emit NTocReboot t else t)"

definition onSplit :: "nenv \<Rightarrow> nmon \<Rightarrow> nmon" where
  "onSplit e t =
    (let total = int (length (ncl_Nodes (n_cluster t))) + arbitratorTotal t
     in case arbitratorVotes e t of (avotes, t) \<Rightarrow>
          let votes = int (length (n_livePeers t)) + int (length avotes)
          in if votes > half total then t
             else
               let action = nc_SplitAction (n_config t);
                   t = n_emit (NPubSplitAction action (length (n_livePeers t)) (length avotes) total) t
               in if action \<notin> {''crash'', ''reboot'', ''disabled''} then t else splitAction action t)"

definition onForgetPeer :: "nenv \<Rightarrow> string \<Rightarrow> nmon \<Rightarrow> nmon" where
  "onForgetPeer e peer t =
    (let t = updateSpeakerAndPublish
           (t\<lparr>n_nodeMonitor := AList.delete peer (n_nodeMonitor t),
              n_livePeers := filter (\<lambda>n. n \<noteq> peer) (n_livePeers t),
              n_hbChecksums := AList.delete peer (n_hbChecksums t)\<rparr>)
     in if length (n_livePeers t) > length (ncl_Nodes (n_cluster t)) div 2 then t
        else if \<not> ncl_Quorum (n_cluster t) then t
        else if n_frozen t then t
        else onSplit e t)"

section \<open>Votes\<close>

lemma speaker_frame [simp]:
  "n_livePeers (updateSpeakerAndPublish t) = n_livePeers t" "n_cluster (updateSpeakerAndPublish t) = n_cluster t"
  "n_frozen (updateSpeakerAndPublish t) = n_frozen t" "n_arbitrators (updateSpeakerAndPublish t) = n_arbitrators t"
  "n_config (updateSpeakerAndPublish t) = n_config t"
  "set (n_trace (updateSpeakerAndPublish t)) \<inter> {NTocCrash, NTocReboot} = set (n_trace t) \<inter> {NTocCrash, NTocReboot}"
  by (auto simp: updateSpeakerAndPublish_def updateSpeaker_def n_publishNodeStatus_def n_emit_def)

lemma arbitrator_frame [simp]:
  "n_livePeers (updateStatusArbitrator m t) = n_livePeers t" "n_config (updateStatusArbitrator m t) = n_config t"
  "set (n_trace (updateStatusArbitrator m t)) \<inter> {NTocCrash, NTocReboot} = set (n_trace t) \<inter> {NTocCrash, NTocReboot}"
  by (auto simp: updateStatusArbitrator_def n_publishNodeStatus_def n_emit_def)

lemma check_frame:
  "\<exists>l. snd (checkArbitrators e m t) = t\<lparr>n_trace := n_trace t @ l\<rparr> \<and> set l \<inter> {NTocCrash, NTocReboot} = {}"
proof -
  have "\<exists>l. foldl (\<lambda>t (_, a). if ne_arbitratorErr e a then n_emit (NPubArbitratorError (ab_Name a)) t else t) t m
      = t\<lparr>n_trace := n_trace t @ l\<rparr> \<and> set l \<inter> {NTocCrash, NTocReboot} = {}"
  proof (induction m arbitrary: t)
    case Nil
    show ?case by (rule exI [of _ "[]"]) simp
  next
    case (Cons x m)
    obtain k a where x: "x = (k, a)" by fastforce
    show ?case
    proof (cases "ne_arbitratorErr e a")
      case True
      obtain l where "foldl (\<lambda>t (_, a). if ne_arbitratorErr e a then n_emit (NPubArbitratorError (ab_Name a)) t else t)
          (n_emit (NPubArbitratorError (ab_Name a)) t) m = (n_emit (NPubArbitratorError (ab_Name a)) t)
            \<lparr>n_trace := n_trace (n_emit (NPubArbitratorError (ab_Name a)) t) @ l\<rparr>" "set l \<inter> {NTocCrash, NTocReboot} = {}"
        using Cons.IH [of "n_emit (NPubArbitratorError (ab_Name a)) t"] by blast
      with True x show ?thesis by (intro exI [of _ "NPubArbitratorError (ab_Name a) # l"]) (simp add: n_emit_def)
    next
      case False
      with x Cons.IH [of t] show ?thesis by simp
    qed
  qed
  then show ?thesis by (simp add: checkArbitrators_def)
qed

text \<open>The arbitrators of a configuration are named by their keys.\<close>

definition arbitrators_ok :: "(string, arbitrator_config) gomap \<Rightarrow> bool" where
  "arbitrators_ok m = (distinct (map fst m) \<and> list_all (\<lambda>(k, a). ab_Name a = k \<and> 0 \<le> ab_Weight a) m)"

definition reached :: "nenv \<Rightarrow> (string, arbitrator_config) gomap \<Rightarrow> int" where
  "reached e m = sum_list (map (\<lambda>(_, a). if ne_arbitratorErr e a then 0 else ab_Weight a) m)"

lemma update_fresh: "k \<notin> fst ` set m \<Longrightarrow> AList.update k v m = m @ [(k, v)]"
  by (induction m) auto

lemma foldl_update_fresh:
  "distinct (map f xs) \<Longrightarrow> f ` set xs \<inter> fst ` set m = {} \<Longrightarrow>
    foldl (\<lambda>m x. AList.update (f x) (g x) m) m xs = m @ map (\<lambda>x. (f x, g x)) xs"
proof (induction xs arbitrary: m)
  case Nil
  then show ?case by simp
next
  case (Cons x xs)
  then have "f ` set xs \<inter> fst ` set (m @ [(f x, g x)]) = {}" by auto
  with Cons show ?case by (simp add: update_fresh)
qed

lemma checked_answers:
  assumes "arbitrators_ok m"
  shows "fst (checkArbitrators e m t) = map (\<lambda>(k, a). (k, \<lparr>ar_URL = ab_URI a, ar_Status = (if ne_arbitratorErr e a then StDown else StUp),
    ar_Weight = ab_Weight a\<rparr>)) m"
proof -
  have n: "ab_Name a = k" if "(k, a) \<in> set m" for k a using that assms by (auto simp: arbitrators_ok_def list_all_iff)
  have l: "lkp zero_arbitrator m k = a" if "(k, a) \<in> set m" for k a
    using that assms by (simp add: arbitrators_ok_def lkp_in_set wf_map_def)
  have "map (\<lambda>x. ab_Name (snd x)) m = map fst m" using n by (intro map_cong) auto
  then have "distinct (map (\<lambda>x. ab_Name (snd x)) m)" using assms by (metis arbitrators_ok_def)
  then have "foldl (\<lambda>m' x. AList.update (ab_Name (snd x)) (arbitrator_answer e m (snd x)) m') [] m
      = map (\<lambda>x. (ab_Name (snd x), arbitrator_answer e m (snd x))) m"
    by (subst foldl_update_fresh) simp_all
  also have "\<dots> = map (\<lambda>(k, a). (k, \<lparr>ar_URL = ab_URI a, ar_Status = (if ne_arbitratorErr e a then StDown else StUp),
      ar_Weight = ab_Weight a\<rparr>)) m"
    using n l by (intro map_cong) (auto simp: arbitrator_answer_def Let_def)
  finally show ?thesis by (simp add: checkArbitrators_def case_prod_unfold)
qed

lemma arbitratorVotes_reached:
  assumes "arbitrators_ok (n_arbitrators t)"
  shows "int (length (fst (arbitratorVotes e t))) = reached e (n_arbitrators t)"
proof -
  have "int (length (concat (map (\<lambda>(s, v). if ar_Status v = StUp then replicate (nat (ar_Weight v)) s else [])
      (map (\<lambda>(k, a). (k, \<lparr>ar_URL = ab_URI a, ar_Status = (if ne_arbitratorErr e a then StDown else StUp), ar_Weight = ab_Weight a\<rparr>)) m))))
      = reached e m" if "list_all (\<lambda>(k, a). 0 \<le> ab_Weight a) m" for m
    using that by (induction m) (auto simp: reached_def)
  moreover have "list_all (\<lambda>(k, a). 0 \<le> ab_Weight a) (n_arbitrators t)"
    using assms by (auto simp: arbitrators_ok_def list_all_iff)
  ultimately show ?thesis using checked_answers [OF assms, of e t] by (simp add: arbitratorVotes_def case_prod_unfold)
qed

text \<open>The node crashes or reboots when it handles the loss of the peer.\<close>

definition fenced :: "nenv \<Rightarrow> string \<Rightarrow> nmon \<Rightarrow> bool" where
  "fenced e peer t = (set (n_trace (onForgetPeer e peer t)) \<inter> {NTocCrash, NTocReboot} \<noteq> set (n_trace t) \<inter> {NTocCrash, NTocReboot})"

definition remaining :: "string \<Rightarrow> nmon \<Rightarrow> string list" where
  "remaining peer t = filter (\<lambda>n. n \<noteq> peer) (n_livePeers t)"

lemma arbitratorVotes_frame:
  "n_livePeers (snd (arbitratorVotes e t)) = n_livePeers t" "n_config (snd (arbitratorVotes e t)) = n_config t"
  "set (n_trace (snd (arbitratorVotes e t))) \<inter> {NTocCrash, NTocReboot} = set (n_trace t) \<inter> {NTocCrash, NTocReboot}"
proof -
  obtain l where l: "snd (checkArbitrators e (n_arbitrators t) t) = t\<lparr>n_trace := n_trace t @ l\<rparr>" "set l \<inter> {NTocCrash, NTocReboot} = {}"
    using check_frame by blast
  then show "n_livePeers (snd (arbitratorVotes e t)) = n_livePeers t" "n_config (snd (arbitratorVotes e t)) = n_config t"
    "set (n_trace (snd (arbitratorVotes e t))) \<inter> {NTocCrash, NTocReboot} = set (n_trace t) \<inter> {NTocCrash, NTocReboot}"
    by (auto simp: arbitratorVotes_def case_prod_unfold)
qed

lemma fenced_iff:
  assumes "arbitrators_ok (n_arbitrators t)" and "set (n_trace t) \<inter> {NTocCrash, NTocReboot} = {}"
    and "nc_SplitAction (n_config t) \<in> {''crash'', ''reboot''}"
  shows "fenced e peer t \<longleftrightarrow> \<not> length (remaining peer t) > length (ncl_Nodes (n_cluster t)) div 2 \<and> ncl_Quorum (n_cluster t)
    \<and> \<not> n_frozen t \<and> \<not> int (length (remaining peer t)) + reached e (n_arbitrators t)
        > half (int (length (ncl_Nodes (n_cluster t))) + arbitratorTotal t)"
proof -
  define u where "u = updateSpeakerAndPublish (t\<lparr>n_nodeMonitor := AList.delete peer (n_nodeMonitor t),
      n_livePeers := filter (\<lambda>n. n \<noteq> peer) (n_livePeers t), n_hbChecksums := AList.delete peer (n_hbChecksums t)\<rparr>)"
  have u: "n_livePeers u = remaining peer t" "n_cluster u = n_cluster t" "n_frozen u = n_frozen t" "n_arbitrators u = n_arbitrators t"
      "n_config u = n_config t" "set (n_trace u) \<inter> {NTocCrash, NTocReboot} = {}"
    using assms(2) by (simp_all add: u_def remaining_def)
  have ok: "arbitrators_ok (n_arbitrators u)" using assms(1) u(4) by simp
  have tot: "arbitratorTotal u = arbitratorTotal t" using u(4) by (simp add: arbitratorTotal_def)
  have s: "set (n_trace (onSplit e u)) \<inter> {NTocCrash, NTocReboot} \<noteq> {} \<longleftrightarrow>
      \<not> int (length (remaining peer t)) + reached e (n_arbitrators t) > half (int (length (ncl_Nodes (n_cluster t))) + arbitratorTotal t)"
    using assms(3) arbitratorVotes_reached [OF ok, of e] arbitratorVotes_frame [of e u] u tot
    by (auto simp: onSplit_def case_prod_unfold Let_def splitAction_def n_emit_def)
  show ?thesis using s u assms(2) by (simp add: fenced_def onForgetPeer_def u_def [symmetric] Let_def)
qed

section \<open>Quorum\<close>

text \<open>A node that takes the quorum of the cluster into account: its configuration asks for it and it is not frozen.\<close>

definition voting :: "string list \<Rightarrow> (string, arbitrator_config) gomap \<Rightarrow> string \<Rightarrow> nmon \<Rightarrow> bool" where
  "voting nodes arbs peer t =
    (ncl_Nodes (n_cluster t) = nodes \<and> ncl_Quorum (n_cluster t) \<and> \<not> n_frozen t \<and> n_arbitrators t = arbs
     \<and> nc_SplitAction (n_config t) \<in> {''crash'', ''reboot''} \<and> list_all (\<lambda>x. x \<notin> {NTocCrash, NTocReboot}) (n_trace t)
     \<and> distinct (n_livePeers t) \<and> list_all (\<lambda>n. n \<in> set nodes) (remaining peer t))"

lemma fenced_voting:
  assumes "voting nodes arbs peer t" and "arbitrators_ok arbs"
  shows "fenced e peer t \<longleftrightarrow> length (remaining peer t) \<le> length nodes div 2
    \<and> int (length (remaining peer t)) + reached e arbs \<le> half (int (length nodes) + arbitratorTotal t)"
proof -
  have "set (n_trace t) \<inter> {NTocCrash, NTocReboot} = {}" using assms(1) by (auto simp: voting_def list_all_iff)
  from fenced_iff [of t, OF _ this] assms show ?thesis by (auto simp: voting_def)
qed

lemma reached_disjoint:
  assumes "list_all (\<lambda>(_, a). 0 \<le> ab_Weight a \<and> (ne_arbitratorErr ea a \<or> ne_arbitratorErr eb a)) arbs"
  shows "reached ea arbs + reached eb arbs \<le> sum_list (map (\<lambda>(_, a). ab_Weight a) arbs) \<and> 0 \<le> reached ea arbs \<and> 0 \<le> reached eb arbs"
  using assms by (induction arbs) (auto simp: reached_def)

lemma disjoint_lengths:
  assumes "distinct xs" and "distinct ys" and "set xs \<subseteq> set l" and "set ys \<subseteq> set l" and "set xs \<inter> set ys = {}"
  shows "length xs + length ys \<le> length l"
proof -
  have "length xs + length ys = card (set xs \<union> set ys)" using assms by (simp add: card_Un_disjoint distinct_card)
  also have "\<dots> \<le> card (set l)" using assms by (intro card_mono) auto
  also have "\<dots> \<le> length l" by (rule card_length)
  finally show ?thesis .
qed


section \<open>Quorum in examples\<close>

definition w_env :: "string list \<Rightarrow> nenv" where
  "w_env down =
    \<lparr>ne_now = 100, ne_exit = (\<lambda>_ _. 0), ne_openErr = False, ne_closeErr = False, ne_touchErr = False, ne_config = None,
     ne_certIssues = [], ne_sections = [], ne_arbitratorErr = (\<lambda>a. ab_Name a \<in> set down),
     ne_stats = \<lparr>nsa_MemTotalMB = 0, nsa_MemAvailPct = 0, nsa_SwapAvailPct = 0\<rparr>, ne_statsData = None, ne_configData = [],
     ne_statusData = [], ne_monitorData = [], ne_localPaths = [], ne_hbMessageType = ([], [], []), ne_hbGet = None,
     ne_hbSetErr = False, ne_newSecret = [], ne_clusterSetErr = False, ne_clusterNodes = [],
     ne_cluster = None, ne_bootstrapErr = False, ne_firstStart = False, ne_bootFreeze = False, ne_initialNodes = []\<rparr>"

definition w_arbitrators :: "string list \<Rightarrow> (string, arbitrator_config) gomap" where
  "w_arbitrators l = map (\<lambda>s. (s, \<lparr>ab_Name = s, ab_URI = ''https://'' @ s, ab_Weight = 1, ab_Insecure = False\<rparr>)) l"

definition w_node :: "string list \<Rightarrow> string list \<Rightarrow> string list \<Rightarrow> nmon" where
  "w_node nodes arbs live =
    (n_NewManager (hd live) \<lparr>sl_file = None, sl_next = 0\<rparr> 0 False)
      \<lparr>n_cluster := \<lparr>ncl_Nodes = nodes, ncl_Quorum = True\<rparr>, n_livePeers := live, n_arbitrators := w_arbitrators arbs,
       n_config := zero_nconfig\<lparr>nc_SplitAction := ''crash''\<rparr>\<rparr>"

lemmas quorum_example = voting_def arbitrators_ok_def w_node_def w_arbitrators_def w_env_def n_NewManager_def remaining_def
  fenced_voting reached_def arbitratorTotal_def half_def


text \<open>
  The bound on the votes of the arbitrators is needed: two nodes out of three go on as a majority
  of the nodes, without counting the votes, while the third, with the two arbitrators of the
  cluster, goes on as a majority of the votes. Nor is a vote given to one side only: an arbitrator
  both sides reach votes for both, and the two nodes of a cluster both go on.
\<close>

theorem both_sides_keep_quorum:
  "(let nodes = [''n1'', ''n2'', ''n3'']; arbs = [''a'', ''b''];
        x = w_node nodes arbs [''n1'', ''n2'', ''n3'']; y = w_node nodes arbs [''n3'', ''n1'']
    in voting nodes (w_arbitrators arbs) ''n3'' x \<and> voting nodes (w_arbitrators arbs) ''n1'' y
      \<and> set (remaining ''n3'' x) \<inter> set (remaining ''n1'' y) = {}
      \<and> \<not> fenced (w_env arbs) ''n3'' x \<and> \<not> fenced (w_env []) ''n1'' y)
  \<and> (let nodes = [''n1'', ''n2'']; arbs = [''a'']; x = w_node nodes arbs [''n1'', ''n2'']; y = w_node nodes arbs [''n2'', ''n1'']
    in set (remaining ''n2'' x) \<inter> set (remaining ''n1'' y) = {} \<and> \<not> fenced (w_env []) ''n2'' x \<and> \<not> fenced (w_env []) ''n1'' y)"
  by code_simp

text \<open>
  Two nodes with the same cluster configuration that see each other alive do not both take
  themselves for the speaker, the node that grants the cluster locks.
\<close>

theorem one_speaker:
  assumes "ncl_Nodes (n_cluster a) = ncl_Nodes (n_cluster b)" and "n_localhost b \<in> set (n_livePeers a)"
    and "n_localhost a \<in> set (n_livePeers b)" and "n_localhost a \<noteq> n_localhost b" and "n_localhost a \<noteq> []" and "n_localhost b \<noteq> []"
  shows "\<not> (isSpeakerNode a \<and> isSpeakerNode b)"
proof -
  have "\<not> (firstLive l la = x \<and> firstLive l lb = y)" if "y \<in> set la" "x \<in> set lb" "x \<noteq> y" "x \<noteq> []" "y \<noteq> []" for l la lb x y
    using that by (induction l) auto
  with assms show ?thesis by (auto simp: isSpeakerNode_def speakerNode_def)
qed

theorem one_speaker_witness:
  "\<not> (isSpeakerNode (w_node [''n1'', ''n2''] [] [''n1'', ''n2'']) \<and> isSpeakerNode (w_node [''n1'', ''n2''] [] [''n2'', ''n1'']))"
  using one_speaker [of "w_node [''n1'', ''n2''] [] [''n1'', ''n2'']" "w_node [''n1'', ''n2''] [] [''n2'', ''n1'']"]
  by (simp add: w_node_def n_NewManager_def)

end
