(* ===== verification/Nmon_Orchestrate.thy ===== *)
theory Nmon_Orchestrate
  imports Nmon_State
begin

text \<open>
  The orchestrations of the node monitor, \<open>daemon/nmon\<close>: freezing and unfreezing the cluster,
  draining the node, aborting, and how the nodes agree on the global expectation
  (\<open>converge_global_expect.go\<close>).
\<close>

section \<open>Commands\<close>

definition n_crmActionWithEnv :: "nenv \<Rightarrow> string list \<Rightarrow> string list \<Rightarrow> nmon \<Rightarrow> bool \<times> nmon" where
  "n_crmActionWithEnv e vars args t =
    (let code = ne_exit e (length (n_trace t)) args in (code \<noteq> 0, n_emit (NExec vars args code) t))"

definition n_crmDrain :: "nenv \<Rightarrow> nmon \<Rightarrow> bool \<times> nmon" where
  "n_crmDrain e = n_crmActionWithEnv e [] [''*/svc/*'', ''instance'', ''shutdown'']"

definition n_crmFreeze :: "nenv \<Rightarrow> nmon \<Rightarrow> bool \<times> nmon" where
  "n_crmFreeze e = n_crmActionWithEnv e [] [''node'', ''freeze'']"

definition n_crmFreezeCluster :: "nenv \<Rightarrow> nmon \<Rightarrow> bool \<times> nmon" where
  "n_crmFreezeCluster e = n_crmActionWithEnv e [''OSVC_FREEZE_SCOPE=cluster''] [''node'', ''freeze'']"

definition n_crmUnfreeze :: "nenv \<Rightarrow> nmon \<Rightarrow> bool \<times> nmon" where
  "n_crmUnfreeze e = n_crmActionWithEnv e [] [''node'', ''unfreeze'']"

definition n_doTransitionAction ::
  "nenv \<Rightarrow> (nmon \<Rightarrow> bool \<times> nmon) \<Rightarrow> node_state \<Rightarrow> node_state \<Rightarrow> node_state \<Rightarrow> nmon \<Rightarrow> nmon" where
  "n_doTransitionAction e act new success failure t =
    (case act (n_transitionTo e new t) of (err, t) \<Rightarrow> n_transitionTo e (if err then failure else success) t)"

text \<open>The goroutine of an action posts its outcome to the worker.\<close>

definition n_post :: "ncmd \<Rightarrow> nmon \<Rightarrow> nmon" where
  "n_post c t = t\<lparr>n_cmds := n_cmds t @ [c]\<rparr>"

section \<open>Agreeing on the global expectation\<close>

text \<open>The most recent expectation pending, and the most recent one ended, each with its node.\<close>

definition recent_step :: "(string \<times> time) \<times> (string \<times> time) \<Rightarrow> string \<times> nmonitor \<Rightarrow> (string \<times> time) \<times> (string \<times> time)" where
  "recent_step s x =
    (case s of ((n, at), (en, eat)) \<Rightarrow> case x of (nodename, m) \<Rightarrow>
       if nmo_GlobalExpect m = NodeGlobalExpectInit then s
       else if nmo_GlobalExpect m = NodeGlobalExpectNone
       then (if eat < nmo_GlobalExpectUpdatedAt m then ((n, at), (nodename, nmo_GlobalExpectUpdatedAt m)) else s)
       else if nmo_GlobalExpect m = NodeGlobalExpectUnknown then s
       else if at < nmo_GlobalExpectUpdatedAt m then ((nodename, nmo_GlobalExpectUpdatedAt m), (en, eat)) else s)"

definition n_alignEndedGlobalExpect :: "time \<Rightarrow> nmon \<Rightarrow> nmon" where
  "n_alignEndedGlobalExpect updated t =
    (if nglobal t \<notin> {NodeGlobalExpectNone, NodeGlobalExpectInit} then t
     else if \<not> updated > nmo_GlobalExpectUpdatedAt (n_state t) then t
     else t\<lparr>n_change := True, n_state := (n_state t)\<lparr>nmo_GlobalExpectUpdatedAt := updated\<rparr>\<rparr>)"

definition n_convergeGlobalExpectFromRemote :: "nmon \<Rightarrow> nmon" where
  "n_convergeGlobalExpectFromRemote t =
    (case foldl recent_step (([], 0), ([], 0)) (n_nodeMonitor t) of ((n, at), (_, eat)) \<Rightarrow>
       if at = 0 then n_alignEndedGlobalExpect eat t
       else if at > nmo_GlobalExpectUpdatedAt (n_state t) then
         let m = lkp zero_nmonitor (n_nodeMonitor t) n;
             t = t\<lparr>n_change := True,
               n_state := (n_state t)\<lparr>nmo_GlobalExpect := nmo_GlobalExpect m, nmo_GlobalExpectUpdatedAt := nmo_GlobalExpectUpdatedAt m\<rparr>\<rparr>;
             t = n_adoptOrchestration (nmo_OrchestrationID m) t
         in if isStateFailed t then n_set_state NodeStateIdle t else t
       else t)"

definition n_isConvergedGlobalExpect :: "nmon \<Rightarrow> bool" where
  "n_isConvergedGlobalExpect t =
    list_all (\<lambda>(n, m). n = n_localhost t \<or> \<not> nmo_GlobalExpectUpdatedAt (n_state t) > nmo_GlobalExpectUpdatedAt m) (n_nodeMonitor t)"

section \<open>Orchestrations\<close>

definition n_setGlobal :: "node_global_expect \<Rightarrow> nmon \<Rightarrow> nmon" where
  "n_setGlobal g t = t\<lparr>n_change := True, n_state := (n_state t)\<lparr>nmo_GlobalExpect := g\<rparr>\<rparr>"

definition n_setLocal :: "node_local_expect \<Rightarrow> nmon \<Rightarrow> nmon" where
  "n_setLocal l t = t\<lparr>n_state := (n_state t)\<lparr>nmo_LocalExpect := l\<rparr>\<rparr>"

definition n_orchestrateAborted :: "nenv \<Rightarrow> nmon \<Rightarrow> nmon" where
  "n_orchestrateAborted e t =
    (let t = n_endOrchestration (n_setGlobal NodeGlobalExpectNone t)
     in n_updateIfChange e (if nmo_LocalExpect (n_state t) = NodeLocalExpectDrained then n_setLocal NodeLocalExpectNone t else t))"

text \<open>The source compares the kind of each local object with \<open>svc\<close>, whatever kind it is asked for.\<close>

definition hasLocalKind :: "nenv \<Rightarrow> bool" where
  "hasLocalKind e = list_ex (\<lambda>p. p_Kind p = KindSvc) (ne_localPaths e)"

definition drainFromIdle :: "nenv \<Rightarrow> nmon \<Rightarrow> nmon" where
  "drainFromIdle e t =
    (if nst_FrozenAt (n_status t) \<noteq> 0
     then n_post (NCmdOrchestrate NodeStateFreezeSuccess NodeStateFreezeSuccess) (n_set_state NodeStateFreezeSuccess t)
     else case n_crmFreeze e (n_transitionTo e NodeStateFreezeProgress t) of (err, t) \<Rightarrow>
       n_post (NCmdOrchestrate NodeStateFreezeProgress (if err then NodeStateFreezeFailure else NodeStateFreezeSuccess)) t)"

definition drainFromFrozen :: "nenv \<Rightarrow> nmon \<Rightarrow> nmon" where
  "drainFromFrozen e t =
    (let t = n_transitionTo e NodeStateDrainProgress t
     in if \<not> hasLocalKind e then n_post (NCmdOrchestrate NodeStateDrainProgress NodeStateDrainSuccess) t
        else case n_crmDrain e t of (err, t) \<Rightarrow>
          n_post (NCmdOrchestrate NodeStateDrainProgress (if err then NodeStateDrainFailure else NodeStateDrainSuccess)) t)"

definition n_orchestrateDrained :: "nenv \<Rightarrow> nmon \<Rightarrow> nmon" where
  "n_orchestrateDrained e t =
    (case nstate t of
       NodeStateIdle \<Rightarrow> drainFromIdle e t
     | NodeStateFreezeSuccess \<Rightarrow> drainFromFrozen e t
     | NodeStateDrainSuccess \<Rightarrow>
         n_endOrchestration (n_setLocal NodeLocalExpectNone (n_set_state NodeStateIdle (t\<lparr>n_change := True\<rparr>)))
     | NodeStateDrainFailure \<Rightarrow> n_endOrchestration (n_setLocal NodeLocalExpectNone (t\<lparr>n_change := True\<rparr>))
     | _ \<Rightarrow> t)"

definition frozenClearIfReached :: "nmon \<Rightarrow> bool \<times> nmon" where
  "frozenClearIfReached t =
    (if nst_FrozenAt (n_status t) \<noteq> 0 then (True, n_endOrchestration (n_setGlobal NodeGlobalExpectNone t)) else (False, t))"

definition n_orchestrateFrozen :: "nenv \<Rightarrow> nmon \<Rightarrow> nmon" where
  "n_orchestrateFrozen e t =
    (case nstate t of
       NodeStateIdle \<Rightarrow>
         (case frozenClearIfReached t of (ok, t) \<Rightarrow>
            if ok then t
            else n_doTransitionAction e (n_crmFreezeCluster e) NodeStateFreezeProgress NodeStateFreezeSuccess NodeStateFreezeFailure t)
     | NodeStateFreezeSuccess \<Rightarrow>
         (case frozenClearIfReached t of (ok, t) \<Rightarrow> if ok then (n_set_state NodeStateIdle t)\<lparr>n_change := True\<rparr> else t)
     | _ \<Rightarrow> t)"

definition unfrozenClearIfReached :: "nmon \<Rightarrow> bool \<times> nmon" where
  "unfrozenClearIfReached t =
    (if nst_FrozenAt (n_status t) = 0 then (True, n_endOrchestration (n_setGlobal NodeGlobalExpectNone t)) else (False, t))"

definition n_orchestrateUnfrozen :: "nenv \<Rightarrow> nmon \<Rightarrow> nmon" where
  "n_orchestrateUnfrozen e t =
    (case nstate t of
       NodeStateIdle \<Rightarrow>
         (case unfrozenClearIfReached t of (ok, t) \<Rightarrow>
            if ok then t
            else n_doTransitionAction e (n_crmUnfreeze e) NodeStateUnfreezeProgress NodeStateUnfreezeSuccess NodeStateUnfreezeFailure t)
     | NodeStateUnfreezeSuccess \<Rightarrow>
         (case unfrozenClearIfReached t of (ok, t) \<Rightarrow> if ok then n_transitionTo e NodeStateIdle t else t)
     | _ \<Rightarrow> t)"

definition n_orchestrate :: "nenv \<Rightarrow> nmon \<Rightarrow> nmon" where
  "n_orchestrate e t =
    (if nstate t \<in> {NodeStateInit, NodeStateRejoin} then t
     else if \<not> n_isConvergedGlobalExpect t then t
     else
       let t = (if nmo_LocalExpect (n_state t) = NodeLocalExpectDrained then n_orchestrateDrained e t else t);
           t = (case nglobal t of
                  NodeGlobalExpectAborted \<Rightarrow> n_orchestrateAborted e t
                | NodeGlobalExpectFrozen \<Rightarrow> n_orchestrateFrozen e t
                | NodeGlobalExpectUnfrozen \<Rightarrow> n_orchestrateUnfrozen e t
                | _ \<Rightarrow> t)
       in n_updateIfChange e t)"

definition n_onOrchestrate :: "nenv \<Rightarrow> node_state \<Rightarrow> node_state \<Rightarrow> nmon \<Rightarrow> nmon" where
  "n_onOrchestrate e s new t = n_orchestrate e (if nstate t = s then n_transitionTo e new t else t)"

end
