(* ===== verification/Nmon.thy ===== *)
theory Nmon
  imports Nmon_Quorum Nmon_Orchestrate
begin

text \<open>
  The worker of the node monitor, \<open>daemon/nmon\<close>: its start, its handlers (\<open>main_cmd.go\<close>), the rejoin
  period (\<open>main.go\<close>), the node configuration and its issues (\<open>prkey.go\<close>), the rotation of the
  heartbeat secret (\<open>hb_secret.go\<close>), the nodes that join and leave (\<open>cluster_config.go\<close>).
\<close>

section \<open>Configuration and statistics\<close>

definition isOverloaded :: "nstats \<Rightarrow> nmon \<Rightarrow> bool" where
  "isOverloaded s t =
    (nc_MinAvailMemPct (n_config t) > 0 \<and> nsa_MemAvailPct s < nc_MinAvailMemPct (n_config t)
     \<or> nc_MinAvailSwapPct (n_config t) > 0 \<and> nsa_SwapAvailPct s < nc_MinAvailSwapPct (n_config t))"

definition updateIsOverloaded :: "nstats \<Rightarrow> nmon \<Rightarrow> bool \<times> nmon" where
  "updateIsOverloaded s t =
    (let o' = isOverloaded s t
     in if o' = nst_IsOverloaded (n_status t) then (False, t)
        else (True, n_emit (if o' then NPubEnterOverload else NPubLeaveOverload) (t\<lparr>n_status := (n_status t)\<lparr>nst_IsOverloaded := o'\<rparr>\<rparr>)))"

definition updateIsOverloadedAndPublish :: "nstats \<Rightarrow> nmon \<Rightarrow> nmon" where
  "updateIsOverloadedAndPublish s t = (case updateIsOverloaded s t of (ch, t) \<Rightarrow> if ch then n_publishNodeStatus t else t)"

text \<open>A read that fails gives what was read before it failed: the environment says what.\<close>

definition updateStats :: "nenv \<Rightarrow> nmon \<Rightarrow> nmon" where
  "updateStats e t = updateIsOverloadedAndPublish (ne_stats e) (n_emit (NPubStats (ne_stats e)) t)"

text \<open>\<open>node.ConfigData\<close> is the cache of the configurations of the nodes.\<close>

definition duplicatePRKeyPeers :: "nenv \<Rightarrow> string \<Rightarrow> nmon \<Rightarrow> string list" where
  "duplicatePRKeyPeers e key t =
    (if key = [] then []
     else sort (map fst (filter (\<lambda>(n, c). n \<noteq> n_localhost t \<and> nc_PRKey c = key) (ne_configData e))))"

definition nodeIssues :: "nenv \<Rightarrow> nconfig \<Rightarrow> nmon \<Rightarrow> string list" where
  "nodeIssues e cfg t =
    (let peers = duplicatePRKeyPeers e (nc_PRKey cfg) t
     in (if peers \<noteq> [] then [''prkey '' @ nc_PRKey cfg @ '' is also the prkey of '' @ Join '', '' peers] else []) @ n_certIssues t)"

definition refreshNodeIssues :: "nenv \<Rightarrow> nmon \<Rightarrow> nmon" where
  "refreshNodeIssues e t =
    (let issues = nodeIssues e (n_config t) t
     in if issues = nc_Issues (n_config t) then t
        else let t = t\<lparr>n_config := (n_config t)\<lparr>nc_Issues := issues\<rparr>\<rparr> in n_emit (NPubConfig (n_config t)) t)"

definition checkPRKey :: "nenv \<Rightarrow> nmon \<Rightarrow> nmon" where
  "checkPRKey e t =
    (let peers = duplicatePRKeyPeers e (nc_PRKey (n_config t)) t
     in if peers = [] then (if n_prKeyPeers t \<noteq> [] then t\<lparr>n_prKeyPeers := []\<rparr> else t)
        else if peers = n_prKeyPeers t then t else t\<lparr>n_prKeyPeers := peers\<rparr>)"

definition checkCert :: "nenv \<Rightarrow> nmon \<Rightarrow> nmon" where
  "checkCert e t = t\<lparr>n_certIssues := ne_certIssues e\<rparr>"

definition onCertChanged :: "nenv \<Rightarrow> string \<Rightarrow> nmon \<Rightarrow> nmon" where
  "onCertChanged e node t = (if node \<noteq> n_localhost t then t else refreshNodeIssues e (checkCert e t))"

text \<open>None is the error that leaves the configuration as it is.\<close>

definition n_loadConfig :: "nenv \<Rightarrow> nmon \<Rightarrow> nmon option" where
  "n_loadConfig e t =
    (case ne_config e of
       None \<Rightarrow> None
     | Some c \<Rightarrow> let t = checkCert e (t\<lparr>n_config := c\<rparr>) in Some (t\<lparr>n_config := (n_config t)\<lparr>nc_Issues := nodeIssues e (n_config t) t\<rparr>\<rparr>))"

definition loadConfigAndPublish :: "nenv \<Rightarrow> nmon \<Rightarrow> bool \<times> nmon" where
  "loadConfigAndPublish e t =
    (let prev = n_config t
     in case n_loadConfig e t of
          None \<Rightarrow> (True, t)
        | Some t \<Rightarrow>
            let t = (case ne_statsData e of
                   Some s \<Rightarrow> if nsa_MemTotalMB s \<noteq> 0 then updateIsOverloadedAndPublish s t else t
                 | None \<Rightarrow> t);
                t = (if prev \<noteq> n_config t
                     then checkPRKey e ((n_emit (NPubConfig (n_config t)) t)
                       \<lparr>n_prKeyPeers := if nc_PRKey prev \<noteq> nc_PRKey (n_config t) then [] else n_prKeyPeers t\<rparr>)
                     else t)
            in (False, updateSpeakerAndPublish t))"

definition onPeerNodeConfigUpdated :: "nenv \<Rightarrow> nmon \<Rightarrow> nmon" where
  "onPeerNodeConfigUpdated e t = refreshNodeIssues e (checkPRKey e t)"

section \<open>The rejoin period\<close>

definition missingNodes :: "string list \<Rightarrow> string list \<Rightarrow> string list" where
  "missingNodes nodes joined = filter (\<lambda>n. n \<notin> set joined) nodes"

text \<open>The variable of the upgrade is unset before it is read for the message.\<close>

definition startRejoin :: "nenv \<Rightarrow> nmon \<Rightarrow> nmon" where
  "startRejoin e t =
    (case ne_hbMessageType e of (ty, nodes, joined) \<Rightarrow>
       if ty = ''patch'' \<and> missingNodes nodes joined = [] then
         let leftAt = n_lastShutdown t;
             t = t\<lparr>n_rejoinTicker := None, n_status := (n_status t)\<lparr>nst_LeftAt := leftAt, nst_RejoinedAt := ne_now e\<rparr>, n_upgrade := False\<rparr>;
             t = n_transitionTo e NodeStateIdle t
         in n_emit (NPubRejoin nodes leftAt (n_upgrade t)) t
       else n_transitionTo e NodeStateRejoin (t\<lparr>n_rejoinTicker := Some (ne_now e + nc_RejoinGracePeriod (n_config t))\<rparr>))"

definition checkRejoinTicker :: "nenv \<Rightarrow> nmon \<Rightarrow> nmon" where
  "checkRejoinTicker e t =
    (if nstate t \<noteq> NodeStateRejoin then t
     else
       let left = n_startedAt t + nc_RejoinGracePeriod (n_config t) - ne_now e
       in t\<lparr>n_rejoinTicker := Some (ne_now e + (if left \<le> 0 then 100000000 else left))\<rparr>)"

definition onRejoinGracePeriodExpire :: "nenv \<Rightarrow> nmon \<Rightarrow> nmon" where
  "onRejoinGracePeriodExpire e t =
    (case nodeFreeze e t of ((changed, err), t) \<Rightarrow>
       if changed \<and> err then t\<lparr>n_rejoinTicker := Some (ne_now e + 2 * second)\<rparr>
       else (n_transitionTo e NodeStateIdle t)\<lparr>n_rejoinTicker := None\<rparr>)"

definition onHeartbeatMessageTypeUpdated :: "nenv \<Rightarrow> string \<Rightarrow> string list \<Rightarrow> string list \<Rightarrow> nmon \<Rightarrow> nmon" where
  "onHeartbeatMessageTypeUpdated e to nodes joined t =
    (if nstate t \<noteq> NodeStateRejoin then t
     else if to \<noteq> ''patch'' then t
     else if missingNodes nodes joined \<noteq> [] then t
     else
       let leftAt = n_lastShutdown t;
           t = n_emit (NPubRejoin nodes leftAt (n_upgrade t)) (t\<lparr>n_rejoinTicker := None\<rparr>);
           t = t\<lparr>n_status := (n_status t)\<lparr>nst_LeftAt := leftAt, nst_RejoinedAt := ne_now e\<rparr>, n_upgrade := False\<rparr>
       in n_transitionTo e NodeStateIdle t)"

definition clusterFreezeMissedBy :: "(string, nstatus) gomap \<Rightarrow> time \<Rightarrow> string list" where
  "clusterFreezeMissedBy peers at = sort (map fst (filter (\<lambda>(_, v). nst_FrozenScope v = ScopeCluster \<and> nst_FrozenAt v > at) peers))"

definition peerStatuses :: "nenv \<Rightarrow> nmon \<Rightarrow> (string, nstatus) gomap" where
  "peerStatuses e t =
    foldl (\<lambda>m n. if n = n_localhost t then m else case map_of (ne_statusData e) n of None \<Rightarrow> m | Some v \<Rightarrow> AList.update n v m)
      [] (ncl_Nodes (n_cluster t))"

definition onNodeRejoin :: "nenv \<Rightarrow> string list \<Rightarrow> time \<Rightarrow> bool \<Rightarrow> nmon \<Rightarrow> nmon" where
  "onNodeRejoin e nodes at upgrading t =
    (if upgrading then t
     else if length nodes < 2 then t
     else if nglobal t = NodeGlobalExpectUnfrozen then t
     else if clusterFreezeMissedBy (peerStatuses e t) at = [] then t
     else snd (nodeFreeze e t))"

section \<open>Requests and messages\<close>

datatype node_error = NErrInvalidState | NErrSameState | NErrInvalidLocalExpect | NErrSameLocalExpect | NErrInvalidGlobalExpect

definition n_resetFailedState :: "nmonitor_update \<Rightarrow> nmon \<Rightarrow> nmon" where
  "n_resetFailedState c t = (if nmu_State c = None \<and> isStateFailed t then n_set_state NodeStateIdle t else t)"

definition n_doState :: "nmonitor_update \<Rightarrow> nmon \<Rightarrow> node_error list \<times> nmon" where
  "n_doState c t =
    (case nmu_State c of
       None \<Rightarrow> ([], t)
     | Some s \<Rightarrow>
         if \<not> has_key node_StateStrings s then ([NErrInvalidState], t)
         else if nstate t = s then ([NErrSameState], t)
         else ([], n_set_state s (t\<lparr>n_change := True\<rparr>)))"

definition n_doLocalExpect :: "nmonitor_update \<Rightarrow> nmon \<Rightarrow> node_error list \<times> nmon" where
  "n_doLocalExpect c t =
    (case nmu_LocalExpect c of
       None \<Rightarrow> ([], t)
     | Some l \<Rightarrow>
         if \<not> has_key node_LocalExpectStrings l then ([NErrInvalidLocalExpect], t)
         else if nmo_LocalExpect (n_state t) = l then ([NErrSameLocalExpect], t)
         else ([], n_resetFailedState c (n_setLocal l (t\<lparr>n_change := True\<rparr>))))"

definition globalExpectRefusedBy :: "node_global_expect \<Rightarrow> nmonitor \<Rightarrow> bool" where
  "globalExpectRefusedBy g m = (nmo_GlobalExpect m = g \<or> \<not> IsRankable (nmo_State m) \<or> node_IsDoing (nmo_State m))"

definition n_doGlobalExpect :: "nenv \<Rightarrow> nmonitor_update \<Rightarrow> nmon \<Rightarrow> node_error list \<times> nmon" where
  "n_doGlobalExpect e c t =
    (case nmu_GlobalExpect c of
       None \<Rightarrow> ([], t)
     | Some g \<Rightarrow>
         if \<not> has_key node_GlobalExpectStrings g then ([], t)
         else if g \<noteq> NodeGlobalExpectAborted \<and> list_ex (\<lambda>(_, m). globalExpectRefusedBy g m) (n_nodeMonitor t)
         then ([NErrInvalidGlobalExpect], t)
         else if g \<noteq> nglobal t
         then ([], n_resetFailedState c (let t = n_setGlobal g t in t\<lparr>n_state := (n_state t)\<lparr>nmo_GlobalExpectUpdatedAt := ne_now e\<rparr>\<rparr>))
         else ([], t))"

definition onSetNodeMonitor :: "nenv \<Rightarrow> nmonitor_update \<Rightarrow> nmon \<Rightarrow> nmon" where
  "onSetNodeMonitor e c t =
    (case n_doState c t of (e1, t) \<Rightarrow> case n_doLocalExpect c t of (e2, t) \<Rightarrow> case n_doGlobalExpect e c t of (e3, t) \<Rightarrow>
       let err = e1 @ e2 @ e3; refused = n_publishOrchestrationRefused (nmu_CandidateOrchestrationID c) (nmu_GlobalExpect c);
           t = (if err \<noteq> [] then refused t else t)
       in if n_change t then n_orchestrate e (n_updateIfChange e (n_adoptOrchestration (nmu_CandidateOrchestrationID c) t))
          else if err = [] then refused t else t)"

definition onNodeFrozenFileRemoved :: "nenv \<Rightarrow> nmon \<Rightarrow> nmon" where
  "onNodeFrozenFileRemoved e t =
    (let t = t\<lparr>n_frozen := False, n_status := (n_status t)\<lparr>nst_FrozenAt := 0, nst_FrozenScope := []\<rparr>\<rparr>
     in n_orchestrate e (n_publishNodeStatus (n_emit (NPubFrozen False 0) t)))"

definition onNodeFrozenFileUpdated :: "nenv \<Rightarrow> time \<Rightarrow> nmon \<Rightarrow> nmon" where
  "onNodeFrozenFileUpdated e at t =
    (let t = t\<lparr>n_frozen := True, n_status := (n_status t)\<lparr>nst_FrozenAt := at, nst_FrozenScope := nodeFrozenScope t\<rparr>\<rparr>
     in n_orchestrate e (n_publishNodeStatus (n_emit (NPubFrozen True at) t)))"

definition n_converge :: "nenv \<Rightarrow> nmon \<Rightarrow> nmon" where
  "n_converge e t = n_updateIfChange e (n_orchestrate e (n_updateIfChange e (n_convergeGlobalExpectFromRemote t)))"

definition onNodeMonitorDeleted :: "nenv \<Rightarrow> string \<Rightarrow> nmon \<Rightarrow> nmon" where
  "onNodeMonitorDeleted e node t = n_converge e (t\<lparr>n_nodeMonitor := AList.delete node (n_nodeMonitor t)\<rparr>)"

definition onPeerNodeMonitorUpdated :: "nenv \<Rightarrow> string \<Rightarrow> nmonitor \<Rightarrow> nmon \<Rightarrow> nmon" where
  "onPeerNodeMonitorUpdated e node m t =
    (let t = t\<lparr>n_nodeMonitor := AList.update node m (n_nodeMonitor t)\<rparr>;
         t = (if node \<in> set (n_livePeers t) then t else updateSpeakerAndPublish (t\<lparr>n_livePeers := n_livePeers t @ [node]\<rparr>))
     in n_converge e t)"

definition n_onClusterConfigUpdated :: "nenv \<Rightarrow> ncluster \<Rightarrow> nmon \<Rightarrow> nmon" where
  "n_onClusterConfigUpdated e c t =
    checkRejoinTicker e (refreshArbitrators (setArbitratorConfig e (snd (loadConfigAndPublish e (t\<lparr>n_cluster := c\<rparr>)))))"

definition onConfigFileUpdated :: "nenv \<Rightarrow> nmon \<Rightarrow> nmon" where
  "onConfigFileUpdated e t = (case loadConfigAndPublish e t of (err, t) \<Rightarrow> if err then t else checkRejoinTicker e t)"

section \<open>The heartbeat secret\<close>

definition hbRotatingError :: "nmon \<Rightarrow> nmon" where
  "hbRotatingError t = (n_emit (NPubRotateError (n_hbRotatingID t)) t)\<lparr>n_hbRotating := False, n_hbRotatingID := 0\<rparr>"

definition hbRotatingCheck :: "nenv \<Rightarrow> nmon \<Rightarrow> nmon" where
  "hbRotatingCheck e t =
    (if \<not> n_hbRotating t then t
     else if ne_now e > n_hbRotatingAt t + 15 * second then hbRotatingError t
     else
       let expected = lkp [] (n_hbChecksums t) (n_localhost t)
       in if expected = [] then t
          else if list_ex (\<lambda>(_, c). c \<noteq> expected) (n_hbChecksums t) then t
          else if length (n_hbChecksums t) \<noteq> length (ncl_Nodes (n_cluster t)) then t
          else if hs_altSecret (n_hbSecret t) = [] then hbRotatingError t
          else if hs_Version (n_hbSecret t) > hs_AltVersion (n_hbSecret t) then hbRotatingError t
          else
            let t = t\<lparr>n_hbSecret := hs_Rotate (n_hbSecret t)\<rparr>
            in if ne_hbSetErr e then hbRotatingError t
               else
                 let t = n_emit (NPubRotateSuccess (n_hbRotatingID t)) (n_emit (NSetSecret (n_hbSecret t)) t)
                 in t\<lparr>n_hbRotating := False, n_hbRotatingID := 0, n_hbChecksums := AList.delete (n_localhost t) (n_hbChecksums t)\<rparr>)"

text \<open>The configuration of the object of the secret changed on a node; \<open>ne_hbGet\<close> reads the local one.\<close>

definition n_onInstanceConfigUpdated :: "nenv \<Rightarrow> string \<Rightarrow> string \<Rightarrow> nmon \<Rightarrow> nmon" where
  "n_onInstanceConfigUpdated e node checksum t =
    (if lkp [] (n_hbChecksums t) node = checksum then t
     else
       let t = t\<lparr>n_hbChecksums := AList.update node checksum (n_hbChecksums t)\<rparr>
       in case ne_hbGet e of
            None \<Rightarrow> t
          | Some s \<Rightarrow>
              let t = n_emit (NPubSecretUpdated s) (t\<lparr>n_hbSecret := s\<rparr>)
              in if \<not> n_hbRotating t then t else hbRotatingCheck e t)"

definition onHeartbeatRotateRequest :: "nenv \<Rightarrow> nat \<Rightarrow> nmon \<Rightarrow> nmon" where
  "onHeartbeatRotateRequest e i t =
    (let refuse = n_emit (NPubRotateError i) t; expected = lkp [] (n_hbChecksums t) (n_localhost t); s = n_hbSecret t
     in if n_hbRotating t then refuse
        else if length (n_livePeers t) \<noteq> length (ncl_Nodes (n_cluster t)) then refuse
        else if expected = [] then refuse
        else if list_ex (\<lambda>(_, c). c \<noteq> expected) (n_hbChecksums t) then refuse
        else if hs_secret s = [] then refuse
        else if ne_hbSetErr e then refuse
        else (n_emit (NUpdateAlternate (max (hs_Version s) (hs_AltVersion s) + 1) (ne_newSecret e)) t)
          \<lparr>n_hbRotating := True, n_hbRotatingAt := ne_now e, n_hbRotatingID := i\<rparr>)"

section \<open>Joining and leaving\<close>

definition onJoinRequest :: "nenv \<Rightarrow> string \<Rightarrow> nmon \<Rightarrow> nmon" where
  "onJoinRequest e candidate t =
    (if candidate \<in> set (ne_clusterNodes e) then n_emit (NPubJoinIgnored candidate) t
     else if ne_clusterSetErr e then n_emit (NPubJoinError candidate) t
     else n_emit (NClusterAppend candidate) t)"

definition onLeaveRequest :: "nenv \<Rightarrow> string \<Rightarrow> nmon \<Rightarrow> nmon" where
  "onLeaveRequest e candidate t =
    (if candidate \<notin> set (ne_clusterNodes e) then n_emit (NPubLeaveIgnored candidate) t
     else if ne_clusterSetErr e then n_emit (NPubLeaveError candidate) t
     else n_emit (NClusterRemove candidate) t)"

section \<open>The worker\<close>

text \<open>None is the error that stops the daemon.\<close>

definition n_Start :: "nenv \<Rightarrow> nmon \<Rightarrow> nmon option" where
  "n_Start e t =
    (let at = flag_At (n_frozenFile t);
         t = t\<lparr>n_status := (n_status t)\<lparr>nst_FrozenAt := at, nst_FrozenScope := nodeFrozenScope t\<rparr>, n_frozen := (at \<noteq> 0)\<rparr>
     in if ne_bootstrapErr e then None
        else case loadConfigAndPublish e t of (err, t) \<Rightarrow>
          if err then None
          else
            case (if ne_firstStart e \<and> ne_bootFreeze e then n_crmFreeze e t else (False, t)) of (err, t) \<Rightarrow>
              if err then None
              else
                let t = setArbitratorConfig e t;
                    t = (case ne_cluster e of None \<Rightarrow> t | Some c \<Rightarrow> t\<lparr>n_cluster := c\<rparr>)
                in Some (updateSpeakerAndPublish t))"

definition n_worker_begin :: "nenv \<Rightarrow> nmon \<Rightarrow> nmon" where
  "n_worker_begin e t =
    (let t = t\<lparr>n_startedAt := ne_now e,
           n_nodeMonitor := foldl (\<lambda>m n. AList.update n (lkp zero_nmonitor (ne_monitorData e) n) m) (n_nodeMonitor t) (ne_initialNodes e)\<rparr>;
         t = refreshArbitrators (n_updateIfChange e (updateStats e t))
     in if length (ne_initialNodes e) > 1 then startRejoin e t
        else n_transitionTo e NodeStateIdle (t\<lparr>n_rejoinTicker := None\<rparr>))"

datatype nmon_event =
    NEvClusterConfigUpdated ncluster
  | NEvConfigFileUpdated
  | NEvForgetPeer string
  | NEvJoinRequest string
  | NEvLeaveRequest string
  | NEvHeartbeatRotateRequest nat
  | NEvHeartbeatMessageTypeUpdated string "string list" "string list"
  | NEvSecretConfigUpdated string string
  | NEvCertConfigUpdated string
  | NEvPeerNodeConfigUpdated
  | NEvNodeMonitorDeleted string
  | NEvPeerNodeMonitorUpdated string nmonitor
  | NEvNodeFrozenFileRemoved
  | NEvNodeFrozenFileUpdated "time"
  | NEvNodeRejoin "string list" "time" bool
  | NEvSetNodeMonitor nmonitor_update
  | NEvCmd
  | NEvStatsTicker
  | NEvArbitratorTicker
  | NEvArbitratorsChecked nat "(string, arbitrator_status) gomap"
  | NEvRejoinTicker
  | NEvLastShutdownTicker
  | NEvCertTicker

text \<open>
  An event of the loop of the worker. A command is there only when a goroutine posted it, and the
  tick of the rejoin period only while its ticker runs.
\<close>

definition n_on_event :: "nenv \<Rightarrow> nmon_event \<Rightarrow> nmon \<Rightarrow> nmon" where
  "n_on_event e ev t =
    (case ev of
       NEvClusterConfigUpdated c \<Rightarrow> n_onClusterConfigUpdated e c t
     | NEvConfigFileUpdated \<Rightarrow> onConfigFileUpdated e t
     | NEvForgetPeer n \<Rightarrow> onForgetPeer e n t
     | NEvJoinRequest n \<Rightarrow> onJoinRequest e n t
     | NEvLeaveRequest n \<Rightarrow> onLeaveRequest e n t
     | NEvHeartbeatRotateRequest i \<Rightarrow> onHeartbeatRotateRequest e i t
     | NEvHeartbeatMessageTypeUpdated to nodes joined \<Rightarrow> onHeartbeatMessageTypeUpdated e to nodes joined t
     | NEvSecretConfigUpdated n c \<Rightarrow> n_onInstanceConfigUpdated e n c t
     | NEvCertConfigUpdated n \<Rightarrow> onCertChanged e n t
     | NEvPeerNodeConfigUpdated \<Rightarrow> onPeerNodeConfigUpdated e t
     | NEvNodeMonitorDeleted n \<Rightarrow> onNodeMonitorDeleted e n t
     | NEvPeerNodeMonitorUpdated n m \<Rightarrow> onPeerNodeMonitorUpdated e n m t
     | NEvNodeFrozenFileRemoved \<Rightarrow> onNodeFrozenFileRemoved e t
     | NEvNodeFrozenFileUpdated at \<Rightarrow> onNodeFrozenFileUpdated e at t
     | NEvNodeRejoin nodes at upgrading \<Rightarrow> onNodeRejoin e nodes at upgrading t
     | NEvSetNodeMonitor c \<Rightarrow> onSetNodeMonitor e c t
     | NEvCmd \<Rightarrow>
         (case n_cmds t of
            [] \<Rightarrow> t
          | NCmdOrchestrate s new # l \<Rightarrow> n_onOrchestrate e s new (t\<lparr>n_cmds := l\<rparr>))
     | NEvStatsTicker \<Rightarrow> updateStats e t
     | NEvArbitratorTicker \<Rightarrow> refreshArbitrators t
     | NEvArbitratorsChecked g m \<Rightarrow> onArbitratorsChecked (g, m) t
     | NEvRejoinTicker \<Rightarrow> if n_rejoinTicker t = None then t else onRejoinGracePeriodExpire e t
     | NEvLastShutdownTicker \<Rightarrow> onLastShutdownFileTouchTicker e t
     | NEvCertTicker \<Rightarrow> refreshNodeIssues e (checkCert e t))"

definition n_worker_end :: "nenv \<Rightarrow> nmon \<Rightarrow> nmon" where
  "n_worker_end e t = n_emit NPubMonitorDeleted (touchLastShutdown e t)"

text \<open>
  A monitor that runs: the daemon starts on the flag file and the files it finds, then handles events
  in any order, each with any environment; the commands of the operator change the flag file.
\<close>

inductive nmon_reach :: "nmon \<Rightarrow> bool" where
  starts: "n_Start e (n_NewManager localhost frozenFile lastShutdown upgrade) = Some t \<Longrightarrow> nmon_reach (n_worker_begin e' t)"
| handles: "nmon_reach t \<Longrightarrow> nmon_reach (n_on_event e ev t)"
| flagged: "nmon_reach t \<Longrightarrow> nmon_reach (t\<lparr>n_frozenFile := s\<rparr>)"

end
