(* ===== verification/Nmon_Worker.thy ===== *)
theory Nmon_Worker
  imports Nmon
begin

text \<open>
  Properties of the worker of the node monitor: the orchestrations it names end once,
  how the rejoin period is left, and a freeze of the cluster runs to its end.
\<close>

section \<open>Orchestrations end once\<close>

definition accepted_ids :: "neffect list \<Rightarrow> nat list" where
  "accepted_ids l = concat (map (\<lambda>x. case x of NPubOrchestrationAccepted i _ _ _ \<Rightarrow> [i] | _ \<Rightarrow> []) l)"

definition ended_ids :: "neffect list \<Rightarrow> nat list" where
  "ended_ids l = concat (map (\<lambda>x. case x of NPubOrchestrationEnd p \<Rightarrow> [noe_ID p] | _ \<Rightarrow> []) l)"

definition pending_ids :: "nmon \<Rightarrow> nat list" where
  "pending_ids t = (case n_orchestrationPending t of None \<Rightarrow> [] | Some p \<Rightarrow> [noe_ID p])"

definition orch_ok :: "nmon \<Rightarrow> bool" where
  "orch_ok t = (accepted_ids (n_trace t) = ended_ids (n_trace t) @ pending_ids t
    \<and> nmo_OrchestrationID (n_state t) = (case n_orchestrationPending t of None \<Rightarrow> 0 | Some p \<Rightarrow> noe_ID p) \<and> 0 \<notin> set (pending_ids t))"

lemma ids_append [simp]: "accepted_ids (l @ l') = accepted_ids l @ accepted_ids l'" "ended_ids (l @ l') = ended_ids l @ ended_ids l'"
  "accepted_ids [] = []" "ended_ids [] = []"
  by (simp_all add: accepted_ids_def ended_ids_def)

text \<open>The effects that are neither the start nor the end of an orchestration.\<close>

definition quiet :: "neffect \<Rightarrow> bool" where
  "quiet x = (accepted_ids [x] = [] \<and> ended_ids [x] = [])"

lemma quiet_iff [simp]:
  "quiet x \<longleftrightarrow> (case x of NPubOrchestrationAccepted _ _ _ _ \<Rightarrow> False | NPubOrchestrationEnd _ \<Rightarrow> False | _ \<Rightarrow> True)"
  by (cases x) (simp_all add: quiet_def accepted_ids_def ended_ids_def)

named_theorems orch_keep "operations that keep a property of the monitor"

lemmas crm_defs = n_crmDrain_def n_crmFreeze_def n_crmFreezeCluster_def n_crmUnfreeze_def

text \<open>
  A property of the monitor the elementary operations keep: it reads the orchestration pending, the
  monitor, the trace and the commands posted, and survives a change of the monitor that keeps the
  orchestration it names, an effect that starts or ends none, adopting and ending an orchestration,
  posting the outcome of an action and taking it. The worker then keeps it on every event.
\<close>

locale nmon_keeps =
  fixes P :: "nmon \<Rightarrow> bool"
  assumes keep_cong: "P t \<Longrightarrow> n_orchestrationPending t' = n_orchestrationPending t \<Longrightarrow> n_state t' = n_state t \<Longrightarrow> n_trace t' = n_trace t \<Longrightarrow>
      n_cmds t' = n_cmds t \<Longrightarrow> P t'"
    and keep_state: "P t \<Longrightarrow> nmo_OrchestrationID m = nmo_OrchestrationID (n_state t) \<Longrightarrow> P (t\<lparr>n_state := m\<rparr>)"
    and keep_emit: "P t \<Longrightarrow> quiet x \<Longrightarrow> P (n_emit x t)"
    and keep_adopt: "P t \<Longrightarrow> P (n_adoptOrchestration i t)"
    and keep_end: "P t \<Longrightarrow> P (n_endOrchestration t)"
    and keep_post: "P t \<Longrightarrow> s \<in> {NodeStateFreezeSuccess, NodeStateFreezeProgress, NodeStateDrainProgress} \<Longrightarrow> P (n_post (NCmdOrchestrate s s') t)"
    and keep_take: "P t \<Longrightarrow> n_cmds t = c # l \<Longrightarrow> P (t\<lparr>n_cmds := l\<rparr>)"
begin

lemma ok_fields [simp]:
  "P (t\<lparr>n_prev := m'\<rparr>) = P t" "P (t\<lparr>n_change := b\<rparr>) = P t" "P (t\<lparr>n_config := c\<rparr>) = P t" "P (t\<lparr>n_prKeyPeers := l\<rparr>) = P t"
  "P (t\<lparr>n_certIssues := l\<rparr>) = P t" "P (t\<lparr>n_frozen := b\<rparr>) = P t" "P (t\<lparr>n_nodeMonitor := m\<rparr>) = P t"
  "P (t\<lparr>n_cluster := u\<rparr>) = P t" "P (t\<lparr>n_livePeers := l\<rparr>) = P t" "P (t\<lparr>n_arbitrators := a\<rparr>) = P t"
  "P (t\<lparr>n_arbitratorChecking := b\<rparr>) = P t" "P (t\<lparr>n_arbitratorRecheck := b\<rparr>) = P t"
  "P (t\<lparr>n_arbitratorGen := i\<rparr>) = P t" "P (t\<lparr>n_arbitratorFreshGen := i\<rparr>) = P t" "P (t\<lparr>n_checks := k\<rparr>) = P t"
  "P (t\<lparr>n_status := s\<rparr>) = P t" "P (t\<lparr>n_rejoinTicker := r\<rparr>) = P t" "P (t\<lparr>n_startedAt := w\<rparr>) = P t"
  "P (t\<lparr>n_upgrade := b\<rparr>) = P t" "P (t\<lparr>n_lastShutdown := w\<rparr>) = P t" "P (t\<lparr>n_frozenFile := f\<rparr>) = P t"
  "P (t\<lparr>n_hbSecret := h\<rparr>) = P t" "P (t\<lparr>n_hbRotating := b\<rparr>) = P t" "P (t\<lparr>n_hbRotatingAt := w\<rparr>) = P t"
  "P (t\<lparr>n_hbRotatingID := i\<rparr>) = P t" "P (t\<lparr>n_hbChecksums := q\<rparr>) = P t"
  by (auto elim: keep_cong)

lemma ok_set_state: "P t \<Longrightarrow> P (n_set_state s t)" "P t \<Longrightarrow> P (n_setGlobal g t)" "P t \<Longrightarrow> P (n_setLocal l t)"
  by (simp_all add: n_set_state_def n_setGlobal_def n_setLocal_def keep_state)

lemma ok_updateIfChange: "P t \<Longrightarrow> P (n_updateIfChange e t)"
  by (auto simp: n_updateIfChange_def n_update_def Let_def intro!: keep_emit keep_state)

lemma ok_transitionTo: "P t \<Longrightarrow> P (n_transitionTo e s t)"
  by (simp add: n_transitionTo_def ok_updateIfChange ok_set_state)

lemma ok_action: "P t \<Longrightarrow> P (snd (n_crmActionWithEnv e vars args t))"
  by (simp add: n_crmActionWithEnv_def Let_def keep_emit)

lemmas ok_quiet [orch_keep] =
  keep_emit keep_state keep_adopt keep_end keep_post ok_set_state ok_updateIfChange ok_transitionTo ok_action

lemma ok_publish [orch_keep]: "P t \<Longrightarrow> P (n_publishNodeStatus t)" "P t \<Longrightarrow> P (n_publishOrchestrationRefused i g t)"
  by (simp_all add: n_publishNodeStatus_def n_publishOrchestrationRefused_def keep_emit)

lemma ok_speaker [orch_keep]: "P t \<Longrightarrow> P (updateSpeakerAndPublish t)"
  by (simp add: updateSpeakerAndPublish_def updateSpeaker_def orch_keep)

lemma ok_doTransition [orch_keep]:
  "(\<And>t. P t \<Longrightarrow> P (snd (act t))) \<Longrightarrow> P t \<Longrightarrow> P (n_doTransitionAction e act a b c t)"
  by (auto simp: n_doTransitionAction_def case_prod_unfold intro!: orch_keep)

lemma ok_crm [orch_keep]: "P t \<Longrightarrow> P (snd (n_crmDrain e t))" "P t \<Longrightarrow> P (snd (n_crmFreeze e t))"
  "P t \<Longrightarrow> P (snd (n_crmFreezeCluster e t))" "P t \<Longrightarrow> P (snd (n_crmUnfreeze e t))"
  by (simp_all add: crm_defs orch_keep)

lemma ok_converge [orch_keep]: "P t \<Longrightarrow> P (n_convergeGlobalExpectFromRemote t)"
  by (auto simp: n_convergeGlobalExpectFromRemote_def n_alignEndedGlobalExpect_def Let_def case_prod_unfold intro!: orch_keep)

lemma ok_drained [orch_keep]: "P t \<Longrightarrow> P (n_orchestrateDrained e t)"
  by (auto simp: n_orchestrateDrained_def drainFromIdle_def drainFromFrozen_def Let_def case_prod_unfold intro!: orch_keep split: node_state.split)

lemma ok_global [orch_keep]: "P t \<Longrightarrow> P (n_orchestrateAborted e t)" "P t \<Longrightarrow> P (n_orchestrateFrozen e t)"
  "P t \<Longrightarrow> P (n_orchestrateUnfrozen e t)"
  by (auto simp: n_orchestrateAborted_def n_orchestrateFrozen_def n_orchestrateUnfrozen_def frozenClearIfReached_def
      unfrozenClearIfReached_def Let_def case_prod_unfold intro!: orch_keep split: node_state.split)

lemma ok_orchestrate [orch_keep]: "P t \<Longrightarrow> P (n_orchestrate e t)"
  by (auto simp: n_orchestrate_def Let_def intro!: orch_keep split: node_global_expect.split)

lemma ok_freeze [orch_keep]: "P t \<Longrightarrow> P (snd (nodeFreeze e t))"
  by (simp add: nodeFreeze_def)

lemma ok_arbitrators [orch_keep]: "P t \<Longrightarrow> P (refreshArbitrators t)" "P t \<Longrightarrow> P (updateStatusArbitrator m t)"
  "P t \<Longrightarrow> P (setArbitratorConfig e t)"
  by (auto simp: refreshArbitrators_def updateStatusArbitrator_def setArbitratorConfig_def intro!: orch_keep)

lemma ok_checkArbitrators [orch_keep]: "P t \<Longrightarrow> P (snd (checkArbitrators e m t))"
proof -
  have "P t \<Longrightarrow> P (foldl (\<lambda>t (_, a). if ne_arbitratorErr e a then n_emit (NPubArbitratorError (ab_Name a)) t else t) t m)"
    by (induction m arbitrary: t) (auto simp: keep_emit)
  then show "P t \<Longrightarrow> P (snd (checkArbitrators e m t))" by (simp add: checkArbitrators_def)
qed

lemma ok_forgetPeer [orch_keep]: "P t \<Longrightarrow> P (onForgetPeer e n t)"
  by (auto simp: onForgetPeer_def onSplit_def arbitratorVotes_def splitAction_def Let_def case_prod_unfold intro!: orch_keep)

lemma ok_overloaded [orch_keep]: "P t \<Longrightarrow> P (updateIsOverloadedAndPublish s t)"
  by (auto simp: updateIsOverloadedAndPublish_def updateIsOverloaded_def Let_def intro!: orch_keep)

lemma ok_stats [orch_keep]: "P t \<Longrightarrow> P (updateStats e t)"
  by (auto simp: updateStats_def intro!: orch_keep)

lemma ok_issues [orch_keep]: "P t \<Longrightarrow> P (refreshNodeIssues e t)" "P t \<Longrightarrow> P (checkPRKey e t)"
  "P t \<Longrightarrow> P (checkCert e t)"
  by (auto simp: refreshNodeIssues_def checkPRKey_def checkCert_def Let_def intro!: orch_keep)

lemma ok_loadConfig [orch_keep]: "P t \<Longrightarrow> P (snd (loadConfigAndPublish e t))"
  by (auto simp: loadConfigAndPublish_def n_loadConfig_def Let_def intro!: orch_keep split: option.split)

lemma ok_rejoin [orch_keep]: "P t \<Longrightarrow> P (startRejoin e t)" "P t \<Longrightarrow> P (checkRejoinTicker e t)"
  "P t \<Longrightarrow> P (onRejoinGracePeriodExpire e t)" "P t \<Longrightarrow> P (onHeartbeatMessageTypeUpdated e to nodes joined t)"
  "P t \<Longrightarrow> P (onNodeRejoin e nodes at upgrading t)"
  by (auto simp: startRejoin_def checkRejoinTicker_def onRejoinGracePeriodExpire_def onHeartbeatMessageTypeUpdated_def onNodeRejoin_def
      Let_def case_prod_unfold intro!: orch_keep)

lemma ok_request:
  "P t \<Longrightarrow> P (snd (n_doState c t))" "P t \<Longrightarrow> P (snd (n_doLocalExpect c t))"
  "P t \<Longrightarrow> P (snd (n_doGlobalExpect e c t))"
  by (auto simp: n_doState_def n_doLocalExpect_def n_doGlobalExpect_def n_resetFailedState_def Let_def intro!: orch_keep split: option.split)

lemma ok_setNodeMonitor [orch_keep]: "P t \<Longrightarrow> P (onSetNodeMonitor e c t)"
  by (auto simp: onSetNodeMonitor_def Let_def case_prod_unfold intro!: orch_keep ok_request)

lemma ok_secret [orch_keep]: "P t \<Longrightarrow> P (hbRotatingCheck e t)" "P t \<Longrightarrow> P (n_onInstanceConfigUpdated e n c t)"
  "P t \<Longrightarrow> P (onHeartbeatRotateRequest e i t)"
proof -
  show c: "P t \<Longrightarrow> P (hbRotatingCheck e t)" for t
    by (auto simp: hbRotatingCheck_def hbRotatingError_def Let_def intro!: orch_keep)
  show "P t \<Longrightarrow> P (n_onInstanceConfigUpdated e n c t)"
    by (auto simp: n_onInstanceConfigUpdated_def Let_def intro!: orch_keep c split: option.split)
  show "P t \<Longrightarrow> P (onHeartbeatRotateRequest e i t)"
    by (auto simp: onHeartbeatRotateRequest_def Let_def intro!: orch_keep)
qed

lemma ok_event: "P t \<Longrightarrow> P (n_on_event e ev t)"
  by (cases ev)
     (auto simp: n_on_event_def n_onClusterConfigUpdated_def onConfigFileUpdated_def onJoinRequest_def onLeaveRequest_def
        onCertChanged_def onPeerNodeConfigUpdated_def onNodeMonitorDeleted_def n_converge_def onPeerNodeMonitorUpdated_def
        onNodeFrozenFileRemoved_def onNodeFrozenFileUpdated_def onArbitratorsChecked_def onLastShutdownFileTouchTicker_def
        touchLastShutdown_def n_onOrchestrate_def Let_def case_prod_unfold intro!: orch_keep elim: keep_take split: list.split ncmd.split)

lemma ok_start: "n_Start e t = Some t' \<Longrightarrow> P t \<Longrightarrow> P t'"
  by (auto simp: n_Start_def Let_def case_prod_unfold intro!: orch_keep split: if_splits option.splits)

lemma ok_reach:
  assumes "\<And>localhost frozenFile lastShutdown upgrade. P (n_NewManager localhost frozenFile lastShutdown upgrade)"
  shows "nmon_reach t \<Longrightarrow> P t"
proof (induction rule: nmon_reach.induct)
  case (starts e localhost frozenFile lastShutdown upgrade t e')
  have "P t" using starts assms by (rule ok_start)
  then show ?case by (auto simp: n_worker_begin_def Let_def intro!: orch_keep)
qed (simp_all add: ok_event)

end

lemma ok_adopt: "orch_ok t \<Longrightarrow> orch_ok (n_adoptOrchestration i t)"
  by (auto simp: n_adoptOrchestration_def Let_def n_abortPendingOrchestration_def orch_ok_def pending_ids_def n_emit_def
      accepted_ids_def ended_ids_def n_setNextPendingOrchestration_def n_publishOrchestrationAccepted_def split: option.splits)

lemma ok_end: "orch_ok t \<Longrightarrow> orch_ok (n_endOrchestration t)"
  by (auto simp: n_endOrchestration_def Let_def orch_ok_def pending_ids_def n_emit_def accepted_ids_def ended_ids_def
      n_publishOrchestrationEnded_def split: option.splits)

interpretation orch: nmon_keeps orch_ok
proof
  show "orch_ok (n_emit x t)" if "orch_ok t" "quiet x" for t x
    using that by (simp only: quiet_def) (simp add: orch_ok_def pending_ids_def n_emit_def)
qed (simp_all add: ok_adopt ok_end, auto simp: orch_ok_def pending_ids_def n_post_def)

text \<open>The commands posted to the worker come from the states of an action that runs.\<close>

definition acting_cmd :: "ncmd \<Rightarrow> bool" where
  "acting_cmd c = (case c of NCmdOrchestrate s _ \<Rightarrow> s \<in> {NodeStateFreezeSuccess, NodeStateFreezeProgress, NodeStateDrainProgress})"

definition cmds_ok :: "nmon \<Rightarrow> bool" where
  "cmds_ok t = list_all acting_cmd (n_cmds t)"

interpretation cmds: nmon_keeps cmds_ok
proof
  show "cmds_ok (n_post (NCmdOrchestrate s s') t)"
    if "cmds_ok t" "s \<in> {NodeStateFreezeSuccess, NodeStateFreezeProgress, NodeStateDrainProgress}" for t s s'
    using that by (simp add: cmds_ok_def n_post_def acting_cmd_def)
qed (auto simp: cmds_ok_def n_emit_def n_post_def n_adoptOrchestration_def n_abortPendingOrchestration_def n_endOrchestration_def
        n_publishOrchestrationEnded_def n_setNextPendingOrchestration_def n_publishOrchestrationAccepted_def Let_def split: option.splits)

lemma orch_ok_new: "orch_ok (n_NewManager localhost frozenFile lastShutdown upgrade)"
  by (simp add: n_NewManager_def orch_ok_def pending_ids_def rejoin_monitor_def zero_nmonitor_def)

text \<open>
  C8. The orchestrations the node monitor accepts end once each, in the order it accepted them and
  before the next one is accepted: the ones published as accepted are the ones published as ended,
  followed by the one the monitor names while it runs it.
\<close>

theorem node_orchestrations_end_once:
  assumes "nmon_reach t"
  shows "accepted_ids (n_trace t) = ended_ids (n_trace t) @ (if nmo_OrchestrationID (n_state t) = 0 then [] else [nmo_OrchestrationID (n_state t)])"
  using orch.ok_reach [OF orch_ok_new assms] by (auto simp: orch_ok_def pending_ids_def split: option.splits)

section \<open>The rejoin period\<close>

text \<open>The operations that leave the monitor alone, or its state.\<close>

lemma state_emit [simp]: "n_state (n_emit x t) = n_state t"
  by (simp add: n_emit_def)

lemma state_publish [simp]: "n_state (n_publishNodeStatus t) = n_state t" "n_state (n_publishOrchestrationRefused i g t) = n_state t"
  "n_state (updateSpeakerAndPublish t) = n_state t" "n_state (updateIsOverloadedAndPublish s t) = n_state t" "n_state (updateStats e t) = n_state t"
  by (simp_all add: n_publishNodeStatus_def n_publishOrchestrationRefused_def updateSpeakerAndPublish_def updateSpeaker_def
      updateIsOverloadedAndPublish_def updateIsOverloaded_def updateStats_def Let_def)

lemma state_issues [simp]: "n_state (refreshNodeIssues e t) = n_state t" "n_state (checkPRKey e t) = n_state t" "n_state (checkCert e t) = n_state t"
  "n_state (snd (loadConfigAndPublish e t)) = n_state t"
  by (auto simp: refreshNodeIssues_def checkPRKey_def checkCert_def loadConfigAndPublish_def n_loadConfig_def Let_def split: option.split)

lemma state_arbitrators [simp]: "n_state (refreshArbitrators t) = n_state t" "n_state (updateStatusArbitrator m t) = n_state t"
  "n_state (setArbitratorConfig e t) = n_state t" "n_state (snd (checkArbitrators e a t)) = n_state t"
  using check_frame [of e a t]
  by (auto simp: refreshArbitrators_def updateStatusArbitrator_def setArbitratorConfig_def)

lemma state_forgetPeer [simp]: "n_state (onForgetPeer e n t) = n_state t"
  by (simp add: onForgetPeer_def onSplit_def arbitratorVotes_def splitAction_def Let_def case_prod_unfold)

lemma state_secret [simp]: "n_state (hbRotatingCheck e t) = n_state t" "n_state (n_onInstanceConfigUpdated e n c t) = n_state t"
  "n_state (onHeartbeatRotateRequest e i t) = n_state t"
proof -
  show c: "n_state (hbRotatingCheck e t) = n_state t" for t by (simp add: hbRotatingCheck_def hbRotatingError_def Let_def)
  show "n_state (n_onInstanceConfigUpdated e n c t) = n_state t" "n_state (onHeartbeatRotateRequest e i t) = n_state t"
    by (simp_all add: n_onInstanceConfigUpdated_def onHeartbeatRotateRequest_def Let_def c split: option.split)
qed

lemma nstate_updateIfChange [simp]: "nstate (n_updateIfChange e t) = nstate t"
  by (simp add: n_updateIfChange_def n_update_def Let_def)

lemma nstate_adopt [simp]: "nstate (n_adoptOrchestration i t) = nstate t"
  by (simp add: n_adoptOrchestration_def n_abortPendingOrchestration_def n_publishOrchestrationAccepted_def n_setNextPendingOrchestration_def
      Let_def split: option.split)

lemma rejoin_orchestrate [simp]: "nstate t = NodeStateRejoin \<Longrightarrow> n_orchestrate e t = t"
  by (simp add: n_orchestrate_def)

lemma rejoin_not_failed: "nstate t = NodeStateRejoin \<Longrightarrow> \<not> isStateFailed t"
  by (simp add: isStateFailed_def node_State_String_def node_StateStrings_def lkp_def HasSuffix_def)

lemma rejoin_converge: "nstate t = NodeStateRejoin \<Longrightarrow> nstate (n_convergeGlobalExpectFromRemote t) = NodeStateRejoin"
  by (simp add: n_convergeGlobalExpectFromRemote_def n_alignEndedGlobalExpect_def Let_def case_prod_unfold rejoin_not_failed)

lemma rejoin_n_converge: "nstate t = NodeStateRejoin \<Longrightarrow> nstate (n_converge e t) = NodeStateRejoin"
  by (simp add: n_converge_def rejoin_converge)

lemma rejoin_request:
  assumes "nstate t = NodeStateRejoin" and "nmu_State c = None"
  shows "nstate (onSetNodeMonitor e c t) = NodeStateRejoin"
proof -
  have r: "nstate (n_resetFailedState c u) = NodeStateRejoin" if "nstate u = NodeStateRejoin" for u
    using that by (simp add: n_resetFailedState_def rejoin_not_failed)
  have l: "nstate (snd (n_doLocalExpect c u)) = NodeStateRejoin" if "nstate u = NodeStateRejoin" for u
    using that by (auto simp: n_doLocalExpect_def n_setLocal_def intro!: r split: option.split)
  have g: "nstate (snd (n_doGlobalExpect e c u)) = NodeStateRejoin" if "nstate u = NodeStateRejoin" for u
    using that by (auto simp: n_doGlobalExpect_def n_setGlobal_def Let_def intro!: r split: option.split)
  show ?thesis using assms g [OF l [OF assms(1)]] by (simp add: onSetNodeMonitor_def n_doState_def case_prod_unfold Let_def)
qed

lemma rejoin_cmd:
  assumes "cmds_ok t" and "nstate t = NodeStateRejoin"
  shows "nstate (n_on_event e NEvCmd t) = NodeStateRejoin"
  using assms by (auto simp: n_on_event_def n_onOrchestrate_def cmds_ok_def acting_cmd_def split: list.split ncmd.split)

lemma freeze_flag: "\<not> ne_openErr e \<Longrightarrow> sl_file (n_frozenFile (snd (nodeFreeze e t))) \<noteq> None"
  by (auto simp: nodeFreeze_def flag_At_def flag_create_def split: option.splits)

lemma flag_transition [simp]: "n_frozenFile (n_transitionTo e s t) = n_frozenFile t"
  by (simp add: n_transitionTo_def n_updateIfChange_def n_update_def n_set_state_def n_emit_def Let_def)

lemma rejoin_expire_flag: "\<not> ne_openErr e \<Longrightarrow> sl_file (n_frozenFile (onRejoinGracePeriodExpire e t)) \<noteq> None"
  using freeze_flag [of e t] by (auto simp: onRejoinGracePeriodExpire_def case_prod_unfold)

text \<open>
  C10. A node monitor leaves the rejoin period, during which no instance is orchestrated on the node,
  only when every node of the cluster has joined, when the grace period ends, the node then being
  frozen unless the flag file could not be created, or when a request sets its state.
\<close>

theorem rejoin_left:
  assumes "nmon_reach t" and "nstate t = NodeStateRejoin" and "nstate (n_on_event e ev t) \<noteq> NodeStateRejoin"
  shows "(\<exists>nodes joined. ev = NEvHeartbeatMessageTypeUpdated ''patch'' nodes joined \<and> missingNodes nodes joined = [])
    \<or> (\<exists>c s. ev = NEvSetNodeMonitor c \<and> nmu_State c = Some s)
    \<or> ev = NEvRejoinTicker \<and> (sl_file (n_frozenFile (n_on_event e ev t)) \<noteq> None \<or> ne_openErr e)"
proof -
  have c: "cmds_ok t" using assms(1) by (rule cmds.ok_reach [rotated]) (simp add: cmds_ok_def n_NewManager_def)
  show ?thesis
    using assms(2,3) rejoin_cmd [OF c assms(2)]
  proof (cases ev)
    case (NEvSetNodeMonitor u)
    then show ?thesis using assms(2,3) rejoin_request [of t u e] by (auto simp: n_on_event_def)
  next
    case NEvRejoinTicker
    then show ?thesis using assms(2,3) rejoin_expire_flag [of e t] by (auto simp: n_on_event_def)
  qed (auto simp: n_on_event_def n_onClusterConfigUpdated_def checkRejoinTicker_def onConfigFileUpdated_def onJoinRequest_def
      onLeaveRequest_def onHeartbeatMessageTypeUpdated_def onCertChanged_def onPeerNodeConfigUpdated_def onNodeMonitorDeleted_def
      onPeerNodeMonitorUpdated_def onNodeFrozenFileRemoved_def onNodeFrozenFileUpdated_def onNodeRejoin_def nodeFreeze_def
      onArbitratorsChecked_def onLastShutdownFileTouchTicker_def Let_def case_prod_unfold rejoin_n_converge split: if_splits)
qed

text \<open>
  The error of creating the flag file is read only when the file was created: when it could not be,
  the monitor goes idle with the node not frozen.
\<close>

lemma rejoin_expires_unfrozen:
  assumes "sl_file (n_frozenFile t) = None" and "ne_openErr e"
  shows "nstate (onRejoinGracePeriodExpire e t) = NodeStateIdle \<and> sl_file (n_frozenFile (onRejoinGracePeriodExpire e t)) = None
    \<and> n_rejoinTicker (onRejoinGracePeriodExpire e t) = None"
  using assms
  by (simp add: onRejoinGracePeriodExpire_def nodeFreeze_def flag_At_def n_transitionTo_def n_set_state_def)
     (simp add: n_updateIfChange_def n_update_def n_emit_def Let_def)

text \<open>A node that rejoins at once reads the variable of the upgrade after it unset it.\<close>

lemma immediate_rejoin_forgets_upgrade:
  assumes "ne_hbMessageType e = (''patch'', nodes, joined)" and "missingNodes nodes joined = []"
  shows "last (n_trace (startRejoin e t)) = NPubRejoin nodes (n_lastShutdown t) False"
  using assms
  by (simp add: startRejoin_def Let_def n_emit_def)
     (simp add: n_transitionTo_def n_updateIfChange_def n_update_def n_set_state_def n_emit_def Let_def)

section \<open>Freezing the cluster\<close>

lemma transition_fields:
  "nstate (n_transitionTo e s t) = s" "nglobal (n_transitionTo e s t) = nglobal t" "nmo_LocalExpect (n_state (n_transitionTo e s t)) = nmo_LocalExpect (n_state t)"
  "nmo_GlobalExpectUpdatedAt (n_state (n_transitionTo e s t)) = nmo_GlobalExpectUpdatedAt (n_state t)"
  "nmo_OrchestrationID (n_state (n_transitionTo e s t)) = nmo_OrchestrationID (n_state t)" "n_status (n_transitionTo e s t) = n_status t"
  "n_localhost (n_transitionTo e s t) = n_localhost t" "n_change (n_transitionTo e s t) = False"
  "n_orchestrationPending (n_transitionTo e s t) = n_orchestrationPending t"
  by (simp_all add: n_transitionTo_def n_updateIfChange_def n_update_def n_set_state_def n_emit_def Let_def)

lemma transition_trace: "\<exists>m. n_trace (n_transitionTo e s t) = n_trace t @ [NPubMonitorUpdated m]"
  by (simp add: n_transitionTo_def n_updateIfChange_def n_update_def n_set_state_def n_emit_def Let_def)

lemma converged_others:
  "n_isConvergedGlobalExpect t \<longleftrightarrow> (\<forall>(n, m) \<in> set (n_nodeMonitor t). n \<noteq> n_localhost t \<longrightarrow> nmo_GlobalExpectUpdatedAt (n_state t) \<le> nmo_GlobalExpectUpdatedAt m)"
  by (auto simp: n_isConvergedGlobalExpect_def list_all_iff)

lemma converged_transition: "n_isConvergedGlobalExpect t \<Longrightarrow> n_isConvergedGlobalExpect (n_transitionTo e s t)"
proof -
  have "\<exists>m. n_nodeMonitor (n_transitionTo e s t) = AList.update (n_localhost t) m (n_nodeMonitor t)"
    by (auto simp: n_transitionTo_def n_updateIfChange_def n_update_def n_set_state_def n_emit_def Let_def)
  then obtain m where "n_nodeMonitor (n_transitionTo e s t) = AList.update (n_localhost t) m (n_nodeMonitor t)" ..
  then show "n_isConvergedGlobalExpect t \<Longrightarrow> n_isConvergedGlobalExpect (n_transitionTo e s t)"
    using set_update_subset [of "n_localhost t" m "n_nodeMonitor t"] by (fastforce simp: converged_others transition_fields)
qed

definition freezeCmd :: "neffect" where
  "freezeCmd = NExec [''OSVC_FREEZE_SCOPE=cluster''] [''node'', ''freeze''] 0"

lemma updateIfChange_same: "\<not> n_change t \<Longrightarrow> n_updateIfChange e t = t"
  by (simp add: n_updateIfChange_def)

lemma freeze_runs:
  assumes "nstate t = NodeStateIdle" and "nglobal t = NodeGlobalExpectFrozen" and "nmo_LocalExpect (n_state t) \<noteq> NodeLocalExpectDrained"
    and "n_isConvergedGlobalExpect t" and "nst_FrozenAt (n_status t) = 0"
  shows "n_orchestrate e t = (let u = n_transitionTo e NodeStateFreezeProgress t; code = ne_exit e (length (n_trace u)) [''node'', ''freeze'']
    in n_transitionTo e (if code \<noteq> 0 then NodeStateFreezeFailure else NodeStateFreezeSuccess)
         (n_emit (NExec [''OSVC_FREEZE_SCOPE=cluster''] [''node'', ''freeze''] code) u))"
  using assms
  by (simp add: n_orchestrate_def n_orchestrateFrozen_def frozenClearIfReached_def n_doTransitionAction_def n_crmFreezeCluster_def
      n_crmActionWithEnv_def Let_def updateIfChange_same transition_fields)

text \<open>
  C34. A node that runs the freeze of the cluster forks the freeze command with the scope of the
  cluster, and when the command succeeds and the flag is seen, the monitor is idle again with no
  global expectation and no orchestration.
\<close>

theorem cluster_freeze_completes:
  assumes "nstate t = NodeStateIdle" and "nglobal t = NodeGlobalExpectFrozen" and "nmo_LocalExpect (n_state t) = NodeLocalExpectNone"
    and "n_isConvergedGlobalExpect t" and "nst_FrozenAt (n_status t) = 0" and "ne_exit e (length (n_trace t) + 1) [''node'', ''freeze''] = 0" and "at \<noteq> 0"
  shows "(let u = n_orchestrate e t; v = onNodeFrozenFileUpdated e' at u
    in freezeCmd \<in> set (n_trace u) \<and> nstate v = NodeStateIdle \<and> nglobal v = NodeGlobalExpectNone \<and> nmo_OrchestrationID (n_state v) = 0
      \<and> n_orchestrationPending v = None \<and> last (n_trace v) = NPubMonitorUpdated (n_state v))"
proof -
  define u where "u = n_orchestrate e t"
  obtain m where m: "n_trace (n_transitionTo e NodeStateFreezeProgress t) = n_trace t @ [NPubMonitorUpdated m]"
    using transition_trace by blast
  have u: "u = n_transitionTo e NodeStateFreezeSuccess (n_emit freezeCmd (n_transitionTo e NodeStateFreezeProgress t))"
    using freeze_runs [OF assms(1,2) _ assms(4,5), of e] assms(3,6) m by (simp add: u_def Let_def freezeCmd_def)
  obtain m' where m': "n_trace u = n_trace (n_emit freezeCmd (n_transitionTo e NodeStateFreezeProgress t)) @ [NPubMonitorUpdated m']"
    using transition_trace u by blast
  then have r: "freezeCmd \<in> set (n_trace u)" by (simp add: n_emit_def)
  have "n_isConvergedGlobalExpect (n_emit freezeCmd (n_transitionTo e NodeStateFreezeProgress t))"
    using converged_transition [OF assms(4), of e NodeStateFreezeProgress] by (simp add: n_isConvergedGlobalExpect_def n_emit_def)
  then have c: "n_isConvergedGlobalExpect u" using u converged_transition by simp
  have f: "nstate u = NodeStateFreezeSuccess" "nglobal u = NodeGlobalExpectFrozen" "nmo_LocalExpect (n_state u) = NodeLocalExpectNone"
    using assms(2,3) u by (simp_all add: transition_fields)
  define w where "w = n_publishNodeStatus (n_emit (NPubFrozen True at)
      (u\<lparr>n_frozen := True, n_status := (n_status u)\<lparr>nst_FrozenAt := at, nst_FrozenScope := nodeFrozenScope u\<rparr>\<rparr>))"
  have w: "n_state w = n_state u" "nst_FrozenAt (n_status w) = at" "n_isConvergedGlobalExpect w"
    using c by (simp_all add: w_def n_publishNodeStatus_def n_emit_def n_isConvergedGlobalExpect_def)
  have v: "onNodeFrozenFileUpdated e' at u = n_updateIfChange e'
      ((n_set_state NodeStateIdle (n_endOrchestration (n_setGlobal NodeGlobalExpectNone w)))\<lparr>n_change := True\<rparr>)"
    using w f assms(7) by (simp add: onNodeFrozenFileUpdated_def Let_def w_def [symmetric] n_orchestrate_def n_orchestrateFrozen_def frozenClearIfReached_def)
  show ?thesis unfolding Let_def u_def [symmetric] v using r
    by (auto simp: n_updateIfChange_def n_update_def n_set_state_def n_emit_def Let_def n_endOrchestration_def n_setGlobal_def
        n_publishOrchestrationEnded_def split: option.splits)
qed

text \<open>
  A freeze of the cluster whose command failed on a node never ends there: whatever the node sees
  of its flag afterwards, the monitor keeps the global expectation and the orchestration, until a
  request changes them.
\<close>

lemma failed_freeze_never_ends:
  assumes "nstate t = NodeStateFreezeFailure" and "nglobal t = NodeGlobalExpectFrozen" and "nmo_LocalExpect (n_state t) = NodeLocalExpectNone"
  shows "nstate (onNodeFrozenFileUpdated e at t) = NodeStateFreezeFailure \<and> nglobal (onNodeFrozenFileUpdated e at t) = NodeGlobalExpectFrozen
    \<and> nmo_OrchestrationID (n_state (onNodeFrozenFileUpdated e at t)) = nmo_OrchestrationID (n_state t)"
  using assms
  by (auto simp: onNodeFrozenFileUpdated_def Let_def n_orchestrate_def n_orchestrateFrozen_def n_updateIfChange_def n_update_def)

section \<open>A run of the monitor\<close>

text \<open>The node \<open>n1\<close> of a cluster of two starts, sees its peer join, and is asked to drain.\<close>

definition w_env2 :: nenv where
  "w_env2 = (w_env [])\<lparr>ne_config := Some (zero_nconfig\<lparr>nc_RejoinGracePeriod := 90 * second\<rparr>), ne_initialNodes := [''n1'', ''n2''],
    ne_cluster := Some \<lparr>ncl_Nodes = [''n1'', ''n2''], ncl_Quorum = True\<rparr>\<rparr>"

definition w_started :: nmon where
  "w_started = n_worker_begin w_env2 (the (n_Start w_env2 (n_NewManager ''n1'' \<lparr>sl_file = None, sl_next = 0\<rparr> 0 False)))"

definition w_joined :: nmon where
  "w_joined = n_on_event w_env2 (NEvHeartbeatMessageTypeUpdated ''patch'' [''n1'', ''n2''] [''n1'', ''n2'']) w_started"

definition w_draining :: nmon where
  "w_draining = n_on_event w_env2 (NEvSetNodeMonitor
    \<lparr>nmu_State = None, nmu_LocalExpect = Some NodeLocalExpectDrained, nmu_GlobalExpect = None, nmu_CandidateOrchestrationID = 7\<rparr>) w_joined"

lemma w_started_reach: "nmon_reach w_started"
proof -
  have "\<not> Option.is_none (n_Start w_env2 (n_NewManager ''n1'' \<lparr>sl_file = None, sl_next = 0\<rparr> 0 False))" by code_simp
  then show ?thesis unfolding w_started_def by (auto simp: Option.is_none_def intro: nmon_reach.starts)
qed

lemma w_draining_reach: "nmon_reach w_draining"
  unfolding w_draining_def w_joined_def by (intro nmon_reach.handles w_started_reach)

lemma w_run: "nstate w_started = NodeStateRejoin" "nstate w_joined = NodeStateIdle" "accepted_ids (n_trace w_draining) = [7]"
  by code_simp+

theorem node_orchestrations_end_once_witness:
  "[7] = ended_ids (n_trace w_draining) @ (if nmo_OrchestrationID (n_state w_draining) = 0 then [] else [nmo_OrchestrationID (n_state w_draining)])"
  using node_orchestrations_end_once [OF w_draining_reach] w_run(3) by simp

theorem rejoin_left_witness:
  "(\<exists>nodes joined. NEvHeartbeatMessageTypeUpdated ''patch'' [''n1'', ''n2''] [''n1'', ''n2''] = NEvHeartbeatMessageTypeUpdated ''patch'' nodes joined
      \<and> missingNodes nodes joined = [])
    \<or> (\<exists>c s. NEvHeartbeatMessageTypeUpdated ''patch'' [''n1'', ''n2''] [''n1'', ''n2''] = NEvSetNodeMonitor c \<and> nmu_State c = Some s)
    \<or> NEvHeartbeatMessageTypeUpdated ''patch'' [''n1'', ''n2''] [''n1'', ''n2''] = NEvRejoinTicker
      \<and> (sl_file (n_frozenFile w_joined) \<noteq> None \<or> ne_openErr w_env2)"
  unfolding w_joined_def
  by (rule rejoin_left [OF w_started_reach]) (use w_run in \<open>simp_all add: w_joined_def\<close>)

definition w_freezing :: nmon where
  "w_freezing = w_joined\<lparr>n_state := (n_state w_joined)\<lparr>nmo_GlobalExpect := NodeGlobalExpectFrozen, nmo_OrchestrationID := 9\<rparr>\<rparr>"

theorem cluster_freeze_completes_witness:
  "(let u = n_orchestrate w_env2 w_freezing; v = onNodeFrozenFileUpdated w_env2 50 u
    in freezeCmd \<in> set (n_trace u) \<and> nstate v = NodeStateIdle \<and> nglobal v = NodeGlobalExpectNone \<and> nmo_OrchestrationID (n_state v) = 0
      \<and> n_orchestrationPending v = None \<and> last (n_trace v) = NPubMonitorUpdated (n_state v))"
proof -
  have "nstate w_freezing = NodeStateIdle" "nglobal w_freezing = NodeGlobalExpectFrozen" "nmo_LocalExpect (n_state w_freezing) = NodeLocalExpectNone"
      "n_isConvergedGlobalExpect w_freezing" "nst_FrozenAt (n_status w_freezing) = 0"
    by code_simp+
  then show ?thesis by (rule cluster_freeze_completes) (simp_all add: w_env2_def w_env_def)
qed

end
