(* ===== verification/Rbac.thy ===== *)
theory Rbac
  imports Naming
begin

text \<open>
  The grants of the users, \<open>daemon/rbac\<close>, the checks of the API (\<open>daemon/daemonapi/lib_rbac.go\<close>), the
  grants of a token (\<open>lib_auth.go\<close>) and the writes of the users. A grant is a text, a role alone or a
  role and a scope, the name of a namespace.
\<close>

type_synonym role = string
type_synonym grant = string

section \<open>Roles and grants\<close>

definition RoleRoot :: role where "RoleRoot = ''root''"
definition RoleAdmin :: role where "RoleAdmin = ''admin''"
definition RoleOperator :: role where "RoleOperator = ''operator''"
definition RoleGuest :: role where "RoleGuest = ''guest''"
definition RoleSquatter :: role where "RoleSquatter = ''squatter''"
definition RoleJoin :: role where "RoleJoin = ''join''"

lemmas role_defs = RoleRoot_def RoleAdmin_def RoleOperator_def RoleGuest_def RoleSquatter_def RoleJoin_def

definition roleMap :: "role list" where
  "roleMap = ['''', ''root'', ''admin'', ''operator'', ''prioritizer'', ''guest'', ''squatter'', ''blacklistadmin'', ''heartbeat'', ''join'', ''leave'']"

definition ParseRole :: "string \<Rightarrow> role" where
  "ParseRole s = (if s \<in> set roleMap then s else [])"

definition NewGrant :: "role \<Rightarrow> string \<Rightarrow> grant" where
  "NewGrant r scope = (if scope = [] then r else r @ '':'' @ scope)"

definition grant_Split :: "grant \<Rightarrow> role \<times> string" where
  "grant_Split g = (case Cut (CHR '':'') g of None \<Rightarrow> (g, []) | Some (r, s) \<Rightarrow> (r, s))"

definition grant_Role :: "grant \<Rightarrow> role" where "grant_Role g = fst (grant_Split g)"
definition grant_Scope :: "grant \<Rightarrow> string" where "grant_Scope g = snd (grant_Split g)"

definition SplitGrant :: "grant \<Rightarrow> role \<times> string" where
  "SplitGrant g = (ParseRole (grant_Role g), grant_Scope g)"

definition HasGrant :: "grant list \<Rightarrow> grant list \<Rightarrow> bool" where
  "HasGrant t l = list_ex (\<lambda>u. u \<in> set l) t"

definition HasRole :: "grant list \<Rightarrow> role list \<Rightarrow> bool" where
  "HasRole t l = list_ex (\<lambda>u. grant_Role u \<in> set l) t"

definition HasRoleOn :: "grant list \<Rightarrow> string \<Rightarrow> role list \<Rightarrow> bool" where
  "HasRoleOn t scope roles = list_ex (\<lambda>r. HasGrant t [NewGrant r scope]) roles"

definition AssertRoleOn :: "grant list \<Rightarrow> string \<Rightarrow> role list \<Rightarrow> bool" where
  "AssertRoleOn t scope roles = (if scope \<noteq> [] then HasRoleOn t [] roles \<or> HasRoleOn t scope roles else HasRoleOn t scope roles)"

text \<open>The namespaces come out of a map, in any order.\<close>

definition Namespaces :: "grant list \<Rightarrow> role list \<Rightarrow> string list" where
  "Namespaces t roles =
    remdups (map grant_Scope (filter (\<lambda>g. grant_Scope g \<noteq> [] \<and> (roles = [] \<or> fst (SplitGrant g) \<in> set roles)) t))"

definition IsScopedRole :: "role \<Rightarrow> bool" where
  "IsScopedRole r = (r \<in> {RoleAdmin, RoleOperator, RoleGuest})"

section \<open>The grants of a token\<close>

definition filterRole :: "grant list \<Rightarrow> role \<Rightarrow> grant list" where
  "filterRole t role =
    (let grant = NewGrant role []
     in if HasRole t [RoleRoot] then [grant]
        else if role = RoleGuest then
          (if HasRoleOn t [] [RoleOperator, RoleAdmin, RoleGuest] then [grant]
           else map (NewGrant role) (Namespaces t [RoleAdmin, RoleOperator, RoleGuest]))
        else if role = RoleOperator then
          (if HasRoleOn t [] [RoleAdmin, RoleOperator] then [grant] else map (NewGrant role) (Namespaces t [RoleAdmin, RoleOperator]))
        else if role = RoleAdmin then
          (if HasRoleOn t [] [RoleAdmin] then [grant] else map (NewGrant role) (Namespaces t [RoleAdmin]))
        else if HasGrant t [grant] then [grant] else [])"

definition filterGrant :: "grant list \<Rightarrow> grant \<Rightarrow> grant list" where
  "filterGrant t grant =
    (let role = grant_Role grant; scope = grant_Scope grant
     in if HasRole t [RoleRoot] then [grant]
        else if HasGrant t [grant] then [grant]
        else if role = RoleGuest \<and> (HasRoleOn t scope [RoleOperator, RoleAdmin] \<or> HasRoleOn t [] [RoleOperator, RoleAdmin]) then [grant]
        else if role = RoleOperator \<and> (HasRoleOn t scope [RoleAdmin] \<or> HasRoleOn t [] [RoleAdmin]) then [grant]
        else if role = RoleAdmin \<and> HasRoleOn t [] [RoleAdmin] then [grant]
        else [])"

definition filterScope :: "grant list \<Rightarrow> string \<Rightarrow> grant list" where
  "filterScope t scope =
    (if HasRole t [RoleRoot] then [NewGrant RoleAdmin scope]
     else if HasRoleOn t scope [RoleAdmin] \<or> HasRoleOn t [] [RoleAdmin] then [NewGrant RoleAdmin scope]
     else if HasRoleOn t scope [RoleOperator] \<or> HasRoleOn t [] [RoleOperator] then [NewGrant RoleOperator scope]
     else if HasRoleOn t scope [RoleGuest] \<or> HasRoleOn t [] [RoleGuest] then [NewGrant RoleGuest scope]
     else [])"

definition FilterGrantStrings :: "grant list \<Rightarrow> role list \<Rightarrow> string \<Rightarrow> grant list" where
  "FilterGrantStrings allowed roles scope =
    (if roles = [] \<and> scope = [] then allowed
     else if roles \<noteq> [] \<and> scope \<noteq> [] then concat (map (\<lambda>r. filterGrant allowed (NewGrant r scope)) roles)
     else if roles \<noteq> [] then concat (map (filterRole allowed) roles)
     else filterScope allowed scope)"

text \<open>
  A request for a token names roles, one unknown being refused, and a scope; None is the refusal.
\<close>

definition token_grants :: "grant list \<Rightarrow> string list option \<Rightarrow> string option \<Rightarrow> grant list option" where
  "token_grants allowed roles scope =
    (let l = (case roles of None \<Rightarrow> [] | Some l \<Rightarrow> l)
     in if list_ex (\<lambda>r. ParseRole r = []) l then None
        else Some (FilterGrantStrings allowed (map ParseRole l) (case scope of None \<Rightarrow> [] | Some s \<Rightarrow> s)))"

section \<open>Giving grants\<close>

definition Covers :: "grant list \<Rightarrow> grant \<Rightarrow> bool" where
  "Covers t g =
    (if HasRole t [RoleRoot] then True
     else case SplitGrant g of (role, scope) \<Rightarrow>
       if HasGrant t [g] then True
       else if scope \<noteq> [] \<and> IsScopedRole role then HasGrant t [NewGrant role []] else False)"

definition Uncovered :: "grant list \<Rightarrow> grant list \<Rightarrow> grant list" where
  "Uncovered t l = filter (\<lambda>g. \<not> Covers t g) l"

text \<open>The keywords of the configuration of a user that say what the user may do.\<close>

record usr_config =
  uc_grant :: "grant list"
  uc_cn :: string
  uc_uxuser :: "string list"

datatype rbac_error = DeniedGrant "grant list" | DeniedCN | DeniedUXUser

definition usrRbac :: "grant list \<Rightarrow> path \<Rightarrow> usr_config option \<Rightarrow> usr_config \<Rightarrow> rbac_error option" where
  "usrRbac grants p from to =
    (if p_Kind p \<noteq> KindUsr then None
     else
       let held = (case from of None \<Rightarrow> [] | Some c \<Rightarrow> uc_grant c);
           heldCN = (case from of None \<Rightarrow> p_Name p | Some c \<Rightarrow> uc_cn c);
           heldUX = (case from of None \<Rightarrow> [] | Some c \<Rightarrow> Join '' '' (uc_uxuser c));
           l = Uncovered grants (filter (\<lambda>g. g \<notin> set held) (uc_grant to))
       in if l \<noteq> [] then Some (DeniedGrant l)
          else if uc_cn to \<noteq> heldCN then Some DeniedCN
          else if Join '' '' (uc_uxuser to) \<noteq> heldUX then Some DeniedUXUser
          else None)"

text \<open>The keys of a user, its password and its certificate: the writer answers for the grants of the user.\<close>

definition assertUsrKeyWrite :: "grant list \<Rightarrow> path \<Rightarrow> usr_config option \<Rightarrow> bool" where
  "assertUsrKeyWrite grants p cfg =
    (if p_Kind p \<noteq> KindUsr then True
     else if HasGrant grants [NewGrant RoleRoot []] then True
     else case cfg of None \<Rightarrow> False | Some c \<Rightarrow> Uncovered grants (uc_grant c) = [])"

section \<open>The checks of the API\<close>

definition assertGuest :: "grant list \<Rightarrow> string \<Rightarrow> bool" where
  "assertGuest t ns = HasGrant t [NewGrant RoleGuest ns, NewGrant RoleOperator ns, NewGrant RoleAdmin ns, NewGrant RoleGuest [],
    NewGrant RoleOperator [], NewGrant RoleAdmin [], NewGrant RoleJoin [], NewGrant RoleRoot []]"

definition assertOperator :: "grant list \<Rightarrow> string \<Rightarrow> bool" where
  "assertOperator t ns = HasGrant t [NewGrant RoleOperator ns, NewGrant RoleAdmin ns, NewGrant RoleOperator [], NewGrant RoleAdmin [], NewGrant RoleRoot []]"

definition assertAdmin :: "grant list \<Rightarrow> string \<Rightarrow> bool" where
  "assertAdmin t ns = HasGrant t [NewGrant RoleAdmin ns, NewGrant RoleAdmin [], NewGrant RoleRoot []]"

definition assertNamespaceConfigWriter :: "grant list \<Rightarrow> bool" where
  "assertNamespaceConfigWriter t = HasGrant t [NewGrant RoleSquatter [], NewGrant RoleRoot []]"

definition assertRoot :: "grant list \<Rightarrow> bool" where
  "assertRoot t = HasGrant t [NewGrant RoleRoot []]"

definition hasRoleGuestOn :: "grant list \<Rightarrow> string \<Rightarrow> bool" where
  "hasRoleGuestOn t ns = AssertRoleOn t ns [RoleGuest, RoleOperator, RoleAdmin]"

definition hasRoleOperatorOn :: "grant list \<Rightarrow> string \<Rightarrow> bool" where
  "hasRoleOperatorOn t ns = AssertRoleOn t ns [RoleOperator, RoleAdmin]"

definition hasRoleAdminOn :: "grant list \<Rightarrow> string \<Rightarrow> bool" where
  "hasRoleAdminOn t ns = AssertRoleOn t ns [RoleAdmin]"

section \<open>No more than one holds\<close>

datatype api_check = ChkGuest string | ChkOperator string | ChkAdmin string | ChkNamespaceConfigWriter | ChkRoot

fun passes :: "grant list \<Rightarrow> api_check \<Rightarrow> bool" where
  "passes t (ChkGuest ns) = assertGuest t ns"
| "passes t (ChkOperator ns) = assertOperator t ns"
| "passes t (ChkAdmin ns) = assertAdmin t ns"
| "passes t ChkNamespaceConfigWriter = assertNamespaceConfigWriter t"
| "passes t ChkRoot = assertRoot t"

lemmas check_defs = assertGuest_def assertOperator_def assertAdmin_def assertNamespaceConfigWriter_def assertRoot_def

text \<open>What a role on a scope is let through.\<close>

fun lets :: "role \<Rightarrow> string \<Rightarrow> api_check \<Rightarrow> bool" where
  "lets r s (ChkGuest ns) = (IsScopedRole r \<and> (s = ns \<or> s = []) \<or> r \<in> {RoleJoin, RoleRoot} \<and> s = [])"
| "lets r s (ChkOperator ns) = (r \<in> {RoleOperator, RoleAdmin} \<and> (s = ns \<or> s = []) \<or> r = RoleRoot \<and> s = [])"
| "lets r s (ChkAdmin ns) = (r = RoleAdmin \<and> (s = ns \<or> s = []) \<or> r = RoleRoot \<and> s = [])"
| "lets r s ChkNamespaceConfigWriter = (r \<in> {RoleSquatter, RoleRoot} \<and> s = [])"
| "lets r s ChkRoot = (r = RoleRoot \<and> s = [])"

lemma HasGrant_iff: "HasGrant t l \<longleftrightarrow> (\<exists>u\<in>set t. u \<in> set l)"
  by (auto simp: HasGrant_def list_ex_iff)

lemma passes_iff: "passes t c \<longleftrightarrow> (\<exists>g\<in>set t. passes [g] c)"
  by (cases c) (auto simp: check_defs HasGrant_iff)

lemma Cut_prefix: "CHR '':'' \<notin> set r \<Longrightarrow> Cut (CHR '':'') (r @ CHR '':'' # s) = Some (r, s)"
  by (induction r) auto

lemma Cut_none: "CHR '':'' \<notin> set r \<Longrightarrow> Cut (CHR '':'') r = None"
  by (induction r) auto

lemma Split_NewGrant: "CHR '':'' \<notin> set r \<Longrightarrow> grant_Split (NewGrant r s) = (r, s)"
  by (simp add: grant_Split_def NewGrant_def Cut_prefix Cut_none)

lemma Cut_Some: "Cut c g = Some (r, s) \<Longrightarrow> g = r @ c # s \<and> c \<notin> set r"
  by (induction g arbitrary: r) (auto split: if_splits option.splits)

lemma grant_eq: "grant_Scope g \<noteq> [] \<Longrightarrow> g = NewGrant (grant_Role g) (grant_Scope g) \<and> CHR '':'' \<notin> set (grant_Role g)"
  using Cut_Some [of "CHR '':''" g] by (auto simp: grant_Scope_def grant_Role_def grant_Split_def NewGrant_def split: option.splits)

lemma NewGrant_inject: "CHR '':'' \<notin> set r \<Longrightarrow> CHR '':'' \<notin> set r' \<Longrightarrow> NewGrant r s = NewGrant r' s' \<longleftrightarrow> r = r' \<and> s = s'"
  by (metis Split_NewGrant prod.inject)

lemma passes_NewGrant: "CHR '':'' \<notin> set r \<Longrightarrow> passes [NewGrant r s] c \<longleftrightarrow> lets r s c"
  by (cases c) (auto simp: check_defs HasGrant_def NewGrant_inject role_defs IsScopedRole_def)

lemma scoped_name: "IsScopedRole r \<Longrightarrow> CHR '':'' \<notin> set r"
  by (auto simp: IsScopedRole_def role_defs)

text \<open>\<open>r'\<close> is as strong as \<open>r\<close>.\<close>

definition stronger :: "role \<Rightarrow> role \<Rightarrow> bool" where
  "stronger r' r = (IsScopedRole r \<and> IsScopedRole r' \<and> (r = RoleGuest \<or> r = RoleOperator \<and> r' = RoleAdmin \<or> r' = r))"

lemma lets_stronger: "lets r s c \<Longrightarrow> stronger r' r \<Longrightarrow> s' = s \<or> s' = [] \<Longrightarrow> lets r' s' c"
  by (cases c) (auto simp: stronger_def IsScopedRole_def role_defs)

text \<open>A grant of the role root is the grant root, with no scope.\<close>

definition exact_root :: "grant list \<Rightarrow> bool" where
  "exact_root t = list_all (\<lambda>g. grant_Role g = RoleRoot \<longrightarrow> g = RoleRoot) t"

lemma root_passes: "exact_root t \<Longrightarrow> HasRole t [RoleRoot] \<Longrightarrow> passes t c"
  by (cases c) (auto simp: exact_root_def HasRole_def list_all_iff list_ex_iff check_defs HasGrant_iff NewGrant_def)

lemma held_passes: "HasGrant t [NewGrant r s] \<Longrightarrow> lets r s c \<Longrightarrow> CHR '':'' \<notin> set r \<Longrightarrow> passes t c"
  using passes_NewGrant [of r s c] by (auto simp: HasGrant_iff passes_iff [of t])

lemma Namespaces_held:
  assumes "ns \<in> set (Namespaces t roles)" and "roles \<noteq> []" and "\<forall>r\<in>set roles. IsScopedRole r"
  obtains r where "r \<in> set roles" "HasGrant t [NewGrant r ns]"
proof -
  obtain g where g: "g \<in> set t" "grant_Scope g = ns" "ns \<noteq> []" "ParseRole (grant_Role g) \<in> set roles"
    using assms(1,2) by (auto simp: Namespaces_def SplitGrant_def)
  moreover have "IsScopedRole (ParseRole (grant_Role g))" using g(4) assms(3) by blast
  then have "ParseRole (grant_Role g) = grant_Role g" by (auto simp: ParseRole_def IsScopedRole_def role_defs)
  ultimately show thesis using that grant_eq [of g] by (metis HasGrant_iff list.set_intros(1))
qed

lemma stronger_passes:
  assumes "HasGrant t [NewGrant r' s']" and "stronger r' r" and "s' = s \<or> s' = []" and "passes [NewGrant r s] c"
  shows "passes t c"
proof -
  have "CHR '':'' \<notin> set r" "CHR '':'' \<notin> set r'" using assms(2) by (auto simp: stronger_def scoped_name)
  then have "lets r' s' c" using lets_stronger [OF _ assms(2,3)] assms(4) by (simp add: passes_NewGrant)
  with assms(1) show ?thesis using \<open>CHR '':'' \<notin> set r'\<close> by (rule held_passes)
qed

lemma scoped_within:
  assumes "g \<in> set (if HasRoleOn t [] roles then [NewGrant r []] else map (NewGrant r) (Namespaces t roles'))"
    and "roles' \<noteq> []" and "\<forall>r'\<in>set roles \<union> set roles'. stronger r' r" and "passes [g] c"
  shows "passes t c"
proof (cases "HasRoleOn t [] roles")
  case True
  then obtain r' where "r' \<in> set roles" "HasGrant t [NewGrant r' []]" by (auto simp: HasRoleOn_def list_ex_iff)
  moreover have "g = NewGrant r []" using True assms(1) by simp
  ultimately show ?thesis using stronger_passes [of t r' "[]" r "[]" c] assms(3,4) by blast
next
  case False
  then obtain ns where ns: "ns \<in> set (Namespaces t roles')" "g = NewGrant r ns" using assms(1) by auto
  have "\<forall>r'\<in>set roles'. IsScopedRole r'" using assms(3) by (simp add: stronger_def)
  then obtain r' where "r' \<in> set roles'" "HasGrant t [NewGrant r' ns]" using Namespaces_held [OF ns(1) assms(2)] by blast
  then show ?thesis using stronger_passes [of t r' ns r ns c] assms(3,4) ns(2) by blast
qed

lemma held_within: "HasGrant t [g] \<Longrightarrow> passes [g] c \<Longrightarrow> passes t c"
  by (auto simp: HasGrant_iff passes_iff [of t])

lemma filterRole_within:
  assumes "exact_root t" and "g \<in> set (filterRole t role)" and "passes [g] c"
  shows "passes t c"
proof (cases "HasRole t [RoleRoot]")
  case True
  with assms(1) show ?thesis by (rule root_passes)
next
  case False
  have neq: "RoleOperator \<noteq> RoleGuest" "RoleAdmin \<noteq> RoleGuest" "RoleAdmin \<noteq> RoleOperator" by (simp_all add: role_defs)
  consider "role = RoleGuest" | "role = RoleOperator" | "role = RoleAdmin" | "role \<notin> {RoleGuest, RoleOperator, RoleAdmin}" by blast
  then show ?thesis
  proof cases
    case 1
    then have "g \<in> set (if HasRoleOn t [] [RoleOperator, RoleAdmin, RoleGuest] then [NewGrant role []]
        else map (NewGrant role) (Namespaces t [RoleAdmin, RoleOperator, RoleGuest]))"
      using assms(2) False by (auto simp: filterRole_def Let_def split: if_splits)
    then show ?thesis by (rule scoped_within) (use 1 assms(3) in \<open>auto simp: stronger_def IsScopedRole_def\<close>)
  next
    case 2
    then have "g \<in> set (if HasRoleOn t [] [RoleAdmin, RoleOperator] then [NewGrant role []]
        else map (NewGrant role) (Namespaces t [RoleAdmin, RoleOperator]))"
      using assms(2) False neq by (auto simp: filterRole_def Let_def split: if_splits)
    then show ?thesis by (rule scoped_within) (use 2 assms(3) in \<open>auto simp: stronger_def IsScopedRole_def\<close>)
  next
    case 3
    then have "g \<in> set (if HasRoleOn t [] [RoleAdmin] then [NewGrant role []] else map (NewGrant role) (Namespaces t [RoleAdmin]))"
      using assms(2) False neq by (auto simp: filterRole_def Let_def split: if_splits)
    then show ?thesis by (rule scoped_within) (use 3 assms(3) in \<open>auto simp: stronger_def IsScopedRole_def\<close>)
  next
    case 4
    with assms(2) False have "HasGrant t [g]" by (auto simp: filterRole_def Let_def split: if_splits)
    then show ?thesis using assms(3) by (rule held_within)
  qed
qed

lemma role_on_within:
  assumes "HasRoleOn t s roles \<or> HasRoleOn t [] roles" and "\<forall>r'\<in>set roles. stronger r' r" and "passes [NewGrant r s] c"
  shows "passes t c"
  using assms stronger_passes [of t _ _ r s c] by (auto simp: HasRoleOn_def list_ex_iff)

lemma filterGrant_within:
  assumes "exact_root t" and "CHR '':'' \<notin> set role" and "g \<in> set (filterGrant t (NewGrant role s))" and "passes [g] c"
  shows "passes t c"
proof (cases "HasRole t [RoleRoot]")
  case True
  with assms(1) show ?thesis by (rule root_passes)
next
  case False
  have g: "g = NewGrant role s" using assms(3) by (auto simp: filterGrant_def Let_def split: if_splits)
  have sp: "grant_Role (NewGrant role s) = role" "grant_Scope (NewGrant role s) = s"
    using Split_NewGrant [OF assms(2)] by (simp_all add: grant_Role_def grant_Scope_def)
  consider "HasGrant t [g]" | "role = RoleGuest" "HasRoleOn t s [RoleOperator, RoleAdmin] \<or> HasRoleOn t [] [RoleOperator, RoleAdmin]"
    | "role = RoleOperator" "HasRoleOn t s [RoleAdmin] \<or> HasRoleOn t [] [RoleAdmin]"
    | "role = RoleAdmin" "HasRoleOn t s [RoleAdmin] \<or> HasRoleOn t [] [RoleAdmin]"
    using assms(3) False g sp by (auto simp: filterGrant_def Let_def split: if_splits)
  then show ?thesis
  proof cases
    case 1
    then show ?thesis using assms(4) by (rule held_within)
  next
    case 2
    from 2(2) show ?thesis by (rule role_on_within) (use 2(1) g assms(4) in \<open>auto simp: stronger_def IsScopedRole_def\<close>)
  next
    case 3
    from 3(2) show ?thesis by (rule role_on_within) (use 3(1) g assms(4) in \<open>auto simp: stronger_def IsScopedRole_def\<close>)
  next
    case 4
    from 4(2) show ?thesis by (rule role_on_within) (use 4(1) g assms(4) in \<open>auto simp: stronger_def IsScopedRole_def\<close>)
  qed
qed

lemma filterScope_within:
  assumes "exact_root t" and "g \<in> set (filterScope t s)" and "passes [g] c"
  shows "passes t c"
proof (cases "HasRole t [RoleRoot]")
  case True
  with assms(1) show ?thesis by (rule root_passes)
next
  case False
  obtain r where r: "g = NewGrant r s" "HasRoleOn t s [r] \<or> HasRoleOn t [] [r]" "IsScopedRole r"
    using assms(2) False by (auto simp: filterScope_def IsScopedRole_def split: if_splits)
  from r(2) show ?thesis by (rule role_on_within) (use r(1,3) assms(3) in \<open>auto simp: stronger_def\<close>)
qed




definition w_usr :: path where "w_usr = \<lparr>p_Name = ''joe'', p_Namespace = ''system'', p_Kind = KindUsr\<rparr>"


text \<open>
  The condition on the role root is needed: a grant of the role root on a scope passes no check, and
  a token of the grant root is made from it.
\<close>

lemma scoped_root_escalates:
  "\<not> passes [''root:ns1''] ChkRoot \<and> token_grants [''root:ns1''] (Some [''root'']) None = Some [''root''] \<and> passes [''root''] ChkRoot"
  by code_simp

end
