(* ===== verification/Hb_Ctrl.thy ===== *)
theory Hb_Ctrl
  imports Prelude
begin

text \<open>
  The heartbeat controller, \<open>daemon/hb/hbctrl\<close>: it keeps the state of the heartbeat links, counts for
  every peer the receiving links that hear it, and says on the bus when a peer is alive or stale.

  Every link of a peer has a watcher, a goroutine with tickers that turns the beats received on the
  link into events. The controller and the watchers are one state here, and a step is one receive of
  one of them: the controller takes a command, a watcher takes a beat or the tick of a ticker. The
  commands a watcher has to send keep it blocked until the controller took them. A beat is handed
  to its watcher by a goroutine of its own, so the beats on their way reach it in any order.
  A step takes the time it happens at. A ticker is the time of its next tick.

  The watcher of a receiver is the one of a link whose id ends with \<open>.rx\<close>.
\<close>

section \<open>State\<close>

definition evStale :: string where "evStale = ''hb_stale''"

definition evBeating :: string where "evBeating = ''hb_beating''"

definition pubDelay :: duration where "pubDelay = 200 * 1000000"

definition HeartbeatStatusRefreshMaximumInterval :: duration where
  "HeartbeatStatusRefreshMaximumInterval = 60 * second"

definition is_rx :: "string \<Rightarrow> bool" where
  "is_rx hbID = HasSuffix hbID ''.rx''"

record peer_status =
  ps_Desc :: string
  ps_IsBeating :: bool
  ps_ChangedAt :: "time"
  ps_LastBeatingAt :: "time"

record hb_stream =
  hs_ID :: string
  hs_State :: string
  hs_ConfiguredAt :: "time"
  hs_CreatedAt :: "time"
  hs_Type :: string
  hs_Peers :: "(string, peer_status) gomap"
  hs_Alerts :: "(string \<times> string) list"

datatype hb_cmd =
    CmdRegister string string
  | CmdUnregister string
  | CmdSetState string string
  | CmdEvent string string string
  | CmdGetEventStats
  | CmdSetAlert string "(string \<times> string) list"
  | CmdSetPeerSuccess string string bool
  | CmdSetPeerStatus string string peer_status
  | CmdAddWatcher string string string duration
  | CmdDelWatcher string string
  | GetPeerStatus string

text \<open>
  The state of a watcher. \<open>w_out\<close> are the commands it is sending, \<open>w_publishing\<close> that they are the
  two of a change of beating, \<open>w_cancelled\<close> that its context is done and \<open>w_done\<close> that it returned.
\<close>

record watcher =
  w_HbID :: string
  w_nodename :: string
  w_timeout :: duration
  w_peer :: peer_status
  w_changes :: bool
  w_beatingOnLastPub :: bool
  w_pubTicker :: "time option"
  w_setPeerStatusTicker :: "time"
  w_staleTicker :: "time option"
  w_out :: "hb_cmd list"
  w_publishing :: bool
  w_cancelled :: bool
  w_done :: bool

text \<open>\<open>RemoteBeating\<close>: the watchers of a peer are named by their number.\<close>

record remote_beating =
  rb_txCount :: int
  rb_rxCount :: int
  rb_txBeating :: int
  rb_rxBeating :: int
  rb_cancel :: "(string, nat) gomap"
  rb_beatingChan :: "(string, nat) gomap"

definition zero_remote :: remote_beating where
  "zero_remote = \<lparr>rb_txCount = 0, rb_rxCount = 0, rb_txBeating = 0, rb_rxBeating = 0, rb_cancel = [], rb_beatingChan = []\<rparr>"

datatype hb_pub =
    PubHeartbeatStale string string "time"
  | PubHeartbeatAlive string string "time"
  | PubNodeAlive string
  | PubNodeStale string

text \<open>\<open>h_cache\<close> and \<open>h_cacheChanged\<close> are the heartbeats the cache \<open>daemon/hbcache\<close> holds.\<close>

record hbctrl =
  h_changed :: bool
  h_events :: "(string, int) gomap"
  h_remotes :: "(string, remote_beating) gomap"
  h_heartbeat :: "(string, hb_stream) gomap"
  h_cache :: "hb_stream list"
  h_cacheChanged :: bool
  h_pubs :: "hb_pub list"
  h_watchers :: "watcher list"
  h_beats :: "(nat \<times> bool) list"

definition hbctrl_New :: hbctrl where
  "hbctrl_New = \<lparr>h_changed = False, h_events = [], h_remotes = [], h_heartbeat = [], h_cache = [], h_cacheChanged = False,
    h_pubs = [], h_watchers = [], h_beats = []\<rparr>"

section \<open>Watchers\<close>

definition newWatcher :: "time \<Rightarrow> string \<Rightarrow> string \<Rightarrow> string \<Rightarrow> duration \<Rightarrow> watcher" where
  "newWatcher now hbID nodename desc timeout =
    \<lparr>w_HbID = hbID, w_nodename = nodename, w_timeout = timeout,
     w_peer = \<lparr>ps_Desc = desc, ps_IsBeating = False, ps_ChangedAt = now, ps_LastBeatingAt = 0\<rparr>,
     w_changes = False, w_beatingOnLastPub = False, w_pubTicker = None,
     w_setPeerStatusTicker = now + HeartbeatStatusRefreshMaximumInterval, w_staleTicker = None,
     w_out = [], w_publishing = False, w_cancelled = False, w_done = False\<rparr>"

definition setBeating :: "time \<Rightarrow> bool \<Rightarrow> watcher \<Rightarrow> watcher" where
  "setBeating now v w =
    w\<lparr>w_peer := (w_peer w)\<lparr>ps_IsBeating := v, ps_ChangedAt := now\<rparr>, w_changes := True, w_pubTicker := Some (now + pubDelay)\<rparr>"

definition recvBeating :: "time \<Rightarrow> bool \<Rightarrow> watcher \<Rightarrow> watcher" where
  "recvBeating now beating w =
    (if beating then
       (let w = (if ps_IsBeating (w_peer w) then w else setBeating now True w)
        in w\<lparr>w_staleTicker := Some (now + w_timeout w), w_peer := (w_peer w)\<lparr>ps_LastBeatingAt := now\<rparr>\<rparr>)
     else if ps_IsBeating (w_peer w) then (setBeating now False w)\<lparr>w_staleTicker := None\<rparr>
     else w)"

definition setPeerStatusTick :: "time \<Rightarrow> watcher \<Rightarrow> watcher" where
  "setPeerStatusTick now w =
    w\<lparr>w_out := [CmdSetPeerStatus (w_nodename w) (w_HbID w) (w_peer w)],
      w_setPeerStatusTicker := w_setPeerStatusTicker w + HeartbeatStatusRefreshMaximumInterval\<rparr>"

definition pubTick :: "watcher \<Rightarrow> watcher" where
  "pubTick w =
    (let w = w\<lparr>w_pubTicker := None\<rparr>
     in if w_changes w then
          (let w = w\<lparr>w_changes := False\<rparr>
           in if w_beatingOnLastPub w \<noteq> ps_IsBeating (w_peer w) then
                w\<lparr>w_publishing := True,
                  w_out := [CmdEvent (if ps_IsBeating (w_peer w) then evBeating else evStale) (w_nodename w) (w_HbID w),
                            CmdSetPeerStatus (w_nodename w) (w_HbID w) (w_peer w)]\<rparr>
              else w)
        else w)"

definition staleTick :: "time \<Rightarrow> watcher \<Rightarrow> watcher" where
  "staleTick now w = (if ps_IsBeating (w_peer w) then setBeating now False w else w)\<lparr>w_staleTicker := None\<rparr>"

text \<open>The controller took the first command; after the last of a publication the watcher goes on.\<close>

definition sent :: "time \<Rightarrow> watcher \<Rightarrow> watcher" where
  "sent now w =
    (let w = w\<lparr>w_out := tl (w_out w)\<rparr>
     in if w_out w = [] \<and> w_publishing w
        then w\<lparr>w_beatingOnLastPub := ps_IsBeating (w_peer w), w_publishing := False,
               w_setPeerStatusTicker := now + HeartbeatStatusRefreshMaximumInterval\<rparr>
        else w)"

definition due :: "time \<Rightarrow> time option \<Rightarrow> bool" where
  "due now d = (case d of None \<Rightarrow> False | Some at \<Rightarrow> at \<le> now)"

section \<open>Commands\<close>

definition h_emit :: "hb_pub \<Rightarrow> hbctrl \<Rightarrow> hbctrl" where
  "h_emit p t = t\<lparr>h_pubs := h_pubs t @ [p]\<rparr>"

definition onRegister :: "time \<Rightarrow> string \<Rightarrow> string \<Rightarrow> hbctrl \<Rightarrow> hbctrl" where
  "onRegister now hbID type t =
    t\<lparr>h_heartbeat := AList.update hbID
         \<lparr>hs_ID = hbID, hs_State = ''running'', hs_ConfiguredAt = now, hs_CreatedAt = now, hs_Type = type,
          hs_Peers = [], hs_Alerts = []\<rparr> (h_heartbeat t),
      h_changed := True\<rparr>"

definition lowerRxBeating :: "string \<Rightarrow> (string, remote_beating) gomap \<Rightarrow> (string, remote_beating) gomap" where
  "lowerRxBeating peer m =
    (case map_of m peer of
       None \<Rightarrow> m
     | Some r \<Rightarrow> AList.update peer (r\<lparr>rb_rxBeating := rb_rxBeating r - 1\<rparr>) m)"

definition onUnregister :: "string \<Rightarrow> hbctrl \<Rightarrow> hbctrl" where
  "onUnregister hbID t =
    (case map_of (h_heartbeat t) hbID of
       None \<Rightarrow> t
     | Some hb \<Rightarrow>
         (let t = (if is_rx hbID
                   then t\<lparr>h_remotes := foldl (\<lambda>m (peer, st). if ps_IsBeating st then lowerRxBeating peer m else m) (h_remotes t) (hs_Peers hb)\<rparr>
                   else t)
          in t\<lparr>h_heartbeat := AList.delete hbID (h_heartbeat t)\<rparr>))\<lparr>h_changed := True\<rparr>"

definition map_heartbeat :: "string \<Rightarrow> (hb_stream \<Rightarrow> hb_stream) \<Rightarrow> hbctrl \<Rightarrow> hbctrl" where
  "map_heartbeat hbID f t =
    (case map_of (h_heartbeat t) hbID of
       None \<Rightarrow> t
     | Some hb \<Rightarrow> t\<lparr>h_heartbeat := AList.update hbID (f hb) (h_heartbeat t)\<rparr>)"

definition onSetPeerSuccess :: "string \<Rightarrow> string \<Rightarrow> bool \<Rightarrow> hbctrl \<Rightarrow> hbctrl" where
  "onSetPeerSuccess nodename hbID success t =
    (case map_of (h_remotes t) nodename of
       None \<Rightarrow> t
     | Some r \<Rightarrow>
         (case map_of (rb_beatingChan r) hbID of
            None \<Rightarrow> t
          | Some i \<Rightarrow> t\<lparr>h_beats := h_beats t @ [(i, success)]\<rparr>))"

text \<open>The count of the receiving links that hear the peer; \<open>None\<close> is the panic.\<close>

definition countRx :: "string \<Rightarrow> string \<Rightarrow> remote_beating \<Rightarrow> hbctrl \<Rightarrow> hbctrl option" where
  "countRx name nodename r t =
    (let step = (if name = evBeating then
                   Some (rb_rxBeating r + 1, if rb_rxBeating r = 0 then h_emit (PubNodeAlive nodename) t else t)
                 else if name = evStale then
                   (if rb_rxBeating r = 0 then None else Some (rb_rxBeating r - 1, t))
                 else Some (rb_rxBeating r, t))
     in case step of
          None \<Rightarrow> None
        | Some (n, t) \<Rightarrow>
            (let t = (if n = 0 then h_emit (PubNodeStale nodename) t else t)
             in Some (t\<lparr>h_remotes := AList.update nodename (r\<lparr>rb_rxBeating := n\<rparr>) (h_remotes t)\<rparr>)))"

definition onEvent :: "time \<Rightarrow> string \<Rightarrow> string \<Rightarrow> string \<Rightarrow> hbctrl \<Rightarrow> hbctrl option" where
  "onEvent now name nodename hbID t =
    (let t = t\<lparr>h_events := AList.update name (lkp 0 (h_events t) name + 1) (h_events t), h_changed := True\<rparr>;
         t = h_emit (if name = evStale then PubHeartbeatStale nodename hbID now else PubHeartbeatAlive nodename hbID now) t
     in case map_of (h_remotes t) nodename of
          None \<Rightarrow> Some t
        | Some r \<Rightarrow> if is_rx hbID then countRx name nodename r t else Some t)"

definition onAddWatcher :: "time \<Rightarrow> string \<Rightarrow> string \<Rightarrow> string \<Rightarrow> duration \<Rightarrow> hbctrl \<Rightarrow> hbctrl" where
  "onAddWatcher now hbID nodename desc timeout t =
    (let r = lkp zero_remote (h_remotes t) nodename
     in if has_key (rb_cancel r) hbID then t
        else case map_of (h_heartbeat t) hbID of
               None \<Rightarrow> t
             | Some hb \<Rightarrow>
                 (let i = length (h_watchers t);
                      st = \<lparr>ps_Desc = desc, ps_IsBeating = False, ps_ChangedAt = now, ps_LastBeatingAt = 0\<rparr>;
                      r = r\<lparr>rb_cancel := AList.update hbID i (rb_cancel r), rb_beatingChan := AList.update hbID i (rb_beatingChan r)\<rparr>;
                      r = (if is_rx hbID then r\<lparr>rb_rxCount := rb_rxCount r + 1\<rparr> else r\<lparr>rb_txCount := rb_txCount r + 1\<rparr>)
                  in t\<lparr>h_heartbeat := AList.update hbID (hb\<lparr>hs_Peers := AList.update nodename st (hs_Peers hb)\<rparr>) (h_heartbeat t),
                       h_remotes := AList.update nodename r (h_remotes t),
                       h_watchers := h_watchers t @ [newWatcher now hbID nodename desc timeout]\<rparr>))"

definition map_watcher :: "nat \<Rightarrow> (watcher \<Rightarrow> watcher) \<Rightarrow> hbctrl \<Rightarrow> hbctrl" where
  "map_watcher i f t = (if i < length (h_watchers t) then t\<lparr>h_watchers := (h_watchers t)[i := f (h_watchers t ! i)]\<rparr> else t)"

definition onDelWatcher :: "string \<Rightarrow> string \<Rightarrow> hbctrl \<Rightarrow> hbctrl" where
  "onDelWatcher hbID nodename t =
    (let t = map_heartbeat hbID (\<lambda>hb. hb\<lparr>hs_Peers := AList.delete nodename (hs_Peers hb)\<rparr>) t
     in case map_of (h_remotes t) nodename of
          None \<Rightarrow> t
        | Some r \<Rightarrow>
            (case map_of (rb_cancel r) hbID of
               None \<Rightarrow> t
             | Some i \<Rightarrow>
                 (let t = map_watcher i (\<lambda>w. w\<lparr>w_cancelled := True\<rparr>) t;
                      r = r\<lparr>rb_cancel := AList.delete hbID (rb_cancel r)\<rparr>;
                      r = (if is_rx hbID then r\<lparr>rb_rxCount := rb_rxCount r - 1\<rparr> else r\<lparr>rb_txCount := rb_txCount r - 1\<rparr>)
                  in t\<lparr>h_remotes := (if rb_rxCount r + rb_txCount r = 0 then AList.delete nodename (h_remotes t)
                                     else AList.update nodename r (h_remotes t))\<rparr>)))"

fun ctrl_cmd :: "time \<Rightarrow> hb_cmd \<Rightarrow> hbctrl \<Rightarrow> hbctrl option" where
  "ctrl_cmd now (CmdRegister hbID type) t = Some (onRegister now hbID type t)"
| "ctrl_cmd now (CmdUnregister hbID) t = Some (onUnregister hbID t)"
| "ctrl_cmd now (CmdSetState hbID st) t = Some (map_heartbeat hbID (\<lambda>hb. hb\<lparr>hs_State := st\<rparr>) t)"
| "ctrl_cmd now (CmdEvent name nodename hbID) t = onEvent now name nodename hbID t"
| "ctrl_cmd now CmdGetEventStats t = Some t"
| "ctrl_cmd now (CmdSetAlert hbID alerts) t = Some (map_heartbeat hbID (\<lambda>hb. hb\<lparr>hs_Alerts := alerts\<rparr>) t)"
| "ctrl_cmd now (CmdSetPeerSuccess nodename hbID success) t = Some (onSetPeerSuccess nodename hbID success t)"
| "ctrl_cmd now (CmdSetPeerStatus nodename hbID st) t =
     Some (map_heartbeat hbID (\<lambda>hb. hb\<lparr>hs_Peers := AList.update nodename st (hs_Peers hb)\<rparr>) t)"
| "ctrl_cmd now (CmdAddWatcher hbID nodename desc timeout) t = Some (onAddWatcher now hbID nodename desc timeout t)"
| "ctrl_cmd now (CmdDelWatcher hbID nodename) t = Some (onDelWatcher hbID nodename t)"
| "ctrl_cmd now (GetPeerStatus hbID) t = Some t"

text \<open>What the command \<open>GetPeerStatus\<close> answers.\<close>

definition peerStatus :: "string \<Rightarrow> hbctrl \<Rightarrow> (string, peer_status) gomap" where
  "peerStatus hbID t = (case map_of (h_heartbeat t) hbID of None \<Rightarrow> [] | Some hb \<Rightarrow> hs_Peers hb)"

text \<open>The tick of every second: the heartbeats sorted by id go to the cache, where a change stays until it is read.\<close>

definition updateTick :: "hbctrl \<Rightarrow> hbctrl" where
  "updateTick t =
    t\<lparr>h_cache := map (\<lambda>hbID. the (map_of (h_heartbeat t) hbID)) (sort (map fst (h_heartbeat t))),
      h_cacheChanged := (h_cacheChanged t \<or> h_changed t), h_changed := False\<rparr>"

definition cacheHeartbeats :: "hbctrl \<Rightarrow> (hb_stream list \<times> bool) \<times> hbctrl" where
  "cacheHeartbeats t = ((h_cache t, h_cacheChanged t), t\<lparr>h_cacheChanged := False\<rparr>)"

section \<open>Steps\<close>

text \<open>
  \<open>Recv\<close>: the controller takes a command of the drivers or of the janitor. \<open>Take i\<close>: it takes the
  command the watcher \<open>i\<close> sends. \<open>Beat k\<close>: the beat \<open>k\<close> on its way reaches its watcher. \<open>Cancel\<close>:
  a driver cancels the context of its link. A step that is not possible changes nothing.
\<close>

datatype hb_action =
    Recv hb_cmd
  | Take nat
  | Beat nat
  | StatusTick nat
  | PubTick nat
  | StaleTick nat
  | Cancel string
  | Return nat
  | UpdateTick
  | ReadCache

definition ready :: "watcher \<Rightarrow> bool" where
  "ready w = (\<not> w_done w \<and> w_out w = [])"

definition watcher_step :: "nat \<Rightarrow> (watcher \<Rightarrow> bool) \<Rightarrow> (watcher \<Rightarrow> watcher) \<Rightarrow> hbctrl \<Rightarrow> hbctrl" where
  "watcher_step i possible f t =
    (if i < length (h_watchers t) \<and> ready (h_watchers t ! i) \<and> possible (h_watchers t ! i) then map_watcher i f t else t)"

fun hb_step :: "time \<Rightarrow> hb_action \<Rightarrow> hbctrl \<Rightarrow> hbctrl option" where
  "hb_step now (Recv c) t = ctrl_cmd now c t"
| "hb_step now (Take i) t =
    (if i < length (h_watchers t)
     then (case w_out (h_watchers t ! i) of
             [] \<Rightarrow> Some t
           | c # _ \<Rightarrow> ctrl_cmd now c (map_watcher i (sent now) t))
     else Some t)"
| "hb_step now (Beat k) t =
    (if k < length (h_beats t)
     then (case h_beats t ! k of
             (i, v) \<Rightarrow>
               if i < length (h_watchers t) \<and> ready (h_watchers t ! i)
               then Some (map_watcher i (recvBeating now v) (t\<lparr>h_beats := take k (h_beats t) @ drop (Suc k) (h_beats t)\<rparr>))
               else Some t)
     else Some t)"
| "hb_step now (StatusTick i) t = Some (watcher_step i (\<lambda>w. w_setPeerStatusTicker w \<le> now) (setPeerStatusTick now) t)"
| "hb_step now (PubTick i) t = Some (watcher_step i (\<lambda>w. due now (w_pubTicker w)) pubTick t)"
| "hb_step now (StaleTick i) t = Some (watcher_step i (\<lambda>w. due now (w_staleTicker w)) (staleTick now) t)"
| "hb_step now (Cancel hbID) t =
    Some (t\<lparr>h_watchers := map (\<lambda>w. if w_HbID w = hbID then w\<lparr>w_cancelled := True\<rparr> else w) (h_watchers t)\<rparr>)"
| "hb_step now (Return i) t = Some (watcher_step i w_cancelled (\<lambda>w. w\<lparr>w_done := True\<rparr>) t)"
| "hb_step now UpdateTick t = Some (updateTick t)"
| "hb_step now ReadCache t = Some (snd (cacheHeartbeats t))"

fun hb_run :: "(time \<times> hb_action) list \<Rightarrow> hbctrl \<Rightarrow> hbctrl option" where
  "hb_run [] t = Some t"
| "hb_run ((now, s) # l) t = (case hb_step now s t of None \<Rightarrow> None | Some t \<Rightarrow> hb_run l t)"

section \<open>What a watcher keeps\<close>

text \<open>The beating of the link as the controller took it last.\<close>

definition acked :: "watcher \<Rightarrow> bool" where
  "acked w = (if w_publishing w \<and> length (w_out w) \<le> 1 then ps_IsBeating (w_peer w) else w_beatingOnLastPub w)"

definition event_of :: "watcher \<Rightarrow> hb_cmd" where
  "event_of w = CmdEvent (if ps_IsBeating (w_peer w) then evBeating else evStale) (w_nodename w) (w_HbID w)"

definition w_shape :: "watcher \<Rightarrow> bool" where
  "w_shape w =
    (if w_publishing w
     then w_beatingOnLastPub w \<noteq> ps_IsBeating (w_peer w) \<and> \<not> w_changes w
          \<and> (w_out w = [event_of w, CmdSetPeerStatus (w_nodename w) (w_HbID w) (w_peer w)]
             \<or> w_out w = [CmdSetPeerStatus (w_nodename w) (w_HbID w) (w_peer w)])
     else w_out w = [] \<or> (\<exists>st. w_out w = [CmdSetPeerStatus (w_nodename w) (w_HbID w) st]))"

text \<open>The tickers of a watcher that is sent beats only, at the time \<open>now\<close>.\<close>

definition w_timed :: "time \<Rightarrow> watcher \<Rightarrow> bool" where
  "w_timed now w =
    ((ps_IsBeating (w_peer w) \<longrightarrow> w_staleTicker w = Some (ps_LastBeatingAt (w_peer w) + w_timeout w) \<and> ps_LastBeatingAt (w_peer w) \<noteq> 0)
     \<and> (\<not> ps_IsBeating (w_peer w) \<longrightarrow> ps_LastBeatingAt (w_peer w) \<noteq> 0 \<longrightarrow> ps_LastBeatingAt (w_peer w) + w_timeout w \<le> now)
     \<and> (w_changes w \<longrightarrow> w_pubTicker w = Some (ps_ChangedAt (w_peer w) + pubDelay))
     \<and> (\<not> w_changes w \<longrightarrow> \<not> w_publishing w \<longrightarrow> w_beatingOnLastPub w = ps_IsBeating (w_peer w)))"

definition same_id :: "watcher \<Rightarrow> watcher \<Rightarrow> bool" where
  "same_id w w' = (w_HbID w' = w_HbID w \<and> w_nodename w' = w_nodename w)"

definition same_link :: "watcher \<Rightarrow> watcher \<Rightarrow> bool" where
  "same_link w w' = (same_id w w' \<and> w_cancelled w' = w_cancelled w \<and> w_done w' = w_done w)"

lemmas watcher_defs = acked_def w_shape_def w_timed_def same_link_def same_id_def ready_def event_of_def due_def setBeating_def Let_def

lemma acked_context [simp]: "acked (w\<lparr>w_cancelled := x\<rparr>) = acked w" "acked (w\<lparr>w_done := x\<rparr>) = acked w"
  by (simp_all add: acked_def)

lemma w_shape_context [simp]: "w_shape (w\<lparr>w_cancelled := x\<rparr>) = w_shape w" "w_shape (w\<lparr>w_done := x\<rparr>) = w_shape w"
  by (simp_all add: w_shape_def event_of_def)

lemma newWatcher_ok:
  "w_shape (newWatcher now hbID n d to)" "w_timed now (newWatcher now hbID n d to)" "\<not> acked (newWatcher now hbID n d to)"
  by (simp_all add: newWatcher_def watcher_defs)

lemma w_timed_mono: "w_timed now w \<Longrightarrow> now \<le> now' \<Longrightarrow> w_timed now' w"
  by (auto simp: w_timed_def)

lemma recvBeating_ok:
  assumes "w_shape w" "ready w"
  shows "w_shape (recvBeating now v w)" "same_link w (recvBeating now v w)" "acked (recvBeating now v w) = acked w"
    "v \<Longrightarrow> now \<noteq> 0 \<Longrightarrow> w_timed now w \<Longrightarrow> w_timed now (recvBeating now v w)"
  using assms by (auto simp: recvBeating_def watcher_defs split: if_splits)

lemma setPeerStatusTick_ok:
  assumes "w_shape w" "ready w"
  shows "w_shape (setPeerStatusTick now w)" "same_link w (setPeerStatusTick now w)" "acked (setPeerStatusTick now w) = acked w"
    "w_timed now w \<Longrightarrow> w_timed now (setPeerStatusTick now w)"
  using assms by (auto simp: setPeerStatusTick_def watcher_defs split: if_splits)

lemma pubTick_ok:
  assumes "w_shape w" "ready w"
  shows "w_shape (pubTick w)" "same_link w (pubTick w)" "acked (pubTick w) = acked w"
    "w_timed now w \<Longrightarrow> w_timed now (pubTick w)"
  using assms by (auto simp: pubTick_def watcher_defs split: if_splits)

lemma staleTick_ok:
  assumes "w_shape w" "ready w" "due now (w_staleTicker w)"
  shows "w_shape (staleTick now w)" "same_link w (staleTick now w)" "acked (staleTick now w) = acked w"
    "w_timed now w \<Longrightarrow> w_timed now (staleTick now w)"
  using assms by (auto simp: staleTick_def watcher_defs split: if_splits)

lemma sent_ok:
  assumes "w_shape w" "w_out w = c # l"
  shows "w_shape (sent now w)" "same_link w (sent now w)" "w_timed now w \<Longrightarrow> w_timed now (sent now w)"
  using assms by (auto simp: sent_def watcher_defs split: if_splits)

lemma sent_event:
  assumes "w_shape w" "w_out w = CmdEvent name nodename hbID # l"
  shows "name = (if acked w then evStale else evBeating)" "nodename = w_nodename w" "hbID = w_HbID w"
    "acked (sent now w) \<longleftrightarrow> \<not> acked w"
  using assms by (auto simp: sent_def watcher_defs split: if_splits)

lemma sent_other:
  assumes "w_shape w" "w_out w = c # l" "\<nexists>name nodename hbID. c = CmdEvent name nodename hbID"
  shows "(\<exists>st. c = CmdSetPeerStatus (w_nodename w) (w_HbID w) st)"
    "acked (sent now w) = acked w"
  using assms by (auto simp: sent_def watcher_defs split: if_splits)

end
