(* ===== verification/Hb_Alive.thy ===== *)
theory Hb_Alive
  imports Hb_Ctrl
begin

text \<open>
  When the heartbeat controller says a peer is alive. As long as no receiving link is stopped, the
  count of the links that hear a peer is exact, the controller never panics, and a peer is said alive
  exactly when one of its receiving links got a beat within its timeout. Stopping a receiving link,
  by the command that restarts it or by a change of its configuration, breaks each of them.
\<close>

section \<open>The invariant\<close>

definition remote :: "string \<Rightarrow> (string, remote_beating) gomap \<Rightarrow> remote_beating" where
  "remote n m = lkp zero_remote m n"

lemma remote_update [simp]: "remote n (AList.update n' r m) = (if n = n' then r else remote n m)"
  by (simp add: remote_def lkp_update)

lemma remote_delete [simp]: "remote n (AList.delete n' m) = (if n = n' then zero_remote else remote n m)"
  by (simp add: remote_def lkp_delete)

lemma remote_Some [simp]: "map_of m n = Some r \<Longrightarrow> remote n m = r"
  by (simp add: remote_def lkp_def)

lemma remote_zero [simp]:
  "rb_cancel zero_remote = []" "rb_beatingChan zero_remote = []" "rb_rxCount zero_remote = 0"
  "rb_txCount zero_remote = 0" "rb_rxBeating zero_remote = 0"
  by (simp_all add: zero_remote_def)

definition ids :: "watcher list \<Rightarrow> (string \<times> string) list" where
  "ids ws = map (\<lambda>w. (w_HbID w, w_nodename w)) ws"

text \<open>The watchers a map of a remote names are the ones of its links.\<close>

definition points :: "(string \<times> string) list \<Rightarrow> string \<Rightarrow> (string, nat) gomap \<Rightarrow> bool" where
  "points ls n m = (\<forall>h i. map_of m h = Some i \<longrightarrow> i < length ls \<and> ls ! i = (h, n))"

lemma points_append: "points ls n m \<Longrightarrow> points (ls @ [x]) n m"
  by (fastforce simp: points_def nth_append)

lemma points_add: "points ls n m \<Longrightarrow> points (ls @ [(h, n)]) n (AList.update h (length ls) m)"
  by (fastforce simp: points_def nth_append update_conv)

lemma points_delete: "points ls n m \<Longrightarrow> points ls n (AList.delete h m)"
  by (simp add: points_def delete_conv)

definition remote_ok :: "(string \<times> string) list \<Rightarrow> string \<Rightarrow> remote_beating \<Rightarrow> bool" where
  "remote_ok ls n r =
    (wf_map (rb_cancel r)
     \<and> rb_rxCount r = int (length (filter is_rx (map fst (rb_cancel r))))
     \<and> rb_txCount r = int (length (filter (\<lambda>h. \<not> is_rx h) (map fst (rb_cancel r))))
     \<and> points ls n (rb_cancel r) \<and> points ls n (rb_beatingChan r))"

definition links_ok :: "(string \<times> string) list \<Rightarrow> (string, remote_beating) gomap \<Rightarrow> bool" where
  "links_ok ls m =
    ((\<forall>n. remote_ok ls n (remote n m))
     \<and> (\<forall>i < length ls. is_rx (fst (ls ! i)) \<longrightarrow> map_of (rb_cancel (remote (snd (ls ! i)) m)) (fst (ls ! i)) = Some i))"

definition watcher_ok :: "time \<Rightarrow> watcher \<Rightarrow> bool" where
  "watcher_ok now w = (w_shape w \<and> (is_rx (w_HbID w) \<longrightarrow> w_timed now w \<and> \<not> w_cancelled w \<and> \<not> w_done w))"

definition heard :: "string \<Rightarrow> watcher list \<Rightarrow> nat" where
  "heard n ws = length (filter (\<lambda>w. is_rx (w_HbID w) \<and> w_nodename w = n \<and> acked w) ws)"

fun said :: "string \<Rightarrow> bool \<Rightarrow> hb_pub \<Rightarrow> bool" where
  "said n b (PubNodeAlive m) = (if m = n then True else b)"
| "said n b (PubNodeStale m) = (if m = n then False else b)"
| "said n b _ = b"

text \<open>The last word of the controller on a peer is that it is alive.\<close>

definition says_alive :: "string \<Rightarrow> hb_pub list \<Rightarrow> bool" where
  "says_alive n l = foldl (said n) False l"

lemma says_alive_Nil [simp]: "\<not> says_alive n []"
  by (simp add: says_alive_def)

lemma says_alive_append [simp]: "says_alive n (l @ l') = foldl (said n) (says_alive n l) l'"
  by (simp add: says_alive_def)

definition counts_ok :: "watcher list \<Rightarrow> (string, remote_beating) gomap \<Rightarrow> hb_pub list \<Rightarrow> bool" where
  "counts_ok ws m pubs = (\<forall>n. rb_rxBeating (remote n m) = int (heard n ws) \<and> (says_alive n pubs \<longleftrightarrow> heard n ws > 0))"

definition beats_ok :: "watcher list \<Rightarrow> (nat \<times> bool) list \<Rightarrow> bool" where
  "beats_ok ws beats = (\<forall>(i, v) \<in> set beats. i < length ws \<and> (is_rx (w_HbID (ws ! i)) \<longrightarrow> v))"

definition hb_inv :: "time \<Rightarrow> hbctrl \<Rightarrow> bool" where
  "hb_inv now t =
    (links_ok (ids (h_watchers t)) (h_remotes t) \<and> list_all (watcher_ok now) (h_watchers t)
     \<and> counts_ok (h_watchers t) (h_remotes t) (h_pubs t) \<and> beats_ok (h_watchers t) (h_beats t))"

section \<open>Lists of watchers\<close>

lemma filter_length_update:
  "i < length xs \<Longrightarrow>
   length (filter P (xs[i := y])) + (if P (xs ! i) then 1 else 0) = length (filter P xs) + (if P y then 1 else 0)"
proof (induction xs arbitrary: i)
  case Nil
  then show ?case by simp
next
  case (Cons x xs)
  then show ?case by (cases i) (auto split: if_splits)
qed

lemma ids_update: "i < length ws \<Longrightarrow> same_id (ws ! i) w \<Longrightarrow> ids (ws[i := w]) = ids ws"
  by (auto simp: ids_def same_id_def map_update intro!: nth_equalityI simp: nth_list_update)

lemma ids_simps [simp]: "length (ids ws) = length ws" "i < length ws \<Longrightarrow> ids ws ! i = (w_HbID (ws ! i), w_nodename (ws ! i))"
  "ids (ws @ ws') = ids ws @ ids ws'"
  by (simp_all add: ids_def)

lemma heard_update:
  assumes "i < length ws" "same_id (ws ! i) w"
  shows "acked w = acked (ws ! i) \<Longrightarrow> heard n (ws[i := w]) = heard n ws"
    and "acked w \<Longrightarrow> \<not> acked (ws ! i) \<Longrightarrow> is_rx (w_HbID w) \<Longrightarrow>
         heard n (ws[i := w]) = heard n ws + (if n = w_nodename w then 1 else 0)"
    and "\<not> acked w \<Longrightarrow> acked (ws ! i) \<Longrightarrow> is_rx (w_HbID w) \<Longrightarrow>
         heard n ws = heard n (ws[i := w]) + (if n = w_nodename w then 1 else 0)"
    and "\<not> is_rx (w_HbID w) \<Longrightarrow> heard n (ws[i := w]) = heard n ws"
  using assms filter_length_update [of i ws "\<lambda>w. is_rx (w_HbID w) \<and> w_nodename w = n \<and> acked w" w]
  by (auto simp: heard_def same_id_def split: if_splits)

lemma beats_update: "i < length ws \<Longrightarrow> same_id (ws ! i) w \<Longrightarrow> beats_ok (ws[i := w]) beats = beats_ok ws beats"
  by (auto simp: beats_ok_def same_id_def nth_list_update split: if_splits)

lemma watchers_update: "list_all P ws \<Longrightarrow> P w \<Longrightarrow> list_all P (ws[i := w])"
  using set_update_subset_insert [of ws i w] by (auto simp: list_all_iff)

lemma heard_map:
  "(\<And>w. w_HbID (f w) = w_HbID w \<and> w_nodename (f w) = w_nodename w \<and> acked (f w) = acked w) \<Longrightarrow> heard n (map f ws) = heard n ws"
  by (induction ws) (auto simp: heard_def)

section \<open>Every step keeps the invariant\<close>

lemma hb_inv_New: "hb_inv now hbctrl_New"
  by (simp add: hb_inv_def hbctrl_New_def links_ok_def remote_ok_def points_def remote_def lkp_def zero_remote_def counts_ok_def
      beats_ok_def heard_def wf_map_def ids_def)

lemma hb_inv_later: "hb_inv now t \<Longrightarrow> now \<le> now' \<Longrightarrow> hb_inv now' t"
  by (auto simp: hb_inv_def watcher_ok_def list_all_iff intro: w_timed_mono)

lemma hb_inv_other:
  "hb_inv now (t\<lparr>h_heartbeat := x\<rparr>) = hb_inv now t" "hb_inv now (t\<lparr>h_changed := c\<rparr>) = hb_inv now t"
  "hb_inv now (t\<lparr>h_events := e\<rparr>) = hb_inv now t" "hb_inv now (t\<lparr>h_cache := y\<rparr>) = hb_inv now t"
  "hb_inv now (t\<lparr>h_cacheChanged := b\<rparr>) = hb_inv now t"
  by (simp_all add: hb_inv_def)

lemma hb_inv_map_heartbeat: "hb_inv now (map_heartbeat hbID f t) = hb_inv now t"
  by (simp add: map_heartbeat_def hb_inv_other split: option.split)

lemma hb_inv_watcher:
  assumes "hb_inv now t" "i < length (h_watchers t)" "same_id (h_watchers t ! i) w" "watcher_ok now w"
    and "acked w = acked (h_watchers t ! i)"
  shows "hb_inv now (t\<lparr>h_watchers := (h_watchers t)[i := w]\<rparr>)"
  using assms by (simp add: hb_inv_def ids_update heard_update(1) beats_update watchers_update counts_ok_def)

lemma hb_inv_nth: "hb_inv now t \<Longrightarrow> i < length (h_watchers t) \<Longrightarrow> watcher_ok now (h_watchers t ! i)"
  by (simp add: hb_inv_def list_all_length)

lemma hb_inv_watcher_step:
  assumes "hb_inv now t"
    and "\<And>w. w_shape w \<Longrightarrow> ready w \<Longrightarrow> possible w \<Longrightarrow>
           w_shape (f w) \<and> same_link w (f w) \<and> acked (f w) = acked w \<and> (w_timed now w \<longrightarrow> w_timed now (f w))"
  shows "hb_inv now (watcher_step i possible f t)"
proof (cases "i < length (h_watchers t) \<and> ready (h_watchers t ! i) \<and> possible (h_watchers t ! i)")
  case True
  then have i: "i < length (h_watchers t)" by simp
  let ?w = "h_watchers t ! i"
  from hb_inv_nth [OF assms(1) i] have ok: "watcher_ok now ?w" .
  then have f: "w_shape (f ?w) \<and> same_link ?w (f ?w) \<and> acked (f ?w) = acked ?w \<and> (w_timed now ?w \<longrightarrow> w_timed now (f ?w))"
    using True assms(2) by (simp add: watcher_ok_def)
  with ok have "watcher_ok now (f ?w)" by (auto simp: watcher_ok_def same_link_def same_id_def)
  with f i True assms(1) show ?thesis by (simp add: watcher_step_def map_watcher_def hb_inv_watcher same_link_def)
next
  case False
  then have "watcher_step i possible f t = t" unfolding watcher_step_def by (rule if_not_P)
  with assms(1) show ?thesis by simp
qed

lemma hb_inv_Return: "hb_inv now t \<Longrightarrow> hb_inv now (watcher_step i w_cancelled (\<lambda>w. w\<lparr>w_done := True\<rparr>) t)"
  using hb_inv_watcher [of now t i "(h_watchers t ! i)\<lparr>w_done := True\<rparr>"] hb_inv_nth [of now t i]
  by (auto simp: watcher_step_def map_watcher_def watcher_ok_def same_id_def)

lemma hb_inv_Cancel:
  assumes "hb_inv now t" "\<not> is_rx hbID"
  shows "hb_inv now (t\<lparr>h_watchers := map (\<lambda>w. if w_HbID w = hbID then w\<lparr>w_cancelled := True\<rparr> else w) (h_watchers t)\<rparr>)"
proof -
  let ?f = "\<lambda>w. if w_HbID w = hbID then w\<lparr>w_cancelled := True\<rparr> else w"
  have "ids (map ?f (h_watchers t)) = ids (h_watchers t)" by (simp add: ids_def)
  moreover have "heard n (map ?f (h_watchers t)) = heard n (h_watchers t)" for n
    by (rule heard_map) simp
  moreover have "list_all (watcher_ok now) (map ?f (h_watchers t))"
    using assms by (auto simp: hb_inv_def watcher_ok_def list_all_iff)
  moreover have "beats_ok (map ?f (h_watchers t)) (h_beats t)"
  proof -
    have "w_HbID (map ?f (h_watchers t) ! i) = w_HbID (h_watchers t ! i)" if "i < length (h_watchers t)" for i
      using that by simp
    with assms(1) show ?thesis by (fastforce simp: hb_inv_def beats_ok_def)
  qed
  ultimately show ?thesis using assms by (simp add: hb_inv_def counts_ok_def)
qed

lemma hb_inv_Beat:
  assumes inv: "hb_inv now t" and now: "now \<noteq> 0" and k: "k < length (h_beats t)" "h_beats t ! k = (i, v)"
    and i: "i < length (h_watchers t)" "ready (h_watchers t ! i)"
  shows "hb_inv now (map_watcher i (recvBeating now v) (t\<lparr>h_beats := take k (h_beats t) @ drop (Suc k) (h_beats t)\<rparr>))"
proof -
  let ?w = "h_watchers t ! i"
  have mem: "(i, v) \<in> set (h_beats t)" using k by (metis nth_mem)
  with inv have v: "is_rx (w_HbID ?w) \<longrightarrow> v" by (auto simp: hb_inv_def beats_ok_def)
  from hb_inv_nth [OF inv i(1)] have ok: "watcher_ok now ?w" .
  then have s: "w_shape ?w" by (simp add: watcher_ok_def)
  have "beats_ok (h_watchers t) (take k (h_beats t) @ drop (Suc k) (h_beats t))"
    using inv by (auto simp: hb_inv_def beats_ok_def dest: in_set_takeD in_set_dropD)
  with inv have inv': "hb_inv now (t\<lparr>h_beats := take k (h_beats t) @ drop (Suc k) (h_beats t)\<rparr>)"
    by (simp add: hb_inv_def)
  have "watcher_ok now (recvBeating now v ?w)"
    using ok v now recvBeating_ok [OF s i(2)] by (auto simp: watcher_ok_def same_link_def same_id_def)
  with hb_inv_watcher [OF inv'] i recvBeating_ok [OF s i(2)] show ?thesis by (simp add: map_watcher_def same_link_def)
qed

lemma remote_ok_append: "remote_ok ls n r \<Longrightarrow> remote_ok (ls @ [x]) n r"
  by (simp add: remote_ok_def points_append)

lemma update_absent: "map_of m k = None \<Longrightarrow> AList.update k v m = m @ [(k, v)]"
  by (induction m) (auto split: if_splits)

lemma remote_ok_add:
  assumes "remote_ok ls n r" "\<not> has_key (rb_cancel r) h"
    and "r' = r\<lparr>rb_cancel := AList.update h (length ls) (rb_cancel r), rb_beatingChan := AList.update h (length ls) (rb_beatingChan r)\<rparr>"
  shows "remote_ok (ls @ [(h, n)]) n (if is_rx h then r'\<lparr>rb_rxCount := rb_rxCount r' + 1\<rparr> else r'\<lparr>rb_txCount := rb_txCount r' + 1\<rparr>)"
proof -
  have "map_of (rb_cancel r) h = None" using assms(2) by (simp add: has_key_def)
  then have up: "AList.update h i (rb_cancel r) = rb_cancel r @ [(h, i)]" for i
    by (simp add: update_absent)
  have "points (ls @ [(h, n)]) n (rb_cancel r')" "points (ls @ [(h, n)]) n (rb_beatingChan r')" "wf_map (rb_cancel r')"
    using assms by (auto simp: remote_ok_def points_add)
  with assms(1,3) up show ?thesis by (simp add: remote_ok_def)
qed

lemma hb_inv_onAddWatcher:
  assumes inv: "hb_inv now t"
  shows "hb_inv now (onAddWatcher now hbID n d to t)"
proof (cases "has_key (rb_cancel (remote n (h_remotes t))) hbID \<or> map_of (h_heartbeat t) hbID = None")
  case True
  with inv show ?thesis by (auto simp: onAddWatcher_def remote_def Let_def split: option.split)
next
  case False
  then obtain hb where key: "\<not> has_key (rb_cancel (remote n (h_remotes t))) hbID" and hb: "map_of (h_heartbeat t) hbID = Some hb"
    by auto
  let ?ls = "ids (h_watchers t)" and ?r = "remote n (h_remotes t)" and ?w = "newWatcher now hbID n d to"
  define r' where "r' = ?r\<lparr>rb_cancel := AList.update hbID (length ?ls) (rb_cancel ?r), rb_beatingChan := AList.update hbID (length ?ls) (rb_beatingChan ?r)\<rparr>"
  define r where "r = (if is_rx hbID then r'\<lparr>rb_rxCount := rb_rxCount r' + 1\<rparr> else r'\<lparr>rb_txCount := rb_txCount r' + 1\<rparr>)"
  have rok: "remote_ok (?ls @ [(hbID, n)]) n r"
    using inv remote_ok_add [OF _ key r'_def] by (simp add: r_def hb_inv_def links_ok_def)
  have rb: "rb_cancel r = AList.update hbID (length ?ls) (rb_cancel ?r)" "rb_rxBeating r = rb_rxBeating ?r"
    by (simp_all add: r_def r'_def)
  have w: "ids [?w] = [(hbID, n)]" "heard m [?w] = 0" "watcher_ok now ?w" for m
    using newWatcher_ok [of now hbID n d to] by (simp_all add: ids_def heard_def watcher_ok_def newWatcher_def)
  have "links_ok (ids (h_watchers t @ [?w])) (AList.update n r (h_remotes t))"
    using inv rok key rb w by (auto simp: hb_inv_def links_ok_def remote_ok_append nth_append less_Suc_eq update_conv has_key_def)
  moreover have "counts_ok (h_watchers t @ [?w]) (AList.update n r (h_remotes t)) (h_pubs t)"
    using inv w(2) rb(2) by (simp add: hb_inv_def counts_ok_def heard_def)
  moreover have "beats_ok (h_watchers t @ [?w]) (h_beats t)"
    using inv by (auto simp: hb_inv_def beats_ok_def nth_append)
  moreover have "onAddWatcher now hbID n d to t =
      t\<lparr>h_heartbeat := AList.update hbID (hb\<lparr>hs_Peers := AList.update n \<lparr>ps_Desc = d, ps_IsBeating = False, ps_ChangedAt = now, ps_LastBeatingAt = 0\<rparr> (hs_Peers hb)\<rparr>) (h_heartbeat t),
        h_remotes := AList.update n r (h_remotes t), h_watchers := h_watchers t @ [?w]\<rparr>"
    using key hb by (simp add: onAddWatcher_def remote_def r_def r'_def Let_def)
  ultimately show ?thesis using inv w(3) by (simp add: hb_inv_def)
qed

lemma hb_inv_onSetPeerSuccess:
  assumes "hb_inv now t" "is_rx hbID \<longrightarrow> v"
  shows "hb_inv now (onSetPeerSuccess n hbID v t)"
proof -
  have "i < length (h_watchers t) \<and> w_HbID (h_watchers t ! i) = hbID"
    if "map_of (h_remotes t) n = Some r" "map_of (rb_beatingChan r) hbID = Some i" for r i
  proof -
    have "remote_ok (ids (h_watchers t)) n (remote n (h_remotes t))" using assms(1) by (simp add: hb_inv_def links_ok_def)
    with that show ?thesis by (fastforce simp: remote_ok_def points_def)
  qed
  with assms show ?thesis
    by (auto simp: onSetPeerSuccess_def hb_inv_def beats_ok_def split: option.split)
qed

lemma filter_length_removeAll:
  "distinct ks \<Longrightarrow> h \<in> set ks \<Longrightarrow> length (filter P ks) = length (filter P (removeAll h ks)) + (if P h then 1 else 0)"
proof (induction ks)
  case Nil
  then show ?case by simp
next
  case (Cons a ks)
  then show ?case by (cases "a = h") (simp_all add: removeAll_id)
qed

lemma remote_ok_del:
  assumes "remote_ok ls n r" "has_key (rb_cancel r) h" "\<not> is_rx h"
  shows "remote_ok ls n (r\<lparr>rb_cancel := AList.delete h (rb_cancel r), rb_txCount := rb_txCount r - 1\<rparr>)"
proof -
  have "distinct (map fst (rb_cancel r))" "h \<in> set (map fst (rb_cancel r))"
    using assms(1,2) by (simp_all add: remote_ok_def wf_map_def has_key_iff)
  from filter_length_removeAll [OF this, of is_rx] filter_length_removeAll [OF this, of "\<lambda>h. \<not> is_rx h"]
  show ?thesis using assms by (auto simp: remote_ok_def points_delete AList.delete_keys)
qed

lemma remote_ok_zero: "remote_ok ls n zero_remote"
  by (simp add: remote_ok_def points_def wf_map_def)

lemma heard_none: "(\<And>l. l \<in> set (ids ws) \<Longrightarrow> is_rx (fst l) \<Longrightarrow> n \<noteq> snd l) \<Longrightarrow> heard n ws = 0"
  by (force simp: heard_def ids_def filter_empty_conv)

lemma points_remote: "hb_inv now t \<Longrightarrow> map_of (h_remotes t) n = Some r \<Longrightarrow> points (ids (h_watchers t)) n (rb_cancel r)"
  by (auto simp: hb_inv_def links_ok_def remote_ok_def dest: spec [of _ n])

lemma hb_inv_onDelWatcher:
  assumes inv: "hb_inv now t" and tx: "\<not> is_rx hbID"
  shows "hb_inv now (onDelWatcher hbID n t)"
proof -
  have main: "hb_inv now (t\<lparr>h_watchers := (h_watchers t)[i := (h_watchers t ! i)\<lparr>w_cancelled := True\<rparr>],
      h_remotes := (if rb_rxCount r' + rb_txCount r' = 0 then AList.delete n (h_remotes t) else AList.update n r' (h_remotes t))\<rparr>)"
    if inv: "hb_inv now t" and r: "map_of (h_remotes t) n = Some r" and i: "map_of (rb_cancel r) hbID = Some i"
      and r': "r' = r\<lparr>rb_cancel := AList.delete hbID (rb_cancel r), rb_txCount := rb_txCount r - 1\<rparr>" for t r r' i
  proof -
    let ?w = "(h_watchers t ! i)\<lparr>w_cancelled := True\<rparr>" and ?ls = "ids (h_watchers t)"
    have rok: "remote_ok ?ls n r" using inv r by (auto simp: hb_inv_def links_ok_def dest: spec [of _ n])
    then have il: "i < length (h_watchers t)" and link: "w_HbID (h_watchers t ! i) = hbID"
      using i by (fastforce simp: remote_ok_def points_def)+
    from rok i tx r' have rok': "remote_ok ?ls n r'" by (simp add: remote_ok_del has_key_def)
    have inv': "hb_inv now (t\<lparr>h_watchers := (h_watchers t)[i := ?w]\<rparr>)"
      using hb_inv_watcher [OF inv il, of ?w] hb_inv_nth [OF inv il] link tx by (simp add: same_id_def watcher_ok_def)
    have ids: "ids ((h_watchers t)[i := ?w]) = ?ls" by (rule ids_update [OF il]) (simp add: same_id_def)
    have keep: "map_of (rb_cancel r') h = map_of (rb_cancel r) h" if "is_rx h" for h
      using that tx r' by (auto simp: delete_conv)
    have "rb_rxBeating (remote n (h_remotes t)) = int (heard n ((h_watchers t)[i := ?w]))"
      using inv' by (simp add: hb_inv_def counts_ok_def)
    then have cnt: "rb_rxBeating r' = int (heard n ((h_watchers t)[i := ?w]))" using r r' by simp
    have up: "hb_inv now (t\<lparr>h_watchers := (h_watchers t)[i := ?w], h_remotes := AList.update n r' (h_remotes t)\<rparr>)"
      using inv' ids rok' keep r cnt by (auto simp: hb_inv_def links_ok_def counts_ok_def)
    have "hb_inv now (t\<lparr>h_watchers := (h_watchers t)[i := ?w], h_remotes := AList.delete n (h_remotes t)\<rparr>)"
      if z: "rb_rxCount r' + rb_txCount r' = 0"
    proof -
      have "rb_cancel r' = []"
        using z rok' sum_length_filter_compl [of is_rx "map fst (rb_cancel r')"] by (simp add: remote_ok_def flip: length_0_conv)
      then have none: "n \<noteq> snd (?ls ! k)" if "k < length ?ls" "is_rx (fst (?ls ! k))" for k
        using that up ids by (fastforce simp: hb_inv_def links_ok_def)
      have "n \<noteq> snd l" if "l \<in> set ?ls" "is_rx (fst l)" for l
        using that none by (auto simp: in_set_conv_nth simp del: ids_simps)
      then have "heard n ((h_watchers t)[i := ?w]) = 0" using ids by (intro heard_none) simp
      with inv' ids none show ?thesis
        by (auto simp: hb_inv_def links_ok_def counts_ok_def remote_ok_zero)
    qed
    with up show ?thesis by simp
  qed
  show ?thesis
  proof -
    define t1 where "t1 = map_heartbeat hbID (\<lambda>hb. hb\<lparr>hs_Peers := AList.delete n (hs_Peers hb)\<rparr>) t"
    have inv1: "hb_inv now t1" using inv by (simp add: t1_def hb_inv_map_heartbeat)
    show ?thesis
    proof (cases "map_of (h_remotes t1) n")
      case None
      with inv1 show ?thesis by (simp add: onDelWatcher_def t1_def Let_def)
    next
      case (Some r)
      show ?thesis
      proof (cases "map_of (rb_cancel r) hbID")
        case None
        with Some inv1 show ?thesis by (simp add: onDelWatcher_def t1_def Let_def)
      next
        case i: (Some i)
        have "i < length (h_watchers t1)"
          using points_remote [OF inv1 Some] i by (fastforce simp: points_def)
        with main [OF inv1 Some i refl] Some i tx show ?thesis
          by (simp add: onDelWatcher_def Let_def map_watcher_def flip: t1_def split: if_splits)
      qed
    qed
  qed
qed

lemma onEvent_stale:
  assumes "map_of (h_remotes t) n = Some r" "is_rx h" "rb_rxBeating r \<noteq> 0"
  shows "\<exists>t'. onEvent now evStale n h t = Some t' \<and> h_watchers t' = h_watchers t \<and> h_beats t' = h_beats t
      \<and> h_pubs t' = h_pubs t @ PubHeartbeatStale n h now # (if rb_rxBeating r = 1 then [PubNodeStale n] else [])
      \<and> h_remotes t' = AList.update n (r\<lparr>rb_rxBeating := rb_rxBeating r - 1\<rparr>) (h_remotes t)"
  using assms by (simp add: onEvent_def countRx_def h_emit_def Let_def evStale_def evBeating_def)

lemma onEvent_beating:
  assumes "map_of (h_remotes t) n = Some r" "is_rx h" "rb_rxBeating r \<ge> 0"
  shows "\<exists>t'. onEvent now evBeating n h t = Some t' \<and> h_watchers t' = h_watchers t \<and> h_beats t' = h_beats t
      \<and> h_pubs t' = h_pubs t @ PubHeartbeatAlive n h now # (if rb_rxBeating r = 0 then [PubNodeAlive n] else [])
      \<and> h_remotes t' = AList.update n (r\<lparr>rb_rxBeating := rb_rxBeating r + 1\<rparr>) (h_remotes t)"
  using assms by (simp add: onEvent_def countRx_def h_emit_def Let_def evStale_def evBeating_def)

lemma hb_inv_onEvent:
  assumes inv: "hb_inv now t" and i: "i < length (h_watchers t)"
    and out: "w_out (h_watchers t ! i) = CmdEvent name nodename hbID # l"
  shows "\<exists>t'. onEvent now name nodename hbID (map_watcher i (sent now) t) = Some t' \<and> hb_inv now t'"
proof -
  let ?w = "h_watchers t ! i" and ?ws = "(h_watchers t)[i := sent now (h_watchers t ! i)]" and ?t = "map_watcher i (sent now) t"
  have tf: "h_watchers ?t = ?ws" "h_remotes ?t = h_remotes t" "h_pubs ?t = h_pubs t" "h_beats ?t = h_beats t"
    using i by (simp_all add: map_watcher_def)
  from hb_inv_nth [OF inv i] have ok: "watcher_ok now ?w" .
  then have sh: "w_shape ?w" by (simp add: watcher_ok_def)
  note ev = sent_event [OF sh out] and so = sent_ok [OF sh out, of now]
  have id: "same_id ?w (sent now ?w)" using so(2) by (simp add: same_link_def)
  have ok': "list_all (watcher_ok now) ?ws"
    using inv ok so by (intro watchers_update) (auto simp: hb_inv_def watcher_ok_def same_link_def same_id_def)
  have links: "links_ok (ids ?ws) (h_remotes t)" and beats: "beats_ok ?ws (h_beats t)"
    using inv ids_update [OF i id] beats_update [OF i id] by (simp_all add: hb_inv_def)
  have cnt: "counts_ok (h_watchers t) (h_remotes t) (h_pubs t)" using inv by (simp add: hb_inv_def)
  show ?thesis
  proof (cases "is_rx hbID")
    case False
    then have "heard n ?ws = heard n (h_watchers t)" for n
      using heard_update(4) [OF i id] ev(3) id by (simp add: same_id_def)
    with cnt have "counts_ok ?ws (h_remotes t) (h_pubs t @ [p])"
      if "\<And>n b. said n b p = b" for p using that by (simp add: counts_ok_def)
    with False ok' links beats i show ?thesis
      by (auto simp: onEvent_def map_watcher_def h_emit_def Let_def hb_inv_def split: option.split)
  next
    case True
    let ?r = "remote nodename (h_remotes t)" and ?h = "heard nodename (h_watchers t)"
    have rx: "is_rx (w_HbID (sent now ?w))" "w_nodename (sent now ?w) = nodename"
      using True ev(2,3) id by (simp_all add: same_id_def)
    have "map_of (rb_cancel ?r) hbID = Some i"
      using inv i True ev(2,3) by (auto simp: hb_inv_def links_ok_def)
    then have r: "map_of (h_remotes t) nodename = Some ?r"
      by (cases "map_of (h_remotes t) nodename") (auto simp: remote_def lkp_def)
    have rb: "rb_rxBeating ?r = int ?h" using cnt by (simp add: counts_ok_def)
    have upd: "links_ok (ids ?ws) (AList.update nodename (?r\<lparr>rb_rxBeating := k\<rparr>) (h_remotes t))" for k
      using links by (auto simp: links_ok_def remote_ok_def)
    show ?thesis
    proof (cases "acked ?w")
      case True
      then have hn: "heard n (h_watchers t) = heard n ?ws + (if n = nodename then 1 else 0)" for n
        using heard_update(3) [OF i id] ev(4) rx by simp
      then have h1: "int ?h = int (heard nodename ?ws) + 1" by simp
      have "counts_ok ?ws (AList.update nodename (?r\<lparr>rb_rxBeating := int (heard nodename ?ws)\<rparr>) (h_remotes t))
          (h_pubs t @ PubHeartbeatStale nodename hbID now # (if rb_rxBeating ?r = 1 then [PubNodeStale nodename] else []))"
        unfolding counts_ok_def
      proof
        fix n
        have c: "rb_rxBeating (remote n (h_remotes t)) = int (heard n (h_watchers t))" "says_alive n (h_pubs t) \<longleftrightarrow> heard n (h_watchers t) > 0"
          using cnt by (simp_all add: counts_ok_def)
        show "rb_rxBeating (remote n (AList.update nodename (?r\<lparr>rb_rxBeating := int (heard nodename ?ws)\<rparr>) (h_remotes t))) = int (heard n ?ws)
          \<and> (says_alive n (h_pubs t @ PubHeartbeatStale nodename hbID now # (if rb_rxBeating ?r = 1 then [PubNodeStale nodename] else [])) \<longleftrightarrow> heard n ?ws > 0)"
          using c hn [of n] rb by (cases "n = nodename") auto
      qed
      moreover have "rb_rxBeating ?r - 1 = int (heard nodename ?ws)" "rb_rxBeating ?r \<noteq> 0" using rb h1 by auto
      ultimately show ?thesis
        using onEvent_stale [of ?t nodename ?r hbID now] True ev(1) r \<open>is_rx hbID\<close> upd ok' beats tf
        by (auto simp: hb_inv_def simp del: remote_Some)
    next
      case False
      then have hn: "heard n ?ws = heard n (h_watchers t) + (if n = nodename then 1 else 0)" for n
        using heard_update(2) [OF i id] ev(4) rx by simp
      have "counts_ok ?ws (AList.update nodename (?r\<lparr>rb_rxBeating := int ?h + 1\<rparr>) (h_remotes t))
          (h_pubs t @ PubHeartbeatAlive nodename hbID now # (if rb_rxBeating ?r = 0 then [PubNodeAlive nodename] else []))"
        unfolding counts_ok_def
      proof
        fix n
        have c: "rb_rxBeating (remote n (h_remotes t)) = int (heard n (h_watchers t))" "says_alive n (h_pubs t) \<longleftrightarrow> heard n (h_watchers t) > 0"
          using cnt by (simp_all add: counts_ok_def)
        show "rb_rxBeating (remote n (AList.update nodename (?r\<lparr>rb_rxBeating := int ?h + 1\<rparr>) (h_remotes t))) = int (heard n ?ws)
          \<and> (says_alive n (h_pubs t @ PubHeartbeatAlive nodename hbID now # (if rb_rxBeating ?r = 0 then [PubNodeAlive nodename] else [])) \<longleftrightarrow> heard n ?ws > 0)"
          using c hn [of n] rb by (cases "n = nodename") auto
      qed
      then have "counts_ok ?ws (AList.update nodename (?r\<lparr>rb_rxBeating := rb_rxBeating ?r + 1\<rparr>) (h_remotes t))
          (h_pubs t @ PubHeartbeatAlive nodename hbID now # (if rb_rxBeating ?r = 0 then [PubNodeAlive nodename] else []))"
        unfolding rb .
      moreover have "rb_rxBeating ?r \<ge> 0" unfolding rb by simp
      ultimately show ?thesis
        using onEvent_beating [of ?t nodename ?r hbID now] False ev(1) r \<open>is_rx hbID\<close> upd ok' beats tf
        by (auto simp: hb_inv_def simp del: remote_Some)
    qed
  qed
qed

section \<open>A peer is said alive when it is heard\<close>

text \<open>
  Runs that stop no receiving link: none is unregistered, its watchers are not deleted nor its
  context cancelled. The events come from the watchers, and the receivers only say that they got a
  message.
\<close>

fun keeps_rx :: "hb_action \<Rightarrow> bool" where
  "keeps_rx (Recv (CmdUnregister hbID)) = (\<not> is_rx hbID)"
| "keeps_rx (Recv (CmdDelWatcher hbID _)) = (\<not> is_rx hbID)"
| "keeps_rx (Recv (CmdEvent _ _ _)) = False"
| "keeps_rx (Recv (CmdSetPeerSuccess _ hbID success)) = (is_rx hbID \<longrightarrow> success)"
| "keeps_rx (Cancel hbID) = (\<not> is_rx hbID)"
| "keeps_rx _ = True"

text \<open>The steps happen in the order of their times, none after \<open>now\<close>.\<close>

fun ordered :: "time \<Rightarrow> (time \<times> hb_action) list \<Rightarrow> time \<Rightarrow> bool" where
  "ordered from [] now = (from \<le> now)"
| "ordered from ((at, _) # l) now = (from \<le> at \<and> 0 < at \<and> ordered at l now)"

lemma hb_step_inv:
  assumes inv: "hb_inv now t" and a: "keeps_rx a" and now: "0 < now"
  shows "\<exists>t'. hb_step now a t = Some t' \<and> hb_inv now t'"
proof (cases a)
  case (Recv c)
  show ?thesis
  proof (cases c)
    case (CmdUnregister hbID)
    with Recv a have "\<not> is_rx hbID" by simp
    then have "hb_inv now (onUnregister hbID t)"
      using inv by (auto simp: onUnregister_def hb_inv_other Let_def split: option.split)
    with Recv CmdUnregister show ?thesis by simp
  qed (use Recv a inv in \<open>auto simp: onRegister_def hb_inv_other hb_inv_map_heartbeat hb_inv_onAddWatcher hb_inv_onDelWatcher hb_inv_onSetPeerSuccess\<close>)
next
  case (Take i)
  show ?thesis
  proof (cases "i < length (h_watchers t) \<and> w_out (h_watchers t ! i) \<noteq> []")
    case False
    with Take inv show ?thesis by auto
  next
    case True
    then obtain c l where i: "i < length (h_watchers t)" and out: "w_out (h_watchers t ! i) = c # l" by (auto simp: neq_Nil_conv)
    from hb_inv_nth [OF inv i] have ok: "watcher_ok now (h_watchers t ! i)" .
    then have sh: "w_shape (h_watchers t ! i)" by (simp add: watcher_ok_def)
    show ?thesis
    proof (cases "\<exists>name nodename hbID. c = CmdEvent name nodename hbID")
      case True
      with hb_inv_onEvent [OF inv i] out i Take show ?thesis by auto
    next
      case False
      from sent_other [OF sh out False] obtain st where
        c: "c = CmdSetPeerStatus (w_nodename (h_watchers t ! i)) (w_HbID (h_watchers t ! i)) st" by blast
      have "hb_inv now (map_watcher i (sent now) t)"
        using hb_inv_watcher [OF inv i, of "sent now (h_watchers t ! i)"] sent_other(2) [OF sh out False, of now] sent_ok [OF sh out, of now] ok i
        by (auto simp: map_watcher_def watcher_ok_def same_link_def same_id_def)
      with Take i out c show ?thesis by (simp add: hb_inv_map_heartbeat)
    qed
  qed
next
  case (Beat k)
  then show ?thesis using inv hb_inv_Beat [OF inv] now by (auto split: prod.split)
next
  case (Cancel hbID)
  then show ?thesis using hb_inv_Cancel [OF inv] a by simp
next
  case (Return i)
  then show ?thesis using hb_inv_Return [OF inv] by simp
next
  case (StatusTick i)
  then show ?thesis using hb_inv_watcher_step [OF inv] setPeerStatusTick_ok by auto
next
  case (PubTick i)
  then show ?thesis using hb_inv_watcher_step [OF inv] pubTick_ok by auto
next
  case (StaleTick i)
  then show ?thesis using hb_inv_watcher_step [OF inv] staleTick_ok by auto
next
  case UpdateTick
  with inv show ?thesis by (simp add: updateTick_def hb_inv_other)
next
  case ReadCache
  with inv show ?thesis by (simp add: cacheHeartbeats_def hb_inv_other)
qed

lemma hb_run_inv:
  "hb_inv from t \<Longrightarrow> ordered from l now \<Longrightarrow> \<forall>(_, a) \<in> set l. keeps_rx a \<Longrightarrow> \<exists>t'. hb_run l t = Some t' \<and> hb_inv now t'"
proof (induction l arbitrary: "from" t)
  case Nil
  then show ?case by (auto intro: hb_inv_later)
next
  case (Cons x l)
  obtain at a where x: "x = (at, a)" by force
  with Cons.prems have inv: "hb_inv at t" by (auto intro: hb_inv_later)
  with hb_step_inv [OF inv, of a] Cons.prems x obtain t' where "hb_step at a t = Some t'" "hb_inv at t'" by auto
  with Cons.IH [of at t'] Cons.prems x show ?case by simp
qed

text \<open>
  Nothing is on its way at the time \<open>now\<close> for the receiving links of a peer: no command, no tick, no
  change younger than the delay of a publication.
\<close>

definition settled :: "time \<Rightarrow> string \<Rightarrow> hbctrl \<Rightarrow> bool" where
  "settled now n t =
    (\<forall>w \<in> set (h_watchers t). is_rx (w_HbID w) \<and> w_nodename w = n \<and> \<not> w_done w \<longrightarrow>
       w_out w = [] \<and> \<not> due now (w_pubTicker w) \<and> \<not> due now (w_staleTicker w) \<and> ps_ChangedAt (w_peer w) + pubDelay \<le> now)"

definition heard_lately :: "time \<Rightarrow> string \<Rightarrow> hbctrl \<Rightarrow> bool" where
  "heard_lately now n t =
    (\<exists>w \<in> set (h_watchers t). is_rx (w_HbID w) \<and> w_nodename w = n \<and> ps_LastBeatingAt (w_peer w) \<noteq> 0
       \<and> now < ps_LastBeatingAt (w_peer w) + w_timeout w)"

lemma settled_acked:
  assumes "watcher_ok now w" "is_rx (w_HbID w)" "w_out w = []" "\<not> due now (w_pubTicker w)" "\<not> due now (w_staleTicker w)"
    and "ps_ChangedAt (w_peer w) + pubDelay \<le> now"
  shows "acked w \<longleftrightarrow> ps_LastBeatingAt (w_peer w) \<noteq> 0 \<and> now < ps_LastBeatingAt (w_peer w) + w_timeout w"
  using assms by (auto simp: watcher_ok_def watcher_defs split: if_splits)

lemma settled_heard:
  assumes "hb_inv now t" "settled now n t"
  shows "says_alive n (h_pubs t) \<longleftrightarrow> heard_lately now n t"
proof -
  have "watcher_ok now w" if "w \<in> set (h_watchers t)" for w
    using assms(1) that by (simp add: hb_inv_def list_all_iff)
  moreover from this have "\<not> w_done w" if "w \<in> set (h_watchers t)" "is_rx (w_HbID w)" for w
    using that by (simp add: watcher_ok_def)
  ultimately have "(\<exists>w \<in> set (h_watchers t). is_rx (w_HbID w) \<and> w_nodename w = n \<and> acked w) \<longleftrightarrow> heard_lately now n t"
    using assms(2) settled_acked unfolding settled_def heard_lately_def by (metis (no_types, lifting))
  moreover have "says_alive n (h_pubs t) \<longleftrightarrow> heard n (h_watchers t) > 0"
    using assms(1) by (simp add: hb_inv_def counts_ok_def)
  moreover have "heard n (h_watchers t) > 0 \<longleftrightarrow> (\<exists>w \<in> set (h_watchers t). is_rx (w_HbID w) \<and> w_nodename w = n \<and> acked w)"
    by (auto simp: heard_def filter_empty_conv)
  ultimately show ?thesis by simp
qed

text \<open>
  C5. As long as no receiving link is stopped, the controller never panics, whatever the order its
  watchers and tickers run in, and once nothing is on its way a peer is said alive exactly when one
  of its receiving links got a message from it within its timeout.
\<close>

theorem node_alive_exact:
  assumes "ordered 0 l now" "\<forall>(_, a) \<in> set l. keeps_rx a"
  shows "\<exists>t. hb_run l hbctrl_New = Some t
    \<and> (\<forall>n. settled now n t \<longrightarrow> (says_alive n (h_pubs t) \<longleftrightarrow> heard_lately now n t))"
  using hb_run_inv [OF hb_inv_New assms] settled_heard by blast

section \<open>Stopping a receiving link\<close>

text \<open>The two links of a heartbeat with one peer, which beats once: the peer is said alive.\<close>

definition ex_links :: "(time \<times> hb_action) list" where
  "ex_links =
    [(1, Recv (CmdRegister ''hb#1.tx'' ''unicast'')), (1, Recv (CmdAddWatcher ''hb#1.tx'' ''n2'' [] (15 * second))),
     (1, Recv (CmdRegister ''hb#1.rx'' ''unicast'')), (1, Recv (CmdAddWatcher ''hb#1.rx'' ''n2'' [] (15 * second))),
     (second, Recv (CmdSetPeerSuccess ''n2'' ''hb#1.rx'' True)), (second, Beat 0),
     (second + pubDelay, PubTick 1), (second + pubDelay, Take 1), (second + pubDelay, Take 1)]"

lemmas ex_times = second_def pubDelay_def minute_def

theorem node_alive_exact_witness:
  "\<exists>t. hb_run ex_links hbctrl_New = Some t
    \<and> (\<forall>n. settled (2 * second) n t \<longrightarrow> (says_alive n (h_pubs t) \<longleftrightarrow> heard_lately (2 * second) n t))"
  using node_alive_exact [of ex_links "2 * second"] by (simp add: ex_links_def ex_times is_rx_def HasSuffix_def)

text \<open>The command that restarts the receiver: it is stopped, its watchers are deleted, then it is started again.\<close>

definition ex_restart :: "(time \<times> hb_action) list" where
  "ex_restart =
    [(2 * second, Cancel ''hb#1.rx''), (2 * second, Recv (CmdDelWatcher ''hb#1.rx'' ''n2'')), (2 * second, Return 1),
     (2 * second, Recv (CmdSetState ''hb#1.rx'' ''stopped'')),
     (2 * second, Recv (CmdRegister ''hb#1.rx'' ''unicast'')), (2 * second, Recv (CmdAddWatcher ''hb#1.rx'' ''n2'' [] (15 * second))),
     (3 * second, Recv (CmdSetPeerSuccess ''n2'' ''hb#1.rx'' True)), (3 * second, Beat 0),
     (3 * second + pubDelay, PubTick 2), (3 * second + pubDelay, Take 2), (3 * second + pubDelay, Take 2),
     (18 * second, StaleTick 2), (18 * second + pubDelay, PubTick 2), (18 * second + pubDelay, Take 2), (18 * second + pubDelay, Take 2)]"

definition dead_said_alive :: "time \<Rightarrow> string \<Rightarrow> hbctrl option \<Rightarrow> bool" where
  "dead_said_alive now n r =
    (case r of None \<Rightarrow> False | Some t \<Rightarrow> settled now n t \<and> \<not> heard_lately now n t \<and> says_alive n (h_pubs t))"

text \<open>
  After the receiver of a heartbeat is restarted by the command of the daemon, a peer that stops
  beating is never said stale: the watcher deleted with its link leaves the link counted.
\<close>

theorem restart_hides_death: "dead_said_alive minute ''n2'' (hb_run (ex_links @ ex_restart) hbctrl_New)"
  by code_simp

text \<open>
  A change of the configuration of the heartbeat unregisters the link first: the count goes down to
  zero and nothing is said, so a peer that does not beat again is not said stale either.
\<close>

definition ex_reconfigure :: "(time \<times> hb_action) list" where
  "ex_reconfigure =
    [(2 * second, Recv (CmdUnregister ''hb#1.rx'')), (2 * second, Cancel ''hb#1.rx''), (2 * second, Recv (CmdDelWatcher ''hb#1.rx'' ''n2'')),
     (2 * second, Return 1), (2 * second, Recv (CmdRegister ''hb#1.rx'' ''unicast'')),
     (2 * second, Recv (CmdAddWatcher ''hb#1.rx'' ''n2'' [] (15 * second)))]"

lemma reconfigure_hides_death: "dead_said_alive minute ''n2'' (hb_run (ex_links @ ex_reconfigure) hbctrl_New)"
  by code_simp

text \<open>A link unregistered while its watcher is sending that the peer is stale makes the controller panic.\<close>

definition ex_unregister :: "(time \<times> hb_action) list" where
  "ex_unregister =
    [(16 * second, StaleTick 1), (16 * second + pubDelay, PubTick 1), (16 * second + pubDelay, Recv (CmdUnregister ''hb#1.rx'')),
     (16 * second + pubDelay, Take 1)]"

lemma unregister_panics: "hb_run (ex_links @ ex_unregister) hbctrl_New = None"
  by code_simp

end
