(* ===== verification/Hb_Drop.thy ===== *)
theory Hb_Drop
  imports Prelude
begin

text \<open>
  What a stale peer costs it, \<open>daemon/hb/hbctrl/peer_drop.go\<close>: its data is dropped at once or, when it is
  in maintenance, at the end of the maintenance grace period unless it is alive again before. The
  timers of the delayed drops are a list; a context cancelled or expired is one that never fires.
  \<open>maintenance\<close> says of a peer that the last monitor known of its node is in the maintenance state.
\<close>

record drop_timer =
  dt_peer :: string
  dt_deadline :: "time"
  dt_live :: bool

record drop_call =
  dc_timer :: nat
  dc_at :: "time"

record dropper =
  dr_grace :: duration
  dr_dropM :: "(string, drop_call) gomap"
  dr_timers :: "drop_timer list"
  dr_drops :: "(time \<times> string) list"

definition newDropper :: "duration \<Rightarrow> dropper" where
  "newDropper grace = \<lparr>dr_grace = grace, dr_dropM = [], dr_timers = [], dr_drops = []\<rparr>"

definition dropPeerNode :: "time \<Rightarrow> string \<Rightarrow> dropper \<Rightarrow> dropper" where
  "dropPeerNode now peer t = t\<lparr>dr_drops := dr_drops t @ [(now, peer)]\<rparr>"

definition cancelTimer :: "nat \<Rightarrow> dropper \<Rightarrow> dropper" where
  "cancelTimer i t =
    (if i < length (dr_timers t) then t\<lparr>dr_timers := (dr_timers t)[i := (dr_timers t ! i)\<lparr>dt_live := False\<rparr>]\<rparr> else t)"

definition delayDropPeer :: "time \<Rightarrow> (string \<Rightarrow> bool) \<Rightarrow> string \<Rightarrow> dropper \<Rightarrow> dropper" where
  "delayDropPeer now maintenance peer t =
    (if maintenance peer then
       (let (delay, t) = (case map_of (dr_dropM t) peer of
                            None \<Rightarrow> (dr_grace t, t)
                          | Some d \<Rightarrow> (dc_at d + dr_grace t - now, cancelTimer (dc_timer d) t))
        in t\<lparr>dr_dropM := AList.update peer \<lparr>dc_timer = length (dr_timers t), dc_at = now\<rparr> (dr_dropM t),
             dr_timers := dr_timers t @ [\<lparr>dt_peer = peer, dt_deadline = now + delay, dt_live = True\<rparr>]\<rparr>)
     else dropPeerNode now peer t)"

text \<open>\<open>reload\<close> is the grace period of the configuration read again, \<open>None\<close> when it can not be read.\<close>

definition drop_onConfigFileUpdated :: "time \<Rightarrow> (string \<Rightarrow> bool) \<Rightarrow> duration option \<Rightarrow> dropper \<Rightarrow> dropper" where
  "drop_onConfigFileUpdated now maintenance reload t =
    (case reload of
       None \<Rightarrow> t
     | Some grace \<Rightarrow> foldl (\<lambda>t peer. delayDropPeer now maintenance peer t) (t\<lparr>dr_grace := grace\<rparr>) (map fst (dr_dropM t)))"

definition drop_onNodeAlive :: "string \<Rightarrow> dropper \<Rightarrow> dropper" where
  "drop_onNodeAlive peer t =
    (let t = (case map_of (dr_dropM t) peer of None \<Rightarrow> t | Some d \<Rightarrow> cancelTimer (dc_timer d) t)
     in t\<lparr>dr_dropM := AList.delete peer (dr_dropM t)\<rparr>)"

definition drop_onNodeStale :: "time \<Rightarrow> (string \<Rightarrow> bool) \<Rightarrow> string \<Rightarrow> dropper \<Rightarrow> dropper" where
  "drop_onNodeStale now maintenance peer t = delayDropPeer now maintenance peer t"

text \<open>The goroutine of a delayed drop, when its context is done.\<close>

definition dropExpired :: "time \<Rightarrow> nat \<Rightarrow> dropper \<Rightarrow> dropper" where
  "dropExpired now i t =
    (if i < length (dr_timers t) \<and> dt_live (dr_timers t ! i) \<and> dt_deadline (dr_timers t ! i) \<le> now
     then dropPeerNode now (dt_peer (dr_timers t ! i)) (cancelTimer i t)
     else t)"

datatype drop_event =
    DropConfigFileUpdated "string \<Rightarrow> bool" "duration option"
  | DropNodeAlive string
  | DropNodeStale "string \<Rightarrow> bool" string
  | DropExpired nat

fun drop_step :: "time \<Rightarrow> drop_event \<Rightarrow> dropper \<Rightarrow> dropper" where
  "drop_step now (DropConfigFileUpdated mnt reload) t = drop_onConfigFileUpdated now mnt reload t"
| "drop_step now (DropNodeAlive peer) t = drop_onNodeAlive peer t"
| "drop_step now (DropNodeStale mnt peer) t = drop_onNodeStale now mnt peer t"
| "drop_step now (DropExpired i) t = dropExpired now i t"

definition drop_run :: "(time \<times> drop_event) list \<Rightarrow> dropper \<Rightarrow> dropper" where
  "drop_run l t = foldl (\<lambda>t (now, e). drop_step now e t) t l"

section \<open>Who is dropped\<close>

text \<open>The peers whose last word is stale, with the time of the first such word since they were alive.\<close>

fun word_of :: "time \<Rightarrow> drop_event \<Rightarrow> (string \<Rightarrow> time option) \<Rightarrow> string \<Rightarrow> time option" where
  "word_of now (DropNodeAlive p) st = st(p := None)"
| "word_of now (DropNodeStale _ p) st = (if st p = None then st(p := Some now) else st)"
| "word_of now _ st = st"

definition stale_since :: "(time \<times> drop_event) list \<Rightarrow> string \<Rightarrow> time option" where
  "stale_since l = foldl (\<lambda>st (now, e). word_of now e st) (\<lambda>_. None) l"

text \<open>A delayed drop that can still fire is the one recorded for its peer, and a peer recorded is stale.\<close>

definition drop_inv :: "(string \<Rightarrow> time option) \<Rightarrow> dropper \<Rightarrow> bool" where
  "drop_inv st t =
    ((\<forall>i < length (dr_timers t). dt_live (dr_timers t ! i) \<longrightarrow>
        (\<exists>d. map_of (dr_dropM t) (dt_peer (dr_timers t ! i)) = Some d \<and> dc_timer d = i))
     \<and> (\<forall>p d. map_of (dr_dropM t) p = Some d \<longrightarrow> st p \<noteq> None \<and> dc_timer d < length (dr_timers t)))"

lemma cancelTimer_simps [simp]:
  "dr_dropM (cancelTimer i t) = dr_dropM t" "dr_drops (cancelTimer i t) = dr_drops t" "dr_grace (cancelTimer i t) = dr_grace t"
  "length (dr_timers (cancelTimer i t)) = length (dr_timers t)"
  "j < length (dr_timers t) \<Longrightarrow> dt_peer (dr_timers (cancelTimer i t) ! j) = dt_peer (dr_timers t ! j)"
  "j < length (dr_timers t) \<Longrightarrow> dt_deadline (dr_timers (cancelTimer i t) ! j) = dt_deadline (dr_timers t ! j)"
  "j < length (dr_timers t) \<Longrightarrow> dt_live (dr_timers (cancelTimer i t) ! j) \<longleftrightarrow> dt_live (dr_timers t ! j) \<and> i \<noteq> j"
  by (simp_all add: cancelTimer_def nth_list_update)

lemma drop_inv_drop [simp]: "drop_inv st (dropPeerNode now p t) = drop_inv st t"
  by (simp add: drop_inv_def dropPeerNode_def)

lemma drop_inv_cancel: "drop_inv st t \<Longrightarrow> drop_inv st (cancelTimer i t)"
  by (auto simp: drop_inv_def)

lemma drop_inv_delay:
  assumes inv: "drop_inv st t" and p: "st p \<noteq> None"
  shows "drop_inv st (delayDropPeer now mnt p t)"
proof (cases "mnt p")
  case False
  with inv show ?thesis by (simp add: delayDropPeer_def)
next
  case True
  obtain t1 d where t1: "delayDropPeer now mnt p t = t1\<lparr>dr_dropM := AList.update p \<lparr>dc_timer = length (dr_timers t1), dc_at = now\<rparr> (dr_dropM t1),
        dr_timers := dr_timers t1 @ [\<lparr>dt_peer = p, dt_deadline = now + d, dt_live = True\<rparr>]\<rparr>"
      and "drop_inv st t1" and dead: "\<forall>i < length (dr_timers t1). dt_live (dr_timers t1 ! i) \<longrightarrow> dt_peer (dr_timers t1 ! i) \<noteq> p"
  proof (cases "map_of (dr_dropM t) p")
    case None
    with True inv show ?thesis by (intro that [of t "dr_grace t"]) (auto simp: delayDropPeer_def drop_inv_def)
  next
    case (Some d)
    with True inv show ?thesis
      by (intro that [of "cancelTimer (dc_timer d) t" "dc_at d + dr_grace t - now"])
        (auto simp: delayDropPeer_def drop_inv_cancel, auto simp: drop_inv_def)
  qed
  then show ?thesis using p
    by (auto simp: drop_inv_def nth_append update_conv less_Suc_eq)
qed

lemma drop_inv_word:
  assumes inv: "drop_inv st t"
  shows "drop_inv (word_of now e st) (drop_step now e t)"
proof (cases e)
  case (DropConfigFileUpdated mnt reload)
  have "drop_inv st (foldl (\<lambda>t peer. delayDropPeer now mnt peer t) t ps)" if "\<forall>p \<in> set ps. st p \<noteq> None" "drop_inv st t" for ps t
    using that by (induction ps arbitrary: t) (simp_all add: drop_inv_delay)
  moreover have "\<forall>p \<in> set (map fst (dr_dropM t)). st p \<noteq> None"
    using inv by (auto simp: drop_inv_def) (metis map_of_eq_None_iff fst_conv image_eqI not_Some_eq)
  moreover have "drop_inv st (t\<lparr>dr_grace := g\<rparr>)" for g using inv by (simp add: drop_inv_def)
  ultimately show ?thesis
    using DropConfigFileUpdated inv by (auto simp: drop_onConfigFileUpdated_def split: option.split)
next
  case (DropNodeAlive p)
  with inv show ?thesis
    by (auto simp: drop_onNodeAlive_def drop_inv_def delete_conv split: option.split)
next
  case (DropNodeStale mnt p)
  have "drop_inv (word_of now e st) t" "word_of now e st p \<noteq> None" using inv DropNodeStale by (auto simp: drop_inv_def)
  with DropNodeStale show ?thesis by (simp add: drop_onNodeStale_def drop_inv_delay del: word_of.simps)
next
  case (DropExpired i)
  with inv show ?thesis by (simp add: dropExpired_def drop_inv_cancel)
qed

lemma drop_run_inv: "drop_inv (stale_since l) (drop_run l (newDropper g))"
proof (induction l rule: rev_induct)
  case Nil
  then show ?case by (simp add: drop_run_def newDropper_def drop_inv_def)
next
  case (snoc x l)
  then show ?case by (cases x) (simp add: drop_run_def stale_since_def drop_inv_word)
qed

text \<open>A step drops peers that are stale once it is done, now.\<close>

lemma delay_drops:
  "\<exists>l. dr_drops (delayDropPeer now mnt p t) = dr_drops t @ l \<and> set l \<subseteq> {(now, p)} \<and> (mnt p \<longrightarrow> l = [])"
  by (auto simp: delayDropPeer_def dropPeerNode_def split: option.split)

lemma delays_drops:
  "\<exists>l. dr_drops (foldl (\<lambda>t peer. delayDropPeer now mnt peer t) t ps) = dr_drops t @ l
     \<and> set l \<subseteq> {now} \<times> {p \<in> set ps. \<not> mnt p}"
proof (induction ps arbitrary: t)
  case Nil
  then show ?case by simp
next
  case (Cons p ps)
  obtain l where l: "dr_drops (delayDropPeer now mnt p t) = dr_drops t @ l" "set l \<subseteq> {(now, p)}" "mnt p \<longrightarrow> l = []"
    using delay_drops by blast
  obtain l' where "dr_drops (foldl (\<lambda>t peer. delayDropPeer now mnt peer t) (delayDropPeer now mnt p t) ps) = dr_drops (delayDropPeer now mnt p t) @ l'"
      "set l' \<subseteq> {now} \<times> {p \<in> set ps. \<not> mnt p}"
    using Cons.IH by blast
  with l show ?case by (intro exI [of _ "l @ l'"]) auto
qed

text \<open>The peers in maintenance in the eyes of an event.\<close>

fun in_maintenance :: "drop_event \<Rightarrow> string \<Rightarrow> bool" where
  "in_maintenance (DropConfigFileUpdated mnt _) p = mnt p"
| "in_maintenance (DropNodeStale mnt _) p = mnt p"
| "in_maintenance _ p = True"

lemma step_drops:
  assumes "drop_inv st t"
  shows "\<exists>l. dr_drops (drop_step now e t) = dr_drops t @ l \<and> (\<forall>(at, p) \<in> set l. at = now \<and> word_of now e st p \<noteq> None
     \<and> (in_maintenance e p \<longrightarrow> (\<exists>tm \<in> set (dr_timers t). dt_live tm \<and> dt_peer tm = p \<and> dt_deadline tm \<le> now)))"
proof (cases e)
  case (DropConfigFileUpdated mnt reload)
  have "st p \<noteq> None" if "p \<in> set (map fst (dr_dropM t))" for p
    using assms that by (auto simp: drop_inv_def) (metis map_of_eq_None_iff fst_conv image_eqI not_Some_eq)
  note stale = this
  show ?thesis
  proof (cases reload)
    case None
    with DropConfigFileUpdated show ?thesis by (simp add: drop_onConfigFileUpdated_def)
  next
    case (Some g)
    obtain l where "dr_drops (foldl (\<lambda>t peer. delayDropPeer now mnt peer t) (t\<lparr>dr_grace := g\<rparr>) (map fst (dr_dropM t))) = dr_drops t @ l"
        "set l \<subseteq> {now} \<times> {p \<in> set (map fst (dr_dropM t)). \<not> mnt p}"
      using delays_drops [of now mnt "t\<lparr>dr_grace := g\<rparr>" "map fst (dr_dropM t)"] by auto
    with stale DropConfigFileUpdated Some show ?thesis
      by (intro exI [of _ l]) (fastforce simp: drop_onConfigFileUpdated_def subset_iff)
  qed
next
  case (DropNodeAlive p)
  then show ?thesis by (auto simp: drop_onNodeAlive_def split: option.split)
next
  case (DropNodeStale mnt p)
  then show ?thesis using delay_drops [of now mnt p t] by (auto simp: drop_onNodeStale_def)
next
  case (DropExpired i)
  with assms show ?thesis by (auto simp: dropExpired_def dropPeerNode_def drop_inv_def)
qed

section \<open>The grace period\<close>

text \<open>The delayed drop of a peer in maintenance leaves it the period \<open>G\<close> since it is stale.\<close>

definition grace_inv :: "duration \<Rightarrow> string \<Rightarrow> time \<Rightarrow> (string \<Rightarrow> time option) \<Rightarrow> dropper \<Rightarrow> bool" where
  "grace_inv G p now st t =
    (G \<le> dr_grace t \<and> (\<forall>s. st p = Some s \<longrightarrow> s \<le> now)
     \<and> (\<forall>tm \<in> set (dr_timers t). dt_live tm \<and> dt_peer tm = p \<longrightarrow> (\<forall>s. st p = Some s \<longrightarrow> s + G \<le> dt_deadline tm))
     \<and> (\<forall>d s. map_of (dr_dropM t) p = Some d \<longrightarrow> st p = Some s \<longrightarrow> s \<le> dc_at d))"

lemma timers_cancel: "tm \<in> set (dr_timers (cancelTimer i t)) \<Longrightarrow> dt_live tm \<Longrightarrow> tm \<in> set (dr_timers t)"
  by (auto simp: cancelTimer_def dest: set_update_subset_insert [THEN subsetD] split: if_splits)

lemma grace_inv_cancel: "grace_inv G p now st t \<Longrightarrow> grace_inv G p now st (cancelTimer i t)"
  by (auto simp: grace_inv_def dest: timers_cancel)

lemma grace_inv_delay:
  assumes "grace_inv G p now st t" "q = p \<longrightarrow> map_of (dr_dropM t) p = None \<longrightarrow> (\<forall>s. st p = Some s \<longrightarrow> s = now)"
  shows "grace_inv G p now st (delayDropPeer now mnt q t)"
proof (cases "mnt q")
  case False
  with assms show ?thesis by (simp add: delayDropPeer_def dropPeerNode_def grace_inv_def)
next
  case True
  show ?thesis
  proof (cases "map_of (dr_dropM t) q")
    case None
    with True assms show ?thesis by (auto simp: delayDropPeer_def grace_inv_def update_conv)
  next
    case (Some d)
    have "grace_inv G p now st (cancelTimer (dc_timer d) t)" using assms(1) by (rule grace_inv_cancel)
    with True Some assms(1) show ?thesis by (fastforce simp: delayDropPeer_def grace_inv_def update_conv)
  qed
qed

lemma delay_keeps: "map_of (dr_dropM t) p \<noteq> None \<Longrightarrow> map_of (dr_dropM (delayDropPeer now mnt q t)) p \<noteq> None"
  by (auto simp: delayDropPeer_def dropPeerNode_def update_conv split: option.split)

lemma grace_inv_delays:
  "grace_inv G p now st t \<Longrightarrow> p \<in> set ps \<longrightarrow> map_of (dr_dropM t) p \<noteq> None \<Longrightarrow>
   grace_inv G p now st (foldl (\<lambda>t peer. delayDropPeer now mnt peer t) t ps)"
proof (induction ps arbitrary: t)
  case Nil
  then show ?case by simp
next
  case (Cons q ps)
  have "grace_inv G p now st (delayDropPeer now mnt q t)" using Cons.prems by (intro grace_inv_delay) auto
  moreover have "p \<in> set ps \<longrightarrow> map_of (dr_dropM (delayDropPeer now mnt q t)) p \<noteq> None"
    using Cons.prems(2) delay_keeps by auto
  ultimately show ?case using Cons.IH by simp
qed

text \<open>The runs in which the peer \<open>p\<close> is in maintenance and the grace period is never less than \<open>G\<close>.\<close>

fun leaves_grace :: "duration \<Rightarrow> string \<Rightarrow> drop_event \<Rightarrow> bool" where
  "leaves_grace G p (DropConfigFileUpdated mnt reload) = (mnt p \<and> (case reload of None \<Rightarrow> True | Some g \<Rightarrow> G \<le> g))"
| "leaves_grace G p (DropNodeStale mnt _) = mnt p"
| "leaves_grace G p _ = True"

text \<open>A stale peer in maintenance has a delayed drop recorded.\<close>

definition recorded :: "string \<Rightarrow> (string \<Rightarrow> time option) \<Rightarrow> dropper \<Rightarrow> bool" where
  "recorded p st t = (st p \<noteq> None \<longrightarrow> map_of (dr_dropM t) p \<noteq> None)"

lemma recorded_step:
  assumes r: "recorded p st t" and e: "leaves_grace G p e"
  shows "recorded p (word_of now e st) (drop_step now e t)"
proof (cases e)
  case (DropConfigFileUpdated mnt reload)
  have "map_of (dr_dropM (foldl (\<lambda>t peer. delayDropPeer now mnt peer t) t ps)) p \<noteq> None" if "map_of (dr_dropM t) p \<noteq> None" for ps t
    using that by (induction ps arbitrary: t) (simp_all add: delay_keeps del: not_None_eq)
  with r DropConfigFileUpdated show ?thesis
    by (auto simp: recorded_def drop_onConfigFileUpdated_def simp del: not_None_eq split: option.split)
next
  case (DropNodeAlive q)
  with r show ?thesis by (auto simp: recorded_def drop_onNodeAlive_def delete_conv split: option.split)
next
  case (DropNodeStale mnt q)
  with r e delay_keeps [of t p now mnt q] show ?thesis
    by (cases "q = p")
      (auto simp: recorded_def drop_onNodeStale_def delayDropPeer_def update_conv split: option.splits if_splits)
next
  case (DropExpired i)
  with r show ?thesis by (simp add: recorded_def dropExpired_def dropPeerNode_def)
qed

lemma grace_inv_step:
  assumes inv: "drop_inv st t" and g: "grace_inv G p now st t" and r: "recorded p st t" and e: "leaves_grace G p e"
  shows "grace_inv G p now (word_of now e st) (drop_step now e t)"
proof (cases e)
  case (DropConfigFileUpdated mnt reload)
  have "map_of (dr_dropM t) p \<noteq> None" if "p \<in> set (map fst (dr_dropM t))"
    using that by (auto simp: map_of_eq_None_iff)
  moreover have "grace_inv G p now st (t\<lparr>dr_grace := gr\<rparr>)" if "G \<le> gr" for gr
    using g that by (simp add: grace_inv_def)
  ultimately show ?thesis
    using DropConfigFileUpdated e g grace_inv_delays [of G p now st _ "map fst (dr_dropM t)" mnt]
    by (auto simp: drop_onConfigFileUpdated_def simp del: set_map split: option.split)
next
  case (DropNodeAlive q)
  with g show ?thesis
    by (cases "map_of (dr_dropM t) q")
      (auto simp: drop_onNodeAlive_def grace_inv_def delete_conv dest: timers_cancel split: if_splits)
next
  case (DropNodeStale mnt q)
  have "grace_inv G p now (word_of now e st) t"
  proof (cases "st p")
    case None
    then have dead: "\<forall>tm \<in> set (dr_timers t). dt_live tm \<longrightarrow> dt_peer tm \<noteq> p" "map_of (dr_dropM t) p = None"
      using inv by (fastforce simp: drop_inv_def in_set_conv_nth)+
    with g None DropNodeStale show ?thesis by (auto simp: grace_inv_def)
  next
    case (Some s)
    with g DropNodeStale show ?thesis by (auto simp: grace_inv_def)
  qed
  moreover have "s = now" if "q = p" "map_of (dr_dropM t) p = None" "word_of now e st p = Some s" for s
    using that r DropNodeStale by (auto simp: recorded_def)
  ultimately show ?thesis using DropNodeStale by (simp add: drop_onNodeStale_def grace_inv_delay)
next
  case (DropExpired i)
  with g show ?thesis by (auto simp: dropExpired_def dropPeerNode_def dest: grace_inv_cancel simp: grace_inv_def timers_cancel)
qed

lemma grace_inv_later: "grace_inv G p now st t \<Longrightarrow> now \<le> now' \<Longrightarrow> grace_inv G p now' st t"
  by (auto simp: grace_inv_def)

text \<open>The events in the order of their times.\<close>

definition in_order :: "(time \<times> drop_event) list \<Rightarrow> bool" where
  "in_order l = sorted (map fst l)"

definition last_at :: "(time \<times> drop_event) list \<Rightarrow> time" where
  "last_at l = (if l = [] then 0 else fst (last l))"

lemma grace_run:
  assumes "in_order l" "\<forall>(_, e) \<in> set l. leaves_grace G p e" "G \<le> g"
  shows "grace_inv G p (last_at l) (stale_since l) (drop_run l (newDropper g)) \<and> recorded p (stale_since l) (drop_run l (newDropper g))"
  using assms(1,2)
proof (induction l rule: rev_induct)
  case Nil
  then show ?case using assms(3) by (simp add: drop_run_def stale_since_def newDropper_def grace_inv_def recorded_def)
next
  case (snoc x l)
  obtain now e where x: "x = (now, e)" by force
  have IH: "grace_inv G p (last_at l) (stale_since l) (drop_run l (newDropper g))" "recorded p (stale_since l) (drop_run l (newDropper g))"
    using snoc by (auto simp: in_order_def sorted_append)
  have "last_at l \<le> now \<or> l = []" using snoc.prems(1) x
    by (cases l rule: rev_cases) (auto simp: in_order_def sorted_append last_at_def)
  then have "grace_inv G p now (stale_since l) (drop_run l (newDropper g))"
    using IH(1) by (auto intro: grace_inv_later simp: stale_since_def drop_run_def newDropper_def grace_inv_def)
  with IH(2) snoc.prems(2) x drop_run_inv [of l g] show ?case
    using grace_inv_step recorded_step by (auto simp: stale_since_def drop_run_def last_at_def)
qed


definition ex_drop :: "(time \<times> drop_event) list" where
  "ex_drop = [(1, DropNodeStale (\<lambda>_. True) ''n2'')]"


text \<open>
  A delayed drop reset by a change of the configuration is counted from the last reset, not from
  the time the peer is stale, at the next change: of two changes at half the grace period, the second
  puts the drop off by half a grace period.
\<close>

definition ex_resets :: "(time \<times> drop_event) list" where
  "ex_resets =
    [(0, DropNodeStale (\<lambda>_. True) ''n2''), (30, DropConfigFileUpdated (\<lambda>_. True) (Some 60)),
     (31, DropConfigFileUpdated (\<lambda>_. True) (Some 60)), (60, DropExpired 0), (60, DropExpired 1), (60, DropExpired 2)]"

lemma resets_postpone_drop:
  "dr_drops (drop_run ex_resets (newDropper 60)) = []"
  "dr_drops (drop_run (ex_resets @ [(90, DropExpired 2)]) (newDropper 60)) = [(90, ''n2'')]"
  by code_simp+

end
