(* ===== verification/Hb_Main.thy ===== *)
theory Hb_Main
  imports Daemondata "HOL-Library.Sublist"
begin

text \<open>
  The heartbeat component, \<open>daemon/hb/main.go\<close>: the life of the links, started and stopped as the
  cluster configuration changes, the messages received from them handed over once to the daemon data,
  and the messages to send. Then the cache of the frames already delivered, \<open>daemon/hb/hbdedup\<close>.
\<close>

section \<open>Messages received\<close>

definition staleMsgMaxAge :: duration where "staleMsgMaxAge = 2 * minute"

definition msgTimeDuration :: duration where "msgTimeDuration = 10 * minute"

definition isStaleMsg :: "time \<Rightarrow> time \<Rightarrow> bool" where
  "isStaleMsg updated prev = (if prev = 0 \<or> \<not> updated < prev then False else prev - updated < staleMsgMaxAge)"

text \<open>The receiver of the messages: the stamp of the last message of every peer, the messages handed over.\<close>

record msg_rx =
  mr_msgTimes :: "(string, time) gomap"
  mr_processed :: "hb_msg list"

datatype rx_event = RxMsg hb_msg | RxStatTick "time"

fun msgFromRx :: "rx_event \<Rightarrow> msg_rx \<Rightarrow> msg_rx" where
  "msgFromRx (RxStatTick now) t =
    t\<lparr>mr_msgTimes := filter (\<lambda>(peer, updated). \<not> now - updated > msgTimeDuration) (mr_msgTimes t)\<rparr>"
| "msgFromRx (RxMsg msg) t =
    (let peer = hm_Nodename msg; prev = lkp 0 (mr_msgTimes t) peer
     in if prev = hm_UpdatedAt msg then t
        else if isStaleMsg (hm_UpdatedAt msg) prev then t
        else t\<lparr>mr_processed := mr_processed t @ [msg], mr_msgTimes := AList.update peer (hm_UpdatedAt msg) (mr_msgTimes t)\<rparr>)"

definition rx_run :: "rx_event list \<Rightarrow> msg_rx" where
  "rx_run l = foldl (\<lambda>t e. msgFromRx e t) \<lparr>mr_msgTimes = [], mr_processed = []\<rparr> l"

text \<open>The stamps of the messages of a peer, and that each is after the one before or at least the age later than which a message is taken for a clock stepped back.\<close>

definition stamps_of :: "string \<Rightarrow> hb_msg list \<Rightarrow> time list" where
  "stamps_of peer l = map hm_UpdatedAt (filter (\<lambda>m. hm_Nodename m = peer) l)"

fun in_step :: "time list \<Rightarrow> bool" where
  "in_step [] = True"
| "in_step [x] = True"
| "in_step (x # y # l) = ((x < y \<or> staleMsgMaxAge \<le> x - y) \<and> in_step (y # l))"

lemma in_step_snoc: "in_step (l @ [x]) = (in_step l \<and> (l = [] \<or> last l < x \<or> staleMsgMaxAge \<le> last l - x))"
  by (induction l rule: in_step.induct) auto

lemma stamps_snoc [simp]:
  "stamps_of peer (l @ [m]) = stamps_of peer l @ (if hm_Nodename m = peer then [hm_UpdatedAt m] else [])"
  by (simp add: stamps_of_def)

text \<open>The memory of a peer is the stamp of its last message while its messages are not too old.\<close>

definition remembers :: "string \<Rightarrow> msg_rx \<Rightarrow> bool" where
  "remembers peer t =
    (in_step (stamps_of peer (mr_processed t)) \<and> 0 \<notin> set (stamps_of peer (mr_processed t))
     \<and> (if stamps_of peer (mr_processed t) = [] then \<not> has_key (mr_msgTimes t) peer
        else map_of (mr_msgTimes t) peer = Some (last (stamps_of peer (mr_processed t)))))"

text \<open>The tick does not forget the peer, and its messages are stamped.\<close>

fun keeps_peer :: "string \<Rightarrow> msg_rx \<Rightarrow> rx_event \<Rightarrow> bool" where
  "keeps_peer peer t (RxStatTick now) = (now - lkp now (mr_msgTimes t) peer \<le> msgTimeDuration)"
| "keeps_peer peer t (RxMsg msg) = (hm_Nodename msg = peer \<longrightarrow> hm_UpdatedAt msg \<noteq> 0)"

lemma map_of_filter_kept: "wf_map m \<Longrightarrow> map_of m k = Some v \<Longrightarrow> P (k, v) \<Longrightarrow> map_of (filter P m) k = Some v"
  by (auto simp: wf_map_def distinct_map_filter intro!: map_of_is_SomeI dest: map_of_SomeD)

lemma rx_wf: "wf_map (mr_msgTimes t) \<Longrightarrow> wf_map (mr_msgTimes (msgFromRx e t))"
  by (cases e) (auto simp: Let_def wf_map_def distinct_map_filter distinct_update)

lemma remembers_step:
  assumes "remembers peer t" "wf_map (mr_msgTimes t)" "keeps_peer peer t e"
  shows "remembers peer (msgFromRx e t)"
proof (cases e)
  case (RxStatTick now)
  show ?thesis
  proof (cases "stamps_of peer (mr_processed t) = []")
    case True
    with assms(1) RxStatTick show ?thesis by (auto simp: remembers_def has_key_def map_of_eq_None_iff)
  next
    case False
    with assms RxStatTick show ?thesis by (auto simp: remembers_def lkp_def intro!: map_of_filter_kept)
  qed
next
  case (RxMsg m)
  show ?thesis
  proof (cases "hm_Nodename m = peer")
    case False
    with assms(1) RxMsg show ?thesis by (auto simp: remembers_def Let_def has_key_def update_conv)
  next
    case True
    have "last (stamps_of peer (mr_processed t)) \<noteq> 0" if "stamps_of peer (mr_processed t) \<noteq> []"
      using that assms(1) last_in_set by (fastforce simp: remembers_def)
    with True assms(1,3) RxMsg show ?thesis
      by (auto simp: remembers_def Let_def has_key_def update_conv lkp_def in_step_snoc isStaleMsg_def split: if_splits option.splits)
  qed
qed

definition keeps_run :: "string \<Rightarrow> rx_event list \<Rightarrow> bool" where
  "keeps_run peer l = list_all (\<lambda>i. keeps_peer peer (rx_run (take i l)) (l ! i)) [0..<length l]"

lemma rx_run_snoc [simp]: "rx_run (l @ [e]) = msgFromRx e (rx_run l)"
  by (simp add: rx_run_def)

lemma keeps_run_snoc: "keeps_run peer (l @ [e]) \<longleftrightarrow> keeps_run peer l \<and> keeps_peer peer (rx_run l) e"
  by (auto simp: keeps_run_def list_all_iff nth_append)

lemma rx_run_wf: "wf_map (mr_msgTimes (rx_run l))"
  by (induction l rule: rev_induct) (simp_all add: rx_wf, simp add: rx_run_def wf_map_def)

text \<open>
  The stamps of the messages of a peer handed over to the daemon data go forward, whatever the
  links repeat and reorder, but for a message that comes more than two minutes behind, taken for a
  peer whose clock was stepped back; as long as the peer is not silent for ten minutes.
\<close>

theorem handed_over_in_step:
  assumes "keeps_run peer l"
  shows "in_step (stamps_of peer (mr_processed (rx_run l)))"
proof -
  have "remembers peer (rx_run l)" using assms
  proof (induction l rule: rev_induct)
    case Nil
    then show ?case by (simp add: rx_run_def remembers_def stamps_of_def has_key_def)
  next
    case (snoc e l)
    then show ?case using remembers_step [OF _ rx_run_wf] keeps_run_snoc by simp
  qed
  then show ?thesis by (simp add: remembers_def)
qed

section \<open>Messages to send\<close>

text \<open>
  \<open>debounceLatestMsgToTx\<close>: a transmitter slower than the messages is handed the last one. The
  outcomes of its \<open>select\<close> are the events, \<open>DbOut\<close> when the transmitter takes the message relayed.
\<close>

datatype 'm debounce_event = DbIn 'm | DbOut

record 'm debounce =
  db_relayed :: "'m option"
  db_out :: "'m list"

fun debounceLatestMsgToTx :: "'m debounce_event \<Rightarrow> 'm debounce \<Rightarrow> 'm debounce" where
  "debounceLatestMsgToTx (DbIn b) t = t\<lparr>db_relayed := Some b\<rparr>"
| "debounceLatestMsgToTx DbOut t =
    (case db_relayed t of None \<Rightarrow> t | Some b \<Rightarrow> t\<lparr>db_relayed := None, db_out := db_out t @ [b]\<rparr>)"

definition debounce_run :: "'m debounce_event list \<Rightarrow> 'm debounce" where
  "debounce_run l = foldl (\<lambda>t e. debounceLatestMsgToTx e t) \<lparr>db_relayed = None, db_out = []\<rparr> l"

definition db_inputs :: "'m debounce_event list \<Rightarrow> 'm list" where
  "db_inputs l = concat (map (\<lambda>e. case e of DbIn b \<Rightarrow> [b] | DbOut \<Rightarrow> []) l)"

text \<open>
  What a transmitter was handed, with the message relayed, are messages in the order they came, the
  last one included.
\<close>

lemma debounce_latest:
  "subseq (db_out (debounce_run l) @ (case db_relayed (debounce_run l) of None \<Rightarrow> [] | Some b \<Rightarrow> [b])) (db_inputs l)
   \<and> (db_inputs l \<noteq> [] \<longrightarrow> last (db_out (debounce_run l) @ (case db_relayed (debounce_run l) of None \<Rightarrow> [] | Some b \<Rightarrow> [b])) = last (db_inputs l))
   \<and> (db_inputs l \<noteq> [] \<longrightarrow> db_relayed (debounce_run l) \<noteq> None \<or> db_out (debounce_run l) \<noteq> [])"
proof (induction l rule: rev_induct)
  case Nil
  then show ?case by (simp add: debounce_run_def db_inputs_def)
next
  case (snoc e l)
  have run: "debounce_run (l @ [e]) = debounceLatestMsgToTx e (debounce_run l)" by (simp add: debounce_run_def)
  show ?case
  proof (cases e)
    case (DbIn b)
    have "subseq (db_out (debounce_run l)) (db_out (debounce_run l) @ (case db_relayed (debounce_run l) of None \<Rightarrow> [] | Some b \<Rightarrow> [b]))"
      by (rule prefix_imp_subseq) simp
    then have "subseq (db_out (debounce_run l)) (db_inputs l)"
      using snoc.IH subseq_order.order_trans by blast
    with DbIn run show ?thesis by (simp add: db_inputs_def list_emb_append_mono)
  next
    case DbOut
    with snoc.IH run show ?thesis by (cases "db_relayed (debounce_run l)") (simp_all add: db_inputs_def)
  qed
qed

section \<open>Frames already delivered\<close>

text \<open>A frame is known by its hash and its size; the hash is a parameter.\<close>

type_synonym frame_key = "nat \<times> nat"

definition NewKey :: "(string \<Rightarrow> nat) \<Rightarrow> string \<Rightarrow> frame_key" where
  "NewKey hash frame = (hash frame, length frame)"

record frame_cache =
  fc_current :: "(frame_key, string) gomap"
  fc_previous :: "(frame_key, string) gomap"
  fc_window :: duration
  fc_rotatedAt :: "time"

definition DefaultWindow :: duration where "DefaultWindow = 30 * second"

definition NewCache :: "time \<Rightarrow> duration \<Rightarrow> frame_cache" where
  "NewCache now window =
    \<lparr>fc_current = [], fc_previous = [], fc_window = (if window \<le> 0 then DefaultWindow else window), fc_rotatedAt = now\<rparr>"

definition Seen :: "frame_cache \<Rightarrow> frame_key \<Rightarrow> string option" where
  "Seen t k = (case map_of (fc_current t) k of Some nodename \<Rightarrow> Some nodename | None \<Rightarrow> map_of (fc_previous t) k)"

definition Delivered :: "time \<Rightarrow> frame_key \<Rightarrow> string \<Rightarrow> frame_cache \<Rightarrow> frame_cache" where
  "Delivered now k nodename t =
    (let t = (if fc_window t \<le> now - fc_rotatedAt t
              then t\<lparr>fc_previous := fc_current t, fc_current := [], fc_rotatedAt := now\<rparr> else t)
     in t\<lparr>fc_current := AList.update k nodename (fc_current t)\<rparr>)"

definition delivered_run :: "(time \<times> frame_key \<times> string) list \<Rightarrow> frame_cache \<Rightarrow> frame_cache" where
  "delivered_run l t = foldl (\<lambda>t (now, k, n). Delivered now k n t) t l"

lemma Delivered_window [simp]: "fc_window (Delivered now k n t) = fc_window t"
  by (simp add: Delivered_def Let_def)

text \<open>The frame is in the current generation, or in the previous one until a window after \<open>at\<close>.\<close>

definition kept :: "time \<Rightarrow> frame_key \<Rightarrow> frame_cache \<Rightarrow> bool" where
  "kept at k t = (map_of (fc_current t) k \<noteq> None \<or> (map_of (fc_previous t) k \<noteq> None \<and> at \<le> fc_rotatedAt t))"

lemma kept_later:
  assumes "kept at k t" "at \<le> now" "now < at + fc_window t"
  shows "kept at k (Delivered now k' n t)"
  using assms by (auto simp: kept_def Delivered_def Let_def update_conv)

lemma kept_run:
  "kept at k t \<Longrightarrow> \<forall>(now, _) \<in> set l. at \<le> now \<and> now < at + fc_window t \<Longrightarrow> kept at k (delivered_run l t)"
proof (induction l arbitrary: t)
  case Nil
  then show ?case by (simp add: delivered_run_def)
next
  case (Cons x l)
  obtain now k' n where x: "x = (now, k', n)" by (cases x) auto
  have "kept at k (Delivered now k' n t)" using Cons.prems x by (intro kept_later) auto
  with Cons.IH [of "Delivered now k' n t"] Cons.prems x show ?case by (simp add: delivered_run_def)
qed

text \<open>
  A frame a link delivered is seen by the other links for the whole window after, whatever is
  delivered meanwhile.
\<close>

theorem delivered_frame_seen:
  assumes "\<forall>(now, _) \<in> set l. at \<le> now \<and> now < at + fc_window t"
  shows "Seen (delivered_run l (Delivered at k n t)) k \<noteq> None"
proof -
  have "kept at k (Delivered at k n t)" by (simp add: kept_def Delivered_def Let_def update_conv)
  from kept_run [OF this, of l] assms have "kept at k (delivered_run l (Delivered at k n t))" by simp
  then show ?thesis by (auto simp: kept_def Seen_def split: option.split)
qed

definition ex_msg :: "time \<Rightarrow> hb_msg" where
  "ex_msg at = \<lparr>hm_Kind = KindPing, hm_Nodename = ''n2'', hm_RunID = [], hm_Gen = [], hm_UpdatedAt = at, hm_Events = [], hm_NodeData = zero_node\<rparr>"

text \<open>Two links deliver the same message, and a late one comes after a newer one.\<close>

definition ex_rx :: "rx_event list" where
  "ex_rx = [RxMsg (ex_msg 5), RxMsg (ex_msg 5), RxMsg (ex_msg 9), RxMsg (ex_msg 7), RxStatTick 10]"

theorem handed_over_in_step_witness:
  "in_step (stamps_of ''n2'' (mr_processed (rx_run ex_rx))) \<and> stamps_of ''n2'' (mr_processed (rx_run ex_rx)) = [5, 9]"
proof
  have "keeps_run ''n2'' ex_rx"
    by code_simp
  then show "in_step (stamps_of ''n2'' (mr_processed (rx_run ex_rx)))" by (rule handed_over_in_step)
  show "stamps_of ''n2'' (mr_processed (rx_run ex_rx)) = [5, 9]" by code_simp
qed

end
