(* ===== verification/Hb_Links.thy ===== *)
theory Hb_Links
  imports Prelude
begin

text \<open>
  The life of the heartbeat links, \<open>daemon/hb/main.go\<close>: a heartbeat of the cluster configuration is a
  transmitter and a receiver, started and stopped as the configuration changes, started again when a
  start failed, and stopped, started and restarted by the commands of the users.

  A link that runs is recorded with the signature of the configuration it was made of. What a driver
  answers to its start and stop is the environment: the error of the start of the transmitter or the
  receiver of a heartbeat, the \<open>n\<close>th operation, and whether a stop failed. The configuration \<open>conf\<close> gives the signature of
  every heartbeat in the order one iteration visits them. The commands sent to the controller are
  those of the theory of the controller.
\<close>

datatype side = Tx | Rx

datatype link_op = Started side string | StartFailed side string | Stopped side string | StopFailed side string

record link_env =
  le_start :: "nat \<Rightarrow> side \<Rightarrow> string \<Rightarrow> string option"
  le_stop :: "nat \<Rightarrow> side \<Rightarrow> string \<Rightarrow> bool"

record links =
  li_txs :: "(string, string) gomap"
  li_rxs :: "(string, string) gomap"
  li_ridSignature :: "(string, string) gomap"
  li_retryErr :: "(string, string) gomap"
  li_trace :: "link_op list"

definition new_links :: links where
  "new_links = \<lparr>li_txs = [], li_rxs = [], li_ridSignature = [], li_retryErr = [], li_trace = []\<rparr>"

section \<open>Starting and stopping\<close>

definition li_emit :: "link_op \<Rightarrow> links \<Rightarrow> links" where
  "li_emit x t = t\<lparr>li_trace := li_trace t @ [x]\<rparr>"

definition startHbTx :: "link_env \<Rightarrow> string \<Rightarrow> string \<Rightarrow> links \<Rightarrow> string option \<times> links" where
  "startHbTx e rid sig t =
    (case le_start e (length (li_trace t)) Tx rid of
       Some err \<Rightarrow> (Some err, li_emit (StartFailed Tx rid) t)
     | None \<Rightarrow> (None, (li_emit (Started Tx rid) t)\<lparr>li_txs := AList.update rid sig (li_txs t)\<rparr>))"

definition startHbRx :: "link_env \<Rightarrow> string \<Rightarrow> string \<Rightarrow> links \<Rightarrow> string option \<times> links" where
  "startHbRx e rid sig t =
    (case le_start e (length (li_trace t)) Rx rid of
       Some err \<Rightarrow> (Some err, li_emit (StartFailed Rx rid) t)
     | None \<Rightarrow> (None, (li_emit (Started Rx rid) t)\<lparr>li_rxs := AList.update rid sig (li_rxs t)\<rparr>))"

definition startHb :: "link_env \<Rightarrow> string \<Rightarrow> string \<Rightarrow> links \<Rightarrow> string option \<times> links" where
  "startHb e rid sig t =
    (let (err1, t) = startHbTx e rid sig t; (err2, t) = startHbRx e rid sig t
     in (case (err1, err2) of
           (None, err2) \<Rightarrow> err2
         | (Some a, None) \<Rightarrow> Some a
         | (Some a, Some b) \<Rightarrow> Some (a @ ''\<newline>'' @ b), t))"

text \<open>The stop of one link, \<open>True\<close> when it failed.\<close>

definition stopHb :: "link_env \<Rightarrow> side \<Rightarrow> string \<Rightarrow> links \<Rightarrow> bool \<times> links" where
  "stopHb e s rid t =
    (if le_stop e (length (li_trace t)) s rid then (True, li_emit (StopFailed s rid) t)
     else (False, li_emit (Stopped s rid) t))"

definition stopHbTx :: "link_env \<Rightarrow> string \<Rightarrow> links \<Rightarrow> bool \<times> links" where
  "stopHbTx e rid t =
    (if has_key (li_txs t) rid
     then (case stopHb e Tx rid t of
             (True, t) \<Rightarrow> (True, t)
           | (False, t) \<Rightarrow> (False, t\<lparr>li_txs := AList.delete rid (li_txs t)\<rparr>))
     else (False, t))"

definition stopHbRx :: "link_env \<Rightarrow> string \<Rightarrow> links \<Rightarrow> bool \<times> links" where
  "stopHbRx e rid t =
    (if has_key (li_rxs t) rid
     then (case stopHb e Rx rid t of
             (True, t) \<Rightarrow> (True, t)
           | (False, t) \<Rightarrow> (False, t\<lparr>li_rxs := AList.delete rid (li_rxs t)\<rparr>))
     else (False, t))"

definition stopHbRid :: "link_env \<Rightarrow> string \<Rightarrow> links \<Rightarrow> bool \<times> links" where
  "stopHbRid e rid t =
    (let (failed1, t) = stopHbTx e rid t; (failed2, t) = stopHbRx e rid t in (failed1 \<or> failed2, t))"

definition isRunningRid :: "string \<Rightarrow> links \<Rightarrow> bool" where
  "isRunningRid rid t = (has_key (li_txs t) rid \<or> has_key (li_rxs t) rid)"

definition knownRids :: "links \<Rightarrow> string list" where
  "knownRids t = sort (remdups (map fst (li_ridSignature t) @ map fst (li_txs t) @ map fst (li_rxs t)))"

section \<open>Rescan and retry\<close>

definition set_sig :: "string \<Rightarrow> string \<Rightarrow> links \<Rightarrow> links" where
  "set_sig rid sig t = t\<lparr>li_ridSignature := AList.update rid sig (li_ridSignature t)\<rparr>"

definition del_sig :: "string \<Rightarrow> links \<Rightarrow> links" where
  "del_sig rid t = t\<lparr>li_ridSignature := AList.delete rid (li_ridSignature t)\<rparr>"

text \<open>The stop of a heartbeat no longer configured.\<close>

definition rescan_deleted :: "link_env \<Rightarrow> (string, string) gomap \<Rightarrow> string \<Rightarrow> bool \<times> links \<Rightarrow> bool \<times> links" where
  "rescan_deleted e conf rid = (\<lambda>(errs, t).
    if has_key conf rid then (errs, t)
    else case stopHbRid e rid t of
           (False, t) \<Rightarrow> (errs, del_sig rid t)
         | (True, t) \<Rightarrow> (True, t))"

text \<open>The stop of a heartbeat whose configuration changed, and the ones stopped.\<close>

definition rescan_changed :: "link_env \<Rightarrow> string \<times> string \<Rightarrow> (bool \<times> links) \<times> (string \<times> string) list \<Rightarrow> (bool \<times> links) \<times> (string \<times> string) list" where
  "rescan_changed e = (\<lambda>(rid, newSig) ((errs, t), stopped).
    case map_of (li_ridSignature t) rid of
      None \<Rightarrow> ((errs, t), stopped)
    | Some sig \<Rightarrow>
        if sig = newSig then ((errs, t), stopped)
        else case stopHbRid e rid t of
               (True, t) \<Rightarrow> ((True, t), stopped)
             | (False, t) \<Rightarrow> ((errs, t), stopped @ [(rid, newSig)]))"

definition rescan_stopped :: "link_env \<Rightarrow> string \<times> string \<Rightarrow> bool \<times> links \<Rightarrow> bool \<times> links" where
  "rescan_stopped e = (\<lambda>(rid, newSig) (errs, t).
    case startHb e rid newSig t of
      (Some _, t) \<Rightarrow> (True, del_sig rid t)
    | (None, t) \<Rightarrow> (errs, set_sig rid newSig t))"

definition rescan_new :: "link_env \<Rightarrow> string \<times> string \<Rightarrow> bool \<times> links \<Rightarrow> bool \<times> links" where
  "rescan_new e = (\<lambda>(rid, newSig) (errs, t).
    if has_key (li_ridSignature t) rid then (errs, set_sig rid newSig t)
    else
      (let (failed, t) = (if isRunningRid rid t then stopHbRid e rid t else (False, t))
       in if failed then (True, t)
          else case startHb e rid newSig t of
                 (Some _, t) \<Rightarrow> (True, t)
               | (None, t) \<Rightarrow> (errs, set_sig rid newSig t)))"

text \<open>\<open>None\<close> when the cluster configuration can not be read: nothing changes.\<close>

definition rescanHb :: "link_env \<Rightarrow> (string, string) gomap option \<Rightarrow> links \<Rightarrow> bool \<times> links" where
  "rescanHb e conf t =
    (case conf of
       None \<Rightarrow> (True, t)
     | Some conf \<Rightarrow>
         (let r = fold (rescan_deleted e conf) (knownRids t) (False, t);
              (r, stopped) = fold (rescan_changed e) conf (r, []);
              r = fold (rescan_stopped e) stopped r
          in fold (rescan_new e) conf r))"

definition set_retryErr :: "string \<Rightarrow> string \<Rightarrow> links \<Rightarrow> links" where
  "set_retryErr rid err t = t\<lparr>li_retryErr := AList.update rid err (li_retryErr t)\<rparr>"

definition del_retryErr :: "string \<Rightarrow> links \<Rightarrow> links" where
  "del_retryErr rid t = t\<lparr>li_retryErr := AList.delete rid (li_retryErr t)\<rparr>"

definition retry_one :: "link_env \<Rightarrow> string \<times> string \<Rightarrow> links \<Rightarrow> links" where
  "retry_one e = (\<lambda>(rid, sig) t.
    if has_key (li_ridSignature t) rid then del_retryErr rid t
    else if has_key (li_txs t) rid \<and> has_key (li_rxs t) rid then del_retryErr rid (set_sig rid sig t)
    else
      (let (failed, t) = (if isRunningRid rid t then stopHbRid e rid t else (False, t))
       in if failed then t
          else case startHb e rid sig t of
                 (Some err, t) \<Rightarrow> if err \<noteq> lkp [] (li_retryErr t) rid then set_retryErr rid err t else t
               | (None, t) \<Rightarrow> del_retryErr rid (set_sig rid sig t)))"

definition retryFailedHb :: "link_env \<Rightarrow> (string, string) gomap option \<Rightarrow> links \<Rightarrow> links" where
  "retryFailedHb e conf t = (case conf of None \<Rightarrow> t | Some conf \<Rightarrow> fold (retry_one e) conf t)"

section \<open>Commands of the users\<close>

text \<open>A component \<open>hb#1.rx\<close> is the receiver of the heartbeat \<open>hb#1\<close>.\<close>

definition split_hbID :: "string \<Rightarrow> (side \<times> string) option" where
  "split_hbID hbID =
    (if HasSuffix hbID ''.rx'' then Some (Rx, take (length hbID - 3) hbID)
     else if HasSuffix hbID ''.tx'' then Some (Tx, take (length hbID - 3) hbID)
     else None)"

definition daemonCtlStart :: "link_env \<Rightarrow> (string, string) gomap option \<Rightarrow> string \<Rightarrow> links \<Rightarrow> links" where
  "daemonCtlStart e conf hbID t =
    (case split_hbID hbID of
       None \<Rightarrow> t
     | Some (s, rid) \<Rightarrow>
         (case conf of
            None \<Rightarrow> t
          | Some conf \<Rightarrow>
              (case map_of conf rid of
                 None \<Rightarrow> t
               | Some sig \<Rightarrow> snd (case s of Rx \<Rightarrow> startHbRx e rid sig t | Tx \<Rightarrow> startHbTx e rid sig t))))"

text \<open>The link is forgotten, whether its stop failed or not.\<close>

definition daemonCtlStop :: "link_env \<Rightarrow> string \<Rightarrow> links \<Rightarrow> links" where
  "daemonCtlStop e hbID t =
    (case split_hbID hbID of
       None \<Rightarrow> t
     | Some (Rx, rid) \<Rightarrow>
         if has_key (li_rxs t) rid then (snd (stopHb e Rx rid t))\<lparr>li_rxs := AList.delete rid (li_rxs t)\<rparr> else t
     | Some (Tx, rid) \<Rightarrow>
         if has_key (li_txs t) rid then (snd (stopHb e Tx rid t))\<lparr>li_txs := AList.delete rid (li_txs t)\<rparr> else t)"

definition onDaemonCtl :: "link_env \<Rightarrow> (string, string) gomap option \<Rightarrow> string \<Rightarrow> string \<Rightarrow> links \<Rightarrow> links" where
  "onDaemonCtl e conf hbID action t =
    (if take 3 hbID \<noteq> ''hb#'' then t
     else if action = ''stop'' then daemonCtlStop e hbID t
     else if action = ''start'' then
       (case split_hbID hbID of
          None \<Rightarrow> t
        | Some (Tx, rid) \<Rightarrow> if has_key (li_txs t) rid then t else daemonCtlStart e conf hbID t
        | Some (Rx, rid) \<Rightarrow> if has_key (li_rxs t) rid then t else daemonCtlStart e conf hbID t)
     else if action = ''restart'' then daemonCtlStart e conf hbID (daemonCtlStop e hbID t)
     else t)"

text \<open>What the janitor does: it rescans on a change of the configuration, retries on a ticker, obeys the commands.\<close>

datatype janitor_event =
    ClusterConfigUpdated "(string, string) gomap option"
  | RetryTick "(string, string) gomap option"
  | DaemonCtl "(string, string) gomap option" string string

fun janitor :: "link_env \<Rightarrow> janitor_event \<Rightarrow> links \<Rightarrow> links" where
  "janitor e (ClusterConfigUpdated conf) t = snd (rescanHb e conf t)"
| "janitor e (RetryTick conf) t = retryFailedHb e conf t"
| "janitor e (DaemonCtl conf hbID action) t = onDaemonCtl e conf hbID action t"

section \<open>No link runs beside itself\<close>

text \<open>The links that run, read on the trace.\<close>

fun now_running :: "link_op \<Rightarrow> (side \<times> string) set \<Rightarrow> (side \<times> string) set" where
  "now_running (Started s rid) r = insert (s, rid) r"
| "now_running (Stopped s rid) r = r - {(s, rid)}"
| "now_running _ r = r"

definition running_of :: "link_op list \<Rightarrow> (side \<times> string) set" where
  "running_of l = foldl (\<lambda>r x. now_running x r) {} l"

text \<open>No link of the trace is started while it runs.\<close>

definition started_once :: "link_op list \<Rightarrow> bool" where
  "started_once l = (\<forall>i < length l. \<forall>s rid. l ! i = Started s rid \<longrightarrow> (s, rid) \<notin> running_of (take i l))"

definition links_inv :: "links \<Rightarrow> bool" where
  "links_inv t =
    (started_once (li_trace t) \<and>
     running_of (li_trace t) = Pair Tx ` fst ` set (li_txs t) \<union> Pair Rx ` fst ` set (li_rxs t))"

lemma running_of_snoc [simp]: "running_of (l @ [x]) = now_running x (running_of l)"
  by (simp add: running_of_def)

lemma started_once_snoc [simp]:
  "started_once (l @ [x]) \<longleftrightarrow> started_once l \<and> (\<forall>s rid. x = Started s rid \<longrightarrow> (s, rid) \<notin> running_of l)"
  by (auto simp: started_once_def nth_append less_Suc_eq)

lemma rids_update [simp]: "fst ` set (AList.update k v m) = insert k (fst ` set m)"
  using dom_update [of k v m] by (simp add: dom_map_of_conv_image_fst)

lemma rids_delete [simp]: "fst ` set (AList.delete k m) = fst ` set m - {k}"
  by (rule AList.delete_keys [of k m, THEN arg_cong [where f = set], simplified, simplified image_set [symmetric]])

lemma links_inv_other [simp]:
  "links_inv (set_sig rid sig t) = links_inv t" "links_inv (del_sig rid t) = links_inv t"
  "links_inv (set_retryErr rid err t) = links_inv t" "links_inv (del_retryErr rid t) = links_inv t"
  by (simp_all add: links_inv_def set_sig_def del_sig_def set_retryErr_def del_retryErr_def)

lemma running_other [simp]:
  "isRunningRid r (set_sig rid sig t) = isRunningRid r t" "isRunningRid r (del_sig rid t) = isRunningRid r t"
  "isRunningRid r (set_retryErr rid err t) = isRunningRid r t" "isRunningRid r (del_retryErr rid t) = isRunningRid r t"
  by (simp_all add: isRunningRid_def set_sig_def del_sig_def set_retryErr_def del_retryErr_def)

lemmas link_defs = startHbTx_def startHbRx_def stopHbTx_def stopHbRx_def stopHb_def li_emit_def

lemma startHbTx_inv: "links_inv t \<Longrightarrow> \<not> has_key (li_txs t) rid \<Longrightarrow> links_inv (snd (startHbTx e rid sig t))"
  by (auto simp: link_defs links_inv_def has_key_iff split: option.split)

lemma startHbRx_inv: "links_inv t \<Longrightarrow> \<not> has_key (li_rxs t) rid \<Longrightarrow> links_inv (snd (startHbRx e rid sig t))"
  by (auto simp: link_defs links_inv_def has_key_iff split: option.split)

lemma start_other: "li_rxs (snd (startHbTx e rid sig t)) = li_rxs t" "li_txs (snd (startHbRx e rid sig t)) = li_txs t"
  "r \<noteq> rid \<Longrightarrow> has_key (li_txs (snd (startHbTx e rid sig t))) r = has_key (li_txs t) r"
  "r \<noteq> rid \<Longrightarrow> has_key (li_rxs (snd (startHbRx e rid sig t))) r = has_key (li_rxs t) r"
  by (simp_all add: link_defs has_key_update split: option.split)

lemma startHb_snd: "snd (startHb e rid sig t) = snd (startHbRx e rid sig (snd (startHbTx e rid sig t)))"
  by (simp add: startHb_def split_def Let_def)

lemma startHb_inv: "links_inv t \<Longrightarrow> \<not> isRunningRid rid t \<Longrightarrow> links_inv (snd (startHb e rid sig t))"
  by (simp add: startHb_snd startHbTx_inv startHbRx_inv isRunningRid_def start_other)

lemma startHb_other: "r \<noteq> rid \<Longrightarrow> isRunningRid r (snd (startHb e rid sig t)) = isRunningRid r t"
  by (simp add: startHb_snd isRunningRid_def start_other)

lemma stopHbTx_inv: "links_inv t \<Longrightarrow> links_inv (snd (stopHbTx e rid t))"
  by (auto simp: link_defs links_inv_def)

lemma stopHbRx_inv: "links_inv t \<Longrightarrow> links_inv (snd (stopHbRx e rid t))"
  by (auto simp: link_defs links_inv_def)

lemma stop_other: "li_rxs (snd (stopHbTx e rid t)) = li_rxs t" "li_txs (snd (stopHbRx e rid t)) = li_txs t"
  "r \<noteq> rid \<Longrightarrow> has_key (li_txs (snd (stopHbTx e rid t))) r = has_key (li_txs t) r"
  "r \<noteq> rid \<Longrightarrow> has_key (li_rxs (snd (stopHbRx e rid t))) r = has_key (li_rxs t) r"
  "\<not> fst (stopHbTx e rid t) \<Longrightarrow> \<not> has_key (li_txs (snd (stopHbTx e rid t))) rid"
  "\<not> fst (stopHbRx e rid t) \<Longrightarrow> \<not> has_key (li_rxs (snd (stopHbRx e rid t))) rid"
  by (auto simp: link_defs has_key_delete split: if_splits)

lemma stopHbRid_eq: "stopHbRid e rid t =
    (fst (stopHbTx e rid t) \<or> fst (stopHbRx e rid (snd (stopHbTx e rid t))), snd (stopHbRx e rid (snd (stopHbTx e rid t))))"
  by (simp add: stopHbRid_def split_def Let_def)

lemma stopHbRid_inv: "links_inv t \<Longrightarrow> links_inv (snd (stopHbRid e rid t))"
  by (simp add: stopHbRid_eq stopHbTx_inv stopHbRx_inv)

lemma stopHbRid_other: "r \<noteq> rid \<Longrightarrow> isRunningRid r (snd (stopHbRid e rid t)) = isRunningRid r t"
  by (simp add: stopHbRid_eq isRunningRid_def stop_other)

lemma stopHbRid_stopped: "\<not> fst (stopHbRid e rid t) \<Longrightarrow> \<not> isRunningRid rid (snd (stopHbRid e rid t))"
  by (auto simp: stopHbRid_eq isRunningRid_def stop_other)

text \<open>The four passes of a rescan, and a retry.\<close>

lemma fold_inv: "P s \<Longrightarrow> (\<And>x s. x \<in> set l \<Longrightarrow> P s \<Longrightarrow> P (f x s)) \<Longrightarrow> P (fold f l s)"
  by (induction l arbitrary: s) auto

lemma rescan_deleted_inv: "links_inv (snd r) \<Longrightarrow> links_inv (snd (rescan_deleted e conf rid r))"
  using stopHbRid_inv [of "snd r" e rid] by (auto simp: rescan_deleted_def split_def split: bool.split prod.split)

text \<open>The heartbeats stopped for their configuration changed: none of them runs, each is stopped once.\<close>

definition stopped_ok :: "string set \<Rightarrow> (bool \<times> links) \<times> (string \<times> string) list \<Rightarrow> bool" where
  "stopped_ok todo = (\<lambda>((errs, t), stopped).
    links_inv t \<and> (\<forall>y \<in> set stopped. \<not> isRunningRid (fst y) t) \<and> distinct (map fst stopped) \<and> fst ` set stopped \<inter> todo = {})"

lemma rescan_changed_inv:
  assumes ok: "stopped_ok (insert rid todo) r" and rid: "rid \<notin> todo"
  shows "stopped_ok todo (rescan_changed e (rid, newSig) r)"
proof -
  obtain errs t stopped where r: "r = ((errs, t), stopped)" by (metis surj_pair)
  obtain f t' where st: "stopHbRid e rid t = (f, t')" by force
  have inv: "links_inv t'" and other: "\<And>r. r \<noteq> rid \<Longrightarrow> isRunningRid r t' = isRunningRid r t" and stp: "\<not> f \<Longrightarrow> \<not> isRunningRid rid t'"
    using ok r stopHbRid_inv [of t e rid] stopHbRid_other [of _ rid e t] stopHbRid_stopped [of e rid t] st by (auto simp: stopped_ok_def)
  show ?thesis
  proof (cases "map_of (li_ridSignature t) rid = None \<or> map_of (li_ridSignature t) rid = Some newSig")
    case True
    then have "rescan_changed e (rid, newSig) r = r" using r by (auto simp: rescan_changed_def)
    with ok r show ?thesis by (auto simp: stopped_ok_def)
  next
    case False
    then have "rescan_changed e (rid, newSig) r = (if f then ((True, t'), stopped) else ((errs, t'), stopped @ [(rid, newSig)]))"
      using r st by (auto simp: rescan_changed_def)
    moreover have "\<not> isRunningRid (fst y) t'" if y: "y \<in> set stopped" for y
    proof -
      have "fst y \<noteq> rid" "\<not> isRunningRid (fst y) t" using ok r y by (auto simp: stopped_ok_def)
      with other show ?thesis by simp
    qed
    ultimately show ?thesis using ok r rid inv stp by (auto simp: stopped_ok_def)
  qed
qed

lemma rescan_changed_fold:
  "stopped_ok (fst ` set conf) r \<Longrightarrow> distinct (map fst conf) \<Longrightarrow> stopped_ok {} (fold (rescan_changed e) conf r)"
proof (induction conf arbitrary: r)
  case Nil
  then show ?case by simp
next
  case (Cons x conf)
  obtain rid newSig where x: "x = (rid, newSig)" by force
  have "stopped_ok (fst ` set conf) (rescan_changed e x r)"
    unfolding x using Cons.prems x by (intro rescan_changed_inv) auto
  with Cons show ?case by simp
qed

lemma rescan_stopped_fold:
  "links_inv (snd r) \<Longrightarrow> \<forall>y \<in> set stopped. \<not> isRunningRid (fst y) (snd r) \<Longrightarrow> distinct (map fst stopped) \<Longrightarrow>
   links_inv (snd (fold (rescan_stopped e) stopped r))"
proof (induction stopped arbitrary: r)
  case Nil
  then show ?case by simp
next
  case (Cons x stopped)
  obtain rid newSig errs t where x: "x = (rid, newSig)" and r: "r = (errs, t)" by (metis surj_pair)
  let ?r = "rescan_stopped e x r"
  have "links_inv (snd ?r)" using Cons.prems startHb_inv [of t rid e newSig] x r
    by (auto simp: rescan_stopped_def split: option.split prod.split)
  moreover have "isRunningRid q (snd ?r) = isRunningRid q t" if "q \<noteq> rid" for q
    using startHb_other [OF that, of e newSig t] x r by (auto simp: rescan_stopped_def split: option.split prod.split)
  ultimately show ?case using Cons.IH [of ?r] Cons.prems x r by (auto, metis fst_conv image_eqI)
qed

lemma restart_inv:
  assumes "links_inv t" "(failed, t') = (if isRunningRid rid t then stopHbRid e rid t else (False, t))"
  shows "links_inv t'" "\<not> failed \<Longrightarrow> links_inv (snd (startHb e rid sig t'))"
proof -
  show "links_inv t'" using assms stopHbRid_inv [of t e rid] by (auto split: if_splits) (metis snd_conv)
  moreover have "\<not> failed \<Longrightarrow> \<not> isRunningRid rid t'"
    using assms(2) stopHbRid_stopped [of e rid t] by (auto split: if_splits) (metis fst_conv snd_conv)
  ultimately show "\<not> failed \<Longrightarrow> links_inv (snd (startHb e rid sig t'))" by (simp add: startHb_inv)
qed

lemma rescan_new_inv: "links_inv (snd r) \<Longrightarrow> links_inv (snd (rescan_new e x r))"
proof -
  assume inv: "links_inv (snd r)"
  obtain rid newSig errs t where x: "x = (rid, newSig)" and r: "r = (errs, t)" by (metis surj_pair)
  obtain failed t' where ft: "(failed, t') = (if isRunningRid rid t then stopHbRid e rid t else (False, t))" by (metis surj_pair)
  from restart_inv [OF _ ft] inv r have "links_inv t'" "\<not> failed \<Longrightarrow> links_inv (snd (startHb e rid newSig t'))" by auto
  with inv x r show ?thesis
    by (auto simp: rescan_new_def Let_def simp flip: ft split: option.split prod.split)
qed

lemma retry_one_inv: "links_inv t \<Longrightarrow> links_inv (retry_one e x t)"
proof -
  assume inv: "links_inv t"
  obtain rid sig where x: "x = (rid, sig)" by force
  obtain failed t' where ft: "(failed, t') = (if isRunningRid rid t then stopHbRid e rid t else (False, t))" by (metis surj_pair)
  from restart_inv [OF inv ft] have "links_inv t'" "\<not> failed \<Longrightarrow> links_inv (snd (startHb e rid sig t'))" by auto
  with inv x show ?thesis
    by (auto simp: retry_one_def Let_def simp flip: ft split: option.split prod.split)
qed

definition conf_ok :: "(string, string) gomap option \<Rightarrow> bool" where
  "conf_ok conf = (case conf of None \<Rightarrow> True | Some m \<Rightarrow> wf_map m)"

lemma rescanHb_inv:
  assumes "links_inv t" "conf_ok conf"
  shows "links_inv (snd (rescanHb e conf t))"
proof (cases conf)
  case None
  with assms show ?thesis by (simp add: rescanHb_def)
next
  case (Some m)
  let ?r1 = "fold (rescan_deleted e m) (knownRids t) (False, t)"
  let ?r2 = "fold (rescan_changed e) m (?r1, [])"
  have "links_inv (snd ?r1)"
    by (rule fold_inv [where P = "\<lambda>r. links_inv (snd r)"]) (simp_all add: assms(1) rescan_deleted_inv)
  then have "stopped_ok {} ?r2"
    using assms(2) Some by (intro rescan_changed_fold) (auto simp: stopped_ok_def conf_ok_def wf_map_def split: prod.split)
  then have "links_inv (snd (fold (rescan_stopped e) (snd ?r2) (fst ?r2)))"
    by (intro rescan_stopped_fold) (auto simp: stopped_ok_def split: prod.splits)
  then have "links_inv (snd (fold (rescan_new e) m (fold (rescan_stopped e) (snd ?r2) (fst ?r2))))"
    by (rule fold_inv [where P = "\<lambda>r. links_inv (snd r)"]) (simp add: rescan_new_inv)
  then show ?thesis using Some by (simp add: rescanHb_def Let_def split_def)
qed

lemma daemonCtlStop_inv:
  assumes "links_inv t" "\<And>n s rid. \<not> le_stop e n s rid"
  shows "links_inv (daemonCtlStop e hbID t)"
    and "split_hbID hbID = Some (Rx, rid) \<Longrightarrow> \<not> has_key (li_rxs (daemonCtlStop e hbID t)) rid"
    and "split_hbID hbID = Some (Tx, rid) \<Longrightarrow> \<not> has_key (li_txs (daemonCtlStop e hbID t)) rid"
  using assms by (auto simp: daemonCtlStop_def stopHb_def li_emit_def links_inv_def has_key_delete split: option.split side.split)

lemma daemonCtlStart_inv:
  assumes "links_inv t"
    and "\<And>rid. split_hbID hbID = Some (Rx, rid) \<Longrightarrow> \<not> has_key (li_rxs t) rid"
    and "\<And>rid. split_hbID hbID = Some (Tx, rid) \<Longrightarrow> \<not> has_key (li_txs t) rid"
  shows "links_inv (daemonCtlStart e conf hbID t)"
  using assms by (auto simp: daemonCtlStart_def startHbTx_inv startHbRx_inv split: option.split side.split)

fun event_ok :: "janitor_event \<Rightarrow> bool" where
  "event_ok (ClusterConfigUpdated conf) = conf_ok conf"
| "event_ok (RetryTick conf) = conf_ok conf"
| "event_ok (DaemonCtl conf _ _) = conf_ok conf"

lemma janitor_inv:
  assumes inv: "links_inv t" and stops: "\<And>n s rid. \<not> le_stop e n s rid" and ok: "event_ok ev"
  shows "links_inv (janitor e ev t)"
proof (cases ev)
  case (ClusterConfigUpdated conf)
  with inv ok show ?thesis by (simp add: rescanHb_inv)
next
  case (RetryTick conf)
  with inv show ?thesis
    by (auto simp: retryFailedHb_def intro!: fold_inv [where P = links_inv] retry_one_inv split: option.split)
next
  case (DaemonCtl conf hbID action)
  have "links_inv (daemonCtlStart e conf hbID (daemonCtlStop e hbID t))"
    using daemonCtlStop_inv [OF inv stops] by (intro daemonCtlStart_inv) auto
  moreover have "links_inv (daemonCtlStop e hbID t)" using daemonCtlStop_inv(1) [OF inv stops] .
  moreover have "links_inv (daemonCtlStart e conf hbID t)"
    if "\<And>rid. split_hbID hbID = Some (Rx, rid) \<Longrightarrow> \<not> has_key (li_rxs t) rid"
       "\<And>rid. split_hbID hbID = Some (Tx, rid) \<Longrightarrow> \<not> has_key (li_txs t) rid"
    using daemonCtlStart_inv [OF inv that] .
  ultimately show ?thesis
    using DaemonCtl inv by (auto simp: onDaemonCtl_def split: option.split side.split)
qed

definition janitor_run :: "link_env \<Rightarrow> janitor_event list \<Rightarrow> links" where
  "janitor_run e l = fold (janitor e) l new_links"


definition ex_conf :: "(string, string) gomap" where
  "ex_conf = [(''hb#1'', ''a''), (''hb#2'', ''b'')]"

text \<open>The start of the receiver of the second heartbeat fails the first time.\<close>

definition ex_link_env :: link_env where
  "ex_link_env = \<lparr>le_start = (\<lambda>n s rid. if n = 3 then Some ''in use'' else None), le_stop = (\<lambda>n s rid. False)\<rparr>"

definition ex_janitor :: "janitor_event list" where
  "ex_janitor = [ClusterConfigUpdated (Some ex_conf), RetryTick (Some ex_conf), DaemonCtl (Some ex_conf) ''hb#1.rx'' ''restart'']"


text \<open>
  A heartbeat whose stop fails when its configuration changes is recorded with the signature of the
  new configuration by the last pass, while its links run with the old one: nothing restarts it.
\<close>

definition ex_stop_fails :: link_env where
  "ex_stop_fails = \<lparr>le_start = (\<lambda>n s rid. None), le_stop = (\<lambda>n s rid. n = 2)\<rparr>"

lemma failed_stop_recorded:
  "let t = janitor_run ex_stop_fails [ClusterConfigUpdated (Some [(''hb#1'', ''a'')]), ClusterConfigUpdated (Some [(''hb#1'', ''b'')])]
   in li_ridSignature t = [(''hb#1'', ''b'')] \<and> li_txs t = [(''hb#1'', ''a'')]"
  by code_simp

end
