(* ===== verification/Discover.thy ===== *)
theory Discover
  imports Instance
begin

text \<open>
  How the configurations of the objects reach the nodes, \<open>daemon/discover\<close>: a node fetches a
  configuration more recent than its own when it is in its scope, removes the one it is not in the
  scope of, keeps a foreign one until the peers took it, and recovers one removed by mistake.

  The maps of the manager are indexed by object and no handler reads the entries of another object:
  the state below is the one of an object. The configuration file is the configuration it evaluates
  to, stamped with its modification time; the zero time is the one of an absent file. A fetch runs
  in a goroutine with a context, named by its number, and posts what it got or that it failed. What
  the source reads of the caches and of the file system is the environment: the configurations of the
  instances, the nodes whose monitor is removing the object, the calls that fail.
\<close>

section \<open>State\<close>

record fetch_args =
  fa_peer :: string
  fa_updatedAt :: "time"
  fa_needStoppedFlag :: bool
  fa_scope :: "string list"
  fa_attempt :: nat

record icfg_for =
  if_Node :: string
  if_Orchestrate :: string
  if_Scope :: "string list"
  if_UpdatedAt :: "time"

text \<open>The entries \<open>fetcherCtx\<close>, \<open>fetcherCancel\<close>, \<open>fetcherFrom\<close> and \<open>fetcherUpdated\<close>, set and deleted together.\<close>

record fetcher =
  ft_ctx :: nat
  ft_from :: string
  ft_updated :: "time"

datatype disc_effect =
    DIcfgStart
  | DFetch fetch_args nat
  | DRemoved config "time" "string list"
  | DRepublish icfg_for
  | DStoppedFlag
  | DInstalled config "config option" nat
  | DRetry fetch_args duration

record disc =
  ds_localhost :: string
  ds_isCluster :: bool
  ds_file :: "config option"
  ds_cfgMTime :: "time option"
  ds_cfgDeleting :: bool
  ds_disableRecover :: "time option"
  ds_retain :: "string list option"
  ds_instanceConfigFor :: "icfg_for option"
  ds_fetcher :: "fetcher option"
  ds_nextCtx :: nat
  ds_cancelled :: "nat list"
  ds_trace :: "disc_effect list"

record disc_env =
  de_configs :: "(string, config) gomap"
  de_removing :: "string \<Rightarrow> bool"
  de_icfgErr :: bool
  de_clientErr :: bool
  de_moveErr :: bool
  de_flagErr :: bool
  de_installErr :: bool

definition new_disc :: "string \<Rightarrow> bool \<Rightarrow> config option \<Rightarrow> disc" where
  "new_disc localhost isCluster cf =
    \<lparr>ds_localhost = localhost, ds_isCluster = isCluster, ds_file = cf, ds_cfgMTime = None, ds_cfgDeleting = False,
     ds_disableRecover = None, ds_retain = None, ds_instanceConfigFor = None, ds_fetcher = None, ds_nextCtx = 0,
     ds_cancelled = [], ds_trace = []\<rparr>"

definition d_emit :: "disc_effect \<Rightarrow> disc \<Rightarrow> disc" where
  "d_emit x t = t\<lparr>ds_trace := ds_trace t @ [x]\<rparr>"

definition modTime :: "disc \<Rightarrow> time" where
  "modTime t = (case ds_file t of None \<Rightarrow> 0 | Some c \<Rightarrow> cfg_UpdatedAt c)"

definition inScope :: "config \<Rightarrow> disc \<Rightarrow> bool" where
  "inScope c t = (ds_localhost t \<in> set (cfg_Scope c))"

definition daemonStartsOnItsOwn :: "string \<Rightarrow> bool" where
  "daemonStartsOnItsOwn orchestrate = (orchestrate \<in> {''ha'', ''start''})"

section \<open>Fetchers\<close>

definition cancelFetcher :: "disc \<Rightarrow> disc" where
  "cancelFetcher t =
    (case ds_fetcher t of None \<Rightarrow> t | Some f \<Rightarrow> t\<lparr>ds_cancelled := ft_ctx f # ds_cancelled t, ds_fetcher := None\<rparr>)"

definition endFetcher :: "nat \<Rightarrow> disc \<Rightarrow> disc" where
  "endFetcher ctx t = (if map_option ft_ctx (ds_fetcher t) \<noteq> Some ctx then t else cancelFetcher t)"

definition isBeingRemoved :: "disc_env \<Rightarrow> string \<Rightarrow> disc \<Rightarrow> bool" where
  "isBeingRemoved e peer t =
    (ds_cfgDeleting t \<and> ds_file t = None \<or> de_removing e (ds_localhost t) \<or> de_removing e peer)"

definition fetchConfigFromRemote :: "disc_env \<Rightarrow> fetch_args \<Rightarrow> disc \<Rightarrow> disc" where
  "fetchConfigFromRemote e a t =
    (if fa_peer a = [] then t
     else if isBeingRemoved e (fa_peer a) t then t
     else if ds_fetcher t \<noteq> None then t
     else
       (let ctx = ds_nextCtx t;
            t = t\<lparr>ds_nextCtx := Suc ctx, ds_fetcher := Some \<lparr>ft_ctx = ctx, ft_from = fa_peer a, ft_updated = fa_updatedAt a\<rparr>\<rparr>
        in if de_clientErr e then cancelFetcher t else d_emit (DFetch a ctx) t))"

text \<open>
  What a fetch ends with. \<open>first\<close> is what the peer answers, \<open>again\<close> what it answers at the address it
  has then, when it changed; \<open>bad\<close> that the configuration can not be evaluated.
\<close>

datatype fetch_result = FetchFailed bool | Fetched config

definition fetch :: "string \<Rightarrow> config option \<Rightarrow> config option option \<Rightarrow> bool \<Rightarrow> fetch_result" where
  "fetch localhost first again bad =
    (case (case first of Some c \<Rightarrow> Some c | None \<Rightarrow> (case again of None \<Rightarrow> None | Some r \<Rightarrow> r)) of
       None \<Rightarrow> FetchFailed True
     | Some c \<Rightarrow> if bad then FetchFailed True
                 else if localhost \<notin> set (cfg_Scope c) then FetchFailed False
                 else Fetched c)"

definition fetchRetryMax :: nat where "fetchRetryMax = 5"

definition fetchRetryDelay :: "nat \<Rightarrow> duration" where
  "fetchRetryDelay attempt = second * 2 ^ (attempt - 1)"

definition onFetchFailed :: "fetch_args \<Rightarrow> nat \<Rightarrow> bool \<Rightarrow> disc \<Rightarrow> disc" where
  "onFetchFailed a ctx retry t =
    (if map_option ft_ctx (ds_fetcher t) \<noteq> Some ctx then t
     else
       (let t = cancelFetcher t
        in if \<not> retry then t
           else if fa_attempt a \<ge> fetchRetryMax then t
           else (let a = a\<lparr>fa_attempt := fa_attempt a + 1\<rparr> in d_emit (DRetry a (fetchRetryDelay (fa_attempt a))) t)))"

definition onFetchRetry :: "disc_env \<Rightarrow> fetch_args \<Rightarrow> disc \<Rightarrow> disc" where
  "onFetchRetry e a t =
    (if ds_fetcher t \<noteq> None then t
     else if \<exists>(_, c) \<in> set (de_configs e). cfg_UpdatedAt c > fa_updatedAt a then t
     else if ds_localhost t \<notin> set (fa_scope a) then t
     else if \<not> fa_updatedAt a > modTime t then t
     else if (case ds_cfgMTime t of None \<Rightarrow> False | Some m \<Rightarrow> \<not> fa_updatedAt a > m) then t
     else fetchConfigFromRemote e a t)"

text \<open>The stopped flag of an instance the configuration creates, \<open>None\<close> when it can not be raised.\<close>

definition handleStoppedFlag :: "disc_env \<Rightarrow> bool \<Rightarrow> disc \<Rightarrow> disc option" where
  "handleStoppedFlag e markStopped t =
    (if \<not> markStopped then Some t
     else if has_key (de_configs e) (ds_localhost t) then Some t
     else if de_flagErr e then None
     else Some (d_emit DStoppedFlag t))"

definition onRemoteConfigFetched :: "disc_env \<Rightarrow> fetch_args \<Rightarrow> nat \<Rightarrow> config \<Rightarrow> disc \<Rightarrow> disc" where
  "onRemoteConfigFetched e a ctx c t =
    endFetcher ctx
      (if ctx \<in> set (ds_cancelled t) then t
       else if isBeingRemoved e (fa_peer a) t then t
       else
         (case handleStoppedFlag e (fa_needStoppedFlag a) t of
            None \<Rightarrow> t
          | Some t \<Rightarrow> if de_installErr e then t else d_emit (DInstalled c (ds_file t) ctx) (t\<lparr>ds_file := Some c\<rparr>)))"

section \<open>Foreign configurations\<close>

text \<open>The file moves to the backup directory; the running \<open>icfg\<close> must not recover it.\<close>

definition removeConfigFileAndDisableRecover :: "disc_env \<Rightarrow> time \<Rightarrow> string list \<Rightarrow> disc \<Rightarrow> disc" where
  "removeConfigFileAndDisableRecover e updatedAt scope t =
    (let t = (case ds_file t of
                None \<Rightarrow> t
              | Some c \<Rightarrow> if de_moveErr e then t else d_emit (DRemoved c updatedAt scope) (t\<lparr>ds_file := None\<rparr>))
     in if ds_cfgMTime t \<noteq> None then t\<lparr>ds_disableRecover := Some updatedAt\<rparr> else t)"

definition abortRetainForeignConfig :: "disc \<Rightarrow> disc" where
  "abortRetainForeignConfig t = t\<lparr>ds_retain := None, ds_instanceConfigFor := None\<rparr>"

text \<open>The nodes still to take the foreign configuration retained, when a peer announces the one it has.\<close>

definition retain_update :: "string \<Rightarrow> config \<Rightarrow> disc \<Rightarrow> disc" where
  "retain_update node c t =
    (case ds_retain t of
       None \<Rightarrow> t
     | Some waiting \<Rightarrow>
         if inScope c t then
           (if (case ds_instanceConfigFor t of None \<Rightarrow> True | Some f \<Rightarrow> cfg_UpdatedAt c > if_UpdatedAt f)
            then abortRetainForeignConfig t else t)
         else t\<lparr>ds_retain := Some (filter (\<lambda>n. n \<noteq> node) waiting)\<rparr>)"

definition remote_foreign :: "disc_env \<Rightarrow> config \<Rightarrow> disc \<Rightarrow> disc" where
  "remote_foreign e c t =
    (let t = cancelFetcher t
     in if ds_file t \<noteq> None \<and> (case ds_retain t of None \<Rightarrow> True | Some l \<Rightarrow> l = [])
        then (let t = removeConfigFileAndDisableRecover e (cfg_UpdatedAt c) (cfg_Scope c) t
              in t\<lparr>ds_cfgMTime := None, ds_retain := None, ds_instanceConfigFor := None\<rparr>)
        else t)"

definition remote_fetch :: "disc_env \<Rightarrow> string \<Rightarrow> config \<Rightarrow> disc \<Rightarrow> disc" where
  "remote_fetch e node c t =
    (let need = (ds_file t = None \<and> (case cfg_Actor c of None \<Rightarrow> False | Some ac \<Rightarrow> daemonStartsOnItsOwn (ac_Orchestrate ac))
                 \<and> length (cfg_Scope c) > 1)
     in fetchConfigFromRemote e \<lparr>fa_peer = node, fa_updatedAt = cfg_UpdatedAt c, fa_needStoppedFlag = need,
          fa_scope = cfg_Scope c, fa_attempt = 0\<rparr> t)"

definition onRemoteConfigUpdated :: "disc_env \<Rightarrow> string \<Rightarrow> config \<Rightarrow> disc \<Rightarrow> disc" where
  "onRemoteConfigUpdated e node c t =
    (let localUpdated = modTime t; t = retain_update node c t
     in if \<not> ds_isCluster t \<and> cfg_UpdatedAt c \<ge> localUpdated \<and> \<not> inScope c t then remote_foreign e c t
        else if (case ds_cfgMTime t of None \<Rightarrow> False | Some m \<Rightarrow> \<not> cfg_UpdatedAt c > m) then t
        else if \<not> cfg_UpdatedAt c > localUpdated then t
        else
          (case ds_fetcher t of
             None \<Rightarrow> remote_fetch e node c t
           | Some f \<Rightarrow> if cfg_UpdatedAt c > ft_updated f then remote_fetch e node c (cancelFetcher t) else t))"

definition disc_onInstanceConfigUpdated :: "disc_env \<Rightarrow> string \<Rightarrow> config \<Rightarrow> disc \<Rightarrow> disc" where
  "disc_onInstanceConfigUpdated e node c t = (if node = ds_localhost t then t else onRemoteConfigUpdated e node c t)"

definition onInstanceConfigForFromLocalhost :: "disc_env \<Rightarrow> icfg_for \<Rightarrow> disc \<Rightarrow> disc" where
  "onInstanceConfigForFromLocalhost e c t =
    (if modTime t = 0 then abortRetainForeignConfig t
     else if modTime t > if_UpdatedAt c then abortRetainForeignConfig t
     else if if_Scope c = [] then
       abortRetainForeignConfig (removeConfigFileAndDisableRecover e (if_UpdatedAt c) (if_Scope c) t)
     else t\<lparr>ds_retain := Some (if_Scope c), ds_instanceConfigFor := Some c\<rparr>)"

definition onInstanceConfigForFromPeer :: "disc_env \<Rightarrow> icfg_for \<Rightarrow> disc \<Rightarrow> disc" where
  "onInstanceConfigForFromPeer e c t =
    (if modTime t > if_UpdatedAt c then abortRetainForeignConfig t
     else if ds_localhost t \<notin> set (if_Scope c) then
       (if ds_file t \<noteq> None
        then abortRetainForeignConfig (removeConfigFileAndDisableRecover e (if_UpdatedAt c) (if_Scope c) t)
        else t)
     else if (case ds_cfgMTime t of None \<Rightarrow> False | Some m \<Rightarrow> \<not> if_UpdatedAt c > m) then t
     else if \<not> if_UpdatedAt c > modTime t then t
     else if (case ds_fetcher t of None \<Rightarrow> 0 | Some f \<Rightarrow> ft_updated f) = if_UpdatedAt c then t
     else fetchConfigFromRemote e
            \<lparr>fa_peer = if_Node c, fa_updatedAt = if_UpdatedAt c,
             fa_needStoppedFlag = (daemonStartsOnItsOwn (if_Orchestrate c) \<and> length (if_Scope c) > 1),
             fa_scope = if_Scope c, fa_attempt = 0\<rparr> t)"

text \<open>An obsolete fetch is cancelled, and the running \<open>icfg\<close> of a foreign file must not recover it.\<close>

definition for_prepare :: "icfg_for \<Rightarrow> disc \<Rightarrow> disc" where
  "for_prepare c t =
    (let t = (case ds_fetcher t of None \<Rightarrow> t | Some f \<Rightarrow> if if_UpdatedAt c > ft_updated f then cancelFetcher t else t)
     in if ds_cfgMTime t \<noteq> None \<and> (if_Node c = ds_localhost t \<or> ds_localhost t \<notin> set (if_Scope c))
        then t\<lparr>ds_disableRecover := Some (if_UpdatedAt c)\<rparr> else t)"

definition onInstanceConfigFor :: "disc_env \<Rightarrow> icfg_for \<Rightarrow> disc \<Rightarrow> disc" where
  "onInstanceConfigFor e c t =
    (if ds_isCluster t then t
     else
       (let t = for_prepare c t
        in if if_Node c = ds_localhost t then onInstanceConfigForFromLocalhost e c t
           else onInstanceConfigForFromPeer e c t))"

definition disc_onHeartbeatMessageTypeUpdated :: "string \<Rightarrow> disc \<Rightarrow> disc" where
  "disc_onHeartbeatMessageTypeUpdated to t =
    (if to \<noteq> ''patch'' then t
     else case ds_instanceConfigFor t of
            None \<Rightarrow> t
          | Some f \<Rightarrow>
              if modTime t \<noteq> 0 \<and> if_Scope f \<noteq> [] then d_emit (DRepublish (f\<lparr>if_Node := ds_localhost t\<rparr>)) t
              else t\<lparr>ds_instanceConfigFor := None\<rparr>)"

section \<open>The local configuration\<close>

definition disc_onConfigFileUpdated :: "disc_env \<Rightarrow> disc \<Rightarrow> disc" where
  "disc_onConfigFileUpdated e t =
    (if modTime t = 0 then t
     else if ds_cfgMTime t \<noteq> None then t
     else if de_icfgErr e then t
     else d_emit DIcfgStart (t\<lparr>ds_cfgMTime := Some (modTime t)\<rparr>))"

definition onInstanceConfigDeleting :: "disc \<Rightarrow> disc" where
  "onInstanceConfigDeleting t = cancelFetcher (t\<lparr>ds_cfgDeleting := True\<rparr>)"

definition mostRecentPeerConfig :: "disc_env \<Rightarrow> disc \<Rightarrow> (string \<times> config) option" where
  "mostRecentPeerConfig e t =
    foldl (\<lambda>best (n, c).
      if n = ds_localhost t then best
      else if inScope c t
              \<and> (case best of None \<Rightarrow> True | Some (_, b) \<Rightarrow> cfg_UpdatedAt b < cfg_UpdatedAt c)
              \<and> \<not> (case ds_cfgMTime t of None \<Rightarrow> 0 | Some m \<Rightarrow> m) > cfg_UpdatedAt c
      then Some (n, c) else best) None (de_configs e)"

definition cleanup :: "disc \<Rightarrow> disc" where
  "cleanup t = t\<lparr>ds_cfgMTime := None, ds_cfgDeleting := False, ds_disableRecover := None\<rparr>"

definition onInstanceConfigManagerDone :: "disc_env \<Rightarrow> disc \<Rightarrow> disc" where
  "onInstanceConfigManagerDone e t =
    (if modTime t = 0 then
       (if ds_cfgDeleting t \<or> ds_disableRecover t \<noteq> None \<or> ds_retain t \<noteq> None then cleanup t
        else case mostRecentPeerConfig e t of
               Some (peer, c) \<Rightarrow> disc_onInstanceConfigUpdated e peer c (cleanup t)
             | None \<Rightarrow> cleanup t)
     else if modTime t > (case ds_cfgMTime t of None \<Rightarrow> 0 | Some m \<Rightarrow> m) then
       (if ds_disableRecover t \<noteq> None then cleanup t
        else if de_icfgErr e then cleanup t
        else d_emit DIcfgStart (t\<lparr>ds_cfgMTime := Some (modTime t)\<rparr>))
     else cleanup t)"

section \<open>Steps\<close>

text \<open>
  The messages and commands of the manager, and what happens to the file besides: a user or a command
  writes or removes it.
\<close>

datatype disc_event =
    EvInstanceConfigUpdated string config
  | EvInstanceConfigFor icfg_for
  | EvInstanceConfigManagerDone
  | EvInstanceConfigDeleting
  | EvConfigFileUpdated
  | EvHeartbeatMessageTypeUpdated string
  | EvRemoteFileConfig fetch_args nat config
  | EvFetchFailed fetch_args nat bool
  | EvFetchRetry fetch_args
  | EvLocalWrite config
  | EvLocalRemove

fun disc_step :: "disc_env \<Rightarrow> disc_event \<Rightarrow> disc \<Rightarrow> disc" where
  "disc_step e (EvInstanceConfigUpdated node c) t = disc_onInstanceConfigUpdated e node c t"
| "disc_step e (EvInstanceConfigFor f) t = onInstanceConfigFor e f t"
| "disc_step e EvInstanceConfigManagerDone t = onInstanceConfigManagerDone e t"
| "disc_step e EvInstanceConfigDeleting t = onInstanceConfigDeleting t"
| "disc_step e EvConfigFileUpdated t = disc_onConfigFileUpdated e t"
| "disc_step e (EvHeartbeatMessageTypeUpdated to) t = disc_onHeartbeatMessageTypeUpdated to t"
| "disc_step e (EvRemoteFileConfig a ctx c) t = onRemoteConfigFetched e a ctx c t"
| "disc_step e (EvFetchFailed a ctx retry) t = onFetchFailed a ctx retry t"
| "disc_step e (EvFetchRetry a) t = onFetchRetry e a t"
| "disc_step e (EvLocalWrite c) t = t\<lparr>ds_file := Some c\<rparr>"
| "disc_step e EvLocalRemove t = t\<lparr>ds_file := None\<rparr>"

definition disc_run :: "(disc_env \<times> disc_event) list \<Rightarrow> disc \<Rightarrow> disc" where
  "disc_run l t = foldl (\<lambda>t (e, ev). disc_step e ev t) t l"

end
