(* ===== verification/Icfg.thy ===== *)
theory Icfg
  imports Discover
begin

text \<open>
  The manager of the configuration of a local instance, \<open>daemon/icfg/main.go\<close>: it evaluates the
  configuration file of its object each time it may have changed, publishes what it evaluates to,
  tells the peers of a configuration this node is not in the scope of, and ends with the file.

  The evaluator of the configurations is a parameter, the record \<open>xconf\<close> of its accessors; a check
  takes as input what it reads: the modification times before and after, the checksum, the evaluator,
  the nodes of the cluster. The claims, the holds, the schedules and the subsets of an actor are not
  in the configuration records, whose readers are the monitors.
\<close>

section \<open>Evaluated configurations\<close>

type_synonym key = "string \<times> string"

record xconf =
  xc_Eval_nodes :: "string list option"
  xc_GetString :: "key \<Rightarrow> string"
  xc_GetStrings :: "key \<Rightarrow> string list"
  xc_GetBool :: "key \<Rightarrow> bool"
  xc_GetInt :: "key \<Rightarrow> int"
  xc_GetIntStrict :: "key \<Rightarrow> int option"
  xc_GetDuration :: "key \<Rightarrow> duration option"
  xc_GetSize :: "key \<Rightarrow> int option"
  xc_SectionStrings :: "string list"
  xc_labels :: "(string, string) gomap"
  xc_Holds :: "string list option"

abbreviation defaultKey :: "string \<Rightarrow> key" where
  "defaultKey opt \<equiv> (''DEFAULT'', opt)"

definition ParseRelations :: "string list \<Rightarrow> string \<Rightarrow> string list" where
  "ParseRelations l ns =
    List.map_filter (\<lambda>s.
      let s = (if CHR ''/'' \<in> set s then s else ''./svc/'' @ s)
      in case Cut (CHR ''@'') s of
           None \<Rightarrow> map_option path_String (ParsePathRel s ns)
         | Some (s, node) \<Rightarrow> map_option (\<lambda>p. path_String p @ ''@'' @ node) (ParsePathRel s ns)) l"

definition monitor_action_of :: "string \<Rightarrow> monitor_action" where
  "monitor_action_of s =
    (if s = ''none'' then MonitorActionNone else if s = ''crash'' then MonitorActionCrash
     else if s = ''freezestop'' then MonitorActionFreezeStop else if s = ''reboot'' then MonitorActionReboot
     else if s = ''switch'' then MonitorActionSwitch else MonitorActionOther s)"

definition getMonitorAction :: "xconf \<Rightarrow> monitor_action list" where
  "getMonitorAction cf = map monitor_action_of (xc_GetStrings cf (defaultKey ''monitor_action''))"

definition getChildren :: "path \<Rightarrow> xconf \<Rightarrow> string list" where
  "getChildren p cf = ParseRelations (xc_GetStrings cf (defaultKey ''children'')) (p_Namespace p)"

definition getParents :: "path \<Rightarrow> xconf \<Rightarrow> string list" where
  "getParents p cf = ParseRelations (xc_GetStrings cf (defaultKey ''parents'')) (p_Namespace p)"

definition getPaths :: "path \<Rightarrow> xconf \<Rightarrow> key \<Rightarrow> path list" where
  "getPaths p cf k = List.map_filter (\<lambda>s. ParsePathOf s (p_Namespace p)) (xc_GetStrings cf k)"

definition getPlacementPolicy :: "xconf \<Rightarrow> policy" where
  "getPlacementPolicy cf = NewPolicy (xc_GetString cf (defaultKey ''placement''))"

definition getTopology :: "xconf \<Rightarrow> topology" where
  "getTopology cf = topology_New (xc_GetString cf (defaultKey ''topology''))"

definition getOrchestrate :: "xconf \<Rightarrow> string" where
  "getOrchestrate cf = xc_GetString cf (defaultKey ''orchestrate'')"

definition standbyDefaultRestart :: int where "standbyDefaultRestart = 2"

definition IsSubsetSection :: "string \<Rightarrow> bool" where
  "IsSubsetSection s = (take 7 s = ''subset#'')"

definition resource_of :: "xconf \<Rightarrow> string \<Rightarrow> resource_config" where
  "resource_of cf section =
    (let restart = xc_GetInt cf (section, ''restart''); isStandby = xc_GetBool cf (section, ''standby'')
     in \<lparr>rc_IsDisabled = xc_GetBool cf (section, ''disable''), rc_IsMonitored = xc_GetBool cf (section, ''monitor''),
         rc_IsStandby = isStandby,
         rc_Restart = (if isStandby \<and> restart < standbyDefaultRestart then standbyDefaultRestart else restart),
         rc_RestartDelay = xc_GetDuration cf (section, ''restart_delay'')\<rparr>)"

definition getResources :: "xconf \<Rightarrow> resource_configs" where
  "getResources cf =
    fold (\<lambda>section m.
      if section \<in> {''env'', ''labels'', ''DEFAULT''} then m
      else if IsSubsetSection section then m
      else AList.update section (resource_of cf section) m) (xc_SectionStrings cf) []"

definition zero_resource_config :: resource_config where
  "zero_resource_config = \<lparr>rc_IsDisabled = False, rc_IsMonitored = False, rc_IsStandby = False, rc_Restart = 0, rc_RestartDelay = None\<rparr>"

text \<open>The holds are attached to the entry of their resource, made when there is none.\<close>

definition setHolds :: "xconf \<Rightarrow> resource_configs \<Rightarrow> resource_configs" where
  "setHolds cf m =
    (case xc_Holds cf of None \<Rightarrow> m | Some rids \<Rightarrow> fold (\<lambda>rid m. AList.update rid (lkp zero_resource_config m rid) m) rids m)"

section \<open>Flex bounds\<close>

definition getFlexMin :: "path \<Rightarrow> xconf \<Rightarrow> int \<Rightarrow> int" where
  "getFlexMin p cf maxInstanceCount =
    (if p_Kind p \<noteq> KindSvc \<and> p_Kind p \<noteq> KindVol then 0
     else
       (let minInstanceCount = (if p_Kind p = KindSvc then 1 else 0)
        in case xc_GetIntStrict cf (defaultKey ''flex_min'') of
             None \<Rightarrow> minInstanceCount
           | Some i \<Rightarrow> if i < minInstanceCount then minInstanceCount
                       else if i > maxInstanceCount then maxInstanceCount else i))"

definition getFlexMax :: "path \<Rightarrow> xconf \<Rightarrow> int \<Rightarrow> int \<Rightarrow> int" where
  "getFlexMax p cf minInstanceCount maxInstanceCount =
    (if p_Kind p \<noteq> KindSvc \<and> p_Kind p \<noteq> KindVol then 0
     else case xc_GetIntStrict cf (defaultKey ''flex_max'') of
            None \<Rightarrow> maxInstanceCount
          | Some i \<Rightarrow> if i < minInstanceCount then minInstanceCount
                      else if i > maxInstanceCount then maxInstanceCount else i)"

definition getFlexTarget :: "path \<Rightarrow> xconf \<Rightarrow> int \<Rightarrow> int \<Rightarrow> int" where
  "getFlexTarget p cf minInstanceCount maxInstanceCount =
    (if p_Kind p \<noteq> KindSvc \<and> p_Kind p \<noteq> KindVol then 0
     else case xc_GetIntStrict cf (defaultKey ''flex_target'') of
            None \<Rightarrow> minInstanceCount
          | Some i \<Rightarrow> if i < minInstanceCount then minInstanceCount
                      else if i > maxInstanceCount then maxInstanceCount else i)"

definition flex_of :: "path \<Rightarrow> xconf \<Rightarrow> string list \<Rightarrow> flex_config" where
  "flex_of p cf scope =
    (let instanceCount = int (length scope);
         flexMin = getFlexMin p cf instanceCount;
         flexMax = getFlexMax p cf flexMin instanceCount;
         flexTarget = getFlexTarget p cf flexMin flexMax
     in \<lparr>fx_Max = flexMax, fx_Min = flexMin, fx_Target = flexTarget\<rparr>)"

definition actor_of :: "path \<Rightarrow> xconf \<Rightarrow> string list \<Rightarrow> actor_config" where
  "actor_of p cf scope =
    \<lparr>ac_Children = getChildren p cf, ac_MonitorAction = getMonitorAction cf,
     ac_PreMonitorAction = xc_GetString cf (defaultKey ''pre_monitor_action''), ac_Orchestrate = getOrchestrate cf,
     ac_Parents = getParents p cf, ac_PlacementPolicy = getPlacementPolicy cf, ac_Resources = setHolds cf (getResources cf),
     ac_Stonith = xc_GetBool cf (defaultKey ''stonith''), ac_Topology = getTopology cf,
     ac_Flex = (if getTopology cf = Flex then Some (flex_of p cf scope) else None),
     ac_IsDisabled = xc_GetBool cf (defaultKey ''disable''),
     ac_WaitSyncsTimeout = (case xc_GetDuration cf (defaultKey ''wait_syncs_timeout'') of None \<Rightarrow> 0 | Some d \<Rightarrow> d),
     ac_HardAffinity = getPaths p cf (defaultKey ''hard_affinity''), ac_HardAntiAffinity = getPaths p cf (defaultKey ''hard_anti_affinity''),
     ac_SoftAffinity = getPaths p cf (defaultKey ''soft_affinity''), ac_SoftAntiAffinity = getPaths p cf (defaultKey ''soft_anti_affinity''),
     ac_StartTimeout = (case xc_GetDuration cf (defaultKey ''start_timeout'') of
                          Some d \<Rightarrow> d
                        | None \<Rightarrow> case xc_GetDuration cf (defaultKey ''timeout'') of Some d \<Rightarrow> d | None \<Rightarrow> 0)\<rparr>"

section \<open>The manager\<close>

datatype icfg_msg =
    ObjectCreated
  | IcfgUpdated config
  | IcfgFor icfg_for
  | IcfgDeleted
  | IcfgDone

record icfg =
  ic_path :: path
  ic_localhost :: string
  ic_lastMtime :: "time"
  ic_forceRefresh :: bool
  ic_config :: config
  ic_published :: bool
  ic_cancelled :: bool
  ic_started :: bool
  ic_ended :: bool
  ic_trace :: "icfg_msg list"

record check_in =
  ci_mtime :: "time"
  ci_checksum :: "string option"
  ci_conf :: "xconf option"
  ci_clusterNodes :: "string list"
  ci_newMtime :: "time"

definition icfg_Start :: "path \<Rightarrow> string \<Rightarrow> icfg" where
  "icfg_Start p localhost =
    \<lparr>ic_path = p, ic_localhost = localhost, ic_lastMtime = 0, ic_forceRefresh = False, ic_config = zero_config, ic_published = False,
     ic_cancelled = False, ic_started = False, ic_ended = False, ic_trace = []\<rparr>"

definition ic_emit :: "icfg_msg \<Rightarrow> icfg \<Rightarrow> icfg" where
  "ic_emit x t = t\<lparr>ic_trace := ic_trace t @ [x]\<rparr>"

definition getScope :: "xconf \<Rightarrow> string list \<Rightarrow> icfg \<Rightarrow> string list option" where
  "getScope cf clusterNodes t = (if p_Kind (ic_path t) = KindCcfg then Some clusterNodes else xc_Eval_nodes cf)"

definition updateConfig :: "config \<Rightarrow> icfg \<Rightarrow> icfg" where
  "updateConfig c t =
    (if ConfigEqual (ic_config t) c then t
     else
       (let t = (if \<not> ic_published t then ic_emit ObjectCreated t else t)
        in ic_emit (IcfgUpdated c) (t\<lparr>ic_config := c, ic_published := True\<rparr>)))"

definition foreign_announce :: "string list \<Rightarrow> time \<Rightarrow> icfg \<Rightarrow> icfg" where
  "foreign_announce scope mtime t =
    ic_emit (IcfgFor \<lparr>if_Node = ic_localhost t,
      if_Orchestrate = (case cfg_Actor (ic_config t) of None \<Rightarrow> [] | Some ac \<Rightarrow> ac_Orchestrate ac),
      if_Scope = scope, if_UpdatedAt = mtime\<rparr>) t"

text \<open>The objects of \<open>NewConfigurer\<close> with resources are the services and the volumes.\<close>

definition isActor :: "kind \<Rightarrow> bool" where
  "isActor k = (k = KindSvc \<or> k = KindVol)"

definition evaluate :: "xconf \<Rightarrow> string \<Rightarrow> string list \<Rightarrow> time \<Rightarrow> icfg \<Rightarrow> config" where
  "evaluate cf checksum scope mtime t =
    (let c = (ic_config t)\<lparr>cfg_Checksum := checksum, cfg_Scope := scope, cfg_UpdatedAt := mtime,
               cfg_Priority := xc_GetInt cf (defaultKey ''priority''), cfg_Labels := xc_labels cf\<rparr>;
         c = (if p_Kind (ic_path t) = KindVol
              then c\<lparr>cfg_Vol := Some \<lparr>vc_Pool = xc_GetString cf (defaultKey ''pool''),
                       vc_Size = (case xc_GetSize cf (defaultKey ''size'') of None \<Rightarrow> 0 | Some sz \<Rightarrow> sz)\<rparr>\<rparr>
              else c)
     in if isActor (p_Kind (ic_path t)) then c\<lparr>cfg_Actor := Some (actor_of (ic_path t) cf scope)\<rparr> else c)"

text \<open>Whether the check fails, and the manager after it.\<close>

definition configFileCheck :: "check_in \<Rightarrow> icfg \<Rightarrow> bool \<times> icfg" where
  "configFileCheck i t =
    (if ci_mtime i = 0 then (True, t)
     else if ci_mtime i = ic_lastMtime t \<and> \<not> ic_forceRefresh t then (False, t)
     else
       (case ci_checksum i of
          None \<Rightarrow> (True, t)
        | Some checksum \<Rightarrow>
            (case ci_conf i of
               None \<Rightarrow> (True, t)
             | Some cf \<Rightarrow>
                 (let t = t\<lparr>ic_forceRefresh := False\<rparr>
                  in case getScope cf (ci_clusterNodes i) t of
                       None \<Rightarrow> (True, t)
                     | Some scope \<Rightarrow>
                         if scope = [] then (True, t)
                         else if ci_newMtime i = 0 then (True, t)
                         else if ci_newMtime i \<noteq> ci_mtime i then (False, t)
                         else if ic_localhost t \<notin> set scope then (True, foreign_announce scope (ci_mtime i) t)
                         else (False, updateConfig (evaluate cf checksum scope (ci_mtime i) t) (t\<lparr>ic_lastMtime := ci_mtime i\<rparr>))))))"

definition configFileCheckRefresh :: "bool \<Rightarrow> check_in \<Rightarrow> icfg \<Rightarrow> icfg" where
  "configFileCheckRefresh force i t =
    (let t = (if force then t\<lparr>ic_forceRefresh := True\<rparr> else t); (failed, t) = configFileCheck i t
     in if failed then t\<lparr>ic_cancelled := True\<rparr> else t)"

definition icfg_delete :: "icfg \<Rightarrow> icfg" where
  "icfg_delete t = (if ic_published t then ic_emit IcfgDeleted t else t)"

definition icfg_done :: "icfg \<Rightarrow> icfg" where
  "icfg_done t = ic_emit IcfgDone (t\<lparr>ic_cancelled := True, ic_ended := True\<rparr>)"

text \<open>
  The worker: a first check, then the messages until it sees its context done. A message may still be
  taken between the cancel and its sight. The configuration of the cluster, of the namespace and the
  labels of the nodes force the evaluation of a file that did not change.
\<close>

datatype icfg_event =
    IcStart check_in
  | IcConfigFileUpdated check_in
  | IcForced check_in
  | IcConfigFileRemoved
  | IcParentDone
  | IcDone

fun icfg_step :: "icfg_event \<Rightarrow> icfg \<Rightarrow> icfg" where
  "icfg_step (IcStart i) t =
    (if ic_started t then t
     else case configFileCheck i (t\<lparr>ic_started := True\<rparr>) of (True, t) \<Rightarrow> icfg_done t | (False, t) \<Rightarrow> t)"
| "icfg_step (IcConfigFileUpdated i) t = (if ic_started t \<and> \<not> ic_ended t then configFileCheckRefresh False i t else t)"
| "icfg_step (IcForced i) t = (if ic_started t \<and> \<not> ic_ended t then configFileCheckRefresh True i t else t)"
| "icfg_step IcConfigFileRemoved t = (if ic_started t \<and> \<not> ic_ended t then t\<lparr>ic_cancelled := True\<rparr> else t)"
| "icfg_step IcParentDone t = t\<lparr>ic_cancelled := True\<rparr>"
| "icfg_step IcDone t = (if ic_started t \<and> \<not> ic_ended t \<and> ic_cancelled t then icfg_done (icfg_delete t) else t)"

definition icfg_run :: "icfg_event list \<Rightarrow> path \<Rightarrow> string \<Rightarrow> icfg" where
  "icfg_run l p localhost = fold icfg_step l (icfg_Start p localhost)"

end
