(* ===== verification/Discover_Props.thy ===== *)
theory Discover_Props
  imports Discover
begin

text \<open>
  Properties of the discovery of the configurations: what is installed goes forward in time, what is
  removed is foreign, a fetch is retried a bounded number of times, a more recent configuration is
  fetched and installed, and an object being removed is not brought back.
\<close>

section \<open>What an operation adds to the trace\<close>

definition grew :: "(disc_effect \<Rightarrow> bool) \<Rightarrow> disc \<Rightarrow> disc \<Rightarrow> bool" where
  "grew P t t' = (\<forall>x \<in> set (ds_trace t'). x \<in> set (ds_trace t) \<or> P x)"

lemma grew_same: "ds_trace t' = ds_trace t \<Longrightarrow> grew P t t'"
  by (simp add: grew_def)

lemma grew_trans: "grew P t t' \<Longrightarrow> grew P t' t'' \<Longrightarrow> grew P t t''"
  by (auto simp: grew_def)

lemma emit_fields [simp]:
  "ds_file (d_emit x t) = ds_file t" "ds_fetcher (d_emit x t) = ds_fetcher t" "ds_nextCtx (d_emit x t) = ds_nextCtx t"
  "ds_cancelled (d_emit x t) = ds_cancelled t" "ds_localhost (d_emit x t) = ds_localhost t" "ds_isCluster (d_emit x t) = ds_isCluster t"
  "ds_trace (d_emit x t) = ds_trace t @ [x]" "modTime (d_emit x t) = modTime t" "ds_cfgDeleting (d_emit x t) = ds_cfgDeleting t"
  by (simp_all add: d_emit_def modTime_def)

lemma modTime_update [simp]:
  "modTime (t\<lparr>ds_cfgMTime := a\<rparr>) = modTime t" "modTime (t\<lparr>ds_cfgDeleting := b\<rparr>) = modTime t"
  "modTime (t\<lparr>ds_disableRecover := c\<rparr>) = modTime t" "modTime (t\<lparr>ds_retain := d\<rparr>) = modTime t"
  "modTime (t\<lparr>ds_instanceConfigFor := f\<rparr>) = modTime t" "modTime (t\<lparr>ds_fetcher := g\<rparr>) = modTime t"
  "modTime (t\<lparr>ds_nextCtx := n\<rparr>) = modTime t" "modTime (t\<lparr>ds_cancelled := l\<rparr>) = modTime t"
  "modTime (t\<lparr>ds_file := None\<rparr>) = 0" "modTime (t\<lparr>ds_file := Some x\<rparr>) = cfg_UpdatedAt x"
  by (simp_all add: modTime_def)

lemma cancel_fields [simp]:
  "ds_file (cancelFetcher t) = ds_file t" "ds_trace (cancelFetcher t) = ds_trace t" "ds_localhost (cancelFetcher t) = ds_localhost t"
  "ds_isCluster (cancelFetcher t) = ds_isCluster t" "modTime (cancelFetcher t) = modTime t" "ds_retain (cancelFetcher t) = ds_retain t"
  "ds_cfgMTime (cancelFetcher t) = ds_cfgMTime t" "ds_fetcher (cancelFetcher t) = None" "ds_nextCtx (cancelFetcher t) = ds_nextCtx t"
  "ds_cfgDeleting (cancelFetcher t) = ds_cfgDeleting t"
  by (simp_all add: cancelFetcher_def modTime_def split: option.split)

lemma retain_fields [simp]:
  "ds_file (retain_update n c t) = ds_file t" "ds_trace (retain_update n c t) = ds_trace t" "ds_localhost (retain_update n c t) = ds_localhost t"
  "ds_isCluster (retain_update n c t) = ds_isCluster t" "modTime (retain_update n c t) = modTime t"
  "ds_fetcher (retain_update n c t) = ds_fetcher t" "ds_nextCtx (retain_update n c t) = ds_nextCtx t" "ds_cancelled (retain_update n c t) = ds_cancelled t"
  "ds_cfgMTime (retain_update n c t) = ds_cfgMTime t" "ds_cfgDeleting (retain_update n c t) = ds_cfgDeleting t"
  by (simp_all add: retain_update_def abortRetainForeignConfig_def modTime_def split: option.split)

lemma abort_fields [simp]:
  "ds_file (abortRetainForeignConfig t) = ds_file t" "ds_trace (abortRetainForeignConfig t) = ds_trace t"
  "ds_localhost (abortRetainForeignConfig t) = ds_localhost t" "ds_isCluster (abortRetainForeignConfig t) = ds_isCluster t"
  "ds_fetcher (abortRetainForeignConfig t) = ds_fetcher t" "ds_nextCtx (abortRetainForeignConfig t) = ds_nextCtx t"
  "ds_cancelled (abortRetainForeignConfig t) = ds_cancelled t" "modTime (abortRetainForeignConfig t) = modTime t"
  by (simp_all add: abortRetainForeignConfig_def)

lemma remove_fields [simp]:
  "ds_localhost (removeConfigFileAndDisableRecover e u sc t) = ds_localhost t" "ds_isCluster (removeConfigFileAndDisableRecover e u sc t) = ds_isCluster t"
  "ds_fetcher (removeConfigFileAndDisableRecover e u sc t) = ds_fetcher t" "ds_nextCtx (removeConfigFileAndDisableRecover e u sc t) = ds_nextCtx t"
  "ds_cancelled (removeConfigFileAndDisableRecover e u sc t) = ds_cancelled t"
  by (simp_all add: removeConfigFileAndDisableRecover_def d_emit_def Let_def split: option.split)

lemma cleanup_fields [simp]:
  "ds_file (cleanup t) = ds_file t" "ds_trace (cleanup t) = ds_trace t" "ds_localhost (cleanup t) = ds_localhost t"
  "ds_isCluster (cleanup t) = ds_isCluster t" "ds_fetcher (cleanup t) = ds_fetcher t" "ds_nextCtx (cleanup t) = ds_nextCtx t"
  "ds_cancelled (cleanup t) = ds_cancelled t" "modTime (cleanup t) = modTime t"
  by (simp_all add: cleanup_def)

lemma prepare_fields [simp]:
  "ds_file (for_prepare c t) = ds_file t" "ds_trace (for_prepare c t) = ds_trace t" "ds_localhost (for_prepare c t) = ds_localhost t"
  "ds_isCluster (for_prepare c t) = ds_isCluster t" "modTime (for_prepare c t) = modTime t" "ds_nextCtx (for_prepare c t) = ds_nextCtx t"
  by (simp_all add: for_prepare_def Let_def split: option.split)

lemma end_fields [simp]:
  "ds_file (endFetcher ctx t) = ds_file t" "ds_trace (endFetcher ctx t) = ds_trace t" "ds_localhost (endFetcher ctx t) = ds_localhost t"
  "ds_isCluster (endFetcher ctx t) = ds_isCluster t" "modTime (endFetcher ctx t) = modTime t"
  by (simp_all add: endFetcher_def)

lemma identity_step [simp]: "ds_localhost (disc_step e ev t) = ds_localhost t" "ds_isCluster (disc_step e ev t) = ds_isCluster t"
  by (cases ev; simp add: disc_onInstanceConfigUpdated_def onRemoteConfigUpdated_def onInstanceConfigFor_def onInstanceConfigManagerDone_def
      onInstanceConfigDeleting_def disc_onConfigFileUpdated_def disc_onHeartbeatMessageTypeUpdated_def onRemoteConfigFetched_def onFetchFailed_def
      onFetchRetry_def remote_fetch_def remote_foreign_def fetchConfigFromRemote_def handleStoppedFlag_def onInstanceConfigForFromLocalhost_def
      onInstanceConfigForFromPeer_def Let_def split: option.split prod.split)+

lemmas disc_defs = disc_onInstanceConfigUpdated_def onRemoteConfigUpdated_def onInstanceConfigFor_def onInstanceConfigManagerDone_def
  onInstanceConfigDeleting_def disc_onConfigFileUpdated_def disc_onHeartbeatMessageTypeUpdated_def onRemoteConfigFetched_def
  onFetchFailed_def onFetchRetry_def remote_fetch_def remote_foreign_def handleStoppedFlag_def
  onInstanceConfigForFromLocalhost_def onInstanceConfigForFromPeer_def Let_def

section \<open>What is removed is foreign\<close>

definition removal_ok :: "string \<Rightarrow> bool \<Rightarrow> disc_effect \<Rightarrow> bool" where
  "removal_ok localhost isCluster x =
    (case x of DRemoved c updatedAt scope \<Rightarrow> \<not> isCluster \<and> cfg_UpdatedAt c \<le> updatedAt \<and> localhost \<notin> set scope | _ \<Rightarrow> True)"

lemma fetch_removal: "grew (removal_ok lh cl) t (fetchConfigFromRemote e a t)"
  by (simp add: grew_def fetchConfigFromRemote_def removal_ok_def Let_def)

lemma remove_removal:
  assumes "modTime t \<le> u" "lh \<notin> set sc" "\<not> cl"
  shows "grew (removal_ok lh cl) t (removeConfigFileAndDisableRecover e u sc t)"
  using assms by (auto simp: grew_def removeConfigFileAndDisableRecover_def removal_ok_def modTime_def d_emit_def Let_def split: option.splits)

lemma foreign_removal:
  assumes "modTime t \<le> cfg_UpdatedAt c" "lh \<notin> set (cfg_Scope c)" "\<not> cl"
  shows "grew (removal_ok lh cl) t (remote_foreign e c t)"
  using remove_removal [of "cancelFetcher t" "cfg_UpdatedAt c" lh "cfg_Scope c" cl e] assms
  by (simp add: remote_foreign_def Let_def grew_def)

lemma remote_fetch_removal: "grew (removal_ok lh cl) t (remote_fetch e n c t)"
  by (simp add: remote_fetch_def Let_def fetch_removal)

lemma updated_removal: "grew (removal_ok (ds_localhost t) (ds_isCluster t)) t (disc_onInstanceConfigUpdated e node c t)"
proof -
  let ?t = "retain_update node c t" and ?P = "removal_ok (ds_localhost t) (ds_isCluster t)"
  have f: "grew ?P t (remote_fetch e node c ?t)" "grew ?P t (remote_fetch e node c (cancelFetcher ?t))"
    using remote_fetch_removal [of _ _ ?t] remote_fetch_removal [of _ _ "cancelFetcher ?t"] by (simp_all add: grew_def)
  have g: "grew ?P t (remote_foreign e c ?t)" if "cfg_UpdatedAt c \<ge> modTime t" "\<not> inScope c ?t" "\<not> ds_isCluster t"
    using that foreign_removal [of ?t c "ds_localhost t" "ds_isCluster t" e] by (simp add: inScope_def grew_def)
  show ?thesis
    unfolding disc_onInstanceConfigUpdated_def onRemoteConfigUpdated_def Let_def
    using f g by (auto intro: grew_same split: option.split)
qed

lemma for_removal: "grew (removal_ok (ds_localhost t) (ds_isCluster t)) t (onInstanceConfigFor e f t)"
proof -
  let ?P = "removal_ok (ds_localhost t) (ds_isCluster t)"
  have a: "grew ?P s (onInstanceConfigForFromLocalhost e f s)" if "\<not> ds_isCluster t" for s
    using that remove_removal [of s "if_UpdatedAt f" "ds_localhost t" "[]" "ds_isCluster t" e]
    by (auto simp: onInstanceConfigForFromLocalhost_def grew_def)
  have b: "grew ?P s (onInstanceConfigForFromPeer e f s)" if "\<not> ds_isCluster t" "ds_localhost s = ds_localhost t" for s
    using that remove_removal [of s "if_UpdatedAt f" "ds_localhost t" "if_Scope f" "ds_isCluster t" e] fetch_removal
    by (auto simp: onInstanceConfigForFromPeer_def grew_def)
  show ?thesis
    using a [of "for_prepare f t"] b [of "for_prepare f t"] by (simp add: onInstanceConfigFor_def Let_def grew_def)
qed

lemma step_removal: "grew (removal_ok (ds_localhost t) (ds_isCluster t)) t (disc_step e ev t)"
proof (cases ev)
  case EvInstanceConfigManagerDone
  have "grew (removal_ok (ds_localhost t) (ds_isCluster t)) t (disc_onInstanceConfigUpdated e n c (cleanup t))" for n c
    using updated_removal [of "cleanup t" e n c] by (simp add: grew_def)
  then show ?thesis
    using EvInstanceConfigManagerDone
    by (auto simp: onInstanceConfigManagerDone_def removal_ok_def grew_def split: option.split)
next
  case (EvFetchRetry a)
  then show ?thesis using fetch_removal [of _ _ t e a] by (simp add: onFetchRetry_def grew_def)
next
  case (EvRemoteFileConfig a ctx c)
  then show ?thesis by (simp add: onRemoteConfigFetched_def handleStoppedFlag_def grew_def removal_ok_def split: option.split)
qed (simp_all add: updated_removal for_removal, simp_all add: grew_def removal_ok_def onInstanceConfigDeleting_def disc_onConfigFileUpdated_def
    disc_onHeartbeatMessageTypeUpdated_def onFetchFailed_def Let_def split: option.split)

lemma disc_run_snoc: "disc_run (l @ [(e, ev)]) t = disc_step e ev (disc_run l t)"
  by (simp add: disc_run_def)

lemma identity_run [simp]: "ds_localhost (disc_run l t) = ds_localhost t" "ds_isCluster (disc_run l t) = ds_isCluster t"
  by (induction l rule: rev_induct) (auto simp: disc_run_snoc, simp_all add: disc_run_def)

text \<open>
  C31. Whatever the messages and the failures, the manager removes a configuration file only when it
  is not the one of the cluster, for a configuration or an announcement as recent as the file whose
  scope does not have this node.
\<close>

theorem removed_only_foreign:
  "DRemoved c updatedAt scope \<in> set (ds_trace (disc_run l (new_disc localhost isCluster cf)))
   \<Longrightarrow> \<not> isCluster \<and> cfg_UpdatedAt c \<le> updatedAt \<and> localhost \<notin> set scope"
proof (induction l rule: rev_induct)
  case Nil
  then show ?case by (simp add: disc_run_def new_disc_def)
next
  case (snoc x l)
  obtain e ev where x: "x = (e, ev)" by force
  let ?t = "disc_run l (new_disc localhost isCluster cf)"
  have "ds_localhost ?t = localhost" "ds_isCluster ?t = isCluster" by (simp_all add: new_disc_def)
  with step_removal [of ?t e ev] snoc x show ?case by (auto simp: grew_def disc_run_snoc removal_ok_def)
qed

section \<open>What is installed goes forward\<close>

text \<open>
  The events of a run in which nobody writes the file locally: a result is the one of a fetch
  started, of a configuration as recent as the one announced, which its goroutine checked to have
  this node in its scope; a retry is one scheduled.
\<close>

fun honest :: "disc \<Rightarrow> disc_event \<Rightarrow> bool" where
  "honest t (EvRemoteFileConfig a ctx c) =
    (DFetch a ctx \<in> set (ds_trace t) \<and> fa_updatedAt a \<le> cfg_UpdatedAt c \<and> (\<exists>first again bad. fetch (ds_localhost t) first again bad = Fetched c))"
| "honest t (EvFetchFailed a ctx retry) = (DFetch a ctx \<in> set (ds_trace t))"
| "honest t (EvFetchRetry a) = (\<exists>d. DRetry a d \<in> set (ds_trace t))"
| "honest t (EvLocalWrite c) = False"
| "honest t _ = True"

inductive disc_reach :: "string \<Rightarrow> bool \<Rightarrow> disc \<Rightarrow> bool" for localhost isCluster where
  reach_start: "0 \<le> modTime (new_disc localhost isCluster cf) \<Longrightarrow> disc_reach localhost isCluster (new_disc localhost isCluster cf)"
| reach_step: "disc_reach localhost isCluster t \<Longrightarrow> honest t ev \<Longrightarrow> disc_reach localhost isCluster (disc_step e ev t)"

definition effect_ok :: "disc \<Rightarrow> disc_effect \<Rightarrow> bool" where
  "effect_ok t x =
    (case x of
       DFetch a ctx \<Rightarrow> ctx < ds_nextCtx t \<and> fa_attempt a \<le> fetchRetryMax
         \<and> (\<forall>f. ds_fetcher t = Some f \<and> ft_ctx f = ctx \<longrightarrow> ft_updated f = fa_updatedAt a)
     | DRetry a d \<Rightarrow> 0 < fa_attempt a \<and> fa_attempt a \<le> fetchRetryMax \<and> d = fetchRetryDelay (fa_attempt a)
     | DInstalled c old ctx \<Rightarrow> ds_localhost t \<in> set (cfg_Scope c) \<and> (case old of None \<Rightarrow> True | Some o' \<Rightarrow> cfg_UpdatedAt o' < cfg_UpdatedAt c)
     | _ \<Rightarrow> True)"

definition disc_inv :: "disc \<Rightarrow> bool" where
  "disc_inv t =
    (0 \<le> modTime t
     \<and> (\<forall>f. ds_fetcher t = Some f \<longrightarrow> ft_ctx f < ds_nextCtx t \<and> ft_ctx f \<notin> set (ds_cancelled t) \<and> modTime t < ft_updated f)
     \<and> (\<forall>ctx < ds_nextCtx t. ctx \<in> set (ds_cancelled t) \<or> map_option ft_ctx (ds_fetcher t) = Some ctx)
     \<and> (\<forall>ctx \<in> set (ds_cancelled t). ctx < ds_nextCtx t)
     \<and> (\<forall>x \<in> set (ds_trace t). effect_ok t x))"

lemma effect_ok_same:
  "ds_localhost t' = ds_localhost t \<Longrightarrow> ds_nextCtx t' = ds_nextCtx t \<Longrightarrow> ds_fetcher t' = ds_fetcher t \<or> ds_fetcher t' = None \<Longrightarrow>
   effect_ok t x \<Longrightarrow> effect_ok t' x"
  by (auto simp: effect_ok_def split: disc_effect.splits)

lemma disc_inv_same:
  assumes "disc_inv t" "ds_fetcher t' = ds_fetcher t" "ds_nextCtx t' = ds_nextCtx t" "ds_cancelled t' = ds_cancelled t"
    and "ds_localhost t' = ds_localhost t" "ds_trace t' = ds_trace t" "modTime t' = modTime t \<or> modTime t' = 0"
  shows "disc_inv t'"
  using assms effect_ok_same [of t' t] by (auto simp: disc_inv_def)

lemma disc_inv_iff:
  assumes "ds_fetcher t' = ds_fetcher t" "ds_nextCtx t' = ds_nextCtx t" "ds_cancelled t' = ds_cancelled t"
    and "ds_localhost t' = ds_localhost t" "ds_trace t' = ds_trace t" "ds_file t' = ds_file t"
  shows "disc_inv t' = disc_inv t"
  using assms disc_inv_same [of t t'] disc_inv_same [of t' t] by (auto simp: modTime_def)

lemma disc_inv_update [simp]:
  "disc_inv (t\<lparr>ds_cfgMTime := a\<rparr>) = disc_inv t" "disc_inv (t\<lparr>ds_cfgDeleting := b\<rparr>) = disc_inv t"
  "disc_inv (t\<lparr>ds_disableRecover := c\<rparr>) = disc_inv t" "disc_inv (t\<lparr>ds_retain := d\<rparr>) = disc_inv t"
  "disc_inv (t\<lparr>ds_instanceConfigFor := f\<rparr>) = disc_inv t"
  by (rule disc_inv_iff; simp)+

lemma disc_inv_emit:
  assumes "disc_inv t" "effect_ok t x"
  shows "disc_inv (d_emit x t)"
  using assms effect_ok_same [of "d_emit x t" t] by (auto simp: disc_inv_def)

lemma disc_inv_cancel: "disc_inv t \<Longrightarrow> disc_inv (cancelFetcher t)"
  using effect_ok_same [of "cancelFetcher t" t]
  by (auto simp: disc_inv_def cancelFetcher_def split: option.splits)

lemma disc_inv_end: "disc_inv t \<Longrightarrow> disc_inv (endFetcher ctx t)"
  by (simp add: endFetcher_def disc_inv_cancel)

lemma disc_inv_fetch:
  assumes inv: "disc_inv t" and a: "modTime t < fa_updatedAt a" "fa_attempt a \<le> fetchRetryMax"
  shows "disc_inv (fetchConfigFromRemote e a t)"
proof -
  let ?t = "t\<lparr>ds_nextCtx := Suc (ds_nextCtx t), ds_fetcher := Some \<lparr>ft_ctx = ds_nextCtx t, ft_from = fa_peer a, ft_updated = fa_updatedAt a\<rparr>\<rparr>"
  have "disc_inv ?t" if "ds_fetcher t = None"
    using that inv a by (auto simp: disc_inv_def effect_ok_def less_Suc_eq split: disc_effect.splits)
  moreover from this have "disc_inv (cancelFetcher ?t)" "disc_inv (d_emit (DFetch a (ds_nextCtx t)) ?t)" if "ds_fetcher t = None"
    using that a by (auto intro!: disc_inv_cancel disc_inv_emit simp: effect_ok_def)
  ultimately show ?thesis using inv by (simp add: fetchConfigFromRemote_def Let_def)
qed

lemma disc_inv_remove: "disc_inv t \<Longrightarrow> disc_inv (removeConfigFileAndDisableRecover e u sc t)"
proof -
  assume inv: "disc_inv t"
  have "disc_inv (d_emit (DRemoved c u sc) (t\<lparr>ds_file := None\<rparr>))" for c
    by (rule disc_inv_emit [OF disc_inv_same [OF inv]]) (simp_all add: effect_ok_def)
  with inv show ?thesis
    unfolding removeConfigFileAndDisableRecover_def Let_def
    by (auto split: option.split)
qed

lemma disc_inv_ops [simp]:
  "disc_inv (abortRetainForeignConfig t) = disc_inv t" "disc_inv (cleanup t) = disc_inv t" "disc_inv (retain_update n c t) = disc_inv t"
  by (simp_all add: abortRetainForeignConfig_def cleanup_def retain_update_def split: option.split)

lemma disc_inv_prepare: "disc_inv t \<Longrightarrow> disc_inv (for_prepare c t)"
  by (simp add: for_prepare_def Let_def disc_inv_cancel split: option.split)

lemma disc_inv_foreign: "disc_inv t \<Longrightarrow> disc_inv (remote_foreign e c t)"
  by (simp add: remote_foreign_def Let_def disc_inv_remove disc_inv_cancel)

lemma disc_inv_remote_fetch: "disc_inv t \<Longrightarrow> modTime t < cfg_UpdatedAt c \<Longrightarrow> disc_inv (remote_fetch e n c t)"
  by (simp add: remote_fetch_def Let_def disc_inv_fetch)

lemma disc_inv_updated: "disc_inv t \<Longrightarrow> disc_inv (disc_onInstanceConfigUpdated e n c t)"
  by (simp add: disc_onInstanceConfigUpdated_def onRemoteConfigUpdated_def Let_def
      disc_inv_foreign disc_inv_remote_fetch disc_inv_cancel split: option.split)

lemma disc_inv_for_localhost: "disc_inv t \<Longrightarrow> disc_inv (onInstanceConfigForFromLocalhost e f t)"
  by (simp add: onInstanceConfigForFromLocalhost_def disc_inv_remove)

lemma disc_inv_for_peer: "disc_inv t \<Longrightarrow> disc_inv (onInstanceConfigForFromPeer e f t)"
  unfolding onInstanceConfigForFromPeer_def by (simp add: disc_inv_remove disc_inv_fetch)

lemma disc_inv_for: "disc_inv t \<Longrightarrow> disc_inv (onInstanceConfigFor e f t)"
  by (simp add: onInstanceConfigFor_def Let_def disc_inv_prepare disc_inv_for_localhost disc_inv_for_peer)

lemma disc_inv_traceD: "disc_inv t \<Longrightarrow> x \<in> set (ds_trace t) \<Longrightarrow> effect_ok t x"
  by (simp add: disc_inv_def)

lemma disc_inv_modTime: "disc_inv t \<Longrightarrow> 0 \<le> modTime t"
  by (simp add: disc_inv_def)

lemma live_fetcher:
  assumes inv: "disc_inv t" and tr: "DFetch a ctx \<in> set (ds_trace t)" and live: "ctx \<notin> set (ds_cancelled t)"
  obtains f where "ds_fetcher t = Some f" "ft_ctx f = ctx" "ft_updated f = fa_updatedAt a" "modTime t < fa_updatedAt a"
proof -
  have ok: "ctx < ds_nextCtx t" "\<And>f. ds_fetcher t = Some f \<Longrightarrow> ft_ctx f = ctx \<Longrightarrow> ft_updated f = fa_updatedAt a"
    using disc_inv_traceD [OF inv tr] by (simp_all add: effect_ok_def)
  then have "map_option ft_ctx (ds_fetcher t) = Some ctx" using inv live unfolding disc_inv_def by blast
  then obtain f where f: "ds_fetcher t = Some f" "ft_ctx f = ctx" by auto
  moreover from f have "modTime t < ft_updated f" using inv by (simp add: disc_inv_def)
  ultimately show thesis using that ok(2) [OF f] by simp
qed

lemma disc_inv_write:
  assumes inv: "disc_inv t" and idle: "ds_fetcher t = None" and ok: "0 \<le> cfg_UpdatedAt c"
  shows "disc_inv (t\<lparr>ds_file := Some c\<rparr>)"
  using inv idle ok effect_ok_same [of "t\<lparr>ds_file := Some c\<rparr>" t] by (simp add: disc_inv_def)

lemma cancel_commutes:
  "cancelFetcher (d_emit x t) = d_emit x (cancelFetcher t)" "cancelFetcher (t\<lparr>ds_file := cf\<rparr>) = (cancelFetcher t)\<lparr>ds_file := cf\<rparr>"
  by (simp_all add: cancelFetcher_def d_emit_def split: option.split)

lemma disc_inv_install:
  assumes inv: "disc_inv s" and f: "ds_fetcher s = Some f" "ft_ctx f = ctx"
    and c: "modTime s < cfg_UpdatedAt c" "ds_localhost s \<in> set (cfg_Scope c)"
  shows "disc_inv (endFetcher ctx (d_emit (DInstalled c (ds_file s) ctx) (s\<lparr>ds_file := Some c\<rparr>)))"
proof -
  have "disc_inv ((cancelFetcher s)\<lparr>ds_file := Some c\<rparr>)"
    using disc_inv_modTime [OF inv] c(1) by (intro disc_inv_write disc_inv_cancel inv) simp_all
  then have "disc_inv (d_emit (DInstalled c (ds_file s) ctx) ((cancelFetcher s)\<lparr>ds_file := Some c\<rparr>))"
    using c by (intro disc_inv_emit) (auto simp: effect_ok_def modTime_def split: option.splits)
  then show ?thesis using f by (simp add: endFetcher_def cancel_commutes)
qed

lemma disc_inv_stopped_flag: "disc_inv t \<Longrightarrow> disc_inv (d_emit DStoppedFlag t)"
  by (rule disc_inv_emit) (simp_all add: effect_ok_def)

lemma fetched_in_scope: "fetch localhost first again bad = Fetched c \<Longrightarrow> localhost \<in> set (cfg_Scope c)"
  by (auto simp: fetch_def split: option.splits if_splits)

lemma disc_inv_fetched:
  assumes inv: "disc_inv t" and ev: "honest t (EvRemoteFileConfig a ctx c)"
  shows "disc_inv (onRemoteConfigFetched e a ctx c t)"
proof -
  have "disc_inv (endFetcher ctx (d_emit (DInstalled c (ds_file t) ctx) (s\<lparr>ds_file := Some c\<rparr>)))"
    if live: "ctx \<notin> set (ds_cancelled t)" and s: "s = t \<or> s = d_emit DStoppedFlag t" for s
  proof -
    obtain f where f: "ds_fetcher t = Some f" "ft_ctx f = ctx" "modTime t < fa_updatedAt a"
      using live_fetcher [OF inv _ live] ev by (metis honest.simps(1))
    have "disc_inv s" using inv s disc_inv_stopped_flag by blast
    then show ?thesis
      using disc_inv_install [of s f ctx c] f s ev fetched_in_scope by fastforce
  qed
  moreover have "disc_inv (endFetcher ctx (d_emit DStoppedFlag t))" "disc_inv (endFetcher ctx t)"
    using inv by (simp_all add: disc_inv_end disc_inv_stopped_flag)
  ultimately show ?thesis
    by (simp add: onRemoteConfigFetched_def handleStoppedFlag_def split: option.split)
qed

lemma disc_inv_failed:
  assumes inv: "disc_inv t" and ev: "honest t (EvFetchFailed a ctx retry)"
  shows "disc_inv (onFetchFailed a ctx retry t)"
proof -
  have "disc_inv (cancelFetcher t)" by (rule disc_inv_cancel [OF inv])
  moreover from this have "disc_inv (d_emit (DRetry (a\<lparr>fa_attempt := Suc (fa_attempt a)\<rparr>) (fetchRetryDelay (Suc (fa_attempt a)))) (cancelFetcher t))"
    if "fa_attempt a < fetchRetryMax"
    using that by (intro disc_inv_emit) (simp_all add: effect_ok_def)
  ultimately show ?thesis using inv by (simp add: onFetchFailed_def Let_def)
qed

lemma disc_inv_retry:
  assumes inv: "disc_inv t" and ev: "honest t (EvFetchRetry a)"
  shows "disc_inv (onFetchRetry e a t)"
proof -
  have "fa_attempt a \<le> fetchRetryMax" using ev by (fastforce simp: effect_ok_def dest: disc_inv_traceD [OF inv])
  then show ?thesis using inv by (simp add: onFetchRetry_def disc_inv_fetch)
qed

lemma disc_inv_done: "disc_inv t \<Longrightarrow> disc_inv (onInstanceConfigManagerDone e t)"
proof -
  assume inv: "disc_inv t"
  then have "disc_inv (d_emit DIcfgStart (t\<lparr>ds_cfgMTime := Some (modTime t)\<rparr>))"
    by (intro disc_inv_emit) (simp_all add: effect_ok_def)
  with inv show ?thesis
    by (simp add: onInstanceConfigManagerDone_def disc_inv_updated split: option.split prod.split)
qed

lemma disc_inv_announce:
  "disc_inv t \<Longrightarrow> disc_inv (disc_onConfigFileUpdated e t)" "disc_inv t \<Longrightarrow> disc_inv (disc_onHeartbeatMessageTypeUpdated to t)"
  by (auto simp: disc_onConfigFileUpdated_def disc_onHeartbeatMessageTypeUpdated_def effect_ok_def intro!: disc_inv_emit split: option.split)

lemma disc_inv_deleted: "disc_inv t \<Longrightarrow> disc_inv (t\<lparr>ds_file := None\<rparr>)"
  by (rule disc_inv_same) simp_all

lemma disc_inv_step: "disc_inv t \<Longrightarrow> honest t ev \<Longrightarrow> disc_inv (disc_step e ev t)"
proof (cases ev)
  case (EvRemoteFileConfig a ctx c)
  then show "disc_inv t \<Longrightarrow> honest t ev \<Longrightarrow> ?thesis" using disc_inv_fetched [of t a ctx c e] by simp
next
  case (EvFetchFailed a ctx retry)
  then show "disc_inv t \<Longrightarrow> honest t ev \<Longrightarrow> ?thesis" using disc_inv_failed [of t a ctx retry] by simp
next
  case (EvFetchRetry a)
  then show "disc_inv t \<Longrightarrow> honest t ev \<Longrightarrow> ?thesis" using disc_inv_retry [of t a e] by simp
qed (simp_all add: disc_inv_updated disc_inv_for disc_inv_done disc_inv_announce disc_inv_deleted
    onInstanceConfigDeleting_def disc_inv_cancel)

lemma disc_reach_inv: "disc_reach localhost isCluster t \<Longrightarrow> disc_inv t \<and> ds_localhost t = localhost"
  by (induction rule: disc_reach.induct) (auto simp: disc_inv_step, simp_all add: disc_inv_def new_disc_def)

lemma disc_reach_trace: "disc_reach localhost isCluster t \<Longrightarrow> x \<in> set (ds_trace t) \<Longrightarrow> effect_ok t x"
  using disc_reach_inv disc_inv_traceD by blast


section \<open>A more recent configuration is installed\<close>

text \<open>The numbers of the contexts are fresh, whoever writes the file.\<close>

definition ctx_fresh :: "disc \<Rightarrow> bool" where
  "ctx_fresh t = ((\<forall>ctx \<in> set (ds_cancelled t). ctx < ds_nextCtx t) \<and> (\<forall>f. ds_fetcher t = Some f \<longrightarrow> ft_ctx f < ds_nextCtx t))"

lemma fresh_update [simp]:
  "ctx_fresh (t\<lparr>ds_cfgMTime := a\<rparr>) = ctx_fresh t" "ctx_fresh (t\<lparr>ds_cfgDeleting := b\<rparr>) = ctx_fresh t"
  "ctx_fresh (t\<lparr>ds_disableRecover := c\<rparr>) = ctx_fresh t" "ctx_fresh (t\<lparr>ds_retain := d\<rparr>) = ctx_fresh t"
  "ctx_fresh (t\<lparr>ds_instanceConfigFor := f\<rparr>) = ctx_fresh t" "ctx_fresh (t\<lparr>ds_file := g\<rparr>) = ctx_fresh t"
  "ctx_fresh (d_emit x t) = ctx_fresh t" "ctx_fresh (abortRetainForeignConfig t) = ctx_fresh t" "ctx_fresh (cleanup t) = ctx_fresh t"
  "ctx_fresh (retain_update n cf t) = ctx_fresh t" "ctx_fresh (removeConfigFileAndDisableRecover e u sc t) = ctx_fresh t"
  by (simp_all add: ctx_fresh_def)

lemma fresh_cancel [simp]: "ctx_fresh t \<Longrightarrow> ctx_fresh (cancelFetcher t)" "ctx_fresh t \<Longrightarrow> ctx_fresh (endFetcher ctx t)"
  by (auto simp: ctx_fresh_def cancelFetcher_def endFetcher_def split: option.splits)

lemma fresh_start [simp]:
  "ctx_fresh t \<Longrightarrow> ctx_fresh (t\<lparr>ds_nextCtx := Suc (ds_nextCtx t), ds_fetcher := Some \<lparr>ft_ctx = ds_nextCtx t, ft_from = p, ft_updated = u\<rparr>\<rparr>)"
  by (auto simp: ctx_fresh_def)

lemma fresh_fetch [simp]: "ctx_fresh t \<Longrightarrow> ctx_fresh (fetchConfigFromRemote e a t)"
  by (simp add: fetchConfigFromRemote_def Let_def)

lemma fresh_updated [simp]: "ctx_fresh t \<Longrightarrow> ctx_fresh (disc_onInstanceConfigUpdated e n c t)"
  by (simp add: disc_onInstanceConfigUpdated_def onRemoteConfigUpdated_def remote_foreign_def remote_fetch_def Let_def split: option.split)

lemma fresh_prepare [simp]: "ctx_fresh t \<Longrightarrow> ctx_fresh (for_prepare c t)"
  by (simp add: for_prepare_def Let_def split: option.split)

lemma fresh_step: "ctx_fresh t \<Longrightarrow> ctx_fresh (disc_step e ev t)"
  by (cases ev) (simp_all add: onInstanceConfigFor_def onInstanceConfigForFromLocalhost_def onInstanceConfigForFromPeer_def
      onInstanceConfigManagerDone_def onInstanceConfigDeleting_def disc_onConfigFileUpdated_def disc_onHeartbeatMessageTypeUpdated_def
      onRemoteConfigFetched_def handleStoppedFlag_def onFetchFailed_def onFetchRetry_def Let_def split: option.split prod.split)

lemma fresh_run: "ctx_fresh (disc_run l (new_disc localhost isCluster cf))"
proof (induction l rule: rev_induct)
  case Nil
  then show ?case by (simp add: disc_run_def new_disc_def ctx_fresh_def)
next
  case (snoc x l)
  then show ?case by (cases x) (simp add: disc_run_snoc fresh_step)
qed

text \<open>The calls of the manager succeed.\<close>

definition calm :: "disc_env \<Rightarrow> bool" where
  "calm e = (\<not> de_icfgErr e \<and> \<not> de_clientErr e \<and> \<not> de_moveErr e \<and> \<not> de_flagErr e \<and> \<not> de_installErr e)"

definition outdated_by :: "config \<Rightarrow> disc \<Rightarrow> bool" where
  "outdated_by c t =
    (modTime t < cfg_UpdatedAt c
     \<and> (case ds_cfgMTime t of None \<Rightarrow> True | Some m \<Rightarrow> m < cfg_UpdatedAt c)
     \<and> (case ds_fetcher t of None \<Rightarrow> True | Some f \<Rightarrow> ft_updated f < cfg_UpdatedAt c))"

lemma fetch_starts:
  assumes "fa_peer a \<noteq> []" "\<not> isBeingRemoved e (fa_peer a) t" "ds_fetcher t = None" "\<not> de_clientErr e"
  shows "fetchConfigFromRemote e a t =
    d_emit (DFetch a (ds_nextCtx t)) (t\<lparr>ds_nextCtx := Suc (ds_nextCtx t),
      ds_fetcher := Some \<lparr>ft_ctx = ds_nextCtx t, ft_from = fa_peer a, ft_updated = fa_updatedAt a\<rparr>\<rparr>)"
  using assms by (simp add: fetchConfigFromRemote_def Let_def)

text \<open>
  C14. In every state the manager can be in, local writes included, the announcement by a peer of a
  configuration with this node in its scope, more recent than the file, than the one the running
  \<open>icfg\<close> was started for and than the one being fetched, starts a fetch from that peer; its result
  makes the configuration the one of this node, and ends the fetch.
\<close>

theorem newer_config_installed:
  assumes t: "t = disc_run l (new_disc localhost isCluster cf)"
    and c: "localhost \<in> set (cfg_Scope c)" "outdated_by c t" "node \<noteq> localhost" "node \<noteq> []"
    and e: "calm e" "calm e'" "\<not> isBeingRemoved e node t" "\<not> isBeingRemoved e' node t"
  shows "\<exists>a ctx. fa_peer a = node \<and> ds_trace (disc_step e (EvInstanceConfigUpdated node c) t) = ds_trace t @ [DFetch a ctx]
    \<and> (let t' = disc_run [(e, EvInstanceConfigUpdated node c), (e', EvRemoteFileConfig a ctx c)] t in ds_file t' = Some c \<and> ds_fetcher t' = None)"
proof -
  define r where "r = (if ds_fetcher t = None then retain_update node c t else cancelFetcher (retain_update node c t))"
  have r: "ds_trace r = ds_trace t" "ds_fetcher r = None" "ds_file r = ds_file t" "ds_localhost r = localhost" "ds_nextCtx r = ds_nextCtx t"
    "ctx_fresh r" "isBeingRemoved e node r = isBeingRemoved e node t" "ds_cfgDeleting r = ds_cfgDeleting t"
    using fresh_run [of l localhost isCluster cf] t
    by (auto simp: r_def isBeingRemoved_def new_disc_def split: if_splits)
  have lh: "ds_localhost t = localhost" using t by (simp add: new_disc_def)
  have "disc_step e (EvInstanceConfigUpdated node c) t = remote_fetch e node c r"
    using c lh by (auto simp: disc_onInstanceConfigUpdated_def onRemoteConfigUpdated_def Let_def inScope_def outdated_by_def r_def
        split: option.splits)
  moreover obtain a where a: "fa_peer a = node" "remote_fetch e node c r = fetchConfigFromRemote e a r"
    unfolding remote_fetch_def Let_def by (metis fetch_args.select_convs(1))
  ultimately have s: "disc_step e (EvInstanceConfigUpdated node c) t = d_emit (DFetch a (ds_nextCtx t)) (r\<lparr>ds_nextCtx := Suc (ds_nextCtx t),
      ds_fetcher := Some \<lparr>ft_ctx = ds_nextCtx t, ft_from = node, ft_updated = fa_updatedAt a\<rparr>\<rparr>)"
    using fetch_starts [of a e r] r e c by (simp add: calm_def)
  have "ds_nextCtx t \<notin> set (ds_cancelled r)" using r by (auto simp: ctx_fresh_def)
  then have "let t' = disc_step e' (EvRemoteFileConfig a (ds_nextCtx t) c) (disc_step e (EvInstanceConfigUpdated node c) t)
    in ds_file t' = Some c \<and> ds_fetcher t' = None"
    using r a e lh unfolding s
    by (auto simp: onRemoteConfigFetched_def isBeingRemoved_def handleStoppedFlag_def calm_def endFetcher_def Let_def)
  with s a(1) r(1) show ?thesis by (auto simp: disc_run_def)
qed

section \<open>An object being removed is not brought back\<close>

fun brings :: "disc_effect \<Rightarrow> bool" where
  "brings (DFetch a ctx) = True"
| "brings (DInstalled c old ctx) = True"
| "brings _ = False"

definition going :: "disc_env \<Rightarrow> disc \<Rightarrow> bool" where
  "going e t = (ds_cfgDeleting t \<and> ds_file t = None \<or> de_removing e (ds_localhost t))"

definition brought :: "disc \<Rightarrow> disc_effect list" where
  "brought t = filter brings (ds_trace t)"

lemma brought_emit [simp]: "\<not> brings x \<Longrightarrow> brought (d_emit x t) = brought t"
  by (simp add: brought_def)

lemma brought_same: "ds_trace t' = ds_trace t \<Longrightarrow> brought t' = brought t"
  by (simp add: brought_def)

lemma brought_fields [simp]:
  "brought (t\<lparr>ds_cfgMTime := a\<rparr>) = brought t" "brought (t\<lparr>ds_cfgDeleting := b\<rparr>) = brought t"
  "brought (t\<lparr>ds_disableRecover := c\<rparr>) = brought t" "brought (t\<lparr>ds_retain := d\<rparr>) = brought t"
  "brought (t\<lparr>ds_instanceConfigFor := f\<rparr>) = brought t" "brought (t\<lparr>ds_file := g\<rparr>) = brought t"
  "brought (t\<lparr>ds_nextCtx := n\<rparr>) = brought t" "brought (t\<lparr>ds_fetcher := h\<rparr>) = brought t"
  "brought (cancelFetcher t) = brought t" "brought (endFetcher ctx t) = brought t" "brought (cleanup t) = brought t"
  "brought (abortRetainForeignConfig t) = brought t" "brought (retain_update nd cf t) = brought t" "brought (for_prepare ic t) = brought t"
  by (rule brought_same; simp)+

lemma brought_remove [simp]: "brought (removeConfigFileAndDisableRecover e u sc t) = brought t"
  by (simp add: removeConfigFileAndDisableRecover_def Let_def split: option.split)

lemma going_fields [simp]:
  "going e (cancelFetcher t) = going e t" "going e (retain_update n c t) = going e t" "going e (for_prepare ic t) = going e t"
  by (simp_all add: going_def for_prepare_def Let_def split: option.split)

lemma going_fetch [simp]: "going e t \<Longrightarrow> fetchConfigFromRemote e a t = t"
  by (auto simp: fetchConfigFromRemote_def isBeingRemoved_def going_def)

lemma going_updated [simp]: "going e t \<Longrightarrow> brought (disc_onInstanceConfigUpdated e n c t) = brought t"
  by (simp add: disc_onInstanceConfigUpdated_def onRemoteConfigUpdated_def remote_foreign_def remote_fetch_def Let_def split: option.split)

lemma going_for: "going e t \<Longrightarrow> brought (onInstanceConfigFor e f t) = brought t"
  by (simp add: onInstanceConfigFor_def onInstanceConfigForFromLocalhost_def onInstanceConfigForFromPeer_def Let_def)

lemma going_done: "going e t \<Longrightarrow> brought (onInstanceConfigManagerDone e t) = brought t"
proof -
  assume g: "going e t"
  have "brought (disc_onInstanceConfigUpdated e n c (cleanup t)) = brought t" if "\<not> ds_cfgDeleting t" for n c
    using going_updated [of e "cleanup t" n c] g that by (simp add: going_def)
  then show ?thesis by (simp add: onInstanceConfigManagerDone_def split: option.split prod.split)
qed

text \<open>
  While the monitor of this node is removing the object, or once its deletion was announced and its
  file is gone, no message, result or retry makes the manager fetch or install a configuration.
\<close>

theorem removed_not_brought_back:
  assumes "going e t"
  shows "filter brings (ds_trace (disc_step e ev t)) = filter brings (ds_trace t)"
proof -
  have "isBeingRemoved e p t" for p using assms by (auto simp: isBeingRemoved_def going_def)
  then have "brought (disc_step e ev t) = brought t"
    using assms by (cases ev) (simp_all add: going_for going_done onInstanceConfigDeleting_def disc_onConfigFileUpdated_def
        disc_onHeartbeatMessageTypeUpdated_def onRemoteConfigFetched_def onFetchFailed_def onFetchRetry_def Let_def split: option.split)
  then show ?thesis by (simp add: brought_def)
qed

section \<open>Demonstrations\<close>

definition disc_calm :: disc_env where
  "disc_calm = \<lparr>de_configs = [], de_removing = (\<lambda>_. False), de_icfgErr = False, de_clientErr = False, de_moveErr = False,
    de_flagErr = False, de_installErr = False\<rparr>"

definition demo_cfg :: "string list \<Rightarrow> time \<Rightarrow> config" where
  "demo_cfg scope u = zero_config\<lparr>cfg_Scope := scope, cfg_UpdatedAt := u\<rparr>"

lemmas disc_eval = demo_cfg_def disc_calm_def zero_config_def disc_run_def new_disc_def disc_onInstanceConfigUpdated_def
  onRemoteConfigUpdated_def remote_foreign_def remote_fetch_def fetchConfigFromRemote_def isBeingRemoved_def modTime_def retain_update_def
  inScope_def cancelFetcher_def endFetcher_def removeConfigFileAndDisableRecover_def onRemoteConfigFetched_def handleStoppedFlag_def d_emit_def

text \<open>The node leaves the scope: its file goes.\<close>

definition demo_leaves :: "(disc_env \<times> disc_event) list" where
  "demo_leaves = [(disc_calm, EvInstanceConfigUpdated ''n2'' (demo_cfg [''n2''] 7))]"

theorem removed_only_foreign_witness:
  "DRemoved (demo_cfg [''n1'', ''n2''] 5) 7 [''n2''] \<in> set (ds_trace (disc_run demo_leaves (new_disc ''n1'' False (Some (demo_cfg [''n1'', ''n2''] 5)))))
   \<and> cfg_UpdatedAt (demo_cfg [''n1'', ''n2''] 5) \<le> 7 \<and> ''n1'' \<notin> set [''n2'']"
proof -
  have "DRemoved (demo_cfg [''n1'', ''n2''] 5) 7 [''n2''] \<in> set (ds_trace (disc_run demo_leaves (new_disc ''n1'' False (Some (demo_cfg [''n1'', ''n2''] 5)))))"
    by (simp add: demo_leaves_def disc_eval)
  with removed_only_foreign [OF this] show ?thesis by simp
qed

text \<open>The node has an older file: the one announced replaces it.\<close>

definition demo_old :: disc where
  "demo_old = new_disc ''n1'' False (Some (demo_cfg [''n1'', ''n2''] 5))"

definition demo_args :: fetch_args where
  "demo_args = \<lparr>fa_peer = ''n2'', fa_updatedAt = 7, fa_needStoppedFlag = False, fa_scope = [''n1'', ''n2''], fa_attempt = 0\<rparr>"

definition demo_fetching :: disc where
  "demo_fetching = disc_step disc_calm (EvInstanceConfigUpdated ''n2'' (demo_cfg [''n1'', ''n2''] 7)) demo_old"

definition demo_fetched :: disc where
  "demo_fetched = disc_step disc_calm (EvRemoteFileConfig demo_args 0 (demo_cfg [''n1'', ''n2''] 7)) demo_fetching"

lemma demo_fetching_trace: "DFetch demo_args 0 \<in> set (ds_trace demo_fetching)" "ds_localhost demo_fetching = ''n1''"
  by (simp_all add: demo_fetching_def demo_old_def demo_args_def disc_eval)

lemma demo_fetched_trace:
  "DInstalled (demo_cfg [''n1'', ''n2''] 7) (Some (demo_cfg [''n1'', ''n2''] 5)) 0 \<in> set (ds_trace demo_fetched)"
  by (simp add: demo_fetched_def demo_fetching_def demo_old_def demo_args_def disc_eval)

lemma demo_fetched_reach: "disc_reach ''n1'' False demo_fetched"
proof -
  have old: "disc_reach ''n1'' False demo_old"
    unfolding demo_old_def by (rule reach_start) (simp add: disc_eval)
  have ing: "disc_reach ''n1'' False demo_fetching"
    unfolding demo_fetching_def by (rule reach_step [OF old]) simp
  have "fetch ''n1'' (Some (demo_cfg [''n1'', ''n2''] 7)) None False = Fetched (demo_cfg [''n1'', ''n2''] 7)"
    by (simp add: fetch_def demo_cfg_def)
  then have "honest demo_fetching (EvRemoteFileConfig demo_args 0 (demo_cfg [''n1'', ''n2''] 7))"
    using demo_fetching_trace by (auto simp: demo_args_def demo_cfg_def)
  then show ?thesis unfolding demo_fetched_def by (rule reach_step [OF ing])
qed


theorem newer_config_installed_witness:
  "\<exists>a ctx. fa_peer a = ''n2''
    \<and> ds_trace (disc_step disc_calm (EvInstanceConfigUpdated ''n2'' (demo_cfg [''n1'', ''n2''] 7)) demo_old) = ds_trace demo_old @ [DFetch a ctx]
    \<and> (let t' = disc_run [(disc_calm, EvInstanceConfigUpdated ''n2'' (demo_cfg [''n1'', ''n2''] 7)),
                          (disc_calm, EvRemoteFileConfig a ctx (demo_cfg [''n1'', ''n2''] 7))] demo_old
       in ds_file t' = Some (demo_cfg [''n1'', ''n2''] 7) \<and> ds_fetcher t' = None)"
proof (rule newer_config_installed)
  show "demo_old = disc_run [] (new_disc ''n1'' False (Some (demo_cfg [''n1'', ''n2''] 5)))"
    by (simp add: demo_old_def disc_run_def)
qed (simp_all add: demo_old_def disc_eval outdated_by_def calm_def)

theorem removed_not_brought_back_witness:
  "filter brings (ds_trace (disc_step (disc_calm\<lparr>de_removing := (\<lambda>n. n = ''n1'')\<rparr>) (EvInstanceConfigUpdated ''n2'' (demo_cfg [''n1'', ''n2''] 7)) demo_old)) = []"
proof -
  have "going (disc_calm\<lparr>de_removing := (\<lambda>n. n = ''n1'')\<rparr>) demo_old" by (simp add: going_def demo_old_def new_disc_def)
  from removed_not_brought_back [OF this, of "EvInstanceConfigUpdated ''n2'' (demo_cfg [''n1'', ''n2''] 7)"]
  show ?thesis by (simp add: demo_old_def new_disc_def)
qed

text \<open>
  The manager does not compare the configuration a fetch brings with the file it replaces: a file
  written on this node while the fetch runs is overwritten by the older configuration fetched.
\<close>

theorem late_fetch_overwrites_local:
  "let t = disc_step disc_calm (EvLocalWrite (demo_cfg [''n1'', ''n2''] 9)) demo_fetching;
       t' = disc_step disc_calm (EvRemoteFileConfig demo_args 0 (demo_cfg [''n1'', ''n2''] 7)) (disc_step disc_calm EvConfigFileUpdated t)
   in modTime t = 9 \<and> modTime t' = 7"
  by (simp add: Let_def demo_fetching_def demo_old_def demo_args_def disc_eval disc_onConfigFileUpdated_def)

end
