(* ===== verification/Icfg_Props.thy ===== *)
theory Icfg_Props
  imports Icfg Discover_Props
begin

text \<open>
  Properties of the manager of a configuration: what it publishes is well formed and for this node,
  its messages follow the life of an instance, and two refreshes it owes its readers are lost.
\<close>

section \<open>What is published is well formed\<close>

definition flex_ok :: "int \<Rightarrow> flex_config \<Rightarrow> bool" where
  "flex_ok n f = (0 \<le> fx_Min f \<and> fx_Min f \<le> fx_Target f \<and> fx_Target f \<le> fx_Max f \<and> fx_Max f \<le> n)"

definition resources_ok :: "resource_configs \<Rightarrow> bool" where
  "resources_ok m = (\<forall>(rid, rc) \<in> set m. rc_IsStandby rc \<longrightarrow> standbyDefaultRestart \<le> rc_Restart rc)"

definition config_ok :: "string \<Rightarrow> kind \<Rightarrow> config \<Rightarrow> bool" where
  "config_ok localhost k c =
    (localhost \<in> set (cfg_Scope c) \<and> cfg_UpdatedAt c \<noteq> 0 \<and> (cfg_Actor c \<noteq> None) = isActor k
     \<and> (\<forall>ac. cfg_Actor c = Some ac \<longrightarrow>
          resources_ok (ac_Resources ac)
          \<and> (ac_Flex ac \<noteq> None) = (ac_Topology ac = Flex)
          \<and> (\<forall>f. ac_Flex ac = Some f \<longrightarrow> flex_ok (int (length (cfg_Scope c))) f)))"

lemma getFlexMin_bounds: "1 \<le> n \<Longrightarrow> 0 \<le> getFlexMin p cf n \<and> getFlexMin p cf n \<le> n"
  by (simp add: getFlexMin_def Let_def split: option.split)

lemma getFlexMax_bounds: "0 \<le> m \<Longrightarrow> m \<le> n \<Longrightarrow> isActor (p_Kind p) \<Longrightarrow> m \<le> getFlexMax p cf m n \<and> getFlexMax p cf m n \<le> n"
  by (auto simp: getFlexMax_def isActor_def split: option.split)

lemma getFlexTarget_bounds: "m \<le> n \<Longrightarrow> isActor (p_Kind p) \<Longrightarrow> m \<le> getFlexTarget p cf m n \<and> getFlexTarget p cf m n \<le> n"
  by (auto simp: getFlexTarget_def isActor_def split: option.split)

lemma flex_of_ok:
  assumes "scope \<noteq> []" "isActor (p_Kind p)"
  shows "flex_ok (int (length scope)) (flex_of p cf scope)"
proof -
  let ?n = "int (length scope)"
  have "1 \<le> ?n" using assms(1) by (cases scope) simp_all
  note min = getFlexMin_bounds [OF this, of p cf]
  note max = getFlexMax_bounds [of "getFlexMin p cf ?n" ?n p cf] getFlexTarget_bounds [of "getFlexMin p cf ?n" "getFlexMax p cf (getFlexMin p cf ?n) ?n" p cf]
  show ?thesis using min max assms(2) by (simp add: flex_ok_def flex_of_def Let_def)
qed

lemma resource_of_ok: "rc_IsStandby (resource_of cf s) \<longrightarrow> standbyDefaultRestart \<le> rc_Restart (resource_of cf s)"
  by (simp add: resource_of_def Let_def)

lemma resources_ok_update: "resources_ok m \<Longrightarrow> (rc_IsStandby rc \<longrightarrow> standbyDefaultRestart \<le> rc_Restart rc) \<Longrightarrow> resources_ok (AList.update rid rc m)"
  by (induction m) (auto simp: resources_ok_def)

lemma getResources_ok: "resources_ok (getResources cf)"
proof -
  have "resources_ok m \<Longrightarrow> resources_ok (fold (\<lambda>section m.
      if section \<in> {''env'', ''labels'', ''DEFAULT''} then m
      else if IsSubsetSection section then m
      else AList.update section (resource_of cf section) m) l m)" for l m
    by (induction l arbitrary: m) (simp_all add: resources_ok_update resource_of_ok)
  from this [of "[]"] show ?thesis unfolding getResources_def by (simp add: resources_ok_def [of "[]"])
qed

lemma setHolds_ok: "resources_ok m \<Longrightarrow> resources_ok (setHolds cf m)"
proof -
  have zero: "resources_ok m \<Longrightarrow> rc_IsStandby (lkp zero_resource_config m rid) \<longrightarrow> standbyDefaultRestart \<le> rc_Restart (lkp zero_resource_config m rid)" for m rid
    by (auto simp: resources_ok_def lkp_def zero_resource_config_def split: option.split dest!: map_of_SomeD)
  have "resources_ok m \<Longrightarrow> resources_ok (fold (\<lambda>rid m. AList.update rid (lkp zero_resource_config m rid) m) l m)" for l m
    by (induction l arbitrary: m) (simp_all add: resources_ok_update zero)
  then show "resources_ok m \<Longrightarrow> ?thesis" by (simp add: setHolds_def split: option.split)
qed

lemma evaluate_ok:
  assumes "scope \<noteq> []" "mtime \<noteq> 0" "ic_localhost t \<in> set scope" "cfg_Actor (ic_config t) \<noteq> None \<longrightarrow> isActor (p_Kind (ic_path t))"
  shows "config_ok (ic_localhost t) (p_Kind (ic_path t)) (evaluate cf checksum scope mtime t)"
  using assms by (auto simp: config_ok_def evaluate_def Let_def actor_of_def flex_of_ok getResources_ok setHolds_ok)

definition icfg_ok :: "icfg \<Rightarrow> bool" where
  "icfg_ok t =
    ((\<forall>c. IcfgUpdated c \<in> set (ic_trace t) \<longrightarrow> config_ok (ic_localhost t) (p_Kind (ic_path t)) c)
     \<and> (\<forall>f. IcfgFor f \<in> set (ic_trace t) \<longrightarrow> if_Node f = ic_localhost t \<and> ic_localhost t \<notin> set (if_Scope f) \<and> if_Scope f \<noteq> [])
     \<and> (cfg_Actor (ic_config t) \<noteq> None \<longrightarrow> isActor (p_Kind (ic_path t))))"

lemma icfg_ok_fields [simp]:
  "icfg_ok (t\<lparr>ic_lastMtime := a\<rparr>) = icfg_ok t" "icfg_ok (t\<lparr>ic_forceRefresh := b\<rparr>) = icfg_ok t" "icfg_ok (t\<lparr>ic_cancelled := c\<rparr>) = icfg_ok t"
  "icfg_ok (t\<lparr>ic_started := d\<rparr>) = icfg_ok t" "icfg_ok (t\<lparr>ic_ended := f\<rparr>) = icfg_ok t" "icfg_ok (t\<lparr>ic_published := g\<rparr>) = icfg_ok t"
  by (simp_all add: icfg_ok_def)

lemma ic_emit_fields [simp]:
  "ic_config (ic_emit x t) = ic_config t" "ic_localhost (ic_emit x t) = ic_localhost t" "ic_path (ic_emit x t) = ic_path t"
  "ic_published (ic_emit x t) = ic_published t" "ic_started (ic_emit x t) = ic_started t" "ic_ended (ic_emit x t) = ic_ended t"
  "ic_trace (ic_emit x t) = ic_trace t @ [x]" "ic_lastMtime (ic_emit x t) = ic_lastMtime t" "ic_cancelled (ic_emit x t) = ic_cancelled t"
  by (simp_all add: ic_emit_def)

lemma updateConfig_ok: "icfg_ok t \<Longrightarrow> config_ok (ic_localhost t) (p_Kind (ic_path t)) c \<Longrightarrow> icfg_ok (updateConfig c t)"
  by (auto simp: updateConfig_def icfg_ok_def config_ok_def Let_def)

lemma announce_ok: "icfg_ok t \<Longrightarrow> scope \<noteq> [] \<Longrightarrow> ic_localhost t \<notin> set scope \<Longrightarrow> icfg_ok (foreign_announce scope m t)"
  by (auto simp: foreign_announce_def icfg_ok_def)

lemma evaluate_lastMtime [simp]: "evaluate cf cs sc m (t\<lparr>ic_forceRefresh := b\<rparr>) = evaluate cf cs sc m t"
  by (simp add: evaluate_def Let_def)

lemma check_ok:
  assumes "icfg_ok t"
  shows "icfg_ok (snd (configFileCheck i t))"
proof -
  have "icfg_ok (updateConfig (evaluate cf cs scope (ci_mtime i) t) (t\<lparr>ic_forceRefresh := False, ic_lastMtime := ci_mtime i\<rparr>))"
    if "scope \<noteq> []" "ci_mtime i \<noteq> 0" "ic_localhost t \<in> set scope" for cf cs scope
    using evaluate_ok [OF that] assms by (intro updateConfig_ok) (simp_all add: icfg_ok_def)
  then show ?thesis
    using assms by (simp add: configFileCheck_def Let_def announce_ok split: option.split)
qed

lemma refresh_ok: "icfg_ok t \<Longrightarrow> icfg_ok (configFileCheckRefresh force i t)"
  using check_ok [of t i] check_ok [of "t\<lparr>ic_forceRefresh := True\<rparr>" i]
  by (auto simp: configFileCheckRefresh_def Let_def split: prod.splits)

lemma end_ok: "icfg_ok t \<Longrightarrow> icfg_ok (icfg_delete t)" "icfg_ok t \<Longrightarrow> icfg_ok (icfg_done t)"
  by (auto simp: icfg_delete_def icfg_done_def icfg_ok_def)

lemma icfg_step_ok: "icfg_ok t \<Longrightarrow> icfg_ok (icfg_step ev t)"
proof (cases ev)
  case (IcStart i)
  then show "icfg_ok t \<Longrightarrow> ?thesis"
    using check_ok [of "t\<lparr>ic_started := True\<rparr>" i] by (auto simp: end_ok split: prod.split bool.split)
qed (simp_all add: refresh_ok end_ok)

lemma icfg_identity_check [simp]:
  "ic_localhost (snd (configFileCheck i t)) = ic_localhost t" "ic_path (snd (configFileCheck i t)) = ic_path t"
  by (simp_all add: configFileCheck_def foreign_announce_def updateConfig_def Let_def split: option.split)

lemma icfg_identity [simp]: "ic_localhost (icfg_step ev t) = ic_localhost t" "ic_path (icfg_step ev t) = ic_path t"
  by (cases ev; force simp: configFileCheckRefresh_def icfg_done_def icfg_delete_def Let_def split: prod.split bool.split
      dest: arg_cong [of _ _ "\<lambda>r. ic_localhost (snd r)"] arg_cong [of _ _ "\<lambda>r. ic_path (snd r)"])+

lemma icfg_run_snoc: "icfg_run (l @ [ev]) p localhost = icfg_step ev (icfg_run l p localhost)"
  by (simp add: icfg_run_def)

lemma icfg_run_ok: "icfg_ok (icfg_run l p localhost) \<and> ic_localhost (icfg_run l p localhost) = localhost \<and> ic_path (icfg_run l p localhost) = p"
  by (induction l rule: rev_induct) (simp_all add: icfg_run_snoc icfg_step_ok, simp add: icfg_run_def icfg_Start_def icfg_ok_def zero_config_def)

text \<open>
  C36. Every configuration the manager publishes has this node in its scope and a time stamp; the one of
  a service or a volume has the settings of an actor, where the instance counts of a flex object are
  in order, minimum, target, maximum, number of nodes of the scope, and a standby resource has at least
  the default restarts. A configuration is announced to the peers only when this node is not in its
  scope.
\<close>

theorem published_well_formed:
  "(IcfgUpdated c \<in> set (ic_trace (icfg_run l p localhost)) \<longrightarrow> config_ok localhost (p_Kind p) c)
   \<and> (IcfgFor f \<in> set (ic_trace (icfg_run l p localhost)) \<longrightarrow> if_Node f = localhost \<and> localhost \<notin> set (if_Scope f) \<and> if_Scope f \<noteq> [])"
  using icfg_run_ok [of l p localhost] by (auto simp: icfg_ok_def)

section \<open>The life of an instance\<close>

text \<open>What the readers of the messages are promised, as an automaton.\<close>

datatype life = Fresh | Born | Live | Gone | Over

fun life_step :: "life \<Rightarrow> icfg_msg \<Rightarrow> life option" where
  "life_step Fresh (IcfgFor f) = Some Fresh"
| "life_step Fresh ObjectCreated = Some Born"
| "life_step Fresh IcfgDone = Some Over"
| "life_step Born (IcfgUpdated c) = Some Live"
| "life_step Live (IcfgUpdated c) = Some Live"
| "life_step Live (IcfgFor f) = Some Live"
| "life_step Live IcfgDeleted = Some Gone"
| "life_step Gone IcfgDone = Some Over"
| "life_step _ _ = None"

definition life_run :: "icfg_msg list \<Rightarrow> life option" where
  "life_run l = foldl (\<lambda>s x. Option.bind s (\<lambda>s. life_step s x)) (Some Fresh) l"

definition life_of :: "icfg \<Rightarrow> life" where
  "life_of t = (if ic_ended t then Over else if ic_published t then Live else Fresh)"

definition lives :: "icfg \<Rightarrow> bool" where
  "lives t = (life_run (ic_trace t) = Some (life_of t) \<and> (\<not> ic_started t \<longrightarrow> \<not> ic_ended t \<and> \<not> ic_published t))"

lemma life_run_emit [simp]: "life_run (l @ [x]) = Option.bind (life_run l) (\<lambda>s. life_step s x)"
  by (simp add: life_run_def)

lemma lives_update:
  assumes "lives t" "\<not> ic_ended t" "ic_started t"
  shows "lives (updateConfig c t)"
  using assms by (simp add: updateConfig_def lives_def life_of_def Let_def)

lemma lives_fields [simp]:
  "lives (t\<lparr>ic_lastMtime := a\<rparr>) = lives t" "lives (t\<lparr>ic_forceRefresh := b\<rparr>) = lives t" "lives (t\<lparr>ic_cancelled := c\<rparr>) = lives t"
  by (simp_all add: lives_def life_of_def)

lemma check_started [simp]:
  "ic_started (snd (configFileCheck i t)) = ic_started t" "ic_ended (snd (configFileCheck i t)) = ic_ended t"
  by (simp_all add: configFileCheck_def foreign_announce_def updateConfig_def Let_def split: option.split)

lemma check_lives:
  assumes "lives t" "\<not> ic_ended t" "ic_started t"
  shows "lives (snd (configFileCheck i t))"
proof -
  have "lives (foreign_announce scope m (t\<lparr>ic_forceRefresh := False\<rparr>))" for scope m
    using assms by (simp add: foreign_announce_def lives_def life_of_def)
  moreover have "lives (updateConfig c (t\<lparr>ic_forceRefresh := False, ic_lastMtime := m\<rparr>))" for c m
    using assms by (intro lives_update) simp_all
  ultimately show ?thesis using assms by (simp add: configFileCheck_def Let_def split: option.split)
qed

lemma check_failed_unpublished: "configFileCheck i t = (True, t') \<Longrightarrow> ic_published t' = ic_published t"
  by (auto simp: configFileCheck_def foreign_announce_def Let_def split: option.splits if_splits)

lemma refresh_lives: "lives t \<Longrightarrow> \<not> ic_ended t \<Longrightarrow> ic_started t \<Longrightarrow> lives (configFileCheckRefresh force i t)"
  using check_lives [of t i] check_lives [of "t\<lparr>ic_forceRefresh := True\<rparr>" i]
  by (auto simp: configFileCheckRefresh_def Let_def split: prod.splits)

lemma start_lives:
  assumes "lives t" "\<not> ic_started t"
  shows "lives (icfg_step (IcStart i) t)"
proof -
  let ?t = "t\<lparr>ic_started := True\<rparr>"
  have t: "lives ?t" "\<not> ic_ended t" "\<not> ic_published t" using assms by (simp_all add: lives_def life_of_def)
  obtain failed t' where c: "configFileCheck i ?t = (failed, t')" by force
  have s: "lives t'" "ic_started t'" "\<not> ic_ended t'"
    using check_lives [of ?t i] check_started [of i ?t] t c by simp_all
  moreover have "\<not> ic_published t'" if failed using check_failed_unpublished [of i ?t t'] that c t by simp
  ultimately show ?thesis using assms(2) c
    by (cases failed) (simp_all add: icfg_done_def lives_def life_of_def)
qed

lemma step_lives: "lives t \<Longrightarrow> lives (icfg_step ev t)"
proof (cases ev)
  case (IcStart i)
  then show "lives t \<Longrightarrow> ?thesis" using start_lives [of t i] by simp
next
  case IcDone
  then show "lives t \<Longrightarrow> ?thesis" by (auto simp: icfg_delete_def icfg_done_def lives_def life_of_def)
qed (simp_all add: refresh_lives)

text \<open>
  C15. The messages of a manager are a run of the life of an instance, whatever the changes of its file
  and of the configurations it depends on: created once, before its first configuration, deleted once
  when it was created, and nothing published after it says it is done.
\<close>

theorem icfg_refines_life: "life_run (ic_trace (icfg_run l p localhost)) = Some (life_of (icfg_run l p localhost))"
proof -
  have "lives (icfg_run l p localhost)"
    by (induction l rule: rev_induct)
      (simp_all add: icfg_run_snoc step_lives, simp add: icfg_run_def icfg_Start_def lives_def life_run_def life_of_def)
  then show ?thesis by (simp add: lives_def)
qed

section \<open>Refreshes lost\<close>

definition demo_conf :: "string list \<Rightarrow> string \<Rightarrow> xconf" where
  "demo_conf nodes orchestrate =
    \<lparr>xc_Eval_nodes = Some nodes,
     xc_GetString = (\<lambda>k. if k = (''DEFAULT'', ''orchestrate'') then orchestrate else if k = (''DEFAULT'', ''topology'') then ''flex'' else []),
     xc_GetStrings = (\<lambda>_. []), xc_GetBool = (\<lambda>k. k = (''fs#1'', ''standby'')), xc_GetInt = (\<lambda>_. 0), xc_GetIntStrict = (\<lambda>_. None),
     xc_GetDuration = (\<lambda>_. None), xc_GetSize = (\<lambda>_. None), xc_SectionStrings = [''DEFAULT'', ''fs#1''], xc_labels = [], xc_Holds = None\<rparr>"

definition demo_check :: "xconf \<Rightarrow> check_in" where
  "demo_check cf = \<lparr>ci_mtime = 5, ci_checksum = Some ''c1'', ci_conf = Some cf, ci_clusterNodes = [''n1'', ''n2''], ci_newMtime = 5\<rparr>"

definition demo_svc :: path where
  "demo_svc = \<lparr>p_Name = ''s1'', p_Namespace = ''root'', p_Kind = KindSvc\<rparr>"

definition demo_published :: icfg where
  "demo_published = icfg_run [IcStart (demo_check (demo_conf [''n1'', ''n2''] ''ha''))] demo_svc ''n1''"

lemmas icfg_eval = icfg_run_def icfg_Start_def demo_svc_def demo_check_def demo_conf_def configFileCheck_def configFileCheckRefresh_def
  getScope_def foreign_announce_def updateConfig_def evaluate_def isActor_def actor_of_def ConfigEqual_def zero_config_def ic_emit_def icfg_done_def
  getOrchestrate_def Let_def

lemma demo_published_trace:
  "\<exists>c ac. ic_trace demo_published = [ObjectCreated, IcfgUpdated c] \<and> ic_config demo_published = c \<and> cfg_Actor c = Some ac \<and> ac_Orchestrate ac = ''ha''
    \<and> cfg_UpdatedAt c = 5 \<and> cfg_Checksum c = ''c1'' \<and> cfg_Scope c = [''n1'', ''n2''] \<and> cfg_Labels c = []"
  by (simp add: demo_published_def icfg_eval)

lemma demo_published_fields: "ic_localhost demo_published = ''n1''" "ic_path demo_published = demo_svc" "ic_started demo_published" "\<not> ic_ended demo_published"
  by (simp_all add: demo_published_def icfg_eval)

theorem published_well_formed_witness:
  "\<exists>c. IcfgUpdated c \<in> set (ic_trace demo_published) \<and> config_ok ''n1'' KindSvc c"
proof -
  obtain c where c: "IcfgUpdated c \<in> set (ic_trace demo_published)" using demo_published_trace by auto
  with published_well_formed [of c "[IcStart (demo_check (demo_conf [''n1'', ''n2''] ''ha''))]" demo_svc "''n1''"]
  show ?thesis by (auto simp: demo_published_def demo_svc_def)
qed

text \<open>
  A change of the cluster, of the namespace or of the labels of the nodes forces the evaluation of the
  configuration, but a configuration is compared with the one published on its time, checksum, scope
  and labels only: an orchestration evaluated to another value, the file being the same, is dropped.
\<close>

theorem forced_refresh_dropped:
  "let t = icfg_step (IcForced (demo_check (demo_conf [''n1'', ''n2''] ''no''))) demo_published
   in ic_trace t = ic_trace demo_published \<and> ic_config t = ic_config demo_published
    \<and> map_option ac_Orchestrate (cfg_Actor (ic_config t)) = Some ''ha''"
proof -
  obtain c ac where d: "ic_trace demo_published = [ObjectCreated, IcfgUpdated c]" "ic_config demo_published = c" "cfg_Actor c = Some ac"
    "ac_Orchestrate ac = ''ha''" "cfg_UpdatedAt c = 5" "cfg_Checksum c = ''c1''" "cfg_Scope c = [''n1'', ''n2'']" "cfg_Labels c = []"
    using demo_published_trace by blast
  then have "updateConfig (evaluate (demo_conf [''n1'', ''n2''] ''no'') ''c1'' [''n1'', ''n2''] 5 t) s = s"
    if "ic_config s = c" for s t
    using that by (simp add: updateConfig_def evaluate_def ConfigEqual_def Let_def demo_conf_def)
  with d demo_published_fields show ?thesis
    by (simp add: Let_def configFileCheckRefresh_def configFileCheck_def demo_check_def getScope_def demo_svc_def) (simp add: demo_conf_def)
qed

text \<open>
  The configuration written on a node out of its scope is announced before its orchestration is
  evaluated: the peer that fetches it does not flag its instance stopped, where it does for the same
  configuration published by a node of its scope.
\<close>

definition demo_foreign :: icfg where
  "demo_foreign = icfg_run [IcStart (demo_check (demo_conf [''n2'', ''n3''] ''ha''))] demo_svc ''n1''"

lemma foreign_orchestrate_lost:
  "\<exists>f a ctx. ic_trace demo_foreign = [IcfgFor f, IcfgDone]
    \<and> ds_trace (disc_step disc_calm (EvInstanceConfigFor f) (new_disc ''n2'' False None)) = [DFetch a ctx] \<and> \<not> fa_needStoppedFlag a"
    and "\<exists>c a ctx. ic_trace (icfg_run [IcStart (demo_check (demo_conf [''n2'', ''n3''] ''ha''))] demo_svc ''n3'') = [ObjectCreated, IcfgUpdated c]
    \<and> ds_trace (disc_step disc_calm (EvInstanceConfigUpdated ''n3'' c) (new_disc ''n2'' False None)) = [DFetch a ctx] \<and> fa_needStoppedFlag a"
  by (simp_all add: demo_foreign_def icfg_eval onInstanceConfigFor_def for_prepare_def onInstanceConfigForFromPeer_def daemonStartsOnItsOwn_def disc_eval)

end
