(* ===== verification/Go_Heap.thy ===== *)
theory Go_Heap
  imports Prelude "HOL-Library.Multiset"
begin

text \<open>
  The heaps of the standard library of Go, \<open>container/heap\<close>, which the queue of the scheduler and the
  queue of the runner use: operations over any type with a comparison of two positions, \<open>before\<close>, and
  their exchange, \<open>swap\<close>. The locale \<open>heap_ops\<close> is what the type promises, in terms of the list of its
  elements and of the rank the comparison reads; what the operations give is proved in it once.
\<close>

section \<open>The operations\<close>

function heap_up :: "('h \<Rightarrow> nat \<Rightarrow> nat \<Rightarrow> bool) \<Rightarrow> (nat \<Rightarrow> nat \<Rightarrow> 'h \<Rightarrow> 'h) \<Rightarrow> nat \<Rightarrow> 'h \<Rightarrow> 'h" where
  "heap_up before swap j h =
    (let i = (j - 1) div 2
     in if i = j \<or> \<not> before h j i then h else heap_up before swap i (swap i j h))"
  by pat_completeness auto

termination
  by (relation "measure (\<lambda>(before, swap, j, h). j)") auto

text \<open>The least of the children of a position, of the same rank the left one.\<close>

definition heap_child :: "('h \<Rightarrow> nat \<Rightarrow> nat \<Rightarrow> bool) \<Rightarrow> nat \<Rightarrow> nat \<Rightarrow> 'h \<Rightarrow> nat" where
  "heap_child before i n h =
    (let j1 = 2 * i + 1; j2 = j1 + 1 in if j2 < n \<and> before h j2 j1 then j2 else j1)"

lemma heap_child_less: "2 * i + 1 < n \<Longrightarrow> i < heap_child before i n h \<and> heap_child before i n h < n"
  by (auto simp: heap_child_def Let_def)

lemma heap_child_decr: "Suc (2 * i) < n \<Longrightarrow> n - heap_child before i n h < n - i"
  using heap_child_less [of i n before h] by auto

text \<open>The position the element ends at, and the heap.\<close>

function heap_down :: "('h \<Rightarrow> nat \<Rightarrow> nat \<Rightarrow> bool) \<Rightarrow> (nat \<Rightarrow> nat \<Rightarrow> 'h \<Rightarrow> 'h) \<Rightarrow> nat \<Rightarrow> nat \<Rightarrow> 'h \<Rightarrow> nat \<times> 'h" where
  "heap_down before swap i n h =
    (if 2 * i + 1 \<ge> n then (i, h)
     else
       (let j = heap_child before i n h
        in if \<not> before h j i then (i, h) else heap_down before swap j n (swap i j h)))"
  by pat_completeness auto

termination
  by (relation "measure (\<lambda>(before, swap, i, n, h). n - i)") (auto simp: not_le heap_child_decr)

declare heap_up.simps [simp del] heap_down.simps [simp del]

definition heap_fix :: "('h \<Rightarrow> nat \<Rightarrow> nat \<Rightarrow> bool) \<Rightarrow> (nat \<Rightarrow> nat \<Rightarrow> 'h \<Rightarrow> 'h) \<Rightarrow> nat \<Rightarrow> nat \<Rightarrow> 'h \<Rightarrow> 'h" where
  "heap_fix before swap i n h = (case heap_down before swap i n h of (i', h') \<Rightarrow> if i' > i then h' else heap_up before swap i h')"

text \<open>The exchanges of \<open>Pop\<close> and \<open>Remove\<close>, after which the element to take is the last one.\<close>

definition heap_pop :: "('h \<Rightarrow> nat \<Rightarrow> nat \<Rightarrow> bool) \<Rightarrow> (nat \<Rightarrow> nat \<Rightarrow> 'h \<Rightarrow> 'h) \<Rightarrow> nat \<Rightarrow> 'h \<Rightarrow> 'h" where
  "heap_pop before swap n h = snd (heap_down before swap 0 (n - 1) (swap 0 (n - 1) h))"

definition heap_remove :: "('h \<Rightarrow> nat \<Rightarrow> nat \<Rightarrow> bool) \<Rightarrow> (nat \<Rightarrow> nat \<Rightarrow> 'h \<Rightarrow> 'h) \<Rightarrow> nat \<Rightarrow> nat \<Rightarrow> 'h \<Rightarrow> 'h" where
  "heap_remove before swap i n h = (if n - 1 = i then h else heap_fix before swap i (n - 1) (swap i (n - 1) h))"

section \<open>Heaps as lists\<close>

definition parent :: "nat \<Rightarrow> nat" where "parent c = (c - 1) div 2"

definition edge :: "('a \<Rightarrow> 'k::linorder) \<Rightarrow> 'a list \<Rightarrow> nat \<Rightarrow> bool" where
  "edge rank q c = (rank (q ! parent c) \<le> rank (q ! c))"

text \<open>The first \<open>n\<close> elements are a heap.\<close>

definition heap :: "('a \<Rightarrow> 'k::linorder) \<Rightarrow> 'a list \<Rightarrow> nat \<Rightarrow> bool" where
  "heap rank q n = (\<forall>c. 0 < c \<and> c < n \<longrightarrow> edge rank q c)"

text \<open>They are but for the element at \<open>i\<close>.\<close>

definition almost :: "('a \<Rightarrow> 'k::linorder) \<Rightarrow> 'a list \<Rightarrow> nat \<Rightarrow> nat \<Rightarrow> bool" where
  "almost rank q n i =
    ((\<forall>c. 0 < c \<and> c < n \<and> c \<noteq> i \<and> parent c \<noteq> i \<longrightarrow> edge rank q c)
     \<and> (0 < i \<longrightarrow> (\<forall>c. 0 < c \<and> c < n \<and> parent c = i \<longrightarrow> rank (q ! parent i) \<le> rank (q ! c))))"

definition swapped :: "nat \<Rightarrow> nat \<Rightarrow> 'a list \<Rightarrow> 'a list" where
  "swapped i j q = q[i := q ! j, j := q ! i]"

lemma parent_zero [simp]: "parent 0 = 0"
  by (simp add: parent_def)

lemma parent_less: "0 < c \<Longrightarrow> parent c < c"
  by (simp add: parent_def)

lemma children: "0 < c \<Longrightarrow> (parent c = i) = (c = 2 * i + 1 \<or> c = 2 * i + 2)"
  by (auto simp: parent_def)

lemma swapped_length [simp]: "length (swapped i j q) = length q"
  by (simp add: swapped_def)

lemma swapped_nth [simp]:
  "i < length q \<Longrightarrow> j < length q \<Longrightarrow> k < length q \<Longrightarrow> swapped i j q ! k = (if k = j then q ! i else if k = i then q ! j else q ! k)"
  by (auto simp: swapped_def nth_list_update)

lemma mset_swapped: "i < length q \<Longrightarrow> j < length q \<Longrightarrow> mset (swapped i j q) = mset q"
  by (simp add: swapped_def mset_swap)

lemma heap_almost: "heap rank q n \<Longrightarrow> almost rank q n i"
proof -
  assume h: "heap rank q n"
  have "rank (q ! parent i) \<le> rank (q ! c)" if "0 < i" "0 < c" "c < n" "parent c = i" for c
  proof -
    have "i < n" using parent_less [of c] that by simp
    then show ?thesis using h that order.trans unfolding heap_def edge_def by blast
  qed
  then show ?thesis using h unfolding almost_def heap_def by blast
qed

lemma heap_least:
  assumes h: "heap rank q n" and i: "i < n"
  shows "rank (q ! 0) \<le> rank (q ! i)"
  using i
proof (induction i rule: less_induct)
  case (less i)
  show ?case
  proof (cases "i = 0")
    case False
    then have "rank (q ! 0) \<le> rank (q ! parent i)" using less parent_less [of i] by simp
    moreover have "edge rank q i" using h less.prems False by (simp add: heap_def)
    ultimately show ?thesis unfolding edge_def by (rule order.trans)
  qed simp
qed

lemma heap_butlast: "heap rank q (length q - 1) \<Longrightarrow> heap rank (butlast q) (length q - 1)"
  unfolding heap_def edge_def
proof (intro allI impI)
  fix c assume h: "\<forall>c. 0 < c \<and> c < length q - 1 \<longrightarrow> rank (q ! parent c) \<le> rank (q ! c)" and c: "0 < c \<and> c < length q - 1"
  then have "parent c < length q - 1" using parent_less [of c] by simp
  with h c show "rank (butlast q ! parent c) \<le> rank (butlast q ! c)" by (simp add: nth_butlast)
qed

lemma almost_update:
  assumes h: "heap rank q n" and i: "i < n" "n \<le> length q"
  shows "almost rank (q[i := x]) n i"
proof -
  have a: "almost rank q n i" using h by (rule heap_almost)
  have nth: "q[i := x] ! k = q ! k" if "k \<noteq> i" for k using that by simp
  have "parent c \<noteq> c" if "0 < c" for c using parent_less [OF that] by simp
  with a i show ?thesis unfolding almost_def edge_def by (metis nth)
qed

text \<open>The element at \<open>j\<close> is below its parent: it goes up.\<close>

lemma up_step:
  assumes a: "almost rank q n j" and ch: "\<forall>c. 0 < c \<and> c < n \<and> parent c = j \<longrightarrow> edge rank q c"
    and j: "0 < j" "j < n" "n \<le> length q" and lt: "rank (q ! j) < rank (q ! parent j)"
  shows "almost rank (swapped (parent j) j q) n (parent j)"
    and "\<forall>c. 0 < c \<and> c < n \<and> parent c = parent j \<longrightarrow> edge rank (swapped (parent j) j q) c"
proof -
  let ?p = "parent j" and ?q = "swapped (parent j) j q"
  have p: "?p < j" using j(1) by (rule parent_less)
  have nth: "?q ! k = (if k = j then q ! ?p else if k = ?p then q ! j else q ! k)" if "k < n" for k
    using that p j by simp
  have old: "rank (q ! parent c) \<le> rank (q ! c)" if "0 < c" "c < n" "c \<noteq> j" for c
    using a ch that unfolding almost_def edge_def by blast
  have low: "rank (q ! ?p) \<le> rank (q ! c)" if "0 < c" "c < n" "parent c = j" for c
    using a j that unfolding almost_def by blast
  show sib: "\<forall>c. 0 < c \<and> c < n \<and> parent c = ?p \<longrightarrow> edge rank ?q c"
  proof (intro allI impI)
    fix c assume c: "0 < c \<and> c < n \<and> parent c = ?p"
    then have "?p < c" by (metis parent_less)
    with c show "edge rank ?q c"
      using old [of c] lt p j nth [of c] nth [of ?p] by (auto simp: edge_def)
  qed
  have up: "edge rank ?q c" if c: "0 < c" "c < n" "c \<noteq> ?p" "parent c \<noteq> ?p" for c
  proof -
    have pc: "parent c < n" using parent_less [OF c(1)] c(2) by simp
    show ?thesis
      using c old [of c] low [of c] nth [OF c(2)] nth [OF pc] by (auto simp: edge_def)
  qed
  have par: "rank (?q ! parent ?p) \<le> rank (?q ! c)" if pp: "0 < ?p" and c: "0 < c" "c < n" "parent c = ?p" for c
  proof -
    have "parent ?p < ?p" using pp by (rule parent_less)
    then have "?q ! parent ?p = q ! parent ?p" using nth [of "parent ?p"] p j by simp
    moreover have "rank (q ! parent ?p) \<le> rank (q ! ?p)" using old [of ?p] pp p j by simp
    moreover have "?p < c" using c by (metis parent_less)
    ultimately show ?thesis using nth [OF c(2)] old [of c] c by (auto intro: order.trans)
  qed
  show "almost rank ?q n ?p" using up par unfolding almost_def by blast
qed

text \<open>The element at \<open>i\<close> is above the least of its children, at \<open>j\<close>: it goes down.\<close>

lemma down_step:
  assumes a: "almost rank q n i" and j: "parent j = i" "0 < j" "j < n" "n \<le> length q" and lt: "rank (q ! j) < rank (q ! i)"
    and least: "\<forall>c. 0 < c \<and> c < n \<and> parent c = i \<longrightarrow> rank (q ! j) \<le> rank (q ! c)"
  shows "almost rank (swapped i j q) n j" and "edge rank (swapped i j q) j" and "0 < i \<longrightarrow> edge rank (swapped i j q) i"
proof -
  let ?q = "swapped i j q"
  have i: "i < j" using j parent_less by blast
  have nth: "?q ! k = (if k = j then q ! i else if k = i then q ! j else q ! k)" if "k < n" for k
    using that i j by simp
  have old: "rank (q ! parent c) \<le> rank (q ! c)" if "0 < c" "c < n" "c \<noteq> i" "parent c \<noteq> i" for c
    using a that unfolding almost_def edge_def by blast
  show e: "edge rank ?q j" using nth [of j] nth [of i] i j lt by (simp add: edge_def)
  show "0 < i \<longrightarrow> edge rank ?q i"
  proof
    assume "0 < i"
    then have "parent i < i" "rank (q ! parent i) \<le> rank (q ! j)"
      using parent_less a j unfolding almost_def by blast+
    then show "edge rank ?q i" using nth [of i] nth [of "parent i"] i j by (simp add: edge_def)
  qed
  have other: "edge rank ?q c" if c: "0 < c" "c < n" "c \<noteq> j" "parent c \<noteq> j" for c
  proof -
    have pc: "parent c < n" using parent_less [OF c(1)] c(2) by simp
    consider "parent c = i" | "c = i" | "c \<noteq> i" "parent c \<noteq> i" by blast
    then show ?thesis
    proof cases
      case 1
      then show ?thesis using c least nth [OF c(2)] nth [OF pc] parent_less [OF c(1)] by (auto simp: edge_def)
    next
      case 2
      then show ?thesis using \<open>0 < i \<longrightarrow> edge rank ?q i\<close> c by simp
    next
      case 3
      then show ?thesis using c old [of c] nth [OF c(2)] nth [OF pc] by (simp add: edge_def)
    qed
  qed
  have par: "rank (?q ! parent j) \<le> rank (?q ! c)" if c: "0 < c" "c < n" "parent c = j" for c
    using old [of c] c j i nth [OF c(2)] nth [of i] parent_less [OF c(1)] by auto
  show "almost rank ?q n j" using other par unfolding almost_def by blast
qed

section \<open>The operations on a type that keeps the promises\<close>

locale heap_ops =
  fixes view :: "'h \<Rightarrow> 'a list"
    and rank :: "'a \<Rightarrow> 'k::linorder"
    and before :: "'h \<Rightarrow> nat \<Rightarrow> nat \<Rightarrow> bool"
    and swap :: "nat \<Rightarrow> nat \<Rightarrow> 'h \<Rightarrow> 'h"
  assumes before_rank: "i < length (view h) \<Longrightarrow> j < length (view h) \<Longrightarrow> before h i j = (rank (view h ! i) < rank (view h ! j))"
    and swap_view: "i < length (view h) \<Longrightarrow> j < length (view h) \<Longrightarrow> view (swap i j h) = swapped i j (view h)"
begin

abbreviation up where "up \<equiv> heap_up before swap"
abbreviation down where "down \<equiv> heap_down before swap"

lemma up_keeps:
  assumes step: "\<And>i j h. P h \<Longrightarrow> n \<le> length (view h) \<Longrightarrow> i < n \<Longrightarrow> j < n \<Longrightarrow> P (swap i j h)"
    and P: "P h" and n: "n \<le> length (view h)" and j: "j < n"
  shows "P (up j h) \<and> length (view (up j h)) = length (view h)"
  using P n j
proof (induction j arbitrary: h rule: less_induct)
  case (less j)
  let ?i = "(j - 1) div 2"
  show ?case
  proof (cases "?i = j \<or> \<not> before h j ?i")
    case True
    then show ?thesis using less.prems by (simp add: heap_up.simps [of before swap j] Let_def)
  next
    case False
    then have i: "?i < j" by auto
    then have len: "length (view (swap ?i j h)) = length (view h)" using less.prems by (simp add: swap_view)
    with less.IH [OF i, of "swap ?i j h"] less.prems step [of h ?i j] i False show ?thesis
      by (subst (1 2) heap_up.simps) (simp add: Let_def)
  qed
qed

lemma down_keeps:
  assumes step: "\<And>i j h. P h \<Longrightarrow> n \<le> length (view h) \<Longrightarrow> i < n \<Longrightarrow> j < n \<Longrightarrow> P (swap i j h)"
    and P: "P h" and n: "n \<le> length (view h)"
  shows "P (snd (down i n h)) \<and> length (view (snd (down i n h))) = length (view h)"
  using P n
proof (induction "n - i" arbitrary: i h rule: less_induct)
  case less
  define j where "j = heap_child before i n h"
  show ?case
  proof (cases "2 * i + 1 \<ge> n \<or> \<not> before h j i")
    case True
    then show ?thesis using less.prems by (auto simp: heap_down.simps [of before swap i] Let_def j_def)
  next
    case False
    then have j: "i < j" "j < n" using heap_child_less [of i n before h] by (auto simp: j_def)
    then have len: "length (view (swap i j h)) = length (view h)" using less.prems by (simp add: swap_view)
    have eq: "down i n h = down j n (swap i j h)"
      using False by (subst heap_down.simps) (simp add: Let_def j_def)
    show ?thesis
      using less.hyps [of j "swap i j h"] less.prems step [of h i j] j len unfolding eq by simp
  qed
qed

lemma up_heap:
  assumes "almost rank (view h) n j" "\<forall>c. 0 < c \<and> c < n \<and> parent c = j \<longrightarrow> edge rank (view h) c" "j < n" "n \<le> length (view h)"
  shows "heap rank (view (up j h)) n"
  using assms
proof (induction j arbitrary: h rule: less_induct)
  case (less j)
  note prems = less.prems
  have i: "(j - Suc 0) div 2 = parent j" by (simp add: parent_def)
  have "parent j \<le> j" by (simp add: parent_def)
  then have bef: "before h j (parent j) = (rank (view h ! j) < rank (view h ! parent j))"
    using prems(3,4) by (intro before_rank) linarith+
  show ?case
  proof (cases "j = 0 \<or> \<not> before h j (parent j)")
    case True
    then have "up j h = h" by (subst heap_up.simps) (auto simp: Let_def i)
    moreover have "0 < j \<longrightarrow> edge rank (view h) j" using True bef by (auto simp: edge_def)
    then have "heap rank (view h) n" using prems(1,2) unfolding heap_def almost_def by blast
    ultimately show ?thesis by simp
  next
    case False
    then have j: "0 < j" "parent j < j" "rank (view h ! j) < rank (view h ! parent j)"
      using bef parent_less by auto
    then have eq: "up j h = up (parent j) (swap (parent j) j h)"
      using False by (subst heap_up.simps) (auto simp: Let_def i)
    have v: "view (swap (parent j) j h) = swapped (parent j) j (view h)"
      using j prems by (intro swap_view) simp_all
    show ?thesis
      unfolding eq
    proof (rule less.IH)
      show "almost rank (view (swap (parent j) j h)) n (parent j)"
        and "\<forall>c. 0 < c \<and> c < n \<and> parent c = parent j \<longrightarrow> edge rank (view (swap (parent j) j h)) c"
        unfolding v using up_step [OF prems(1,2) j(1) prems(3,4) j(3)] by simp_all
    qed (use j prems v in simp_all)
  qed
qed

text \<open>The element does not move, and is below none of its children; or it does, and the heap is whole.\<close>

lemma down_heap:
  assumes "almost rank (view h) n i" "n \<le> length (view h)" "i < n"
  shows "if fst (down i n h) = i then snd (down i n h) = h \<and> (\<forall>c. 0 < c \<and> c < n \<and> parent c = i \<longrightarrow> edge rank (view h) c)
         else i < fst (down i n h) \<and> heap rank (view (snd (down i n h))) n"
  using assms
proof (induction "n - i" arbitrary: i h rule: less_induct)
  case less
  note prems = less.prems
  let ?j1 = "2 * i + 1" and ?q = "view h"
  define j where "j = heap_child before i n h"
  have kids: "0 < c \<Longrightarrow> parent c = i \<longleftrightarrow> c = ?j1 \<or> c = ?j1 + 1" for c
    using children [of c i] by simp
  show ?case
  proof (cases "?j1 \<ge> n")
    case True
    then have "down i n h = (i, h)" by (subst heap_down.simps) simp
    moreover have "\<not> (0 < c \<and> c < n \<and> parent c = i)" for c using kids [of c] True by auto
    ultimately show ?thesis by auto
  next
    case False
    have j: "j < n" "0 < j" "i < j" "parent j = i" using False kids by (auto simp: j_def heap_child_def Let_def)
    have least: "\<forall>c. 0 < c \<and> c < n \<and> parent c = i \<longrightarrow> rank (?q ! j) \<le> rank (?q ! c)"
    proof (intro allI impI)
      fix c assume c: "0 < c \<and> c < n \<and> parent c = i"
      have "before h (?j1 + 1) ?j1 = (rank (?q ! (?j1 + 1)) < rank (?q ! ?j1))" if "?j1 + 1 < n"
        using that prems by (intro before_rank) simp_all
      then show "rank (?q ! j) \<le> rank (?q ! c)"
        using kids [of c] c by (auto simp: j_def heap_child_def Let_def)
    qed
    have bef: "before h j i = (rank (?q ! j) < rank (?q ! i))" using j prems by (simp add: before_rank)
    show ?thesis
    proof (cases "before h j i")
      case nb: False
      then have "down i n h = (i, h)" using False by (subst heap_down.simps) (simp add: Let_def j_def)
      moreover have "edge rank ?q c" if "0 < c" "c < n" "parent c = i" for c
        using least nb bef that by (auto simp: edge_def intro: order.trans)
      ultimately show ?thesis by auto
    next
      case True
      let ?h = "swap i j h"
      have eq: "down i n h = down j n ?h" using False True by (subst heap_down.simps) (simp add: Let_def j_def)
      have v: "view ?h = swapped i j ?q" using j prems by (intro swap_view) simp_all
      note st = down_step [OF prems(1) j(4,2,1) prems(2) _ least] True [unfolded bef]
      have al: "almost rank (view ?h) n j" and ej: "edge rank (view ?h) j" unfolding v using st by blast+
      have IH: "if fst (down j n ?h) = j then snd (down j n ?h) = ?h \<and> (\<forall>c. 0 < c \<and> c < n \<and> parent c = j \<longrightarrow> edge rank (view ?h) c)
         else j < fst (down j n ?h) \<and> heap rank (view (snd (down j n ?h))) n"
        by (rule less.hyps [OF _ al]) (use j prems v in auto)
      moreover have "heap rank (view ?h) n" if "\<forall>c. 0 < c \<and> c < n \<and> parent c = j \<longrightarrow> edge rank (view ?h) c"
        using al ej that unfolding heap_def almost_def by blast
      ultimately show ?thesis unfolding eq using j by (auto split: if_splits)
    qed
  qed
qed

lemma fix_heap:
  assumes "almost rank (view h) n i" "n \<le> length (view h)" "i < n"
  shows "heap rank (view (heap_fix before swap i n h)) n"
  using down_heap [OF assms] assms by (auto simp: heap_fix_def up_heap split: prod.split if_splits)

lemma fix_keeps:
  assumes step: "\<And>i j h. P h \<Longrightarrow> n \<le> length (view h) \<Longrightarrow> i < n \<Longrightarrow> j < n \<Longrightarrow> P (swap i j h)"
    and "P h" "n \<le> length (view h)" "i < n"
  shows "P (heap_fix before swap i n h) \<and> length (view (heap_fix before swap i n h)) = length (view h)"
proof -
  note d = down_keeps [of P n h i, OF step assms(2,3)]
  then show ?thesis
    using up_keeps [of P n "snd (down i n h)" i, OF step] assms(3,4) by (auto simp: heap_fix_def split: prod.split)
qed

text \<open>Exchanges within the first \<open>n\<close> positions keep the elements, and the ones after.\<close>

definition shuffled :: "'h \<Rightarrow> nat \<Rightarrow> 'h \<Rightarrow> bool" where
  "shuffled h n h' = (length (view h') = length (view h) \<and> mset (view h') = mset (view h) \<and> (\<forall>k. n \<le> k \<and> k < length (view h) \<longrightarrow> view h' ! k = view h ! k))"

lemma shuffled_step: "shuffled h n h' \<Longrightarrow> n \<le> length (view h') \<Longrightarrow> i < n \<Longrightarrow> j < n \<Longrightarrow> shuffled h n (swap i j h')"
  by (auto simp: shuffled_def swap_view mset_swapped)

lemma shuffled_refl: "shuffled h n h"
  by (simp add: shuffled_def)

lemma up_shuffled: "n \<le> length (view h) \<Longrightarrow> j < n \<Longrightarrow> shuffled h n (up j h)"
  using up_keeps [of "shuffled h n" n h j, OF shuffled_step] shuffled_refl by simp

lemma down_shuffled: "n \<le> length (view h) \<Longrightarrow> shuffled h n (snd (down i n h))"
  using down_keeps [of "shuffled h n" n h i, OF shuffled_step] shuffled_refl by simp

lemma fix_shuffled: "n \<le> length (view h) \<Longrightarrow> i < n \<Longrightarrow> shuffled h n (heap_fix before swap i n h)"
  using fix_keeps [of "shuffled h n" n h i, OF shuffled_step] shuffled_refl by simp

lemma push_heap:
  assumes "heap rank (view h) (length (view h))" "view h' = view h @ [x]"
  defines "h'' \<equiv> up (length (view h)) h'"
  shows "heap rank (view h'') (length (view h''))" "mset (view h'') = add_mset x (mset (view h))" "length (view h'') = Suc (length (view h))"
proof -
  let ?n = "length (view h)"
  have k: "shuffled h' (Suc ?n) h''" unfolding h''_def using assms(2) by (intro up_shuffled) simp_all
  then show "mset (view h'') = add_mset x (mset (view h))" "length (view h'') = Suc ?n"
    using assms(2) by (simp_all add: shuffled_def)
  have e: "edge rank (view h') c" if "0 < c" "c < ?n" for c
    using assms(1,2) that parent_less [of c] by (simp add: heap_def edge_def nth_append)
  have none: "\<not> (0 < c \<and> c < Suc ?n \<and> parent c = ?n)" for c using parent_less [of c] by auto
  then have "almost rank (view h') (Suc ?n) ?n" "\<forall>c. 0 < c \<and> c < Suc ?n \<and> parent c = ?n \<longrightarrow> edge rank (view h') c"
    using e unfolding almost_def by (metis less_antisym)+
  then have "heap rank (view h'') (Suc ?n)" unfolding h''_def using assms(2) by (intro up_heap) simp_all
  then show "heap rank (view h'') (length (view h''))" using k assms(2) by (simp add: shuffled_def)
qed

lemma swap_last_almost:
  assumes h: "heap rank (view h) (length (view h))" and i: "i < length (view h)"
  shows "almost rank (view (swap i (length (view h) - 1) h)) (length (view h) - 1) i"
proof -
  let ?n = "length (view h)"
  let ?q = "view (swap i (?n - 1) h)"
  have nth: "?q ! k = view h ! k" if "k < ?n - 1" "k \<noteq> i" for k using that i by (simp add: swap_view)
  have e: "edge rank ?q c" if "0 < c" "c < ?n - 1" "c \<noteq> i" "parent c \<noteq> i" for c
    using h that nth [of c] nth [of "parent c"] parent_less [of c] by (simp add: heap_def edge_def)
  have "rank (?q ! parent i) \<le> rank (?q ! c)" if "0 < i" "0 < c" "c < ?n - 1" "parent c = i" for c
  proof -
    have "parent i < i" "i < c" using that parent_less by blast+
    moreover have "almost rank (view h) ?n i" using h by (rule heap_almost)
    then have "rank (view h ! parent i) \<le> rank (view h ! c)" using that by (simp add: almost_def)
    ultimately show ?thesis using that nth by simp
  qed
  with e show ?thesis unfolding almost_def by blast
qed

lemma remove_heap:
  assumes h: "heap rank (view h) (length (view h))" and i: "i < length (view h)"
  defines "h' \<equiv> heap_remove before swap i (length (view h)) h"
  shows "heap rank (view h') (length (view h) - 1)" "length (view h') = length (view h)"
    "mset (view h') = mset (view h)" "view h' ! (length (view h) - 1) = view h ! i"
proof -
  let ?n = "length (view h)" and ?s = "swap i (length (view h) - 1) h"
  have v: "view ?s = swapped i (?n - 1) (view h)" using i by (simp add: swap_view)
  have "heap rank (view h') (?n - 1) \<and> shuffled ?s (?n - 1) h'" if "i \<noteq> ?n - 1"
    unfolding h'_def heap_remove_def
    using that i v fix_heap [OF swap_last_almost [OF h i]] fix_shuffled [of "?n - 1" ?s i] by simp
  moreover have "h' = h" if "i = ?n - 1" using that by (simp add: h'_def heap_remove_def)
  moreover have "heap rank (view h) (?n - 1)" using h by (auto simp: heap_def)
  ultimately show "heap rank (view h') (?n - 1)" "length (view h') = ?n" "mset (view h') = mset (view h)" "view h' ! (?n - 1) = view h ! i"
    using v i by (cases "i = ?n - 1"; simp add: shuffled_def mset_swapped)+
qed

lemma pop_heap:
  assumes h: "heap rank (view h) (length (view h))" and n: "view h \<noteq> []"
  defines "h' \<equiv> heap_pop before swap (length (view h)) h"
  shows "heap rank (view h') (length (view h) - 1)" "length (view h') = length (view h)"
    "mset (view h') = mset (view h)" "view h' ! (length (view h) - 1) = view h ! 0"
proof -
  let ?n = "length (view h)" and ?s = "swap 0 (length (view h) - 1) h"
  have v: "view ?s = swapped 0 (?n - 1) (view h)" using n by (simp add: swap_view)
  have k: "shuffled ?s (?n - 1) h'" unfolding h'_def heap_pop_def using v by (intro down_shuffled) simp
  then show "length (view h') = ?n" "mset (view h') = mset (view h)" "view h' ! (?n - 1) = view h ! 0"
    using v n by (simp_all add: shuffled_def mset_swapped)
  have al: "almost rank (view ?s) (?n - 1) 0" using swap_last_almost [OF h, of 0] n by simp
  show "heap rank (view h') (?n - 1)"
  proof (cases "?n - 1 = 0")
    case False
    then show ?thesis
      using down_heap [OF al] v al unfolding h'_def heap_pop_def heap_def almost_def by (auto split: if_splits)
  qed (simp add: heap_def)
qed

end

end
