(* ===== verification/Sched_Jobs.thy ===== *)
theory Sched_Jobs
  imports Go_Heap Naming "HOL-Library.AList"
begin

text \<open>
  The jobs of the scheduler, \<open>daemon/scheduler/queue.go\<close>, and the schedule entries they run
  (\<open>core/schedule/main.go\<close>). A job is known by its object and its key, in \<open>byPath\<close>, and planned when it
  is in the queue, a heap ordered by the time the jobs are due, each job keeping its position there.
  A pointer to a job is its object and key.
\<close>

section \<open>Entries\<close>

record sched_config =
  sc_Action :: string
  sc_Schedule :: string
  sc_Key :: string
  sc_MaxParallel :: int
  sc_Require :: string
  sc_RequireCollector :: bool
  sc_RequireProvisioned :: bool
  sc_RunDir :: string
  sc_RequireReplicationSource :: bool
  sc_On :: "string list"
  sc_Pace :: string
  sc_StatefileKey :: string

record entry =
  en_Config :: sched_config
  en_LastRunAt :: "time"
  en_NextRunAt :: "time"
  en_Node :: string
  en_Path :: path

type_synonym job_id = "path \<times> string"

definition entry_id :: "entry \<Rightarrow> job_id" where
  "entry_id e = (en_Path e, sc_Key (en_Config e))"

section \<open>The queue\<close>

record job =
  j_entry :: entry
  j_createdAt :: "time"
  j_index :: int

record jobs =
  jb_byPath :: "(job_id, job) gomap"
  jb_queue :: "job_id list"

definition newJobs :: jobs where
  "newJobs = \<lparr>jb_byPath = [], jb_queue = []\<rparr>"

text \<open>The time a job is due; a pointer of the queue always has its job.\<close>

definition due_at :: "jobs \<Rightarrow> job_id \<Rightarrow> time" where
  "due_at t k = (case map_of (jb_byPath t) k of None \<Rightarrow> 0 | Some j \<Rightarrow> en_NextRunAt (j_entry j))"

definition set_index :: "job_id \<Rightarrow> int \<Rightarrow> jobs \<Rightarrow> jobs" where
  "set_index k i t =
    (case map_of (jb_byPath t) k of None \<Rightarrow> t | Some j \<Rightarrow> t\<lparr>jb_byPath := AList.update k (j\<lparr>j_index := i\<rparr>) (jb_byPath t)\<rparr>)"

definition jobQueue_Less :: "jobs \<Rightarrow> nat \<Rightarrow> nat \<Rightarrow> bool" where
  "jobQueue_Less t i j = (due_at t (jb_queue t ! i) < due_at t (jb_queue t ! j))"

definition jobQueue_Swap :: "nat \<Rightarrow> nat \<Rightarrow> jobs \<Rightarrow> jobs" where
  "jobQueue_Swap i j t =
    (let t = t\<lparr>jb_queue := swapped i j (jb_queue t)\<rparr>
     in set_index (jb_queue t ! j) (int j) (set_index (jb_queue t ! i) (int i) t))"

definition jobQueue_Push :: "job_id \<Rightarrow> jobs \<Rightarrow> jobs" where
  "jobQueue_Push k t = (set_index k (int (length (jb_queue t))) t)\<lparr>jb_queue := jb_queue t @ [k]\<rparr>"

definition jobQueue_Pop :: "jobs \<Rightarrow> job_id \<times> jobs" where
  "jobQueue_Pop t = (let k = last (jb_queue t) in (k, (set_index k (- 1) t)\<lparr>jb_queue := butlast (jb_queue t)\<rparr>))"

lemma set_index_fields [simp]: "jb_queue (set_index k i t) = jb_queue t" "due_at (set_index k i t) = due_at t"
  by (auto simp: set_index_def due_at_def update_conv fun_eq_iff split: option.split)

lemma due_at_queue [simp]: "due_at (t\<lparr>jb_queue := q\<rparr>) = due_at t"
  by (simp add: due_at_def fun_eq_iff)

definition queue_view :: "jobs \<Rightarrow> (job_id \<times> time) list" where
  "queue_view t = map (\<lambda>k. (k, due_at t k)) (jb_queue t)"

lemma queue_view_length [simp]: "length (queue_view t) = length (jb_queue t)"
  by (simp add: queue_view_def)

interpretation jq: heap_ops queue_view snd jobQueue_Less jobQueue_Swap
proof
  show "jobQueue_Less t i j = (snd (queue_view t ! i) < snd (queue_view t ! j))"
    if "i < length (queue_view t)" "j < length (queue_view t)" for i j t
    using that by (simp add: jobQueue_Less_def queue_view_def)
  show "queue_view (jobQueue_Swap i j t) = swapped i j (queue_view t)"
    if "i < length (queue_view t)" "j < length (queue_view t)" for i j t
    using that by (simp add: jobQueue_Swap_def queue_view_def swapped_def map_update Let_def)
qed

definition heap_Push :: "job_id \<Rightarrow> jobs \<Rightarrow> jobs" where
  "heap_Push k t = heap_up jobQueue_Less jobQueue_Swap (length (jb_queue t)) (jobQueue_Push k t)"

definition heap_Fix :: "nat \<Rightarrow> jobs \<Rightarrow> jobs" where
  "heap_Fix i t = heap_fix jobQueue_Less jobQueue_Swap i (length (jb_queue t)) t"

definition heap_Remove :: "nat \<Rightarrow> jobs \<Rightarrow> jobs" where
  "heap_Remove i t = snd (jobQueue_Pop (heap_remove jobQueue_Less jobQueue_Swap i (length (jb_queue t)) t))"

definition heap_Pop :: "jobs \<Rightarrow> job_id \<times> jobs" where
  "heap_Pop t = jobQueue_Pop (heap_pop jobQueue_Less jobQueue_Swap (length (jb_queue t)) t)"

section \<open>The jobs\<close>

definition jobs_get :: "job_id \<Rightarrow> jobs \<Rightarrow> job option" where
  "jobs_get k t = map_of (jb_byPath t) k"

text \<open>The entry of the job is replaced, its position kept.\<close>

definition set_entry :: "entry \<Rightarrow> time \<Rightarrow> jobs \<Rightarrow> jobs" where
  "set_entry e now t =
    (let j = (case jobs_get (entry_id e) t of None \<Rightarrow> \<lparr>j_entry = e, j_createdAt = now, j_index = - 1\<rparr> | Some j \<Rightarrow> j\<lparr>j_entry := e\<rparr>)
     in t\<lparr>jb_byPath := AList.update (entry_id e) j (jb_byPath t)\<rparr>)"

definition jobs_set :: "entry \<Rightarrow> time \<Rightarrow> jobs \<Rightarrow> jobs" where
  "jobs_set e now t =
    (let i = (case jobs_get (entry_id e) t of None \<Rightarrow> - 1 | Some j \<Rightarrow> j_index j); t = set_entry e now t
     in if i < 0 then heap_Push (entry_id e) t else heap_Fix (nat i) t)"

definition jobs_del :: "job_id \<Rightarrow> jobs \<Rightarrow> jobs" where
  "jobs_del k t =
    (case jobs_get k t of
       None \<Rightarrow> t
     | Some j \<Rightarrow>
         (let t = (if j_index j \<ge> 0 then heap_Remove (nat (j_index j)) t else t)
          in t\<lparr>jb_byPath := AList.delete k (jb_byPath t)\<rparr>))"

definition jobs_keys :: "path \<Rightarrow> jobs \<Rightarrow> string list" where
  "jobs_keys p t = map (\<lambda>(k, _). snd k) (filter (\<lambda>(k, _). fst k = p) (jb_byPath t))"

definition jobs_delPath :: "path \<Rightarrow> jobs \<Rightarrow> jobs" where
  "jobs_delPath p t = fold (\<lambda>key. jobs_del (p, key)) (jobs_keys p t) t"

definition jobs_purge :: "jobs \<Rightarrow> jobs" where
  "jobs_purge t = \<lparr>jb_byPath = [], jb_queue = []\<rparr>"

definition jobs_table :: "path \<Rightarrow> jobs \<Rightarrow> entry list" where
  "jobs_table p t = map (\<lambda>(_, j). j_entry j) (filter (\<lambda>(k, _). fst k = p) (jb_byPath t))"

definition jobs_first :: "jobs \<Rightarrow> job_id option" where
  "jobs_first t = (case jb_queue t of [] \<Rightarrow> None | k # _ \<Rightarrow> Some k)"

lemma swap_queue [simp]: "jb_queue (jobQueue_Swap i j t) = swapped i j (jb_queue t)" "due_at (jobQueue_Swap i j t) = due_at t"
  by (simp_all add: jobQueue_Swap_def Let_def)

lemma heap_Pop_length: "jb_queue t \<noteq> [] \<Longrightarrow> length (jb_queue (snd (heap_Pop t))) = length (jb_queue t) - 1"
  using jq.down_shuffled [of "length (jb_queue t) - 1" "jobQueue_Swap 0 (length (jb_queue t) - 1) t" 0]
  by (simp add: heap_Pop_def jobQueue_Pop_def heap_pop_def jq.shuffled_def Let_def)

function popDue :: "time \<Rightarrow> jobs \<Rightarrow> job_id list \<times> jobs" where
  "popDue now t =
    (case jobs_first t of
       None \<Rightarrow> ([], t)
     | Some k \<Rightarrow> if due_at t k > now then ([], t)
                 else (let (k, t) = heap_Pop t; (l, t) = popDue now t in (k # l, t)))"
  by pat_completeness auto

termination
proof (relation "measure (\<lambda>(now, t). length (jb_queue t))")
  fix now t k x ka t'
  assume "jobs_first t = Some k" "x = heap_Pop t" "(ka, t') = x"
  then show "((now, t'), now, t) \<in> measure (\<lambda>(now, t). length (jb_queue t))"
    using heap_Pop_length [of t] by (cases "jb_queue t") (auto simp: jobs_first_def dest: arg_cong [of _ _ snd])
qed simp

declare popDue.simps [simp del]

end
