(* ===== verification/Sched_Queue.thy ===== *)
theory Sched_Queue
  imports Sched_Jobs
begin

text \<open>
  What the queue of the jobs promises: every job knows its position, the jobs planned are a heap, an
  operation on a job leaves the others planned as they were, and the jobs due are taken all of them,
  the soonest first, and no other.
\<close>

section \<open>The positions\<close>

definition known :: "jobs \<Rightarrow> job_id \<Rightarrow> entry option" where
  "known t k = map_option j_entry (map_of (jb_byPath t) k)"

definition index_of :: "jobs \<Rightarrow> job_id \<Rightarrow> int option" where
  "index_of t k = map_option j_index (map_of (jb_byPath t) k)"

definition pos_ok :: "jobs \<Rightarrow> bool" where
  "pos_ok t =
    (distinct (jb_queue t) \<and> (\<forall>i < length (jb_queue t). index_of t (jb_queue t ! i) = Some (int i))
     \<and> (\<forall>k i. k \<notin> set (jb_queue t) \<and> index_of t k = Some i \<longrightarrow> i = - 1))"

definition jobs_inv :: "jobs \<Rightarrow> bool" where
  "jobs_inv t =
    (wf_map (jb_byPath t) \<and> pos_ok t \<and> heap snd (queue_view t) (length (jb_queue t)) \<and> (\<forall>k e. known t k = Some e \<longrightarrow> entry_id e = k))"

text \<open>The same jobs, in another order in the queue.\<close>

definition same_jobs :: "jobs \<Rightarrow> jobs \<Rightarrow> bool" where
  "same_jobs t t' = (known t' = known t \<and> map fst (jb_byPath t') = map fst (jb_byPath t))"

lemma known_due: "due_at t k = (case known t k of None \<Rightarrow> 0 | Some e \<Rightarrow> en_NextRunAt e)"
  by (simp add: due_at_def known_def split: option.split)

lemma same_due: "same_jobs t t' \<Longrightarrow> due_at t' = due_at t"
  by (simp add: same_jobs_def known_due fun_eq_iff)

lemma update_present: "map_of m k = Some v \<Longrightarrow> map fst (AList.update k w m) = map fst m"
  by (induction m) (auto split: if_splits)

lemma set_index_known [simp]: "known (set_index k i t) = known t"
  by (auto simp: known_def set_index_def update_conv fun_eq_iff split: option.split)

lemma set_index_index: "index_of (set_index k i t) k' = (if k' = k \<and> index_of t k \<noteq> None then Some i else index_of t k')"
  by (auto simp: index_of_def set_index_def update_conv split: option.split)

lemma set_index_keys [simp]: "map fst (jb_byPath (set_index k i t)) = map fst (jb_byPath t)"
  by (simp add: set_index_def update_present split: option.split)

lemma queue_update_simps [simp]: "known (t\<lparr>jb_queue := q\<rparr>) = known t" "index_of (t\<lparr>jb_queue := q\<rparr>) = index_of t"
  by (simp_all add: known_def index_of_def fun_eq_iff)

lemma set_index_update [simp]: "set_index k i (t\<lparr>jb_queue := q\<rparr>) = (set_index k i t)\<lparr>jb_queue := q\<rparr>"
  by (simp add: set_index_def split: option.split)

lemma pos_ok_out: "pos_ok t \<Longrightarrow> k \<notin> set (jb_queue t) \<Longrightarrow> index_of t k = Some m \<Longrightarrow> m = - 1"
  unfolding pos_ok_def by blast

lemma pos_ok_index: "pos_ok t \<Longrightarrow> index_of t k = Some (int i) \<Longrightarrow> i < length (jb_queue t) \<and> jb_queue t ! i = k"
proof -
  assume ok: "pos_ok t" and k: "index_of t k = Some (int i)"
  have "k \<in> set (jb_queue t)"
  proof (rule ccontr)
    assume "k \<notin> set (jb_queue t)"
    then have "int i = - 1" using ok k unfolding pos_ok_def by blast
    then show False by simp
  qed
  then obtain m where "m < length (jb_queue t)" "jb_queue t ! m = k" by (auto simp: in_set_conv_nth)
  with ok k show ?thesis by (auto simp: pos_ok_def)
qed

lemma set_swapped: "i < length q \<Longrightarrow> j < length q \<Longrightarrow> set (swapped i j q) = set q"
  using mset_swapped [of i q j] by (metis set_mset_mset)

lemma distinct_swapped: "i < length q \<Longrightarrow> j < length q \<Longrightarrow> distinct (swapped i j q) = distinct q"
  using mset_swapped [of i q j] by (metis mset_eq_imp_distinct_iff)

lemma swap_pos_ok:
  assumes ok: "pos_ok t" and i: "i < length (jb_queue t)" "j < length (jb_queue t)"
  shows "pos_ok (jobQueue_Swap i j t)"
proof -
  let ?q = "jb_queue t" and ?t = "jobQueue_Swap i j t"
  have q: "index_of t (?q ! i) \<noteq> None" "index_of t (?q ! j) \<noteq> None" using ok i by (simp_all add: pos_ok_def)
  have "swapped i j ?q ! i = ?q ! j" "swapped i j ?q ! j = ?q ! i" using i by (simp_all split: if_splits)
  then have "?t = (set_index (?q ! i) (int j) (set_index (?q ! j) (int i) t))\<lparr>jb_queue := swapped i j ?q\<rparr>"
    by (simp add: jobQueue_Swap_def Let_def)
  then have ix: "index_of ?t k = (if k = ?q ! i then Some (int j) else if k = ?q ! j then Some (int i) else index_of t k)" for k
    using q by (auto simp: set_index_index)
  show ?thesis
    unfolding pos_ok_def
  proof (intro conjI allI impI)
    show "distinct (jb_queue ?t)" using ok i by (simp add: distinct_swapped pos_ok_def)
    show "index_of ?t (jb_queue ?t ! k) = Some (int k)" if "k < length (jb_queue ?t)" for k
      using that i ok by (auto simp: ix pos_ok_def nth_eq_iff_index_eq)
    show "m = - 1" if "k \<notin> set (jb_queue ?t) \<and> index_of ?t k = Some m" for k m
      using that i pos_ok_out [OF ok, of k m] by (auto simp: ix set_swapped split: if_splits)
  qed
qed

lemma swap_same_jobs: "same_jobs t (jobQueue_Swap i j t)"
  by (simp add: same_jobs_def jobQueue_Swap_def Let_def)

lemma same_jobs_refl: "same_jobs t t"
  by (simp add: same_jobs_def)

lemma same_jobs_trans: "same_jobs t t' \<Longrightarrow> same_jobs t' t'' \<Longrightarrow> same_jobs t t''"
  by (simp add: same_jobs_def)

text \<open>What the exchanges of the heap operations keep.\<close>

lemma swap_keeps: "pos_ok t' \<and> same_jobs t t' \<Longrightarrow> n \<le> length (queue_view t') \<Longrightarrow> i < n \<Longrightarrow> j < n \<Longrightarrow>
    pos_ok (jobQueue_Swap i j t') \<and> same_jobs t (jobQueue_Swap i j t')"
  using swap_pos_ok [of t' i j] same_jobs_trans [OF _ swap_same_jobs] by simp

lemma view_mset: "same_jobs t t' \<Longrightarrow> mset (queue_view t') = mset (queue_view t) \<Longrightarrow> set (jb_queue t') = set (jb_queue t)"
  by (metis (no_types, lifting) fst_conv image_cong image_image image_ident list.set_map queue_view_def set_mset_mset)

lemma view_nth: "i < length (jb_queue t) \<Longrightarrow> queue_view t ! i = (jb_queue t ! i, due_at t (jb_queue t ! i))"
  by (simp add: queue_view_def)

section \<open>The heap operations\<close>

lemma Push_ok:
  assumes ok: "pos_ok t" and h: "heap snd (queue_view t) (length (jb_queue t))" and k: "k \<notin> set (jb_queue t)" "known t k \<noteq> None"
  shows "pos_ok (heap_Push k t) \<and> same_jobs t (heap_Push k t) \<and> heap snd (queue_view (heap_Push k t)) (length (jb_queue (heap_Push k t)))
    \<and> set (jb_queue (heap_Push k t)) = insert k (set (jb_queue t))"
proof -
  let ?n = "length (jb_queue t)" and ?p = "jobQueue_Push k t"
  have v: "queue_view ?p = queue_view t @ [(k, due_at t k)]" by (simp add: jobQueue_Push_def queue_view_def)
  have "index_of t k \<noteq> None" using k by (simp add: known_def index_of_def)
  then have p: "pos_ok ?p" using ok k by (auto simp: pos_ok_def jobQueue_Push_def set_index_index nth_append less_Suc_eq)
  have s: "same_jobs t ?p" by (simp add: same_jobs_def jobQueue_Push_def)
  note u = jq.up_keeps [of "\<lambda>t'. pos_ok t' \<and> same_jobs t t'" "Suc ?n" ?p ?n, OF swap_keeps]
  note ph = jq.push_heap [of t ?p "(k, due_at t k)"]
  have "mset (queue_view (heap_Push k t)) = mset (queue_view ?p)" using ph v h by (simp add: heap_Push_def)
  moreover have "pos_ok (heap_Push k t) \<and> same_jobs t (heap_Push k t)" using u p s v by (simp add: heap_Push_def)
  moreover have "same_jobs ?p (heap_Push k t)" using \<open>pos_ok (heap_Push k t) \<and> same_jobs t (heap_Push k t)\<close> s by (simp add: same_jobs_def)
  ultimately show ?thesis
    using ph v h view_mset [of ?p "heap_Push k t"] by (simp add: heap_Push_def) (simp add: jobQueue_Push_def)
qed

lemma Fix_ok:
  assumes ok: "pos_ok t" and a: "almost snd (queue_view t) (length (jb_queue t)) i" and i: "i < length (jb_queue t)"
  shows "pos_ok (heap_Fix i t) \<and> same_jobs t (heap_Fix i t) \<and> heap snd (queue_view (heap_Fix i t)) (length (jb_queue (heap_Fix i t)))
    \<and> set (jb_queue (heap_Fix i t)) = set (jb_queue t)"
proof -
  let ?n = "length (jb_queue t)"
  note f = jq.fix_keeps [of "\<lambda>t'. pos_ok t' \<and> same_jobs t t'" ?n t i, OF swap_keeps]
  have p: "pos_ok (heap_Fix i t) \<and> same_jobs t (heap_Fix i t)" "length (jb_queue (heap_Fix i t)) = ?n"
    using f ok i by (simp_all add: heap_Fix_def same_jobs_refl)
  moreover have "heap snd (queue_view (heap_Fix i t)) ?n" using jq.fix_heap [OF a] i by (simp add: heap_Fix_def)
  moreover have "mset (queue_view (heap_Fix i t)) = mset (queue_view t)"
    using jq.fix_shuffled [of ?n t i] i by (simp add: heap_Fix_def jq.shuffled_def)
  ultimately show ?thesis using view_mset [of t "heap_Fix i t"] by simp
qed

text \<open>The last job of the queue leaves it.\<close>

lemma Pop_last_ok:
  assumes ok: "pos_ok t" and q: "jb_queue t \<noteq> []" and h: "heap snd (queue_view t) (length (jb_queue t) - 1)"
  defines "r \<equiv> snd (jobQueue_Pop t)"
  shows "pos_ok r \<and> same_jobs t r \<and> heap snd (queue_view r) (length (jb_queue r)) \<and> set (jb_queue r) = set (jb_queue t) - {last (jb_queue t)}"
proof -
  let ?k = "last (jb_queue t)"
  have k: "jb_queue t = butlast (jb_queue t) @ [?k]" using q by simp
  have d: "distinct (butlast (jb_queue t))" "?k \<notin> set (butlast (jb_queue t))"
    using ok k unfolding pos_ok_def by (metis distinct_append distinct_butlast, metis distinct_append disjoint_iff list.set_intros(1))
  have r: "jb_queue r = butlast (jb_queue t)" "due_at r = due_at t" "same_jobs t r"
    by (simp_all add: r_def jobQueue_Pop_def Let_def same_jobs_def)
  have st: "set (jb_queue t) = insert ?k (set (butlast (jb_queue t)))" by (subst k) simp
  have ix: "index_of r x = (if x = ?k \<and> index_of t ?k \<noteq> None then Some (- 1) else index_of t x)" for x
    by (simp add: r_def jobQueue_Pop_def Let_def set_index_index)
  have "pos_ok r"
    unfolding pos_ok_def
  proof (intro conjI allI impI)
    show "distinct (jb_queue r)" using d r by simp
    show "index_of r (jb_queue r ! i) = Some (int i)" if i: "i < length (jb_queue r)" for i
    proof -
      have "jb_queue r ! i \<noteq> ?k" using d r i by (metis nth_mem)
      moreover have "jb_queue r ! i = jb_queue t ! i" using r i by (simp add: nth_butlast)
      ultimately show ?thesis using ok i r by (simp add: ix pos_ok_def)
    qed
    show "m = - 1" if "x \<notin> set (jb_queue r) \<and> index_of r x = Some m" for x m
      using that pos_ok_out [OF ok, of x m] st r by (cases "x = ?k") (auto simp: ix split: if_splits)
  qed
  moreover have "queue_view r = butlast (queue_view t)" using r by (simp add: queue_view_def map_butlast)
  then have "heap snd (queue_view r) (length (jb_queue r))"
    using h r heap_butlast [of snd "queue_view t"] by simp
  ultimately show ?thesis using r st d by simp
qed

lemma Remove_ok:
  assumes ok: "pos_ok t" and h: "heap snd (queue_view t) (length (jb_queue t))" and i: "i < length (jb_queue t)"
  shows "pos_ok (heap_Remove i t) \<and> same_jobs t (heap_Remove i t) \<and> heap snd (queue_view (heap_Remove i t)) (length (jb_queue (heap_Remove i t)))
    \<and> set (jb_queue (heap_Remove i t)) = set (jb_queue t) - {jb_queue t ! i}"
proof -
  let ?n = "length (jb_queue t)" and ?r = "heap_remove jobQueue_Less jobQueue_Swap i (length (jb_queue t)) t"
  have rh: "heap snd (queue_view ?r) (?n - 1)" "length (jb_queue ?r) = ?n" "mset (queue_view ?r) = mset (queue_view t)"
    "queue_view ?r ! (?n - 1) = queue_view t ! i"
    using jq.remove_heap [of t i] h i by simp_all
  have p: "pos_ok ?r \<and> same_jobs t ?r"
  proof (cases "?n - 1 = i")
    case False
    let ?s = "jobQueue_Swap i (?n - 1) t"
    have "pos_ok ?s \<and> same_jobs t ?s" using swap_keeps [of t t ?n i "?n - 1"] ok i by (simp add: same_jobs_refl)
    then show ?thesis
      using jq.fix_keeps [of "\<lambda>t'. pos_ok t' \<and> same_jobs t t'" "?n - 1" ?s i, OF swap_keeps] False i by (simp add: heap_remove_def)
  qed (use ok in \<open>simp add: heap_remove_def same_jobs_refl\<close>)
  have "jb_queue ?r \<noteq> []" using rh(2) i by auto
  then have "last (jb_queue ?r) = jb_queue t ! i" using rh(2,4) i by (simp add: view_nth last_conv_nth)
  then show ?thesis
    using Pop_last_ok [of ?r] p rh \<open>jb_queue ?r \<noteq> []\<close> view_mset [of t ?r] same_jobs_trans [of t ?r] by (simp add: heap_Remove_def)
qed

lemma heap_Pop_ok:
  assumes ok: "pos_ok t" and h: "heap snd (queue_view t) (length (jb_queue t))" and q: "jb_queue t \<noteq> []" and r: "heap_Pop t = (k, r)"
  shows "k = hd (jb_queue t) \<and> pos_ok r \<and> same_jobs t r \<and> heap snd (queue_view r) (length (jb_queue r)) \<and> set (jb_queue r) = set (jb_queue t) - {k}"
proof -
  let ?n = "length (jb_queue t)" and ?p = "heap_pop jobQueue_Less jobQueue_Swap (length (jb_queue t)) t"
  have v: "queue_view t \<noteq> []" using q by (simp add: queue_view_def)
  note ph = jq.pop_heap [OF h [folded queue_view_length] v]
  let ?s = "jobQueue_Swap 0 (?n - 1) t"
  have "pos_ok ?s \<and> same_jobs t ?s" using swap_keeps [of t t ?n 0 "?n - 1"] ok q by (simp add: same_jobs_refl)
  then have p: "pos_ok ?p \<and> same_jobs t ?p"
    using jq.down_keeps [of "\<lambda>t'. pos_ok t' \<and> same_jobs t t'" "?n - 1" ?s 0, OF swap_keeps] by (simp add: heap_pop_def)
  have ne: "jb_queue ?p \<noteq> []" using ph(2) q by auto
  then have "last (jb_queue ?p) = jb_queue t ! 0" using ph(2,4) q by (simp add: view_nth last_conv_nth)
  moreover have "k = last (jb_queue ?p)" "r = snd (jobQueue_Pop ?p)" using r by (auto simp: heap_Pop_def jobQueue_Pop_def Let_def)
  ultimately show ?thesis
    using Pop_last_ok [of ?p] p ph ne view_mset [of t ?p] same_jobs_trans [of t ?p] q by (simp add: hd_conv_nth)
qed

section \<open>The jobs\<close>

abbreviation planned :: "jobs \<Rightarrow> job_id set" where
  "planned t \<equiv> set (jb_queue t)"

lemma pos_ok_known: "pos_ok t \<Longrightarrow> k \<in> planned t \<Longrightarrow> known t k \<noteq> None"
  by (auto simp: pos_ok_def index_of_def known_def in_set_conv_nth)

lemma jobs_get_index: "map_option j_index (jobs_get k t) = index_of t k"
  by (simp add: jobs_get_def index_of_def)

lemma jobs_get_known: "map_option j_entry (jobs_get k t) = known t k"
  by (simp add: jobs_get_def known_def)

lemma same_inv:
  assumes "same_jobs t t'" "wf_map (jb_byPath t)" "\<forall>k e. known t k = Some e \<longrightarrow> entry_id e = k"
    and "pos_ok t'" "heap snd (queue_view t') (length (jb_queue t'))"
  shows "jobs_inv t'"
  using assms unfolding jobs_inv_def same_jobs_def wf_map_def by simp

lemma set_entry_fields:
  "jb_queue (set_entry e now t) = jb_queue t"
  "known (set_entry e now t) = (known t)(entry_id e \<mapsto> e)"
  "index_of (set_entry e now t) = (if index_of t (entry_id e) = None then (index_of t)(entry_id e \<mapsto> - 1) else index_of t)"
  "wf_map (jb_byPath t) \<Longrightarrow> wf_map (jb_byPath (set_entry e now t))"
  by (auto simp: set_entry_def known_def index_of_def jobs_get_def update_conv fun_eq_iff Let_def split: option.split)

lemma set_entry_pos_ok: "pos_ok t \<Longrightarrow> pos_ok (set_entry e now t)"
  by (auto simp: pos_ok_def set_entry_fields)

lemma set_entry_view:
  assumes ok: "pos_ok t"
  shows "entry_id e \<notin> planned t \<Longrightarrow> queue_view (set_entry e now t) = queue_view t"
    and "i < length (jb_queue t) \<Longrightarrow> jb_queue t ! i = entry_id e \<Longrightarrow>
      queue_view (set_entry e now t) = (queue_view t)[i := (entry_id e, en_NextRunAt e)]"
proof -
  have due: "due_at (set_entry e now t) = (due_at t)(entry_id e := en_NextRunAt e)"
    by (auto simp: known_due set_entry_fields fun_eq_iff)
  show "entry_id e \<notin> planned t \<Longrightarrow> queue_view (set_entry e now t) = queue_view t"
    by (auto simp: queue_view_def set_entry_fields due)
  assume i: "i < length (jb_queue t)" "jb_queue t ! i = entry_id e"
  then have "jb_queue t ! k = entry_id e \<longleftrightarrow> k = i" if "k < length (jb_queue t)" for k
    using ok that by (metis nth_eq_iff_index_eq pos_ok_def)
  then show "queue_view (set_entry e now t) = (queue_view t)[i := (entry_id e, en_NextRunAt e)]"
    using i by (intro nth_equalityI) (auto simp: queue_view_def set_entry_fields due nth_list_update)
qed

lemma jobs_set_ok:
  assumes inv: "jobs_inv t"
  shows "jobs_inv (jobs_set e now t) \<and> known (jobs_set e now t) = (known t)(entry_id e \<mapsto> e) \<and> planned (jobs_set e now t) = insert (entry_id e) (planned t)"
proof -
  let ?k = "entry_id e" and ?s = "set_entry e now t"
  have ok: "pos_ok t" "wf_map (jb_byPath t)" and h: "heap snd (queue_view t) (length (jb_queue t))"
    using inv by (simp_all add: jobs_inv_def)
  have s: "pos_ok ?s" "wf_map (jb_byPath ?s)" "\<forall>k e. known ?s k = Some e \<longrightarrow> entry_id e = k"
    using set_entry_pos_ok ok set_entry_fields(2,4) inv by (auto simp: jobs_inv_def)
  consider (out) "?k \<notin> planned t" | (planned) i where "i < length (jb_queue t)" "jb_queue t ! i = ?k"
    by (auto simp: in_set_conv_nth)
  then show ?thesis
  proof cases
    case out
    have "case jobs_get ?k t of None \<Rightarrow> True | Some j \<Rightarrow> j_index j = - 1"
      using pos_ok_out [OF ok(1) out] jobs_get_index [of ?k t] by (cases "jobs_get ?k t") auto
    then have eq: "jobs_set e now t = heap_Push ?k ?s" by (simp add: jobs_set_def Let_def split: option.splits)
    have "heap snd (queue_view ?s) (length (jb_queue ?s))" using set_entry_view(1) [OF ok(1) out] h by (simp add: set_entry_fields)
    then have P: "pos_ok (heap_Push ?k ?s) \<and> same_jobs ?s (heap_Push ?k ?s) \<and> heap snd (queue_view (heap_Push ?k ?s)) (length (jb_queue (heap_Push ?k ?s)))
      \<and> planned (heap_Push ?k ?s) = insert ?k (planned ?s)"
      using out by (intro Push_ok s(1)) (simp_all add: set_entry_fields)
    then have "jobs_inv (heap_Push ?k ?s)" by (intro same_inv [OF _ s(2,3)]) simp_all
    then show ?thesis unfolding eq using P by (simp add: same_jobs_def set_entry_fields)
  next
    case (planned i)
    have "map_option j_index (jobs_get ?k t) = Some (int i)" using ok planned(1) by (simp add: jobs_get_index pos_ok_def flip: planned(2))
    then have eq: "jobs_set e now t = heap_Fix i ?s" by (auto simp: jobs_set_def Let_def)
    have "almost snd (queue_view ?s) (length (jb_queue ?s)) i"
      using set_entry_view(2) [OF ok(1) planned] almost_update [OF h planned(1)] by (simp add: set_entry_fields)
    then have F: "pos_ok (heap_Fix i ?s) \<and> same_jobs ?s (heap_Fix i ?s) \<and> heap snd (queue_view (heap_Fix i ?s)) (length (jb_queue (heap_Fix i ?s)))
      \<and> planned (heap_Fix i ?s) = planned ?s"
      using planned by (intro Fix_ok s(1)) (simp_all add: set_entry_fields)
    have "?k \<in> planned t" using planned by (metis nth_mem)
    moreover have "jobs_inv (heap_Fix i ?s)" using F by (intro same_inv [OF _ s(2,3)]) simp_all
    ultimately show ?thesis unfolding eq using F by (simp add: same_jobs_def set_entry_fields insert_absorb)
  qed
qed

lemma del_fields:
  "jb_queue (t\<lparr>jb_byPath := AList.delete k (jb_byPath t)\<rparr>) = jb_queue t"
  "known (t\<lparr>jb_byPath := AList.delete k (jb_byPath t)\<rparr>) = (known t)(k := None)"
  "index_of (t\<lparr>jb_byPath := AList.delete k (jb_byPath t)\<rparr>) = (index_of t)(k := None)"
  by (auto simp: known_def index_of_def delete_conv fun_eq_iff)

lemma forget_ok:
  assumes inv: "jobs_inv t" and k: "k \<notin> planned t"
  defines "r \<equiv> t\<lparr>jb_byPath := AList.delete k (jb_byPath t)\<rparr>"
  shows "jobs_inv r \<and> known r = (known t)(k := None) \<and> planned r = planned t"
proof -
  have "due_at r x = due_at t x" if "x \<noteq> k" for x using that by (simp add: r_def known_due del_fields)
  then have "map (\<lambda>x. (x, due_at r x)) (jb_queue t) = map (\<lambda>x. (x, due_at t x)) (jb_queue t)"
    using k by (intro map_cong refl) fastforce
  then have "queue_view r = queue_view t" by (simp add: queue_view_def r_def)
  moreover have "pos_ok r" using inv k by (auto simp: r_def pos_ok_def jobs_inv_def del_fields in_set_conv_nth split: if_splits)
  moreover have "wf_map (jb_byPath r)" using inv by (auto simp: r_def jobs_inv_def)
  ultimately show ?thesis using inv by (auto simp: jobs_inv_def r_def del_fields)
qed

lemma jobs_del_ok:
  assumes inv: "jobs_inv t"
  shows "jobs_inv (jobs_del k t) \<and> known (jobs_del k t) = (known t)(k := None) \<and> planned (jobs_del k t) = planned t - {k}"
proof (cases "jobs_get k t")
  case None
  then have "known t k = None" using jobs_get_known [of k t] by simp
  moreover from this have "k \<notin> planned t" using pos_ok_known [of t k] inv by (auto simp: jobs_inv_def)
  ultimately show ?thesis using inv None by (auto simp: jobs_del_def)
next
  case (Some j)
  have ok: "pos_ok t" and h: "heap snd (queue_view t) (length (jb_queue t))" using inv by (simp_all add: jobs_inv_def)
  have ix: "index_of t k = Some (j_index j)" using jobs_get_index [of k t] Some by simp
  show ?thesis
  proof (cases "j_index j \<ge> 0")
    case True
    let ?i = "nat (j_index j)"
    have i: "?i < length (jb_queue t)" "jb_queue t ! ?i = k" using pos_ok_index [OF ok, of k ?i] ix True by simp_all
    note R = Remove_ok [OF ok h i(1)]
    then have "jobs_inv (heap_Remove ?i t)" using same_inv [of t "heap_Remove ?i t"] inv by (auto simp: jobs_inv_def)
    then show ?thesis
      using forget_ok [of "heap_Remove ?i t" k] R i Some True by (simp add: jobs_del_def same_jobs_def Let_def)
  next
    case False
    have "k \<notin> planned t" using ok ix False by (auto simp: pos_ok_def in_set_conv_nth)
    then show ?thesis using forget_ok [OF inv] Some False by (simp add: jobs_del_def)
  qed
qed

lemma popDue_ok:
  assumes "jobs_inv t"
  shows "jobs_inv (snd (popDue now t)) \<and> known (snd (popDue now t)) = known t
    \<and> set (fst (popDue now t)) = {k \<in> planned t. due_at t k \<le> now} \<and> planned (snd (popDue now t)) = {k \<in> planned t. now < due_at t k}
    \<and> distinct (fst (popDue now t)) \<and> sorted (map (due_at t) (fst (popDue now t)))"
  using assms
proof (induction now t rule: popDue.induct)
  case (1 now t)
  have h: "heap snd (queue_view t) (length (jb_queue t))" and ok: "pos_ok t" using "1.prems" by (simp_all add: jobs_inv_def)
  have least: "due_at t (hd (jb_queue t)) \<le> due_at t k" if k: "k \<in> planned t" for k
  proof -
    obtain i where i: "i < length (jb_queue t)" "jb_queue t ! i = k" using k by (meson in_set_conv_nth)
    then have "jb_queue t \<noteq> []" by auto
    with i show ?thesis using heap_least [OF h i(1)] view_nth [of 0 t] by (auto simp: view_nth hd_conv_nth)
  qed
  show ?case
  proof (cases "jb_queue t = [] \<or> due_at t (hd (jb_queue t)) > now")
    case True
    then have "popDue now t = ([], t)"
      by (subst popDue.simps) (cases "jb_queue t"; simp add: jobs_first_def)
    then show ?thesis using "1.prems" True least by force
  next
    case False
    obtain k r where p: "heap_Pop t = (k, r)" using prod.exhaust by blast
    have first: "jobs_first t = Some (hd (jb_queue t))" using False by (cases "jb_queue t") (simp_all add: jobs_first_def)
    have P: "k = hd (jb_queue t)" "pos_ok r" "same_jobs t r" "heap snd (queue_view r) (length (jb_queue r))" "planned r = planned t - {k}"
      using heap_Pop_ok [OF ok h _ p] False by simp_all
    have eq: "popDue now t = (k # fst (popDue now r), snd (popDue now r))"
      using False first p by (subst popDue.simps) (simp add: case_prod_beta)
    have r: "jobs_inv r" using same_inv [OF P(3)] P "1.prems" by (simp add: jobs_inv_def)
    note IH = "1.IH" [OF first _ p [symmetric] refl r]
    have due: "due_at r = due_at t" "known r = known t" using same_due [OF P(3)] P(3) by (simp_all add: same_jobs_def)
    have "k \<in> planned t" "due_at t k \<le> now" using P(1) False by auto
    then show ?thesis unfolding eq using IH False P(1,5) due least by auto
  qed
qed

end
