(* ===== verification/Sched_Trigger.thy ===== *)
theory Sched_Trigger
  imports Sched_Jobs Status
begin

text \<open>
  The events an entry runs on and the pace of the runs they ask for (\<open>core/schedule/on.go\<close>,
  \<open>daemon/scheduler/trigger.go\<close>): the filters, the pace, and the trigger, which runs the entry at the
  first event, then once at most each interval. The converter of the durations is a parameter.
\<close>

section \<open>Words\<close>

text \<open>\<open>strings.Fields\<close>: the words between the encodings of the white space.\<close>

fun next_word :: "string \<Rightarrow> string \<times> string" where
  "next_word [] = ([], [])"
| "next_word (c # s) =
    (if list_ex (\<lambda>w. has_prefix (c # s) w) white_space then ([], c # s)
     else (case next_word s of (a, b) \<Rightarrow> (c # a, b)))"

lemma next_word_length: "length (snd (next_word s)) \<le> length s"
  by (induction s) (auto split: prod.split)

lemma trim_left_length: "length (trim_left ws s) \<le> length s"
  by (induction ws s rule: trim_left.induct) (fastforce split: list.split)+

lemma next_word_trimmed: "trim_left white_space s = c # r \<Longrightarrow> length (snd (next_word (c # r))) < length (c # r)"
proof -
  assume t: "trim_left white_space s = c # r"
  have "filter (\<lambda>w. w \<noteq> [] \<and> has_prefix (c # r) w) white_space = []"
    using t by (induction white_space s rule: trim_left.induct) (auto split: list.splits)
  then have "\<not> list_ex (\<lambda>w. has_prefix (c # r) w) white_space"
    by (auto simp: list_ex_iff filter_empty_conv white_space_def has_prefix_def)
  then show ?thesis using next_word_length [of r] by (auto split: prod.split)
qed

lemma Fields_decr: "trim_left white_space s = c # r \<Longrightarrow> (w, rest) = next_word (c # r) \<Longrightarrow> length rest < length s"
  using next_word_trimmed [of s c r] trim_left_length [of white_space s] by (metis le_trans linorder_not_le snd_conv)

function Fields :: "string \<Rightarrow> string list" where
  "Fields s =
    (case trim_left white_space s of
       [] \<Rightarrow> []
     | c # r \<Rightarrow> (case next_word (c # r) of (w, rest) \<Rightarrow> w # Fields rest))"
  by pat_completeness auto

termination
  by (relation "measure length") (simp, simp only: in_measure, metis Fields_decr)

section \<open>Events\<close>

record on_filter =
  of_Kind :: string
  of_Fields :: "(string, string) gomap"

definition OnKinds :: "string list" where
  "OnKinds = [''FileInstalled'', ''NetworkPeersUpdated'']"

fun parse_on_fields :: "string list \<Rightarrow> (string, string) gomap \<Rightarrow> (string, string) gomap option" where
  "parse_on_fields [] m = Some m"
| "parse_on_fields (e # l) m =
    (case Cut (CHR ''='') e of
       None \<Rightarrow> None
     | Some (k, v) \<Rightarrow> if k = [] then None else parse_on_fields l (AList.update k v m))"

definition ParseOn :: "string \<Rightarrow> on_filter option" where
  "ParseOn s =
    (let l = Split (CHR '','') s
     in if hd l \<notin> set OnKinds then None
        else map_option (\<lambda>m. \<lparr>of_Kind = hd l, of_Fields = m\<rparr>) (parse_on_fields (tl l) []))"

definition event_fields :: "string list \<Rightarrow> (string, string) gomap" where
  "event_fields l = fold (\<lambda>e m. case Cut (CHR ''='') e of None \<Rightarrow> m | Some (k, v) \<Rightarrow> AList.update k v m) l []"

definition OnFilter_Match :: "on_filter \<Rightarrow> string \<Rightarrow> bool" where
  "OnFilter_Match t key =
    (let l = Split (CHR '','') key
     in if hd l \<noteq> of_Kind t then False
        else list_all (\<lambda>(k, v). lkp [] (event_fields (tl l)) k = v) (of_Fields t))"

definition matchOn :: "entry \<Rightarrow> string \<Rightarrow> bool" where
  "matchOn e key = list_ex (\<lambda>s. case ParseOn s of None \<Rightarrow> False | Some f \<Rightarrow> OnFilter_Match f key) (sc_On (en_Config e))"

section \<open>Paces\<close>

record on_pace =
  op_Interval :: duration
  op_Max :: duration

definition DefaultPace :: string where "DefaultPace = ''@10s''"

definition parse_pace_word :: "(string \<Rightarrow> duration option) \<Rightarrow> string \<Rightarrow> duration option" where
  "parse_pace_word conv w =
    (case w of
       [] \<Rightarrow> None
     | c # v \<Rightarrow>
         if c \<noteq> CHR ''@'' then None
         else (case conv (if Atoi v \<noteq> None then v @ ''m'' else v) of
                 None \<Rightarrow> None
               | Some d \<Rightarrow> if d \<le> 0 then None else Some d))"

definition ParsePace :: "(string \<Rightarrow> duration option) \<Rightarrow> string \<Rightarrow> on_pace option" where
  "ParsePace conv s =
    (case Fields (if s = [] then DefaultPace else s) of
       [w] \<Rightarrow> map_option (\<lambda>i. \<lparr>op_Interval = i, op_Max = i\<rparr>) (parse_pace_word conv w)
     | [w, b, x] \<Rightarrow>
         if b \<noteq> ''backoff'' then None
         else (case parse_pace_word conv w of
                 None \<Rightarrow> None
               | Some i \<Rightarrow> (case parse_pace_word conv x of
                              None \<Rightarrow> None
                            | Some m \<Rightarrow> if m < i then None else Some \<lparr>op_Interval = i, op_Max = m\<rparr>))
     | _ \<Rightarrow> None)"

section \<open>Triggers\<close>

record trigger =
  g_spec :: string
  g_pace :: on_pace
  g_interval :: duration
  g_on :: "string list"
  g_lastRunAt :: "time"
  g_dueAt :: "time"

definition newTrigger :: "(string \<Rightarrow> duration option) \<Rightarrow> string \<Rightarrow> string list \<Rightarrow> trigger option" where
  "newTrigger conv spec on =
    map_option (\<lambda>pace. \<lparr>g_spec = spec, g_pace = pace, g_interval = op_Interval pace, g_on = on, g_lastRunAt = 0, g_dueAt = 0\<rparr>) (ParsePace conv spec)"

definition trigger_isFor :: "entry \<Rightarrow> trigger \<Rightarrow> bool" where
  "trigger_isFor e g = (g_spec g = sc_Pace (en_Config e) \<and> g_on g = sc_On (en_Config e))"

text \<open>
  The intervals passed without an event ease the backoff. An interval is positive, as the pace: the
  first test says so for the recursion.
\<close>

function ease :: "duration \<Rightarrow> duration \<Rightarrow> duration \<Rightarrow> duration" where
  "ease pace quiet interval =
    (if 0 < interval \<and> interval > pace \<and> quiet \<ge> interval then ease pace (quiet - interval) (max (interval div 2) pace) else interval)"
  by pat_completeness auto

termination
  by (relation "measure (\<lambda>(pace, quiet, interval). nat quiet)") auto

declare ease.simps [simp del]

definition trigger_onEvent :: "time \<Rightarrow> trigger \<Rightarrow> bool \<times> trigger" where
  "trigger_onEvent now g =
    (if g_dueAt g \<noteq> 0 then (False, g)
     else if g_lastRunAt g = 0 then (True, g)
     else
       (let next = g_lastRunAt g + g_interval g
        in if now < next then (False, g\<lparr>g_dueAt := next\<rparr>)
           else (True, g\<lparr>g_interval := ease (op_Interval (g_pace g)) (now - next) (g_interval g)\<rparr>)))"

definition trigger_ran :: "time \<Rightarrow> bool \<Rightarrow> trigger \<Rightarrow> trigger" where
  "trigger_ran now late g =
    (let g = g\<lparr>g_lastRunAt := now, g_dueAt := 0\<rparr>
     in if late then g\<lparr>g_interval := min (g_interval g * 2) (op_Max (g_pace g))\<rparr> else g)"

section \<open>The pace is kept\<close>

definition pace_ok :: "on_pace \<Rightarrow> bool" where
  "pace_ok p = (0 < op_Interval p \<and> op_Interval p \<le> op_Max p)"

definition trigger_ok :: "trigger \<Rightarrow> bool" where
  "trigger_ok g =
    (pace_ok (g_pace g) \<and> op_Interval (g_pace g) \<le> g_interval g \<and> g_interval g \<le> op_Max (g_pace g)
     \<and> (g_dueAt g \<noteq> 0 \<and> g_lastRunAt g \<noteq> 0 \<longrightarrow> g_lastRunAt g + op_Interval (g_pace g) \<le> g_dueAt g))"

lemma ParsePace_ok: "ParsePace conv s = Some p \<Longrightarrow> pace_ok p"
  by (auto simp: ParsePace_def parse_pace_word_def pace_ok_def split: list.splits option.splits if_splits)

lemma newTrigger_ok: "newTrigger conv spec on = Some g \<Longrightarrow> trigger_ok g"
  using ParsePace_ok by (auto simp: newTrigger_def trigger_ok_def pace_ok_def)

lemma ease_bounds: "pace \<le> interval \<Longrightarrow> pace \<le> ease pace quiet interval \<and> ease pace quiet interval \<le> interval"
proof (induction pace quiet interval rule: ease.induct)
  case (1 pace quiet interval)
  then show ?case by (subst (1 2) ease.simps) (auto simp: max_def split: if_splits)
qed

lemma onEvent_ok: "trigger_ok g \<Longrightarrow> trigger_ok (snd (trigger_onEvent now g))"
  using ease_bounds [of "op_Interval (g_pace g)" "g_interval g" "now - (g_lastRunAt g + g_interval g)"]
  by (auto simp: trigger_onEvent_def trigger_ok_def Let_def)

lemma ran_ok: "trigger_ok g \<Longrightarrow> trigger_ok (trigger_ran now late g)"
  by (auto simp: trigger_ran_def trigger_ok_def pace_ok_def Let_def)

text \<open>An event that runs the entry at once comes an interval after its last run.\<close>

lemma onEvent_due: "trigger_ok g \<Longrightarrow> fst (trigger_onEvent now g) \<Longrightarrow> g_lastRunAt g \<noteq> 0 \<Longrightarrow> g_lastRunAt g + op_Interval (g_pace g) \<le> now"
  by (auto simp: trigger_onEvent_def trigger_ok_def Let_def split: if_splits)

end
