(* ===== verification/Scheduler.thy ===== *)
theory Scheduler
  imports Sched_Queue Sched_Trigger Instance
begin

text \<open>
  The scheduler of the daemon, \<open>daemon/scheduler/main.go\<close> and \<open>trigger.go\<close>: it plans the jobs of the
  node and of the objects, takes the ones due, and runs the ones whose requirements are met, within
  the parallelism of the node. Its handlers, in the order of the source, over the environment: the
  clock, the next date of a schedule, the caches of the daemon, the counts of the runs in progress.

  A run is an entry of the trace, made with the number of jobs running before it and the most the node
  runs; its end comes back as an event. The files of the last runs are in the state. The table of the
  schedules exposed to the listings is the entry \<open>SExposed\<close> of the trace.
\<close>

section \<open>Replication source\<close>

record ref_status =
  rf_RID :: string
  rf_Status :: status
  rf_Optional :: bool

definition IsReferenceResource :: "string \<Rightarrow> string \<Rightarrow> bool" where
  "IsReferenceResource grp name =
    (if grp \<in> {''ip'', ''volume'', ''fs'', ''share'', ''container''} then True
     else if grp = ''disk'' then name \<noteq> ''drbd'' \<and> name \<noteq> ''scsireserv''
     else False)"

definition IsReplicationSource :: "ref_status list \<Rightarrow> bool \<Rightarrow> bool \<times> string \<times> bool" where
  "IsReplicationSource refs force =
    (let avail = foldl (\<lambda>s r. if rf_Optional r then s else status_Add s (rf_Status r)) StUndef refs;
         overall = foldl (\<lambda>s r. status_Add s (rf_Status r)) StUndef refs;
         notUp = map (\<lambda>r. rf_RID r @ '':'' @ status_String (rf_Status r)) (filter (\<lambda>r. rf_Status r \<noteq> StUp) refs);
         avail = (if avail = StStandbyUpWithUp then StUp else avail);
         overall = (if overall = StStandbyUpWithUp then StUp else overall);
         reason = ''reference resources '' @ status_String avail @ ''/'' @ status_String overall @ '': '' @ Join '','' notUp
     in if avail = StUp then (True, [], False)
        else if status_Is avail [StUndef, StNotApplicable] \<and> overall = StUp then (True, [], False)
        else if overall = StUndef then (False, ''no ip, volume, fs, share, disk or container resource tells the active instance'', False)
        else if force \<and> \<not> status_Is avail [StDown, StNotApplicable, StUndef] \<and> \<not> status_Is overall [StDown, StNotApplicable, StUndef]
        then (True, reason, True)
        else (False, reason, False))"

definition ReplicationSource :: "instance_status \<Rightarrow> bool \<times> string" where
  "ReplicationSource t =
    (let refs = List.map_filter (\<lambda>(rid, r).
           if rs_IsDisabled r then None
           else if resourceid_Parse rid = None then None
           else
             (let name = (case Cut (CHR ''.'') (rs_Type r) of None \<Rightarrow> [] | Some (_, n) \<Rightarrow> n)
              in if IsReferenceResource (resourceid_group_name rid) name
                 then Some \<lparr>rf_RID = rid, rf_Status = rs_Status r, rf_Optional = rs_IsOptional r\<rparr> else None)) (st_Resources t)
     in case IsReplicationSource (sort_key rf_RID refs) False of (ok, reason, _) \<Rightarrow> (ok, reason))"

section \<open>State\<close>

datatype req_error = ReqNotFound string | ReqStatus string status

datatype block_reason =
    CollectorNotJoinable
  | SourceNotEvaluated
  | NotSource string
  | ProvisionedUnknown
  | NotProvisioned
  | RequireNotEvaluated
  | RequireUnsatisfied req_error

datatype sched_effect =
    SRun entry "time" nat int
  | SExposed path

record sched =
  s_localhost :: string
  s_jobs :: jobs
  s_enabled :: bool
  s_provisioned :: "(path, bool) gomap"
  s_failover :: "(path, bool) gomap"
  s_notSource :: "(path, string) gomap"
  s_localStatus :: "(path, instance_status) gomap"
  s_schedules :: "(path, (string, entry) gomap) gomap"
  s_isCollectorJoinable :: bool
  s_active :: nat
  s_maxRunning :: int
  s_lastRunOnAllPeers :: "(job_id, time) gomap"
  s_reqSatisfied :: "(job_id, req_error option) gomap"
  s_triggers :: "(job_id, trigger) gomap"
  s_lastRunFile :: "(job_id, time) gomap"
  s_lastRunOnFile :: "(job_id, string \<times> time) gomap"
  s_trace :: "sched_effect list"

record sched_env =
  se_now :: "time"
  se_next :: "string \<Rightarrow> time \<Rightarrow> time \<Rightarrow> time option"
  se_conv :: "string \<Rightarrow> duration option"
  se_requirements :: "string \<Rightarrow> (string, status list) gomap"
  se_monitor :: "path \<Rightarrow> monitor option"
  se_nodeDrained :: bool
  se_runningCount :: "entry \<Rightarrow> int option"
  se_touchErr :: bool
  se_varDir :: "path \<Rightarrow> bool"
  se_config :: "path \<Rightarrow> sched_config list option"
  se_nodeConfig :: "sched_config list option"
  se_statusPaths :: "path list"

definition new_sched :: "string \<Rightarrow> sched" where
  "new_sched localhost =
    \<lparr>s_localhost = localhost, s_jobs = newJobs, s_enabled = False, s_provisioned = [], s_failover = [], s_notSource = [],
     s_localStatus = [], s_schedules = [], s_isCollectorJoinable = False, s_active = 0, s_maxRunning = 5,
     s_lastRunOnAllPeers = [], s_reqSatisfied = [], s_triggers = [], s_lastRunFile = [], s_lastRunOnFile = [], s_trace = []\<rparr>"

definition lateTolerance :: duration where "lateTolerance = 10 * second"
definition holdRetryDelay :: duration where "holdRetryDelay = second"
definition maxSleep :: duration where "maxSleep = minute"

definition s_emit :: "sched_effect \<Rightarrow> sched \<Rightarrow> sched" where
  "s_emit x t = t\<lparr>s_trace := s_trace t @ [x]\<rparr>"

definition map_jobs :: "(jobs \<Rightarrow> jobs) \<Rightarrow> sched \<Rightarrow> sched" where
  "map_jobs f t = t\<lparr>s_jobs := f (s_jobs t)\<rparr>"

definition Schedules_Add :: "path \<Rightarrow> entry \<Rightarrow> sched \<Rightarrow> sched" where
  "Schedules_Add p e t =
    t\<lparr>s_schedules := AList.update p (AList.update (sc_Key (en_Config e)) e (lkp [] (s_schedules t) p)) (s_schedules t)\<rparr>"

definition Schedules_Del :: "path \<Rightarrow> string \<Rightarrow> sched \<Rightarrow> sched" where
  "Schedules_Del p key t =
    (case map_of (s_schedules t) p of None \<Rightarrow> t | Some m \<Rightarrow> t\<lparr>s_schedules := AList.update p (AList.delete key m) (s_schedules t)\<rparr>)"

definition Schedules_DelPath :: "path \<Rightarrow> sched \<Rightarrow> sched" where
  "Schedules_DelPath p t = t\<lparr>s_schedules := AList.delete p (s_schedules t)\<rparr>"

definition Schedules_Get :: "job_id \<Rightarrow> sched \<Rightarrow> entry option" where
  "Schedules_Get k t = (case map_of (s_schedules t) (fst k) of None \<Rightarrow> None | Some m \<Rightarrow> map_of m (snd k))"

definition UnsetPath :: "path \<Rightarrow> (job_id, 'v) gomap \<Rightarrow> (job_id, 'v) gomap" where
  "UnsetPath p m = filter (\<lambda>(k, _). fst k \<noteq> p) m"

section \<open>Planning\<close>

definition last_file_id :: "entry \<Rightarrow> job_id" where
  "last_file_id e = (en_Path e, sc_StatefileKey (en_Config e))"

definition GetLastRun :: "entry \<Rightarrow> sched \<Rightarrow> time" where
  "GetLastRun e t = lkp 0 (s_lastRunFile t) (last_file_id e)"

definition SetLastRun :: "sched_env \<Rightarrow> entry \<Rightarrow> time \<Rightarrow> sched \<Rightarrow> sched" where
  "SetLastRun v e tm t = (if se_touchErr v then t else t\<lparr>s_lastRunFile := AList.update (last_file_id e) tm (s_lastRunFile t)\<rparr>)"

definition sched_contains :: "string \<Rightarrow> string \<Rightarrow> bool" where
  "sched_contains s sub = list_ex (\<lambda>i. take (length sub) (drop i s) = sub) [0..<Suc (length s)]"

definition isFailover :: "path \<Rightarrow> sched \<Rightarrow> bool" where
  "isFailover p t = lkp False (s_failover t) p"

definition peerInstanceLastRun :: "entry \<Rightarrow> sched \<Rightarrow> time" where
  "peerInstanceLastRun e t =
    (if path_IsZero (en_Path e) then 0
     else if \<not> isFailover (en_Path e) t then 0
     else if sc_Require (en_Config e) = [] then 0
     else if sched_contains (sc_Require (en_Config e)) ''down'' then 0
     else if sched_contains (sc_Require (en_Config e)) ''warn'' then 0
     else lkp 0 (s_lastRunOnAllPeers t) (entry_id e))"

definition planJob :: "sched_env \<Rightarrow> entry \<Rightarrow> sched \<Rightarrow> sched" where
  "planJob v e t =
    (let now = se_now v;
         e = (if en_LastRunAt e = 0 then e\<lparr>en_LastRunAt := GetLastRun e t\<rparr> else e);
         tm = peerInstanceLastRun e t;
         e = (if en_LastRunAt e < tm then e\<lparr>en_LastRunAt := tm\<rparr> else e)
     in case se_next v (sc_Schedule (en_Config e)) (en_LastRunAt e) now of
          None \<Rightarrow> map_jobs (jobs_del (entry_id e)) t
        | Some next \<Rightarrow>
            if next = 0 then map_jobs (jobs_del (entry_id e)) t
            else
              (let next = (if en_LastRunAt e \<noteq> 0 \<and> \<not> next > en_LastRunAt e then en_LastRunAt e + second else next);
                   next = (if next < now then now else next)
               in map_jobs (jobs_set (e\<lparr>en_NextRunAt := next\<rparr>) now) t))"

definition updateExposedSchedules :: "path \<Rightarrow> sched \<Rightarrow> sched" where
  "updateExposedSchedules p t = (if lkp [] (s_schedules t) p = [] then t else s_emit (SExposed p) t)"

section \<open>Reasons not to run\<close>

definition fullReason :: "sched \<Rightarrow> bool" where
  "fullReason t = (int (s_active t) \<ge> s_maxRunning t)"

definition blockReason :: "entry \<Rightarrow> sched \<Rightarrow> block_reason option" where
  "blockReason e t =
    (let p = en_Path e; c = en_Config e
     in if sc_RequireCollector c \<and> \<not> s_isCollectorJoinable t then Some CollectorNotJoinable
        else if path_IsZero p then None
        else if sc_RequireReplicationSource c \<and> map_of (s_notSource t) p = None then Some SourceNotEvaluated
        else if sc_RequireReplicationSource c \<and> lkp [] (s_notSource t) p \<noteq> [] then Some (NotSource (lkp [] (s_notSource t) p))
        else if sc_RequireProvisioned c \<and> map_of (s_provisioned t) p = None then Some ProvisionedUnknown
        else if sc_RequireProvisioned c \<and> \<not> lkp False (s_provisioned t) p then Some NotProvisioned
        else if sc_Require c \<noteq> [] then
          (case map_of (s_reqSatisfied t) (entry_id e) of
             None \<Rightarrow> Some RequireNotEvaluated
           | Some None \<Rightarrow> None
           | Some (Some err) \<Rightarrow> Some (RequireUnsatisfied err))
        else None)"

definition holdReason :: "sched_env \<Rightarrow> entry \<Rightarrow> bool" where
  "holdReason v e =
    (if path_IsZero (en_Path e) \<or> sc_Require (en_Config e) = [] \<and> \<not> sc_RequireProvisioned (en_Config e) then False
     else case se_monitor v (en_Path e) of None \<Rightarrow> False | Some mon \<Rightarrow> IsDoing (mon_State mon))"

definition skipReason :: "sched_env \<Rightarrow> entry \<Rightarrow> sched \<Rightarrow> bool" where
  "skipReason v e t =
    (if blockReason e t \<noteq> None then True
     else if path_IsZero (en_Path e) \<or> \<not> sc_RequireReplicationSource (en_Config e) then False
     else if (case se_monitor v (en_Path e) of
                None \<Rightarrow> False
              | Some mon \<Rightarrow> mon_GlobalExpect mon \<noteq> MonitorGlobalExpectNone \<and> mon_GlobalExpect mon \<noteq> MonitorGlobalExpectInit)
     then True
     else se_nodeDrained v)"

definition runningCount :: "sched_env \<Rightarrow> entry \<Rightarrow> int option" where
  "runningCount v e = (if sc_RunDir (en_Config e) = [] then Some (- 1) else se_runningCount v e)"

section \<open>Running\<close>

definition sched_run :: "sched_env \<Rightarrow> entry \<Rightarrow> time \<Rightarrow> sched \<Rightarrow> sched" where
  "sched_run v e lastRun t =
    (let t = SetLastRun v e lastRun t
     in (s_emit (SRun e lastRun (s_active t) (s_maxRunning t)) t)\<lparr>s_active := Suc (s_active t)\<rparr>)"

definition holdJob :: "sched_env \<Rightarrow> entry \<Rightarrow> entry \<Rightarrow> sched \<Rightarrow> sched" where
  "holdJob v due e t =
    updateExposedSchedules (en_Path e)
      (map_jobs (jobs_set (e\<lparr>en_LastRunAt := en_LastRunAt due, en_NextRunAt := se_now v + holdRetryDelay\<rparr>) (se_now v)) t)"

definition set_lastRunOnAllPeers :: "job_id \<Rightarrow> time \<Rightarrow> sched \<Rightarrow> sched" where
  "set_lastRunOnAllPeers k tm t = t\<lparr>s_lastRunOnAllPeers := AList.update k tm (s_lastRunOnAllPeers t)\<rparr>"

text \<open>The run of a job taken, once planned again.\<close>

definition take_job :: "sched_env \<Rightarrow> entry \<Rightarrow> time \<Rightarrow> sched \<Rightarrow> sched" where
  "take_job v e lastRun t =
    (if skipReason v e t then t
     else case runningCount v e of
            None \<Rightarrow> t
          | Some n \<Rightarrow> if n \<ge> sc_MaxParallel (en_Config e) then t
                      else sched_run v e lastRun (set_lastRunOnAllPeers (entry_id e) lastRun t))"

definition onJobDue :: "sched_env \<Rightarrow> entry \<Rightarrow> sched \<Rightarrow> sched" where
  "onJobDue v due t =
    (case Schedules_Get (entry_id due) t of
       None \<Rightarrow> map_jobs (jobs_del (entry_id due)) t
     | Some e \<Rightarrow>
         if en_LastRunAt due < peerInstanceLastRun e t
         then updateExposedSchedules (en_Path e) (planJob v (e\<lparr>en_LastRunAt := peerInstanceLastRun e t\<rparr>) t)
         else if holdReason v e then holdJob v due e t
         else if fullReason t then holdJob v due e t
         else
           (let lastRun = (if se_now v - en_NextRunAt due > lateTolerance then se_now v else en_NextRunAt due);
                e = e\<lparr>en_LastRunAt := lastRun\<rparr>
            in take_job v e lastRun (updateExposedSchedules (en_Path e) (planJob v e t))))"

section \<open>Triggers\<close>

definition set_trigger :: "job_id \<Rightarrow> trigger \<Rightarrow> sched \<Rightarrow> sched" where
  "set_trigger k g t = t\<lparr>s_triggers := AList.update k g (s_triggers t)\<rparr>"

definition getTrigger :: "sched_env \<Rightarrow> entry \<Rightarrow> sched \<Rightarrow> (trigger \<times> sched) option" where
  "getTrigger v e t =
    (case map_of (s_triggers t) (entry_id e) of
       Some g \<Rightarrow>
         if trigger_isFor e g then Some (g, t)
         else (case newTrigger (se_conv v) (sc_Pace (en_Config e)) (sc_On (en_Config e)) of
                 None \<Rightarrow> None
               | Some g \<Rightarrow> (let g = g\<lparr>g_lastRunAt := max (en_LastRunAt e) (GetLastRun e t)\<rparr> in Some (g, set_trigger (entry_id e) g t)))
     | None \<Rightarrow>
         (case newTrigger (se_conv v) (sc_Pace (en_Config e)) (sc_On (en_Config e)) of
            None \<Rightarrow> None
          | Some g \<Rightarrow> (let g = g\<lparr>g_lastRunAt := max (en_LastRunAt e) (GetLastRun e t)\<rparr> in Some (g, set_trigger (entry_id e) g t))))"

definition recordEventRun :: "sched_env \<Rightarrow> path \<Rightarrow> entry \<Rightarrow> sched \<Rightarrow> sched" where
  "recordEventRun v p e t =
    (let now = se_now v; k = (p, sc_Key (en_Config e));
         t = Schedules_Add p (e\<lparr>en_LastRunAt := now\<rparr>) t;
         t = (case jobs_get k (s_jobs t) of None \<Rightarrow> t | Some j \<Rightarrow> planJob v ((j_entry j)\<lparr>en_LastRunAt := now\<rparr>) t)
     in updateExposedSchedules p (set_lastRunOnAllPeers k now t))"

definition runTrigger :: "sched_env \<Rightarrow> path \<Rightarrow> entry \<Rightarrow> trigger \<Rightarrow> bool \<Rightarrow> sched \<Rightarrow> sched" where
  "runTrigger v p e g late t =
    (let now = se_now v; k = entry_id e
     in if blockReason e t \<noteq> None then set_trigger k (trigger_ran now late g) t
        else if holdReason v e then set_trigger k (g\<lparr>g_dueAt := now + holdRetryDelay\<rparr>) t
        else if fullReason t then set_trigger k (g\<lparr>g_dueAt := now + holdRetryDelay\<rparr>) t
        else case runningCount v e of
               None \<Rightarrow> set_trigger k (trigger_ran now late g) t
             | Some n \<Rightarrow>
                 if n \<ge> sc_MaxParallel (en_Config e) then set_trigger k (g\<lparr>g_dueAt := now + g_interval g\<rparr>) t
                 else sched_run v e now (recordEventRun v p e (set_trigger k (trigger_ran now late g) t)))"

definition event_entry :: "sched_env \<Rightarrow> string \<Rightarrow> path \<Rightarrow> entry \<Rightarrow> sched \<Rightarrow> sched" where
  "event_entry v key p e t =
    (if \<not> matchOn e key then t
     else case getTrigger v e t of
            None \<Rightarrow> t
          | Some (g, t) \<Rightarrow>
              (case trigger_onEvent (se_now v) g of
                 (False, g) \<Rightarrow> set_trigger (entry_id e) g t
               | (True, g) \<Rightarrow> runTrigger v p e g False (set_trigger (entry_id e) g t)))"

definition sched_onEvent :: "sched_env \<Rightarrow> string \<Rightarrow> path \<Rightarrow> sched \<Rightarrow> sched" where
  "sched_onEvent v key only t =
    (if \<not> s_enabled t then t
     else fold (\<lambda>(p, m) t. if \<not> path_IsZero only \<and> p \<noteq> only then t else fold (\<lambda>(_, e). event_entry v key p e) m t) (s_schedules t) t)"

definition trigger_due :: "sched_env \<Rightarrow> job_id \<times> trigger \<Rightarrow> sched \<Rightarrow> sched" where
  "trigger_due v = (\<lambda>(k, g) t.
    if g_dueAt g = 0 \<or> g_dueAt g > se_now v then t
    else case Schedules_Get k t of
           None \<Rightarrow> t\<lparr>s_triggers := AList.delete k (s_triggers t)\<rparr>
         | Some e \<Rightarrow> if sc_On (en_Config e) = [] then t\<lparr>s_triggers := AList.delete k (s_triggers t)\<rparr>
                     else runTrigger v (fst k) e g True t)"

definition onTriggersDue :: "sched_env \<Rightarrow> sched \<Rightarrow> sched" where
  "onTriggersDue v t = fold (trigger_due v) (s_triggers t) t"

definition nextTriggerAt :: "sched \<Rightarrow> time" where
  "nextTriggerAt t =
    foldl (\<lambda>next (_, g). if g_dueAt g = 0 then next else if next = 0 \<or> g_dueAt g < next then g_dueAt g else next) 0 (s_triggers t)"

text \<open>The jobs due, then the triggers. A job taken is out of the queue, its entry still known.\<close>

definition onTick :: "sched_env \<Rightarrow> sched \<Rightarrow> sched" where
  "onTick v t =
    (let (l, jobs) = popDue (se_now v) (s_jobs t); t = t\<lparr>s_jobs := jobs\<rparr>
     in onTriggersDue v (fold (\<lambda>k t. case known (s_jobs t) k of None \<Rightarrow> t | Some due \<Rightarrow> onJobDue v due t) l t))"

text \<open>How long the loop sleeps, \<open>None\<close> when nothing is planned.\<close>

definition nextWake :: "time \<Rightarrow> sched \<Rightarrow> duration option" where
  "nextWake now t =
    (let next = nextTriggerAt t;
         first = map_option (due_at (s_jobs t)) (jobs_first (s_jobs t));
         next = (case first of None \<Rightarrow> (if next = 0 then None else Some next)
                             | Some d \<Rightarrow> if next = 0 \<or> d < next then Some d else Some next)
     in map_option (\<lambda>n. max 0 (min (n - now) maxSleep)) next)"

section \<open>What the scheduler follows from the events\<close>

definition updateNotSource :: "path \<Rightarrow> instance_status \<Rightarrow> sched \<Rightarrow> bool \<times> sched" where
  "updateNotSource p st t =
    (let (isSource, reason) = ReplicationSource st; reason = (if isSource then [] else reason); was = map_of (s_notSource t) p
     in (was = None \<or> (was = Some []) \<noteq> (reason = []), t\<lparr>s_notSource := AList.update p reason (s_notSource t)\<rparr>))"

definition sched_updateProvisioned :: "path \<Rightarrow> provisioned \<Rightarrow> sched \<Rightarrow> bool \<times> sched" where
  "sched_updateProvisioned p state t =
    (let is = provisioned_IsOneOf state [PrTrue, PrNotApplicable]; was = map_of (s_provisioned t) p
     in (was \<noteq> Some is, t\<lparr>s_provisioned := AList.update p is (s_provisioned t)\<rparr>))"

definition updateFailover :: "path \<Rightarrow> topology \<Rightarrow> sched \<Rightarrow> bool \<times> sched" where
  "updateFailover p state t =
    (let is = (state = Failover); was = map_of (s_failover t) p
     in (was \<noteq> Some is, t\<lparr>s_failover := AList.update p is (s_failover t)\<rparr>))"

fun checkRequire :: "(string, status list) gomap \<Rightarrow> instance_status \<Rightarrow> req_error option" where
  "checkRequire [] st = None"
| "checkRequire ((rid, required) # l) st =
    (case map_of (st_Resources st) rid of
       None \<Rightarrow> Some (ReqNotFound rid)
     | Some r \<Rightarrow> if statusL_Has required (rs_Status r) then checkRequire l st else Some (ReqStatus rid (rs_Status r)))"

definition updateReqSatisfied :: "sched_env \<Rightarrow> path \<Rightarrow> entry \<Rightarrow> instance_status \<Rightarrow> sched \<Rightarrow> bool \<times> sched" where
  "updateReqSatisfied v p e st t =
    (let k = (p, sc_Key (en_Config e)); satisfied = checkRequire (se_requirements v (sc_Require (en_Config e))) st; was = map_of (s_reqSatisfied t) k
     in (case was of None \<Rightarrow> True | Some w \<Rightarrow> (w = None) \<noteq> (satisfied = None),
         t\<lparr>s_reqSatisfied := AList.update k satisfied (s_reqSatisfied t)\<rparr>))"

definition onLocalInstanceStatusUpdated :: "sched_env \<Rightarrow> path \<Rightarrow> instance_status \<Rightarrow> sched \<Rightarrow> bool \<times> sched" where
  "onLocalInstanceStatusUpdated v p st t =
    (let t = t\<lparr>s_localStatus := AList.update p st (s_localStatus t)\<rparr>;
         (changed, t) = updateNotSource p st t;
         (changed, t) =
           (if st_Provisioned st = PrUndef
            then (changed \<or> has_key (s_provisioned t) p, t\<lparr>s_provisioned := AList.delete p (s_provisioned t)\<rparr>)
            else (case sched_updateProvisioned p (st_Provisioned st) t of (c, t) \<Rightarrow> (changed \<or> c, t)))
     in case map_of (s_schedules t) p of
          None \<Rightarrow> (changed, t)
        | Some schedules \<Rightarrow>
            fold (\<lambda>(_, e) (changed, t).
              if sc_Require (en_Config e) = [] then (changed, t)
              else (case updateReqSatisfied v p e st t of (c, t) \<Rightarrow> (changed \<or> c, t))) schedules
              (changed, set_lastRunOnAllPeers (p, ''status_schedule'') (st_UpdatedAt st) t))"

definition ridScheduleKey :: "string \<Rightarrow> string" where
  "ridScheduleKey rid = rid @ ''.schedule''"

text \<open>The file that keeps the last run of a resource, on any node: not created when the object is gone.\<close>

definition updateLastRunOnFile :: "sched_env \<Rightarrow> path \<Rightarrow> string \<Rightarrow> string \<Rightarrow> time \<Rightarrow> sched \<Rightarrow> sched" where
  "updateLastRunOnFile v p rid nodename tm t =
    (case map_of (s_lastRunOnFile t) (p, rid) of
       None \<Rightarrow> if \<not> se_varDir v p then t else t\<lparr>s_lastRunOnFile := AList.update (p, rid) (nodename, tm) (s_lastRunOnFile t)\<rparr>
     | Some (_, lastTm) \<Rightarrow>
         if lastTm \<noteq> 0 \<and> lastTm > tm then t
         else t\<lparr>s_lastRunOnFile := AList.update (p, rid) (nodename, tm) (s_lastRunOnFile t)\<rparr>)"

text \<open>\<open>lastRuns\<close> are the times of the last runs the status of the peer holds, by resource.\<close>

definition peer_resource :: "sched_env \<Rightarrow> path \<Rightarrow> string \<Rightarrow> (string, time) gomap \<Rightarrow> string \<Rightarrow> sched \<Rightarrow> sched" where
  "peer_resource v p node lastRuns rid t =
    (if resourceid_Parse rid = None \<or> driver_group_of rid = GroupOther then t
     else
       (let k = (p, ridScheduleKey rid);
            t = (if has_key (s_lastRunOnAllPeers t) k then t
                 else case map_of (s_lastRunOnFile t) (p, rid) of None \<Rightarrow> t | Some (_, tm) \<Rightarrow> set_lastRunOnAllPeers k tm t)
        in case map_of lastRuns rid of
             None \<Rightarrow> t
           | Some tm \<Rightarrow>
               (let t = updateLastRunOnFile v p rid node tm t
                in case map_of (s_lastRunOnAllPeers t) k of
                     None \<Rightarrow> set_lastRunOnAllPeers k tm t
                   | Some latest \<Rightarrow> if tm > latest then set_lastRunOnAllPeers k tm t else t)))"

definition onPeerInstanceStatusUpdated :: "sched_env \<Rightarrow> path \<Rightarrow> string \<Rightarrow> instance_status \<Rightarrow> (string, time) gomap \<Rightarrow> sched \<Rightarrow> sched" where
  "onPeerInstanceStatusUpdated v p node st lastRuns t =
    (if \<not> has_key (s_schedules t) p then t
     else fold (\<lambda>(rid, _). peer_resource v p node lastRuns rid) (st_Resources st) t)"

section \<open>Planning the schedules\<close>

text \<open>The requirements not evaluated yet are evaluated from the last status of the instance.\<close>

definition evaluate_requirements :: "sched_env \<Rightarrow> path \<Rightarrow> entry \<Rightarrow> sched \<Rightarrow> sched" where
  "evaluate_requirements v p e t =
    (case map_of (s_localStatus t) p of
       None \<Rightarrow> t
     | Some st \<Rightarrow>
         if path_IsZero p then t
         else
           (let t = (if \<not> has_key (s_notSource t) p \<and> sc_RequireReplicationSource (en_Config e) then snd (updateNotSource p st t) else t)
            in if \<not> has_key (s_reqSatisfied t) (p, sc_Key (en_Config e)) \<and> sc_Require (en_Config e) \<noteq> []
               then snd (updateReqSatisfied v p e st t) else t))"

definition plan_entry :: "sched_env \<Rightarrow> path \<Rightarrow> entry option \<Rightarrow> job option \<Rightarrow> entry \<Rightarrow> sched \<Rightarrow> sched" where
  "plan_entry v p prev j e t =
    (let unschedule = (if j \<noteq> None then map_jobs (jobs_del (p, sc_Key (en_Config e))) t else t)
     in if sc_Schedule (en_Config e) = [] \<or> sc_Schedule (en_Config e) = ''@0'' then unschedule
        else if blockReason e t \<noteq> None then unschedule
        else case j of
               None \<Rightarrow> planJob v e t
             | Some j \<Rightarrow>
                 (case prev of
                    None \<Rightarrow> t
                  | Some prev \<Rightarrow>
                      if sc_Schedule (en_Config prev) \<noteq> sc_Schedule (en_Config e)
                      then planJob v (e\<lparr>en_LastRunAt := en_LastRunAt (j_entry j)\<rparr>) t else t))"

definition schedule_config :: "sched_env \<Rightarrow> path \<Rightarrow> sched_config \<Rightarrow> sched \<Rightarrow> sched" where
  "schedule_config v p c t =
    (let k = (p, sc_Key c);
         e = \<lparr>en_Config = c, en_LastRunAt = 0, en_NextRunAt = 0, en_Node = s_localhost t, en_Path = p\<rparr>;
         prev = Schedules_Get k t;
         e = (case prev of
                Some pe \<Rightarrow> e\<lparr>en_LastRunAt := en_LastRunAt pe\<rparr>
              | None \<Rightarrow> if sc_On c \<noteq> [] then e\<lparr>en_LastRunAt := GetLastRun e t\<rparr> else e);
         t = Schedules_Add p e t
     in plan_entry v p prev (jobs_get k (s_jobs t)) e (evaluate_requirements v p e t))"

definition drop_unseen :: "path \<Rightarrow> string list \<Rightarrow> sched \<Rightarrow> sched" where
  "drop_unseen p seen t =
    (let t = map_jobs (\<lambda>jobs. fold (\<lambda>key. jobs_del (p, key)) (filter (\<lambda>key. key \<notin> set seen) (jobs_keys p jobs)) jobs) t;
         t = fold (\<lambda>(key, _). if key \<in> set seen then id else Schedules_Del p key) (lkp [] (s_schedules t) p) t
     in t\<lparr>s_triggers := filter (\<lambda>(k, g). fst k = p \<longrightarrow>
             (case Schedules_Get k t of None \<Rightarrow> False | Some e \<Rightarrow> sc_On (en_Config e) \<noteq> [] \<and> trigger_isFor e g)) (s_triggers t)\<rparr>)"

definition scheduleEntries :: "sched_env \<Rightarrow> path \<Rightarrow> sched_config list \<Rightarrow> sched \<Rightarrow> sched" where
  "scheduleEntries v p configs t =
    updateExposedSchedules p (drop_unseen p (map sc_Key configs) (fold (schedule_config v p) configs t))"

definition scheduleNode :: "sched_env \<Rightarrow> sched \<Rightarrow> sched" where
  "scheduleNode v t =
    (if \<not> s_enabled t then t
     else case se_nodeConfig v of None \<Rightarrow> t | Some configs \<Rightarrow> scheduleEntries v path_zero configs t)"

definition scheduleObject :: "sched_env \<Rightarrow> path \<Rightarrow> sched \<Rightarrow> sched" where
  "scheduleObject v p t =
    (if \<not> s_enabled t then t
     else case se_config v p of None \<Rightarrow> t | Some configs \<Rightarrow> scheduleEntries v p configs t)"

definition scheduleAll :: "sched_env \<Rightarrow> sched \<Rightarrow> sched" where
  "scheduleAll v t = scheduleNode v (fold (scheduleObject v) (se_statusPaths v) t)"

definition unschedule :: "path \<Rightarrow> sched \<Rightarrow> sched" where
  "unschedule p t =
    map_jobs (jobs_delPath p)
      (Schedules_DelPath p
        (t\<lparr>s_reqSatisfied := UnsetPath p (s_reqSatisfied t), s_notSource := AList.delete p (s_notSource t),
           s_localStatus := AList.delete p (s_localStatus t), s_triggers := UnsetPath p (s_triggers t)\<rparr>))"

section \<open>Handlers\<close>

definition isNodeStateCompatible :: "node_state \<Rightarrow> bool" where
  "isNodeStateCompatible s =
    (s \<notin> {NodeStateInit, NodeStateMaintenance, NodeStateRejoin, NodeStateShutdownProgress, NodeStateUpgrade})"

definition toggleEnabled :: "sched_env \<Rightarrow> node_state \<Rightarrow> sched \<Rightarrow> sched" where
  "toggleEnabled v state t =
    (if \<not> isNodeStateCompatible state \<and> s_enabled t then (map_jobs jobs_purge t)\<lparr>s_triggers := [], s_enabled := False\<rparr>
     else if isNodeStateCompatible state \<and> \<not> s_enabled t then scheduleAll v (t\<lparr>s_enabled := True\<rparr>)
     else t)"

definition onDaemonCollectorUpdated :: "sched_env \<Rightarrow> string \<Rightarrow> sched \<Rightarrow> sched" where
  "onDaemonCollectorUpdated v state t =
    (let joinable = (state \<in> {''speaker'', ''speaker-candidate''}); was = s_isCollectorJoinable t; t = t\<lparr>s_isCollectorJoinable := joinable\<rparr>
     in if joinable \<noteq> was then scheduleAll v t else t)"

definition sched_onObjectStatusDeleted :: "path \<Rightarrow> sched \<Rightarrow> sched" where
  "sched_onObjectStatusDeleted p t =
    t\<lparr>s_lastRunOnAllPeers := UnsetPath p (s_lastRunOnAllPeers t), s_reqSatisfied := UnsetPath p (s_reqSatisfied t),
      s_provisioned := AList.delete p (s_provisioned t), s_failover := AList.delete p (s_failover t),
      s_notSource := AList.delete p (s_notSource t), s_localStatus := AList.delete p (s_localStatus t)\<rparr>"

text \<open>The message an object status was updated for.\<close>

datatype src_event =
    SrcInstanceStatus string instance_status "(string, time) gomap"
  | SrcInstanceConfig string bool
  | SrcOther

definition sched_onInstanceConfigUpdated :: "string \<Rightarrow> bool \<Rightarrow> sched \<Rightarrow> bool" where
  "sched_onInstanceConfigUpdated node isActor t = (isActor \<and> node = s_localhost t \<and> s_enabled t)"

definition on_src :: "sched_env \<Rightarrow> path \<Rightarrow> src_event \<Rightarrow> sched \<Rightarrow> bool \<times> sched" where
  "on_src v p src t =
    (case src of
       SrcInstanceStatus node st lastRuns \<Rightarrow>
         if node = s_localhost t then onLocalInstanceStatusUpdated v p st t
         else (False, onPeerInstanceStatusUpdated v p node st lastRuns t)
     | SrcInstanceConfig node isActor \<Rightarrow> (sched_onInstanceConfigUpdated node isActor t, t)
     | SrcOther \<Rightarrow> (False, t))"

definition sched_onObjectStatusUpdated :: "sched_env \<Rightarrow> path \<Rightarrow> topology option \<Rightarrow> src_event \<Rightarrow> sched \<Rightarrow> sched" where
  "sched_onObjectStatusUpdated v p actor src t =
    (case actor of
       None \<Rightarrow> t
     | Some topology \<Rightarrow>
         (let (changed, t) = on_src v p src t; (c, t) = updateFailover p topology t
          in if changed \<or> c then scheduleObject v p t else t))"

definition sched_onNodeConfigUpdated :: "sched_env \<Rightarrow> int \<Rightarrow> sched \<Rightarrow> sched" where
  "sched_onNodeConfigUpdated v maxParallel t =
    (let t = (if maxParallel > 0 then t\<lparr>s_maxRunning := maxParallel\<rparr> else t)
     in if s_enabled t then scheduleNode v t else t)"

section \<open>The loop\<close>

datatype sched_event =
    EvStatusDeleted path
  | EvNodeMonitorUpdated node_state
  | EvNodeConfigUpdated int
  | EvObjectStatusUpdated path "topology option" src_event
  | EvObjectStatusDeleted path
  | EvCollectorUpdated string
  | EvNetworkPeersUpdated string
  | EvFileInstalled string path
  | EvTick
  | EvJobEnd

fun sched_step :: "sched_env \<Rightarrow> sched_event \<Rightarrow> sched \<Rightarrow> sched" where
  "sched_step v (EvStatusDeleted p) t = unschedule p t"
| "sched_step v (EvNodeMonitorUpdated state) t = toggleEnabled v state t"
| "sched_step v (EvNodeConfigUpdated n) t = sched_onNodeConfigUpdated v n t"
| "sched_step v (EvObjectStatusUpdated p actor src) t = sched_onObjectStatusUpdated v p actor src t"
| "sched_step v (EvObjectStatusDeleted p) t = sched_onObjectStatusDeleted p t"
| "sched_step v (EvCollectorUpdated state) t = onDaemonCollectorUpdated v state t"
| "sched_step v (EvNetworkPeersUpdated key) t = sched_onEvent v key path_zero t"
| "sched_step v (EvFileInstalled key p) t = sched_onEvent v key p t"
| "sched_step v EvTick t = onTick v t"
| "sched_step v EvJobEnd t = t\<lparr>s_active := s_active t - 1\<rparr>"

definition sched_play :: "(sched_env \<times> sched_event) list \<Rightarrow> string \<Rightarrow> sched" where
  "sched_play l localhost = foldl (\<lambda>t (v, ev). sched_step v ev t) (new_sched localhost) l"

end
