(* ===== verification/Sched_Props.thy ===== *)
theory Sched_Props
  imports Scheduler
begin

text \<open>
  Properties of the scheduler: its queue takes the jobs due, all of them, the soonest first; no job is
  lost by a tick; nothing is planned while scheduling is disabled; a job starts within the parallelism
  of the node only; the runs the events ask for keep their pace.
\<close>

section \<open>The jobs and their queue\<close>

datatype job_op = JSet entry "time" | JDel job_id | JDelPath path | JPopDue "time" | JPurge

fun job_step :: "job_op \<Rightarrow> jobs \<Rightarrow> jobs" where
  "job_step (JSet e now) t = jobs_set e now t"
| "job_step (JDel k) t = jobs_del k t"
| "job_step (JDelPath p) t = jobs_delPath p t"
| "job_step (JPopDue now) t = snd (popDue now t)"
| "job_step JPurge t = jobs_purge t"

lemma new_jobs_inv: "jobs_inv newJobs" "jobs_inv (jobs_purge t)" "known newJobs k = None" "known (jobs_purge t) k = None"
  by (simp_all add: jobs_inv_def newJobs_def jobs_purge_def wf_map_def pos_ok_def index_of_def known_def heap_def queue_view_def)

lemma jobs_dels_ok:
  assumes "jobs_inv t"
  shows "jobs_inv (fold (\<lambda>key. jobs_del (p, key)) l t) \<and> known (fold (\<lambda>key. jobs_del (p, key)) l t) = (\<lambda>k. if fst k = p \<and> snd k \<in> set l then None else known t k)
    \<and> planned (fold (\<lambda>key. jobs_del (p, key)) l t) = {k \<in> planned t. \<not> (fst k = p \<and> snd k \<in> set l)}"
  using assms
proof (induction l arbitrary: t)
  case (Cons key l)
  have d: "jobs_inv (jobs_del (p, key) t)" "known (jobs_del (p, key) t) = (known t)((p, key) := None)" "planned (jobs_del (p, key) t) = planned t - {(p, key)}"
    using jobs_del_ok [OF Cons.prems] by simp_all
  show ?case using Cons.IH [OF d(1)] d by (auto simp: fun_eq_iff)
qed auto

lemma jobs_keys_known: "wf_map (jb_byPath t) \<Longrightarrow> key \<in> set (jobs_keys p t) \<longleftrightarrow> known t (p, key) \<noteq> None"
  by (force simp: jobs_keys_def known_def wf_map_def dest: map_of_SomeD)

lemma jobs_delPath_ok:
  assumes "jobs_inv t"
  shows "jobs_inv (jobs_delPath p t) \<and> known (jobs_delPath p t) = (\<lambda>k. if fst k = p then None else known t k)
    \<and> planned (jobs_delPath p t) = {k \<in> planned t. fst k \<noteq> p}"
proof -
  have w: "wf_map (jb_byPath t)" "pos_ok t" using assms by (simp_all add: jobs_inv_def)
  show ?thesis
    using jobs_dels_ok [OF assms, of p "jobs_keys p t"]
    by (auto simp: jobs_delPath_def fun_eq_iff jobs_keys_known [OF w(1)] dest: pos_ok_known [OF w(2)])
qed

lemma job_step_inv: "jobs_inv t \<Longrightarrow> jobs_inv (job_step op t)"
  by (cases op) (simp_all add: jobs_set_ok jobs_del_ok jobs_delPath_ok popDue_ok new_jobs_inv)

text \<open>
  C18. After any sequence of plans, removals and takes of jobs, the jobs taken at a time are the ones
  due then, the soonest first, and no other; the ones left are planned for later; and the place each
  job keeps is its place in the queue.
\<close>

theorem due_jobs_taken_in_order:
  "let t = fold job_step ops newJobs; (l, t') = popDue now t
   in set l = {k \<in> planned t. due_at t k \<le> now} \<and> distinct l \<and> sorted (map (due_at t) l)
    \<and> planned t' = planned t - set l \<and> pos_ok t'"
proof -
  have "jobs_inv (fold job_step ops newJobs)"
    by (induction ops rule: rev_induct) (simp_all add: job_step_inv new_jobs_inv)
  from popDue_ok [OF this, of now] show ?thesis
    by (auto simp: Let_def jobs_inv_def case_prod_beta)
qed

section \<open>The pace of the triggers\<close>

text \<open>
  An event, and the time a run is due: the run may be held for a while, or not be allowed, which
  counts as a run.
\<close>

datatype trigger_op = TEvent "time" "duration option" | TDue "time" "duration option"

fun trigger_step :: "trigger_op \<Rightarrow> trigger \<times> time list \<Rightarrow> trigger \<times> time list" where
  "trigger_step (TEvent now hold) (g, runs) =
    (case trigger_onEvent now g of
       (False, g) \<Rightarrow> (g, runs)
     | (True, g) \<Rightarrow> (case hold of None \<Rightarrow> (trigger_ran now False g, runs @ [now]) | Some d \<Rightarrow> (g\<lparr>g_dueAt := now + d\<rparr>, runs)))"
| "trigger_step (TDue now hold) (g, runs) =
    (if g_dueAt g = 0 \<or> g_dueAt g > now then (g, runs)
     else (case hold of None \<Rightarrow> (trigger_ran now True g, runs @ [now]) | Some d \<Rightarrow> (g\<lparr>g_dueAt := now + d\<rparr>, runs)))"

fun op_ok :: "trigger_op \<Rightarrow> bool" where
  "op_ok (TEvent now hold) = (0 < now \<and> (\<forall>d. hold = Some d \<longrightarrow> 0 < d))"
| "op_ok (TDue now hold) = (0 < now \<and> (\<forall>d. hold = Some d \<longrightarrow> 0 < d))"

fun spaced :: "duration \<Rightarrow> time list \<Rightarrow> bool" where
  "spaced d (a # b # l) = (a + d \<le> b \<and> spaced d (b # l))"
| "spaced d _ = True"

lemma spaced_snoc: "spaced d (l @ [a]) \<Longrightarrow> a + d \<le> b \<Longrightarrow> spaced d (l @ [a, b])"
  by (induction d l rule: spaced.induct) auto

definition paced :: "trigger \<times> time list \<Rightarrow> bool" where
  "paced s =
    (case s of (g, runs) \<Rightarrow>
       trigger_ok g \<and> spaced (op_Interval (g_pace g)) runs \<and> (runs \<noteq> [] \<longrightarrow> g_lastRunAt g = last runs \<and> last runs \<noteq> 0))"

lemma paced_run:
  assumes "paced (g, runs)" "g_lastRunAt g = 0 \<or> g_lastRunAt g + op_Interval (g_pace g) \<le> now" "0 < now"
  shows "paced (trigger_ran now late g, runs @ [now])"
proof -
  have "spaced (op_Interval (g_pace g)) (runs @ [now])"
  proof (cases runs rule: rev_cases)
    case (snoc l a)
    then show ?thesis using assms spaced_snoc [of _ l a now] by (simp add: paced_def)
  qed simp
  moreover have "g_pace (trigger_ran now late g) = g_pace g" "g_lastRunAt (trigger_ran now late g) = now"
    by (simp_all add: trigger_ran_def Let_def)
  ultimately show ?thesis using assms ran_ok by (simp add: paced_def)
qed

lemma paced_hold:
  assumes "paced (g, runs)" "g_lastRunAt g = 0 \<or> g_lastRunAt g + op_Interval (g_pace g) \<le> now" "0 < d"
  shows "paced (g\<lparr>g_dueAt := now + d\<rparr>, runs)"
  using assms by (auto simp: paced_def trigger_ok_def)

lemma onEvent_fields: "g_pace (snd (trigger_onEvent now g)) = g_pace g" "g_lastRunAt (snd (trigger_onEvent now g)) = g_lastRunAt g"
  by (simp_all add: trigger_onEvent_def Let_def)

lemma onEvent_pace: "trigger_onEvent now g = (b, g') \<Longrightarrow> g_pace g' = g_pace g"
  using onEvent_fields(1) [of now g] by simp

lemma trigger_step_paced:
  assumes "paced (g, runs)" "op_ok op"
  shows "paced (trigger_step op (g, runs))"
proof (cases op)
  case (TEvent now hold)
  obtain b g' where e: "trigger_onEvent now g = (b, g')" by force
  have g': "paced (g', runs)" "g_pace g' = g_pace g" "g_lastRunAt g' = g_lastRunAt g"
    using onEvent_fields [of now g] onEvent_ok [of g now] assms(1) e by (simp_all add: paced_def)
  have "g_lastRunAt g' = 0 \<or> g_lastRunAt g' + op_Interval (g_pace g') \<le> now" if b
    using onEvent_due [of g now] assms(1) e that g' by (auto simp: paced_def)
  with g' paced_run [of g' runs now False] paced_hold [of g' runs now] assms(2) TEvent e show ?thesis
    by (auto split: option.split bool.split)
next
  case (TDue now hold)
  have "g_lastRunAt g = 0 \<or> g_lastRunAt g + op_Interval (g_pace g) \<le> now" if "g_dueAt g \<noteq> 0" "\<not> g_dueAt g > now"
    using assms(1) that by (auto simp: paced_def trigger_ok_def)
  with paced_run [of g runs now True] paced_hold [of g runs now] assms TDue show ?thesis
    by (auto split: option.split)
qed

lemma trigger_step_pace: "g_pace (fst (trigger_step op (g, runs))) = g_pace g"
  by (cases op) (auto simp: trigger_ran_def Let_def split: option.split prod.split bool.split dest: onEvent_pace)


text \<open>The default pace; the event received too early is kept for later.\<close>

definition pace_conv :: "string \<Rightarrow> duration option" where
  "pace_conv s = (if s = ''10s'' then Some (10 * second) else None)"

definition pace_trigger :: trigger where
  "pace_trigger =
    \<lparr>g_spec = [], g_pace = \<lparr>op_Interval = 10 * second, op_Max = 10 * second\<rparr>, g_interval = 10 * second,
     g_on = [''FileInstalled''], g_lastRunAt = 0, g_dueAt = 0\<rparr>"

definition pace_ops :: "trigger_op list" where
  "pace_ops = [TEvent (100 * second) None, TEvent (105 * second) None, TDue (107 * second) None, TDue (110 * second) None]"


section \<open>The scheduler\<close>

text \<open>The jobs known that are not in the queue: the ones being taken.\<close>

definition out :: "jobs \<Rightarrow> job_id set" where
  "out t = {k. known t k \<noteq> None \<and> k \<notin> planned t}"

definition ids_ok :: "(path, (string, entry) gomap) gomap \<Rightarrow> bool" where
  "ids_ok s = (\<forall>x \<in> set s. \<forall>y \<in> set (snd x). entry_id (snd y) = (fst x, fst y))"

definition core :: "sched \<Rightarrow> bool" where
  "core t =
    (jobs_inv (s_jobs t)
     \<and> (\<forall>k. known (s_jobs t) k \<noteq> None \<longrightarrow> Schedules_Get k t \<noteq> None)
     \<and> ids_ok (s_schedules t)
     \<and> (\<forall>x \<in> set (s_triggers t). trigger_ok (snd x))
     \<and> (\<forall>e l a m. SRun e l a m \<in> set (s_trace t) \<longrightarrow> int a < m))"

text \<open>What an operation at a time does: the jobs planned by it are planned from then on.\<close>

definition evolves :: "time \<Rightarrow> sched \<Rightarrow> sched \<Rightarrow> bool" where
  "evolves now t t' =
    (core t' \<and> s_enabled t' = s_enabled t \<and> out (s_jobs t') \<subseteq> out (s_jobs t)
     \<and> (\<forall>k \<in> planned (s_jobs t'). now \<le> due_at (s_jobs t') k \<or> k \<in> planned (s_jobs t) \<and> due_at (s_jobs t') k = due_at (s_jobs t) k))"

definition keeps_schedules :: "sched \<Rightarrow> sched \<Rightarrow> bool" where
  "keeps_schedules t t' = (\<forall>k. Schedules_Get k t \<noteq> None \<longrightarrow> Schedules_Get k t' \<noteq> None)"

lemma core_schedule: "core t \<Longrightarrow> known (s_jobs t) k \<noteq> None \<Longrightarrow> Schedules_Get k t \<noteq> None"
  unfolding core_def by blast

lemma core_known_id: "core t \<Longrightarrow> known (s_jobs t) k = Some e \<Longrightarrow> entry_id e = k"
  unfolding core_def jobs_inv_def by blast

lemma core_ids: "core t \<Longrightarrow> ids_ok (s_schedules t)"
  by (simp add: core_def)

lemma core_id: "core t \<Longrightarrow> Schedules_Get k t = Some e \<Longrightarrow> entry_id e = k"
  by (fastforce simp: core_def ids_ok_def Schedules_Get_def split: option.splits dest: map_of_SomeD)

lemma evolves_refl: "core t \<Longrightarrow> evolves now t t"
  by (simp add: evolves_def)

lemma evolves_trans: "evolves now t t' \<Longrightarrow> evolves now t' t'' \<Longrightarrow> evolves now t t''"
  unfolding evolves_def by (metis order.trans)

lemma evolves_core: "evolves now t t' \<Longrightarrow> core t'"
  by (simp add: evolves_def)

lemma evolves_fold:
  assumes "core t" "\<And>x t. x \<in> set l \<Longrightarrow> core t \<Longrightarrow> evolves now t (f x t)"
  shows "evolves now t (fold f l t)"
  using assms
proof (induction l arbitrary: t)
  case (Cons x l)
  have x: "evolves now t (f x t)" using Cons.prems by simp
  have "evolves now (f x t) (fold f l (f x t))"
    using Cons.prems(2) by (intro Cons.IH evolves_core [OF x]) simp_all
  with x show ?case using evolves_trans by simp
qed (simp add: evolves_refl)

lemma get_same: "s_schedules t' = s_schedules t \<Longrightarrow> Schedules_Get k t' = Schedules_Get k t"
  by (simp add: Schedules_Get_def)

text \<open>An operation that leaves the jobs, the schedules and the triggers alone.\<close>

lemma evolves_frame:
  assumes "core t" "s_jobs t' = s_jobs t" "s_schedules t' = s_schedules t" "s_enabled t' = s_enabled t"
    and "set (s_triggers t') \<subseteq> set (s_triggers t)" "\<And>e l a m. SRun e l a m \<in> set (s_trace t') \<Longrightarrow> SRun e l a m \<in> set (s_trace t)"
  shows "evolves now t t'"
proof -
  note c = assms(1) [unfolded core_def]
  have "Schedules_Get k t' = Schedules_Get k t" for k using assms(3) by (rule get_same)
  moreover have "\<forall>x \<in> set (s_triggers t'). trigger_ok (snd x)" using c assms(5) by blast
  moreover have "\<forall>e l a m. SRun e l a m \<in> set (s_trace t') \<longrightarrow> int a < m" using c assms(6) by blast
  ultimately have "core t'" unfolding core_def using c assms(2,3) by simp
  then show ?thesis using assms by (simp add: evolves_def)
qed

lemma sched_get_jobs [simp]: "Schedules_Get k (t\<lparr>s_jobs := J\<rparr>) = Schedules_Get k t"
  by (simp add: Schedules_Get_def)

lemma evolves_jobs:
  assumes c: "core t" and k: "Schedules_Get k t \<noteq> None"
    and J: "J = jobs_del k (s_jobs t) \<or> (\<exists>e. J = jobs_set e n (s_jobs t) \<and> entry_id e = k \<and> now \<le> en_NextRunAt e)"
  shows "evolves now t (t\<lparr>s_jobs := J\<rparr>) \<and> k \<notin> out J"
  using J
proof
  assume J: "J = jobs_del k (s_jobs t)"
  note d = jobs_del_ok [of "s_jobs t" k, folded J]
  from c d have "due_at J x = due_at (s_jobs t) x" if "x \<noteq> k" for x using that by (simp add: known_due core_def)
  with c d show ?thesis by (auto simp: evolves_def core_def out_def)
next
  assume "\<exists>e. J = jobs_set e n (s_jobs t) \<and> entry_id e = k \<and> now \<le> en_NextRunAt e"
  then obtain e where J: "J = jobs_set e n (s_jobs t)" "entry_id e = k" "now \<le> en_NextRunAt e" by blast
  note d = jobs_set_ok [of "s_jobs t" e n, folded J(1), unfolded J(2)]
  from c d J have "due_at J x = (if x = k then en_NextRunAt e else due_at (s_jobs t) x)" for x by (simp add: known_due core_def)
  with c d J k show ?thesis by (auto simp: evolves_def core_def out_def split: if_splits)
qed

lemma planJob_jobs:
  "\<exists>J. planJob v e t = t\<lparr>s_jobs := J\<rparr> \<and> (J = jobs_del (entry_id e) (s_jobs t)
    \<or> (\<exists>e'. J = jobs_set e' (se_now v) (s_jobs t) \<and> entry_id e' = entry_id e \<and> se_now v \<le> en_NextRunAt e'))"
proof -
  define e1 where "e1 = (if en_LastRunAt e = 0 then e\<lparr>en_LastRunAt := GetLastRun e t\<rparr> else e)"
  define e2 where "e2 = (if en_LastRunAt e1 < peerInstanceLastRun e1 t then e1\<lparr>en_LastRunAt := peerInstanceLastRun e1 t\<rparr> else e1)"
  have id: "entry_id e2 = entry_id e" "entry_id (e2\<lparr>en_NextRunAt := n\<rparr>) = entry_id e" for n
    by (simp_all add: e2_def e1_def entry_id_def)
  show ?thesis
    unfolding planJob_def Let_def e1_def [symmetric] e2_def [symmetric] map_jobs_def id(1)
    by (auto split: option.split intro!: exI id(2))
qed

lemma planJob_evolves:
  assumes "core t" "Schedules_Get (entry_id e) t \<noteq> None"
  shows "evolves (se_now v) t (planJob v e t) \<and> entry_id e \<notin> out (s_jobs (planJob v e t))"
proof -
  obtain J where J: "planJob v e t = t\<lparr>s_jobs := J\<rparr>" "J = jobs_del (entry_id e) (s_jobs t)
    \<or> (\<exists>e'. J = jobs_set e' (se_now v) (s_jobs t) \<and> entry_id e' = entry_id e \<and> se_now v \<le> en_NextRunAt e')"
    using planJob_jobs [of v e t] by blast
  from evolves_jobs [OF assms J(2)] J(1) show ?thesis by simp
qed

lemma planJob_fields [simp]:
  "s_schedules (planJob v e t) = s_schedules t" "s_active (planJob v e t) = s_active t" "s_maxRunning (planJob v e t) = s_maxRunning t"
  "s_triggers (planJob v e t) = s_triggers t" "s_trace (planJob v e t) = s_trace t" "s_enabled (planJob v e t) = s_enabled t"
  using planJob_jobs [of v e t] by auto

lemma exposed_fields [simp]:
  "s_schedules (updateExposedSchedules p t) = s_schedules t" "s_active (updateExposedSchedules p t) = s_active t"
  "s_maxRunning (updateExposedSchedules p t) = s_maxRunning t" "s_triggers (updateExposedSchedules p t) = s_triggers t"
  "s_jobs (updateExposedSchedules p t) = s_jobs t" "s_enabled (updateExposedSchedules p t) = s_enabled t"
  by (simp_all add: updateExposedSchedules_def s_emit_def)

lemma exposed_evolves: "core t \<Longrightarrow> evolves now t (updateExposedSchedules p t)"
  by (rule evolves_frame) (auto simp: updateExposedSchedules_def s_emit_def split: if_splits)

lemma run_evolves:
  assumes "core t" "\<not> fullReason t"
  shows "evolves now t (sched_run v e lastRun t)"
proof -
  have "s_jobs (sched_run v e lastRun t) = s_jobs t" "s_schedules (sched_run v e lastRun t) = s_schedules t"
    "s_enabled (sched_run v e lastRun t) = s_enabled t" "s_triggers (sched_run v e lastRun t) = s_triggers t"
    "s_trace (sched_run v e lastRun t) = s_trace t @ [SRun e lastRun (s_active t) (s_maxRunning t)]"
    by (simp_all add: sched_run_def SetLastRun_def s_emit_def Let_def)
  with assms show ?thesis by (auto simp: evolves_def core_def Schedules_Get_def fullReason_def)
qed

lemma lastRun_evolves: "core t \<Longrightarrow> evolves now t (set_lastRunOnAllPeers k tm t)"
  by (rule evolves_frame) (simp_all add: set_lastRunOnAllPeers_def)

lemma lastRun_fields [simp]:
  "fullReason (set_lastRunOnAllPeers k tm t) = fullReason t" "s_jobs (set_lastRunOnAllPeers k tm t) = s_jobs t"
  "s_schedules (set_lastRunOnAllPeers k tm t) = s_schedules t" "s_active (set_lastRunOnAllPeers k tm t) = s_active t"
  "s_maxRunning (set_lastRunOnAllPeers k tm t) = s_maxRunning t"
  by (simp_all add: set_lastRunOnAllPeers_def fullReason_def)

lemma take_evolves:
  assumes "core t" "\<not> fullReason t"
  shows "evolves now t (take_job v e lastRun t)"
proof -
  have "evolves now t (sched_run v e lastRun (set_lastRunOnAllPeers (entry_id e) lastRun t))"
    using assms by (intro evolves_trans [OF lastRun_evolves run_evolves]) (auto intro: evolves_core lastRun_evolves)
  then show ?thesis using assms by (simp add: take_job_def evolves_refl split: option.split)
qed


text \<open>A job taken is planned again, or no longer known.\<close>

lemma hold_evolves:
  assumes c: "core t" and k: "Schedules_Get (entry_id e) t \<noteq> None"
  shows "evolves (se_now v) t (holdJob v due e t) \<and> entry_id e \<notin> out (s_jobs (holdJob v due e t))"
proof -
  define e' where "e' = e\<lparr>en_LastRunAt := en_LastRunAt due, en_NextRunAt := se_now v + holdRetryDelay\<rparr>"
  have e': "entry_id e' = entry_id e" "se_now v \<le> en_NextRunAt e'" by (simp_all add: e'_def entry_id_def holdRetryDelay_def second_def)
  have j: "evolves (se_now v) t (t\<lparr>s_jobs := jobs_set e' (se_now v) (s_jobs t)\<rparr>) \<and> entry_id e \<notin> out (jobs_set e' (se_now v) (s_jobs t))"
    by (rule evolves_jobs [OF c k]) (use e' in blast)
  then show ?thesis
    using evolves_trans [OF _ exposed_evolves] evolves_core unfolding holdJob_def e'_def [symmetric] map_jobs_def by auto
qed

lemma due_evolves:
  assumes c: "core t" and d: "known (s_jobs t) (entry_id due) \<noteq> None"
  shows "evolves (se_now v) t (onJobDue v due t) \<and> entry_id due \<notin> out (s_jobs (onJobDue v due t)) \<and> s_schedules (onJobDue v due t) = s_schedules t"
proof -
  obtain e where e: "Schedules_Get (entry_id due) t = Some e" using core_schedule [OF c d] by blast
  then have id: "entry_id e = entry_id due" using core_id [OF c] by blast
  have plan: "evolves (se_now v) t (updateExposedSchedules (en_Path e) (planJob v e' t)) \<and> entry_id due \<notin> out (s_jobs (updateExposedSchedules (en_Path e) (planJob v e' t)))"
    if "entry_id e' = entry_id due" for e'
    using planJob_evolves [OF c, of e' v] that e evolves_trans [OF _ exposed_evolves] evolves_core by auto
  have lr: "entry_id (e\<lparr>en_LastRunAt := l\<rparr>) = entry_id due" for l using id by (simp add: entry_id_def)
  have tk: "evolves (se_now v) t (take_job v e' l (updateExposedSchedules (en_Path e) (planJob v e' t)))"
    and tj: "s_jobs (take_job v e' l (updateExposedSchedules (en_Path e) (planJob v e' t))) = s_jobs (planJob v e' t)"
    if "\<not> fullReason t" "entry_id e' = entry_id due" for e' l
  proof -
    have "\<not> fullReason (updateExposedSchedules (en_Path e) (planJob v e' t))" using that by (simp add: fullReason_def)
    then show "evolves (se_now v) t (take_job v e' l (updateExposedSchedules (en_Path e) (planJob v e' t)))"
      using plan [OF that(2)] evolves_trans take_evolves evolves_core by blast
    show "s_jobs (take_job v e' l (updateExposedSchedules (en_Path e) (planJob v e' t))) = s_jobs (planJob v e' t)"
      by (simp add: take_job_def sched_run_def SetLastRun_def s_emit_def Let_def split: option.split)
  qed
  have sch: "s_schedules (take_job v e' l t') = s_schedules t'" for e' l t'
    by (simp add: take_job_def sched_run_def SetLastRun_def s_emit_def Let_def split: option.split)
  show ?thesis
    using plan [OF lr] hold_evolves [OF c, of e v due] tk [OF _ lr] tj [OF _ lr] e id
    by (auto simp: onJobDue_def Let_def holdJob_def map_jobs_def sch)
qed

text \<open>The triggers.\<close>

lemma ids_ok_lkp: "ids_ok s \<Longrightarrow> \<forall>y \<in> set (lkp [] s p). entry_id (snd y) = (p, fst y)"
  using map_of_SomeD [of s p] by (auto simp: ids_ok_def lkp_def split: option.split) (metis fst_conv snd_conv)

lemma ids_ok_update: "ids_ok s \<Longrightarrow> (\<forall>y \<in> set m. entry_id (snd y) = (p, fst y)) \<Longrightarrow> ids_ok (AList.update p m s)"
  using set_update_subset [of p m s] by (fastforce simp: ids_ok_def)

lemma trigger_evolves: "core t \<Longrightarrow> trigger_ok g \<Longrightarrow> evolves now t (set_trigger k g t)"
proof -
  assume c: "core t" and g: "trigger_ok g"
  have "\<forall>x \<in> set (s_triggers (set_trigger k g t)). trigger_ok (snd x)"
    using set_update_subset [of k g "s_triggers t"] c g by (auto simp: set_trigger_def core_def)
  with c show ?thesis by (simp add: evolves_def core_def set_trigger_def Schedules_Get_def)
qed

lemma Add_get: "Schedules_Get k (Schedules_Add p e t) = (if k = (p, sc_Key (en_Config e)) then Some e else Schedules_Get k t)"
  by (cases k) (auto simp: Schedules_Get_def Schedules_Add_def update_conv lkp_def split: option.split)

lemma Add_evolves:
  assumes c: "core t" and e: "entry_id e = (p, sc_Key (en_Config e))"
  shows "evolves now t (Schedules_Add p e t)"
proof -
  have "s_jobs (Schedules_Add p e t) = s_jobs t" "s_triggers (Schedules_Add p e t) = s_triggers t" "s_trace (Schedules_Add p e t) = s_trace t"
    "s_enabled (Schedules_Add p e t) = s_enabled t" by (simp_all add: Schedules_Add_def)
  moreover have "\<forall>y \<in> set (lkp [] (s_schedules t) p). entry_id (snd y) = (p, fst y)"
    by (rule ids_ok_lkp [OF core_ids [OF c]])
  then have "ids_ok (s_schedules (Schedules_Add p e t))"
    using c e set_update_subset [of "sc_Key (en_Config e)" e "lkp [] (s_schedules t) p"]
    by (auto simp: Schedules_Add_def core_def intro!: ids_ok_update)
  ultimately show ?thesis using c by (auto simp: evolves_def core_def Add_get)
qed

lemma record_evolves:
  assumes c: "core t" and e: "entry_id e = (p, sc_Key (en_Config e))"
  shows "evolves (se_now v) t (recordEventRun v p e t) \<and> keeps_schedules t (recordEventRun v p e t) \<and> fullReason (recordEventRun v p e t) = fullReason t"
proof -
  define e' where "e' = e\<lparr>en_LastRunAt := se_now v\<rparr>"
  let ?t = "Schedules_Add p e' t" and ?k = "(p, sc_Key (en_Config e))"
  have e': "entry_id e' = (p, sc_Key (en_Config e'))" "sc_Key (en_Config e') = sc_Key (en_Config e)" using e by (simp_all add: e'_def entry_id_def)
  have t: "evolves (se_now v) t ?t" by (rule Add_evolves [OF c e'(1)])
  have "evolves (se_now v) ?t (planJob v ((j_entry j)\<lparr>en_LastRunAt := se_now v\<rparr>) ?t)" if j: "jobs_get ?k (s_jobs ?t) = Some j" for j
  proof -
    have "known (s_jobs ?t) ?k = Some (j_entry j)" using jobs_get_known [of ?k "s_jobs ?t"] j by simp
    then have "entry_id (j_entry j) = ?k" using evolves_core [OF t] by (auto simp: core_def jobs_inv_def)
    then have "Schedules_Get (entry_id ((j_entry j)\<lparr>en_LastRunAt := se_now v\<rparr>)) ?t \<noteq> None" using e'(2) by (simp add: entry_id_def Add_get)
    then show ?thesis using planJob_evolves [OF evolves_core [OF t]] by blast
  qed
  then have p: "evolves (se_now v) t (case jobs_get ?k (s_jobs ?t) of None \<Rightarrow> ?t | Some j \<Rightarrow> planJob v ((j_entry j)\<lparr>en_LastRunAt := se_now v\<rparr>) ?t)"
    using t evolves_trans by (auto split: option.split)
  have "evolves (se_now v) t (recordEventRun v p e t)"
    using evolves_trans [OF evolves_trans [OF p lastRun_evolves] exposed_evolves] evolves_core [OF p] evolves_core [OF lastRun_evolves]
    unfolding recordEventRun_def Let_def e'_def [symmetric] by blast
  moreover have "s_schedules (recordEventRun v p e t) = s_schedules ?t" "fullReason (recordEventRun v p e t) = fullReason t"
    by (simp_all add: recordEventRun_def Let_def e'_def fullReason_def Schedules_Add_def split: option.split)
  ultimately show ?thesis using get_same [of "recordEventRun v p e t" ?t] by (simp add: keeps_schedules_def Add_get)
qed

lemma runTrigger_evolves:
  assumes c: "core t" and e: "entry_id e = (p, sc_Key (en_Config e))" and g: "trigger_ok g"
    and due: "g_lastRunAt g = 0 \<or> g_lastRunAt g + op_Interval (g_pace g) \<le> se_now v"
  shows "evolves (se_now v) t (runTrigger v p e g late t) \<and> keeps_schedules t (runTrigger v p e g late t)"
proof -
  have pos: "0 < holdRetryDelay" "0 < g_interval g" using g by (simp_all add: holdRetryDelay_def second_def trigger_ok_def pace_ok_def)
  have held: "trigger_ok (g\<lparr>g_dueAt := se_now v + d\<rparr>)" if "0 < d" for d using g due that by (auto simp: trigger_ok_def)
  have st: "evolves (se_now v) t (set_trigger (entry_id e) g' t) \<and> keeps_schedules t (set_trigger (entry_id e) g' t)" if "trigger_ok g'" for g'
    using trigger_evolves [OF c that] get_same [of "set_trigger (entry_id e) g' t" t] by (simp add: keeps_schedules_def set_trigger_def)
  let ?s = "set_trigger (entry_id e) (trigger_ran (se_now v) late g) t"
  have s: "evolves (se_now v) t ?s" "keeps_schedules t ?s" "fullReason ?s = fullReason t"
    using st [OF ran_ok [OF g]] by (simp_all add: fullReason_def set_trigger_def)
  note rec = record_evolves [OF evolves_core [OF s(1)] e, of v]
  have r: "evolves (se_now v) t (recordEventRun v p e ?s) \<and> keeps_schedules t (recordEventRun v p e ?s) \<and> \<not> fullReason (recordEventRun v p e ?s)"
    if "\<not> fullReason t"
    using evolves_trans [OF s(1)] rec s that unfolding keeps_schedules_def by blast
  then have run: "evolves (se_now v) t (sched_run v e (se_now v) (recordEventRun v p e ?s)) \<and> keeps_schedules t (sched_run v e (se_now v) (recordEventRun v p e ?s))"
    if "\<not> fullReason t"
  proof -
    have "s_schedules (sched_run v e (se_now v) (recordEventRun v p e ?s)) = s_schedules (recordEventRun v p e ?s)"
      by (simp add: sched_run_def SetLastRun_def s_emit_def Let_def)
    from get_same [OF this] evolves_trans [OF r [OF that, THEN conjunct1]] run_evolves [OF evolves_core [OF r [OF that, THEN conjunct1]]] r [OF that]
    show ?thesis by (simp add: keeps_schedules_def)
  qed
  show ?thesis
    using st [OF ran_ok [OF g]] st [OF held] pos run by (simp add: runTrigger_def Let_def split: option.split)
qed


lemma getTrigger_ok:
  assumes "getTrigger v e t = Some (g, t')" "core t"
  shows "trigger_ok g \<and> evolves now t t' \<and> s_schedules t' = s_schedules t"
proof (cases "t' = t")
  case True
  moreover have "trigger_ok g" if "map_of (s_triggers t) (entry_id e) = Some g"
    using assms(2) map_of_SomeD [OF that] by (force simp: core_def)
  moreover have "trigger_ok (g'\<lparr>g_lastRunAt := l\<rparr>)" if "newTrigger c s on = Some g'" for g' c s on l
    using newTrigger_ok [OF that] that by (auto simp: trigger_ok_def newTrigger_def)
  ultimately show ?thesis
    using assms by (auto simp: getTrigger_def evolves_refl Let_def split: option.splits if_splits)
next
  case False
  then obtain g' where "newTrigger (se_conv v) (sc_Pace (en_Config e)) (sc_On (en_Config e)) = Some g'"
    and g: "g = g'\<lparr>g_lastRunAt := max (en_LastRunAt e) (GetLastRun e t)\<rparr>" "t' = set_trigger (entry_id e) g t"
    using assms by (auto simp: getTrigger_def Let_def split: option.splits if_splits)
  then have "trigger_ok g" using newTrigger_ok by (auto simp: trigger_ok_def newTrigger_def)
  then show ?thesis using g trigger_evolves [OF assms(2)] by (simp add: set_trigger_def)
qed

lemma event_evolves:
  assumes c: "core t" and e: "entry_id e = (p, sc_Key (en_Config e))"
  shows "evolves (se_now v) t (event_entry v key p e t)"
proof (cases "getTrigger v e t")
  case (Some r)
  obtain g t' where r: "getTrigger v e t = Some (g, t')" using Some by (cases r) auto
  have t': "trigger_ok g" "evolves (se_now v) t t'" using getTrigger_ok [OF r c] by blast+
  obtain b g' where o: "trigger_onEvent (se_now v) g = (b, g')" by force
  have g': "trigger_ok g'" "g_pace g' = g_pace g" "g_lastRunAt g' = g_lastRunAt g"
    using onEvent_ok [OF t'(1), of "se_now v"] onEvent_fields [of "se_now v" g] o by simp_all
  let ?s = "set_trigger (entry_id e) g' t'"
  have s: "evolves (se_now v) t ?s" using evolves_trans [OF t'(2) trigger_evolves [OF evolves_core [OF t'(2)] g'(1)]] .
  have "g_lastRunAt g' = 0 \<or> g_lastRunAt g' + op_Interval (g_pace g') \<le> se_now v" if b
    using onEvent_due [OF t'(1), of "se_now v"] o that g' by auto
  then have "evolves (se_now v) t (runTrigger v p e g' False ?s)" if b
    using evolves_trans [OF s] runTrigger_evolves [OF evolves_core [OF s] e g'(1)] that by blast
  with s c r o show ?thesis by (auto simp: event_entry_def evolves_refl split: bool.split)
qed (simp add: event_entry_def evolves_refl c)

lemma onEvent_evolves:
  assumes "core t"
  shows "evolves (se_now v) t (sched_onEvent v key only t)"
proof -
  have "entry_id e = (p, sc_Key (en_Config e))" if "(p, m) \<in> set (s_schedules t)" "(x, e) \<in> set m" for p m x e
    using assms that by (fastforce simp: core_def ids_ok_def entry_id_def)
  then have "evolves (se_now v) t' (fold (\<lambda>(_, e). event_entry v key p e) m t')" if "(p, m) \<in> set (s_schedules t)" "core t'" for p m t'
    using that by (intro evolves_fold) (auto intro: event_evolves)
  then show ?thesis
    using assms unfolding sched_onEvent_def by (auto intro!: evolves_fold evolves_refl)
qed

lemma unset_trigger_evolves: "core t \<Longrightarrow> evolves now t (t\<lparr>s_triggers := AList.delete k (s_triggers t)\<rparr>)"
  by (rule evolves_frame) (simp_all add: AList.delete_eq)

lemma trigger_due_evolves:
  assumes c: "core t" and g: "trigger_ok g"
  shows "evolves (se_now v) t (trigger_due v (k, g) t)"
proof -
  have "evolves (se_now v) t (runTrigger v (fst k) e g True t)" if e: "Schedules_Get k t = Some e" and due: "g_dueAt g \<noteq> 0" "\<not> g_dueAt g > se_now v" for e
  proof -
    have "entry_id e = (fst k, sc_Key (en_Config e))" using core_id [OF c e] by (auto simp: entry_id_def)
    moreover have "g_lastRunAt g = 0 \<or> g_lastRunAt g + op_Interval (g_pace g) \<le> se_now v" using g due by (auto simp: trigger_ok_def)
    ultimately show ?thesis using runTrigger_evolves [OF c] g by blast
  qed
  with c show ?thesis by (simp add: trigger_due_def evolves_refl unset_trigger_evolves split: option.split)
qed

lemma triggers_evolve: "core t \<Longrightarrow> evolves (se_now v) t (onTriggersDue v t)"
proof -
  assume c: "core t"
  then have "\<forall>x \<in> set (s_triggers t). trigger_ok (snd x)" by (simp add: core_def)
  then have "evolves (se_now v) t' (trigger_due v x t')" if "x \<in> set (s_triggers t)" "core t'" for x t'
    using trigger_due_evolves [of t' "snd x" v "fst x"] that by simp
  with c show ?thesis unfolding onTriggersDue_def by (intro evolves_fold) auto
qed


section \<open>Ticks\<close>

lemma take_due:
  fixes v k t
  defines "f \<equiv> (case known (s_jobs t) k of None \<Rightarrow> t | Some due \<Rightarrow> onJobDue v due t)"
  assumes c: "core t"
  shows "evolves (se_now v) t f \<and> k \<notin> out (s_jobs f)"
proof (cases "known (s_jobs t) k")
  case None
  then show ?thesis using c by (simp add: f_def evolves_refl out_def)
next
  case (Some due)
  then have "entry_id due = k" by (rule core_known_id [OF c])
  with Some show ?thesis using due_evolves [OF c, of due v] by (simp add: f_def)
qed

lemma take_all_due:
  fixes v l t
  defines "f \<equiv> (\<lambda>k t. case known (s_jobs t) k of None \<Rightarrow> t | Some due \<Rightarrow> onJobDue v due t)"
  assumes "core t"
  shows "evolves (se_now v) t (fold f l t) \<and> out (s_jobs (fold f l t)) \<inter> set l = {}"
  using assms(2)
proof (induction l arbitrary: t)
  case (Cons k l)
  have k: "evolves (se_now v) t (f k t)" "k \<notin> out (s_jobs (f k t))" using take_due [OF Cons.prems, of v k] by (simp_all add: f_def)
  have "evolves (se_now v) (f k t) (fold f l (f k t))" "out (s_jobs (fold f l (f k t))) \<inter> set l = {}"
    using Cons.IH [OF evolves_core [OF k(1)]] by simp_all
  moreover from this k have "k \<notin> out (s_jobs (fold f l (f k t)))" by (auto simp: evolves_def)
  ultimately show ?case using evolves_trans [OF k(1)] by simp
qed (simp add: evolves_refl)

lemma tick_ok:
  assumes c: "core t" and o: "out (s_jobs t) = {}"
  shows "core (onTick v t) \<and> s_enabled (onTick v t) = s_enabled t \<and> out (s_jobs (onTick v t)) = {}
    \<and> (\<forall>k \<in> planned (s_jobs (onTick v t)). se_now v \<le> due_at (s_jobs (onTick v t)) k)"
proof -
  let ?now = "se_now v"
  obtain l J where p: "popDue ?now (s_jobs t) = (l, J)" by force
  have J: "jobs_inv J" "known J = known (s_jobs t)" "set l = {k \<in> planned (s_jobs t). due_at (s_jobs t) k \<le> ?now}" "planned J = {k \<in> planned (s_jobs t). ?now < due_at (s_jobs t) k}"
    using popDue_ok [of "s_jobs t" ?now] c p by (simp_all add: core_def)
  let ?t = "t\<lparr>s_jobs := J\<rparr>"
  let ?r = "fold (\<lambda>k t. case known (s_jobs t) k of None \<Rightarrow> t | Some due \<Rightarrow> onJobDue v due t) l ?t"
  have ct: "core ?t" using c J unfolding core_def by simp
  have oJ: "out J \<subseteq> set l"
  proof
    fix x assume x: "x \<in> out J"
    then have "x \<in> planned (s_jobs t)" using o J(2) unfolding out_def by fastforce
    then show "x \<in> set l" using x J(3,4) by (simp add: out_def not_less)
  qed
  have r: "evolves ?now ?t ?r" "out (s_jobs ?r) = {}" using take_all_due [OF ct, of v l] oJ by (auto simp: evolves_def)
  have e: "evolves ?now ?t (onTriggersDue v ?r)" using evolves_trans [OF r(1) triggers_evolve [OF evolves_core [OF r(1)]]] .
  have "out (s_jobs (onTriggersDue v ?r)) = {}" using triggers_evolve [OF evolves_core [OF r(1)], of v] r(2) by (simp add: evolves_def)
  moreover have "\<forall>k \<in> planned (s_jobs (onTriggersDue v ?r)). ?now \<le> due_at (s_jobs (onTriggersDue v ?r)) k"
  proof
    fix k assume "k \<in> planned (s_jobs (onTriggersDue v ?r))"
    with e have "?now \<le> due_at (s_jobs (onTriggersDue v ?r)) k \<or> k \<in> planned J \<and> due_at (s_jobs (onTriggersDue v ?r)) k = due_at J k"
      by (simp add: evolves_def)
    moreover have "due_at J k = due_at (s_jobs t) k" using J(2) by (simp add: known_due)
    ultimately show "?now \<le> due_at (s_jobs (onTriggersDue v ?r)) k" using J(4) by auto
  qed
  ultimately show ?thesis using e p by (simp add: onTick_def Let_def evolves_def)
qed

section \<open>Planning\<close>

lemma requirement_evolves:
  "core t \<Longrightarrow> evolves now t (snd (updateNotSource p st t))" "core t \<Longrightarrow> evolves now t (snd (updateReqSatisfied v p e st t))"
  "core t \<Longrightarrow> evolves now t (snd (sched_updateProvisioned p pr t))" "core t \<Longrightarrow> evolves now t (snd (updateFailover p tp t))"
  by (rule evolves_frame; simp add: updateNotSource_def updateReqSatisfied_def sched_updateProvisioned_def updateFailover_def Let_def case_prod_beta)+

lemma requirements_frame:
  "s_schedules (evaluate_requirements v p e t) = s_schedules t" "s_jobs (evaluate_requirements v p e t) = s_jobs t"
  "s_enabled (evaluate_requirements v p e t) = s_enabled t" "s_triggers (evaluate_requirements v p e t) = s_triggers t"
  "s_trace (evaluate_requirements v p e t) = s_trace t"
  by (simp_all add: evaluate_requirements_def updateNotSource_def updateReqSatisfied_def Let_def case_prod_beta split: option.split)

lemma requirements_evolve: "core t \<Longrightarrow> evolves now t (evaluate_requirements v p e t)"
  by (rule evolves_frame) (simp_all add: requirements_frame)

lemma plan_entry_evolves:
  assumes c: "core t" and k: "Schedules_Get (entry_id e) t \<noteq> None" and e: "entry_id e = (p, sc_Key (en_Config e))"
  shows "evolves (se_now v) t (plan_entry v p prev j e t)"
proof -
  have "evolves (se_now v) t (map_jobs (jobs_del (p, sc_Key (en_Config e))) t)"
    using evolves_jobs [OF c k, of "jobs_del (entry_id e) (s_jobs t)"] e by (simp add: map_jobs_def)
  moreover have "entry_id (e\<lparr>en_LastRunAt := l\<rparr>) = entry_id e" for l by (simp add: entry_id_def)
  ultimately show ?thesis
    using planJob_evolves [OF c, of _ v] k c by (simp add: plan_entry_def evolves_refl split: option.split)
qed

lemma schedule_config_evolves:
  assumes c: "core t"
  shows "evolves (se_now v) t (schedule_config v p cfg t)"
proof -
  define e0 where "e0 = \<lparr>en_Config = cfg, en_LastRunAt = 0, en_NextRunAt = 0, en_Node = s_localhost t, en_Path = p\<rparr>"
  define e where "e = (case Schedules_Get (p, sc_Key cfg) t of Some pe \<Rightarrow> e0\<lparr>en_LastRunAt := en_LastRunAt pe\<rparr>
    | None \<Rightarrow> if sc_On cfg \<noteq> [] then e0\<lparr>en_LastRunAt := GetLastRun e0 t\<rparr> else e0)"
  have e: "entry_id e = (p, sc_Key (en_Config e))" "en_Config e = cfg" by (simp_all add: e_def e0_def entry_id_def split: option.split)
  let ?a = "Schedules_Add p e t"
  let ?r = "evaluate_requirements v p e ?a"
  have r: "evolves (se_now v) t ?r" using evolves_trans [OF Add_evolves [OF c e(1)] requirements_evolve] evolves_core [OF Add_evolves [OF c e(1)]] by blast
  have "Schedules_Get (entry_id e) ?r \<noteq> None" using get_same [OF requirements_frame(1), of "entry_id e" v p e ?a] e by (simp add: Add_get)
  from evolves_trans [OF r plan_entry_evolves [OF evolves_core [OF r] this e(1)]] show ?thesis
    unfolding schedule_config_def Let_def e0_def [symmetric] e_def [symmetric] by blast
qed


lemma Del_get: "Schedules_Get k (Schedules_Del p key t) = (if k = (p, key) then None else Schedules_Get k t)"
  by (cases k) (auto simp: Schedules_Get_def Schedules_Del_def update_conv delete_conv split: option.split)

lemma Del_frame [simp]:
  "s_jobs (Schedules_Del p key t) = s_jobs t" "s_enabled (Schedules_Del p key t) = s_enabled t"
  "s_triggers (Schedules_Del p key t) = s_triggers t" "s_trace (Schedules_Del p key t) = s_trace t"
  by (simp_all add: Schedules_Del_def split: option.split)

lemma set_delete_subset: "set (AList.delete k m) \<subseteq> set m"
  by (simp add: AList.delete_eq)

lemma Del_ids: "ids_ok (s_schedules t) \<Longrightarrow> ids_ok (s_schedules (Schedules_Del p key t))"
  using set_delete_subset [of key "lkp [] (s_schedules t) p"] ids_ok_lkp [of "s_schedules t" p]
  by (auto simp: Schedules_Del_def lkp_def split: option.split intro!: ids_ok_update) 

text \<open>The schedules of the path whose key is not seen are dropped.\<close>

lemma Dels_frame:
  fixes p seen l t
  defines "r \<equiv> fold (\<lambda>(key, _). if key \<in> set seen then id else Schedules_Del p key) l t"
  shows "s_jobs r = s_jobs t" "s_enabled r = s_enabled t" "s_triggers r = s_triggers t" "s_trace r = s_trace t"
  unfolding r_def by (induction l arbitrary: t) (simp_all add: case_prod_beta)

lemma Dels_ids:
  "ids_ok (s_schedules t) \<Longrightarrow> ids_ok (s_schedules (fold (\<lambda>(key, _). if key \<in> set seen then id else Schedules_Del p key) l t))"
  by (induction l arbitrary: t) (simp_all add: case_prod_beta Del_ids)

lemma Dels_get:
  assumes "fst k \<noteq> p \<or> snd k \<in> set seen"
  shows "Schedules_Get k (fold (\<lambda>(key, _). if key \<in> set seen then id else Schedules_Del p key) l t) = Schedules_Get k t"
proof (induction l arbitrary: t)
  case (Cons x l)
  have "Schedules_Get k (Schedules_Del p (fst x) t) = Schedules_Get k t" if "fst x \<notin> set seen"
    using that assms by (auto simp: Del_get)
  then show ?case using Cons.IH by (simp add: case_prod_beta)
qed simp

lemma drop_unseen_evolves:
  assumes c: "core t"
  shows "evolves now t (drop_unseen p seen t)"
proof -
  let ?l = "filter (\<lambda>key. key \<notin> set seen) (jobs_keys p (s_jobs t))"
  let ?J = "fold (\<lambda>key. jobs_del (p, key)) ?l (s_jobs t)"
  let ?a = "t\<lparr>s_jobs := ?J\<rparr>"
  let ?b = "fold (\<lambda>(key, _). if key \<in> set seen then id else Schedules_Del p key) (lkp [] (s_schedules t) p) ?a"
  have ci: "jobs_inv (s_jobs t)" "wf_map (jb_byPath (s_jobs t))" using c by (simp_all add: core_def jobs_inv_def)
  note J = jobs_dels_ok [OF ci(1), of p ?l]
  have b: "s_jobs ?b = ?J" "s_enabled ?b = s_enabled t" "s_triggers ?b = s_triggers t" "s_trace ?b = s_trace t" "ids_ok (s_schedules ?b)"
    using core_ids [OF c] by (simp_all add: Dels_frame Dels_ids)
  have get: "Schedules_Get k ?b = Schedules_Get k t" if "fst k \<noteq> p \<or> snd k \<in> set seen" for k
    by (rule trans [OF Dels_get [OF that] sched_get_jobs])
  have sched: "Schedules_Get k ?b \<noteq> None" if k: "known ?J k \<noteq> None" for k
  proof -
    have kt: "known (s_jobs t) k \<noteq> None" "\<not> (fst k = p \<and> snd k \<in> set ?l)" using k J by (auto split: if_splits)
    then have "fst k \<noteq> p \<or> snd k \<in> set seen" using jobs_keys_known [OF ci(2), of "snd k" "fst k"] by auto
    with get core_schedule [OF c kt(1)] show ?thesis by simp
  qed
  have due: "due_at ?J k = due_at (s_jobs t) k" if "k \<in> planned ?J" for k using that J by (auto simp: known_due)
  have "drop_unseen p seen t = ?b\<lparr>s_triggers := filter (\<lambda>(k, g). fst k = p \<longrightarrow>
      (case Schedules_Get k ?b of None \<Rightarrow> False | Some e \<Rightarrow> sc_On (en_Config e) \<noteq> [] \<and> trigger_isFor e g)) (s_triggers ?b)\<rparr>" (is "_ = ?r")
    by (simp add: drop_unseen_def map_jobs_def Let_def)
  moreover have "Schedules_Get k ?r = Schedules_Get k ?b" for k by (rule get_same) simp
  ultimately show ?thesis
    using b sched due J c by (auto simp: evolves_def core_def out_def)
qed

lemma scheduleEntries_evolves: "core t \<Longrightarrow> evolves (se_now v) t (scheduleEntries v p configs t)"
  using evolves_fold [of t configs "se_now v" "schedule_config v p"] schedule_config_evolves
    evolves_trans [OF evolves_trans [OF _ drop_unseen_evolves] exposed_evolves]
  unfolding scheduleEntries_def by (metis drop_unseen_evolves evolves_core)

lemma scheduleObject_evolves: "core t \<Longrightarrow> evolves (se_now v) t (scheduleObject v p t)"
  by (simp add: scheduleObject_def scheduleEntries_evolves evolves_refl split: option.split)

lemma scheduleNode_evolves: "core t \<Longrightarrow> evolves (se_now v) t (scheduleNode v t)"
  by (simp add: scheduleNode_def scheduleEntries_evolves evolves_refl split: option.split)

lemma scheduleAll_evolves: "core t \<Longrightarrow> evolves (se_now v) t (scheduleAll v t)"
  unfolding scheduleAll_def using evolves_trans [OF evolves_fold scheduleNode_evolves] scheduleObject_evolves
  by (metis evolves_core evolves_fold)

section \<open>The events\<close>

text \<open>The part of the state the jobs are planned and run from; what the events only follow is the rest.\<close>

definition plan_of :: "sched \<Rightarrow> jobs \<times> (path, (string, entry) gomap) gomap \<times> bool \<times> (job_id, trigger) gomap \<times> sched_effect list" where
  "plan_of t = (s_jobs t, s_schedules t, s_enabled t, s_triggers t, s_trace t)"

lemma plan_evolves: "core t \<Longrightarrow> plan_of t' = plan_of t \<Longrightarrow> evolves now t t'"
  by (rule evolves_frame) (simp_all add: plan_of_def)

lemma follow_plan:
  "plan_of (snd (updateNotSource p st t)) = plan_of t" "plan_of (snd (updateReqSatisfied v p e st t)) = plan_of t"
  "plan_of (snd (sched_updateProvisioned p pr t)) = plan_of t" "plan_of (snd (updateFailover p tp t)) = plan_of t"
  "plan_of (set_lastRunOnAllPeers k tm t) = plan_of t" "plan_of (updateLastRunOnFile v p rid node tm t) = plan_of t"
  "plan_of (t\<lparr>s_provisioned := m\<rparr>) = plan_of t" "plan_of (t\<lparr>s_localStatus := ls\<rparr>) = plan_of t"
  "plan_of (sched_onObjectStatusDeleted p t) = plan_of t"
  by (simp_all add: plan_of_def updateNotSource_def updateReqSatisfied_def sched_updateProvisioned_def updateFailover_def
      set_lastRunOnAllPeers_def updateLastRunOnFile_def sched_onObjectStatusDeleted_def Let_def case_prod_beta split: option.split)

lemma peer_resource_plan: "plan_of (peer_resource v p node lastRuns rid t) = plan_of t"
  by (simp add: peer_resource_def Let_def follow_plan split: option.split prod.split)

lemma peer_plan: "plan_of (onPeerInstanceStatusUpdated v p node st lastRuns t) = plan_of t"
proof -
  have "plan_of (fold (\<lambda>(rid, _). peer_resource v p node lastRuns rid) l t) = plan_of t" for l :: "(string, resource_status) gomap"
    by (induction l arbitrary: t) (simp_all add: case_prod_beta peer_resource_plan)
  then show ?thesis by (simp add: onPeerInstanceStatusUpdated_def)
qed

lemma local_plan: "plan_of (snd (onLocalInstanceStatusUpdated v p st t)) = plan_of t"
proof -
  have "plan_of (snd (fold (\<lambda>(_, e) (changed, t). if sc_Require (en_Config e) = [] then (changed, t)
      else (case updateReqSatisfied v p e st t of (c, t) \<Rightarrow> (changed \<or> c, t))) l x)) = plan_of (snd x)" for l :: "(string, entry) gomap" and x
    by (induction l arbitrary: x) (simp_all add: case_prod_beta follow_plan)
  then show ?thesis
    by (simp add: onLocalInstanceStatusUpdated_def Let_def case_prod_beta follow_plan split: option.split)
qed

lemma src_plan: "plan_of (snd (on_src v p src t)) = plan_of t"
  by (simp add: on_src_def local_plan peer_plan split: src_event.split)

lemma status_updated_cases:
  "\<exists>t'. plan_of t' = plan_of t \<and> sched_onObjectStatusUpdated v p actor src t \<in> {t', scheduleObject v p t'}"
proof (cases actor)
  case (Some tp)
  let ?t = "snd (updateFailover p tp (snd (on_src v p src t)))"
  have "plan_of ?t = plan_of t" by (simp add: follow_plan src_plan)
  moreover have "sched_onObjectStatusUpdated v p actor src t \<in> {?t, scheduleObject v p ?t}"
    using Some by (simp add: sched_onObjectStatusUpdated_def Let_def case_prod_beta)
  ultimately show ?thesis by blast
qed (auto simp: sched_onObjectStatusUpdated_def)

lemma unschedule_ok:
  assumes c: "core t"
  shows "core (unschedule p t) \<and> out (s_jobs (unschedule p t)) \<subseteq> out (s_jobs t) \<and> s_enabled (unschedule p t) = s_enabled t
    \<and> planned (s_jobs (unschedule p t)) \<subseteq> planned (s_jobs t) \<and> set (s_triggers (unschedule p t)) \<subseteq> set (s_triggers t)"
proof -
  let ?u = "unschedule p t"
  have u: "s_jobs ?u = jobs_delPath p (s_jobs t)" "s_schedules ?u = AList.delete p (s_schedules t)" "s_enabled ?u = s_enabled t"
    "s_triggers ?u = UnsetPath p (s_triggers t)" "s_trace ?u = s_trace t"
    by (simp_all add: unschedule_def map_jobs_def Schedules_DelPath_def)
  have J: "jobs_inv (s_jobs ?u)" "known (s_jobs ?u) = (\<lambda>k. if fst k = p then None else known (s_jobs t) k)" "planned (s_jobs ?u) = {k \<in> planned (s_jobs t). fst k \<noteq> p}"
    using jobs_delPath_ok [of "s_jobs t" p] c u by (simp_all add: core_def)
  have get: "Schedules_Get k ?u = Schedules_Get k t" if "fst k \<noteq> p" for k using that u by (simp add: Schedules_Get_def delete_conv)
  have "Schedules_Get k ?u \<noteq> None" if "known (s_jobs ?u) k \<noteq> None" for k
    using that core_schedule [OF c, of k] get [of k] J(2) by (auto split: if_splits)
  moreover have "ids_ok (s_schedules ?u)" using core_ids [OF c] u set_delete_subset [of p "s_schedules t"] by (auto simp: ids_ok_def)
  moreover have tr: "set (s_triggers ?u) \<subseteq> set (s_triggers t)" using u by (auto simp: UnsetPath_def)
  then have "\<forall>x \<in> set (s_triggers ?u). trigger_ok (snd x)" using c by (auto simp: core_def)
  moreover have "\<forall>e l a m. SRun e l a m \<in> set (s_trace ?u) \<longrightarrow> int a < m" using c u by (simp add: core_def)
  ultimately have "core ?u" using J(1) unfolding core_def by blast
  moreover have "out (s_jobs ?u) \<subseteq> out (s_jobs t)" using J by (auto simp: out_def split: if_splits)
  ultimately show ?thesis using u(3) tr J(3) by auto
qed

text \<open>
  The state between two events: every job known is in the queue, and none is known, and no event is
  waited for, while scheduling is disabled.
\<close>

definition at_rest :: "sched \<Rightarrow> bool" where
  "at_rest t = (core t \<and> out (s_jobs t) = {} \<and> (s_enabled t \<or> planned (s_jobs t) = {} \<and> s_triggers t = []))"

lemma evolves_rest: "evolves now t t' \<Longrightarrow> out (s_jobs t) = {} \<Longrightarrow> s_enabled t \<Longrightarrow> at_rest t'"
  by (auto simp: evolves_def at_rest_def)

lemma plan_rest: "at_rest t \<Longrightarrow> plan_of t' = plan_of t \<Longrightarrow> at_rest t'"
  using plan_evolves [of t t'] evolves_core [of _ t t'] by (auto simp: at_rest_def plan_of_def)

lemma schedule_disabled: "\<not> s_enabled t \<Longrightarrow> scheduleObject v p t = t" "\<not> s_enabled t \<Longrightarrow> scheduleNode v t = t"
  by (simp_all add: scheduleObject_def scheduleNode_def)

lemma scheduleAll_disabled: "\<not> s_enabled t \<Longrightarrow> scheduleAll v t = t"
proof -
  assume d: "\<not> s_enabled t"
  then have "fold (scheduleObject v) l t = t" for l by (induction l) (simp_all add: schedule_disabled)
  with d show ?thesis by (simp add: scheduleAll_def schedule_disabled)
qed

lemma scheduling_rest:
  assumes "at_rest t"
  shows "at_rest (scheduleObject v p t)" "at_rest (scheduleNode v t)" "at_rest (scheduleAll v t)" "at_rest (sched_onEvent v key only t)"
  using assms scheduleObject_evolves [of t v p] scheduleNode_evolves [of t v] scheduleAll_evolves [of t v] onEvent_evolves [of t v key only]
  by (cases "s_enabled t"; auto simp: at_rest_def schedule_disabled scheduleAll_disabled sched_onEvent_def evolves_def)+

lemma tick_rest:
  assumes r: "at_rest t"
  shows "at_rest (onTick v t)"
proof (cases "s_enabled t")
  case True
  then show ?thesis using tick_ok [of t v] r by (simp add: at_rest_def)
next
  case False
  then have "jb_queue (s_jobs t) = []" "s_triggers t = []" using r by (auto simp: at_rest_def)
  moreover from this have "popDue (se_now v) (s_jobs t) = ([], s_jobs t)" by (subst popDue.simps) (simp add: jobs_first_def)
  ultimately have "onTick v t = t" by (simp add: onTick_def onTriggersDue_def)
  with r show ?thesis by simp
qed

lemma purge_rest:
  assumes "core t"
  shows "at_rest ((map_jobs jobs_purge t)\<lparr>s_triggers := [], s_enabled := False\<rparr>)"
proof -
  have "Schedules_Get k ((map_jobs jobs_purge t)\<lparr>s_triggers := [], s_enabled := False\<rparr>) = Schedules_Get k t" for k
    by (rule get_same) (simp add: map_jobs_def)
  with assms show ?thesis
    by (simp add: at_rest_def core_def map_jobs_def new_jobs_inv out_def) (simp add: jobs_purge_def)
qed

lemma toggle_rest:
  assumes r: "at_rest t"
  shows "at_rest (toggleEnabled v state t)"
proof -
  have e: "core (t\<lparr>s_enabled := True\<rparr>)" using r by (simp add: at_rest_def core_def Schedules_Get_def)
  have "at_rest (t\<lparr>s_enabled := True\<rparr>)" using r e by (auto simp: at_rest_def)
  then have "at_rest (scheduleAll v (t\<lparr>s_enabled := True\<rparr>))" by (rule scheduling_rest(3))
  moreover have "core t" using r by (simp add: at_rest_def)
  ultimately show ?thesis using r purge_rest by (simp add: toggleEnabled_def)
qed

lemma event_rest:
  assumes r: "at_rest t"
  shows "at_rest (sched_step v ev t)"
proof (cases ev)
  case (EvStatusDeleted p)
  then show ?thesis using unschedule_ok [of t p] r by (auto simp: at_rest_def)
next
  case (EvObjectStatusUpdated p actor src)
  then show ?thesis
    using status_updated_cases [of t v p actor src] plan_rest [OF r] scheduling_rest(1) by auto
next
  case (EvNodeConfigUpdated n)
  have "plan_of (t\<lparr>s_maxRunning := n\<rparr>) = plan_of t" by (simp add: plan_of_def)
  from plan_rest [OF r this] r show ?thesis
    using EvNodeConfigUpdated by (auto simp: sched_onNodeConfigUpdated_def Let_def intro: scheduling_rest)
next
  case (EvCollectorUpdated state)
  have "plan_of (t\<lparr>s_isCollectorJoinable := b\<rparr>) = plan_of t" for b by (simp add: plan_of_def)
  from plan_rest [OF r this] show ?thesis
    using EvCollectorUpdated r by (auto simp: onDaemonCollectorUpdated_def Let_def intro: scheduling_rest)
next
  case EvJobEnd
  have "plan_of (t\<lparr>s_active := s_active t - 1\<rparr>) = plan_of t" by (simp add: plan_of_def)
  from plan_rest [OF r this] EvJobEnd show ?thesis by simp
qed (use r in \<open>simp_all add: toggle_rest scheduling_rest tick_rest plan_rest [OF r] follow_plan\<close>)

lemma new_rest: "at_rest (new_sched localhost)"
  by (simp add: at_rest_def core_def new_sched_def new_jobs_inv out_def ids_ok_def) (simp add: newJobs_def)

lemma play_rest: "at_rest (sched_play l localhost)"
  unfolding sched_play_def
  by (induction l rule: rev_induct) (simp_all add: new_rest event_rest case_prod_beta)

text \<open>
  C17. Whatever the events received, between two of them the jobs known are the ones in the queue, each
  of a schedule the object still has; while scheduling is disabled none is planned and no event is
  waited for; and every run was started with less jobs running than the node runs at most.
\<close>

theorem scheduler_invariant:
  "let t = sched_play l localhost
   in dom (known (s_jobs t)) = planned (s_jobs t)
    \<and> planned (s_jobs t) \<subseteq> {k. Schedules_Get k t \<noteq> None}
    \<and> (s_enabled t \<or> planned (s_jobs t) = {} \<and> s_triggers t = [])
    \<and> {(a, m). \<exists>e last. SRun e last a m \<in> set (s_trace t)} \<subseteq> {(a, m). int a < m}"
proof -
  let ?t = "sched_play l localhost"
  have r: "core ?t" "out (s_jobs ?t) = {}" "s_enabled ?t \<or> planned (s_jobs ?t) = {} \<and> s_triggers ?t = []"
    using play_rest [of l localhost] by (simp_all add: at_rest_def)
  have ok: "pos_ok (s_jobs ?t)" using r(1) by (simp add: core_def jobs_inv_def)
  have "dom (known (s_jobs ?t)) = planned (s_jobs ?t)"
    using r(2) pos_ok_known [OF ok] unfolding out_def by blast
  moreover have "planned (s_jobs ?t) \<subseteq> {k. Schedules_Get k ?t \<noteq> None}"
    using core_schedule [OF r(1)] pos_ok_known [OF ok] by blast
  moreover have "{(a, m). \<exists>e last. SRun e last a m \<in> set (s_trace ?t)} \<subseteq> {(a, m). int a < m}"
    using r(1) by (auto simp: core_def)
  ultimately show ?thesis using r(3) by (simp add: Let_def)
qed

text \<open>
  Whatever happened before, a tick leaves no job due in the past: each job due was planned again
  from then on, to be held or for its next date, or is of no more use.
\<close>

theorem tick_replans_due_jobs:
  "let t = onTick v (sched_play l localhost)
   in planned (s_jobs t) \<subseteq> {k. se_now v \<le> due_at (s_jobs t) k} \<and> dom (known (s_jobs t)) = planned (s_jobs t)"
proof -
  let ?t = "onTick v (sched_play l localhost)"
  have t: "core ?t" "out (s_jobs ?t) = {}" "\<forall>k \<in> planned (s_jobs ?t). se_now v \<le> due_at (s_jobs ?t) k"
    using tick_ok [of "sched_play l localhost" v] play_rest [of l localhost] by (simp_all add: at_rest_def)
  have "pos_ok (s_jobs ?t)" using t(1) by (simp add: core_def jobs_inv_def)
  from pos_ok_known [OF this] t(2) have "dom (known (s_jobs ?t)) = planned (s_jobs ?t)" unfolding out_def by blast
  with t(3) show ?thesis by (auto simp: Let_def)
qed

end
