(* ===== verification/Sched_Live.thy ===== *)
theory Sched_Live
  imports Sched_Props
begin

text \<open>
  A job due starts: what a tick does for the other jobs leaves the requirements of a job alone, and
  takes one place of the parallelism of the node each, so that a job due whose requirements are met
  runs at the first tick, when there is a place for every job due.
\<close>

section \<open>What the run of a job depends on\<close>

definition gates :: "sched \<Rightarrow> bool \<times> (path, string) gomap \<times> (path, bool) gomap \<times> (path, bool) gomap \<times> (job_id, req_error option) gomap" where
  "gates t = (s_isCollectorJoinable t, s_notSource t, s_provisioned t, s_failover t, s_reqSatisfied t)"

lemma gates_block:
  assumes "gates t' = gates t"
  shows "blockReason e t' = blockReason e t"
proof -
  have eqs: "s_isCollectorJoinable t' = s_isCollectorJoinable t" "s_notSource t' = s_notSource t" "s_provisioned t' = s_provisioned t" "s_reqSatisfied t' = s_reqSatisfied t"
    using assms by (simp_all add: gates_def)
  show ?thesis unfolding blockReason_def Let_def eqs by (rule refl)
qed

lemma gates_skip: "gates t' = gates t \<Longrightarrow> skipReason v e t' = skipReason v e t"
  unfolding skipReason_def using gates_block [of t' t] by (simp only: refl)

lemma gates_peer:
  "gates t' = gates t \<Longrightarrow> map_of (s_lastRunOnAllPeers t') (entry_id e) = map_of (s_lastRunOnAllPeers t) (entry_id e) \<Longrightarrow>
    peerInstanceLastRun e t' = peerInstanceLastRun e t"
  by (simp add: gates_def peerInstanceLastRun_def isFailover_def lkp_def)

lemma skip_lastRun: "skipReason v (e\<lparr>en_LastRunAt := l\<rparr>) t = skipReason v e t"
proof -
  have "en_Path (e\<lparr>en_LastRunAt := l\<rparr>) = en_Path e" "en_Config (e\<lparr>en_LastRunAt := l\<rparr>) = en_Config e" by simp_all
  then show ?thesis unfolding skipReason_def blockReason_def entry_id_def Let_def by (simp only: refl)
qed

text \<open>An operation for another job than \<open>k\<close>.\<close>

definition aside :: "job_id \<Rightarrow> sched \<Rightarrow> sched \<Rightarrow> bool" where
  "aside k t t' =
    (gates t' = gates t \<and> s_schedules t' = s_schedules t \<and> known (s_jobs t') k = known (s_jobs t) k
     \<and> map_of (s_lastRunOnAllPeers t') k = map_of (s_lastRunOnAllPeers t) k
     \<and> s_maxRunning t' = s_maxRunning t)"

definition traces :: "nat \<Rightarrow> sched \<Rightarrow> sched \<Rightarrow> bool" where
  "traces n t t' = ((\<exists>new. s_trace t' = s_trace t @ new) \<and> s_active t' \<le> s_active t + n)"

lemma aside_refl: "aside k t t"
  by (simp add: aside_def)

lemma aside_trans: "aside k t t' \<Longrightarrow> aside k t' t'' \<Longrightarrow> aside k t t''"
  by (simp add: aside_def)

lemma traces_refl: "traces n t t"
  by (simp add: traces_def)

lemma traces_trans: "traces n t t' \<Longrightarrow> traces m t' t'' \<Longrightarrow> traces (n + m) t t''"
  by (auto simp: traces_def)

lemma traces_frame: "s_trace t' = s_trace t \<Longrightarrow> s_active t' = s_active t \<Longrightarrow> traces n t t'"
  by (simp add: traces_def)

lemma jobs_aside:
  assumes "core t" "k \<noteq> entry_id e"
  shows "aside k t (t\<lparr>s_jobs := jobs_del (entry_id e) (s_jobs t)\<rparr>)" "aside k t (t\<lparr>s_jobs := jobs_set e n (s_jobs t)\<rparr>)"
proof -
  have "jobs_inv (s_jobs t)" using assms(1) by (simp add: core_def)
  then have "known (jobs_del (entry_id e) (s_jobs t)) k = known (s_jobs t) k" "known (jobs_set e n (s_jobs t)) k = known (s_jobs t) k"
    using assms(2) jobs_del_ok [of "s_jobs t" "entry_id e"] jobs_set_ok [of "s_jobs t" e n] by simp_all
  then show "aside k t (t\<lparr>s_jobs := jobs_del (entry_id e) (s_jobs t)\<rparr>)" "aside k t (t\<lparr>s_jobs := jobs_set e n (s_jobs t)\<rparr>)"
    by (simp_all add: aside_def gates_def)
qed

lemma planJob_aside: "core t \<Longrightarrow> k \<noteq> entry_id e \<Longrightarrow> aside k t (planJob v e t)"
  using planJob_jobs [of v e t] jobs_aside(1) [of t k e] jobs_aside(2) [of t k] by (elim exE conjE disjE) simp_all

lemma exposed_aside: "aside k t (updateExposedSchedules p t)" "traces n t (updateExposedSchedules p t)"
  by (simp_all add: updateExposedSchedules_def s_emit_def aside_def traces_def gates_def)

lemma planJob_traces: "traces n t (planJob v e t)"
  by (rule traces_frame) simp_all

lemma run_aside: "aside k t (sched_run v e l t)" "traces 1 t (sched_run v e l t)"
  by (simp_all add: sched_run_def SetLastRun_def s_emit_def aside_def gates_def traces_def Let_def)

lemma peers_aside: "k \<noteq> k' \<Longrightarrow> aside k t (set_lastRunOnAllPeers k' tm t)" "traces n t (set_lastRunOnAllPeers k' tm t)"
  by (simp_all add: set_lastRunOnAllPeers_def aside_def gates_def traces_def update_conv)

lemma take_aside:
  "k \<noteq> entry_id e \<Longrightarrow> aside k t (take_job v e l t)" "traces 1 t (take_job v e l t)"
  using aside_trans [OF peers_aside(1) run_aside(1)] traces_trans [OF peers_aside(2) [where n = 0] run_aside(2)]
  by (simp_all add: take_job_def aside_refl traces_refl split: option.split)

lemma hold_aside:
  assumes "core t" "k \<noteq> entry_id e"
  shows "aside k t (holdJob v due e t)"
proof -
  define e' where "e' = e\<lparr>en_LastRunAt := en_LastRunAt due, en_NextRunAt := se_now v + holdRetryDelay\<rparr>"
  have "entry_id e' = entry_id e" by (simp add: e'_def entry_id_def)
  then have "aside k t (t\<lparr>s_jobs := jobs_set e' (se_now v) (s_jobs t)\<rparr>)"
    using jobs_aside(2) [OF assms(1), of k e'] assms(2) by simp
  then show ?thesis unfolding holdJob_def e'_def [symmetric] map_jobs_def by (rule aside_trans [OF _ exposed_aside(1)])
qed

lemma hold_traces: "traces n t (holdJob v due e t)"
  using traces_trans [OF traces_frame exposed_aside(2) [where n = 0]] by (simp add: holdJob_def map_jobs_def)

lemma due_aside:
  assumes c: "core t" and k: "k \<noteq> entry_id due"
  shows "aside k t (onJobDue v due t)"
proof (cases "Schedules_Get (entry_id due) t")
  case None
  then show ?thesis using jobs_aside(1) [OF c k] by (simp add: onJobDue_def map_jobs_def)
next
  case (Some e)
  have id: "entry_id e = entry_id due" "entry_id (e\<lparr>en_LastRunAt := l\<rparr>) = entry_id e" for l
    using core_id [OF c Some] by (simp_all add: entry_id_def)
  have plan: "aside k t (updateExposedSchedules q (planJob v (e\<lparr>en_LastRunAt := l\<rparr>) t))" for l q
    using aside_trans [OF planJob_aside [OF c] exposed_aside(1)] k id by metis
  have "aside k t (take_job v (e\<lparr>en_LastRunAt := l\<rparr>) l (updateExposedSchedules q (planJob v (e\<lparr>en_LastRunAt := l\<rparr>) t)))" for l q
    using aside_trans [OF plan take_aside(1)] k id by metis
  with plan hold_aside [OF c, of k e v due] k id Some show ?thesis by (simp add: onJobDue_def Let_def)
qed

lemma due_traces: "traces 1 t (onJobDue v due t)"
proof -
  have plan: "traces 0 t (updateExposedSchedules q (planJob v e t))" for e q
    using traces_trans [OF planJob_traces [where n = 0] exposed_aside(2) [where n = 0]] by simp
  have "traces 1 t (take_job v e l (updateExposedSchedules q (planJob v e t)))" for e l q
    using traces_trans [OF plan take_aside(2)] by simp
  moreover have "traces 1 t (updateExposedSchedules q (planJob v e t))" for e q using plan by (auto simp: traces_def)
  ultimately show ?thesis
    by (simp add: onJobDue_def Let_def hold_traces map_jobs_def traces_frame split: option.split)
qed

section \<open>The triggers\<close>

lemma traces_fold: "(\<And>x t. traces 1 t (f x t)) \<Longrightarrow> traces (length l) t (fold f l t)"
proof (induction l arbitrary: t)
  case (Cons x l)
  from traces_trans [OF Cons.prems Cons.IH [OF Cons.prems]] show ?case by simp
qed (simp add: traces_refl)

lemma record_traces: "traces 0 t (recordEventRun v p e t)"
proof -
  have "traces 0 t (Schedules_Add p e' t)" for e' by (rule traces_frame) (simp_all add: Schedules_Add_def)
  then have "traces 0 t (case j of None \<Rightarrow> Schedules_Add p e' t | Some j \<Rightarrow> planJob v (g j) (Schedules_Add p e' t))" for e' g j
    using traces_trans [OF _ planJob_traces [where n = 0]] by (auto split: option.split)
  from traces_trans [OF traces_trans [OF this peers_aside(2) [where n = 0]] exposed_aside(2) [where n = 0]]
  show ?thesis unfolding recordEventRun_def Let_def by simp
qed

lemma runTrigger_traces: "traces 1 t (runTrigger v p e g late t)"
proof -
  have s: "traces n t (set_trigger k g' t)" for n k g' by (rule traces_frame) (simp_all add: set_trigger_def)
  have "traces 1 t (sched_run v e now (recordEventRun v p e (set_trigger k g' t)))" for now k g'
    using traces_trans [OF traces_trans [OF s [where n = 0] record_traces] run_aside(2)] by simp
  with s show ?thesis by (simp add: runTrigger_def Let_def split: option.split)
qed

lemma triggers_traces: "traces (length (s_triggers t)) t (onTriggersDue v t)"
  unfolding onTriggersDue_def
  by (rule traces_fold) (simp add: trigger_due_def case_prod_beta runTrigger_traces [simplified] traces_frame split: option.split)

section \<open>Ticks\<close>

definition take_known :: "sched_env \<Rightarrow> job_id \<Rightarrow> sched \<Rightarrow> sched" where
  "take_known v k t = (case known (s_jobs t) k of None \<Rightarrow> t | Some due \<Rightarrow> onJobDue v due t)"

lemma take_known_core: "core t \<Longrightarrow> core (take_known v k t)"
  using take_due [of t v k] by (simp add: take_known_def evolves_def)

lemma take_known_traces: "traces 1 t (take_known v k t)"
  by (simp add: take_known_def due_traces [simplified] traces_refl split: option.split)

lemma take_known_aside: "core t \<Longrightarrow> k \<noteq> k' \<Longrightarrow> aside k t (take_known v k' t)"
  using core_known_id [of t k'] due_aside [of t k] by (auto simp: take_known_def aside_refl split: option.split)

lemma takes_aside:
  "core t \<Longrightarrow> k \<notin> set l \<Longrightarrow> core (fold (take_known v) l t) \<and> aside k t (fold (take_known v) l t)"
proof (induction l arbitrary: t)
  case (Cons x l)
  then have "core (take_known v x t)" "aside k t (take_known v x t)" by (simp_all add: take_known_core take_known_aside)
  with Cons aside_trans show ?case by fastforce
qed (simp add: aside_refl)

text \<open>The run of a job due, when nothing is against it.\<close>

lemma due_starts:
  assumes c: "core t" and e: "Schedules_Get (entry_id due) t = Some e"
    and free: "int (s_active t) < s_maxRunning t"
    and ok: "peerInstanceLastRun e t \<le> en_LastRunAt due" "\<not> holdReason v e" "\<not> skipReason v e t"
    and n: "runningCount v (e\<lparr>en_LastRunAt := lastRun\<rparr>) = Some n" "n < sc_MaxParallel (en_Config e)"
    and l: "lastRun = (if se_now v - en_NextRunAt due > lateTolerance then se_now v else en_NextRunAt due)"
  shows "\<exists>new. s_trace (onJobDue v due t) = s_trace t @ new @ [SRun (e\<lparr>en_LastRunAt := lastRun\<rparr>) lastRun (s_active t) (s_maxRunning t)]"
proof -
  define e' where "e' = e\<lparr>en_LastRunAt := lastRun\<rparr>"
  let ?t = "updateExposedSchedules (en_Path e') (planJob v e' t)"
  have g: "gates ?t = gates t"
    using planJob_jobs [of v e' t] by (auto simp: gates_def updateExposedSchedules_def s_emit_def)
  have nf: "\<not> fullReason t" using free by (simp add: fullReason_def)
  have "onJobDue v due t = take_job v e' lastRun ?t"
    unfolding onJobDue_def e'_def Let_def l using e ok nf by (simp add: not_less [symmetric])
  also have "\<dots> = sched_run v e' lastRun (set_lastRunOnAllPeers (entry_id e') lastRun ?t)"
    using gates_skip [OF g, where v = v and e = e'] skip_lastRun [where v = v and e = e and l = lastRun and t = t] ok n by (simp add: take_job_def e'_def)
  finally have "s_trace (onJobDue v due t) = s_trace ?t @ [SRun e' lastRun (s_active t) (s_maxRunning t)]"
    by (simp add: sched_run_def SetLastRun_def s_emit_def set_lastRunOnAllPeers_def Let_def)
  moreover have "\<exists>new. s_trace ?t = s_trace t @ new" by (simp add: updateExposedSchedules_def s_emit_def)
  ultimately show ?thesis by (auto simp: e'_def)
qed

lemma tick_starts:
  assumes r: "at_rest t" and k: "k \<in> planned (s_jobs t)" "due_at (s_jobs t) k \<le> se_now v"
    and d: "known (s_jobs t) k = Some due" and e: "Schedules_Get k t = Some e"
    and free: "int (s_active t) + int (card {k \<in> planned (s_jobs t). due_at (s_jobs t) k \<le> se_now v}) \<le> s_maxRunning t"
    and ok: "peerInstanceLastRun e t \<le> en_LastRunAt due" "\<not> holdReason v e" "\<not> skipReason v e t"
    and n: "runningCount v (e\<lparr>en_LastRunAt := lastRun\<rparr>) = Some n" "n < sc_MaxParallel (en_Config e)"
    and l: "lastRun = (if se_now v - en_NextRunAt due > lateTolerance then se_now v else en_NextRunAt due)"
  shows "\<exists>new a m. s_trace (onTick v t) = s_trace t @ new \<and> SRun (e\<lparr>en_LastRunAt := lastRun\<rparr>) lastRun a m \<in> set new"
proof -
  have c: "core t" using r by (simp add: at_rest_def)
  obtain ks J where p: "popDue (se_now v) (s_jobs t) = (ks, J)" by force
  have J: "jobs_inv J" "known J = known (s_jobs t)" "set ks = {k \<in> planned (s_jobs t). due_at (s_jobs t) k \<le> se_now v}" "distinct ks"
    using popDue_ok [of "s_jobs t" "se_now v"] c p by (simp_all add: core_def)
  let ?t = "t\<lparr>s_jobs := J\<rparr>"
  have ct: "core ?t" using c J unfolding core_def by simp
  obtain l1 l2 where ks: "ks = l1 @ k # l2" "k \<notin> set l1" using J(3,4) k by (metis (no_types, lifting) mem_Collect_eq split_list_first)
  let ?s = "fold (take_known v) l1 ?t" and ?u = "onJobDue v due (fold (take_known v) l1 ?t)"
  have s: "core ?s" "aside k ?t ?s" using takes_aside [OF ct ks(2)] by simp_all
  have tr: "traces (length l1) ?t ?s" by (rule traces_fold [OF take_known_traces])
  have "card (set ks) = length ks" by (rule distinct_card [OF J(4)])
  then have "int (length ks) + int (s_active t) \<le> s_maxRunning t" using free J(3) by simp
  then have f: "int (s_active ?s) < s_maxRunning ?s" using tr s(2) ks(1) by (simp add: traces_def aside_def)
  have id: "entry_id due = k" "entry_id e = k" using core_known_id [OF c d] core_id [OF c e] by simp_all
  have gs: "gates ?s = gates t" "known (s_jobs ?s) k = Some due" "Schedules_Get k ?s = Some e"
    using s(2) d e J(2) get_same [of ?s ?t k] by (simp_all add: aside_def gates_def)
  have pl: "peerInstanceLastRun e ?s = peerInstanceLastRun e t"
    using s(2) gates_peer [OF gs(1), where e = e] id by (simp add: aside_def)
  obtain new a m where u: "s_trace ?u = s_trace ?s @ new @ [SRun (e\<lparr>en_LastRunAt := lastRun\<rparr>) lastRun a m]"
    using due_starts [OF s(1) _ f _ ok(2) _ n l] gs(3) id pl ok gates_skip [OF gs(1), where v = v and e = e] by metis
  have "fold (take_known v) ks ?t = fold (take_known v) l2 ?u" using ks(1) gs(2) by (simp add: take_known_def)
  then have "onTick v t = onTriggersDue v (fold (take_known v) l2 ?u)"
    using p by (simp add: onTick_def take_known_def [abs_def])
  moreover have "traces (length l2) ?u (fold (take_known v) l2 ?u)" by (rule traces_fold [OF take_known_traces])
  from traces_trans [OF this triggers_traces] obtain new' where "s_trace (onTriggersDue v (fold (take_known v) l2 ?u)) = s_trace ?u @ new'"
    by (auto simp: traces_def)
  moreover obtain new'' where "s_trace ?s = s_trace t @ new''" using tr by (auto simp: traces_def)
  ultimately show ?thesis using u by (intro exI [of _ "new'' @ new @ SRun (e\<lparr>en_LastRunAt := lastRun\<rparr>) lastRun a m # new'"]) auto
qed

text \<open>
  C16. A job due starts at the next tick, whatever happened before: when its last run is not behind the
  one of the peers, nothing holds nor blocks it, it runs less often than its own parallelism, and the
  node has a place for every job due. The run is dated of the time it was due, or of the tick when it
  is too late.
\<close>

theorem due_job_starts:
  assumes "t = sched_play l localhost" "k \<in> planned (s_jobs t)" "due_at (s_jobs t) k \<le> se_now v"
    and "known (s_jobs t) k = Some due" "Schedules_Get k t = Some e"
    and "int (s_active t) + int (card {k \<in> planned (s_jobs t). due_at (s_jobs t) k \<le> se_now v}) \<le> s_maxRunning t"
    and "peerInstanceLastRun e t \<le> en_LastRunAt due" "\<not> holdReason v e" "\<not> skipReason v e t"
    and "runningCount v (e\<lparr>en_LastRunAt := lastRun\<rparr>) = Some n" "n < sc_MaxParallel (en_Config e)"
    and "lastRun = (if se_now v - en_NextRunAt due > lateTolerance then se_now v else en_NextRunAt due)"
  shows "\<exists>new a m. s_trace (onTick v t) = s_trace t @ new \<and> SRun (e\<lparr>en_LastRunAt := lastRun\<rparr>) lastRun a m \<in> set new"
  using tick_starts [OF play_rest [of l localhost, folded assms(1)] assms(2-)] .

text \<open>A node that pushes its inventory: planned once the node is idle, and run at the tick it is due.\<close>

definition push_config :: sched_config where
  "push_config =
    \<lparr>sc_Action = ''pushasset'', sc_Schedule = ''@1m'', sc_Key = ''asset.schedule'', sc_MaxParallel = 1, sc_Require = [],
     sc_RequireCollector = False, sc_RequireProvisioned = False, sc_RunDir = [], sc_RequireReplicationSource = False,
     sc_On = [], sc_Pace = [], sc_StatefileKey = ''asset''\<rparr>"

definition push_env :: "time \<Rightarrow> sched_env" where
  "push_env now =
    \<lparr>se_now = now, se_next = (\<lambda>_ last now. Some (max now (last + minute))), se_conv = (\<lambda>_. None), se_requirements = (\<lambda>_. []),
     se_monitor = (\<lambda>_. None), se_nodeDrained = False, se_runningCount = (\<lambda>_. Some 0), se_touchErr = False, se_varDir = (\<lambda>_. True),
     se_config = (\<lambda>_. None), se_nodeConfig = Some [push_config], se_statusPaths = []\<rparr>"

definition push_entry :: entry where
  "push_entry = \<lparr>en_Config = push_config, en_LastRunAt = 0, en_NextRunAt = 0, en_Node = ''n1'', en_Path = path_zero\<rparr>"

definition push_state :: sched where
  "push_state = sched_play [(push_env minute, EvNodeMonitorUpdated NodeStateIdle)] ''n1''"

lemma push_queue: "jb_queue (s_jobs push_state) = [(path_zero, ''asset.schedule'')]"
  by code_simp

lemma push_known:
  "known (s_jobs push_state) (path_zero, ''asset.schedule'') = Some (push_entry\<lparr>en_NextRunAt := minute\<rparr>)"
  "Schedules_Get (path_zero, ''asset.schedule'') push_state = Some push_entry"
  by code_simp+

lemma push_free: "s_active push_state = 0" "s_maxRunning push_state = 5" "due_at (s_jobs push_state) (path_zero, ''asset.schedule'') = minute"
  by code_simp+

theorem due_job_starts_witness:
  "\<exists>new a m. s_trace (onTick (push_env (2 * minute)) push_state) = s_trace push_state @ new
    \<and> SRun (push_entry\<lparr>en_LastRunAt := 2 * minute\<rparr>) (2 * minute) a m \<in> set new"
proof -
  let ?v = "push_env (2 * minute)" and ?k = "(path_zero, ''asset.schedule'')"
  have now: "se_now ?v = 2 * minute" by (simp add: push_env_def)
  have late: "minute \<le> 2 * minute" "2 * minute - minute > lateTolerance" by (simp_all add: minute_def second_def lateTolerance_def)
  have "{k \<in> planned (s_jobs push_state). due_at (s_jobs push_state) k \<le> se_now ?v} = {?k}"
    using late by (auto simp: push_queue push_free now)
  then have "int (s_active push_state) + int (card {k \<in> planned (s_jobs push_state). due_at (s_jobs push_state) k \<le> se_now ?v}) \<le> s_maxRunning push_state"
    by (simp add: push_free)
  moreover have "peerInstanceLastRun push_entry push_state \<le> en_LastRunAt (push_entry\<lparr>en_NextRunAt := minute\<rparr>)" by code_simp
  moreover have "\<not> holdReason ?v push_entry" "\<not> skipReason ?v push_entry push_state" by code_simp+
  moreover have "runningCount ?v (push_entry\<lparr>en_LastRunAt := 2 * minute\<rparr>) = Some (- 1)" "- 1 < sc_MaxParallel (en_Config push_entry)"
    by (simp_all add: runningCount_def push_entry_def push_config_def)
  ultimately show ?thesis
    using late push_queue push_known push_free now
    by (intro due_job_starts [OF push_state_def, where k = ?k and due = "push_entry\<lparr>en_NextRunAt := minute\<rparr>" and n = "- 1"]) simp_all
qed

end
