(* ===== verification/Runner.thy ===== *)
theory Runner
  imports Go_Heap
begin

text \<open>
  The queue of priorities, \<open>util/prioqueue/main.go\<close>, and the runner of the actions of the instances,
  \<open>daemon/runner/main.go\<close>: the actions staged are queued by priority, and each tick starts them while
  less than the most the node runs are running. The capacity a slice is given when it grows is a
  parameter, \<open>grow\<close>; the actions that end while the loop of a tick runs are its first argument.
\<close>

section \<open>The queue of priorities\<close>

record item =
  it_label :: string
  it_priority :: int
  it_queuedAt :: "time"

definition item_Before :: "item \<Rightarrow> item \<Rightarrow> bool" where
  "item_Before a b = (it_priority a < it_priority b)"

record heapMemory =
  hm_slice :: "item list"
  hm_cap :: nat

definition shrinkMinCap :: nat where "shrinkMinCap = 1000"
definition shrinkNewSizeFactor :: nat where "shrinkNewSizeFactor = 2"
definition shrinkCapLenFactorCondition :: nat where "shrinkCapLenFactorCondition = 4"

definition newHeapMemory :: heapMemory where
  "newHeapMemory = \<lparr>hm_slice = [], hm_cap = 0\<rparr>"

definition heapMemory_Less :: "heapMemory \<Rightarrow> nat \<Rightarrow> nat \<Rightarrow> bool" where
  "heapMemory_Less h i j = item_Before (hm_slice h ! i) (hm_slice h ! j)"

definition heapMemory_Swap :: "nat \<Rightarrow> nat \<Rightarrow> heapMemory \<Rightarrow> heapMemory" where
  "heapMemory_Swap i j h = h\<lparr>hm_slice := swapped i j (hm_slice h)\<rparr>"

definition heapMemory_Push :: "(nat \<Rightarrow> nat) \<Rightarrow> item \<Rightarrow> heapMemory \<Rightarrow> heapMemory" where
  "heapMemory_Push grow x h =
    \<lparr>hm_slice = hm_slice h @ [x], hm_cap = (if length (hm_slice h) < hm_cap h then hm_cap h else grow (hm_cap h))\<rparr>"

text \<open>The slice copied in a smaller one, of the same length once the item is taken.\<close>

definition shrinkIfNeeded :: "heapMemory \<Rightarrow> heapMemory \<times> nat" where
  "shrinkIfNeeded h =
    (let l = length (hm_slice h); c = hm_cap h
     in if c > shrinkMinCap \<and> c div l > shrinkCapLenFactorCondition then (h\<lparr>hm_cap := shrinkNewSizeFactor * l\<rparr>, l) else (h, l))"

definition heapMemory_Pop :: "heapMemory \<Rightarrow> item \<times> heapMemory" where
  "heapMemory_Pop h = (let (old, n) = shrinkIfNeeded h in (hm_slice old ! (n - 1), old\<lparr>hm_slice := take (n - 1) (hm_slice old)\<rparr>))"

definition Queue_Push :: "(nat \<Rightarrow> nat) \<Rightarrow> item \<Rightarrow> heapMemory \<Rightarrow> heapMemory" where
  "Queue_Push grow x h = heap_up heapMemory_Less heapMemory_Swap (length (hm_slice h)) (heapMemory_Push grow x h)"

definition Queue_Pop :: "heapMemory \<Rightarrow> (item \<times> heapMemory) option" where
  "Queue_Pop h =
    (if length (hm_slice h) = 0 then None
     else Some (heapMemory_Pop (heap_pop heapMemory_Less heapMemory_Swap (length (hm_slice h)) h)))"

interpretation pq: heap_ops hm_slice it_priority heapMemory_Less heapMemory_Swap
  by unfold_locales (simp_all add: heapMemory_Less_def item_Before_def heapMemory_Swap_def)

text \<open>The queue is the bag of its items, of which the next one has the least priority.\<close>

definition queue_ok :: "heapMemory \<Rightarrow> bool" where
  "queue_ok h = heap it_priority (hm_slice h) (length (hm_slice h))"

lemma new_queue_ok: "queue_ok newHeapMemory"
  by (simp add: queue_ok_def newHeapMemory_def heap_def)

lemma Queue_Push_ok:
  assumes "queue_ok h"
  shows "queue_ok (Queue_Push grow x h) \<and> mset (hm_slice (Queue_Push grow x h)) = add_mset x (mset (hm_slice h))"
  using pq.push_heap [of h "heapMemory_Push grow x h" x] assms
  by (simp add: Queue_Push_def queue_ok_def heapMemory_Push_def)

lemma heapMemory_Pop_slice: "hm_slice h \<noteq> [] \<Longrightarrow> heapMemory_Pop h = (x, h') \<Longrightarrow> x = last (hm_slice h) \<and> hm_slice h' = butlast (hm_slice h)"
  by (auto simp: heapMemory_Pop_def shrinkIfNeeded_def Let_def butlast_conv_take last_conv_nth split: if_splits)

lemma Queue_Pop_ok:
  assumes ok: "queue_ok h" and p: "Queue_Pop h = Some (x, h')"
  shows "queue_ok h' \<and> mset (hm_slice h) = add_mset x (mset (hm_slice h')) \<and> (\<forall>y \<in> set (hm_slice h). it_priority x \<le> it_priority y)"
proof -
  let ?p = "heap_pop heapMemory_Less heapMemory_Swap (length (hm_slice h)) h" and ?n = "length (hm_slice h)"
  have ne: "hm_slice h \<noteq> []" and pop: "heapMemory_Pop ?p = (x, h')" using p by (auto simp: Queue_Pop_def split: if_splits)
  note ph = pq.pop_heap [OF ok [unfolded queue_ok_def] ne]
  have ne': "hm_slice ?p \<noteq> []" using ph(2) ne by auto
  have x: "x = last (hm_slice ?p)" "hm_slice h' = butlast (hm_slice ?p)" using heapMemory_Pop_slice [OF ne' pop] by simp_all
  have first: "x = hm_slice h ! 0" using x(1) ne' ph(2,4) by (simp add: last_conv_nth)
  have "heap it_priority (hm_slice h') (length (hm_slice h'))"
    using heap_butlast [of it_priority "hm_slice ?p"] ph(1,2) x(2) by simp
  moreover have "mset (hm_slice ?p) = add_mset x (mset (hm_slice h'))"
    using append_butlast_last_id [OF ne'] x by (metis mset.simps(2) mset_append union_mset_add_mset_right mset.simps(1) add.right_neutral)
  moreover have "it_priority x \<le> it_priority y" if "y \<in> set (hm_slice h)" for y
    using that heap_least [OF ok [unfolded queue_ok_def]] first by (metis in_set_conv_nth)
  ultimately show ?thesis using ph(3) by (simp add: queue_ok_def)
qed

lemma Queue_Pop_length: "Queue_Pop h = Some (x, h') \<Longrightarrow> length (hm_slice h') < length (hm_slice h)"
proof -
  assume p: "Queue_Pop h = Some (x, h')"
  let ?p = "heap_pop heapMemory_Less heapMemory_Swap (length (hm_slice h)) h"
  have ne: "hm_slice h \<noteq> []" using p by (auto simp: Queue_Pop_def)
  have "length (hm_slice ?p) = length (hm_slice h)"
    using pq.down_shuffled [of "length (hm_slice h) - 1" "heapMemory_Swap 0 (length (hm_slice h) - 1) h" 0] ne
    by (simp add: heap_pop_def pq.shuffled_def heapMemory_Swap_def)
  moreover from this have "hm_slice ?p \<noteq> []" using ne by auto
  then have "hm_slice h' = butlast (hm_slice ?p)" using p heapMemory_Pop_slice [of ?p x h'] ne by (simp add: Queue_Pop_def)
  ultimately show ?thesis using ne by simp
qed

section \<open>The runner\<close>

datatype runner_effect =
    RStart item int int
  | REnd item

text \<open>\<open>r_active\<close> are the actions started and not ended; \<open>r_running\<close> is the counter, of 32 bits.\<close>

record runner =
  r_running :: int
  r_maxRunning :: int
  r_statusMax :: int
  r_queue :: heapMemory
  r_active :: "item list"
  r_trace :: "runner_effect list"

definition new_runner :: runner where
  "new_runner = \<lparr>r_running = 0, r_maxRunning = 5, r_statusMax = 0, r_queue = newHeapMemory, r_active = [], r_trace = []\<rparr>"

definition int32 :: "int \<Rightarrow> int" where
  "int32 n = signed_take_bit 31 n"

definition action_end :: "nat \<Rightarrow> runner \<Rightarrow> runner" where
  "action_end i t =
    (if i < length (r_active t)
     then t\<lparr>r_active := take i (r_active t) @ drop (Suc i) (r_active t), r_running := int32 (r_running t - 1), r_trace := r_trace t @ [REnd (r_active t ! i)]\<rparr>
     else t)"

definition action_start :: "item \<Rightarrow> runner \<Rightarrow> runner" where
  "action_start x t =
    t\<lparr>r_running := int32 (r_running t + 1), r_active := r_active t @ [x], r_trace := r_trace t @ [RStart x (r_running t) (int32 (r_maxRunning t))]\<rparr>"

lemma end_queue [simp]: "r_queue (action_end i t) = r_queue t" "r_maxRunning (action_end i t) = r_maxRunning t"
  by (simp_all add: action_end_def)

lemma ends_queue [simp]: "r_queue (fold action_end l t) = r_queue t" "r_maxRunning (fold action_end l t) = r_maxRunning t"
  by (induction l arbitrary: t) simp_all

text \<open>The loop of a tick; before each turn, some of the actions running end.\<close>

function runner_run :: "nat list list \<Rightarrow> runner \<Rightarrow> runner" where
  "runner_run ends t =
    (let t = (case ends of [] \<Rightarrow> t | l # _ \<Rightarrow> fold action_end l t)
     in if r_running t \<ge> int32 (r_maxRunning t) then t
        else case Queue_Pop (r_queue t) of
               None \<Rightarrow> t
             | Some (x, q) \<Rightarrow> runner_run (tl ends) (action_start x (t\<lparr>r_queue := q\<rparr>)))"
  by pat_completeness auto

termination
  by (relation "measure (\<lambda>(ends, t). length (hm_slice (r_queue t)))")
    (auto simp: action_start_def dest!: Queue_Pop_length split: list.splits)

declare runner_run.simps [simp del]

definition runner_stage :: "(nat \<Rightarrow> nat) \<Rightarrow> time \<Rightarrow> item \<Rightarrow> runner \<Rightarrow> runner" where
  "runner_stage grow now x t =
    (let x = (if r_running t + int (length (hm_slice (r_queue t))) \<ge> r_maxRunning t then x\<lparr>it_queuedAt := now\<rparr> else x)
     in t\<lparr>r_queue := Queue_Push grow x (r_queue t)\<rparr>)"

definition runner_onNodeConfigUpdated :: "int \<Rightarrow> runner \<Rightarrow> runner" where
  "runner_onNodeConfigUpdated n t =
    (if n > 0
     then (let t = t\<lparr>r_maxRunning := n\<rparr> in if r_statusMax t \<noteq> r_maxRunning t then t\<lparr>r_statusMax := r_maxRunning t\<rparr> else t)
     else t)"

definition runner_SetMaxRunning :: "int \<Rightarrow> runner \<Rightarrow> runner" where
  "runner_SetMaxRunning n t = t\<lparr>r_maxRunning := n\<rparr>"

definition Enqueue_item :: "int \<Rightarrow> string \<Rightarrow> item" where
  "Enqueue_item p label = \<lparr>it_label = label, it_priority = p, it_queuedAt = 0\<rparr>"

datatype runner_event =
    REnqueue int string "time"
  | RTick "nat list list"
  | RActionEnd nat
  | RNodeConfigUpdated int
  | RSetMaxRunning int

fun runner_step :: "(nat \<Rightarrow> nat) \<Rightarrow> runner_event \<Rightarrow> runner \<Rightarrow> runner" where
  "runner_step grow (REnqueue p label now) t = runner_stage grow now (Enqueue_item p label) t"
| "runner_step grow (RTick ends) t = runner_run ends t"
| "runner_step grow (RActionEnd i) t = action_end i t"
| "runner_step grow (RNodeConfigUpdated n) t = runner_onNodeConfigUpdated n t"
| "runner_step grow (RSetMaxRunning n) t = runner_SetMaxRunning n t"

definition runner_play :: "(nat \<Rightarrow> nat) \<Rightarrow> runner_event list \<Rightarrow> runner" where
  "runner_play grow l = fold (runner_step grow) l new_runner"

section \<open>The counter and the parallelism\<close>

text \<open>
  The counter is the number of the actions running, which 32 bits are enough for, and each was
  started below the parallelism.
\<close>

definition runner_ok :: "runner \<Rightarrow> bool" where
  "runner_ok t =
    (queue_ok (r_queue t) \<and> r_running t = int (length (r_active t)) \<and> r_running t < 2 ^ 31
     \<and> (\<forall>x n m. RStart x n m \<in> set (r_trace t) \<longrightarrow> n < m))"

lemma int32_less: "int32 n < 2 ^ 31"
  using signed_take_bit_int_less_exp [of 31 n] by (simp add: int32_def)

lemma int32_small: "0 \<le> n \<Longrightarrow> n < 2 ^ 31 \<Longrightarrow> int32 n = n"
  by (simp add: int32_def signed_take_bit_int_eq_self)

lemma action_end_ok: "runner_ok t \<Longrightarrow> runner_ok (action_end i t)"
  using int32_small [of "int (length (r_active t)) - 1"] by (cases "r_active t = []") (auto simp: runner_ok_def action_end_def)

lemma action_ends_ok: "runner_ok t \<Longrightarrow> runner_ok (fold action_end l t)"
  by (induction l arbitrary: t) (simp_all add: action_end_ok)

lemma action_start_ok:
  assumes "runner_ok t" "r_running t < int32 (r_maxRunning t)" "queue_ok q"
  shows "runner_ok (action_start x (t\<lparr>r_queue := q\<rparr>))"
proof -
  have "r_running t + 1 \<le> int32 (r_maxRunning t)" using assms(2) by simp
  then have "r_running t + 1 < 2 ^ 31" using int32_less [of "r_maxRunning t"] by linarith
  then show ?thesis using assms by (auto simp: runner_ok_def action_start_def int32_small)
qed

text \<open>The tick leaves no action waiting for a place.\<close>

lemma run_ok:
  "runner_ok t \<Longrightarrow> runner_ok (runner_run ends t)
    \<and> (hm_slice (r_queue (runner_run ends t)) = [] \<or> r_running (runner_run ends t) \<ge> int32 (r_maxRunning (runner_run ends t)))"
proof (induction ends t rule: runner_run.induct)
  case (1 ends t)
  define s where "s = (case ends of [] \<Rightarrow> t | l # _ \<Rightarrow> fold action_end l t)"
  have s: "runner_ok s" using "1.prems" by (simp add: s_def action_ends_ok split: list.split)
  have eq: "runner_run ends t = (if r_running s \<ge> int32 (r_maxRunning s) then s
        else case Queue_Pop (r_queue s) of None \<Rightarrow> s | Some (x, q) \<Rightarrow> runner_run (tl ends) (action_start x (s\<lparr>r_queue := q\<rparr>)))"
    by (subst runner_run.simps) (unfold Let_def, fold s_def, rule refl)
  show ?case
  proof (cases "r_running s \<ge> int32 (r_maxRunning s) \<or> Queue_Pop (r_queue s) = None")
    case True
    then show ?thesis using s by (auto simp: eq Queue_Pop_def split: if_splits)
  next
    case False
    then obtain x q where p: "Queue_Pop (r_queue s) = Some (x, q)" by auto
    have "queue_ok q" using Queue_Pop_ok [OF _ p] s by (simp add: runner_ok_def)
    then have "runner_ok (action_start x (s\<lparr>r_queue := q\<rparr>))" using action_start_ok [OF s] False by simp
    from "1.IH" [OF s_def _ p refl this] show ?thesis using False p by (simp add: eq)
  qed
qed

lemma runner_ok_frame:
  "runner_ok t \<Longrightarrow> queue_ok (r_queue t') \<Longrightarrow> r_running t' = r_running t \<Longrightarrow> r_active t' = r_active t \<Longrightarrow> r_trace t' = r_trace t \<Longrightarrow> runner_ok t'"
  by (simp add: runner_ok_def)

lemma runner_ok_queue: "runner_ok t \<Longrightarrow> queue_ok (r_queue t)"
  by (simp add: runner_ok_def)

lemma step_ok:
  assumes "runner_ok t"
  shows "runner_ok (runner_step grow ev t)"
proof (cases ev)
  case (REnqueue p label now)
  then show ?thesis
    using assms Queue_Push_ok [OF runner_ok_queue [OF assms]] by (intro runner_ok_frame [OF assms]) (simp_all add: runner_stage_def Let_def)
next
  case (RNodeConfigUpdated n)
  then show ?thesis
    using runner_ok_queue [OF assms] by (intro runner_ok_frame [OF assms]) (simp_all add: runner_onNodeConfigUpdated_def Let_def)
next
  case (RSetMaxRunning n)
  then show ?thesis
    using runner_ok_queue [OF assms] by (intro runner_ok_frame [OF assms]) (simp_all add: runner_SetMaxRunning_def)
qed (use assms in \<open>simp_all add: run_ok action_end_ok\<close>)

lemma play_ok: "runner_ok (runner_play grow l)"
proof -
  have "runner_ok new_runner" by (simp add: runner_ok_def new_runner_def new_queue_ok)
  then show ?thesis unfolding runner_play_def by (induction l rule: rev_induct) (simp_all add: step_ok)
qed

text \<open>
  Whatever the actions asked for, their ends and the changes of the parallelism, the counter of 32
  bits is the number of the actions running, each of which was started below the parallelism; and a
  tick leaves no action waiting for a place, whichever end while it starts the others.
\<close>

theorem runner_bounded:
  "let t = runner_play grow l; t' = runner_run ends t
   in r_running t = int (length (r_active t))
    \<and> {(n, m). \<exists>x. RStart x n m \<in> set (r_trace t)} \<subseteq> {(n, m). n < m}
    \<and> (hm_slice (r_queue t') = [] \<or> r_running t' \<ge> int32 (r_maxRunning t'))"
  using play_ok [of grow l] run_ok [OF play_ok [of grow l], of ends] by (auto simp: Let_def runner_ok_def)

section \<open>The priorities\<close>

lemma sort_least:
  assumes "mset l = add_mset x (mset l')" "\<forall>y \<in> set l. f x \<le> f y"
  shows "sort (map f l) = f x # sort (map f l')"
proof (rule properties_for_sort)
  show "mset (f x # sort (map f l')) = mset (map f l)" using assms(1) by simp
  have "set l' \<subseteq> set l" using assms(1) by (metis insert_subset order_refl set_mset_add_mset_insert set_mset_mset)
  then show "sorted (f x # sort (map f l'))" using assms(2) by auto
qed

lemma run_order:
  "runner_ok t \<Longrightarrow> \<exists>started. r_active (runner_run [] t) = r_active t @ started
    \<and> map it_priority started = take (nat (int32 (r_maxRunning t) - r_running t)) (sort (map it_priority (hm_slice (r_queue t))))
    \<and> mset (hm_slice (r_queue (runner_run [] t))) + mset started = mset (hm_slice (r_queue t))"
proof (induction "[] :: nat list list" t rule: runner_run.induct)
  case (1 t)
  have eq: "runner_run [] t = (if r_running t \<ge> int32 (r_maxRunning t) then t
        else case Queue_Pop (r_queue t) of None \<Rightarrow> t | Some (x, q) \<Rightarrow> runner_run [] (action_start x (t\<lparr>r_queue := q\<rparr>)))"
    by (subst runner_run.simps) (simp split: option.split)
  show ?case
  proof (cases "r_running t \<ge> int32 (r_maxRunning t) \<or> Queue_Pop (r_queue t) = None")
    case True
    then show ?thesis by (auto simp: eq Queue_Pop_def split: if_splits)
  next
    case False
    then obtain x q where p: "Queue_Pop (r_queue t) = Some (x, q)" by auto
    let ?s = "action_start x (t\<lparr>r_queue := q\<rparr>)"
    have q: "queue_ok q" "mset (hm_slice (r_queue t)) = add_mset x (mset (hm_slice q))" "\<forall>y \<in> set (hm_slice (r_queue t)). it_priority x \<le> it_priority y"
      using Queue_Pop_ok [OF _ p] "1.prems" by (simp_all add: runner_ok_def)
    have s: "runner_ok ?s" using action_start_ok [OF "1.prems"] False q(1) by simp
    then have run: "r_running ?s = r_running t + 1" using "1.prems" by (simp add: runner_ok_def action_start_def)
    obtain started where st: "r_active (runner_run [] ?s) = r_active ?s @ started"
      "map it_priority started = take (nat (int32 (r_maxRunning ?s) - r_running ?s)) (sort (map it_priority (hm_slice (r_queue ?s))))"
      "mset (hm_slice (r_queue (runner_run [] ?s))) + mset started = mset (hm_slice (r_queue ?s))"
      using "1.hyps" [of t "(x, q)" x q] False p s by auto
    have "nat (int32 (r_maxRunning t) - r_running t) = Suc (nat (int32 (r_maxRunning ?s) - r_running ?s))"
      unfolding run using False by (simp add: action_start_def Suc_nat_eq_nat_zadd1)
    moreover have "r_queue ?s = q" "r_active ?s = r_active t @ [x]" by (simp_all add: action_start_def)
    ultimately have "r_active (runner_run [] t) = r_active t @ (x # started)
      \<and> map it_priority (x # started) = take (nat (int32 (r_maxRunning t) - r_running t)) (sort (map it_priority (hm_slice (r_queue t))))
      \<and> mset (hm_slice (r_queue (runner_run [] t))) + mset (x # started) = mset (hm_slice (r_queue t))"
      using st False p q sort_least [OF q(2,3)] by (simp add: eq)
    then show ?thesis by blast
  qed
qed

text \<open>
  C20. A tick starts the actions of the least priorities of the queue, in their order, as many as there
  are places, and leaves the others: the heap of the queue does what sorting it would do.
\<close>

theorem runner_starts_by_priority:
  "let t = runner_play grow l; t' = runner_run [] t
   in \<exists>started. r_active t' = r_active t @ started
    \<and> map it_priority started = take (nat (int32 (r_maxRunning t) - r_running t)) (sort (map it_priority (hm_slice (r_queue t))))
    \<and> mset (hm_slice (r_queue t')) + mset started = mset (hm_slice (r_queue t))"
  unfolding Let_def by (rule run_order [OF play_ok])

end
