(* ===== verification/Spec2Isabelle.thy ===== *)
theory Spec2Isabelle
  imports Omon Cluster_Lock Imon_Worker Replication Nmon_Worker Rbac Hb_Alive Hb_Drop Hb_Main Hb_Links Icfg_Props Sched_Live Runner
begin

text \<open>
  OpenSVC om3 is a cluster manager: on every node a daemon watches the objects (services, volumes,
  configurations) installed there, agrees with the daemons of the other nodes on what should run
  where, and forks the commands that start, stop, provision or move the instances. This library
  models the part of the daemon that decides, from the data it works on up to its workers, and
  proves what a user of the cluster relies on. The repository is under \<open>src/\<close>; paths below are
  relative to it.

  \<^bold>\<open>The parts of the program and how they interact.\<close> A message bus connects the workers of
  a daemon. An instance monitor (\<open>daemon/imon\<close>), one per object on every node of its scope, elects
  leaders, orchestrates the instance, restarts its resources. The object monitor (\<open>daemon/omon\<close>)
  aggregates the instances of all the nodes in one object status. The node monitor (\<open>daemon/nmon\<close>)
  freezes, drains and rejoins the node, fences the node when it is on the losing side of a split,
  and names the node that speaks for the cluster. The daemon data (\<open>daemon/daemondata\<close>) keeps what
  is known of the cluster and exchanges it with the peers over the heartbeats (\<open>daemon/hb\<close>), which
  also say which peers are alive. The configuration of an object is evaluated by its manager
  (\<open>daemon/icfg\<close>) and spread to the nodes of its scope by the discovery (\<open>daemon/discover\<close>). The
  speaker keeps the table of the cluster locks (\<open>daemon/locktable\<close>, \<open>daemon/daemonapi\<close>). The API
  checks what a user may do (\<open>daemon/rbac\<close>). The scheduler (\<open>daemon/scheduler\<close>) runs the jobs of the
  node and of the objects when they are due, and the runner (\<open>daemon/runner\<close>) the actions the
  instance monitors ask for, by priority.

  \<^bold>\<open>Theories, in the order they build on each other.\<close>

  \<^item> \<open>Prelude\<close>: instants and durations, Go maps as association lists, the helpers on string
    slices, and three interfaces as locales. \<open>text_codec\<close>: a value of an enumeration reads back
    from its text. \<open>order_free\<close> and \<open>aggregation\<close>: folding an operation over a Go map, whose
    iteration order is unspecified, gives the same result in every order.

  \<^item> \<open>Status\<close>, \<open>Provisioned\<close>, \<open>Placement\<close>: \<open>core/status\<close>, \<open>core/provisioned\<close>,
    \<open>core/placement\<close>, \<open>core/topology\<close>, enumerations with their string tables and merges. The
    status algebra interprets \<open>aggregation\<close>; the merge of provisioned states does not, since it is
    not commutative (a finding).

  \<^item> \<open>Naming\<close>: object paths, kinds, relations, resource ids and host names (\<open>core/naming\<close>,
    \<open>core/resourceid\<close>, \<open>util/hostname\<close>). The path round trip is stated with its two exceptions.

  \<^item> \<open>Flagfile\<close>: the files that keep the frozen and stopped-on-purpose flags (\<open>core/flagfile\<close>,
    \<open>core/freeze\<close>), with the identity of the file so that a flag is lowered only by its owner.

  \<^item> \<open>Instance\<close>: the records of \<open>core/instance\<close>, \<open>core/node\<close> and the evaluation of the status of
    an instance from its resources (\<open>core/object/actor_status.go\<close>), which does not depend on the
    order of the resources. \<open>Writes\<close>: the records of \<open>core/object/writes.go\<close>, which tell how old
    a copy of the data is.

  \<^item> \<open>Omon\<close>: the object monitor, its state machine, and the aggregation; a step that indexes a
    counting array out of range is a panic, which decoded statuses are shown never to cause.

  \<^item> \<open>Imon_State\<close>, \<open>Imon_Frame\<close>: the manager of an instance monitor as the record \<open>imon\<close>, its
    environment, the trace of its effects, its commands; the frame rules, and the locale \<open>forks\<close>:
    what a command forked adds to the trace, interpreted on every command of \<open>crm_actions.go\<close>.

  \<^item> \<open>Md5\<close>, \<open>Imon_Leader\<close>: the placement policies, affinities and leader rules. Monitors with the
    same view elect at most as many leaders as the object may run instances, and exactly the first
    candidates when nothing is being thawed.

  \<^item> \<open>Imon_Converge\<close>, \<open>Imon_Start_Stop\<close>, \<open>Imon_Place\<close>, \<open>Imon_Provision\<close>, \<open>Imon_Resize\<close>,
    \<open>Imon_Restarted\<close>, \<open>Imon_Resources\<close>: one theory per family of orchestrations, each function of
    the source a definition. They show when a command is forked: which states, flags and peers allow
    a start, a stop, a provision, a purge, a fence, a restart. \<open>Imon_Cluster\<close> is the step relation
    of the monitors of an object with delayed messages between them; \<open>Imon_Resize\<close> and
    \<open>Imon_Restarted\<close> prove on it, by rule induction, that a resize goes in lock step and that a
    rolling restart takes one instance down at a time.

  \<^item> \<open>Imon_Handlers\<close>, \<open>Imon_Peers\<close>, \<open>Imon_Worker\<close>: the dispatch, every message handler, command
    and timer, and the loop of the worker, whose invariant and outcome of requests are proved over
    every sequence of events.

  \<^item> \<open>Locktable\<close>, \<open>Cluster_Lock\<close>: the table of the locks implements an abstract lock service,
    stated as the locale \<open>lock_service\<close> and interpreted on the abstract map and on the table; then
    the handlers and a model of the cluster with clocks, late messages and changes of speaker, on
    which the exclusion of the holders is an invariant, under conditions shown necessary by a run
    that breaks it.

  \<^item> \<open>Cluster_Data\<close>, \<open>Daemondata\<close>, \<open>Replication\<close>: the data of the cluster and the change every
    message makes to it; the gens, the queue of events, and the ping, full and patch messages; over a
    network that loses, repeats and reorders messages, with daemons that restart, what a node holds
    of a peer is the data the peer had at the gen recorded, and a peer that holds nothing catches up.

  \<^item> \<open>Nmon_State\<close>, \<open>Nmon_Quorum\<close>, \<open>Nmon_Orchestrate\<close>, \<open>Nmon\<close>, \<open>Nmon_Worker\<close>: the node monitor.
    \<open>Nmon_Quorum\<close> says which sides of a split go on; \<open>Nmon_Worker\<close> states, with the locale
    \<open>nmon_keeps\<close>, what a property must satisfy to be kept by every operation, interprets it on two
    invariants, and follows the rejoin period and a freeze of the cluster.

  \<^item> \<open>Rbac\<close>: the roles and grants, the checks of the API, the grants of a token and the writes of a
    user, neither of which lets a caller exceed the grants it has.

  \<^item> \<open>Hb_Ctrl\<close>, \<open>Hb_Alive\<close>, \<open>Hb_Drop\<close>: the controller of the heartbeats (\<open>daemon/hb/hbctrl\<close>), the
    watchers of the peers with their tickers and the drop of the data of a stale peer. A peer is said
    alive exactly when a link heard from it lately, as long as no receiver is stopped; runs that stop
    one and lose the death of a peer are given. \<open>Hb_Main\<close>, \<open>Hb_Links\<close>: the messages received,
    handed over once and in order (\<open>daemon/hb/main.go\<close>, \<open>daemon/hb/hbdedup\<close>), and the life of the
    links, never started beside themselves.

  \<^item> \<open>Discover\<close>, \<open>Discover_Props\<close>: how the configurations reach the nodes (\<open>daemon/discover\<close>), for
    one object: announcements, fetches with their failures and retries, foreign configurations,
    recovery. Without local writes the configurations installed go forward (rule induction over the
    reachable states), a more recent one is installed, only a foreign one is removed, and an object
    being removed is not brought back.

  \<^item> \<open>Icfg\<close>, \<open>Icfg_Props\<close>: the manager of the configuration of a local instance (\<open>daemon/icfg\<close>),
    over the accessors of the evaluator. What it publishes is well formed and for this node; its
    messages refine an abstract life of an instance.

  \<^item> \<open>Go_Heap\<close>: \<open>container/heap\<close> of the standard library, with the locale \<open>heap_ops\<close>, what a type
    stored as a heap promises: its comparison reads a rank, its exchange swaps two elements. It is
    interpreted on the queue of the scheduler and on the one of the runner.

  \<^item> \<open>Sched_Jobs\<close>, \<open>Sched_Queue\<close>: the jobs of the scheduler, planned in a heap where each keeps its
    position (\<open>daemon/scheduler/queue.go\<close>), and the invariant of its operations. \<open>Sched_Trigger\<close>: the
    events that run a job and their pace (\<open>core/schedule/on.go\<close>, \<open>trigger.go\<close>). \<open>Scheduler\<close>: the
    planning, the requirements, the runs and the handlers (\<open>main.go\<close>). \<open>Sched_Props\<close> shows, over
    every sequence of events, that the jobs known are the ones planned, that a tick loses none of them,
    that the runs stay within the parallelism and the pace; \<open>Sched_Live\<close> that a job due whose
    requirements are met starts.

  \<^item> \<open>Runner\<close>: the queue of priorities (\<open>util/prioqueue\<close>) and the runner (\<open>daemon/runner\<close>): a tick
    starts the actions of the least priorities, as many as there are places, and the counter of 32 bits
    never wraps.

  \<^bold>\<open>Conventions.\<close> A worker handles one message at a time, so a handler is a function of an
  environment (the clock, the exit codes of the commands, the caches of the daemon, what a file
  gives) and of the state of the worker; publications, forks and system calls are entries of a trace.
  A goroutine that waits for a command posts its outcome, which comes back to the worker as an event.
  Errors are values: \<open>None\<close>, a sum or an error flag. A Go map is an association list whose order is
  the one an iteration visits it in, and results that must not depend on it are proved so. Code that
  is not in the repository, and the parts of the repository not modelled, are fields of the
  environments, over which every theorem quantifies.

  \<^bold>\<open>Bounds.\<close> Instants are integers counting nanoseconds, one value of the clock per handler.
  Gens, identifiers of orchestrations and process counters do not wrap. The wait of a lock request
  is a recursion on the rounds left; the bound of the rounds is the timeout of the request divided
  by the pause between two tries, and the theorem on its end computes it. No other definition uses
  fuel: the loops of the source run over lists and maps.

  \<^bold>\<open>Not modelled.\<close> The input and output with the system and the other nodes: the sockets and
  disks of the heartbeats, the HTTP layer of the API (mostly generated), the drivers, the collector,
  the DNS. The JSON coding of the messages: a message arrives as it was sent. Within the parts above:
  the files of the resources fetched by an instance monitor, the networks, pools, SAN paths, the
  content of the certificates and the file of the nodes' information of the node monitor, the
  comparison of two full messages that only chooses what to publish, the caches of the packages, the
  globs and names of \<open>core/naming\<close> used by the command line, the watches on the file system, the
  claims, holds and schedules of a configuration, the install of the keys of a fetched data store, the
  calendar of the schedule expressions (\<open>util/schedule\<close>), whose next date is a parameter of the
  scheduler, and the argument lists of the jobs. The actions on the resources, run by the commands the
  monitors fork, and the command line itself.
\<close>

end
